(* ===== verification/Prelude.thy ===== *)
theory Prelude
  imports Main "HOL-Library.Sublist"
begin

section \<open>Prelude: Go values, errors and strings\<close>

text \<open>
  What every component of the model shares.  A Go \<open>string\<close> is a sequence of bytes and so is an
  Isabelle \<open>string\<close>; \<open>time.Time\<close> is an \<open>int\<close>, the nanoseconds since Go's zero instant (so
  \<open>IsZero\<close> is equality with 0); \<open>time.Duration\<close> is an \<open>int\<close> of nanoseconds.  A function that
  returns \<open>(T, error)\<close> returns a sum: \<open>Inl\<close> the error, \<open>Inr\<close> the value.  The lemmas below are
  declared so that \<open>simp\<close> and \<open>auto\<close> carry the component proofs.
\<close>

subsection \<open>Theorem collections\<close>

named_theorems frame_simps \<open>fields an operation leaves alone\<close>
named_theorems inv_intros \<open>operations that keep a component's invariant\<close>

subsection \<open>Errors\<close>

text \<open>
  \<open>Errorf\<close> is an error made with \<open>fmt.Errorf\<close> or \<open>errors.New\<close> at the point of failure;
  \<open>Sentinel\<close> is one of the package's exported error variables, known by its text; \<open>Wrapf\<close> is
  \<open>fmt.Errorf\<close> with a prefix and \<open>%w\<close>, \<open>Wrap_Then\<close> with \<open>%w\<close> and what follows.  \<open>errors_is\<close> is \<open>errors.Is\<close> against a sentinel, which
  looks through the wrapping; \<open>err_text\<close> is the \<open>Error\<close> method.
\<close>

datatype gerror =
    Errorf string
  | Sentinel string
  | Wrapf string gerror
  | Wrap_Then gerror string

type_synonym 'a res = "gerror + 'a"

primrec err_text :: "gerror \<Rightarrow> string" where
  "err_text (Errorf t) = t"
| "err_text (Sentinel t) = t"
| "err_text (Wrapf p e) = p @ err_text e"
| "err_text (Wrap_Then e t) = err_text e @ t"

primrec errors_is :: "gerror \<Rightarrow> gerror \<Rightarrow> bool" where
  "errors_is (Errorf t) s = False"
| "errors_is (Sentinel t) s = (Sentinel t = s)"
| "errors_is (Wrapf p e) s = errors_is e s"
| "errors_is (Wrap_Then e t) s = errors_is e s"

subsection \<open>Dynamic values\<close>

text \<open>
  The typed values the ingress puts in an event's payload (\<open>chat.IncomingDocument\<close> and
  \<open>chat.WebAttachment\<close>): metadata of what a platform attached, never a local path.
\<close>

record incoming_document =
  doc_filename :: string
  doc_content_type :: string
  doc_size :: int
  doc_data_b64 :: string

record web_attachment =
  att_url :: string
  att_filename :: string
  att_content_type :: string
  att_size :: int

text \<open>
  The values a \<open>map[string]any\<close> holds; \<open>VFloat m e\<close> is the finite \<open>float64\<close>
  \<open>m * 2 ^ e\<close>.  \<open>VOther\<close> stands for a value of any other Go type, which the modelled code only passes along.  \<open>str_of\<close>
  and \<open>bool_of\<close> are the comma-ok assertions \<open>x, _ := m[k].(string)\<close> and
  \<open>x, _ := m[k].(bool)\<close>: a missing key or another type gives the zero value.
\<close>

datatype gval =
    VStr string
  | VBool bool
  | VInt int
  | VFloat int int
  | VStrs "string list"
  | VList "gval list"
  | VMap "(string \<times> gval) list"
  | VDocument "incoming_document option"
  | VAttachments "web_attachment list"
  | VOther nat

type_synonym gmap = "string \<rightharpoonup> gval"

fun str_of :: "gval option \<Rightarrow> string" where
  "str_of (Some (VStr s)) = s"
| "str_of _ = []"

fun bool_of :: "gval option \<Rightarrow> bool" where
  "bool_of (Some (VBool b)) = b"
| "bool_of _ = False"

text \<open>
  \<open>int(f)\<close> truncates toward zero; a value that does not fit in 64 bits gives the least integer, as
  the conversion does on amd64.
\<close>

fun trunc_float :: "int \<Rightarrow> int \<Rightarrow> int" where
  "trunc_float m e =
     (let a = (if e \<ge> 0 then \<bar>m\<bar> * 2 ^ nat e else \<bar>m\<bar> div 2 ^ nat (- e));
          v = (if m < 0 then - a else a)
      in if - (2 ^ 63) \<le> v \<and> v < 2 ^ 63 then v else - (2 ^ 63))"

text \<open>
  \<open>x, _ := m[k].(*chat.IncomingDocument)\<close>, whose zero value is nil, and
  \<open>x, _ := m[k].([]chat.WebAttachment)\<close>.
\<close>

fun document_of :: "gval option \<Rightarrow> incoming_document option" where
  "document_of (Some (VDocument d)) = d"
| "document_of _ = None"

fun attachments_of :: "gval option \<Rightarrow> web_attachment list" where
  "attachments_of (Some (VAttachments xs)) = xs"
| "attachments_of _ = []"

text \<open>A Go map may be nil; reading a nil map is reading an empty one.\<close>

definition map_of_nil :: "('k \<rightharpoonup> 'v) option \<Rightarrow> ('k \<rightharpoonup> 'v)" where
  "map_of_nil m = (case m of None \<Rightarrow> Map.empty | Some f \<Rightarrow> f)"

lemma map_of_nil_simps [simp]:
  "map_of_nil None = Map.empty"
  "map_of_nil (Some f) = f"
  by (simp_all add: map_of_nil_def)

subsection \<open>Strings\<close>

text \<open>
  \<open>strings.TrimSpace\<close> removes leading and trailing Unicode white space.  The white space runes are
  given by their UTF-8 encodings; as UTF-8 is self-synchronizing, a string begins (ends) with such
  a rune exactly when it begins (ends) with one of these byte sequences.
\<close>

definition space_runes :: "string list" where
  "space_runes =
     [[CHR 0x09], [CHR 0x0A], [CHR 0x0B], [CHR 0x0C], [CHR 0x0D], [CHR 0x20],
      [CHR 0xC2, CHR 0x85], [CHR 0xC2, CHR 0xA0], [CHR 0xE1, CHR 0x9A, CHR 0x80],
      [CHR 0xE2, CHR 0x80, CHR 0x80], [CHR 0xE2, CHR 0x80, CHR 0x81],
      [CHR 0xE2, CHR 0x80, CHR 0x82], [CHR 0xE2, CHR 0x80, CHR 0x83],
      [CHR 0xE2, CHR 0x80, CHR 0x84], [CHR 0xE2, CHR 0x80, CHR 0x85],
      [CHR 0xE2, CHR 0x80, CHR 0x86], [CHR 0xE2, CHR 0x80, CHR 0x87],
      [CHR 0xE2, CHR 0x80, CHR 0x88], [CHR 0xE2, CHR 0x80, CHR 0x89],
      [CHR 0xE2, CHR 0x80, CHR 0x8A], [CHR 0xE2, CHR 0x80, CHR 0xA8],
      [CHR 0xE2, CHR 0x80, CHR 0xA9], [CHR 0xE2, CHR 0x80, CHR 0xAF],
      [CHR 0xE2, CHR 0x81, CHR 0x9F], [CHR 0xE3, CHR 0x80, CHR 0x80]]"

text \<open>\<open>strip ws s\<close> removes prefixes listed in \<open>ws\<close> until none is left.\<close>

function strip :: "string list \<Rightarrow> string \<Rightarrow> string" where
  "strip ws s =
     (case find (\<lambda>w. w \<noteq> [] \<and> prefix w s) ws of
        None \<Rightarrow> s
      | Some w \<Rightarrow> strip ws (drop (length w) s))"
  by pat_completeness auto
termination
proof (relation "measure (\<lambda>(ws, s). length s)")
  fix ws s w
  assume "find (\<lambda>w. w \<noteq> [] \<and> prefix w s) ws = Some w"
  then have "w \<noteq> []" and "prefix w s" by (auto simp: find_Some_iff)
  then have "0 < length w" and "length w \<le> length s" by (auto dest: prefix_length_le)
  then show "((ws, drop (length w) s), ws, s) \<in> measure (\<lambda>(ws, s). length s)"
    by (cases s; cases w) auto
qed simp

declare strip.simps [simp del]

definition trim_left :: "string \<Rightarrow> string" where
  "trim_left s = strip space_runes s"

definition trim_right :: "string \<Rightarrow> string" where
  "trim_right s = rev (strip (map rev space_runes) (rev s))"

definition trim_space :: "string \<Rightarrow> string" where
  "trim_space s = trim_right (trim_left s)"

lemma strip_suffix: "suffix (strip ws s) s"
proof (induction ws s rule: strip.induct)
  case (1 ws s)
  show ?case
  proof (cases "find (\<lambda>w. w \<noteq> [] \<and> prefix w s) ws")
    case None
    then show ?thesis by (simp add: strip.simps [of ws s])
  next
    case (Some w)
    with 1 [OF Some] have "suffix (strip ws s) (drop (length w) s)"
      by (simp add: strip.simps [of ws s])
    then show ?thesis using suffix_drop suffix_order.trans by blast
  qed
qed

lemma strip_no_prefix:
  "w \<in> set ws \<Longrightarrow> w \<noteq> [] \<Longrightarrow> \<not> prefix w (strip ws s)"
proof (induction ws s rule: strip.induct)
  case (1 ws s)
  show ?case
  proof (cases "find (\<lambda>w. w \<noteq> [] \<and> prefix w s) ws")
    case None
    then have "strip ws s = s" by (simp add: strip.simps [of ws s])
    with None "1.prems" show ?thesis by (auto simp: find_None_iff)
  next
    case (Some v)
    with 1 show ?thesis by (simp add: strip.simps [of ws s])
  qed
qed

lemma strip_id:
  "(\<And>w. w \<in> set ws \<Longrightarrow> w \<noteq> [] \<Longrightarrow> \<not> prefix w s) \<Longrightarrow> strip ws s = s"
  by (subst strip.simps) (auto split: option.splits simp: find_Some_iff)

lemma strip_idem [simp]: "strip ws (strip ws s) = strip ws s"
  by (rule strip_id) (simp add: strip_no_prefix)

lemma trim_right_prefix: "prefix (trim_right s) s"
  using strip_suffix [of "map rev space_runes" "rev s"]
  by (simp add: trim_right_def suffix_to_prefix)

lemma trim_left_no_space:
  assumes "w \<in> set space_runes" and "w \<noteq> []" and "prefix t (trim_left s)"
  shows "\<not> prefix w t"
  using assms strip_no_prefix [of w space_runes s] prefix_order.trans
  unfolding trim_left_def by blast

lemma trim_space_idem [simp]: "trim_space (trim_space s) = trim_space s"
proof -
  have "trim_left (trim_space s) = trim_space s"
    unfolding trim_left_def
    by (rule strip_id) (metis trim_left_no_space trim_right_prefix trim_space_def)
  then show ?thesis
    by (simp add: trim_space_def [of "trim_space s"]) (simp add: trim_space_def trim_right_def)
qed

lemma strip_Nil [simp]: "strip ws [] = []"
  by (rule strip_id) simp

lemma trim_space_Nil [simp]: "trim_space [] = []"
  by (simp add: trim_space_def trim_left_def trim_right_def)

lemma space_runes_nonempty [simp]: "[] \<notin> set space_runes"
  by (simp add: space_runes_def)

text \<open>\<open>strings.HasPrefix\<close>, with Go's argument order.\<close>

abbreviation has_prefix :: "string \<Rightarrow> string \<Rightarrow> bool" where
  "has_prefix s p \<equiv> prefix p s"

lemma prefix_clash: "prefix p s \<Longrightarrow> prefix q s \<Longrightarrow> prefix p q \<or> prefix q p"
  by (metis prefix_same_cases)

subsection \<open>Error texts\<close>

text \<open>
  \<open>%q\<close> in an error text: the bytes between quotes, a quote or a backslash escaped.  Nothing reads
  these texts back.
\<close>

definition go_quote :: "string \<Rightarrow> string" where
  "go_quote s =
     CHR 0x22 # concat (map (\<lambda>c. if c = CHR 0x22 \<or> c = CHR 0x5C then [CHR 0x5C, c] else [c]) s)
       @ [CHR 0x22]"

fun join_with :: "string \<Rightarrow> string list \<Rightarrow> string" where
  "join_with sep [] = []"
| "join_with sep [x] = x"
| "join_with sep (x # y # zs) = x @ sep @ join_with sep (y # zs)"

subsection \<open>Association and search\<close>

text \<open>The package-local helper \<open>contains\<close> of several packages.\<close>

fun contains_str :: "string list \<Rightarrow> string \<Rightarrow> bool" where
  "contains_str [] want = False"
| "contains_str (v # vs) want = (v = want \<or> contains_str vs want)"

lemma contains_str_iff [simp]: "contains_str vs want \<longleftrightarrow> want \<in> set vs"
  by (induction vs) auto

subsection \<open>Operations that undo themselves when they fail\<close>

text \<open>
  Several components change their state, try to save it, and put the old state back when saving
  fails.  The contract they share: a step that reports an error leaves the state as it was.
  \<open>run_ops\<close> performs a list of steps and carries on after a failed one, as callers do.
\<close>

fun run_ops :: "('a \<Rightarrow> 's \<Rightarrow> gerror option \<times> 's) \<Rightarrow> 'a list \<Rightarrow> 's \<Rightarrow> 's" where
  "run_ops step [] s = s"
| "run_ops step (a # as) s = run_ops step as (snd (step a s))"

fun successes :: "('a \<Rightarrow> 's \<Rightarrow> gerror option \<times> 's) \<Rightarrow> 'a list \<Rightarrow> 's \<Rightarrow> 'a list" where
  "successes step [] s = []"
| "successes step (a # as) s =
     (if fst (step a s) = None then a # successes step as (snd (step a s))
      else successes step as (snd (step a s)))"

locale undoing =
  fixes step :: "'a \<Rightarrow> 's \<Rightarrow> gerror option \<times> 's"
  assumes undone: "step a s = (Some e, s') \<Longrightarrow> s' = s"
begin

lemma failed_keeps: "fst (step a s) \<noteq> None \<Longrightarrow> snd (step a s) = s"
  using undone by (cases "step a s") auto

text \<open>An invariant only has to be checked for the steps that succeed.\<close>

lemma run_inv:
  assumes "\<And>a s s'. step a s = (None, s') \<Longrightarrow> I s \<Longrightarrow> I s'" and "I s"
  shows "I (run_ops step as s)"
  using assms(2)
proof (induction as arbitrary: s)
  case (Cons a as)
  have "I (snd (step a s))"
    using assms(1) [of a s] failed_keeps [of a s] Cons.prems by (cases "step a s") auto
  then show ?case using Cons.IH by simp
qed simp

text \<open>Failed steps may as well not have happened.\<close>

lemma run_successes: "run_ops step as s = run_ops step (successes step as s) s"
  by (induction as arbitrary: s) (auto simp: failed_keeps)

end

end
