(* ===== verification/Events.thy ===== *)
theory Events
  imports Prelude
begin

section \<open>Events and routes\<close>

text \<open>
  \<open>dokja_orch/internal/core/event.go\<close>: the event every ingress hands to the orchestrator, the
  domains it can be routed to, and \<open>Normalize\<close>.  A source is the text the ingress gave; a domain
  is one of the eleven constants, the only values the router, the workflow engine and the handlers
  use.
\<close>

subsection \<open>Data\<close>

datatype domain =
    DomainCommunications | DomainSystem | DomainBook | DomainChat | DomainMemory | DomainMeme
  | DomainKnowledge | DomainDigest | DomainAutomation | DomainModeration | DomainConversation

fun domain_name :: "domain \<Rightarrow> string" where
  "domain_name DomainCommunications = ''communications''"
| "domain_name DomainSystem = ''system''"
| "domain_name DomainBook = ''book''"
| "domain_name DomainChat = ''chat''"
| "domain_name DomainMemory = ''memory''"
| "domain_name DomainMeme = ''meme''"
| "domain_name DomainKnowledge = ''knowledge''"
| "domain_name DomainDigest = ''digest''"
| "domain_name DomainAutomation = ''automation''"
| "domain_name DomainModeration = ''moderation''"
| "domain_name DomainConversation = ''conversation''"

abbreviation "SourceDiscord \<equiv> ''discord''"
abbreviation "SourceDesktop \<equiv> ''desktop''"
abbreviation "SourceWhatsApp \<equiv> ''whatsapp''"
abbreviation "SourceCLI \<equiv> ''cli''"
abbreviation "SourceWeb \<equiv> ''web''"
abbreviation "SourceAPI \<equiv> ''api''"
abbreviation "SourceOrchestrator \<equiv> ''orchestrator''"

record event_user =
  eu_id :: string
  eu_name :: string

record event =
  ev_id :: string
  ev_timestamp :: int
  ev_source :: string
  ev_type :: string
  ev_user :: event_user
  ev_channel :: string
  ev_payload :: "gmap option"
  ev_context :: "gmap option"

record route =
  rt_workflow :: string
  rt_domains :: "domain list"

text \<open>Reading a key of the payload or of the context.\<close>

abbreviation payload_at :: "event \<Rightarrow> string \<Rightarrow> gval option" where
  "payload_at e k \<equiv> map_of_nil (ev_payload e) k"

abbreviation context_at :: "event \<Rightarrow> string \<Rightarrow> gval option" where
  "context_at e k \<equiv> map_of_nil (ev_context e) k"

lemma domain_name_inject [simp]: "domain_name a = domain_name b \<longleftrightarrow> a = b"
  by (cases a; cases b) simp_all

subsection \<open>Normalize\<close>

text \<open>
  \<open>(*Event).Normalize\<close> changes the event in place and may stop with an error half way, so the
  model returns the event as it is left and the error.  \<open>fresh\<close> is what \<open>uuid.NewString\<close> would
  give and \<open>now\<close> what \<open>time.Now\<close> would; the nil receiver is the only way to get no event back.
  \<open>UTC()\<close> changes the location an instant is shown in, not the instant.
\<close>

definition default_map :: "gmap option \<Rightarrow> gmap option" where
  "default_map m = (case m of None \<Rightarrow> Some Map.empty | Some f \<Rightarrow> Some f)"

definition trim_user :: "event_user \<Rightarrow> event_user" where
  "trim_user u = \<lparr>eu_id = trim_space (eu_id u), eu_name = trim_space (eu_name u)\<rparr>"

definition normalize :: "string \<Rightarrow> int \<Rightarrow> event option \<Rightarrow> event option \<times> gerror option" where
  "normalize fresh now e =
     (case e of
        None \<Rightarrow> (None, Some (Errorf ''event is nil''))
      | Some e0 \<Rightarrow>
          (let id = trim_space (ev_id e0);
               e1 = e0\<lparr>ev_id := if id = [] then fresh else id,
                       ev_timestamp := if ev_timestamp e0 = 0 then now else ev_timestamp e0,
                       ev_type := trim_space (ev_type e0)\<rparr>
           in if ev_type e1 = [] then (Some e1, Some (Errorf ''event type is required''))
              else (let e2 = e1\<lparr>ev_source := trim_space (ev_source e1)\<rparr>
                    in if ev_source e2 = []
                       then (Some e2, Some (Errorf ''event source is required''))
                       else (Some (e2\<lparr>ev_user := trim_user (ev_user e2),
                                      ev_channel := trim_space (ev_channel e2),
                                      ev_payload := default_map (ev_payload e2),
                                      ev_context := default_map (ev_context e2)\<rparr>), None))))"

text \<open>What an event that passed \<open>Normalize\<close> satisfies.\<close>

definition normal_event :: "event \<Rightarrow> bool" where
  "normal_event e \<longleftrightarrow>
     ev_id e \<noteq> [] \<and> ev_timestamp e \<noteq> 0 \<and>
     ev_type e \<noteq> [] \<and> trim_space (ev_type e) = ev_type e \<and>
     ev_source e \<noteq> [] \<and> trim_space (ev_source e) = ev_source e \<and>
     trim_user (ev_user e) = ev_user e \<and> trim_space (ev_channel e) = ev_channel e \<and>
     ev_payload e \<noteq> None \<and> ev_context e \<noteq> None"

lemma default_map_Some [simp]: "default_map (Some f) = Some f"
  by (simp add: default_map_def)

lemma default_map_not_None [simp]: "default_map m \<noteq> None"
  by (simp add: default_map_def split: option.split)

lemma map_of_nil_default [simp]: "map_of_nil (default_map m) = map_of_nil m"
  by (simp add: default_map_def split: option.split)

lemma trim_user_idem [simp]: "trim_user (trim_user u) = trim_user u"
  by (simp add: trim_user_def)

lemmas normalize_simps = normalize_def Let_def

text \<open>The event \<open>Normalize\<close> leaves when it succeeds, in one update.\<close>

definition normalized :: "string \<Rightarrow> int \<Rightarrow> event \<Rightarrow> event" where
  "normalized fresh now e =
     e\<lparr>ev_id := if trim_space (ev_id e) = [] then fresh else trim_space (ev_id e),
       ev_timestamp := if ev_timestamp e = 0 then now else ev_timestamp e,
       ev_type := trim_space (ev_type e), ev_source := trim_space (ev_source e),
       ev_user := trim_user (ev_user e), ev_channel := trim_space (ev_channel e),
       ev_payload := default_map (ev_payload e), ev_context := default_map (ev_context e)\<rparr>"

lemma normalize_ok:
  "snd (normalize fresh now (Some e)) = None \<longleftrightarrow>
     trim_space (ev_type e) \<noteq> [] \<and> trim_space (ev_source e) \<noteq> []"
  by (simp add: normalize_simps)

lemma normalize_eq:
  "normalize fresh now (Some e) = (Some e', None) \<longleftrightarrow>
     trim_space (ev_type e) \<noteq> [] \<and> trim_space (ev_source e) \<noteq> [] \<and> e' = normalized fresh now e"
  by (auto simp: normalize_simps normalized_def)

lemma normalize_okI:
  "trim_space (ev_type e) \<noteq> [] \<Longrightarrow> trim_space (ev_source e) \<noteq> [] \<Longrightarrow>
   normalize fresh now (Some e) = (Some (normalized fresh now e), None)"
  by (simp add: normalize_eq)

lemma normalized_simps [simp]:
  "ev_type (normalized fresh now e) = trim_space (ev_type e)"
  "ev_source (normalized fresh now e) = trim_space (ev_source e)"
  "ev_user (normalized fresh now e) = trim_user (ev_user e)"
  "ev_payload (normalized fresh now e) = default_map (ev_payload e)"
  "ev_context (normalized fresh now e) = default_map (ev_context e)"
  by (simp_all add: normalized_def)

lemma default_map_idem [simp]: "default_map (default_map m) = default_map m"
  by (simp add: default_map_def split: option.split)

lemma normalized_idem:
  assumes "fresh \<noteq> []" and "trim_space fresh = fresh" and "now \<noteq> 0"
  shows "normalized fresh' now' (normalized fresh now e) = normalized fresh now e"
  using assms by (simp add: normalized_def)

lemma normal_normalized:
  assumes "fresh \<noteq> []" and "now \<noteq> 0"
    and "trim_space (ev_type e) \<noteq> []" and "trim_space (ev_source e) \<noteq> []"
  shows "normal_event (normalized fresh now e)"
  using assms by (simp add: normal_event_def) (simp add: normalized_def)

text \<open>
  \<open>Event.Normalize\<close> succeeds exactly when the event has a type and a source that are not only
  white space; the event it leaves is then normal (identified, stamped, trimmed, with maps that are
  not nil), keeps the payload and the context as they read, and normalizing it again, whatever the
  next identifier and clock would be, succeeds and changes nothing.
\<close>

theorem normalize_correct:
  assumes "fresh \<noteq> []" and "trim_space fresh = fresh" and "now \<noteq> 0"
  shows "case normalize fresh now (Some e) of
           (Some e', None) \<Rightarrow>
             trim_space (ev_type e) \<noteq> [] \<and> trim_space (ev_source e) \<noteq> [] \<and> normal_event e' \<and>
             map_of_nil (ev_payload e') = map_of_nil (ev_payload e) \<and>
             map_of_nil (ev_context e') = map_of_nil (ev_context e) \<and>
             (\<forall>fresh' now'. normalize fresh' now' (Some e') = (Some e', None))
         | (_, Some _) \<Rightarrow> trim_space (ev_type e) = [] \<or> trim_space (ev_source e) = []
         | (None, None) \<Rightarrow> False"
proof (cases "trim_space (ev_type e) \<noteq> [] \<and> trim_space (ev_source e) \<noteq> []")
  case True
  with assms show ?thesis
    by (simp add: normalize_okI normal_normalized normalized_idem)
next
  case False
  then show ?thesis by (auto simp: normalize_simps)
qed

theorem normalize_correct_witness:
  "case normalize ''id-1'' 7
      (Some \<lparr>ev_id = '' '', ev_timestamp = 0, ev_source = ''cli '', ev_type = '' message.created'',
             ev_user = \<lparr>eu_id = [], eu_name = []\<rparr>, ev_channel = [], ev_payload = None,
             ev_context = None\<rparr>) of
      (Some e', None) \<Rightarrow> normal_event e'
    | _ \<Rightarrow> False"
proof -
  let ?e = "\<lparr>ev_id = '' '', ev_timestamp = 0, ev_source = ''cli '', ev_type = '' message.created'',
             ev_user = \<lparr>eu_id = [], eu_name = []\<rparr>, ev_channel = [], ev_payload = None,
             ev_context = None\<rparr> :: event"
  have fresh: "trim_space ''id-1'' = ''id-1''" by code_simp
  have "trim_space '' message.created'' = ''message.created''" and "trim_space ''cli '' = ''cli''"
    by code_simp+
  then show ?thesis
    using normalize_correct [of "''id-1''" 7 ?e] fresh by (auto split: prod.splits option.splits)
qed

end
