(* ===== verification/Go_Text.thy ===== *)
theory Go_Text
  imports Prelude
begin

section \<open>Text of the Go standard library\<close>

text \<open>
  What the program uses of \<open>unicode/utf8\<close>, \<open>strings\<close> and \<open>path\<close>: decoding bytes into runes (an
  invalid byte is the rune U+FFFD of width 1), counting and cutting by runes, splitting, cutting
  and trimming.  A rune is a \<open>nat\<close>.
\<close>

subsection \<open>Bytes and runes\<close>

abbreviation byte :: "char \<Rightarrow> nat" where
  "byte c \<equiv> of_char c"

definition rune_error :: nat where
  "rune_error = 0xFFFD"

text \<open>
  The first byte gives the width and the range of the second byte (the table \<open>first\<close> and
  \<open>acceptRanges\<close> of \<open>unicode/utf8\<close>).
\<close>

definition utf8_first :: "nat \<Rightarrow> (nat \<times> nat \<times> nat) option" where
  "utf8_first b =
     (if 0xC2 \<le> b \<and> b \<le> 0xDF then Some (2, 0x80, 0xBF)
      else if b = 0xE0 then Some (3, 0xA0, 0xBF)
      else if b = 0xED then Some (3, 0x80, 0x9F)
      else if 0xE1 \<le> b \<and> b \<le> 0xEF then Some (3, 0x80, 0xBF)
      else if b = 0xF0 then Some (4, 0x90, 0xBF)
      else if b = 0xF4 then Some (4, 0x80, 0x8F)
      else if 0xF1 \<le> b \<and> b \<le> 0xF3 then Some (4, 0x80, 0xBF)
      else None)"

definition cont_byte :: "nat \<Rightarrow> bool" where
  "cont_byte b \<longleftrightarrow> 0x80 \<le> b \<and> b \<le> 0xBF"

text \<open>\<open>utf8.DecodeRuneInString\<close>: the rune and its width.\<close>

fun decode_rune :: "string \<Rightarrow> nat \<times> nat" where
  "decode_rune [] = (rune_error, 0)"
| "decode_rune (c # cs) =
     (let b = byte c in
      if b < 0x80 then (b, 1)
      else case utf8_first b of
        None \<Rightarrow> (rune_error, 1)
      | Some (n, lo, hi) \<Rightarrow>
          (case map byte (take (n - 1) cs) of
             [b1] \<Rightarrow>
               if n = 2 \<and> lo \<le> b1 \<and> b1 \<le> hi
               then ((b mod 32) * 64 + b1 mod 64, 2) else (rune_error, 1)
           | [b1, b2] \<Rightarrow>
               if n = 3 \<and> lo \<le> b1 \<and> b1 \<le> hi \<and> cont_byte b2
               then ((b mod 16) * 4096 + (b1 mod 64) * 64 + b2 mod 64, 3) else (rune_error, 1)
           | [b1, b2, b3] \<Rightarrow>
               if n = 4 \<and> lo \<le> b1 \<and> b1 \<le> hi \<and> cont_byte b2 \<and> cont_byte b3
               then ((b mod 8) * 262144 + (b1 mod 64) * 4096 + (b2 mod 64) * 64 + b3 mod 64, 4)
               else (rune_error, 1)
           | _ \<Rightarrow> (rune_error, 1)))"

lemma decode_rune_width_pos: "s \<noteq> [] \<Longrightarrow> 0 < snd (decode_rune s)"
  by (cases s) (auto simp: Let_def split: option.split list.split prod.split)

text \<open>The conversion \<open>[]rune(s)\<close>, each rune with its width.\<close>

function decode_all :: "string \<Rightarrow> (nat \<times> nat) list" where
  "decode_all s =
     (if s = [] then [] else decode_rune s # decode_all (drop (snd (decode_rune s)) s))"
  by pat_completeness auto
termination
proof (relation "measure length")
  fix s :: string
  assume "s \<noteq> []"
  then show "(drop (snd (decode_rune s)) s, s) \<in> measure length"
    using decode_rune_width_pos [of s] by (cases s) auto
qed simp

declare decode_all.simps [simp del] decode_rune.simps(2) [simp del]

definition runes :: "string \<Rightarrow> nat list" where
  "runes s = map fst (decode_all s)"

text \<open>\<open>utf8.RuneCountInString\<close>.\<close>

definition rune_count :: "string \<Rightarrow> nat" where
  "rune_count s = length (decode_all s)"

text \<open>\<open>utf8.ValidString\<close>: no byte decodes to an error of width 1.\<close>

definition utf8_valid :: "string \<Rightarrow> bool" where
  "utf8_valid s = list_all (\<lambda>(r, w). \<not> (r = rune_error \<and> w = 1)) (decode_all s)"

text \<open>\<open>utf8.AppendRune\<close>: surrogates and values beyond U+10FFFF become U+FFFD.\<close>

definition encode_rune :: "nat \<Rightarrow> string" where
  "encode_rune r =
     map char_of
      (if r < 0x80 then [r]
       else if r < 0x800 then [0xC0 + r div 64, 0x80 + r mod 64]
       else if (0xD800 \<le> r \<and> r \<le> 0xDFFF) \<or> 0x10FFFF < r then [0xEF, 0xBF, 0xBD]
       else if r < 0x10000 then [0xE0 + r div 4096, 0x80 + r div 64 mod 64, 0x80 + r mod 64]
       else [0xF0 + r div 262144, 0x80 + r div 4096 mod 64, 0x80 + r div 64 mod 64, 0x80 + r mod 64])"

text \<open>The conversion \<open>string(rs)\<close> of a slice of runes.\<close>

definition string_of_runes :: "nat list \<Rightarrow> string" where
  "string_of_runes rs = concat (map encode_rune rs)"

text \<open>A rune a decoder can give: a Unicode scalar value.\<close>

definition scalar :: "nat \<Rightarrow> bool" where
  "scalar r \<longleftrightarrow> r < 0xD800 \<or> (0xDFFF < r \<and> r \<le> 0x10FFFF)"

lemma decode_all_Nil [simp]: "decode_all [] = []"
  by (simp add: decode_all.simps)

lemma runes_Nil [simp]: "runes [] = []"
  by (simp add: runes_def)

lemma rune_count_Nil [simp]: "rune_count [] = 0"
  by (simp add: rune_count_def)

lemma length_runes [simp]: "length (runes s) = rune_count s"
  by (simp add: runes_def rune_count_def)

lemma mod_block: "q * n \<le> b \<Longrightarrow> b < q * n + n \<Longrightarrow> b mod n = b - q * (n::nat)"
  by (metis add.commute le_add_diff_inverse less_diff_conv2 mod_less mod_mult_self2 mult.commute)

text \<open>The value of two, three and four limbs of six bits, below the surrogates or above them.\<close>

lemma scalar_limbs2: "x < 32 \<Longrightarrow> y < 64 \<Longrightarrow> scalar (x * 64 + y)"
  unfolding scalar_def by linarith

lemma scalar_limbs3:
  assumes "x < 16" and "y < 64" and "z < 64" and "x = 13 \<Longrightarrow> y < 32"
  shows "scalar (x * 4096 + y * 64 + z)"
proof -
  consider "x = 13" | "x < 13" | "13 < x" by linarith
  then show ?thesis
    by cases (use assms in \<open>auto simp: scalar_def\<close>)
qed

lemma scalar_limbs4:
  assumes "x \<le> 4" and "y < 64" and "z < 64" and "w < 64"
    and "x = 0 \<Longrightarrow> 16 \<le> y" and "x = 4 \<Longrightarrow> y < 16"
  shows "scalar (x * 262144 + y * 4096 + z * 64 + w)"
proof -
  consider "x = 0" | "x = 4" | "0 < x" "x < 4" using assms(1) by linarith
  then show ?thesis
    by cases (use assms in \<open>auto simp: scalar_def\<close>)
qed

lemma utf8_first_three:
  assumes "utf8_first b = Some (3, lo, hi)" and "lo \<le> b1" and "b1 \<le> hi"
  shows "b mod 16 = 13 \<Longrightarrow> b1 mod 64 < 32"
proof -
  assume d: "b mod 16 = 13"
  from assms(1) have "0xE0 \<le> b" "b \<le> 0xEF" by (auto simp: utf8_first_def split: if_splits)
  with d have "b = 0xED" using mod_block [of 14 16 b] by simp
  with assms have "0x80 \<le> b1" and "b1 < 0xA0" by (auto simp: utf8_first_def)
  then show "b1 mod 64 < 32" using mod_block [of 2 64 b1] by simp
qed

lemma utf8_first_four:
  assumes "utf8_first b = Some (4, lo, hi)" and "lo \<le> b1" and "b1 \<le> hi"
  shows "b mod 8 \<le> 4" and "b mod 8 = 0 \<Longrightarrow> 16 \<le> b1 mod 64" and "b mod 8 = 4 \<Longrightarrow> b1 mod 64 < 16"
proof -
  from assms(1) have b: "0xF0 \<le> b" "b \<le> 0xF4" by (auto simp: utf8_first_def split: if_splits)
  then have m: "b mod 8 = b - 0xF0" using mod_block [of 30 8 b] by simp
  with b show "b mod 8 \<le> 4" by simp
  show "16 \<le> b1 mod 64" if "b mod 8 = 0"
  proof -
    from that m b have "b = 0xF0" by simp
    with assms show ?thesis using mod_block [of 2 64 b1] by (simp add: utf8_first_def)
  qed
  show "b1 mod 64 < 16" if "b mod 8 = 4"
  proof -
    from that m b have "b = 0xF4" by simp
    with assms show ?thesis using mod_block [of 2 64 b1] by (simp add: utf8_first_def)
  qed
qed

lemma scalar_rune_error [simp]: "scalar rune_error"
  by (simp add: scalar_def rune_error_def)

lemma decode_rune_scalar: "scalar (fst (decode_rune s))"
proof (cases s)
  case (Cons c cs)
  show ?thesis
  proof (cases "byte c < 0x80")
    case True
    then show ?thesis by (simp add: Cons decode_rune.simps Let_def scalar_def)
  next
    case False
    then show ?thesis
      by (auto simp: Cons decode_rune.simps Let_def
          intro!: scalar_limbs2 scalar_limbs3 scalar_limbs4
          intro: utf8_first_three utf8_first_four
          split: option.split list.split prod.split)
  qed
qed simp

lemma runes_scalar: "r \<in> set (runes s) \<Longrightarrow> scalar r"
proof (induction s rule: decode_all.induct)
  case (1 s)
  then show ?case
    by (cases "s = []") (auto simp: runes_def decode_all.simps [of s] decode_rune_scalar)
qed

subsection \<open>Decoding what was encoded\<close>

lemma byte_char_of: "n < 256 \<Longrightarrow> byte (char_of (n::nat)) = n"
  by simp

lemma decode_limbs2:
  assumes "2 \<le> x" and "x < 32" and "y < 64"
  shows "decode_rune ([char_of (0xC0 + x), char_of (0x80 + y)] @ s) = (x * 64 + y, 2)"
proof -
  have "(0xC0 + x) mod 32 = x" using assms mod_block [of 6 32 "0xC0 + x"] by simp
  moreover have "(0x80 + y) mod 64 = y" using assms mod_block [of 2 64 "0x80 + y"] by simp
  moreover have "byte (char_of (0xC0 + x)) = 0xC0 + x" and "byte (char_of (0x80 + y)) = 0x80 + y"
    using assms by simp_all
  ultimately show ?thesis using assms
    by (simp add: decode_rune.simps Let_def utf8_first_def)
qed

lemma decode_limbs3:
  assumes "x < 16" and "y < 64" and "z < 64" and "x = 0 \<Longrightarrow> 32 \<le> y" and "x = 13 \<Longrightarrow> y < 32"
  shows "decode_rune ([char_of (0xE0 + x), char_of (0x80 + y), char_of (0x80 + z)] @ s)
           = (x * 4096 + y * 64 + z, 3)"
proof -
  have "(0xE0 + x) mod 16 = x" using assms mod_block [of 14 16 "0xE0 + x"] by simp
  moreover have "(0x80 + y) mod 64 = y" using assms mod_block [of 2 64 "0x80 + y"] by simp
  moreover have "(0x80 + z) mod 64 = z" using assms mod_block [of 2 64 "0x80 + z"] by simp
  moreover have "byte (char_of (0xE0 + x)) = 0xE0 + x" and "byte (char_of (0x80 + y)) = 0x80 + y"
    and "byte (char_of (0x80 + z)) = 0x80 + z"
    using assms by simp_all
  ultimately show ?thesis using assms
    by (auto simp add: decode_rune.simps Let_def utf8_first_def cont_byte_def)
qed

lemma decode_limbs4:
  assumes "x \<le> 4" and "y < 64" and "z < 64" and "w < 64"
    and "x = 0 \<Longrightarrow> 16 \<le> y" and "x = 4 \<Longrightarrow> y < 16"
  shows "decode_rune ([char_of (0xF0 + x), char_of (0x80 + y), char_of (0x80 + z), char_of (0x80 + w)] @ s)
           = (x * 262144 + y * 4096 + z * 64 + w, 4)"
proof -
  have "(0xF0 + x) mod 8 = x" using assms mod_block [of 30 8 "0xF0 + x"] by simp
  moreover have "(0x80 + y) mod 64 = y" using assms mod_block [of 2 64 "0x80 + y"] by simp
  moreover have "(0x80 + z) mod 64 = z" using assms mod_block [of 2 64 "0x80 + z"] by simp
  moreover have "(0x80 + w) mod 64 = w" using assms mod_block [of 2 64 "0x80 + w"] by simp
  moreover have "byte (char_of (0xF0 + x)) = 0xF0 + x" and "byte (char_of (0x80 + y)) = 0x80 + y"
    and "byte (char_of (0x80 + z)) = 0x80 + z" and "byte (char_of (0x80 + w)) = 0x80 + w"
    using assms by simp_all
  ultimately show ?thesis using assms
    by (auto simp add: decode_rune.simps Let_def utf8_first_def cont_byte_def)
qed

lemma limb_split: "r = r div 64 * 64 + r mod (64::nat)"
  by simp

lemma scalar_limbs3_range:
  assumes "x * 4096 + y * 64 + z = r" and "y < 64" and "z < 64"
    and "0x800 \<le> r" and "r < 0x10000" and "scalar r"
  shows "x < 16" and "x = 0 \<Longrightarrow> 32 \<le> y" and "x = 13 \<Longrightarrow> y < 32"
  using assms unfolding scalar_def by linarith+

lemma scalar_limbs4_range:
  assumes "x * 262144 + y * 4096 + z * 64 + w = (r::nat)" and "y < 64" and "z < 64" and "w < 64"
    and "0x10000 \<le> r" and "r \<le> 0x10FFFF"
  shows "x \<le> 4" and "x = 0 \<Longrightarrow> 16 \<le> y" and "x = 4 \<Longrightarrow> y < 16"
  using assms by linarith+

lemma limb_join: "a = x * 64 + y \<Longrightarrow> r = a * 64 + z \<Longrightarrow> x * 4096 + y * 64 + z = (r::nat)"
  by simp

lemma limb_join4:
  "a = x * 64 + y \<Longrightarrow> b = a * 64 + z \<Longrightarrow> r = b * 64 + w \<Longrightarrow>
   x * 262144 + y * 4096 + z * 64 + w = (r::nat)"
  by simp

lemma decode_encode:
  assumes "scalar r"
  shows "decode_rune (encode_rune r @ s) = (r, length (encode_rune r))"
proof -
  consider (one) "r < 0x80" | (two) "0x80 \<le> r" "r < 0x800" | (three) "0x800 \<le> r" "r < 0x10000"
    | (four) "0x10000 \<le> r" by linarith
  then show ?thesis
  proof cases
    case one
    then show ?thesis by (simp add: encode_rune_def decode_rune.simps)
  next
    case two
    have "decode_rune ([char_of (0xC0 + r div 64), char_of (0x80 + r mod 64)] @ s)
            = (r div 64 * 64 + r mod 64, 2)"
      by (rule decode_limbs2) (use two in \<open>auto simp: less_mult_imp_div_less\<close>)
    with two show ?thesis by (simp add: encode_rune_def)
  next
    case three
    let ?x = "r div 4096" and ?y = "r div 64 mod 64" and ?z = "r mod 64"
    have val: "?x * 4096 + ?y * 64 + ?z = r"
    proof -
      have "r div 64 = ?x * 64 + ?y"
        using limb_split [of "r div 64"] div_mult2_eq [of r 64 64] by simp
      moreover have "r = r div 64 * 64 + ?z" by (rule limb_split)
      ultimately show ?thesis by (rule limb_join)
    qed
    have "decode_rune ([char_of (0xE0 + ?x), char_of (0x80 + ?y), char_of (0x80 + ?z)] @ s)
            = (?x * 4096 + ?y * 64 + ?z, 3)"
      by (intro decode_limbs3 scalar_limbs3_range [OF val _ _ three assms]) simp_all
    with three assms val show ?thesis by (auto simp add: encode_rune_def scalar_def)
  next
    case four
    let ?x = "r div 262144" and ?y = "r div 4096 mod 64" and ?z = "r div 64 mod 64" and ?w = "r mod 64"
    have r: "r \<le> 0x10FFFF" using assms four by (simp add: scalar_def)
    have val: "?x * 262144 + ?y * 4096 + ?z * 64 + ?w = r"
    proof -
      have "r div 4096 = ?x * 64 + ?y"
        using limb_split [of "r div 4096"] div_mult2_eq [of r 4096 64] by simp
      moreover have "r div 64 = r div 4096 * 64 + ?z"
        using limb_split [of "r div 64"] div_mult2_eq [of r 64 64] by simp
      moreover have "r = r div 64 * 64 + ?w" by (rule limb_split)
      ultimately show ?thesis by (rule limb_join4)
    qed
    have "decode_rune ([char_of (0xF0 + ?x), char_of (0x80 + ?y), char_of (0x80 + ?z), char_of (0x80 + ?w)] @ s)
            = (?x * 262144 + ?y * 4096 + ?z * 64 + ?w, 4)"
      by (intro decode_limbs4 scalar_limbs4_range [OF val _ _ _ four r]) simp_all
    with four r val show ?thesis by (simp add: encode_rune_def)
  qed
qed

lemma encode_rune_nonempty [simp]: "encode_rune r \<noteq> []"
  by (simp add: encode_rune_def)

lemma runes_string_of_runes:
  "(\<And>r. r \<in> set rs \<Longrightarrow> scalar r) \<Longrightarrow> runes (string_of_runes rs) = rs"
proof (induction rs)
  case (Cons r rs)
  then have "decode_rune (encode_rune r @ string_of_runes rs) = (r, length (encode_rune r))"
    by (simp add: decode_encode)
  with Cons show ?case
    by (simp add: runes_def string_of_runes_def decode_all.simps [of "encode_rune r @ _"])
qed (simp add: string_of_runes_def)

text \<open>Cutting a string after \<open>n\<close> runes, the code's \<open>string([]rune(s)[:n])\<close>.\<close>

definition cut_runes :: "nat \<Rightarrow> string \<Rightarrow> string" where
  "cut_runes n s = string_of_runes (take n (runes s))"

lemma rune_count_cut: "rune_count (cut_runes n s) = min n (rune_count s)"
proof -
  have "runes (cut_runes n s) = take n (runes s)"
    unfolding cut_runes_def
    by (rule runes_string_of_runes) (meson in_set_takeD runes_scalar)
  then have "length (runes (cut_runes n s)) = length (take n (runes s))" by simp
  then show ?thesis by (simp add: min.commute)
qed

end
