(* ===== verification/Go_URL.thy ===== *)
theory Go_URL
  imports Go_Text
begin

section \<open>URLs as Go parses them\<close>

text \<open>
  \<open>url.Parse\<close> of Go 1.25 (the version the repository pins), down to what the program reads of the
  result: whether parsing fails, the scheme, the host with its port, whether there is user
  information, and \<open>Hostname\<close>.  The text of a parse error is never read and is not modelled.
\<close>

subsection \<open>Escapes\<close>

definition is_alpha :: "char \<Rightarrow> bool" where
  "is_alpha c \<longleftrightarrow> (0x41 \<le> byte c \<and> byte c \<le> 0x5A) \<or> (0x61 \<le> byte c \<and> byte c \<le> 0x7A)"

definition is_digit :: "char \<Rightarrow> bool" where
  "is_digit c \<longleftrightarrow> 0x30 \<le> byte c \<and> byte c \<le> 0x39"

definition unhex :: "char \<Rightarrow> nat option" where
  "unhex c =
     (let b = byte c in
      if 0x30 \<le> b \<and> b \<le> 0x39 then Some (b - 0x30)
      else if 0x61 \<le> b \<and> b \<le> 0x66 then Some (b - 0x61 + 10)
      else if 0x41 \<le> b \<and> b \<le> 0x46 then Some (b - 0x41 + 10)
      else None)"

text \<open>The encodings \<open>unescape\<close> tells apart: a host, an IPv6 zone, and every other part.\<close>

datatype url_part = Host_Part | Zone_Part | Other_Part

text \<open>\<open>shouldEscape\<close> for a host or a zone.\<close>

definition should_escape_host :: "char \<Rightarrow> bool" where
  "should_escape_host c \<longleftrightarrow>
     \<not> (is_alpha c \<or> is_digit c \<or> c \<in> set ''!$&()*+,;=:[]<>-_.~'' \<or> c = CHR 0x27 \<or> c = CHR 0x22)"

fun unescape :: "url_part \<Rightarrow> string \<Rightarrow> string option" where
  "unescape m [] = Some []"
| "unescape m (c # cs) =
     (if c = CHR ''%'' then
        (case cs of
           a # b # rest \<Rightarrow>
             (case (unhex a, unhex b) of
                (Some x, Some y) \<Rightarrow>
                  if (m = Host_Part \<and> x < 8 \<and> \<not> (a = CHR ''2'' \<and> b = CHR ''5''))
                    \<or> (m = Zone_Part \<and> \<not> (a = CHR ''2'' \<and> b = CHR ''5'')
                       \<and> 16 * x + y \<noteq> 0x20 \<and> should_escape_host (char_of (16 * x + y)))
                  then None
                  else map_option (Cons (char_of (16 * x + y))) (unescape m rest)
              | _ \<Rightarrow> None)
         | _ \<Rightarrow> None)
      else if m \<noteq> Other_Part \<and> byte c < 0x80 \<and> should_escape_host c then None
      else map_option (Cons c) (unescape m cs))"

subsection \<open>Cutting\<close>

text \<open>\<open>strings.Cut\<close> at a byte: before and after its first occurrence.\<close>

definition cut_at :: "char \<Rightarrow> string \<Rightarrow> string \<times> string" where
  "cut_at c s = (takeWhile (\<lambda>x. x \<noteq> c) s, drop 1 (dropWhile (\<lambda>x. x \<noteq> c) s))"

text \<open>Before and from the last occurrence, when there is one (\<open>strings.LastIndex\<close>).\<close>

definition split_last :: "char \<Rightarrow> string \<Rightarrow> (string \<times> string) option" where
  "split_last c s =
     (if c \<in> set s
      then (let tail = rev (takeWhile (\<lambda>x. x \<noteq> c) (rev s))
            in Some (take (length s - length tail - 1) s, c # tail))
      else None)"

text \<open>Where a substring first occurs (\<open>strings.Index\<close>).\<close>

fun index_of :: "string \<Rightarrow> string \<Rightarrow> nat option" where
  "index_of w [] = (if w = [] then Some 0 else None)"
| "index_of w (c # cs) = (if prefix w (c # cs) then Some 0 else map_option Suc (index_of w cs))"

subsection \<open>The authority\<close>

definition valid_optional_port :: "string \<Rightarrow> bool" where
  "valid_optional_port port \<longleftrightarrow>
     (case port of [] \<Rightarrow> True | c # cs \<Rightarrow> c = CHR '':'' \<and> list_all is_digit cs)"

definition parse_host :: "string \<Rightarrow> string option" where
  "parse_host host =
     (if prefix ''['' host then
        (case split_last (CHR '']'') host of
           None \<Rightarrow> None
         | Some (before, from) \<Rightarrow>
             if \<not> valid_optional_port (tl from) then None
             else (case index_of ''%25'' before of
                     Some z \<Rightarrow>
                       (case (unescape Host_Part (take z before),
                              unescape Zone_Part (drop z before), unescape Host_Part from) of
                          (Some h1, Some h2, Some h3) \<Rightarrow> Some (h1 @ h2 @ h3)
                        | _ \<Rightarrow> None)
                   | None \<Rightarrow> unescape Host_Part host))
      else
        (case split_last (CHR '':'') host of
           Some (_, port) \<Rightarrow> if valid_optional_port port then unescape Host_Part host else None
         | None \<Rightarrow> unescape Host_Part host))"

definition valid_userinfo :: "string \<Rightarrow> bool" where
  "valid_userinfo s \<longleftrightarrow>
     list_all (\<lambda>c. is_alpha c \<or> is_digit c \<or> c \<in> set ''-._:~!$&()*+,;=%@'' \<or> c = CHR 0x27) s"

text \<open>\<open>parseAuthority\<close>: whether there is user information, and the host.\<close>

definition parse_authority :: "string \<Rightarrow> (bool \<times> string) option" where
  "parse_authority authority =
     (case split_last (CHR ''@'') authority of
        None \<Rightarrow> map_option (\<lambda>h. (False, h)) (parse_host authority)
      | Some (userinfo, from) \<Rightarrow>
          (case parse_host (tl from) of
             None \<Rightarrow> None
           | Some h \<Rightarrow>
               if \<not> valid_userinfo userinfo then None
               else (let (user, password) = cut_at (CHR '':'') userinfo in
                     if unescape Other_Part user = None \<or> unescape Other_Part password = None
                     then None else Some (True, h))))"

subsection \<open>Parsing\<close>

record go_url =
  url_scheme :: string
  url_host :: string
  url_user :: bool

definition empty_url :: go_url where
  "empty_url = \<lparr>url_scheme = [], url_host = [], url_user = False\<rparr>"

text \<open>
  \<open>getScheme\<close>: \<open>None\<close> is the error of a leading colon; otherwise the scheme (empty if there is
  none) and the rest.
\<close>

fun scheme_len :: "string \<Rightarrow> nat option" where
  "scheme_len [] = None"
| "scheme_len (c # cs) =
     (if c = CHR '':'' then Some 0
      else if is_alpha c \<or> is_digit c \<or> c \<in> set ''+-.'' then map_option Suc (scheme_len cs)
      else None)"

definition get_scheme :: "string \<Rightarrow> (string \<times> string) option" where
  "get_scheme raw =
     (case raw of
        [] \<Rightarrow> Some ([], raw)
      | c # _ \<Rightarrow>
          if c = CHR '':'' then None
          else if \<not> is_alpha c then Some ([], raw)
          else (case scheme_len raw of
                  None \<Rightarrow> Some ([], raw)
                | Some n \<Rightarrow> Some (take n raw, drop (Suc n) raw)))"

definition lower_byte :: "char \<Rightarrow> char" where
  "lower_byte c = (if 0x41 \<le> byte c \<and> byte c \<le> 0x5A then char_of (byte c + 32) else c)"

definition cut_query :: "string \<Rightarrow> string" where
  "cut_query rest =
     (if rest \<noteq> [] \<and> last rest = CHR ''?'' \<and> count_list rest (CHR ''?'') = 1
      then butlast rest else fst (cut_at (CHR ''?'') rest))"

text \<open>The unexported \<open>parse\<close>, called with \<open>viaRequest\<close> false.\<close>

definition parse_no_fragment :: "string \<Rightarrow> go_url option" where
  "parse_no_fragment raw =
     (if list_ex (\<lambda>c. byte c < 0x20 \<or> byte c = 0x7F) raw then None
      else if raw = ''*'' then Some empty_url
      else case get_scheme raw of
        None \<Rightarrow> None
      | Some (sch, after) \<Rightarrow>
          (let scheme = map lower_byte sch; rest = cut_query after in
           if \<not> prefix ''/'' rest \<and> scheme \<noteq> [] then Some (empty_url\<lparr>url_scheme := scheme\<rparr>)
           else if \<not> prefix ''/'' rest \<and> CHR '':'' \<in> set (fst (cut_at (CHR ''/'') rest)) then None
           else if (scheme \<noteq> [] \<or> \<not> prefix ''///'' rest) \<and> prefix ''//'' rest then
             (let authority = takeWhile (\<lambda>c. c \<noteq> CHR ''/'') (drop 2 rest);
                  path = dropWhile (\<lambda>c. c \<noteq> CHR ''/'') (drop 2 rest) in
              case parse_authority authority of
                None \<Rightarrow> None
              | Some (user, host) \<Rightarrow>
                  if unescape Other_Part path = None then None
                  else Some \<lparr>url_scheme = scheme, url_host = host, url_user = user\<rparr>)
           else if unescape Other_Part rest = None then None
           else Some (empty_url\<lparr>url_scheme := scheme\<rparr>)))"

text \<open>\<open>url.Parse\<close>.\<close>

definition url_parse :: "string \<Rightarrow> go_url option" where
  "url_parse raw =
     (let (u, frag) = cut_at (CHR ''#'') raw in
      case parse_no_fragment u of
        None \<Rightarrow> None
      | Some url \<Rightarrow>
          if frag = [] then Some url
          else if unescape Other_Part frag = None then None
          else Some url)"

text \<open>\<open>URL.Hostname\<close>: the host without its port and without the brackets of an IPv6 literal.\<close>

definition hostname :: "go_url \<Rightarrow> string" where
  "hostname u =
     (let h = url_host u;
          h1 = (case split_last (CHR '':'') h of
                  Some (before, port) \<Rightarrow> if valid_optional_port port then before else h
                | None \<Rightarrow> h)
      in if prefix ''['' h1 \<and> last h1 = CHR '']'' then butlast (tl h1) else h1)"

text \<open>The web addresses the program accepts: http or https, with a host and no credentials.\<close>

definition web_scheme :: "go_url \<Rightarrow> bool" where
  "web_scheme u \<longleftrightarrow> url_scheme u = ''https'' \<or> url_scheme u = ''http''"

lemma url_parse_example:
  "url_parse ''https://user@example.org:8080/a?b#c'' =
     Some \<lparr>url_scheme = ''https'', url_host = ''example.org:8080'', url_user = True\<rparr>"
  by code_simp

lemma url_parse_bad_escape: "url_parse ''http://example.org/%zz'' = None"
  by code_simp

end
