(* ===== verification/Chat_Content.thy ===== *)
theory Chat_Content
  imports Go_URL
begin

section \<open>Documents and links in a message\<close>

text \<open>
  \<open>dokja_domain/dokja_chat/incoming_content.go\<close> (\<open>PlanIncomingContent\<close>) and the planning half of
  \<open>web_reading.go\<close> (\<open>WebLinks\<close>, \<open>PlanWebReadings\<close>): which document or addresses of a message may
  be read.  The router asks both.
\<close>

subsection \<open>Paths and case\<close>

definition path_base :: "string \<Rightarrow> string" where
  "path_base p =
     (if p = [] then ''.''
      else (let q = rev (dropWhile (\<lambda>c. c = CHR ''/'') (rev p));
                b = rev (takeWhile (\<lambda>c. c \<noteq> CHR ''/'') (rev q))
            in if b = [] then ''/'' else b))"

definition path_ext :: "string \<Rightarrow> string" where
  "path_ext p =
     (let r = rev p; e = takeWhile (\<lambda>c. c \<noteq> CHR ''.'' \<and> c \<noteq> CHR ''/'') r
      in case drop (length e) r of
           c # _ \<Rightarrow> if c = CHR ''.'' then c # rev e else []
         | [] \<Rightarrow> [])"

text \<open>
  \<open>strings.ToLower\<close> as far as a comparison with ASCII text can tell: the runes whose lower case is
  ASCII are the ASCII capitals, U+0130 (i) and the Kelvin sign U+212A (k).
\<close>

definition lower_rune :: "nat \<Rightarrow> nat" where
  "lower_rune r =
     (if 0x41 \<le> r \<and> r \<le> 0x5A then r + 32
      else if r = 0x130 then 0x69 else if r = 0x212A then 0x6B else r)"

definition lower_for_ascii :: "string \<Rightarrow> string" where
  "lower_for_ascii s = string_of_runes (map lower_rune (runes s))"

text \<open>
  \<open>strings.EqualFold\<close> against an ASCII text without the letters k and s (the only ones a rune
  outside ASCII folds to), as the code's two uses are.
\<close>

definition equal_fold_ascii :: "string \<Rightarrow> string \<Rightarrow> bool" where
  "equal_fold_ascii s t \<longleftrightarrow> map lower_byte s = map lower_byte t"

text \<open>\<open>unicode.IsControl\<close>: the C0 and C1 control characters.\<close>

definition is_control :: "nat \<Rightarrow> bool" where
  "is_control r \<longleftrightarrow> r < 0x20 \<or> (0x7F \<le> r \<and> r \<le> 0x9F)"

text \<open>\<open>strings.Map\<close> with the function that drops control characters; an invalid byte becomes U+FFFD.\<close>

definition drop_controls :: "string \<Rightarrow> string" where
  "drop_controls s = string_of_runes (filter (\<lambda>r. \<not> is_control r) (runes s))"

subsection \<open>Incoming content\<close>

definition max_incoming_document_bytes :: int where
  "max_incoming_document_bytes = 10 * 2 ^ 20"

text \<open>\<open>base64.StdEncoding.EncodedLen\<close>.\<close>

definition base64_encoded_len :: "int \<Rightarrow> int" where
  "base64_encoded_len n = (n + 2) div 3 * 4"

record incoming_plan =
  ip_kind :: string
  ip_url :: string
  ip_error :: string
  ip_document :: "incoming_document option"

definition no_plan :: incoming_plan where
  "no_plan = \<lparr>ip_kind = [], ip_url = [], ip_error = [], ip_document = None\<rparr>"

definition readable_extensions :: "string list" where
  "readable_extensions =
     [''.pdf'', ''.docx'', ''.epub'', ''.txt'', ''.md'', ''.markdown'', ''.rst'', ''.html'', ''.htm'',
      ''.xhtml'', ''.xml'', ''.rss'', ''.atom'']"

definition slashes :: "string \<Rightarrow> string" where
  "slashes s = map (\<lambda>c. if c = CHR 0x5C then CHR ''/'' else c) s"

text \<open>The name a document is known by: the last path element, without control characters.\<close>

definition document_name :: "incoming_document \<Rightarrow> string" where
  "document_name d = trim_space (drop_controls (path_base (slashes (doc_filename d))))"

definition plan_document :: "incoming_document \<Rightarrow> incoming_plan" where
  "plan_document d =
     (let plan = no_plan\<lparr>ip_kind := ''document'', ip_document := Some d\<rparr>;
          name = document_name d
      in if name = ''.'' \<or> name = [] \<or> 200 < rune_count name
         then plan\<lparr>ip_error := ''document_unsupported''\<rparr>
         else (let plan = plan\<lparr>ip_document := Some (d\<lparr>doc_filename := name\<rparr>)\<rparr>;
                   plan = (if contains_str readable_extensions (lower_for_ascii (path_ext name)) then plan
                           else plan\<lparr>ip_error := ''document_unsupported''\<rparr>)
               in if doc_size d < 0 \<or> max_incoming_document_bytes < doc_size d
                     \<or> base64_encoded_len max_incoming_document_bytes < int (length (doc_data_b64 d))
                  then plan\<lparr>ip_error := ''document_too_large''\<rparr>
                  else plan))"

definition plan_incoming_content :: "string \<Rightarrow> incoming_document option \<Rightarrow> incoming_plan" where
  "plan_incoming_content content document =
     (case document of
        Some d \<Rightarrow> plan_document d
      | None \<Rightarrow>
          (let raw = trim_space content in
           if raw = [] \<or> 2048 < length raw
              \<or> list_ex (\<lambda>c. c \<in> {CHR '' '', CHR 0x0A, CHR 0x0D, CHR 0x09}) raw
           then no_plan
           else case url_parse raw of
             Some u \<Rightarrow>
               if web_scheme u \<and> url_host u \<noteq> [] \<and> \<not> url_user u
               then no_plan\<lparr>ip_kind := ''post'', ip_url := raw\<rparr> else no_plan
           | None \<Rightarrow> no_plan))"

subsection \<open>Links in a message\<close>

text \<open>The pattern \<open>https?://[^\s<>]+\<close>: the length of a match at the start of the text, if any.\<close>

definition link_char :: "char \<Rightarrow> bool" where
  "link_char c \<longleftrightarrow>
     c \<notin> {CHR 0x09, CHR 0x0A, CHR 0x0C, CHR 0x0D, CHR 0x20, CHR ''<'', CHR ''>''}"

definition match_link :: "string \<Rightarrow> nat" where
  "match_link s =
     (let k = (if prefix ''http://'' s then 7 else if prefix ''https://'' s then 8 else 0);
          n = length (takeWhile link_char (drop k s))
      in if k = 0 \<or> n = 0 then 0 else k + n)"

text \<open>\<open>FindAllString(message, -1)\<close>: every match, left to right, not overlapping.\<close>

function find_links :: "string \<Rightarrow> string list" where
  "find_links s =
     (if s = [] then []
      else if match_link s = 0 then find_links (tl s)
      else take (match_link s) s # find_links (drop (match_link s) s))"
  by pat_completeness auto
termination
proof (relation "measure length")
  fix s :: string
  assume "s \<noteq> []" and "match_link s \<noteq> 0"
  then show "(drop (match_link s) s, s) \<in> measure length" by (cases s) auto
qed (auto simp: neq_Nil_conv)

declare find_links.simps [simp del]

definition trim_right_set :: "char set \<Rightarrow> string \<Rightarrow> string" where
  "trim_right_set cs s = rev (dropWhile (\<lambda>c. c \<in> cs) (rev s))"

text \<open>The loop that takes closing parentheses off the end while they are not balanced.\<close>

fun close_parens :: "string \<Rightarrow> string" where
  "close_parens [] = []"
| "close_parens (c # cs) =
     (if c = CHR '')'' \<and> count_list (c # cs) (CHR ''('') < count_list (c # cs) (CHR '')'')
      then close_parens cs else c # cs)"

definition clean_link :: "string \<Rightarrow> string" where
  "clean_link raw =
     rev (close_parens (rev (trim_right_set {CHR ''.'', CHR '','', CHR '';'', CHR ''!'', CHR ''?'',
        CHR 0x22, CHR 0x27} raw)))"

definition usable_link :: "string \<Rightarrow> bool" where
  "usable_link raw \<longleftrightarrow>
     (case url_parse raw of
        None \<Rightarrow> False
      | Some u \<Rightarrow> length raw \<le> 2048 \<and> hostname u \<noteq> [] \<and> \<not> url_user u)"

text \<open>The loop of \<open>WebLinks\<close>, over the matches; \<open>acc\<close> holds the links already taken, in order.\<close>

fun collect_links :: "string list \<Rightarrow> string list \<Rightarrow> string list" where
  "collect_links acc [] = acc"
| "collect_links acc (m # ms) =
     (let raw = clean_link m in
      if \<not> usable_link raw \<or> raw \<in> set acc then collect_links acc ms
      else collect_links (acc @ [raw]) ms)"

definition web_links :: "string \<Rightarrow> string list" where
  "web_links message = collect_links [] (find_links message)"

subsection \<open>Reading requests\<close>

definition max_web_document_bytes :: int where
  "max_web_document_bytes = 25 * 2 ^ 20"

record web_request =
  wr_url :: string
  wr_error :: string

definition is_pdf :: "web_attachment \<Rightarrow> bool" where
  "is_pdf a \<longleftrightarrow>
     equal_fold_ascii (path_ext (att_filename a)) ''.pdf''
     \<or> equal_fold_ascii (att_content_type a) ''application/pdf''"

definition attachment_error :: "int \<Rightarrow> web_attachment \<Rightarrow> string" where
  "attachment_error limit a =
     (case url_parse (att_url a) of
        None \<Rightarrow> ''unreadable''
      | Some u \<Rightarrow>
          if 2048 < length (att_url a) \<or> hostname u = [] \<or> url_user u \<or> \<not> web_scheme u
          then ''unreadable''
          else if att_size a < 0 \<or> limit < att_size a then ''too_large'' else [])"

fun add_attachments :: "int \<Rightarrow> web_request list \<Rightarrow> web_attachment list \<Rightarrow> web_request list" where
  "add_attachments limit acc [] = acc"
| "add_attachments limit acc (a # as) =
     (if att_url a \<in> wr_url ` set acc then add_attachments limit acc as
      else if \<not> is_pdf a then add_attachments limit acc as
      else add_attachments limit
             (acc @ [\<lparr>wr_url = att_url a, wr_error = attachment_error limit a\<rparr>]) as)"

definition plan_web_readings_with_limit ::
    "string \<Rightarrow> web_attachment list \<Rightarrow> int \<Rightarrow> web_request list" where
  "plan_web_readings_with_limit message attachments limit =
     add_attachments limit
       (map (\<lambda>l. \<lparr>wr_url = l, wr_error = []\<rparr>) (web_links message)) attachments"

definition plan_web_readings :: "string \<Rightarrow> web_attachment list \<Rightarrow> web_request list" where
  "plan_web_readings message attachments =
     plan_web_readings_with_limit message attachments max_web_document_bytes"

subsection \<open>Properties\<close>

lemma collect_links_inv:
  assumes "distinct acc" and "\<forall>l \<in> set acc. usable_link l"
  shows "distinct (collect_links acc ms) \<and> (\<forall>l \<in> set (collect_links acc ms). usable_link l)"
  using assms
proof (induction ms arbitrary: acc)
  case (Cons m ms)
  show ?case
  proof (cases "\<not> usable_link (clean_link m) \<or> clean_link m \<in> set acc")
    case True
    then have eq: "collect_links acc (m # ms) = collect_links acc ms" by (simp add: Let_def)
    show ?thesis unfolding eq using Cons.prems by (rule Cons.IH)
  next
    case False
    then have eq: "collect_links acc (m # ms) = collect_links (acc @ [clean_link m]) ms"
      by (simp add: Let_def)
    show ?thesis unfolding eq by (rule Cons.IH) (use Cons.prems False in simp_all)
  qed
qed simp

lemma web_links_distinct: "distinct (web_links m)"
  and web_links_usable: "l \<in> set (web_links m) \<Longrightarrow> usable_link l"
  using collect_links_inv [of "[]" "find_links m"] by (simp_all add: web_links_def)

text \<open>A request without an error names an address that may be fetched.\<close>

definition fetchable :: "string \<Rightarrow> bool" where
  "fetchable raw \<longleftrightarrow>
     length raw \<le> 2048 \<and> (\<exists>u. url_parse raw = Some u \<and> hostname u \<noteq> [] \<and> \<not> url_user u)"

lemma usable_fetchable: "usable_link raw \<Longrightarrow> fetchable raw"
  by (auto simp: usable_link_def fetchable_def split: option.splits)

lemma attachment_error_fetchable: "attachment_error limit a = [] \<Longrightarrow> fetchable (att_url a)"
  by (auto simp: attachment_error_def fetchable_def split: option.splits if_splits)

lemma add_attachments_inv:
  assumes "distinct (map wr_url acc)" and "\<forall>r \<in> set acc. wr_error r = [] \<longrightarrow> fetchable (wr_url r)"
  shows "distinct (map wr_url (add_attachments limit acc as)) \<and>
         (\<forall>r \<in> set (add_attachments limit acc as). wr_error r = [] \<longrightarrow> fetchable (wr_url r))"
  using assms
  by (induction limit acc as rule: add_attachments.induct) (auto simp: attachment_error_fetchable)

text \<open>
  Whatever a message says and whatever is attached to it, the reading requests planned for it
  name each address once, and every one without an error is a URL of at most 2048 bytes that Go
  parses, with a host and without credentials: an unreadable address is always marked.
\<close>

theorem plan_web_readings_safe:
  "distinct (map wr_url (plan_web_readings message attachments)) \<and>
   wr_url ` {r \<in> set (plan_web_readings message attachments). wr_error r = []} \<subseteq> Collect fetchable"
proof -
  have "distinct (map wr_url (map (\<lambda>l. \<lparr>wr_url = l, wr_error = []\<rparr>) (web_links message)))"
    by (simp add: comp_def web_links_distinct)
  from add_attachments_inv [OF this]
  show ?thesis
    by (fastforce simp: plan_web_readings_def plan_web_readings_with_limit_def
        intro: usable_fetchable web_links_usable)
qed

end
