(* ===== verification/Router.thy ===== *)
theory Router
  imports Events Chat_Content
begin

section \<open>Routing events\<close>

text \<open>
  \<open>dokja_orch/internal/core/router.go\<close>: the rule-based router.  The rules are tried in the order of
  the code's \<open>switch\<close>.  The contract the service relies on is the locale \<open>event_router\<close>.
\<close>

subsection \<open>The rules\<close>

definition gateway_inbound :: "event \<Rightarrow> bool" where
  "gateway_inbound e = bool_of (context_at e ''gateway_inbound'')"

definition chat_message_content :: "event \<Rightarrow> string" where
  "chat_message_content e = str_of (payload_at e ''content'')"

definition has_web_reading :: "event \<Rightarrow> bool" where
  "has_web_reading e \<longleftrightarrow>
     plan_web_readings (chat_message_content e) (attachments_of (payload_at e ''document_attachments'')) \<noteq> []"

definition has_incoming_content :: "event \<Rightarrow> bool" where
  "has_incoming_content e \<longleftrightarrow>
     ip_kind (plan_incoming_content (str_of (payload_at e ''content'')) (document_of (payload_at e ''document''))) \<noteq> []"

definition mk_route :: "string \<Rightarrow> domain list \<Rightarrow> route" where
  "mk_route workflow domains = \<lparr>rt_workflow = workflow, rt_domains = domains\<rparr>"

text \<open>The \<open>switch\<close> of \<open>route\<close>, on the trimmed event type.\<close>

definition route_switch :: "event \<Rightarrow> string \<Rightarrow> route" where
  "route_switch e t =
       (if t = ''meme.dispatch.scheduled'' then mk_route ''meme-dispatch'' [DomainSystem]
        else if t = ''services.set'' \<or> t = ''scheduler.jobs.set'' \<or> t = ''scheduler.jobs.announce''
             \<or> t = ''chat.profiles.list'' \<or> t = ''chat.profile.use''
        then mk_route ''admin'' [DomainSystem]
        else if t = ''communications.send'' then mk_route ''communications-send'' [DomainSystem]
        else if has_prefix t ''communications.link.'' then mk_route ''interface-link'' [DomainSystem]
        else if has_prefix t ''voice.'' then mk_route ''voice-audio'' [DomainCommunications]
        else if has_prefix t ''communications.'' then mk_route ''communications'' [DomainCommunications]
        else if has_prefix t ''music.'' then mk_route ''music'' [DomainCommunications]
        else if t = ''discord.send'' then mk_route ''discord-send'' [DomainSystem]
        else if has_prefix t ''book.'' then mk_route ''book'' [DomainBook]
        else if has_prefix t ''knowledge.'' then mk_route ''knowledge'' [DomainKnowledge]
        else if has_prefix t ''realtime.'' then mk_route ''realtime-observer'' [DomainConversation]
        else if has_prefix t ''conversation.'' then mk_route ''conversation-archive'' [DomainConversation]
        else if has_prefix t ''digest.'' then mk_route ''digest'' [DomainDigest]
        else if has_prefix t ''ningo.'' then mk_route ''ningo'' [DomainSystem]
        else if t = ''message.created'' \<and> ev_source e = SourceWhatsApp \<and> has_incoming_content e
        then mk_route ''incoming-content'' [DomainModeration, DomainChat]
        else if t = ''message.created'' \<and> ev_source e = SourceDiscord \<and> has_web_reading e
        then mk_route ''link-conversation'' [DomainModeration, DomainChat]
        else if t = ''message.created'' \<and> ev_source e = SourceDesktop
        then mk_route ''desktop-conversation'' [DomainChat]
        else if has_prefix t ''message.'' then mk_route ''conversation'' [DomainModeration, DomainChat]
        else if has_prefix t ''meme.'' then mk_route ''meme'' [DomainMeme]
        else if has_prefix t ''memory.'' then mk_route ''memory'' [DomainMemory]
        else if has_prefix t ''automation.'' then mk_route ''automation'' [DomainAutomation]
        else if has_prefix t ''moderation.'' then mk_route ''moderation'' [DomainModeration]
        else mk_route ''default'' [DomainChat])"

definition route_rules :: "event \<Rightarrow> route res" where
  "route_rules e =
     (let t = trim_space (ev_type e) in
      if t = [] then Inl (Errorf ''event type is required'') else Inr (route_switch e t))"

text \<open>\<open>Route\<close>: the bridge's own events are authorized by Communications before anything else.\<close>

definition route_event :: "event \<Rightarrow> route res" where
  "route_event e =
     (case route_rules e of
        Inl err \<Rightarrow> Inl err
      | Inr r \<Rightarrow>
          Inr (if gateway_inbound e
               then r\<lparr>rt_domains := DomainCommunications # rt_domains r\<rparr> else r))"

subsection \<open>The contract\<close>

text \<open>
  What the service relies on: a route names at least one domain, and an inbound event's route
  begins with Communications.
\<close>

locale event_router =
  fixes route :: "event \<Rightarrow> route res"
  assumes route_some: "route e = Inr r \<Longrightarrow> rt_domains r \<noteq> []"
    and route_inbound: "route e = Inr r \<Longrightarrow> gateway_inbound e \<Longrightarrow> hd (rt_domains r) = DomainCommunications"
begin

lemma inbound_domains:
  "route e = Inr r \<Longrightarrow> gateway_inbound e \<Longrightarrow> \<exists>ds. rt_domains r = DomainCommunications # ds"
  using route_some route_inbound by (cases "rt_domains r") fastforce+

end

lemma rt_domains_mk [simp]: "rt_domains (mk_route w ds) = ds"
  by (simp add: mk_route_def)

lemma rt_workflow_mk [simp]: "rt_workflow (mk_route w ds) = w"
  by (simp add: mk_route_def)

definition plain_domains :: "route \<Rightarrow> bool" where
  "plain_domains r \<longleftrightarrow> (\<exists>d. rt_domains r = [d]) \<or> rt_domains r = [DomainModeration, DomainChat]"

lemma plain_mk [simp]:
  "plain_domains (mk_route w [d])" "plain_domains (mk_route w [DomainModeration, DomainChat])"
  by (simp_all add: plain_domains_def)

lemma plain_if: "plain_domains a \<Longrightarrow> plain_domains b \<Longrightarrow> plain_domains (if c then a else b)"
  by (rule if_split [THEN iffD2]) simp

lemma route_switch_shape: "plain_domains (route_switch e t)"
  unfolding route_switch_def by (intro plain_if plain_mk)

lemma route_rules_shape: "route_rules e = Inr r \<Longrightarrow> plain_domains r"
  using route_switch_shape by (auto simp: route_rules_def Let_def split: if_split_asm)

interpretation rules: event_router route_event
proof
  fix e r
  assume r: "route_event e = Inr r"
  then show "rt_domains r \<noteq> []"
    by (auto simp: route_event_def plain_domains_def dest!: route_rules_shape split: sum.splits if_splits)
  show "hd (rt_domains r) = DomainCommunications" if "gateway_inbound e"
    using r that by (auto simp: route_event_def split: sum.splits)
qed

subsection \<open>Properties\<close>

lemma message_prefix_clash:
  assumes "has_prefix t ''message.''"
  shows "t \<noteq> ''meme.dispatch.scheduled''" "t \<noteq> ''services.set''" "t \<noteq> ''scheduler.jobs.set''"
    "t \<noteq> ''scheduler.jobs.announce''" "t \<noteq> ''chat.profiles.list''" "t \<noteq> ''chat.profile.use''"
    "t \<noteq> ''communications.send''" "t \<noteq> ''discord.send''"
    "\<not> has_prefix t ''communications.link.''" "\<not> has_prefix t ''voice.''"
    "\<not> has_prefix t ''communications.''" "\<not> has_prefix t ''music.''"
    "\<not> has_prefix t ''book.''" "\<not> has_prefix t ''knowledge.''" "\<not> has_prefix t ''realtime.''"
    "\<not> has_prefix t ''conversation.''" "\<not> has_prefix t ''digest.''" "\<not> has_prefix t ''ningo.''"
  using assms by (auto dest: prefix_clash)

lemma message_rules:
  assumes "has_prefix t ''message.''"
  shows "route_switch e t =
    (if t = ''message.created'' \<and> ev_source e = SourceWhatsApp \<and> has_incoming_content e
     then mk_route ''incoming-content'' [DomainModeration, DomainChat]
     else if t = ''message.created'' \<and> ev_source e = SourceDiscord \<and> has_web_reading e
     then mk_route ''link-conversation'' [DomainModeration, DomainChat]
     else if t = ''message.created'' \<and> ev_source e = SourceDesktop
     then mk_route ''desktop-conversation'' [DomainChat]
     else mk_route ''conversation'' [DomainModeration, DomainChat])"
  using assms unfolding route_switch_def
  by (simp only: message_prefix_clash [OF assms] if_False if_True simp_thms)

text \<open>
  Every message event is screened before the chat domain sees it: whatever the source, the
  content and the attachments, the route of an event whose type begins with \<open>message.\<close> ends with
  moderation followed by chat, and contains nothing else but the inbound authorization in front;
  the only exception is a message created on the owner's own desktop, which goes to chat directly.
\<close>

theorem messages_are_moderated:
  assumes "trim_space (ev_type e) = ev_type e" and "has_prefix (ev_type e) ''message.''"
    and "\<not> (ev_type e = ''message.created'' \<and> ev_source e = SourceDesktop)"
  shows "\<exists>r. route_event e = Inr r \<and>
           rt_domains r = (if gateway_inbound e then [DomainCommunications] else [])
                            @ [DomainModeration, DomainChat]"
proof -
  have "ev_type e \<noteq> []" using assms(2) by auto
  moreover have "rt_domains (route_switch e (ev_type e)) = [DomainModeration, DomainChat]"
    unfolding message_rules [OF assms(2)] using assms(3) by (simp split: if_split)
  ultimately show ?thesis
    using assms(1) by (simp add: route_event_def route_rules_def Let_def)
qed

theorem messages_are_moderated_witness:
  "\<exists>r. route_event \<lparr>ev_id = ''1'', ev_timestamp = 1, ev_source = ''whatsapp'', ev_type = ''message.created'',
      ev_user = \<lparr>eu_id = [], eu_name = []\<rparr>, ev_channel = [], ev_payload = None,
      ev_context = Some [''gateway_inbound'' \<mapsto> VBool True]\<rparr> = Inr r \<and>
      rt_domains r = [DomainCommunications, DomainModeration, DomainChat]"
proof -
  let ?e = "\<lparr>ev_id = ''1'', ev_timestamp = 1, ev_source = ''whatsapp'', ev_type = ''message.created'',
      ev_user = \<lparr>eu_id = [], eu_name = []\<rparr>, ev_channel = [], ev_payload = None,
      ev_context = Some [''gateway_inbound'' \<mapsto> VBool True]\<rparr> :: event"
  have "trim_space ''message.created'' = ''message.created''" by code_simp
  then show ?thesis
    using messages_are_moderated [of ?e] by (simp add: gateway_inbound_def)
qed

end
