(* ===== verification/Workflow.thy ===== *)
theory Workflow
  imports Router
begin

section \<open>Planning the steps of a workflow\<close>

text \<open>
  \<open>dokja_orch/internal/core/workflow_engine.go\<close>: one step per routed domain, each with the action
  the domain's handler is asked for.  The switches on the event type are tables, read in the
  order of the code.  The contract the service relies on is the locale \<open>workflow_engine\<close>.
\<close>

subsection \<open>Steps\<close>

record wf_step =
  ws_domain :: domain
  ws_action :: string

record workflow =
  wf_name :: string
  wf_steps :: "wf_step list"

definition switch :: "(string \<times> string) list \<Rightarrow> string \<Rightarrow> string \<Rightarrow> string" where
  "switch table dflt t = (case map_of table t of Some a \<Rightarrow> a | None \<Rightarrow> dflt)"

definition system_actions :: "(string \<times> string) list" where
  "system_actions =
     [(''ningo.status'', ''inspect-ningo-platform''),
      (''meme.dispatch.scheduled'', ''deliver-scheduled-memes''),
      (''discord.send'', ''send-discord-message''),
      (''communications.send'', ''send-discord-message''),
      (''communications.link.status'', ''read-interface-link''),
      (''communications.link.start'', ''start-interface-link''),
      (''communications.link.reset'', ''reset-interface-link''),
      (''communications.link.groups'', ''list-interface-groups''),
      (''services.set'', ''set-service''),
      (''scheduler.jobs.set'', ''set-job''),
      (''scheduler.jobs.announce'', ''record-job-announce''),
      (''chat.profiles.list'', ''list-chat-profiles''),
      (''chat.profile.use'', ''use-chat-profile'')]"

definition communications_actions :: "(string \<times> string) list" where
  "communications_actions =
     [(''voice.synthesize'', ''synthesize-voice''),
      (''voice.transcribe'', ''transcribe-voice''),
      (''voice.activity'', ''detect-voice-activity''),
      (''voice.wakeword'', ''detect-voice-wakeword''),
      (''communications.channels'', ''list-communication-channels''),
      (''communications.history'', ''read-communication-history''),
      (''music.play'', ''play-music''),
      (''music.skip'', ''skip-music''),
      (''music.pause'', ''pause-music''),
      (''music.resume'', ''resume-music''),
      (''music.stop'', ''stop-music''),
      (''music.queue'', ''show-music-queue''),
      (''music.volume'', ''set-music-volume''),
      (''music.ended'', ''end-music-track''),
      (''music.comment'', ''comment-music-track''),
      (''music.history'', ''show-music-history'')]"

definition book_actions :: "(string \<times> string) list" where
  "book_actions =
     [(''book.summary.requested'', ''summarize-book''),
      (''book.resource.classify'', ''classify-book-resource'')]"

definition meme_actions :: "(string \<times> string) list" where
  "meme_actions =
     [(''meme.fetch'', ''fetch-memes''),
      (''meme.pool.refresh'', ''refresh-meme-pool''),
      (''meme.status'', ''inspect-meme-service''),
      (''meme.screen'', ''screen-meme''),
      (''meme.list'', ''list-memes''),
      (''meme.hashtag.tag'', ''tag-meme-hashtag''),
      (''meme.hashtag.suggest'', ''suggest-meme-hashtag''),
      (''meme.hashtag.list'', ''list-meme-hashtags''),
      (''meme.hashtag.untag'', ''untag-meme-hashtag'')]"

definition knowledge_actions :: "(string \<times> string) list" where
  "knowledge_actions =
     [(''knowledge.application.propose.adaptive'', ''propose-adaptive-knowledge-application''),
      (''knowledge.application.review'', ''review-knowledge-application''),
      (''knowledge.application.propose.measured'', ''propose-measured-knowledge-application''),
      (''knowledge.application.propose'', ''propose-knowledge-application''),
      (''knowledge.application.assess'', ''assess-knowledge-application''),
      (''knowledge.application.supervision.preview'', ''knowledge.application.supervision.preview''),
      (''knowledge.application.supervision.start'', ''knowledge.application.supervision.start''),
      (''knowledge.application.supervision.status'', ''knowledge.application.supervision.status''),
      (''knowledge.application.supervision.control'', ''knowledge.application.supervision.control''),
      (''knowledge.application.prepare'', ''prepare-knowledge-application''),
      (''knowledge.ingest'', ''ingest-knowledge''),
      (''knowledge.reclassify'', ''reclassify-knowledge''),
      (''knowledge.classify'', ''classify-knowledge''),
      (''knowledge.read'', ''read-knowledge''),
      (''knowledge.intake.run'', ''intake-knowledge''),
      (''knowledge.search'', ''search-knowledge''),
      (''knowledge.list'', ''list-knowledge''),
      (''knowledge.delete'', ''delete-knowledge''),
      (''knowledge.status'', ''inspect-knowledge''),
      (''knowledge.reindex'', ''reindex-knowledge'')]"

definition digest_actions :: "(string \<times> string) list" where
  "digest_actions =
     [(''digest.status'', ''inspect-digest''),
      (''digest.items'', ''read-digest''),
      (''digest.web.read'', ''read-web-link''),
      (''digest.link.read'', ''read-link'')]"

definition memory_actions :: "(string \<times> string) list" where
  "memory_actions =
     [(''memory.record'', ''record-experience''),
      (''memory.resolve'', ''resolve-experience''),
      (''memory.recall'', ''recall-experience''),
      (''memory.get'', ''get-experience''),
      (''memory.list'', ''list-experience''),
      (''memory.predict'', ''predict-experience''),
      (''memory.stats'', ''score-experience''),
      (''memory.forget'', ''forget-experience''),
      (''memory.status'', ''inspect-memory''),
      (''memory.reindex'', ''reindex-memory''),
      (''memory.sync'', ''sync-memory'')]"

text \<open>\<open>actionFor\<close>.  The eleven domains are all there are, so the code's last \<open>default\<close> is dead.\<close>

definition action_for :: "domain \<Rightarrow> string \<Rightarrow> string" where
  "action_for d t =
     (case d of
        DomainSystem \<Rightarrow> switch system_actions ''inspect-system'' t
      | DomainCommunications \<Rightarrow> switch communications_actions ''unsupported-communications'' t
      | DomainModeration \<Rightarrow> ''screen-event''
      | DomainBook \<Rightarrow> switch book_actions ''handle-book-event'' t
      | DomainChat \<Rightarrow> if t = ''message.created'' then ''generate-response'' else ''handle-conversation''
      | DomainMeme \<Rightarrow> switch meme_actions ''handle-meme-event'' t
      | DomainKnowledge \<Rightarrow> switch knowledge_actions ''handle-knowledge-event'' t
      | DomainDigest \<Rightarrow> switch digest_actions ''handle-digest-event'' t
      | DomainMemory \<Rightarrow> switch memory_actions ''handle-memory-event'' t
      | DomainAutomation \<Rightarrow> ''execute-automation''
      | DomainConversation \<Rightarrow>
          if length t > 9 \<and> take 9 t = ''realtime.'' then ''observe-conversation''
          else ''manage-conversation'')"

text \<open>
  The loop of \<open>Plan\<close>: the step at position \<open>index\<close> of the route.  The authorization of an inbound
  event is a step only in front; a later Communications step is the workflow's own.
\<close>

definition step_at :: "event \<Rightarrow> string \<Rightarrow> nat \<Rightarrow> domain \<Rightarrow> wf_step" where
  "step_at e name index d =
     (let a = action_for d (ev_type e);
          a = (if name = ''incoming-content'' \<and> d = DomainChat then ''read-incoming-content'' else a);
          a = (if name = ''link-conversation'' \<and> d = DomainChat then ''converse-links'' else a);
          a = (if gateway_inbound e \<and> index = 0 \<and> d = DomainCommunications
               then ''authorize-inbound'' else a)
      in \<lparr>ws_domain = d, ws_action = a\<rparr>)"

fun plan_steps :: "event \<Rightarrow> string \<Rightarrow> nat \<Rightarrow> domain list \<Rightarrow> wf_step list" where
  "plan_steps e name index [] = []"
| "plan_steps e name index (d # ds) = step_at e name index d # plan_steps e name (Suc index) ds"

definition plan :: "event \<Rightarrow> route \<Rightarrow> workflow res" where
  "plan e r = Inr \<lparr>wf_name = rt_workflow r, wf_steps = plan_steps e (rt_workflow r) 0 (rt_domains r)\<rparr>"

subsection \<open>The contract\<close>

text \<open>
  What the service relies on: the steps are the routed domains in order, and the authorization of an
  inbound event comes before every other step.
\<close>

abbreviation authorize_step :: wf_step where
  "authorize_step \<equiv> \<lparr>ws_domain = DomainCommunications, ws_action = ''authorize-inbound''\<rparr>"

locale workflow_engine =
  fixes plan :: "event \<Rightarrow> route \<Rightarrow> workflow res"
  assumes plan_name: "plan e r = Inr w \<Longrightarrow> wf_name w = rt_workflow r"
    and plan_domains: "plan e r = Inr w \<Longrightarrow> map ws_domain (wf_steps w) = rt_domains r"
    and plan_inbound: "plan e r = Inr w \<Longrightarrow> gateway_inbound e \<Longrightarrow>
          rt_domains r = DomainCommunications # ds \<Longrightarrow> \<exists>steps. wf_steps w = authorize_step # steps"

locale planning = event_router route + workflow_engine plan
  for route :: "event \<Rightarrow> route res" and plan :: "event \<Rightarrow> route \<Rightarrow> workflow res"
begin

text \<open>
  The context is rebuilt between routing and planning, so the event that is planned need not be the
  one that was routed; it only has to be inbound still.
\<close>

lemma authorized_first:
  assumes "route e = Inr r" and "gateway_inbound e" and "plan e' r = Inr w" and "gateway_inbound e'"
  obtains steps where "wf_steps w = authorize_step # steps"
proof -
  obtain ds where "rt_domains r = DomainCommunications # ds"
    using inbound_domains [OF assms(1,2)] by blast
  then show ?thesis using plan_inbound [OF assms(3,4)] that by blast
qed

lemma steps_planned: "route e = Inr r \<Longrightarrow> plan e' r = Inr w \<Longrightarrow> wf_steps w \<noteq> []"
  using route_some plan_domains by fastforce

end

subsection \<open>The tables\<close>

lemma switch_avoids:
  "dflt \<noteq> a \<Longrightarrow> list_all (\<lambda>p. snd p \<noteq> a) table \<Longrightarrow> switch table dflt t \<noteq> a"
  by (auto simp: switch_def list_all_iff split: option.split dest!: map_of_SomeD)

lemmas action_tables =
  system_actions_def communications_actions_def book_actions_def meme_actions_def
  knowledge_actions_def digest_actions_def memory_actions_def

lemma action_for_not_authorize: "action_for d t \<noteq> ''authorize-inbound''"
proof -
  have "list_all (\<lambda>p. snd p \<noteq> ''authorize-inbound'') t"
    if "t \<in> {system_actions, communications_actions, book_actions, meme_actions, knowledge_actions,
                digest_actions, memory_actions}" for t
    using that by (auto simp: action_tables)
  then have "switch tb df t \<noteq> ''authorize-inbound''"
    if "tb \<in> {system_actions, communications_actions, book_actions, meme_actions, knowledge_actions,
                digest_actions, memory_actions}" and "df \<noteq> ''authorize-inbound''" for tb df
    using that switch_avoids by blast
  then show ?thesis by (cases d) (simp_all add: action_for_def)
qed

lemma ws_domain_step_at [simp]: "ws_domain (step_at e n i d) = d"
  by (simp add: step_at_def)

lemma authorize_step_at:
  "ws_action (step_at e n i d) = ''authorize-inbound'' \<longleftrightarrow>
     gateway_inbound e \<and> i = 0 \<and> d = DomainCommunications"
  using action_for_not_authorize [of d "ev_type e"] by (simp add: step_at_def)

lemma plan_steps_domains [simp]: "map ws_domain (plan_steps e n i ds) = ds"
  by (induction ds arbitrary: i) auto

lemma length_plan_steps [simp]: "length (plan_steps e n i ds) = length ds"
  by (induction ds arbitrary: i) auto

lemma plan_steps_nth: "j < length ds \<Longrightarrow> plan_steps e n i ds ! j = step_at e n (i + j) (ds ! j)"
  by (induction ds arbitrary: i j) (auto simp: nth_Cons split: nat.split)

interpretation engine: workflow_engine plan
proof
  fix e r w ds
  assume p: "plan e r = Inr w"
  then show "wf_name w = rt_workflow r" and "map ws_domain (wf_steps w) = rt_domains r"
    by (auto simp: plan_def)
  assume "gateway_inbound e" and "rt_domains r = DomainCommunications # ds"
  then show "\<exists>steps. wf_steps w = authorize_step # steps"
    using p by (auto simp: plan_def step_at_def)
qed

interpretation orch: planning route_event plan
  by unfold_locales

subsection \<open>Properties\<close>

text \<open>
  The plan of a routed event has the route's name and one step per routed domain, in order, and
  asks for an authorization exactly once and exactly when the bridge marked the event as its own: at
  the first step.  No other step of any workflow, whatever the event type, is an authorization.
\<close>

theorem plan_authorizes_first:
  assumes "route_event e = Inr r" and "plan e r = Inr w"
  shows "wf_name w = rt_workflow r \<and> map ws_domain (wf_steps w) = rt_domains r \<and> wf_steps w \<noteq> [] \<and>
         (\<forall>i < length (wf_steps w).
            ws_action (wf_steps w ! i) = ''authorize-inbound'' \<longleftrightarrow> gateway_inbound e \<and> i = 0)"
proof -
  have "wf_steps w = plan_steps e (rt_workflow r) 0 (rt_domains r)" and "wf_name w = rt_workflow r"
    using assms(2) by (auto simp: plan_def)
  moreover have "gateway_inbound e \<Longrightarrow> rt_domains r ! 0 = DomainCommunications"
    using rules.inbound_domains [OF assms(1)] by auto
  ultimately show ?thesis
    using orch.steps_planned [OF assms] by (auto simp: plan_steps_nth authorize_step_at)
qed

theorem plan_authorizes_first_witness:
  "let e = \<lparr>ev_id = ''1'', ev_timestamp = 1, ev_source = ''discord'', ev_type = ''music.play'',
      ev_user = \<lparr>eu_id = [], eu_name = []\<rparr>, ev_channel = [], ev_payload = None,
      ev_context = Some [''gateway_inbound'' \<mapsto> VBool True]\<rparr>;
      w = \<lparr>wf_name = ''music'',
           wf_steps = [authorize_step, \<lparr>ws_domain = DomainCommunications, ws_action = ''play-music''\<rparr>]\<rparr>
   in plan e (mk_route ''music'' [DomainCommunications, DomainCommunications]) = Inr w \<and>
      map ws_domain (wf_steps w) = [DomainCommunications, DomainCommunications] \<and>
      ws_action (wf_steps w ! 1) \<noteq> ''authorize-inbound''"
proof -
  define e :: event where "e = \<lparr>ev_id = ''1'', ev_timestamp = 1, ev_source = ''discord'', ev_type = ''music.play'',
      ev_user = \<lparr>eu_id = [], eu_name = []\<rparr>, ev_channel = [], ev_payload = None,
      ev_context = Some [''gateway_inbound'' \<mapsto> VBool True]\<rparr>"
  define w where "w = \<lparr>wf_name = ''music'',
           wf_steps = [authorize_step, \<lparr>ws_domain = DomainCommunications, ws_action = ''play-music''\<rparr>]\<rparr>"
  let ?r = "mk_route ''music'' [DomainCommunications, DomainCommunications]"
  have g: "gateway_inbound e" by (simp add: e_def gateway_inbound_def)
  have t: "trim_space ''music.play'' = ''music.play''" by code_simp
  have "route_switch e ''music.play'' = mk_route ''music'' [DomainCommunications]"
    by (simp add: route_switch_def)
  then have r: "route_event e = Inr ?r"
    using t g by (simp add: route_event_def route_rules_def e_def mk_route_def)
  have p: "plan e ?r = Inr w"
    using g by (simp add: plan_def step_at_def w_def e_def action_for_def switch_def communications_actions_def)
  have "ws_action (wf_steps w ! 1) \<noteq> ''authorize-inbound''"
    and "map ws_domain (wf_steps w) = [DomainCommunications, DomainCommunications]"
    using plan_authorizes_first [OF r p] by (auto simp: w_def)
  then show ?thesis using p by (simp add: e_def w_def Let_def)
qed

end
