(* ===== verification/Access.thy ===== *)
theory Access
  imports Workflow
begin

section \<open>Access tokens and the context handlers see\<close>

text \<open>
  \<open>dokja_orch/internal/core/communications_access.go\<close>, \<open>source_supervision_access.go\<close> and
  \<open>context_builder.go\<close>, and \<open>dokja_orch/internal/sourceaccess/access.go\<close>: the two credentials an
  event may carry, how they are checked and removed, and the context built for the handlers.
\<close>

subsection \<open>Source access\<close>

text \<open>
  Of a Go \<open>context.Context\<close> the core itself only reads the authenticated principal.  The length of
  \<open>subtle.ConstantTimeCompare\<close>'s arguments and their bytes decide its result: it is equality.
\<close>

record principal =
  pr_scope :: string
  pr_actor :: string

record go_ctx =
  ctx_principal :: "principal option"

definition valid_token :: "string \<Rightarrow> bool" where
  "valid_token token \<longleftrightarrow>
     length token \<ge> 32 \<and> length token \<le> 512 \<and> \<not> has_prefix token ''CHANGE_ME'' \<and>
     trim_space token = token"

definition constant_time_compare :: "string \<Rightarrow> string \<Rightarrow> int" where
  "constant_time_compare x y = (if x = y then 1 else 0)"

definition desktop_operator :: principal where
  "desktop_operator = \<lparr>pr_scope = ''desktop:operator'', pr_actor = ''desktop:operator''\<rparr>"

definition authenticate :: "go_ctx \<Rightarrow> string \<Rightarrow> string \<Rightarrow> go_ctx res" where
  "authenticate ctx configured supplied =
     (if \<not> valid_token configured \<or> constant_time_compare configured supplied \<noteq> 1
      then Inl (Errorf ''source supervision access denied or not configured'')
      else Inr (ctx\<lparr>ctx_principal := Some desktop_operator\<rparr>))"

definition current_principal :: "go_ctx \<Rightarrow> principal option" where
  "current_principal ctx = ctx_principal ctx"

subsection \<open>The two checks of the service\<close>

text \<open>
  Both copy the event's context without the credential first, whatever the event's type, and leave
  the copy in the event.
\<close>

definition without_key :: "string \<Rightarrow> event \<Rightarrow> event" where
  "without_key k e = e\<lparr>ev_context := Some ((map_of_nil (ev_context e))(k := None))\<rparr>"

definition authorize_source_supervision :: "string \<Rightarrow> go_ctx \<Rightarrow> event \<Rightarrow> event \<times> go_ctx res" where
  "authorize_source_supervision token ctx e =
     (let supplied = str_of (context_at e ''source_supervision_token'');
          e' = without_key ''source_supervision_token'' e
      in (e', if \<not> has_prefix (ev_type e') ''knowledge.application.supervision.'' then Inr ctx
              else if ev_source e' \<noteq> SourceDesktop
              then Inl (Errorf ''source supervision requires the Desktop operator'')
              else authenticate ctx token supplied))"

definition authorize_communications :: "string \<Rightarrow> event \<Rightarrow> event \<times> gerror option" where
  "authorize_communications token e =
     (let supplied = str_of (context_at e ''communications_token'');
          e' = without_key ''communications_token'' e
      in (e', if \<not> has_prefix (ev_type e') ''communications.'' then None
              else if length token < 32 \<or> has_prefix token ''CHANGE_ME''
              then Some (Errorf ''communications access is not configured'')
              else if constant_time_compare supplied token \<noteq> 1
              then Some (Errorf ''communications access denied'')
              else None))"

lemma without_key_simps [simp]:
  "ev_type (without_key k e) = ev_type e" "ev_source (without_key k e) = ev_source e"
  "context_at (without_key k e) j = (if j = k then None else context_at e j)"
  by (simp_all add: without_key_def)

lemma compare_eq [simp]: "constant_time_compare x y = 1 \<longleftrightarrow> x = y"
  by (simp add: constant_time_compare_def)

subsection \<open>The context builder\<close>

text \<open>\<open>received\<close> is the current time, as \<open>time.RFC3339\<close> shows it.\<close>

definition domains_to_strings :: "domain list \<Rightarrow> string list" where
  "domains_to_strings ds = map domain_name ds"

definition build_context :: "string \<Rightarrow> event \<Rightarrow> route \<Rightarrow> gmap res" where
  "build_context received e r =
     Inr ((map_of_nil (ev_context e))
            (''event_id'' \<mapsto> VStr (ev_id e), ''source'' \<mapsto> VStr (ev_source e),
             ''workflow'' \<mapsto> VStr (rt_workflow r),
             ''route_domains'' \<mapsto> VStrs (domains_to_strings (rt_domains r)),
             ''received_at'' \<mapsto> VStr received))"

text \<open>
  What the service relies on: the bridge's mark, the schedule and the absence of a credential
  survive the building.
\<close>

definition credential_keys :: "string set" where
  "credential_keys = {''communications_token'', ''source_supervision_token''}"

locale context_builder =
  fixes build :: "string \<Rightarrow> event \<Rightarrow> route \<Rightarrow> gmap res"
  assumes build_keeps: "build received e r = Inr m \<Longrightarrow>
      k \<in> insert ''gateway_inbound'' (insert ''schedule'' credential_keys) \<Longrightarrow> m k = context_at e k"
begin

lemma build_inbound:
  "build received e r = Inr m \<Longrightarrow> gateway_inbound (e\<lparr>ev_context := Some m\<rparr>) = gateway_inbound e"
  using build_keeps [of received e r m "''gateway_inbound''"] by (simp add: gateway_inbound_def)

end

interpretation ctxb: context_builder build_context
  by unfold_locales (auto simp: build_context_def credential_keys_def)

subsection \<open>Properties\<close>

text \<open>
  An event of the source supervision is let through exactly when it comes from the desktop and
  carries the configured credential, and only if that credential is one that may be configured (32 to
  512 bytes, not the placeholder, no surrounding white space).  Only then does the context gain the
  operator's authority; for every other event the context is the one that came in.  The credential is
  gone from the event in every case.
\<close>

theorem supervision_needs_operator:
  "case authorize_source_supervision token ctx e of (e', out) \<Rightarrow>
     context_at e' ''source_supervision_token'' = None \<and>
     (if has_prefix (ev_type e) ''knowledge.application.supervision.''
      then if ev_source e = SourceDesktop \<and> valid_token token
                \<and> context_at e ''source_supervision_token'' = Some (VStr token)
           then out = Inr (ctx\<lparr>ctx_principal := Some desktop_operator\<rparr>)
           else isl out
      else out = Inr ctx)"
proof -
  have "str_of v = token \<longleftrightarrow> v = Some (VStr token)" if "valid_token token" for v
    using that by (cases v rule: str_of.cases) (auto simp: valid_token_def)
  then show ?thesis
    by (auto simp: authorize_source_supervision_def authenticate_def Let_def)
qed

text \<open>
  An operator's communications event is let through exactly when the configured credential has
  at least 32 bytes and is not the placeholder and the event carries it; the credential is gone from
  the event in every case, and nothing else of the event's context is.
\<close>

theorem communications_need_token:
  "case authorize_communications token e of (e', err) \<Rightarrow>
     (\<forall>k. context_at e' k = (if k = ''communications_token'' then None else context_at e k)) \<and>
     (if has_prefix (ev_type e) ''communications.''
      then err = None \<longleftrightarrow> length token \<ge> 32 \<and> \<not> has_prefix token ''CHANGE_ME''
              \<and> context_at e ''communications_token'' = Some (VStr token)
      else err = None)"
proof -
  have "str_of v = token \<longleftrightarrow> v = Some (VStr token)" if "length token \<ge> 32" for v
    using that by (cases v rule: str_of.cases) auto
  then show ?thesis
    by (auto simp: authorize_communications_def Let_def)
qed

end
