(* ===== verification/Go_Duration.thy ===== *)
theory Go_Duration
  imports Go_Text
begin

section \<open>Durations as Go prints and parses them\<close>

text \<open>
  \<open>time.Duration.String\<close> and \<open>time.ParseDuration\<close>.  A duration is the number of nanoseconds.  Go
  scales the fraction of a component in \<open>float64\<close>; the model scales it exactly and rounds down,
  which is the same value whenever the fraction has at most nine digits and the unit is a second or
  smaller, as in everything \<open>String\<close> prints.
\<close>

subsection \<open>Decimal numbers\<close>

definition digit_char :: "nat \<Rightarrow> char" where
  "digit_char d = char_of (48 + d)"

definition digit_val :: "char \<Rightarrow> nat" where
  "digit_val c = byte c - 48"

definition is_dec :: "char \<Rightarrow> bool" where
  "is_dec c \<longleftrightarrow> 48 \<le> byte c \<and> byte c \<le> 57"

fun show_nat :: "nat \<Rightarrow> string" where
  "show_nat n = (if n < 10 then [digit_char n] else show_nat (n div 10) @ [digit_char (n mod 10)])"

declare show_nat.simps [simp del]

text \<open>The \<open>k\<close> last decimal digits, with leading zeros.\<close>

fun pad_nat :: "nat \<Rightarrow> nat \<Rightarrow> string" where
  "pad_nat 0 n = []"
| "pad_nat (Suc k) n = pad_nat k (n div 10) @ [digit_char (n mod 10)]"

definition read_nat :: "string \<Rightarrow> nat" where
  "read_nat ds = foldl (\<lambda>x c. x * 10 + digit_val c) 0 ds"

lemma digit_char_simps [simp]:
  assumes "d < 10"
  shows "digit_val (digit_char d) = d" and "is_dec (digit_char d)"
  using assms by (simp_all add: digit_val_def digit_char_def is_dec_def)

lemma read_nat_append: "read_nat (xs @ [c]) = read_nat xs * 10 + digit_val c"
  by (simp add: read_nat_def)

lemma read_nat_Nil [simp]: "read_nat [] = 0"
  by (simp add: read_nat_def)

lemma read_show [simp]: "read_nat (show_nat n) = n"
proof (induction n rule: show_nat.induct)
  case (1 n)
  then show ?case
    by (cases "n < 10")
      (simp_all add: show_nat.simps [of n] read_nat_append, simp add: read_nat_def)
qed

lemma dec_show: "list_all is_dec (show_nat n)"
proof (induction n rule: show_nat.induct)
  case (1 n)
  then show ?case by (cases "n < 10") (simp_all add: show_nat.simps [of n])
qed

lemma show_nonempty [simp]: "show_nat n \<noteq> []"
  by (subst show_nat.simps) simp

lemma read_pad: "read_nat (pad_nat k n) = n mod 10 ^ k"
proof (induction k arbitrary: n)
  case (Suc k)
  have "n mod (10 * 10 ^ k) = n div 10 mod 10 ^ k * 10 + n mod 10"
    by (simp add: mod_mult2_eq)
  then show ?case using Suc [of "n div 10"] by (simp add: read_nat_append)
qed simp

lemma dec_pad: "list_all is_dec (pad_nat k n)"
  by (induction k arbitrary: n) simp_all

lemma length_pad [simp]: "length (pad_nat k n) = k"
  by (induction k arbitrary: n) simp_all

subsection \<open>Printing\<close>

definition strip_zeros :: "string \<Rightarrow> string" where
  "strip_zeros ds = rev (dropWhile (\<lambda>c. c = CHR ''0'') (rev ds))"

text \<open>\<open>fmtFrac\<close>: the fraction of \<open>u / 10 ^ prec\<close>, without trailing zeros.\<close>

definition fmt_frac :: "nat \<Rightarrow> nat \<Rightarrow> string" where
  "fmt_frac u prec =
     (let ds = strip_zeros (pad_nat prec u) in if ds = [] then [] else CHR ''.'' # ds)"

definition fmt_seconds :: "nat \<Rightarrow> string" where
  "fmt_seconds u =
     (let s = u div 10 ^ 9; m = s div 60; h = m div 60 in
      (if h > 0 then show_nat h @ ''h'' else []) @
      (if m > 0 then show_nat (m mod 60) @ ''m'' else []) @
      show_nat (s mod 60) @ fmt_frac u 9 @ ''s'')"

definition fmt_duration :: "nat \<Rightarrow> string" where
  "fmt_duration u =
     (if u = 0 then ''0s''
      else if u < 1000 then show_nat u @ ''ns''
      else if u < 1000000 then show_nat (u div 1000) @ fmt_frac u 3 @ [CHR 0xC2, CHR 0xB5, CHR ''s'']
      else if u < 1000000000 then show_nat (u div 1000000) @ fmt_frac u 6 @ ''ms''
      else fmt_seconds u)"

definition duration_string :: "int \<Rightarrow> string" where
  "duration_string d = (if d < 0 then ''-'' else []) @ fmt_duration (nat \<bar>d\<bar>)"

subsection \<open>Parsing\<close>

definition unit_ns :: "string \<Rightarrow> nat option" where
  "unit_ns u =
     (if u = ''ns'' then Some 1
      else if u = ''us'' \<or> u = [CHR 0xC2, CHR 0xB5, CHR ''s''] \<or> u = [CHR 0xCE, CHR 0xBC, CHR ''s'']
      then Some 1000
      else if u = ''ms'' then Some 1000000
      else if u = ''s'' then Some 1000000000
      else if u = ''m'' then Some 60000000000
      else if u = ''h'' then Some 3600000000000
      else None)"

text \<open>\<open>leadingFraction\<close>: the digits are accumulated until they would pass \<open>2 ^ 63\<close>.\<close>

fun lead_frac :: "nat \<Rightarrow> nat \<Rightarrow> bool \<Rightarrow> string \<Rightarrow> nat \<times> nat" where
  "lead_frac x scale over [] = (x, scale)"
| "lead_frac x scale over (c # cs) =
     (if over \<or> (2 ^ 63 - 1) div 10 < x \<or> 2 ^ 63 < x * 10 + digit_val c then lead_frac x scale True cs
      else lead_frac (x * 10 + digit_val c) (scale * 10) False cs)"

text \<open>The fraction after a point, if there is one, and what follows it.\<close>

definition after_dot :: "string \<Rightarrow> string \<times> string" where
  "after_dot s =
     (case s of
        c # cs \<Rightarrow> if c = CHR ''.'' then (takeWhile is_dec cs, dropWhile is_dec cs) else ([], s)
      | [] \<Rightarrow> ([], []))"

definition unit_char :: "char \<Rightarrow> bool" where
  "unit_char c \<longleftrightarrow> c \<noteq> CHR ''.'' \<and> \<not> is_dec c"

text \<open>One component: its value in nanoseconds and the rest, or \<open>None\<close> for any of the errors.\<close>

definition parse_component :: "string \<Rightarrow> (nat \<times> string) option" where
  "parse_component s =
     (let whole = takeWhile is_dec s;
          (frac, s2) = after_dot (dropWhile is_dec s);
          v = read_nat whole
      in if 2 ^ 63 < v then None
         else if whole = [] \<and> frac = [] then None
         else case unit_ns (takeWhile unit_char s2) of
           None \<Rightarrow> None
         | Some unit \<Rightarrow>
             if 2 ^ 63 div unit < v then None
             else (let (f, scale) = lead_frac 0 1 False frac; w = v * unit + f * unit div scale
                   in if 2 ^ 63 < w then None else Some (w, dropWhile unit_char s2)))"

lemma unit_ns_Nil [simp]: "unit_ns [] = None"
  by (simp add: unit_ns_def)

lemma after_dot_shorter: "length (snd (after_dot s)) \<le> length s"
  by (auto simp: after_dot_def intro: le_SucI length_dropWhile_le split: list.split)

lemma parse_component_shorter: "parse_component s = Some (w, r) \<Longrightarrow> length r < length s"
proof -
  assume ok: "parse_component s = Some (w, r)"
  obtain frac s2 where d: "after_dot (dropWhile is_dec s) = (frac, s2)" by (cases "after_dot (dropWhile is_dec s)")
  with ok have r: "r = dropWhile unit_char s2" and "takeWhile unit_char s2 \<noteq> []"
    by (auto simp: parse_component_def Let_def split: if_splits option.splits prod.splits)
  then have "length r < length s2"
    by (metis length_append length_greater_0_conv less_add_same_cancel2 takeWhile_dropWhile_id)
  also have "length s2 \<le> length (dropWhile is_dec s)"
    using after_dot_shorter [of "dropWhile is_dec s"] by (simp add: d)
  also have "\<dots> \<le> length s" by (rule length_dropWhile_le)
  finally show ?thesis .
qed

function parse_components :: "nat \<Rightarrow> string \<Rightarrow> nat option" where
  "parse_components d s =
     (if s = [] then Some d
      else case parse_component s of
        None \<Rightarrow> None
      | Some (w, r) \<Rightarrow> if 2 ^ 63 < d + w then None else parse_components (d + w) r)"
  by pat_completeness auto
termination
  by (relation "measure (\<lambda>(d, s). length s)") (auto dest: parse_component_shorter)

declare parse_components.simps [simp del]

text \<open>\<open>time.ParseDuration\<close>; \<open>None\<close> is any of its errors.\<close>

definition parse_duration :: "string \<Rightarrow> int option" where
  "parse_duration s =
     (let neg = (s \<noteq> [] \<and> hd s = CHR ''-'');
          s1 = (if s \<noteq> [] \<and> (hd s = CHR ''-'' \<or> hd s = CHR ''+'') then tl s else s)
      in if s1 = ''0'' then Some 0
         else if s1 = [] then None
         else case parse_components 0 s1 of
           None \<Rightarrow> None
         | Some d \<Rightarrow>
             if neg then Some (- int d)
             else if 2 ^ 63 - 1 < d then None else Some (int d))"

subsection \<open>What is printed is read back\<close>

lemma strip_zeros_split:
  "\<exists>m. ds = strip_zeros ds @ replicate m (CHR ''0'')"
proof -
  have "rev ds = takeWhile (\<lambda>c. c = CHR ''0'') (rev ds) @ dropWhile (\<lambda>c. c = CHR ''0'') (rev ds)"
    by simp
  moreover have "takeWhile (\<lambda>c. c = CHR ''0'') (rev ds)
      = replicate (length (takeWhile (\<lambda>c. c = CHR ''0'') (rev ds))) (CHR ''0'')"
    by (metis (full_types) replicate_eqI set_takeWhileD)
  ultimately have "rev (rev ds) = strip_zeros ds
      @ rev (replicate (length (takeWhile (\<lambda>c. c = CHR ''0'') (rev ds))) (CHR ''0''))"
    unfolding strip_zeros_def by (metis rev_append)
  then show ?thesis by (simp add: rev_replicate) blast
qed

lemma read_nat_zeros: "read_nat (ds @ replicate m (CHR ''0'')) = read_nat ds * 10 ^ m"
proof (induction m)
  case (Suc m)
  have "read_nat (ds @ replicate (Suc m) (CHR ''0''))
      = read_nat ((ds @ replicate m (CHR ''0'')) @ [CHR ''0''])"
    by (simp add: replicate_append_same)
  also have "\<dots> = read_nat ds * 10 ^ m * 10"
    unfolding read_nat_append by (simp add: Suc digit_val_def)
  finally show ?case by simp
qed simp

lemma read_nat_bound: "list_all is_dec ds \<Longrightarrow> read_nat ds < 10 ^ length ds"
proof (induction ds rule: rev_induct)
  case (snoc c ds)
  then have "read_nat ds < 10 ^ length ds" by simp
  moreover have "digit_val c < 10" using snoc.prems by (auto simp: digit_val_def is_dec_def)
  ultimately show ?case unfolding read_nat_append by simp
qed simp

text \<open>Nine digits never reach the overflow guard of \<open>leadingFraction\<close>.\<close>

lemma lead_frac_small:
  assumes "list_all is_dec ds" and "read_nat pre < 10 ^ 9" and "length pre + length ds \<le> 9"
    and "list_all is_dec pre"
  shows "lead_frac (read_nat pre) (10 ^ length pre) False ds
           = (read_nat (pre @ ds), 10 ^ length (pre @ ds))"
  using assms
proof (induction ds arbitrary: pre)
  case (Cons c cs)
  have dec: "list_all is_dec (pre @ [c])" using Cons.prems by simp
  have "read_nat (pre @ [c]) < 10 ^ length (pre @ [c])" by (rule read_nat_bound [OF dec])
  also have "(10::nat) ^ length (pre @ [c]) \<le> 10 ^ 9"
    by (rule power_increasing) (use Cons.prems in simp_all)
  finally have small: "read_nat (pre @ [c]) < 10 ^ 9" .
  have step: "lead_frac (read_nat pre) (10 ^ length pre) False (c # cs)
      = lead_frac (read_nat (pre @ [c])) (10 ^ length (pre @ [c])) False cs"
    using small Cons.prems(2) by (simp add: read_nat_append mult.commute)
  show ?case unfolding step using Cons.IH [of "pre @ [c]"] small dec Cons.prems by simp
qed simp

lemma strip_zeros_dec: "list_all is_dec ds \<Longrightarrow> list_all is_dec (strip_zeros ds)"
  by (auto simp: strip_zeros_def list_all_iff dest: set_dropWhileD)

lemma read_strip_zeros:
  assumes "length ds = n"
  shows "read_nat ds = read_nat (strip_zeros ds) * 10 ^ (n - length (strip_zeros ds))"
    and "length (strip_zeros ds) \<le> n"
proof -
  obtain m where m: "ds = strip_zeros ds @ replicate m (CHR ''0'')" using strip_zeros_split by blast
  then have len: "length ds = length (strip_zeros ds) + m"
    by (metis length_append length_replicate)
  with assms show "length (strip_zeros ds) \<le> n" by simp
  have "read_nat ds = read_nat (strip_zeros ds) * 10 ^ m" using m read_nat_zeros by metis
  with len assms show "read_nat ds = read_nat (strip_zeros ds) * 10 ^ (n - length (strip_zeros ds))"
    by simp
qed

text \<open>Reading one printed component back: the number, its fraction and the unit.\<close>

lemma takeWhile_dec_show:
  "rest = [] \<or> \<not> is_dec (hd rest) \<Longrightarrow> takeWhile is_dec (show_nat n @ rest) = show_nat n"
  "rest = [] \<or> \<not> is_dec (hd rest) \<Longrightarrow> dropWhile is_dec (show_nat n @ rest) = rest"
  using dec_show [of n]
  by (cases rest; simp add: takeWhile_append2 dropWhile_append2 list_all_iff takeWhile_append)+

definition starts_component :: "string \<Rightarrow> bool" where
  "starts_component rest \<longleftrightarrow> rest = [] \<or> is_dec (hd rest) \<or> hd rest = CHR ''.''"

lemma starts_component_show [simp]: "starts_component (show_nat n @ rest)"
  using dec_show [of n] by (cases "show_nat n") (auto simp: starts_component_def)

lemma starts_component_Nil [simp]: "starts_component []"
  by (simp add: starts_component_def)

lemma unit_char_stops:
  "starts_component rest \<Longrightarrow> takeWhile unit_char rest = [] \<and> dropWhile unit_char rest = rest"
  by (cases rest) (auto simp: starts_component_def unit_char_def)

lemma parse_whole:
  assumes "u \<in> {CHR ''h'', CHR ''m''}" and "unit_ns [u] = Some unit" and "starts_component rest"
    and "v * unit \<le> 2 ^ 63"
  shows "parse_component (show_nat v @ u # rest) = Some (v * unit, rest)"
proof -
  have u: "unit_char u" "u \<noteq> CHR ''.''" "\<not> is_dec u"
    using assms(1) by (auto simp: unit_char_def is_dec_def)
  have pos: "0 < unit" using assms(2) by (auto simp: unit_ns_def split: if_splits)
  have "v \<le> 2 ^ 63 div unit" using assms(4) pos by (simp add: less_eq_div_iff_mult_less_eq)
  moreover from this have "v \<le> 2 ^ 63"
    using div_le_dividend [of "2 ^ 63" unit] by linarith
  ultimately show ?thesis
    using u assms unit_char_stops [OF assms(3)]
    by (simp add: parse_component_def takeWhile_dec_show after_dot_def)
qed

lemma parse_seconds:
  assumes "v < 60"
  shows "parse_component (show_nat v @ fmt_frac u 9 @ ''s'') = Some (v * 10 ^ 9 + u mod 10 ^ 9, [])"
proof -
  let ?ds = "strip_zeros (pad_nat 9 u)"
  have dec: "list_all is_dec ?ds" by (rule strip_zeros_dec [OF dec_pad])
  have rs: "u mod 10 ^ 9 = read_nat ?ds * 10 ^ (9 - length ?ds)" and len: "length ?ds \<le> 9"
    using read_strip_zeros [of "pad_nat 9 u" 9] by (simp_all add: read_pad)
  have lf: "lead_frac 0 1 False ?ds = (read_nat ?ds, 10 ^ length ?ds)"
    using lead_frac_small [of ?ds "[]"] dec len by simp
  have "(10::nat) ^ 9 = 10 ^ (9 - length ?ds) * 10 ^ length ?ds"
    using len by (metis le_add_diff_inverse2 power_add)
  then have "read_nat ?ds * 10 ^ 9 div 10 ^ length ?ds = read_nat ?ds * 10 ^ (9 - length ?ds)"
    by (simp only: mult.assoc [symmetric]) simp
  then have scaled: "read_nat ?ds * 1000000000 div 10 ^ length ?ds = u mod 10 ^ 9"
    using rs by simp
  have small: "v * 1000000000 + u mod 10 ^ 9 \<le> 2 ^ 63"
    using assms mod_less_divisor [of "10 ^ 9" u] by simp
  have s: "unit_char CHR ''s''" "\<not> is_dec CHR ''s''" "CHR ''s'' \<noteq> CHR ''.''" "\<not> is_dec CHR ''.''"
    by (simp_all add: unit_char_def is_dec_def)
  have tw: "takeWhile is_dec (?ds @ ''s'') = ?ds" "dropWhile is_dec (?ds @ ''s'') = ''s''"
    using dec s by (simp_all add: takeWhile_append2 dropWhile_append2 list_all_iff takeWhile_append)
  show ?thesis
  proof (cases "?ds = []")
    case True
    with rs s assms small show ?thesis
      by (simp add: fmt_frac_def parse_component_def takeWhile_dec_show after_dot_def unit_ns_def)
  next
    case False
    with s assms small tw lf scaled show ?thesis
      by (simp add: fmt_frac_def parse_component_def takeWhile_dec_show after_dot_def unit_ns_def)
  qed
qed

text \<open>
  What \<open>String\<close> prints for a duration of a minute or more is what \<open>ParseDuration\<close> reads back.
\<close>

lemma parse_components_step:
  "s \<noteq> [] \<Longrightarrow> parse_component s = Some (w, r) \<Longrightarrow> d + w \<le> 2 ^ 63 \<Longrightarrow>
   parse_components d s = parse_components (d + w) r"
  by (simp add: parse_components.simps [of d s])

lemma hms_join:
  "m = h * 60 + m' \<Longrightarrow> s = m * 60 + s' \<Longrightarrow> u = s * 10 ^ 9 + f \<Longrightarrow>
   u = h * 3600000000000 + m' * 60000000000 + (s' * 10 ^ 9 + (f::nat))"
  by simp

lemma fmt_seconds_starts: "\<exists>n r. fmt_seconds u = show_nat n @ r"
proof -
  let ?m = "u div 10 ^ 9 div 60"
  consider "?m div 60 > 0" | "?m div 60 = 0" "?m > 0" | "?m div 60 = 0" "?m = 0" by blast
  then show ?thesis
    unfolding fmt_seconds_def Let_def by cases (simp only: if_True if_False append_assoc append_Nil
        less_irrefl simp_thms; blast)+
qed

lemma parse_fmt_seconds:
  assumes "u < 2 ^ 63"
  shows "parse_components 0 (fmt_seconds u) = Some u"
proof -
  let ?s = "u div 10 ^ 9" and ?m = "u div 10 ^ 9 div 60" and ?h = "u div 10 ^ 9 div 60 div 60"
  let ?sec = "show_nat (?s mod 60) @ fmt_frac u 9 @ ''s''"
  let ?min = "if ?m > 0 then show_nat (?m mod 60) @ CHR ''m'' # ?sec else ?sec"
  have total: "u = ?h * 3600000000000 + (?m mod 60) * 60000000000 + ((?s mod 60) * 10 ^ 9 + u mod 10 ^ 9)"
  proof -
    have "?m = ?h * 60 + ?m mod 60" and "?s = ?m * 60 + ?s mod 60" and "u = ?s * 10 ^ 9 + u mod 10 ^ 9"
      by simp_all
    then show ?thesis by (rule hms_join)
  qed
  have sec: "parse_components d ?sec = Some (d + ((?s mod 60) * 10 ^ 9 + u mod 10 ^ 9))"
    if "d + ((?s mod 60) * 10 ^ 9 + u mod 10 ^ 9) \<le> 2 ^ 63" for d
    using parse_components_step [OF _ parse_seconds [of "?s mod 60" u], of d] that
    by (simp add: parse_components.simps [of _ "[]"])
  have min: "parse_components d ?min = Some (d + (?m mod 60) * 60000000000 + ((?s mod 60) * 10 ^ 9 + u mod 10 ^ 9))"
    if "d + (?m mod 60) * 60000000000 + ((?s mod 60) * 10 ^ 9 + u mod 10 ^ 9) \<le> 2 ^ 63" for d
  proof (cases "?m > 0")
    case True
    have "parse_component (show_nat (?m mod 60) @ CHR ''m'' # ?sec) = Some ((?m mod 60) * 60000000000, ?sec)"
      by (rule parse_whole) (use that in \<open>simp_all add: unit_ns_def\<close>)
    from parse_components_step [OF _ this, of d] show ?thesis
      using True that sec [of "d + (?m mod 60) * 60000000000"] by simp
  next
    case False
    then have "?m mod 60 = 0" by simp
    with False that show ?thesis using sec [of d] by simp
  qed
  show ?thesis
  proof (cases "?h > 0")
    case True
    then have "?m > 0" by (cases "?m = 0") simp_all
    have fmt: "fmt_seconds u = show_nat ?h @ CHR ''h'' # ?min"
      using True \<open>?m > 0\<close> by (simp add: fmt_seconds_def Let_def)
    have "parse_component (show_nat ?h @ CHR ''h'' # ?min) = Some (?h * 3600000000000, ?min)"
      by (rule parse_whole) (use total assms in \<open>auto simp: unit_ns_def\<close>)
    from parse_components_step [OF _ this, of 0] show ?thesis
      unfolding fmt using min [of "?h * 3600000000000"] total assms by simp
  next
    case False
    have fmt: "fmt_seconds u = ?min" using False by (simp add: fmt_seconds_def Let_def)
    from False have "?h = 0" by simp
    then have t: "0 + (?m mod 60) * 60000000000 + ((?s mod 60) * 10 ^ 9 + u mod 10 ^ 9) = u"
      using total by (simp only: mult_0 add_0)
    have "parse_components 0 ?min = Some u"
      using min [of 0] unfolding t using assms by (simp only: less_imp_le)
    then show ?thesis unfolding fmt .
  qed
qed

lemma parse_duration_string:
  assumes "10 ^ 9 \<le> d" and "d < 2 ^ 63"
  shows "parse_duration (duration_string d) = Some d"
proof -
  have u: "nat d < 2 ^ 63" "10 ^ 9 \<le> nat d" using assms by auto
  have s: "duration_string d = fmt_seconds (nat d)"
    using assms u by (simp add: duration_string_def fmt_duration_def)
  obtain c cs where c: "fmt_seconds (nat d) = c # cs" "is_dec c"
  proof -
    obtain n r where "fmt_seconds (nat d) = show_nat n @ r" using fmt_seconds_starts by blast
    moreover obtain x xs where "show_nat n = x # xs" by (cases "show_nat n") auto
    moreover have "is_dec x" using dec_show [of n] calculation by simp
    ultimately show ?thesis using that by simp
  qed
  then have "c \<noteq> CHR ''-''" "c \<noteq> CHR ''+''" by (auto simp: is_dec_def)
  moreover have "fmt_seconds (nat d) \<noteq> ''0''"
    by (simp add: fmt_seconds_def Let_def)
  ultimately show ?thesis
    using c parse_fmt_seconds [OF u(1)] assms unfolding s
    by (simp add: parse_duration_def Let_def)
qed

end
