(* ===== verification/Controls.thy ===== *)
theory Controls
  imports Events Go_Duration "HOL-Library.AList"
begin

section \<open>The operator's switches\<close>

text \<open>
  \<open>dokja_orch/internal/core/controls.go\<close>: which services and scheduled jobs are on, kept in memory
  and in a state file that is replaced atomically.  Every exported method holds the mutex for its
  whole body, so each is one step.  \<open>services\<close> holds the services that are off and \<open>jobs\<close> the
  overrides; \<open>runtime\<close> is an association list because the code ranges over it.
\<close>

subsection \<open>Names\<close>

definition KnownServices :: "string list" where
  "KnownServices = [''meme'', ''chat'', ''book'', ''knowledge'', ''memory'', ''feeds'', ''scheduler'']"

definition KnownInterfaces :: "string list" where
  "KnownInterfaces = [''discord'', ''whatsapp'']"

definition KnownJobs :: "string list" where
  "KnownJobs = [''meme.refresh'', ''meme.dispatch'', ''knowledge.intake'']"

lemmas known_defs = KnownServices_def KnownInterfaces_def KnownJobs_def

definition interface_for_source :: "string \<Rightarrow> string" where
  "interface_for_source source =
     (if source = SourceDiscord then ''discord''
      else if source = SourceWhatsApp then ''whatsapp'' else [])"

definition service_for_event :: "string \<Rightarrow> string" where
  "service_for_event t =
     (if has_prefix t ''meme.'' then ''meme''
      else if has_prefix t ''book.'' then ''book''
      else if has_prefix t ''knowledge.'' then ''knowledge''
      else if has_prefix t ''memory.'' then ''memory''
      else if has_prefix t ''digest.'' then ''feeds''
      else if has_prefix t ''message.'' then ''chat''
      else [])"

definition MinJobInterval :: int where
  "MinJobInterval = 60 * 10 ^ 9"

definition MaxJobInterval :: int where
  "MaxJobInterval = 30 * 24 * 3600 * 10 ^ 9"

lemmas interval_defs = MinJobInterval_def MaxJobInterval_def

subsection \<open>State\<close>

record persisted_job =
  pj_enabled :: "bool option"
  pj_interval :: string

record job_announce =
  ja_name :: string
  ja_interval :: int
  ja_last_fire :: int
  ja_next_fire :: int

record job_runtime =
  jr_announce :: job_announce
  jr_announced_at :: int
  jr_last_at :: int
  jr_last_outcome :: string
  jr_last_error :: string

record controls =
  content_plugins :: bool
  ctl_path :: string
  services :: "string \<rightharpoonup> bool"
  jobs :: "string \<rightharpoonup> persisted_job"
  runtime :: "(string \<times> job_runtime) list"
  load_note :: string

text \<open>What the state file holds: \<open>persistedState\<close>.\<close>

type_synonym persisted_state = "(string \<rightharpoonup> bool) \<times> (string \<rightharpoonup> persisted_job)"

definition no_job :: persisted_job where
  "no_job = \<lparr>pj_enabled = None, pj_interval = []\<rparr>"

definition no_announce :: job_announce where
  "no_announce = \<lparr>ja_name = [], ja_interval = 0, ja_last_fire = 0, ja_next_fire = 0\<rparr>"

definition no_runtime :: job_runtime where
  "no_runtime = \<lparr>jr_announce = no_announce, jr_announced_at = 0, jr_last_at = 0,
     jr_last_outcome = [], jr_last_error = []\<rparr>"

text \<open>Reading a Go map of structs gives the zero struct for a missing key.\<close>

abbreviation job_at :: "controls \<Rightarrow> string \<Rightarrow> persisted_job" where
  "job_at c name \<equiv> (case jobs c name of None \<Rightarrow> no_job | Some j \<Rightarrow> j)"

abbreviation service_off :: "controls \<Rightarrow> string \<Rightarrow> bool" where
  "service_off c name \<equiv> services c name = Some True"

definition known_service :: "string \<Rightarrow> bool" where
  "known_service name \<longleftrightarrow> contains_str KnownServices name \<or> contains_str KnownInterfaces name"

subsection \<open>Loading\<close>

text \<open>
  What reading the file and decoding its JSON gives: no file, a read error, a text that does not
  decode, or the two maps, each nil when the file leaves it out.
\<close>

datatype state_file =
    No_File
  | Read_Error gerror
  | Corrupt gerror
  | Loaded "(string \<rightharpoonup> bool) option" "(string \<rightharpoonup> persisted_job) option"

definition fresh_controls :: "string \<Rightarrow> controls" where
  "fresh_controls path =
     \<lparr>content_plugins = False, ctl_path = path, services = Map.empty, jobs = Map.empty,
      runtime = [], load_note = []\<rparr>"

fun pause_jobs :: "string list \<Rightarrow> (string \<rightharpoonup> persisted_job) \<Rightarrow> (string \<rightharpoonup> persisted_job)" where
  "pause_jobs [] m = m"
| "pause_jobs (n # ns) m =
     pause_jobs ns (m(n \<mapsto> \<lparr>pj_enabled = Some False, pj_interval = []\<rparr>))"

definition rename_chat_ai :: "(string \<rightharpoonup> bool) \<Rightarrow> (string \<rightharpoonup> bool)" where
  "rename_chat_ai m =
     (let m1 = (if m ''chat_ai'' = Some True then m(''chat'' \<mapsto> True) else m)
      in m1(''chat_ai'' := None))"

definition new_controls :: "string \<Rightarrow> state_file \<Rightarrow> controls res" where
  "new_controls path file =
     (let c = fresh_controls path in
      if path = [] then Inr c
      else case file of
        No_File \<Rightarrow> Inr c
      | Read_Error e \<Rightarrow> Inl (Wrapf ''read controls state: '' e)
      | Corrupt e \<Rightarrow>
          Inr (c\<lparr>jobs := pause_jobs KnownJobs (jobs c),
                 load_note := ''state file '' @ path @ '' is unreadable ('' @ err_text e
                              @ ''): every job starts paused''\<rparr>)
      | Loaded svc js \<Rightarrow>
          (let c1 = (case svc of None \<Rightarrow> c | Some m \<Rightarrow> c\<lparr>services := rename_chat_ai m\<rparr>)
           in Inr (case js of None \<Rightarrow> c1 | Some m \<Rightarrow> c1\<lparr>jobs := m\<rparr>)))"

definition use_content_plugins :: "controls \<Rightarrow> controls" where
  "use_content_plugins c = c\<lparr>content_plugins := True\<rparr>"

subsection \<open>Saving\<close>

text \<open>
  \<open>saveLocked\<close> writes a temporary file and renames it over the old one, so the file on disk changes
  only in the last step.  \<open>io\<close> says how each step ends; \<open>disk\<close> is what the state file holds.
\<close>

datatype save_step =
    Marshal_State | Make_Dir | Create_Temp | Write_Temp | Close_Temp | Chmod_Temp | Rename_Temp

type_synonym save_io = "save_step \<Rightarrow> gerror option"
type_synonym disk = "persisted_state option"

definition save_steps :: "(save_step \<times> (gerror \<Rightarrow> gerror)) list" where
  "save_steps =
     [(Marshal_State, id), (Make_Dir, Wrapf ''create state dir: ''),
      (Create_Temp, Wrapf ''write state: ''), (Write_Temp, Wrapf ''write state: ''),
      (Close_Temp, id), (Chmod_Temp, id), (Rename_Temp, Wrapf ''save state: '')]"

fun first_failure :: "save_io \<Rightarrow> (save_step \<times> (gerror \<Rightarrow> gerror)) list \<Rightarrow> gerror option" where
  "first_failure io [] = None"
| "first_failure io ((st, wrap) # rest) =
     (case io st of Some e \<Rightarrow> Some (wrap e) | None \<Rightarrow> first_failure io rest)"

definition save_locked :: "save_io \<Rightarrow> controls \<Rightarrow> disk \<Rightarrow> gerror option \<times> disk" where
  "save_locked io c disk =
     (if ctl_path c = [] then (None, disk)
      else case first_failure io save_steps of
        Some e \<Rightarrow> (Some e, disk)
      | None \<Rightarrow> (None, Some (services c, jobs c)))"

subsection \<open>Services\<close>

definition service_enabled :: "controls \<Rightarrow> string \<Rightarrow> bool" where
  "service_enabled c name \<longleftrightarrow>
     \<not> service_off c name \<and>
     (\<not> content_plugins c \<or> (name \<noteq> ''book'' \<and> name \<noteq> ''meme'') \<or> \<not> service_off c ''feeds'')"

definition set_service ::
    "save_io \<Rightarrow> string \<Rightarrow> bool \<Rightarrow> controls \<times> disk \<Rightarrow> gerror option \<times> controls \<times> disk" where
  "set_service io name enabled = (\<lambda>(c, disk).
     if \<not> known_service name
     then (Some (Errorf (''unknown service '' @ go_quote name @ '' (known: ''
             @ join_with '', '' (KnownServices @ KnownInterfaces) @ '')'')), c, disk)
     else
       (let previous = services c name;
            c1 = c\<lparr>services := (if enabled then (services c)(name := None)
                                else (services c)(name \<mapsto> True))\<rparr>
        in case save_locked io c1 disk of
             (None, disk1) \<Rightarrow> (None, c1, disk1)
           | (Some e, disk1) \<Rightarrow>
               (Some e,
                c1\<lparr>services := (case previous of
                     Some p \<Rightarrow> (services c1)(name \<mapsto> p)
                   | None \<Rightarrow> (services c1)(name := None))\<rparr>,
                disk1)))"

record service_info =
  si_name :: string
  si_enabled :: bool

definition list_services :: "controls \<Rightarrow> service_info list" where
  "list_services c =
     map (\<lambda>name. \<lparr>si_name = name, si_enabled = (\<not> service_off c name)\<rparr>)
       (filter (\<lambda>name. \<not> (content_plugins c \<and> (name = ''book'' \<or> name = ''meme''))) KnownServices)"

subsection \<open>Jobs\<close>

definition job_enabled :: "controls \<Rightarrow> string \<Rightarrow> bool" where
  "job_enabled c name \<longleftrightarrow>
     pj_enabled (job_at c name) = None \<or> pj_enabled (job_at c name) = Some True"

record job_patch =
  jp_enabled :: "bool option"
  jp_interval :: "int option"
  jp_clear_interval :: bool

definition apply_patch :: "job_patch \<Rightarrow> persisted_job \<Rightarrow> persisted_job" where
  "apply_patch patch j =
     (let j1 = (case jp_enabled patch of
                  None \<Rightarrow> j
                | Some e \<Rightarrow> j\<lparr>pj_enabled := (if e then None else Some e)\<rparr>);
          j2 = (if jp_clear_interval patch then j1\<lparr>pj_interval := []\<rparr> else j1)
      in case jp_interval patch of
           None \<Rightarrow> j2
         | Some d \<Rightarrow> j2\<lparr>pj_interval := duration_string d\<rparr>)"

definition interval_ok :: "int \<Rightarrow> bool" where
  "interval_ok d \<longleftrightarrow> MinJobInterval \<le> d \<and> d \<le> MaxJobInterval"

definition set_job ::
    "save_io \<Rightarrow> string \<Rightarrow> job_patch \<Rightarrow> controls \<times> disk \<Rightarrow> gerror option \<times> controls \<times> disk" where
  "set_job io name patch = (\<lambda>(c, disk).
     if \<not> contains_str KnownJobs name
     then (Some (Errorf (''unknown job '' @ go_quote name @ '' (known: ''
             @ join_with '', '' KnownJobs @ '')'')), c, disk)
     else if (case jp_interval patch of None \<Rightarrow> False | Some d \<Rightarrow> \<not> interval_ok d)
     then (Some (Errorf (''interval must be between '' @ duration_string MinJobInterval @ '' and ''
             @ duration_string MaxJobInterval @ '', got '' @ duration_string (the (jp_interval patch)))),
           c, disk)
     else
       (let previous = jobs c name;
            job = apply_patch patch (job_at c name);
            c1 = c\<lparr>jobs := (if pj_enabled job = None \<and> pj_interval job = []
                             then (jobs c)(name := None) else (jobs c)(name \<mapsto> job))\<rparr>
        in case save_locked io c1 disk of
             (None, disk1) \<Rightarrow> (None, c1, disk1)
           | (Some e, disk1) \<Rightarrow>
               (Some e,
                c1\<lparr>jobs := (case previous of
                     Some p \<Rightarrow> (jobs c1)(name \<mapsto> p)
                   | None \<Rightarrow> (jobs c1)(name := None))\<rparr>,
                disk1)))"

text \<open>The interval override of a job, 0 when there is none the code accepts.\<close>

definition interval_override :: "controls \<Rightarrow> string \<Rightarrow> int" where
  "interval_override c name =
     (case parse_duration (pj_interval (job_at c name)) of
        None \<Rightarrow> 0
      | Some d \<Rightarrow> if d < MinJobInterval \<or> MaxJobInterval < d then 0 else d)"

definition runtime_entry :: "controls \<Rightarrow> string \<Rightarrow> job_runtime" where
  "runtime_entry c name = (case map_of (runtime c) name of None \<Rightarrow> no_runtime | Some r \<Rightarrow> r)"

definition record_run :: "string \<Rightarrow> string \<Rightarrow> gerror option \<Rightarrow> int \<Rightarrow> controls \<Rightarrow> controls" where
  "record_run schedule outcome cause at c =
     (if \<not> contains_str KnownJobs schedule then c
      else c\<lparr>runtime := AList.update schedule
               ((runtime_entry c schedule)\<lparr>jr_last_at := at, jr_last_outcome := outcome,
                  jr_last_error := (case cause of None \<Rightarrow> [] | Some e \<Rightarrow> err_text e)\<rparr>)
               (runtime c)\<rparr>)"

fun announce :: "job_announce list \<Rightarrow> int \<Rightarrow> controls \<Rightarrow> controls" where
  "announce [] at c = c"
| "announce (j # js) at c =
     (if \<not> contains_str KnownJobs (ja_name j) then announce js at c
      else announce js at
        (c\<lparr>runtime := AList.update (ja_name j)
             ((runtime_entry c (ja_name j))\<lparr>jr_announce := j, jr_announced_at := at\<rparr>)
             (runtime c)\<rparr>))"

fun newest_announce :: "int \<Rightarrow> (string \<times> job_runtime) list \<Rightarrow> int" where
  "newest_announce newest [] = newest"
| "newest_announce newest ((_, r) # rs) =
     newest_announce (if newest < jr_announced_at r then jr_announced_at r else newest) rs"

definition last_announce :: "controls \<Rightarrow> int" where
  "last_announce c = newest_announce 0 (runtime c)"

record job_info =
  ji_name :: string
  ji_enabled :: bool
  ji_interval :: int
  ji_override :: bool
  ji_next_at :: int
  ji_last_at :: int
  ji_last_outcome :: string
  ji_last_error :: string
  ji_announced_at :: int

definition job_info_of :: "controls \<Rightarrow> string \<Rightarrow> job_info" where
  "job_info_of c name =
     (let override = interval_override c name;
          info = \<lparr>ji_name = name, ji_enabled = job_enabled c name,
                  ji_interval = (if override > 0 then override else 0),
                  ji_override = (override > 0), ji_next_at = 0, ji_last_at = 0,
                  ji_last_outcome = [], ji_last_error = [], ji_announced_at = 0\<rparr>
      in case map_of (runtime c) name of
           None \<Rightarrow> info
         | Some r \<Rightarrow>
             info\<lparr>ji_interval := (if ji_interval info = 0 then ja_interval (jr_announce r)
                                  else ji_interval info),
                  ji_next_at := ja_next_fire (jr_announce r),
                  ji_announced_at := jr_announced_at r,
                  ji_last_at := (if jr_last_at r = 0 then ja_last_fire (jr_announce r)
                                 else jr_last_at r),
                  ji_last_outcome := jr_last_outcome r,
                  ji_last_error := jr_last_error r\<rparr>)"

definition list_jobs :: "controls \<Rightarrow> job_info list" where
  "list_jobs c = map (job_info_of c) KnownJobs"

subsection \<open>Saving is all or nothing\<close>

lemma save_locked_failed: "save_locked io c disk = (Some e, disk') \<Longrightarrow> disk' = disk"
  by (auto simp: save_locked_def split: if_splits option.splits)

lemma save_locked_ok:
  "save_locked io c disk = (None, disk') \<Longrightarrow>
   disk' = (if ctl_path c = [] then disk else Some (services c, jobs c))"
  by (auto simp: save_locked_def split: if_splits option.splits)

lemma controls_update_same [simp]:
  "c\<lparr>services := services c\<rparr> = c" "c\<lparr>jobs := jobs c\<rparr> = c"
  by (cases c, simp)+

lemma set_service_failed: "set_service io name b s = (Some e, s') \<Longrightarrow> s' = s"
  by (cases s)
    (auto simp: set_service_def Let_def fun_upd_idem dest: save_locked_failed
      split: if_splits prod.splits option.splits)

lemma set_job_failed: "set_job io name patch s = (Some e, s') \<Longrightarrow> s' = s"
  by (cases s)
    (auto simp: set_job_def Let_def fun_upd_idem simp del: fun_upd_apply dest: save_locked_failed
      split: if_splits prod.splits option.splits)

lemma set_service_ok:
  assumes "set_service io name b (c, disk) = (None, c', disk')"
  shows "known_service name"
    and "c' = c\<lparr>services := (if b then (services c)(name := None) else (services c)(name \<mapsto> True))\<rparr>"
    and "disk' = (if ctl_path c = [] then disk else Some (services c', jobs c'))"
  using assms
  by (auto simp: set_service_def Let_def dest: save_locked_ok
      split: if_splits prod.splits option.splits)

text \<open>The job overrides after a patch: an entry that says nothing is dropped.\<close>

definition patched_jobs :: "string \<Rightarrow> job_patch \<Rightarrow> controls \<Rightarrow> (string \<rightharpoonup> persisted_job)" where
  "patched_jobs name patch c =
     (let job = apply_patch patch (job_at c name) in
      if pj_enabled job = None \<and> pj_interval job = []
      then (jobs c)(name := None) else (jobs c)(name \<mapsto> job))"

lemma patched_jobs_at:
  "(case patched_jobs name patch c n of None \<Rightarrow> no_job | Some j \<Rightarrow> j)
     = (if n = name then apply_patch patch (job_at c name) else job_at c n)"
  by (auto simp: patched_jobs_def Let_def no_job_def)

lemma set_job_ok:
  assumes "set_job io name patch (c, disk) = (None, c', disk')"
  shows "name \<in> set KnownJobs"
    and "jp_interval patch = Some d \<Longrightarrow> interval_ok d"
    and "c' = c\<lparr>jobs := patched_jobs name patch c\<rparr>"
    and "disk' = (if ctl_path c = [] then disk else Some (services c', jobs c'))"
proof -
  show "name \<in> set KnownJobs" and "jp_interval patch = Some d \<Longrightarrow> interval_ok d"
    using assms by (auto simp: set_job_def split: if_splits)
  from assms have s: "save_locked io (c\<lparr>jobs := patched_jobs name patch c\<rparr>) disk = (None, disk')"
    and c': "c' = c\<lparr>jobs := patched_jobs name patch c\<rparr>"
    by (simp_all only: set_job_def patched_jobs_def Let_def prod.case split: if_splits prod.splits
        option.splits) simp_all
  show "c' = c\<lparr>jobs := patched_jobs name patch c\<rparr>" by (rule c')
  show "disk' = (if ctl_path c = [] then disk else Some (services c', jobs c'))"
    using save_locked_ok [OF s] by (simp add: c')
qed

interpretation svc: undoing "\<lambda>(io, name, b). set_service io name b"
  by unfold_locales (auto dest: set_service_failed)

interpretation job: undoing "\<lambda>(io, name, patch). set_job io name patch"
  by unfold_locales (auto dest: set_job_failed)

text \<open>Memory and disk agree.\<close>

definition synced :: "controls \<times> disk \<Rightarrow> bool" where
  "synced s \<longleftrightarrow> ctl_path (fst s) \<noteq> [] \<longrightarrow> snd s = Some (services (fst s), jobs (fst s))"

lemma set_service_synced:
  assumes "set_service io name b s = (None, s')"
  shows "synced s'"
proof -
  obtain c disk c' disk' where s: "s = (c, disk)" "s' = (c', disk')" by (cases s; cases s') auto
  with assms have ok: "set_service io name b (c, disk) = (None, c', disk')" by simp
  from set_service_ok(2,3) [OF ok] show ?thesis by (auto simp: synced_def s)
qed

lemma set_job_synced:
  assumes "set_job io name patch s = (None, s')"
  shows "synced s'"
proof -
  obtain c disk c' disk' where s: "s = (c, disk)" "s' = (c', disk')" by (cases s; cases s') auto
  with assms have ok: "set_job io name patch (c, disk) = (None, c', disk')" by simp
  from set_job_ok(3,4) [OF ok] show ?thesis by (auto simp: synced_def s)
qed

subsection \<open>Runtime notes never touch a switch\<close>

lemma record_run_frame [frame_simps]:
  "services (record_run s o' e t c) = services c"
  "jobs (record_run s o' e t c) = jobs c"
  "content_plugins (record_run s o' e t c) = content_plugins c"
  "ctl_path (record_run s o' e t c) = ctl_path c"
  by (simp_all add: record_run_def)

lemma announce_frame [frame_simps]:
  "services (announce js t c) = services c"
  "jobs (announce js t c) = jobs c"
  "content_plugins (announce js t c) = content_plugins c"
  by (induction js t c rule: announce.induct) simp_all

lemma record_run_enabled [simp]:
  "service_enabled (record_run s o' e t c) n = service_enabled c n"
  "job_enabled (record_run s o' e t c) n = job_enabled c n"
  by (simp_all add: service_enabled_def job_enabled_def frame_simps)

lemma job_info_of_simps [simp]:
  "ji_name (job_info_of c name) = name"
  "ji_enabled (job_info_of c name) = job_enabled c name"
  by (simp_all add: job_info_of_def Let_def split: option.split)

lemma newest_announce_max:
  "newest_announce t rs = Max (insert t (jr_announced_at ` snd ` set rs))"
proof (induction t rs rule: newest_announce.induct)
  case (2 newest n r rs)
  have "Max (insert (max newest (jr_announced_at r)) (jr_announced_at ` snd ` set rs))
          = Max (insert newest (insert (jr_announced_at r) (jr_announced_at ` snd ` set rs)))"
    by (cases "rs = []") (simp_all add: max.assoc Max.insert)
  with 2 show ?case by (simp add: max_def split: if_splits)
qed simp

subsection \<open>Restarting\<close>

text \<open>
  What the next start reads: JSON leaves out an empty map and an empty field, which decode as the
  empty values again, so decoding what was saved gives the maps back.
\<close>

definition file_of :: "disk \<Rightarrow> state_file" where
  "file_of disk = (case disk of None \<Rightarrow> No_File | Some (s, j) \<Rightarrow> Loaded (Some s) (Some j))"

lemma omitted_map_is_empty:
  "new_controls path (Loaded None js) = new_controls path (Loaded (Some Map.empty) js)"
  "new_controls path (Loaded svc None) = new_controls path (Loaded svc (Some Map.empty))"
  by (simp_all add: new_controls_def rename_chat_ai_def fresh_controls_def Let_def split: option.split)

lemma rename_chat_ai_id: "m ''chat_ai'' = None \<Longrightarrow> rename_chat_ai m = m"
  by (auto simp: rename_chat_ai_def)

lemma restart:
  assumes "synced (c, disk)" and "ctl_path c \<noteq> []" and "services c ''chat_ai'' = None"
  obtains c' where "new_controls (ctl_path c) (file_of disk) = Inr c'"
    and "services c' = services c" and "jobs c' = jobs c" and "\<not> content_plugins c'"
    and "runtime c' = []" and "ctl_path c' = ctl_path c"
  using assms
  by (auto simp: synced_def new_controls_def file_of_def fresh_controls_def rename_chat_ai_id)

lemma known_service_not_chat_ai: "known_service name \<Longrightarrow> name \<noteq> ''chat_ai''"
  by (auto simp: known_service_def known_defs)

text \<open>
  C25.  \<open>SetService\<close> is a transaction on one switch.  It succeeds only for a known service or
  interface, and then only the entry of that switch differs, every job reads as before and the state file holds
  exactly the new state.  \<open>ServiceEnabled\<close> reads for the service what was asked and for every other one what it read
  before, but for the two facades of Feeds, \<open>book\<close> and \<open>meme\<close>, where the content plugins are in use: these
  are on exactly when their own switch and the one of Feeds are.  Whenever \<open>SetService\<close> reports an error, memory and
  file are what they were.
\<close>

theorem set_service_transaction:
  "case set_service io name enabled (c, disk) of
     (None, c', disk') \<Rightarrow>
       known_service name \<and>
       (\<forall>n. service_off c' n = (if n = name then \<not> enabled else service_off c n)) \<and>
       (\<forall>n. service_enabled c' n =
          (if content_plugins c \<and> n \<in> {''book'', ''meme''}
           then (if n = name then enabled else services c n \<noteq> Some True)
              \<and> (if name = ''feeds'' then enabled else services c ''feeds'' \<noteq> Some True)
           else if n = name then enabled else service_enabled c n)) \<and>
       (\<forall>n. job_enabled c' n = job_enabled c n) \<and> synced (c', disk')
   | (Some e, c', disk') \<Rightarrow> c' = c \<and> disk' = disk"
proof (cases "set_service io name enabled (c, disk)")
  case (fields err c' disk')
  show ?thesis
  proof (cases err)
    case None
    with fields have ok: "set_service io name enabled (c, disk) = (None, c', disk')" by simp
    from set_service_ok(1,2) [OF ok] set_service_synced [OF ok] show ?thesis
      unfolding ok by (auto simp: job_enabled_def service_enabled_def)
  next
    case (Some e)
    with fields have "(c', disk') = (c, disk)" by (auto dest: set_service_failed)
    with fields Some show ?thesis by simp
  qed
qed

text \<open>
  An interval the operator sets survives a restart: after \<open>SetJob\<close> accepts an interval, a
  process started on the state file lists the job with exactly that interval, marked as an
  override (\<open>Duration.String\<close> wrote it, \<open>ParseDuration\<close> read it), with the same jobs enabled.
\<close>

theorem set_job_interval_survives_restart:
  assumes ok: "set_job io name patch (c, disk) = (None, c', disk')"
    and d: "jp_interval patch = Some d"
    and on_disk: "ctl_path c \<noteq> []" "services c ''chat_ai'' = None"
  shows "\<exists>c''. new_controls (ctl_path c) (file_of disk') = Inr c'' \<and>
           ji_interval (job_info_of c'' name) = d \<and> ji_override (job_info_of c'' name) \<and>
           job_info_of c'' name \<in> set (list_jobs c'') \<and>
           (\<forall>n. job_enabled c'' n = job_enabled c' n)"
proof -
  from set_job_ok [OF ok] d have name: "name \<in> set KnownJobs" and iv: "interval_ok d"
    and c': "c' = c\<lparr>jobs := patched_jobs name patch c\<rparr>" by auto
  then obtain c'' where n: "new_controls (ctl_path c) (file_of disk') = Inr c''"
    and s: "jobs c'' = jobs c'" "runtime c'' = []"
    using restart [of c' disk'] set_job_synced [OF ok] on_disk by auto
  have "pj_interval (job_at c' name) = duration_string d"
    unfolding c' using patched_jobs_at [of name patch c name] d
    by (simp add: apply_patch_def Let_def)
  then have "interval_override c'' name = d"
    using iv s parse_duration_string [of d]
    by (simp add: interval_override_def interval_ok_def interval_defs)
  moreover have "0 < d" using iv by (simp add: interval_ok_def interval_defs)
  ultimately have "ji_interval (job_info_of c'' name) = d" and "ji_override (job_info_of c'' name)"
    by (simp_all add: job_info_of_def Let_def s)
  with n s name show ?thesis by (auto simp: list_jobs_def job_enabled_def)
qed

theorem set_job_interval_survives_restart_witness:
  "\<exists>c''. new_controls ''s.json''
       (file_of (snd (snd (set_job (\<lambda>_. None) ''meme.dispatch''
          \<lparr>jp_enabled = Some False, jp_interval = Some 5400000000000, jp_clear_interval = False\<rparr>
          (fresh_controls ''s.json'', None))))) = Inr c'' \<and>
     ji_interval (job_info_of c'' ''meme.dispatch'') = 5400000000000"
proof -
  let ?p = "\<lparr>jp_enabled = Some False, jp_interval = Some 5400000000000, jp_clear_interval = False\<rparr>"
  let ?r = "set_job (\<lambda>_. None) ''meme.dispatch'' ?p (fresh_controls ''s.json'', None)"
  have "fst ?r = None"
    by (simp add: set_job_def Let_def save_locked_def save_steps_def fresh_controls_def known_defs
        interval_ok_def interval_defs)
  then have "set_job (\<lambda>_. None) ''meme.dispatch'' ?p (fresh_controls ''s.json'', None)
      = (None, fst (snd ?r), snd (snd ?r))" by (metis prod.collapse)
  from set_job_interval_survives_restart [OF this, of 5400000000000] show ?thesis
    by (auto simp: fresh_controls_def)
qed

text \<open>
  A state file that cannot be decoded starts every known job paused (nothing posts because a
  file could not be read), leaves every service on and says so in the load note.
\<close>

theorem corrupt_file_pauses_jobs:
  assumes "path \<noteq> []"
  shows "\<exists>c. new_controls path (Corrupt e) = Inr c \<and>
           (\<forall>j \<in> set (list_jobs c). \<not> ji_enabled j) \<and> map ji_name (list_jobs c) = KnownJobs \<and>
           (\<forall>n. service_enabled c n) \<and> load_note c \<noteq> []"
  using assms
  by (auto simp add: new_controls_def fresh_controls_def list_jobs_def Let_def
      job_enabled_def known_defs service_enabled_def)

theorem corrupt_file_pauses_jobs_witness:
  "\<exists>c. new_controls ''s.json'' (Corrupt (Errorf ''bad'')) = Inr c \<and> \<not> job_enabled c ''meme.refresh''"
  using corrupt_file_pauses_jobs [of "''s.json''" "Errorf ''bad''"]
  by (auto simp: list_jobs_def known_defs)

text \<open>
  Whatever sequence of switch changes the operator makes, some of them refused or failing to
  save, the state file agrees with memory afterwards if it did before, and the outcome is that of
  the successful changes alone.
\<close>

theorem service_changes_stay_synced:
  assumes "synced s"
  shows "synced (run_ops (\<lambda>(io, name, b). set_service io name b) changes s) \<and>
         run_ops (\<lambda>(io, name, b). set_service io name b) changes s
           = run_ops (\<lambda>(io, name, b). set_service io name b)
               (successes (\<lambda>(io, name, b). set_service io name b) changes s) s"
proof
  show "synced (run_ops (\<lambda>(io, name, b). set_service io name b) changes s)"
    by (rule svc.run_inv [where I = synced]) (use assms in \<open>auto dest: set_service_synced\<close>)
qed (rule svc.run_successes)

theorem service_changes_stay_synced_witness:
  "synced (run_ops (\<lambda>(io, name, b). set_service io name b)
     [(\<lambda>_. None, ''meme'', False), (\<lambda>_. Some (Errorf ''disk full''), ''chat'', False)]
     (fresh_controls [], None))"
proof -
  have "synced (fresh_controls [], None)" by (simp add: synced_def fresh_controls_def)
  from service_changes_stay_synced [OF this] show ?thesis by blast
qed

end
