(* ===== verification/Service.thy ===== *)
theory Service
  imports Access Controls
begin

section \<open>The orchestrator's service\<close>

text \<open>
  \<open>dokja_orch/internal/core/dispatcher.go\<close> and \<open>service.go\<close>: normalize, authorize, route, honour
  the operator's switches, build the context, plan, dispatch.  A handler acts on the state of the
  process, which is the controls (an administrative handler changes them) and whatever else the
  handlers share, the type \<open>'w\<close>.
\<close>

subsection \<open>Dispatching\<close>

type_synonym handler_result = "(string \<times> gval) list"

type_synonym 's handler =
  "go_ctx \<Rightarrow> event \<Rightarrow> wf_step \<Rightarrow> 's \<Rightarrow> 's \<times> handler_result res"

type_synonym 's dispatcher = "go_ctx \<Rightarrow> event \<Rightarrow> workflow \<Rightarrow> 's \<Rightarrow> 's \<times> gmap res"

definition ErrInboundDenied :: gerror where
  "ErrInboundDenied = Sentinel ''inbound communication is not eligible''"

text \<open>
  \<open>NewDomainDispatcher\<close>: a nil handler is skipped and a later handler of the same domain replaces an
  earlier one.  A handler is given with its \<open>Domain()\<close>.
\<close>

fun register :: "(domain \<times> 's handler) option list \<Rightarrow> (domain \<rightharpoonup> 's handler) \<Rightarrow> (domain \<rightharpoonup> 's handler)" where
  "register [] m = m"
| "register (None # hs) m = register hs m"
| "register (Some (d, h) # hs) m = register hs (m(d \<mapsto> h))"

definition new_dispatcher :: "(domain \<times> 's handler) option list \<Rightarrow> (domain \<rightharpoonup> 's handler)" where
  "new_dispatcher hs = register hs Map.empty"

text \<open>The loop of \<open>Dispatch\<close>, with the result map built so far.\<close>

fun dispatch_steps ::
    "(domain \<rightharpoonup> 's handler) \<Rightarrow> go_ctx \<Rightarrow> event \<Rightarrow> gmap \<Rightarrow> wf_step list \<Rightarrow> 's \<Rightarrow> 's \<times> gmap res" where
  "dispatch_steps hs ctx e result [] s = (s, Inr result)"
| "dispatch_steps hs ctx e result (st # sts) s =
     (case hs (ws_domain st) of
        None \<Rightarrow> (s, Inl (Errorf (''no handler registered for domain ''
                                @ go_quote (domain_name (ws_domain st)))))
      | Some h \<Rightarrow>
          (case h ctx e st s of
             (s', Inl err) \<Rightarrow>
               (s', Inl (Wrapf (''dispatch '' @ domain_name (ws_domain st) @ '': '') err))
           | (s', Inr out) \<Rightarrow>
               dispatch_steps hs ctx e
                 (if out \<noteq> [] then result(domain_name (ws_domain st) \<mapsto> VMap out) else result) sts s'))"

definition dispatch :: "(domain \<rightharpoonup> 's handler) option \<Rightarrow> 's dispatcher" where
  "dispatch d ctx e w s =
     (case d of
        None \<Rightarrow> (s, Inl (Errorf ''domain dispatcher is nil''))
      | Some hs \<Rightarrow> dispatch_steps hs ctx e Map.empty (wf_steps w) s)"

subsection \<open>The service\<close>

text \<open>
  A collaborator is \<open>None\<close> when its interface is nil.  \<open>svc_controlled\<close> says whether \<open>WithControls\<close>
  gave the service controls.  The clock values of one call: the identifier \<open>Normalize\<close> would make up
  and the times it, the context builder and \<open>RecordRun\<close> read.
\<close>

record 's service =
  svc_router :: "(event \<Rightarrow> route res) option"
  svc_context :: "(string \<Rightarrow> event \<Rightarrow> route \<Rightarrow> gmap res) option"
  svc_engine :: "(event \<Rightarrow> route \<Rightarrow> workflow res) option"
  svc_dispatcher :: "'s dispatcher option"
  svc_controlled :: bool
  svc_communications_token :: string
  svc_supervision_token :: string

record clock =
  clk_fresh :: string
  clk_arrival :: int
  clk_received :: string
  clk_finished :: int

record process_result =
  out_event :: event
  out_workflow :: string
  out_domains :: "string list"
  out_result :: gmap

definition new_service ::
    "(event \<Rightarrow> route res) option \<Rightarrow> (string \<Rightarrow> event \<Rightarrow> route \<Rightarrow> gmap res) option \<Rightarrow>
     (event \<Rightarrow> route \<Rightarrow> workflow res) option \<Rightarrow> 's dispatcher option \<Rightarrow> 's service" where
  "new_service r c w d =
     \<lparr>svc_router = r, svc_context = c, svc_engine = w, svc_dispatcher = d, svc_controlled = False,
      svc_communications_token = [], svc_supervision_token = []\<rparr>"

definition default_service :: "(domain \<times> 's handler) option list \<Rightarrow> 's service" where
  "default_service hs =
     new_service (Some route_event) (Some build_context) (Some plan)
       (Some (dispatch (Some (new_dispatcher hs))))"

definition with_controls :: "bool \<Rightarrow> 's service \<Rightarrow> 's service" where
  "with_controls given svc = svc\<lparr>svc_controlled := given\<rparr>"

definition with_communications_token :: "string \<Rightarrow> 's service \<Rightarrow> 's service" where
  "with_communications_token token svc = svc\<lparr>svc_communications_token := token\<rparr>"

definition with_source_supervision_token :: "string \<Rightarrow> 's service \<Rightarrow> 's service" where
  "with_source_supervision_token token svc = svc\<lparr>svc_supervision_token := token\<rparr>"

definition schedule_of :: "event \<Rightarrow> string" where
  "schedule_of e = str_of (context_at e ''schedule'')"

text \<open>
  \<open>skipped\<close>, up to the reason: why the operator's switches stop the event and whether silently.  The
  supervision's status and control stay reachable while the knowledge service is off.
\<close>

definition skip_reason :: "controls \<Rightarrow> event \<Rightarrow> (string \<times> bool) option" where
  "skip_reason c e =
     (let schedule = schedule_of e;
          name = interface_for_source (ev_source e);
          svc = service_for_event (ev_type e)
      in if name \<noteq> [] \<and> \<not> service_enabled c name
         then Some (''interface '' @ name @ '' is switched off'', True)
         else if svc \<noteq> [] \<and> \<not> service_enabled c svc
                 \<and> ev_type e \<noteq> ''knowledge.application.supervision.status''
                 \<and> ev_type e \<noteq> ''knowledge.application.supervision.control''
         then Some (''service '' @ svc @ '' is disabled'', False)
         else if schedule \<noteq> [] \<and> \<not> service_enabled c ''scheduler''
         then Some (''scheduler is paused'', False)
         else if schedule \<noteq> [] \<and> \<not> job_enabled c schedule
         then Some (''job '' @ schedule @ '' is paused'', False)
         else None)"

definition skipped ::
    "'s service \<Rightarrow> int \<Rightarrow> event \<Rightarrow> route \<Rightarrow> controls \<Rightarrow> controls \<times> process_result option" where
  "skipped svc at e r c =
     (if \<not> svc_controlled svc then (c, None)
      else case skip_reason c e of
        None \<Rightarrow> (c, None)
      | Some (reason, silent) \<Rightarrow>
          (record_run (schedule_of e) ''skipped'' (Some (Errorf reason)) at c,
           Some \<lparr>out_event = e, out_workflow = rt_workflow r,
                 out_domains = domains_to_strings (rt_domains r),
                 out_result = [''skipped'' \<mapsto> VBool True, ''reason'' \<mapsto> VStr reason,
                               ''silent'' \<mapsto> VBool silent]\<rparr>))"

definition service_record_run :: "'s service \<Rightarrow> int \<Rightarrow> event \<Rightarrow> gerror option \<Rightarrow> controls \<Rightarrow> controls" where
  "service_record_run svc at e cause c =
     (if \<not> svc_controlled svc \<or> schedule_of e = [] then c
      else record_run (schedule_of e) (if cause \<noteq> None then ''error'' else ''ran'') cause at c)"

text \<open>
  \<open>ProcessWithResult\<close> in its stages.  \<open>admit\<close> normalizes and authorizes; \<open>finish\<close> is what follows the
  dispatch; \<open>run_routed\<close> is everything after routing.
\<close>

definition admit :: "'s service \<Rightarrow> clock \<Rightarrow> go_ctx \<Rightarrow> event \<Rightarrow> (go_ctx \<times> event) res" where
  "admit svc clk ctx e =
     (case normalize (clk_fresh clk) (clk_arrival clk) (Some e) of
        (_, Some err) \<Rightarrow> Inl err
      | (None, None) \<Rightarrow> Inl (Errorf ''event is nil'')
      | (Some e1, None) \<Rightarrow>
          (case authorize_source_supervision (svc_supervision_token svc) ctx e1 of
             (_, Inl err) \<Rightarrow> Inl err
           | (e2, Inr ctx2) \<Rightarrow>
               (case authorize_communications (svc_communications_token svc) e2 of
                  (_, Some err) \<Rightarrow> Inl err
                | (e3, None) \<Rightarrow> Inr (ctx2, e3))))"

definition processed :: "event \<Rightarrow> route \<Rightarrow> gmap \<Rightarrow> process_result" where
  "processed e r result =
     \<lparr>out_event = e, out_workflow = rt_workflow r, out_domains = domains_to_strings (rt_domains r),
      out_result = result\<rparr>"

definition finish ::
    "'s service \<Rightarrow> int \<Rightarrow> event \<Rightarrow> route \<Rightarrow> (controls \<times> 'w) \<times> gmap res
       \<Rightarrow> (controls \<times> 'w) \<times> process_result res" where
  "finish svc at e r = (\<lambda>((c, w), out).
     case out of
       Inl err \<Rightarrow>
         if errors_is err ErrInboundDenied
         then ((c, w), Inr (processed e r [''skipped'' \<mapsto> VBool True, ''silent'' \<mapsto> VBool True]))
         else ((service_record_run svc at e (Some err) c, w), Inl (Wrapf ''dispatch workflow: '' err))
     | Inr result \<Rightarrow> ((service_record_run svc at e None c, w), Inr (processed e r result)))"

definition run_routed ::
    "(controls \<times> 'w) service \<Rightarrow> (string \<Rightarrow> event \<Rightarrow> route \<Rightarrow> gmap res) \<Rightarrow>
     (event \<Rightarrow> route \<Rightarrow> workflow res) \<Rightarrow> (controls \<times> 'w) dispatcher \<Rightarrow> clock \<Rightarrow> go_ctx \<Rightarrow> event \<Rightarrow> route
       \<Rightarrow> controls \<times> 'w \<Rightarrow> (controls \<times> 'w) \<times> process_result res" where
  "run_routed svc build engine disp clk ctx e r = (\<lambda>(c, w).
     case skipped svc (clk_finished clk) e r c of
       (c', Some result) \<Rightarrow> ((c', w), Inr result)
     | (c', None) \<Rightarrow>
         (case build (clk_received clk) e r of
            Inl err \<Rightarrow> ((c', w), Inl (Wrapf ''build context: '' err))
          | Inr m \<Rightarrow>
              (let e' = e\<lparr>ev_context := Some m\<rparr>
               in case engine e' r of
                    Inl err \<Rightarrow> ((c', w), Inl (Wrapf ''plan workflow: '' err))
                  | Inr flow \<Rightarrow> finish svc (clk_finished clk) e' r (disp ctx e' flow (c', w)))))"

definition process_with_result ::
    "(controls \<times> 'w) service option \<Rightarrow> clock \<Rightarrow> go_ctx \<Rightarrow> event
       \<Rightarrow> controls \<times> 'w \<Rightarrow> (controls \<times> 'w) \<times> process_result res" where
  "process_with_result so clk ctx e s =
     (case so of
        None \<Rightarrow> (s, Inl (Errorf ''orchestrator service is nil''))
      | Some svc \<Rightarrow>
          (case svc_router svc of
             None \<Rightarrow> (s, Inl (Errorf ''event router is not configured''))
           | Some route \<Rightarrow>
          (case svc_context svc of
             None \<Rightarrow> (s, Inl (Errorf ''context builder is not configured''))
           | Some build \<Rightarrow>
          (case svc_engine svc of
             None \<Rightarrow> (s, Inl (Errorf ''workflow engine is not configured''))
           | Some engine \<Rightarrow>
          (case svc_dispatcher svc of
             None \<Rightarrow> (s, Inl (Errorf ''domain dispatcher is not configured''))
           | Some disp \<Rightarrow>
          (case admit svc clk ctx e of
             Inl err \<Rightarrow> (s, Inl err)
           | Inr (ctx', e') \<Rightarrow>
          (case route e' of
             Inl err \<Rightarrow> (s, Inl (Wrapf ''route event: '' err))
           | Inr r \<Rightarrow> run_routed svc build engine disp clk ctx' e' r s)))))))"

text \<open>\<open>Process\<close>.\<close>

definition process ::
    "(controls \<times> 'w) service option \<Rightarrow> clock \<Rightarrow> go_ctx \<Rightarrow> event
       \<Rightarrow> controls \<times> 'w \<Rightarrow> (controls \<times> 'w) \<times> gerror option" where
  "process so clk ctx e s =
     (case process_with_result so clk ctx e s of
        (s', Inl err) \<Rightarrow> (s', Some err) | (s', Inr _) \<Rightarrow> (s', None))"

subsection \<open>What an admitted event is\<close>

text \<open>
  \<open>operator_call\<close> is an event only the desktop operator may send; \<open>credential_ok\<close> says that the event
  as it arrived carries what its type demands.
\<close>

abbreviation operator_call :: "event \<Rightarrow> bool" where
  "operator_call e \<equiv> has_prefix (ev_type e) ''knowledge.application.supervision.''"

definition credential_ok :: "'s service \<Rightarrow> event \<Rightarrow> bool" where
  "credential_ok svc e \<longleftrightarrow>
     (has_prefix (trim_space (ev_type e)) ''knowledge.application.supervision.'' \<longrightarrow>
        trim_space (ev_source e) = SourceDesktop \<and> valid_token (svc_supervision_token svc) \<and>
        context_at e ''source_supervision_token'' = Some (VStr (svc_supervision_token svc))) \<and>
     (has_prefix (trim_space (ev_type e)) ''communications.'' \<longrightarrow>
        length (svc_communications_token svc) \<ge> 32 \<and>
        \<not> has_prefix (svc_communications_token svc) ''CHANGE_ME'' \<and>
        context_at e ''communications_token'' = Some (VStr (svc_communications_token svc)))"

lemma str_of_token:
  assumes "token \<noteq> []"
  shows "str_of v = token \<longleftrightarrow> v = Some (VStr token)" and "token = str_of v \<longleftrightarrow> v = Some (VStr token)"
  using assms by (cases v rule: str_of.cases; auto)+

lemma valid_token_nonempty: "valid_token token \<Longrightarrow> token \<noteq> []"
  by (auto simp: valid_token_def)

definition admitted_event :: "clock \<Rightarrow> event \<Rightarrow> event" where
  "admitted_event clk e =
     without_key ''communications_token''
       (without_key ''source_supervision_token'' (normalized (clk_fresh clk) (clk_arrival clk) e))"

definition admitted_ctx :: "go_ctx \<Rightarrow> event \<Rightarrow> go_ctx" where
  "admitted_ctx ctx e =
     (if has_prefix (trim_space (ev_type e)) ''knowledge.application.supervision.''
      then ctx\<lparr>ctx_principal := Some desktop_operator\<rparr> else ctx)"

lemma admitted_event_simps [simp]:
  "ev_type (admitted_event clk e) = trim_space (ev_type e)"
  "ev_source (admitted_event clk e) = trim_space (ev_source e)"
  "context_at (admitted_event clk e) k = (if k \<in> credential_keys then None else context_at e k)"
  by (auto simp: admitted_event_def credential_keys_def)

lemma authorize_supervision_iff:
  "authorize_source_supervision token ctx e = (e', Inr ctx') \<longleftrightarrow>
     e' = without_key ''source_supervision_token'' e \<and>
     (if operator_call e
      then ev_source e = SourceDesktop \<and> valid_token token
           \<and> context_at e ''source_supervision_token'' = Some (VStr token)
           \<and> ctx' = ctx\<lparr>ctx_principal := Some desktop_operator\<rparr>
      else ctx' = ctx)"
proof (cases "operator_call e \<and> valid_token token")
  case True
  then show ?thesis
    by (simp add: authorize_source_supervision_def authenticate_def Let_def str_of_token
        valid_token_nonempty eq_commute [of e'] eq_commute [of ctx'])
next
  case False
  then show ?thesis
    by (auto simp: authorize_source_supervision_def authenticate_def Let_def)
qed

lemma authorize_communications_iff:
  "authorize_communications token e = (e', None) \<longleftrightarrow>
     e' = without_key ''communications_token'' e \<and>
     (has_prefix (ev_type e) ''communications.'' \<longrightarrow>
        length token \<ge> 32 \<and> \<not> has_prefix token ''CHANGE_ME''
        \<and> context_at e ''communications_token'' = Some (VStr token))"
proof (cases "length token \<ge> 32")
  case True
  then have "token \<noteq> []" by auto
  with True show ?thesis
    by (simp add: authorize_communications_def Let_def str_of_token eq_commute [of e'])
next
  case False
  then show ?thesis by (auto simp: authorize_communications_def Let_def)
qed

lemma guard_split:
  "((if a then s \<and> p \<and> q \<and> x = y else x = z) \<and> (b \<longrightarrow> l) \<and> r) =
   (((a \<longrightarrow> s \<and> p \<and> q) \<and> (b \<longrightarrow> l)) \<and> x = (if a then y else z) \<and> r)"
  by auto

lemma admit_iff:
  "admit svc clk ctx e = Inr (ctx', e') \<longleftrightarrow>
     trim_space (ev_type e) \<noteq> [] \<and> trim_space (ev_source e) \<noteq> [] \<and> credential_ok svc e \<and>
     ctx' = admitted_ctx ctx e \<and> e' = admitted_event clk e"
proof (cases "trim_space (ev_type e) \<noteq> [] \<and> trim_space (ev_source e) \<noteq> []")
  case True
  let ?e1 = "normalized (clk_fresh clk) (clk_arrival clk) e"
  obtain e2 o2 where a2: "authorize_source_supervision (svc_supervision_token svc) ctx ?e1 = (e2, o2)"
    by fastforce
  have e2: "e2 = without_key ''source_supervision_token'' ?e1"
    using a2 by (simp add: authorize_source_supervision_def Let_def)
  obtain e3 o3 where a3: "authorize_communications (svc_communications_token svc) e2 = (e3, o3)"
    by fastforce
  have e3: "e3 = admitted_event clk e"
    using a3 e2 by (simp add: authorize_communications_def Let_def admitted_event_def)
  have "admit svc clk ctx e = Inr (ctx', e') \<longleftrightarrow> o2 = Inr ctx' \<and> o3 = None \<and> e' = e3"
    using True a2 a3 by (cases o2; cases o3) (auto simp: admit_def normalize_okI)
  also have "o2 = Inr ctx' \<longleftrightarrow>
      (if has_prefix (trim_space (ev_type e)) ''knowledge.application.supervision.''
       then trim_space (ev_source e) = SourceDesktop \<and> valid_token (svc_supervision_token svc) \<and>
            context_at e ''source_supervision_token'' = Some (VStr (svc_supervision_token svc)) \<and>
            ctx' = ctx\<lparr>ctx_principal := Some desktop_operator\<rparr>
       else ctx' = ctx)"
    using authorize_supervision_iff [of "svc_supervision_token svc" ctx ?e1 e2 ctx'] unfolding a2
    by (simp add: e2)
  also have "o3 = None \<longleftrightarrow>
      (has_prefix (trim_space (ev_type e)) ''communications.'' \<longrightarrow>
        length (svc_communications_token svc) \<ge> 32 \<and>
        \<not> has_prefix (svc_communications_token svc) ''CHANGE_ME'' \<and>
        context_at e ''communications_token'' = Some (VStr (svc_communications_token svc)))"
    using authorize_communications_iff [of "svc_communications_token svc" e2 e3] unfolding a3
    by (simp add: e2 e3 admitted_event_def)
  finally have "admit svc clk ctx e = Inr (ctx', e') \<longleftrightarrow>
      credential_ok svc e \<and> ctx' = admitted_ctx ctx e \<and> e' = e3"
    unfolding credential_ok_def admitted_ctx_def by (rule trans) (rule guard_split)
  then show ?thesis using True e3 by simp
next
  case False
  then show ?thesis
    by (auto simp: admit_def normalize_simps split: prod.splits option.splits)
qed

subsection \<open>What dispatching means\<close>

text \<open>
  The specification of the loop: \<open>steps_run\<close> says that every step of a list was handled, which
  results the handlers gave and the state they left; \<open>merged\<close> is the result under a domain's name, the
  last one that was not empty.
\<close>

inductive steps_run ::
    "(domain \<rightharpoonup> 's handler) \<Rightarrow> go_ctx \<Rightarrow> event \<Rightarrow> wf_step list \<Rightarrow> 's \<Rightarrow> handler_result list \<Rightarrow> 's \<Rightarrow> bool"
  for hs ctx e where
  no_steps: "steps_run hs ctx e [] s [] s"
| one_step: "hs (ws_domain st) = Some h \<Longrightarrow> h ctx e st s = (s1, Inr out) \<Longrightarrow>
     steps_run hs ctx e sts s1 outs s2 \<Longrightarrow> steps_run hs ctx e (st # sts) s (out # outs) s2"

inductive_simps steps_run_Nil [simp]: "steps_run hs ctx e [] s outs s'"
inductive_simps steps_run_Cons: "steps_run hs ctx e (st # sts) s outs s'"

fun merged :: "gmap \<Rightarrow> (wf_step \<times> handler_result) list \<Rightarrow> gmap" where
  "merged m [] = m"
| "merged m ((st, out) # rest) =
     merged (if out \<noteq> [] then m(domain_name (ws_domain st) \<mapsto> VMap out) else m) rest"

lemma dispatch_steps_ok:
  "dispatch_steps hs ctx e m sts s = (s', Inr m') \<longleftrightarrow>
     (\<exists>outs. steps_run hs ctx e sts s outs s' \<and> m' = merged m (zip sts outs))"
proof (induction sts arbitrary: m s)
  case (Cons st sts)
  show ?case
  proof (cases "hs (ws_domain st)")
    case None
    then show ?thesis by (simp add: steps_run_Cons)
  next
    case (Some h)
    obtain s1 r where "h ctx e st s = (s1, r)" by fastforce
    then show ?thesis using Some Cons.IH by (cases r) (auto simp: steps_run_Cons)
  qed
qed auto

text \<open>How a step fails: no handler of its domain, or the handler's error, wrapped.\<close>

definition step_fails ::
    "(domain \<rightharpoonup> 's handler) \<Rightarrow> go_ctx \<Rightarrow> event \<Rightarrow> wf_step \<Rightarrow> 's \<Rightarrow> 's \<Rightarrow> gerror \<Rightarrow> bool" where
  "step_fails hs ctx e st s s' err \<longleftrightarrow>
     (case hs (ws_domain st) of
        None \<Rightarrow> s' = s \<and> err = Errorf (''no handler registered for domain ''
                                     @ go_quote (domain_name (ws_domain st)))
      | Some h \<Rightarrow> \<exists>cause. h ctx e st s = (s', Inl cause) \<and>
                        err = Wrapf (''dispatch '' @ domain_name (ws_domain st) @ '': '') cause)"

lemma dispatch_steps_error:
  "dispatch_steps hs ctx e m sts s = (s', Inl err) \<longleftrightarrow>
     (\<exists>pre st post outs s1. sts = pre @ st # post \<and> steps_run hs ctx e pre s outs s1 \<and>
        step_fails hs ctx e st s1 s' err)"
  (is "?L m sts s \<longleftrightarrow> ?R sts s")
proof (induction sts arbitrary: m s)
  case (Cons st sts)
  have split: "?R (st # sts) s \<longleftrightarrow> step_fails hs ctx e st s s' err \<or>
      (\<exists>h s1 out. hs (ws_domain st) = Some h \<and> h ctx e st s = (s1, Inr out) \<and> ?R sts s1)"
    (is "_ \<longleftrightarrow> ?now \<or> ?later")
  proof
    assume "?R (st # sts) s"
    then obtain pre st' post outs s1 where e: "st # sts = pre @ st' # post"
      and r: "steps_run hs ctx e pre s outs s1" and f: "step_fails hs ctx e st' s1 s' err"
      by blast
    show "?now \<or> ?later"
    proof (cases pre)
      case Nil
      then show ?thesis using e r f by auto
    next
      case (Cons p pre')
      then have eqs: "p = st" "sts = pre' @ st' # post" using e by auto
      obtain h s2 out outs' where "hs (ws_domain st) = Some h" and "h ctx e st s = (s2, Inr out)"
        and "steps_run hs ctx e pre' s2 outs' s1"
        using r Cons eqs(1) by (auto simp: steps_run_Cons)
      then show ?thesis using eqs(2) f by blast
    qed
  next
    assume "?now \<or> ?later"
    then show "?R (st # sts) s"
    proof
      assume ?now
      then show ?thesis using steps_run.no_steps append_Nil by metis
    next
      assume ?later
      then obtain h s1 out pre st' post outs s2 where
        "hs (ws_domain st) = Some h" "h ctx e st s = (s1, Inr out)" "sts = pre @ st' # post"
        "steps_run hs ctx e pre s1 outs s2" and f: "step_fails hs ctx e st' s2 s' err"
        by blast
      then have "st # sts = (st # pre) @ st' # post"
        and "steps_run hs ctx e (st # pre) s (out # outs) s2"
        by (auto intro: steps_run.one_step)
      then show ?thesis using f by blast
    qed
  qed
  show ?case
  proof (cases "hs (ws_domain st)")
    case None
    then show ?thesis unfolding split by (auto simp: step_fails_def)
  next
    case (Some h)
    obtain s1 r where "h ctx e st s = (s1, r)" by fastforce
    then show ?thesis unfolding split using Some Cons.IH
      by (cases r) (auto simp: step_fails_def)
  qed
qed simp

subsection \<open>Properties of dispatching\<close>

text \<open>
  Dispatching succeeds exactly when every step of the workflow is handled, in order, each on the
  state the previous one left; the result then holds, under each domain's name, the last result of
  that domain's steps that was not empty.
\<close>

theorem dispatch_success:
  "dispatch (Some hs) ctx e flow s = (s', Inr m) \<longleftrightarrow>
     (\<exists>outs. steps_run hs ctx e (wf_steps flow) s outs s' \<and>
             m = merged Map.empty (zip (wf_steps flow) outs))"
  by (simp add: dispatch_def dispatch_steps_ok)

text \<open>
  Dispatching fails exactly when, after a first part of the steps was handled, one step has no
  handler or its handler fails: that step's error is the one reported, the state is the one it left,
  and no later step runs.
\<close>

theorem dispatch_failure:
  "dispatch (Some hs) ctx e flow s = (s', Inl err) \<longleftrightarrow>
     (\<exists>pre st post outs s1. wf_steps flow = pre @ st # post \<and> steps_run hs ctx e pre s outs s1 \<and>
        step_fails hs ctx e st s1 s' err)"
  by (simp add: dispatch_def dispatch_steps_error)

end
