(* ===== verification/Service_Guarantees.thy ===== *)
theory Service_Guarantees
  imports Service
begin

section \<open>What the service guarantees\<close>

text \<open>
  The properties of \<open>ProcessWithResult\<close> as a whole.  The pipeline locale puts the contracts of the
  router, the workflow engine and the context builder together and is interpreted on the code's own.
\<close>

subsection \<open>The pipeline\<close>

text \<open>
  A call of the dispatcher the service may make: no credential in the event, the operator's authority
  for the operator's events, and the authorization in front of an inbound workflow.
\<close>

definition legit_call :: "go_ctx \<Rightarrow> event \<Rightarrow> workflow \<Rightarrow> bool" where
  "legit_call ctx e flow \<longleftrightarrow>
     (\<forall>k \<in> credential_keys. context_at e k = None) \<and>
     (operator_call e \<longrightarrow> ev_source e = SourceDesktop \<and> ctx_principal ctx = Some desktop_operator) \<and>
     (gateway_inbound e \<longrightarrow> (\<exists>steps. wf_steps flow = authorize_step # steps))"

definition clean_event :: "go_ctx \<Rightarrow> event \<Rightarrow> bool" where
  "clean_event ctx e \<longleftrightarrow>
     (\<forall>k \<in> credential_keys. context_at e k = None) \<and>
     (operator_call e \<longrightarrow> ev_source e = SourceDesktop \<and> ctx_principal ctx = Some desktop_operator)"

lemma clean_admitted:
  "credential_ok svc e \<Longrightarrow> clean_event (admitted_ctx ctx e) (admitted_event clk e)"
  by (simp add: clean_event_def admitted_ctx_def credential_ok_def)

locale pipeline = planning route plan + context_builder build
  for route :: "event \<Rightarrow> route res" and plan :: "event \<Rightarrow> route \<Rightarrow> workflow res"
    and build :: "string \<Rightarrow> event \<Rightarrow> route \<Rightarrow> gmap res"
begin

lemma planned_call_is_legit:
  assumes "route e = Inr r" and "build t e r = Inr m" and "plan (e\<lparr>ev_context := Some m\<rparr>) r = Inr flow"
    and "clean_event ctx e"
  shows "legit_call ctx (e\<lparr>ev_context := Some m\<rparr>) flow"
proof -
  have "m k = None" if "k \<in> credential_keys" for k
    using build_keeps [OF assms(2), of k] assms(4) that by (simp add: clean_event_def)
  moreover have "\<exists>steps. wf_steps flow = authorize_step # steps"
    if g: "gateway_inbound (e\<lparr>ev_context := Some m\<rparr>)"
  proof -
    have "gateway_inbound e" using g build_inbound [OF assms(2)] by simp
    then show ?thesis using authorized_first [OF assms(1) _ assms(3) g] by blast
  qed
  ultimately show ?thesis using assms(4) by (simp add: legit_call_def clean_event_def)
qed

text \<open>Dispatchers that agree on the legitimate calls cannot be told apart.\<close>

lemma run_routed_legit:
  assumes "route e = Inr r" and "clean_event ctx e"
    and agree: "\<And>c ev fl s. legit_call c ev fl \<Longrightarrow> d c ev fl s = d' c ev fl s"
  shows "run_routed svc build plan d clk ctx e r s = run_routed svc build plan d' clk ctx e r s"
proof -
  obtain c w where s: "s = (c, w)" by fastforce
  have "d ctx (e\<lparr>ev_context := Some m\<rparr>) flow s' = d' ctx (e\<lparr>ev_context := Some m\<rparr>) flow s'"
    if "build (clk_received clk) e r = Inr m" and "plan (e\<lparr>ev_context := Some m\<rparr>) r = Inr flow"
    for m flow s'
    using planned_call_is_legit [OF assms(1) that assms(2)] agree by blast
  then show ?thesis
    by (auto simp: run_routed_def s Let_def split: prod.split option.split sum.split)
qed

end

interpretation orch: pipeline route_event plan build_context
  by unfold_locales

subsection \<open>The default wiring\<close>

definition default_wiring :: "'s service \<Rightarrow> bool" where
  "default_wiring svc \<longleftrightarrow> svc_router svc = Some route_event \<and> svc_context svc = Some build_context \<and>
     svc_engine svc = Some plan"

lemma default_wiring_simps [simp]:
  "default_wiring (default_service hs)"
  "default_wiring (svc\<lparr>svc_dispatcher := d\<rparr>) = default_wiring svc"
  "default_wiring (with_controls b svc) = default_wiring svc"
  "default_wiring (with_communications_token t svc) = default_wiring svc"
  "default_wiring (with_source_supervision_token t svc) = default_wiring svc"
  by (simp_all add: default_wiring_def default_service_def new_service_def with_controls_def
      with_communications_token_def with_source_supervision_token_def)

lemma admit_dispatcher [simp]:
  "admit (svc\<lparr>svc_dispatcher := d\<rparr>) clk ctx e = admit svc clk ctx e"
  by (simp add: admit_def cong: prod.case_cong option.case_cong sum.case_cong)

lemma run_routed_dispatcher [simp]:
  "run_routed (svc\<lparr>svc_dispatcher := d\<rparr>) b p d' clk ctx e r s = run_routed svc b p d' clk ctx e r s"
proof -
  have "svc_controlled (svc\<lparr>svc_dispatcher := d\<rparr>) = svc_controlled svc" by simp
  then show ?thesis
    unfolding run_routed_def skipped_def finish_def service_record_run_def by (simp only:)
qed

definition acceptable :: "'s service \<Rightarrow> event \<Rightarrow> bool" where
  "acceptable svc e \<longleftrightarrow>
     trim_space (ev_type e) \<noteq> [] \<and> trim_space (ev_source e) \<noteq> [] \<and> credential_ok svc e"

lemma admit_acceptable:
  "acceptable svc e \<Longrightarrow> admit svc clk ctx e = Inr (admitted_ctx ctx e, admitted_event clk e)"
  by (simp add: admit_iff acceptable_def)

lemma admit_unacceptable: "\<not> acceptable svc e \<Longrightarrow> \<exists>err. admit svc clk ctx e = Inl err"
  using admit_iff [of svc clk ctx e] unfolding acceptable_def
  by (cases "admit svc clk ctx e") auto

definition default_route :: "event \<Rightarrow> route" where
  "default_route e =
     (let r = route_switch e (ev_type e) in
      if gateway_inbound e then r\<lparr>rt_domains := DomainCommunications # rt_domains r\<rparr> else r)"

lemma route_admitted:
  "acceptable svc e \<Longrightarrow> route_event (admitted_event clk e) = Inr (default_route (admitted_event clk e))"
  by (simp add: route_event_def route_rules_def default_route_def Let_def acceptable_def)

lemma process_default:
  assumes "default_wiring svc" and "acceptable svc e" and "svc_dispatcher svc = Some d"
  shows "process_with_result (Some svc) clk ctx e s =
     run_routed svc build_context plan d clk (admitted_ctx ctx e) (admitted_event clk e)
       (default_route (admitted_event clk e)) s"
  using assms by (simp add: process_with_result_def default_wiring_def admit_acceptable route_admitted)

subsection \<open>Recording runs\<close>

lemma runtime_entry_record_run:
  "schedule \<in> set KnownJobs \<Longrightarrow>
   runtime_entry (record_run schedule outcome cause at c) schedule =
     (runtime_entry c schedule)\<lparr>jr_last_at := at, jr_last_outcome := outcome,
        jr_last_error := (case cause of None \<Rightarrow> [] | Some err \<Rightarrow> err_text err)\<rparr>"
  by (auto simp: record_run_def runtime_entry_def update_conv' split: option.split)

lemma known_job_nonempty: "schedule \<in> set KnownJobs \<Longrightarrow> schedule \<noteq> []"
  by (auto simp: KnownJobs_def)

lemma skip_reason_cong:
  "ev_type e' = ev_type e \<Longrightarrow> ev_source e' = ev_source e \<Longrightarrow> schedule_of e' = schedule_of e \<Longrightarrow>
   skip_reason c e' = skip_reason c e"
  by (simp only: skip_reason_def Let_def)

lemma dispatch_steps_keys:
  "dispatch_steps hs ctx e m sts s = (s', Inr m') \<Longrightarrow> dom m' \<subseteq> dom m \<union> range domain_name"
proof (induction sts arbitrary: m s)
  case (Cons st sts)
  from Cons.prems show ?case
    by (auto split: option.splits prod.splits sum.splits if_splits dest!: Cons.IH)
qed simp

lemma not_domain_name: "''skipped'' \<notin> range domain_name" "''reason'' \<notin> range domain_name"
proof -
  have "domain_name d \<noteq> ''skipped''" "domain_name d \<noteq> ''reason''" for d by (cases d; simp)+
  then show "''skipped'' \<notin> range domain_name" "''reason'' \<notin> range domain_name" by fastforce+
qed

lemma dispatch_not_skipped:
  "dispatch d ctx e flow s = (s', Inr m) \<Longrightarrow> m ''skipped'' = None \<and> m ''reason'' = None"
  using not_domain_name
  by (force simp: dispatch_def split: option.splits dest!: dispatch_steps_keys)

subsection \<open>Properties\<close>

text \<open>
  C1.  However an event comes in and whatever the handlers do, the dispatcher is only ever called
  legitimately: the event it sees carries neither credential; if it is one of the operator's, it came
  from the desktop and the context holds the operator's authority; and if the bridge sent it, the first
  step is the authorization.  So two dispatchers that agree on such calls make the same service.
\<close>

theorem only_legitimate_calls:
  assumes "default_wiring svc"
    and "\<And>c ev fl s. legit_call c ev fl \<Longrightarrow> d c ev fl s = d' c ev fl s"
  shows "process_with_result (Some (svc\<lparr>svc_dispatcher := Some d\<rparr>)) clk ctx e s =
         process_with_result (Some (svc\<lparr>svc_dispatcher := Some d'\<rparr>)) clk ctx e s"
proof (cases "acceptable svc e")
  case True
  then have acc: "acceptable (svc\<lparr>svc_dispatcher := x\<rparr>) e" for x
    by (simp add: acceptable_def credential_ok_def)
  have "run_routed svc build_context plan d clk (admitted_ctx ctx e) (admitted_event clk e)
          (default_route (admitted_event clk e)) s =
        run_routed svc build_context plan d' clk (admitted_ctx ctx e) (admitted_event clk e)
          (default_route (admitted_event clk e)) s"
    using True assms(2)
    by (intro orch.run_routed_legit route_admitted clean_admitted) (auto simp: acceptable_def)
  then show ?thesis
    using acc assms(1) by (simp add: process_default)
next
  case False
  then obtain err where "admit svc clk ctx e = Inl err" using admit_unacceptable by blast
  then show ?thesis
    using assms(1) by (simp add: process_with_result_def default_wiring_def)
qed

theorem only_legitimate_calls_witness:
  "\<forall>clk ctx e (s :: controls \<times> nat).
     process_with_result
       (Some ((default_service [])\<lparr>svc_dispatcher := Some (\<lambda>c ev fl s. (s, Inr Map.empty))\<rparr>)) clk ctx e s =
     process_with_result
       (Some ((default_service [])\<lparr>svc_dispatcher := Some (\<lambda>c ev fl s.
          if context_at ev ''communications_token'' = None then (s, Inr Map.empty)
          else (s, Inr [''leak'' \<mapsto> VBool True]))\<rparr>)) clk ctx e s"
  by (intro allI, rule only_legitimate_calls) (auto simp: legit_call_def credential_keys_def)

text \<open>
  C31.  An event without a type or a source, an operator's event that does not carry its credential or
  does not come from the desktop, and a communications event without its credential are rejected with
  an error before anything runs: the controls and everything the handlers share are as they were,
  whatever router, builder, engine, dispatcher and switches the service has.
\<close>

theorem unauthorized_is_rejected:
  assumes "\<not> acceptable svc e"
  shows "\<exists>err. process_with_result (Some svc) clk ctx e s = (s, Inl err)"
  using admit_unacceptable [OF assms, of clk ctx]
  by (auto simp: process_with_result_def split: option.split)

theorem unauthorized_is_rejected_witness:
  "let e = \<lparr>ev_id = ''1'', ev_timestamp = 1, ev_source = ''discord'',
      ev_type = ''knowledge.application.supervision.start'',
      ev_user = \<lparr>eu_id = [], eu_name = []\<rparr>, ev_channel = [], ev_payload = None,
      ev_context = Some [''source_supervision_token'' \<mapsto> VStr (replicate 32 CHR ''k'')]\<rparr>
   in \<forall>clk ctx (s :: controls \<times> nat). \<exists>err. process_with_result
        (Some (with_source_supervision_token (replicate 32 CHR ''k'') (default_service []))) clk ctx e s
        = (s, Inl err)"
proof -
  have t: "trim_space ''knowledge.application.supervision.start'' = ''knowledge.application.supervision.start''"
    and u: "trim_space ''discord'' = ''discord''"
    by code_simp+
  show ?thesis
    unfolding Let_def
    by (intro allI, rule unauthorized_is_rejected)
      (simp add: acceptable_def credential_ok_def t u)
qed

text \<open>What of an event the normalization keeps.\<close>

definition same_message :: "event \<Rightarrow> event \<Rightarrow> bool" where
  "same_message e ev \<longleftrightarrow>
     ev_type ev = trim_space (ev_type e) \<and> ev_source ev = trim_space (ev_source e) \<and>
     ev_user ev = trim_user (ev_user e) \<and> ev_channel ev = trim_space (ev_channel e) \<and>
     map_of_nil (ev_payload ev) = map_of_nil (ev_payload e)"

text \<open>
  The operator's switches as they stand in the controls: a service or interface is off when its entry says so, and with the
  content plugins the facades \<open>book\<close> and \<open>meme\<close> also when Feeds is.
\<close>

definition stands_off :: "controls \<Rightarrow> string \<Rightarrow> bool" where
  "stands_off c n \<longleftrightarrow> services c n = Some True \<or> (content_plugins c \<and> n \<in> {''book'', ''meme''} \<and> services c ''feeds'' = Some True)"

definition operator_stops :: "controls \<Rightarrow> event \<Rightarrow> bool" where
  "operator_stops c e \<longleftrightarrow>
     (interface_for_source (trim_space (ev_source e)) \<noteq> [] \<and> stands_off c (interface_for_source (trim_space (ev_source e))))
     \<or> (service_for_event (trim_space (ev_type e)) \<noteq> [] \<and> stands_off c (service_for_event (trim_space (ev_type e)))
        \<and> trim_space (ev_type e) \<notin> {''knowledge.application.supervision.status'', ''knowledge.application.supervision.control''})
     \<or> (schedule_of e \<noteq> [] \<and> (stands_off c ''scheduler'' \<or> pj_enabled (job_at c (schedule_of e)) = Some False))"

text \<open>
  C34.  What the operator switched off does not run: an event whose interface, service, scheduler or job is off by
  the entries of the operator's switches (with the content plugins Feeds switches its two facades too; the status and
  control of a supervision are not stopped by the switch of their service) is answered without calling the dispatcher, as a
  normal result that says it was skipped and why; the handlers' state and the switches stay as they are; the answer is silent exactly
  when the interface itself is off; and if the event was a known job's, the job shows it was skipped.
\<close>

theorem switched_off_does_nothing:
  assumes "default_wiring svc" and "acceptable svc e" and "svc_dispatcher svc \<noteq> None"
    and "svc_controlled svc"
    and off: "operator_stops c e"
  shows "\<exists>c' pr reason silent. process_with_result (Some svc) clk ctx e (c, w) = ((c', w), Inr pr) \<and>
           services c' = services c \<and> jobs c' = jobs c \<and>
           out_result pr = [''skipped'' \<mapsto> VBool True, ''reason'' \<mapsto> VStr reason, ''silent'' \<mapsto> VBool silent] \<and>
           reason \<noteq> [] \<and>
           silent = (interface_for_source (trim_space (ev_source e)) \<noteq> [] \<and>
              stands_off c (interface_for_source (trim_space (ev_source e)))) \<and>
           (schedule_of e \<in> set KnownJobs \<longrightarrow>
              jr_last_outcome (runtime_entry c' (schedule_of e)) = ''skipped'')"
proof -
  obtain d where d: "svc_dispatcher svc = Some d" using assms(3) by blast
  have sch: "schedule_of (admitted_event clk e) = schedule_of e"
    by (simp add: schedule_of_def credential_keys_def)
  have enabled: "service_enabled c n \<longleftrightarrow> \<not> stands_off c n" for n
    by (auto simp: service_enabled_def stands_off_def)
  have job: "job_enabled c n \<longleftrightarrow> pj_enabled (job_at c n) \<noteq> Some False" for n
    by (cases "pj_enabled (job_at c n)") (auto simp: job_enabled_def)
  have "skip_reason c (admitted_event clk e) \<noteq> None"
    using off unfolding operator_stops_def skip_reason_def Let_def admitted_event_simps sch enabled job by simp blast
  then obtain reason silent where stop: "skip_reason c (admitted_event clk e) = Some (reason, silent)" by auto
  have "\<exists>c' pr. process_with_result (Some svc) clk ctx e (c, w) = ((c', w), Inr pr) \<and>
           services c' = services c \<and> jobs c' = jobs c \<and>
           out_result pr = [''skipped'' \<mapsto> VBool True, ''reason'' \<mapsto> VStr reason, ''silent'' \<mapsto> VBool silent] \<and>
           (schedule_of e \<in> set KnownJobs \<longrightarrow> jr_last_outcome (runtime_entry c' (schedule_of e)) = ''skipped'')"
    using assms(4) sch stop
    by (simp add: process_default [OF assms(1,2) d] run_routed_def skipped_def frame_simps runtime_entry_record_run)
  moreover have "reason \<noteq> [] \<and> silent =
      (interface_for_source (trim_space (ev_source e)) \<noteq> [] \<and> stands_off c (interface_for_source (trim_space (ev_source e))))"
    using stop unfolding skip_reason_def Let_def admitted_event_simps sch enabled job by (simp split: if_split_asm) auto
  ultimately show ?thesis by blast
qed

theorem switched_off_does_nothing_witness:
  "\<exists>c' pr. process_with_result
      (Some (with_controls True (default_service [Some (DomainMeme, (\<lambda>_ _ _ (c, n). ((c, n + 1), Inr [])))])))
      \<lparr>clk_fresh = ''i'', clk_arrival = 1, clk_received = [], clk_finished = 2\<rparr>
      \<lparr>ctx_principal = None\<rparr>
      \<lparr>ev_id = ''1'', ev_timestamp = 1, ev_source = ''orchestrator'', ev_type = ''meme.fetch'',
       ev_user = \<lparr>eu_id = [], eu_name = []\<rparr>, ev_channel = [], ev_payload = None,
       ev_context = Some [''schedule'' \<mapsto> VStr ''meme.refresh'']\<rparr>
      ((fresh_controls [])\<lparr>services := [''meme'' \<mapsto> True]\<rparr>, 0 :: nat) = ((c', 0), Inr pr) \<and>
      out_result pr ''silent'' = Some (VBool False) \<and>
      jr_last_outcome (runtime_entry c' ''meme.refresh'') = ''skipped''"
proof -
  let ?c = "(fresh_controls [])\<lparr>services := [''meme'' \<mapsto> True]\<rparr>"
  let ?clk = "\<lparr>clk_fresh = ''i'', clk_arrival = 1, clk_received = [], clk_finished = 2\<rparr> :: clock"
  let ?e = "\<lparr>ev_id = ''1'', ev_timestamp = 1, ev_source = ''orchestrator'', ev_type = ''meme.fetch'',
       ev_user = \<lparr>eu_id = [], eu_name = []\<rparr>, ev_channel = [], ev_payload = None,
       ev_context = Some [''schedule'' \<mapsto> VStr ''meme.refresh'']\<rparr> :: event"
  let ?h = "\<lambda>_ _ _ (c, n). ((c, n + 1), Inr []) :: (controls \<times> nat) \<times> handler_result res"
  let ?svc = "with_controls True (default_service [Some (DomainMeme, ?h)])"
  have t: "trim_space ''meme.fetch'' = ''meme.fetch''" and u: "trim_space ''orchestrator'' = ''orchestrator''"
    by code_simp+
  have acc: "acceptable ?svc ?e"
    by (simp add: acceptable_def credential_ok_def t u)
  have off: "operator_stops ?c ?e"
    by (simp add: operator_stops_def stands_off_def t u interface_for_source_def service_for_event_def)
  have sch: "schedule_of ?e = ''meme.refresh''" by (simp add: schedule_of_def)
  have "svc_dispatcher ?svc \<noteq> None" and "svc_controlled ?svc" and "default_wiring ?svc"
    by (simp_all add: with_controls_def default_service_def new_service_def default_wiring_def)
  then show ?thesis
    using switched_off_does_nothing [OF _ acc _ _ off, of ?clk "\<lparr>ctx_principal = None\<rparr>" "0 :: nat"]
    by (auto simp: sch KnownJobs_def t u interface_for_source_def)
qed

text \<open>
  C9.  A denied inbound message leaves no trace: when the Communications handler refuses the event the
  bridge sent, the answer is a silent skip, and neither another handler nor the record of the job has
  touched the state, whatever other handlers are registered.
\<close>

theorem denied_inbound_is_inert:
  assumes h: "new_dispatcher hs DomainCommunications = Some h"
    and deny: "\<And>ctx ev. same_message e ev \<Longrightarrow>
        \<exists>err. h ctx ev authorize_step s = (s, Inl err) \<and> errors_is err ErrInboundDenied"
    and "default_wiring svc" and "acceptable svc e" and "gateway_inbound e"
    and d: "svc_dispatcher svc = Some (dispatch (Some (new_dispatcher hs)))"
    and on: "\<not> svc_controlled svc \<or> skip_reason (fst s) (admitted_event clk e) = None"
  shows "\<exists>pr. process_with_result (Some svc) clk ctx e s = (s, Inr pr) \<and>
           out_result pr = [''skipped'' \<mapsto> VBool True, ''silent'' \<mapsto> VBool True]"
proof -
  obtain c w where s: "s = (c, w)" by fastforce
  let ?e = "admitted_event clk e" and ?ctx = "admitted_ctx ctx e"
  let ?r = "default_route ?e"
  obtain m where m: "build_context (clk_received clk) ?e ?r = Inr m" by (simp add: build_context_def)
  let ?e' = "?e\<lparr>ev_context := Some m\<rparr>"
  obtain flow where p: "plan ?e' ?r = Inr flow" by (simp add: plan_def)
  have r: "route_event ?e = Inr ?r" using assms(4) by (rule route_admitted)
  have g: "gateway_inbound ?e" using assms(5) by (simp add: gateway_inbound_def credential_keys_def)
  have g': "gateway_inbound ?e'" using g by (simp add: ctxb.build_inbound [OF m])
  obtain steps where steps: "wf_steps flow = authorize_step # steps"
    using orch.authorized_first [OF r g p g'] by blast
  have "same_message e ?e'"
    by (simp add: same_message_def admitted_event_def without_key_def normalized_def)
  then obtain err where err: "h ?ctx ?e' authorize_step s = (s, Inl err)" "errors_is err ErrInboundDenied"
    using deny by blast
  have "dispatch (Some (new_dispatcher hs)) ?ctx ?e' flow s =
      (s, Inl (Wrapf (''dispatch '' @ domain_name DomainCommunications @ '': '') err))"
    using h err(1) by (simp add: dispatch_def steps)
  moreover have "skipped svc (clk_finished clk) ?e ?r c = (c, None)"
    using on by (auto simp: skipped_def s)
  ultimately show ?thesis
    using err(2) m p
    by (simp add: process_default [OF assms(3,4) d] run_routed_def s finish_def processed_def)
qed

theorem denied_inbound_is_inert_witness:
  "\<exists>pr. process_with_result
      (Some (default_service
         [Some (DomainCommunications, (\<lambda>_ _ _ s. (s, Inl ErrInboundDenied))),
          Some (DomainChat, (\<lambda>_ _ _ (c, n). ((c, n + 1), Inr [])))]))
      \<lparr>clk_fresh = ''i'', clk_arrival = 1, clk_received = [], clk_finished = 2\<rparr>
      \<lparr>ctx_principal = None\<rparr>
      \<lparr>ev_id = ''1'', ev_timestamp = 1, ev_source = ''whatsapp'', ev_type = ''message.created'',
       ev_user = \<lparr>eu_id = [], eu_name = []\<rparr>, ev_channel = [], ev_payload = None,
       ev_context = Some [''gateway_inbound'' \<mapsto> VBool True]\<rparr>
      (fresh_controls [], 0 :: nat) = ((fresh_controls [], 0), Inr pr) \<and>
      out_result pr ''silent'' = Some (VBool True)"
proof -
  let ?e = "\<lparr>ev_id = ''1'', ev_timestamp = 1, ev_source = ''whatsapp'', ev_type = ''message.created'',
       ev_user = \<lparr>eu_id = [], eu_name = []\<rparr>, ev_channel = [], ev_payload = None,
       ev_context = Some [''gateway_inbound'' \<mapsto> VBool True]\<rparr> :: event"
  let ?deny = "\<lambda>_ _ _ s. (s, Inl ErrInboundDenied) :: (controls \<times> nat) \<times> handler_result res"
  let ?chat = "\<lambda>_ _ _ (c, n). ((c, n + 1), Inr []) :: (controls \<times> nat) \<times> handler_result res"
  let ?hs = "[Some (DomainCommunications, ?deny), Some (DomainChat, ?chat)]"
  have t: "trim_space ''message.created'' = ''message.created''" and u: "trim_space ''whatsapp'' = ''whatsapp''"
    by code_simp+
  have acc: "acceptable (default_service ?hs) ?e"
    by (simp add: acceptable_def credential_ok_def t u)
  have h: "new_dispatcher ?hs DomainCommunications = Some ?deny" by (simp add: new_dispatcher_def)
  have g: "gateway_inbound ?e" by (simp add: gateway_inbound_def)
  have d: "svc_dispatcher (default_service ?hs) = Some (dispatch (Some (new_dispatcher ?hs)))"
    and off: "\<not> svc_controlled (default_service ?hs)"
    by (simp_all add: default_service_def new_service_def)
  have deny: "\<exists>err. ?deny ctx ev authorize_step s = (s, Inl err) \<and> errors_is err ErrInboundDenied"
    for ctx :: go_ctx and ev :: event and s
    by (simp add: ErrInboundDenied_def)
  show ?thesis
    using denied_inbound_is_inert [OF h deny _ acc g d, of "(fresh_controls [], 0)"
        "\<lparr>clk_fresh = ''i'', clk_arrival = 1, clk_received = [], clk_finished = 2\<rparr>" "\<lparr>ctx_principal = None\<rparr>"]
      off by auto
qed

lemma run_routed_unhandled:
  assumes "skip_reason c e = None" and "rt_domains r = d # ds"
  shows "\<exists>c' err. run_routed svc build_context plan (dispatch (Some Map.empty)) clk ctx e r (c, w)
           = ((c', w), Inl err)"
  using assms
  by (simp add: run_routed_def skipped_def build_context_def plan_def dispatch_def finish_def
      ErrInboundDenied_def)

text \<open>
  Every run of a known job is on the record: after a scheduled event was processed, the job shows
  the time and whether it ran, failed (with the text of the failure) or was skipped, in agreement with
  the answer.  Only a denied inbound event is answered without a record.
\<close>

theorem scheduled_run_is_recorded:
  assumes "default_wiring svc" and "acceptable svc e" and "svc_controlled svc"
    and d: "svc_dispatcher svc = Some (dispatch (Some hs))"
    and job: "schedule_of e \<in> set KnownJobs"
  shows "case process_with_result (Some svc) clk ctx e s of
      ((c, w), out) \<Rightarrow>
        (let job = runtime_entry c (schedule_of e) in
         case out of
           Inl err \<Rightarrow> jr_last_at job = clk_finished clk \<and> jr_last_outcome job = ''error'' \<and>
                       (\<exists>cause. err = Wrapf ''dispatch workflow: '' cause \<and> jr_last_error job = err_text cause)
         | Inr pr \<Rightarrow>
             (if out_result pr ''skipped'' = None
              then jr_last_at job = clk_finished clk \<and> jr_last_outcome job = ''ran'' \<and> jr_last_error job = []
              else case out_result pr ''reason'' of
                     None \<Rightarrow> out_result pr ''silent'' = Some (VBool True)
                   | Some reason \<Rightarrow> jr_last_at job = clk_finished clk \<and> jr_last_outcome job = ''skipped'' \<and>
                                    reason = VStr (jr_last_error job)))"
proof -
  let ?e = "admitted_event clk e" and ?ctx = "admitted_ctx ctx e"
  let ?r = "default_route ?e"
  obtain c0 w0 where s: "s = (c0, w0)" by fastforce
  have sch: "schedule_of ?e = schedule_of e"
    by (simp add: schedule_of_def credential_keys_def)
  have ne: "schedule_of e \<noteq> []" using job by (rule known_job_nonempty)
  note run = process_default [OF assms(1,2) d, of clk ctx s]
  show ?thesis
  proof (cases "skip_reason c0 ?e")
    case (Some rs)
    obtain reason silent where "rs = (reason, silent)" by fastforce
    then show ?thesis
      using Some assms(3) job unfolding run
      by (simp add: run_routed_def s skipped_def sch Let_def runtime_entry_record_run)
  next
    case None
    obtain m where m: "build_context (clk_received clk) ?e ?r = Inr m" by (simp add: build_context_def)
    let ?e' = "?e\<lparr>ev_context := Some m\<rparr>"
    have sch': "schedule_of ?e' = schedule_of e"
      using ctxb.build_keeps [OF m, of "''schedule''"] sch by (simp add: schedule_of_def)
    obtain flow where p: "plan ?e' ?r = Inr flow" by (simp add: plan_def)
    obtain c1 w1 res where res: "dispatch (Some hs) ?ctx ?e' flow (c0, w0) = ((c1, w1), res)"
      by (metis surj_pair)
    have "process_with_result (Some svc) clk ctx e s
        = finish svc (clk_finished clk) ?e' ?r ((c1, w1), res)"
      using None m p res unfolding run by (simp add: run_routed_def s skipped_def)
    then show ?thesis
      using assms(3) job ne sch' res
      by (cases res) (auto simp: finish_def processed_def service_record_run_def runtime_entry_record_run Let_def
          dest: dispatch_not_skipped)
  qed
qed

theorem scheduled_run_is_recorded_witness:
  "\<exists>c err. process_with_result
      (Some (with_controls True (default_service [])))
      \<lparr>clk_fresh = ''i'', clk_arrival = 1, clk_received = [], clk_finished = 2\<rparr>
      \<lparr>ctx_principal = None\<rparr>
      \<lparr>ev_id = ''1'', ev_timestamp = 1, ev_source = ''orchestrator'', ev_type = ''meme.fetch'',
       ev_user = \<lparr>eu_id = [], eu_name = []\<rparr>, ev_channel = [], ev_payload = None,
       ev_context = Some [''schedule'' \<mapsto> VStr ''meme.refresh'']\<rparr>
      (fresh_controls [], 0 :: nat) = ((c, 0), Inl err) \<and>
      jr_last_outcome (runtime_entry c ''meme.refresh'') = ''error''"
proof -
  let ?clk = "\<lparr>clk_fresh = ''i'', clk_arrival = 1, clk_received = [], clk_finished = 2\<rparr> :: clock"
  let ?ctx = "\<lparr>ctx_principal = None\<rparr> :: go_ctx"
  let ?e = "\<lparr>ev_id = ''1'', ev_timestamp = 1, ev_source = ''orchestrator'', ev_type = ''meme.fetch'',
       ev_user = \<lparr>eu_id = [], eu_name = []\<rparr>, ev_channel = [], ev_payload = None,
       ev_context = Some [''schedule'' \<mapsto> VStr ''meme.refresh'']\<rparr> :: event"
  let ?svc = "with_controls True (default_service []) :: (controls \<times> nat) service"
  have t: "trim_space ''meme.fetch'' = ''meme.fetch''" and u: "trim_space ''orchestrator'' = ''orchestrator''"
    by code_simp+
  have acc: "acceptable ?svc ?e"
    by (simp add: acceptable_def credential_ok_def t u)
  have w: "default_wiring ?svc" and c: "svc_controlled ?svc"
    and d: "svc_dispatcher ?svc = Some (dispatch (Some Map.empty))"
    by (simp_all add: with_controls_def default_service_def new_service_def default_wiring_def
        new_dispatcher_def)
  have sch: "schedule_of ?e = ''meme.refresh''" by (simp add: schedule_of_def)
  then have job: "schedule_of ?e \<in> set KnownJobs" by (simp add: KnownJobs_def)
  have on: "skip_reason (fresh_controls []) (admitted_event ?clk ?e) = None"
    by (simp add: skip_reason_def t u interface_for_source_def service_for_event_def service_enabled_def
        fresh_controls_def schedule_of_def credential_keys_def job_enabled_def no_job_def)
  have ng: "\<not> gateway_inbound (admitted_event ?clk ?e)"
    by (simp add: gateway_inbound_def credential_keys_def)
  have "rt_domains (default_route (admitted_event ?clk ?e)) = [DomainMeme]"
    using ng by (simp add: default_route_def t route_switch_def)
  then obtain cc err where "process_with_result (Some ?svc) ?clk ?ctx ?e (fresh_controls [], 0 :: nat)
      = ((cc, 0), Inl err)"
    using run_routed_unhandled [OF on] unfolding process_default [OF w acc d] by metis
  then show ?thesis
    using scheduled_run_is_recorded [OF w acc c d job, of ?clk ?ctx "(fresh_controls [], 0)"] sch
    by (auto simp: Let_def)
qed

end
