(* ===== verification/Ordered_Queue.thy ===== *)
theory Ordered_Queue
  imports Prelude
begin

section \<open>The ordered queue\<close>

text \<open>
  \<open>dokja_orch/internal/core/ordered_queue.go\<close>: lanes of admitted entries that run in the order of
  their positions.  Goroutines interleave, so the methods are split at their critical sections: each
  operation below is what one of them does while it holds the queue's mutex, and \<open>qstep\<close> says in
  which order a goroutine performs them.  Lanes and tickets are objects with an address: that every
  user of a key shares one lane object is something to prove.
\<close>

subsection \<open>State\<close>

record queue_lane =
  admit_held :: "nat option"
  entries :: "nat list"
  users :: int

record queue_ticket =
  tk_key :: string
  tk_position :: int
  tk_done :: bool
  tk_once :: bool

record ordered_queue =
  lanes :: "string \<rightharpoonup> nat"
  lane_at :: "nat \<Rightarrow> queue_lane"
  ticket_at :: "nat \<Rightarrow> queue_ticket"
  max_entries :: int
  next_lane :: nat
  next_ticket :: nat

definition ErrQueueFull :: gerror where
  "ErrQueueFull = Sentinel ''too many entries are waiting in this lane''"

definition free_lane :: queue_lane where
  "free_lane = \<lparr>admit_held = None, entries = [], users = 0\<rparr>"

definition free_ticket :: queue_ticket where
  "free_ticket = \<lparr>tk_key = [], tk_position = 0, tk_done = False, tk_once = False\<rparr>"

text \<open>\<open>NewOrderedQueue\<close>; \<open>None\<close> is the panic on a bound that is not positive.\<close>

definition new_ordered_queue :: "int \<Rightarrow> ordered_queue option" where
  "new_ordered_queue bound =
     (if bound \<le> 0 then None
      else Some \<lparr>lanes = Map.empty, lane_at = (\<lambda>_. free_lane), ticket_at = (\<lambda>_. free_ticket),
                 max_entries = bound, next_lane = 0, next_ticket = 0\<rparr>)"

subsection \<open>Critical sections\<close>

definition set_lane :: "nat \<Rightarrow> queue_lane \<Rightarrow> ordered_queue \<Rightarrow> ordered_queue" where
  "set_lane a l q = q\<lparr>lane_at := (lane_at q)(a := l)\<rparr>"

definition set_ticket :: "nat \<Rightarrow> queue_ticket \<Rightarrow> ordered_queue \<Rightarrow> ordered_queue" where
  "set_ticket t tk q = q\<lparr>ticket_at := (ticket_at q)(t := tk)\<rparr>"

definition join_lane :: "string \<Rightarrow> ordered_queue \<Rightarrow> nat \<times> ordered_queue" where
  "join_lane key q =
     (let (a, q1) = (case lanes q key of
           Some a \<Rightarrow> (a, q)
         | None \<Rightarrow> (next_lane q, set_lane (next_lane q) free_lane
                      (q\<lparr>lanes := (lanes q)(key \<mapsto> next_lane q), next_lane := Suc (next_lane q)\<rparr>)))
      in (a, set_lane a ((lane_at q1 a)\<lparr>users := users (lane_at q1 a) + 1\<rparr>) q1))"

definition leave_lane :: "string \<Rightarrow> nat \<Rightarrow> ordered_queue \<Rightarrow> ordered_queue" where
  "leave_lane key a q =
     (let q1 = set_lane a ((lane_at q a)\<lparr>users := users (lane_at q a) - 1\<rparr>) q
      in if users (lane_at q1 a) = 0 then q1\<lparr>lanes := (lanes q1)(key := None)\<rparr> else q1)"

definition lane_full :: "nat \<Rightarrow> ordered_queue \<Rightarrow> bool" where
  "lane_full a q \<longleftrightarrow> int (length (entries (lane_at q a))) \<ge> max_entries q"

definition enroll_ticket :: "string \<Rightarrow> nat \<Rightarrow> int \<Rightarrow> ordered_queue \<Rightarrow> nat \<times> ordered_queue" where
  "enroll_ticket key a pos q =
     (let t = next_ticket q;
          l = lane_at q a
      in (t, set_lane a (l\<lparr>entries := entries l @ [t]\<rparr>)
               (set_ticket t \<lparr>tk_key = key, tk_position = pos, tk_done = False, tk_once = False\<rparr>
                  (q\<lparr>next_ticket := Suc t\<rparr>))))"

text \<open>
  The entries before a ticket.  A ticket whose lane is gone has been released; reading the lane is
  then a nil dereference, which is \<open>None\<close>.
\<close>

definition entries_ahead :: "nat \<Rightarrow> ordered_queue \<Rightarrow> nat list option" where
  "entries_ahead t q =
     (case lanes q (tk_key (ticket_at q t)) of
        None \<Rightarrow> None
      | Some a \<Rightarrow> Some (filter (\<lambda>u. tk_position (ticket_at q u) < tk_position (ticket_at q t))
                             (entries (lane_at q a))))"

definition blocked :: "nat \<Rightarrow> ordered_queue \<Rightarrow> bool option" where
  "blocked t q = map_option (\<lambda>ahead. ahead \<noteq> []) (entries_ahead t q)"

text \<open>
  The first part of \<open>Release\<close>, inside \<open>once.Do\<close>: take the ticket out of its lane and close its
  channel.
\<close>

definition remove_entry :: "nat \<Rightarrow> ordered_queue \<Rightarrow> (nat \<times> ordered_queue) option" where
  "remove_entry t q =
     (case lanes q (tk_key (ticket_at q t)) of
        None \<Rightarrow> None
      | Some a \<Rightarrow>
          (let l = lane_at q a in
           Some (a, set_lane a (l\<lparr>entries := filter (\<lambda>u. u \<noteq> t) (entries l)\<rparr>)
                      (set_ticket t ((ticket_at q t)\<lparr>tk_done := True, tk_once := True\<rparr>) q))))"

subsection \<open>Goroutines\<close>

text \<open>
  Where a goroutine stands: in \<open>Admit\<close> it has joined the lane, holds the lane's admission lock, knows
  whether the lane is full, has the answer of \<open>record\<close>, or has only to unlock and return; in \<open>Wait\<close> it
  has yet to see the channels of some tickets closed, or has returned without an error; in \<open>Release\<close> it
  has yet to leave the lane.
\<close>

datatype phase =
    Idle
  | Joined string nat
  | Locked string nat
  | Checked string nat bool
  | Decided string nat int bool "gerror option"
  | Unlocking nat "nat option" "gerror option"
  | Waiting nat "nat list"
  | Waited nat
  | Leaving string nat

type_synonym qstate = "ordered_queue \<times> (nat \<Rightarrow> phase)"

text \<open>
  What \<open>record\<close> may answer: with \<open>honest\<close>, it keeps the documented rule that positions do not
  decrease as entries join a lane.
\<close>

definition record_allowed :: "bool \<Rightarrow> nat \<Rightarrow> int \<Rightarrow> bool \<Rightarrow> gerror option \<Rightarrow> ordered_queue \<Rightarrow> bool" where
  "record_allowed honest a pos enroll err q \<longleftrightarrow>
     (honest \<and> enroll \<and> err = None \<longrightarrow>
        (\<forall>u \<in> set (entries (lane_at q a)). tk_position (ticket_at q u) \<le> pos))"

definition admit_error :: "bool \<Rightarrow> bool \<Rightarrow> gerror option \<Rightarrow> gerror option" where
  "admit_error full enroll err = (if err = None \<and> enroll \<and> full then Some ErrQueueFull else err)"

inductive qstep :: "bool \<Rightarrow> qstate \<Rightarrow> qstate \<Rightarrow> bool" for honest :: bool where
  st_join: "ph p = Idle \<Longrightarrow> join_lane key q = (a, q') \<Longrightarrow>
     qstep honest (q, ph) (q', ph(p := Joined key a))"
| st_lock: "ph p = Joined key a \<Longrightarrow> admit_held (lane_at q a) = None \<Longrightarrow>
     qstep honest (q, ph)
       (set_lane a ((lane_at q a)\<lparr>admit_held := Some p\<rparr>) q, ph(p := Locked key a))"
| st_check: "ph p = Locked key a \<Longrightarrow>
     qstep honest (q, ph) (q, ph(p := Checked key a (lane_full a q)))"
| st_record: "ph p = Checked key a full \<Longrightarrow> record_allowed honest a pos enroll err q \<Longrightarrow>
     qstep honest (q, ph) (q, ph(p := Decided key a pos enroll (admit_error full enroll err)))"
| st_refuse: "ph p = Decided key a pos enroll err \<Longrightarrow> err \<noteq> None \<or> \<not> enroll \<Longrightarrow>
     qstep honest (q, ph) (leave_lane key a q, ph(p := Unlocking a None err))"
| st_enroll: "ph p = Decided key a pos True None \<Longrightarrow> enroll_ticket key a pos q = (t, q') \<Longrightarrow>
     qstep honest (q, ph) (q', ph(p := Unlocking a (Some t) None))"
| st_unlock: "ph p = Unlocking a t err \<Longrightarrow>
     qstep honest (q, ph) (set_lane a ((lane_at q a)\<lparr>admit_held := None\<rparr>) q, ph(p := Idle))"
| st_wait: "ph p = Idle \<Longrightarrow> t < next_ticket q \<Longrightarrow> entries_ahead t q = Some ahead \<Longrightarrow>
     qstep honest (q, ph) (q, ph(p := Waiting t ahead))"
| st_closed: "ph p = Waiting t (u # us) \<Longrightarrow> tk_done (ticket_at q u) \<Longrightarrow>
     qstep honest (q, ph) (q, ph(p := Waiting t us))"
| st_cancelled: "ph p = Waiting t (u # us) \<Longrightarrow> qstep honest (q, ph) (q, ph(p := Idle))"
| st_waited: "ph p = Waiting t [] \<Longrightarrow> qstep honest (q, ph) (q, ph(p := Waited t))"
| st_ended: "ph p = Waited t \<Longrightarrow> qstep honest (q, ph) (q, ph(p := Idle))"
| st_release: "ph p = Idle \<or> ph p = Waited t \<Longrightarrow> t < next_ticket q \<Longrightarrow> \<not> tk_once (ticket_at q t) \<Longrightarrow>
     remove_entry t q = Some (a, q') \<Longrightarrow>
     qstep honest (q, ph) (q', ph(p := Leaving (tk_key (ticket_at q t)) a))"
| st_leave: "ph p = Leaving key a \<Longrightarrow>
     qstep honest (q, ph) (leave_lane key a q, ph(p := Idle))"

text \<open>A second call of \<open>Release\<close> finds \<open>once\<close> taken and does nothing, so it is no step.\<close>

definition reachable :: "bool \<Rightarrow> int \<Rightarrow> qstate \<Rightarrow> bool" where
  "reachable honest bound s \<longleftrightarrow>
     (\<exists>q. new_ordered_queue bound = Some q \<and> (qstep honest)\<^sup>*\<^sup>* (q, \<lambda>_. Idle) s)"

subsection \<open>The invariant\<close>

text \<open>Which lane a goroutine counts as a user of, and which admission lock it holds.\<close>

fun uses_lane :: "phase \<Rightarrow> (string \<times> nat) option" where
  "uses_lane (Joined key a) = Some (key, a)"
| "uses_lane (Locked key a) = Some (key, a)"
| "uses_lane (Checked key a full) = Some (key, a)"
| "uses_lane (Decided key a pos enroll err) = Some (key, a)"
| "uses_lane (Leaving key a) = Some (key, a)"
| "uses_lane _ = None"

fun holds_admit :: "phase \<Rightarrow> nat option" where
  "holds_admit (Locked key a) = Some a"
| "holds_admit (Checked key a full) = Some a"
| "holds_admit (Decided key a pos enroll err) = Some a"
| "holds_admit (Unlocking a t err) = Some a"
| "holds_admit _ = None"

subsubsection \<open>Lanes and their users\<close>

text \<open>
  \<open>lanes_ok q U\<close>, with \<open>U\<close> the use each goroutine has of a lane: a lane in the map counts its users
  and entries exactly and has some; a user's lane, and an unreleased ticket's, is the one in the map.
\<close>

definition lane_uses :: "(nat \<rightharpoonup> string \<times> nat) \<Rightarrow> string \<times> nat \<Rightarrow> nat" where
  "lane_uses U x = card {p. U p = Some x}"

definition lanes_ok :: "ordered_queue \<Rightarrow> (nat \<rightharpoonup> string \<times> nat) \<Rightarrow> bool" where
  "lanes_ok q U \<longleftrightarrow>
     finite (dom U) \<and>
     (\<forall>key a. lanes q key = Some a \<longrightarrow> a < next_lane q \<and> users (lane_at q a) > 0 \<and>
        users (lane_at q a) = int (lane_uses U (key, a)) + int (length (entries (lane_at q a)))) \<and>
     (\<forall>key key' a. lanes q key = Some a \<longrightarrow> lanes q key' = Some a \<longrightarrow> key = key') \<and>
     (\<forall>p key a. U p = Some (key, a) \<longrightarrow> lanes q key = Some a)"

definition tickets_ok :: "ordered_queue \<Rightarrow> bool" where
  "tickets_ok q \<longleftrightarrow>
     (\<forall>a. distinct (entries (lane_at q a))) \<and>
     (\<forall>a t. t \<in> set (entries (lane_at q a)) \<longleftrightarrow>
        t < next_ticket q \<and> \<not> tk_once (ticket_at q t) \<and> lanes q (tk_key (ticket_at q t)) = Some a) \<and>
     (\<forall>t < next_ticket q. \<not> tk_once (ticket_at q t) \<longrightarrow> lanes q (tk_key (ticket_at q t)) \<noteq> None) \<and>
     (\<forall>t. tk_once (ticket_at q t) = tk_done (ticket_at q t))"

lemma lane_uses_add:
  assumes "finite (dom U)" and "U p = None"
  shows "lane_uses (U(p \<mapsto> x)) y = lane_uses U y + (if x = y then 1 else 0)"
proof -
  have fin: "finite {r. U r = Some y}"
    by (rule finite_subset [OF _ assms(1)]) auto
  have "{r. (U(p \<mapsto> x)) r = Some y} = (if x = y then insert p {r. U r = Some y} else {r. U r = Some y})"
    using assms(2) by auto
  then show ?thesis using fin assms(2) by (simp add: lane_uses_def)
qed

lemma lane_uses_del:
  assumes "finite (dom U)" and "U p = Some x"
  shows "lane_uses U y = lane_uses (U(p := None)) y + (if x = y then 1 else 0)"
proof -
  have "U = (U(p := None))(p \<mapsto> x)" using assms(2) by auto
  then show ?thesis using lane_uses_add [of "U(p := None)" p x y] assms(1) by simp
qed

lemma lane_uses_self: "finite (dom U) \<Longrightarrow> U p = Some x \<Longrightarrow> 0 < lane_uses U x"
  using lane_uses_del [of U p x x] by simp

lemmas section_defs = join_lane_def leave_lane_def enroll_ticket_def remove_entry_def
  set_lane_def set_ticket_def Let_def

lemma lanes_okI:
  assumes "finite (dom U)"
    and "\<And>key a. lanes q key = Some a \<Longrightarrow> a < next_lane q \<and> users (lane_at q a) > 0 \<and>
        users (lane_at q a) = int (lane_uses U (key, a)) + int (length (entries (lane_at q a)))"
    and "\<And>key key' a. lanes q key = Some a \<Longrightarrow> lanes q key' = Some a \<Longrightarrow> key = key'"
    and "\<And>p key a. U p = Some (key, a) \<Longrightarrow> lanes q key = Some a"
  shows "lanes_ok q U"
  using assms unfolding lanes_ok_def by blast

lemma lanes_okD:
  assumes "lanes_ok q U"
  shows "finite (dom U)"
    and "lanes q key = Some a \<Longrightarrow> a < next_lane q"
    and "lanes q key = Some a \<Longrightarrow> users (lane_at q a) > 0"
    and "lanes q key = Some a \<Longrightarrow>
        users (lane_at q a) = int (lane_uses U (key, a)) + int (length (entries (lane_at q a)))"
    and "lanes q key = Some a \<Longrightarrow> lanes q key' = Some a \<Longrightarrow> key = key'"
    and "U p = Some (key, a) \<Longrightarrow> lanes q key = Some a"
  using assms unfolding lanes_ok_def by blast+

lemma join_lane_ok:
  assumes ok: "lanes_ok q U" and j: "join_lane key q = (a, q')" and p: "U p = None"
  shows "lanes_ok q' (U(p \<mapsto> (key, a)))"
proof (cases "lanes q key")
  case None
  note D = lanes_okD [OF ok]
  have a: "a = next_lane q" using j None by (simp add: section_defs)
  have q': "lanes q' = (lanes q)(key \<mapsto> a)" "next_lane q' = Suc a"
    "lane_at q' = (lane_at q)(a := \<lparr>admit_held = None, entries = [], users = 1\<rparr>)"
    using j None by (auto simp: section_defs free_lane_def)
  have unused: "lane_uses U (key, b) = 0" for b
    using D(6) None by (fastforce simp: lane_uses_def card_eq_0_iff)
  have fresh: "lanes q k \<noteq> Some a" for k using D(2) a by blast
  show ?thesis
  proof (rule lanes_okI)
    show "finite (dom (U(p \<mapsto> (key, a))))" using D(1) by simp
    show "b < next_lane q' \<and> users (lane_at q' b) > 0 \<and>
        users (lane_at q' b) = int (lane_uses (U(p \<mapsto> (key, a))) (k, b)) + int (length (entries (lane_at q' b)))"
      if l: "lanes q' k = Some b" for k b
    proof (cases "k = key")
      case True
      then show ?thesis using l q' unused lane_uses_add [OF D(1) p] by simp
    next
      case False
      then have "lanes q k = Some b" and "b \<noteq> a" using l q' fresh [of k] by auto
      then show ?thesis using D(2,3,4) q' a False by (fastforce simp: lane_uses_add [OF D(1) p])
    qed
    show "k = k'" if "lanes q' k = Some b" "lanes q' k' = Some b" for k k' b
      using that q' fresh D(5) by (auto split: if_splits)
    show "lanes q' k = Some b" if "(U(p \<mapsto> (key, a))) r = Some (k, b)" for r k b
      using that q' D(6) [of r k b] None by (auto split: if_splits)
  qed
next
  case (Some b)
  note D = lanes_okD [OF ok]
  have q': "a = b" "lanes q' = lanes q" "next_lane q' = next_lane q"
    "lane_at q' = (lane_at q)(a := (lane_at q a)\<lparr>users := users (lane_at q a) + 1\<rparr>)"
    using j Some by (auto simp: section_defs)
  show ?thesis
  proof (rule lanes_okI)
    show "finite (dom (U(p \<mapsto> (key, a))))" using D(1) by simp
    show "c < next_lane q' \<and> users (lane_at q' c) > 0 \<and>
        users (lane_at q' c) = int (lane_uses (U(p \<mapsto> (key, a))) (k, c)) + int (length (entries (lane_at q' c)))"
      if l: "lanes q' k = Some c" for k c
      using l q' Some D(2-5) by (cases "c = a") (auto simp: lane_uses_add [OF D(1) p])
    show "k = k'" if "lanes q' k = Some c" "lanes q' k' = Some c" for k k' c
      using that q' D(5) by auto
    show "lanes q' k = Some c" if "(U(p \<mapsto> (key, a))) r = Some (k, c)" for r k c
      using that q' Some D(6) [of r k c] by (auto split: if_splits)
  qed
qed

text \<open>A section that only changes the entries and the users of one lane of the map.\<close>

lemma lanes_ok_adjust:
  assumes ok: "lanes_ok q U" and l: "lanes q key = Some a" and "finite (dom U')"
    and uses: "\<And>y. int (lane_uses U' y) = int (lane_uses U y) + (if y = (key, a) then d else 0)"
    and eq: "lanes q' = lanes q" "next_lane q' = next_lane q" "lane_at q' = (lane_at q)(a := new)"
    and users: "users new = int (lane_uses U (key, a)) + d + int (length (entries new))" "users new > 0"
    and sub: "\<And>p x. U' p = Some x \<Longrightarrow> U p = Some x \<or> x = (key, a)"
  shows "lanes_ok q' U'"
proof (rule lanes_okI)
  note D = lanes_okD [OF ok]
  show "finite (dom U')" by fact
  show "c < next_lane q' \<and> users (lane_at q' c) > 0 \<and>
      users (lane_at q' c) = int (lane_uses U' (k, c)) + int (length (entries (lane_at q' c)))"
    if "lanes q' k = Some c" for k c
  proof (cases "c = a")
    case True
    then have "k = key" using that eq D(5) l by auto
    then show ?thesis using True eq D(2) l users uses [of "(key, a)"] by auto
  next
    case False
    then show ?thesis using that eq D(2,3,4) uses [of "(k, c)"] by auto
  qed
  show "k = k'" if "lanes q' k = Some c" "lanes q' k' = Some c" for k k' c
    using that eq D(5) by auto
  show "lanes q' k = Some c" if "U' r = Some (k, c)" for r k c
    using sub [OF that] eq D(6) l by auto
qed

lemma lane_uses_delete:
  assumes "finite (dom U)" and "U p = Some x"
  shows "int (lane_uses (U(p := None)) y) = int (lane_uses U y) + (if y = x then - 1 else 0)"
  using lane_uses_del [OF assms, of y] by simp

lemma enroll_lanes_ok:
  assumes ok: "lanes_ok q U" and e: "enroll_ticket key a pos q = (t, q')" and p: "U p = Some (key, a)"
  shows "lanes_ok q' (U(p := None))"
proof (rule lanes_ok_adjust [OF ok lanes_okD(6) [OF ok p]])
  note D = lanes_okD [OF ok]
  show "finite (dom (U(p := None)))" using D(1) by simp
  show "int (lane_uses (U(p := None)) y) = int (lane_uses U y) + (if y = (key, a) then - 1 else 0)" for y
    by (rule lane_uses_delete [OF D(1) p])
  let ?new = "(lane_at q a)\<lparr>entries := entries (lane_at q a) @ [next_ticket q]\<rparr>"
  show "lanes q' = lanes q" "next_lane q' = next_lane q" "lane_at q' = (lane_at q)(a := ?new)"
    using e by (auto simp: section_defs)
  show "users ?new = int (lane_uses U (key, a)) + - 1 + int (length (entries ?new))" "users ?new > 0"
    using D(3,4) [OF D(6) [OF p]] by auto
qed (auto split: if_splits)

lemma remove_lanes_ok:
  assumes ok: "lanes_ok q U" and t: "tickets_ok q" "t < next_ticket q" "\<not> tk_once (ticket_at q t)"
    and r: "remove_entry t q = Some (a, q')" and p: "U p = None"
  shows "lanes_ok q' (U(p \<mapsto> (tk_key (ticket_at q t), a)))"
proof (rule lanes_ok_adjust [OF ok])
  note D = lanes_okD [OF ok]
  let ?key = "tk_key (ticket_at q t)" and ?es = "entries (lane_at q a)"
  let ?new = "(lane_at q a)\<lparr>entries := filter (\<lambda>u. u \<noteq> t) ?es\<rparr>"
  show l: "lanes q ?key = Some a"
    using r by (auto simp: remove_entry_def Let_def split: option.splits)
  show "finite (dom (U(p \<mapsto> (?key, a))))" using D(1) by simp
  show "int (lane_uses (U(p \<mapsto> (?key, a))) y) = int (lane_uses U y) + (if y = (?key, a) then 1 else 0)" for y
    by (simp add: lane_uses_add [OF D(1) p])
  show "lanes q' = lanes q" "next_lane q' = next_lane q" "lane_at q' = (lane_at q)(a := ?new)"
    using r l by (auto simp: section_defs)
  have "t \<in> set ?es" and "distinct ?es" using t l by (auto simp: tickets_ok_def)
  then have "filter (\<lambda>u. u \<noteq> t) ?es = remove1 t ?es"
    by (simp add: distinct_remove1_removeAll removeAll_filter_not_eq neq_commute)
  then have "int (length ?es) = int (length (entries ?new)) + 1"
    using \<open>t \<in> set ?es\<close> by (simp add: length_remove1) (cases ?es, auto)
  then show "users ?new = int (lane_uses U (?key, a)) + 1 + int (length (entries ?new))" "users ?new > 0"
    using D(3,4) [OF l] by auto
qed (auto split: if_splits)

lemma leave_lanes_ok:
  assumes ok: "lanes_ok q U" and p: "U p = Some (key, a)"
  shows "lanes_ok (leave_lane key a q) (U(p := None))"
proof -
  note D = lanes_okD [OF ok]
  have l: "lanes q key = Some a" by (rule D(6) [OF p])
  let ?new = "(lane_at q a)\<lparr>users := users (lane_at q a) - 1\<rparr>"
  have uses: "int (lane_uses (U(p := None)) y) = int (lane_uses U y) + (if y = (key, a) then - 1 else 0)" for y
    by (rule lane_uses_delete [OF D(1) p])
  show ?thesis
  proof (cases "users ?new = 0")
    case False
    have q': "leave_lane key a q = set_lane a ?new q"
      using False by (simp add: leave_lane_def Let_def set_lane_def)
    show ?thesis unfolding q'
      by (rule lanes_ok_adjust [OF ok l _ uses, where new = ?new])
        (use D(1) D(3,4) [OF l] False in \<open>auto simp: set_lane_def split: if_splits\<close>)
  next
    case True
    have q': "lanes (leave_lane key a q) = (lanes q)(key := None)"
      "next_lane (leave_lane key a q) = next_lane q"
      "lane_at (leave_lane key a q) = (lane_at q)(a := ?new)"
      using True by (auto simp: leave_lane_def Let_def set_lane_def)
    have "users (lane_at q a) = 1" using True by simp
    moreover have "0 < lane_uses U (key, a)" by (rule lane_uses_self [OF D(1) p])
    moreover have "int (lane_uses (U(p := None)) (key, a)) = int (lane_uses U (key, a)) - 1"
      using uses [of "(key, a)"] by simp
    ultimately have none: "lane_uses (U(p := None)) (key, a) = 0" and no: "length (entries (lane_at q a)) = 0"
      using D(4) [OF l] by linarith+
    then have gone: "(U(p := None)) r \<noteq> Some (key, a)" for r
      using D(1) lane_uses_self [of "U(p := None)" r "(key, a)"] by auto
    show ?thesis
    proof (rule lanes_okI)
      show "finite (dom (U(p := None)))" using D(1) by simp
      show "c < next_lane (leave_lane key a q) \<and> users (lane_at (leave_lane key a q) c) > 0 \<and>
          users (lane_at (leave_lane key a q) c)
            = int (lane_uses (U(p := None)) (k, c)) + int (length (entries (lane_at (leave_lane key a q) c)))"
        if "lanes (leave_lane key a q) k = Some c" for k c
      proof -
        have k: "k \<noteq> key" "lanes q k = Some c" using that q' by (auto split: if_splits)
        then have "c \<noteq> a" using D(5) l by blast
        then show ?thesis using k q' D(2,3,4) [OF k(2)] uses [of "(k, c)"] by simp
      qed
      show "k = k'" if "lanes (leave_lane key a q) k = Some c" "lanes (leave_lane key a q) k' = Some c" for k k' c
        using that q' D(5) by (auto split: if_splits)
      show "lanes (leave_lane key a q) k = Some c" if u: "(U(p := None)) r = Some (k, c)" for r k c
      proof -
        have "lanes q k = Some c" using u D(6) by (auto split: if_splits)
        moreover have "k \<noteq> key" using u gone [of r] calculation l by auto
        ultimately show ?thesis using q' by simp
      qed
    qed
  qed
qed

subsubsection \<open>Tickets and their lanes\<close>

lemma tickets_okD:
  assumes "tickets_ok q"
  shows "distinct (entries (lane_at q a))"
    and "t \<in> set (entries (lane_at q a)) \<longleftrightarrow>
        t < next_ticket q \<and> \<not> tk_once (ticket_at q t) \<and> lanes q (tk_key (ticket_at q t)) = Some a"
    and "t < next_ticket q \<Longrightarrow> \<not> tk_once (ticket_at q t) \<Longrightarrow> lanes q (tk_key (ticket_at q t)) \<noteq> None"
    and "tk_once (ticket_at q t) = tk_done (ticket_at q t)"
  using assms unfolding tickets_ok_def by blast+

lemma join_tickets_ok:
  assumes "tickets_ok q" and "lanes_ok q U" and "join_lane key q = (a, q')"
  shows "tickets_ok q'"
proof (cases "lanes q key")
  case None
  note T = tickets_okD [OF assms(1)]
  have q': "lanes q' = (lanes q)(key \<mapsto> next_lane q)" "ticket_at q' = ticket_at q" "next_ticket q' = next_ticket q"
    "entries (lane_at q' b) = (if b = next_lane q then [] else entries (lane_at q b))" for b
    using assms(3) None by (auto simp: section_defs free_lane_def)
  have fresh: "lanes q k \<noteq> Some (next_lane q)" for k
    using lanes_okD(2) [OF assms(2)] by blast
  have old: "t < next_ticket q \<Longrightarrow> \<not> tk_once (ticket_at q t) \<Longrightarrow> tk_key (ticket_at q t) \<noteq> key" for t
    using T(3) None by blast
  show ?thesis
    unfolding tickets_ok_def q' using T fresh old None by (auto split: if_splits) blast+
next
  case (Some b)
  then have "lanes q' = lanes q" "ticket_at q' = ticket_at q" "next_ticket q' = next_ticket q"
    "entries (lane_at q' c) = entries (lane_at q c)" for c
    using assms(3) by (auto simp: section_defs)
  then show ?thesis using assms(1) by (simp add: tickets_ok_def)
qed

lemma enroll_tickets_ok:
  assumes "tickets_ok q" and "lanes q key = Some a" and "enroll_ticket key a pos q = (t, q')"
  shows "tickets_ok q'"
proof -
  note T = tickets_okD [OF assms(1)]
  have q': "lanes q' = lanes q" "next_ticket q' = Suc (next_ticket q)" "t = next_ticket q"
    "ticket_at q' u = (if u = t then \<lparr>tk_key = key, tk_position = pos, tk_done = False, tk_once = False\<rparr>
                       else ticket_at q u)"
    "entries (lane_at q' b) = (if b = a then entries (lane_at q a) @ [t] else entries (lane_at q b))" for u b
    using assms(3) by (auto simp: section_defs)
  have new: "t \<notin> set (entries (lane_at q b))" for b using T(2) q'(3) by simp
  show ?thesis
    unfolding tickets_ok_def
  proof (intro conjI allI impI)
    show "distinct (entries (lane_at q' b))" for b using T(1) new q' by simp
    show "u \<in> set (entries (lane_at q' b)) \<longleftrightarrow>
        u < next_ticket q' \<and> \<not> tk_once (ticket_at q' u) \<and> lanes q' (tk_key (ticket_at q' u)) = Some b" for b u
      using T(2) [of u b] new [of b] assms(2) q' by (cases "u = t") auto
    show "lanes q' (tk_key (ticket_at q' u)) \<noteq> None"
      if "u < next_ticket q'" and "\<not> tk_once (ticket_at q' u)" for u
      using T(3) [of u] that assms(2) q' by (cases "u = t") auto
    show "tk_once (ticket_at q' u) = tk_done (ticket_at q' u)" for u using T(4) q' by simp
  qed
qed

lemma remove_tickets_ok:
  assumes "tickets_ok q" and "remove_entry t q = Some (a, q')"
  shows "tickets_ok q'"
proof -
  note T = tickets_okD [OF assms(1)]
  have q': "lanes q' = lanes q" "next_ticket q' = next_ticket q"
    "ticket_at q' u = (if u = t then (ticket_at q t)\<lparr>tk_done := True, tk_once := True\<rparr> else ticket_at q u)"
    "entries (lane_at q' b) = (if b = a then filter (\<lambda>u. u \<noteq> t) (entries (lane_at q a)) else entries (lane_at q b))"
    for u b
    using assms(2) by (auto simp: section_defs remove_entry_def split: option.splits)
  have l: "lanes q (tk_key (ticket_at q t)) = Some a"
    using assms(2) by (auto simp: remove_entry_def Let_def split: option.splits)
  show ?thesis
    unfolding tickets_ok_def
  proof (intro conjI allI impI)
    show "distinct (entries (lane_at q' b))" for b using T(1) q' by simp
    show "u \<in> set (entries (lane_at q' b)) \<longleftrightarrow>
        u < next_ticket q' \<and> \<not> tk_once (ticket_at q' u) \<and> lanes q' (tk_key (ticket_at q' u)) = Some b" for b u
      using T(2) [of u b] T(2) [of u a] l q' by (cases "u = t"; cases "b = a") auto
    show "lanes q' (tk_key (ticket_at q' u)) \<noteq> None"
      if "u < next_ticket q'" and "\<not> tk_once (ticket_at q' u)" for u
      using T(3) [of u] that q' by (cases "u = t") auto
    show "tk_once (ticket_at q' u) = tk_done (ticket_at q' u)" for u using T(4) q' by simp
  qed
qed

lemma leave_tickets_ok:
  assumes t: "tickets_ok q" and ok: "lanes_ok q U" and p: "U p = Some (key, a)"
  shows "tickets_ok (leave_lane key a q)"
proof -
  note D = lanes_okD [OF ok] and T = tickets_okD [OF t]
  let ?q = "leave_lane key a q"
  have l: "lanes q key = Some a" by (rule D(6) [OF p])
  have q': "ticket_at ?q = ticket_at q" "next_ticket ?q = next_ticket q"
    "entries (lane_at ?q b) = entries (lane_at q b)"
    "lanes ?q = (if users (lane_at q a) = 1 then (lanes q)(key := None) else lanes q)" for b
    by (auto simp: leave_lane_def Let_def set_lane_def)
  show ?thesis
  proof (cases "users (lane_at q a) = 1")
    case False
    then show ?thesis using t q' by (simp add: tickets_ok_def)
  next
    case True
    have "0 < lane_uses U (key, a)" by (rule lane_uses_self [OF D(1) p])
    then have "length (entries (lane_at q a)) = 0" using D(4) [OF l] True by linarith
    then have none: "tk_key (ticket_at q u) \<noteq> key"
      if "u < next_ticket q" and "\<not> tk_once (ticket_at q u)" for u
      using T(2) [of u a] that l by auto
    show ?thesis
      unfolding tickets_ok_def q' using True T none l by (auto split: if_splits) blast+
  qed
qed

subsubsection \<open>What the sections leave alone\<close>

lemma join_frame:
  assumes "join_lane key q = (a, q')"
  shows "lanes q' key = Some a" "ticket_at q' = ticket_at q" "next_ticket q' = next_ticket q"
    "max_entries q' = max_entries q" "next_lane q \<le> next_lane q'"
    "entries (lane_at q' b) = (if b = next_lane q \<and> lanes q key = None then [] else entries (lane_at q b))"
    "admit_held (lane_at q' b) = (if b = next_lane q \<and> lanes q key = None then None else admit_held (lane_at q b))"
  using assms by (auto simp: section_defs free_lane_def split: option.splits)

lemma leave_frame:
  "ticket_at (leave_lane key a q) = ticket_at q" "next_ticket (leave_lane key a q) = next_ticket q"
  "max_entries (leave_lane key a q) = max_entries q" "next_lane (leave_lane key a q) = next_lane q"
  "entries (lane_at (leave_lane key a q) b) = entries (lane_at q b)"
  "admit_held (lane_at (leave_lane key a q) b) = admit_held (lane_at q b)"
  by (auto simp: section_defs)

lemma enroll_frame:
  assumes "enroll_ticket key a pos q = (t, q')"
  shows "t = next_ticket q" "lanes q' = lanes q" "next_lane q' = next_lane q"
    "next_ticket q' = Suc (next_ticket q)" "max_entries q' = max_entries q"
    "ticket_at q' u = (if u = t then \<lparr>tk_key = key, tk_position = pos, tk_done = False, tk_once = False\<rparr>
                       else ticket_at q u)"
    "entries (lane_at q' b) = (if b = a then entries (lane_at q a) @ [t] else entries (lane_at q b))"
    "admit_held (lane_at q' b) = admit_held (lane_at q b)"
  using assms by (auto simp: section_defs)

lemma remove_frame:
  assumes "remove_entry t q = Some (a, q')"
  shows "lanes q' = lanes q" "next_lane q' = next_lane q" "next_ticket q' = next_ticket q"
    "max_entries q' = max_entries q"
    "ticket_at q' u = (if u = t then (ticket_at q t)\<lparr>tk_done := True, tk_once := True\<rparr> else ticket_at q u)"
    "entries (lane_at q' b) = (if b = a then filter (\<lambda>u. u \<noteq> t) (entries (lane_at q a)) else entries (lane_at q b))"
    "admit_held (lane_at q' b) = admit_held (lane_at q b)"
  using assms by (auto simp: section_defs split: option.splits)

lemma lock_frame:
  "lanes (set_lane a ((lane_at q a)\<lparr>admit_held := h\<rparr>) q) = lanes q"
  "ticket_at (set_lane a ((lane_at q a)\<lparr>admit_held := h\<rparr>) q) = ticket_at q"
  "next_ticket (set_lane a ((lane_at q a)\<lparr>admit_held := h\<rparr>) q) = next_ticket q"
  "next_lane (set_lane a ((lane_at q a)\<lparr>admit_held := h\<rparr>) q) = next_lane q"
  "max_entries (set_lane a ((lane_at q a)\<lparr>admit_held := h\<rparr>) q) = max_entries q"
  "entries (lane_at (set_lane a ((lane_at q a)\<lparr>admit_held := h\<rparr>) q) b) = entries (lane_at q b)"
  "users (lane_at (set_lane a ((lane_at q a)\<lparr>admit_held := h\<rparr>) q) b) = users (lane_at q b)"
  "admit_held (lane_at (set_lane a ((lane_at q a)\<lparr>admit_held := h\<rparr>) q) b)
     = (if b = a then h else admit_held (lane_at q b))"
  by (auto simp: set_lane_def)

lemmas frames = join_frame leave_frame enroll_frame remove_frame lock_frame

subsubsection \<open>Admission, bound and order\<close>

definition admit_ok :: "ordered_queue \<Rightarrow> (nat \<rightharpoonup> nat) \<Rightarrow> bool" where
  "admit_ok q H \<longleftrightarrow>
     (\<forall>p a. H p = Some a \<longleftrightarrow> admit_held (lane_at q a) = Some p) \<and>
     (\<forall>a \<ge> next_lane q. admit_held (lane_at q a) = None)"

text \<open>A goroutine about to enroll, and one that was told the lane is not full.\<close>

fun may_enroll :: "phase \<Rightarrow> nat option" where
  "may_enroll (Checked key a False) = Some a"
| "may_enroll (Decided key a pos True None) = Some a"
| "may_enroll _ = None"

definition bound_ok :: "qstate \<Rightarrow> bool" where
  "bound_ok = (\<lambda>(q, ph).
     0 < max_entries q \<and>
     (\<forall>a. int (length (entries (lane_at q a))) \<le> max_entries q) \<and>
     (\<forall>p a. may_enroll (ph p) = Some a \<longrightarrow> int (length (entries (lane_at q a))) < max_entries q))"

text \<open>\<open>clear_but q t us\<close>: nothing unreleased of the ticket's lane comes before it, but for \<open>us\<close>.\<close>

definition clear_but :: "ordered_queue \<Rightarrow> nat \<Rightarrow> nat list \<Rightarrow> bool" where
  "clear_but q t us \<longleftrightarrow>
     t < next_ticket q \<and>
     (\<not> tk_once (ticket_at q t) \<longrightarrow>
        (\<forall>u < next_ticket q. tk_key (ticket_at q u) = tk_key (ticket_at q t) \<longrightarrow>
           \<not> tk_once (ticket_at q u) \<longrightarrow> tk_position (ticket_at q u) < tk_position (ticket_at q t) \<longrightarrow>
           u \<in> set us))"

fun phase_ordered :: "ordered_queue \<Rightarrow> phase \<Rightarrow> bool" where
  "phase_ordered q (Waiting t us) = clear_but q t us"
| "phase_ordered q (Waited t) = clear_but q t []"
| "phase_ordered q (Decided key a pos enroll err) =
     (if enroll \<and> err = None then \<forall>u \<in> set (entries (lane_at q a)). tk_position (ticket_at q u) \<le> pos
      else True)"
| "phase_ordered q _ = True"

definition queue_ok :: "bool \<Rightarrow> qstate \<Rightarrow> bool" where
  "queue_ok honest = (\<lambda>(q, ph).
     lanes_ok q (uses_lane \<circ> ph) \<and> tickets_ok q \<and> admit_ok q (holds_admit \<circ> ph) \<and>
     bound_ok (q, ph) \<and> (honest \<longrightarrow> (\<forall>p. phase_ordered q (ph p))))"

subsection \<open>Every step keeps the invariant\<close>

inductive_cases qstepE: "qstep honest (q, ph) s"

lemma set_lane_held_ok:
  "lanes_ok (set_lane a ((lane_at q a)\<lparr>admit_held := h\<rparr>) q) U = lanes_ok q U"
  "tickets_ok (set_lane a ((lane_at q a)\<lparr>admit_held := h\<rparr>) q) = tickets_ok q"
  by (simp_all add: lanes_ok_def tickets_ok_def lock_frame)

lemma uses_upd: "uses_lane \<circ> ph(p := x) = (uses_lane \<circ> ph)(p := uses_lane x)"
  and holds_upd: "holds_admit \<circ> ph(p := x) = (holds_admit \<circ> ph)(p := holds_admit x)"
  by (simp_all add: fun_upd_comp)

lemma uses_same: "uses_lane (ph p) = u \<Longrightarrow> (uses_lane \<circ> ph)(p := u) = uses_lane \<circ> ph"
  by (simp add: fun_upd_idem)

lemma holds_same: "holds_admit (ph p) = u \<Longrightarrow> (holds_admit \<circ> ph)(p := u) = holds_admit \<circ> ph"
  by (simp add: fun_upd_idem)

lemma step_lanes:
  assumes "qstep honest (q, ph) (q', ph')" and ok: "lanes_ok q (uses_lane \<circ> ph)" and t: "tickets_ok q"
  shows "lanes_ok q' (uses_lane \<circ> ph') \<and> tickets_ok q'"
  using assms(1)
proof cases
  case (st_join p key a)
  then show ?thesis
    using join_lane_ok [OF ok] join_tickets_ok [OF t ok] by (simp add: uses_upd)
next
  case (st_refuse p key a pos enroll err)
  then show ?thesis
    using leave_lanes_ok [OF ok, of p] leave_tickets_ok [OF t ok, of p] by (simp add: uses_upd)
next
  case (st_enroll p key a pos t)
  then show ?thesis
    using enroll_lanes_ok [OF ok, of _ _ _ _ _ p] enroll_tickets_ok [OF t] lanes_okD(6) [OF ok, of p]
    by (simp add: uses_upd)
next
  case (st_release p tk a)
  then have "(uses_lane \<circ> ph) p = None" by auto
  then show ?thesis
    using st_release remove_lanes_ok [OF ok t] remove_tickets_ok [OF t] by (simp add: uses_upd)
next
  case (st_leave p key a)
  then show ?thesis
    using leave_lanes_ok [OF ok, of p] leave_tickets_ok [OF t ok, of p] by (simp add: uses_upd)
qed (use ok t in \<open>simp_all add: uses_upd uses_same set_lane_held_ok\<close>)

lemma step_admit:
  assumes "qstep honest (q, ph) (q', ph')" and ok: "admit_ok q (holds_admit \<circ> ph)"
    and l: "lanes_ok q (uses_lane \<circ> ph)"
  shows "admit_ok q' (holds_admit \<circ> ph')"
  using assms(1)
proof cases
  case (st_join p key a)
  then show ?thesis
    using ok join_frame(5,7) [OF st_join(3)]
    by (fastforce simp: admit_ok_def holds_upd holds_same)
next
  case (st_lock p key a)
  have "lanes q key = Some a" using l st_lock by (auto dest: lanes_okD(6) [of _ _ p])
  then have "a < next_lane q" using lanes_okD(2) [OF l] by blast
  moreover have "holds_admit (ph p) = Some b \<longleftrightarrow> admit_held (lane_at q b) = Some p" for b
    using ok unfolding admit_ok_def by simp
  then have "admit_held (lane_at q b) \<noteq> Some p" for b using st_lock by simp
  ultimately show ?thesis
    using ok st_lock by (auto simp: admit_ok_def holds_upd lock_frame)
next
  case (st_unlock p a t err)
  have A: "holds_admit (ph r) = Some b \<longleftrightarrow> admit_held (lane_at q b) = Some r" for r b
    using ok unfolding admit_ok_def by simp
  have "admit_held (lane_at q a) = Some p" using A [of p a] st_unlock by simp
  moreover have "b \<noteq> a \<Longrightarrow> admit_held (lane_at q b) \<noteq> Some p" for b using A [of p b] st_unlock by auto
  ultimately show ?thesis
    using ok st_unlock by (auto simp: admit_ok_def holds_upd lock_frame A)
next
  case (st_release p t a)
  have "holds_admit (ph p) = None" using st_release(2) by auto
  then have "holds_admit \<circ> ph' = holds_admit \<circ> ph"
    using st_release(1) by (simp add: holds_upd holds_same)
  then show ?thesis
    using ok remove_frame [OF st_release(5)] by (simp add: admit_ok_def)
next
  case (st_enroll p key a pos t)
  then show ?thesis
    using ok enroll_frame [OF st_enroll(3)] by (auto simp: admit_ok_def holds_upd holds_same)
qed (use ok in \<open>auto simp: admit_ok_def holds_upd holds_same leave_frame\<close>)

lemma may_enroll_simps [simp]:
  "may_enroll (Checked key a full) = (if full then None else Some a)"
  "may_enroll (Decided key a pos enroll err) = (if enroll \<and> err = None then Some a else None)"
  by (cases full; simp) (cases enroll; cases err; simp)

lemma may_enroll_holds: "may_enroll x = Some a \<Longrightarrow> holds_admit x = Some a"
  by (cases x rule: may_enroll.cases) auto

text \<open>Two goroutines that may enroll in a lane are one: both hold its admission lock.\<close>

lemma may_enroll_unique:
  assumes "admit_ok q (holds_admit \<circ> ph)" and "may_enroll (ph p) = Some a" and "may_enroll (ph r) = Some a"
  shows "p = r"
proof -
  have "admit_held (lane_at q a) = Some p" and "admit_held (lane_at q a) = Some r"
    using assms may_enroll_holds unfolding admit_ok_def by auto
  then show ?thesis by simp
qed

lemma bound_okI:
  assumes "bound_ok (q, ph)" and "max_entries q' = max_entries q"
    and "\<And>a. length (entries (lane_at q' a)) \<le> length (entries (lane_at q a))"
    and "\<And>r a. may_enroll (ph' r) = Some a \<Longrightarrow>
           may_enroll (ph r) = Some a \<or> int (length (entries (lane_at q a))) < max_entries q"
  shows "bound_ok (q', ph')"
proof -
  have "int (length (entries (lane_at q' a))) \<le> max_entries q'" for a
    using assms(1,2) assms(3) [of a] unfolding bound_ok_def by (auto intro: order.trans [rotated])
  moreover have "int (length (entries (lane_at q' a))) < max_entries q'" if "may_enroll (ph' r) = Some a" for r a
  proof -
    have "int (length (entries (lane_at q a))) < max_entries q"
      using assms(4) [OF that] assms(1) unfolding bound_ok_def by auto
    then show ?thesis using assms(2) assms(3) [of a] by linarith
  qed
  ultimately show ?thesis using assms(1,2) by (auto simp: bound_ok_def)
qed

lemma step_bound:
  assumes st: "qstep honest (q, ph) (q', ph')" and ok: "bound_ok (q, ph)"
    and h: "admit_ok q (holds_admit \<circ> ph)"
  shows "bound_ok (q', ph')"
  using st
proof cases
  case (st_enroll p key a pos t)
  note f = enroll_frame [OF st_enroll(3)]
  have p: "may_enroll (ph p) = Some a" using st_enroll by simp
  have "may_enroll (ph r) \<noteq> Some a" if "r \<noteq> p" for r
    using may_enroll_unique [OF h p] that by blast
  moreover have "int (length (entries (lane_at q a))) < max_entries q"
    using ok p unfolding bound_ok_def by blast
  ultimately show ?thesis
    using ok st_enroll(1) f by (auto simp: bound_ok_def split: if_splits)
next
  case (st_release p t a)
  then show ?thesis
    using remove_frame [OF st_release(5)]
    by (intro bound_okI [OF ok]) (auto split: if_splits)
next
  case (st_check p key a)
  then show ?thesis
    by (intro bound_okI [OF ok]) (auto simp: lane_full_def split: if_splits)
next
  case (st_record p key a full pos enroll err)
  then show ?thesis
    by (intro bound_okI [OF ok])
      (auto simp: admit_error_def split: if_splits)
next
  case (st_join p key a)
  then show ?thesis
    using join_frame [OF st_join(3)] by (intro bound_okI [OF ok]) (auto split: if_splits)
qed (auto intro!: bound_okI [OF ok] simp: lock_frame leave_frame split: if_splits)

subsubsection \<open>The order\<close>

text \<open>A section after which no more unreleased tickets come before a ticket than did before.\<close>

lemma phase_ordered_mono:
  assumes "phase_ordered q x"
    and "\<And>u. tk_key (ticket_at q' u) = tk_key (ticket_at q u) \<and>
              tk_position (ticket_at q' u) = tk_position (ticket_at q u) \<and>
              (tk_once (ticket_at q u) \<longrightarrow> tk_once (ticket_at q' u))"
    and "next_ticket q' = next_ticket q"
    and "\<And>a. holds_admit x = Some a \<Longrightarrow> set (entries (lane_at q' a)) \<subseteq> set (entries (lane_at q a))"
  shows "phase_ordered q' x"
  using assms by (cases x) (auto simp: clear_but_def)

lemma ahead_clear:
  assumes "tickets_ok q" and "t < next_ticket q" and "entries_ahead t q = Some us"
  shows "clear_but q t us"
  using assms tickets_okD(2) [OF assms(1)]
  by (auto simp: clear_but_def entries_ahead_def split: option.splits)

lemma clear_but_closed:
  assumes "tickets_ok q" and "clear_but q t (u # us)" and "tk_done (ticket_at q u)"
  shows "clear_but q t us"
  using assms tickets_okD(4) [OF assms(1)] by (auto simp: clear_but_def)

lemma step_order:
  assumes st: "qstep True (q, ph) (q', ph')" and ord: "\<And>r. phase_ordered q (ph r)"
    and l: "lanes_ok q (uses_lane \<circ> ph)" and t: "tickets_ok q" and h: "admit_ok q (holds_admit \<circ> ph)"
  shows "phase_ordered q' (ph' r)"
  using st
proof cases
  case (st_enroll p key a pos tk)
  note f = enroll_frame [OF st_enroll(3)]
  have lane: "lanes q key = Some a" using lanes_okD(6) [OF l, of p] st_enroll by simp
  have last: "tk_position (ticket_at q u) \<le> pos"
    if "u < next_ticket q" "\<not> tk_once (ticket_at q u)" "tk_key (ticket_at q u) = key" for u
    using ord [of p] st_enroll(2) that tickets_okD(2) [OF t, of u a] lane by simp
  have clear: "clear_but q' u us" if "clear_but q u us" for u us
    using that last f by (fastforce simp: clear_but_def less_Suc_eq)
  have "phase_ordered q' (ph r)" if "r \<noteq> p"
  proof (cases "ph r")
    case (Decided key' b pos' enroll err)
    have "b \<noteq> a" if "enroll" "err = None"
      using may_enroll_unique [OF h, of p a r] st_enroll(2) Decided that \<open>r \<noteq> p\<close> by auto
    then show ?thesis
      using ord [of r] Decided f tickets_okD(2) [OF t] by auto
  qed (use ord [of r] clear in auto)
  then show ?thesis using st_enroll(1) by simp
next
  case (st_release p tk a)
  then show ?thesis
    using remove_frame [OF st_release(5)] phase_ordered_mono [OF ord [of r], of q'] by (auto split: if_splits)
next
  case (st_join p key a)
  then show ?thesis
    using join_frame [OF st_join(3)] phase_ordered_mono [OF ord [of r], of q'] by auto
next
  case (st_record p key a full pos enroll err)
  then show ?thesis
    using ord [of r] by (auto simp: record_allowed_def admit_error_def)
next
  case (st_wait p tk ahead)
  then show ?thesis using ord [of r] ahead_clear [OF t] by auto
next
  case (st_closed p tk u us)
  then show ?thesis using ord [of r] ord [of p] clear_but_closed [OF t] by auto
next
  case (st_waited p tk)
  then show ?thesis using ord [of r] ord [of p] by auto
next
  case (st_refuse p key a pos enroll err)
  then show ?thesis using phase_ordered_mono [OF ord [of r], of q'] by (auto simp: leave_frame)
next
  case (st_leave p key a)
  then show ?thesis using phase_ordered_mono [OF ord [of r], of q'] by (auto simp: leave_frame)
next
  case (st_lock p key a)
  then show ?thesis using phase_ordered_mono [OF ord [of r], of q'] by (auto simp: lock_frame)
next
  case (st_unlock p a tk err)
  then show ?thesis using phase_ordered_mono [OF ord [of r], of q'] by (auto simp: lock_frame)
qed (use ord [of r] in auto)

subsection \<open>Reachable states\<close>

lemma queue_ok_start: "new_ordered_queue bound = Some q \<Longrightarrow> queue_ok honest (q, \<lambda>_. Idle)"
  by (auto simp: new_ordered_queue_def queue_ok_def lanes_ok_def tickets_ok_def admit_ok_def bound_ok_def
      free_lane_def free_ticket_def comp_def dom_def split: if_splits)

lemma queue_ok_step:
  assumes "qstep honest (q, ph) (q', ph')" and "queue_ok honest (q, ph)"
  shows "queue_ok honest (q', ph')"
proof -
  have "phase_ordered q' (ph' r)" if honest for r
    using step_order [of q ph q' ph' r] assms that by (simp add: queue_ok_def)
  moreover have "lanes_ok q' (uses_lane \<circ> ph') \<and> tickets_ok q'"
    using assms(2) by (intro step_lanes [OF assms(1)]) (simp_all add: queue_ok_def)
  moreover have "admit_ok q' (holds_admit \<circ> ph')"
    using assms(2) by (intro step_admit [OF assms(1)]) (simp_all add: queue_ok_def)
  moreover have "bound_ok (q', ph')"
    using assms(2) by (intro step_bound [OF assms(1)]) (simp_all add: queue_ok_def)
  ultimately show ?thesis by (simp add: queue_ok_def)
qed

lemma max_entries_step: "qstep honest (q, ph) (q', ph') \<Longrightarrow> max_entries q' = max_entries q"
  by (erule qstep.cases) (auto simp: frames)

lemma reachable_ok:
  assumes "reachable honest bound (q, ph)"
  shows "queue_ok honest (q, ph) \<and> max_entries q = bound"
proof -
  obtain q0 where q0: "new_ordered_queue bound = Some q0" and r: "(qstep honest)\<^sup>*\<^sup>* (q0, \<lambda>_. Idle) (q, ph)"
    using assms by (auto simp: reachable_def)
  have "queue_ok honest s \<and> max_entries (fst s) = bound"
    if "(qstep honest)\<^sup>*\<^sup>* (q0, \<lambda>_. Idle) s" for s
    using that
  proof (induction rule: rtranclp_induct)
    case base
    then show ?case
      using queue_ok_start [OF q0, of honest] q0 by (auto simp: new_ordered_queue_def split: if_splits)
  next
    case (step y z)
    obtain q1 ph1 q2 ph2 where "y = (q1, ph1)" "z = (q2, ph2)" by (metis surj_pair)
    then show ?case using step queue_ok_step max_entries_step by auto
  qed
  from this [OF r] show ?thesis by simp
qed

subsection \<open>Admissions that are not interleaved\<close>

text \<open>
  \<open>Admit\<close> as one goroutine runs it when no other interferes.  \<open>record\<close> is the callback; the lane's
  admission lock is free before and after.
\<close>

definition admit_now ::
    "string \<Rightarrow> (bool \<Rightarrow> int \<times> bool \<times> gerror option) \<Rightarrow> ordered_queue
       \<Rightarrow> (nat option \<times> gerror option) \<times> ordered_queue" where
  "admit_now key record q =
     (let (a, q1) = join_lane key q;
          full = lane_full a q1;
          (pos, enroll, err) = record full;
          err = admit_error full enroll err
      in if err \<noteq> None \<or> \<not> enroll then ((None, err), leave_lane key a q1)
         else (let (t, q2) = enroll_ticket key a pos q1 in ((Some t, None), q2)))"

lemma reachable_steps:
  "reachable honest bound s \<Longrightarrow> (qstep honest)\<^sup>*\<^sup>* s s' \<Longrightarrow> reachable honest bound s'"
  by (auto simp: reachable_def intro: rtranclp_trans)

lemma lock_unlock:
  assumes "admit_held (lane_at q a) = None"
  shows "(let q1 = set_lane a ((lane_at q a)\<lparr>admit_held := Some p\<rparr>) q;
              q2 = snd (enroll_ticket key a pos q1)
          in set_lane a ((lane_at q2 a)\<lparr>admit_held := None\<rparr>) q2) = snd (enroll_ticket key a pos q)"
    and "(let q1 = set_lane a ((lane_at q a)\<lparr>admit_held := Some p\<rparr>) q;
              q2 = leave_lane key a q1
          in set_lane a ((lane_at q2 a)\<lparr>admit_held := None\<rparr>) q2) = leave_lane key a q"
proof -
  have l: "l\<lparr>entries := es, admit_held := None\<rparr> = l\<lparr>entries := es\<rparr>"
    "l\<lparr>users := n, admit_held := None\<rparr> = l\<lparr>users := n\<rparr>"
    "l\<lparr>admit_held := None, users := n\<rparr> = l\<lparr>users := n\<rparr>"
    "l\<lparr>admit_held := None, entries := es\<rparr> = l\<lparr>entries := es\<rparr>"
    if "admit_held l = None" for l :: queue_lane and es n
    using that by (cases l; simp)+
  show "(let q1 = set_lane a ((lane_at q a)\<lparr>admit_held := Some p\<rparr>) q;
              q2 = snd (enroll_ticket key a pos q1)
          in set_lane a ((lane_at q2 a)\<lparr>admit_held := None\<rparr>) q2) = snd (enroll_ticket key a pos q)"
    using assms by (simp add: section_defs l)
  show "(let q1 = set_lane a ((lane_at q a)\<lparr>admit_held := Some p\<rparr>) q;
              q2 = leave_lane key a q1
          in set_lane a ((lane_at q2 a)\<lparr>admit_held := None\<rparr>) q2) = leave_lane key a q"
    using assms by (simp add: section_defs l)
qed

text \<open>The steps of one goroutine, with nothing in between, are \<open>admit_now\<close>.\<close>

lemma admit_now_steps:
  assumes idle: "ph p = Idle" and free: "admit_held (lane_at (snd (join_lane key q)) (fst (join_lane key q))) = None"
    and rec: "\<And>a q1. join_lane key q = (a, q1) \<Longrightarrow>
        (case record (lane_full a q1) of (pos, enroll, err) \<Rightarrow> record_allowed honest a pos enroll err q1)"
  shows "(qstep honest)\<^sup>*\<^sup>* (q, ph) (snd (admit_now key record q), ph)"
proof -
  obtain a q1 where j: "join_lane key q = (a, q1)" by fastforce
  obtain pos enroll err0 where r: "record (lane_full a q1) = (pos, enroll, err0)" by (metis surj_pair)
  define err where "err = admit_error (lane_full a q1) enroll err0"
  let ?q2 = "set_lane a ((lane_at q1 a)\<lparr>admit_held := Some p\<rparr>) q1"
  have full: "lane_full a ?q2 = lane_full a q1" by (simp add: lane_full_def set_lane_def)
  have allowed: "record_allowed honest a pos enroll err0 ?q2"
    using rec [OF j] r by (simp add: record_allowed_def set_lane_def)
  have 1: "qstep honest (q, ph) (q1, ph(p := Joined key a))" using idle j by (rule st_join)
  have 2: "qstep honest (q1, ph(p := Joined key a)) (?q2, ph(p := Locked key a))"
    using st_lock [of "ph(p := Joined key a)" p key a q1 honest] free j by simp
  have 3: "qstep honest (?q2, ph(p := Locked key a)) (?q2, ph(p := Checked key a (lane_full a q1)))"
    using st_check [of "ph(p := Locked key a)" p key a honest ?q2] full by simp
  have 4: "qstep honest (?q2, ph(p := Checked key a (lane_full a q1))) (?q2, ph(p := Decided key a pos enroll err))"
    using st_record [of "ph(p := Checked key a (lane_full a q1))" p key a "lane_full a q1" honest pos enroll err0 ?q2]
      allowed by (simp add: err_def)
  have start: "(qstep honest)\<^sup>*\<^sup>* (q, ph) (?q2, ph(p := Decided key a pos enroll err))"
    using 1 2 3 4 by (meson rtranclp.rtrancl_refl rtranclp.rtrancl_into_rtrancl)
  have unlock: "qstep honest (q3, ph(p := Unlocking a tk e))
      (set_lane a ((lane_at q3 a)\<lparr>admit_held := None\<rparr>) q3, ph)" for q3 tk e
    using st_unlock [of "ph(p := Unlocking a tk e)" p a tk e honest q3] idle by (simp add: fun_upd_idem)
  have held: "admit_held (lane_at q1 a) = None" using free j by simp
  show ?thesis
  proof (cases "err \<noteq> None \<or> \<not> enroll")
    case True
    have "qstep honest (?q2, ph(p := Decided key a pos enroll err))
        (leave_lane key a ?q2, ph(p := Unlocking a None err))"
      using st_refuse [of "ph(p := Decided key a pos enroll err)" p key a pos enroll err honest ?q2] True by simp
    then have "(qstep honest)\<^sup>*\<^sup>* (q, ph)
        (set_lane a ((lane_at (leave_lane key a ?q2) a)\<lparr>admit_held := None\<rparr>) (leave_lane key a ?q2), ph)"
      using start unlock by (meson rtranclp.rtrancl_into_rtrancl)
    moreover have "set_lane a ((lane_at (leave_lane key a ?q2) a)\<lparr>admit_held := None\<rparr>) (leave_lane key a ?q2)
        = leave_lane key a q1"
      using lock_unlock(2) [OF held, of p key] by (simp add: Let_def)
    moreover have "snd (admit_now key record q) = leave_lane key a q1"
      using True by (auto simp: admit_now_def j r err_def)
    ultimately show ?thesis by simp
  next
    case False
    obtain t q3 where e: "enroll_ticket key a pos ?q2 = (t, q3)" by fastforce
    have "qstep honest (?q2, ph(p := Decided key a pos enroll err)) (q3, ph(p := Unlocking a (Some t) None))"
      using st_enroll [of "ph(p := Decided key a pos enroll err)" p key a pos ?q2 t q3 honest] False e by simp
    then have "(qstep honest)\<^sup>*\<^sup>* (q, ph) (set_lane a ((lane_at q3 a)\<lparr>admit_held := None\<rparr>) q3, ph)"
      using start unlock by (meson rtranclp.rtrancl_into_rtrancl)
    moreover have "set_lane a ((lane_at q3 a)\<lparr>admit_held := None\<rparr>) q3 = snd (enroll_ticket key a pos q1)"
      using lock_unlock(1) [OF held, of p key pos] e by (simp add: Let_def)
    moreover have "snd (admit_now key record q) = snd (enroll_ticket key a pos q1)"
      using False by (auto simp: admit_now_def j r err_def split: prod.split)
    ultimately show ?thesis by simp
  qed
qed

text \<open>A queue of bound 4 in which two sends of one conversation were admitted, for the witnesses.\<close>

definition one_waiting :: ordered_queue where
  "one_waiting = snd (admit_now ''c'' (\<lambda>_. (1, True, None)) (the (new_ordered_queue 4)))"

definition two_waiting :: ordered_queue where
  "two_waiting = snd (admit_now ''c'' (\<lambda>_. (2, True, None)) one_waiting)"

lemmas waiting_defs = two_waiting_def one_waiting_def admit_now_def new_ordered_queue_def
  join_lane_def enroll_ticket_def set_lane_def set_ticket_def lane_full_def admit_error_def
  free_lane_def free_ticket_def Let_def

lemma one_waiting_eq:
  "one_waiting =
     \<lparr>lanes = [''c'' \<mapsto> 0],
      lane_at = (\<lambda>_. free_lane)(0 := \<lparr>admit_held = None, entries = [0], users = 1\<rparr>),
      ticket_at = (\<lambda>_. free_ticket)(0 := \<lparr>tk_key = ''c'', tk_position = 1, tk_done = False, tk_once = False\<rparr>),
      max_entries = 4, next_lane = 1, next_ticket = 1\<rparr>"
  by (simp add: waiting_defs)

lemma two_waiting_eq:
  "two_waiting =
     \<lparr>lanes = [''c'' \<mapsto> 0],
      lane_at = (\<lambda>_. free_lane)(0 := \<lparr>admit_held = None, entries = [0, 1], users = 2\<rparr>),
      ticket_at = (\<lambda>_. free_ticket)
        (0 := \<lparr>tk_key = ''c'', tk_position = 1, tk_done = False, tk_once = False\<rparr>,
         1 := \<lparr>tk_key = ''c'', tk_position = 2, tk_done = False, tk_once = False\<rparr>),
      max_entries = 4, next_lane = 1, next_ticket = 2\<rparr>"
  by (simp add: two_waiting_def one_waiting_eq admit_now_def join_lane_def enroll_ticket_def
      set_lane_def set_ticket_def lane_full_def admit_error_def Let_def)

lemma two_waiting_reachable: "reachable True 4 (two_waiting, \<lambda>_. Idle)"
proof -
  let ?q = "the (new_ordered_queue 4)"
  have q: "new_ordered_queue 4 = Some ?q" by (simp add: new_ordered_queue_def)
  have "(qstep True)\<^sup>*\<^sup>* (?q, \<lambda>_. Idle) (one_waiting, \<lambda>_. Idle)"
    unfolding one_waiting_def
    by (rule admit_now_steps [where p = 0])
      (auto simp: new_ordered_queue_def join_lane_def set_lane_def free_lane_def record_allowed_def)
  moreover have "(qstep True)\<^sup>*\<^sup>* (one_waiting, \<lambda>_. Idle) (two_waiting, \<lambda>_. Idle)"
    unfolding two_waiting_def
    by (rule admit_now_steps [where p = 0])
      (auto simp: one_waiting_eq join_lane_def set_lane_def record_allowed_def Let_def)
  ultimately have "(qstep True)\<^sup>*\<^sup>* (?q, \<lambda>_. Idle) (two_waiting, \<lambda>_. Idle)" by (rule rtranclp_trans)
  then show ?thesis using q by (auto simp: reachable_def)
qed

lemma first_runs: "reachable True 4 (two_waiting, (\<lambda>_. Idle)(0 := Waited 0))"
proof (rule reachable_steps [OF two_waiting_reachable])
  have "entries_ahead 0 two_waiting = Some []"
    by (simp add: two_waiting_eq entries_ahead_def)
  then have "qstep True (two_waiting, \<lambda>_. Idle) (two_waiting, (\<lambda>_. Idle)(0 := Waiting 0 []))"
    by (intro st_wait) (simp_all add: two_waiting_eq)
  moreover have "(qstep True)\<^sup>*\<^sup>* (two_waiting, (\<lambda>_. Idle)(0 := Waiting 0 []))
      (two_waiting, (\<lambda>_. Idle)(0 := Waited 0))"
    using st_waited [of "(\<lambda>_. Idle)(0 := Waiting 0 [])" 0 0 True two_waiting] by auto
  ultimately show "(qstep True)\<^sup>*\<^sup>* (two_waiting, \<lambda>_. Idle) (two_waiting, (\<lambda>_. Idle)(0 := Waited 0))"
    by (rule converse_rtranclp_into_rtranclp)
qed

subsection \<open>Properties\<close>

text \<open>
  A lane never holds more entries than the bound the queue was made with, in any interleaving of
  any number of goroutines, and whatever \<open>record\<close> answers.
\<close>

theorem lane_never_overfull:
  assumes "reachable honest bound (q, ph)"
  shows "int (length (entries (lane_at q a))) \<le> bound"
  using reachable_ok [OF assms] by (auto simp: queue_ok_def bound_ok_def)

theorem lane_never_overfull_witness: "int (length (entries (lane_at two_waiting 0))) \<le> 4"
  by (rule lane_never_overfull [OF two_waiting_reachable])

text \<open>
  Every user of a key shares one lane: in every reachable state each goroutine that joined a key
  and has not left it, and each ticket of the key that is not released, is in the lane object the map
  has for the key; the map has a lane exactly for the keys in use, so finished lanes do not accumulate.
\<close>

theorem lanes_are_shared_and_dropped:
  assumes "reachable honest bound (q, ph)"
  shows "(\<forall>p a. uses_lane (ph p) = Some (key, a) \<longrightarrow> lanes q key = Some a) \<and>
         (\<forall>t < next_ticket q. tk_key (ticket_at q t) = key \<longrightarrow> \<not> tk_once (ticket_at q t) \<longrightarrow>
            (\<exists>a. lanes q key = Some a \<and> t \<in> set (entries (lane_at q a)))) \<and>
         (lanes q key \<noteq> None \<longleftrightarrow>
            (\<exists>p a. uses_lane (ph p) = Some (key, a)) \<or>
            (\<exists>t < next_ticket q. tk_key (ticket_at q t) = key \<and> \<not> tk_once (ticket_at q t)))"
proof -
  have ok: "lanes_ok q (uses_lane \<circ> ph)" and t: "tickets_ok q"
    using reachable_ok [OF assms] by (simp_all add: queue_ok_def)
  note D = lanes_okD [OF ok] and T = tickets_okD [OF t]
  have used: "(\<exists>p a. uses_lane (ph p) = Some (key, a)) \<or>
      (\<exists>t < next_ticket q. tk_key (ticket_at q t) = key \<and> \<not> tk_once (ticket_at q t))"
    if l: "lanes q key = Some a" for a
  proof (cases "entries (lane_at q a)")
    case Nil
    then have "card {p. uses_lane (ph p) = Some (key, a)} \<noteq> 0"
      using D(3,4) [OF l] by (simp add: lane_uses_def)
    then have "{p. uses_lane (ph p) = Some (key, a)} \<noteq> {}" by (metis card.empty)
    then show ?thesis by blast
  next
    case (Cons u us)
    then have "u < next_ticket q" "\<not> tk_once (ticket_at q u)" "lanes q (tk_key (ticket_at q u)) = Some a"
      using T(2) [of u a] by auto
    then show ?thesis using D(5) l by blast
  qed
  have "lanes q key = Some a" if "uses_lane (ph p) = Some (key, a)" for p a
    using D(6) [of p key a] that by simp
  moreover have "\<exists>a. lanes q key = Some a \<and> u \<in> set (entries (lane_at q a))"
    if "u < next_ticket q" "tk_key (ticket_at q u) = key" "\<not> tk_once (ticket_at q u)" for u
    using T(2) [of u] T(3) [of u] that by auto
  ultimately show ?thesis using used by blast
qed

theorem lanes_are_shared_and_dropped_witness:
  "lanes two_waiting ''c'' \<noteq> None \<and> lanes two_waiting ''d'' = None"
  using lanes_are_shared_and_dropped [OF two_waiting_reachable, of "''c''"]
    lanes_are_shared_and_dropped [OF two_waiting_reachable, of "''d''"]
  by (auto simp: two_waiting_eq)

text \<open>
  C2.  A lane runs its entries in position order: if \<open>record\<close> keeps the documented rule that positions
  do not decrease, then once \<open>Wait\<close> has returned for a ticket that is not released, no unreleased
  ticket of its lane has an earlier position, and stays so; two tickets of one lane that run at the
  same time have the same position.
\<close>

theorem lane_runs_in_order:
  assumes "reachable True bound (q, ph)" and "ph p = Waited t" and "\<not> tk_once (ticket_at q t)"
    and "u < next_ticket q" and "\<not> tk_once (ticket_at q u)"
    and "tk_key (ticket_at q u) = tk_key (ticket_at q t)"
  shows "tk_position (ticket_at q t) \<le> tk_position (ticket_at q u) \<and>
         (ph r = Waited u \<longrightarrow> tk_position (ticket_at q t) = tk_position (ticket_at q u))"
proof -
  have ord: "phase_ordered q (ph x)" for x
    using reachable_ok [OF assms(1)] by (auto simp: queue_ok_def)
  have t: "clear_but q t []" using ord [of p] assms(2) by simp
  then have le: "tk_position (ticket_at q t) \<le> tk_position (ticket_at q u)"
    using assms(3-6) unfolding clear_but_def by force
  have "tk_position (ticket_at q u) \<le> tk_position (ticket_at q t)" if "ph r = Waited u"
  proof -
    have "clear_but q u []" using ord [of r] that by simp
    then show ?thesis using t assms(3-6) unfolding clear_but_def by force
  qed
  then show ?thesis using le by auto
qed

theorem lane_runs_in_order_witness:
  "tk_position (ticket_at two_waiting 0) \<le> tk_position (ticket_at two_waiting 1)"
  using lane_runs_in_order [OF first_runs, of 0 0 1] by (simp add: two_waiting_eq)

text \<open>
  An unreleased ticket can always be asked and released: its lane is there, so neither
  \<open>Blocked\<close> nor \<open>Wait\<close> nor \<open>Release\<close> dereferences nil, and \<open>Release\<close> takes out exactly that ticket.
\<close>

theorem unreleased_ticket_is_live:
  assumes "reachable honest bound (q, ph)" and "t < next_ticket q" and "\<not> tk_once (ticket_at q t)"
  shows "blocked t q \<noteq> None \<and>
         (\<exists>a q'. remove_entry t q = Some (a, q') \<and> tk_done (ticket_at q' t) \<and>
            set (entries (lane_at q' a)) = set (entries (lane_at q a)) - {t} \<and>
            t \<in> set (entries (lane_at q a)))"
proof -
  have "tickets_ok q" using reachable_ok [OF assms(1)] by (simp add: queue_ok_def)
  note T = tickets_okD [OF this]
  obtain a where l: "lanes q (tk_key (ticket_at q t)) = Some a" using T(3) [OF assms(2,3)] by blast
  then have "t \<in> set (entries (lane_at q a))" using T(2) assms(2,3) by blast
  then show ?thesis
    using l by (auto simp: blocked_def entries_ahead_def remove_entry_def set_lane_def set_ticket_def Let_def)
qed

theorem unreleased_ticket_is_live_witness:
  "\<exists>a q'. remove_entry 1 two_waiting = Some (a, q') \<and> tk_done (ticket_at q' 1)"
  using unreleased_ticket_is_live [OF two_waiting_reachable, of 1] by (auto simp: two_waiting_eq)

text \<open>
  No lane deadlocks: a lane with entries has one that is not blocked, so \<open>Wait\<close> does not wait for
  it.
\<close>

theorem lane_has_a_runnable_entry:
  assumes "reachable honest bound (q, ph)" and "lanes q key = Some a" and "entries (lane_at q a) \<noteq> []"
  shows "\<exists>t \<in> set (entries (lane_at q a)). blocked t q = Some False"
proof -
  have "tickets_ok q" using reachable_ok [OF assms(1)] by (simp add: queue_ok_def)
  note T = tickets_okD [OF this]
  let ?pos = "\<lambda>t. tk_position (ticket_at q t)"
  obtain t where t: "t \<in> set (entries (lane_at q a))" "\<forall>u \<in> set (entries (lane_at q a)). ?pos t \<le> ?pos u"
    using ex_min_if_finite [of "?pos ` set (entries (lane_at q a))"] assms(3)
    by (fastforce simp: not_less)
  have "lanes q (tk_key (ticket_at q t)) = Some a" using T(2) t(1) by blast
  then have "blocked t q = Some False"
    using t(2) by (auto simp: blocked_def entries_ahead_def filter_empty_conv not_less)
  then show ?thesis using t(1) by blast
qed

theorem lane_has_a_runnable_entry_witness: "\<exists>t. blocked t two_waiting = Some False"
  using lane_has_a_runnable_entry [OF two_waiting_reachable, of "''c''" 0]
  by (auto simp: two_waiting_eq)

subsection \<open>A wait ends\<close>

lemma closed_wait_returns:
  assumes "ph p = Waiting t us" and "\<forall>u \<in> set us. tk_done (ticket_at q u)"
  shows "(qstep honest)\<^sup>*\<^sup>* (q, ph) (q, ph(p := Waited t))"
  using assms
proof (induction us arbitrary: ph)
  case Nil
  then show ?case by (blast intro: qstep.st_waited)
next
  case (Cons u us)
  have "qstep honest (q, ph) (q, ph(p := Waiting t us))"
    using Cons.prems by (intro qstep.st_closed) auto
  moreover have "(qstep honest)\<^sup>*\<^sup>* (q, ph(p := Waiting t us)) (q, (ph(p := Waiting t us))(p := Waited t))"
    using Cons.prems by (intro Cons.IH) auto
  ultimately show ?case by (metis converse_rtranclp_into_rtranclp fun_upd_upd)
qed

text \<open>One goroutine releases a ticket: the ticket's channel is closed, no other ticket changes, and it is idle again.\<close>

definition released :: "ordered_queue \<Rightarrow> ordered_queue \<Rightarrow> nat set \<Rightarrow> bool" where
  "released q q' us \<longleftrightarrow>
     next_ticket q' = next_ticket q \<and>
     (\<forall>u. tk_key (ticket_at q' u) = tk_key (ticket_at q u) \<and> tk_position (ticket_at q' u) = tk_position (ticket_at q u) \<and>
          tk_once (ticket_at q' u) = (tk_once (ticket_at q u) \<or> u \<in> us))"

lemma release_one:
  assumes "reachable honest bound (q, ph)" and "ph r = Idle" and "u < next_ticket q" and "\<not> tk_once (ticket_at q u)"
  shows "\<exists>q'. (qstep honest)\<^sup>*\<^sup>* (q, ph) (q', ph) \<and> released q q' {u}"
proof -
  obtain a q1 where m: "remove_entry u q = Some (a, q1)"
    using unreleased_ticket_is_live [OF assms(1,3,4)] by blast
  let ?key = "tk_key (ticket_at q u)"
  have "qstep honest (q, ph) (q1, ph(r := Leaving ?key a))"
    using assms(2-4) m by (intro qstep.st_release) auto
  moreover have "qstep honest (q1, ph(r := Leaving ?key a)) (leave_lane ?key a q1, ph)"
    using qstep.st_leave [of "ph(r := Leaving ?key a)" r ?key a honest q1] assms(2) by (simp add: fun_upd_idem)
  moreover have "released q (leave_lane ?key a q1) {u}"
    using remove_frame [OF m] by (simp add: released_def leave_frame)
  ultimately show ?thesis by (meson r_into_rtranclp rtranclp.rtrancl_into_rtrancl)
qed

lemma release_all:
  "reachable honest bound (q, ph) \<Longrightarrow> ph r = Idle \<Longrightarrow> distinct us \<Longrightarrow>
   \<forall>u \<in> set us. u < next_ticket q \<and> \<not> tk_once (ticket_at q u) \<Longrightarrow>
   \<exists>q'. (qstep honest)\<^sup>*\<^sup>* (q, ph) (q', ph) \<and> released q q' (set us)"
proof (induction us arbitrary: q)
  case Nil
  then show ?case by (auto simp: released_def)
next
  case (Cons u us)
  obtain q1 where q1: "(qstep honest)\<^sup>*\<^sup>* (q, ph) (q1, ph)" "released q q1 {u}"
    using release_one [OF Cons.prems(1,2), of u] Cons.prems(4) by auto
  have "\<forall>x \<in> set us. x < next_ticket q1 \<and> \<not> tk_once (ticket_at q1 x)"
    using q1(2) Cons.prems(3,4) by (auto simp: released_def)
  then obtain q2 where q2: "(qstep honest)\<^sup>*\<^sup>* (q1, ph) (q2, ph)" "released q1 q2 (set us)"
    using Cons.IH [of q1] reachable_steps [OF Cons.prems(1) q1(1)] Cons.prems(2,3) by auto
  moreover have "released q q2 (set (u # us))" using q1(2) q2(2) by (auto simp: released_def)
  ultimately show ?case using q1(1) by (meson rtranclp_trans)
qed

text \<open>
  C30.  \<open>Wait\<close> returns when what is ahead has been released, and needs nothing else.  In every reachable state a goroutine
  that calls \<open>Wait\<close> for an unreleased ticket waits for exactly the unreleased tickets of its lane with an earlier
  position; when another goroutine releases those, and none besides, \<open>Wait\<close> returns without an error, so that neither the
  ticket itself nor one that shares its position holds it back.
\<close>

theorem wait_returns:
  assumes "reachable honest bound (q, ph)" and "ph p = Idle" and "ph r = Idle" and "r \<noteq> p"
    and "t < next_ticket q" and "\<not> tk_once (ticket_at q t)"
  shows "\<exists>ahead q'. qstep honest (q, ph) (q, ph(p := Waiting t ahead)) \<and>
     set ahead = {u. u < next_ticket q \<and> \<not> tk_once (ticket_at q u) \<and> tk_key (ticket_at q u) = tk_key (ticket_at q t) \<and>
                     tk_position (ticket_at q u) < tk_position (ticket_at q t)} \<and>
     (qstep honest)\<^sup>*\<^sup>* (q, ph(p := Waiting t ahead)) (q', ph(p := Waited t)) \<and>
     released q q' (set ahead)"
proof -
  have ok: "lanes_ok q (uses_lane \<circ> ph)" and "tickets_ok q" using reachable_ok [OF assms(1)] by (simp_all add: queue_ok_def)
  note D = lanes_okD [OF ok] and T = tickets_okD [OF \<open>tickets_ok q\<close>]
  obtain a where l: "lanes q (tk_key (ticket_at q t)) = Some a" using T(3) [OF assms(5,6)] by blast
  define ahead where "ahead = filter (\<lambda>u. tk_position (ticket_at q u) < tk_position (ticket_at q t)) (entries (lane_at q a))"
  have e: "entries_ahead t q = Some ahead" by (simp add: entries_ahead_def l ahead_def)
  let ?ph = "ph(p := Waiting t ahead)"
  have wait: "qstep honest (q, ph) (q, ?ph)" using assms(2,5) e by (rule qstep.st_wait)
  have lane: "tk_key (ticket_at q u) = tk_key (ticket_at q t) \<longleftrightarrow> lanes q (tk_key (ticket_at q u)) = Some a" for u
    using l D(5) by auto
  have set: "set ahead = {u. u < next_ticket q \<and> \<not> tk_once (ticket_at q u) \<and>
      tk_key (ticket_at q u) = tk_key (ticket_at q t) \<and> tk_position (ticket_at q u) < tk_position (ticket_at q t)}"
    by (auto simp: ahead_def T(2) lane)
  have reach: "reachable honest bound (q, ?ph)" using reachable_steps [OF assms(1)] wait by blast
  have "distinct ahead" using T(1) by (simp add: ahead_def)
  then obtain q' where q': "(qstep honest)\<^sup>*\<^sup>* (q, ?ph) (q', ?ph)" "released q q' (set ahead)"
    using release_all [OF reach, of r ahead] assms(3,4) set by auto
  have "tickets_ok q'" using reachable_ok [OF reachable_steps [OF reach q'(1)]] by (simp add: queue_ok_def)
  then have "\<forall>u \<in> set ahead. tk_done (ticket_at q' u)"
    using q'(2) tickets_okD(4) [OF \<open>tickets_ok q'\<close>] by (simp add: released_def)
  then have "(qstep honest)\<^sup>*\<^sup>* (q', ?ph) (q', ?ph(p := Waited t))"
    by (intro closed_wait_returns) simp_all
  then have "(qstep honest)\<^sup>*\<^sup>* (q, ?ph) (q', ph(p := Waited t))" using q'(1) by (metis fun_upd_upd rtranclp_trans)
  then show ?thesis using wait set q'(2) by blast
qed

theorem wait_returns_witness:
  "\<exists>q'. (qstep True)\<^sup>*\<^sup>* (two_waiting, \<lambda>_. Idle) (q', (\<lambda>_. Idle)(0 := Waited 1)) \<and>
     tk_once (ticket_at q' 0) \<and> \<not> tk_once (ticket_at q' 1)"
proof -
  have t: "1 < next_ticket two_waiting" "\<not> tk_once (ticket_at two_waiting 1)" by (simp_all add: two_waiting_eq)
  obtain ahead q' where w: "qstep True (two_waiting, \<lambda>_. Idle) (two_waiting, (\<lambda>_. Idle)(0 := Waiting 1 ahead))" and
    a: "set ahead = {u. u < next_ticket two_waiting \<and> \<not> tk_once (ticket_at two_waiting u) \<and>
      tk_key (ticket_at two_waiting u) = tk_key (ticket_at two_waiting 1) \<and>
      tk_position (ticket_at two_waiting u) < tk_position (ticket_at two_waiting 1)}" and
    r: "(qstep True)\<^sup>*\<^sup>* (two_waiting, (\<lambda>_. Idle)(0 := Waiting 1 ahead)) (q', (\<lambda>_. Idle)(0 := Waited 1))"
    "released two_waiting q' (set ahead)"
    using wait_returns [OF two_waiting_reachable refl refl one_neq_zero t] by blast
  have "set ahead = {0}" unfolding a by (auto simp: two_waiting_eq less_Suc_eq numeral_2_eq_2)
  then have "tk_once (ticket_at q' 0) \<and> \<not> tk_once (ticket_at q' 1)"
    using r(2) by (simp add: released_def two_waiting_eq)
  then show ?thesis using w r(1) by (meson converse_rtranclp_into_rtranclp)
qed

end
