(* ===== verification/Running_Sends.thy ===== *)
theory Running_Sends
  imports Prelude
begin

section \<open>Running sends\<close>

text \<open>
  \<open>dokja_orch/internal/core/running_sends.go\<close>: which sends are being answered, so that one can be
  stopped from another request.  \<open>Track\<close> makes a new cancel function each time, and its address is
  the attempt's identity; \<open>cancelled\<close> holds why an attempt's context ended.  The first cancellation of
  a context decides its cause, as \<open>context.WithCancelCause\<close> documents.
\<close>

subsection \<open>State and operations\<close>

definition ErrSendStopped :: gerror where
  "ErrSendStopped = Sentinel ''the owner stopped this send''"

definition context_canceled :: gerror where
  "context_canceled = Sentinel ''context canceled''"

type_synonym running_send = "string \<times> string"

record running_sends =
  stops :: "running_send \<rightharpoonup> nat"
  cancelled :: "nat \<rightharpoonup> gerror"
  next_attempt :: nat

definition new_running_sends :: running_sends where
  "new_running_sends = \<lparr>stops = Map.empty, cancelled = Map.empty, next_attempt = 0\<rparr>"

text \<open>\<open>cancel(cause)\<close>: without a cause the context's own \<open>Canceled\<close> is the cause.\<close>

definition cancel_attempt :: "nat \<Rightarrow> gerror option \<Rightarrow> running_sends \<Rightarrow> running_sends" where
  "cancel_attempt a cause r =
     (if cancelled r a \<noteq> None then r
      else r\<lparr>cancelled := (cancelled r)(a \<mapsto> (case cause of None \<Rightarrow> context_canceled | Some e \<Rightarrow> e))\<rparr>)"

definition track :: "string \<Rightarrow> string \<Rightarrow> running_sends \<Rightarrow> nat \<times> running_sends" where
  "track conversation_id send_id r =
     (let a = next_attempt r
      in (a, r\<lparr>stops := (stops r)((conversation_id, send_id) \<mapsto> a), next_attempt := Suc a\<rparr>))"

text \<open>The function \<open>Track\<close> returns, for the attempt \<open>a\<close> it was made for.\<close>

definition done_attempt :: "string \<Rightarrow> string \<Rightarrow> nat \<Rightarrow> running_sends \<Rightarrow> running_sends" where
  "done_attempt conversation_id send_id a r =
     (let r1 = (if stops r (conversation_id, send_id) = Some a
                then r\<lparr>stops := (stops r)((conversation_id, send_id) := None)\<rparr> else r)
      in cancel_attempt a None r1)"

definition stop_send :: "string \<Rightarrow> string \<Rightarrow> running_sends \<Rightarrow> bool \<times> running_sends" where
  "stop_send conversation_id send_id r =
     (case stops r (conversation_id, send_id) of
        None \<Rightarrow> (False, r)
      | Some a \<Rightarrow> (True, cancel_attempt a (Some ErrSendStopped) r))"

subsection \<open>Runs\<close>

text \<open>What callers may do: track a send, finish one of its attempts, or stop it.\<close>

datatype send_op =
    Track_Send string string
  | Done_Send string string nat
  | Stop_Send string string

fun send_step :: "send_op \<Rightarrow> running_sends \<Rightarrow> running_sends" where
  "send_step (Track_Send c s) r = snd (track c s r)"
| "send_step (Done_Send c s a) r = done_attempt c s a r"
| "send_step (Stop_Send c s) r = snd (stop_send c s r)"

definition run_sends :: "send_op list \<Rightarrow> running_sends \<Rightarrow> running_sends" where
  "run_sends ops r = foldl (\<lambda>r op. send_step op r) r ops"

text \<open>
  An attempt that stands in the map was tracked and is alive unless a stop ended it; only attempts that
  were tracked are ever cancelled, when the callers finish only those.
\<close>

definition sends_ok :: "running_sends \<Rightarrow> bool" where
  "sends_ok r \<longleftrightarrow>
     (\<forall>k a. stops r k = Some a \<longrightarrow> a < next_attempt r \<and> cancelled r a \<in> {None, Some ErrSendStopped}) \<and>
     (\<forall>a \<ge> next_attempt r. cancelled r a = None) \<and>
     (\<forall>k k' a. stops r k = Some a \<longrightarrow> stops r k' = Some a \<longrightarrow> k = k')"

definition op_ok :: "running_sends \<Rightarrow> send_op \<Rightarrow> bool" where
  "op_ok r op =
     (case op of
        Done_Send c s a \<Rightarrow> a < next_attempt r \<and> (\<forall>k. stops r k = Some a \<longrightarrow> k = (c, s))
      | _ \<Rightarrow> True)"

lemma sends_ok_new: "sends_ok new_running_sends"
  by (simp add: sends_ok_def new_running_sends_def)

lemma cancel_frame [simp]:
  "stops (cancel_attempt a cause r) = stops r" "next_attempt (cancel_attempt a cause r) = next_attempt r"
  "cancelled (cancel_attempt a cause r) b =
     (if b = a \<and> cancelled r a = None then Some (case cause of None \<Rightarrow> context_canceled | Some e \<Rightarrow> e)
      else cancelled r b)"
  by (auto simp: cancel_attempt_def)

lemma sends_okD:
  assumes "sends_ok r"
  shows "stops r k = Some a \<Longrightarrow> a < next_attempt r"
    and "stops r k = Some a \<Longrightarrow> cancelled r a \<in> {None, Some ErrSendStopped}"
    and "next_attempt r \<le> a \<Longrightarrow> cancelled r a = None"
    and "stops r k = Some a \<Longrightarrow> stops r k' = Some a \<Longrightarrow> k = k'"
  using assms unfolding sends_ok_def by blast+

lemma sends_okI:
  assumes "\<And>k a. stops r k = Some a \<Longrightarrow> a < next_attempt r \<and> cancelled r a \<in> {None, Some ErrSendStopped}"
    and "\<And>a. next_attempt r \<le> a \<Longrightarrow> cancelled r a = None"
    and "\<And>k k' a. stops r k = Some a \<Longrightarrow> stops r k' = Some a \<Longrightarrow> k = k'"
  shows "sends_ok r"
  using assms unfolding sends_ok_def by blast

lemma track_ok:
  assumes "sends_ok r"
  shows "sends_ok (snd (track c s r))"
proof (rule sends_okI)
  note D = sends_okD [OF assms]
  fix k k' :: running_send and a
  show "next_attempt (snd (track c s r)) \<le> a \<Longrightarrow> cancelled (snd (track c s r)) a = None"
    using D(3) by (simp add: track_def Let_def)
  assume k: "stops (snd (track c s r)) k = Some a"
  then show "a < next_attempt (snd (track c s r)) \<and> cancelled (snd (track c s r)) a \<in> {None, Some ErrSendStopped}"
    using D(1,2) [of k a] D(3) by (auto simp: track_def Let_def split: if_splits)
  assume "stops (snd (track c s r)) k' = Some a"
  then show "k = k'"
    using k D(1) [of k a] D(1) [of k' a] D(4) [of k a k'] by (auto simp: track_def Let_def split: if_splits)
qed

lemma stop_ok:
  assumes "sends_ok r"
  shows "sends_ok (snd (stop_send c s r))"
proof (cases "stops r (c, s)")
  case (Some b)
  note D = sends_okD [OF assms]
  have b: "b < next_attempt r" using D(1) Some by blast
  show ?thesis
    unfolding sends_ok_def
  proof (intro conjI allI impI)
    fix a assume "next_attempt (snd (stop_send c s r)) \<le> a"
    then show "cancelled (snd (stop_send c s r)) a = None" using D(3) b Some by (auto simp: stop_send_def)
  qed (use D(1,2,4) Some in \<open>auto simp: stop_send_def simp del: split_paired_All\<close>)
qed (simp add: stop_send_def assms)

lemma done_ok:
  assumes "sends_ok r" and a: "a < next_attempt r" and only: "\<And>k. stops r k = Some a \<Longrightarrow> k = (c, s)"
  shows "sends_ok (done_attempt c s a r)"
proof (rule sends_okI)
  note D = sends_okD [OF assms(1)]
  have in_map: "stops r k = Some b \<and> b \<noteq> a" if "stops (done_attempt c s a r) k = Some b" for k b
    using that only [of k] by (auto simp: done_attempt_def Let_def split: if_splits)
  fix k k' :: running_send and b
  show "next_attempt (done_attempt c s a r) \<le> b \<Longrightarrow> cancelled (done_attempt c s a r) b = None"
    using D(3) a by (auto simp: done_attempt_def Let_def split: if_splits)
  assume k: "stops (done_attempt c s a r) k = Some b"
  then show "b < next_attempt (done_attempt c s a r) \<and> cancelled (done_attempt c s a r) b \<in> {None, Some ErrSendStopped}"
    using D(1,2) [of k b] in_map [OF k] by (auto simp: done_attempt_def Let_def)
  show "stops (done_attempt c s a r) k' = Some b \<Longrightarrow> k = k'"
    using D(4) in_map k by blast
qed

lemma sends_ok_step: "sends_ok r \<Longrightarrow> op_ok r op \<Longrightarrow> sends_ok (send_step op r)"
  by (cases op) (auto simp: track_ok stop_ok op_ok_def intro: done_ok)

subsection \<open>Properties\<close>

text \<open>
  A retry replaces the attempt that can be stopped: after a send is tracked again, finishing the
  older attempt ends that attempt only; the send still counts as running, and stopping it ends the newer
  attempt with the owner's stop as the cause, whatever happened to the older one.
\<close>

theorem retry_stays_stoppable:
  assumes ok: "sends_ok r" and old: "stops r (c, s) = Some old"
    and tr: "track c s r = (a, r1)"
    and st: "stop_send c s (done_attempt c s old r1) = (running, r2)"
  shows "running \<and> a \<noteq> old \<and> cancelled r2 a = Some ErrSendStopped \<and> cancelled r2 old \<noteq> None"
proof -
  have a: "a = next_attempt r" "old < a" "cancelled r a = None"
    using ok old tr by (auto simp: sends_ok_def track_def Let_def)
  then show ?thesis
    using tr st
    by (auto simp: track_def done_attempt_def stop_send_def cancel_attempt_def Let_def split: if_splits)
qed

theorem retry_stays_stoppable_witness:
  "cancelled (snd (stop_send ''c'' ''s'' (done_attempt ''c'' ''s'' 0
      (snd (track ''c'' ''s'' (snd (track ''c'' ''s'' new_running_sends))))))) 1 = Some ErrSendStopped"
proof -
  let ?r = "snd (track ''c'' ''s'' new_running_sends)"
  have "sends_ok ?r"
    using sends_ok_step [OF sends_ok_new, of "Track_Send ''c'' ''s''"] by (simp add: op_ok_def)
  moreover have "stops ?r (''c'', ''s'') = Some 0" and "fst (track ''c'' ''s'' ?r) = 1"
    by (simp_all add: track_def new_running_sends_def)
  ultimately show ?thesis
    using retry_stays_stoppable [of ?r "''c''" "''s''" 0 1 "snd (track ''c'' ''s'' ?r)"
        "fst (stop_send ''c'' ''s'' (done_attempt ''c'' ''s'' 0 (snd (track ''c'' ''s'' ?r))))"]
    by (metis prod.collapse)
qed

end
