(* ===== verification/Task_Runner.thy ===== *)
theory Task_Runner
  imports Events Go_Text Go_Duration "HOL-Library.Word"
begin

section \<open>The task runner\<close>

text \<open>
  \<open>dokja_orch/internal/core/task.go\<close> and \<open>task_runner.go\<close>: one attempt of a typed workflow.  Values
  are copied by the code wherever they cross between the runner and a step, so a record here is the
  value.  Three things come from outside: what \<open>ctx.Err()\<close> is at each of the runner's checks, how
  long each step takes, and the length of a value's JSON encoding (a payload may hold a value of any
  Go type, and \<open>encodedSize\<close> is the largest int when it cannot be encoded).
\<close>

subsection \<open>Data\<close>

datatype task_status =
    TaskCreated | TaskRunning | TaskCompleted | TaskStopped | TaskFailed | TaskCancelled

text \<open>A step may answer any text as its disposition; these are the four the runner knows.\<close>

abbreviation "StepContinue \<equiv> ''continue''"
abbreviation "StepStop \<equiv> ''stop''"
abbreviation "StepAbstain \<equiv> ''abstain''"
abbreviation "StepFail \<equiv> ''fail''"

abbreviation "ReasonDeadlineExceeded \<equiv> ''deadline_exceeded''"
abbreviation "ReasonCancelled \<equiv> ''cancelled''"
abbreviation "ReasonStepLimit \<equiv> ''step_limit''"
abbreviation "ReasonEvidenceLimit \<equiv> ''evidence_limit''"
abbreviation "ReasonProposalLimit \<equiv> ''proposal_limit''"
abbreviation "ReasonSizeLimit \<equiv> ''size_limit''"
abbreviation "ReasonStepError \<equiv> ''step_error''"
abbreviation "ReasonInvalidResult \<equiv> ''invalid_step_result''"
abbreviation "ReasonAbstained \<equiv> ''abstained''"
abbreviation "ReasonOutcomeUnknown \<equiv> ''outcome_unknown''"
abbreviation "ReasonTerminal \<equiv> ''task_terminal''"

record task_scope =
  sc_source :: string
  sc_actor :: string
  sc_channel :: string
  sc_session :: string

record evidence =
  evd_ref :: string
  evd_capability :: string
  evd_version :: string
  evd_observed_at :: int
  evd_scope :: task_scope
  evd_reason :: string

record proposal =
  pp_action_id :: string
  pp_domain :: domain
  pp_decision :: string
  pp_evidence_refs :: "string list"
  pp_preconditions :: "string list"
  pp_reason :: string

record receipt =
  rcp_action_id :: string
  rcp_step :: string
  rcp_status :: string
  rcp_at :: int

record step_record =
  sr_name :: string
  sr_domain :: domain
  sr_action :: string
  sr_disposition :: string
  sr_reason :: string
  sr_degraded :: bool
  sr_dropped :: int
  sr_unscoped :: int
  sr_duration :: int

type_synonym outputs = "string \<rightharpoonup> gmap"

record step_input =
  in_attempt_id :: string
  in_task_id :: string
  in_goal :: string
  in_scope :: task_scope
  in_payload :: gmap
  in_evidence :: "evidence list"
  in_proposals :: "proposal list"
  in_outputs :: outputs

record step_result =
  so_disposition :: string
  so_reason :: string
  so_evidence :: "evidence list"
  so_proposals :: "proposal list"
  so_receipts :: "receipt list"
  so_output :: "gmap option"

text \<open>A step acts on the world \<open>'w\<close> the steps share; \<open>None\<close> is a nil function.\<close>

type_synonym 'w step_func = "step_input \<Rightarrow> 'w \<Rightarrow> 'w \<times> step_result \<times> gerror option"

record 'w task_step =
  ts_name :: string
  ts_domain :: domain
  ts_action :: string
  ts_optional :: bool
  ts_continue_on_abstain :: bool
  ts_run :: "'w step_func option"

record 'w typed_workflow =
  tw_name :: string
  tw_version :: string
  tw_goal :: string
  tw_deadline :: int
  tw_steps :: "'w task_step list"

record task_limits =
  MaxSteps :: int
  MaxEvidence :: int
  MaxProposals :: int
  MaxBytes :: int

definition prototype_task_limits :: task_limits where
  "prototype_task_limits = \<lparr>MaxSteps = 16, MaxEvidence = 32, MaxProposals = 8, MaxBytes = 64 * 1024\<rparr>"

record task_result =
  tr_task_id :: string
  tr_attempt_id :: string
  tr_event_id :: string
  tr_workflow :: string
  tr_version :: string
  tr_scope :: task_scope
  tr_deadline :: int
  tr_status :: task_status
  tr_reason :: string
  tr_summary :: string
  tr_steps :: "step_record list"
  tr_evidence :: "evidence list"
  tr_proposals :: "proposal list"
  tr_receipts :: "receipt list"
  tr_outputs :: outputs

record workspace =
  wk_result :: task_result
  wk_goal :: string
  wk_payload :: gmap
  wk_payload_bytes :: int
  wk_domains :: "domain list"
  wk_limits :: task_limits
  wk_terminal :: bool

text \<open>What comes from outside.  A context ends with its deadline or because it was cancelled.\<close>

datatype ctx_end = DeadlineExceeded | Canceled

record task_env =
  env_err :: "nat \<Rightarrow> ctx_end option"
  env_duration :: "nat \<Rightarrow> int"
  env_deadline :: int
  env_task_id :: string
  env_attempt_id :: string
  env_payload_size :: "gmap \<Rightarrow> int"
  env_result_size :: "evidence list \<Rightarrow> proposal list \<Rightarrow> receipt list \<Rightarrow> outputs \<Rightarrow> int"

subsection \<open>Validation\<close>

definition show_int :: "int \<Rightarrow> string" where
  "show_int i = (if i < 0 then CHR ''-'' # show_nat (nat (- i)) else show_nat (nat i))"

definition show_limits :: "task_limits \<Rightarrow> string" where
  "show_limits l =
     ''{MaxSteps:'' @ show_int (MaxSteps l) @ '' MaxEvidence:'' @ show_int (MaxEvidence l)
     @ '' MaxProposals:'' @ show_int (MaxProposals l) @ '' MaxBytes:'' @ show_int (MaxBytes l) @ ''}''"

text \<open>The loop over the steps; \<open>names\<close> are the names seen.\<close>

fun validate_steps :: "string \<Rightarrow> string list \<Rightarrow> 'w task_step list \<Rightarrow> gerror option" where
  "validate_steps wf_name names [] = None"
| "validate_steps wf_name names (st # sts) =
     (if ts_name st = [] \<or> ts_run st = None
      then Some (Errorf (''typed workflow '' @ wf_name @ '' has a step without a name or a function''))
      else if ts_name st \<in> set names
      then Some (Errorf (''typed workflow '' @ wf_name @ '' repeats the step name '' @ go_quote (ts_name st)))
      else validate_steps wf_name (ts_name st # names) sts)"

definition validate_task :: "'w typed_workflow \<Rightarrow> task_limits \<Rightarrow> gerror option" where
  "validate_task flow limits =
     (if tw_name flow = [] \<or> tw_version flow = []
      then Some (Errorf ''typed workflow needs a name and a version'')
      else if tw_deadline flow \<le> 0
      then Some (Errorf (''typed workflow '' @ tw_name flow @ '' needs a positive deadline''))
      else if MaxSteps limits \<le> 0 \<or> MaxEvidence limits \<le> 0 \<or> MaxProposals limits \<le> 0 \<or> MaxBytes limits \<le> 0
      then Some (Errorf (''task limits must all be positive, got '' @ show_limits limits))
      else validate_steps (tw_name flow) [] (tw_steps flow))"

subsection \<open>The workspace\<close>

definition scope_of :: "event \<Rightarrow> task_scope" where
  "scope_of e = \<lparr>sc_source = ev_source e, sc_actor = eu_id (ev_user e), sc_channel = ev_channel e,
                 sc_session = []\<rparr>"

definition no_scope :: task_scope where
  "no_scope = \<lparr>sc_source = [], sc_actor = [], sc_channel = [], sc_session = []\<rparr>"

definition max_task_summary :: nat where
  "max_task_summary = 200"

definition ellipsis :: string where
  "ellipsis = [CHR 0xE2, CHR 0x80, CHR 0xA6]"

definition bounded :: "string \<Rightarrow> string" where
  "bounded text =
     (if length (runes text) \<le> max_task_summary then text
      else string_of_runes (take max_task_summary (runes text)) @ ellipsis)"

definition interrupted :: "ctx_end option \<Rightarrow> (task_status \<times> string) option" where
  "interrupted err =
     (case err of
        Some DeadlineExceeded \<Rightarrow> Some (TaskStopped, ReasonDeadlineExceeded)
      | Some Canceled \<Rightarrow> Some (TaskCancelled, ReasonCancelled)
      | None \<Rightarrow> None)"

definition allowed :: "workspace \<Rightarrow> proposal list \<Rightarrow> bool" where
  "allowed w ps \<longleftrightarrow> list_all (\<lambda>p. pp_domain p \<in> set (wk_domains w)) ps"

definition valid_disposition :: "string \<Rightarrow> bool" where
  "valid_disposition d \<longleftrightarrow> d = StepContinue \<or> d = StepStop \<or> d = StepAbstain \<or> d = StepFail"

definition failure_summary :: "'w task_step \<Rightarrow> gerror option \<Rightarrow> string" where
  "failure_summary st err =
     (case err of
        None \<Rightarrow> ''step '' @ ts_name st @ '' failed''
      | Some e \<Rightarrow> bounded (''step '' @ ts_name st @ '' failed: '' @ err_text e))"

definition input_of :: "workspace \<Rightarrow> step_input" where
  "input_of w =
     (let r = wk_result w in
      \<lparr>in_attempt_id = tr_attempt_id r, in_task_id = tr_task_id r, in_goal = wk_goal w,
       in_scope = tr_scope r, in_payload = wk_payload w, in_evidence = tr_evidence r,
       in_proposals = tr_proposals r, in_outputs = tr_outputs r\<rparr>)"

text \<open>
  \<open>end\<close>: the workspace is closed and its payload released; the result is what the task answers.
\<close>

definition end_task :: "workspace \<Rightarrow> task_status \<Rightarrow> string \<Rightarrow> string \<Rightarrow> workspace" where
  "end_task w status reason summary =
     w\<lparr>wk_terminal := True, wk_payload := Map.empty,
       wk_result := (wk_result w)\<lparr>tr_status := status, tr_reason := reason, tr_summary := bounded summary\<rparr>\<rparr>"

text \<open>The evidence \<open>apply\<close> keeps: of the task's own scope, or of none.\<close>

definition kept_evidence :: "task_scope \<Rightarrow> evidence list \<Rightarrow> evidence list" where
  "kept_evidence scope evs = filter (\<lambda>e. evd_scope e = scope \<or> evd_scope e = no_scope) evs"

definition unscoped_count :: "task_scope \<Rightarrow> evidence list \<Rightarrow> int" where
  "unscoped_count scope evs =
     int (length (filter (\<lambda>e. evd_scope e \<noteq> scope \<and> evd_scope e = no_scope) evs))"

definition merged_result :: "workspace \<Rightarrow> string \<Rightarrow> step_result \<Rightarrow> task_result" where
  "merged_result w step_name out =
     (let r = wk_result w in
      r\<lparr>tr_evidence := tr_evidence r @ kept_evidence (tr_scope r) (so_evidence out),
        tr_proposals := tr_proposals r @ so_proposals out,
        tr_receipts := tr_receipts r @ so_receipts out,
        tr_outputs := (case so_output out of
                         None \<Rightarrow> tr_outputs r | Some m \<Rightarrow> (tr_outputs r)(step_name \<mapsto> m))\<rparr>)"

text \<open>Go's \<open>int\<close> has 64 bits; a sum wraps around.\<close>

definition int64_add :: "int \<Rightarrow> int \<Rightarrow> int" where
  "int64_add a b = sint (word_of_int a + word_of_int b :: 64 word)"

lemma int64_add_small:
  assumes "- (2 ^ 63) \<le> a + b" and "a + b < 2 ^ 63"
  shows "int64_add a b = a + b"
proof -
  have "sint (word_of_int k :: 64 word) = signed_take_bit 63 k" for k by transfer simp
  then have "int64_add a b = signed_take_bit 63 (a + b)"
    by (simp only: int64_add_def of_int_add [symmetric])
  then show ?thesis using signed_take_bit_int_eq_self [of 63 "a + b"] assms by simp
qed

lemma int64_add_overflow:
  assumes "2 ^ 63 \<le> a + b" and "a + b < 2 ^ 64 + 2 ^ 63"
  shows "int64_add a b = a + b - 2 ^ 64"
proof -
  have w: "(word_of_int (k - 2 ^ 64) :: 64 word) = word_of_int k" for k
    using word_of_int_2p [where 'a = 64] by (simp add: of_int_diff)
  have "sint (word_of_int k :: 64 word) = signed_take_bit 63 k" for k by transfer simp
  then have "int64_add a b = signed_take_bit 63 (a + b - 2 ^ 64)"
    using w [of "a + b"] by (metis int64_add_def of_int_add)
  then show ?thesis using signed_take_bit_int_eq_self [of 63 "a + b - 2 ^ 64"] assms by simp
qed

definition result_size :: "task_env \<Rightarrow> task_result \<Rightarrow> int" where
  "result_size env r = env_result_size env (tr_evidence r) (tr_proposals r) (tr_receipts r) (tr_outputs r)"

text \<open>\<open>apply\<close>: the workspace, the evidence dropped and unscoped, and the limit that was broken.\<close>

definition apply_step ::
    "task_env \<Rightarrow> string \<Rightarrow> step_result \<Rightarrow> workspace \<Rightarrow> workspace \<times> int \<times> int \<times> string" where
  "apply_step env step_name out w =
     (if wk_terminal w then (w, 0, 0, ReasonTerminal)
      else
       (let r = wk_result w;
            kept = kept_evidence (tr_scope r) (so_evidence out);
            unscoped = unscoped_count (tr_scope r) (so_evidence out);
            dropped = int (length (so_evidence out)) - int (length kept);
            next = merged_result w step_name out
        in if int (length (tr_evidence r) + length kept) > MaxEvidence (wk_limits w)
           then (w, dropped, unscoped, ReasonEvidenceLimit)
           else if int (length (tr_proposals r) + length (so_proposals out)) > MaxProposals (wk_limits w)
           then (w, dropped, unscoped, ReasonProposalLimit)
           else if int64_add (wk_payload_bytes w) (result_size env next) > MaxBytes (wk_limits w)
           then (w, dropped, unscoped, ReasonSizeLimit)
           else (w\<lparr>wk_result := next\<rparr>, dropped, unscoped, [])))"

subsection \<open>Running\<close>

definition no_step_result :: step_result where
  "no_step_result = \<lparr>so_disposition = [], so_reason = [], so_evidence = [], so_proposals = [],
                     so_receipts = [], so_output = None\<rparr>"

definition add_record :: "step_record \<Rightarrow> workspace \<Rightarrow> workspace" where
  "add_record r w = w\<lparr>wk_result := (wk_result w)\<lparr>tr_steps := tr_steps (wk_result w) @ [r]\<rparr>\<rparr>"

definition new_record :: "'w task_step \<Rightarrow> int \<Rightarrow> step_record" where
  "new_record st duration =
     \<lparr>sr_name = ts_name st, sr_domain = ts_domain st, sr_action = ts_action st, sr_disposition = [],
      sr_reason = [], sr_degraded = False, sr_dropped = 0, sr_unscoped = 0, sr_duration = duration\<rparr>"

text \<open>
  \<open>runStep\<close> waits for the answer or for the context to end.  When the context ends first the answer is
  lost, and the runner's check right after sees that it ended, so the answer matters only otherwise.
  Validation leaves no step without a function.
\<close>

definition run_step :: "'w task_step \<Rightarrow> step_input \<Rightarrow> 'w \<Rightarrow> 'w \<times> step_result \<times> gerror option" where
  "run_step st input s =
     (case ts_run st of
        None \<Rightarrow> (s, no_step_result, Some (Errorf ''nil function''))
      | Some f \<Rightarrow> f input s)"

text \<open>The result of a step as the runner takes it: an error or an invalid answer is a failure.\<close>

definition judged :: "workspace \<Rightarrow> step_result \<Rightarrow> gerror option \<Rightarrow> step_result" where
  "judged w out err =
     (let out1 = (if err \<noteq> None
                  then no_step_result\<lparr>so_disposition := StepFail, so_reason := ReasonStepError\<rparr> else out)
      in if \<not> valid_disposition (so_disposition out1) \<or> \<not> allowed w (so_proposals out1)
         then no_step_result\<lparr>so_disposition := StepFail, so_reason := ReasonInvalidResult\<rparr> else out1)"

text \<open>What follows a step that answered in time: the workspace, and how the task ends if it does.\<close>

definition settle ::
    "task_env \<Rightarrow> 'w task_step \<Rightarrow> int \<Rightarrow> step_result \<Rightarrow> gerror option \<Rightarrow> workspace
       \<Rightarrow> workspace \<times> (task_status \<times> string \<times> string) option" where
  "settle env st duration out0 err w =
     (let out = judged w out0 err;
          rec = (new_record st duration)\<lparr>sr_disposition := so_disposition out, sr_reason := so_reason out\<rparr>
      in if so_disposition out = StepFail
         then if ts_optional st then (add_record (rec\<lparr>sr_degraded := True\<rparr>) w, None)
              else (add_record rec w, Some (TaskFailed, so_reason out, failure_summary st err))
         else
          (let (w1, dropped, unscoped, broken) = apply_step env (ts_name st) out w;
               w2 = add_record (rec\<lparr>sr_dropped := dropped, sr_unscoped := unscoped\<rparr>) w1
           in if broken \<noteq> []
              then (w2, Some (TaskStopped, broken, ''step '' @ ts_name st @ '' exceeded a task limit''))
              else if so_disposition out = StepStop
              then (w2, Some (TaskStopped, so_reason out, ''step '' @ ts_name st @ '' stopped the task''))
              else if so_disposition out = StepAbstain \<and> \<not> ts_continue_on_abstain st
              then (w2, Some (TaskCompleted, ReasonAbstained,
                              ''step '' @ ts_name st @ '' abstained: '' @ so_reason out))
              else (w2, None)))"

text \<open>The loop of \<open>RunTask\<close>; the context is checked before step \<open>i\<close> and again after it.\<close>

fun run_steps ::
    "task_env \<Rightarrow> nat \<Rightarrow> 'w task_step list \<Rightarrow> workspace \<Rightarrow> 'w \<Rightarrow> workspace \<times> 'w" where
  "run_steps env i [] w s = (end_task w TaskCompleted [] [], s)"
| "run_steps env i (st # sts) w s =
     (case interrupted (env_err env (2 * i)) of
        Some (status, reason) \<Rightarrow> (end_task w status reason [], s)
      | None \<Rightarrow>
          if int i \<ge> MaxSteps (wk_limits w)
          then (end_task w TaskStopped ReasonStepLimit
                  (''more than '' @ show_int (MaxSteps (wk_limits w)) @ '' steps''), s)
          else
           (let (s', out, err) = run_step st (input_of w) s;
                duration = env_duration env i
            in case interrupted (env_err env (2 * i + 1)) of
                 Some (status, reason) \<Rightarrow>
                   (end_task (add_record ((new_record st duration)\<lparr>sr_reason := ReasonOutcomeUnknown\<rparr>) w)
                      status reason (''step '' @ ts_name st @ '' did not finish''), s')
               | None \<Rightarrow>
                   (case settle env st duration out err w of
                      (w', Some (status, reason, summary)) \<Rightarrow> (end_task w' status reason summary, s')
                    | (w', None) \<Rightarrow> run_steps env (Suc i) sts w' s')))"

definition start_result :: "task_env \<Rightarrow> event \<Rightarrow> 'w typed_workflow \<Rightarrow> task_result" where
  "start_result env e flow =
     \<lparr>tr_task_id = env_task_id env, tr_attempt_id = env_attempt_id env, tr_event_id = ev_id e,
      tr_workflow = tw_name flow, tr_version = tw_version flow, tr_scope = scope_of e,
      tr_deadline = env_deadline env, tr_status = TaskCreated, tr_reason = [], tr_summary = [],
      tr_steps = [], tr_evidence = [], tr_proposals = [], tr_receipts = [], tr_outputs = Map.empty\<rparr>"

definition start_workspace :: "task_env \<Rightarrow> event \<Rightarrow> 'w typed_workflow \<Rightarrow> task_limits \<Rightarrow> workspace" where
  "start_workspace env e flow limits =
     \<lparr>wk_result = start_result env e flow, wk_goal = tw_goal flow, wk_payload = map_of_nil (ev_payload e),
      wk_payload_bytes = env_payload_size env (map_of_nil (ev_payload e)),
      wk_domains = map ts_domain (tw_steps flow), wk_limits = limits, wk_terminal = False\<rparr>"

definition run_task ::
    "task_env \<Rightarrow> event \<Rightarrow> 'w typed_workflow \<Rightarrow> task_limits \<Rightarrow> 'w \<Rightarrow> task_result res \<times> 'w" where
  "run_task env e flow limits s =
     (case validate_task flow limits of
        Some err \<Rightarrow> (Inl err, s)
      | None \<Rightarrow>
          (let w = start_workspace env e flow limits in
           if wk_payload_bytes w > MaxBytes limits
           then (Inr (wk_result (end_task w TaskStopped ReasonSizeLimit
                   ''the event payload is larger than the task budget'')), s)
           else
            (let (w', s') = run_steps env 0 (tw_steps flow)
                   (w\<lparr>wk_result := (wk_result w)\<lparr>tr_status := TaskRunning\<rparr>\<rparr>) s
             in (Inr (wk_result w'), s'))))"

subsection \<open>Invariants of a task\<close>

text \<open>
  What every ending and every merged answer keeps, a whole run keeps.  The contract of an invariant of
  the workspace: it does not look at how the task ended nor at the records of the steps.
\<close>

locale task_invariant =
  fixes env :: task_env and I :: "workspace \<Rightarrow> bool"
  assumes keep_end: "I w \<Longrightarrow> I (end_task w status reason summary)"
    and keep_record: "I w \<Longrightarrow> I (add_record r w)"
    and keep_apply: "I w \<Longrightarrow> allowed w (so_proposals out) \<Longrightarrow> I (fst (apply_step env step_name out w))"
begin

lemma judged_allowed: "allowed w (so_proposals (judged w out err))"
  by (auto simp: judged_def Let_def allowed_def no_step_result_def)

lemma settle_keeps:
  assumes "I w"
  shows "I (fst (settle env st d out err w))"
proof -
  have "I (fst (apply_step env (ts_name st) (judged w out err) w))"
    by (rule keep_apply [OF assms judged_allowed])
  then show ?thesis
    using assms by (auto simp: settle_def Let_def intro: keep_record split: prod.split)
qed

lemma run_keeps: "I w \<Longrightarrow> I (fst (run_steps env i sts w s))"
proof (induction sts arbitrary: i w s)
  case Nil
  then show ?case by (simp add: keep_end)
next
  case (Cons st sts)
  obtain s' out err where r: "run_step st (input_of w) s = (s', out, err)" by (metis surj_pair)
  obtain w' fin where f: "settle env st (env_duration env i) out err w = (w', fin)" by fastforce
  have "I w'" using settle_keeps [OF Cons.prems, of st "env_duration env i" out err] f by simp
  then show ?case
    using Cons by (auto simp: r f Let_def intro!: keep_end keep_record split: option.split)
qed

end

definition within_limits :: "task_limits \<Rightarrow> workspace \<Rightarrow> bool" where
  "within_limits limits w \<longleftrightarrow>
     wk_limits w = limits \<and>
     int (length (tr_evidence (wk_result w))) \<le> MaxEvidence limits \<and>
     int (length (tr_proposals (wk_result w))) \<le> MaxProposals limits"

definition in_scope :: "task_scope \<Rightarrow> workspace \<Rightarrow> bool" where
  "in_scope scope w \<longleftrightarrow>
     tr_scope (wk_result w) = scope \<and>
     list_all (\<lambda>e. evd_scope e = scope \<or> evd_scope e = no_scope) (tr_evidence (wk_result w))"

definition in_domains :: "domain list \<Rightarrow> workspace \<Rightarrow> bool" where
  "in_domains ds w \<longleftrightarrow>
     wk_domains w = ds \<and> list_all (\<lambda>p. pp_domain p \<in> set ds) (tr_proposals (wk_result w))"

interpretation limits: task_invariant env "within_limits limits" for env limits
  by unfold_locales
    (auto simp: within_limits_def end_task_def add_record_def apply_step_def merged_result_def Let_def)

interpretation scoped: task_invariant env "in_scope scope" for env scope
  by unfold_locales
    (auto simp: in_scope_def end_task_def add_record_def apply_step_def merged_result_def kept_evidence_def
      list_all_iff Let_def)

interpretation routed: task_invariant env "in_domains ds" for env ds
  by unfold_locales
    (auto simp: in_domains_def end_task_def add_record_def apply_step_def merged_result_def allowed_def
      list_all_iff Let_def)

subsection \<open>The records of a run\<close>

lemma apply_step_frame:
  assumes "apply_step env step_name out w = (w', dropped, unscoped, broken)"
  shows "tr_steps (wk_result w') = tr_steps (wk_result w)" "wk_limits w' = wk_limits w"
  using assms by (auto simp: apply_step_def merged_result_def Let_def split: if_splits)

text \<open>A record that is not a failure of the task: the step did not fail, or was optional.\<close>

definition passed :: "step_record \<Rightarrow> bool" where
  "passed rec \<longleftrightarrow> sr_disposition rec \<noteq> StepFail \<or> sr_degraded rec"

lemma settle_record:
  assumes "settle env st d out err w = (w', fin)"
  obtains rec where "tr_steps (wk_result w') = tr_steps (wk_result w) @ [rec]" and "sr_name rec = ts_name st"
    and "wk_limits w' = wk_limits w"
    and "passed rec \<longleftrightarrow> (case fin of Some (TaskFailed, _) \<Rightarrow> False | _ \<Rightarrow> True)"
    and "\<And>reason summary. fin = Some (TaskCompleted, reason, summary) \<Longrightarrow> reason = ReasonAbstained"
proof -
  obtain w1 dropped unscoped broken where
    a: "apply_step env (ts_name st) (judged w out err) w = (w1, dropped, unscoped, broken)"
    by (metis surj_pair)
  let ?rec = "\<lambda>g dr un. (new_record st d)\<lparr>sr_disposition := so_disposition (judged w out err),
      sr_reason := so_reason (judged w out err), sr_degraded := g, sr_dropped := dr, sr_unscoped := un\<rparr>"
  show ?thesis
  proof (cases "so_disposition (judged w out err) = StepFail")
    case True
    then show ?thesis
      using assms by (intro that [of "?rec (ts_optional st) 0 0"])
        (auto simp: settle_def Let_def add_record_def new_record_def passed_def split: if_splits)
  next
    case False
    then show ?thesis
      using assms apply_step_frame [OF a]
      by (intro that [of "?rec False dropped unscoped"])
        (auto simp: settle_def a Let_def add_record_def new_record_def passed_def split: if_splits)
  qed
qed

lemma settle_status:
  "settle env st d out err w = (w', Some (status, reason, summary)) \<Longrightarrow>
   status \<notin> {TaskCreated, TaskRunning}"
  by (auto simp: settle_def Let_def split: if_splits prod.splits)

text \<open>
  How the records of a run of the steps \<open>names\<close>, begun at step \<open>i\<close>, agree with how it ended: they are
  the steps in order, at most the limit; a failed task ends with the one record that did not pass; a
  task that completed without a reason ran every step.
\<close>

definition run_shape :: "string list \<Rightarrow> int \<Rightarrow> nat \<Rightarrow> step_record list \<Rightarrow> task_status \<Rightarrow> string \<Rightarrow> bool" where
  "run_shape names bound i recs status reason \<longleftrightarrow>
     status \<notin> {TaskCreated, TaskRunning} \<and>
     map sr_name recs = take (length recs) names \<and>
     (if recs = [] then True else int (i + length recs) \<le> bound) \<and>
     (if status = TaskFailed then recs \<noteq> [] \<and> list_all passed (butlast recs) \<and> \<not> passed (last recs)
      else list_all passed recs) \<and>
     (if status = TaskCompleted \<and> reason = [] then length recs = length names else True)"

lemma run_shape_step:
  "run_shape names bound (Suc i) recs status reason \<Longrightarrow> passed rec \<Longrightarrow> int i < bound \<Longrightarrow>
   run_shape (sr_name rec # names) bound i (rec # recs) status reason"
  by (auto simp: run_shape_def split: if_splits)

lemma interrupted_status:
  "interrupted err = Some (status, reason) \<Longrightarrow>
   (status = TaskStopped \<or> status = TaskCancelled) \<and> reason \<noteq> []"
  by (auto simp: interrupted_def split: option.splits ctx_end.splits)

lemma end_task_simps [simp]:
  "tr_status (wk_result (end_task w status reason summary)) = status"
  "tr_reason (wk_result (end_task w status reason summary)) = reason"
  "tr_steps (wk_result (end_task w status reason summary)) = tr_steps (wk_result w)"
  by (simp_all add: end_task_def)

lemma run_steps_shape:
  "\<exists>recs. tr_steps (wk_result (fst (run_steps env i sts w s))) = tr_steps (wk_result w) @ recs \<and>
     run_shape (map ts_name sts) (MaxSteps (wk_limits w)) i recs
       (tr_status (wk_result (fst (run_steps env i sts w s))))
       (tr_reason (wk_result (fst (run_steps env i sts w s))))"
proof (induction sts arbitrary: i w s)
  case Nil
  then show ?case by (simp add: run_shape_def)
next
  case (Cons st sts)
  let ?max = "MaxSteps (wk_limits w)"
  obtain s' out err where r: "run_step st (input_of w) s = (s', out, err)" by (metis surj_pair)
  obtain w' fin where f: "settle env st (env_duration env i) out err w = (w', fin)" by fastforce
  obtain rec where rec: "tr_steps (wk_result w') = tr_steps (wk_result w) @ [rec]" "sr_name rec = ts_name st"
    "wk_limits w' = wk_limits w" "passed rec \<longleftrightarrow> (case fin of Some (TaskFailed, _) \<Rightarrow> False | _ \<Rightarrow> True)"
    "\<And>reason summary. fin = Some (TaskCompleted, reason, summary) \<Longrightarrow> reason = ReasonAbstained"
    using settle_record [OF f] by metis
  note go = run_steps.simps(2) [of env i st sts w s, unfolded r Let_def split_conv f]
  consider (before) x where "interrupted (env_err env (2 * i)) = Some x"
    | (limit) "interrupted (env_err env (2 * i)) = None" "?max \<le> int i"
    | (after) x where "interrupted (env_err env (2 * i)) = None" "int i < ?max"
        "interrupted (env_err env (2 * i + 1)) = Some x"
    | (ended) x where "interrupted (env_err env (2 * i)) = None" "int i < ?max"
        "interrupted (env_err env (2 * i + 1)) = None" "fin = Some x"
    | (on) "interrupted (env_err env (2 * i)) = None" "int i < ?max"
        "interrupted (env_err env (2 * i + 1)) = None" "fin = None"
    by (metis not_le option.exhaust)
  then show ?case
  proof cases
    case before
    obtain status reason where x: "x = (status, reason)" by fastforce
    then have "status = TaskStopped \<or> status = TaskCancelled" using before interrupted_status by blast
    then show ?thesis using before x unfolding go
      by (intro exI [of _ "[]"]) (auto simp: run_shape_def)
  next
    case limit
    then show ?thesis unfolding go by (intro exI [of _ "[]"]) (simp add: run_shape_def)
  next
    case after
    obtain status reason where x: "x = (status, reason)" by fastforce
    then have st: "status = TaskStopped \<or> status = TaskCancelled" using after interrupted_status by blast
    let ?rec = "(new_record st (env_duration env i))\<lparr>sr_reason := ReasonOutcomeUnknown\<rparr>"
    have "passed ?rec" and "sr_name ?rec = ts_name st" by (simp_all add: passed_def new_record_def)
    then have "run_shape (map ts_name (st # sts)) ?max i [?rec] status reason"
      using after(2) st by (auto simp: run_shape_def)
    then show ?thesis using after x unfolding go
      by (intro exI [of _ "[?rec]"]) (simp add: add_record_def)
  next
    case ended
    obtain status reason summary where x: "x = (status, reason, summary)" by (metis surj_pair)
    have "run_shape (map ts_name (st # sts)) ?max i [rec] status reason"
      using ended rec(2,4,5) x settle_status [of env st _ out err w w' status reason summary] f
      by (cases status) (auto simp: run_shape_def)
    then show ?thesis using ended x rec(1) unfolding go
      by (intro exI [of _ "[rec]"]) simp
  next
    case on
    obtain recs where
      "tr_steps (wk_result (fst (run_steps env (Suc i) sts w' s'))) = tr_steps (wk_result w') @ recs"
      and sh: "run_shape (map ts_name sts) ?max (Suc i) recs
        (tr_status (wk_result (fst (run_steps env (Suc i) sts w' s'))))
        (tr_reason (wk_result (fst (run_steps env (Suc i) sts w' s'))))"
      using Cons.IH [of "Suc i" w' s'] rec(3) by auto
    then show ?thesis
      using on rec run_shape_step [OF sh, of rec] unfolding go by (intro exI [of _ "rec # recs"]) simp
  qed
qed

lemma run_task_ok:
  assumes "run_task env e flow limits s = (Inr r, s')"
  shows "\<exists>w. r = wk_result w \<and>
           (w = end_task (start_workspace env e flow limits) TaskStopped ReasonSizeLimit
                  ''the event payload is larger than the task budget'' \<or>
            w = fst (run_steps env 0 (tw_steps flow)
                  ((start_workspace env e flow limits)\<lparr>wk_result := (start_result env e flow)\<lparr>tr_status := TaskRunning\<rparr>\<rparr>) s))"
    and "validate_task flow limits = None"
  using assms
  by (auto simp: run_task_def Let_def start_workspace_def split: option.splits if_splits prod.splits)

lemma run_task_invariant:
  assumes "task_invariant env I" and "run_task env e flow limits s = (Inr r, s')"
    and "I (start_workspace env e flow limits)"
    and "I ((start_workspace env e flow limits)\<lparr>wk_result := (start_result env e flow)\<lparr>tr_status := TaskRunning\<rparr>\<rparr>)"
  obtains w where "r = wk_result w" and "I w"
  using run_task_ok(1) [OF assms(2)] task_invariant.keep_end [OF assms(1)]
    task_invariant.run_keeps [OF assms(1)] assms(3,4) that by metis

lemma validate_steps_ok:
  "validate_steps n names sts = None \<longleftrightarrow>
     list_all (\<lambda>st. ts_name st \<noteq> [] \<and> ts_run st \<noteq> None) sts \<and>
     distinct (map ts_name sts) \<and> set (map ts_name sts) \<inter> set names = {}"
  by (induction n names sts rule: validate_steps.induct) auto

lemma validate_task_ok:
  "validate_task flow limits = None \<longleftrightarrow>
     tw_name flow \<noteq> [] \<and> tw_version flow \<noteq> [] \<and> 0 < tw_deadline flow \<and>
     0 < MaxSteps limits \<and> 0 < MaxEvidence limits \<and> 0 < MaxProposals limits \<and> 0 < MaxBytes limits \<and>
     list_all (\<lambda>st. ts_name st \<noteq> [] \<and> ts_run st \<noteq> None) (tw_steps flow) \<and>
     distinct (map ts_name (tw_steps flow))"
  by (auto simp: validate_task_def validate_steps_ok)

lemma run_task_total:
  "validate_task flow limits = None \<Longrightarrow> \<exists>r s'. run_task env e flow limits s = (Inr r, s')"
  by (simp add: run_task_def Let_def case_prod_beta)

text \<open>
  A workflow of two steps for the witnesses: the first reads and brings evidence, the second abstains.
  The world counts the steps that ran.
\<close>

definition example_event :: event where
  "example_event = \<lparr>ev_id = ''1'', ev_timestamp = 1, ev_source = ''desktop'', ev_type = ''knowledge.read'',
     ev_user = \<lparr>eu_id = ''owner'', eu_name = []\<rparr>, ev_channel = ''c'', ev_payload = None, ev_context = None\<rparr>"

definition example_evidence :: "task_scope \<Rightarrow> evidence" where
  "example_evidence scope = \<lparr>evd_ref = ''k1'', evd_capability = ''knowledge'', evd_version = [],
     evd_observed_at = 1, evd_scope = scope, evd_reason = []\<rparr>"

definition example_answer :: step_result where
  "example_answer = \<lparr>so_disposition = StepContinue, so_reason = [],
     so_evidence = [example_evidence no_scope, example_evidence (scope_of example_event)],
     so_proposals = [], so_receipts = [], so_output = None\<rparr>"

definition example_step :: "string \<Rightarrow> step_result \<Rightarrow> nat task_step" where
  "example_step name out = \<lparr>ts_name = name, ts_domain = DomainKnowledge, ts_action = name,
     ts_optional = False, ts_continue_on_abstain = False, ts_run = Some (\<lambda>_ n. (n + 1, out, None))\<rparr>"

definition example_flow :: "nat typed_workflow" where
  "example_flow = \<lparr>tw_name = ''read'', tw_version = ''1'', tw_goal = [], tw_deadline = 10,
     tw_steps = [example_step ''find'' example_answer,
                 example_step ''judge'' (example_answer\<lparr>so_disposition := StepAbstain\<rparr>)]\<rparr>"

definition example_env :: "(nat \<Rightarrow> ctx_end option) \<Rightarrow> int \<Rightarrow> task_env" where
  "example_env err bytes = \<lparr>env_err = err, env_duration = (\<lambda>_. 1), env_deadline = 10, env_task_id = ''t'',
     env_attempt_id = ''a'', env_payload_size = (\<lambda>_. 2), env_result_size = (\<lambda>_ _ _ _. bytes)\<rparr>"

definition example_workspace :: workspace where
  "example_workspace = start_workspace (example_env (\<lambda>_. None) 100) example_event example_flow prototype_task_limits"

lemma example_valid: "validate_task example_flow prototype_task_limits = None"
  by (simp add: validate_task_ok example_flow_def example_step_def prototype_task_limits_def)

lemmas example_defs = example_workspace_def example_env_def example_step_def example_answer_def
  start_workspace_def start_result_def prototype_task_limits_def

subsection \<open>Properties\<close>

text \<open>
  C26.  Whatever the steps answer and whenever the context ends, the result of a task holds no more
  evidence and proposals than its limits allow, only evidence of the task's own scope or without a
  scope, and only proposals for domains the workflow runs.
\<close>

theorem task_result_is_bounded:
  assumes "run_task env e flow limits s = (Inr r, s')"
  shows "int (length (tr_evidence r)) \<le> MaxEvidence limits \<and>
         int (length (tr_proposals r)) \<le> MaxProposals limits \<and>
         tr_scope r = scope_of e \<and>
         evd_scope ` set (tr_evidence r) \<subseteq> {scope_of e, no_scope} \<and>
         pp_domain ` set (tr_proposals r) \<subseteq> ts_domain ` set (tw_steps flow)"
proof -
  have pos: "0 < MaxEvidence limits" "0 < MaxProposals limits"
    using run_task_ok(2) [OF assms] by (simp_all add: validate_task_ok)
  obtain w1 where "r = wk_result w1" "in_scope (scope_of e) w1"
    by (rule run_task_invariant [OF scoped.task_invariant_axioms assms])
      (auto simp: in_scope_def start_workspace_def start_result_def)
  moreover obtain w2 where "r = wk_result w2" "in_domains (map ts_domain (tw_steps flow)) w2"
    by (rule run_task_invariant [OF routed.task_invariant_axioms assms])
      (auto simp: in_domains_def start_workspace_def start_result_def)
  moreover obtain w3 where "r = wk_result w3" "within_limits limits w3"
    by (rule run_task_invariant [OF limits.task_invariant_axioms assms])
      (use pos in \<open>auto simp: within_limits_def start_workspace_def start_result_def\<close>)
  ultimately show ?thesis
    by (auto simp: in_scope_def in_domains_def within_limits_def list_all_iff)
qed

theorem task_result_is_bounded_witness:
  "\<exists>r s'. run_task (example_env (\<lambda>_. None) 100) example_event example_flow prototype_task_limits 0 = (Inr r, s') \<and>
     int (length (tr_evidence r)) \<le> 32 \<and> tr_scope r = scope_of example_event"
proof -
  obtain r s' where r: "run_task (example_env (\<lambda>_. None) 100) example_event example_flow prototype_task_limits 0 = (Inr r, s')"
    using run_task_total [OF example_valid] by blast
  then show ?thesis
    using task_result_is_bounded [OF r] by (auto simp: prototype_task_limits_def)
qed

text \<open>
  The records of a task are its steps, in the workflow's order and each at most once, no more than
  the step limit; a failed task ends with the step that failed and was not optional, and in no other
  task did such a step fail; a task that completed for no special reason ran every step.
\<close>

theorem task_records_its_steps:
  assumes "run_task env e flow limits s = (Inr r, s')"
  shows "map sr_name (tr_steps r) = take (length (tr_steps r)) (map ts_name (tw_steps flow)) \<and>
         distinct (map sr_name (tr_steps r)) \<and>
         int (length (tr_steps r)) \<le> MaxSteps limits \<and>
         (if tr_status r = TaskFailed
          then tr_steps r \<noteq> [] \<and> list_all passed (butlast (tr_steps r)) \<and> \<not> passed (last (tr_steps r))
          else list_all passed (tr_steps r)) \<and>
         (if tr_status r = TaskCompleted \<and> tr_reason r = []
          then length (tr_steps r) = length (tw_steps flow) else True)"
proof -
  let ?w0 = "start_workspace env e flow limits"
  let ?w1 = "?w0\<lparr>wk_result := (start_result env e flow)\<lparr>tr_status := TaskRunning\<rparr>\<rparr>"
  note v = run_task_ok(2) [OF assms, unfolded validate_task_ok]
  have none: "tr_steps (wk_result ?w1) = []" "MaxSteps (wk_limits ?w1) = MaxSteps limits"
    "tr_steps (wk_result ?w0) = []"
    by (simp_all add: start_workspace_def start_result_def)
  have "run_shape (map ts_name (tw_steps flow)) (MaxSteps limits) 0 (tr_steps r) (tr_status r) (tr_reason r)"
  proof -
    consider "r = wk_result (end_task ?w0 TaskStopped ReasonSizeLimit
        ''the event payload is larger than the task budget'')"
      | "r = wk_result (fst (run_steps env 0 (tw_steps flow) ?w1 s))"
      using run_task_ok(1) [OF assms] by blast
    then show ?thesis
    proof cases
      case 1
      then show ?thesis using none v by (simp add: run_shape_def)
    next
      case 2
      then show ?thesis
        using run_steps_shape [of env 0 "tw_steps flow" ?w1 s] none by auto
    qed
  qed
  note sh = this [unfolded run_shape_def, THEN conjunct2]
  have "distinct (map sr_name (tr_steps r))"
    using conjunct1 [OF sh] v by (metis distinct_take)
  then show ?thesis using sh v by (auto split: if_splits)
qed

theorem task_records_its_steps_witness:
  "\<exists>r s'. run_task (example_env (\<lambda>_. None) 100) example_event example_flow prototype_task_limits 0 = (Inr r, s') \<and>
     map sr_name (tr_steps r) = take (length (tr_steps r)) [''find'', ''judge'']"
proof -
  obtain r s' where r: "run_task (example_env (\<lambda>_. None) 100) example_event example_flow prototype_task_limits 0 = (Inr r, s')"
    using run_task_total [OF example_valid] by blast
  then show ?thesis
    using task_records_its_steps [OF r] by (auto simp: example_flow_def example_step_def)
qed

text \<open>
  An answer that comes after the deadline or the cancellation is discarded: when the context ended
  while a step ran, the task ends with the evidence, proposals, receipts and outputs it had, the step is
  recorded with an unknown outcome, the status says why the context ended, and no later step runs.
\<close>

theorem late_answer_is_discarded:
  assumes "env_err env (2 * i) = None" and "int i < MaxSteps (wk_limits w)"
    and late: "env_err env (2 * i + 1) = Some why"
    and f: "ts_run st = Some f"
  shows "case run_steps env i (st # sts) w s of (w', s') \<Rightarrow>
     tr_evidence (wk_result w') = tr_evidence (wk_result w) \<and>
     tr_proposals (wk_result w') = tr_proposals (wk_result w) \<and>
     tr_receipts (wk_result w') = tr_receipts (wk_result w) \<and>
     tr_outputs (wk_result w') = tr_outputs (wk_result w) \<and>
     (\<exists>rec. tr_steps (wk_result w') = tr_steps (wk_result w) @ [rec] \<and> sr_name rec = ts_name st \<and>
            sr_reason rec = ReasonOutcomeUnknown) \<and>
     tr_status (wk_result w') = (if why = DeadlineExceeded then TaskStopped else TaskCancelled) \<and>
     s' = fst (f (input_of w) s)"
proof -
  obtain s1 out err where "f (input_of w) s = (s1, out, err)" by (metis surj_pair)
  then show ?thesis
    using assms
    by (cases why)
      (simp_all add: run_step_def interrupted_def end_task_def add_record_def new_record_def Let_def)
qed

theorem late_answer_is_discarded_witness:
  "case run_steps (example_env (\<lambda>n. if n = 0 then None else Some Canceled) 100) 0
      [example_step ''find'' example_answer, example_step ''judge'' example_answer] example_workspace 0 of (w', s') \<Rightarrow>
     tr_evidence (wk_result w') = [] \<and> tr_status (wk_result w') = TaskCancelled \<and> s' = 1"
proof -
  let ?env = "example_env (\<lambda>n. if n = 0 then None else Some Canceled) 100"
  have "env_err ?env (2 * 0) = None" and "env_err ?env (2 * 0 + 1) = Some Canceled"
    by (simp_all add: example_env_def)
  moreover have "int 0 < MaxSteps (wk_limits example_workspace)"
    and "tr_evidence (wk_result example_workspace) = []"
    and "ts_run (example_step ''find'' example_answer) = Some (\<lambda>_ n. (n + 1, example_answer, None))"
    by (simp_all add: example_defs)
  ultimately show ?thesis
    using late_answer_is_discarded [where env = ?env and i = 0 and w = example_workspace and why = Canceled and st = "example_step ''find'' example_answer"
        and f = "\<lambda>_ n. (n + 1, example_answer, None)" and sts = "[example_step ''judge'' example_answer]" and s = 0]
    by (auto simp del: run_steps.simps split: prod.splits)
qed

text \<open>
  Merging is all or nothing: an answer that breaks a limit, or comes to a closed workspace, changes
  nothing; any other is merged, and then the evidence and the proposals are within their limits and,
  if the sizes do not overflow, the payload and the result are within the budget.
\<close>

theorem apply_is_all_or_nothing:
  assumes "apply_step env step_name out w = (w', dropped, unscoped, broken)"
    and "0 \<le> wk_payload_bytes w" and "wk_payload_bytes w < 2 ^ 62"
    and "0 \<le> result_size env (merged_result w step_name out)"
    and "result_size env (merged_result w step_name out) < 2 ^ 62"
  shows "if broken = []
         then w' = w\<lparr>wk_result := merged_result w step_name out\<rparr> \<and> \<not> wk_terminal w \<and>
              int (length (tr_evidence (wk_result w'))) \<le> MaxEvidence (wk_limits w) \<and>
              int (length (tr_proposals (wk_result w'))) \<le> MaxProposals (wk_limits w) \<and>
              wk_payload_bytes w' + result_size env (wk_result w') \<le> MaxBytes (wk_limits w) \<and>
              dropped = int (length (so_evidence out)) - int (length (kept_evidence (tr_scope (wk_result w)) (so_evidence out)))
         else w' = w"
proof -
  have "int64_add (wk_payload_bytes w) (result_size env (merged_result w step_name out))
      = wk_payload_bytes w + result_size env (merged_result w step_name out)"
    using assms(2-) by (intro int64_add_small) simp_all
  then show ?thesis
    using assms(1) by (auto simp: apply_step_def merged_result_def Let_def split: if_splits)
qed

theorem apply_is_all_or_nothing_witness:
  "case apply_step (example_env (\<lambda>_. None) 100) ''find'' example_answer example_workspace of (w', dropped, unscoped, broken) \<Rightarrow>
     (if broken = [] then w' = example_workspace\<lparr>wk_result := merged_result example_workspace ''find'' example_answer\<rparr>
      else w' = example_workspace)"
proof -
  obtain w' dropped unscoped broken where a:
    "apply_step (example_env (\<lambda>_. None) 100) ''find'' example_answer example_workspace = (w', dropped, unscoped, broken)"
    by (metis surj_pair)
  have size: "result_size (example_env (\<lambda>_. None) 100) r = 100" for r
    by (simp add: result_size_def example_env_def)
  have "wk_payload_bytes example_workspace = 2" by (simp add: example_defs)
  then show ?thesis
    using apply_is_all_or_nothing [OF a] size by (auto simp: a)
qed

text \<open>
  The budget has a hole: an answer whose JSON cannot be encoded counts as the largest int, the sum
  with the payload's size wraps around to a negative number, and the answer is merged; the same answer
  to a task whose payload took no bytes would be refused for its size.
\<close>

theorem unencodable_answer_is_merged:
  assumes "\<not> wk_terminal w"
    and "int (length (tr_evidence (wk_result w)) + length (so_evidence out)) \<le> MaxEvidence (wk_limits w)"
    and "int (length (tr_proposals (wk_result w)) + length (so_proposals out)) \<le> MaxProposals (wk_limits w)"
    and unencodable: "result_size env (merged_result w step_name out) = 2 ^ 63 - 1"
    and "0 < wk_payload_bytes w" and "wk_payload_bytes w \<le> MaxBytes (wk_limits w)"
    and "MaxBytes (wk_limits w) < 2 ^ 63 - 1"
  shows "fst (apply_step env step_name out w) = w\<lparr>wk_result := merged_result w step_name out\<rparr> \<and>
         fst (apply_step env step_name out (w\<lparr>wk_payload_bytes := 0\<rparr>)) = w\<lparr>wk_payload_bytes := 0\<rparr>"
proof -
  have "int64_add (wk_payload_bytes w) (2 ^ 63 - 1) < 0"
    using assms(5-7) int64_add_overflow [of "wk_payload_bytes w" "2 ^ 63 - 1"] by simp
  moreover have "int64_add 0 (2 ^ 63 - 1) = 2 ^ 63 - 1" by (rule int64_add_small [of 0, simplified add_0]) simp_all
  moreover have "length (kept_evidence (tr_scope (wk_result w)) (so_evidence out)) \<le> length (so_evidence out)"
    by (simp add: kept_evidence_def)
  then have "int (length (tr_evidence (wk_result w)) + length (kept_evidence (tr_scope (wk_result w)) (so_evidence out)))
      \<le> MaxEvidence (wk_limits w)"
    using assms(2) by linarith
  moreover have "merged_result (w\<lparr>wk_payload_bytes := 0\<rparr>) step_name out = merged_result w step_name out"
    by (simp add: merged_result_def)
  ultimately show ?thesis
    using assms(1,3-7) by (auto simp: apply_step_def Let_def not_less)
qed

theorem unencodable_answer_is_merged_witness:
  "fst (apply_step (example_env (\<lambda>_. None) (2 ^ 63 - 1)) ''find'' example_answer example_workspace)
     = example_workspace\<lparr>wk_result := merged_result example_workspace ''find'' example_answer\<rparr>"
proof -
  have "result_size (example_env (\<lambda>_. None) (2 ^ 63 - 1)) r = 2 ^ 63 - 1" for r
    by (simp add: result_size_def example_env_def)
  then show ?thesis
    using unencodable_answer_is_merged [of example_workspace example_answer "example_env (\<lambda>_. None) (2 ^ 63 - 1)" "''find''"]
    by (simp add: example_defs)
qed

text \<open>
  \<open>RunTask\<close> refuses a workflow before any step runs, and exactly when the workflow lacks a name, a
  version, a positive deadline, or has a step without a name or a function or two of the same name, or a
  limit is not positive; otherwise every ending is a result.
\<close>

theorem run_task_refuses_invalid:
  "(if tw_name flow \<noteq> [] \<and> tw_version flow \<noteq> [] \<and> 0 < tw_deadline flow \<and>
       0 < MaxSteps limits \<and> 0 < MaxEvidence limits \<and> 0 < MaxProposals limits \<and> 0 < MaxBytes limits \<and>
       list_all (\<lambda>st. ts_name st \<noteq> [] \<and> ts_run st \<noteq> None) (tw_steps flow) \<and>
       distinct (map ts_name (tw_steps flow))
    then \<exists>r s'. run_task env e flow limits s = (Inr r, s') \<and> tr_status r \<notin> {TaskCreated, TaskRunning}
    else \<exists>err. run_task env e flow limits s = (Inl err, s))"
proof (cases "validate_task flow limits")
  case None
  have "\<exists>r s'. run_task env e flow limits s = (Inr r, s')"
    using None by (simp add: run_task_def Let_def case_prod_beta)
  then obtain r s' where run: "run_task env e flow limits s = (Inr r, s')" by blast
  moreover have "tr_status r \<notin> {TaskCreated, TaskRunning}"
    using run_task_ok(1) [OF run] run_steps_shape
    by (metis (no_types, lifting) end_task_simps(1) insert_iff run_shape_def singletonD task_status.distinct(5) task_status.distinct(13))
  ultimately show ?thesis using None by (simp add: validate_task_ok)
next
  case (Some err)
  then have "validate_task flow limits \<noteq> None" by simp
  moreover have "run_task env e flow limits s = (Inl err, s)" using Some by (simp add: run_task_def)
  ultimately show ?thesis unfolding validate_task_ok by (simp only: if_False) blast
qed

end
