(* ===== verification/Go_Utf8.thy ===== *)
theory Go_Utf8
  imports Go_Text
begin

section \<open>UTF-8 is decoded only from its encoding\<close>

text \<open>
  The converse of \<open>decode_encode\<close>: a string that decodes to a rune without error begins with that
  rune's encoding, so valid text survives the way through its runes.
\<close>

lemma char_of_byte: "byte c = n \<Longrightarrow> c = char_of n"
  by auto

lemma lead_two: "0xC2 \<le> b \<Longrightarrow> b \<le> 0xDF \<Longrightarrow> b = 0xC0 + b mod 32 \<and> 2 \<le> b mod 32 \<and> b mod (32::nat) < 32"
proof -
  assume "0xC2 \<le> b" "b \<le> 0xDF"
  then have "b mod 32 = b - 6 * 32" by (intro mod_block) simp_all
  then show ?thesis using \<open>0xC2 \<le> b\<close> \<open>b \<le> 0xDF\<close> by linarith
qed

lemma lead_three: "0xE0 \<le> b \<Longrightarrow> b \<le> 0xEF \<Longrightarrow> b = 0xE0 + b mod 16 \<and> b mod (16::nat) < 16"
proof -
  assume "0xE0 \<le> b" "b \<le> 0xEF"
  then have "b mod 16 = b - 14 * 16" by (intro mod_block) simp_all
  then show ?thesis using \<open>0xE0 \<le> b\<close> by simp
qed

lemma cont_limb: "0x80 \<le> b \<Longrightarrow> b \<le> 0xBF \<Longrightarrow> b = 0x80 + b mod 64 \<and> b mod (64::nat) < 64"
proof -
  assume "0x80 \<le> b" "b \<le> 0xBF"
  then have "b mod 64 = b - 2 * 64" by (intro mod_block) simp_all
  then show ?thesis using \<open>0x80 \<le> b\<close> by simp
qed

lemma limb_div_mod: "z < 64 \<Longrightarrow> (a * 64 + z) div 64 = a \<and> (a * 64 + z) mod 64 = (z::nat)"
  by simp

lemma encode_limbs2:
  "2 \<le> x \<Longrightarrow> x < 32 \<Longrightarrow> y < 64 \<Longrightarrow> encode_rune (x * 64 + y) = [char_of (0xC0 + x), char_of (0x80 + y)]"
  by (simp add: encode_rune_def)

lemma encode_limbs3:
  assumes "x < 16" "y < 64" "z < 64" "x = 0 \<Longrightarrow> 32 \<le> y" "x = 13 \<Longrightarrow> y < 32"
  shows "encode_rune (x * 4096 + y * 64 + z) = [char_of (0xE0 + x), char_of (0x80 + y), char_of (0x80 + z)]"
proof -
  let ?r = "x * 4096 + y * 64 + z"
  have r: "?r = (x * 64 + y) * 64 + z" by simp
  have d: "?r div 64 = x * 64 + y" "?r mod 64 = z" 
    using assms(3) limb_div_mod [of z "x * 64 + y"] unfolding r by blast+
  have "?r div 4096 = ?r div 64 div 64" by (simp only: div_mult2_eq [symmetric]) simp
  then have "?r div 4096 = x" "?r div 64 mod 64 = y" using assms(2) by (simp_all add: d)
  moreover have "0x800 \<le> ?r" using assms(4) by (cases "x = 0") simp_all
  moreover have "?r < 0x10000" using assms by simp
  moreover have "\<not> (0xD800 \<le> ?r \<and> ?r \<le> 0xDFFF)"
  proof (cases "x = 13")
    case True
    then show ?thesis using assms(3,5) by simp
  next
    case False
    then have "x \<le> 12 \<or> 14 \<le> x" by linarith
    then show ?thesis using assms by auto
  qed
  ultimately show ?thesis by (auto simp: encode_rune_def d)
qed

lemma encode_limbs4:
  assumes "x \<le> 4" "y < 64" "z < 64" "w < 64" "x = 0 \<Longrightarrow> 16 \<le> y" "x = 4 \<Longrightarrow> y < 16"
  shows "encode_rune (x * 262144 + y * 4096 + z * 64 + w) =
           [char_of (0xF0 + x), char_of (0x80 + y), char_of (0x80 + z), char_of (0x80 + w)]"
proof -
  let ?r = "x * 262144 + y * 4096 + z * 64 + w"
  have r: "?r = ((x * 64 + y) * 64 + z) * 64 + w" by simp
  have 1: "?r div 64 = (x * 64 + y) * 64 + z" "?r mod 64 = w"
    using limb_div_mod [OF assms(4), of "(x * 64 + y) * 64 + z"] unfolding r by blast+
  have 2: "?r div 64 div 64 = x * 64 + y" "?r div 64 mod 64 = z"
    using limb_div_mod [OF assms(3), of "x * 64 + y"] unfolding 1 by blast+
  have 3: "?r div 64 div 64 div 64 = x" "?r div 64 div 64 mod 64 = y"
    using limb_div_mod [OF assms(2), of x] unfolding 2 by blast+
  have d: "?r div 4096 = ?r div 64 div 64" "?r div 262144 = ?r div 64 div 64 div 64"
    by (simp_all only: div_mult2_eq [symmetric]) simp_all
  have "0x10000 \<le> ?r" using assms(5) by (cases "x = 0") simp_all
  moreover have "?r \<le> 0x10FFFF"
  proof (cases "x = 4")
    case True
    then show ?thesis using assms(3,4,6) by simp
  next
    case False
    then show ?thesis using assms by linarith
  qed
  ultimately show ?thesis
    unfolding encode_rune_def d 3 1(2) 2(2) by simp
qed

lemma lead_four: "0xF0 \<le> b \<Longrightarrow> b \<le> 0xF4 \<Longrightarrow> b = 0xF0 + b mod 8 \<and> b mod (8::nat) \<le> 4"
proof -
  assume "0xF0 \<le> b" "b \<le> 0xF4"
  then have "b mod 8 = b - 30 * 8" by (intro mod_block) simp_all
  then show ?thesis using \<open>0xF0 \<le> b\<close> \<open>b \<le> 0xF4\<close> by linarith
qed

lemma char_limb: "byte c = n \<Longrightarrow> char_of n = c"
  by auto

lemma decoded_two:
  assumes "utf8_first (byte c) = Some (2, lo, hi)" and "lo \<le> byte b1" and "byte b1 \<le> hi"
  shows "decode_rune (c # b1 # s) = (byte c mod 32 * 64 + byte b1 mod 64, 2) \<and>
         encode_rune (byte c mod 32 * 64 + byte b1 mod 64) = [c, b1]"
proof -
  have f: "0xC2 \<le> byte c" "byte c \<le> 0xDF" "lo = 0x80" "hi = 0xBF"
    using assms(1) by (auto simp: utf8_first_def split: if_splits)
  note limbs = lead_two [OF f(1,2)] cont_limb [of "byte b1"]
  have "encode_rune (byte c mod 32 * 64 + byte b1 mod 64) = [char_of (byte c), char_of (byte b1)]"
    using encode_limbs2 [of "byte c mod 32" "byte b1 mod 64"] limbs assms f by simp
  then show ?thesis using assms f by (simp add: decode_rune.simps)
qed

lemma decoded_three:
  assumes "utf8_first (byte c) = Some (3, lo, hi)" and "lo \<le> byte b1" and "byte b1 \<le> hi"
    and "cont_byte (byte b2)"
  shows "decode_rune (c # b1 # b2 # s) = (byte c mod 16 * 4096 + byte b1 mod 64 * 64 + byte b2 mod 64, 3) \<and>
         encode_rune (byte c mod 16 * 4096 + byte b1 mod 64 * 64 + byte b2 mod 64) = [c, b1, b2]"
proof -
  have f: "0xE0 \<le> byte c" "byte c \<le> 0xEF" "0x80 \<le> lo" "hi \<le> 0xBF"
    "byte c = 0xE0 \<Longrightarrow> 0xA0 \<le> lo" "byte c = 0xED \<Longrightarrow> hi \<le> 0x9F"
    using assms(1) by (auto simp: utf8_first_def split: if_splits)
  have limbs: "byte c = 0xE0 + byte c mod 16" "byte c mod 16 < 16"
    "byte b1 = 0x80 + byte b1 mod 64" "byte b1 mod 64 < 64"
    "byte b2 = 0x80 + byte b2 mod 64" "byte b2 mod 64 < 64"
    using lead_three [OF f(1,2)] cont_limb [of "byte b1"] cont_limb [of "byte b2"] f assms
    by (auto simp: cont_byte_def)
  have "byte c mod 16 = 0 \<Longrightarrow> 32 \<le> byte b1 mod 64" "byte c mod 16 = 13 \<Longrightarrow> byte b1 mod 64 < 32"
    using limbs f assms by linarith+
  from encode_limbs3 [OF limbs(2,4,6) this]
  have "encode_rune (byte c mod 16 * 4096 + byte b1 mod 64 * 64 + byte b2 mod 64) = [c, b1, b2]"
    unfolding limbs(1) [symmetric] limbs(3) [symmetric] limbs(5) [symmetric] by simp
  then show ?thesis using assms f by (simp add: decode_rune.simps)
qed

lemma decoded_four:
  assumes "utf8_first (byte c) = Some (4, lo, hi)" and "lo \<le> byte b1" and "byte b1 \<le> hi"
    and "cont_byte (byte b2)" and "cont_byte (byte b3)"
  shows "decode_rune (c # b1 # b2 # b3 # s) =
           (byte c mod 8 * 262144 + byte b1 mod 64 * 4096 + byte b2 mod 64 * 64 + byte b3 mod 64, 4) \<and>
         encode_rune (byte c mod 8 * 262144 + byte b1 mod 64 * 4096 + byte b2 mod 64 * 64 + byte b3 mod 64) =
           [c, b1, b2, b3]"
proof -
  have f: "0xF0 \<le> byte c" "byte c \<le> 0xF4" "0x80 \<le> lo" "hi \<le> 0xBF"
    "byte c = 0xF0 \<Longrightarrow> 0x90 \<le> lo" "byte c = 0xF4 \<Longrightarrow> hi \<le> 0x8F"
    using assms(1) by (auto simp: utf8_first_def split: if_splits)
  have limbs: "byte c = 0xF0 + byte c mod 8" "byte c mod 8 \<le> 4"
    "byte b1 = 0x80 + byte b1 mod 64" "byte b1 mod 64 < 64"
    "byte b2 = 0x80 + byte b2 mod 64" "byte b2 mod 64 < 64"
    "byte b3 = 0x80 + byte b3 mod 64" "byte b3 mod 64 < 64"
    using lead_four [OF f(1,2)] cont_limb [of "byte b1"] cont_limb [of "byte b2"] cont_limb [of "byte b3"] f assms
    by (auto simp: cont_byte_def)
  have "byte c mod 8 = 0 \<Longrightarrow> 16 \<le> byte b1 mod 64" "byte c mod 8 = 4 \<Longrightarrow> byte b1 mod 64 < 16"
    using limbs f assms by linarith+
  from encode_limbs4 [OF limbs(2,4,6,8) this]
  have "encode_rune (byte c mod 8 * 262144 + byte b1 mod 64 * 4096 + byte b2 mod 64 * 64 + byte b3 mod 64) =
          [c, b1, b2, b3]"
    unfolding limbs(1) [symmetric] limbs(3) [symmetric] limbs(5) [symmetric] limbs(7) [symmetric] by simp
  then show ?thesis using assms f by (simp add: decode_rune.simps)
qed

lemma decoded_shape:
  assumes "s \<noteq> []" and "decode_rune s \<noteq> (rune_error, 1)"
  obtains (one) c r where "s = c # r" "byte c < 0x80"
  | (two) c b1 r lo hi where "s = c # b1 # r" "utf8_first (byte c) = Some (2, lo, hi)" "lo \<le> byte b1" "byte b1 \<le> hi"
  | (three) c b1 b2 r lo hi where "s = c # b1 # b2 # r" "utf8_first (byte c) = Some (3, lo, hi)"
      "lo \<le> byte b1" "byte b1 \<le> hi" "cont_byte (byte b2)"
  | (four) c b1 b2 b3 r lo hi where "s = c # b1 # b2 # b3 # r" "utf8_first (byte c) = Some (4, lo, hi)"
      "lo \<le> byte b1" "byte b1 \<le> hi" "cont_byte (byte b2)" "cont_byte (byte b3)"
proof -
  obtain c cs where s: "s = c # cs" using assms(1) by (cases s) auto
  show thesis
  proof (cases "byte c < 0x80")
    case True
    then show thesis using one s by blast
  next
    case big: False
    then obtain n lo hi where f: "utf8_first (byte c) = Some (n, lo, hi)"
      using assms(2) s by (cases "utf8_first (byte c)") (auto simp: decode_rune.simps Let_def)
    have n: "n \<in> {2, 3, 4}" using f by (auto simp: utf8_first_def split: if_splits)
    obtain b1 r1 where c1: "cs = b1 # r1" "lo \<le> byte b1" "byte b1 \<le> hi"
      using assms(2) s big f n
      by (cases cs) (auto simp: decode_rune.simps Let_def split: list.splits if_splits)
    consider "n = 2" | "n = 3" | "n = 4" using n by blast
    then show thesis
    proof cases
      case 1
      then show thesis using two s f c1 by blast
    next
      case 2
      then obtain b2 r2 where "r1 = b2 # r2" "cont_byte (byte b2)"
        using assms(2) s big f c1 by (cases r1) (auto simp: decode_rune.simps Let_def split: if_splits)
      then show thesis using three s f c1 2 by blast
    next
      case 3
      then obtain b2 b3 r2 where "r1 = b2 # b3 # r2" "cont_byte (byte b2)" "cont_byte (byte b3)"
        using assms(2) s big f c1
        by (cases r1; cases "tl r1") (auto simp: decode_rune.simps Let_def split: if_splits)
      then show thesis using four s f c1 3 by blast
    qed
  qed
qed

lemma decode_encoded:
  assumes "s \<noteq> []" and "decode_rune s \<noteq> (rune_error, 1)"
  shows "s = encode_rune (fst (decode_rune s)) @ drop (snd (decode_rune s)) s"
  using assms
proof (cases rule: decoded_shape)
  case (one c r)
  then show ?thesis by (simp add: decode_rune.simps encode_rune_def)
next
  case (two c b1 r lo hi)
  then show ?thesis using decoded_two [OF two(2-4), of r] by simp
next
  case (three c b1 b2 r lo hi)
  then show ?thesis using decoded_three [OF three(2-5), of r] by simp
next
  case (four c b1 b2 b3 r lo hi)
  then show ?thesis using decoded_four [OF four(2-6), of r] by simp
qed

lemma decode_rune_encoded:
  assumes "fst (decode_rune s) = r" and "r \<noteq> rune_error"
  shows "prefix (encode_rune r) s"
proof -
  have "s \<noteq> []" using assms by auto
  moreover have "decode_rune s \<noteq> (rune_error, 1)" using assms by auto
  ultimately show ?thesis using decode_encoded [of s] assms(1) by (metis prefixI)
qed

text \<open>Valid text is the string of its runes.\<close>

lemma valid_round_trip: "utf8_valid s \<Longrightarrow> string_of_runes (runes s) = s"
proof (induction s rule: decode_all.induct)
  case (1 s)
  show ?case
  proof (cases "s = []")
    case True
    then show ?thesis by (simp add: string_of_runes_def)
  next
    case False
    have all: "decode_all s = decode_rune s # decode_all (drop (snd (decode_rune s)) s)"
      using False by (simp add: decode_all.simps [of s])
    have "decode_rune s \<noteq> (rune_error, 1)" and rest: "utf8_valid (drop (snd (decode_rune s)) s)"
      using 1(2) unfolding utf8_valid_def all by (auto simp: case_prod_beta)
    then have "s = encode_rune (fst (decode_rune s)) @ drop (snd (decode_rune s)) s"
      using decode_encoded False by blast
    moreover have "string_of_runes (runes s) =
        encode_rune (fst (decode_rune s)) @ string_of_runes (runes (drop (snd (decode_rune s)) s))"
      unfolding runes_def all by (simp add: string_of_runes_def)
    ultimately show ?thesis using 1(1) [OF False rest] by simp
  qed
qed

end
