(* ===== verification/Go_Strings.thy ===== *)
theory Go_Strings
  imports Go_Utf8
begin

section \<open>The standard library's string functions\<close>

text \<open>
  The functions of \<open>strings\<close>, \<open>strconv\<close> and \<open>regexp\<close> the domain packages use, on byte strings.
  A space is one of the encodings \<open>space_runes\<close>: these begin with an ASCII byte or a lead byte, so
  scanning byte by byte finds the same spaces as decoding rune by rune.
\<close>

subsection \<open>Fields and splitting\<close>

definition space_at :: "string \<Rightarrow> nat" where
  "space_at s = (case find (\<lambda>w. prefix w s) space_runes of None \<Rightarrow> 0 | Some w \<Rightarrow> length w)"

text \<open>\<open>strings.Fields\<close>: the maximal runs without spaces; \<open>cur\<close> is the run being read, reversed.\<close>

definition flush :: "string \<Rightarrow> string list" where
  "flush cur = (if cur = [] then [] else [rev cur])"

function fields_from :: "string \<Rightarrow> string \<Rightarrow> string list" where
  "fields_from cur s =
     (case s of
        [] \<Rightarrow> flush cur
      | c # cs \<Rightarrow>
          (if space_at s = 0 then fields_from (c # cur) cs
           else flush cur @ fields_from [] (drop (space_at s) s)))"
  by pat_completeness auto
termination
  by (relation "measure (\<lambda>(cur, s). length s)") auto

declare fields_from.simps [simp del]

definition go_fields :: "string \<Rightarrow> string list" where
  "go_fields s = fields_from [] s"

text \<open>\<open>strings.Split\<close> at a separator of one byte.\<close>

fun split_on :: "char \<Rightarrow> string \<Rightarrow> string list" where
  "split_on sep [] = [[]]"
| "split_on sep (c # cs) =
     (if c = sep then [] # split_on sep cs
      else case split_on sep cs of
             [] \<Rightarrow> [[c]]
           | p # ps \<Rightarrow> (c # p) # ps)"

lemma split_on_nonempty [simp]: "split_on sep s \<noteq> []"
  by (cases s) (auto split: list.split)

lemma split_on_no_sep: "p \<in> set (split_on sep s) \<Longrightarrow> sep \<notin> set p"
  by (induction s arbitrary: p) (auto split: if_splits list.splits)

lemma split_on_join: "join_with [sep] (split_on sep s) = s"
proof (induction s)
  case (Cons c cs)
  obtain p ps where "split_on sep cs = p # ps" using split_on_nonempty by (metis neq_Nil_conv)
  then show ?case using Cons by (cases ps) auto
qed simp

subsection \<open>Trimming and replacing\<close>

text \<open>\<open>strings.Trim\<close> with a cutset, given by the encodings of its runes.\<close>

definition trim_cutset :: "string list \<Rightarrow> string \<Rightarrow> string" where
  "trim_cutset cs s = rev (strip (map rev cs) (rev (strip cs s)))"

definition trim_suffix :: "string \<Rightarrow> string \<Rightarrow> string" where
  "trim_suffix s suf = (if suffix suf s then take (length s - length suf) s else s)"

definition trim_prefix :: "string \<Rightarrow> string \<Rightarrow> string" where
  "trim_prefix s pre = (if prefix pre s then drop (length pre) s else s)"

text \<open>A \<open>strings.Replacer\<close> whose old strings are not empty and none a prefix of another.\<close>

function replace_all :: "(string \<times> string) list \<Rightarrow> string \<Rightarrow> string" where
  "replace_all pairs s =
     (case s of
        [] \<Rightarrow> []
      | c # cs \<Rightarrow>
          (case find (\<lambda>(old, new). old \<noteq> [] \<and> prefix old s) pairs of
             Some (old, new) \<Rightarrow> new @ replace_all pairs (drop (length old) s)
           | None \<Rightarrow> c # replace_all pairs cs))"
  by pat_completeness auto
termination
proof (relation "measure (\<lambda>(pairs, s). length s)")
  fix pairs :: "(string \<times> string) list" and s c cs x old new
  assume "s = c # cs" and "find (\<lambda>(old, new). old \<noteq> [] \<and> prefix old s) pairs = Some x" and "(old, new) = x"
  then have "old \<noteq> []" by (auto simp: find_Some_iff)
  then show "((pairs, drop (length old) s), (pairs, s)) \<in> measure (\<lambda>(pairs, s). length s)"
    using \<open>s = c # cs\<close> by (cases old) auto
qed auto

declare replace_all.simps [simp del]

text \<open>\<open>strings.ToLower\<close> as far as a comparison with ASCII text can tell.\<close>

definition lower_ascii_rune :: "nat \<Rightarrow> nat" where
  "lower_ascii_rune r =
     (if 0x41 \<le> r \<and> r \<le> 0x5A then r + 32
      else if r = 0x130 then 0x69 else if r = 0x212A then 0x6B else r)"

definition to_lower_ascii :: "string \<Rightarrow> string" where
  "to_lower_ascii s = string_of_runes (map lower_ascii_rune (runes s))"

subsection \<open>Numbers and patterns\<close>

definition digit :: "char \<Rightarrow> bool" where
  "digit c \<longleftrightarrow> 48 \<le> byte c \<and> byte c \<le> 57"

definition digits_value :: "string \<Rightarrow> int" where
  "digits_value s = foldl (\<lambda>n c. n * 10 + int (byte c - 48)) 0 s"

text \<open>\<open>strconv.Atoi\<close>: an optional sign and digits, in the range of a 64-bit int.\<close>

definition atoi :: "string \<Rightarrow> int option" where
  "atoi s =
     (let (neg, ds) = (case s of
            c # cs \<Rightarrow> if c = CHR ''-'' then (True, cs) else if c = CHR ''+'' then (False, cs) else (False, s)
          | [] \<Rightarrow> (False, []));
          v = (if neg then - digits_value ds else digits_value ds)
      in if ds \<noteq> [] \<and> list_all digit ds \<and> - (2 ^ 63) \<le> v \<and> v < 2 ^ 63 then Some v else None)"

text \<open>A match of \<open>^[class]{lo,hi}$\<close>.\<close>

definition matches_class :: "(char \<Rightarrow> bool) \<Rightarrow> nat \<Rightarrow> nat \<Rightarrow> string \<Rightarrow> bool" where
  "matches_class cls lo hi s \<longleftrightarrow> lo \<le> length s \<and> length s \<le> hi \<and> list_all cls s"

subsection \<open>Facts\<close>

lemma fields_from_nonempty: "f \<in> set (fields_from cur s) \<Longrightarrow> f \<noteq> []"
  by (induction cur s rule: fields_from.induct)
    (subst (asm) (3) fields_from.simps, auto simp: flush_def split: list.splits if_splits)

lemma fields_nonempty: "f \<in> set (go_fields s) \<Longrightarrow> f \<noteq> []"
  unfolding go_fields_def by (rule fields_from_nonempty)

text \<open>Trimming a cutset of single bytes.\<close>

lemma find_byte:
  "find (\<lambda>w. w \<noteq> [] \<and> prefix w (c # rest)) (map (\<lambda>c. [c]) cs) = (if c \<in> set cs then Some [c] else None)"
  by (induction cs) auto

lemma strip_bytes: "strip (map (\<lambda>c. [c]) cs) s = dropWhile (\<lambda>c. c \<in> set cs) s"
proof (induction s)
  case (Cons c rest)
  show ?case
    by (subst strip.simps) (simp add: find_byte Cons)
qed simp

lemma trim_bytes:
  "trim_cutset (map (\<lambda>c. [c]) cs) s =
     rev (dropWhile (\<lambda>c. c \<in> set cs) (rev (dropWhile (\<lambda>c. c \<in> set cs) s)))"
proof -
  have "map rev (map (\<lambda>c. [c]) cs) = map (\<lambda>c. [c]) cs" by simp
  then show ?thesis unfolding trim_cutset_def strip_bytes by (simp only: strip_bytes)
qed

lemma trim_bytes_empty:
  "trim_cutset (map (\<lambda>c. [c]) cs) s = [] \<longleftrightarrow> list_all (\<lambda>c. c \<in> set cs) s"
proof -
  let ?t = "dropWhile (\<lambda>c. c \<in> set cs) s"
  have "?t = []" if "\<forall>x \<in> set ?t. x \<in> set cs"
    using that hd_dropWhile [of "\<lambda>c. c \<in> set cs" s] list.set_sel(1) [of ?t] by blast
  then have "(\<forall>x \<in> set ?t. x \<in> set cs) \<longleftrightarrow> (\<forall>x \<in> set s. x \<in> set cs)"
    by (metis dropWhile_eq_Nil_conv empty_iff list.set(1))
  then show ?thesis unfolding trim_bytes list_all_iff by (simp add: dropWhile_eq_Nil_conv)
qed

subsection \<open>Text that trims to nothing\<close>

lemma find_mapped: "find P (map g ws) = Some v \<Longrightarrow> \<exists>w \<in> set ws. v = g w \<and> P v"
  by (induction ws) (auto split: if_splits)

lemma strip_rev_empty:
  "strip (map rev ws) (rev s) = [] \<Longrightarrow> s = [] \<or> (\<exists>w \<in> set ws. w \<noteq> [] \<and> prefix w s)"
proof (induction "length s" arbitrary: s rule: less_induct)
  case less
  show ?case
  proof (cases "find (\<lambda>w. w \<noteq> [] \<and> prefix w (rev s)) (map rev ws)")
    case None
    then show ?thesis using less.prems by (simp add: strip.simps [of "map rev ws" "rev s"])
  next
    case (Some v)
    then obtain w where w: "w \<in> set ws" "v = rev w" "w \<noteq> []" "prefix (rev w) (rev s)"
      using find_mapped [OF Some] by auto
    then obtain t where s: "s = t @ w" by (auto simp: suffix_to_prefix [symmetric] suffix_def)
    have "strip (map rev ws) (rev t) = []"
      using less.prems Some w(2) by (simp add: strip.simps [of "map rev ws" "rev w @ rev t"] s)
    moreover have "length t < length s" using w(3) s by simp
    ultimately have "t = [] \<or> (\<exists>w \<in> set ws. w \<noteq> [] \<and> prefix w t)" using less.hyps by blast
    then show ?thesis using w s by (auto intro: prefix_prefix)
  qed
qed

lemma strip_empty: "strip ws s = [] \<Longrightarrow> s = [] \<or> (\<exists>w \<in> set ws. w \<noteq> [] \<and> prefix w s)"
  using strip_id [of ws s] by metis

lemma trim_space_empty:
  "trim_space s = [] \<Longrightarrow> s = [] \<or> (\<exists>w \<in> set space_runes. w \<noteq> [] \<and> prefix w s)"
proof -
  assume "trim_space s = []"
  then have "trim_left s = [] \<or> (\<exists>w \<in> set space_runes. w \<noteq> [] \<and> prefix w (trim_left s))"
    using strip_rev_empty [of space_runes "trim_left s"] by (simp add: trim_space_def trim_right_def)
  then show ?thesis
    using strip_no_prefix strip_empty [of space_runes s] unfolding trim_left_def by blast
qed

subsection \<open>Cutting trimmed text\<close>

text \<open>Text that was trimmed and cut after some runes is not blank: it still begins with its first rune.\<close>

lemma trim_space_no_prefix:
  "w \<in> set space_runes \<Longrightarrow> \<not> prefix w (trim_space s)"
  using trim_left_no_space [of w "trim_space s" s] trim_right_prefix [of "trim_left s"]
  by (auto simp: trim_space_def) (metis space_runes_nonempty)

definition space_codes :: "nat list" where
  "space_codes =
     [0x09, 0x0A, 0x0B, 0x0C, 0x0D, 0x20, 0x85, 0xA0, 0x1680, 0x2000, 0x2001, 0x2002, 0x2003, 0x2004,
      0x2005, 0x2006, 0x2007, 0x2008, 0x2009, 0x200A, 0x2028, 0x2029, 0x202F, 0x205F, 0x3000]"

lemma space_runes_encode: "space_runes = map encode_rune space_codes"
  by (simp add: space_runes_def space_codes_def encode_rune_def char_of_def bit_0)

lemma space_codes_plain: "r \<in> set space_codes \<Longrightarrow> scalar r \<and> r < 0x10000 \<and> r \<noteq> rune_error"
  by (auto simp: space_codes_def scalar_def rune_error_def)

lemma runes_Cons: "s \<noteq> [] \<Longrightarrow> runes s = fst (decode_rune s) # runes (drop (snd (decode_rune s)) s)"
  by (simp add: runes_def decode_all.simps [of s])

lemma cut_not_blank:
  assumes "trim_space s \<noteq> []" and "0 < n"
  shows "trim_space (cut_runes n (trim_space s)) \<noteq> []"
proof
  let ?t = "trim_space s"
  define r where "r = fst (decode_rune ?t)"
  obtain m where m: "n = Suc m" using assms(2) by (cases n) auto
  obtain rest where c: "cut_runes n ?t = encode_rune r @ rest"
    by (simp add: cut_runes_def runes_Cons [OF assms(1)] m string_of_runes_def r_def)
  have r: "scalar r" unfolding r_def by (rule decode_rune_scalar)
  assume "trim_space (cut_runes n ?t) = []"
  then obtain w where w: "w \<in> set space_runes" "prefix w (cut_runes n ?t)"
    using trim_space_empty [of "cut_runes n ?t"] c by auto
  then obtain k rest' where k: "k \<in> set space_codes" "w = encode_rune k" "cut_runes n ?t = encode_rune k @ rest'"
    by (auto simp: space_runes_encode prefix_def)
  note plain = space_codes_plain [OF k(1)]
  have "r = k"
    using decode_encode [OF r, of rest] decode_encode [of k rest'] plain c k(3) by simp
  then have "prefix w ?t"
    using decode_rune_encoded [of ?t k] plain k(2) by (simp add: r_def)
  then show False using trim_space_no_prefix [OF w(1)] by blast
qed

subsection \<open>Plain text\<close>

text \<open>Printable ASCII without the space: nothing to trim, no control rune, one rune a byte.\<close>

definition plain :: "char \<Rightarrow> bool" where
  "plain c \<longleftrightarrow> 0x20 < byte c \<and> byte c < 0x7F"

lemma space_rune_ends: "w \<in> set space_runes \<Longrightarrow> \<not> plain (hd w) \<and> \<not> plain (last w)"
  by (auto simp: space_runes_def plain_def)

lemma plain_trim:
  assumes "list_all plain s"
  shows "trim_space s = s"
proof -
  have "\<not> prefix w s" if "w \<in> set space_runes" for w
    using space_rune_ends [OF that] assms that space_runes_nonempty
    by (cases w) (auto simp: prefix_def list_all_iff)
  then have l: "trim_left s = s" unfolding trim_left_def by (intro strip_id) simp
  have "\<not> prefix v (rev s)" if v: "v \<in> set (map rev space_runes)" "v \<noteq> []" for v
  proof
    assume "prefix v (rev s)"
    obtain w where w: "w \<in> set space_runes" "v = rev w" using v(1) unfolding set_map by blast
    then have "w \<noteq> []" using v(2) by auto
    then have "hd v = last w" by (simp add: w hd_rev)
    moreover have "hd v \<in> set s"
      using set_mono_prefix [OF \<open>prefix v (rev s)\<close>] hd_in_set [OF v(2)] by auto
    ultimately show False using space_rune_ends [OF w(1)] assms by (auto simp: list_all_iff)
  qed
  have "strip (map rev space_runes) (rev s) = rev s" by (rule strip_id) fact
  then have "trim_right s = s" unfolding trim_right_def by simp
  then show ?thesis by (simp add: trim_space_def l)
qed

lemma plain_runes: "list_all plain s \<Longrightarrow> decode_all s = map (\<lambda>c. (byte c, 1)) s"
proof (induction s)
  case (Cons c s)
  then show ?case
    by (simp add: decode_all.simps [of "c # s"] decode_rune.simps plain_def)
qed simp

lemma digit_plain: "digit c \<Longrightarrow> plain c"
  by (auto simp: digit_def plain_def)

text \<open>\<open>strings.Split\<close> undoes \<open>strings.Join\<close> of parts without the separator.\<close>

lemma split_on_plain: "sep \<notin> set p \<Longrightarrow> split_on sep p = [p]"
  by (induction p) auto

lemma split_on_append: "sep \<notin> set p \<Longrightarrow> split_on sep (p @ sep # rest) = p # split_on sep rest"
  by (induction p) auto

lemma split_on_joined: "ps \<noteq> [] \<Longrightarrow> list_all (\<lambda>p. sep \<notin> set p) ps \<Longrightarrow> split_on sep (join_with [sep] ps) = ps"
proof (induction ps)
  case (Cons p ps)
  then show ?case by (cases ps) (auto simp: split_on_plain split_on_append)
qed simp

text \<open>\<open>strings.Cut\<close> at a separator of one byte: what is before the first one, what is after, and whether there is one.\<close>

fun cut_at :: "char \<Rightarrow> string \<Rightarrow> string \<times> string \<times> bool" where
  "cut_at sep [] = ([], [], False)"
| "cut_at sep (c # cs) =
     (if c = sep then ([], cs, True) else case cut_at sep cs of (l, r, found) \<Rightarrow> (c # l, r, found))"

lemma cut_at_append: "sep \<notin> set p \<Longrightarrow> cut_at sep (p @ sep # rest) = (p, rest, True)"
  by (induction p) auto

end
