(* ===== verification/Music_Queue.thy ===== *)
theory Music_Queue
  imports Go_Strings Go_URL
begin

section \<open>The music queue of a voice channel\<close>

text \<open>
  \<open>dokja_domain/dokja_communications/music_queue.go\<close>: the track playing and the ones waiting.  The
  queue holds no lock, so a method is one step.  \<open>entries\<close> and \<open>version\<close> are counters of a 64-bit
  int that are only ever incremented; they are modelled without the wrap-around.
\<close>

subsection \<open>State\<close>

record track =
  trk_id :: string
  trk_source :: string
  trk_url :: string
  trk_title :: string
  trk_uploader :: string
  trk_duration :: int
  trk_live :: bool
  trk_playable :: bool
  trk_requested_url :: string
  trk_thumbnail :: string

record queued_track =
  qt_track :: track
  qt_entry :: int
  qt_requested_by :: string

record music_queue =
  mq_now :: "queued_track option"
  mq_waiting :: "queued_track list"
  mq_paused :: bool
  mq_volume :: int
  mq_entries :: int
  mq_version :: int

definition MaxWaiting :: nat where
  "MaxWaiting = 3"

definition MaxVolume :: int where
  "MaxVolume = 100"

definition ErrMusicQueueFull :: gerror where
  "ErrMusicQueueFull = Sentinel ''the queue is full''"

definition ErrNothingPlaying :: gerror where
  "ErrNothingPlaying = Sentinel ''nothing is playing''"

definition ErrBadVolume :: gerror where
  "ErrBadVolume = Sentinel ''the volume goes from 0 to 100''"

definition new_music_queue :: music_queue where
  "new_music_queue = \<lparr>mq_now = None, mq_waiting = [], mq_paused = False, mq_volume = MaxVolume,
                      mq_entries = 0, mq_version = 0\<rparr>"

subsection \<open>Operations\<close>

definition mq_full :: "music_queue \<Rightarrow> bool" where
  "mq_full q \<longleftrightarrow> mq_now q \<noteq> None \<and> length (mq_waiting q) \<ge> MaxWaiting"

definition mq_add :: "track \<Rightarrow> string \<Rightarrow> music_queue \<Rightarrow> (queued_track \<times> nat) res \<times> music_queue" where
  "mq_add t requested_by q =
     (if mq_full q then (Inl ErrMusicQueueFull, q)
      else
       (let q1 = q\<lparr>mq_entries := mq_entries q + 1, mq_version := mq_version q + 1\<rparr>;
            queued = \<lparr>qt_track = t, qt_entry = mq_entries q1, qt_requested_by = requested_by\<rparr>
        in case mq_now q1 of
             None \<Rightarrow> (Inr (queued, 0), q1\<lparr>mq_now := Some queued, mq_paused := False\<rparr>)
           | Some _ \<Rightarrow>
               (let q2 = q1\<lparr>mq_waiting := mq_waiting q1 @ [queued]\<rparr>
                in (Inr (queued, length (mq_waiting q2)), q2))))"

definition mq_advance :: "music_queue \<Rightarrow> queued_track option \<times> music_queue" where
  "mq_advance q =
     (let q1 = q\<lparr>mq_version := mq_version q + 1, mq_paused := False\<rparr>
      in case mq_waiting q1 of
           [] \<Rightarrow> (None, q1\<lparr>mq_now := None\<rparr>)
         | next_track # rest \<Rightarrow> (Some next_track, q1\<lparr>mq_now := Some next_track, mq_waiting := rest\<rparr>))"

definition mq_skip :: "music_queue \<Rightarrow> queued_track option res \<times> music_queue" where
  "mq_skip q =
     (case mq_now q of
        None \<Rightarrow> (Inl ErrNothingPlaying, q)
      | Some _ \<Rightarrow> (let (n, q') = mq_advance q in (Inr n, q')))"

definition mq_ended :: "int \<Rightarrow> music_queue \<Rightarrow> (queued_track option \<times> bool) \<times> music_queue" where
  "mq_ended entry q =
     (case mq_now q of
        None \<Rightarrow> ((None, False), q)
      | Some now \<Rightarrow>
          if qt_entry now \<noteq> entry then ((None, False), q)
          else (let (n, q') = mq_advance q in ((n, True), q')))"

definition mq_pause :: "music_queue \<Rightarrow> gerror option \<times> music_queue" where
  "mq_pause q =
     (if mq_now q = None then (Some ErrNothingPlaying, q)
      else (None, q\<lparr>mq_paused := True, mq_version := mq_version q + 1\<rparr>))"

definition mq_resume :: "music_queue \<Rightarrow> gerror option \<times> music_queue" where
  "mq_resume q =
     (if mq_now q = None then (Some ErrNothingPlaying, q)
      else (None, q\<lparr>mq_paused := False, mq_version := mq_version q + 1\<rparr>))"

definition mq_stop :: "music_queue \<Rightarrow> music_queue" where
  "mq_stop q = q\<lparr>mq_now := None, mq_waiting := [], mq_paused := False, mq_version := mq_version q + 1\<rparr>"

definition mq_set_volume :: "int \<Rightarrow> music_queue \<Rightarrow> gerror option \<times> music_queue" where
  "mq_set_volume volume q =
     (if volume < 0 \<or> volume > MaxVolume then (Some ErrBadVolume, q)
      else (None, q\<lparr>mq_volume := volume, mq_version := mq_version q + 1\<rparr>))"

definition mq_active :: "music_queue \<Rightarrow> bool" where
  "mq_active q \<longleftrightarrow> mq_now q \<noteq> None"

record queue_state =
  qs_now :: "queued_track option"
  qs_waiting :: "queued_track list"
  qs_paused :: bool
  qs_volume :: int
  qs_version :: int

definition mq_state :: "music_queue \<Rightarrow> queue_state" where
  "mq_state q = \<lparr>qs_now = mq_now q, qs_waiting = mq_waiting q, qs_paused = mq_paused q,
                 qs_volume = mq_volume q, qs_version = mq_version q\<rparr>"

subsection \<open>Texts\<close>

definition comment_due :: "int \<Rightarrow> bool" where
  "comment_due entry \<longleftrightarrow> entry > 0 \<and> (entry - 1) mod 3 = 0"

definition max_comment_runes :: nat where
  "max_comment_runes = 200"

definition comment_quotes :: "string list" where
  "comment_quotes =
     [[CHR 0x22], [CHR 0x27], [CHR 0xE2, CHR 0x80, CHR 0x9C], [CHR 0xE2, CHR 0x80, CHR 0x9D],
      [CHR 0xE2, CHR 0x80, CHR 0x98], [CHR 0xE2, CHR 0x80, CHR 0x99], [CHR 0x60]]"

definition ellipsis_text :: string where
  "ellipsis_text = [CHR 0xE2, CHR 0x80, CHR 0xA6]"

definition comment_line :: "string \<Rightarrow> string" where
  "comment_line text =
     (let line = trim_cutset comment_quotes (join_with '' '' (go_fields text))
      in if length (runes line) > max_comment_runes
         then trim_space (string_of_runes (take (max_comment_runes - 1) (runes line))) @ ellipsis_text
         else line)"

record track_request =
  req_query :: string
  req_url :: string

definition track_request_from_text :: "string \<Rightarrow> track_request" where
  "track_request_from_text text =
     (let fs = go_fields text;
          searched = \<lparr>req_query = join_with '' '' fs, req_url = []\<rparr>
      in case fs of
           [f] \<Rightarrow>
             (case url_parse f of
                Some u \<Rightarrow> if web_scheme u \<and> url_host u \<noteq> []
                           then \<lparr>req_query = [], req_url = f\<rparr> else searched
              | None \<Rightarrow> searched)
         | _ \<Rightarrow> searched)"

definition volume_from_text :: "string \<Rightarrow> int res" where
  "volume_from_text text =
     (case atoi (trim_suffix (trim_space text) ''%'') of
        None \<Rightarrow> Inl ErrBadVolume
      | Some v \<Rightarrow> Inr v)"

subsection \<open>What the queue keeps\<close>

text \<open>The plays of a queue, in order: the one playing first.\<close>

definition plays :: "music_queue \<Rightarrow> queued_track list" where
  "plays q = (case mq_now q of None \<Rightarrow> [] | Some t \<Rightarrow> [t]) @ mq_waiting q"

definition mq_ok :: "music_queue \<Rightarrow> bool" where
  "mq_ok q \<longleftrightarrow>
     (mq_now q = None \<longrightarrow> mq_waiting q = [] \<and> \<not> mq_paused q) \<and>
     length (mq_waiting q) \<le> MaxWaiting \<and> 0 \<le> mq_volume q \<and> mq_volume q \<le> MaxVolume \<and>
     0 \<le> mq_entries q \<and>
     sorted_wrt (<) (map qt_entry (plays q)) \<and>
     (\<forall>t \<in> set (plays q). 1 \<le> qt_entry t \<and> qt_entry t \<le> mq_entries q)"

datatype mq_op =
    Add track string | Skip | Ended int | Pause | Resume | Stop | Set_Volume int

fun mq_step :: "mq_op \<Rightarrow> music_queue \<Rightarrow> gerror option \<times> music_queue" where
  "mq_step (Add t who) q = (case mq_add t who q of (Inl e, q') \<Rightarrow> (Some e, q') | (Inr _, q') \<Rightarrow> (None, q'))"
| "mq_step Skip q = (case mq_skip q of (Inl e, q') \<Rightarrow> (Some e, q') | (Inr _, q') \<Rightarrow> (None, q'))"
| "mq_step (Ended n) q = (None, snd (mq_ended n q))"
| "mq_step Pause q = mq_pause q"
| "mq_step Resume q = mq_resume q"
| "mq_step Stop q = (None, mq_stop q)"
| "mq_step (Set_Volume v) q = mq_set_volume v q"

lemmas mq_defs = mq_add_def mq_skip_def mq_ended_def mq_pause_def mq_resume_def mq_stop_def
  mq_set_volume_def mq_advance_def Let_def

text \<open>A refused operation leaves the queue as it was.\<close>

interpretation music: undoing mq_step
proof
  fix a s e s'
  assume "mq_step a s = (Some e, s')"
  then show "s' = s"
    by (cases a) (auto simp: mq_defs split: if_splits option.splits list.splits)
qed

lemma plays_add:
  "mq_now q = None \<longrightarrow> mq_waiting q = [] \<Longrightarrow> \<not> mq_full q \<Longrightarrow>
   plays (snd (mq_add t who q)) =
     plays q @ [\<lparr>qt_track = t, qt_entry = mq_entries q + 1, qt_requested_by = who\<rparr>]"
  by (auto simp: mq_add_def plays_def Let_def split: option.split)

lemma plays_advance:
  "mq_now q \<noteq> None \<Longrightarrow> plays (snd (mq_advance q)) = tl (plays q)"
  by (auto simp: mq_advance_def plays_def Let_def split: list.split)

lemma mq_ok_now: "mq_ok q \<Longrightarrow> mq_now q = None \<longrightarrow> mq_waiting q = []"
  by (simp add: mq_ok_def)

lemma entries_le: "mq_ok q \<Longrightarrow> t \<in> set (plays q) \<Longrightarrow> qt_entry t \<le> mq_entries q"
  by (simp add: mq_ok_def)

lemma mq_add_ok:
  assumes "mq_ok q"
  shows "mq_ok (snd (mq_add t who q))"
proof (cases "mq_full q")
  case False
  let ?new = "\<lparr>qt_track = t, qt_entry = mq_entries q + 1, qt_requested_by = who\<rparr>"
  have p: "plays (snd (mq_add t who q)) = plays q @ [?new]"
    by (rule plays_add [OF mq_ok_now [OF assms] False])
  have "sorted_wrt (<) (map qt_entry (plays q @ [?new]))"
    and "\<forall>u \<in> set (plays q @ [?new]). 1 \<le> qt_entry u \<and> qt_entry u \<le> mq_entries q + 1"
    using assms entries_le [OF assms] by (fastforce simp: mq_ok_def sorted_wrt_append)+
  moreover have "mq_entries (snd (mq_add t who q)) = mq_entries q + 1"
    and "mq_volume (snd (mq_add t who q)) = mq_volume q"
    and "length (mq_waiting (snd (mq_add t who q))) \<le> MaxWaiting"
    and "mq_now (snd (mq_add t who q)) \<noteq> None"
    using False assms by (auto simp: mq_add_def mq_full_def mq_ok_def Let_def split: option.split)
  ultimately show ?thesis using assms p unfolding mq_ok_def by auto
qed (simp add: mq_add_def assms)

lemma mq_advance_ok:
  assumes "mq_ok q" and "mq_now q \<noteq> None"
  shows "mq_ok (snd (mq_advance q))"
proof -
  have p: "plays (snd (mq_advance q)) = tl (plays q)" by (rule plays_advance [OF assms(2)])
  have "sorted_wrt (<) (map qt_entry (tl (plays q)))"
    using assms(1) by (cases "plays q") (simp_all add: mq_ok_def)
  moreover have "set (tl (plays q)) \<subseteq> set (plays q)" by (cases "plays q") auto
  ultimately show ?thesis
    using assms(1) p unfolding mq_ok_def
    by (auto simp: mq_advance_def Let_def split: list.splits)
qed

lemma mq_step_ok: "mq_ok q \<Longrightarrow> mq_ok (snd (mq_step op q))"
proof (cases op)
  case (Add t who)
  assume "mq_ok q"
  then have "mq_ok (snd (mq_add t who q))" by (rule mq_add_ok)
  then show ?thesis using Add by (auto split: prod.split sum.split)
qed (use mq_advance_ok [of q] in
      \<open>auto simp: mq_skip_def mq_ended_def mq_pause_def mq_resume_def mq_stop_def mq_set_volume_def
        split: option.split prod.split sum.split,
       auto simp: mq_ok_def plays_def Let_def split: option.splits prod.splits\<close>)

lemma mq_ok_new: "mq_ok new_music_queue"
  by (simp add: mq_ok_def new_music_queue_def plays_def MaxVolume_def)

text \<open>An entry that has left the queue does not come back: numbers are never given twice.\<close>

definition gone :: "int \<Rightarrow> music_queue \<Rightarrow> bool" where
  "gone n q \<longleftrightarrow> mq_ok q \<and> n \<le> mq_entries q \<and> n \<notin> qt_entry ` set (plays q)"

lemma plays_step:
  assumes "mq_ok q"
  shows "set (plays (snd (mq_step op q))) \<subseteq> set (plays q) \<union> {t. qt_entry t = mq_entries q + 1}"
    and "mq_entries q \<le> mq_entries (snd (mq_step op q))"
proof -
  have tl: "set (tl (plays q)) \<subseteq> set (plays q)" by (cases "plays q") auto
  have adv: "set (plays (snd (mq_advance q))) \<subseteq> set (plays q)" if "mq_now q \<noteq> None"
    using plays_advance [OF that] tl by simp
  have add: "set (plays (snd (mq_add t who q))) \<subseteq> set (plays q) \<union> {t. qt_entry t = mq_entries q + 1}" for t who
    using plays_add [OF mq_ok_now [OF assms]] by (cases "mq_full q") (auto simp: mq_add_def)
  show "set (plays (snd (mq_step op q))) \<subseteq> set (plays q) \<union> {t. qt_entry t = mq_entries q + 1}"
  proof (cases op)
    case (Add t who)
    then show ?thesis using add [of t who] by (auto split: prod.split sum.split)
  qed (use adv in \<open>auto simp: mq_skip_def mq_ended_def mq_pause_def mq_resume_def mq_stop_def mq_set_volume_def
      Let_def split: option.split prod.split sum.split\<close>, auto simp: plays_def split: option.splits)
  show "mq_entries q \<le> mq_entries (snd (mq_step op q))"
    by (cases op) (auto simp: mq_defs split: option.split prod.split sum.split list.split)
qed

lemma plays_skip:
  "plays (snd (mq_skip q)) = (if mq_now q = None then plays q else tl (plays q))"
  using plays_advance [of q] by (auto simp: mq_skip_def split: prod.split)

lemma plays_ended:
  "plays (snd (mq_ended n q)) =
     (case mq_now q of None \<Rightarrow> plays q | Some t \<Rightarrow> if qt_entry t = n then tl (plays q) else plays q)"
  using plays_advance [of q] by (auto simp: mq_ended_def split: prod.split option.split)

lemma gone_step:
  assumes "gone n q"
  shows "gone n (snd (mq_step op q))"
proof -
  from assms have ok: "mq_ok q" and le: "n \<le> mq_entries q" and out: "n \<notin> qt_entry ` set (plays q)"
    by (auto simp: gone_def)
  then have "n \<notin> qt_entry ` set (plays (snd (mq_step op q)))"
    using plays_step(1) [OF ok, of op] by fastforce
  then show ?thesis
    using mq_step_ok [OF ok] plays_step(2) [OF ok, of op] le by (simp add: gone_def)
qed

lemma gone_run: "gone n q \<Longrightarrow> gone n (run_ops mq_step ops q)"
  by (induction ops arbitrary: q) (simp_all add: gone_step)

lemma gone_after_ended:
  assumes "mq_ok q" and "mq_now q = Some t" and "qt_entry t = n"
  shows "gone n (snd (mq_ended n q))"
proof -
  have p: "plays q = t # tl (plays q)" using assms(2) by (simp add: plays_def)
  have srt: "sorted_wrt (<) (map qt_entry (t # tl (plays q)))"
    using assms(1) p unfolding mq_ok_def by metis
  have le: "n \<le> mq_entries q" using entries_le [OF assms(1), of t] p assms(3) by (metis list.set_intros(1))
  have "plays (snd (mq_ended n q)) = tl (plays q)" using assms by (simp add: plays_ended)
  moreover have "n \<notin> qt_entry ` set (tl (plays q))" using srt assms(3) by auto
  moreover have "mq_ok (snd (mq_ended n q))" using mq_step_ok [OF assms(1), of "Ended n"] by simp
  ultimately show ?thesis
    using plays_step(2) [OF assms(1), of "Ended n"] le by (simp add: gone_def)
qed

subsection \<open>The queue as a bounded first-in first-out list\<close>

text \<open>The abstract queue: the plays in order and the last number given.\<close>

fun fifo_step :: "mq_op \<Rightarrow> queued_track list \<times> int \<Rightarrow> queued_track list \<times> int" where
  "fifo_step (Add t who) (ps, n) =
     (if length ps \<le> MaxWaiting
      then (ps @ [\<lparr>qt_track = t, qt_entry = n + 1, qt_requested_by = who\<rparr>], n + 1) else (ps, n))"
| "fifo_step Skip (ps, n) = (tl ps, n)"
| "fifo_step (Ended e) (ps, n) = (if map qt_entry (take 1 ps) = [e] then tl ps else ps, n)"
| "fifo_step Stop (ps, n) = ([], n)"
| "fifo_step op (ps, n) = (ps, n)"

definition fifo_of :: "music_queue \<Rightarrow> queued_track list \<times> int" where
  "fifo_of q = (plays q, mq_entries q)"

lemma full_plays: "mq_ok q \<Longrightarrow> mq_full q \<longleftrightarrow> \<not> length (plays q) \<le> MaxWaiting"
  by (auto simp: mq_full_def plays_def mq_ok_def split: option.split)

lemma fifo_add:
  assumes "mq_ok q"
  shows "fifo_of (snd (mq_add t who q)) = fifo_step (Add t who) (fifo_of q)"
proof (cases "mq_full q")
  case True
  then show ?thesis using full_plays [OF assms] by (simp add: mq_add_def fifo_of_def)
next
  case False
  then have "mq_entries (snd (mq_add t who q)) = mq_entries q + 1"
    by (simp add: mq_add_def Let_def split: option.split)
  then show ?thesis
    using plays_add [OF mq_ok_now [OF assms] False] full_plays [OF assms] False by (simp add: fifo_of_def)
qed

lemma entries_kept:
  "mq_entries (snd (mq_advance q)) = mq_entries q"
  "mq_entries (snd (mq_skip q)) = mq_entries q"
  "mq_entries (snd (mq_ended n q)) = mq_entries q"
  by (auto simp: mq_defs split: option.split list.split)

lemma head_entry:
  "mq_ok q \<Longrightarrow> map qt_entry (take 1 (plays q)) =
     (case mq_now q of None \<Rightarrow> [] | Some t \<Rightarrow> [qt_entry t])"
  using mq_ok_now [of q] by (auto simp: plays_def split: option.split)

lemma fifo_step_of:
  assumes "mq_ok q"
  shows "fifo_of (snd (mq_step op q)) = fifo_step op (fifo_of q)"
proof (cases op)
  case (Add t who)
  have "snd (mq_step op q) = snd (mq_add t who q)" using Add by (auto split: prod.split sum.split)
  then show ?thesis using fifo_add [OF assms] Add by simp
next
  case Skip
  have "snd (mq_step op q) = snd (mq_skip q)" using Skip by (auto split: prod.split sum.split)
  moreover have "plays q = []" if "mq_now q = None"
    using mq_ok_now [OF assms] that by (simp add: plays_def)
  ultimately show ?thesis using Skip by (auto simp: fifo_of_def plays_skip entries_kept)
next
  case (Ended n)
  then show ?thesis
    using head_entry [OF assms] by (auto simp: fifo_of_def plays_ended entries_kept split: option.split)
qed (auto simp: fifo_of_def mq_pause_def mq_resume_def mq_stop_def mq_set_volume_def plays_def)

lemma run_ops_ok: "mq_ok q \<Longrightarrow> mq_ok (run_ops mq_step ops q)"
  by (rule music.run_inv) (metis mq_step_ok snd_conv)

lemma fifo_run: "mq_ok q \<Longrightarrow> fifo_of (run_ops mq_step ops q) = fold fifo_step ops (fifo_of q)"
  by (induction ops arbitrary: q) (simp_all add: fifo_step_of mq_step_ok)

subsection \<open>Properties\<close>

text \<open>
  Every state a music queue can reach is sound: nothing waits and nothing is paused while
  nothing plays, at most \<open>MaxWaiting\<close> tracks wait, the volume is from 0 to \<open>MaxVolume\<close>, and the
  entries on the queue are distinct, in the order they were asked for, and none was given a number
  that was not issued.
\<close>

theorem music_queue_sound: "mq_ok (run_ops mq_step ops new_music_queue)"
  by (rule run_ops_ok [OF mq_ok_new])

text \<open>
  C39.  The queue is a bounded first-in first-out list: whatever the methods called, the track
  playing followed by the ones waiting is what the abstract list of at most \<open>MaxWaiting + 1\<close> plays
  holds, in which \<open>Add\<close> appends, \<open>Skip\<close> drops the head, \<open>Ended\<close> drops it only for its own number,
  \<open>Stop\<close> empties and nothing else changes the order.
\<close>

theorem music_queue_is_fifo:
  "fifo_of (run_ops mq_step ops new_music_queue) = fold fifo_step ops ([], 0)"
  using fifo_run [OF mq_ok_new, of ops] by (simp add: fifo_of_def new_music_queue_def plays_def)

text \<open>
  A report that an entry ended takes effect once: after the entry that is playing has been
  ended, and whatever happens to the queue meanwhile, a second report of the same entry changes
  nothing and starts nothing, so a late report never cuts off another track.
\<close>

theorem late_report_is_ignored:
  assumes "mq_now (run_ops mq_step before new_music_queue) = Some t"
  shows "mq_ended (qt_entry t)
             (run_ops mq_step later (snd (mq_ended (qt_entry t) (run_ops mq_step before new_music_queue)))) =
         ((None, False),
          run_ops mq_step later (snd (mq_ended (qt_entry t) (run_ops mq_step before new_music_queue))))"
proof -
  let ?q = "run_ops mq_step later (snd (mq_ended (qt_entry t) (run_ops mq_step before new_music_queue)))"
  have "gone (qt_entry t) ?q"
    by (rule gone_run [OF gone_after_ended [OF run_ops_ok [OF mq_ok_new] assms refl]])
  then have "\<forall>u. mq_now ?q = Some u \<longrightarrow> qt_entry u \<noteq> qt_entry t"
    by (auto simp: gone_def plays_def)
  then show ?thesis by (auto simp: mq_ended_def split: option.split)
qed

definition a_track :: track where
  "a_track = \<lparr>trk_id = ''x'', trk_source = ''yt'', trk_url = [], trk_title = ''Song'', trk_uploader = [],
              trk_duration = 1, trk_live = False, trk_playable = True, trk_requested_url = [],
              trk_thumbnail = []\<rparr>"

lemma late_report_is_ignored_witness:
  "mq_ended 1 (run_ops mq_step [Add a_track ''b''] (snd (mq_ended 1 (run_ops mq_step [Add a_track ''a'', Add a_track ''c''] new_music_queue)))) =
     ((None, False), run_ops mq_step [Add a_track ''b''] (snd (mq_ended 1 (run_ops mq_step [Add a_track ''a'', Add a_track ''c''] new_music_queue))))"
  using late_report_is_ignored [of "[Add a_track ''a'', Add a_track ''c'']"
      "\<lparr>qt_track = a_track, qt_entry = 1, qt_requested_by = ''a''\<rparr>" "[Add a_track ''b'']"]
  by (simp add: mq_defs mq_full_def new_music_queue_def MaxWaiting_def)

text \<open>
  A comment whose text is only quotes and spaces is not always empty: the quotes are trimmed
  after the spaces, and the space left between two quotes stays, so \<open>CommentLine\<close> gives a line that
  is not empty, where nothing usable is meant to be an empty line.
\<close>

theorem quoted_space_is_kept:
  "comment_line [CHR 0x22, CHR 0x20, CHR 0x22] = [CHR 0x20]"
  by code_simp

end
