(* ===== verification/Music_Sources.thy ===== *)
theory Music_Sources
  imports Music_Queue
begin

section \<open>Finding a track to play\<close>

text \<open>
  \<open>dokja_domain/dokja_communications/music.go\<close>.  The installed music sources are a parameter:
  functions that answer a list of names, or an action on one of them, and may change the world
  \<open>'w\<close>.  The Unicode tables of the package \<open>unicode\<close> are a parameter too: the lower case of a rune,
  and which runes are letters or digits.
\<close>

record 'w audio_sources =
  au_providers :: "'w \<Rightarrow> string list res \<times> 'w"
  au_invoke :: "string \<Rightarrow> string \<Rightarrow> gmap \<Rightarrow> 'w \<Rightarrow> gmap res \<times> 'w"

record unicode_tables =
  uc_lower :: "nat \<Rightarrow> nat"
  uc_letter :: "nat \<Rightarrow> bool"
  uc_digit :: "nat \<Rightarrow> bool"

definition ErrTrackRefused :: gerror where
  "ErrTrackRefused = Sentinel ''refused''"

definition ErrTrackNotFound :: gerror where
  "ErrTrackNotFound = Sentinel ''not found''"

definition duration_slack :: int where
  "duration_slack = 7"

definition other_versions :: "string list" where
  "other_versions =
     [''cover'', ''karaoke'', ''instrumental'', ''remix'', ''live'', ''ao'', ''vivo'', ''acoustic'',
      ''acustico'', ''slowed'', ''sped'', ''reverb'', ''8d'', ''nightcore'', ''tutorial'', ''lesson'']"

subsection \<open>Words\<close>

text \<open>The replaced letters by their code points, each with the letter that stands for it.\<close>

definition accent_table :: "(nat list \<times> string) list" where
  "accent_table =
     [([0xE1, 0xE0, 0xE2, 0xE3, 0xE4, 0xE5], ''a''), ([0xE7], ''c''), ([0xE9, 0xE8, 0xEA, 0xEB], ''e''),
      ([0xED, 0xEC, 0xEE, 0xEF], ''i''), ([0xF1], ''n''), ([0xF3, 0xF2, 0xF4, 0xF5, 0xF6], ''o''),
      ([0xFA, 0xF9, 0xFB, 0xFC], ''u''), ([0xFD, 0xFF], ''y'')]"

definition accents :: "(string \<times> string) list" where
  "accents = concat (map (\<lambda>(rs, plain). map (\<lambda>r. (encode_rune r, plain)) rs) accent_table)"

text \<open>\<open>strings.FieldsFunc\<close>: the maximal runs of runes that do not separate.\<close>

fun fields_func :: "(nat \<Rightarrow> bool) \<Rightarrow> nat list \<Rightarrow> nat list \<Rightarrow> nat list list" where
  "fields_func sep cur [] = (if cur = [] then [] else [rev cur])"
| "fields_func sep cur (r # rs) =
     (if sep r then (if cur = [] then [] else [rev cur]) @ fields_func sep [] rs
      else fields_func sep (r # cur) rs)"

definition track_words :: "unicode_tables \<Rightarrow> string \<Rightarrow> string list" where
  "track_words uc text =
     (let folded = replace_all accents (string_of_runes (map (uc_lower uc) (runes text)))
      in remdups (map string_of_runes
           (fields_func (\<lambda>r. \<not> uc_letter uc r \<and> \<not> uc_digit uc r) [] (runes folded))))"

definition same_title :: "string list \<Rightarrow> string list \<Rightarrow> bool" where
  "same_title title name = list_all (\<lambda>w. w \<in> set name) title"

definition another_version :: "string list \<Rightarrow> string list \<Rightarrow> bool" where
  "another_version title name = list_ex (\<lambda>w. w \<in> set other_versions \<and> w \<notin> set title) name"

subsection \<open>The best match\<close>

text \<open>The checks of the loop's \<open>continue\<close>s, on one candidate.\<close>

definition matches_song :: "unicode_tables \<Rightarrow> track \<Rightarrow> track \<Rightarrow> bool" where
  "matches_song uc song candidate =
     (let title = track_words uc (trk_title song); name = track_words uc (trk_title candidate)
      in if \<not> trk_playable candidate then False
         else if \<not> same_title title name \<or> another_version title name then False
         else \<not> (trk_duration song > 0 \<and> trk_duration candidate > 0 \<and>
                 \<bar>trk_duration song - trk_duration candidate\<bar> > duration_slack))"

definition shared_words :: "unicode_tables \<Rightarrow> track \<Rightarrow> track \<Rightarrow> int" where
  "shared_words uc song candidate =
     int (length (filter (\<lambda>w. w \<in> set (track_words uc (trk_uploader song)))
                         (track_words uc (trk_uploader candidate))))"

fun best_of :: "unicode_tables \<Rightarrow> track \<Rightarrow> track option \<Rightarrow> int \<Rightarrow> track list \<Rightarrow> track option" where
  "best_of uc song best best_shared [] = best"
| "best_of uc song best best_shared (c # cs) =
     (if \<not> matches_song uc song c then best_of uc song best best_shared cs
      else if shared_words uc song c > best_shared
      then best_of uc song (Some c) (shared_words uc song c) cs
      else best_of uc song best best_shared cs)"

definition best_match :: "unicode_tables \<Rightarrow> track \<Rightarrow> track list \<Rightarrow> track option" where
  "best_match uc song candidates =
     (if track_words uc (trk_title song) = [] then None
      else best_of uc song None (- 1) candidates)"

subsection \<open>What a source answers\<close>

definition web_thumbnail :: "string \<Rightarrow> bool" where
  "web_thumbnail s \<longleftrightarrow> length s \<le> 2048 \<and> (prefix ''https://'' s \<or> prefix ''http://'' s)"

definition track_of :: "gmap \<Rightarrow> track option" where
  "track_of m =
     (let t = \<lparr>trk_id = str_of (m ''id''), trk_source = str_of (m ''source''), trk_url = str_of (m ''url''),
               trk_title = str_of (m ''title''), trk_uploader = str_of (m ''uploader''),
               trk_duration = (case m ''duration_s'' of
                                 Some (VFloat f e) \<Rightarrow> if f > 0 then trunc_float f e else 0
                               | _ \<Rightarrow> 0),
               trk_live = bool_of (m ''live''), trk_playable = bool_of (m ''playable''),
               trk_requested_url = str_of (m ''requested_url''),
               trk_thumbnail = (if web_thumbnail (str_of (m ''thumbnail'')) then str_of (m ''thumbnail'') else [])\<rparr>
      in if trk_title t = [] \<or> (trk_playable t \<and> trk_url t = []) then None else Some t)"

text \<open>The items of a \<open>[]any\<close> that are maps.\<close>

fun maps_in :: "gval list \<Rightarrow> gmap list" where
  "maps_in [] = []"
| "maps_in (VMap kvs # vs) = map_of kvs # maps_in vs"
| "maps_in (_ # vs) = maps_in vs"

fun tracks_field :: "gval option \<Rightarrow> gval list" where
  "tracks_field (Some (VList xs)) = xs"
| "tracks_field _ = []"

text \<open>\<open>Inr None\<close>: the source does not handle the request.\<close>

definition ask :: "'w audio_sources \<Rightarrow> string \<Rightarrow> string \<Rightarrow> gmap \<Rightarrow> 'w \<Rightarrow> track list option res \<times> 'w" where
  "ask sources provider action input w =
     (case au_invoke sources provider action input w of
        (Inl e, w') \<Rightarrow> (Inl (Wrapf (provider @ '': '') e), w')
      | (Inr result, w') \<Rightarrow>
          if \<not> bool_of (result ''handled'') then (Inr None, w')
          else if str_of (result ''refused'') \<noteq> []
          then (Inl (Wrap_Then ErrTrackRefused ('': '' @ str_of (result ''refused''))), w')
          else (Inr (Some (List.map_filter track_of (maps_in (tracks_field (result ''tracks''))))), w'))"

definition not_found :: "string \<Rightarrow> string list \<Rightarrow> gerror" where
  "not_found message failures =
     (if failures \<noteq> []
      then Wrap_Then ErrTrackNotFound ('': '' @ message @ '' (sources failed: '' @ join_with ''; '' failures @ '')'')
      else Wrap_Then ErrTrackNotFound ('': '' @ message))"

subsection \<open>Asking the sources in order\<close>

text \<open>
  The loop the three searches share: a refusal ends it, an error is kept for the message, a source
  that does not handle the request is passed over, and \<open>pick\<close> says what an answer gives, \<open>None\<close>
  going on to the next source.
\<close>

fun ask_each ::
    "'w audio_sources \<Rightarrow> string \<Rightarrow> gmap \<Rightarrow> (track list \<Rightarrow> track res option) \<Rightarrow> string \<Rightarrow> string list \<Rightarrow>
     string list \<Rightarrow> 'w \<Rightarrow> track res \<times> 'w" where
  "ask_each sources action input pick message failures [] w = (Inl (not_found message failures), w)"
| "ask_each sources action input pick message failures (p # ps) w =
     (case ask sources p action input w of
        (Inl e, w') \<Rightarrow>
          if errors_is e ErrTrackRefused then (Inl e, w')
          else ask_each sources action input pick message (failures @ [err_text e]) ps w'
      | (Inr None, w') \<Rightarrow> ask_each sources action input pick message failures ps w'
      | (Inr (Some tracks), w') \<Rightarrow>
          (case pick tracks of
             Some r \<Rightarrow> (r, w')
           | None \<Rightarrow> ask_each sources action input pick message failures ps w'))"

definition first_searched :: "'w audio_sources \<Rightarrow> string list \<Rightarrow> string \<Rightarrow> 'w \<Rightarrow> track res \<times> 'w" where
  "first_searched sources providers query =
     ask_each sources ''search'' [''query'' \<mapsto> VStr query, ''limit'' \<mapsto> VInt 1]
       (\<lambda>tracks. map_option Inr (find trk_playable tracks))
       (''nothing found for '' @ go_quote query) [] providers"

definition first_read :: "'w audio_sources \<Rightarrow> string list \<Rightarrow> string \<Rightarrow> 'w \<Rightarrow> track res \<times> 'w" where
  "first_read sources providers link =
     ask_each sources ''read'' [''url'' \<mapsto> VStr link]
       (\<lambda>tracks. Some (case tracks of
          [] \<Rightarrow> Inl (not_found ''that link names no song'' [])
        | t # _ \<Rightarrow> Inr (t\<lparr>trk_requested_url := link\<rparr>)))
       ''no installed source recognizes that link'' [] providers"

definition same_recording ::
    "unicode_tables \<Rightarrow> 'w audio_sources \<Rightarrow> string list \<Rightarrow> track \<Rightarrow> 'w \<Rightarrow> track res \<times> 'w" where
  "same_recording uc sources providers song =
     ask_each sources ''search''
       [''query'' \<mapsto> VStr (trim_space (trk_uploader song @ '' '' @ trk_title song)), ''limit'' \<mapsto> VInt 5]
       (\<lambda>tracks. map_option Inr (best_match uc song tracks))
       (''could not find '' @ go_quote (trk_title song) @ '' by '' @ trk_uploader song @ '' to play'') [] providers"

definition resolve_track ::
    "unicode_tables \<Rightarrow> 'w audio_sources \<Rightarrow> track_request \<Rightarrow> 'w \<Rightarrow> track res \<times> 'w" where
  "resolve_track uc sources request w =
     (let query = join_with '' '' (go_fields (req_query request)); link = trim_space (req_url request)
      in if (query = []) = (link = [])
         then (Inl (Wrap_Then ErrTrackRefused '': give a few words or a link''), w)
         else case au_providers sources w of
           (Inl e, w1) \<Rightarrow> (Inl e, w1)
         | (Inr providers, w1) \<Rightarrow>
             if providers = [] then (Inl (Wrap_Then ErrTrackNotFound '': no music source is installed''), w1)
             else if query \<noteq> [] then first_searched sources providers query w1
             else (case first_read sources providers link w1 of
                     (Inl e, w2) \<Rightarrow> (Inl e, w2)
                   | (Inr named, w2) \<Rightarrow>
                       if trk_playable named then (Inr named, w2)
                       else (case same_recording uc sources providers named w2 of
                               (Inl e, w3) \<Rightarrow> (Inl e, w3)
                             | (Inr found, w3) \<Rightarrow>
                                 (Inr (found\<lparr>trk_requested_url := link,
                                             trk_thumbnail := (if trk_thumbnail named \<noteq> [] then trk_thumbnail named
                                                               else trk_thumbnail found)\<rparr>), w3))))"

subsection \<open>Facts\<close>

text \<open>A track as a source may describe it.\<close>

definition track_ok :: "track \<Rightarrow> bool" where
  "track_ok t \<longleftrightarrow> trk_title t \<noteq> [] \<and> (trk_playable t \<longrightarrow> trk_url t \<noteq> []) \<and>
     (trk_thumbnail t = [] \<or> web_thumbnail (trk_thumbnail t))"

lemma track_of_ok: "track_of m = Some t \<Longrightarrow> track_ok t"
  by (auto simp: track_of_def track_ok_def Let_def split: if_splits)

lemma ask_ok:
  "ask sources p action input w = (Inr (Some ts), w') \<Longrightarrow> t \<in> set ts \<Longrightarrow> track_ok t"
  by (auto simp: ask_def map_filter_def track_of_ok split: sum.splits if_splits prod.splits)

text \<open>What every search of the sources gives: what \<open>pick\<close> gives for a described list, or one error.\<close>

lemma ask_each_result:
  assumes "ask_each sources action input pick message failures ps w = (Inr t, w')"
  shows "\<exists>ts. pick ts = Some (Inr t) \<and> (\<forall>u \<in> set ts. track_ok u)"
  using assms
proof (induction ps arbitrary: failures w)
  case (Cons p ps)
  obtain answer w1 where a: "ask sources p action input w = (answer, w1)" by force
  show ?case
  proof (cases answer)
    case (Inl e)
    then show ?thesis using Cons a by (auto split: if_splits)
  next
    case (Inr r)
    show ?thesis
    proof (cases r)
      case None
      then show ?thesis using Cons a Inr by auto
    next
      case (Some ts)
      then have "\<forall>u \<in> set ts. track_ok u" using ask_ok [of sources p action input w ts w1] a Inr by simp
      then show ?thesis using Cons a Inr Some by (auto split: option.splits)
    qed
  qed
qed simp

lemma not_found_is: "errors_is (not_found message failures) ErrTrackNotFound"
  by (simp add: not_found_def ErrTrackNotFound_def)

lemma ask_each_error:
  assumes "ask_each sources action input pick message failures ps w = (Inl e, w')"
    and "\<And>ts e. pick ts = Some (Inl e) \<Longrightarrow> errors_is e ErrTrackNotFound"
  shows "errors_is e ErrTrackRefused \<or> errors_is e ErrTrackNotFound"
  using assms(1)
proof (induction ps arbitrary: failures w)
  case Nil
  then show ?case using not_found_is by auto
next
  case (Cons p ps)
  obtain answer w1 where a: "ask sources p action input w = (answer, w1)" by force
  show ?case
    using Cons a assms(2)
    by (cases answer) (auto split: if_splits option.splits)
qed

text \<open>The reference: the first of the matching candidates that share the most words.\<close>

definition most_shared :: "unicode_tables \<Rightarrow> track \<Rightarrow> track list \<Rightarrow> track option" where
  "most_shared uc song ms =
     find (\<lambda>c. list_all (\<lambda>u. shared_words uc song u \<le> shared_words uc song c) ms) ms"

lemma best_of_most_shared:
  "best_of uc song best n cs =
     (let ms = filter (matches_song uc song) cs
      in if list_all (\<lambda>u. shared_words uc song u \<le> n) ms then best else most_shared uc song ms)"
proof (induction cs arbitrary: best n)
  case (Cons c cs)
  let ?ms = "filter (matches_song uc song) cs" and ?s = "shared_words uc song"
  have skip: "most_shared uc song (c # ?ms) = most_shared uc song ?ms"
    if "u \<in> set ?ms" and "?s c < ?s u" for u
  proof -
    have "list_all (\<lambda>v. ?s v \<le> ?s x) (c # ?ms) \<longleftrightarrow> list_all (\<lambda>v. ?s v \<le> ?s x) ?ms" for x
      using that by (auto simp: list_all_iff)
    moreover have "\<not> list_all (\<lambda>v. ?s v \<le> ?s c) (c # ?ms)"
      using that by (auto simp: list_all_iff)
    ultimately show ?thesis by (simp add: most_shared_def)
  qed
  show ?case
  proof (cases "matches_song uc song c")
    case True
    consider "?s c > n" "list_all (\<lambda>u. ?s u \<le> ?s c) ?ms" | u where "?s c > n" "u \<in> set ?ms" "?s c < ?s u"
      | "?s c \<le> n" "list_all (\<lambda>u. ?s u \<le> n) ?ms" | u where "?s c \<le> n" "u \<in> set ?ms" "n < ?s u"
      by (auto simp: list_all_iff) (meson not_le)+
    then show ?thesis
    proof cases
      case 1
      then show ?thesis using True Cons by (simp add: most_shared_def)
    next
      case (2 u)
      then have "\<not> list_all (\<lambda>u. ?s u \<le> ?s c) ?ms" by (auto simp: list_all_iff)
      then show ?thesis using 2 True Cons skip [of u] by (simp add: Let_def)
    next
      case 3
      then show ?thesis using True Cons by simp
    next
      case (4 u)
      then have "\<not> list_all (\<lambda>u. ?s u \<le> n) ?ms" by (auto simp: list_all_iff)
      then show ?thesis using 4 True Cons skip [of u] by (simp add: Let_def)
    qed
  qed (simp add: Cons)
qed simp

lemma best_match_matches:
  assumes "best_match uc song cs = Some t"
  shows "t \<in> set cs" and "matches_song uc song t"
  using assms
  by (auto simp: best_match_def best_of_most_shared most_shared_def find_Some_iff Let_def
      split: if_splits) (metis (no_types, lifting) mem_Collect_eq nth_mem set_filter)+

lemma matches_playable: "matches_song uc song t \<Longrightarrow> trk_playable t"
  by (auto simp: matches_song_def Let_def split: if_splits)

lemma first_searched_ok:
  assumes "first_searched sources ps query w = (Inr t, w')"
  shows "track_ok t \<and> trk_playable t"
  using ask_each_result [OF assms [unfolded first_searched_def]]
  by (auto simp: find_Some_iff)

lemma first_read_ok:
  assumes "first_read sources ps link w = (Inr t, w')"
  shows "track_ok t \<and> trk_requested_url t = link"
proof -
  obtain ts where "Some (case ts of [] \<Rightarrow> Inl (not_found ''that link names no song'' [])
                          | u # _ \<Rightarrow> Inr (u\<lparr>trk_requested_url := link\<rparr>)) = Some (Inr t)"
    and "\<forall>u \<in> set ts. track_ok u"
    using ask_each_result [OF assms [unfolded first_read_def]] by blast
  then show ?thesis by (cases ts) (auto simp: track_ok_def)
qed

lemma same_recording_ok:
  assumes "same_recording uc sources ps song w = (Inr t, w')"
  shows "track_ok t \<and> trk_playable t"
  using ask_each_result [OF assms [unfolded same_recording_def]]
  by (auto dest: best_match_matches matches_playable)

lemma search_errors:
  "first_searched sources ps query w = (Inl e, w') \<Longrightarrow> errors_is e ErrTrackRefused \<or> errors_is e ErrTrackNotFound"
  "first_read sources ps link w = (Inl e, w') \<Longrightarrow> errors_is e ErrTrackRefused \<or> errors_is e ErrTrackNotFound"
  "same_recording uc sources ps song w = (Inl e, w') \<Longrightarrow> errors_is e ErrTrackRefused \<or> errors_is e ErrTrackNotFound"
  unfolding first_searched_def first_read_def same_recording_def
  by (erule ask_each_error; auto simp: not_found_is split: list.splits)+

subsection \<open>Properties\<close>

text \<open>
  The best match is the first of the candidates that are the same recording and share the most
  words of the artist: the loop with its running best agrees with picking it from the list of all
  matching candidates, whatever they are.
\<close>

theorem best_match_is_first_most_shared:
  "best_match uc song candidates =
     (if track_words uc (trk_title song) = [] then None
      else most_shared uc song (filter (matches_song uc song) candidates))"
proof -
  have "list_all (\<lambda>u. shared_words uc song u \<le> - 1) ms \<longleftrightarrow> ms = []" for ms
    by (cases ms) (auto simp: shared_words_def)
  then show ?thesis
    by (simp add: best_match_def best_of_most_shared Let_def) (simp add: most_shared_def)
qed

text \<open>
  A resolved track can be played: whatever the sources answer, a track \<open>ResolveTrack\<close> gives is
  playable, has an address and a title, carries no picture that is not an http(s) address of at
  most 2048 bytes, and remembers the link that was asked for; and a failure is a refusal, that
  nothing was found, or the failure to list the sources.
\<close>

theorem resolved_track_is_playable:
  "case fst (resolve_track uc sources request w) of
     Inr t \<Rightarrow> trk_playable t \<and> trk_url t \<noteq> [] \<and> trk_title t \<noteq> [] \<and>
       (if trk_thumbnail t = [] then True else web_thumbnail (trk_thumbnail t)) \<and>
       (if trim_space (req_url request) = [] then True
        else trk_requested_url t = trim_space (req_url request))
   | Inl e \<Rightarrow> errors_is e ErrTrackRefused \<or> errors_is e ErrTrackNotFound \<or>
       fst (au_providers sources w) = Inl e"
proof -
  obtain prov w1 where p: "au_providers sources w = (prov, w1)" by force
  show ?thesis
  proof (cases prov)
    case (Inr ps)
    note e = search_errors
    let ?link = "trim_space (req_url request)" and ?query = "join_with '' '' (go_fields (req_query request))"
    consider "(?query = []) = (?link = [])" | "ps = []" | "?query \<noteq> []" "?link = []" "ps \<noteq> []"
      | "?query = []" "?link \<noteq> []" "ps \<noteq> []" by blast
    then show ?thesis
    proof cases
      case 3
      obtain r w2 where r: "first_searched sources ps ?query w1 = (r, w2)" by force
      then show ?thesis
        using 3 p Inr e(1) [of sources ps ?query w1] first_searched_ok [of sources ps ?query w1]
        by (cases r) (auto simp: resolve_track_def Let_def track_ok_def)
    next
      case 4
      obtain r w2 where r: "first_read sources ps ?link w1 = (r, w2)" by force
      show ?thesis
      proof (cases r)
        case (Inr named)
        note ok = first_read_ok [OF r [unfolded Inr]]
        obtain s w3 where s: "same_recording uc sources ps named w2 = (s, w3)" by force
        have "resolve_track uc sources request w =
                (if trk_playable named then (Inr named, w2) else case s of Inl e \<Rightarrow> (Inl e, w3)
                 | Inr found \<Rightarrow> (Inr (found\<lparr>trk_requested_url := ?link,
                     trk_thumbnail := (if trk_thumbnail named \<noteq> [] then trk_thumbnail named
                                       else trk_thumbnail found)\<rparr>), w3))"
          using 4 p r s Inr \<open>prov = Inr ps\<close> by (simp add: resolve_track_def Let_def split: sum.split)
        then show ?thesis
          using ok e(3) [of uc sources ps named w2] same_recording_ok [of uc sources ps named w2] s
          by (cases s) (auto simp: track_ok_def)
      qed (use 4 p r \<open>prov = Inr ps\<close> e(2) [of sources ps ?link w1] in \<open>auto simp: resolve_track_def Let_def\<close>)
    qed (use p Inr in \<open>auto simp: resolve_track_def Let_def ErrTrackRefused_def ErrTrackNotFound_def\<close>)
  qed (use p in \<open>auto simp: resolve_track_def Let_def ErrTrackRefused_def ErrTrackNotFound_def\<close>)
qed

end
