(* ===== verification/Inbound_Policy.thy ===== *)
theory Inbound_Policy
  imports Go_Strings
begin

section \<open>Which inbound messages are answered\<close>

text \<open>
  \<open>dokja_domain/dokja_communications/inbound.go\<close>: the policy read from the configuration, the
  decision on one message, and the comparison of phone numbers however WhatsApp spells them.  The
  three regular expressions are written out as functions on byte strings.
\<close>

subsection \<open>Policy and intent\<close>

record inbound_policy =
  ip_discord_guild_ids :: "string list"
  ip_discord_channels :: "string list"
  ip_discord_dm_open :: bool
  ip_discord_need_mention :: bool
  ip_whatsapp_self_chat :: bool
  ip_whatsapp_numbers :: "string list"
  ip_whatsapp_groups :: "string list"

record inbound_intent =
  ii_platform :: string
  ii_entry :: string
  ii_channel_id :: string
  ii_guild_id :: string
  ii_chat_kind :: string
  ii_direct :: bool
  ii_mentioned :: bool
  ii_self_chat :: bool
  ii_sender_numbers :: "string list"

subsection \<open>Phone numbers\<close>

text \<open>
  \<open>^55(\d{2})9?([6-9]\d{7})$\<close>: the length decides whether the optional 9 is there.  The result is
  the two groups.
\<close>

definition mobile_tail :: "string \<Rightarrow> bool" where
  "mobile_tail s \<longleftrightarrow>
     length s = 8 \<and> list_all digit s \<and> 54 \<le> byte (hd s) \<and> byte (hd s) \<le> 57"

definition brazilian_mobile :: "string \<Rightarrow> (string \<times> string) option" where
  "brazilian_mobile s =
     (let area = take 2 (drop 2 s);
          tail = (if length s = 13 \<and> s ! 4 = CHR ''9'' then drop 5 s else drop 4 s)
      in if prefix ''55'' s \<and> length area = 2 \<and> list_all digit area \<and> mobile_tail tail
         then Some (area, tail) else None)"

definition equivalent_numbers :: "string \<Rightarrow> string list" where
  "equivalent_numbers number =
     (case brazilian_mobile number of
        None \<Rightarrow> [number]
      | Some (area, tail) \<Rightarrow> [''55'' @ area @ ''9'' @ tail, ''55'' @ area @ tail])"

definition wanted_numbers :: "string list \<Rightarrow> string list" where
  "wanted_numbers numbers = concat (map equivalent_numbers numbers)"

definition number_allowed :: "string list \<Rightarrow> string list \<Rightarrow> bool" where
  "number_allowed numbers candidates =
     list_ex (\<lambda>c. list_ex (\<lambda>s. s \<in> set (wanted_numbers numbers)) (equivalent_numbers c)) candidates"

definition same_number :: "string \<Rightarrow> string list \<Rightarrow> bool" where
  "same_number number candidates = number_allowed [number] candidates"

subsection \<open>The decision\<close>

definition authorize_inbound :: "inbound_policy \<Rightarrow> inbound_intent \<Rightarrow> bool" where
  "authorize_inbound p r =
     (if ii_channel_id r = [] then False
      else if ii_platform r = ''discord'' then
        (if ii_entry r \<noteq> ''message'' \<and> ii_entry r \<noteq> ''command'' then False
         else if ii_direct r then ip_discord_dm_open p
         else if ii_guild_id r = [] then False
         else if ip_discord_guild_ids p \<noteq> [] \<and> \<not> contains_str (ip_discord_guild_ids p) (ii_guild_id r) then False
         else if ip_discord_channels p \<noteq> [] \<and> \<not> contains_str (ip_discord_channels p) (ii_channel_id r) then False
         else ii_entry r = ''command'' \<or> \<not> ip_discord_need_mention p \<or> ii_mentioned r)
      else if ii_platform r = ''whatsapp'' then
        (if ii_entry r \<noteq> ''message'' then False
         else if ii_self_chat r then ii_chat_kind r = ''direct'' \<and> ip_whatsapp_self_chat p
         else if ii_chat_kind r = ''direct'' then
           number_allowed (ip_whatsapp_numbers p) (ii_sender_numbers r)
         else if ii_chat_kind r = ''group'' then
           contains_str (ip_whatsapp_groups p) (ii_channel_id r) \<and> ii_mentioned r
         else False)
      else False)"

subsection \<open>Reading the configuration\<close>

text \<open>\<open>^[0-9]+(-[0-9]+)*@g\.us$\<close>.\<close>

definition whatsapp_group :: "string \<Rightarrow> bool" where
  "whatsapp_group s \<longleftrightarrow>
     suffix ''@g.us'' s \<and>
     list_all (\<lambda>part. part \<noteq> [] \<and> list_all digit part) (split_on CHR ''-'' (trim_suffix s ''@g.us''))"

definition phone_formatting :: "(string \<times> string) list" where
  "phone_formatting =
     [('' '', []), ([CHR 0x09], []), (''('', []), ('')'', []), (''.'', []), (''+'', []), (''-'', [])]"

definition parse_flag :: "string \<Rightarrow> bool \<Rightarrow> bool res" where
  "parse_flag text fallback =
     (let v = to_lower_ascii (trim_space text)
      in if v = [] then Inr fallback
         else if v = ''true'' \<or> v = ''1'' then Inr True
         else if v = ''false'' \<or> v = ''0'' then Inr False
         else Inl (Errorf ''invalid boolean''))"

definition default_value :: "string \<Rightarrow> string \<Rightarrow> string" where
  "default_value text fallback = (let v = trim_space text in if v \<noteq> [] then v else fallback)"

definition split_configured :: "string \<Rightarrow> string list" where
  "split_configured text = filter (\<lambda>p. p \<noteq> []) (map trim_space (split_on CHR '','' text))"

text \<open>A missing key of a Go map of strings reads as the empty string.\<close>

definition setting :: "(string \<rightharpoonup> string) \<Rightarrow> string \<Rightarrow> string" where
  "setting config k = (case config k of None \<Rightarrow> [] | Some v \<Rightarrow> v)"

definition digit_cutset :: "string list" where
  "digit_cutset = map (\<lambda>c. [c]) ''0123456789''"

definition valid_number :: "string \<Rightarrow> bool" where
  "valid_number n \<longleftrightarrow> \<not> (length n < 7 \<or> length n > 15 \<or> trim_cutset digit_cutset n \<noteq> [])"

fun parse_numbers :: "string list \<Rightarrow> string list res" where
  "parse_numbers [] = Inr []"
| "parse_numbers (raw # rest) =
     (let number = replace_all phone_formatting raw
      in if \<not> valid_number number
         then Inl (Errorf ''DOKJA_WHATSAPP_ALLOW_FROM has an invalid entry'')
         else case parse_numbers rest of
                Inl e \<Rightarrow> Inl e
              | Inr ns \<Rightarrow> Inr (number # ns))"

definition parse_inbound_policy :: "(string \<rightharpoonup> string) \<Rightarrow> inbound_policy res" where
  "parse_inbound_policy config =
     (case parse_flag (setting config ''DOKJA_WHATSAPP_SELF_CHAT'') True of
        Inl _ \<Rightarrow> Inl (Errorf ''DOKJA_WHATSAPP_SELF_CHAT must be true or false'')
      | Inr self_chat \<Rightarrow>
          (case parse_flag (setting config ''DISCORD_REQUIRE_MENTION'') False of
             Inl _ \<Rightarrow> Inl (Errorf ''DISCORD_REQUIRE_MENTION must be true or false'')
           | Inr need_mention \<Rightarrow>
               (let p = \<lparr>ip_discord_guild_ids = split_configured (setting config ''DISCORD_GUILD_ID''),
                         ip_discord_channels = split_configured (setting config ''DISCORD_ALLOWED_CHANNELS''),
                         ip_discord_dm_open = (default_value (setting config ''DISCORD_DM_POLICY'') ''open'' = ''open''),
                         ip_discord_need_mention = need_mention,
                         ip_whatsapp_self_chat = self_chat,
                         ip_whatsapp_numbers = split_configured (setting config ''DOKJA_WHATSAPP_ALLOW_FROM''),
                         ip_whatsapp_groups = split_configured (setting config ''DOKJA_WHATSAPP_ALLOWED_GROUPS'')\<rparr>
                in case parse_numbers (ip_whatsapp_numbers p) of
                     Inl e \<Rightarrow> Inl e
                   | Inr numbers \<Rightarrow>
                       if list_ex (\<lambda>g. \<not> whatsapp_group g) (ip_whatsapp_groups p)
                       then Inl (Errorf ''DOKJA_WHATSAPP_ALLOWED_GROUPS has an invalid entry'')
                       else Inr (p\<lparr>ip_whatsapp_numbers := numbers\<rparr>))))"

subsection \<open>One spelling per number\<close>

text \<open>The long spelling of a Brazilian mobile number; any other number is its own.\<close>

definition canonical_number :: "string \<Rightarrow> string" where
  "canonical_number n =
     (case brazilian_mobile n of None \<Rightarrow> n | Some (area, tail) \<Rightarrow> ''55'' @ area @ ''9'' @ tail)"

definition mobile_parts :: "string \<Rightarrow> string \<Rightarrow> bool" where
  "mobile_parts area tail \<longleftrightarrow> length area = 2 \<and> list_all digit area \<and> mobile_tail tail"

lemma mobile_long: "mobile_parts a t \<Longrightarrow> brazilian_mobile (''55'' @ a @ ''9'' @ t) = Some (a, t)"
  by (auto simp: brazilian_mobile_def mobile_parts_def mobile_tail_def nth_append Let_def)

lemma mobile_short: "mobile_parts a t \<Longrightarrow> brazilian_mobile (''55'' @ a @ t) = Some (a, t)"
  by (auto simp: brazilian_mobile_def mobile_parts_def mobile_tail_def nth_append Let_def)

lemma mobile_cases:
  assumes "brazilian_mobile s = Some (a, t)"
  shows "mobile_parts a t" and "s = ''55'' @ a @ ''9'' @ t \<or> s = ''55'' @ a @ t"
proof -
  show "mobile_parts a t"
    using assms by (auto simp: brazilian_mobile_def mobile_parts_def Let_def split: if_splits)
  have a: "a = take 2 (drop 2 s)" and pre: "prefix ''55'' s" and la: "length a = 2"
    using assms by (auto simp: brazilian_mobile_def Let_def split: if_splits)
  have s: "s = ''55'' @ a @ drop 4 s"
    using pre a by (auto simp: prefix_def)
  have "t = drop 4 s \<or> (length s = 13 \<and> s ! 4 = CHR ''9'' \<and> t = drop 5 s)"
    using assms by (auto simp: brazilian_mobile_def Let_def split: if_splits)
  moreover have "length s = 13 \<Longrightarrow> drop 4 s = s ! 4 # drop 5 s"
    using Cons_nth_drop_Suc [of 4 s] by simp
  ultimately show "s = ''55'' @ a @ ''9'' @ t \<or> s = ''55'' @ a @ t"
    using s by (metis append_Cons append_Nil)
qed

lemma spelling_mobile:
  "s \<in> set (equivalent_numbers b) \<Longrightarrow> brazilian_mobile b = Some (ar, t) \<Longrightarrow> brazilian_mobile s = Some (ar, t)"
  using mobile_cases(1) [of b ar t] mobile_long [of ar t] mobile_short [of ar t]
  by (auto simp: equivalent_numbers_def)

lemma canonical_spelling: "canonical_number b \<in> set (equivalent_numbers b)"
  by (auto simp: canonical_number_def equivalent_numbers_def split: option.split)

lemma spellings_share:
  "(\<exists>s. s \<in> set (equivalent_numbers a) \<and> s \<in> set (equivalent_numbers b)) \<longleftrightarrow>
   canonical_number a = canonical_number b"
proof (cases "brazilian_mobile a")
  case None
  have "a \<notin> set (equivalent_numbers b)" and "a \<noteq> canonical_number b" if "brazilian_mobile b \<noteq> None"
    using None that spelling_mobile [of _ b] canonical_spelling [of b] by (metis option.distinct(1) surj_pair not_None_eq)+
  then show ?thesis
    using None by (cases "brazilian_mobile b") (auto simp: equivalent_numbers_def [of a] canonical_number_def,
      auto simp: equivalent_numbers_def)
next
  case (Some x)
  obtain ar t where x: "x = (ar, t)" by force
  note pa = mobile_cases(1) [OF Some [unfolded x]]
  show ?thesis
  proof (cases "brazilian_mobile b")
    case None
    have "b \<noteq> ''55'' @ ar @ ''9'' @ t" and "b \<noteq> ''55'' @ ar @ t"
      using None mobile_long [OF pa] mobile_short [OF pa] by (metis option.distinct(1))+
    then show ?thesis using None Some x by (auto simp: equivalent_numbers_def canonical_number_def)
  next
    case (Some y)
    obtain br u where y: "y = (br, u)" by force
    note pb = mobile_cases(1) [OF Some [unfolded y]]
    have "length t = 8" and "length u = 8" and "length ar = 2" and "length br = 2"
      using pa pb by (auto simp: mobile_parts_def mobile_tail_def)
    then show ?thesis
      using Some \<open>brazilian_mobile a = Some x\<close> x y by (auto simp: equivalent_numbers_def canonical_number_def)
  qed
qed

lemma number_allowed_canonical:
  "number_allowed numbers candidates \<longleftrightarrow>
   set (map canonical_number candidates) \<inter> set (map canonical_number numbers) \<noteq> {}"
proof -
  have "number_allowed numbers candidates \<longleftrightarrow>
          (\<exists>c \<in> set candidates. \<exists>n \<in> set numbers.
             \<exists>s. s \<in> set (equivalent_numbers c) \<and> s \<in> set (equivalent_numbers n))"
    by (auto simp: number_allowed_def wanted_numbers_def list_ex_iff)
  also have "\<dots> \<longleftrightarrow> (\<exists>c \<in> set candidates. \<exists>n \<in> set numbers. canonical_number c = canonical_number n)"
    by (simp only: spellings_share)
  finally show ?thesis by force
qed

subsection \<open>What a parsed policy holds\<close>

lemma parse_numbers_Inr:
  "parse_numbers raw = Inr ns \<Longrightarrow>
   ns = map (replace_all phone_formatting) raw \<and> list_all valid_number ns"
  by (induction raw arbitrary: ns) (auto simp: Let_def split: if_splits sum.splits)

lemma digit_char_iff: "c \<in> set ''0123456789'' \<longleftrightarrow> digit c"
proof -
  have "c \<in> set ''0123456789''" if "digit c"
  proof -
    from that have "byte c \<in> {48, 49, 50, 51, 52, 53, 54, 55, 56, 57}" unfolding digit_def by (simp; arith)
    then have "c \<in> char_of ` {48, 49, 50, 51, 52, 53, 54, 55, 56, 57 :: nat}" by (metis char_of_char imageI)
    then show ?thesis by (simp add: char_of_def bit_0)
  qed
  moreover have "digit c" if "c \<in> set ''0123456789''" using that by (auto simp: digit_def)
  ultimately show ?thesis by blast
qed

lemma valid_number_iff: "valid_number n \<longleftrightarrow> 7 \<le> length n \<and> length n \<le> 15 \<and> list_all digit n"
proof -
  have "trim_cutset digit_cutset n = [] \<longleftrightarrow> list_all digit n"
    unfolding digit_cutset_def trim_bytes_empty by (simp only: digit_char_iff)
  then show ?thesis by (auto simp: valid_number_def)
qed

lemma parse_policy_parts:
  assumes "parse_inbound_policy config = Inr p"
  shows "parse_numbers (split_configured (setting config ''DOKJA_WHATSAPP_ALLOW_FROM'')) = Inr (ip_whatsapp_numbers p)"
    and "ip_whatsapp_groups p = split_configured (setting config ''DOKJA_WHATSAPP_ALLOWED_GROUPS'')"
    and "list_all whatsapp_group (ip_whatsapp_groups p)"
    and "parse_flag (setting config ''DOKJA_WHATSAPP_SELF_CHAT'') True = Inr (ip_whatsapp_self_chat p)"
    and "parse_flag (setting config ''DISCORD_REQUIRE_MENTION'') False = Inr (ip_discord_need_mention p)"
    and "ip_discord_guild_ids p = split_configured (setting config ''DISCORD_GUILD_ID'')"
  using assms
  by (auto simp: parse_inbound_policy_def Let_def list_ex_iff list_all_iff split: sum.splits if_splits)

subsection \<open>Properties\<close>

text \<open>
  Comparing phone numbers is comparing one spelling: \<open>numberAllowed\<close> holds exactly when an
  allowed number and a candidate have the same canonical spelling, the one with the mobile 9 of a
  Brazilian number, so that it does not matter which of the two spellings the configuration or
  WhatsApp uses and numbers that are not Brazilian mobiles only match themselves.
\<close>

theorem numbers_match_canonically:
  "number_allowed numbers candidates \<longleftrightarrow>
   set (map canonical_number candidates) \<inter> set (map canonical_number numbers) \<noteq> {}"
  by (rule number_allowed_canonical)

text \<open>
  C35.  A WhatsApp message is answered only on what the configuration names: with a parsed policy
  an authorized message is a chat message in a named chat, and it is the owner's own chat with
  self-chat on, or a direct chat with a sender whose number is, up to spelling, a configured entry
  of seven to fifteen digits once the formatting is taken out, or a configured well-formed group in
  which Ningo is mentioned.
\<close>

theorem whatsapp_answers_named_only:
  assumes "parse_inbound_policy config = Inr p"
    and "authorize_inbound p r" and "ii_platform r = ''whatsapp''"
  shows "ii_channel_id r \<noteq> [] \<and> ii_entry r = ''message'' \<and>
    (if ii_self_chat r then
       ii_chat_kind r = ''direct'' \<and>
       parse_flag (setting config ''DOKJA_WHATSAPP_SELF_CHAT'') True = Inr True
     else if ii_chat_kind r = ''direct'' then
       (\<exists>raw n. raw \<in> set (split_configured (setting config ''DOKJA_WHATSAPP_ALLOW_FROM'')) \<and>
          n \<in> set (ii_sender_numbers r) \<and>
          list_all digit (replace_all phone_formatting raw) \<and>
          length (replace_all phone_formatting raw) \<in> {7..15} \<and>
          canonical_number n = canonical_number (replace_all phone_formatting raw))
     else ii_chat_kind r = ''group'' \<and> ii_mentioned r \<and> whatsapp_group (ii_channel_id r) \<and>
       ii_channel_id r \<in> set (split_configured (setting config ''DOKJA_WHATSAPP_ALLOWED_GROUPS'')))"
proof -
  note parts = parse_policy_parts [OF assms(1)]
  have wa: "ii_platform r \<noteq> ''discord''" using assms(3) by simp
  have chan: "ii_channel_id r \<noteq> []" using assms(2) by (auto simp: authorize_inbound_def)
  have entry: "ii_entry r = ''message''"
    using assms(2,3) wa chan unfolding authorize_inbound_def by (simp only: if_False if_True refl split: if_splits)
  have rest: "if ii_self_chat r then ii_chat_kind r = ''direct'' \<and> ip_whatsapp_self_chat p
              else if ii_chat_kind r = ''direct'' then number_allowed (ip_whatsapp_numbers p) (ii_sender_numbers r)
              else ii_chat_kind r = ''group'' \<and> contains_str (ip_whatsapp_groups p) (ii_channel_id r) \<and> ii_mentioned r"
    using assms(2) wa chan entry assms(3) unfolding authorize_inbound_def
    by (simp only: if_False if_True refl not_True_eq_False) (auto split: if_splits)
  have nums: "ip_whatsapp_numbers p =
      map (replace_all phone_formatting) (split_configured (setting config ''DOKJA_WHATSAPP_ALLOW_FROM''))"
    and valid: "list_all valid_number (ip_whatsapp_numbers p)"
    using parse_numbers_Inr [OF parts(1)] by auto
  have direct: "\<exists>raw n. raw \<in> set (split_configured (setting config ''DOKJA_WHATSAPP_ALLOW_FROM'')) \<and>
          n \<in> set (ii_sender_numbers r) \<and>
          list_all digit (replace_all phone_formatting raw) \<and>
          length (replace_all phone_formatting raw) \<in> {7..15} \<and>
          canonical_number n = canonical_number (replace_all phone_formatting raw)"
    if "number_allowed (ip_whatsapp_numbers p) (ii_sender_numbers r)"
    using that valid nums by (auto simp: number_allowed_canonical list_all_iff valid_number_iff)
  show ?thesis using chan entry rest direct parts(2,3,4) by (auto simp: list_all_iff split: if_splits)
qed

definition a_config :: "string \<rightharpoonup> string" where
  "a_config = [''DOKJA_WHATSAPP_ALLOW_FROM'' \<mapsto> ''+55 (11) 98765-4321'']"

definition a_policy :: inbound_policy where
  "a_policy = \<lparr>ip_discord_guild_ids = [], ip_discord_channels = [], ip_discord_dm_open = True,
                ip_discord_need_mention = False, ip_whatsapp_self_chat = True,
                ip_whatsapp_numbers = [''5511987654321''], ip_whatsapp_groups = []\<rparr>"

definition a_direct_message :: inbound_intent where
  "a_direct_message = \<lparr>ii_platform = ''whatsapp'', ii_entry = ''message'', ii_channel_id = ''c'',
                       ii_guild_id = [], ii_chat_kind = ''direct'', ii_direct = True,
                       ii_mentioned = False, ii_self_chat = False, ii_sender_numbers = [''551187654321'']\<rparr>"

lemma a_config_parsed: "parse_inbound_policy a_config = Inr a_policy"
  by code_simp

lemma whatsapp_answers_named_only_witness:
  "ii_channel_id a_direct_message \<noteq> [] \<and>
   (\<exists>raw. raw \<in> set (split_configured (setting a_config ''DOKJA_WHATSAPP_ALLOW_FROM'')) \<and>
      canonical_number ''551187654321'' = canonical_number (replace_all phone_formatting raw))"
proof -
  have "authorize_inbound a_policy a_direct_message" by code_simp
  from whatsapp_answers_named_only [OF a_config_parsed this]
  show ?thesis by (auto simp: a_direct_message_def)
qed

end
