(* ===== verification/Delivery_Policy.thy ===== *)
theory Delivery_Policy
  imports Go_Strings
begin

section \<open>Where a message may be delivered\<close>

text \<open>
  \<open>dokja_domain/dokja_communications/delivery.go\<close> and \<open>link.go\<close>: the plan of a channel send, the
  eligibility of one target, the stricter rules of a named conversation, and the permission to
  operate a platform's link.  A Go map used as a set of switches is a predicate, false where the key
  is missing.
\<close>

subsection \<open>Requests, plans and the policy\<close>

record send_request =
  sr_action :: string
  sr_source :: string
  sr_interface :: string
  sr_content :: string
  sr_attachment_url :: string
  sr_targets :: "string list"
  sr_all :: bool
  sr_force_nsfw :: bool

record send_plan =
  sp_content :: string
  sp_attachment_url :: string
  sp_targets :: "string list"
  sp_switched_off :: "string list"
  sp_force_nsfw :: bool

record delivery_policy =
  dp_channels :: "string list"
  dp_manual_targets :: "string list"
  dp_safe_only :: "string \<Rightarrow> bool"
  dp_disabled :: "string \<Rightarrow> bool"

record conversation =
  cv_alias :: string
  cv_kind :: string
  cv_retention_days :: int

definition WhatsAppPrefix :: string where
  "WhatsAppPrefix = ''whatsapp:''"

definition platform_of :: "string \<Rightarrow> string" where
  "platform_of target = (if has_prefix target WhatsAppPrefix then ''whatsapp'' else ''discord'')"

definition has_conversation_target :: "string list \<Rightarrow> bool" where
  "has_conversation_target targets = list_ex (\<lambda>t. platform_of t = ''whatsapp'') targets"

text \<open>\<open>deduplicate\<close>: the loop over the values, with what it has seen.\<close>

fun deduplicate_from :: "string list \<Rightarrow> string list \<Rightarrow> string list" where
  "deduplicate_from seen [] = []"
| "deduplicate_from seen (v # vs) =
     (if v \<noteq> [] \<and> v \<notin> set seen then v # deduplicate_from (v # seen) vs
      else deduplicate_from seen vs)"

definition deduplicate :: "string list \<Rightarrow> string list" where
  "deduplicate vs = deduplicate_from [] vs"

definition explicit_bypass :: "send_request \<Rightarrow> bool" where
  "explicit_bypass r \<longleftrightarrow>
     (sr_source r = ''cli'' \<and> sr_action r = ''discord.send'' \<and> trim_space (sr_interface r) = ''tui'') \<or>
     (sr_source r = ''desktop'' \<and> sr_action r = ''communications.send'' \<and>
      trim_space (sr_interface r) = ''desktop'')"

subsection \<open>Planning a channel send\<close>

definition wanted_targets :: "delivery_policy \<Rightarrow> send_request \<Rightarrow> string list" where
  "wanted_targets p r = (if sr_all r then dp_channels p else deduplicate (sr_targets r))"

definition allowed_targets :: "delivery_policy \<Rightarrow> send_request \<Rightarrow> string list" where
  "allowed_targets p r = dp_channels p @ (if \<not> sr_all r then dp_manual_targets p else [])"

definition switched_off :: "delivery_policy \<Rightarrow> string \<Rightarrow> bool" where
  "switched_off p target = dp_disabled p (platform_of target)"

definition plan_channel_send :: "delivery_policy \<Rightarrow> send_request \<Rightarrow> send_plan res" where
  "plan_channel_send p r =
     (let content = trim_space (sr_content r);
          attachment = trim_space (sr_attachment_url r)
      in if content = [] \<and> attachment = [] then
           Inl (Errorf ''discord send requires content or attachment_url'')
         else if sr_force_nsfw r \<and> attachment = [] then
           Inl (Errorf ''force_nsfw requires attachment_url'')
         else if sr_force_nsfw r \<and> \<not> explicit_bypass r then
           Inl (Errorf ''force_nsfw is only allowed for explicit desktop or TUI sends'')
         else
          (let targets = wanted_targets p r
           in if targets = [] then Inl (Errorf ''discord send requires channel_ids or all'')
              else case find (\<lambda>t. t \<notin> set (allowed_targets p r)) targets of
                Some t \<Rightarrow> Inl (Errorf (''channel '' @ t @ '' is not a configured delivery channel''))
              | None \<Rightarrow>
                 (let plan = \<lparr>sp_content = content, sp_attachment_url = attachment,
                              sp_targets = filter (\<lambda>t. \<not> switched_off p t) targets,
                              sp_switched_off = filter (switched_off p) targets,
                              sp_force_nsfw = sr_force_nsfw r\<rparr>
                  in if sp_targets plan = []
                     then Inl (Errorf (''nothing sent: '' @ join_with '','' (sp_switched_off plan) @ '' is switched off''))
                     else Inr plan)))"

definition requires_safe :: "delivery_policy \<Rightarrow> string \<Rightarrow> bool" where
  "requires_safe p target = dp_safe_only p target"

definition eligible :: "delivery_policy \<Rightarrow> string \<Rightarrow> bool \<Rightarrow> bool \<Rightarrow> bool" where
  "eligible p target safe bypass \<longleftrightarrow>
     list_ex (\<lambda>c. c = target) (dp_channels p) \<and> \<not> dp_disabled p (platform_of target) \<and>
     (\<not> requires_safe p target \<or> safe \<or> bypass)"

subsection \<open>Named conversations\<close>

definition validate_conversation_send :: "send_request \<Rightarrow> send_plan res" where
  "validate_conversation_send r =
     (if sr_action r \<noteq> ''communications.send'' then
        Inl (Errorf ''WhatsApp conversations can only be sent to through communications.send'')
      else if sr_all r \<or> length (sr_targets r) \<noteq> 1 \<or> platform_of (sr_targets r ! 0) \<noteq> ''whatsapp'' then
        Inl (Errorf ''send to one WhatsApp conversation at a time'')
      else if trim_space (sr_attachment_url r) \<noteq> [] then
        Inl (Errorf ''WhatsApp conversations take text only'')
      else if sr_force_nsfw r then
        Inl (Errorf ''force_nsfw does not apply to WhatsApp conversations'')
      else if trim_space (sr_content r) = [] then Inl (Errorf ''send requires content'')
      else Inr \<lparr>sp_content = trim_space (sr_content r), sp_attachment_url = [], sp_targets = sr_targets r,
                sp_switched_off = [], sp_force_nsfw = False\<rparr>)"

definition authorize_conversation :: "delivery_policy \<Rightarrow> string \<Rightarrow> gerror option" where
  "authorize_conversation p target =
     (if platform_of target \<noteq> ''whatsapp'' then
        Some (Errorf (''channel '' @ target @ '' is not a named WhatsApp conversation''))
      else if dp_disabled p ''whatsapp'' then Some (Errorf ''nothing sent: whatsapp is switched off'')
      else None)"

definition named_conversation :: "string \<Rightarrow> conversation list \<Rightarrow> string res" where
  "named_conversation target conversations =
     (if platform_of target \<noteq> ''whatsapp'' then
        Inl (Errorf (''channel '' @ target @ '' is not a named WhatsApp conversation''))
      else if list_ex (\<lambda>c. cv_alias c = trim_prefix target WhatsAppPrefix) conversations
      then Inr (trim_prefix target WhatsAppPrefix)
      else Inl (Errorf (''channel '' @ target @ '' is not a named WhatsApp conversation'')))"

subsection \<open>Links\<close>

definition LinkStatus :: string where "LinkStatus = ''communications.link.status''"
definition LinkStart :: string where "LinkStart = ''communications.link.start''"
definition LinkReset :: string where "LinkReset = ''communications.link.reset''"
definition LinkGroups :: string where "LinkGroups = ''communications.link.groups''"

definition authorize_link :: "(string \<Rightarrow> bool) \<Rightarrow> string \<Rightarrow> string \<Rightarrow> string res" where
  "authorize_link available action raw =
     (let platform = trim_space raw
      in if platform = [] \<or> \<not> available platform
         then Inl (Errorf (''interface '' @ go_quote platform @ '' cannot be linked from here''))
         else if action \<in> {LinkStatus, LinkStart, LinkReset, LinkGroups} then Inr platform
         else Inl (Errorf ''unsupported link action''))"

subsection \<open>Facts\<close>

lemma deduplicate_from_set:
  "set (deduplicate_from seen vs) = {v \<in> set vs. v \<noteq> [] \<and> v \<notin> set seen}"
  by (induction vs arbitrary: seen) auto

lemma deduplicate_from_distinct: "distinct (deduplicate_from seen vs)"
  by (induction vs arbitrary: seen) (auto simp: deduplicate_from_set)

lemma deduplicate_set: "set (deduplicate vs) = set vs - {[]}"
  by (auto simp: deduplicate_def deduplicate_from_set)

lemma deduplicate_distinct: "distinct (deduplicate vs)"
  by (simp add: deduplicate_def deduplicate_from_distinct)

lemma plan_parts:
  assumes "plan_channel_send p r = Inr plan"
  shows "sp_targets plan = filter (\<lambda>t. \<not> switched_off p t) (wanted_targets p r)"
    and "sp_switched_off plan = filter (switched_off p) (wanted_targets p r)"
    and "sp_targets plan \<noteq> []"
    and "set (wanted_targets p r) \<subseteq> set (allowed_targets p r)"
    and "sp_content plan = trim_space (sr_content r)"
    and "sp_attachment_url plan = trim_space (sr_attachment_url r)"
    and "sp_force_nsfw plan = sr_force_nsfw r"
    and "sp_content plan \<noteq> [] \<or> sp_attachment_url plan \<noteq> []"
    and "sr_force_nsfw r \<Longrightarrow> explicit_bypass r \<and> sp_attachment_url plan \<noteq> []"
  using assms
  by (auto simp: plan_channel_send_def Let_def find_None_iff subset_code(1) split: if_splits option.splits)

text \<open>A target that is only named for one explicit send never passes the shared eligibility test.\<close>

lemma manual_target_not_eligible: "t \<notin> set (dp_channels p) \<Longrightarrow> \<not> eligible p t safe bypass"
  by (auto simp: eligible_def list_ex_iff)

lemma conversation_parts:
  assumes "validate_conversation_send r = Inr plan"
  shows "sr_action r = ''communications.send''" and "sp_targets plan = sr_targets r"
    and "\<exists>t. sr_targets r = [t] \<and> platform_of t = ''whatsapp''"
    and "sp_attachment_url plan = []" and "\<not> sp_force_nsfw plan"
    and "sp_content plan = trim_space (sr_content r)" and "sp_content plan \<noteq> []"
  using assms
  by (auto simp: validate_conversation_send_def length_Suc_conv split: if_splits)

lemma platform_whatsapp: "platform_of t = ''whatsapp'' \<longleftrightarrow> prefix WhatsAppPrefix t"
  by (simp add: platform_of_def)

lemma named_parts:
  assumes "named_conversation t convs = Inr name"
  shows "t = WhatsAppPrefix @ name" and "name \<in> cv_alias ` set convs"
  using assms
  by (auto simp: named_conversation_def trim_prefix_def platform_whatsapp prefix_def list_ex_iff
      split: if_splits)

subsection \<open>Properties\<close>

text \<open>
  C38.  A planned channel send reaches only configured, switched-on channels: every planned target
  was asked for and is a delivery channel, or, when the send does not mean all of them, a channel
  named for this one send; none is on a switched-off platform; and a forced send of an unsafe image
  carries an image and is one that the request asked for, a \<open>discord.send\<close> of the command line made in the TUI or a
  \<open>communications.send\<close> of the desktop made in the desktop, and nobody else's.  A planned delivery channel then passes the
  shared eligibility test exactly when its safe-only rule is met or was bypassed that way.
\<close>

theorem planned_targets_are_deliverable:
  assumes "plan_channel_send p r = Inr plan" and "t \<in> set (sp_targets plan)"
  shows "t \<in> set (wanted_targets p r) \<and>
    (if sr_all r then t \<in> set (dp_channels p)
     else t \<in> set (sr_targets r) \<inter> (set (dp_channels p) \<union> set (dp_manual_targets p))) \<and>
    \<not> dp_disabled p (platform_of t) \<and>
    (if sp_force_nsfw plan
     then sr_force_nsfw r \<and> sp_attachment_url plan \<noteq> [] \<and>
       (sr_source r, sr_action r, trim_space (sr_interface r)) \<in>
         {(''cli'', ''discord.send'', ''tui''), (''desktop'', ''communications.send'', ''desktop'')}
     else True) \<and>
    (eligible p t safe (sp_force_nsfw plan) \<longleftrightarrow>
       t \<in> set (dp_channels p) \<and> (\<not> dp_safe_only p t \<or> safe \<or> sr_force_nsfw r))"
proof -
  note parts = plan_parts [OF assms(1)]
  have t: "t \<in> set (wanted_targets p r)" and on: "\<not> dp_disabled p (platform_of t)"
    using assms(2) parts(1) by (auto simp: switched_off_def)
  have "if sr_all r then t \<in> set (dp_channels p)
        else t \<in> set (sr_targets r) \<inter> (set (dp_channels p) \<union> set (dp_manual_targets p))"
    using t parts(4) deduplicate_set [of "sr_targets r"]
    by (auto simp: wanted_targets_def allowed_targets_def)
  moreover have "if sp_force_nsfw plan
     then sr_force_nsfw r \<and> sp_attachment_url plan \<noteq> [] \<and>
       (sr_source r, sr_action r, trim_space (sr_interface r)) \<in>
         {(''cli'', ''discord.send'', ''tui''), (''desktop'', ''communications.send'', ''desktop'')}
     else True"
    using parts(7,9) by (auto simp: explicit_bypass_def)
  moreover have "eligible p t safe (sp_force_nsfw plan) \<longleftrightarrow>
         t \<in> set (dp_channels p) \<and> (\<not> dp_safe_only p t \<or> safe \<or> sr_force_nsfw r)"
    using on parts(7) by (auto simp: eligible_def requires_safe_def list_ex_iff)
  ultimately show ?thesis using t on by blast
qed

definition a_send :: send_request where
  "a_send = \<lparr>sr_action = ''communications.send'', sr_source = ''desktop'', sr_interface = ''desktop'',
             sr_content = ''hi'', sr_attachment_url = ''u'', sr_targets = [''1'', ''2'', ''1''],
             sr_all = False, sr_force_nsfw = True\<rparr>"

definition a_delivery_policy :: delivery_policy where
  "a_delivery_policy = \<lparr>dp_channels = [''1''], dp_manual_targets = [''2''],
                        dp_safe_only = (\<lambda>t. t = ''1''), dp_disabled = (\<lambda>t. False)\<rparr>"

definition a_send_plan :: send_plan where
  "a_send_plan = \<lparr>sp_content = ''hi'', sp_attachment_url = ''u'', sp_targets = [''1'', ''2''],
                  sp_switched_off = [], sp_force_nsfw = True\<rparr>"

lemma planned_targets_are_deliverable_witness:
  "eligible a_delivery_policy ''1'' False True \<and> \<not> eligible a_delivery_policy ''2'' True True"
proof -
  have plan: "plan_channel_send a_delivery_policy a_send = Inr a_send_plan" by code_simp
  have "''1'' \<in> set (sp_targets a_send_plan)" and "''2'' \<in> set (sp_targets a_send_plan)"
    by (simp_all add: a_send_plan_def)
  from this [THEN planned_targets_are_deliverable [OF plan]]
  show ?thesis by (simp add: a_send_plan_def a_delivery_policy_def a_send_def)
qed

text \<open>
  A message to a WhatsApp conversation goes to one named conversation: when the request is
  validated, the conversation authorized and its name resolved, there is exactly one target, it is
  the prefix followed by an alias the interface lists, WhatsApp is switched on, and what is sent is
  text only, trimmed and not empty.
\<close>

theorem conversation_send_is_named:
  assumes "validate_conversation_send r = Inr plan"
    and "authorize_conversation p (sp_targets plan ! 0) = None"
    and "named_conversation (sp_targets plan ! 0) convs = Inr name"
  shows "sr_targets r = [WhatsAppPrefix @ name] \<and> name \<in> cv_alias ` set convs \<and>
         \<not> dp_disabled p ''whatsapp'' \<and> sr_action r = ''communications.send'' \<and>
         sp_content plan = trim_space (sr_content r) \<and> sp_content plan \<noteq> [] \<and>
         sp_attachment_url plan = [] \<and> \<not> sp_force_nsfw plan"
proof -
  note parts = conversation_parts [OF assms(1)]
  obtain t where t: "sr_targets r = [t]" using parts(3) by blast
  then have "named_conversation t convs = Inr name" using assms(3) parts(2) by simp
  note named = named_parts [OF this]
  show ?thesis
    using t named parts assms(2) by (auto simp: authorize_conversation_def split: if_splits)
qed

definition a_conversation_send :: send_request where
  "a_conversation_send = \<lparr>sr_action = ''communications.send'', sr_source = ''desktop'',
     sr_interface = ''desktop'', sr_content = '' hi '', sr_attachment_url = [],
     sr_targets = [''whatsapp:mum''], sr_all = False, sr_force_nsfw = False\<rparr>"

definition a_conversation_plan :: send_plan where
  "a_conversation_plan = \<lparr>sp_content = ''hi'', sp_attachment_url = [], sp_targets = [''whatsapp:mum''],
                  sp_switched_off = [], sp_force_nsfw = False\<rparr>"

definition a_conversation :: conversation where
  "a_conversation = \<lparr>cv_alias = ''mum'', cv_kind = ''direct'', cv_retention_days = 7\<rparr>"

lemma conversation_send_is_named_witness:
  "sr_targets a_conversation_send = [WhatsAppPrefix @ ''mum'']"
proof -
  have "validate_conversation_send a_conversation_send = Inr a_conversation_plan"
    and "authorize_conversation a_delivery_policy (sp_targets a_conversation_plan ! 0) = None"
    and "named_conversation (sp_targets a_conversation_plan ! 0) [a_conversation] = Inr ''mum''"
    by code_simp+
  from conversation_send_is_named [OF this] show ?thesis by simp
qed

end
