(* ===== verification/Call_Log.thy ===== *)
theory Call_Log
  imports Prelude
begin

section \<open>Logs of the calls a component makes\<close>

text \<open>
  Several components only act through a service that is a parameter.  What they do to it is seen
  with a service that records its calls in the state of the world and whose answers may depend on
  all the calls so far.  \<open>each_call P\<close> holds of a log when \<open>P\<close> holds of every call in it, given the
  calls before.
\<close>

fun each_call :: "('c list \<Rightarrow> 'c \<Rightarrow> bool) \<Rightarrow> 'c list \<Rightarrow> 'c list \<Rightarrow> bool" where
  "each_call P pre [] = True"
| "each_call P pre (c # cs) = (P pre c \<and> each_call P (pre @ [c]) cs)"

lemma each_call_append [simp]:
  "each_call P pre (xs @ ys) \<longleftrightarrow> each_call P pre xs \<and> each_call P (pre @ xs) ys"
  by (induction xs arbitrary: pre) auto

lemma each_call_mono:
  "each_call P pre cs \<Longrightarrow> (\<And>pre c. P pre c \<Longrightarrow> Q pre c) \<Longrightarrow> each_call Q pre cs"
  by (induction cs arbitrary: pre) auto

lemma each_callD: "each_call P pre (xs @ c # ys) \<Longrightarrow> P (pre @ xs) c"
  by simp

text \<open>\<open>calls_added P log log'\<close>: \<open>log'\<close> is \<open>log\<close> followed by calls that keep \<open>P\<close>.\<close>

definition calls_added :: "('c list \<Rightarrow> 'c \<Rightarrow> bool) \<Rightarrow> 'c list \<Rightarrow> 'c list \<Rightarrow> bool" where
  "calls_added P calls calls' \<longleftrightarrow> (\<exists>more. calls' = calls @ more \<and> each_call P calls more)"

lemma calls_added_refl [simp, intro]: "calls_added P calls calls"
  by (simp add: calls_added_def)

lemma calls_added_one: "P calls c \<Longrightarrow> calls_added P calls (calls @ [c])"
  by (simp add: calls_added_def)

lemma calls_added_trans [trans]:
  "calls_added P a b \<Longrightarrow> calls_added P b c \<Longrightarrow> calls_added P a c"
  by (auto simp: calls_added_def)

lemma calls_added_mono: "calls_added P a b \<Longrightarrow> set a \<subseteq> set b"
  by (auto simp: calls_added_def)

lemma calls_added_each: "calls_added P [] calls \<Longrightarrow> each_call P [] calls"
  by (auto simp: calls_added_def)

end
