(* ===== verification/Channels.thy ===== *)
theory Channels
  imports Inbound_Policy Delivery_Policy Call_Log
begin

section \<open>Which conversations the operator may read\<close>

text \<open>
  \<open>dokja_domain/dokja_communications/domain.go\<close>.  The Discord read service and the interface that
  keeps the owner's conversations are parameters: functions of the action (or alias), its payload
  and the state \<open>'w\<close> of the world outside, which they may change.  A nil service is \<open>None\<close>; a value
  that is nil in a Go map is a missing key.
\<close>

type_synonym 'w dispatch_fn = "string \<Rightarrow> gmap \<Rightarrow> 'w \<Rightarrow> gmap res \<times> 'w"

record 'w conversations =
  cs_list :: "'w \<Rightarrow> (conversation list \<times> gerror option) \<times> 'w"
  cs_history :: "string \<Rightarrow> string \<Rightarrow> 'w \<Rightarrow> gmap res \<times> 'w"

record 'w channels_domain =
  cd_service :: "'w dispatch_fn option"
  cd_channels :: "string list"
  cd_guilds :: "string list"
  cd_conversations :: "'w conversations option"

definition ActionChannels :: string where "ActionChannels = ''list-communication-channels''"
definition ActionHistory :: string where "ActionHistory = ''read-communication-history''"

subsection \<open>Patterns\<close>

definition snowflake :: "string \<Rightarrow> bool" where
  "snowflake s = matches_class digit 1 20 s"

definition alias_char :: "char \<Rightarrow> bool" where
  "alias_char c \<longleftrightarrow> digit c \<or> (97 \<le> byte c \<and> byte c \<le> 122)"

definition alias_pattern :: "string \<Rightarrow> bool" where
  "alias_pattern s =
     (case s of
        [] \<Rightarrow> False
      | c # cs \<Rightarrow> alias_char c \<and>
          matches_class (\<lambda>c. alias_char c \<or> c = CHR ''_'' \<or> c = CHR ''-'') 0 31 cs)"

definition cursor_pattern :: "string \<Rightarrow> bool" where
  "cursor_pattern s = matches_class digit 1 15 s"

subsection \<open>Construction\<close>

fun configured_channels :: "string list \<Rightarrow> string list \<Rightarrow> string list" where
  "configured_channels seen [] = []"
| "configured_channels seen (part # rest) =
     (let i = trim_space part
      in if snowflake i \<and> i \<notin> set seen then i # configured_channels (i # seen) rest
         else configured_channels seen rest)"

definition new_channels :: "'w dispatch_fn option \<Rightarrow> string \<Rightarrow> 'w channels_domain" where
  "new_channels service configured =
     \<lparr>cd_service = service, cd_channels = configured_channels [] (split_on CHR '','' configured),
      cd_guilds = [], cd_conversations = None\<rparr>"

definition with_guilds :: "string \<Rightarrow> 'w channels_domain \<Rightarrow> 'w channels_domain" where
  "with_guilds configured d = d\<lparr>cd_guilds := split_configured configured\<rparr>"

definition with_conversations :: "'w conversations option \<Rightarrow> 'w channels_domain \<Rightarrow> 'w channels_domain" where
  "with_conversations convs d = d\<lparr>cd_conversations := convs\<rparr>"

subsection \<open>Reading a Discord channel\<close>

definition readable :: "'w channels_domain \<Rightarrow> string \<Rightarrow> 'w \<Rightarrow> bool res \<times> 'w" where
  "readable d channel w =
     (if contains_str (cd_channels d) channel then (Inr True, w)
      else case cd_service d of
        None \<Rightarrow> (Inr False, w)
      | Some dispatch \<Rightarrow>
          if cd_guilds d = [] \<or> \<not> snowflake channel then (Inr False, w)
          else (case dispatch ''channel_info'' [''channel_id'' \<mapsto> VStr channel] w of
                  (Inl e, w') \<Rightarrow> (Inl e, w')
                | (Inr info, w') \<Rightarrow>
                    (Inr (bool_of (info ''text'') \<and> contains_str (cd_guilds d) (str_of (info ''guild_id''))), w')))"

definition history_payload :: "string \<Rightarrow> string \<Rightarrow> gmap" where
  "history_payload channel before =
     [''channel_id'' \<mapsto> VStr channel, ''before'' \<mapsto> VStr before, ''limit'' \<mapsto> VInt 30]"

definition channel_history :: "'w channels_domain \<Rightarrow> string \<Rightarrow> string \<Rightarrow> 'w \<Rightarrow> gmap res \<times> 'w" where
  "channel_history d channel before w =
     (case cd_service d of
        None \<Rightarrow> (Inl (Errorf ''communications service is not configured''), w)
      | Some dispatch \<Rightarrow>
          (case readable d channel w of
             (Inl e, w') \<Rightarrow> (Inl e, w')
           | (Inr readable_now, w') \<Rightarrow>
               if \<not> readable_now then (Inl (Errorf ''channel is not configured for communications''), w')
               else if before \<noteq> [] \<and> \<not> snowflake before
               then (Inl (Errorf ''before must be a message id''), w')
               else dispatch ''history'' (history_payload channel before) w'))"

subsection \<open>Reading a named conversation\<close>

definition conversation_history ::
    "'w channels_domain \<Rightarrow> string \<Rightarrow> string \<Rightarrow> string \<Rightarrow> 'w \<Rightarrow> gmap res \<times> 'w" where
  "conversation_history d channel name before w =
     (case cd_conversations d of
        None \<Rightarrow> (Inl (Errorf ''channel is not configured for communications''), w)
      | Some convs \<Rightarrow>
          if \<not> alias_pattern name then (Inl (Errorf ''channel is not configured for communications''), w)
          else if before \<noteq> [] \<and> \<not> cursor_pattern before
          then (Inl (Errorf ''before must be a message id''), w)
          else (case cs_list convs w of
                  ((listed, Some _), w') \<Rightarrow> (Inl (Errorf ''conversations are not available''), w')
                | ((listed, None), w') \<Rightarrow>
                    if \<not> list_ex (\<lambda>c. cv_alias c = name) listed
                    then (Inl (Errorf ''channel is not configured for communications''), w')
                    else (case cs_history convs name before w' of
                            (Inl _, w'') \<Rightarrow> (Inl (Errorf ''conversation history is not available''), w'')
                          | (Inr page, w'') \<Rightarrow>
                              (Inr ([''channel_id'' \<mapsto> VStr channel]
                                      (''messages'' := page ''messages'', ''before'' := page ''before'')), w''))))"

subsection \<open>Listing\<close>

fun list_of :: "gval option \<Rightarrow> gval list" where
  "list_of (Some (VList xs)) = xs"
| "list_of _ = []"

fun map_val :: "gval \<Rightarrow> gmap" where
  "map_val (VMap kvs) = map_of kvs"
| "map_val _ = Map.empty"

definition guild_entry :: "string \<Rightarrow> string \<Rightarrow> string \<Rightarrow> string \<Rightarrow> gval" where
  "guild_entry i name guild_id guild_name =
     VMap [(''id'', VStr i), (''name'', VStr name), (''guild_id'', VStr guild_id),
           (''guild_name'', VStr guild_name)]"

definition guild_channels_of :: "string list \<Rightarrow> gval \<Rightarrow> (string \<times> gval) list" where
  "guild_channels_of guilds raw =
     (let guild = map_val raw; guild_id = str_of (guild ''id''); guild_name = str_of (guild ''name'')
      in if \<not> contains_str guilds guild_id then []
         else concat (map (\<lambda>raw_channel.
                let channel = map_val raw_channel; i = str_of (channel ''id'')
                in if \<not> snowflake i then []
                   else [(i, guild_entry i (str_of (channel ''name'')) guild_id guild_name)])
              (list_of (guild ''channels''))))"

definition guild_channels ::
    "'w channels_domain \<Rightarrow> 'w dispatch_fn \<Rightarrow> 'w \<Rightarrow> ((string \<times> gval) list \<times> gval list) res \<times> 'w" where
  "guild_channels d dispatch w =
     (case dispatch ''guild_channels'' Map.empty w of
        (Inl e, w') \<Rightarrow> (Inl e, w')
      | (Inr result, w') \<Rightarrow>
          (Inr (concat (map (guild_channels_of (cd_guilds d)) (list_of (result ''guilds''))),
                list_of (result ''unavailable_guilds'')), w'))"

definition conversation_entry :: "conversation \<Rightarrow> gval" where
  "conversation_entry c =
     VMap [(''id'', VStr (WhatsAppPrefix @ cv_alias c)), (''name'', VStr (cv_alias c)),
           (''kind'', VStr (cv_kind c)), (''retention_days'', VInt (cv_retention_days c))]"

text \<open>
  The three parts of \<open>listChannels\<close>: the channels of the servers, the configured ones on no server,
  and the conversations.  Each gives what it adds, its error and the next world.
\<close>

definition list_guild_part ::
    "'w channels_domain \<Rightarrow> 'w \<Rightarrow> ((string \<times> gval) list \<times> gval list \<times> gerror option) \<times> 'w" where
  "list_guild_part d w =
     (case cd_service d of
        None \<Rightarrow> (([], [], None), w)
      | Some dispatch \<Rightarrow>
          if cd_guilds d = [] then (([], [], None), w)
          else (case guild_channels d dispatch w of
                  (Inl e, w') \<Rightarrow> (([], [], Some e), w')
                | (Inr (found, missing), w') \<Rightarrow> ((found, missing, None), w')))"

definition list_rest_part ::
    "'w channels_domain \<Rightarrow> string list \<Rightarrow> 'w \<Rightarrow> (gval list \<times> gerror option) \<times> 'w" where
  "list_rest_part d listed w =
     (let rest = filter (\<lambda>i. i \<notin> set listed) (cd_channels d)
      in case cd_service d of
           None \<Rightarrow> (([], None), w)
         | Some dispatch \<Rightarrow>
             if rest = [] then (([], None), w)
             else (case dispatch ''channels'' [''channel_ids'' \<mapsto> VStrs rest] w of
                     (Inl e, w') \<Rightarrow> (([], Some e), w')
                   | (Inr result, w') \<Rightarrow> ((list_of (result ''channels''), None), w')))"

definition list_conversation_part ::
    "'w channels_domain \<Rightarrow> 'w \<Rightarrow> (gval list \<times> gerror option) \<times> 'w" where
  "list_conversation_part d w =
     (case cd_conversations d of
        None \<Rightarrow> (([], None), w)
      | Some convs \<Rightarrow>
          (case cs_list convs w of ((listed, err), w') \<Rightarrow> ((map conversation_entry listed, err), w')))"

definition list_channels :: "'w channels_domain \<Rightarrow> 'w \<Rightarrow> gmap res \<times> 'w" where
  "list_channels d w =
     (case list_guild_part d w of ((found, missing, err1), w1) \<Rightarrow>
      case list_rest_part d (map fst found) w1 of ((named, err2), w2) \<Rightarrow>
      case list_conversation_part d w2 of ((convs, err3), w3) \<Rightarrow>
        (let answer = (if missing = [] then Map.empty else [''unavailable_guilds'' \<mapsto> VList missing]);
             discord_err = (if err2 = None then err1 else err2);
             channels = map snd found @ named @ convs;
             unavailable = (if err3 = None then [] else [VStr ''whatsapp''])
                         @ (if discord_err = None then [] else [VStr ''discord''])
         in case discord_err of
              Some e \<Rightarrow>
                if channels = [] then (Inl e, w3)
                else (Inr (answer(''unavailable'' \<mapsto> VList unavailable, ''channels'' \<mapsto> VList channels)), w3)
            | None \<Rightarrow>
                (Inr ((if unavailable = [] then answer else answer(''unavailable'' \<mapsto> VList unavailable))
                        (''channels'' \<mapsto> VList channels)), w3)))"

subsection \<open>Handling an action\<close>

definition channels_handle ::
    "'w channels_domain option \<Rightarrow> string \<Rightarrow> gmap \<Rightarrow> 'w \<Rightarrow> gmap res \<times> 'w" where
  "channels_handle domain action payload w =
     (case domain of
        None \<Rightarrow> (Inl (Errorf ''communications service is not configured''), w)
      | Some d \<Rightarrow>
          if cd_service d = None \<and> cd_conversations d = None
          then (Inl (Errorf ''communications service is not configured''), w)
          else if action = ActionChannels then list_channels d w
          else if action = ActionHistory then
            (let channel = str_of (payload ''channel_id''); before = str_of (payload ''before'')
             in if has_prefix channel WhatsAppPrefix
                then conversation_history d channel (trim_prefix channel WhatsAppPrefix) before w
                else channel_history d channel before w)
          else (Inl (Errorf ''unsupported communications action''), w))"

subsection \<open>A world that records the calls\<close>

text \<open>
  The most general service: its answers depend on all the calls made so far.  The calls is what the
  domain did to the world outside.
\<close>

datatype channel_call =
    Dispatched string gmap "gmap res"
  | Listed "conversation list" "gerror option"
  | Read_History string string "gmap res"

type_synonym call_log = "channel_call list"

definition recorded_dispatch :: "(call_log \<Rightarrow> string \<Rightarrow> gmap \<Rightarrow> gmap res) \<Rightarrow> call_log dispatch_fn" where
  "recorded_dispatch f a p calls = (f calls a p, calls @ [Dispatched a p (f calls a p)])"

definition recorded_conversations ::
    "(call_log \<Rightarrow> conversation list \<times> gerror option) \<Rightarrow> (call_log \<Rightarrow> string \<Rightarrow> string \<Rightarrow> gmap res) \<Rightarrow>
     call_log conversations" where
  "recorded_conversations f g =
     \<lparr>cs_list = (\<lambda>calls. (f calls, calls @ [Listed (fst (f calls)) (snd (f calls))])),
      cs_history = (\<lambda>name before calls. (g calls name before, calls @ [Read_History name before (g calls name before)]))\<rparr>"

text \<open>
  When a call is permitted, given the calls before it: a channel's history is read only if the
  channel is configured or Discord just placed it in a configured server, and a conversation's only
  if the interface just listed its alias.
\<close>

fun permitted :: "'w channels_domain \<Rightarrow> call_log \<Rightarrow> channel_call \<Rightarrow> bool" where
  "permitted d before_calls (Dispatched action payload answer) =
     (if action = ''history'' then
        (\<exists>channel before. payload = history_payload channel before \<and>
           (before = [] \<or> snowflake before) \<and>
           (channel \<in> set (cd_channels d) \<or>
            snowflake channel \<and>
            (\<exists>info. Dispatched ''channel_info'' [''channel_id'' \<mapsto> VStr channel] (Inr info) \<in> set before_calls \<and>
               bool_of (info ''text'') \<and> str_of (info ''guild_id'') \<in> set (cd_guilds d))))
      else action \<in> {''channel_info'', ''guild_channels'', ''channels''})"
| "permitted d before_calls (Read_History name before answer) =
     (alias_pattern name \<and> (before = [] \<or> cursor_pattern before) \<and>
      (\<exists>listed. Listed listed None \<in> set before_calls \<and> name \<in> cv_alias ` set listed))"
| "permitted d before_calls (Listed listed err) = True"

definition recording :: "call_log channels_domain \<Rightarrow> bool" where
  "recording d \<longleftrightarrow>
     (cd_service d = None \<or> (\<exists>f. cd_service d = Some (recorded_dispatch f))) \<and>
     (cd_conversations d = None \<or> (\<exists>f g. cd_conversations d = Some (recorded_conversations f g)))"

lemma recordingE:
  assumes "recording d"
  obtains "cd_service d = None" | f where "cd_service d = Some (recorded_dispatch f)"
  using assms by (auto simp: recording_def)

lemma readable_log:
  assumes "recording d" and "each_call (permitted d) [] calls" and "readable d channel calls = (answer, calls')"
  shows "each_call (permitted d) [] calls'"
    and "answer = Inr True \<Longrightarrow> channel \<in> set (cd_channels d) \<or> snowflake channel \<and>
            (\<exists>info. Dispatched ''channel_info'' [''channel_id'' \<mapsto> VStr channel] (Inr info) \<in> set calls' \<and>
               bool_of (info ''text'') \<and> str_of (info ''guild_id'') \<in> set (cd_guilds d))"
  using assms(2,3)
  by (cases rule: recordingE [OF assms(1)];
      auto simp: readable_def recorded_dispatch_def split: if_splits sum.splits)+

lemma channel_history_log:
  assumes "recording d" and "each_call (permitted d) [] calls"
  shows "each_call (permitted d) [] (snd (channel_history d channel before calls))"
proof (cases rule: recordingE [OF assms(1)])
  case 1
  then show ?thesis using assms(2) by (simp add: channel_history_def)
next
  case (2 f)
  obtain answer calls' where r: "readable d channel calls = (answer, calls')" by force
  note kept = readable_log(1) [OF assms r] and found = readable_log(2) [OF assms r]
  consider e where "answer = Inl e" | "answer = Inr False" | "answer = Inr True"
    by (cases answer) auto
  then show ?thesis
  proof cases
    case 3
    then have "permitted d calls' (Dispatched ''history'' (history_payload channel before) a)"
      if "before = [] \<or> snowflake before" for a
      using found that by auto
    then show ?thesis
      using 2 3 r kept by (simp add: channel_history_def recorded_dispatch_def)
  qed (use 2 r kept in \<open>simp_all add: channel_history_def\<close>)
qed

lemma conversation_history_log:
  assumes "recording d" and "each_call (permitted d) [] calls"
  shows "each_call (permitted d) [] (snd (conversation_history d channel name before calls))"
proof (cases "cd_conversations d")
  case (Some convs)
  then obtain f g where c: "convs = recorded_conversations f g" using assms(1) by (auto simp: recording_def)
  then show ?thesis
    using assms(2) Some
    by (auto simp: conversation_history_def recorded_conversations_def list_ex_iff
        split: prod.split option.split sum.split)
qed (simp add: conversation_history_def assms(2))

lemma list_channels_log:
  assumes "recording d" and "each_call (permitted d) [] calls"
  shows "each_call (permitted d) [] (snd (list_channels d calls))"
proof -
  obtain found missing err1 calls1 where g: "list_guild_part d calls = ((found, missing, err1), calls1)"
    by (metis surj_pair)
  have 1: "each_call (permitted d) [] calls1"
    using g assms(2)
    by (cases rule: recordingE [OF assms(1)];
        auto simp: list_guild_part_def guild_channels_def recorded_dispatch_def split: if_splits sum.splits)
  obtain named err2 calls2 where r: "list_rest_part d (map fst found) calls1 = ((named, err2), calls2)"
    by (metis surj_pair)
  have 2: "each_call (permitted d) [] calls2"
    using r 1
    by (cases rule: recordingE [OF assms(1)];
        auto simp: list_rest_part_def recorded_dispatch_def Let_def split: if_splits sum.splits)
  obtain convs err3 calls3 where c: "list_conversation_part d calls2 = ((convs, err3), calls3)"
    by (metis surj_pair)
  have "each_call (permitted d) [] calls3"
    using c 2 assms(1) by (auto simp: list_conversation_part_def recording_def recorded_conversations_def
        split: prod.splits)
  then show ?thesis
    using g r c by (simp add: list_channels_def Let_def split: option.split)
qed

subsection \<open>Properties\<close>

text \<open>
  C8.  Only what is open to the operator is ever read.  Whatever the action, the payload and the
  answers of the services, every history the domain asks Discord for is of a configured channel or
  of one that Discord itself has just placed, as a text channel, in a configured server, with a
  well-formed cursor; and every conversation it reads has a well-formed alias the interface has
  just listed.  No other operation of the services is called.
\<close>

theorem only_open_histories_are_read:
  assumes "recording d"
  shows "each_call (permitted d) [] (snd (channels_handle (Some d) action payload []))"
  using channel_history_log [OF assms, of "[]"] conversation_history_log [OF assms, of "[]"]
    list_channels_log [OF assms, of "[]"]
  by (simp add: channels_handle_def Let_def)

text \<open>
  A source that is down does not hide the others: when the interface lists a conversation,
  listing answers whatever Discord did, every listed conversation is among its channels, and the
  answer says which source could not be read exactly when one could not.
\<close>

theorem listing_survives_discord:
  assumes "cd_conversations d = Some convs"
    and "cs_list convs (snd (list_rest_part d (map fst (fst (fst (list_guild_part d w)))) (snd (list_guild_part d w)))) =
           ((c # cs, err), w')"
  shows "\<exists>answer. list_channels d w = (Inr answer, w') \<and>
     conversation_entry ` set (c # cs) \<subseteq> set (list_of (answer ''channels'')) \<and>
     (VStr ''whatsapp'' \<in> set (list_of (answer ''unavailable'')) \<longleftrightarrow> err \<noteq> None) \<and>
     (VStr ''discord'' \<in> set (list_of (answer ''unavailable'')) \<longleftrightarrow>
        snd (snd (fst (list_guild_part d w))) \<noteq> None \<or>
        snd (fst (list_rest_part d (map fst (fst (fst (list_guild_part d w)))) (snd (list_guild_part d w)))) \<noteq> None)"
proof -
  obtain found missing err1 w1 where g: "list_guild_part d w = ((found, missing, err1), w1)"
    by (metis surj_pair)
  obtain named err2 w2 where r: "list_rest_part d (map fst found) w1 = ((named, err2), w2)"
    by (metis surj_pair)
  have c: "list_conversation_part d w2 = ((map conversation_entry (c # cs), err), w')"
    using assms g r by (simp add: list_conversation_part_def)
  show ?thesis
    by (cases err; cases err1; cases err2)
      (auto simp: list_channels_def g r c Let_def)
qed

definition a_service :: "call_log dispatch_fn" where
  "a_service = recorded_dispatch (\<lambda>calls a p. Inl (Errorf ''down''))"

definition a_conversations :: "call_log conversations" where
  "a_conversations = recorded_conversations (\<lambda>calls. ([a_conversation], None)) (\<lambda>calls n b. Inl (Errorf ''down''))"

definition a_channels :: "call_log channels_domain" where
  "a_channels = with_conversations (Some a_conversations) (new_channels (Some a_service) ''7'')"

lemma a_channels_fields:
  "cd_service a_channels = Some a_service" "cd_channels a_channels = [''7'']"
  "cd_guilds a_channels = []" "cd_conversations a_channels = Some a_conversations"
  by (simp_all add: a_channels_def with_conversations_def new_channels_def) code_simp

lemma only_open_histories_are_read_witness:
  "each_call (permitted a_channels) [] (snd (channels_handle (Some a_channels) ActionHistory
     [''channel_id'' \<mapsto> VStr ''7''] []))"
proof -
  have "recording a_channels"
    by (auto simp: recording_def a_channels_fields a_service_def a_conversations_def)
  from only_open_histories_are_read [OF this] show ?thesis .
qed

lemma listing_survives_discord_witness:
  "\<exists>answer calls. list_channels a_channels [] = (Inr answer, calls) \<and>
     conversation_entry a_conversation \<in> set (list_of (answer ''channels'')) \<and>
     VStr ''discord'' \<in> set (list_of (answer ''unavailable''))"
proof -
  have g: "list_guild_part a_channels [] = (([], [], None), [])"
    by (simp add: list_guild_part_def a_channels_fields)
  obtain calls where r: "list_rest_part a_channels [] [] = (([], Some (Errorf ''down'')), calls)"
    by (simp add: list_rest_part_def a_channels_fields a_service_def recorded_dispatch_def)
  have "cs_list a_conversations calls = (([a_conversation], None), calls @ [Listed [a_conversation] None])"
    by (simp add: a_conversations_def recorded_conversations_def)
  then show ?thesis
    using listing_survives_discord [OF a_channels_fields(4), of "[]" a_conversation "[]" None] g r by fastforce
qed

end
