(* ===== verification/Voice.thy ===== *)
theory Voice
  imports Go_Strings
begin

section \<open>Voice requests\<close>

text \<open>
  \<open>dokja_domain/dokja_communications/voice.go\<close>: what is checked before the speech service, a
  parameter, is called.  \<open>base64.StdEncoding.DecodeString\<close> is written out: it passes over line ends
  and takes padding only at the end.
\<close>

subsection \<open>Base64\<close>

definition b64_value :: "char \<Rightarrow> nat option" where
  "b64_value c =
     (let n = byte c
      in if 65 \<le> n \<and> n \<le> 90 then Some (n - 65)
         else if 97 \<le> n \<and> n \<le> 122 then Some (n - 71)
         else if 48 \<le> n \<and> n \<le> 57 then Some (n + 4)
         else if n = 43 then Some 62
         else if n = 47 then Some 63
         else None)"

definition b64_bytes :: "nat \<Rightarrow> nat \<Rightarrow> nat \<Rightarrow> nat \<Rightarrow> string" where
  "b64_bytes a b c d =
     [char_of (a * 4 + b div 16), char_of ((b mod 16) * 16 + c div 4), char_of ((c mod 4) * 64 + d)]"

fun b64_quads :: "string \<Rightarrow> string option" where
  "b64_quads [] = Some []"
| "b64_quads (a # b # c # d # rest) =
     (case (b64_value a, b64_value b) of
        (Some va, Some vb) \<Rightarrow>
          if c = CHR ''='' then (if d = CHR ''='' \<and> rest = [] then Some (take 1 (b64_bytes va vb 0 0)) else None)
          else (case b64_value c of
                  None \<Rightarrow> None
                | Some vc \<Rightarrow>
                    if d = CHR ''='' then (if rest = [] then Some (take 2 (b64_bytes va vb vc 0)) else None)
                    else (case b64_value d of
                            None \<Rightarrow> None
                          | Some vd \<Rightarrow> map_option (\<lambda>more. b64_bytes va vb vc vd @ more) (b64_quads rest)))
      | _ \<Rightarrow> None)"
| "b64_quads _ = None"

definition b64_decode :: "string \<Rightarrow> string option" where
  "b64_decode s = b64_quads (filter (\<lambda>c. c \<noteq> CHR 0x0A \<and> c \<noteq> CHR 0x0D) s)"

lemma b64_quads_length: "b64_quads s = Some data \<Longrightarrow> 4 * length data \<le> 3 * length s"
  by (induction s arbitrary: data rule: b64_quads.induct)
    (auto simp: b64_bytes_def split: option.splits if_splits)

lemma b64_decode_length: "b64_decode s = Some data \<Longrightarrow> 4 * length data \<le> 3 * length s"
  unfolding b64_decode_def
  by (drule b64_quads_length) (meson le_trans length_filter_le mult_le_mono2)

subsection \<open>Requests\<close>

definition voice_action :: "string \<Rightarrow> bool" where
  "voice_action action \<longleftrightarrow>
     action = ''synthesize-voice'' \<or> action = ''transcribe-voice'' \<or> action = ''detect-voice-wakeword'' \<or>
     action = ''detect-voice-activity''"

definition voice_language :: "gmap \<Rightarrow> string" where
  "voice_language payload =
     (if str_of (payload ''language'') = [] then ''pt-BR'' else str_of (payload ''language''))"

definition wav_data :: "string \<Rightarrow> bool" where
  "wav_data data \<longleftrightarrow>
     \<not> (length data < 44 \<or> take 4 data \<noteq> ''RIFF'' \<or> take 4 (drop 8 data) \<noteq> ''WAVE'')"

text \<open>The operation of the service and its request, or the refusal: a text to say, or audio.\<close>

definition text_request :: "string \<Rightarrow> gmap \<Rightarrow> (string \<times> gmap) res" where
  "text_request text request =
     (if trim_space text = [] \<or> length (runes text) > 4000
      then Inl (Errorf ''voice text must contain 1 to 4000 characters'')
      else Inr (''tts'', request(''text'' \<mapsto> VStr text, ''voice'' \<mapsto> VStr ''default'', ''format'' \<mapsto> VStr ''wav'')))"

definition audio_request :: "string \<Rightarrow> string \<Rightarrow> gmap \<Rightarrow> (string \<times> gmap) res" where
  "audio_request action encoded request =
     (if length encoded > 2800000 then Inl (Errorf ''voice segment is too large'')
      else case b64_decode encoded of
        None \<Rightarrow> Inl (Errorf ''voice segment must be WAV audio'')
      | Some data \<Rightarrow>
          if \<not> wav_data data then Inl (Errorf ''voice segment must be WAV audio'')
          else
           (let request = request(''audio_bytes_b64'' \<mapsto> VStr encoded, ''audio_format'' \<mapsto> VStr ''wav'')
            in if action = ''detect-voice-activity'' then
                 (if length data > 123000 then Inl (Errorf ''voice activity probe is too large'')
                  else Inr (''activity'', request))
               else if action = ''detect-voice-wakeword''
               then Inr (''wakeword'', request(''hotword'' \<mapsto> VStr ''Ningo''))
               else Inr (''stt'', request)))"

definition voice_request :: "string \<Rightarrow> gmap \<Rightarrow> (string \<times> gmap) res" where
  "voice_request action payload =
     (let language = voice_language payload; request = [''language'' \<mapsto> VStr language]
      in if length language > 32 then Inl (Errorf ''invalid voice language'')
         else if action = ''synthesize-voice'' then text_request (str_of (payload ''text'')) request
         else if action = ''transcribe-voice'' \<or> action = ''detect-voice-wakeword'' \<or>
                 action = ''detect-voice-activity''
         then audio_request action (str_of (payload ''audio_bytes_b64'')) request
         else Inl (Errorf ''unsupported voice action''))"

definition process_voice ::
    "(string \<Rightarrow> gmap \<Rightarrow> 'w \<Rightarrow> gmap res \<times> 'w) option \<Rightarrow> string \<Rightarrow> gmap \<Rightarrow> 'w \<Rightarrow> gmap res \<times> 'w" where
  "process_voice voice action payload w =
     (case voice of
        None \<Rightarrow> (Inl (Errorf ''voice service is not configured''), w)
      | Some invoke \<Rightarrow>
          (case voice_request action payload of
             Inl e \<Rightarrow> (Inl e, w)
           | Inr (operation, request) \<Rightarrow> invoke operation request w))"

subsection \<open>Properties\<close>

definition bounded_voice :: "string \<Rightarrow> gmap \<Rightarrow> bool" where
  "bounded_voice operation request \<longleftrightarrow>
     length (str_of (request ''language'')) \<le> 32 \<and> str_of (request ''language'') \<noteq> [] \<and>
     (if operation = ''tts'' then
        trim_space (str_of (request ''text'')) \<noteq> [] \<and> rune_count (str_of (request ''text'')) \<le> 4000
      else (\<exists>data. b64_decode (str_of (request ''audio_bytes_b64'')) = Some data \<and> wav_data data \<and>
              length data \<le> (if operation = ''activity'' then 123000 else 2100000)))"

lemma text_request_bounded:
  "text_request text [''language'' \<mapsto> VStr l] = Inr (operation, request) \<Longrightarrow>
   length l \<le> 32 \<Longrightarrow> l \<noteq> [] \<Longrightarrow> bounded_voice operation request"
  by (auto simp: text_request_def bounded_voice_def split: if_splits)

lemma bounded_audioI:
  "length (str_of (request ''language'')) \<le> 32 \<Longrightarrow> str_of (request ''language'') \<noteq> [] \<Longrightarrow>
   operation \<noteq> ''tts'' \<Longrightarrow> b64_decode (str_of (request ''audio_bytes_b64'')) = Some data \<Longrightarrow> wav_data data \<Longrightarrow>
   length data \<le> (if operation = ''activity'' then 123000 else 2100000) \<Longrightarrow> bounded_voice operation request"
  unfolding bounded_voice_def by (simp only: if_False) blast

lemma audio_request_bounded:
  assumes "audio_request action encoded [''language'' \<mapsto> VStr l] = Inr (operation, request)"
    and "length l \<le> 32" and "l \<noteq> []"
  shows "bounded_voice operation request"
proof -
  let ?r = "[''language'' \<mapsto> VStr l, ''audio_bytes_b64'' \<mapsto> VStr encoded, ''audio_format'' \<mapsto> VStr ''wav'']"
  have le: "length encoded \<le> 2800000"
    using assms(1) unfolding audio_request_def by (rule contrapos_pp) simp
  then have "audio_request action encoded [''language'' \<mapsto> VStr l] = (case b64_decode encoded of
        None \<Rightarrow> Inl (Errorf ''voice segment must be WAV audio'')
      | Some data \<Rightarrow> if \<not> wav_data data then Inl (Errorf ''voice segment must be WAV audio'')
          else if action = ''detect-voice-activity'' then
                 (if length data > 123000 then Inl (Errorf ''voice activity probe is too large'')
                  else Inr (''activity'', ?r))
               else if action = ''detect-voice-wakeword''
               then Inr (''wakeword'', ?r(''hotword'' \<mapsto> VStr ''Ningo''))
               else Inr (''stt'', ?r))"
    unfolding audio_request_def Let_def by (simp only: not_le [symmetric] not_True_eq_False if_False not_not)
  then obtain data where d: "b64_decode encoded = Some data" and wav: "wav_data data"
    and cases: "operation = ''activity'' \<and> request = ?r \<and> length data \<le> 123000 \<or>
      operation = ''wakeword'' \<and> request = ?r(''hotword'' \<mapsto> VStr ''Ningo'') \<or>
      operation = ''stt'' \<and> request = ?r"
    using assms(1) by (simp only: split: option.splits if_splits) (auto simp only: sum.inject prod.inject not_less)
  have "length data \<le> 2100000" using b64_decode_length [OF d] le by simp
  with cases show ?thesis
    by (elim disjE conjE) (rule bounded_audioI [where data = data]; use assms(2,3) d wav in simp)+
qed

lemma voice_request_bounded:
  assumes "voice_request action payload = Inr (operation, request)"
  shows "voice_action action \<and> bounded_voice operation request"
proof
  have lang: "voice_language payload \<noteq> []" by (simp add: voice_language_def)
  show "voice_action action"
    by (rule ccontr) (use assms in \<open>simp add: voice_request_def voice_action_def Let_def split: if_splits\<close>)
  show "bounded_voice operation request"
    using assms text_request_bounded [OF _ _ lang] audio_request_bounded [OF _ _ lang]
    unfolding voice_request_def Let_def by (metis Inl_Inr_False not_le)
qed

text \<open>
  The speech service only ever sees bounded requests: for any payload, \<open>ProcessVoice\<close> either
  fails and has not called the service, or its result is that of one call for one of the four voice
  actions, with a language of 1 to 32 bytes and either a text that is not blank and at most 4000
  characters long or audio that decodes to a WAV of at most 2,100,000 bytes (123,000 for an activity
  probe).
\<close>

theorem voice_calls_are_bounded:
  "(\<exists>e. process_voice (Some invoke) action payload w = (Inl e, w)) \<or>
   (\<exists>operation request. process_voice (Some invoke) action payload w = invoke operation request w \<and>
      voice_action action \<and> bounded_voice operation request)"
proof (cases "voice_request action payload")
  case (Inr r)
  then show ?thesis
    using voice_request_bounded [of action payload "fst r" "snd r"] by (auto simp: process_voice_def split: prod.splits)
qed (simp add: process_voice_def)

end
