(* ===== verification/Runtime_Plan.thy ===== *)
theory Runtime_Plan
  imports Prelude
begin

section \<open>The local modules and the order they start in\<close>

text \<open>
  \<open>dokja_domain/dokja_runtime/runtime.go\<close>, the inventory and \<open>Plan\<close>.  The visit recurses through a
  map of what it has seen, so its recursion is bounded by the inventory: the model has fuel, and the
  facts below show that the fuel \<open>Plan\<close> is given always suffices, for any inventory.
\<close>

record rt_module =
  rm_name :: string
  rm_service :: string
  rm_dependencies :: "string list"
  rm_port :: int
  rm_internal :: bool

definition md :: "string \<Rightarrow> string \<Rightarrow> string list \<Rightarrow> int \<Rightarrow> bool \<Rightarrow> rt_module" where
  "md name service deps port internal =
     \<lparr>rm_name = name, rm_service = service, rm_dependencies = deps, rm_port = port, rm_internal = internal\<rparr>"

definition inventory :: "rt_module list" where
  "inventory =
     [md ''orchestrator'' ''dokja-orchestrator'' [] 5558 False,
      md ''embeddings'' ''dokja-ollama'' [] 0 True,
      md ''embedding_init'' ''dokja-embedding-init'' [''embeddings''] 0 True,
      md ''memory'' ''dokja-memory'' [''orchestrator'', ''embedding_init''] 5562 False,
      md ''knowledge'' ''dokja-knowledge'' [''orchestrator'', ''embedding_init''] 5561 False,
      md ''feeds'' ''dokja-feeds'' [''orchestrator''] 5563 False,
      md ''voice'' ''dokja-voice'' [''orchestrator''] 8081 False,
      md ''communications'' ''dokja-communications'' [''orchestrator''] 0 False,
      md ''discord'' ''dokja-discord'' [''orchestrator'', ''voice''] 0 False,
      md ''scheduler'' ''dokja-scheduler'' [''orchestrator''] 0 False,
      md ''whatsapp'' ''dokja-whatsapp'' [''orchestrator''] 0 False,
      md ''cli'' ''dokja-cli'' [''orchestrator''] 0 True,
      md ''tui'' ''dokja-tui'' [''orchestrator''] 0 True]"

definition lookup_in :: "rt_module list \<Rightarrow> string \<Rightarrow> rt_module option" where
  "lookup_in mods name = find (\<lambda>m. rm_name m = name) mods"

definition rt_lookup :: "string \<Rightarrow> rt_module option" where
  "rt_lookup name = lookup_in inventory name"

subsection \<open>Plan\<close>

record visiting =
  vs_seen :: "string list"
  vs_result :: "rt_module list"

fun visit :: "rt_module list \<Rightarrow> nat \<Rightarrow> string \<Rightarrow> visiting \<Rightarrow> visiting option"
  and visit_all :: "rt_module list \<Rightarrow> nat \<Rightarrow> string list \<Rightarrow> visiting \<Rightarrow> visiting option" where
  "visit mods 0 name st = None"
| "visit mods (Suc n) name st =
     (if name \<in> set (vs_seen st) then Some st
      else case lookup_in mods name of
        None \<Rightarrow> Some st
      | Some m \<Rightarrow>
          (case visit_all mods n (rm_dependencies m) (st\<lparr>vs_seen := name # vs_seen st\<rparr>) of
             None \<Rightarrow> None
           | Some st' \<Rightarrow> Some (st'\<lparr>vs_result := vs_result st' @ [m]\<rparr>)))"
| "visit_all mods n [] st = Some st"
| "visit_all mods n (d # ds) st =
     (case visit mods n d st of
        None \<Rightarrow> None
      | Some st' \<Rightarrow> visit_all mods n ds st')"

definition plan_of :: "rt_module list \<Rightarrow> string \<Rightarrow> rt_module list" where
  "plan_of mods name =
     (case visit mods (length mods + 2) name \<lparr>vs_seen = [], vs_result = []\<rparr> of
        None \<Rightarrow> []
      | Some st \<Rightarrow> vs_result st)"

definition rt_plan :: "string \<Rightarrow> rt_module list" where
  "rt_plan name = plan_of inventory name"

subsection \<open>The fuel suffices\<close>

definition unseen :: "rt_module list \<Rightarrow> visiting \<Rightarrow> nat" where
  "unseen mods st = card (rm_name ` set mods - set (vs_seen st))"

lemma lookup_in_SomeD: "lookup_in mods name = Some m \<Longrightarrow> m \<in> set mods \<and> rm_name m = name"
  by (auto simp: lookup_in_def find_Some_iff)

lemma seen_grows:
  "visit mods n name st = Some st' \<Longrightarrow> set (vs_seen st) \<subseteq> set (vs_seen st')"
  "visit_all mods n names st = Some st' \<Longrightarrow> set (vs_seen st) \<subseteq> set (vs_seen st')"
proof (induction mods n name st and mods n names st arbitrary: st' and st' rule: visit_visit_all.induct)
  case (2 mods n name st)
  then show ?case by (fastforce split: if_splits option.splits)
next
  case (4 mods n d ds st)
  then show ?case by (fastforce split: option.splits)
qed auto

lemma unseen_mono: "set (vs_seen st) \<subseteq> set (vs_seen st') \<Longrightarrow> unseen mods st' \<le> unseen mods st"
  unfolding unseen_def by (rule card_mono) auto

lemma unseen_visit:
  assumes "name \<notin> set (vs_seen st)" and "lookup_in mods name = Some m"
  shows "unseen mods (st\<lparr>vs_seen := name # vs_seen st\<rparr>) < unseen mods st"
  unfolding unseen_def
  by (rule psubset_card_mono) (use assms lookup_in_SomeD [OF assms(2)] in auto)

lemma visit_returns:
  "unseen mods st + 1 < n \<Longrightarrow> visit mods n name st \<noteq> None"
  "unseen mods st + 1 < n \<Longrightarrow> visit_all mods n names st \<noteq> None"
proof (induction mods n name st and mods n names st rule: visit_visit_all.induct)
  case (2 mods n name st)
  show ?case
  proof (cases "name \<in> set (vs_seen st) \<or> lookup_in mods name = None")
    case False
    then obtain m where m: "lookup_in mods name = Some m" by blast
    show ?thesis using 2 False unseen_visit [OF _ m, of st] m by fastforce
  qed auto
next
  case (4 mods n d ds st)
  then obtain st' where st': "visit mods n d st = Some st'" by fastforce
  then show ?case using 4 unseen_mono [OF seen_grows(1) [OF st'], of mods] by simp
qed auto

lemma visit_more_fuel:
  "visit mods n name st = Some st' \<Longrightarrow> visit mods (n + k) name st = Some st'"
  "visit_all mods n names st = Some st' \<Longrightarrow> visit_all mods (n + k) names st = Some st'"
proof (induction mods n name st and mods n names st arbitrary: st' and st' rule: visit_visit_all.induct)
  case (2 mods n name st)
  then show ?case by (fastforce split: if_splits option.splits)
next
  case (4 mods n d ds st)
  then show ?case by (fastforce split: option.splits)
qed auto

lemma plan_visit:
  obtains st where "visit mods (length mods + 2) name \<lparr>vs_seen = [], vs_result = []\<rparr> = Some st"
    and "plan_of mods name = vs_result st"
proof -
  have "unseen mods \<lparr>vs_seen = [], vs_result = []\<rparr> \<le> length mods"
    by (simp add: unseen_def) (metis card_image_le card_length finite_set le_trans)
  then show thesis
    using visit_returns(1) [of mods "\<lparr>vs_seen = [], vs_result = []\<rparr>" "length mods + 2" name] that
    by (fastforce simp: plan_of_def)
qed

subsection \<open>Dependencies come first\<close>

text \<open>
  \<open>deps_first known prev ms\<close>: every known dependency of a module of \<open>ms\<close> stands before it, in
  \<open>prev\<close> or in \<open>ms\<close>.
\<close>

fun deps_first :: "string set \<Rightarrow> string set \<Rightarrow> rt_module list \<Rightarrow> bool" where
  "deps_first known prev [] = True"
| "deps_first known prev (m # ms) =
     (set (rm_dependencies m) \<inter> known \<subseteq> prev \<and> deps_first known (insert (rm_name m) prev) ms)"

lemma deps_first_append [simp]:
  "deps_first known prev (xs @ ys) \<longleftrightarrow>
   deps_first known prev xs \<and> deps_first known (prev \<union> rm_name ` set xs) ys"
  by (induction xs arbitrary: prev) auto

abbreviation known_in :: "rt_module list \<Rightarrow> string set" where
  "known_in mods \<equiv> rm_name ` set mods"

abbreviation done_names :: "visiting \<Rightarrow> string set" where
  "done_names st \<equiv> rm_name ` set (vs_result st)"

definition pending :: "visiting \<Rightarrow> string set" where
  "pending st = set (vs_seen st) - done_names st"

text \<open>A rank that falls along the dependencies: there is one exactly when they have no cycle.\<close>

definition ranked :: "rt_module list \<Rightarrow> (string \<Rightarrow> nat) \<Rightarrow> bool" where
  "ranked mods rank \<longleftrightarrow>
     (\<forall>m \<in> set mods. \<forall>d \<in> set (rm_dependencies m) \<inter> known_in mods. rank d < rank (rm_name m))"

definition visited :: "rt_module list \<Rightarrow> visiting \<Rightarrow> bool" where
  "visited mods st \<longleftrightarrow>
     distinct (map rm_name (vs_result st)) \<and> done_names st \<subseteq> set (vs_seen st) \<and>
     set (vs_seen st) \<subseteq> known_in mods \<and> set (vs_result st) \<subseteq> set mods \<and>
     deps_first (known_in mods) {} (vs_result st)"

definition below_pending :: "(string \<Rightarrow> nat) \<Rightarrow> visiting \<Rightarrow> string \<Rightarrow> bool" where
  "below_pending rank st name \<longleftrightarrow> (\<forall>x \<in> pending st. rank name < rank x)"

text \<open>What a visit of \<open>names\<close> leaves, from \<open>st\<close> to \<open>st'\<close>.\<close>

definition visit_done :: "rt_module list \<Rightarrow> string set \<Rightarrow> visiting \<Rightarrow> visiting \<Rightarrow> bool" where
  "visit_done mods names st st' \<longleftrightarrow>
     visited mods st' \<and> pending st' = pending st \<and> names \<inter> known_in mods \<subseteq> done_names st' \<and>
     done_names st \<subseteq> done_names st'"

lemma visit_done_trans:
  assumes "visit_done mods A s t" and "visit_done mods B t u"
  shows "visit_done mods (A \<union> B) s u"
proof -
  have "A \<inter> known_in mods \<subseteq> done_names u" and "done_names s \<subseteq> done_names u"
    using assms unfolding visit_done_def by (meson order_trans)+
  then show ?thesis using assms by (auto simp: visit_done_def)
qed

lemma lookup_in_None: "lookup_in mods name = None \<longleftrightarrow> name \<notin> known_in mods"
  by (auto simp: lookup_in_def find_None_iff)

lemma visit_orders:
  assumes "ranked mods rank"
  shows "visit mods n name st = Some st' \<Longrightarrow> visited mods st \<Longrightarrow>
           (name \<in> known_in mods \<Longrightarrow> below_pending rank st name) \<Longrightarrow> visit_done mods {name} st st'"
    and "visit_all mods n names st = Some st' \<Longrightarrow> visited mods st \<Longrightarrow>
           (\<And>d. d \<in> set names \<inter> known_in mods \<Longrightarrow> below_pending rank st d) \<Longrightarrow>
           visit_done mods (set names) st st'"
  using assms
proof (induction mods n name st and mods n names st arbitrary: st' and st' rule: visit_visit_all.induct)
  case (2 mods n name st)
  show ?case
  proof (cases "name \<in> set (vs_seen st)")
    case True
    then have "name \<in> known_in mods" using "2.prems"(2) by (auto simp: visited_def)
    then have "name \<notin> pending st" using "2.prems"(3) by (auto simp: below_pending_def)
    then show ?thesis using True "2.prems" by (auto simp: visit_done_def pending_def)
  next
    case new: False
    show ?thesis
    proof (cases "lookup_in mods name")
      case None
      have "st' = st" using new None "2.prems"(1) by simp
      moreover have "name \<notin> known_in mods" using None lookup_in_None [of mods name] by blast
      ultimately show ?thesis using "2.prems"(2) by (auto simp: visit_done_def)
    next
      case (Some m)
      note m = lookup_in_SomeD [OF Some]
      then have kn: "name \<in> known_in mods" by auto
      let ?st = "st\<lparr>vs_seen := name # vs_seen st\<rparr>"
      obtain u where u: "visit_all mods n (rm_dependencies m) ?st = Some u"
        and st': "st' = u\<lparr>vs_result := vs_result u @ [m]\<rparr>"
        using "2.prems"(1) new Some by (auto split: option.splits)
      have vis: "visited mods ?st" using "2.prems"(2) kn by (auto simp: visited_def)
      have pend: "pending ?st = insert name (pending st)"
        using new "2.prems"(2) by (auto simp: pending_def visited_def)
      have "below_pending rank ?st d" if "d \<in> set (rm_dependencies m) \<inter> known_in mods" for d
      proof -
        have "rank d < rank name" using that m "2.prems"(4) by (auto simp: ranked_def)
        then show ?thesis
          using "2.prems"(3) [OF kn] by (auto simp: below_pending_def pend intro: less_trans)
      qed
      from "2.IH" [OF new Some u vis this "2.prems"(4)]
      have d: "visit_done mods (set (rm_dependencies m)) ?st u" .
      have fresh: "name \<notin> done_names u" and seen: "name \<in> set (vs_seen u)"
        using d pend by (auto simp: visit_done_def pending_def)
      show ?thesis
        unfolding visit_done_def
      proof (intro conjI)
        show "visited mods st'"
          using d fresh seen m by (auto simp: visit_done_def visited_def st')
        show "pending st' = pending st"
          using d m new "2.prems"(2) pend by (auto simp: visit_done_def pending_def st' visited_def)
      qed (use d m in \<open>auto simp: visit_done_def st'\<close>)
    qed
  qed
next
  case (4 mods n d ds st)
  then obtain u where u: "visit mods n d st = Some u" and st': "visit_all mods n ds u = Some st'"
    by (auto split: option.splits)
  have 1: "visit_done mods {d} st u"
    using "4.IH"(1) [OF u "4.prems"(2) _ "4.prems"(4)] "4.prems"(3) by auto
  then have "below_pending rank u e" if "e \<in> set ds \<inter> known_in mods" for e
    using "4.prems"(3) that by (auto simp: visit_done_def below_pending_def)
  then have "visit_done mods (set ds) u st'"
    using "4.IH"(2) [OF u st' _ _ "4.prems"(4)] 1 by (auto simp: visit_done_def)
  from visit_done_trans [OF 1 this] show ?case by simp
qed (auto simp: visit_done_def)

text \<open>The plan ends with the module itself.\<close>

lemma visit_last:
  "visit mods n name st = Some st' \<Longrightarrow> name \<notin> set (vs_seen st) \<Longrightarrow> lookup_in mods name = Some m \<Longrightarrow>
   \<exists>pre. vs_result st' = pre @ [m]"
  by (cases n) (auto split: if_splits option.splits)

lemma inventory_ranked:
  "ranked inventory (\<lambda>x. if x \<in> {''orchestrator'', ''embeddings''} then 0
     else if x \<in> {''voice'', ''embedding_init''} then 1 else 2)"
  unfolding ranked_def inventory_def md_def by simp

lemma plan_of_ordered:
  assumes "ranked mods rank"
  shows "distinct (map rm_name (plan_of mods name)) \<and> set (plan_of mods name) \<subseteq> set mods \<and>
         deps_first (known_in mods) {} (plan_of mods name)"
proof -
  let ?st = "\<lparr>vs_seen = [], vs_result = []\<rparr>"
  obtain st where st: "visit mods (length mods + 2) name ?st = Some st" and p: "plan_of mods name = vs_result st"
    by (rule plan_visit)
  have "visit_done mods {name} ?st st"
    by (rule visit_orders(1) [OF assms st]) (auto simp: visited_def below_pending_def pending_def)
  then show ?thesis by (simp add: p visit_done_def visited_def)
qed

lemma plan_of_last:
  assumes "lookup_in mods name = Some m"
  shows "\<exists>pre. plan_of mods name = pre @ [m]"
proof -
  let ?st = "\<lparr>vs_seen = [], vs_result = []\<rparr>"
  obtain st where st: "visit mods (length mods + 2) name ?st = Some st" and p: "plan_of mods name = vs_result st"
    by (rule plan_visit)
  show ?thesis using visit_last [OF st _ assms] p by simp
qed

subsection \<open>Properties\<close>

text \<open>
  C36.  The plan of a module is the order to start it in: it lists modules of the inventory, each
  once, every dependency before the module that needs it, and it ends with the module itself; an
  unknown name has an empty plan.
\<close>

theorem plan_is_start_order:
  "distinct (map rm_name (rt_plan name)) \<and> set (rt_plan name) \<subseteq> set inventory \<and>
   deps_first (rm_name ` set inventory) {} (rt_plan name) \<and>
   (case rt_lookup name of
      None \<Rightarrow> rt_plan name = []
    | Some m \<Rightarrow> (\<exists>before. rt_plan name = before @ [m]))"
proof (cases "rt_lookup name")
  case None
  then have "rt_plan name = []"
    by (simp add: rt_plan_def plan_of_def rt_lookup_def)
  then show ?thesis using None by simp
next
  case (Some m)
  then show ?thesis
    using plan_of_ordered [OF inventory_ranked, of name] plan_of_last [of inventory name m]
    by (simp add: rt_plan_def rt_lookup_def)
qed

text \<open>
  C37.  \<open>Plan\<close> terminates for any list of modules, cyclic dependencies included: its recursion is
  never deeper than one more than there are modules, so the fuel of the model is enough and any
  more gives the same visit.
\<close>

theorem plan_terminates:
  "\<exists>st. plan_of mods name = vs_result st \<and>
     (\<forall>k. visit mods (length mods + 2 + k) name \<lparr>vs_seen = [], vs_result = []\<rparr> = Some st)"
proof -
  obtain st where "visit mods (length mods + 2) name \<lparr>vs_seen = [], vs_result = []\<rparr> = Some st"
    and "plan_of mods name = vs_result st"
    by (rule plan_visit)
  then show ?thesis using visit_more_fuel(1) by blast
qed

end
