(* ===== verification/Runtime_Lifecycle.thy ===== *)
theory Runtime_Lifecycle
  imports Runtime_Plan Call_Log
begin

section \<open>Starting and stopping the local modules\<close>

text \<open>
  \<open>dokja_domain/dokja_runtime/runtime.go\<close>, the controller.  The backend, the save of the journal and
  the wait for a service's gate are a parameter: functions that answer and change the world \<open>'w\<close>.  A
  Go map to bool is the set of its true keys.  \<open>change\<close> is modelled as one goroutine runs it; the
  critical sections of the controller, in any order, are the step relation below.
\<close>

subsection \<open>State\<close>

record container =
  ct_running :: bool
  ct_completed :: bool
  ct_failed :: bool

record rt_journal =
  jn_owned :: "string set"
  jn_roots :: "string set"
  jn_stale :: "string set"

record rt_row =
  rr_name :: string
  rr_state :: string
  rr_error :: string
  rr_dependencies :: "string list"
  rr_progress :: string

record rt_domain =
  rd_states :: "string \<rightharpoonup> rt_row"
  rd_owned :: "string set"
  rd_roots :: "string set"
  rd_stopped :: "string set"
  rd_stale :: "string set"
  rd_active :: "string \<rightharpoonup> bool"
  rd_busy :: bool

record 'w rt_ports =
  rp_status :: "'w \<Rightarrow> (string \<Rightarrow> container) res \<times> 'w"
  rp_start :: "rt_module \<Rightarrow> 'w \<Rightarrow> gerror option \<times> 'w"
  rp_stop :: "rt_module \<Rightarrow> 'w \<Rightarrow> gerror option \<times> 'w"
  rp_ready :: "rt_module \<Rightarrow> 'w \<Rightarrow> gerror option \<times> 'w"
  rp_recreate :: "rt_module \<Rightarrow> 'w \<Rightarrow> gerror option \<times> 'w"
  rp_save :: "(rt_journal \<Rightarrow> 'w \<Rightarrow> gerror option \<times> 'w) option"
  rp_gate :: "string \<Rightarrow> 'w \<Rightarrow> gerror option \<times> 'w"

definition empty_row :: rt_row where
  "empty_row = \<lparr>rr_name = [], rr_state = [], rr_error = [], rr_dependencies = [], rr_progress = []\<rparr>"

definition row_of :: "rt_domain \<Rightarrow> string \<Rightarrow> rt_row" where
  "row_of d name = (case rd_states d name of None \<Rightarrow> empty_row | Some r \<Rightarrow> r)"

definition state_row :: "rt_module \<Rightarrow> string \<Rightarrow> string \<Rightarrow> rt_row" where
  "state_row m st err =
     \<lparr>rr_name = rm_name m, rr_state = st, rr_error = err, rr_dependencies = rm_dependencies m, rr_progress = []\<rparr>"

definition new_runtime :: "rt_journal \<Rightarrow> rt_domain" where
  "new_runtime j =
     \<lparr>rd_states = Map.empty,
      rd_owned = set (filter (\<lambda>s. s \<in> jn_owned j) (map rm_service inventory)),
      rd_roots = set (map rm_name (filter (\<lambda>m. \<not> rm_internal m \<and> rm_name m \<in> jn_roots j) inventory)),
      rd_stopped = {},
      rd_stale = set (filter (\<lambda>s. s \<in> jn_stale j) (map rm_service inventory)),
      rd_active = Map.empty, rd_busy = False\<rparr>"

subsection \<open>Snapshots\<close>

record rt_snapshot =
  sn_modules :: "rt_row list"
  sn_busy :: bool
  sn_error :: string

definition snapshot_locked :: "rt_domain \<Rightarrow> rt_snapshot" where
  "snapshot_locked d =
     \<lparr>sn_modules = map (\<lambda>m. case rd_states d (rm_name m) of
                          Some row \<Rightarrow> row
                        | None \<Rightarrow> state_row m ''stopped'' [])
                    (filter (\<lambda>m. \<not> rm_internal m) inventory),
      sn_busy = (rd_active d \<noteq> Map.empty \<or> rd_busy d), sn_error = []\<rparr>"

text \<open>One row of \<open>List\<close>: what the status of the containers makes of it.\<close>

definition listed_state :: "rt_domain \<Rightarrow> (string \<Rightarrow> container) \<Rightarrow> rt_module \<Rightarrow> string" where
  "listed_state d containers m =
     (let old = row_of d (rm_name m); c = containers (rm_service m);
          st = (if ct_failed c \<and> rm_service m \<notin> rd_stopped d then ''failed''
                else if ct_running c then ''running'' else ''stopped'');
          st = (if rr_state old = ''ready'' \<and> st = ''running'' then ''ready'' else st)
      in if rr_state old = ''failed'' then ''failed'' else st)"

definition in_transition :: "string \<Rightarrow> bool" where
  "in_transition st \<longleftrightarrow> st = ''starting'' \<or> st = ''stopping''"

definition list_row :: "(string \<Rightarrow> container) \<Rightarrow> rt_module \<Rightarrow> rt_domain \<Rightarrow> rt_domain" where
  "list_row containers m d =
     (let old = row_of d (rm_name m)
      in if in_transition (rr_state old) then d
         else d\<lparr>rd_states := (rd_states d)(rm_name m \<mapsto> state_row m (listed_state d containers m) (rr_error old))\<rparr>)"

definition list_rows :: "(string \<Rightarrow> container) \<Rightarrow> rt_domain \<Rightarrow> rt_domain" where
  "list_rows containers d = fold (list_row containers) inventory d"

definition rt_list :: "'w rt_ports \<Rightarrow> rt_domain \<Rightarrow> 'w \<Rightarrow> rt_snapshot \<times> rt_domain \<times> 'w" where
  "rt_list ports d w =
     (case rp_status ports w of
        (Inl e, w') \<Rightarrow> ((snapshot_locked d)\<lparr>sn_error := err_text e\<rparr>, d, w')
      | (Inr containers, w') \<Rightarrow>
          (let d' = list_rows containers d in (snapshot_locked d', d', w')))"

subsection \<open>Accepting an operation\<close>

text \<open>The module whose \<open>perform\<close> is started in the background, if one is.\<close>

definition set_module :: "rt_module \<Rightarrow> bool \<Rightarrow> rt_domain \<Rightarrow> rt_snapshot res \<times> bool \<times> rt_domain" where
  "set_module m enabled d =
     (if rd_busy d then (Inl (Errorf ''another module operation is in progress''), False, d)
      else case rd_active d (rm_name m) of
        Some direction \<Rightarrow>
          if direction = enabled then (Inr (snapshot_locked d), False, d)
          else (Inl (Errorf ''this module already has an operation in progress''), False, d)
      | None \<Rightarrow>
          (let d' = d\<lparr>rd_active := (rd_active d)(rm_name m \<mapsto> enabled),
                      rd_states := (rd_states d)(rm_name m \<mapsto>
                        state_row m (if enabled then ''starting'' else ''stopping'') [])\<rparr>
           in (Inr (snapshot_locked d'), True, d')))"

definition rt_set :: "string \<Rightarrow> bool \<Rightarrow> rt_domain \<Rightarrow> rt_snapshot res \<times> bool \<times> rt_domain" where
  "rt_set name enabled d =
     (case rt_lookup name of
        None \<Rightarrow> (Inl (Errorf ''unknown module''), False, d)
      | Some m \<Rightarrow>
          if rm_internal m then (Inl (Errorf ''unknown module''), False, d)
          else set_module m enabled d)"

subsection \<open>The journal\<close>

definition cannot_save :: gerror where
  "cannot_save = Errorf ''cannot save runtime ownership; check local state directory permissions''"

definition save_journal :: "'w rt_ports \<Rightarrow> rt_domain \<Rightarrow> 'w \<Rightarrow> gerror option \<times> 'w" where
  "save_journal ports d w =
     (case rp_save ports of
        None \<Rightarrow> (None, w)
      | Some save \<Rightarrow> save \<lparr>jn_owned = rd_owned d, jn_roots = rd_roots d, jn_stale = rd_stale d\<rparr> w)"

definition set_owned :: "string \<Rightarrow> bool \<Rightarrow> rt_domain \<Rightarrow> rt_domain" where
  "set_owned service owned d =
     d\<lparr>rd_owned := (if owned then insert service (rd_owned d) else rd_owned d - {service})\<rparr>"

definition remember ::
    "'w rt_ports \<Rightarrow> string \<Rightarrow> bool \<Rightarrow> rt_domain \<Rightarrow> 'w \<Rightarrow> gerror option \<times> rt_domain \<times> 'w" where
  "remember ports service owned d w =
     (let previous = service \<in> rd_owned d; d1 = set_owned service owned d
      in case save_journal ports d1 w of
           (Some e, w') \<Rightarrow> (Some cannot_save, set_owned service previous d1, w')
         | (None, w') \<Rightarrow> (None, d1, w'))"

definition mark_stale ::
    "'w rt_ports \<Rightarrow> string \<Rightarrow> bool \<Rightarrow> rt_domain \<Rightarrow> 'w \<Rightarrow> gerror option \<times> rt_domain \<times> 'w" where
  "mark_stale ports service stale d w =
     (if (service \<in> rd_stale d) = stale then (None, d, w)
      else
       (let d1 = d\<lparr>rd_stale := (if stale then insert service (rd_stale d) else rd_stale d - {service})\<rparr>
        in case save_journal ports d1 w of
             (Some e, w') \<Rightarrow> (Some cannot_save, d1, w')
           | (None, w') \<Rightarrow> (None, d1, w')))"

definition progress :: "string \<Rightarrow> string \<Rightarrow> rt_domain \<Rightarrow> rt_domain" where
  "progress name text d =
     d\<lparr>rd_states := (rd_states d)(name \<mapsto> (row_of d name)\<lparr>rr_progress := text\<rparr>)\<rparr>"

subsection \<open>Starting\<close>

definition needs_start :: "rt_domain \<Rightarrow> (string \<Rightarrow> container) \<Rightarrow> rt_module \<Rightarrow> bool" where
  "needs_start d containers item \<longleftrightarrow>
     rm_service item \<in> rd_stale d \<or>
     (\<not> ct_running (containers (rm_service item)) \<and>
      \<not> (rm_name item = ''embedding_init'' \<and> ct_completed (containers (rm_service item))))"

text \<open>The body of the branch that starts or recreates the service.\<close>

definition launch ::
    "'w rt_ports \<Rightarrow> string \<Rightarrow> rt_module \<Rightarrow> rt_domain \<Rightarrow> 'w \<Rightarrow> gerror option \<times> rt_domain \<times> 'w" where
  "launch ports root item d w =
     (case remember ports (rm_service item) True d w of
        (Some e, d1, w1) \<Rightarrow> (Some e, d1, w1)
      | (None, d1, w1) \<Rightarrow>
          (let d2 = progress root (''starting:'' @ rm_name item)
                      (d1\<lparr>rd_stopped := rd_stopped d1 - {rm_service item}\<rparr>);
               run = (if rm_service item \<in> rd_stale d2 then rp_recreate ports else rp_start ports)
           in case run item w1 of
                (Some e, w2) \<Rightarrow> (Some e, d2, w2)
              | (None, w2) \<Rightarrow> mark_stale ports (rm_service item) False d2 w2))"

definition ensure_running ::
    "'w rt_ports \<Rightarrow> string \<Rightarrow> (string \<Rightarrow> container) \<Rightarrow> rt_module \<Rightarrow> rt_domain \<Rightarrow> 'w \<Rightarrow>
     gerror option \<times> rt_domain \<times> 'w" where
  "ensure_running ports root containers item d w =
     (if needs_start d containers item then launch ports root item d w else (None, d, w))"

definition start_item ::
    "'w rt_ports \<Rightarrow> string \<Rightarrow> rt_module \<Rightarrow> rt_domain \<Rightarrow> 'w \<Rightarrow> gerror option \<times> rt_domain \<times> 'w" where
  "start_item ports root item d w =
     (let d1 = progress root (''waiting:'' @ rm_name item) d
      in case rp_gate ports (rm_service item) w of
           (Some e, w1) \<Rightarrow> (Some e, d1, w1)
         | (None, w1) \<Rightarrow>
             (case rp_status ports w1 of
                (Inl e, w2) \<Rightarrow> (Some e, d1, w2)
              | (Inr containers, w2) \<Rightarrow>
                  (case ensure_running ports root containers item d1 w2 of
                     (Some e, d3, w3) \<Rightarrow> (Some e, d3, w3)
                   | (None, d3, w3) \<Rightarrow>
                       (let d4 = progress root (''readiness:'' @ rm_name item) d3
                        in case rp_ready ports item w3 of (e, w4) \<Rightarrow> (e, d4, w4)))))"

fun start_all ::
    "'w rt_ports \<Rightarrow> string \<Rightarrow> rt_module list \<Rightarrow> rt_domain \<Rightarrow> 'w \<Rightarrow> gerror option \<times> rt_domain \<times> 'w" where
  "start_all ports root [] d w = (None, d, w)"
| "start_all ports root (item # items) d w =
     (case start_item ports root item d w of
        (Some e, d', w') \<Rightarrow> (Some e, d', w')
      | (None, d', w') \<Rightarrow> start_all ports root items d' w')"

subsection \<open>Stopping\<close>

text \<open>Whether the running module \<open>other\<close> keeps its plan up while \<open>m\<close> is stopped.\<close>

definition holds_up :: "rt_domain \<Rightarrow> (string \<Rightarrow> container) \<Rightarrow> rt_module \<Rightarrow> rt_module \<Rightarrow> bool" where
  "holds_up d containers m other \<longleftrightarrow>
     \<not> (rm_name other = ''embeddings'' \<or> rm_name other = ''embedding_init'' \<or> rm_name other = rm_name m \<or>
        \<not> ct_running (containers (rm_service other))) \<and>
     \<not> (rm_service other \<in> rm_service ` set (rt_plan (rm_name m)) \<and>
        rm_service other \<in> rd_owned d \<and> rm_name other \<notin> rd_roots d)"

definition needed_services :: "rt_domain \<Rightarrow> (string \<Rightarrow> container) \<Rightarrow> rt_module \<Rightarrow> string set" where
  "needed_services d containers m =
     set (concat (map (\<lambda>other. map rm_service (rt_plan (rm_name other)))
                      (filter (holds_up d containers m) inventory)))"

fun stop_all ::
    "'w rt_ports \<Rightarrow> rt_module \<Rightarrow> string set \<Rightarrow> rt_module list \<Rightarrow> rt_domain \<Rightarrow> 'w \<Rightarrow> gerror option \<times> rt_domain \<times> 'w" where
  "stop_all ports m needed [] d w = (None, d, w)"
| "stop_all ports m needed (item # items) d w =
     (if rm_service item \<in> needed \<or> (rm_name item \<noteq> rm_name m \<and> rm_service item \<notin> rd_owned d)
      then stop_all ports m needed items d w
      else
       (let d1 = progress (rm_name m) (''stopping:'' @ rm_name item) d
        in case rp_stop ports item w of
             (Some e, w1) \<Rightarrow> (Some e, d1, w1)
           | (None, w1) \<Rightarrow>
               (let d2 = d1\<lparr>rd_stopped := insert (rm_service item) (rd_stopped d1)\<rparr>;
                    d3 = (if rm_name item = rm_name m then d2\<lparr>rd_roots := rd_roots d2 - {rm_name m}\<rparr> else d2)
                in case remember ports (rm_service item) False d3 w1 of
                     (Some e, d4, w2) \<Rightarrow> (Some e, d4, w2)
                   | (None, d4, w2) \<Rightarrow> stop_all ports m needed items d4 w2)))"

definition change ::
    "'w rt_ports \<Rightarrow> rt_module \<Rightarrow> bool \<Rightarrow> rt_domain \<Rightarrow> 'w \<Rightarrow> gerror option \<times> rt_domain \<times> 'w" where
  "change ports m enabled d w =
     (if enabled then
       (let d1 = d\<lparr>rd_roots := insert (rm_name m) (rd_roots d)\<rparr>
        in case remember ports (rm_service m) (rm_service m \<in> rd_owned d1) d1 w of
             (Some e, d2, w2) \<Rightarrow> (Some e, d2, w2)
           | (None, d2, w2) \<Rightarrow> start_all ports (rm_name m) (rt_plan (rm_name m)) d2 w2)
      else
       (case rp_status ports w of
          (Inl e, w1) \<Rightarrow> (Some e, d, w1)
        | (Inr containers, w1) \<Rightarrow>
            (let needed = needed_services d containers m
             in if rm_service m \<in> needed
                then (Some (Errorf ''module is required by another running module; stop its dependents first''), d, w1)
                else stop_all ports m needed (rev (rt_plan (rm_name m))) d w1)))"

definition finish_operation :: "rt_module \<Rightarrow> bool \<Rightarrow> gerror option \<Rightarrow> rt_domain \<Rightarrow> rt_domain" where
  "finish_operation m enabled err d =
     d\<lparr>rd_states := (rd_states d)(rm_name m \<mapsto>
         (case err of
            Some e \<Rightarrow> state_row m ''failed'' (err_text e)
          | None \<Rightarrow> state_row m (if enabled then ''ready'' else ''stopped'') [])),
       rd_active := (rd_active d)(rm_name m := None)\<rparr>"

definition perform :: "'w rt_ports \<Rightarrow> rt_module \<Rightarrow> bool \<Rightarrow> rt_domain \<Rightarrow> 'w \<Rightarrow> rt_domain \<times> 'w" where
  "perform ports m enabled d w =
     (case change ports m enabled (progress (rm_name m) ''queued'' d) w of
        (err, d', w') \<Rightarrow> (finish_operation m enabled err d', w'))"

subsection \<open>Ownership is saved before it counts\<close>

text \<open>
  A save that writes the journal to the disk or fails: the world is the journal on the disk, and an
  operation carries the outcome of its save.
\<close>

definition disk_ports :: "gerror option \<Rightarrow> rt_journal rt_ports" where
  "disk_ports outcome =
     \<lparr>rp_status = (\<lambda>w. (Inr (\<lambda>s. \<lparr>ct_running = False, ct_completed = False, ct_failed = False\<rparr>), w)),
      rp_start = (\<lambda>m w. (None, w)), rp_stop = (\<lambda>m w. (None, w)), rp_ready = (\<lambda>m w. (None, w)),
      rp_recreate = (\<lambda>m w. (None, w)),
      rp_save = Some (\<lambda>j w. (outcome, if outcome = None then j else w)),
      rp_gate = (\<lambda>s w. (None, w))\<rparr>"

fun remember_step ::
    "rt_module \<times> bool \<times> gerror option \<Rightarrow> rt_domain \<times> rt_journal \<Rightarrow> gerror option \<times> (rt_domain \<times> rt_journal)" where
  "remember_step (m, owned, outcome) (d, disk) =
     (case remember (disk_ports outcome) (rm_service m) owned d disk of (e, d', disk') \<Rightarrow> (e, (d', disk')))"

lemma set_owned_back: "set_owned s (s \<in> rd_owned d) (set_owned s owned d) = d"
  by (cases d) (auto simp: set_owned_def)

interpretation ownership: undoing remember_step
proof
  fix a s e s'
  assume "remember_step a s = (Some e, s')"
  then show "s' = s"
    by (cases a; cases s)
      (auto simp: remember_def save_journal_def disk_ports_def set_owned_back Let_def
        split: option.splits if_splits)
qed

lemma remember_saves:
  "remember_step a (d, disk) = (None, (d', disk')) \<Longrightarrow>
   disk' = \<lparr>jn_owned = rd_owned d', jn_roots = rd_roots d', jn_stale = rd_stale d'\<rparr> \<and>
   (\<exists>m owned. d' = set_owned (rm_service m) owned d \<and> fst a = m)"
  by (cases a) (auto simp: remember_def save_journal_def disk_ports_def Let_def
      split: option.splits if_splits)

definition journal_of :: "rt_domain \<Rightarrow> rt_journal" where
  "journal_of d = \<lparr>jn_owned = rd_owned d, jn_roots = rd_roots d, jn_stale = rd_stale d\<rparr>"

subsection \<open>A backend that records the calls\<close>

datatype rt_call =
    Status_Asked "(string \<Rightarrow> container) res"
  | Launched rt_module "gerror option"
  | Stopped rt_module "gerror option"
  | Asked_Ready rt_module "gerror option"
  | Saved rt_journal "gerror option"
  | Gate_Awaited string "gerror option"

record rt_answers =
  ra_status :: "rt_call list \<Rightarrow> (string \<Rightarrow> container) res"
  ra_launch :: "rt_call list \<Rightarrow> rt_module \<Rightarrow> gerror option"
  ra_stop :: "rt_call list \<Rightarrow> rt_module \<Rightarrow> gerror option"
  ra_ready :: "rt_call list \<Rightarrow> rt_module \<Rightarrow> gerror option"
  ra_save :: "rt_call list \<Rightarrow> rt_journal \<Rightarrow> gerror option"
  ra_gate :: "rt_call list \<Rightarrow> string \<Rightarrow> gerror option"

definition recorded_ports :: "rt_answers \<Rightarrow> rt_call list rt_ports" where
  "recorded_ports a =
     \<lparr>rp_status = (\<lambda>l. (ra_status a l, l @ [Status_Asked (ra_status a l)])),
      rp_start = (\<lambda>m l. (ra_launch a l m, l @ [Launched m (ra_launch a l m)])),
      rp_stop = (\<lambda>m l. (ra_stop a l m, l @ [Stopped m (ra_stop a l m)])),
      rp_ready = (\<lambda>m l. (ra_ready a l m, l @ [Asked_Ready m (ra_ready a l m)])),
      rp_recreate = (\<lambda>m l. (ra_launch a l m, l @ [Launched m (ra_launch a l m)])),
      rp_save = Some (\<lambda>j l. (ra_save a l j, l @ [Saved j (ra_save a l j)])),
      rp_gate = (\<lambda>s l. (ra_gate a l s, l @ [Gate_Awaited s (ra_gate a l s)]))\<rparr>"

lemma recorded_simps [simp]:
  "rp_status (recorded_ports a) l = (ra_status a l, l @ [Status_Asked (ra_status a l)])"
  "rp_start (recorded_ports a) m l = (ra_launch a l m, l @ [Launched m (ra_launch a l m)])"
  "rp_stop (recorded_ports a) m l = (ra_stop a l m, l @ [Stopped m (ra_stop a l m)])"
  "rp_ready (recorded_ports a) m l = (ra_ready a l m, l @ [Asked_Ready m (ra_ready a l m)])"
  "rp_recreate (recorded_ports a) m l = (ra_launch a l m, l @ [Launched m (ra_launch a l m)])"
  "rp_gate (recorded_ports a) s l = (ra_gate a l s, l @ [Gate_Awaited s (ra_gate a l s)])"
  by (simp_all add: recorded_ports_def)

text \<open>Saving only adds a save to the log.\<close>

lemma remember_log:
  assumes "remember (recorded_ports a) s owned d l = (e, d', l')" and "\<And>pre j r. P pre (Saved j r)"
  shows "calls_added P l l'"
  using assms(1)
  by (auto simp: remember_def save_journal_def recorded_ports_def Let_def intro!: calls_added_one assms(2)
      split: option.splits)

lemma mark_stale_log:
  assumes "mark_stale (recorded_ports a) s stale d l = (e, d', l')" and "\<And>pre j r. P pre (Saved j r)"
  shows "calls_added P l l'"
  using assms(1)
  by (auto simp: mark_stale_def save_journal_def recorded_ports_def Let_def intro!: calls_added_one assms(2)
      split: option.splits if_splits)

subsection \<open>Nothing starts before what it depends on is ready\<close>

definition ready_in :: "rt_call list \<Rightarrow> string set \<Rightarrow> bool" where
  "ready_in l names \<longleftrightarrow> (\<forall>d \<in> names. \<exists>n. rm_name n = d \<and> Asked_Ready n None \<in> set l)"

fun start_permitted :: "rt_call list \<Rightarrow> rt_call \<Rightarrow> bool" where
  "start_permitted pre (Launched m e) = ready_in pre (set (rm_dependencies m) \<inter> rm_name ` set inventory)"
| "start_permitted pre (Stopped m e) = False"
| "start_permitted pre _ = True"

lemma ready_in_mono: "ready_in l names \<Longrightarrow> set l \<subseteq> set l' \<Longrightarrow> ready_in l' names"
  by (auto simp: ready_in_def)

lemma ready_in_more: "ready_in l names \<Longrightarrow> calls_added P l l' \<Longrightarrow> ready_in l' names"
  by (meson calls_added_mono ready_in_mono)

abbreviation "deps_of m \<equiv> set (rm_dependencies m) \<inter> rm_name ` set inventory"

lemma launch_log:
  assumes "launch (recorded_ports a) root item d l = (e, d', l')" and "ready_in l (deps_of item)"
  shows "calls_added start_permitted l l'"
proof -
  obtain e1 d1 l1 where r: "remember (recorded_ports a) (rm_service item) True d l = (e1, d1, l1)"
    by (metis surj_pair)
  have l1: "calls_added start_permitted l l1" by (rule remember_log [OF r]) simp
  have "calls_added start_permitted l1 (l1 @ [Launched item (ra_launch a l1 item)])"
    by (rule calls_added_one) (use ready_in_more [OF assms(2) l1] in simp)
  note l2 = calls_added_trans [OF l1 this]
  show ?thesis
    using assms(1) r l1 l2 calls_added_trans [OF l2 mark_stale_log]
    by (auto simp: launch_def Let_def split: option.splits if_splits prod.splits)
qed

lemma start_item_log:
  assumes "start_item (recorded_ports a) root item d l = (e, d', l')" and "ready_in l (deps_of item)"
  shows "calls_added start_permitted l l' \<and> (e = None \<longrightarrow> Asked_Ready item None \<in> set l')"
proof -
  let ?d1 = "progress root (''waiting:'' @ rm_name item) d"
  let ?l1 = "l @ [Gate_Awaited (rm_service item) (ra_gate a l (rm_service item))]"
  let ?l2 = "?l1 @ [Status_Asked (ra_status a ?l1)]"
  have l1: "calls_added start_permitted l ?l1" by (rule calls_added_one) simp
  have "calls_added start_permitted ?l1 ?l2" by (rule calls_added_one) simp
  note l2 = calls_added_trans [OF l1 this]
  show ?thesis
  proof (cases "ra_gate a l (rm_service item)")
    case (Some x)
    then show ?thesis using assms(1) l1 by (auto simp: start_item_def Let_def)
  next
    case gate: None
    show ?thesis
    proof (cases "ra_status a ?l1")
      case (Inl x)
      then show ?thesis using assms(1) l2 gate by (auto simp: start_item_def Let_def)
    next
      case (Inr containers)
      obtain e3 d3 l3 where m: "ensure_running (recorded_ports a) root containers item ?d1 ?l2 = (e3, d3, l3)"
        by (metis surj_pair)
      have "calls_added start_permitted ?l2 l3"
        using m launch_log [OF _ ready_in_more [OF assms(2) l2]] by (auto simp: ensure_running_def split: if_splits)
      note l3 = calls_added_trans [OF l2 this]
      have "calls_added start_permitted l3 (l3 @ [Asked_Ready item (ra_ready a l3 item)])"
        by (rule calls_added_one) simp
      note l4 = calls_added_trans [OF l3 this]
      show ?thesis
        using assms(1) gate Inr m l3 l4 unfolding start_item_def Let_def
        by (cases e3) (simp_all only: recorded_simps prod.case sum.case option.case, auto)
    qed
  qed
qed

lemma start_all_log:
  "start_all (recorded_ports a) root items d l = (e, d', l') \<Longrightarrow>
   deps_first (rm_name ` set inventory) prev items \<Longrightarrow> ready_in l prev \<Longrightarrow>
   calls_added start_permitted l l'"
proof (induction items arbitrary: d l prev)
  case (Cons item items)
  obtain e1 d1 l1 where s: "start_item (recorded_ports a) root item d l = (e1, d1, l1)"
    by (metis surj_pair)
  have "ready_in l (deps_of item)" using Cons.prems(2,3) by (auto simp: ready_in_def)
  note 1 = start_item_log [OF s this]
  show ?case
  proof (cases e1)
    case None
    have "ready_in l1 (insert (rm_name item) prev)"
      using ready_in_more [OF Cons.prems(3)] 1 None by (auto simp: ready_in_def)
    then have "calls_added start_permitted l1 l'"
      using Cons.IH [of d1 l1 "insert (rm_name item) prev"] Cons.prems s None by simp
    then show ?thesis using 1 calls_added_trans by blast
  qed (use 1 s Cons.prems in auto)
qed auto

subsection \<open>Nothing is stopped under what depends on it\<close>

text \<open>
  A stop in the operation that stops \<open>m\<close>, from \<open>d0\<close>: of a service of the plan that is \<open>m\<close>'s own or
  one the controller started, and whose running dependents were all stopped before.  \<open>embeddings\<close>
  and \<open>embedding_init\<close> are not counted as dependents, as in the code.
\<close>

definition counted_dependent :: "(string \<Rightarrow> container) \<Rightarrow> rt_module \<Rightarrow> rt_module \<Rightarrow> bool" where
  "counted_dependent containers item x \<longleftrightarrow>
     ct_running (containers (rm_service x)) \<and> rm_name x \<notin> {''embeddings'', ''embedding_init''} \<and>
     x \<noteq> item \<and> item \<in> set (rt_plan (rm_name x))"

fun stop_permitted :: "rt_module \<Rightarrow> rt_domain \<Rightarrow> (string \<Rightarrow> container) \<Rightarrow> rt_call list \<Rightarrow> rt_call \<Rightarrow> bool" where
  "stop_permitted m d0 containers pre (Stopped item e) =
     (item \<in> set (rt_plan (rm_name m)) \<and> (item = m \<or> rm_service item \<in> rd_owned d0) \<and>
      (\<forall>x \<in> set inventory. counted_dependent containers item x \<longrightarrow> Stopped x None \<in> set pre))"
| "stop_permitted m d0 containers pre (Launched item e) = False"
| "stop_permitted m d0 containers pre _ = True"

text \<open>Facts of the inventory: services and names are unique, and plans are closed.\<close>

lemma inventory_keys: "distinct (map rm_service inventory)" "distinct (map rm_name inventory)"
  by (simp_all add: inventory_def md_def)

lemma same_service:
  "x \<in> set inventory \<Longrightarrow> y \<in> set inventory \<Longrightarrow> rm_service x = rm_service y \<Longrightarrow> x = y"
  using inventory_keys(1) by (metis distinct_map inj_on_def)

lemma same_name:
  "x \<in> set inventory \<Longrightarrow> y \<in> set inventory \<Longrightarrow> rm_name x = rm_name y \<Longrightarrow> x = y"
  using inventory_keys(2) by (metis distinct_map inj_on_def)

lemma plan_in_inventory: "set (rt_plan name) \<subseteq> set inventory"
  using plan_of_ordered [OF inventory_ranked, of name] by (simp add: rt_plan_def)

fun dependents_first :: "rt_module list \<Rightarrow> bool" where
  "dependents_first [] = True"
| "dependents_first (i # is) =
     (list_all (\<lambda>x. i \<notin> set (rt_plan (rm_name x))) is \<and> dependents_first is)"

lemma plans_closed_all:
  "list_all (\<lambda>z. list_all (\<lambda>x. list_all (\<lambda>y. y \<in> set (rt_plan (rm_name z))) (rt_plan (rm_name x)))
     (rt_plan (rm_name z))) inventory"
  by code_simp

lemma plans_dependents_first_all:
  "list_all (\<lambda>z. dependents_first (rev (rt_plan (rm_name z))) \<and> z \<in> set (rt_plan (rm_name z))) inventory"
  by code_simp

lemma plan_closed:
  "z \<in> set inventory \<Longrightarrow> x \<in> set (rt_plan (rm_name z)) \<Longrightarrow> y \<in> set (rt_plan (rm_name x)) \<Longrightarrow>
   y \<in> set (rt_plan (rm_name z))"
  using plans_closed_all by (auto simp: list_all_iff)

lemma plan_dependents_first: "z \<in> set inventory \<Longrightarrow> dependents_first (rev (rt_plan (rm_name z)))"
  using plans_dependents_first_all by (auto simp: list_all_iff)

lemma needed_iff:
  "s \<in> needed_services d c m \<longleftrightarrow>
   (\<exists>other \<in> set inventory. holds_up d c m other \<and> s \<in> rm_service ` set (rt_plan (rm_name other)))"
  by (auto simp: needed_services_def)

lemma needed_closed:
  assumes "x \<in> set inventory" and "rm_service x \<in> needed_services d c m" and "item \<in> set (rt_plan (rm_name x))"
  shows "rm_service item \<in> needed_services d c m"
proof -
  obtain other where o: "other \<in> set inventory" "holds_up d c m other"
    and "rm_service x \<in> rm_service ` set (rt_plan (rm_name other))"
    using assms(2) needed_iff by blast
  then have "x \<in> set (rt_plan (rm_name other))"
    using same_service [OF assms(1)] plan_in_inventory by auto
  then have "item \<in> set (rt_plan (rm_name other))" using plan_closed o(1) assms(3) by blast
  then show ?thesis using o needed_iff by blast
qed

text \<open>What the loop knows of the modules it has passed.\<close>

definition passed :: "rt_module \<Rightarrow> rt_domain \<Rightarrow> (string \<Rightarrow> container) \<Rightarrow> rt_call list \<Rightarrow> rt_module \<Rightarrow> bool" where
  "passed m d0 c l x \<longleftrightarrow>
     rm_service x \<in> needed_services d0 c m \<or> (x \<noteq> m \<and> rm_service x \<notin> rd_owned d0) \<or> Stopped x None \<in> set l"

lemma dependent_stopped:
  assumes m: "m \<in> set inventory" and x: "x \<in> set inventory" "counted_dependent c item x"
    and item: "rm_service item \<notin> needed_services d0 c m" and df: "dependents_first (item # items)"
    and passed: "\<And>y. y \<in> set (rt_plan (rm_name m)) - set (item # items) \<Longrightarrow> passed m d0 c l y"
  shows "Stopped x None \<in> set l"
proof -
  have run: "ct_running (c (rm_service x))" and ne: "x \<noteq> item" and in_plan: "item \<in> set (rt_plan (rm_name x))"
    and emb: "rm_name x \<noteq> ''embeddings''" "rm_name x \<noteq> ''embedding_init''"
    using x(2) by (auto simp: counted_dependent_def)
  have "\<not> holds_up d0 c m x" using item in_plan x(1) needed_iff by blast
  then have own: "x = m \<or> rm_service x \<in> rm_service ` set (rt_plan (rm_name m)) \<and> rm_service x \<in> rd_owned d0"
    using run emb same_name [OF x(1) m] by (auto simp: holds_up_def)
  then have "x \<in> set (rt_plan (rm_name m))"
    using same_service [OF x(1)] plan_in_inventory plans_dependents_first_all m by (auto simp: list_all_iff)
  moreover have "x \<notin> set items" using df in_plan by (auto simp: list_all_iff)
  ultimately have "passed m d0 c l x" using passed ne by auto
  moreover have "rm_service x \<notin> needed_services d0 c m" using needed_closed [OF x(1) _ in_plan] item by blast
  ultimately show ?thesis using own by (auto simp: passed_def)
qed

lemma remember_owned:
  "remember ports s False d w = (None, d', w') \<Longrightarrow> rd_owned d' = rd_owned d - {s}"
  by (auto simp: remember_def set_owned_def Let_def split: prod.splits option.splits)

lemma stop_all_log:
  assumes m: "m \<in> set inventory"
  shows "stop_all (recorded_ports a) m (needed_services d0 c m) items d l = (e, d', l') \<Longrightarrow>
    set items \<subseteq> set (rt_plan (rm_name m)) \<Longrightarrow> dependents_first items \<Longrightarrow> distinct (map rm_service items) \<Longrightarrow>
    (\<And>x. x \<in> set (rt_plan (rm_name m)) - set items \<Longrightarrow> passed m d0 c l x) \<Longrightarrow>
    (\<And>x. x \<in> set items \<Longrightarrow> rm_service x \<in> rd_owned d \<longleftrightarrow> rm_service x \<in> rd_owned d0) \<Longrightarrow>
    calls_added (stop_permitted m d0 c) l l'"
proof (induction items arbitrary: d l)
  case (Cons item items)
  let ?need = "needed_services d0 c m"
  have item: "item \<in> set (rt_plan (rm_name m))" "item \<in> set inventory"
    using Cons.prems(2) plan_in_inventory by auto
  have is_m: "rm_name item = rm_name m \<longleftrightarrow> item = m" using same_name [OF item(2) m] by blast
  show ?case
  proof (cases "rm_service item \<in> ?need \<or> (rm_name item \<noteq> rm_name m \<and> rm_service item \<notin> rd_owned d)")
    case skip: True
    then have "passed m d0 c l item" using is_m Cons.prems(6) [of item] by (auto simp: passed_def)
    then have "passed m d0 c l x" if "x \<in> set (rt_plan (rm_name m)) - set items" for x
      using Cons.prems(5) [of x] that by (cases "x = item") auto
    then show ?thesis
      using Cons.IH [of d l] Cons.prems skip by auto
  next
    case stop: False
    let ?c = "Stopped item (ra_stop a l item)"
    have "stop_permitted m d0 c l ?c"
      using dependent_stopped [OF m _ _ _ Cons.prems(3,5)] item stop is_m Cons.prems(6) [of item] by auto
    then have l1: "calls_added (stop_permitted m d0 c) l (l @ [?c])" by (rule calls_added_one)
    let ?d1 = "progress (rm_name m) (''stopping:'' @ rm_name item) d"
    show ?thesis
    proof (cases "ra_stop a l item")
      case (Some x)
      have "stop_all (recorded_ports a) m ?need (item # items) d l = (Some x, ?d1, l @ [?c])"
        using stop Some by (simp only: stop_all.simps if_False Let_def recorded_simps prod.case option.case)
      then show ?thesis using l1 Cons.prems(1) by simp
    next
      case None
      define d3 where "d3 = (let d2 = ?d1\<lparr>rd_stopped := insert (rm_service item) (rd_stopped ?d1)\<rparr> in
         (if rm_name item = rm_name m then d2\<lparr>rd_roots := rd_roots d2 - {rm_name m}\<rparr> else d2))"
      obtain e4 d4 l2 where r: "remember (recorded_ports a) (rm_service item) False d3 (l @ [?c]) = (e4, d4, l2)"
        by (metis surj_pair)
      have "calls_added (stop_permitted m d0 c) (l @ [?c]) l2" by (rule remember_log [OF r]) simp
      note l2 = calls_added_trans [OF l1 this]
      have eq: "stop_all (recorded_ports a) m ?need (item # items) d l =
          (case e4 of Some e \<Rightarrow> (Some e, d4, l2) | None \<Rightarrow> stop_all (recorded_ports a) m ?need items d4 l2)"
        using stop None r unfolding d3_def
        by (simp only: stop_all.simps if_False Let_def recorded_simps prod.case option.case)
      show ?thesis
      proof (cases e4)
        case None
        have "Stopped item None \<in> set l2"
          using calls_added_mono [OF l2] calls_added_mono [OF remember_log [OF r, of "\<lambda>_ _. True"]] \<open>ra_stop a l item = None\<close>
          by auto
        then have p: "passed m d0 c l2 x" if "x \<in> set (rt_plan (rm_name m)) - set items" for x
          using Cons.prems(5) [of x] that calls_added_mono [OF l2] by (cases "x = item") (auto simp: passed_def)
        have "rd_owned d4 = rd_owned d - {rm_service item}"
          using remember_owned [OF r [unfolded None]] by (simp add: d3_def progress_def Let_def)
        then have "rm_service x \<in> rd_owned d4 \<longleftrightarrow> rm_service x \<in> rd_owned d0" if "x \<in> set items" for x
          using Cons.prems(4,6) that by (metis DiffE DiffI distinct.simps(2) image_eqI list.set_intros(2) list.set_map list.simps(9) singletonD)
        from Cons.IH [of d4 l2, OF _ _ _ _ p this]
        have "calls_added (stop_permitted m d0 c) l2 l'"
          using Cons.prems(1-4) eq None by simp
        with l2 show ?thesis by (rule calls_added_trans)
      qed (use eq l2 Cons.prems(1) in simp)
    qed
  qed
qed auto

subsection \<open>The controller's critical sections\<close>

text \<open>
  What the goroutines do to the controller, one critical section at a time and in any order: a call
  of \<open>Set\<close>, the rows of a \<open>List\<close>, the steps of an operation that is under way and its end, and any
  change of the journal's sets or of \<open>busy\<close>.
\<close>

inductive rt_step :: "rt_domain \<Rightarrow> rt_domain \<Rightarrow> bool" where
  set_called: "rt_set name enabled d = (answer, started, d') \<Longrightarrow> rt_step d d'"
| listed: "rt_step d (list_rows containers d)"
| progressed: "rd_active d name \<noteq> None \<Longrightarrow> rt_step d (progress name label d)"
| finished: "rd_active d (rm_name m) = Some enabled \<Longrightarrow> rt_step d (finish_operation m enabled err d)"
| journal_changed: "rt_step d (d\<lparr>rd_owned := a, rd_roots := b, rd_stopped := c, rd_stale := e, rd_busy := f\<rparr>)"

inductive_cases rt_stepE: "rt_step d d'"

definition shows_active :: "rt_domain \<Rightarrow> bool" where
  "shows_active d \<longleftrightarrow>
     (\<forall>name. (rr_state (row_of d name) = ''starting'' \<longleftrightarrow> rd_active d name = Some True) \<and>
             (rr_state (row_of d name) = ''stopping'' \<longleftrightarrow> rd_active d name = Some False))"

lemma listed_state_settled: "listed_state d c m \<in> {''failed'', ''running'', ''stopped'', ''ready''}"
  by (simp add: listed_state_def Let_def)

lemma row_of_update [simp]:
  "row_of (d\<lparr>rd_states := (rd_states d)(n \<mapsto> r)\<rparr>) name = (if name = n then r else row_of d name)"
  by (simp add: row_of_def)

lemma state_row_state [simp]: "rr_state (state_row m st err) = st"
  by (simp add: state_row_def)

lemma settled_not_moving:
  "st \<in> {''failed'', ''running'', ''stopped'', ''ready''} \<Longrightarrow> st \<noteq> ''starting'' \<and> st \<noteq> ''stopping''"
  by auto

lemma move_shows:
  assumes "shows_active d" and "rd_states d' = (rd_states d)(n \<mapsto> r)" and "rd_active d' = (rd_active d)(n := v)"
    and "rr_state r = ''starting'' \<longleftrightarrow> v = Some True" and "rr_state r = ''stopping'' \<longleftrightarrow> v = Some False"
  shows "shows_active d'"
proof -
  have "row_of d' name = (if name = n then r else row_of d name)" for name
    using assms(2) by (simp add: row_of_def)
  then show ?thesis using assms unfolding shows_active_def by simp
qed

lemma list_row_shows:
  assumes "shows_active d"
  shows "shows_active (list_row c m d)"
proof (cases "in_transition (rr_state (row_of d (rm_name m)))")
  case False
  then have "rd_active d (rm_name m) = None"
    using assms unfolding shows_active_def in_transition_def by (metis (full_types) not_None_eq)
  then show ?thesis
    using settled_not_moving [OF listed_state_settled [of d c m]] False
    by (intro move_shows [OF assms, where n = "rm_name m" and v = None])
      (auto simp: list_row_def Let_def)
qed (simp add: list_row_def assms)

lemma list_rows_shows: "shows_active d \<Longrightarrow> shows_active (list_rows c d)"
proof -
  have "shows_active d \<Longrightarrow> shows_active (fold (list_row c) ms d)" for ms
    by (induction ms arbitrary: d) (simp_all add: list_row_shows)
  then show "shows_active d \<Longrightarrow> shows_active (list_rows c d)" by (simp add: list_rows_def)
qed

lemma set_module_shows:
  assumes "shows_active d" and "set_module m enabled d = (r, started, d')"
  shows "shows_active d'"
proof (cases "rd_busy d \<or> rd_active d (rm_name m) \<noteq> None")
  case False
  then show ?thesis
    using assms(2)
    by (intro move_shows [OF assms(1), where n = "rm_name m" and v = "Some enabled" and
          r = "state_row m (if enabled then ''starting'' else ''stopping'') []"];
        cases enabled; auto simp: set_module_def Let_def)
qed (use assms in \<open>auto simp: set_module_def split: if_splits option.splits\<close>)

lemma finish_shows:
  assumes "shows_active d"
  shows "shows_active (finish_operation m enabled err d)"
  by (rule move_shows [OF assms, where n = "rm_name m" and v = None and
        r = "case err of Some e \<Rightarrow> state_row m ''failed'' (err_text e)
             | None \<Rightarrow> state_row m (if enabled then ''ready'' else ''stopped'') []"])
    (cases err; simp add: finish_operation_def)+

lemma rt_step_shows: "rt_step d d' \<Longrightarrow> shows_active d \<Longrightarrow> shows_active d'"
proof (induction rule: rt_step.induct)
  case (set_called name enabled d answer started d')
  then show ?case
    using set_module_shows by (auto simp: rt_set_def split: option.splits if_splits)
next
  case (progressed d name label)
  then show ?case by (auto simp: progress_def shows_active_def)
qed (auto simp: list_rows_shows finish_shows, auto simp: shows_active_def row_of_def)

lemma new_runtime_shows: "shows_active (new_runtime j)"
  by (simp add: shows_active_def new_runtime_def row_of_def empty_row_def)

subsection \<open>Properties\<close>

text \<open>
  Nothing is started before what it depends on: whatever the backend answers, in the operation
  that starts a module every start or recreation of a service comes after each of its dependencies
  reported that it is ready, in the same operation, and nothing is stopped.
\<close>

theorem starts_after_dependencies:
  "each_call start_permitted [] (snd (snd (change (recorded_ports a) m True d [])))"
proof -
  define d1 where "d1 = d\<lparr>rd_roots := insert (rm_name m) (rd_roots d)\<rparr>"
  obtain e d2 l where r: "remember (recorded_ports a) (rm_service m) (rm_service m \<in> rd_owned d1) d1 [] = (e, d2, l)"
    by (metis surj_pair)
  have l: "calls_added start_permitted [] l" by (rule remember_log [OF r]) simp
  have "deps_first (rm_name ` set inventory) {} (rt_plan (rm_name m))"
    using plan_of_ordered [OF inventory_ranked, of "rm_name m"] by (simp add: rt_plan_def)
  moreover obtain e' d' l' where s: "start_all (recorded_ports a) (rm_name m) (rt_plan (rm_name m)) d2 l = (e', d', l')"
    by (metis surj_pair)
  ultimately have "calls_added start_permitted l l'"
    using start_all_log [OF s] by (simp add: ready_in_def)
  then have "calls_added start_permitted [] (snd (snd (change (recorded_ports a) m True d [])))"
    using r s l calls_added_trans [OF l] by (auto simp: change_def d1_def [symmetric] split: option.split)
  then show ?thesis by (rule calls_added_each)
qed

text \<open>
  C3.  Nothing is stopped under a module that counts on it: in the operation that stops a module of the
  inventory, every service stopped is in its plan and is the module's own or one this controller
  started; and each module the containers show running that has the stopped one in its plan has
  itself been stopped before, so a service another module uses stays up.  The modules \<open>embeddings\<close> and
  \<open>embedding_init\<close> are the two the code never counts as users, so what they run on may be stopped under them.
  Nothing is started.
\<close>

theorem stops_dependents_first:
  assumes "m \<in> set inventory" and "ra_status a [] = Inr containers"
  shows "each_call (stop_permitted m d containers) [] (snd (snd (change (recorded_ports a) m False d [])))"
proof -
  let ?need = "needed_services d containers m" and ?l = "[Status_Asked (Inr containers)]"
  have l: "calls_added (stop_permitted m d containers) [] ?l" by (rule calls_added_one [of _ "[]", simplified]) simp
  obtain e d' l' where s: "stop_all (recorded_ports a) m ?need (rev (rt_plan (rm_name m))) d ?l = (e, d', l')"
    by (metis surj_pair)
  have "distinct (map rm_service (rt_plan (rm_name m)))"
    using plan_of_ordered [OF inventory_ranked, of "rm_name m"] plan_in_inventory same_service
    by (auto simp: rt_plan_def distinct_map inj_on_def subset_iff)
  then have "calls_added (stop_permitted m d containers) ?l l'"
    using stop_all_log [OF assms(1) s] plan_dependents_first [OF assms(1)] by (simp add: rev_map [symmetric])
  then have "calls_added (stop_permitted m d containers) [] (snd (snd (change (recorded_ports a) m False d [])))"
    using s l assms(2) calls_added_trans [OF l] by (simp add: change_def Let_def)
  then show ?thesis by (rule calls_added_each)
qed

definition quiet_answers :: rt_answers where
  "quiet_answers =
     \<lparr>ra_status = (\<lambda>l. Inr (\<lambda>s. \<lparr>ct_running = True, ct_completed = False, ct_failed = False\<rparr>)),
      ra_launch = (\<lambda>l m. None), ra_stop = (\<lambda>l m. None), ra_ready = (\<lambda>l m. None),
      ra_save = (\<lambda>l j. None), ra_gate = (\<lambda>l s. None)\<rparr>"

lemma stops_dependents_first_witness:
  "each_call (stop_permitted (inventory ! 8) (new_runtime \<lparr>jn_owned = {}, jn_roots = {}, jn_stale = {}\<rparr>)
       (\<lambda>s. \<lparr>ct_running = True, ct_completed = False, ct_failed = False\<rparr>)) []
     (snd (snd (change (recorded_ports quiet_answers) (inventory ! 8) False
        (new_runtime \<lparr>jn_owned = {}, jn_roots = {}, jn_stale = {}\<rparr>) [])))"
  by (rule stops_dependents_first) (simp_all add: quiet_answers_def inventory_def)

text \<open>
  C33.  What the controller owns survives a restart: after any changes of ownership, whether or not
  their saves succeed, a controller made anew from the journal on the disk owns exactly the services
  of the inventory the old one owned, and the same services of it are stale.
\<close>

theorem ownership_survives_restart:
  "rd_owned (new_runtime (snd (run_ops remember_step ops (new_runtime j, journal_of (new_runtime j))))) =
     rd_owned (fst (run_ops remember_step ops (new_runtime j, journal_of (new_runtime j)))) \<inter>
       rm_service ` set inventory \<and>
   rd_stale (new_runtime (snd (run_ops remember_step ops (new_runtime j, journal_of (new_runtime j))))) =
     rd_stale (fst (run_ops remember_step ops (new_runtime j, journal_of (new_runtime j)))) \<inter>
       rm_service ` set inventory"
proof -
  let ?s = "run_ops remember_step ops (new_runtime j, journal_of (new_runtime j))"
  have "snd ?s = journal_of (fst ?s)"
    by (rule ownership.run_inv)
      (use remember_saves in \<open>force simp: journal_of_def\<close>, simp)
  then show ?thesis by (auto simp: new_runtime_def journal_of_def)
qed

text \<open>
  A module shows \<open>starting\<close> or \<open>stopping\<close> exactly while an operation in that direction is under
  way: in every state the goroutines can reach, in any order of their critical sections, and a
  second request in the other direction is then refused and starts nothing.
\<close>

theorem transitions_are_active:
  assumes "rt_step\<^sup>*\<^sup>* (new_runtime j) d"
  shows "(rr_state (row_of d name) = ''starting'' \<longleftrightarrow> rd_active d name = Some True) \<and>
         (rr_state (row_of d name) = ''stopping'' \<longleftrightarrow> rd_active d name = Some False) \<and>
         (if rd_active d name = Some (\<not> enabled)
          then (\<exists>e. rt_set name enabled d = (Inl e, False, d)) else True)"
proof -
  have "shows_active d"
    using assms by (induction rule: rtranclp_induct) (auto simp: new_runtime_shows rt_step_shows)
  moreover have "\<exists>e. rt_set name enabled d = (Inl e, False, d)" if "rd_active d name = Some (\<not> enabled)"
  proof (cases "rt_lookup name")
    case (Some m)
    then have "rm_name m = name" using lookup_in_SomeD by (auto simp: rt_lookup_def)
    then show ?thesis using that Some by (auto simp: rt_set_def set_module_def)
  qed (simp add: rt_set_def)
  ultimately show ?thesis by (simp add: shows_active_def)
qed

lemma transitions_are_active_witness:
  "rr_state (row_of (snd (snd (rt_set ''voice'' True
     (new_runtime \<lparr>jn_owned = {}, jn_roots = {}, jn_stale = {}\<rparr>)))) ''voice'') = ''starting''"
proof -
  let ?d = "new_runtime \<lparr>jn_owned = {}, jn_roots = {}, jn_stale = {}\<rparr>"
  have l: "rt_lookup ''voice'' = Some (md ''voice'' ''dokja-voice'' [''orchestrator''] 8081 False)" by code_simp
  obtain a b d' where s: "rt_set ''voice'' True ?d = (a, b, d')" by (metis surj_pair)
  then have "rt_step\<^sup>*\<^sup>* ?d d'" using set_called by blast
  moreover have "rd_active d' ''voice'' = Some True"
    using s l by (auto simp: rt_set_def set_module_def md_def new_runtime_def Let_def)
  ultimately show ?thesis using transitions_are_active [of _ d' "''voice''" True] s by simp
qed

end
