(* ===== verification/Archive.thy ===== *)
theory Archive
  imports Go_Strings
begin

section \<open>The archive of conversations\<close>

text \<open>
  \<open>dokja_domain/dokja_conversation/conversation.go\<close>: the rules over a store, which is a parameter.
  \<open>at\<close> and \<open>fresh\<close> are what the clock and the random identifier give; the two optional capabilities
  of a store are \<open>None\<close> where it lacks them.
\<close>

subsection \<open>Data\<close>

record archived =
  ac_id :: string
  ac_kind :: string
  ac_reading_id :: string
  ac_title :: string
  ac_created :: int
  ac_updated :: int
  ac_revision :: nat
  ac_turns :: int

record provenance =
  pv_selected_provider :: string
  pv_selected_model :: string
  pv_observed_provider :: string
  pv_observed_model :: string

record passage_locator =
  pl_version :: string
  pl_format :: string
  pl_unit :: int
  pl_start :: int
  pl_end :: int
  pl_page :: int
  pl_href :: string
  pl_label :: string
  pl_passage_id :: string

record turn_source =
  ts_number :: int
  ts_source_id :: string
  ts_title :: string
  ts_reference :: string
  ts_excerpt :: string
  ts_locator :: "passage_locator option"

record turn =
  tn_id :: string
  tn_conversation_id :: string
  tn_seq :: int
  tn_send_id :: string
  tn_content :: string
  tn_reply :: string
  tn_state :: string
  tn_reason :: string
  tn_attempts :: int
  tn_provenance :: provenance
  tn_sources :: "turn_source list"
  tn_created :: int
  tn_finished :: int

definition OwnerScope :: string where "OwnerScope = ''owner''"
definition KindGeneral :: string where "KindGeneral = ''general''"
definition KindReading :: string where "KindReading = ''reading''"
definition TurnPending :: string where "TurnPending = ''pending''"
definition TurnCompleted :: string where "TurnCompleted = ''completed''"
definition TurnFailed :: string where "TurnFailed = ''failed''"
definition TurnInterrupted :: string where "TurnInterrupted = ''interrupted''"

definition ErrNotFound :: gerror where "ErrNotFound = Sentinel ''conversation not found''"
definition ErrConflict :: gerror where "ErrConflict = Sentinel ''conversation changed; read it again''"
definition ErrInvalid :: gerror where "ErrInvalid = Sentinel ''invalid conversation request''"
definition ErrUnavailable :: gerror where
  "ErrUnavailable = Sentinel ''retrying this conversation is unavailable''"

definition MaxTitleRunes :: nat where "MaxTitleRunes = 120"
definition MaxContentRunes :: nat where "MaxContentRunes = 12000"
definition MaxReplyRunes :: nat where "MaxReplyRunes = 24000"
definition MaxReasonRunes :: nat where "MaxReasonRunes = 300"
definition MaxTurnSources :: nat where "MaxTurnSources = 8"
definition max_source_title :: nat where "max_source_title = 300"
definition max_source_ref :: nat where "max_source_ref = 2048"
definition max_source_text :: nat where "max_source_text = 6000"
definition MaxReadingID :: nat where "MaxReadingID = 512"
definition MaxListLimit :: int where "MaxListLimit = 50"
definition MaxTurnLimit :: int where "MaxTurnLimit = 100"
definition max_cursor :: nat where "max_cursor = 128"
definition title_from_runes :: nat where "title_from_runes = 60"

subsection \<open>Scopes\<close>

definition scope_for :: "string \<Rightarrow> string option" where
  "scope_for source =
     (if source \<in> set [''desktop'', ''cli'', ''tui''] then Some OwnerScope else None)"

definition send_scope_for :: "string \<Rightarrow> bool \<Rightarrow> string option" where
  "send_scope_for source self_chat =
     (case scope_for source of
        Some s \<Rightarrow> Some s
      | None \<Rightarrow> if source = ''whatsapp'' \<and> self_chat then Some OwnerScope else None)"

subsection \<open>Formats\<close>

definition hex_char :: "char \<Rightarrow> bool" where
  "hex_char c \<longleftrightarrow> digit c \<or> (97 \<le> byte c \<and> byte c \<le> 102)"

definition alnum_char :: "char \<Rightarrow> bool" where
  "alnum_char c \<longleftrightarrow> digit c \<or> (97 \<le> byte c \<and> byte c \<le> 122) \<or> (65 \<le> byte c \<and> byte c \<le> 90)"

definition opaque_id :: "string \<Rightarrow> bool" where
  "opaque_id s = matches_class hex_char 32 32 s"

definition send_id_format :: "string \<Rightarrow> bool" where
  "send_id_format s = matches_class (\<lambda>c. alnum_char c \<or> c = CHR ''_'' \<or> c = CHR ''-'') 8 64 s"

definition cursor_format :: "string \<Rightarrow> bool" where
  "cursor_format s =
     (let d = takeWhile digit s; rest = dropWhile digit s
      in 1 \<le> length d \<and> length d \<le> 20 \<and> rest \<noteq> [] \<and> hd rest = CHR ''.'' \<and>
         matches_class hex_char 32 32 (tl rest))"

definition model_format :: "string \<Rightarrow> bool" where
  "model_format s =
     (case s of
        [] \<Rightarrow> False
      | c # cs \<Rightarrow> alnum_char c \<and>
          matches_class (\<lambda>c. alnum_char c \<or> c \<in> set ''._:/-'') 0 127 cs)"

definition known_providers :: "string list" where
  "known_providers = [[], ''codex'', ''claude_code'', ''ollama'']"

definition clean_title :: "string \<Rightarrow> string \<times> bool" where
  "clean_title title =
     (let t = join_with '' '' (go_fields title) in (t, rune_count t \<le> MaxTitleRunes))"

definition valid_provenance :: "string \<Rightarrow> string \<Rightarrow> bool" where
  "valid_provenance provider model \<longleftrightarrow>
     provider \<in> set known_providers \<and> (model = [] \<or> model_format model) \<and> ((provider = []) = (model = []))"

definition clamp :: "int \<Rightarrow> int \<Rightarrow> int" where
  "clamp limit most = (if limit \<le> 0 \<or> limit > most then most else limit)"

definition truncate_runes :: "string \<Rightarrow> nat \<Rightarrow> string" where
  "truncate_runes s n = (if rune_count s \<le> n then s else cut_runes n s)"

definition title_from :: "string \<Rightarrow> string" where
  "title_from content =
     (let line = join_with '' '' (go_fields content)
      in if rune_count line \<le> title_from_runes then line
         else cut_runes (title_from_runes - 1) line @ [CHR 0xE2, CHR 0x80, CHR 0xA6])"

subsection \<open>Sources of a reply\<close>

definition locator_fits :: "turn_source \<Rightarrow> passage_locator \<Rightarrow> bool" where
  "locator_fits source loc \<longleftrightarrow>
     \<not> (length (pl_version loc) \<noteq> 64 \<or> (pl_format loc \<noteq> ''pdf'' \<and> pl_format loc \<noteq> ''epub'') \<or>
        pl_unit loc < 0 \<or> pl_start loc < 0 \<or> pl_end loc \<le> pl_start loc \<or>
        pl_end loc - pl_start loc \<noteq> int (rune_count (ts_excerpt source)) \<or>
        rune_count (pl_href loc) > 2000 \<or> rune_count (pl_label loc) > 300 \<or>
        length (pl_passage_id loc) > 64 \<or> rune_count (ts_excerpt source) > max_source_text)"

definition bounded_source :: "turn_source \<Rightarrow> turn_source" where
  "bounded_source source =
     source\<lparr>ts_title := truncate_runes (trim_space (ts_title source)) max_source_title,
            ts_reference := truncate_runes (trim_space (ts_reference source)) max_source_ref,
            ts_locator := (case ts_locator source of
                             None \<Rightarrow> None
                           | Some loc \<Rightarrow> if locator_fits source loc then Some loc else None),
            ts_excerpt := truncate_runes (ts_excerpt source) max_source_text\<rparr>"

fun bounded_sources_from :: "turn_source list \<Rightarrow> turn_source list \<Rightarrow> turn_source list" where
  "bounded_sources_from kept [] = kept"
| "bounded_sources_from kept (s # ss) =
     (if trim_space (ts_source_id s) = [] \<or> length kept = MaxTurnSources
      then bounded_sources_from kept ss
      else bounded_sources_from (kept @ [bounded_source s]) ss)"

definition bounded_sources :: "turn_source list \<Rightarrow> turn_source list" where
  "bounded_sources sources = bounded_sources_from [] sources"

subsection \<open>The context of the next reply\<close>

text \<open>The loop over the turns from the latest back, with what it picked (in order) and used.\<close>

fun context_back :: "turn list \<Rightarrow> int \<Rightarrow> int \<Rightarrow> turn list \<Rightarrow> int \<Rightarrow> turn list" where
  "context_back [] max_turns max_runes picked used = picked"
| "context_back (t # ts) max_turns max_runes picked used =
     (if \<not> int (length picked) < max_turns then picked
      else if tn_state t \<noteq> TurnCompleted then context_back ts max_turns max_runes picked used
      else
       (let size = int (rune_count (tn_content t)) + int (rune_count (tn_reply t))
        in if used + size > max_runes then picked
           else context_back ts max_turns max_runes (t # picked) (used + size)))"

definition context_turns :: "turn list \<Rightarrow> int \<Rightarrow> int \<Rightarrow> turn list" where
  "context_turns turns max_turns max_runes = context_back (rev turns) max_turns max_runes [] 0"

subsection \<open>The store\<close>

record 'w store =
  st_create :: "string \<Rightarrow> archived \<Rightarrow> 'w \<Rightarrow> archived res \<times> 'w"
  st_get :: "string \<Rightarrow> string \<Rightarrow> 'w \<Rightarrow> archived res \<times> 'w"
  st_list :: "string \<Rightarrow> string \<Rightarrow> int \<Rightarrow> 'w \<Rightarrow> (archived list \<times> string) res \<times> 'w"
  st_rename :: "string \<Rightarrow> string \<Rightarrow> nat \<Rightarrow> string \<Rightarrow> int \<Rightarrow> 'w \<Rightarrow> archived res \<times> 'w"
  st_delete :: "string \<Rightarrow> string \<Rightarrow> nat \<Rightarrow> 'w \<Rightarrow> gerror option \<times> 'w"
  st_begin_turn :: "string \<Rightarrow> turn \<Rightarrow> 'w \<Rightarrow> (turn \<times> bool) res \<times> 'w"
  st_retry_turn :: "string \<Rightarrow> string \<Rightarrow> int \<Rightarrow> 'w \<Rightarrow> turn res \<times> 'w"
  st_finish_turn :: "string \<Rightarrow> turn \<Rightarrow> 'w \<Rightarrow> turn res \<times> 'w"
  st_turns :: "string \<Rightarrow> string \<Rightarrow> int \<Rightarrow> int \<Rightarrow> 'w \<Rightarrow> turn list res \<times> 'w"
  st_interrupt_pending :: "int \<Rightarrow> 'w \<Rightarrow> int res \<times> 'w"
  st_retry_in :: "(string \<Rightarrow> string \<Rightarrow> string \<Rightarrow> int \<Rightarrow> 'w \<Rightarrow> turn res \<times> 'w) option"
  st_touch :: "(string \<Rightarrow> string \<Rightarrow> nat \<Rightarrow> int \<Rightarrow> 'w \<Rightarrow> archived res \<times> 'w) option"

subsection \<open>The archive's operations\<close>

definition start_conversation ::
    "'w store \<Rightarrow> int \<Rightarrow> string \<Rightarrow> string \<Rightarrow> string \<Rightarrow> string \<Rightarrow> string \<Rightarrow> 'w \<Rightarrow> archived res \<times> 'w" where
  "start_conversation st at fresh scope kind reading_id raw w =
     (if scope \<noteq> OwnerScope \<or> (kind \<noteq> KindGeneral \<and> kind \<noteq> KindReading) then (Inl ErrInvalid, w)
      else if (kind = KindReading \<and> (reading_id = [] \<or> length reading_id > MaxReadingID)) \<or>
              (kind = KindGeneral \<and> reading_id \<noteq> []) then (Inl ErrInvalid, w)
      else
       (let (title, ok) = clean_title raw
        in if \<not> ok then (Inl ErrInvalid, w)
           else st_create st scope
             \<lparr>ac_id = fresh, ac_kind = kind, ac_reading_id = reading_id, ac_title = title, ac_created = at,
              ac_updated = at, ac_revision = 1, ac_turns = 0\<rparr> w))"

definition get_conversation :: "'w store \<Rightarrow> string \<Rightarrow> string \<Rightarrow> 'w \<Rightarrow> archived res \<times> 'w" where
  "get_conversation st scope i w =
     (if scope \<noteq> OwnerScope \<or> \<not> opaque_id i then (Inl ErrNotFound, w) else st_get st scope i w)"

definition list_conversations ::
    "'w store \<Rightarrow> string \<Rightarrow> string \<Rightarrow> int \<Rightarrow> 'w \<Rightarrow> (archived list \<times> string) res \<times> 'w" where
  "list_conversations st scope cursor limit w =
     (if scope \<noteq> OwnerScope \<or> (cursor \<noteq> [] \<and> (length cursor > max_cursor \<or> \<not> cursor_format cursor))
      then (Inl ErrInvalid, w)
      else st_list st scope cursor (clamp limit MaxListLimit) w)"

definition rename_conversation ::
    "'w store \<Rightarrow> int \<Rightarrow> string \<Rightarrow> string \<Rightarrow> nat \<Rightarrow> string \<Rightarrow> 'w \<Rightarrow> archived res \<times> 'w" where
  "rename_conversation st at scope i revision raw w =
     (let (title, ok) = clean_title raw
      in if scope \<noteq> OwnerScope \<or> \<not> opaque_id i \<or> revision = 0 \<or> \<not> ok then (Inl ErrInvalid, w)
         else st_rename st scope i revision title at w)"

definition delete_conversation :: "'w store \<Rightarrow> string \<Rightarrow> string \<Rightarrow> nat \<Rightarrow> 'w \<Rightarrow> gerror option \<times> 'w" where
  "delete_conversation st scope i revision w =
     (if scope \<noteq> OwnerScope \<or> \<not> opaque_id i \<or> revision = 0 then (Some ErrInvalid, w)
      else st_delete st scope i revision w)"

definition send_turn ::
    "'w store \<Rightarrow> int \<Rightarrow> string \<Rightarrow> string \<Rightarrow> string \<Rightarrow> string \<Rightarrow> string \<Rightarrow> provenance \<Rightarrow> 'w \<Rightarrow>
     (turn \<times> bool) res \<times> 'w" where
  "send_turn st at fresh scope conversation_id send raw selected w =
     (let content = trim_space raw
      in if scope \<noteq> OwnerScope \<or> \<not> opaque_id conversation_id \<or> \<not> send_id_format send \<or> content = [] \<or>
            rune_count content > MaxContentRunes \<or>
            \<not> valid_provenance (pv_selected_provider selected) (pv_selected_model selected)
         then (Inl ErrInvalid, w)
         else st_begin_turn st scope
           \<lparr>tn_id = fresh, tn_conversation_id = conversation_id, tn_seq = 0, tn_send_id = send, tn_content = content,
            tn_reply = [], tn_state = TurnPending, tn_reason = [], tn_attempts = 1,
            tn_provenance = \<lparr>pv_selected_provider = pv_selected_provider selected,
                             pv_selected_model = pv_selected_model selected,
                             pv_observed_provider = [], pv_observed_model = []\<rparr>,
            tn_sources = [], tn_created = at, tn_finished = 0\<rparr> w)"

definition retry_turn :: "'w store \<Rightarrow> int \<Rightarrow> string \<Rightarrow> string \<Rightarrow> 'w \<Rightarrow> turn res \<times> 'w" where
  "retry_turn st at scope turn_id w =
     (if scope \<noteq> OwnerScope \<or> \<not> opaque_id turn_id then (Inl ErrInvalid, w)
      else st_retry_turn st scope turn_id at w)"

definition retries_in_conversation :: "'w store \<Rightarrow> bool" where
  "retries_in_conversation st \<longleftrightarrow> st_retry_in st \<noteq> None"

definition retry_in_conversation ::
    "'w store \<Rightarrow> int \<Rightarrow> string \<Rightarrow> string \<Rightarrow> string \<Rightarrow> 'w \<Rightarrow> turn res \<times> 'w" where
  "retry_in_conversation st at scope conversation_id turn_id w =
     (if scope \<noteq> OwnerScope \<or> \<not> opaque_id conversation_id \<or> \<not> opaque_id turn_id then (Inl ErrInvalid, w)
      else case st_retry_in st of
        None \<Rightarrow> (Inl ErrUnavailable, w)
      | Some retry \<Rightarrow> retry scope conversation_id turn_id at w)"

definition complete_turn ::
    "'w store \<Rightarrow> int \<Rightarrow> string \<Rightarrow> turn \<Rightarrow> string \<Rightarrow> string \<Rightarrow> string \<Rightarrow> turn_source list \<Rightarrow> 'w \<Rightarrow> turn res \<times> 'w" where
  "complete_turn st at scope t raw observed_provider observed_model sources w =
     (let reply = trim_space raw
      in if scope \<noteq> OwnerScope \<or> \<not> opaque_id (tn_id t) \<or> reply = [] \<or>
            \<not> valid_provenance observed_provider observed_model
         then (Inl ErrInvalid, w)
         else st_finish_turn st scope
           (t\<lparr>tn_reply := truncate_runes reply MaxReplyRunes, tn_state := TurnCompleted, tn_reason := [],
              tn_provenance := (tn_provenance t)\<lparr>pv_observed_provider := observed_provider,
                                                 pv_observed_model := observed_model\<rparr>,
              tn_sources := bounded_sources sources, tn_finished := at\<rparr>) w)"

definition fail_turn :: "'w store \<Rightarrow> int \<Rightarrow> string \<Rightarrow> turn \<Rightarrow> string \<Rightarrow> 'w \<Rightarrow> turn res \<times> 'w" where
  "fail_turn st at scope t reason w =
     (if scope \<noteq> OwnerScope \<or> \<not> opaque_id (tn_id t) then (Inl ErrInvalid, w)
      else st_finish_turn st scope
        (t\<lparr>tn_reply := [], tn_state := TurnFailed,
           tn_reason := truncate_runes (trim_space reason) MaxReasonRunes, tn_finished := at\<rparr>) w)"

definition read_turns :: "'w store \<Rightarrow> string \<Rightarrow> string \<Rightarrow> int \<Rightarrow> int \<Rightarrow> 'w \<Rightarrow> turn list res \<times> 'w" where
  "read_turns st scope conversation_id before_seq limit w =
     (if scope \<noteq> OwnerScope \<or> \<not> opaque_id conversation_id \<or> before_seq < 0 then (Inl ErrInvalid, w)
      else st_turns st scope conversation_id before_seq (clamp limit MaxTurnLimit) w)"

definition continued :: "'w store \<Rightarrow> string \<Rightarrow> 'w \<Rightarrow> archived option res \<times> 'w" where
  "continued st scope w =
     (if scope \<noteq> OwnerScope then (Inl ErrInvalid, w)
      else case st_list st scope [] MaxListLimit w of
        (Inl e, w') \<Rightarrow> (Inl e, w')
      | (Inr (items, _), w') \<Rightarrow> (Inr (find (\<lambda>c. ac_kind c = KindGeneral) items), w'))"

definition touch_conversation :: "'w store \<Rightarrow> int \<Rightarrow> string \<Rightarrow> string \<Rightarrow> nat \<Rightarrow> 'w \<Rightarrow> archived res \<times> 'w" where
  "touch_conversation st at scope i revision w =
     (if scope \<noteq> OwnerScope \<or> \<not> opaque_id i \<or> revision = 0 then (Inl ErrInvalid, w)
      else case st_touch st of
        None \<Rightarrow> (Inl ErrUnavailable, w)
      | Some touch \<Rightarrow> touch scope i revision at w)"

definition recover_turns :: "'w store \<Rightarrow> int \<Rightarrow> 'w \<Rightarrow> int res \<times> 'w" where
  "recover_turns st started_at w = st_interrupt_pending st started_at w"

subsection \<open>Facts\<close>

lemma rune_count_truncate: "rune_count (truncate_runes s n) \<le> n"
  by (simp add: truncate_runes_def rune_count_cut)

lemma truncate_nonempty: "s \<noteq> [] \<Longrightarrow> 0 < n \<Longrightarrow> truncate_runes s n \<noteq> []"
  using rune_count_cut [of n s] by (cases s) (auto simp: truncate_runes_def rune_count_def)

lemma truncate_short: "rune_count s \<le> n \<Longrightarrow> truncate_runes s n = s"
  by (simp add: truncate_runes_def)

text \<open>A locator as the archive may keep it: a span of the excerpt's length in a version of a PDF or EPUB.\<close>

definition locator_ok :: "nat \<Rightarrow> passage_locator \<Rightarrow> bool" where
  "locator_ok excerpt loc \<longleftrightarrow>
     length (pl_version loc) = 64 \<and> pl_format loc \<in> {''pdf'', ''epub''} \<and> 0 \<le> pl_unit loc \<and> 0 \<le> pl_start loc \<and>
     pl_start loc < pl_end loc \<and> pl_end loc - pl_start loc = int excerpt \<and> rune_count (pl_href loc) \<le> 2000 \<and>
     rune_count (pl_label loc) \<le> 300 \<and> length (pl_passage_id loc) \<le> 64 \<and> excerpt \<le> 6000"

lemma locator_fits_ok: "locator_fits s loc = locator_ok (rune_count (ts_excerpt s)) loc"
  by (auto simp: locator_fits_def locator_ok_def max_source_text_def)

definition source_ok :: "turn_source \<Rightarrow> bool" where
  "source_ok s \<longleftrightarrow>
     trim_space (ts_source_id s) \<noteq> [] \<and> rune_count (ts_title s) \<le> max_source_title \<and>
     rune_count (ts_reference s) \<le> max_source_ref \<and> rune_count (ts_excerpt s) \<le> max_source_text \<and>
     (case ts_locator s of
        None \<Rightarrow> True
      | Some loc \<Rightarrow> locator_ok (rune_count (ts_excerpt s)) loc)"

lemma locator_fits_excerpt: "ts_excerpt a = ts_excerpt b \<Longrightarrow> locator_fits a loc = locator_fits b loc"
  by (simp add: locator_fits_def)

lemma bounded_source_ok:
  assumes "trim_space (ts_source_id s) \<noteq> []"
  shows "source_ok (bounded_source s)"
proof -
  have "locator_fits (bounded_source s) loc" if "locator_fits s loc" for loc
  proof -
    have "rune_count (ts_excerpt s) \<le> max_source_text" using that by (simp add: locator_fits_def)
    then have "ts_excerpt (bounded_source s) = ts_excerpt s" by (simp add: bounded_source_def truncate_short)
    then show ?thesis using that locator_fits_excerpt by blast
  qed
  moreover have "ts_locator (bounded_source s) = Some loc \<Longrightarrow> locator_fits s loc" for loc
    by (auto simp: bounded_source_def split: option.splits if_splits)
  ultimately have "case ts_locator (bounded_source s) of None \<Rightarrow> True | Some loc \<Rightarrow> locator_fits (bounded_source s) loc"
    by (auto split: option.split)
  then show ?thesis
    using assms rune_count_truncate unfolding source_ok_def locator_fits_ok by (simp add: bounded_source_def)
qed

lemma bounded_sources_from_ok:
  "length kept \<le> MaxTurnSources \<Longrightarrow> \<forall>s \<in> set kept. source_ok s \<Longrightarrow>
   length (bounded_sources_from kept ss) \<le> MaxTurnSources \<and> (\<forall>s \<in> set (bounded_sources_from kept ss). source_ok s)"
proof (induction ss arbitrary: kept)
  case (Cons s ss)
  show ?case
  proof (cases "trim_space (ts_source_id s) = [] \<or> length kept = MaxTurnSources")
    case False
    then show ?thesis
      using Cons.IH [of "kept @ [bounded_source s]"] Cons.prems bounded_source_ok [of s] by simp
  qed (use Cons in simp)
qed simp

lemma bounded_sources_ok:
  "length (bounded_sources ss) \<le> MaxTurnSources \<and> (\<forall>s \<in> set (bounded_sources ss). source_ok s)"
  unfolding bounded_sources_def by (rule bounded_sources_from_ok) (simp_all add: MaxTurnSources_def)

lemma clean_title_ok: "clean_title raw = (title, True) \<Longrightarrow> rune_count title \<le> MaxTitleRunes"
  by (auto simp: clean_title_def Let_def)

lemma clamp_range: "0 < most \<Longrightarrow> 1 \<le> clamp limit most \<and> clamp limit most \<le> most"
  by (simp add: clamp_def)

subsection \<open>The contract of the store's caller\<close>

text \<open>What may be asked of the store: what each argument of a call must be.\<close>

definition model_named :: "string \<Rightarrow> string \<Rightarrow> bool" where
  "model_named provider model \<longleftrightarrow>
     provider = [] \<and> model = [] \<or>
     provider \<in> {''codex'', ''claude_code'', ''ollama''} \<and> 1 \<le> length model \<and> length model \<le> 128 \<and> alnum_char (hd model) \<and>
     (\<forall>c \<in> set model. alnum_char c \<or> c \<in> set ''._:/-'')"

lemma valid_named: "valid_provenance provider model = model_named provider model"
  by (cases model)
    (auto simp: valid_provenance_def model_named_def known_providers_def model_format_def matches_class_def list_all_iff)

definition new_archived_ok :: "string \<Rightarrow> archived \<Rightarrow> bool" where
  "new_archived_ok fresh c \<longleftrightarrow>
     ac_id c = fresh \<and> ac_turns c = 0 \<and>
     (ac_kind c = KindGeneral \<and> ac_reading_id c = [] \<or>
      ac_kind c = KindReading \<and> ac_reading_id c \<noteq> [] \<and> length (ac_reading_id c) \<le> MaxReadingID) \<and>
     rune_count (ac_title c) \<le> MaxTitleRunes \<and> ac_revision c = 1 \<and> ac_created c = ac_updated c"

definition new_turn_ok :: "string \<Rightarrow> turn \<Rightarrow> bool" where
  "new_turn_ok fresh t \<longleftrightarrow>
     tn_id t = fresh \<and> tn_sources t = [] \<and> tn_reason t = [] \<and> opaque_id (tn_conversation_id t) \<and> send_id_format (tn_send_id t) \<and>
     tn_content t \<noteq> [] \<and> trim_space (tn_content t) = tn_content t \<and> rune_count (tn_content t) \<le> MaxContentRunes \<and>
     tn_state t = TurnPending \<and> tn_attempts t = 1 \<and> tn_reply t = [] \<and>
     model_named (pv_selected_provider (tn_provenance t)) (pv_selected_model (tn_provenance t)) \<and>
     pv_observed_provider (tn_provenance t) = [] \<and> pv_observed_model (tn_provenance t) = []"

text \<open>The same send: what a turn was when it began, with the attempt that is being settled.\<close>

definition same_send :: "turn \<Rightarrow> turn \<Rightarrow> bool" where
  "same_send t t' \<longleftrightarrow>
     tn_id t' = tn_id t \<and> tn_conversation_id t' = tn_conversation_id t \<and> tn_seq t' = tn_seq t \<and> tn_send_id t' = tn_send_id t \<and>
     tn_content t' = tn_content t \<and> tn_attempts t' = tn_attempts t \<and> tn_created t' = tn_created t \<and>
     pv_selected_provider (tn_provenance t') = pv_selected_provider (tn_provenance t) \<and>
     pv_selected_model (tn_provenance t') = pv_selected_model (tn_provenance t)"

definition ended_turn_ok :: "turn \<Rightarrow> turn \<Rightarrow> bool" where
  "ended_turn_ok begun t \<longleftrightarrow>
     opaque_id (tn_id t) \<and> same_send begun t \<and>
     (tn_state t = TurnCompleted \<and> tn_reason t = [] \<and> tn_reply t \<noteq> [] \<and> rune_count (tn_reply t) \<le> MaxReplyRunes \<and>
        model_named (pv_observed_provider (tn_provenance t)) (pv_observed_model (tn_provenance t)) \<and>
        length (tn_sources t) \<le> MaxTurnSources \<and> (\<forall>s \<in> set (tn_sources t). source_ok s) \<or>
      tn_state t = TurnFailed \<and> tn_reply t = [] \<and> rune_count (tn_reason t) \<le> MaxReasonRunes \<and>
        tn_provenance t = tn_provenance begun \<and> tn_sources t = tn_sources begun)"

definition cursor_ok :: "string \<Rightarrow> bool" where
  "cursor_ok cursor \<longleftrightarrow> cursor = [] \<or> (length cursor \<le> max_cursor \<and> cursor_format cursor)"

definition refused :: gerror where
  "refused = Errorf ''outside the contract''"

text \<open>
  A guard in front of a store: it passes on what the contract allows and refuses anything else.  \<open>fresh\<close> is the
  identifier that was drawn for what is new, \<open>begun\<close> the turn that may be settled.
\<close>

definition guarded :: "string \<Rightarrow> turn \<Rightarrow> 'w store \<Rightarrow> 'w store" where
  "guarded fresh begun st =
     \<lparr>st_create = (\<lambda>scope c w. if scope = OwnerScope \<and> new_archived_ok fresh c then st_create st scope c w else (Inl refused, w)),
      st_get = (\<lambda>scope i w. if scope = OwnerScope \<and> opaque_id i then st_get st scope i w else (Inl refused, w)),
      st_list = (\<lambda>scope cursor limit w. if scope = OwnerScope \<and> cursor_ok cursor \<and> 1 \<le> limit \<and> limit \<le> MaxListLimit
                  then st_list st scope cursor limit w else (Inl refused, w)),
      st_rename = (\<lambda>scope i revision title at w.
                     if scope = OwnerScope \<and> opaque_id i \<and> revision > 0 \<and> rune_count title \<le> MaxTitleRunes
                     then st_rename st scope i revision title at w else (Inl refused, w)),
      st_delete = (\<lambda>scope i revision w. if scope = OwnerScope \<and> opaque_id i \<and> revision > 0
                    then st_delete st scope i revision w else (Some refused, w)),
      st_begin_turn = (\<lambda>scope t w. if scope = OwnerScope \<and> new_turn_ok fresh t then st_begin_turn st scope t w
                        else (Inl refused, w)),
      st_retry_turn = (\<lambda>scope i at w. if scope = OwnerScope \<and> opaque_id i then st_retry_turn st scope i at w
                        else (Inl refused, w)),
      st_finish_turn = (\<lambda>scope t w. if scope = OwnerScope \<and> ended_turn_ok begun t then st_finish_turn st scope t w
                         else (Inl refused, w)),
      st_turns = (\<lambda>scope i before limit w.
                    if scope = OwnerScope \<and> opaque_id i \<and> 0 \<le> before \<and> 1 \<le> limit \<and> limit \<le> MaxTurnLimit
                    then st_turns st scope i before limit w else (Inl refused, w)),
      st_interrupt_pending = st_interrupt_pending st,
      st_retry_in = map_option (\<lambda>retry scope c i at w. if scope = OwnerScope \<and> opaque_id c \<and> opaque_id i
                      then retry scope c i at w else (Inl refused, w)) (st_retry_in st),
      st_touch = map_option (\<lambda>touch scope i revision at w. if scope = OwnerScope \<and> opaque_id i \<and> revision > 0
                   then touch scope i revision at w else (Inl refused, w)) (st_touch st)\<rparr>"

lemma guarded_simps [simp]:
  "scope = OwnerScope \<Longrightarrow> new_archived_ok fresh c \<Longrightarrow> st_create (guarded fresh begun st) scope c w = st_create st scope c w"
  "scope = OwnerScope \<Longrightarrow> new_turn_ok fresh t \<Longrightarrow> st_begin_turn (guarded fresh begun st) scope t w = st_begin_turn st scope t w"
  "scope = OwnerScope \<Longrightarrow> ended_turn_ok begun t \<Longrightarrow> st_finish_turn (guarded fresh begun st) scope t w = st_finish_turn st scope t w"
  by (simp_all add: guarded_def)

subsection \<open>The context of a reply, as a whole\<close>

text \<open>
  The reference: of the completed turns, the longest run of the newest that stays within both
  budgets, in order.
\<close>

definition turn_size :: "turn \<Rightarrow> int" where
  "turn_size t = int (rune_count (tn_content t)) + int (rune_count (tn_reply t))"

definition within_budget :: "int \<Rightarrow> int \<Rightarrow> turn list \<Rightarrow> bool" where
  "within_budget max_turns max_runes ts \<longleftrightarrow>
     int (length ts) \<le> max_turns \<and> sum_list (map turn_size ts) \<le> max_runes"

text \<open>The longest prefix within what is left.\<close>

fun budget_prefix :: "int \<Rightarrow> int \<Rightarrow> turn list \<Rightarrow> turn list" where
  "budget_prefix n r [] = []"
| "budget_prefix n r (t # ts) = (if n \<le> 0 \<or> turn_size t > r then [] else t # budget_prefix (n - 1) (r - turn_size t) ts)"

lemma turn_size_nonneg [simp]: "0 \<le> turn_size t"
  by (simp add: turn_size_def)

lemma budget_prefix_prefix: "prefix (budget_prefix n r ts) ts"
  by (induction ts arbitrary: n r) auto

lemma sizes_nonneg: "0 \<le> sum_list (map turn_size ts)"
  by (induction ts) auto

lemma budget_prefix_within: "0 \<le> n \<Longrightarrow> 0 \<le> r \<Longrightarrow> within_budget n r (budget_prefix n r ts)"
proof (induction ts arbitrary: n r)
  case (Cons t ts)
  show ?case
  proof (cases "n \<le> 0 \<or> turn_size t > r")
    case False
    then show ?thesis using Cons.IH [of "n - 1" "r - turn_size t"] by (auto simp: within_budget_def)
  qed (use Cons.prems in \<open>simp add: within_budget_def\<close>)
qed (simp add: within_budget_def)

lemma budget_prefix_longest:
  "prefix us ts \<Longrightarrow> within_budget n r us \<Longrightarrow> prefix us (budget_prefix n r ts)"
proof (induction ts arbitrary: us n r)
  case (Cons t ts)
  show ?case
  proof (cases us)
    case (Cons u vs)
    then have u: "u = t" and vs: "prefix vs ts" using Cons.prems(1) by auto
    have w: "within_budget (n - 1) (r - turn_size t) vs" and fits: "\<not> (n \<le> 0 \<or> turn_size t > r)"
      using Cons.prems(2) sizes_nonneg [of vs] by (auto simp: within_budget_def Cons u)
    show ?thesis using Cons.IH [OF vs w] fits by (simp add: Cons u)
  qed simp
qed simp

lemma context_back_prefix:
  "context_back ts n r picked used =
   rev (budget_prefix (n - int (length picked)) (r - used) (filter (\<lambda>t. tn_state t = TurnCompleted) ts)) @ picked"
proof (induction ts arbitrary: picked used)
  case (Cons t ts)
  have stop: "budget_prefix k q us = []" if "k \<le> 0" for k q us
    using that by (cases us) auto
  show ?case
    using Cons by (auto simp: stop turn_size_def Let_def algebra_simps)
qed simp

lemma start_guarded:
  "start_conversation (guarded fresh begun st) at fresh scope kind reading_id raw w =
   start_conversation st at fresh scope kind reading_id raw w"
  by (auto simp: start_conversation_def new_archived_ok_def split: prod.split dest: clean_title_ok)

lemma send_guarded:
  "send_turn (guarded fresh begun st) at fresh scope conversation_id send raw selected w =
   send_turn st at fresh scope conversation_id send raw selected w"
  by (auto simp: send_turn_def new_turn_ok_def Let_def valid_named)

lemma complete_guarded:
  "complete_turn (guarded fresh t st) at scope t raw observed_provider observed_model sources w =
   complete_turn st at scope t raw observed_provider observed_model sources w"
  using bounded_sources_ok [of sources] rune_count_truncate truncate_nonempty
  by (auto simp: complete_turn_def ended_turn_ok_def same_send_def Let_def valid_named MaxReplyRunes_def)

lemma fail_guarded: "fail_turn (guarded fresh t st) at scope t reason w = fail_turn st at scope t reason w"
  using rune_count_truncate by (auto simp: fail_turn_def ended_turn_ok_def same_send_def)

lemma limits_in_range:
  "1 \<le> clamp limit MaxListLimit" "clamp limit MaxListLimit \<le> MaxListLimit"
  "1 \<le> clamp limit MaxTurnLimit" "clamp limit MaxTurnLimit \<le> MaxTurnLimit"
  using clamp_range [of MaxListLimit limit] clamp_range [of MaxTurnLimit limit]
  by (simp_all add: MaxListLimit_def MaxTurnLimit_def)

lemma list_guarded:
  "list_conversations (guarded fresh begun st) scope cursor limit w = list_conversations st scope cursor limit w"
  using limits_in_range by (auto simp: list_conversations_def guarded_def cursor_ok_def)

lemma rename_guarded:
  "rename_conversation (guarded fresh begun st) at scope i revision raw w = rename_conversation st at scope i revision raw w"
  by (auto simp: rename_conversation_def guarded_def split: prod.split dest: clean_title_ok)

lemma read_guarded:
  "read_turns (guarded fresh begun st) scope conversation_id before_seq limit w = read_turns st scope conversation_id before_seq limit w"
  using limits_in_range by (auto simp: read_turns_def guarded_def)

lemma others_guarded:
  "get_conversation (guarded fresh begun st) scope i w = get_conversation st scope i w"
  "delete_conversation (guarded fresh begun st) scope i revision w = delete_conversation st scope i revision w"
  "retry_turn (guarded fresh begun st) at scope i w = retry_turn st at scope i w"
  "retry_in_conversation (guarded fresh begun st) at scope c i w = retry_in_conversation st at scope c i w"
  "continued (guarded fresh begun st) scope w = continued st scope w"
  "touch_conversation (guarded fresh begun st) at scope i revision w = touch_conversation st at scope i revision w"
  by (auto simp: get_conversation_def delete_conversation_def retry_turn_def retry_in_conversation_def
      continued_def touch_conversation_def guarded_def cursor_ok_def MaxListLimit_def split: option.split)

subsection \<open>Properties\<close>

text \<open>
  C29.  The archive never asks its store for anything outside the contract: a guard in front of the store that refuses
  whatever the contract does not allow changes no operation of the archive, for any arguments and any store.  The contract:
  every call is in the owner's scope, and identifiers, versions, cursors and the sizes of pages are well-formed.  A
  conversation or turn that begins carries the identifier drawn for it, no turns or reply, a bounded title or message, a
  reading of at most 512 bytes exactly when it is about one, and a known provider with a well-formed model or neither.  A turn that
  ends is the very send that was begun, same text, conversation, selected model and attempt: it completes with a
  nonempty bounded reply, a known observed provider and model or neither, and at most 8 bounded sources, or it fails
  without a reply, with a bounded reason and nothing else changed.
\<close>

theorem archive_keeps_the_contract:
  "start_conversation (guarded fresh t st) at fresh scope kind reading_id raw w =
     start_conversation st at fresh scope kind reading_id raw w \<and>
   get_conversation (guarded fresh t st) scope i w = get_conversation st scope i w \<and>
   list_conversations (guarded fresh t st) scope cursor limit w = list_conversations st scope cursor limit w \<and>
   rename_conversation (guarded fresh t st) at scope i revision raw w = rename_conversation st at scope i revision raw w \<and>
   delete_conversation (guarded fresh t st) scope i revision w = delete_conversation st scope i revision w \<and>
   send_turn (guarded fresh t st) at fresh scope i send raw selected w = send_turn st at fresh scope i send raw selected w \<and>
   retry_turn (guarded fresh t st) at scope i w = retry_turn st at scope i w \<and>
   retry_in_conversation (guarded fresh t st) at scope i j w = retry_in_conversation st at scope i j w \<and>
   complete_turn (guarded fresh t st) at scope t raw provider model sources w =
     complete_turn st at scope t raw provider model sources w \<and>
   fail_turn (guarded fresh t st) at scope t raw w = fail_turn st at scope t raw w \<and>
   read_turns (guarded fresh t st) scope i before limit w = read_turns st scope i before limit w \<and>
   continued (guarded fresh t st) scope w = continued st scope w \<and>
   touch_conversation (guarded fresh t st) at scope i revision w = touch_conversation st at scope i revision w"
  by (simp add: start_guarded send_guarded complete_guarded fail_guarded list_guarded rename_guarded
      read_guarded others_guarded)

text \<open>
  What becomes context is the longest run of the newest completed turns within both budgets, in
  their order: a turn that failed, is pending or was interrupted never becomes context, and no
  longer run of the newest completed turns would have fitted.
\<close>

theorem context_is_longest_run:
  "suffix (context_turns turns max_turns max_runes) (filter (\<lambda>t. tn_state t = TurnCompleted) turns) \<and>
   (if 0 \<le> max_turns \<and> 0 \<le> max_runes
    then within_budget max_turns max_runes (context_turns turns max_turns max_runes)
    else context_turns turns max_turns max_runes = []) \<and>
   {us. suffix us (filter (\<lambda>t. tn_state t = TurnCompleted) turns) \<and> within_budget max_turns max_runes us}
     \<subseteq> {us. suffix us (context_turns turns max_turns max_runes)}"
proof -
  let ?cs = "filter (\<lambda>t. tn_state t = TurnCompleted) turns"
  let ?p = "budget_prefix max_turns max_runes (rev ?cs)"
  have c: "context_turns turns max_turns max_runes = rev ?p"
    by (simp add: context_turns_def context_back_prefix rev_filter)
  have "prefix (rev us) ?p" if "suffix us ?cs" and "within_budget max_turns max_runes us" for us
    by (rule budget_prefix_longest) (use that in \<open>simp_all add: suffix_to_prefix within_budget_def rev_map [symmetric]\<close>)
  moreover have "within_budget max_turns max_runes (rev us) = within_budget max_turns max_runes us" for us
    by (simp add: within_budget_def rev_map [symmetric])
  moreover have "?p = []" if "\<not> (0 \<le> max_turns \<and> 0 \<le> max_runes)"
  proof (cases "rev ?cs")
    case (Cons t ts)
    have "max_turns \<le> 0 \<or> turn_size t > max_runes" using that turn_size_nonneg [of t] by linarith
    then show ?thesis using Cons by simp
  qed simp
  ultimately show ?thesis
    using budget_prefix_prefix [of max_turns max_runes "rev ?cs"] budget_prefix_within [of max_turns max_runes "rev ?cs"]
    by (auto simp: c suffix_to_prefix)
qed

end
