(* ===== verification/Facts.thy ===== *)
theory Facts
  imports Archive
begin

section \<open>What people asked Ningo to keep\<close>

text \<open>
  \<open>dokja_domain/dokja_conversation/facts.go\<close>: the rules over a store of facts, a parameter.  \<open>at\<close>
  and \<open>fresh\<close> are what the clock and the random identifier give.
\<close>

definition OwnerPerson :: string where "OwnerPerson = ''owner''"
definition PlacePrivate :: string where "PlacePrivate = ''private''"
definition MaxFactRunes :: nat where "MaxFactRunes = 1000"
definition MaxFactsPerPerson :: nat where "MaxFactsPerPerson = 200"
definition MaxContextFacts :: nat where "MaxContextFacts = 30"
definition MaxContextFactRunes :: nat where "MaxContextFactRunes = 3000"

definition ErrTooManyFacts :: gerror where
  "ErrTooManyFacts = Sentinel ''too many facts are kept for this person''"

definition person_key :: "string \<Rightarrow> string" where
  "person_key name = ''person:'' @ name"

definition person_name :: "string \<Rightarrow> string" where
  "person_name person = trim_prefix person ''person:''"

record fact =
  fc_id :: string
  fc_person :: string
  fc_content :: string
  fc_place :: string
  fc_created :: int

record 'w fact_store =
  fs_add :: "fact \<Rightarrow> 'w \<Rightarrow> gerror option \<times> 'w"
  fs_person :: "string \<Rightarrow> 'w \<Rightarrow> fact list res \<times> 'w"
  fs_all :: "'w \<Rightarrow> fact list res \<times> 'w"
  fs_delete :: "string \<Rightarrow> 'w \<Rightarrow> bool res \<times> 'w"

definition unavailable :: "gerror \<Rightarrow> gerror" where
  "unavailable e = Wrap_Then ErrUnavailable ('': '' @ err_text e)"

definition remember_fact ::
    "'w fact_store \<Rightarrow> int \<Rightarrow> string \<Rightarrow> string \<Rightarrow> string \<Rightarrow> string \<Rightarrow> 'w \<Rightarrow> fact res \<times> 'w" where
  "remember_fact st at fresh person place raw w =
     (let content = join_with '' '' (go_fields raw)
      in if person = [] \<or> place = [] \<or> content = [] \<or> rune_count content > MaxFactRunes then (Inl ErrInvalid, w)
         else case fs_person st person w of
           (Inl e, w1) \<Rightarrow> (Inl (unavailable e), w1)
         | (Inr held, w1) \<Rightarrow>
             (case find (\<lambda>f. fc_place f = place \<and> fc_content f = content) held of
                Some f \<Rightarrow> (Inr f, w1)
              | None \<Rightarrow>
                  if length held \<ge> MaxFactsPerPerson then (Inl ErrTooManyFacts, w1)
                  else
                   (let f = \<lparr>fc_id = fresh, fc_person = person, fc_content = content, fc_place = place, fc_created = at\<rparr>
                    in case fs_add st f w1 of
                         (Some e, w2) \<Rightarrow> (Inl (unavailable e), w2)
                       | (None, w2) \<Rightarrow> (Inr f, w2))))"

definition recall_facts :: "'w fact_store \<Rightarrow> string \<Rightarrow> string \<Rightarrow> 'w \<Rightarrow> fact list res \<times> 'w" where
  "recall_facts st person place w =
     (case fs_person st person w of
        (Inl e, w1) \<Rightarrow> (Inl (unavailable e), w1)
      | (Inr held, w1) \<Rightarrow>
          if place = PlacePrivate then (Inr held, w1)
          else (Inr (filter (\<lambda>f. fc_place f = place) held), w1))"

text \<open>The loop over the facts from the latest back.\<close>

fun context_facts_back :: "fact list \<Rightarrow> string list \<Rightarrow> nat \<Rightarrow> string list" where
  "context_facts_back [] kept used = kept"
| "context_facts_back (f # fs) kept used =
     (if \<not> length kept < MaxContextFacts then kept
      else if used + rune_count (fc_content f) > MaxContextFactRunes then kept
      else context_facts_back fs (fc_content f # kept) (used + rune_count (fc_content f)))"

definition context_facts :: "fact list \<Rightarrow> string list" where
  "context_facts facts = context_facts_back (rev facts) [] 0"

definition all_facts :: "'w fact_store \<Rightarrow> 'w \<Rightarrow> fact list res \<times> 'w" where
  "all_facts st w =
     (case fs_all st w of
        (Inl e, w1) \<Rightarrow> (Inl (unavailable e), w1)
      | (Inr held, w1) \<Rightarrow> (Inr held, w1))"

definition delete_fact :: "'w fact_store \<Rightarrow> string \<Rightarrow> 'w \<Rightarrow> gerror option \<times> 'w" where
  "delete_fact st i w =
     (if \<not> opaque_id i then (Some ErrInvalid, w)
      else case fs_delete st i w of
        (Inl e, w1) \<Rightarrow> (Some (unavailable e), w1)
      | (Inr found, w1) \<Rightarrow> (if \<not> found then Some ErrNotFound else None, w1))"

subsection \<open>A store that keeps the facts in a list\<close>

text \<open>The store's documented behaviour, oldest first; used to state what the rules give over time.\<close>

definition list_store :: "fact list fact_store" where
  "list_store =
     \<lparr>fs_add = (\<lambda>f w. (None, w @ [f])),
      fs_person = (\<lambda>p w. (Inr (filter (\<lambda>f. fc_person f = p) w), w)),
      fs_all = (\<lambda>w. (Inr w, w)),
      fs_delete = (\<lambda>i w. (Inr (\<exists>f \<in> set w. fc_id f = i), filter (\<lambda>f. fc_id f \<noteq> i) w))\<rparr>"

subsection \<open>Facts about the facts\<close>

lemma context_facts_back_spec:
  "\<exists>taken. context_facts_back fs kept used = map fc_content (rev taken) @ kept \<and> prefix taken fs \<and>
     length taken + length kept \<le> max MaxContextFacts (length kept) \<and>
     used + sum_list (map (rune_count \<circ> fc_content) taken) \<le> max MaxContextFactRunes used"
proof (induction fs arbitrary: kept used)
  case (Cons f fs)
  show ?case
  proof (cases "length kept < MaxContextFacts \<and> used + rune_count (fc_content f) \<le> MaxContextFactRunes")
    case True
    obtain taken where "context_facts_back fs (fc_content f # kept) (used + rune_count (fc_content f)) =
          map fc_content (rev taken) @ fc_content f # kept"
      and "prefix taken fs" and "length taken + length (fc_content f # kept) \<le> MaxContextFacts"
      and "used + rune_count (fc_content f) + sum_list (map (rune_count \<circ> fc_content) taken) \<le> MaxContextFactRunes"
      using Cons.IH [of "fc_content f # kept" "used + rune_count (fc_content f)"] True by (auto simp: comp_def)
    then show ?thesis using True by (intro exI [of _ "f # taken"]) (auto simp: comp_def)
  qed (auto intro!: exI [of _ "[]"])
qed (auto intro!: exI [of _ "[]"])

lemma find_snoc: "find P xs = None \<Longrightarrow> find P (xs @ [x]) = (if P x then Some x else None)"
  by (induction xs) (auto split: if_splits)

subsection \<open>Properties\<close>

text \<open>
  Nothing kept in private surfaces in front of others: in a shared place, what a turn's model
  may see of a person's facts are contents of facts of that person said in that very place, whatever
  the store answers; and everywhere it is at most 30 of the latest facts, in order, of at most 3000
  runes together.
\<close>

theorem shared_places_hide_private_facts:
  "case fst (recall_facts st person place w) of
     Inl e \<Rightarrow> errors_is e ErrUnavailable
   | Inr shown \<Rightarrow>
       (\<exists>latest. suffix latest shown \<and> context_facts shown = map fc_content latest \<and>
          length latest \<le> 30 \<and> sum_list (map (rune_count \<circ> fc_content) latest) \<le> 3000) \<and>
       (case fst (fs_person st person w) of
          Inl _ \<Rightarrow> False
        | Inr held \<Rightarrow> if place = PlacePrivate then shown = held
                      else set shown = {f \<in> set held. fc_place f = place})"
proof -
  have ctx: "\<exists>latest. suffix latest shown \<and> context_facts shown = map fc_content latest \<and>
          length latest \<le> 30 \<and> sum_list (map (rune_count \<circ> fc_content) latest) \<le> 3000" for shown
  proof -
    obtain taken where "context_facts_back (rev shown) [] 0 = map fc_content (rev taken)" and "prefix taken (rev shown)"
      and "length taken \<le> MaxContextFacts"
      and "sum_list (map (rune_count \<circ> fc_content) taken) \<le> MaxContextFactRunes"
      using context_facts_back_spec [of "rev shown" "[]" 0] by auto
    then show ?thesis
      by (intro exI [of _ "rev taken"])
        (auto simp: context_facts_def suffix_to_prefix MaxContextFacts_def MaxContextFactRunes_def rev_map [symmetric])
  qed
  obtain held w1 where h: "fs_person st person w = (held, w1)" by force
  show ?thesis
    using ctx h by (cases held) (auto simp: recall_facts_def unavailable_def ErrUnavailable_def)
qed

text \<open>
  Saying the same thing twice in the same place keeps it once: over a store that keeps what it
  is given, remembering what was just remembered gives the same fact and adds nothing.
\<close>

theorem remembering_is_idempotent:
  assumes "remember_fact list_store at fresh person place raw kept = (Inr f, kept')"
  shows "remember_fact list_store at' fresh' person place raw kept' = (Inr f, kept')"
proof -
  let ?c = "join_with '' '' (go_fields raw)" and ?held = "\<lambda>k. filter (\<lambda>f. fc_person f = person) k"
  let ?same = "\<lambda>f. fc_place f = place \<and> fc_content f = ?c"
  have ok: "\<not> (person = [] \<or> place = [] \<or> ?c = [] \<or> rune_count ?c > MaxFactRunes)"
    using assms by (auto simp: remember_fact_def Let_def)
  show ?thesis
  proof (cases "find ?same (?held kept)")
    case (Some g)
    then have "f = g" and "kept' = kept" using assms ok by (auto simp: remember_fact_def list_store_def Let_def)
    then show ?thesis using Some ok by (auto simp: remember_fact_def list_store_def Let_def)
  next
    case None
    then have f: "f = \<lparr>fc_id = fresh, fc_person = person, fc_content = ?c, fc_place = place, fc_created = at\<rparr>"
      and k: "kept' = kept @ [f]"
      using assms ok by (auto simp: remember_fact_def list_store_def Let_def split: if_splits)
    have "find ?same (?held kept') = Some f"
      using None by (simp add: k f find_snoc)
    then show ?thesis using ok by (auto simp: remember_fact_def list_store_def Let_def)
  qed
qed

lemma remembering_is_idempotent_witness:
  "remember_fact list_store 2 ''f2'' ''owner'' ''private'' ''a  cat'' 
     [\<lparr>fc_id = ''f1'', fc_person = ''owner'', fc_content = ''a cat'', fc_place = ''private'', fc_created = 1\<rparr>] =
   (Inr \<lparr>fc_id = ''f1'', fc_person = ''owner'', fc_content = ''a cat'', fc_place = ''private'', fc_created = 1\<rparr>,
    [\<lparr>fc_id = ''f1'', fc_person = ''owner'', fc_content = ''a cat'', fc_place = ''private'', fc_created = 1\<rparr>])"
proof (rule remembering_is_idempotent)
  show "remember_fact list_store 1 ''f1'' ''owner'' ''private'' ''a  cat'' [] =
   (Inr \<lparr>fc_id = ''f1'', fc_person = ''owner'', fc_content = ''a cat'', fc_place = ''private'', fc_created = 1\<rparr>,
    [\<lparr>fc_id = ''f1'', fc_person = ''owner'', fc_content = ''a cat'', fc_place = ''private'', fc_created = 1\<rparr>])"
  proof -
    have "join_with '' '' (go_fields ''a  cat'') = ''a cat''" by code_simp
    moreover have "rune_count ''a cat'' = 5" by code_simp
    ultimately show ?thesis by (simp add: remember_fact_def list_store_def MaxFactRunes_def MaxFactsPerPerson_def Let_def)
  qed
qed

end
