(* ===== verification/Realtime.thy ===== *)
theory Realtime
  imports Go_Strings "HOL-Library.AList"
begin

section \<open>The realtime conversation journal\<close>

text \<open>
  \<open>dokja_domain/dokja_conversation/realtime.go\<close>: the sessions that observe a voice channel, who
  consented to them and what was transcribed.  Every method runs under the engine's mutex and is one
  step; \<open>now\<close> is the instant it runs at.  The map of sessions is an association list.
\<close>

subsection \<open>State\<close>

record rt_message =
  rm_sequence :: int
  rm_message_id :: string
  rm_session_id :: string
  rm_speaker_id :: string
  rm_speaker_name :: string
  rm_start :: int
  rm_end :: int
  rm_text :: string
  rm_status :: string
  rm_revision :: int
  rm_thread_ids :: "string list"
  rm_reply_to :: string

record rt_session =
  rs_channel_wide :: bool
  rs_started_by :: string
  rs_session_id :: string
  rs_guild_id :: string
  rs_channel_id :: string
  rs_origin_channel_id :: string
  rs_mode :: string
  rs_active :: bool
  rs_consenting :: "string list"
  rs_messages :: "rt_message list"
  rs_updated_at :: int

type_synonym engine = "(string \<times> rt_session) list"

definition ErrRealtime :: gerror where
  "ErrRealtime = Sentinel ''invalid or unauthorized realtime conversation operation''"

definition bounded_text :: "string \<Rightarrow> nat \<Rightarrow> bool" where
  "bounded_text v n \<longleftrightarrow> v \<noteq> [] \<and> length v \<le> n \<and> utf8_valid v"

definition second :: int where
  "second = 1000000000"

definition prune :: "int \<Rightarrow> engine \<Rightarrow> engine" where
  "prune now e = filter (\<lambda>(_, s). \<not> now - rs_updated_at s > 15 * 60 * second) e"

subsection \<open>Sessions\<close>

definition start_session ::
    "string \<Rightarrow> string \<Rightarrow> string \<Rightarrow> string \<Rightarrow> string \<Rightarrow> bool \<Rightarrow> int \<Rightarrow> engine \<Rightarrow> gerror option \<times> engine" where
  "start_session i guild channel origin speaker channel_wide now e =
     (if \<not> bounded_text i 128 \<or> \<not> bounded_text guild 100 \<or> \<not> bounded_text channel 100 \<or>
         \<not> bounded_text origin 100 \<or> \<not> bounded_text speaker 100
      then (Some ErrRealtime, e)
      else
       (let e1 = prune now e
        in case map_of e1 i of
             Some prior \<Rightarrow>
               if rs_guild_id prior = guild \<and> rs_channel_id prior = channel \<and> rs_origin_channel_id prior = origin \<and>
                  rs_started_by prior = speaker \<and> rs_channel_wide prior = channel_wide \<and> rs_active prior
               then (None, e1) else (Some ErrRealtime, e1)
           | None \<Rightarrow>
               if length e1 \<ge> 32 then (Some (Errorf ''realtime session capacity reached''), e1)
               else (None, AList.update i
                  \<lparr>rs_channel_wide = channel_wide, rs_started_by = speaker, rs_session_id = i, rs_guild_id = guild,
                   rs_channel_id = channel, rs_origin_channel_id = origin, rs_mode = ''observer'', rs_active = True,
                   rs_consenting = [speaker], rs_messages = [], rs_updated_at = now\<rparr> e1)))"

definition session_allows :: "rt_session \<Rightarrow> string \<Rightarrow> bool" where
  "session_allows s speaker = list_ex (\<lambda>i. i = speaker) (rs_consenting s)"

definition consent ::
    "string \<Rightarrow> string \<Rightarrow> string \<Rightarrow> string \<Rightarrow> bool \<Rightarrow> int \<Rightarrow> engine \<Rightarrow> gerror option \<times> engine" where
  "consent i guild origin speaker joining now e =
     (let e1 = prune now e
      in case map_of e1 i of
           None \<Rightarrow> (Some ErrRealtime, e1)
         | Some s \<Rightarrow>
             if \<not> rs_active s \<or> rs_channel_wide s \<or> rs_guild_id s \<noteq> guild \<or> rs_origin_channel_id s \<noteq> origin \<or>
                \<not> bounded_text speaker 100
             then (Some ErrRealtime, e1)
             else if joining then
               (if session_allows s speaker then (None, AList.update i (s\<lparr>rs_updated_at := now\<rparr>) e1)
                else if length (rs_consenting s) \<ge> 16 then (Some ErrRealtime, e1)
                else (None, AList.update i (s\<lparr>rs_consenting := rs_consenting s @ [speaker], rs_updated_at := now\<rparr>) e1))
             else (None, AList.update i
                    (s\<lparr>rs_consenting := filter (\<lambda>v. v \<noteq> speaker) (rs_consenting s),
                       rs_messages := filter (\<lambda>m. rm_speaker_id m \<noteq> speaker) (rs_messages s),
                       rs_updated_at := now\<rparr>) e1))"

definition stop_session :: "string \<Rightarrow> string \<Rightarrow> string \<Rightarrow> string \<Rightarrow> engine \<Rightarrow> gerror option \<times> engine" where
  "stop_session i guild origin speaker e =
     (case map_of e i of
        None \<Rightarrow> (Some ErrRealtime, e)
      | Some s \<Rightarrow>
          if rs_guild_id s \<noteq> guild \<or> rs_origin_channel_id s \<noteq> origin \<or> \<not> bounded_text speaker 100 \<or>
             (\<not> rs_channel_wide s \<and> \<not> session_allows s speaker)
          then (Some ErrRealtime, e)
          else (None, AList.delete i e))"

subsection \<open>Observing a message\<close>

definition message_valid :: "rt_message \<Rightarrow> bool" where
  "message_valid m \<longleftrightarrow>
     \<not> (rm_sequence m < 0 \<or> rm_sequence m > 1000000000 \<or> \<not> bounded_text (rm_message_id m) 128 \<or>
        \<not> bounded_text (rm_text m) 8000 \<or> \<not> bounded_text (rm_speaker_id m) 100 \<or> rm_status m \<noteq> ''final'' \<or>
        rm_revision m < 1 \<or> rm_start m = 0 \<or> rm_end m < rm_start m \<or> rm_end m - rm_start m > 30 * second)"

definition is_control :: "nat \<Rightarrow> bool" where
  "is_control r \<longleftrightarrow> r < 32 \<or> (127 \<le> r \<and> r < 160)"

definition display_name :: "string \<Rightarrow> string" where
  "display_name name =
     string_of_runes (take 100 (runes (trim_space (string_of_runes (filter (\<lambda>r. \<not> is_control r) (runes name))))))"

text \<open>The index of the message with the same id, as the loop finds it.\<close>

fun find_message :: "string \<Rightarrow> rt_message list \<Rightarrow> nat \<Rightarrow> (nat \<times> rt_message) option" where
  "find_message i [] n = None"
| "find_message i (old # ms) n =
     (if rm_message_id old = i then Some (n, old) else find_message i ms (Suc n))"

definition text_total :: "rt_message list \<Rightarrow> nat" where
  "text_total ms = sum_list (map (\<lambda>m. length (rm_text m)) ms)"

text \<open>The budget loop drops the earliest messages.\<close>

fun trim_messages :: "rt_message list \<Rightarrow> rt_message list" where
  "trim_messages [] = []"
| "trim_messages (m # ms) =
     (if length (m # ms) > 512 \<or> text_total (m # ms) > 256000 then trim_messages ms else m # ms)"

definition observe_in ::
    "rt_session \<Rightarrow> rt_message \<Rightarrow> int \<Rightarrow> (rt_session option) res" where
  "observe_in s m now =
     (case find_message (rm_message_id m) (rs_messages s) 0 of
        Some (i, old) \<Rightarrow>
          if rm_speaker_id old \<noteq> rm_speaker_id m \<or> rm_sequence old \<noteq> rm_sequence m then Inl ErrRealtime
          else if rm_revision m = rm_revision old then
            (if rm_text old = rm_text m \<and> rm_start old = rm_start m \<and> rm_end old = rm_end m
             then Inr None else Inl ErrRealtime)
          else if rm_revision m \<noteq> rm_revision old + 1 then Inl ErrRealtime
          else Inr (Some (s\<lparr>rs_messages := (rs_messages s)[i := m], rs_updated_at := now\<rparr>))
      | None \<Rightarrow>
          if rm_revision m \<noteq> 1 then Inl ErrRealtime
          else Inr (Some (s\<lparr>rs_messages := trim_messages (sort_key rm_sequence (rs_messages s @ [m])),
                           rs_updated_at := now\<rparr>)))"

definition observe :: "string \<Rightarrow> string \<Rightarrow> rt_message \<Rightarrow> int \<Rightarrow> engine \<Rightarrow> gerror option \<times> engine" where
  "observe guild origin raw now e =
     (if \<not> message_valid raw \<or> \<not> utf8_valid (rm_speaker_name raw) then (Some ErrRealtime, e)
      else
       (let m = raw\<lparr>rm_speaker_name := display_name (rm_speaker_name raw)\<rparr>; e1 = prune now e
        in case map_of e1 (rm_session_id m) of
             None \<Rightarrow> (Some ErrRealtime, e1)
           | Some s \<Rightarrow>
               if \<not> rs_active s \<or> rs_guild_id s \<noteq> guild \<or> rs_origin_channel_id s \<noteq> origin \<or>
                  (\<not> rs_channel_wide s \<and> \<not> session_allows s (rm_speaker_id m))
               then (Some ErrRealtime, e1)
               else if \<not> session_allows s (rm_speaker_id m) \<and> length (rs_consenting s) \<ge> 16
               then (Some ErrRealtime, e1)
               else
                (let s1 = (if session_allows s (rm_speaker_id m) then s
                           else s\<lparr>rs_consenting := rs_consenting s @ [rm_speaker_id m]\<rparr>);
                     m1 = m\<lparr>rm_thread_ids := [], rm_reply_to := []\<rparr>
                 in case observe_in s1 m1 now of
                      Inl err \<Rightarrow> (Some err, e1)
                    | Inr None \<Rightarrow> (None, e1)
                    | Inr (Some s2) \<Rightarrow> (None, AList.update (rm_session_id m) s2 e1))))"

subsection \<open>The snapshot\<close>

text \<open>
  The visible messages of one session: from the newest back, until the first that does not fit.
  The result is in order again, with what is left of the budgets.
\<close>

fun visible_back :: "rt_message list \<Rightarrow> nat \<Rightarrow> nat \<Rightarrow> rt_message list \<Rightarrow> rt_message list \<times> nat \<times> nat" where
  "visible_back [] budget remaining acc = (acc, budget, remaining)"
| "visible_back (m # ms) budget remaining acc =
     (if remaining = 0 \<or> length (rm_text m) > budget then (acc, budget, remaining)
      else visible_back ms (budget - length (rm_text m)) (remaining - 1) (m # acc))"

fun snapshot_sessions :: "rt_session list \<Rightarrow> nat \<Rightarrow> nat \<Rightarrow> rt_session list" where
  "snapshot_sessions [] budget remaining = []"
| "snapshot_sessions (s # ss) budget remaining =
     (case visible_back (rev (rs_messages s)) budget remaining [] of
        (visible, budget', remaining') \<Rightarrow> s\<lparr>rs_messages := visible\<rparr> # snapshot_sessions ss budget' remaining')"

text \<open>\<open>Snapshot\<close>: the sessions are ordered by their last update; sessions updated at one instant come
  in the order \<open>e\<close> has them, where Go's map and sort leave it open.\<close>

definition snapshot :: "int \<Rightarrow> engine \<Rightarrow> rt_session list \<times> engine" where
  "snapshot now e =
     (let e1 = prune now e
      in (snapshot_sessions (sort_key (\<lambda>s. - rs_updated_at s) (map snd e1)) 256000 512, e1))"

subsection \<open>What a session keeps\<close>

definition message_ok :: "rt_message \<Rightarrow> bool" where
  "message_ok m \<longleftrightarrow>
     0 \<le> rm_sequence m \<and> rm_sequence m \<le> 1000000000 \<and> bounded_text (rm_message_id m) 128 \<and> bounded_text (rm_text m) 8000 \<and>
     bounded_text (rm_speaker_id m) 100 \<and> rm_status m = ''final'' \<and> 1 \<le> rm_revision m \<and> rm_start m \<noteq> 0 \<and>
     rm_start m \<le> rm_end m \<and> rm_end m - rm_start m \<le> 30 * second \<and> rune_count (rm_speaker_name m) \<le> 100 \<and>
     rm_thread_ids m = [] \<and> rm_reply_to m = []"

definition session_ok :: "rt_session \<Rightarrow> bool" where
  "session_ok s \<longleftrightarrow>
     distinct (rs_consenting s) \<and> length (rs_consenting s) \<le> 16 \<and>
     rm_speaker_id ` set (rs_messages s) \<subseteq> set (rs_consenting s) \<and>
     (\<forall>m \<in> set (rs_messages s). message_ok m) \<and>
     distinct (map rm_message_id (rs_messages s)) \<and> sorted (map rm_sequence (rs_messages s)) \<and>
     length (rs_messages s) \<le> 512"

definition engine_ok :: "engine \<Rightarrow> bool" where
  "engine_ok e \<longleftrightarrow> distinct (map fst e) \<and> length e \<le> 32 \<and> (\<forall>x \<in> set e. session_ok (snd x))"

lemma session_allows_iff [simp]: "session_allows s speaker \<longleftrightarrow> speaker \<in> set (rs_consenting s)"
  by (auto simp: session_allows_def list_ex_iff)

lemma trim_messages_suffix: "suffix (trim_messages ms) ms"
  by (induction ms) (auto intro: suffix_ConsI)

lemma trim_messages_bounds: "length (trim_messages ms) \<le> 512 \<and> text_total (trim_messages ms) \<le> 256000"
  by (induction ms) (auto simp: text_total_def)

lemma suffix_messages:
  assumes "suffix xs ys"
  shows "set xs \<subseteq> set ys" and "sorted (map f ys) \<Longrightarrow> sorted (map f xs)" and "distinct (map g ys) \<Longrightarrow> distinct (map g xs)"
  using assms by (auto simp: suffix_def sorted_append)

lemma find_message_Some:
  "find_message i ms n = Some (k, old) \<Longrightarrow> n \<le> k \<and> k < n + length ms \<and> ms ! (k - n) = old \<and> rm_message_id old = i"
proof (induction ms arbitrary: n)
  case (Cons m ms)
  show ?case
  proof (cases "rm_message_id m = i")
    case False
    then have "find_message i ms (Suc n) = Some (k, old)" using Cons.prems by simp
    from Cons.IH [OF this] show ?thesis by (auto simp: nth_Cons' Suc_diff_le)
  qed (use Cons.prems in auto)
qed simp

lemma find_message_None: "find_message i ms n = None \<longleftrightarrow> i \<notin> rm_message_id ` set ms"
  by (induction ms arbitrary: n) auto

lemma map_update_same: "k < length ms \<Longrightarrow> f (ms ! k) = f m \<Longrightarrow> map f (ms[k := m]) = map f ms"
  by (metis list_update_id map_update)

lemma observe_in_ok:
  assumes "session_ok s" and "message_ok m" and "rm_speaker_id m \<in> set (rs_consenting s)"
    and "observe_in s m now = Inr (Some s')"
  shows "session_ok s'"
proof (cases "find_message (rm_message_id m) (rs_messages s) 0")
  case None
  let ?ms = "sort_key rm_sequence (rs_messages s @ [m])"
  have s': "s' = s\<lparr>rs_messages := trim_messages ?ms, rs_updated_at := now\<rparr>"
    using assms(4) None by (auto simp: observe_in_def split: if_splits)
  have fresh: "rm_message_id m \<notin> rm_message_id ` set (rs_messages s)"
    using None find_message_None [of "rm_message_id m" "rs_messages s" 0] by blast
  have "distinct (map rm_message_id (rs_messages s @ [m]))"
    using assms(1) fresh by (simp add: session_ok_def)
  then have dist: "distinct (map rm_message_id ?ms)"
    by (metis distinct_map distinct_sort set_sort)
  note suf = suffix_messages [OF trim_messages_suffix [of ?ms]]
  have sub: "set (trim_messages ?ms) \<subseteq> insert m (set (rs_messages s))" using suf(1) by auto
  show ?thesis
    unfolding session_ok_def s'
    using assms(1-3) sub suf(3) [OF dist] suf(2) [OF sorted_sort_key] trim_messages_bounds [of ?ms]
    by (auto simp: session_ok_def)
next
  case (Some x)
  obtain k old where x: "x = (k, old)" by force
  note f = find_message_Some [OF Some [unfolded x]]
  have s': "s' = s\<lparr>rs_messages := (rs_messages s)[k := m], rs_updated_at := now\<rparr>"
    and same: "rm_sequence old = rm_sequence m"
    using assms(4) Some x by (auto simp: observe_in_def split: if_splits)
  have "map rm_sequence ((rs_messages s)[k := m]) = map rm_sequence (rs_messages s)"
    and "map rm_message_id ((rs_messages s)[k := m]) = map rm_message_id (rs_messages s)"
    using f same by (auto intro!: map_update_same)
  then show ?thesis
    unfolding session_ok_def s'
    using assms(1-3) set_update_subset_insert [of "rs_messages s" k m] by (auto simp: session_ok_def)
qed

lemma display_name_bound: "rune_count (display_name name) \<le> 100"
proof -
  let ?rs = "take 100 (runes (trim_space (string_of_runes (filter (\<lambda>r. \<not> is_control r) (runes name)))))"
  have "\<forall>r \<in> set ?rs. scalar r" using runes_scalar by (meson in_set_takeD)
  then have "runes (string_of_runes ?rs) = ?rs" by (intro runes_string_of_runes) auto
  then have "rune_count (string_of_runes ?rs) = length ?rs" by (metis length_runes)
  then show ?thesis by (simp add: display_name_def)
qed

subsection \<open>What the engine keeps\<close>

lemma prune_subset: "set (prune now e) \<subseteq> set e"
  by (auto simp: prune_def)

lemma prune_ok: "engine_ok e \<Longrightarrow> engine_ok (prune now e)"
  by (auto simp: engine_ok_def prune_def distinct_map_filter intro: le_trans [OF length_filter_le])

lemma map_of_ok: "engine_ok e \<Longrightarrow> map_of e i = Some s \<Longrightarrow> session_ok s"
  by (auto simp: engine_ok_def dest!: map_of_SomeD)

lemma update_length:
  "distinct (map fst e) \<Longrightarrow> length (AList.update i s e) = (if i \<in> fst ` set e then length e else Suc (length e))"
proof -
  assume d: "distinct (map fst e)"
  then have "length (AList.update i s e) = card (insert i (fst ` set e))"
    using distinct_card [OF distinct_update [OF d, of i s]] by (simp add: dom_update)
  then show ?thesis using d distinct_card [OF d] by (auto simp: card_insert_if)
qed

lemma update_subset: "set (AList.update i s e) \<subseteq> insert (i, s) (set e)"
  by (induction e) auto

lemma update_ok:
  assumes "engine_ok e" and "session_ok s" and "map_of e i \<noteq> None \<or> length e < 32"
  shows "engine_ok (AList.update i s e)"
proof -
  note sub = update_subset [of i s e]
  have d: "distinct (map fst e)" and len: "length e \<le> 32" and all: "\<forall>x \<in> set e. session_ok (snd x)"
    using assms(1) by (auto simp: engine_ok_def)
  have "i \<in> fst ` set e \<or> length e < 32"
    using assms(3) map_of_eq_None_iff [of e i] by argo
  then have "length (AList.update i s e) \<le> 32" using update_length [OF d, of i s] len by auto
  moreover have "\<forall>x \<in> set (AList.update i s e). session_ok (snd x)" using sub all assms(2) by auto
  ultimately show ?thesis using distinct_update [OF d, of i s] by (simp add: engine_ok_def)
qed

lemma delete_ok: "engine_ok e \<Longrightarrow> engine_ok (AList.delete i e)"
  by (auto simp: engine_ok_def AList.delete_eq distinct_map_filter intro: le_trans [OF length_filter_le])

lemma start_ok:
  assumes "engine_ok e"
  shows "engine_ok (snd (start_session i guild channel origin speaker wide now e))"
  using assms prune_ok [OF assms, of now]
  by (auto simp: start_session_def Let_def session_ok_def intro!: update_ok split: option.splits)

lemma consent_ok:
  assumes "engine_ok e"
  shows "engine_ok (snd (consent i guild origin speaker joining now e))"
proof (cases "map_of (prune now e) i")
  case (Some s)
  have ok: "session_ok s" using map_of_ok [OF prune_ok [OF assms] Some] .
  have touched: "session_ok (s\<lparr>rs_updated_at := now\<rparr>)" using ok by (simp add: session_ok_def)
  have joined: "session_ok (s\<lparr>rs_consenting := rs_consenting s @ [speaker], rs_updated_at := now\<rparr>)"
    if "speaker \<notin> set (rs_consenting s)" "\<not> length (rs_consenting s) \<ge> 16"
    using ok that by (auto simp: session_ok_def)
  have left: "session_ok (s\<lparr>rs_consenting := filter (\<lambda>v. v \<noteq> speaker) (rs_consenting s),
      rs_messages := filter (\<lambda>m. rm_speaker_id m \<noteq> speaker) (rs_messages s), rs_updated_at := now\<rparr>)"
    using ok by (auto simp: session_ok_def distinct_map_filter sorted_filter intro: le_trans [OF length_filter_le])
  show ?thesis
    using Some touched joined left prune_ok [OF assms, of now]
    by (auto simp: consent_def Let_def intro!: update_ok)
qed (simp add: consent_def prune_ok [OF assms])

lemma observe_ok:
  assumes "engine_ok e"
  shows "engine_ok (snd (observe guild origin raw now e))"
proof (cases "message_valid raw \<and> utf8_valid (rm_speaker_name raw)")
  case True
  let ?m = "raw\<lparr>rm_speaker_name := display_name (rm_speaker_name raw)\<rparr>"
  let ?m1 = "?m\<lparr>rm_thread_ids := [], rm_reply_to := []\<rparr>"
  have m: "message_ok ?m1"
    using True display_name_bound by (simp add: message_ok_def message_valid_def)
  show ?thesis
  proof (cases "map_of (prune now e) (rm_session_id raw)")
    case (Some s)
    have ok: "session_ok s" using map_of_ok [OF prune_ok [OF assms] Some] .
    let ?s1 = "if session_allows s (rm_speaker_id ?m) then s
               else s\<lparr>rs_consenting := rs_consenting s @ [rm_speaker_id ?m]\<rparr>"
    have "session_ok s2" if "length (rs_consenting s) < 16 \<or> session_allows s (rm_speaker_id ?m)"
      and o: "observe_in ?s1 ?m1 now = Inr (Some s2)" for s2
    proof (rule observe_in_ok [OF _ m _ o])
      show "session_ok ?s1" using ok that(1) by (auto simp: session_ok_def)
    qed simp
    then show ?thesis
      using True Some prune_ok [OF assms, of now]
      by (auto simp: observe_def Let_def not_le intro!: update_ok split: sum.split option.split)
  qed (use True prune_ok [OF assms] in \<open>simp add: observe_def\<close>)
qed (use assms in \<open>auto simp: observe_def\<close>)

lemma stop_session_ok: "engine_ok e \<Longrightarrow> engine_ok (snd (stop_session i guild origin speaker e))"
  by (auto simp: stop_session_def delete_ok split: option.split)

subsection \<open>Any sequence of calls\<close>

datatype rt_op =
    Start string string string string string bool
  | Consent string string string string bool
  | Observe string string rt_message
  | Stop string string string string

fun engine_step :: "rt_op \<times> int \<Rightarrow> engine \<Rightarrow> engine" where
  "engine_step (Start i guild channel origin speaker wide, now) e =
     snd (start_session i guild channel origin speaker wide now e)"
| "engine_step (Consent i guild origin speaker joining, now) e = snd (consent i guild origin speaker joining now e)"
| "engine_step (Observe guild origin m, now) e = snd (observe guild origin m now e)"
| "engine_step (Stop i guild origin speaker, now) e = snd (stop_session i guild origin speaker e)"

lemma engine_step_ok: "engine_ok e \<Longrightarrow> engine_ok (engine_step op e)"
  by (cases "(op, e)" rule: engine_step.cases) (simp_all add: start_ok consent_ok observe_ok stop_session_ok)

lemma engine_run_ok: "engine_ok e \<Longrightarrow> engine_ok (fold engine_step ops e)"
  by (induction ops arbitrary: e) (simp_all add: engine_step_ok)

subsection \<open>Withdrawn consent\<close>

text \<open>The session, if it is there, is for those who consented and the speaker is not one of them.\<close>

definition out_of :: "string \<Rightarrow> string \<Rightarrow> engine \<Rightarrow> bool" where
  "out_of i speaker e \<longleftrightarrow>
     (case map_of e i of None \<Rightarrow> True
      | Some s \<Rightarrow> \<not> rs_channel_wide s \<and> speaker \<notin> set (rs_consenting s))"

text \<open>A call that could let the speaker in: starting the session anew, or joining it.\<close>

fun lets_in :: "string \<Rightarrow> string \<Rightarrow> rt_op \<Rightarrow> bool" where
  "lets_in i speaker (Start j guild channel origin who wide) = (j = i)"
| "lets_in i speaker (Consent j guild origin who joining) = (j = i \<and> who = speaker \<and> joining)"
| "lets_in i speaker _ = False"

lemma prune_map_of: "distinct (map fst e) \<Longrightarrow> map_of (prune now e) i = Some s \<Longrightarrow> map_of e i = Some s"
  by (metis (no_types, lifting) distinct_map_filter map_of_SomeD map_of_is_SomeI prune_def prune_subset subsetD)

lemma out_of_prune: "engine_ok e \<Longrightarrow> out_of i speaker e \<Longrightarrow> out_of i speaker (prune now e)"
  unfolding out_of_def engine_ok_def
  by (cases "map_of (prune now e) i") (simp_all add: prune_map_of)

lemma out_of_update_other: "j \<noteq> i \<Longrightarrow> out_of i speaker (AList.update j s e) \<longleftrightarrow> out_of i speaker e"
  by (simp add: out_of_def update_conv')

lemma out_of_update_same:
  "out_of i speaker (AList.update i s e) \<longleftrightarrow> \<not> rs_channel_wide s \<and> speaker \<notin> set (rs_consenting s)"
  by (simp add: out_of_def update_conv')

lemma observe_in_people:
  "observe_in s m now = Inr (Some s') \<Longrightarrow>
   rs_channel_wide s' = rs_channel_wide s \<and> rs_consenting s' = rs_consenting s"
  by (auto simp: observe_in_def split: option.splits if_splits)

lemma out_of_consent:
  assumes "out_of i speaker (prune now e)" and "engine_ok e" and "out_of i speaker e"
    and "\<not> (j = i \<and> who = speaker \<and> joining)"
  shows "out_of i speaker (snd (consent j guild origin who joining now e))"
proof (cases "map_of (prune now e) j")
  case (Some s)
  show ?thesis
  proof (cases "j = i")
    case True
    then have "\<not> rs_channel_wide s" and "speaker \<notin> set (rs_consenting s)"
      using assms(1) Some by (auto simp: out_of_def)
    then show ?thesis
      using assms True Some by (auto simp: consent_def out_of_update_same Let_def)
  qed (use assms Some in \<open>auto simp: consent_def Let_def out_of_update_other\<close>)
qed (use assms in \<open>simp add: consent_def\<close>)

lemma out_of_observe:
  assumes "out_of i speaker (prune now e)" and "out_of i speaker e"
  shows "out_of i speaker (snd (observe guild origin raw now e))"
proof (cases "map_of (prune now e) (rm_session_id raw)")
  case (Some s)
  let ?m = "raw\<lparr>rm_speaker_name := display_name (rm_speaker_name raw)\<rparr>"
  show ?thesis
  proof (cases "rm_session_id raw = i")
    case True
    then have "\<not> rs_channel_wide s" and "speaker \<notin> set (rs_consenting s)"
      using assms(1) Some by (auto simp: out_of_def)
    then show ?thesis
      using assms True Some observe_in_people [of s "?m\<lparr>rm_thread_ids := [], rm_reply_to := []\<rparr>" now]
      by (auto simp: observe_def Let_def out_of_update_same split: sum.split option.split)
  qed (use assms Some in \<open>auto simp: observe_def Let_def out_of_update_other split: sum.split option.split\<close>)
qed (use assms in \<open>auto simp: observe_def\<close>)

lemma out_of_start:
  assumes "out_of i speaker (prune now e)" and "out_of i speaker e" and "j \<noteq> i"
  shows "out_of i speaker (snd (start_session j guild channel origin who wide now e))"
  using assms by (auto simp: start_session_def Let_def out_of_update_other split: option.split)

lemma out_of_stop: "out_of i speaker e \<Longrightarrow> out_of i speaker (snd (stop_session j guild origin who e))"
  by (auto simp: stop_session_def out_of_def delete_conv' split: option.split)

lemma out_of_step:
  assumes "engine_ok e" and "out_of i speaker e" and "\<not> lets_in i speaker (fst op)"
  shows "out_of i speaker (engine_step op e)"
proof -
  have pruned: "out_of i speaker (prune (snd op) e)" by (rule out_of_prune [OF assms(1,2)])
  show ?thesis
    using assms pruned
    by (cases "(op, e)" rule: engine_step.cases)
      (simp_all add: out_of_start out_of_consent out_of_observe out_of_stop)
qed

lemma out_of_run:
  "engine_ok e \<Longrightarrow> out_of i speaker e \<Longrightarrow> list_all (\<lambda>op. \<not> lets_in i speaker (fst op)) ops \<Longrightarrow>
   out_of i speaker (fold engine_step ops e)"
  by (induction ops arbitrary: e) (simp_all add: out_of_step engine_step_ok)

lemma leaving_is_out:
  assumes "consent i guild origin speaker False now e = (None, e')"
  shows "out_of i speaker e'"
  using assms by (auto simp: consent_def Let_def out_of_update_same split: option.splits if_splits)

subsection \<open>Who may be heard\<close>

text \<open>A call by which a person asks to be in a session: starting it, or joining it.\<close>

fun asks_in :: "string \<Rightarrow> string \<Rightarrow> rt_op \<Rightarrow> bool" where
  "asks_in i speaker (Start j guild channel origin who wide) = (j = i \<and> who = speaker)"
| "asks_in i speaker (Consent j guild origin who joining) = (j = i \<and> who = speaker \<and> joining)"
| "asks_in i speaker _ = False"

text \<open>In a session that is not channel-wide, only people of \<open>known\<close> are tracked.\<close>

definition members_known :: "(string \<Rightarrow> string \<Rightarrow> bool) \<Rightarrow> engine \<Rightarrow> bool" where
  "members_known known e \<longleftrightarrow> (\<forall>(i, s) \<in> set e. rs_channel_wide s \<or> (\<forall>v \<in> set (rs_consenting s). known i v))"

lemma members_known_mono: "members_known K e \<Longrightarrow> (\<And>i v. K i v \<Longrightarrow> K' i v) \<Longrightarrow> members_known K' e"
  unfolding members_known_def by blast

lemma members_known_prune: "members_known K e \<Longrightarrow> members_known K (prune now e)"
  by (auto simp: members_known_def prune_def)

lemma members_known_update:
  "members_known K e \<Longrightarrow> rs_channel_wide s \<or> (\<forall>v \<in> set (rs_consenting s). K i v) \<Longrightarrow> members_known K (AList.update i s e)"
  using update_subset [of i s e] unfolding members_known_def by fastforce

lemma members_known_at:
  "members_known K e \<Longrightarrow> map_of e i = Some s \<Longrightarrow> rs_channel_wide s \<or> (\<forall>v \<in> set (rs_consenting s). K i v)"
  unfolding members_known_def by (fastforce dest: map_of_SomeD)

lemma observe_in_members:
  "observe_in s m now = Inr (Some s') \<Longrightarrow> rs_channel_wide s' = rs_channel_wide s \<and> rs_consenting s' = rs_consenting s"
  by (auto simp: observe_in_def split: option.splits if_splits)

lemma members_known_step:
  assumes "members_known K e"
  shows "members_known (\<lambda>i v. K i v \<or> asks_in i v (fst op)) (engine_step op e)"
proof -
  let ?K = "\<lambda>i v. K i v \<or> asks_in i v (fst op)" and ?e = "prune (snd op) e"
  have all: "members_known ?K e" using assms by (rule members_known_mono) blast
  have old: "members_known ?K ?e" using all by (rule members_known_prune)
  show ?thesis
  proof (cases "(op, e)" rule: engine_step.cases)
    case (1 i guild channel origin who wide now e')
    then show ?thesis
      using all old by (auto simp: start_session_def Let_def intro!: members_known_update split: option.split)
  next
    case (2 i guild origin who joining now e')
    then have n: "members_known ?K (prune now e)" using old by simp
    have "rs_channel_wide s \<or> (\<forall>v \<in> set (rs_consenting s). ?K i v)" if "map_of (prune now e) i = Some s" for s
      using members_known_at [OF n that] .
    then show ?thesis
      using 2 n by (fastforce simp: consent_def Let_def intro!: members_known_update split: option.split)
  next
    case (3 guild origin m now e')
    then have n: "members_known ?K (prune now e)" using old by simp
    have "rs_channel_wide s \<or> (\<forall>v \<in> set (rs_consenting s). ?K (rm_session_id m) v)"
      if "map_of (prune now e) (rm_session_id m) = Some s" for s
      using members_known_at [OF n that] .
    then show ?thesis
      using 3 n all
      by (auto simp: observe_def Let_def intro!: members_known_update dest!: observe_in_members split: option.split sum.split)
  next
    case (4 i guild origin who now e')
    then show ?thesis
      using all by (auto simp: stop_session_def members_known_def AList.delete_eq split: option.split)
  qed
qed

lemma members_known_run:
  "members_known K e \<Longrightarrow> members_known (\<lambda>i v. K i v \<or> list_ex (\<lambda>op. asks_in i v (fst op)) ops) (fold engine_step ops e)"
proof (induction ops arbitrary: K e)
  case (Cons op ops)
  show ?case
    using Cons.IH [OF members_known_step [OF Cons.prems, of op]] by (simp add: disj_assoc)
qed simp

subsection \<open>Snapshots are bounded\<close>

lemma visible_back_bounds:
  "visible_back ms budget remaining acc = (visible, budget', remaining') \<Longrightarrow>
   \<exists>taken. visible = rev taken @ acc \<and> prefix taken ms \<and>
     text_total taken + budget' = budget \<and> length taken + remaining' = remaining"
proof (induction ms arbitrary: budget remaining acc)
  case (Cons m ms)
  show ?case
  proof (cases "remaining = 0 \<or> length (rm_text m) > budget")
    case False
    then obtain taken where "visible = rev taken @ m # acc" and "prefix taken ms"
      and "text_total taken + budget' = budget - length (rm_text m)" and "length taken + remaining' = remaining - 1"
      using Cons.IH [of "budget - length (rm_text m)" "remaining - 1" "m # acc"] Cons.prems by auto
    then show ?thesis using False by (intro exI [of _ "m # taken"]) (auto simp: text_total_def)
  next
    case True
    then show ?thesis using Cons.prems by (intro exI [of _ "[]"]) (auto simp: text_total_def)
  qed
qed (auto simp: text_total_def)

lemma snapshot_sessions_bounds:
  "sum_list (map (\<lambda>s. text_total (rs_messages s)) (snapshot_sessions ss budget remaining)) \<le> budget \<and>
   sum_list (map (\<lambda>s. length (rs_messages s)) (snapshot_sessions ss budget remaining)) \<le> remaining \<and>
   list_all2 (\<lambda>v s. suffix (rs_messages v) (rs_messages s) \<and> v = s\<lparr>rs_messages := rs_messages v\<rparr>)
     (snapshot_sessions ss budget remaining) ss"
proof (induction ss arbitrary: budget remaining)
  case (Cons s ss)
  obtain visible b r where v: "visible_back (rev (rs_messages s)) budget remaining [] = (visible, b, r)"
    by (metis surj_pair)
  obtain taken where taken: "visible = rev taken" "prefix taken (rev (rs_messages s))"
    "text_total taken + b = budget" "length taken + r = remaining"
    using visible_back_bounds [OF v] by auto
  have "suffix visible (rs_messages s)" using taken(1,2) by (simp add: suffix_to_prefix)
  moreover have "text_total visible = text_total taken" and "length visible = length taken"
    using taken(1) by (simp_all add: text_total_def rev_map [symmetric] sum_list_rev)
  ultimately show ?case using v taken Cons.IH [of b r] by simp
qed simp

subsection \<open>A session over its budget\<close>

lemma decode_ascii: "byte c < 128 \<Longrightarrow> decode_all (c # cs) = (byte c, 1) # decode_all cs"
  by (subst decode_all.simps) (simp add: decode_rune.simps)

lemma ascii_valid: "byte c < 128 \<Longrightarrow> utf8_valid (replicate n c)"
  by (induction n) (simp_all add: utf8_valid_def decode_ascii rune_error_def)

definition long_message :: "nat \<Rightarrow> nat \<Rightarrow> int \<Rightarrow> rt_message" where
  "long_message k n revision =
     \<lparr>rm_sequence = int k, rm_message_id = replicate (k + 1) CHR ''m'', rm_session_id = ''s'', rm_speaker_id = ''p'',
      rm_speaker_name = [], rm_start = 1, rm_end = 1, rm_text = replicate n CHR ''a'', rm_status = ''final'',
      rm_revision = revision, rm_thread_ids = [], rm_reply_to = []\<rparr>"

definition long_session :: rt_session where
  "long_session =
     \<lparr>rs_channel_wide = True, rs_started_by = ''p'', rs_session_id = ''s'', rs_guild_id = ''g'', rs_channel_id = ''c'',
      rs_origin_channel_id = ''o'', rs_mode = ''observer'', rs_active = True, rs_consenting = [''p''],
      rs_messages = map (\<lambda>k. long_message k (if k < 31 then 8000 else 1) 1) [0..<32] @ [long_message 32 1 1],
      rs_updated_at = 1\<rparr>"

lemma long_message_ok: "k < 33 \<Longrightarrow> 0 < n \<Longrightarrow> n \<le> 8000 \<Longrightarrow> revision \<ge> 1 \<Longrightarrow> message_ok (long_message k n revision)"
proof -
  assume a: "k < 33" "0 < n" "n \<le> 8000" "revision \<ge> 1"
  have "utf8_valid ''p''" using ascii_valid [of "CHR ''p''" 1] by simp
  then show ?thesis
    using a ascii_valid [of "CHR ''a''" n] ascii_valid [of "CHR ''m''" "Suc k"]
    by (simp add: message_ok_def message_valid_def bounded_text_def long_message_def second_def)
qed

lemma long_ids:
  assumes "k < 32"
  shows "replicate (k + 1) CHR ''m'' \<noteq> replicate 33 CHR ''m''"
proof
  assume "replicate (k + 1) CHR ''m'' = replicate 33 CHR ''m''"
  then have "length (replicate (k + 1) CHR ''m'') = length (replicate 33 CHR ''m'')" by (rule arg_cong)
  then show False using assms by (simp only: length_replicate)
qed

lemma long_session_ok: "session_ok long_session"
proof -
  let ?ids = "map (\<lambda>k. replicate (k + 1) CHR ''m'') [0..<32]"
  have "inj_on (\<lambda>k. replicate (k + 1) CHR ''m'') {0..<32}"
    by (rule inj_onI) (drule arg_cong [where f = length], simp only: length_replicate)
  then have "distinct ?ids" by (simp only: distinct_map distinct_upt set_upt)
  moreover have "replicate 33 CHR ''m'' \<notin> set ?ids" using long_ids by fastforce
  moreover have "map rm_message_id (rs_messages long_session) = ?ids @ [replicate 33 CHR ''m'']"
    by (simp add: long_session_def long_message_def comp_def)
  moreover have "map rm_sequence (rs_messages long_session) = map int [0..<32] @ [32]"
    by (simp add: long_session_def long_message_def comp_def)
  moreover have "sorted (map int [0..<32])" by (simp add: sorted_iff_nth_mono)
  moreover have "message_ok m \<and> rm_speaker_id m = ''p''" if "m \<in> set (rs_messages long_session)" for m
    using that long_message_ok by (auto simp: long_session_def, auto simp: long_message_def)
  ultimately show ?thesis
    by (auto simp: session_ok_def sorted_append, auto simp: long_session_def)
qed

lemma long_texts: "sum_list (map (\<lambda>k. if k < 31 then 8000 else 1) [0..<32]) = (248001 :: nat)"
proof -
  have "sum_list (map (\<lambda>k. if k < 31 then 8000 else 1) [0..<31]) = sum_list (map (\<lambda>_. 8000 :: nat) [0..<31])"
    by (intro arg_cong [where f = sum_list] map_cong) auto
  also have "\<dots> = 248000" by (simp only: sum_list_triv length_upt) simp
  finally have "sum_list (map (\<lambda>k. if k < 31 then 8000 else 1) [0..<31]) = (248000 :: nat)" .
  moreover have "[0..<32] = [0..<31] @ [31]" using upt_add_eq_append [of 0 31 1] by simp
  ultimately show ?thesis by simp
qed

lemma long_session_total:
  "text_total (map (\<lambda>k. long_message k (if k < 31 then 8000 else 1) 1) [0..<32]) = 248001"
  using long_texts by (simp add: text_total_def long_message_def comp_def)

lemma find_message_append:
  "i \<notin> rm_message_id ` set xs \<Longrightarrow> find_message i (xs @ ys) n = find_message i ys (n + length xs)"
  by (induction xs arbitrary: n) auto

lemma last_found:
  "find_message (replicate 33 CHR ''m'') (rs_messages long_session) 0 = Some (32, long_message 32 1 1)"
proof -
  have "replicate 33 CHR ''m'' \<notin>
      rm_message_id ` set (map (\<lambda>k. long_message k (if k < 31 then 8000 else 1) 1) [0..<32])"
    using long_ids by (auto simp: long_message_def simp del: replicate_Suc)
  then show ?thesis
    by (simp add: long_session_def find_message_append del: replicate_Suc) (simp add: long_message_def)
qed

subsection \<open>Properties\<close>

text \<open>
  C32.  The realtime journal stays sound: after any calls at any instants there are at most 32
  sessions, each with at most 16 tracked speakers and at most 512 messages, in capture order and
  with distinct ids; every message held is one of a tracked speaker, is a valid
  final transcription, and carries no semantic metadata the interface supplied; and in a session that is not
  channel-wide every message comes from a person who started it or joined it.
\<close>

theorem realtime_journal_sound:
  "engine_ok (fold engine_step ops [])
   \<and> list_all (\<lambda>(i, s). rs_channel_wide s \<or> list_all (\<lambda>m. list_ex (\<lambda>op. asks_in i (rm_speaker_id m) (fst op)) ops) (rs_messages s))
       (fold engine_step ops [])"
proof -
  have ok: "engine_ok (fold engine_step ops [])" by (rule engine_run_ok) (simp add: engine_ok_def)
  moreover have "members_known (\<lambda>i v. list_ex (\<lambda>op. asks_in i v (fst op)) ops) (fold engine_step ops [])"
    using members_known_run [of "\<lambda>_ _. False" "[]" ops] by (simp add: members_known_def)
  ultimately show ?thesis
    unfolding engine_ok_def members_known_def session_ok_def list_all_iff by fastforce
qed

text \<open>
  C24.  Withdrawn consent is final: once a person's withdrawal from a session is accepted, and until
  the session is started anew or that person joins again, nothing the engine is told, of them or of
  others, makes it hold a message of theirs in that session.
\<close>

theorem withdrawn_speaker_is_not_kept:
  assumes "fst (consent i guild origin speaker False now (fold engine_step before [])) = None"
    and "list_all (\<lambda>op. \<not> lets_in i speaker (fst op)) later"
  shows "case map_of (fold engine_step later (snd (consent i guild origin speaker False now (fold engine_step before [])))) i of
           None \<Rightarrow> True
         | Some s \<Rightarrow> speaker \<notin> rm_speaker_id ` set (rs_messages s) \<and> speaker \<notin> set (rs_consenting s)"
proof -
  let ?e = "fold engine_step before []"
  let ?e1 = "snd (consent i guild origin speaker False now ?e)"
  have ok: "engine_ok ?e1" by (intro consent_ok engine_run_ok) (simp add: engine_ok_def)
  have "out_of i speaker ?e1"
    using leaving_is_out [of i guild origin speaker now ?e ?e1] assms(1) by (metis surjective_pairing)
  then have "out_of i speaker (fold engine_step later ?e1)" by (rule out_of_run [OF ok _ assms(2)])
  moreover have "engine_ok (fold engine_step later ?e1)" by (rule engine_run_ok [OF ok])
  ultimately show ?thesis
    using map_of_ok by (fastforce simp: out_of_def session_ok_def split: option.split)
qed

definition a_message :: rt_message where
  "a_message = \<lparr>rm_sequence = 1, rm_message_id = ''m'', rm_session_id = ''s'', rm_speaker_id = ''q'',
      rm_speaker_name = ''Q'', rm_start = 1, rm_end = 2, rm_text = ''hi'', rm_status = ''final'',
      rm_revision = 1, rm_thread_ids = [], rm_reply_to = []\<rparr>"

definition a_start :: "(rt_op \<times> int) list" where
  "a_start = [(Start ''s'' ''g'' ''c'' ''o'' ''p'' False, 1), (Consent ''s'' ''g'' ''o'' ''q'' True, 2)]"

lemma withdrawn_speaker_is_not_kept_witness:
  "fst (consent ''s'' ''g'' ''o'' ''q'' False 4 (fold engine_step a_start [])) = None \<and>
   (case map_of (fold engine_step [(Observe ''g'' ''o'' a_message, 5)]
           (snd (consent ''s'' ''g'' ''o'' ''q'' False 4 (fold engine_step a_start [])))) ''s'' of
      None \<Rightarrow> True
    | Some s \<Rightarrow> ''q'' \<notin> rm_speaker_id ` set (rs_messages s) \<and> ''q'' \<notin> set (rs_consenting s))"
proof -
  have c: "fst (consent ''s'' ''g'' ''o'' ''q'' False 4 (fold engine_step a_start [])) = None"
    by (simp add: a_start_def start_session_def consent_def Let_def prune_def bounded_text_def utf8_valid_def
        decode_ascii rune_error_def second_def)
  show ?thesis using c withdrawn_speaker_is_not_kept [OF c, of "[(Observe ''g'' ''o'' a_message, 5)]"] by simp
qed

text \<open>
  A snapshot is bounded however many sessions there are: the messages it shows hold at most
  256000 bytes of text and are at most 512 in all, and each session shows its newest messages, in
  order and without a gap, with everything else of it unchanged.
\<close>

theorem snapshot_is_bounded:
  "sum_list (map (\<lambda>s. text_total (rs_messages s)) (fst (snapshot now e))) \<le> 256000 \<and>
   sum_list (map (\<lambda>s. length (rs_messages s)) (fst (snapshot now e))) \<le> 512 \<and>
   list_all2 (\<lambda>v s. suffix (rs_messages v) (rs_messages s) \<and> v = s\<lparr>rs_messages := rs_messages v\<rparr>)
     (fst (snapshot now e)) (sort_key (\<lambda>s. - rs_updated_at s) (map snd (snd (snapshot now e))))"
  using snapshot_sessions_bounds by (simp add: snapshot_def Let_def)

text \<open>
  The budget on a session's text holds for new messages only: a session within it can take a
  revision of a message it holds that carries it over 256000 bytes, because a revision replaces the
  text and drops nothing.
\<close>

theorem revision_exceeds_budget:
  "\<exists>s m s'. session_ok s \<and> text_total (rs_messages s) \<le> 256000 \<and> message_ok m \<and>
     observe_in s m now = Inr (Some s') \<and> text_total (rs_messages s') > 256000"
proof -
  let ?m = "long_message 32 8000 2"
  let ?s = "long_session\<lparr>rs_messages := (rs_messages long_session)[32 := ?m], rs_updated_at := now\<rparr>"
  have id: "rm_message_id ?m = replicate 33 CHR ''m''" by (simp add: long_message_def)
  have "observe_in long_session ?m now = Inr (Some ?s)"
    unfolding observe_in_def id last_found by (simp add: long_message_def)
  moreover have "text_total (rs_messages ?s) = 256001"
    using long_session_total by (simp add: text_total_def long_session_def list_update_append) (simp add: long_message_def)
  moreover have "text_total (rs_messages long_session) = 248002"
    using long_session_total by (simp add: text_total_def long_session_def) (simp add: long_message_def)
  moreover have "message_ok ?m" by (rule long_message_ok) simp_all
  ultimately show ?thesis
    using long_session_ok by (intro exI [of _ long_session] exI [of _ ?m] exI [of _ ?s]) simp
qed

end
