(* ===== verification/Go_Float.thy ===== *)
theory Go_Float
  imports Complex_Main Prelude
begin

section \<open>Floating-point numbers\<close>

text \<open>
  \<open>float64\<close> and what the program computes with it.  A finite number is its exact value, so the sign
  of a zero is not kept; every operation is exact and then rounded to the nearest double, ties to
  even, as the language and IEEE 754 demand, with the operations never fused.  The facts below say
  that rounding is monotone and keeps the small integers, which is what the bounds on probabilities
  rest on.
\<close>

datatype f64 = Fin rat | PosInf | NegInf | NaN

subsection \<open>Rounding\<close>

function bit_length :: "int \<Rightarrow> nat" where
  "bit_length n = (if n \<le> 0 then 0 else Suc (bit_length (n div 2)))"
  by pat_completeness auto
termination
  by (relation "measure nat") auto

declare bit_length.simps [simp del]

text \<open>The exponent of the greatest power of two that is at most a positive number.\<close>

definition floor_log2 :: "rat \<Rightarrow> int" where
  "floor_log2 x =
     (case quotient_of x of (n, d) \<Rightarrow>
        let k = int (bit_length n) - int (bit_length d)
        in if 2 powi k \<le> x then k else k - 1)"

definition half_even :: "rat \<Rightarrow> int" where
  "half_even q =
     (let f = \<lfloor>q\<rfloor>; r = q - of_int f
      in if r < 1 / 2 then f else if 1 / 2 < r then f + 1 else if even f then f else f + 1)"

text \<open>The exponent of the last place: 53 bits of precision, and no place below \<open>2 ^ -1074\<close>.\<close>

definition last_place :: "rat \<Rightarrow> int" where
  "last_place x = max (floor_log2 x - 52) (- 1074)"

definition round_pos :: "rat \<Rightarrow> rat" where
  "round_pos x = of_int (half_even (x / 2 powi last_place x)) * 2 powi last_place x"

definition rnd :: "rat \<Rightarrow> f64" where
  "rnd x =
     (if x = 0 then Fin 0
      else if 2 ^ 1024 \<le> round_pos \<bar>x\<bar> then (if 0 < x then PosInf else NegInf)
      else Fin (if 0 < x then round_pos x else - round_pos (- x)))"

subsection \<open>Operations\<close>

text \<open>An infinite number of the sign of \<open>x\<close>; the product of an infinity with zero is not a number.\<close>

definition inf_like :: "rat \<Rightarrow> f64" where
  "inf_like x = (if x = 0 then NaN else if 0 < x then PosInf else NegInf)"

fun sign_of :: "f64 \<Rightarrow> rat" where
  "sign_of (Fin x) = sgn x"
| "sign_of PosInf = 1"
| "sign_of NegInf = - 1"
| "sign_of NaN = 0"

fun fl_add :: "f64 \<Rightarrow> f64 \<Rightarrow> f64" where
  "fl_add (Fin x) (Fin y) = rnd (x + y)"
| "fl_add NaN y = NaN"
| "fl_add x NaN = NaN"
| "fl_add PosInf NegInf = NaN"
| "fl_add NegInf PosInf = NaN"
| "fl_add PosInf y = PosInf"
| "fl_add NegInf y = NegInf"
| "fl_add x PosInf = PosInf"
| "fl_add x NegInf = NegInf"

fun fl_neg :: "f64 \<Rightarrow> f64" where
  "fl_neg (Fin x) = Fin (- x)"
| "fl_neg PosInf = NegInf"
| "fl_neg NegInf = PosInf"
| "fl_neg NaN = NaN"

definition fl_sub :: "f64 \<Rightarrow> f64 \<Rightarrow> f64" where
  "fl_sub x y = fl_add x (fl_neg y)"

fun fl_mul :: "f64 \<Rightarrow> f64 \<Rightarrow> f64" where
  "fl_mul (Fin x) (Fin y) = rnd (x * y)"
| "fl_mul NaN y = NaN"
| "fl_mul x NaN = NaN"
| "fl_mul x y = inf_like (sign_of x * sign_of y)"

fun fl_div :: "f64 \<Rightarrow> f64 \<Rightarrow> f64" where
  "fl_div (Fin x) (Fin y) = (if y = 0 then inf_like x else rnd (x / y))"
| "fl_div NaN y = NaN"
| "fl_div x NaN = NaN"
| "fl_div (Fin x) y = Fin 0"
| "fl_div x (Fin y) = inf_like (sign_of x * (if y = 0 then 1 else sgn y))"
| "fl_div x y = NaN"

text \<open>The comparisons are false when an operand is not a number.\<close>

fun fl_less :: "f64 \<Rightarrow> f64 \<Rightarrow> bool" where
  "fl_less (Fin x) (Fin y) = (x < y)"
| "fl_less NaN y = False"
| "fl_less x NaN = False"
| "fl_less x NegInf = False"
| "fl_less PosInf y = False"
| "fl_less x y = True"

fun fl_le :: "f64 \<Rightarrow> f64 \<Rightarrow> bool" where
  "fl_le (Fin x) (Fin y) = (x \<le> y)"
| "fl_le NaN y = False"
| "fl_le x NaN = False"
| "fl_le NegInf y = True"
| "fl_le x PosInf = True"
| "fl_le x y = False"

text \<open>
  \<open>math.Pow(x, 2)\<close>: the mantissa in \<open>[1/2, 1)\<close> is squared, rounded, and scaled back by \<open>Ldexp\<close>,
  which rounds again when the result is subnormal.
\<close>

fun fl_square :: "f64 \<Rightarrow> f64" where
  "fl_square (Fin x) =
     (if x = 0 then Fin 0
      else let k = floor_log2 \<bar>x\<bar> + 1; m = \<bar>x\<bar> / 2 powi k
           in rnd (round_pos (m * m) * 2 powi (2 * k)))"
| "fl_square NaN = NaN"
| "fl_square x = PosInf"

subsection \<open>Conversions\<close>

text \<open>
  \<open>float64(i)\<close>; \<open>int(f)\<close> truncates toward zero and gives the least integer when the result does not
  fit, as on amd64.
\<close>

definition fl_of_int :: "int \<Rightarrow> f64" where
  "fl_of_int i = rnd (of_int i)"

definition truncate_rat :: "rat \<Rightarrow> int" where
  "truncate_rat x = (if x < 0 then \<lceil>x\<rceil> else \<lfloor>x\<rfloor>)"

definition int_of_rat :: "rat \<Rightarrow> int" where
  "int_of_rat x =
     (let v = truncate_rat x in if - (2 ^ 63) \<le> v \<and> v < 2 ^ 63 then v else - (2 ^ 63))"

text \<open>The number a dynamic value holds, and the dynamic value of a number.\<close>

definition rat_of_parts :: "int \<Rightarrow> int \<Rightarrow> rat" where
  "rat_of_parts m e = of_int m * 2 powi e"

fun val_of_float :: "f64 \<Rightarrow> gval" where
  "val_of_float (Fin x) =
     (case quotient_of x of (n, d) \<Rightarrow> VFloat n (1 - int (bit_length d)))"
| "val_of_float PosInf = VOther 0"
| "val_of_float NegInf = VOther 1"
| "val_of_float NaN = VOther 2"

text \<open>Adding two \<open>int\<close>s wraps around.\<close>

definition wrap_int :: "int \<Rightarrow> int" where
  "wrap_int i = (i + 2 ^ 63) mod 2 ^ 64 - 2 ^ 63"

lemma wrap_int_id: "- (2 ^ 63) \<le> i \<Longrightarrow> i < 2 ^ 63 \<Longrightarrow> wrap_int i = i"
  by (simp add: wrap_int_def)

subsection \<open>Rounding is monotone\<close>

lemma bit_length_pos: "0 < n \<Longrightarrow> 0 < bit_length n"
  by (subst bit_length.simps) simp

lemma bit_length_bounds: "0 < n \<Longrightarrow> 2 ^ (bit_length n - 1) \<le> n \<and> n < 2 ^ bit_length n"
proof (induction n rule: bit_length.induct)
  case (1 n)
  show ?case
  proof (cases "n div 2 \<le> 0")
    case True
    then have "n = 1" using 1 by simp
    then show ?thesis by (simp add: bit_length.simps)
  next
    case False
    then have b: "bit_length n = Suc (bit_length (n div 2))" using 1 by (simp add: bit_length.simps [of n])
    obtain k where k: "bit_length (n div 2) = Suc k"
      using bit_length_pos [of "n div 2"] False by (cases "bit_length (n div 2)") auto
    have "2 ^ k \<le> n div 2 \<and> n div 2 < 2 ^ Suc k" using 1 False k by simp
    then show ?thesis unfolding b k by simp linarith
  qed
qed

lemma powi_mult: "(2::rat) powi i * 2 powi j = 2 powi (i + j)"
  by (simp add: power_int_add)

lemma powi_nat: "(2::rat) powi int k = of_int (2 ^ k)"
  by simp

lemma powi_pred: "0 < k \<Longrightarrow> (2::rat) powi (int k - 1) = of_int (2 ^ (k - 1))"
  using powi_nat [of "k - 1"] by (simp add: of_nat_diff)

lemma powi_le_iff [simp]: "(2::rat) powi a \<le> 2 powi b \<longleftrightarrow> a \<le> b"
  by (meson linorder_not_less one_less_numeral_iff power_int_increasing power_int_strict_increasing
      order_less_imp_le semiring_norm(76))

lemma powi_pos [simp]: "0 < (2::rat) powi k"
  by (simp add: zero_less_power_int)

lemma powi_nonzero [simp]: "(2::rat) powi k \<noteq> 0"
  using powi_pos [of k] by linarith

lemma floor_log2_bounds:
  assumes "0 < x"
  shows "2 powi floor_log2 x \<le> x \<and> x < 2 powi (floor_log2 x + 1)"
proof -
  obtain n d where q: "quotient_of x = (n, d)" by force
  have d: "0 < d" using quotient_of_denom_pos q by auto
  have x: "x = of_int n / of_int d" using q quotient_of_div by auto
  then have n: "0 < n" using assms d by (simp add: zero_less_divide_iff)
  define a b where "a = bit_length n" and "b = bit_length d"
  note 1 = bit_length_bounds [OF n, folded a_def] bit_length_bounds [OF d, folded b_def]
  have ab: "0 < a" "0 < b" using n d bit_length_pos by (simp_all add: a_def b_def)
  have "2 ^ (a - 1) \<le> n" "n < 2 ^ a" "2 ^ (b - 1) \<le> d" "d < 2 ^ b" using 1 by blast+
  then have "of_int (2 ^ (a - 1)) \<le> (of_int n :: rat)" "(of_int n :: rat) < of_int (2 ^ a)"
    "of_int (2 ^ (b - 1)) \<le> (of_int d :: rat)" "(of_int d :: rat) < of_int (2 ^ b)"
    by (simp_all only: of_int_le_iff of_int_less_iff)
  then have 2: "2 powi (int a - 1) \<le> (of_int n :: rat)" "(of_int n :: rat) < 2 powi int a"
    "2 powi (int b - 1) \<le> (of_int d :: rat)" "(of_int d :: rat) < 2 powi int b"
    by (simp_all only: powi_pred [OF ab(1)] powi_pred [OF ab(2)] powi_nat)
  let ?k = "int a - int b"
  have "2 powi (?k - 1) * of_int d \<le> (2 powi (?k - 1) * 2 powi int b :: rat)"
    using 2 by simp
  also have "\<dots> = 2 powi (int a - 1)" by (simp only: powi_mult) simp
  finally have lo: "2 powi (?k - 1) \<le> x"
    unfolding x using 2 d by (simp add: le_divide_eq)
  have "of_int n < (2 powi (?k + 1) * 2 powi (int b - 1) :: rat)"
    using 2 by (simp only: powi_mult) simp
  also have "\<dots> \<le> 2 powi (?k + 1) * of_int d" using 2 by simp
  finally have hi: "x < 2 powi (?k + 1)"
    unfolding x using d by (simp add: divide_less_eq)
  show ?thesis
    using lo hi by (auto simp: floor_log2_def q Let_def simp flip: a_def b_def)
qed

lemma floor_log2_mono: "0 < x \<Longrightarrow> x \<le> y \<Longrightarrow> floor_log2 x \<le> floor_log2 y"
proof -
  assume "0 < x" "x \<le> y"
  then have "(2::rat) powi floor_log2 x < 2 powi (floor_log2 y + 1)"
    using floor_log2_bounds [of x] floor_log2_bounds [of y] by linarith
  then show ?thesis using powi_le_iff [of "floor_log2 y + 1" "floor_log2 x"] by linarith
qed

lemma half_even_of_int [simp]: "half_even (of_int i) = i"
  by (simp add: half_even_def Let_def)

lemma half_even_mono: "p \<le> q \<Longrightarrow> half_even p \<le> half_even q"
proof -
  assume pq: "p \<le> q"
  then have f: "\<lfloor>p\<rfloor> \<le> \<lfloor>q\<rfloor>" by (rule floor_mono)
  show ?thesis
  proof (cases "\<lfloor>p\<rfloor> = \<lfloor>q\<rfloor>")
    case True
    then show ?thesis using pq by (auto simp: half_even_def Let_def)
  next
    case False
    then show ?thesis using f by (auto simp: half_even_def Let_def)
  qed
qed

lemma half_even_le_of_int: "q \<le> of_int i \<Longrightarrow> half_even q \<le> i"
  using half_even_mono [of q "of_int i"] by simp

lemma half_even_ge_of_int: "of_int i \<le> q \<Longrightarrow> i \<le> half_even q"
  using half_even_mono [of "of_int i" q] by simp

lemma scaled_below: "0 < x \<Longrightarrow> x / 2 powi last_place x \<le> of_int (2 ^ 53)"
proof -
  assume "0 < x"
  then have "x < 2 powi (floor_log2 x + 1)" using floor_log2_bounds by blast
  also have "\<dots> \<le> 2 powi (last_place x + 53)" by (simp add: last_place_def)
  also have "\<dots> = 2 ^ 53 * 2 powi last_place x" by (simp add: power_int_add)
  finally show ?thesis by (simp add: divide_le_eq)
qed

lemma round_pos_mono:
  assumes "0 < x" and "x \<le> y"
  shows "round_pos x \<le> round_pos y"
proof (cases "last_place x = last_place y")
  case True
  then show ?thesis
    using assms half_even_mono [of "x / 2 powi last_place y" "y / 2 powi last_place y"]
    by (simp add: round_pos_def divide_right_mono)
next
  case False
  moreover have "last_place x \<le> last_place y"
    using floor_log2_mono [OF assms] by (simp add: last_place_def)
  ultimately have less: "last_place x + 1 \<le> last_place y" by simp
  then have y: "last_place y = floor_log2 y - 52" by (auto simp: last_place_def)
  have "0 < y" using assms by simp
  then have "2 powi (52 + last_place y) \<le> y" using floor_log2_bounds [of y] by (simp add: y)
  then have "of_int (2 ^ 52) \<le> y / 2 powi last_place y"
    by (simp add: le_divide_eq power_int_add)
  then have "2 ^ 52 \<le> half_even (y / 2 powi last_place y)" by (rule half_even_ge_of_int)
  then have "(of_int (2 ^ 52) :: rat) \<le> of_int (half_even (y / 2 powi last_place y))"
    by (simp only: of_int_le_iff)
  then have hi: "of_int (2 ^ 52) * 2 powi last_place y \<le> round_pos y"
    unfolding round_pos_def by (rule mult_right_mono) simp
  have "half_even (x / 2 powi last_place x) \<le> 2 ^ 53"
    using half_even_le_of_int scaled_below [OF assms(1)] by blast
  then have "(of_int (half_even (x / 2 powi last_place x)) :: rat) \<le> of_int (2 ^ 53)"
    by (simp only: of_int_le_iff)
  then have "round_pos x \<le> of_int (2 ^ 53) * 2 powi last_place x"
    unfolding round_pos_def by (rule mult_right_mono) simp
  also have "\<dots> = of_int (2 ^ 52) * (2 powi (last_place x + 1))" by (simp add: power_int_add)
  also have "\<dots> \<le> of_int (2 ^ 52) * 2 powi last_place y"
    using less by (intro mult_left_mono) simp_all
  finally show ?thesis using hi by simp
qed

lemma round_pos_nonneg: "0 \<le> x \<Longrightarrow> 0 \<le> round_pos x"
proof -
  assume "0 \<le> x"
  then have "(of_int 0 :: rat) \<le> x / 2 powi last_place x" by simp
  then have "0 \<le> half_even (x / 2 powi last_place x)" by (rule half_even_ge_of_int)
  then show ?thesis by (simp add: round_pos_def)
qed

text \<open>Integers of up to 53 bits are kept.\<close>

lemma floor_log2_nat: "0 < n \<Longrightarrow> n < 2 ^ 53 \<Longrightarrow> floor_log2 (of_nat n) \<le> 52"
proof -
  assume n: "0 < n" "n < 2 ^ 53"
  then have "(2::rat) powi floor_log2 (of_nat n) \<le> of_nat n" using floor_log2_bounds by simp
  also have "(of_nat n :: rat) < of_nat (2 ^ 53)" using n by (simp only: of_nat_less_iff)
  also have "\<dots> = 2 powi 53" by simp
  finally show ?thesis
    using powi_le_iff [of 53 "floor_log2 (of_nat n)"] by linarith
qed

lemma round_pos_nat: "0 < n \<Longrightarrow> n < 2 ^ 53 \<Longrightarrow> round_pos (of_nat n) = of_nat n"
proof -
  assume n: "0 < n" "n < 2 ^ 53"
  let ?e = "last_place (of_nat n)"
  have "?e \<le> 0" using floor_log2_nat [OF n] by (simp add: last_place_def)
  then obtain k where k: "?e = - int k" by (metis nonpos_int_cases)
  have "(of_nat n :: rat) / 2 powi ?e = of_int (int n * 2 ^ k)"
    by (simp add: k power_int_minus divide_inverse)
  then show ?thesis
    unfolding round_pos_def by (simp only: half_even_of_int) (simp add: k power_int_minus)
qed

lemma rnd_zero [simp]: "rnd 0 = Fin 0"
  by (simp add: rnd_def)

lemma rnd_nat: "n < 2 ^ 53 \<Longrightarrow> rnd (of_nat n) = Fin (of_nat n)"
proof (cases "n = 0")
  case False
  assume n: "n < 2 ^ 53"
  then have "(of_nat n :: rat) < of_nat (2 ^ 53)" by (simp only: of_nat_less_iff)
  also have "\<dots> \<le> 2 ^ 1024" by simp
  finally show ?thesis using False n by (simp add: rnd_def round_pos_nat)
qed simp

lemma rnd_one [simp]: "rnd 1 = Fin 1"
  using rnd_nat [of 1] by simp

text \<open>The result of rounding a number between two that are kept lies between them.\<close>

lemma rnd_between:
  assumes "0 \<le> x" and "x \<le> of_nat n" and "n < 2 ^ 53"
  shows "\<exists>v. rnd x = Fin v \<and> 0 \<le> v \<and> v \<le> of_nat n"
proof (cases "x = 0")
  case False
  then have x: "0 < x" using assms by simp
  then have n: "0 < n" using assms by (cases n) auto
  have v: "round_pos x \<le> of_nat n"
    using round_pos_mono [OF x assms(2)] n assms(3) by (simp add: round_pos_nat)
  have "(of_nat n :: rat) < of_nat (2 ^ 53)" using assms(3) by (simp only: of_nat_less_iff)
  also have "\<dots> \<le> 2 ^ 1024" by simp
  finally have "\<not> 2 ^ 1024 \<le> round_pos x" using v by linarith
  then show ?thesis using x v round_pos_nonneg [of x] by (simp add: rnd_def)
qed auto

lemma rnd_mono_between:
  assumes "0 \<le> x" and "x \<le> y" and "y \<le> of_nat n" and "n < 2 ^ 53"
  shows "\<exists>v w. rnd x = Fin v \<and> rnd y = Fin w \<and> 0 \<le> v \<and> v \<le> w \<and> w \<le> of_nat n"
proof -
  obtain v where v: "rnd x = Fin v" "0 \<le> v" "v \<le> of_nat n"
    using rnd_between [of x n] assms by auto
  obtain w where w: "rnd y = Fin w" "0 \<le> w" "w \<le> of_nat n"
    using rnd_between [of y n] assms by auto
  have "v \<le> w"
  proof (cases "x = 0")
    case False
    then have x: "0 < x" "0 < y" using assms by auto
    then have "v = round_pos x" "w = round_pos y" using v w by (simp_all add: rnd_def split: if_splits)
    then show ?thesis using round_pos_mono [of x y] x assms by simp
  qed (use v w in auto)
  then show ?thesis using v w by simp
qed

lemma rnd_unit: "0 \<le> x \<Longrightarrow> x \<le> 1 \<Longrightarrow> \<exists>v. rnd x = Fin v \<and> 0 \<le> v \<and> v \<le> 1"
  using rnd_between [of x 1] by simp

lemma rnd_pos:
  assumes "1 \<le> x" and "rnd x = Fin v"
  shows "1 \<le> v"
  using assms round_pos_mono [of 1 x] round_pos_nat [of 1] by (auto simp: rnd_def split: if_splits)

text \<open>A rounded number is kept by rounding.\<close>

lemma round_pos_scaled:
  assumes "last_place y \<le> e" and "y = of_int m * 2 powi e"
  shows "round_pos y = y"
proof -
  obtain k where k: "e - last_place y = int k" using assms(1) by (metis diff_ge_0_iff_ge nonneg_int_cases)
  have "y / 2 powi last_place y = of_int m * 2 powi (e - last_place y)"
    by (simp add: assms(2) power_int_diff)
  also have "\<dots> = of_int (m * 2 ^ k)" by (simp add: k)
  finally show ?thesis unfolding round_pos_def by (metis half_even_of_int nonzero_eq_divide_eq powi_nonzero)
qed

lemma last_place_le: "0 < y \<Longrightarrow> y \<le> 2 powi (53 + e) \<Longrightarrow> - 1074 \<le> e \<Longrightarrow> last_place y \<le> e + 1"
proof -
  assume "0 < y" "y \<le> 2 powi (53 + e)" and e: "- 1074 \<le> e"
  then have "(2::rat) powi floor_log2 y \<le> 2 powi (53 + e)"
    using floor_log2_bounds [of y] by linarith
  then show ?thesis using e by (simp add: last_place_def)
qed

lemma last_place_less: "0 < y \<Longrightarrow> y < 2 powi (53 + e) \<Longrightarrow> - 1074 \<le> e \<Longrightarrow> last_place y \<le> e"
proof -
  assume "0 < y" "y < 2 powi (53 + e)" and e: "- 1074 \<le> e"
  then have "(2::rat) powi floor_log2 y < 2 powi (53 + e)"
    using floor_log2_bounds [of y] by linarith
  then have "\<not> 53 + e \<le> floor_log2 y" by (simp only: powi_le_iff [symmetric] not_le)
  then show ?thesis using e by (simp add: last_place_def)
qed

lemma round_pos_idem:
  assumes "0 < x" and "0 < round_pos x"
  shows "round_pos (round_pos x) = round_pos x"
proof -
  define e m where "e = last_place x" and "m = half_even (x / 2 powi last_place x)"
  have y: "round_pos x = of_int m * 2 powi e" by (simp add: round_pos_def e_def m_def)
  have e: "- 1074 \<le> e" by (simp add: e_def last_place_def)
  have m: "m \<le> 2 ^ 53" using half_even_le_of_int [OF scaled_below [OF assms(1)]] by (simp add: m_def)
  show ?thesis
  proof (cases "m = 2 ^ 53")
    case True
    then have y2: "round_pos x = 2 powi (53 + e)" unfolding y by (simp add: power_int_add)
    then have "round_pos x = of_int (2 ^ 52) * 2 powi (e + 1)" by (simp add: power_int_add)
    then show ?thesis
      using last_place_le [OF assms(2) _ e] y2 by (intro round_pos_scaled [where e = "e + 1"]) simp_all
  next
    case False
    then have "(of_int m :: rat) < of_int (2 ^ 53)" using m by (simp only: of_int_less_iff)
    then have "round_pos x < of_int (2 ^ 53) * 2 powi e"
      unfolding y by (rule mult_strict_right_mono) simp
    then have "round_pos x < 2 powi (53 + e)" by (simp add: power_int_add)
    then show ?thesis
      using last_place_less [OF assms(2) _ e] y by (intro round_pos_scaled [where e = e]) simp_all
  qed
qed

lemma rnd_rnd:
  assumes "rnd x = Fin y"
  shows "rnd y = Fin y"
proof -
  consider "x = 0" | "0 < x" | "x < 0" by linarith
  then show ?thesis
  proof cases
    case 1
    then show ?thesis using assms by simp
  next
    case 2
    then have y: "y = round_pos x" and small: "round_pos x < 2 ^ 1024"
      using assms by (auto simp: rnd_def split: if_splits)
    then show ?thesis
      using round_pos_idem [OF 2] round_pos_nonneg [of x] 2 by (cases "y = 0") (auto simp: rnd_def)
  next
    case 3
    then have y: "y = - round_pos (- x)" and small: "round_pos (- x) < 2 ^ 1024"
      using assms by (auto simp: rnd_def split: if_splits)
    then show ?thesis
      using round_pos_idem [of "- x"] round_pos_nonneg [of "- x"] 3 by (cases "y = 0") (auto simp: rnd_def)
  qed
qed

text \<open>Comparing numbers that are not NaN is a total order.\<close>

lemma rnd_not_nan [simp]: "rnd x \<noteq> NaN"
  by (simp add: rnd_def)

lemma not_less_trans:
  "b \<noteq> NaN \<Longrightarrow> \<not> fl_less a b \<Longrightarrow> \<not> fl_less b c \<Longrightarrow> \<not> fl_less a c"
  by (cases a; cases b; cases c) auto

lemma less_not_less: "fl_less a b \<Longrightarrow> \<not> fl_less b a"
  by (cases a; cases b) auto

lemma fl_less_irrefl [simp]: "\<not> fl_less a a"
  by (cases a) auto

lemma rnd_unit_abs:
  assumes "\<bar>x\<bar> \<le> 1"
  shows "\<exists>v. rnd x = Fin v \<and> \<bar>v\<bar> \<le> 1"
proof (cases "0 \<le> x")
  case True
  then show ?thesis using rnd_unit [of x] assms by auto
next
  case False
  then obtain v where "rnd (- x) = Fin v" "0 \<le> v" "v \<le> 1" using rnd_unit [of "- x"] assms by auto
  then show ?thesis using False by (auto simp: rnd_def split: if_splits)
qed

lemma square_unit:
  assumes "\<bar>x\<bar> \<le> 1"
  shows "\<exists>v. fl_square (Fin x) = Fin v \<and> 0 \<le> v \<and> v \<le> 1"
proof (cases "x = 0")
  case False
  define k m where "k = floor_log2 \<bar>x\<bar> + 1" and "m = \<bar>x\<bar> / 2 powi k"
  have x: "2 powi (k - 1) \<le> \<bar>x\<bar>" "\<bar>x\<bar> < 2 powi k"
    using floor_log2_bounds [of "\<bar>x\<bar>"] False by (simp_all add: k_def)
  have m: "0 < m" "m < 1" using False x by (simp_all add: m_def)
  have small: "round_pos (m * m) \<le> 1"
    using round_pos_mono [of "m * m" 1] round_pos_nat [of 1] m by (simp add: mult_le_one)
  have bound: "round_pos (m * m) * 2 powi (2 * k) \<le> 1"
  proof (cases "\<bar>x\<bar> = 1")
    case True
    have "(2::rat) powi (k - 1) \<le> 2 powi 0" "(2::rat) powi 0 < 2 powi k" using x True by simp_all
    then have "k - 1 \<le> 0" "\<not> k \<le> 0" by (simp_all only: powi_le_iff not_le [symmetric] simp_thms)
    then have k: "k = 1" by simp
    then have "m * m = of_int 1 * 2 powi (- 2)" by (simp add: m_def True power_int_minus)
    moreover have "last_place (1 / 4) \<le> - 2"
      using last_place_less [of "1 / 4" "- 54"] by (simp add: power_int_minus)
    ultimately have "round_pos (m * m) = 1 / 4"
      using round_pos_scaled [of "m * m" "- 2" 1] by (simp add: power_int_minus)
    then show ?thesis by (simp add: k)
  next
    case False
    then have "(2::rat) powi (k - 1) < 2 powi 0" using x assms by simp
    then have "\<not> 0 \<le> k - 1" by (simp only: powi_le_iff [symmetric] not_le)
    then have "(2::rat) powi (2 * k) \<le> 2 powi 0" by (simp only: powi_le_iff)
    then show ?thesis
      using small round_pos_nonneg [of "m * m"] m by (intro mult_le_one) simp_all
  qed
  have "0 \<le> round_pos (m * m) * 2 powi (2 * k)" using round_pos_nonneg [of "m * m"] m by simp
  from rnd_unit [OF this bound] show ?thesis using False by (simp add: Let_def k_def m_def)
qed simp

text \<open>The dynamic value of a double holds that double.\<close>

lemma dvd_power_two: "0 < (d::int) \<Longrightarrow> d dvd 2 ^ j \<Longrightarrow> \<exists>i. d = 2 ^ i"
proof (induction j arbitrary: d)
  case 0
  then have "d = 2 ^ 0" by simp
  then show ?case by blast
next
  case (Suc j)
  show ?case
  proof (cases "even d")
    case True
    then obtain c where c: "d = 2 * c" by blast
    then have "0 < c" "c dvd 2 ^ j" using Suc.prems by simp_all
    then obtain i where "c = 2 ^ i" using Suc.IH by blast
    then have "d = 2 ^ Suc i" by (simp add: c)
    then show ?thesis by blast
  next
    case False
    then have "coprime d 2" by simp
    then have "d dvd 2 ^ j" using Suc.prems by (simp add: coprime_dvd_mult_right_iff)
    then show ?thesis using Suc.IH Suc.prems by blast
  qed
qed

lemma bit_length_power: "bit_length (2 ^ i) = Suc i"
proof -
  define b where "b = bit_length (2 ^ i)"
  have "(0::int) < 2 ^ i" by simp
  note b = bit_length_bounds [OF this, folded b_def]
  have "b - 1 \<le> i" using b by (metis one_less_numeral_iff power_le_imp_le_exp semiring_norm(76))
  moreover have "i < b" using b by (metis one_less_numeral_iff power_less_imp_less_exp semiring_norm(76))
  ultimately show ?thesis by (simp add: b_def [symmetric])
qed

lemma power_quotient:
  assumes "x = of_int m / of_int (2 ^ j)" and "quotient_of x = (n, d)"
  shows "\<exists>i. d = 2 ^ i"
proof -
  have d: "0 < d" "coprime n d" and x: "x = of_int n / of_int d"
    using assms(2) quotient_of_denom_pos quotient_of_coprime quotient_of_div by auto
  have "of_int n * of_int (2 ^ j) = (of_int m * of_int d :: rat)"
    using assms(1) x d by (simp add: field_simps)
  then have "(of_int (n * 2 ^ j) :: rat) = of_int (m * d)" by simp
  then have "n * 2 ^ j = m * d" by (simp only: of_int_eq_iff)
  then have "d dvd n * 2 ^ j" by simp
  then have "d dvd 2 ^ j" using d(2) by (simp add: coprime_commute coprime_dvd_mult_right_iff)
  then show ?thesis using dvd_power_two d(1) by blast
qed

lemma scaled_quotient: "\<exists>m' j. of_int m * 2 powi e = (of_int m' / of_int (2 ^ j) :: rat)"
proof (cases e rule: int_cases2)
  case (nonneg k)
  then have "of_int m * 2 powi e = (of_int (m * 2 ^ k) / of_int (2 ^ 0) :: rat)" by simp
  then show ?thesis by blast
next
  case (nonpos k)
  then have "of_int m * 2 powi e = (of_int m / of_int (2 ^ k) :: rat)"
    by (simp add: power_int_minus divide_inverse)
  then show ?thesis by blast
qed

lemma val_of_double:
  assumes "rnd x = Fin x"
  shows "\<exists>n e. val_of_float (Fin x) = VFloat n e \<and> rat_of_parts n e = x"
proof -
  have "\<exists>m e. x = of_int m * 2 powi e"
  proof -
    consider "x = 0" | "0 < x" | "x < 0" by linarith
    then show ?thesis
    proof cases
      case 1
      then have "x = of_int 0 * 2 powi 0" by simp
      then show ?thesis by blast
    next
      case 2
      then have "x = round_pos x" using assms by (auto simp: rnd_def split: if_splits)
      then show ?thesis unfolding round_pos_def by metis
    next
      case 3
      then have "x = - round_pos (- x)" using assms by (auto simp: rnd_def split: if_splits)
      then have "x = of_int (- half_even (- x / 2 powi last_place (- x))) * 2 powi last_place (- x)"
        by (simp add: round_pos_def)
      then show ?thesis by blast
    qed
  qed
  then obtain m j where m: "x = of_int m / of_int (2 ^ j)" using scaled_quotient by metis
  obtain n d where q: "quotient_of x = (n, d)" by force
  obtain i where i: "d = 2 ^ i" using power_quotient [OF m q] by blast
  have "x = of_int n / of_int d" using q quotient_of_div by auto
  then have "rat_of_parts n (- int i) = x"
    by (simp add: rat_of_parts_def i power_int_minus divide_inverse)
  moreover have "val_of_float (Fin x) = VFloat n (- int i)"
    by (simp add: q i bit_length_power)
  ultimately show ?thesis by blast
qed

end
