(* ===== verification/Memory_Predict.thy ===== *)
theory Memory_Predict
  imports Go_Float Go_Strings "HOL-Library.Multiset"
begin

section \<open>Predicting from earlier experiences\<close>

text \<open>
  \<open>dokja_domain/dokja_memory/predict.go\<close>: the estimate from the closest earlier experiences, the
  scorecard, and the reading of the memory service's answers, with the arithmetic of \<open>Go_Float\<close>.
\<close>

subsection \<open>Reading payloads\<close>

text \<open>\<open>text\<close> and \<open>number\<close> of \<open>domain.go\<close>.\<close>

definition text_of :: "gmap \<Rightarrow> string \<Rightarrow> string" where
  "text_of payload key = trim_space (str_of (payload key))"

definition number_of :: "gmap \<Rightarrow> string \<Rightarrow> f64 option" where
  "number_of payload key =
     (case payload key of
        Some (VFloat m e) \<Rightarrow> Some (rnd (rat_of_parts m e))
      | Some (VInt i) \<Rightarrow> Some (fl_of_int i)
      | _ \<Rightarrow> None)"

fun int_of_f64 :: "f64 \<Rightarrow> int" where
  "int_of_f64 (Fin x) = int_of_rat x"
| "int_of_f64 _ = - (2 ^ 63)"

text \<open>The comma-ok assertions to \<open>[]any\<close> and \<open>map[string]any\<close>.\<close>

fun list_in :: "gval option \<Rightarrow> gval list" where
  "list_in (Some (VList xs)) = xs"
| "list_in _ = []"

fun map_in :: "gval option \<Rightarrow> gmap" where
  "map_in (Some (VMap xs)) = map_of xs"
| "map_in _ = Map.empty"

subsection \<open>Outcomes\<close>

definition OutcomeAccepted :: string where "OutcomeAccepted = ''accepted''"
definition OutcomeReplaced :: string where "OutcomeReplaced = ''replaced''"
definition OutcomeIgnored :: string where "OutcomeIgnored = ''ignored''"
definition OutcomeExpired :: string where "OutcomeExpired = ''expired''"

definition Outcomes :: "string list" where
  "Outcomes = [OutcomeAccepted, OutcomeReplaced, OutcomeIgnored, OutcomeExpired]"

definition valid_outcome :: "string \<Rightarrow> bool" where
  "valid_outcome outcome = contains_str Outcomes outcome"

definition verdict :: "string \<Rightarrow> f64 option" where
  "verdict outcome =
     (if outcome = OutcomeAccepted then Some (Fin 1)
      else if outcome = OutcomeReplaced \<or> outcome = OutcomeIgnored then Some (Fin 0)
      else None)"

subsection \<open>Prediction\<close>

record memory_config =
  mc_min_similarity :: f64
  mc_min_support :: int
  mc_min_resolved :: int
  mc_prior_weight :: f64
  mc_min_scored :: int

definition default_config :: memory_config where
  "default_config =
     \<lparr>mc_min_similarity = rnd (6 / 10), mc_min_support = 3, mc_min_resolved = 10,
      mc_prior_weight = Fin 2, mc_min_scored = 30\<rparr>"

record neighbor =
  nb_ref :: string
  nb_action :: string
  nb_detail :: string
  nb_outcome :: string
  nb_similarity :: f64
  nb_snippet :: string

record prediction =
  pr_p :: f64
  pr_baseline :: f64
  pr_support :: int
  pr_resolved :: int
  pr_insufficient :: bool
  pr_reason :: string
  pr_evidence :: "neighbor list"

definition max_evidence :: nat where
  "max_evidence = 5"

text \<open>What the loop keeps of a neighbour: the verdict, when the neighbour counts at all.\<close>

definition counted :: "string \<Rightarrow> memory_config \<Rightarrow> neighbor \<Rightarrow> f64 option" where
  "counted action config n =
     (case verdict (nb_outcome n) of
        None \<Rightarrow> None
      | Some v \<Rightarrow>
          if nb_action n \<noteq> action \<or> fl_less (nb_similarity n) (mc_min_similarity config) then None
          else Some v)"

fun weigh :: "string \<Rightarrow> memory_config \<Rightarrow> neighbor list \<Rightarrow> f64 \<times> f64 \<times> neighbor list \<Rightarrow> f64 \<times> f64 \<times> neighbor list" where
  "weigh action config [] acc = acc"
| "weigh action config (n # ns) (weighted, weights, similar) =
     (case counted action config n of
        None \<Rightarrow> weigh action config ns (weighted, weights, similar)
      | Some v \<Rightarrow>
          weigh action config ns
            (fl_add weighted (fl_mul (nb_similarity n) v), fl_add weights (nb_similarity n), similar @ [n]))"

text \<open>The stable sort, closest first.\<close>

fun insert_closest :: "neighbor \<Rightarrow> neighbor list \<Rightarrow> neighbor list" where
  "insert_closest n [] = [n]"
| "insert_closest n (m # ms) =
     (if fl_less (nb_similarity m) (nb_similarity n) then n # m # ms else m # insert_closest n ms)"

definition closest_first :: "neighbor list \<Rightarrow> neighbor list" where
  "closest_first ns = fold insert_closest ns []"

definition resolved_count :: "(string \<Rightarrow> int) \<Rightarrow> int" where
  "resolved_count outcomes =
     wrap_int (wrap_int (outcomes OutcomeAccepted + outcomes OutcomeReplaced) + outcomes OutcomeIgnored)"

definition baseline_of :: "(string \<Rightarrow> int) \<Rightarrow> f64" where
  "baseline_of outcomes =
     fl_div (fl_add (fl_of_int (outcomes OutcomeAccepted)) (Fin 1))
            (fl_add (fl_of_int (resolved_count outcomes)) (Fin 2))"

definition predict :: "string \<Rightarrow> neighbor list \<Rightarrow> (string \<Rightarrow> int) \<Rightarrow> memory_config \<Rightarrow> prediction" where
  "predict action neighbors outcomes config =
     (let resolved = resolved_count outcomes;
          baseline = baseline_of outcomes;
          (weighted, weights, similar) = weigh action config neighbors (Fin 0, Fin 0, []);
          support = int (length similar);
          p = \<lparr>pr_p = baseline, pr_baseline = baseline, pr_support = support, pr_resolved = resolved,
               pr_insufficient = False, pr_reason = [], pr_evidence = take max_evidence (closest_first similar)\<rparr>
      in if resolved < mc_min_resolved config
         then p\<lparr>pr_insufficient := True, pr_reason := ''too few resolved experiences of this action''\<rparr>
         else if support < mc_min_support config
         then p\<lparr>pr_insufficient := True, pr_reason := ''too few similar experiences''\<rparr>
         else p\<lparr>pr_p := fl_div (fl_add weighted (fl_mul (mc_prior_weight config) baseline))
                              (fl_add weights (mc_prior_weight config))\<rparr>)"

subsection \<open>Scoring\<close>

record resolved_experience =
  re_ref :: string
  re_action :: string
  re_outcome :: string
  re_predicted :: "f64 option"
  re_baseline :: "f64 option"

record scorecard =
  sc_scored :: int
  sc_unscored :: int
  sc_brier_prediction :: f64
  sc_brier_baseline :: f64
  sc_skill :: f64
  sc_beats_baseline :: bool
  sc_enough_data :: bool

text \<open>The state of the loop: how many were scored and not, and the two acc of squared errors.\<close>

fun tally :: "resolved_experience list \<Rightarrow> int \<times> int \<times> f64 \<times> f64 \<Rightarrow> int \<times> int \<times> f64 \<times> f64" where
  "tally [] acc = acc"
| "tally (row # rows) (scored, unscored, pe, be) =
     (case (verdict (re_outcome row), re_predicted row, re_baseline row) of
        (Some v, Some p, Some b) \<Rightarrow>
          tally rows (scored + 1, unscored, fl_add pe (fl_square (fl_sub p v)), fl_add be (fl_square (fl_sub b v)))
      | _ \<Rightarrow> tally rows (scored, unscored + 1, pe, be))"

definition score :: "resolved_experience list \<Rightarrow> int \<Rightarrow> scorecard" where
  "score rows min_scored =
     (case tally rows (0, 0, Fin 0, Fin 0) of (scored, unscored, pe, be) \<Rightarrow>
        if scored = 0
        then \<lparr>sc_scored = 0, sc_unscored = unscored, sc_brier_prediction = Fin 0, sc_brier_baseline = Fin 0,
              sc_skill = Fin 0, sc_beats_baseline = False, sc_enough_data = False\<rparr>
        else let bp = fl_div pe (fl_of_int scored); bb = fl_div be (fl_of_int scored);
                 skill = (if fl_less (Fin 0) bb then fl_sub (Fin 1) (fl_div bp bb) else Fin 0)
             in \<lparr>sc_scored = scored, sc_unscored = unscored, sc_brier_prediction = bp, sc_brier_baseline = bb,
                 sc_skill = skill, sc_beats_baseline = fl_less (Fin 0) skill,
                 sc_enough_data = scored \<ge> min_scored\<rparr>)"

subsection \<open>Reading the service's answers\<close>

definition neighbor_from :: "gval \<Rightarrow> neighbor" where
  "neighbor_from item =
     (let entry = map_in (Some item)
      in \<lparr>nb_ref = text_of entry ''ref'', nb_action = text_of entry ''action'',
          nb_detail = text_of entry ''detail'', nb_outcome = text_of entry ''outcome'',
          nb_similarity = (case number_of entry ''similarity'' of Some x \<Rightarrow> x | None \<Rightarrow> Fin 0),
          nb_snippet = text_of entry ''context_snippet''\<rparr>)"

definition neighbors_from :: "gmap \<Rightarrow> neighbor list" where
  "neighbors_from answer = map neighbor_from (list_in (answer ''neighbors''))"

definition outcome_counts :: "gmap \<Rightarrow> string \<Rightarrow> int" where
  "outcome_counts answer outcome =
     (case number_of (map_in (answer ''outcomes'')) outcome of
        Some x \<Rightarrow> if fl_less (Fin 0) x then int_of_f64 x else 0
      | None \<Rightarrow> 0)"

definition resolved_row :: "gval \<Rightarrow> resolved_experience" where
  "resolved_row item =
     (let entry = map_in (Some item)
      in \<lparr>re_ref = text_of entry ''ref'', re_action = text_of entry ''action'',
          re_outcome = text_of entry ''outcome'',
          re_predicted = number_of entry ''predicted_p'', re_baseline = number_of entry ''baseline_p''\<rparr>)"

definition resolved_from :: "gmap \<Rightarrow> resolved_experience list" where
  "resolved_from answer = map resolved_row (list_in (answer ''experiences''))"

subsection \<open>The estimate\<close>

lemma number_kept: "number_of m k = Some (Fin x) \<Longrightarrow> rnd x = Fin x"
  by (auto simp: number_of_def fl_of_int_def rnd_rnd split: option.splits gval.splits)

lemma number_not_nan: "number_of m k \<noteq> Some NaN"
  by (auto simp: number_of_def fl_of_int_def split: option.splits gval.splits)

lemma similarity_kept: "nb_similarity (neighbor_from item) = Fin x \<Longrightarrow> rnd x = Fin x"
  by (auto simp: neighbor_from_def Let_def number_kept split: option.splits)

lemma similarity_not_nan: "nb_similarity (neighbor_from item) \<noteq> NaN"
  using number_not_nan by (auto simp: neighbor_from_def Let_def split: option.splits)

definition relevant :: "string \<Rightarrow> memory_config \<Rightarrow> neighbor list \<Rightarrow> neighbor list" where
  "relevant action config = filter (\<lambda>n. counted action config n \<noteq> None)"

lemma weigh_similar:
  "snd (snd (weigh action config ns acc)) = snd (snd acc) @ relevant action config ns"
  by (induction action config ns acc rule: weigh.induct)
    (auto simp: relevant_def split: option.split)

lemma verdict_cases: "verdict out = Some v \<Longrightarrow> v = Fin 0 \<or> v = Fin 1"
  by (auto simp: verdict_def split: if_splits)

lemma default_threshold: "\<exists>c. mc_min_similarity default_config = Fin c \<and> 0 \<le> c"
  using rnd_unit [of "6 / 10"] by (auto simp: default_config_def)

lemma default_prior: "mc_prior_weight default_config = Fin 2"
  by (simp add: default_config_def)

text \<open>A similarity as a cosine: a double that is at most 1.\<close>

definition cosine :: "f64 \<Rightarrow> bool" where
  "cosine s \<longleftrightarrow> (\<exists>x. s = Fin x \<and> rnd x = Fin x \<and> x \<le> 1)"

lemma counted_cosine:
  assumes "counted action default_config n = Some v" and "cosine (nb_similarity n)"
  shows "\<exists>x. nb_similarity n = Fin x \<and> rnd x = Fin x \<and> 0 \<le> x \<and> x \<le> 1 \<and> (v = Fin 0 \<or> v = Fin 1)"
  using assms default_threshold
  by (auto simp: counted_def cosine_def dest: verdict_cases split: option.splits if_splits)

lemma weigh_bounds:
  assumes "\<forall>n \<in> set ns. cosine (nb_similarity n)" and "0 \<le> a" and "a \<le> b" and "b \<le> of_nat k"
    and "k + length ns < 2 ^ 53"
  shows "\<exists>a' b' similar. weigh action default_config ns (Fin a, Fin b, seen) = (Fin a', Fin b', similar) \<and>
           0 \<le> a' \<and> a' \<le> b' \<and> b' \<le> of_nat (k + length ns)"
  using assms
proof (induction ns arbitrary: a b k seen)
  case Nil
  then show ?case by auto
next
  case (Cons n ns)
  show ?case
  proof (cases "counted action default_config n")
    case None
    have "b \<le> of_nat (Suc k)" using Cons.prems by simp
    then show ?thesis using Cons.IH [of a b "Suc k" seen] Cons.prems None by simp
  next
    case (Some v)
    obtain x where x: "nb_similarity n = Fin x" "rnd x = Fin x" "0 \<le> x" "x \<le> 1" "v = Fin 0 \<or> v = Fin 1"
      using counted_cosine [OF Some] Cons.prems(1) by auto
    define y where "y = (if v = Fin 0 then 0 else x)"
    have mul: "fl_mul (Fin x) v = Fin y" using x by (auto simp: y_def)
    have y: "0 \<le> y" "y \<le> x" using x by (simp_all add: y_def)
    have le: "b + x \<le> of_nat (Suc k)" using Cons.prems x by simp
    obtain a' b' where r: "rnd (a + y) = Fin a'" "rnd (b + x) = Fin b'" "0 \<le> a'" "a' \<le> b'" "b' \<le> of_nat (Suc k)"
      using rnd_mono_between [of "a + y" "b + x" "Suc k"] Cons.prems y x le by auto
    show ?thesis
      using Cons.IH [OF _ r(3-5), of "seen @ [n]"] Cons.prems by (simp add: Some x mul r)
  qed
qed

lemma ratio_unit:
  assumes "0 \<le> x" and "x \<le> y" and "0 < y"
  shows "\<exists>v. fl_div (Fin x) (Fin y) = Fin v \<and> 0 \<le> v \<and> v \<le> 1"
  using rnd_unit [of "x / y"] assms by simp

lemma baseline_unit:
  assumes "0 \<le> a" and "0 \<le> r" and "0 \<le> i" and "a + r + i < 2 ^ 52"
    and "outcomes OutcomeAccepted = a" and "outcomes OutcomeReplaced = r" and "outcomes OutcomeIgnored = i"
  shows "\<exists>v. baseline_of outcomes = Fin v \<and> 0 \<le> v \<and> v \<le> 1"
proof -
  have c: "resolved_count outcomes = a + r + i"
    using assms by (simp add: resolved_count_def wrap_int_id)
  have n: "fl_of_int j = Fin (of_int j)" if "0 \<le> j" "j < 2 ^ 53" for j
    using rnd_nat [of "nat j"] that by (simp add: fl_of_int_def nat_less_iff)
  have "fl_add (fl_of_int a) (Fin 1) = Fin (of_int (a + 1))"
    using n [of a] n [of "a + 1"] assms by (simp add: fl_of_int_def)
  moreover have "fl_add (fl_of_int (a + r + i)) (Fin 2) = Fin (of_int (a + r + i + 2))"
    using n [of "a + r + i"] n [of "a + r + i + 2"] assms by (simp add: fl_of_int_def)
  moreover have "(0::rat) \<le> of_int (a + 1)" "(of_int (a + 1) :: rat) \<le> of_int (a + r + i + 2)"
    "(0::rat) < of_int (a + r + i + 2)"
    using assms by (simp_all only: of_int_le_iff of_int_less_iff of_int_0_le_iff of_int_0_less_iff)
  ultimately show ?thesis
    unfolding baseline_of_def c assms(5) using ratio_unit by metis
qed

lemma pulled_unit:
  assumes "0 \<le> a" and "a \<le> b" and "b \<le> of_nat n" and "n < 2 ^ 52" and "0 \<le> \<beta>" and "\<beta> \<le> 1"
  shows "\<exists>v. fl_div (fl_add (Fin a) (fl_mul (Fin 2) (Fin \<beta>))) (fl_add (Fin b) (Fin 2)) = Fin v \<and> 0 \<le> v \<and> v \<le> 1"
proof -
  obtain g where g: "rnd (2 * \<beta>) = Fin g" "0 \<le> g" "g \<le> 2"
    using rnd_between [of "2 * \<beta>" 2] assms by auto
  obtain v w where vw: "rnd (a + g) = Fin v" "rnd (b + 2) = Fin w" "0 \<le> v" "v \<le> w"
    using rnd_mono_between [of "a + g" "b + 2" "n + 2"] assms g by auto
  then have "1 \<le> w" using rnd_pos [of "b + 2" w] assms by simp
  then show ?thesis using ratio_unit [of v w] vw g by simp
qed

text \<open>
  Too little to go by, with the default thresholds: fewer than 10 outcomes of the action that say how it went, or fewer
  than 3 neighbours of the action with such an outcome that are not less similar than 0.6.
\<close>

definition too_little_evidence :: "string \<Rightarrow> neighbor list \<Rightarrow> (string \<Rightarrow> int) \<Rightarrow> bool" where
  "too_little_evidence action ns outcomes \<longleftrightarrow>
     outcomes ''accepted'' + outcomes ''replaced'' + outcomes ''ignored'' < 10 \<or>
     length (filter (\<lambda>n. nb_action n = action \<and> nb_outcome n \<in> {''accepted'', ''replaced'', ''ignored''}
        \<and> \<not> fl_less (nb_similarity n) (rnd (6 / 10))) ns) < 3"

lemma relevant_named:
  "relevant action default_config ns = filter (\<lambda>n. nb_action n = action \<and> nb_outcome n \<in> {''accepted'', ''replaced'', ''ignored''}
     \<and> \<not> fl_less (nb_similarity n) (rnd (6 / 10))) ns"
  unfolding relevant_def
  by (rule filter_cong)
    (auto simp: counted_def verdict_def default_config_def OutcomeAccepted_def OutcomeReplaced_def OutcomeIgnored_def)

text \<open>
  C28.  The estimate is a probability.  With the default thresholds, an answer whose similarities are
  cosines, whose counts are not negative and whose sizes stay below \<open>2 ^ 52\<close> gives an estimate and a
  baseline that are finite doubles between 0 and 1, rounding included.  With fewer than 10 outcomes of the action that
  say how it went, or fewer than 3 such neighbours that are similar enough, and only then, the prediction says that there
  is too little evidence, and its estimate is the baseline itself.
\<close>

theorem prediction_is_probability:
  assumes "\<forall>n \<in> set (neighbors_from answer). (\<exists>x. nb_similarity n = Fin x \<and> x \<le> 1)"
    and "length (neighbors_from answer) < 2 ^ 52"
    and "0 \<le> outcome_counts answer OutcomeAccepted" and "0 \<le> outcome_counts answer OutcomeReplaced"
    and "0 \<le> outcome_counts answer OutcomeIgnored"
    and "outcome_counts answer OutcomeAccepted + outcome_counts answer OutcomeReplaced
           + outcome_counts answer OutcomeIgnored < 2 ^ 52"
  shows "\<exists>p b. pr_p (predict action (neighbors_from answer) (outcome_counts answer) default_config) = Fin p \<and>
     pr_baseline (predict action (neighbors_from answer) (outcome_counts answer) default_config) = Fin b \<and>
     0 \<le> p \<and> p \<le> 1 \<and> 0 \<le> b \<and> b \<le> 1 \<and>
     pr_insufficient (predict action (neighbors_from answer) (outcome_counts answer) default_config)
       = too_little_evidence action (neighbors_from answer) (outcome_counts answer) \<and>
     (if too_little_evidence action (neighbors_from answer) (outcome_counts answer) then p = b else True)"
proof -
  let ?ns = "neighbors_from answer"
  have "cosine (nb_similarity n)" if n: "n \<in> set ?ns" for n
  proof -
    obtain item where "n = neighbor_from item" using n by (auto simp: neighbors_from_def)
    then show ?thesis
      using assms(1) n similarity_kept [of item] by (auto simp: cosine_def)
  qed
  then obtain a b similar where w: "weigh action default_config ?ns (Fin 0, Fin 0, []) = (Fin a, Fin b, similar)"
    "0 \<le> a" "a \<le> b" "b \<le> of_nat (length ?ns)"
    using weigh_bounds [of ?ns 0 0 0 action "[]"] assms(2) by auto
  obtain \<beta> where \<beta>: "baseline_of (outcome_counts answer) = Fin \<beta>" "0 \<le> \<beta>" "\<beta> \<le> 1"
    using baseline_unit [OF assms(3-6) refl refl refl] by blast
  have "similar = relevant action default_config ?ns"
    using weigh_similar [of action default_config ?ns "(Fin 0, Fin 0, [])"] by (simp add: w(1))
  moreover have "resolved_count (outcome_counts answer) = outcome_counts answer OutcomeAccepted
      + outcome_counts answer OutcomeReplaced + outcome_counts answer OutcomeIgnored"
    using assms(3-6) by (simp add: resolved_count_def wrap_int_def take_bit_eq_mod)
  ultimately have few: "too_little_evidence action ?ns (outcome_counts answer)
      \<longleftrightarrow> resolved_count (outcome_counts answer) < 10 \<or> length similar < 3"
    by (simp add: too_little_evidence_def relevant_named OutcomeAccepted_def OutcomeReplaced_def OutcomeIgnored_def)
  have least: "mc_min_resolved default_config = 10" "mc_min_support default_config = 3"
    by (simp_all add: default_config_def)
  show ?thesis
    using pulled_unit [OF w(2-4) assms(2) \<beta>(2,3)] \<beta>
    unfolding few by (auto simp: predict_def w(1) Let_def default_prior least)
qed

subsection \<open>The evidence\<close>

definition by_closeness :: "neighbor list \<Rightarrow> bool" where
  "by_closeness ns \<longleftrightarrow> sorted_wrt (\<lambda>m n. \<not> fl_less (nb_similarity m) (nb_similarity n)) ns"

lemma insert_closest_set [simp]: "set (insert_closest n ms) = insert n (set ms)"
  by (induction ms) auto

lemma insert_closest_mset: "mset (insert_closest n ms) = add_mset n (mset ms)"
  by (induction ms) auto

lemma insert_closest_sorted:
  assumes "by_closeness ms" and "\<forall>m \<in> insert n (set ms). nb_similarity m \<noteq> NaN"
  shows "by_closeness (insert_closest n ms)"
  using assms
proof (induction ms)
  case (Cons m ms)
  show ?case
  proof (cases "fl_less (nb_similarity m) (nb_similarity n)")
    case True
    have "\<not> fl_less (nb_similarity n) (nb_similarity k)" if "k \<in> set ms" for k
      using that Cons.prems not_less_trans [of "nb_similarity m" "nb_similarity n" "nb_similarity k"]
        less_not_less [OF True] by (auto simp: by_closeness_def)
    then show ?thesis using Cons.prems True less_not_less by (auto simp: by_closeness_def)
  next
    case False
    then show ?thesis using Cons by (auto simp: by_closeness_def)
  qed
qed (simp add: by_closeness_def)

lemma filter_move: "(P x \<Longrightarrow> filter P xs = []) \<Longrightarrow> filter P (x # xs) = filter P (xs @ [x])"
  by simp

lemma insert_closest_stable:
  assumes "by_closeness ms"
  shows "filter (\<lambda>m. nb_similarity m = s) (insert_closest n ms) = filter (\<lambda>m. nb_similarity m = s) (ms @ [n])"
  using assms
proof (induction ms)
  case (Cons m ms)
  show ?case
  proof (cases "fl_less (nb_similarity m) (nb_similarity n)")
    case True
    have "\<forall>k \<in> set (m # ms). nb_similarity k \<noteq> nb_similarity n"
      using Cons.prems True by (auto simp: by_closeness_def)
    then have "filter (\<lambda>m. nb_similarity m = s) (m # ms) = []" if "nb_similarity n = s"
      unfolding filter_empty_conv that [symmetric] by blast
    from filter_move [of "\<lambda>m. nb_similarity m = s" n "m # ms", OF this]
    show ?thesis using True by (simp only: insert_closest.simps if_True append_Cons)
  next
    case False
    then show ?thesis using Cons by (simp add: by_closeness_def)
  qed
qed simp

lemma closest_first_sort:
  assumes "\<forall>n \<in> set ns. nb_similarity n \<noteq> NaN"
  shows "mset (closest_first ns) = mset ns \<and> by_closeness (closest_first ns) \<and>
    (\<forall>s. filter (\<lambda>m. nb_similarity m = s) (closest_first ns) = filter (\<lambda>m. nb_similarity m = s) ns)"
  using assms
proof (induction ns rule: rev_induct)
  case (snoc n ns)
  let ?s = "closest_first ns"
  have ih: "mset ?s = mset ns" "by_closeness ?s"
    "\<And>s. filter (\<lambda>m. nb_similarity m = s) ?s = filter (\<lambda>m. nb_similarity m = s) ns"
    using snoc by simp_all
  have step: "closest_first (ns @ [n]) = insert_closest n ?s" by (simp add: closest_first_def)
  have "set ?s = set ns" using ih(1) by (rule mset_eq_setD)
  then have "by_closeness (insert_closest n ?s)"
    using insert_closest_sorted [OF ih(2), of n] snoc.prems by simp
  then show ?case
    by (simp add: step insert_closest_mset ih(1,3) insert_closest_stable [OF ih(2)])
qed (simp add: closest_first_def by_closeness_def)

text \<open>
  What a prediction rests on.  Its support is the number of earlier experiences of the same action
  with a verdict that are close enough; its evidence is the first five of these, the closest first
  and those equally close in the order the service gave them, so no experience it leaves out is
  closer than one it quotes.
\<close>

theorem evidence_is_closest:
  fixes action answer config
  defines "r \<equiv> relevant action config (neighbors_from answer)"
  defines "p \<equiv> predict action (neighbors_from answer) (outcome_counts answer) config"
  shows "pr_support p = int (length r) \<and>
    (\<exists>rest. mset (pr_evidence p @ rest) = mset r \<and>
       length (pr_evidence p) = min 5 (length r) \<and>
       by_closeness (pr_evidence p @ rest) \<and>
       (\<forall>s. filter (\<lambda>m. nb_similarity m = s) (pr_evidence p @ rest) = filter (\<lambda>m. nb_similarity m = s) r))"
proof -
  obtain a b where w: "weigh action config (neighbors_from answer) (Fin 0, Fin 0, []) = (a, b, r)"
    using weigh_similar [of action config "neighbors_from answer" "(Fin 0, Fin 0, [])"]
    by (cases "weigh action config (neighbors_from answer) (Fin 0, Fin 0, [])") (auto simp: r_def)
  have "\<forall>n \<in> set r. nb_similarity n \<noteq> NaN"
    using similarity_not_nan by (auto simp: r_def relevant_def neighbors_from_def)
  note sorted = closest_first_sort [OF this]
  have p: "pr_support p = int (length r)" "pr_evidence p = take 5 (closest_first r)"
    by (simp_all add: p_def predict_def w Let_def max_evidence_def)
  have "length (closest_first r) = length r" using sorted by (metis size_mset)
  then show ?thesis
    using sorted by (intro conjI exI [of _ "drop 5 (closest_first r)"]) (simp_all add: p)
qed

subsection \<open>The scorecard\<close>

text \<open>The experiences that can be scored: with a verdict and both chances.\<close>

definition scorable :: "resolved_experience \<Rightarrow> bool" where
  "scorable row \<longleftrightarrow> verdict (re_outcome row) \<noteq> None \<and> re_predicted row \<noteq> None \<and> re_baseline row \<noteq> None"

text \<open>A stored chance that is a probability, as recording demands.\<close>

definition chance :: "f64 option \<Rightarrow> bool" where
  "chance c \<longleftrightarrow> (case c of None \<Rightarrow> True | Some x \<Rightarrow> \<exists>v. x = Fin v \<and> 0 \<le> v \<and> v \<le> 1)"

lemma error_unit:
  assumes "chance (Some x)" and "verdict out = Some v"
  shows "\<exists>u. fl_square (fl_sub x v) = Fin u \<and> 0 \<le> u \<and> u \<le> 1"
proof -
  obtain y where y: "x = Fin y" "0 \<le> y" "y \<le> 1" using assms(1) by (auto simp: chance_def)
  obtain z where z: "v = Fin z" "0 \<le> z" "z \<le> 1" using verdict_cases [OF assms(2)] by auto
  obtain d where "rnd (y - z) = Fin d" "\<bar>d\<bar> \<le> 1" using rnd_unit_abs [of "y - z"] y z by (auto simp: abs_le_iff)
  then show ?thesis using square_unit [of d] by (simp add: y z fl_sub_def)
qed

lemma sum_step:
  assumes "0 \<le> a" and "a \<le> of_nat k" and "0 \<le> u" and "u \<le> 1" and "Suc k < 2 ^ 53"
  shows "\<exists>v. rnd (a + u) = Fin v \<and> 0 \<le> v \<and> v \<le> of_nat (Suc k)"
  using rnd_between [of "a + u" "Suc k"] assms by simp

lemma tally_counts:
  "fst (tally rows (n, m, pe, be)) = n + int (length (filter scorable rows)) \<and>
   fst (snd (tally rows (n, m, pe, be))) = m + int (length (filter (Not \<circ> scorable) rows))"
proof (induction rows arbitrary: n m pe be)
  case (Cons row rows)
  then show ?case by (auto simp: scorable_def split: option.split)
qed simp

lemma tally_bounds:
  assumes "\<forall>row \<in> set rows. chance (re_predicted row) \<and> chance (re_baseline row)"
    and "0 \<le> a" and "a \<le> of_nat k" and "0 \<le> b" and "b \<le> of_nat k" and "k + length rows < 2 ^ 53"
  shows "\<exists>a' b'. snd (snd (tally rows (n, m, Fin a, Fin b))) = (Fin a', Fin b') \<and> 0 \<le> a' \<and> 0 \<le> b' \<and>
           a' \<le> of_nat (k + length (filter scorable rows)) \<and> b' \<le> of_nat (k + length (filter scorable rows))"
  using assms
proof (induction rows arbitrary: a b k n m)
  case (Cons row rows)
  show ?case
  proof (cases "scorable row")
    case True
    then obtain v p c where r: "verdict (re_outcome row) = Some v" "re_predicted row = Some p" "re_baseline row = Some c"
      by (auto simp: scorable_def)
    obtain u w where u: "fl_square (fl_sub p v) = Fin u" "0 \<le> u" "u \<le> 1"
      and w: "fl_square (fl_sub c v) = Fin w" "0 \<le> w" "w \<le> 1"
      using error_unit [OF _ r(1)] Cons.prems(1) r by (metis list.set_intros(1))
    have k: "Suc k < 2 ^ 53" using Cons.prems by simp
    obtain a' where a: "rnd (a + u) = Fin a'" "0 \<le> a'" "a' \<le> of_nat (Suc k)"
      using sum_step [OF Cons.prems(2,3) u(2,3) k] by blast
    obtain b' where b: "rnd (b + w) = Fin b'" "0 \<le> b'" "b' \<le> of_nat (Suc k)"
      using sum_step [OF Cons.prems(4,5) w(2,3) k] by blast
    show ?thesis
      using Cons.IH [OF _ a(2,3) b(2,3), of "n + 1" m] Cons.prems by (simp add: r u w a b True)
  next
    case False
    then show ?thesis
      using Cons.IH [OF _ Cons.prems(2-5), of n "m + 1"] Cons.prems(1,6)
      by (auto simp: scorable_def split: option.split)
  qed
qed auto

lemma mean_unit:
  assumes "0 \<le> a" and "a \<le> of_nat n" and "0 < n" and "n < 2 ^ 53"
  shows "\<exists>v. fl_div (Fin a) (fl_of_int (int n)) = Fin v \<and> 0 \<le> v \<and> v \<le> 1"
proof -
  have "fl_of_int (int n) = Fin (of_nat n)" using rnd_nat [OF assms(4)] by (simp add: fl_of_int_def)
  then show ?thesis using ratio_unit [of a "of_nat n"] assms by simp
qed

lemma rnd_nonpos: "x \<le> 0 \<Longrightarrow> \<not> fl_less (Fin 0) (rnd x)"
  using round_pos_nonneg [of "- x"] by (auto simp: rnd_def)

lemma rnd_large: "1 \<le> x \<Longrightarrow> rnd x = PosInf \<or> (\<exists>q. rnd x = Fin q \<and> 1 \<le> q)"
  using rnd_pos [of x] by (auto simp: rnd_def)

lemma skill_beats:
  assumes "0 < b" and "fl_less (Fin 0) (fl_sub (Fin 1) (fl_div (Fin p) (Fin b)))"
  shows "p < b"
proof (rule ccontr)
  assume "\<not> p < b"
  then have "1 \<le> p / b" using assms(1) by simp
  then consider "rnd (p / b) = PosInf" | q where "rnd (p / b) = Fin q" "1 \<le> q" using rnd_large by blast
  then show False
    using assms rnd_nonpos by cases (auto simp: fl_sub_def)
qed

text \<open>
  The scorecard.  When the stored chances are probabilities, every experience is counted once,
  scored exactly when it has a verdict and both chances; the two Brier scores are finite and
  between 0 and 1, rounding included; and a prediction is only said to beat the baseline when its
  score really is lower, on at least one scored experience.
\<close>

theorem scorecard_is_sound:
  assumes "\<forall>row \<in> set rows. chance (re_predicted row) \<and> chance (re_baseline row)"
    and "length rows < 2 ^ 53"
  shows "sc_scored (score rows k) = int (length (filter scorable rows)) \<and>
    sc_scored (score rows k) + sc_unscored (score rows k) = int (length rows) \<and>
    (\<exists>p b. sc_brier_prediction (score rows k) = Fin p \<and> sc_brier_baseline (score rows k) = Fin b \<and>
       0 \<le> p \<and> p \<le> 1 \<and> 0 \<le> b \<and> b \<le> 1 \<and>
       (sc_beats_baseline (score rows k) \<longrightarrow> p < b \<and> 0 < sc_scored (score rows k)))"
proof -
  let ?n = "length (filter scorable rows)"
  have sum: "?n + length (filter (Not \<circ> scorable) rows) = length rows"
    using sum_length_filter_compl [of scorable rows] by (simp add: comp_def)
  obtain a b where t: "tally rows (0, 0, Fin 0, Fin 0) = (int ?n, int (length (filter (Not \<circ> scorable) rows)), Fin a, Fin b)"
    and ab: "0 \<le> a" "0 \<le> b" "a \<le> of_nat ?n" "b \<le> of_nat ?n"
    using tally_counts [of rows 0 0 "Fin 0" "Fin 0"] tally_bounds [OF assms(1), of 0 0 0 0 0] assms(2)
    by (cases "tally rows (0, 0, Fin 0, Fin 0)") auto
  show ?thesis
  proof (cases "?n = 0")
    case True
    then show ?thesis using sum by (auto simp: score_def t)
  next
    case False
    have n: "?n < 2 ^ 53" using assms(2) length_filter_le [of scorable rows] by linarith
    obtain p where p: "fl_div (Fin a) (fl_of_int (int ?n)) = Fin p" "0 \<le> p" "p \<le> 1"
      using mean_unit [OF ab(1,3) _ n] False by blast
    obtain q where q: "fl_div (Fin b) (fl_of_int (int ?n)) = Fin q" "0 \<le> q" "q \<le> 1"
      using mean_unit [OF ab(2,4) _ n] False by blast
    show ?thesis
      using False sum p q skill_beats [of q p] by (auto simp: score_def t Let_def)
  qed
qed

definition an_answer :: gmap where
  "an_answer =
     [''neighbors'' \<mapsto> VList [VMap [(''action'', VStr ''hashtag.suggest''), (''outcome'', VStr ''accepted''),
                                 (''similarity'', VFloat 3 (- 2))]],
      ''outcomes'' \<mapsto> VMap [(''accepted'', VInt 12), (''replaced'', VInt 3)]]"

lemma an_answer_counts:
  "outcome_counts an_answer OutcomeAccepted = 12" "outcome_counts an_answer OutcomeReplaced = 3"
  "outcome_counts an_answer OutcomeIgnored = 0"
  using rnd_nat [of 12] rnd_nat [of 3]
  by (simp_all add: an_answer_def outcome_counts_def number_of_def fl_of_int_def OutcomeAccepted_def
      OutcomeReplaced_def OutcomeIgnored_def int_of_rat_def truncate_rat_def)

lemma prediction_is_probability_witness:
  "\<exists>p. pr_p (predict ''hashtag.suggest'' (neighbors_from an_answer) (outcome_counts an_answer) default_config) = Fin p
     \<and> 0 \<le> p \<and> p \<le> 1"
proof -
  have n: "neighbors_from an_answer = [neighbor_from (VMap [(''action'', VStr ''hashtag.suggest''),
             (''outcome'', VStr ''accepted''), (''similarity'', VFloat 3 (- 2))])]"
    by (simp add: neighbors_from_def an_answer_def)
  have s: "\<forall>n \<in> set (neighbors_from an_answer). \<exists>x. nb_similarity n = Fin x \<and> x \<le> 1"
    using rnd_unit [of "3 / 4"]
    by (auto simp: n neighbor_from_def Let_def number_of_def rat_of_parts_def power_int_minus)
  show ?thesis
    using prediction_is_probability [OF s, of "''hashtag.suggest''"] by (simp add: an_answer_counts) (auto simp: n)
qed

definition a_row :: resolved_experience where
  "a_row = \<lparr>re_ref = ''r'', re_action = ''hashtag.suggest'', re_outcome = ''accepted'',
            re_predicted = Some (Fin 1), re_baseline = Some (Fin (1 / 2))\<rparr>"

lemma scorecard_is_sound_witness:
  "sc_scored (score [a_row] 30) = 1 \<and> sc_scored (score [a_row] 30) + sc_unscored (score [a_row] 30) = 1"
proof -
  have "chance (re_predicted a_row)" "chance (re_baseline a_row)"
    by (auto simp: a_row_def chance_def intro: exI [of _ "1 / 2"])
  then have "\<forall>row \<in> set [a_row]. chance (re_predicted row) \<and> chance (re_baseline row)" by simp
  moreover have "scorable a_row"
    by (simp add: a_row_def scorable_def verdict_def OutcomeAccepted_def)
  ultimately show ?thesis using scorecard_is_sound [of "[a_row]" 30] by simp
qed

end
