(* ===== verification/Go_SHA256.thy ===== *)
theory Go_SHA256
  imports Prelude "HOL-Library.Word"
begin

section \<open>SHA-256\<close>

text \<open>
  \<open>sha256.Sum256\<close> and \<open>hex.EncodeToString\<close> on byte strings, as FIPS 180-4 defines the hash: the
  padded message in blocks of sixteen 32-bit words, a schedule of 64 words and 64 rounds per block.
\<close>

unbundle bit_operations_syntax

type_synonym word32 = "32 word"

definition round_constants :: "word32 list" where
  "round_constants =
     [0x428a2f98, 0x71374491, 0xb5c0fbcf, 0xe9b5dba5, 0x3956c25b, 0x59f111f1, 0x923f82a4, 0xab1c5ed5,
      0xd807aa98, 0x12835b01, 0x243185be, 0x550c7dc3, 0x72be5d74, 0x80deb1fe, 0x9bdc06a7, 0xc19bf174,
      0xe49b69c1, 0xefbe4786, 0x0fc19dc6, 0x240ca1cc, 0x2de92c6f, 0x4a7484aa, 0x5cb0a9dc, 0x76f988da,
      0x983e5152, 0xa831c66d, 0xb00327c8, 0xbf597fc7, 0xc6e00bf3, 0xd5a79147, 0x06ca6351, 0x14292967,
      0x27b70a85, 0x2e1b2138, 0x4d2c6dfc, 0x53380d13, 0x650a7354, 0x766a0abb, 0x81c2c92e, 0x92722c85,
      0xa2bfe8a1, 0xa81a664b, 0xc24b8b70, 0xc76c51a3, 0xd192e819, 0xd6990624, 0xf40e3585, 0x106aa070,
      0x19a4c116, 0x1e376c08, 0x2748774c, 0x34b0bcb5, 0x391c0cb3, 0x4ed8aa4a, 0x5b9cca4f, 0x682e6ff3,
      0x748f82ee, 0x78a5636f, 0x84c87814, 0x8cc70208, 0x90befffa, 0xa4506ceb, 0xbef9a3f7, 0xc67178f2]"

definition initial_hash :: "word32 list" where
  "initial_hash =
     [0x6a09e667, 0xbb67ae85, 0x3c6ef372, 0xa54ff53a, 0x510e527f, 0x9b05688c, 0x1f83d9ab, 0x5be0cd19]"

definition rotr32 :: "nat \<Rightarrow> word32 \<Rightarrow> word32" where
  "rotr32 n x = drop_bit n x OR push_bit (32 - n) x"

text \<open>Bytes and words, big-endian.\<close>

definition word_of_bytes :: "word32 list \<Rightarrow> word32" where
  "word_of_bytes bs = foldl (\<lambda>a b. push_bit 8 a OR b) 0 bs"

fun words_of :: "word32 list \<Rightarrow> word32 list" where
  "words_of (a # b # c # d # rest) = word_of_bytes [a, b, c, d] # words_of rest"
| "words_of _ = []"

definition padded :: "string \<Rightarrow> word32 list" where
  "padded s =
     (let n = length s
      in map of_char s @ [0x80] @ replicate ((119 - n mod 64) mod 64) 0
           @ map (\<lambda>i. of_int ((8 * int n) div 256 ^ i mod 256)) [7, 6, 5, 4, 3, 2, 1, 0])"

text \<open>The schedule, newest word first while it grows.\<close>

primrec extend :: "nat \<Rightarrow> word32 list \<Rightarrow> word32 list" where
  "extend 0 ws = ws"
| "extend (Suc n) ws =
     (let x = ws ! 14; y = ws ! 1;
          s0 = rotr32 7 x XOR rotr32 18 x XOR drop_bit 3 x;
          s1 = rotr32 17 y XOR rotr32 19 y XOR drop_bit 10 y
      in extend n ((ws ! 15 + s0 + ws ! 6 + s1) # ws))"

definition schedule :: "word32 list \<Rightarrow> word32 list" where
  "schedule block = rev (extend 48 (rev block))"

fun sha_round :: "word32 list \<Rightarrow> word32 \<times> word32 \<Rightarrow> word32 list" where
  "sha_round [a, b, c, d, e, f, g, h] (k, w) =
     (let s1 = rotr32 6 e XOR rotr32 11 e XOR rotr32 25 e;
          ch = (e AND f) XOR (NOT e AND g);
          t1 = h + s1 + ch + k + w;
          s0 = rotr32 2 a XOR rotr32 13 a XOR rotr32 22 a;
          maj = (a AND b) XOR (a AND c) XOR (b AND c)
      in [t1 + s0 + maj, a, b, c, d + t1, e, f, g])"
| "sha_round hs kw = hs"

definition sha_block :: "word32 list \<Rightarrow> word32 list \<Rightarrow> word32 list" where
  "sha_block hs block = map2 (+) hs (foldl sha_round hs (zip round_constants (schedule block)))"

function sha_blocks :: "word32 list \<Rightarrow> word32 list \<Rightarrow> word32 list" where
  "sha_blocks hs ws = (if ws = [] then hs else sha_blocks (sha_block hs (take 16 ws)) (drop 16 ws))"
  by pat_completeness auto
termination
  by (relation "measure (length \<circ> snd)") auto

declare sha_blocks.simps [simp del]

definition bytes_of :: "word32 \<Rightarrow> int list" where
  "bytes_of w = map (\<lambda>i. uint w div 256 ^ i mod 256) [3, 2, 1, 0]"

definition sha256 :: "string \<Rightarrow> int list" where
  "sha256 s = concat (map bytes_of (sha_blocks initial_hash (words_of (padded s))))"

definition hex_digit :: "int \<Rightarrow> char" where
  "hex_digit n = char_of (if n < 10 then 48 + n else 87 + n)"

definition hex_encode :: "int list \<Rightarrow> string" where
  "hex_encode bs = concat (map (\<lambda>b. [hex_digit (b div 16), hex_digit (b mod 16)]) bs)"

text \<open>The first half of the hash in hexadecimal, the code's \<open>hex.EncodeToString(sum[:])[:32]\<close>.\<close>

definition hash32 :: "string \<Rightarrow> string" where
  "hash32 s = take 32 (hex_encode (sha256 s))"

subsection \<open>Its shape\<close>

lemma length_sha_round: "length hs = 8 \<Longrightarrow> length (sha_round hs kw) = 8"
  by (cases "(hs, kw)" rule: sha_round.cases) (auto simp: Let_def)

lemma length_sha_rounds: "length hs = 8 \<Longrightarrow> length (foldl sha_round hs kws) = 8"
  by (induction kws arbitrary: hs) (simp_all add: length_sha_round)

lemma length_sha_blocks: "length hs = 8 \<Longrightarrow> length (sha_blocks hs ws) = 8"
proof (induction hs ws rule: sha_blocks.induct)
  case (1 hs ws)
  then show ?case
    by (subst sha_blocks.simps) (simp add: sha_block_def length_sha_rounds)
qed

lemma length_concat_four: "(\<And>x. length (f x) = 4) \<Longrightarrow> length (concat (map f xs)) = 4 * length xs"
  by (induction xs) auto

lemma sha256_length: "length (sha256 s) = 32"
proof -
  have "length (bytes_of w) = 4" for w by (simp add: bytes_of_def)
  then show ?thesis
    by (simp add: sha256_def length_concat_four length_sha_blocks initial_hash_def)
qed

lemma sha256_byte: "b \<in> set (sha256 s) \<Longrightarrow> 0 \<le> b \<and> b < 256"
  by (auto simp: sha256_def bytes_of_def)

definition hex_char :: "char \<Rightarrow> bool" where
  "hex_char c \<longleftrightarrow> c \<in> set ''0123456789abcdef''"

lemma hex_digit_char: "0 \<le> n \<Longrightarrow> n < 16 \<Longrightarrow> hex_char (hex_digit n)"
proof -
  assume "0 \<le> n" "n < 16"
  then have "n \<in> set [0..15]" by simp
  moreover have "\<forall>k \<in> set [0..15]. hex_char (hex_digit k)" by code_simp
  ultimately show ?thesis by blast
qed

lemma hex_encode_chars: "\<forall>b \<in> set bs. 0 \<le> b \<and> b < 256 \<Longrightarrow> \<forall>c \<in> set (hex_encode bs). hex_char c"
  by (auto simp: hex_encode_def intro!: hex_digit_char)

lemma hash32_shape: "length (hash32 s) = 32 \<and> (\<forall>c \<in> set (hash32 s). hex_char c)"
proof -
  have "length (hex_encode bs) = 2 * length bs" for bs by (induction bs) (simp_all add: hex_encode_def)
  then have "length (hash32 s) = 32" by (simp add: hash32_def sha256_length)
  moreover have "\<forall>c \<in> set (hash32 s). hex_char c"
    using hex_encode_chars [of "sha256 s"] sha256_byte by (auto simp: hash32_def dest: in_set_takeD)
  ultimately show ?thesis by blast
qed

end
