(* ===== verification/Memory_Domain.thy ===== *)
theory Memory_Domain
  imports Memory_Predict Call_Log Chat_Content Go_SHA256 "HOL-Library.AList"
begin

section \<open>The experience memory\<close>

text \<open>
  \<open>dokja_domain/dokja_memory/domain.go\<close> and \<open>feedback.go\<close>, with \<open>hashtag.go\<close>, \<open>music.go\<close> and
  \<open>media_receipt.go\<close>, which prepare requests for it.  The store behind \<open>Service\<close> is a parameter; so is
  \<open>orbit\<close>, the table of \<open>unicode.SimpleFold\<close> that gives each rune the representative of its orbit.
\<close>

definition ActionRecordExperience :: string where "ActionRecordExperience = ''record-experience''"
definition ActionResolveExperience :: string where "ActionResolveExperience = ''resolve-experience''"
definition ActionRecallExperience :: string where "ActionRecallExperience = ''recall-experience''"
definition ActionGetExperience :: string where "ActionGetExperience = ''get-experience''"
definition ActionListExperience :: string where "ActionListExperience = ''list-experience''"
definition ActionPredictExperience :: string where "ActionPredictExperience = ''predict-experience''"
definition ActionScoreExperience :: string where "ActionScoreExperience = ''score-experience''"
definition ActionForgetExperience :: string where "ActionForgetExperience = ''forget-experience''"
definition ActionInspectMemory :: string where "ActionInspectMemory = ''inspect-memory''"
definition ActionReindexMemory :: string where "ActionReindexMemory = ''reindex-memory''"

definition max_ref_len :: nat where "max_ref_len = 512"
definition max_context_runes :: nat where "max_context_runes = 4000"
definition max_detail_runes :: nat where "max_detail_runes = 200"
definition max_matched_runes :: nat where "max_matched_runes = 200"
definition default_recall_k :: int where "default_recall_k = 10"
definition max_recall_k :: int where "max_recall_k = 50"
definition predict_neighbors :: int where "predict_neighbors = 20"
definition score_window :: int where "score_window = 5000"
definition max_reindex_batch :: int where "max_reindex_batch = 500"
definition default_list_limit :: int where "default_list_limit = 20"
definition max_list_limit :: int where "max_list_limit = 100"
definition max_list_offset :: int where "max_list_offset = 1000000"

text \<open>\<open>^[a-z][a-z0-9_.:-]{0,63}$\<close>\<close>

definition action_char :: "char \<Rightarrow> bool" where
  "action_char c \<longleftrightarrow> (97 \<le> byte c \<and> byte c \<le> 122) \<or> digit c \<or> c \<in> set ''_.:-''"

definition action_name :: "string \<Rightarrow> bool" where
  "action_name s \<longleftrightarrow>
     (case s of [] \<Rightarrow> False | c # cs \<Rightarrow> 97 \<le> byte c \<and> byte c \<le> 122 \<and> matches_class action_char 0 63 cs)"

definition has_control :: "string \<Rightarrow> bool" where
  "has_control s = list_ex is_control (runes s)"

definition equal_fold :: "(nat \<Rightarrow> nat) \<Rightarrow> string \<Rightarrow> string \<Rightarrow> bool" where
  "equal_fold orbit s t \<longleftrightarrow> map orbit (runes s) = map orbit (runes t)"

definition is_probability :: "f64 \<Rightarrow> bool" where
  "is_probability x \<longleftrightarrow> fl_le (Fin 0) x \<and> fl_le x (Fin 1)"

subsection \<open>Requests\<close>

definition bad_action :: gerror where
  "bad_action = Errorf ''action must be a short lowercase name such as hashtag.suggest''"

definition required_ref :: "gmap \<Rightarrow> string res" where
  "required_ref payload =
     (let ref = text_of payload ''ref''
      in if ref = [] then Inl (Errorf ''ref is required'')
         else if length ref > max_ref_len \<or> has_control ref
         then Inl (Errorf ''ref must be at most 512 bytes and have no control characters'')
         else Inr ref)"

definition required_action :: "gmap \<Rightarrow> string res" where
  "required_action payload =
     (let action = text_of payload ''action''
      in if action = [] then Inl (Errorf ''action is required'')
         else if \<not> action_name action then Inl bad_action
         else Inr action)"

definition required_context :: "gmap \<Rightarrow> string res" where
  "required_context payload =
     (let c = text_of payload ''context''
      in if c = [] then Inl (Errorf ''context is required'')
         else if rune_count c > max_context_runes
         then Inl (Errorf ''context is longer than 4000 characters; send the part that matters'')
         else Inr c)"

text \<open>The optional parts of a record, each added to the copy.\<close>

definition add_detail :: "gmap \<Rightarrow> gmap \<Rightarrow> gmap res" where
  "add_detail payload clean =
     (let detail = text_of payload ''detail''
      in if detail = [] then Inr clean
         else if rune_count detail > max_detail_runes \<or> has_control detail
         then Inl (Errorf ''detail must be at most 200 characters and have no control characters'')
         else Inr (clean(''detail'' \<mapsto> VStr detail)))"

definition add_chances :: "gmap \<Rightarrow> gmap \<Rightarrow> gmap res" where
  "add_chances payload clean =
     (case (number_of payload ''predicted_p'', number_of payload ''baseline_p'') of
        (Some p, Some b) \<Rightarrow>
          if \<not> is_probability p \<or> \<not> is_probability b
          then Inl (Errorf ''predicted_p and baseline_p must be between 0 and 1'')
          else Inr (clean(''predicted_p'' \<mapsto> val_of_float p, ''baseline_p'' \<mapsto> val_of_float b))
      | (None, None) \<Rightarrow> Inr clean
      | _ \<Rightarrow> Inl (Errorf ''predicted_p and baseline_p go together: a prediction is only scored against its baseline''))"

definition add_matched_text :: "gmap \<Rightarrow> gmap \<Rightarrow> gmap res" where
  "add_matched_text payload clean =
     (let m = text_of payload ''matched_context''
      in if m = [] then Inr clean
         else if rune_count m > max_matched_runes
         then Inl (Errorf ''matched_context must be at most 200 characters'')
         else Inr (clean(''matched_context'' \<mapsto> VStr m)))"

definition add_matched :: "gmap \<Rightarrow> gmap \<Rightarrow> gmap res" where
  "add_matched payload clean =
     (case number_of payload ''matched_score'' of
        None \<Rightarrow> add_matched_text payload clean
      | Some s \<Rightarrow>
          if \<not> is_probability s then Inl (Errorf ''matched_score must be between 0 and 1'')
          else add_matched_text payload (clean(''matched_score'' \<mapsto> val_of_float s)))"

definition build_record :: "gmap \<Rightarrow> gmap res" where
  "build_record payload =
     (case required_ref payload of Inl e \<Rightarrow> Inl e | Inr ref \<Rightarrow>
      case required_action payload of Inl e \<Rightarrow> Inl e | Inr action \<Rightarrow>
      case required_context payload of Inl e \<Rightarrow> Inl e | Inr c \<Rightarrow>
      case add_detail payload [''ref'' \<mapsto> VStr ref, ''action'' \<mapsto> VStr action, ''context'' \<mapsto> VStr c] of
        Inl e \<Rightarrow> Inl e | Inr clean \<Rightarrow>
      case add_chances payload clean of Inl e \<Rightarrow> Inl e | Inr clean \<Rightarrow> add_matched payload clean)"

definition with_include :: "gmap \<Rightarrow> gmap \<Rightarrow> gmap" where
  "with_include payload clean =
     (if bool_of (payload ''include_context'') then clean(''include_context'' \<mapsto> VBool True) else clean)"

definition build_get :: "gmap \<Rightarrow> gmap res" where
  "build_get payload =
     (case required_ref payload of
        Inl e \<Rightarrow> Inl e
      | Inr ref \<Rightarrow> Inr (with_include payload [''ref'' \<mapsto> VStr ref]))"

text \<open>The optional action of a listing, and an optional whole number in a range.\<close>

definition add_action :: "gmap \<Rightarrow> gmap \<Rightarrow> gmap res" where
  "add_action payload clean =
     (let action = text_of payload ''action''
      in if action = [] then Inr clean
         else if \<not> action_name action then Inl bad_action
         else Inr (clean(''action'' \<mapsto> VStr action)))"

definition add_number :: "string \<Rightarrow> int \<Rightarrow> int \<Rightarrow> string \<Rightarrow> gmap \<Rightarrow> gmap \<Rightarrow> gmap res" where
  "add_number key lo hi msg payload clean =
     (case number_of payload key of
        None \<Rightarrow> Inr clean
      | Some x \<Rightarrow>
          if fl_less x (Fin (of_int lo)) \<or> fl_less (Fin (of_int hi)) x then Inl (Errorf msg)
          else Inr (clean(key \<mapsto> VInt (int_of_f64 x))))"

definition build_recall :: "gmap \<Rightarrow> gmap res" where
  "build_recall payload =
     (case required_context payload of Inl e \<Rightarrow> Inl e | Inr c \<Rightarrow>
      case add_action payload [''context'' \<mapsto> VStr c, ''k'' \<mapsto> VInt default_recall_k] of
        Inl e \<Rightarrow> Inl e | Inr clean \<Rightarrow>
      case add_number ''k'' 1 max_recall_k ''k must be between 1 and 50'' payload clean of
        Inl e \<Rightarrow> Inl e | Inr clean \<Rightarrow> Inr (with_include payload clean))"

definition add_state :: "gmap \<Rightarrow> gmap \<Rightarrow> gmap res" where
  "add_state payload clean =
     (let state = text_of payload ''state''
      in if state = [] then Inr clean
         else if state \<in> set [''all'', ''pending'', ''resolved''] then Inr (clean(''state'' \<mapsto> VStr state))
         else Inl (Errorf ''state must be all, pending or resolved''))"

definition build_list :: "gmap \<Rightarrow> gmap res" where
  "build_list payload =
     (case add_action payload [''limit'' \<mapsto> VInt default_list_limit, ''offset'' \<mapsto> VInt 0] of
        Inl e \<Rightarrow> Inl e | Inr clean \<Rightarrow>
      case add_state payload clean of Inl e \<Rightarrow> Inl e | Inr clean \<Rightarrow>
      case add_number ''limit'' 1 max_list_limit ''limit must be between 1 and 100'' payload clean of
        Inl e \<Rightarrow> Inl e | Inr clean \<Rightarrow>
      case add_number ''offset'' 0 max_list_offset ''offset must be between 0 and 1000000'' payload clean of
        Inl e \<Rightarrow> Inl e | Inr clean \<Rightarrow> Inr (with_include payload clean))"

definition build_forget :: "gmap \<Rightarrow> gmap res" where
  "build_forget payload =
     (case required_ref payload of Inl e \<Rightarrow> Inl e | Inr ref \<Rightarrow> Inr [''ref'' \<mapsto> VStr ref])"

definition build_reindex :: "gmap \<Rightarrow> gmap res" where
  "build_reindex payload =
     add_number ''limit'' 1 max_reindex_batch ''limit must be between 1 and 500'' payload Map.empty"

subsection \<open>Feedback guidance\<close>

definition feedback_for :: "gmap \<Rightarrow> gval" where
  "feedback_for row =
     (let (code, message) =
        (if text_of row ''outcome'' = ''expired''
         then (''expired'', ''This experience expired without an observed verdict; expiry is not rejection.'')
         else if text_of row ''outcome'' \<noteq> []
         then (''recorded'', ''An outcome is already recorded. The first verdict is retained.'')
         else if text_of row ''action'' = ''hashtag.suggest'' \<and> text_of row ''detail'' \<noteq> []
         then (''hashtag_tag'', ''Give explicit hashtag feedback for the same meme: the suggested tag means accepted, a different tag means replaced. No feedback remains unknown. Repeated attempts require reliable attribution; do not guess which attempt feedback belongs to.'')
         else (''explicit_outcome'', ''Record an observed outcome for this exact experience reference. Do not infer rejection from missing feedback.''))
      in VMap [(''code'', VStr code), (''message'', VStr message)])"

fun guided_row :: "gval \<Rightarrow> gval" where
  "guided_row (VMap row) = VMap (AList.update ''feedback'' (feedback_for (map_of row)) row)"
| "guided_row v = v"

definition add_feedback_guidance :: "gmap \<Rightarrow> gmap" where
  "add_feedback_guidance result =
     (let result = (if bool_of (result ''found'') then result(''feedback'' \<mapsto> feedback_for result) else result)
      in case result ''experiences'' of
           Some (VList rows) \<Rightarrow> result(''experiences'' \<mapsto> VList (map guided_row rows))
         | _ \<Rightarrow> result)"

subsection \<open>The actions\<close>

type_synonym 'w memory_service = "string \<Rightarrow> gmap \<Rightarrow> 'w \<Rightarrow> gmap res \<times> 'w"

record 'w memory_domain =
  md_service :: "'w memory_service option"
  md_config :: memory_config

definition resolve_observed ::
    "(nat \<Rightarrow> nat) \<Rightarrow> 'w memory_service \<Rightarrow> string \<Rightarrow> string \<Rightarrow> 'w \<Rightarrow> gmap res \<times> 'w" where
  "resolve_observed orbit dispatch ref observed w =
     (if rune_count observed > max_detail_runes \<or> has_control observed
      then (Inl (Errorf ''observed must be at most 200 characters and have no control characters''), w)
      else case dispatch ''memory.get'' [''ref'' \<mapsto> VStr ref] w of
          (Inl e, w1) \<Rightarrow> (Inl e, w1)
        | (Inr stored, w1) \<Rightarrow>
            if \<not> bool_of (stored ''found'')
            then (Inr [''found'' \<mapsto> VBool False, ''resolved'' \<mapsto> VBool False], w1)
            else (let detail = text_of stored ''detail''
              in if detail = []
                 then (Inl (Errorf ''this experience recorded no detail to compare with: send an outcome''), w1)
                 else (let matched = equal_fold orbit detail observed;
                           outcome = (if matched then OutcomeAccepted else OutcomeReplaced)
                   in case dispatch ''memory.resolve'' [''ref'' \<mapsto> VStr ref, ''outcome'' \<mapsto> VStr outcome] w1 of
                        (Inl e, w2) \<Rightarrow> (Inl e, w2)
                      | (Inr answer, w2) \<Rightarrow> (Inr (answer(''matched'' \<mapsto> VBool matched)), w2))))"

definition resolve_experience ::
    "(nat \<Rightarrow> nat) \<Rightarrow> 'w memory_service \<Rightarrow> gmap \<Rightarrow> 'w \<Rightarrow> gmap res \<times> 'w" where
  "resolve_experience orbit dispatch payload w =
     (case required_ref payload of
        Inl e \<Rightarrow> (Inl e, w)
      | Inr ref \<Rightarrow>
          let outcome = text_of payload ''outcome''; observed = text_of payload ''observed''
          in if outcome \<noteq> [] \<and> observed \<noteq> []
             then (Inl (Errorf ''send either outcome or observed, not both''), w)
             else if outcome = [] \<and> observed = []
             then (Inl (Errorf ''outcome or observed is required''), w)
             else if outcome \<noteq> [] then
               (if \<not> valid_outcome outcome
                then (Inl (Errorf ''outcome must be one of accepted, replaced, ignored, expired''), w)
                else dispatch ''memory.resolve'' [''ref'' \<mapsto> VStr ref, ''outcome'' \<mapsto> VStr outcome] w)
             else resolve_observed orbit dispatch ref observed w)"

text \<open>One quoted neighbour; the code's list of maps is a list of \<open>VMap\<close>s here.\<close>

definition evidence_entry :: "neighbor \<Rightarrow> gval" where
  "evidence_entry n =
     VMap ([(''ref'', VStr (nb_ref n)), (''similarity'', val_of_float (nb_similarity n)),
            (''outcome'', VStr (nb_outcome n))]
           @ (if nb_detail n = [] then [] else [(''detail'', VStr (nb_detail n))])
           @ (if nb_snippet n = [] then [] else [(''context_snippet'', VStr (nb_snippet n))]))"

definition predict_experience ::
    "memory_config \<Rightarrow> 'w memory_service \<Rightarrow> gmap \<Rightarrow> 'w \<Rightarrow> gmap res \<times> 'w" where
  "predict_experience config dispatch payload w =
     (case required_context payload of
        Inl e \<Rightarrow> (Inl e, w)
      | Inr c \<Rightarrow>
          case required_action payload of
            Inl e \<Rightarrow> (Inl e, w)
          | Inr action \<Rightarrow>
              case dispatch ''memory.recall''
                     (with_include payload
                        [''context'' \<mapsto> VStr c, ''action'' \<mapsto> VStr action, ''k'' \<mapsto> VInt predict_neighbors]) w of
                (Inl e, w') \<Rightarrow> (Inl e, w')
              | (Inr recalled, w') \<Rightarrow>
                  let p = predict action (neighbors_from recalled) (outcome_counts recalled) config
                  in (Inr [''action'' \<mapsto> VStr action, ''predicted_p'' \<mapsto> val_of_float (pr_p p),
                           ''baseline_p'' \<mapsto> val_of_float (pr_baseline p), ''support'' \<mapsto> VInt (pr_support p),
                           ''resolved'' \<mapsto> VInt (pr_resolved p), ''insufficient'' \<mapsto> VBool (pr_insufficient p),
                           ''reason'' \<mapsto> VStr (pr_reason p),
                           ''degraded'' \<mapsto> VBool (bool_of (recalled ''degraded'')),
                           ''evidence'' \<mapsto> VList (map evidence_entry (pr_evidence p))], w'))"

definition score_experience ::
    "memory_config \<Rightarrow> 'w memory_service \<Rightarrow> gmap \<Rightarrow> 'w \<Rightarrow> gmap res \<times> 'w" where
  "score_experience config dispatch payload w =
     (let action = text_of payload ''action''
      in case add_action payload [''limit'' \<mapsto> VInt score_window] of
           Inl e \<Rightarrow> (Inl e, w)
         | Inr request \<Rightarrow>
             case dispatch ''memory.resolved'' request w of
               (Inl e, w') \<Rightarrow> (Inl e, w')
             | (Inr answer, w') \<Rightarrow>
                 let card = score (resolved_from answer) (mc_min_scored config)
                 in (Inr [''action'' \<mapsto> VStr action, ''scored'' \<mapsto> VInt (sc_scored card),
                          ''unscored'' \<mapsto> VInt (sc_unscored card),
                          ''brier_prediction'' \<mapsto> val_of_float (sc_brier_prediction card),
                          ''brier_baseline'' \<mapsto> val_of_float (sc_brier_baseline card),
                          ''skill'' \<mapsto> val_of_float (sc_skill card),
                          ''beats_baseline'' \<mapsto> VBool (sc_beats_baseline card),
                          ''enough_data'' \<mapsto> VBool (sc_enough_data card),
                          ''min_scored'' \<mapsto> VInt (mc_min_scored config)], w'))"

text \<open>The table of forwarded actions.\<close>

definition forwarded :: "string \<rightharpoonup> string \<times> (gmap \<Rightarrow> gmap res)" where
  "forwarded =
     [ActionRecordExperience \<mapsto> (''memory.record'', build_record),
      ActionRecallExperience \<mapsto> (''memory.recall'', build_recall),
      ActionGetExperience \<mapsto> (''memory.get'', build_get),
      ActionListExperience \<mapsto> (''memory.list'', build_list),
      ActionForgetExperience \<mapsto> (''memory.forget'', build_forget),
      ActionInspectMemory \<mapsto> (''memory.status'', \<lambda>p. Inr Map.empty),
      ActionReindexMemory \<mapsto> (''memory.reindex'', build_reindex)]"

definition forward ::
    "'w memory_service \<Rightarrow> string \<Rightarrow> string \<times> (gmap \<Rightarrow> gmap res) \<Rightarrow> gmap \<Rightarrow> 'w \<Rightarrow> gmap res \<times> 'w" where
  "forward dispatch action route payload w =
     (case snd route payload of
        Inl e \<Rightarrow> (Inl e, w)
      | Inr clean \<Rightarrow>
          case dispatch (fst route) clean w of
            (Inl e, w') \<Rightarrow> (Inl e, w')
          | (Inr result, w') \<Rightarrow>
              (Inr (if action = ActionGetExperience \<or> action = ActionListExperience
                    then add_feedback_guidance result else result), w'))"

definition memory_handle ::
    "(nat \<Rightarrow> nat) \<Rightarrow> 'w memory_domain option \<Rightarrow> string \<Rightarrow> string \<Rightarrow> gmap \<Rightarrow> 'w \<Rightarrow> gmap res \<times> 'w" where
  "memory_handle orbit domain event_type action payload w =
     (case domain of
        None \<Rightarrow> (Inl (Errorf ''memory domain is nil''), w)
      | Some d \<Rightarrow>
          case md_service d of
            None \<Rightarrow> (Inl (Errorf ''memory service is not configured''), w)
          | Some dispatch \<Rightarrow>
              if action = ActionResolveExperience then resolve_experience orbit dispatch payload w
              else if action = ActionPredictExperience then predict_experience (md_config d) dispatch payload w
              else if action = ActionScoreExperience then score_experience (md_config d) dispatch payload w
              else case forwarded action of
                  None \<Rightarrow> (Inl (Errorf (''unsupported memory action '' @ go_quote action @ '' for event type ''
                                 @ go_quote event_type)), w)
                | Some route \<Rightarrow> forward dispatch action route payload w)"

subsection \<open>What a well-formed request is\<close>

text \<open>Text as \<open>text_of\<close> gives it: trimmed, not empty, of at most \<open>n\<close> runes.\<close>

definition clean_text :: "nat \<Rightarrow> string \<Rightarrow> bool" where
  "clean_text n s \<longleftrightarrow> s \<noteq> [] \<and> trim_space s = s \<and> rune_count s \<le> n"

definition clean_ref :: "string \<Rightarrow> bool" where
  "clean_ref s \<longleftrightarrow> s \<noteq> [] \<and> trim_space s = s \<and> length s \<le> max_ref_len \<and> \<not> has_control s"

definition clean_detail :: "string \<Rightarrow> bool" where
  "clean_detail s \<longleftrightarrow> clean_text max_detail_runes s \<and> \<not> has_control s"

fun str_such :: "(string \<Rightarrow> bool) \<Rightarrow> gval \<Rightarrow> bool" where
  "str_such P (VStr s) = P s"
| "str_such P _ = False"

fun int_in :: "int \<Rightarrow> int \<Rightarrow> gval \<Rightarrow> bool" where
  "int_in lo hi (VInt i) = (lo \<le> i \<and> i \<le> hi)"
| "int_in lo hi _ = False"

fun unit_float :: "gval \<Rightarrow> bool" where
  "unit_float (VFloat m e) = (0 \<le> rat_of_parts m e \<and> rat_of_parts m e \<le> 1)"
| "unit_float _ = False"

definition needs :: "gmap \<Rightarrow> string \<Rightarrow> (gval \<Rightarrow> bool) \<Rightarrow> bool" where
  "needs p key P = (case p key of None \<Rightarrow> False | Some v \<Rightarrow> P v)"

definition allows :: "gmap \<Rightarrow> string \<Rightarrow> (gval \<Rightarrow> bool) \<Rightarrow> bool" where
  "allows p key P = (case p key of None \<Rightarrow> True | Some v \<Rightarrow> P v)"

definition only_keys :: "gmap \<Rightarrow> string list \<Rightarrow> bool" where
  "only_keys p ks \<longleftrightarrow> dom p \<subseteq> set ks"

definition flag :: "gmap \<Rightarrow> bool" where
  "flag p \<longleftrightarrow> allows p ''include_context'' (\<lambda>v. v = VBool True)"

definition record_request :: "gmap \<Rightarrow> bool" where
  "record_request p \<longleftrightarrow>
     only_keys p [''ref'', ''action'', ''context'', ''detail'', ''predicted_p'', ''baseline_p'',
                  ''matched_score'', ''matched_context''] \<and>
     needs p ''ref'' (str_such clean_ref) \<and> needs p ''action'' (str_such action_name) \<and>
     needs p ''context'' (str_such (clean_text max_context_runes)) \<and>
     allows p ''detail'' (str_such clean_detail) \<and>
     allows p ''predicted_p'' unit_float \<and> allows p ''baseline_p'' unit_float \<and>
     (p ''predicted_p'' = None \<longleftrightarrow> p ''baseline_p'' = None) \<and>
     allows p ''matched_score'' unit_float \<and>
     allows p ''matched_context'' (str_such (clean_text max_matched_runes))"

definition recall_request :: "gmap \<Rightarrow> bool" where
  "recall_request p \<longleftrightarrow>
     only_keys p [''context'', ''action'', ''k'', ''include_context''] \<and>
     needs p ''context'' (str_such (clean_text max_context_runes)) \<and>
     allows p ''action'' (str_such action_name) \<and> needs p ''k'' (int_in 1 max_recall_k) \<and> flag p"

definition list_request :: "gmap \<Rightarrow> bool" where
  "list_request p \<longleftrightarrow>
     only_keys p [''action'', ''state'', ''limit'', ''offset'', ''include_context''] \<and>
     allows p ''action'' (str_such action_name) \<and>
     allows p ''state'' (str_such (\<lambda>s. s \<in> set [''all'', ''pending'', ''resolved''])) \<and>
     needs p ''limit'' (int_in 1 max_list_limit) \<and> needs p ''offset'' (int_in 0 max_list_offset) \<and> flag p"

definition ref_request :: "string list \<Rightarrow> gmap \<Rightarrow> bool" where
  "ref_request ks p \<longleftrightarrow> only_keys p (''ref'' # ks) \<and> needs p ''ref'' (str_such clean_ref)"

definition store_request :: "string \<Rightarrow> gmap \<Rightarrow> bool" where
  "store_request event p =
     (if event = ''memory.record'' then record_request p
      else if event = ''memory.recall'' then recall_request p
      else if event = ''memory.list'' then list_request p
      else if event = ''memory.get'' then ref_request [''include_context''] p \<and> flag p
      else if event = ''memory.forget'' then ref_request [] p
      else if event = ''memory.resolve''
        then ref_request [''outcome''] p \<and> needs p ''outcome'' (str_such valid_outcome)
      else if event = ''memory.resolved''
        then only_keys p [''limit'', ''action''] \<and> p ''limit'' = Some (VInt score_window) \<and>
             allows p ''action'' (str_such action_name)
      else if event = ''memory.reindex''
        then only_keys p [''limit''] \<and> allows p ''limit'' (int_in 1 max_reindex_batch)
      else event = ''memory.status'' \<and> only_keys p [])"

subsection \<open>The builders give well-formed requests\<close>

lemmas request_simps =
  needs_def allows_def flag_def with_include_def

lemma only_keys_empty [simp]: "only_keys (\<lambda>x. None) ks"
  by (simp add: only_keys_def)

lemma only_keys_update [simp]: "k \<in> set ks \<Longrightarrow> only_keys p ks \<Longrightarrow> only_keys (p(k \<mapsto> v)) ks"
  by (auto simp: only_keys_def)

lemma res_bind_iff:
  "(case x of Inl e \<Rightarrow> Inl e | Inr a \<Rightarrow> f a) = Inr y \<longleftrightarrow> (\<exists>a. x = Inr a \<and> f a = Inr y)"
  by (cases x) auto

lemma text_of_trimmed [simp]: "trim_space (text_of payload key) = text_of payload key"
  by (simp add: text_of_def)

lemma required_refD: "required_ref payload = Inr ref \<Longrightarrow> clean_ref ref"
  by (auto simp: required_ref_def clean_ref_def Let_def split: if_splits)

lemma required_actionD: "required_action payload = Inr action \<Longrightarrow> action_name action"
  by (auto simp: required_action_def Let_def split: if_splits)

lemma required_contextD: "required_context payload = Inr c \<Longrightarrow> clean_text max_context_runes c"
  by (auto simp: required_context_def clean_text_def Let_def split: if_splits)

lemma add_detailD:
  "add_detail payload clean = Inr clean' \<Longrightarrow>
     clean' = clean \<or> (\<exists>d. clean' = clean(''detail'' \<mapsto> VStr d) \<and> clean_detail d)"
  by (auto simp: add_detail_def clean_detail_def clean_text_def Let_def split: if_splits)

lemma unit_float_val:
  assumes "number_of payload key = Some x" and "is_probability x"
  shows "unit_float (val_of_float x)"
proof (cases x)
  case (Fin r)
  then have "rnd r = Fin r" using assms(1) number_kept by blast
  from val_of_double [OF this] show ?thesis using assms(2) Fin by (auto simp: is_probability_def)
qed (use assms in \<open>auto simp: is_probability_def\<close>)

lemma add_chancesD:
  assumes "add_chances payload clean = Inr clean'"
  shows "clean' = clean \<or>
     (\<exists>p b. clean' = clean(''predicted_p'' \<mapsto> p, ''baseline_p'' \<mapsto> b) \<and> unit_float p \<and> unit_float b)"
proof (cases "number_of payload ''predicted_p''"; cases "number_of payload ''baseline_p''")
  fix p b
  assume n: "number_of payload ''predicted_p'' = Some p" "number_of payload ''baseline_p'' = Some b"
  then have "is_probability p" "is_probability b"
    and c: "clean' = clean(''predicted_p'' \<mapsto> val_of_float p, ''baseline_p'' \<mapsto> val_of_float b)"
    using assms by (simp_all add: add_chances_def split: if_splits)
  then show ?thesis using unit_float_val n by blast
qed (use assms in \<open>simp_all add: add_chances_def\<close>)

lemma add_matched_textD:
  "add_matched_text payload c = Inr clean' \<Longrightarrow>
     clean' = c \<or> (\<exists>m. clean' = c(''matched_context'' \<mapsto> VStr m) \<and> clean_text max_matched_runes m)"
  by (auto simp: add_matched_text_def clean_text_def Let_def split: if_splits)

lemma add_matchedD:
  assumes "add_matched payload clean = Inr clean'"
  shows "\<exists>c. (c = clean \<or> (\<exists>s. c = clean(''matched_score'' \<mapsto> s) \<and> unit_float s)) \<and>
         (clean' = c \<or> (\<exists>m. clean' = c(''matched_context'' \<mapsto> VStr m) \<and> clean_text max_matched_runes m))"
proof (cases "number_of payload ''matched_score''")
  case None
  then have m: "add_matched_text payload clean = Inr clean'" using assms by (simp add: add_matched_def)
  show ?thesis using add_matched_textD [OF m] by (intro exI [of _ clean] conjI) simp_all
next
  case (Some s)
  let ?c = "clean(''matched_score'' \<mapsto> val_of_float s)"
  have p: "is_probability s" and m: "add_matched_text payload ?c = Inr clean'"
    using assms Some by (simp_all add: add_matched_def split: if_splits)
  have "\<exists>v. ?c = clean(''matched_score'' \<mapsto> v) \<and> unit_float v" using unit_float_val [OF Some p] by blast
  then show ?thesis using add_matched_textD [OF m] by (intro exI [of _ ?c]) (rule conjI [OF disjI2])
qed

lemma build_record_ok: "build_record payload = Inr clean \<Longrightarrow> record_request clean"
proof -
  assume "build_record payload = Inr clean"
  then obtain ref action c d h where r: "required_ref payload = Inr ref" "required_action payload = Inr action"
    "required_context payload = Inr c"
    "add_detail payload [''ref'' \<mapsto> VStr ref, ''action'' \<mapsto> VStr action, ''context'' \<mapsto> VStr c] = Inr d"
    "add_chances payload d = Inr h" "add_matched payload h = Inr clean"
    unfolding build_record_def res_bind_iff by blast
  note facts = required_refD [OF r(1)] required_actionD [OF r(2)] required_contextD [OF r(3)]
  show ?thesis
    using add_detailD [OF r(4)] add_chancesD [OF r(5)] add_matchedD [OF r(6)] facts
    by (elim disjE exE conjE) (simp_all add: record_request_def request_simps)
qed

lemma add_actionD:
  "add_action payload clean = Inr clean' \<Longrightarrow>
     clean' = clean \<or> (\<exists>a. clean' = clean(''action'' \<mapsto> VStr a) \<and> action_name a)"
  by (auto simp: add_action_def Let_def split: if_splits)

lemma truncate_between:
  assumes "0 \<le> lo" and "of_int lo \<le> x" and "x \<le> of_int hi" and "hi < 2 ^ 63"
  shows "lo \<le> int_of_rat x \<and> int_of_rat x \<le> hi"
proof -
  have "0 \<le> x" using assms(1,2) by (metis of_int_0_le_iff order_trans)
  then have "truncate_rat x = \<lfloor>x\<rfloor>" by (simp add: truncate_rat_def)
  moreover have "lo \<le> \<lfloor>x\<rfloor>" "\<lfloor>x\<rfloor> \<le> hi" using assms(2,3) by (simp_all add: le_floor_iff floor_le_iff)
  moreover have "- (2 ^ 63) \<le> \<lfloor>x\<rfloor>" "\<lfloor>x\<rfloor> < 2 ^ 63" using calculation assms(1,4) by linarith+
  ultimately show ?thesis by (simp only: int_of_rat_def Let_def simp_thms if_True)
qed

lemma add_numberD:
  assumes "add_number key lo hi msg payload clean = Inr clean'" and "0 \<le> lo" and "hi < 2 ^ 63"
  shows "clean' = clean \<or> (\<exists>i. clean' = clean(key \<mapsto> VInt i) \<and> lo \<le> i \<and> i \<le> hi)"
proof (cases "number_of payload key")
  case (Some x)
  show ?thesis
  proof (cases x)
    case (Fin r)
    then have "of_int lo \<le> r" "r \<le> of_int hi" "clean' = clean(key \<mapsto> VInt (int_of_rat r))"
      using assms(1) Some by (auto simp: add_number_def split: if_splits)
    then show ?thesis using truncate_between assms(2,3) by blast
  qed (use assms(1) Some number_not_nan in \<open>auto simp: add_number_def\<close>)
qed (use assms(1) in \<open>simp add: add_number_def\<close>)

lemma build_recall_ok: "build_recall payload = Inr clean \<Longrightarrow> recall_request clean"
proof -
  assume "build_recall payload = Inr clean"
  then obtain c a k where r: "required_context payload = Inr c"
    "add_action payload [''context'' \<mapsto> VStr c, ''k'' \<mapsto> VInt default_recall_k] = Inr a"
    "add_number ''k'' 1 max_recall_k ''k must be between 1 and 50'' payload a = Inr k"
    and clean: "clean = with_include payload k"
    unfolding build_recall_def res_bind_iff by blast
  have "k = a \<or> (\<exists>i. k = a(''k'' \<mapsto> VInt i) \<and> 1 \<le> i \<and> i \<le> max_recall_k)"
    using add_numberD [OF r(3)] by (simp add: max_recall_k_def)
  then show ?thesis
    using required_contextD [OF r(1)] add_actionD [OF r(2)]
    by (elim disjE exE conjE)
      (simp_all add: clean recall_request_def request_simps default_recall_k_def max_recall_k_def)
qed

lemma add_stateD:
  "add_state payload clean = Inr clean' \<Longrightarrow>
     clean' = clean \<or> (\<exists>s. clean' = clean(''state'' \<mapsto> VStr s) \<and> s \<in> set [''all'', ''pending'', ''resolved''])"
  by (auto simp: add_state_def Let_def split: if_splits)

lemma build_list_ok: "build_list payload = Inr clean \<Longrightarrow> list_request clean"
proof -
  assume "build_list payload = Inr clean"
  then obtain a s l n where r: "add_action payload [''limit'' \<mapsto> VInt default_list_limit, ''offset'' \<mapsto> VInt 0] = Inr a"
    "add_state payload a = Inr s"
    "add_number ''limit'' 1 max_list_limit ''limit must be between 1 and 100'' payload s = Inr l"
    "add_number ''offset'' 0 max_list_offset ''offset must be between 0 and 1000000'' payload l = Inr n"
    and clean: "clean = with_include payload n"
    unfolding build_list_def res_bind_iff by blast
  have "l = s \<or> (\<exists>i. l = s(''limit'' \<mapsto> VInt i) \<and> 1 \<le> i \<and> i \<le> max_list_limit)"
    using add_numberD [OF r(3)] by (simp add: max_list_limit_def)
  moreover have "n = l \<or> (\<exists>i. n = l(''offset'' \<mapsto> VInt i) \<and> 0 \<le> i \<and> i \<le> max_list_offset)"
    using add_numberD [OF r(4)] by (simp add: max_list_offset_def)
  ultimately show ?thesis
    using add_actionD [OF r(1)] add_stateD [OF r(2)]
    by (elim disjE exE conjE)
      (simp_all add: clean list_request_def request_simps default_list_limit_def max_list_limit_def max_list_offset_def)
qed

lemma build_get_ok: "build_get payload = Inr clean \<Longrightarrow> ref_request [''include_context''] clean \<and> flag clean"
  by (auto simp: build_get_def ref_request_def request_simps dest: required_refD split: sum.splits)

lemma build_forget_ok: "build_forget payload = Inr clean \<Longrightarrow> ref_request [] clean"
  by (auto simp: build_forget_def ref_request_def request_simps dest: required_refD split: sum.splits)

lemma build_reindex_ok:
  "build_reindex payload = Inr clean \<Longrightarrow> only_keys clean [''limit''] \<and> allows clean ''limit'' (int_in 1 max_reindex_batch)"
proof -
  assume "build_reindex payload = Inr clean"
  then have "clean = Map.empty \<or> (\<exists>i. clean = [''limit'' \<mapsto> VInt i] \<and> 1 \<le> i \<and> i \<le> max_reindex_batch)"
    unfolding build_reindex_def by (rule add_numberD) (simp_all add: max_reindex_batch_def)
  then show ?thesis by (elim disjE exE conjE) (simp_all add: request_simps)
qed

lemma forwarded_ok:
  assumes "forwarded action = Some route" and "snd route payload = Inr clean"
  shows "store_request (fst route) clean \<and> fst route \<noteq> ''memory.resolve''"
  using assms build_record_ok build_recall_ok build_list_ok build_get_ok build_forget_ok build_reindex_ok
  by (auto simp: forwarded_def store_request_def split: if_splits)

subsection \<open>What the store is asked\<close>

text \<open>A store that records the requests it gets; its answers depend on all of them so far.\<close>

datatype store_call = Store_Call string gmap "gmap res"

definition recorded_store ::
    "(store_call list \<Rightarrow> string \<Rightarrow> gmap \<Rightarrow> gmap res) \<Rightarrow> store_call list memory_service" where
  "recorded_store f event p calls = (f calls event p, calls @ [Store_Call event p (f calls event p)])"

text \<open>
  Where a verdict may come from: the payload states it, or an observation in the payload was compared
  with what the store has just said was done.
\<close>

definition justified :: "(nat \<Rightarrow> nat) \<Rightarrow> gmap \<Rightarrow> store_call list \<Rightarrow> gmap \<Rightarrow> bool" where
  "justified orbit payload before_calls p \<longleftrightarrow>
     p ''outcome'' = Some (VStr (text_of payload ''outcome'')) \<and> text_of payload ''observed'' = [] \<or>
     text_of payload ''outcome'' = [] \<and> text_of payload ''observed'' \<noteq> [] \<and>
     (\<exists>ref stored. p ''ref'' = Some (VStr ref) \<and>
        Store_Call ''memory.get'' [''ref'' \<mapsto> VStr ref] (Inr stored) \<in> set before_calls \<and>
        bool_of (stored ''found'') \<and> text_of stored ''detail'' \<noteq> [] \<and>
        p ''outcome'' = Some (VStr
          (if equal_fold orbit (text_of stored ''detail'') (text_of payload ''observed'')
           then OutcomeAccepted else OutcomeReplaced)))"

fun store_permitted :: "(nat \<Rightarrow> nat) \<Rightarrow> gmap \<Rightarrow> store_call list \<Rightarrow> store_call \<Rightarrow> bool" where
  "store_permitted orbit payload before_calls (Store_Call event p answer) =
     (store_request event p \<and>
      (if event = ''memory.resolve'' then justified orbit payload before_calls p else True))"

lemma resolve_request_ok:
  "clean_ref ref \<Longrightarrow> valid_outcome out \<Longrightarrow>
     store_request ''memory.resolve'' [''ref'' \<mapsto> VStr ref, ''outcome'' \<mapsto> VStr out]"
  by (simp add: store_request_def ref_request_def request_simps)

lemma get_request_ok: "clean_ref ref \<Longrightarrow> store_request ''memory.get'' [''ref'' \<mapsto> VStr ref]"
  by (simp add: store_request_def ref_request_def request_simps)

lemma resolve_observed_log:
  assumes "clean_ref ref" and "observed = text_of payload ''observed''" and "observed \<noteq> []"
    and "text_of payload ''outcome'' = []"
  shows "each_call (store_permitted orbit payload) []
           (snd (resolve_observed orbit (recorded_store f) ref observed []))"
  using assms get_request_ok [OF assms(1)]
    resolve_request_ok [OF assms(1), of OutcomeAccepted] resolve_request_ok [OF assms(1), of OutcomeReplaced]
  by (auto simp: resolve_observed_def recorded_store_def justified_def valid_outcome_def Outcomes_def Let_def
      split: sum.split)

lemma resolve_log:
  "each_call (store_permitted orbit payload) [] (snd (resolve_experience orbit (recorded_store f) payload []))"
proof (cases "required_ref payload")
  case (Inr ref)
  note ok = required_refD [OF Inr]
  show ?thesis
    using resolve_observed_log [OF ok refl, of payload orbit f] resolve_request_ok [OF ok]
    by (auto simp: resolve_experience_def Inr Let_def recorded_store_def justified_def)
qed (simp add: resolve_experience_def)

lemma predict_log:
  "each_call (store_permitted orbit payload) [] (snd (predict_experience config (recorded_store f) payload []))"
proof (cases "required_context payload")
  case c: (Inr c)
  show ?thesis
  proof (cases "required_action payload")
    case a: (Inr action)
    have "store_request ''memory.recall'' (with_include payload
            [''context'' \<mapsto> VStr c, ''action'' \<mapsto> VStr action, ''k'' \<mapsto> VInt predict_neighbors])"
      using required_contextD [OF c] required_actionD [OF a]
      by (simp add: store_request_def recall_request_def request_simps predict_neighbors_def max_recall_k_def)
    then show ?thesis
      by (auto simp: predict_experience_def c a recorded_store_def Let_def split: sum.split)
  qed (simp add: predict_experience_def c)
qed (simp add: predict_experience_def)

lemma score_log:
  "each_call (store_permitted orbit payload) [] (snd (score_experience config (recorded_store f) payload []))"
proof (cases "add_action payload [''limit'' \<mapsto> VInt score_window]")
  case (Inr request)
  have "store_request ''memory.resolved'' request"
    using add_actionD [OF Inr] by (elim disjE exE conjE) (simp_all add: store_request_def request_simps)
  then show ?thesis
    by (auto simp: score_experience_def Inr recorded_store_def Let_def split: sum.split)
qed (simp add: score_experience_def Let_def)

lemma forward_log:
  assumes "forwarded action = Some route"
  shows "each_call (store_permitted orbit payload) [] (snd (forward (recorded_store f) action route payload []))"
proof (cases "snd route payload")
  case (Inr clean)
  then show ?thesis
    using forwarded_ok [OF assms Inr] by (auto simp: forward_def recorded_store_def split: sum.split)
qed (simp add: forward_def)

text \<open>
  C27.  The store only ever gets well-formed requests, whatever the action and the payload and whatever it
  answers.  Each holds no key of its own accord but the ones the event knows; references, actions,
  contexts and details are trimmed and within their limits; numbers are whole and in range, chances
  between 0 and 1, a prediction always with its baseline.  And a verdict is only recorded as the
  payload states it or, for an observation, as accepted when it equals, up to case, the detail the
  store has just given for that reference and as replaced when it does not.
\<close>

theorem store_gets_valid_requests:
  "each_call (store_permitted orbit payload) []
     (snd (memory_handle orbit (Some \<lparr>md_service = Some (recorded_store f), md_config = config\<rparr>)
             event_type action payload []))"
  using resolve_log [of orbit payload f] predict_log [of orbit payload config f]
    score_log [of orbit payload config f] forward_log [of action _ orbit payload f]
  by (simp add: memory_handle_def split: option.split)

end
