(* ===== verification/Memory_Notes.thy ===== *)
theory Memory_Notes
  imports Memory_Domain
begin

section \<open>Notes for the experience memory\<close>

text \<open>
  \<open>hashtag.go\<close>, \<open>music.go\<close> and \<open>media_receipt.go\<close> of \<open>dokja_domain/dokja_memory\<close>: the observations
  the orchestrator prepares, and the requests they make of the memory domain.
\<close>

record memory_request =
  rq_action :: string
  rq_source :: string
  rq_payload :: gmap

definition hashtag_memory_request :: "string \<Rightarrow> gmap \<Rightarrow> memory_request" where
  "hashtag_memory_request action payload =
     \<lparr>rq_action = action, rq_source = ''orchestrator'', rq_payload = payload\<rparr>"

definition hashtag_suggest_action :: string where
  "hashtag_suggest_action = ''hashtag.suggest''"

definition bounded_hashtag_text :: "string \<Rightarrow> nat \<Rightarrow> string" where
  "bounded_hashtag_text s limit =
     (let s = trim_space s in if rune_count s > limit then cut_runes limit s else s)"

subsection \<open>Hashtags\<close>

record hashtag_match =
  hm_score :: f64
  hm_text :: string

record hashtag_prediction =
  hp_method :: string
  hp_predicted :: f64
  hp_baseline :: f64
  hp_support :: f64
  hp_resolved :: f64
  hp_insufficient :: bool
  hp_reason :: string

record hashtag_experience =
  hx_ref :: string
  hx_context :: string
  hx_hashtag :: string
  hx_match :: hashtag_match

definition hashtag_experience_ref :: "string \<Rightarrow> string" where
  "hashtag_experience_ref source_url = ''hashtag:'' @ hash32 (trim_space source_url)"

definition prepare_hashtag_experience ::
    "string \<Rightarrow> string \<Rightarrow> string \<Rightarrow> hashtag_match \<Rightarrow> hashtag_experience option" where
  "prepare_hashtag_experience source_url ctx tag match =
     (let ctx = bounded_hashtag_text ctx max_context_runes; tag = trim_space tag
      in if source_url = [] \<or> ctx = [] \<or> tag = [] then None
         else Some \<lparr>hx_ref = hashtag_experience_ref source_url, hx_context = ctx, hx_hashtag = tag,
                    hx_match = match\<lparr>hm_text := bounded_hashtag_text (hm_text match) max_matched_runes\<rparr>\<rparr>)"

definition hashtag_prediction_request :: "string \<Rightarrow> memory_request" where
  "hashtag_prediction_request ctx =
     hashtag_memory_request ActionPredictExperience
       [''action'' \<mapsto> VStr hashtag_suggest_action,
        ''context'' \<mapsto> VStr (bounded_hashtag_text ctx max_context_runes)]"

definition experience_prediction_request :: "hashtag_experience \<Rightarrow> memory_request" where
  "experience_prediction_request e = hashtag_prediction_request (hx_context e)"

definition hashtag_record_request :: "hashtag_experience \<Rightarrow> hashtag_prediction option \<Rightarrow> memory_request" where
  "hashtag_record_request e snapshot =
     (let r = [''ref'' \<mapsto> VStr (hx_ref e), ''action'' \<mapsto> VStr hashtag_suggest_action,
               ''context'' \<mapsto> VStr (hx_context e), ''detail'' \<mapsto> VStr (hx_hashtag e)];
          score = hm_score (hx_match e);
          r = (if fl_less (Fin 0) score
               then r(''matched_score'' \<mapsto> val_of_float (if fl_less score (Fin 1) then score else Fin 1)) else r);
          r = (if hm_text (hx_match e) \<noteq> [] then r(''matched_context'' \<mapsto> VStr (hm_text (hx_match e))) else r);
          r = (case snapshot of
                 None \<Rightarrow> r
               | Some p \<Rightarrow> r(''predicted_p'' \<mapsto> val_of_float (hp_predicted p),
                             ''baseline_p'' \<mapsto> val_of_float (hp_baseline p)))
      in hashtag_memory_request ActionRecordExperience r)"

definition hashtag_feedback_request :: "string \<Rightarrow> string \<Rightarrow> memory_request option" where
  "hashtag_feedback_request source_url tag =
     (let tag = trim_space tag
      in if source_url = [] \<or> tag = [] then None
         else Some (hashtag_memory_request ActionResolveExperience
                [''ref'' \<mapsto> VStr (hashtag_experience_ref source_url), ''observed'' \<mapsto> VStr tag]))"

subsection \<open>Music\<close>

definition music_listen_action :: string where
  "music_listen_action = ''music.listen:''"

definition ListenFinished :: string where "ListenFinished = ''finished''"
definition ListenSkipped :: string where "ListenSkipped = ''skipped''"
definition ListenStopped :: string where "ListenStopped = ''stopped''"

definition listen_outcomes :: "string \<rightharpoonup> string" where
  "listen_outcomes =
     [ListenFinished \<mapsto> OutcomeAccepted, ListenSkipped \<mapsto> OutcomeReplaced, ListenStopped \<mapsto> OutcomeIgnored]"

definition listener_pattern :: "string \<Rightarrow> bool" where
  "listener_pattern = matches_class digit 1 20"

record music_listen =
  ml_ref :: string
  ml_action :: string
  ml_song :: string
  ml_ended :: string
  ml_outcome :: string

text \<open>The separator is an en dash between spaces.\<close>

definition music_song :: "string \<Rightarrow> string \<Rightarrow> string" where
  "music_song title uploader =
     (let title = trim_space title; uploader = trim_space uploader
      in if title \<noteq> [] \<and> uploader \<noteq> []
         then bounded_hashtag_text (title @ [CHR 0x20, CHR 0xE2, CHR 0x80, CHR 0x93, CHR 0x20] @ uploader)
                max_matched_runes
         else bounded_hashtag_text (title @ uploader) max_matched_runes)"

definition prepare_music_listen ::
    "string \<Rightarrow> string \<Rightarrow> string \<Rightarrow> string \<Rightarrow> string \<Rightarrow> music_listen option" where
  "prepare_music_listen play person title uploader ended =
     (let song = music_song title uploader
      in case listen_outcomes ended of
           None \<Rightarrow> None
         | Some outcome \<Rightarrow>
             if \<not> listener_pattern person \<or> song = [] \<or> trim_space play = [] then None
             else Some \<lparr>ml_ref = ''music:'' @ hash32 play, ml_action = music_listen_action @ person,
                        ml_song = song, ml_ended = ended, ml_outcome = outcome\<rparr>)"

definition listen_record_request :: "music_listen \<Rightarrow> memory_request" where
  "listen_record_request l =
     hashtag_memory_request ActionRecordExperience
       [''ref'' \<mapsto> VStr (ml_ref l), ''action'' \<mapsto> VStr (ml_action l), ''context'' \<mapsto> VStr (ml_song l),
        ''detail'' \<mapsto> VStr (ml_ended l)]"

definition listen_resolve_request :: "music_listen \<Rightarrow> memory_request" where
  "listen_resolve_request l =
     hashtag_memory_request ActionResolveExperience
       [''ref'' \<mapsto> VStr (ml_ref l), ''outcome'' \<mapsto> VStr (ml_outcome l)]"

definition music_history_request :: "string \<Rightarrow> int \<Rightarrow> memory_request option" where
  "music_history_request person limit =
     (if \<not> listener_pattern person then None
      else Some (hashtag_memory_request ActionListExperience
        [''action'' \<mapsto> VStr (music_listen_action @ person), ''state'' \<mapsto> VStr ''resolved'',
         ''limit'' \<mapsto> val_of_float (fl_of_int limit), ''include_context'' \<mapsto> VBool True]))"

record music_play =
  mp_song :: string
  mp_ended :: string

definition music_history :: "gmap \<Rightarrow> music_play list" where
  "music_history listing =
     filter (\<lambda>p. mp_song p \<noteq> [])
       (map (\<lambda>item. let e = map_in (Some item)
                    in \<lparr>mp_song = str_of (e ''context_snippet''), mp_ended = str_of (e ''detail'')\<rparr>)
          (list_in (listing ''experiences'')))"

subsection \<open>Media receipts\<close>

record media_delivery =
  dl_url :: string
  dl_requested :: bool
  dl_confirmed :: int

record media_receipt =
  rc_attempted :: bool
  rc_marked :: bool

record 'w media_receipt_policy =
  rp_recorder :: "(string \<Rightarrow> 'w \<Rightarrow> gerror option \<times> 'w) option"
  rp_enabled :: bool

definition record_receipt ::
    "'w media_receipt_policy \<Rightarrow> media_delivery \<Rightarrow> 'w \<Rightarrow> (media_receipt \<times> gerror option) \<times> 'w" where
  "record_receipt p d w =
     (case rp_recorder p of
        Some mark \<Rightarrow>
          if \<not> rp_enabled p \<or> \<not> dl_requested d \<or> dl_url d = [] \<or> dl_confirmed d < 1
          then ((\<lparr>rc_attempted = False, rc_marked = False\<rparr>, None), w)
          else (case mark (dl_url d) w of
                  (err, w') \<Rightarrow> ((\<lparr>rc_attempted = True, rc_marked = (err = None)\<rparr>, err), w'))
      | None \<Rightarrow> ((\<lparr>rc_attempted = False, rc_marked = False\<rparr>, None), w))"

subsection \<open>Plain text passes every check\<close>

lemma plain_clean:
  assumes "list_all plain s"
  shows "rune_count s = length s" and "\<not> has_control s"
proof -
  show "rune_count s = length s" using plain_runes [OF assms] by (simp add: rune_count_def)
  have "list_ex is_control (map byte s) = False"
    using assms by (induction s) (auto simp: plain_def is_control_def)
  then show "\<not> has_control s" using plain_runes [OF assms] by (simp add: has_control_def runes_def comp_def)
qed

lemma hex_plain: "hex_char c \<Longrightarrow> plain c"
  by (auto simp: hex_char_def plain_def)

lemma hash32_plain: "list_all plain (hash32 s)"
  using hash32_shape [of s] hex_plain by (auto simp: list_all_iff)

lemma rune_count_le_length: "rune_count s \<le> length s"
proof (induction s rule: decode_all.induct)
  case (1 s)
  show ?case
  proof (cases "s = []")
    case False
    then have "rune_count s = Suc (rune_count (drop (snd (decode_rune s)) s))"
      by (simp add: rune_count_def decode_all.simps [of s])
    also have "\<dots> \<le> Suc (length s - snd (decode_rune s))" using 1 [OF False] by simp
    finally show ?thesis using decode_rune_width_pos [OF False] False by (cases s) auto
  qed simp
qed

lemma length_cut: "length (cut_runes n s) \<le> 4 * n"
proof -
  have "length (string_of_runes rs) \<le> 4 * length rs" for rs
    by (induction rs) (auto simp: string_of_runes_def encode_rune_def)
  from this [of "take n (runes s)"] show ?thesis unfolding cut_runes_def by (rule order_trans) simp
qed

lemma length_trim_space: "length (trim_space s) \<le> length s"
  using trim_right_prefix [of "trim_left s"] strip_suffix [of space_runes s]
  by (auto simp: trim_space_def trim_left_def dest!: prefix_length_le suffix_length_le)

text \<open>Bounded text that is not empty stays within four times its bound when it is trimmed again.\<close>

lemma bounded_text_clean:
  assumes "bounded_hashtag_text s n \<noteq> []" and "0 < n"
  shows "clean_text (4 * n) (trim_space (bounded_hashtag_text s n))"
proof (cases "rune_count (trim_space s) > n")
  case True
  then have b: "bounded_hashtag_text s n = cut_runes n (trim_space s)" by (simp add: bounded_hashtag_text_def)
  have "trim_space s \<noteq> []" using True by auto
  then have "trim_space (cut_runes n (trim_space s)) \<noteq> []" using cut_not_blank assms(2) by blast
  moreover have "rune_count (trim_space (cut_runes n (trim_space s))) \<le> 4 * n"
    using rune_count_le_length [of "trim_space (cut_runes n (trim_space s))"]
      length_trim_space [of "cut_runes n (trim_space s)"] length_cut [of n "trim_space s"] by linarith
  ultimately show ?thesis by (simp add: b clean_text_def)
next
  case False
  then have "bounded_hashtag_text s n = trim_space s" "rune_count (trim_space s) \<le> 4 * n"
    by (simp_all add: bounded_hashtag_text_def)
  then show ?thesis using assms(1) by (simp add: clean_text_def)
qed

subsection \<open>Music notes\<close>

lemma listener_action:
  assumes "listener_pattern person"
  shows "action_name (music_listen_action @ person)" and "list_all plain (music_listen_action @ person)"
proof -
  have p: "list_all digit person" "length person \<le> 20"
    using assms by (simp_all add: listener_pattern_def matches_class_def)
  then have "list_all action_char person" by (auto simp: action_char_def list_all_iff)
  then show "action_name (music_listen_action @ person)"
    using p(2) by (simp add: action_name_def matches_class_def music_listen_action_def action_char_def)
  have "list_all plain person" using p(1) digit_plain by (auto simp: list_all_iff)
  then show "list_all plain (music_listen_action @ person)"
    by (simp add: music_listen_action_def plain_def)
qed

lemma listen_endings:
  assumes "listen_outcomes ended = Some outcome"
  shows "list_all plain ended \<and> ended \<noteq> [] \<and> length ended \<le> 200 \<and>
    list_all plain outcome \<and> outcome \<noteq> [] \<and> valid_outcome outcome"
  using assms
  by (auto simp: listen_outcomes_def ListenFinished_def ListenSkipped_def ListenStopped_def plain_def
      OutcomeAccepted_def OutcomeReplaced_def OutcomeIgnored_def valid_outcome_def Outcomes_def split: if_splits)

text \<open>
  A listening that is noted is never lost to the domain's own checks.  Whatever the title, the
  uploader and the name of the playing, once a note is prepared the domain passes both of its
  requests on, unchanged but for the trimmed song: the record with the listener's action and the
  ending, then the verdict that belongs to the ending.
\<close>

theorem music_note_is_kept:
  assumes "prepare_music_listen play person title uploader ended = Some l"
    and "d = Some \<lparr>md_service = Some dispatch, md_config = config\<rparr>"
  shows "memory_handle orbit d event_type (rq_action (listen_record_request l)) (rq_payload (listen_record_request l)) w =
      dispatch ''memory.record'' [''ref'' \<mapsto> VStr (ml_ref l), ''action'' \<mapsto> VStr (music_listen_action @ person),
        ''context'' \<mapsto> VStr (trim_space (ml_song l)), ''detail'' \<mapsto> VStr ended] w \<and>
    memory_handle orbit d event_type (rq_action (listen_resolve_request l)) (rq_payload (listen_resolve_request l)) w =
      dispatch ''memory.resolve'' [''ref'' \<mapsto> VStr (ml_ref l), ''outcome'' \<mapsto> VStr (the (listen_outcomes ended))] w"
proof -
  obtain outcome where o: "listen_outcomes ended = Some outcome" and person: "listener_pattern person"
    and song: "music_song title uploader \<noteq> []"
    and l: "ml_ref l = ''music:'' @ hash32 play" "ml_action l = music_listen_action @ person"
      "ml_song l = music_song title uploader" "ml_ended l = ended" "ml_outcome l = outcome"
    using assms(1) by (auto simp: prepare_music_listen_def Let_def split: option.splits if_splits)
  note e = listen_endings [OF o]
  have "list_all plain (ml_ref l)" using hash32_plain by (simp add: l plain_def)
  note ref = plain_trim [OF this] plain_clean [OF this]
  have len: "length (ml_ref l) \<le> max_ref_len" "ml_ref l \<noteq> []"
    using hash32_shape [of play] by (simp_all add: l max_ref_len_def)
  have "clean_text 800 (trim_space (ml_song l))"
    using song bounded_text_clean [of _ max_matched_runes]
    by (auto simp: l music_song_def Let_def max_matched_runes_def split: if_splits)
  then have c: "trim_space (ml_song l) \<noteq> []" "rune_count (trim_space (ml_song l)) \<le> max_context_runes"
    by (auto simp: clean_text_def max_context_runes_def)
  note act = listener_action [OF person]
  note texts = plain_trim [OF act(2)] plain_trim [of ended] plain_clean [of ended] plain_trim [of outcome]
  have act_nonempty: "music_listen_action @ person \<noteq> []" by (simp add: music_listen_action_def)
  let ?p = "rq_payload (listen_record_request l)"
  have t: "text_of ?p ''ref'' = ml_ref l" "text_of ?p ''action'' = music_listen_action @ person"
    "text_of ?p ''context'' = trim_space (ml_song l)" "text_of ?p ''detail'' = ended"
    "text_of ?p ''matched_context'' = []" "number_of ?p ''predicted_p'' = None"
    "number_of ?p ''baseline_p'' = None" "number_of ?p ''matched_score'' = None"
    using ref texts e
    by (simp_all add: text_of_def number_of_def listen_record_request_def hashtag_memory_request_def l)
  have r: "build_record ?p = Inr [''ref'' \<mapsto> VStr (ml_ref l), ''action'' \<mapsto> VStr (music_listen_action @ person),
        ''context'' \<mapsto> VStr (trim_space (ml_song l)), ''detail'' \<mapsto> VStr ended]"
    using t ref len c act(1) act_nonempty e texts
    by (simp add: build_record_def required_ref_def required_action_def required_context_def add_detail_def
        add_chances_def add_matched_def add_matched_text_def Let_def max_detail_runes_def)
  have f: "forwarded ActionRecordExperience = Some (''memory.record'', build_record)"
    by (simp add: forwarded_def ActionRecordExperience_def ActionRecallExperience_def ActionGetExperience_def
        ActionListExperience_def ActionForgetExperience_def ActionInspectMemory_def ActionReindexMemory_def)
  have 1: "rq_action (listen_record_request l) = ActionRecordExperience"
    "rq_action (listen_resolve_request l) = ActionResolveExperience"
    by (simp_all add: listen_record_request_def listen_resolve_request_def hashtag_memory_request_def)
  have rec: "memory_handle orbit d event_type ActionRecordExperience ?p w =
      forward dispatch ActionRecordExperience (''memory.record'', build_record) ?p w"
    unfolding assms(2) memory_handle_def
    by (simp add: f) (simp add: ActionRecordExperience_def ActionResolveExperience_def ActionPredictExperience_def
        ActionScoreExperience_def)
  let ?q = "rq_payload (listen_resolve_request l)"
  have q: "text_of ?q ''ref'' = ml_ref l" "text_of ?q ''outcome'' = outcome" "text_of ?q ''observed'' = []"
    using ref texts e
    by (simp_all add: text_of_def listen_resolve_request_def hashtag_memory_request_def l)
  have "memory_handle orbit d event_type ActionResolveExperience ?q w =
      dispatch ''memory.resolve'' [''ref'' \<mapsto> VStr (ml_ref l), ''outcome'' \<mapsto> VStr outcome] w"
    using q ref len e by (simp add: assms(2) memory_handle_def resolve_experience_def required_ref_def Let_def)
  then show ?thesis
    unfolding 1 rec
    by (auto simp: forward_def r o ActionRecordExperience_def ActionGetExperience_def ActionListExperience_def
        split: prod.split sum.split)
qed

definition down_store :: "nat memory_service" where
  "down_store event p calls = (Inl (Errorf ''down''), Suc calls)"

lemma music_note_is_kept_witness:
  "\<exists>l. prepare_music_listen ''1'' ''42'' ''Song'' [] ''skipped'' = Some l \<and>
     memory_handle id (Some \<lparr>md_service = Some down_store, md_config = default_config\<rparr>) ''memory.note''
       (rq_action (listen_record_request l)) (rq_payload (listen_record_request l)) 0 = (Inl (Errorf ''down''), 1)"
proof -
  have plain: "list_all plain ''Song''" "list_all plain ''1''" by (simp_all add: plain_def)
  then have "music_song ''Song'' [] = ''Song''"
    using plain_trim [OF plain(1)] plain_clean(1) [OF plain(1)]
    by (simp add: music_song_def bounded_hashtag_text_def max_matched_runes_def)
  then obtain l where l: "prepare_music_listen ''1'' ''42'' ''Song'' [] ''skipped'' = Some l"
    using plain_trim [OF plain(2)]
    by (simp add: prepare_music_listen_def listen_outcomes_def ListenFinished_def ListenSkipped_def
        ListenStopped_def listener_pattern_def matches_class_def digit_def)
  have "fst (memory_handle id (Some \<lparr>md_service = Some down_store, md_config = default_config\<rparr>) ''memory.note''
       (rq_action (listen_record_request l)) (rq_payload (listen_record_request l)) 0) = Inl (Errorf ''down'') \<and>
     snd (memory_handle id (Some \<lparr>md_service = Some down_store, md_config = default_config\<rparr>) ''memory.note''
       (rq_action (listen_record_request l)) (rq_payload (listen_record_request l)) 0) = 1"
    using music_note_is_kept [OF l refl, of id down_store default_config "''memory.note''" 0]
    by (simp add: down_store_def)
  then show ?thesis using l by (metis prod.collapse)
qed

end
