(* ===== verification/App_Records.thy ===== *)
theory App_Records
  imports Memory_Notes
begin

section \<open>Records of applied knowledge\<close>

text \<open>
  \<open>dokja_domain/dokja_memory/application/records.go\<close>: what an attempt, its observations, its
  prediction and the episode that holds them must be.  \<open>json\<close>, the encoding of \<open>encoding/json\<close>, is a
  parameter: it gives the bytes of a value, or nothing for a value that cannot be encoded.  A
  \<open>time.Time\<close> is a number of nanoseconds, zero for the zero time; \<open>uint64\<close> is a 64-bit word.
\<close>

definition AttemptContract :: string where "AttemptContract = ''knowledge.application.attempt.v1''"
definition ObservationContract :: string where "ObservationContract = ''knowledge.application.observation.v1''"
definition PredictionContract :: string where "PredictionContract = ''knowledge.application.prediction.v1''"
definition EpisodeContract :: string where "EpisodeContract = ''knowledge.application.episode.v1''"
definition MaxRecordBytes :: nat where "MaxRecordBytes = 65536"
definition MaxSources :: nat where "MaxSources = 8"
definition MaxChecks :: nat where "MaxChecks = 16"
definition MaxEvidence :: nat where "MaxEvidence = 16"
definition MaxCandidates :: nat where "MaxCandidates = 32"

record binding =
  bd_ref :: string
  bd_version :: string

record evidence =
  ev_ref :: string
  ev_hash :: string

record stamp =
  sp_contract :: string
  sp_ref :: string
  sp_scope :: string
  sp_accepted_at :: int

record attempt =
  at_stamp :: stamp
  at_application :: string
  at_workspace_task :: string
  at_workspace_attempt :: string
  at_proposal :: string
  at_state_revision :: "64 word"
  at_method :: binding
  at_criterion :: binding
  at_input_digest :: string
  at_sources :: "evidence list"
  at_prerequisites :: "evidence list"
  at_authorization :: string
  at_dispatch_mode :: string
  at_phase :: string
  at_dispatched_at :: "int option"

record observation =
  ob_stamp :: stamp
  ob_application :: string
  ob_attempt :: string
  ob_input_digest :: string
  ob_criterion :: binding
  ob_kind :: string
  ob_observer :: string
  ob_outcome :: string
  ob_evidence :: "evidence list"
  ob_occurred_at :: "int option"
  ob_supersedes :: string

record forecast =
  fo_stamp :: stamp
  fo_application :: string
  fo_attempt :: string
  fo_state_revision :: "64 word"
  fo_criterion :: binding
  fo_target :: string
  fo_status :: string
  fo_predictor :: binding
  fo_horizon :: int
  fo_evidence :: "evidence list"
  fo_probability :: "f64 option"
  fo_baseline :: "f64 option"

record episode =
  ep_stamp :: stamp
  ep_revision :: "64 word"
  ep_attempt :: attempt
  ep_observations :: "observation list"
  ep_constraints :: "string list"
  ep_prediction :: "forecast option"

text \<open>What the code encodes: the records here and the commands of the journal.\<close>

record journal_key =
  jk_scope :: string
  jk_episode :: string
  jk_attempt :: string
  jk_operation :: string

record begin_record =
  br_key :: journal_key
  br_attempt :: attempt
  br_constraints :: "string list"
  br_prediction :: "forecast option"

record change_record =
  cr_key :: journal_key
  cr_expected :: "64 word"

record observe_record =
  or_change :: change_record
  or_observation :: observation

datatype app_value =
    Attempt_Value attempt
  | Observation_Value observation
  | Forecast_Value forecast
  | Episode_Value episode
  | Begin_Value begin_record
  | Change_Value change_record
  | Observe_Value observe_record
  | Command_Value string app_value

type_synonym json = "app_value \<Rightarrow> string option"

abbreviation "ob_ref b \<equiv> sp_ref (ob_stamp b)"
abbreviation "ob_accepted b \<equiv> sp_accepted_at (ob_stamp b)"
abbreviation "at_ref a \<equiv> sp_ref (at_stamp a)"
abbreviation "at_scope a \<equiv> sp_scope (at_stamp a)"
abbreviation "at_accepted a \<equiv> sp_accepted_at (at_stamp a)"
abbreviation "ep_ref e \<equiv> sp_ref (ep_stamp e)"
abbreviation "ep_scope e \<equiv> sp_scope (ep_stamp e)"
abbreviation "ep_accepted e \<equiv> sp_accepted_at (ep_stamp e)"

subsection \<open>Parts of a record\<close>

text \<open>\<open>^sha256:[a-f0-9]{64}$\<close>\<close>

definition digest_pattern :: "string \<Rightarrow> bool" where
  "digest_pattern s \<longleftrightarrow> prefix ''sha256:'' s \<and> matches_class hex_char 64 64 (drop 7 s)"

definition valid_ref :: "string \<Rightarrow> bool" where
  "valid_ref s \<longleftrightarrow> trim_space s = s \<and> s \<noteq> [] \<and> length s \<le> 256 \<and> utf8_valid s \<and> \<not> has_control s"

definition valid_binding :: "binding \<Rightarrow> bool" where
  "valid_binding b \<longleftrightarrow> valid_ref (bd_ref b) \<and> valid_ref (bd_version b)"

definition bounded_value :: "json \<Rightarrow> app_value \<Rightarrow> gerror option" where
  "bounded_value js v =
     (case js v of
        None \<Rightarrow> Some (Errorf ''invalid or oversized application record'')
      | Some b \<Rightarrow> if length b > MaxRecordBytes then Some (Errorf ''invalid or oversized application record'') else None)"

definition check_stamp :: "stamp \<Rightarrow> string \<Rightarrow> gerror option" where
  "check_stamp s contract =
     (if sp_contract s \<noteq> contract \<or> \<not> valid_ref (sp_ref s) \<or> \<not> valid_ref (sp_scope s) \<or> sp_accepted_at s = 0
      then Some (Errorf ''invalid record identity or acceptance time'') else None)"

fun check_items :: "string list \<Rightarrow> evidence list \<Rightarrow> gerror option" where
  "check_items seen [] = None"
| "check_items seen (e # es) =
     (if \<not> valid_ref (ev_ref e) \<or> \<not> digest_pattern (ev_hash e) \<or> contains_str seen (ev_ref e)
      then Some (Errorf ''invalid or duplicate evidence'')
      else check_items (ev_ref e # seen) es)"

definition check_evidence :: "evidence list \<Rightarrow> nat \<Rightarrow> bool \<Rightarrow> gerror option" where
  "check_evidence items limit required =
     (if length items > limit \<or> (required \<and> items = []) then Some (Errorf ''invalid evidence count'')
      else check_items [] items)"

text \<open>The first of a list of checks that fails.\<close>

fun first_error :: "gerror option list \<Rightarrow> gerror option" where
  "first_error [] = None"
| "first_error (Some e # cs) = Some e"
| "first_error (None # cs) = first_error cs"

definition refuse :: "bool \<Rightarrow> string \<Rightarrow> gerror option" where
  "refuse bad msg = (if bad then Some (Errorf msg) else None)"

subsection \<open>Attempts\<close>

definition check_phase :: "attempt \<Rightarrow> gerror option" where
  "check_phase a =
     (if at_phase a = ''prepared'' then refuse (at_dispatched_at a \<noteq> None) ''prepared attempt cannot claim dispatch''
      else if at_phase a = ''dispatched'' \<or> at_phase a = ''settled''
        then refuse (at_dispatched_at a = None) ''missing dispatch time''
      else if at_phase a = ''interrupted'' then None
      else Some (Errorf ''unknown attempt phase''))"

definition validate_attempt :: "json \<Rightarrow> attempt \<Rightarrow> gerror option" where
  "validate_attempt js a = first_error
     [bounded_value js (Attempt_Value a),
      check_stamp (at_stamp a) AttemptContract,
      refuse (\<not> list_all valid_ref [at_application a, at_workspace_task a, at_workspace_attempt a,
                                    at_proposal a, at_authorization a]) ''incomplete attempt binding'',
      refuse (at_state_revision a = 0 \<or> \<not> valid_binding (at_method a) \<or> \<not> valid_binding (at_criterion a) \<or>
              \<not> digest_pattern (at_input_digest a)) ''invalid attempt version or input'',
      check_evidence (at_sources a) MaxSources True,
      check_evidence (at_prerequisites a) MaxChecks False,
      refuse (at_dispatch_mode a \<noteq> ''registered_capability'' \<and> at_dispatch_mode a \<noteq> ''operator_report'')
        ''unsupported dispatch mode'',
      check_phase a,
      (case at_dispatched_at a of
         None \<Rightarrow> None
       | Some t \<Rightarrow> refuse (t = 0 \<or> t < at_accepted a) ''invalid dispatch order'')]"

subsection \<open>Observations\<close>

definition validate_observation :: "json \<Rightarrow> attempt \<Rightarrow> observation \<Rightarrow> gerror option" where
  "validate_observation js a b = first_error
     [validate_attempt js a,
      bounded_value js (Observation_Value b),
      check_stamp (ob_stamp b) ObservationContract,
      refuse (sp_scope (ob_stamp b) \<noteq> at_scope a \<or> ob_application b \<noteq> at_application a \<or> ob_attempt b \<noteq> at_ref a \<or>
              ob_input_digest b \<noteq> at_input_digest a \<or> ob_criterion b \<noteq> at_criterion a)
        ''observation does not bind to this attempt'',
      (case at_dispatched_at a of
         None \<Rightarrow> Some (Errorf ''observation requires prior dispatch'')
       | Some t \<Rightarrow> refuse (ob_accepted b < t) ''observation requires prior dispatch''),
      refuse (\<not> valid_ref (ob_observer b) \<or>
              (ob_supersedes b \<noteq> [] \<and> (\<not> valid_ref (ob_supersedes b) \<or> ob_supersedes b = ob_ref b)))
        ''invalid observer or correction'',
      refuse (ob_kind b \<notin> set [''executor_receipt'', ''operator_report'', ''simulation'']) ''unknown observation kind'',
      refuse (ob_outcome b \<notin> set [''unknown'', ''succeeded'', ''failed'', ''partial'']) ''unknown observed result'',
      refuse (ob_occurred_at b = Some 0) ''invalid occurrence time'',
      check_evidence (ob_evidence b) MaxEvidence True]"

subsection \<open>Predictions\<close>

definition finite_chance :: "f64 option \<Rightarrow> bool" where
  "finite_chance v = (case v of None \<Rightarrow> True | Some x \<Rightarrow> is_probability x)"

definition validate_forecast :: "json \<Rightarrow> attempt \<Rightarrow> forecast \<Rightarrow> gerror option" where
  "validate_forecast js a p = first_error
     [validate_attempt js a,
      bounded_value js (Forecast_Value p),
      check_stamp (fo_stamp p) PredictionContract,
      refuse (sp_scope (fo_stamp p) \<noteq> at_scope a \<or> fo_application p \<noteq> at_application a \<or> fo_attempt p \<noteq> at_ref a \<or>
              fo_state_revision p \<noteq> at_state_revision a \<or> fo_criterion p \<noteq> at_criterion a)
        ''prediction does not bind to this attempt'',
      refuse (\<not> valid_binding (fo_predictor p) \<or> fo_target p \<noteq> ''criterion_satisfied'' \<or>
              \<not> sp_accepted_at (fo_stamp p) < fo_horizon p \<or> sp_accepted_at (fo_stamp p) < at_accepted a)
        ''invalid prediction target or horizon'',
      (case at_dispatched_at a of
         None \<Rightarrow> None
       | Some t \<Rightarrow> refuse (\<not> sp_accepted_at (fo_stamp p) < t \<or> \<not> t < fo_horizon p)
                     ''forecast must precede dispatch and cover it''),
      refuse (\<not> finite_chance (fo_probability p) \<or> \<not> finite_chance (fo_baseline p)) ''invalid forecast probability'',
      refuse ((fo_status p = ''estimated'' \<and> fo_probability p = None) \<or>
              (fo_status p = ''insufficient_evidence'' \<and> fo_probability p \<noteq> None) \<or>
              (fo_status p \<noteq> ''estimated'' \<and> fo_status p \<noteq> ''insufficient_evidence''))
        ''invalid forecast status'',
      check_evidence (fo_evidence p) MaxEvidence False]"

subsection \<open>Episodes\<close>

fun check_constraints :: "string list \<Rightarrow> string list \<Rightarrow> gerror option" where
  "check_constraints seen [] = None"
| "check_constraints seen (c # cs) =
     (if \<not> valid_ref c \<or> contains_str seen c then Some (Errorf ''invalid or duplicate context constraint'')
      else check_constraints (c # seen) cs)"

text \<open>\<open>json.Marshal\<close> with its error ignored gives no bytes when it fails.\<close>

definition same_json :: "json \<Rightarrow> app_value \<Rightarrow> app_value \<Rightarrow> bool" where
  "same_json js v w \<longleftrightarrow> case_option [] id (js v) = case_option [] id (js w)"

text \<open>The loop over the observations builds the map of the last one of each reference.\<close>

fun check_observations ::
    "json \<Rightarrow> attempt \<Rightarrow> int \<Rightarrow> (string \<rightharpoonup> observation) \<Rightarrow> observation list \<Rightarrow> (string \<rightharpoonup> observation) res" where
  "check_observations js a accepted seen [] = Inr seen"
| "check_observations js a accepted seen (b # bs) =
     (case validate_observation js a b of
        Some e \<Rightarrow> Inl e
      | None \<Rightarrow>
          if accepted < ob_accepted b then Inl (Errorf ''episode predates observation'')
          else if (case seen (ob_ref b) of
                     None \<Rightarrow> False
                   | Some prior \<Rightarrow> \<not> same_json js (Observation_Value prior) (Observation_Value b))
          then Inl (Errorf ''observation reference conflict'')
          else check_observations js a accepted (seen(ob_ref b \<mapsto> b)) bs)"

definition correction_ok :: "(string \<rightharpoonup> observation) \<Rightarrow> observation \<Rightarrow> bool" where
  "correction_ok seen b \<longleftrightarrow>
     ob_supersedes b = [] \<or>
     (case seen (ob_supersedes b) of
        None \<Rightarrow> False
      | Some old \<Rightarrow> ob_kind b = ob_kind old \<and> ob_observer b = ob_observer old \<and> ob_accepted old < ob_accepted b)"

text \<open>
  The second loop ranges over the map; its error is the same whichever entry fails first, so the
  references of the list are the keys it needs.
\<close>

definition check_corrections :: "(string \<rightharpoonup> observation) \<Rightarrow> observation list \<Rightarrow> gerror option" where
  "check_corrections seen bs =
     refuse (\<not> list_all (\<lambda>b. case seen (ob_ref b) of None \<Rightarrow> True | Some newest \<Rightarrow> correction_ok seen newest) bs)
       ''correction needs an earlier original observation''"

definition validate_episode :: "json \<Rightarrow> episode \<Rightarrow> gerror option" where
  "validate_episode js e =
     (case first_error
        [bounded_value js (Episode_Value e),
         check_stamp (ep_stamp e) EpisodeContract,
         validate_attempt js (ep_attempt e),
         refuse (ep_revision e = 0 \<or> ep_scope e \<noteq> at_scope (ep_attempt e) \<or> ep_accepted e < at_accepted (ep_attempt e) \<or>
                 length (ep_observations e) > MaxEvidence \<or> length (ep_constraints e) > MaxChecks)
           ''invalid episode scope, revision or bounds'',
         check_constraints [] (ep_constraints e),
         refuse (at_phase (ep_attempt e) = ''settled'' \<and> ep_observations e = []) ''settled attempt needs an observation''] of
        Some err \<Rightarrow> Some err
      | None \<Rightarrow>
          case check_observations js (ep_attempt e) (ep_accepted e) Map.empty (ep_observations e) of
            Inl err \<Rightarrow> Some err
          | Inr seen \<Rightarrow> first_error
              [check_corrections seen (ep_observations e),
               (case ep_prediction e of
                  None \<Rightarrow> None
                | Some p \<Rightarrow> first_error
                    [refuse (ep_accepted e < sp_accepted_at (fo_stamp p)) ''episode predates prediction'',
                     validate_forecast js (ep_attempt e) p])])"

end
