(* ===== verification/App_Eligibility.thy ===== *)
theory App_Eligibility
  imports App_Records
begin

section \<open>Which observations may inform later work\<close>

text \<open>
  \<open>dokja_domain/dokja_memory/application/eligibility.go\<close>.  The query's callbacks are optional
  functions, as they may be nil; its two maps are partial.
\<close>

record query =
  qy_applicable :: bool
  qy_verify_attempt :: "(attempt \<Rightarrow> bool) option"
  qy_scope :: string
  qy_purpose :: string
  qy_method :: binding
  qy_criterion :: binding
  qy_as_of :: int
  qy_versions :: "string \<rightharpoonup> string"
  qy_satisfied :: "string \<rightharpoonup> bool"
  qy_can_read :: "(string \<Rightarrow> string \<Rightarrow> bool) option"
  qy_admit :: "(observation \<Rightarrow> bool) option"
  qy_reports :: bool

record decision =
  dc_episode :: string
  dc_outcome :: string
  dc_eligible :: bool
  dc_reasons :: "string list"

record selection =
  sl_status :: string
  sl_decisions :: "decision list"

record forecast_score =
  fs_brier :: f64
  fs_baseline_brier :: "f64 option"

text \<open>\<open>q.CanRead(scope, ref)\<close>, once it is known not to be nil, and the evidence check.\<close>

definition can_read :: "query \<Rightarrow> string \<Rightarrow> string \<Rightarrow> bool" where
  "can_read q scope r = (case qy_can_read q of None \<Rightarrow> False | Some f \<Rightarrow> f scope r)"

definition version_of :: "query \<Rightarrow> string \<Rightarrow> string" where
  "version_of q r = (case qy_versions q r of None \<Rightarrow> [] | Some v \<Rightarrow> v)"

definition evidence_current :: "query \<Rightarrow> string \<Rightarrow> evidence list \<Rightarrow> bool" where
  "evidence_current q scope = list_all (\<lambda>ev. can_read q scope (ev_ref ev) \<and> version_of q (ev_ref ev) = ev_hash ev)"

definition admits :: "query \<Rightarrow> observation \<Rightarrow> bool" where
  "admits q b = (case qy_admit q of None \<Rightarrow> False | Some f \<Rightarrow> f b)"

definition verifies :: "query \<Rightarrow> attempt \<Rightarrow> bool" where
  "verifies q a = (case qy_verify_attempt q of None \<Rightarrow> False | Some f \<Rightarrow> f a)"

text \<open>The checks before any observation is looked at; the reason of the first that fails.\<close>

fun first_reason :: "(bool \<times> string) list \<Rightarrow> string option" where
  "first_reason [] = None"
| "first_reason ((bad, reason) # cs) = (if bad then Some reason else first_reason cs)"

definition episode_reason :: "episode \<Rightarrow> query \<Rightarrow> string option" where
  "episode_reason e q = first_reason
     [(qy_scope q \<noteq> ep_scope e \<or> \<not> can_read q (ep_scope e) (ep_ref e) \<or>
         \<not> can_read q (ep_scope e) (at_ref (ep_attempt e)), ''scope_denied''),
      (qy_as_of q = 0 \<or> qy_as_of q < ep_accepted e, ''episode_not_yet_available''),
      (qy_method q \<noteq> at_method (ep_attempt e) \<or> qy_criterion q \<noteq> at_criterion (ep_attempt e),
         ''method_or_criterion_mismatch''),
      (\<not> verifies q (ep_attempt e), ''unverified_attempt''),
      (\<not> qy_applicable q, ''applicability_not_established''),
      (qy_purpose q \<notin> set [''success_support'', ''caution'', ''prediction'', ''diagnostic''], ''unsupported_use''),
      (\<not> evidence_current q (ep_scope e) (at_sources (ep_attempt e)) \<or>
         \<not> evidence_current q (ep_scope e) (at_prerequisites (ep_attempt e)), ''evidence_inaccessible_or_changed''),
      (\<not> list_all (\<lambda>c. qy_satisfied q c = Some True) (ep_constraints e), ''context_not_applicable''),
      (at_dispatched_at (ep_attempt e) = None, ''not_dispatched''),
      (qy_purpose q = ''prediction'' \<and>
         (case ep_prediction e of None \<Rightarrow> True | Some p \<Rightarrow> fo_status p \<noteq> ''estimated''), ''no_prior_estimate'')]"

text \<open>The first loop: every observation must be readable, current and admitted.\<close>

fun observations_reason :: "query \<Rightarrow> string \<Rightarrow> observation list \<Rightarrow> string option" where
  "observations_reason q scope [] = None"
| "observations_reason q scope (b # bs) =
     (case first_reason
        [(\<not> can_read q scope (ob_ref b), ''scope_denied''),
         (\<not> evidence_current q scope (ob_evidence b), ''evidence_inaccessible_or_changed''),
         (\<not> admits q b, ''unverified_observer'')] of
        Some r \<Rightarrow> Some r
      | None \<Rightarrow> observations_reason q scope bs)"

definition superseded_refs :: "observation list \<Rightarrow> string list" where
  "superseded_refs bs = map ob_supersedes (filter (\<lambda>b. ob_supersedes b \<noteq> []) bs)"

text \<open>
  The second loop: the outcome of the observations that count, with the references already seen and
  how many have counted; a reason ends it.
\<close>

definition outside_target :: "episode \<Rightarrow> observation \<Rightarrow> bool" where
  "outside_target e b =
     (case (ep_prediction e, ob_occurred_at b) of
        (Some p, Some t) \<Rightarrow>
          (case at_dispatched_at (ep_attempt e) of None \<Rightarrow> False | Some d \<Rightarrow> t < d) \<or> fo_horizon p < t
      | _ \<Rightarrow> True)"

fun observed_outcome ::
    "query \<Rightarrow> episode \<Rightarrow> string list \<Rightarrow> string list \<Rightarrow> nat \<Rightarrow> string \<Rightarrow> observation list \<Rightarrow> string \<times> string option" where
  "observed_outcome q e superseded seen n outcome [] = (outcome, None)"
| "observed_outcome q e superseded seen n outcome (b # bs) =
     (if contains_str superseded (ob_ref b) \<or> contains_str seen (ob_ref b)
      then observed_outcome q e superseded seen n outcome bs
      else if ob_kind b = ''simulation'' then
        (if qy_purpose q \<noteq> ''diagnostic'' then (outcome, Some ''simulation_not_observed_outcome'')
         else observed_outcome q e superseded (ob_ref b # seen) n outcome bs)
      else if ob_kind b = ''operator_report'' \<and> (\<not> qy_reports q \<or> qy_purpose q = ''prediction'')
        then (outcome, Some ''operator_report_not_permitted_for_use'')
      else if qy_purpose q = ''prediction'' \<and> outside_target e b
        then (outcome, Some ''observation_outside_prediction_target'')
      else observed_outcome q e superseded (ob_ref b # seen) (Suc n)
             (if n = 0 then ob_outcome b else if outcome \<noteq> ob_outcome b then ''conflicted'' else outcome) bs)"

definition eligible_outcome :: "string \<Rightarrow> string \<Rightarrow> bool" where
  "eligible_outcome purpose outcome =
     (if purpose = ''success_support'' then outcome = ''succeeded''
      else if purpose = ''caution'' then outcome = ''failed'' \<or> outcome = ''partial''
      else if purpose = ''prediction'' then outcome = ''succeeded'' \<or> outcome = ''failed''
      else purpose = ''diagnostic'')"

text \<open>What a prediction must still pass before its outcome is judged.\<close>

definition forecast_reason :: "episode \<Rightarrow> query \<Rightarrow> string option" where
  "forecast_reason e q =
     (case ep_prediction e of
        None \<Rightarrow> None
      | Some p \<Rightarrow>
          if qy_purpose q \<noteq> ''prediction'' then None
          else first_reason
            [(\<not> can_read q (ep_scope e) (sp_ref (fo_stamp p)), ''scope_denied''),
             (\<not> evidence_current q (ep_scope e) (fo_evidence p), ''evidence_inaccessible_or_changed'')])"

definition denied :: "episode \<Rightarrow> string \<Rightarrow> string \<Rightarrow> decision" where
  "denied e outcome reason =
     \<lparr>dc_episode = ep_ref e, dc_outcome = outcome, dc_eligible = False, dc_reasons = [reason]\<rparr>"

definition evaluate :: "json \<Rightarrow> episode \<Rightarrow> query \<Rightarrow> decision \<times> gerror option" where
  "evaluate js e q =
     (case validate_episode js e of
        Some err \<Rightarrow> (\<lparr>dc_episode = ep_ref e, dc_outcome = ''unknown'', dc_eligible = False, dc_reasons = []\<rparr>, Some err)
      | None \<Rightarrow>
          (case episode_reason e q of
             Some r \<Rightarrow> (denied e ''unknown'' r, None)
           | None \<Rightarrow>
          case observations_reason q (ep_scope e) (ep_observations e) of
             Some r \<Rightarrow> (denied e ''unknown'' r, None)
           | None \<Rightarrow>
          case observed_outcome q e (superseded_refs (ep_observations e)) [] 0 ''unknown'' (ep_observations e) of
             (outcome, Some r) \<Rightarrow> (denied e outcome r, None)
           | (outcome, None) \<Rightarrow>
               (case forecast_reason e q of
                  Some r \<Rightarrow> (denied e outcome r, None)
                | None \<Rightarrow>
                    if eligible_outcome (qy_purpose q) outcome
                    then (\<lparr>dc_episode = ep_ref e, dc_outcome = outcome, dc_eligible = True, dc_reasons = []\<rparr>, None)
                    else (denied e outcome ''outcome_not_eligible_for_use'', None))))"

subsection \<open>Selecting and scoring\<close>

text \<open>\<open>seen\<close> maps the key of an episode to its encoding; the error of \<open>Marshal\<close> is ignored.\<close>

fun select_from ::
    "json \<Rightarrow> query \<Rightarrow> (string \<times> string \<rightharpoonup> string) \<Rightarrow> selection \<Rightarrow> episode list \<Rightarrow> selection \<times> gerror option" where
  "select_from js q seen result [] = (result, None)"
| "select_from js q seen result (e # es) =
     (case evaluate js e q of
        (d, Some err) \<Rightarrow> (result, Some err)
      | (d, None) \<Rightarrow>
          let raw = case_option [] id (js (Episode_Value e))
          in case seen (ep_scope e, ep_ref e) of
               Some prior \<Rightarrow>
                 if prior \<noteq> raw then (result, Some (Errorf ''episode reference conflict''))
                 else select_from js q seen result es
             | None \<Rightarrow>
                 select_from js q (seen((ep_scope e, ep_ref e) \<mapsto> raw))
                   \<lparr>sl_status = (if dc_eligible d then ''eligible_evidence'' else sl_status result),
                    sl_decisions = sl_decisions result @ [d]\<rparr> es)"

definition select_episodes :: "json \<Rightarrow> episode list \<Rightarrow> query \<Rightarrow> selection \<times> gerror option" where
  "select_episodes js es q =
     (let start = \<lparr>sl_status = ''insufficient_evidence'', sl_decisions = []\<rparr>
      in if length es > MaxCandidates then (start, Some (Errorf ''at most 32 episode candidates''))
         else select_from js q Map.empty start es)"

text \<open>
  The score of a prediction.  The code reads the probability through its pointer: an eligible
  prediction is estimated and an estimate has one, so the other branch is not reached.
\<close>

definition squared_gap :: "f64 \<Rightarrow> f64 \<Rightarrow> f64" where
  "squared_gap p observed = (let d = fl_sub p observed in fl_mul d d)"

definition score_prediction :: "json \<Rightarrow> episode \<Rightarrow> query \<Rightarrow> forecast_score option \<times> decision \<times> gerror option" where
  "score_prediction js e q =
     (case evaluate js e (q\<lparr>qy_purpose := ''prediction''\<rparr>) of
        (d, err) \<Rightarrow>
          if err \<noteq> None \<or> \<not> dc_eligible d then (None, d, err)
          else let observed = (if dc_outcome d = ''succeeded'' then Fin 1 else Fin 0)
               in case ep_prediction e of
                    None \<Rightarrow> (None, d, err)
                  | Some p \<Rightarrow>
                      (case fo_probability p of
                         None \<Rightarrow> (None, d, err)
                       | Some x \<Rightarrow>
                           (Some \<lparr>fs_brier = squared_gap x observed,
                                  fs_baseline_brier = map_option (\<lambda>b. squared_gap b observed) (fo_baseline p)\<rparr>,
                            d, None)))"

end
