(* ===== verification/App_Journal.thy ===== *)
theory App_Journal
  imports App_Eligibility
begin

section \<open>The journal of applications\<close>

text \<open>
  \<open>dokja_domain/dokja_memory/application/journal.go\<close>.  The store behind \<open>JournalStore\<close> is a port: a
  function that is given the key and the callback and runs the callback on the state it read.  What a
  call finds outside (the context's error before and inside the transaction, the clock's reading and
  the admission policy, whose functions may be nil) is a record.
\<close>

definition ErrJournalConflict :: gerror where
  "ErrJournalConflict = Sentinel ''application journal conflict''"

definition ErrJournalDenied :: gerror where
  "ErrJournalDenied = Sentinel ''application journal admission denied''"

record journal_operation =
  jo_digest :: string
  jo_result :: episode

record journal_state =
  js_current :: "episode option"
  js_operation :: "journal_operation option"
  js_owner :: string

record journal_result =
  jr_episode :: episode
  jr_changed :: bool
  jr_replayed :: bool

record journal_write =
  jw_next :: "episode option"
  jw_operation :: "journal_operation option"
  jw_result :: journal_result

type_synonym 's journal_store =
  "journal_key \<Rightarrow> (journal_state \<Rightarrow> journal_write res) \<Rightarrow> 's \<Rightarrow> journal_result res \<times> 's"

record journal_env =
  jn_json :: json
  jn_cancelled :: "gerror option"
  jn_cancelled_inside :: "gerror option"
  jn_clock :: "int option"
  jn_access :: "(string \<Rightarrow> string \<Rightarrow> gerror option) option"
  jn_verify_attempt :: "(attempt \<Rightarrow> bool) option"
  jn_verify_observation :: "(attempt \<Rightarrow> observation \<Rightarrow> bool) option"

subsection \<open>Copies\<close>

text \<open>
  \<open>clone\<close> goes through JSON: it replaces the bytes of a string that are not UTF-8 by the replacement
  rune and keeps everything else.
\<close>

definition clone_text :: "string \<Rightarrow> string" where
  "clone_text s = string_of_runes (runes s)"

definition clone_binding :: "binding \<Rightarrow> binding" where
  "clone_binding b = \<lparr>bd_ref = clone_text (bd_ref b), bd_version = clone_text (bd_version b)\<rparr>"

definition clone_evidence :: "evidence \<Rightarrow> evidence" where
  "clone_evidence e = \<lparr>ev_ref = clone_text (ev_ref e), ev_hash = clone_text (ev_hash e)\<rparr>"

definition clone_stamp :: "stamp \<Rightarrow> stamp" where
  "clone_stamp s =
     s\<lparr>sp_contract := clone_text (sp_contract s), sp_ref := clone_text (sp_ref s), sp_scope := clone_text (sp_scope s)\<rparr>"

definition clone_attempt :: "attempt \<Rightarrow> attempt" where
  "clone_attempt a =
     \<lparr>at_stamp = clone_stamp (at_stamp a), at_application = clone_text (at_application a),
      at_workspace_task = clone_text (at_workspace_task a), at_workspace_attempt = clone_text (at_workspace_attempt a),
      at_proposal = clone_text (at_proposal a), at_state_revision = at_state_revision a,
      at_method = clone_binding (at_method a), at_criterion = clone_binding (at_criterion a),
      at_input_digest = clone_text (at_input_digest a), at_sources = map clone_evidence (at_sources a),
      at_prerequisites = map clone_evidence (at_prerequisites a),
      at_authorization = clone_text (at_authorization a), at_dispatch_mode = clone_text (at_dispatch_mode a),
      at_phase = clone_text (at_phase a), at_dispatched_at = at_dispatched_at a\<rparr>"

definition clone_observation :: "observation \<Rightarrow> observation" where
  "clone_observation b =
     \<lparr>ob_stamp = clone_stamp (ob_stamp b), ob_application = clone_text (ob_application b),
      ob_attempt = clone_text (ob_attempt b), ob_input_digest = clone_text (ob_input_digest b),
      ob_criterion = clone_binding (ob_criterion b), ob_kind = clone_text (ob_kind b),
      ob_observer = clone_text (ob_observer b), ob_outcome = clone_text (ob_outcome b),
      ob_evidence = map clone_evidence (ob_evidence b), ob_occurred_at = ob_occurred_at b,
      ob_supersedes = clone_text (ob_supersedes b)\<rparr>"

definition clone_forecast :: "forecast \<Rightarrow> forecast" where
  "clone_forecast p =
     \<lparr>fo_stamp = clone_stamp (fo_stamp p), fo_application = clone_text (fo_application p),
      fo_attempt = clone_text (fo_attempt p), fo_state_revision = fo_state_revision p,
      fo_criterion = clone_binding (fo_criterion p), fo_target = clone_text (fo_target p),
      fo_status = clone_text (fo_status p), fo_predictor = clone_binding (fo_predictor p),
      fo_horizon = fo_horizon p, fo_evidence = map clone_evidence (fo_evidence p),
      fo_probability = fo_probability p, fo_baseline = fo_baseline p\<rparr>"

definition clone_episode :: "episode \<Rightarrow> episode" where
  "clone_episode e =
     \<lparr>ep_stamp = clone_stamp (ep_stamp e), ep_revision = ep_revision e,
      ep_attempt = clone_attempt (ep_attempt e), ep_observations = map clone_observation (ep_observations e),
      ep_constraints = map clone_text (ep_constraints e), ep_prediction = map_option clone_forecast (ep_prediction e)\<rparr>"

subsection \<open>The transaction\<close>

definition verified :: "journal_env \<Rightarrow> attempt \<Rightarrow> bool" where
  "verified env a = (case jn_verify_attempt env of None \<Rightarrow> False | Some f \<Rightarrow> f a)"

text \<open>Whether an episode is the one a key names.\<close>

definition keyed :: "journal_key \<Rightarrow> episode \<Rightarrow> bool" where
  "keyed k e \<longleftrightarrow> ep_scope e = jk_scope k \<and> ep_ref e = jk_episode k \<and> at_ref (ep_attempt e) = jk_attempt k"

definition replay_operation ::
    "journal_env \<Rightarrow> journal_key \<Rightarrow> string \<Rightarrow> (episode \<Rightarrow> bool) option \<Rightarrow> journal_operation \<Rightarrow> journal_write res" where
  "replay_operation env k dig admission op =
     (if jo_digest op \<noteq> dig then Inl ErrJournalConflict
      else let old = jo_result op
           in if \<not> keyed k old then Inl ErrJournalConflict
              else case validate_episode (jn_json env) old of
                Some err \<Rightarrow> Inl err
              | None \<Rightarrow>
                  if \<not> verified env (ep_attempt old) \<or> (case admission of None \<Rightarrow> False | Some f \<Rightarrow> \<not> f old)
                  then Inl ErrJournalDenied
                  else Inr \<lparr>jw_next = None, jw_operation = None,
                            jw_result = \<lparr>jr_episode = clone_episode old, jr_changed = False, jr_replayed = True\<rparr>\<rparr>)"

text \<open>The copy of the stored episode, checked against the key and the revision the caller expects.\<close>

definition current_episode ::
    "journal_env \<Rightarrow> journal_key \<Rightarrow> 64 word \<Rightarrow> journal_state \<Rightarrow> episode option res" where
  "current_episode env k expected state =
     (case js_current state of
        None \<Rightarrow> if expected \<noteq> 0 then Inl ErrJournalConflict else Inr None
      | Some stored \<Rightarrow>
          let c = clone_episode stored
          in case validate_episode (jn_json env) c of
               Some err \<Rightarrow> Inl err
             | None \<Rightarrow>
                 if \<not> keyed k c \<or> ep_revision c \<noteq> expected then Inl ErrJournalConflict
                 else if ep_revision c = - 1 then Inl ErrJournalConflict
                 else Inr (Some c))"

type_synonym mutation = "episode option \<Rightarrow> int \<Rightarrow> (episode \<times> bool) res"

definition committed_write ::
    "journal_env \<Rightarrow> journal_key \<Rightarrow> string \<Rightarrow> episode \<times> bool \<Rightarrow> journal_write res" where
  "committed_write env k dig result =
     (case result of (e, changed) \<Rightarrow>
        if \<not> keyed k e then Inl ErrJournalConflict
        else case validate_episode (jn_json env) e of
          Some err \<Rightarrow> Inl err
        | None \<Rightarrow>
            if \<not> verified env (ep_attempt e) then Inl ErrJournalDenied
            else Inr \<lparr>jw_next = (if changed then Some (clone_episode e) else None),
                      jw_operation = Some \<lparr>jo_digest = dig, jo_result = clone_episode e\<rparr>,
                      jw_result = \<lparr>jr_episode = clone_episode e, jr_changed = changed, jr_replayed = False\<rparr>\<rparr>)"

definition journal_callback ::
    "journal_env \<Rightarrow> journal_key \<Rightarrow> string \<Rightarrow> 64 word \<Rightarrow> (episode \<Rightarrow> bool) option \<Rightarrow> mutation \<Rightarrow>
     journal_state \<Rightarrow> journal_write res" where
  "journal_callback env k dig expected admission mutate state =
     (case jn_cancelled_inside env of
        Some err \<Rightarrow> Inl err
      | None \<Rightarrow>
      case js_operation state of
        Some op \<Rightarrow> replay_operation env k dig admission op
      | None \<Rightarrow>
      case current_episode env k expected state of
        Inl err \<Rightarrow> Inl err
      | Inr current \<Rightarrow>
          if (current \<noteq> None \<and> js_owner state \<noteq> jk_episode k) \<or> (js_owner state \<noteq> [] \<and> js_owner state \<noteq> jk_episode k)
          then Inl ErrJournalConflict
          else let now = (case jn_clock env of None \<Rightarrow> 0 | Some t \<Rightarrow> t)
               in if now = 0 \<or> (case current of None \<Rightarrow> False | Some c \<Rightarrow> now < ep_accepted c)
                  then Inl (Errorf ''invalid journal clock order'')
                  else case mutate current now of
                      Inl err \<Rightarrow> Inl err
                    | Inr result \<Rightarrow> committed_write env k dig result)"

definition request_digest :: "string \<Rightarrow> string" where
  "request_digest raw = ''sha256:'' @ hex_encode (sha256 raw)"

definition journal_apply ::
    "journal_env \<Rightarrow> 's journal_store option \<Rightarrow> journal_key \<Rightarrow> string \<Rightarrow> app_value \<Rightarrow> 64 word \<Rightarrow>
     (episode \<Rightarrow> bool) option \<Rightarrow> mutation \<Rightarrow> 's \<Rightarrow> journal_result res \<times> 's" where
  "journal_apply env store k action request expected admission mutate s =
     (case bounded_value (jn_json env) request of
        Some err \<Rightarrow> (Inl err, s)
      | None \<Rightarrow>
          if \<not> list_all valid_ref [jk_scope k, jk_episode k, jk_attempt k, jk_operation k]
          then (Inl (Errorf ''invalid journal key''), s)
          else case (store, jn_access env) of
            (Some transact, Some access) \<Rightarrow>
              if jn_clock env = None \<or> jn_verify_attempt env = None then (Inl ErrJournalDenied, s)
              else (case jn_cancelled env of
                      Some err \<Rightarrow> (Inl err, s)
                    | None \<Rightarrow>
                        if access (jk_scope k) (jk_episode k) \<noteq> None then (Inl ErrJournalDenied, s)
                        else case jn_json env (Command_Value action request) of
                            None \<Rightarrow> (Inl (Errorf ''json''), s)
                          | Some raw \<Rightarrow>
                              transact k (journal_callback env k (request_digest raw) expected admission mutate) s)
          | _ \<Rightarrow> (Inl ErrJournalDenied, s))"

subsection \<open>The commands\<close>

definition begin_mutation :: "begin_record \<Rightarrow> mutation" where
  "begin_mutation r current now =
     (if current \<noteq> None then Inl ErrJournalConflict
      else let a = clone_attempt (br_attempt r);
               a = a\<lparr>at_stamp := (at_stamp a)\<lparr>sp_accepted_at := now\<rparr>\<rparr>;
               e = \<lparr>ep_stamp = \<lparr>sp_contract = EpisodeContract, sp_ref = jk_episode (br_key r),
                                sp_scope = jk_scope (br_key r), sp_accepted_at = now\<rparr>,
                    ep_revision = 1, ep_attempt = a, ep_observations = [],
                    ep_constraints = br_constraints r, ep_prediction = None\<rparr>
           in if at_ref a \<noteq> jk_attempt (br_key r) \<or> at_scope a \<noteq> jk_scope (br_key r) then Inl ErrJournalConflict
              else Inr (case br_prediction r of
                     None \<Rightarrow> e
                   | Some p \<Rightarrow>
                       let p = clone_forecast p
                       in e\<lparr>ep_prediction := Some (p\<lparr>fo_stamp := (fo_stamp p)\<lparr>sp_accepted_at := now\<rparr>\<rparr>)\<rparr>, True))"

definition begin_attempt ::
    "journal_env \<Rightarrow> 's journal_store option \<Rightarrow> begin_record \<Rightarrow> 's \<Rightarrow> journal_result res \<times> 's" where
  "begin_attempt env store r s =
     (if at_accepted (br_attempt r) \<noteq> 0 \<or> at_phase (br_attempt r) \<noteq> ''prepared'' \<or> at_dispatched_at (br_attempt r) \<noteq> None
      then (Inl (Errorf ''begin requires unstamped preparation''), s)
      else if (case br_prediction r of None \<Rightarrow> False | Some p \<Rightarrow> sp_accepted_at (fo_stamp p) \<noteq> 0)
      then (Inl (Errorf ''prediction time is application controlled''), s)
      else journal_apply env store (br_key r) ''begin'' (Begin_Value r) 0 None (begin_mutation r) s)"

text \<open>The next snapshot: a new revision accepted now.\<close>

definition advanced :: "episode \<Rightarrow> int \<Rightarrow> episode" where
  "advanced e now = e\<lparr>ep_revision := ep_revision e + 1, ep_stamp := (ep_stamp e)\<lparr>sp_accepted_at := now\<rparr>\<rparr>"

definition dispatch_mutation :: mutation where
  "dispatch_mutation current now =
     (case current of
        None \<Rightarrow> Inl ErrJournalConflict
      | Some c \<Rightarrow>
          if at_phase (ep_attempt c) \<noteq> ''prepared'' then Inl ErrJournalConflict
          else if (case ep_prediction c of None \<Rightarrow> False | Some p \<Rightarrow> \<not> sp_accepted_at (fo_stamp p) < now)
          then Inl (Errorf ''dispatch must follow prediction'')
          else Inr ((advanced c now)\<lparr>ep_attempt := (ep_attempt c)\<lparr>at_phase := ''dispatched'', at_dispatched_at := Some now\<rparr>\<rparr>,
                    True))"

definition mark_dispatched ::
    "journal_env \<Rightarrow> 's journal_store option \<Rightarrow> change_record \<Rightarrow> 's \<Rightarrow> journal_result res \<times> 's" where
  "mark_dispatched env store r =
     journal_apply env store (cr_key r) ''mark_dispatched'' (Change_Value r) (cr_expected r) None dispatch_mutation"

definition interrupt_mutation :: mutation where
  "interrupt_mutation current now =
     (case current of
        None \<Rightarrow> Inl ErrJournalConflict
      | Some c \<Rightarrow>
          if at_phase (ep_attempt c) = ''settled'' then Inl ErrJournalConflict
          else if at_phase (ep_attempt c) = ''interrupted'' then Inr (c, False)
          else Inr ((advanced c now)\<lparr>ep_attempt := (ep_attempt c)\<lparr>at_phase := ''interrupted''\<rparr>\<rparr>, True))"

definition mark_interrupted ::
    "journal_env \<Rightarrow> 's journal_store option \<Rightarrow> change_record \<Rightarrow> 's \<Rightarrow> journal_result res \<times> 's" where
  "mark_interrupted env store r =
     journal_apply env store (cr_key r) ''mark_interrupted'' (Change_Value r) (cr_expected r) None interrupt_mutation"

definition unstamped :: "observation \<Rightarrow> observation" where
  "unstamped b = b\<lparr>ob_stamp := (ob_stamp b)\<lparr>sp_accepted_at := 0\<rparr>\<rparr>"

definition admitted :: "journal_env \<Rightarrow> attempt \<Rightarrow> observation \<Rightarrow> bool" where
  "admitted env a b = (case jn_verify_observation env of None \<Rightarrow> False | Some f \<Rightarrow> f a b)"

definition observe_mutation :: "journal_env \<Rightarrow> observation \<Rightarrow> mutation" where
  "observe_mutation env incoming current now =
     (case current of
        None \<Rightarrow> Inl ErrJournalConflict
      | Some c \<Rightarrow>
          let b = clone_observation incoming; b = b\<lparr>ob_stamp := (ob_stamp b)\<lparr>sp_accepted_at := now\<rparr>\<rparr>
          in case validate_observation (jn_json env) (ep_attempt c) b of
               Some err \<Rightarrow> Inl err
             | None \<Rightarrow>
                 if \<not> admitted env (ep_attempt c) b then Inl ErrJournalDenied
                 else case find (\<lambda>prior. ob_ref prior = ob_ref b) (ep_observations c) of
                     Some prior \<Rightarrow>
                       if same_json (jn_json env) (Observation_Value (unstamped prior)) (Observation_Value (unstamped b))
                       then Inr (c, False) else Inl ErrJournalConflict
                   | None \<Rightarrow>
                       let e = (advanced c now)\<lparr>ep_observations := ep_observations c @ [b]\<rparr>
                       in Inr (if ob_outcome b \<noteq> ''unknown''
                               then e\<lparr>ep_attempt := (ep_attempt c)\<lparr>at_phase := ''settled''\<rparr>\<rparr> else e, True))"

definition observe_admission :: "journal_env \<Rightarrow> observation \<Rightarrow> episode \<Rightarrow> bool" where
  "observe_admission env incoming old =
     (case find (\<lambda>b. ob_ref b = ob_ref incoming) (ep_observations old) of
        None \<Rightarrow> False
      | Some b \<Rightarrow> admitted env (ep_attempt old) b)"

definition observe_attempt ::
    "journal_env \<Rightarrow> 's journal_store option \<Rightarrow> observe_record \<Rightarrow> 's \<Rightarrow> journal_result res \<times> 's" where
  "observe_attempt env store r s =
     (let b = or_observation r; c = or_change r
      in if ob_accepted b \<noteq> 0 then (Inl (Errorf ''observation acceptance time is application controlled''), s)
         else if ob_kind b \<noteq> ''executor_receipt'' \<and> ob_kind b \<noteq> ''operator_report'' then (Inl ErrJournalDenied, s)
         else if jn_verify_observation env = None then (Inl ErrJournalDenied, s)
         else journal_apply env store (cr_key c) ''observe'' (Observe_Value r) (cr_expected c)
                (Some (observe_admission env b)) (observe_mutation env b) s)"

subsection \<open>Recovery\<close>

definition ErrRecoveryUnsupported :: gerror where
  "ErrRecoveryUnsupported = Sentinel ''the journal store cannot list unsettled attempts''"

record recovery =
  rv_interrupted :: int
  rv_unreadable :: int

type_synonym 's unsettled_reader = "int \<Rightarrow> int \<Rightarrow> 's \<Rightarrow> episode list \<times> int \<times> gerror option"

text \<open>The command recovery gives for an episode it read, and whether it gives one at all.\<close>

definition unsettled :: "int \<Rightarrow> episode \<Rightarrow> bool" where
  "unsettled before_time e \<longleftrightarrow>
     \<not> (at_phase (ep_attempt e) \<noteq> ''prepared'' \<and> at_phase (ep_attempt e) \<noteq> ''dispatched'' \<or>
        \<not> at_accepted (ep_attempt e) < before_time)"

definition interrupt_record :: "episode \<Rightarrow> change_record" where
  "interrupt_record e =
     \<lparr>cr_key = \<lparr>jk_scope = ep_scope e, jk_episode = ep_ref e, jk_attempt = at_ref (ep_attempt e),
                jk_operation = at_ref (ep_attempt e) @ '':interrupt''\<rparr>,
      cr_expected = ep_revision e\<rparr>"

fun recover_each ::
    "journal_env \<Rightarrow> 's journal_store option \<Rightarrow> int \<Rightarrow> episode list \<Rightarrow> recovery \<Rightarrow> 's \<Rightarrow>
     (recovery \<times> gerror option) \<times> 's" where
  "recover_each env store before_time [] report s = ((report, None), s)"
| "recover_each env store before_time (e # es) report s =
     (if \<not> unsettled before_time e then recover_each env store before_time es report s
      else case mark_interrupted env store (interrupt_record e) s of
          (Inr result, s') \<Rightarrow>
            recover_each env store before_time es
              (if jr_replayed result then report else report\<lparr>rv_interrupted := rv_interrupted report + 1\<rparr>) s'
        | (Inl err, s') \<Rightarrow>
            if errors_is err ErrJournalConflict \<or> errors_is err ErrJournalDenied
            then recover_each env store before_time es report s'
            else ((report, Some err), s'))"

definition recover_unsettled ::
    "journal_env \<Rightarrow> 's journal_store option \<Rightarrow> 's unsettled_reader option \<Rightarrow> int \<Rightarrow> int \<Rightarrow> 's \<Rightarrow>
     (recovery \<times> gerror option) \<times> 's" where
  "recover_unsettled env store reader before_time limit s =
     (case reader of
        None \<Rightarrow> ((\<lparr>rv_interrupted = 0, rv_unreadable = 0\<rparr>, Some ErrRecoveryUnsupported), s)
      | Some f \<Rightarrow>
          (case f before_time limit s of
             (es, unreadable, err) \<Rightarrow>
               let report = \<lparr>rv_interrupted = 0, rv_unreadable = unreadable\<rparr>
               in if err \<noteq> None then ((report, err), s)
                  else recover_each env store before_time es report s))"

subsection \<open>A valid episode is its own copy\<close>

lemma first_error_None [simp]: "first_error cs = None \<longleftrightarrow> (\<forall>c \<in> set cs. c = None)"
  by (induction cs rule: first_error.induct) auto

lemma refuse_None [simp]: "refuse bad msg = None \<longleftrightarrow> \<not> bad"
  by (simp add: refuse_def)

lemma plain_utf8: "list_all plain s \<Longrightarrow> utf8_valid s"
  by (auto simp: utf8_valid_def plain_runes list_all_iff plain_def rune_error_def)

lemma clone_text_valid: "utf8_valid s \<Longrightarrow> clone_text s = s"
  by (simp add: clone_text_def valid_round_trip)

lemma clone_text_plain: "list_all plain s \<Longrightarrow> clone_text s = s"
  by (simp add: clone_text_valid plain_utf8)

lemma clone_ref: "valid_ref s \<Longrightarrow> clone_text s = s"
  by (simp add: valid_ref_def clone_text_valid)

lemma digest_plain: "digest_pattern s \<Longrightarrow> list_all plain s"
proof -
  assume d: "digest_pattern s"
  then have "s = ''sha256:'' @ drop 7 s" by (auto simp: digest_pattern_def prefix_def)
  moreover have "list_all plain (drop 7 s)"
    using d hex_plain by (auto simp: digest_pattern_def matches_class_def list_all_iff)
  moreover have "list_all plain ''sha256:''" by (simp add: plain_def)
  ultimately show ?thesis by (metis list_all_append)
qed

lemma clone_binding_valid: "valid_binding b \<Longrightarrow> clone_binding b = b"
  by (simp add: valid_binding_def clone_binding_def clone_ref)

lemma clone_items: "check_items seen es = None \<Longrightarrow> map clone_evidence es = es"
  by (induction seen es rule: check_items.induct)
    (auto simp: clone_evidence_def clone_ref clone_text_plain digest_plain split: if_splits)

lemma clone_evidence_list: "check_evidence es n req = None \<Longrightarrow> map clone_evidence es = es"
  by (auto simp: check_evidence_def clone_items split: if_splits)

lemma clone_stamp_valid: "check_stamp s c = None \<Longrightarrow> list_all plain c \<Longrightarrow> clone_stamp s = s"
  by (auto simp: check_stamp_def clone_stamp_def clone_ref clone_text_plain split: if_splits)

lemma contracts_plain:
  "list_all plain AttemptContract" "list_all plain ObservationContract"
  "list_all plain PredictionContract" "list_all plain EpisodeContract"
  by (simp_all add: plain_def AttemptContract_def ObservationContract_def PredictionContract_def EpisodeContract_def)

lemma clone_word: "clone_text w = w" if "w \<in> set [''registered_capability'', ''operator_report'', ''prepared'',
    ''dispatched'', ''settled'', ''interrupted'', ''executor_receipt'', ''simulation'', ''unknown'', ''succeeded'',
    ''failed'', ''partial'', ''estimated'', ''insufficient_evidence'', ''criterion_satisfied'', []]"
proof -
  have "list_all plain w" using that by (auto simp: plain_def)
  then show ?thesis by (rule clone_text_plain)
qed

lemma check_phase_word: "check_phase a = None \<Longrightarrow> clone_text (at_phase a) = at_phase a"
  by (rule clone_word) (auto simp: check_phase_def split: if_splits)

lemma validate_attemptD:
  assumes "validate_attempt js a = None"
  shows "check_stamp (at_stamp a) AttemptContract = None"
    "valid_ref (at_application a)" "valid_ref (at_workspace_task a)" "valid_ref (at_workspace_attempt a)"
    "valid_ref (at_proposal a)" "valid_ref (at_authorization a)"
    "valid_binding (at_method a)" "valid_binding (at_criterion a)" "digest_pattern (at_input_digest a)"
    "check_evidence (at_sources a) MaxSources True = None" "check_evidence (at_prerequisites a) MaxChecks False = None"
    "at_dispatch_mode a = ''registered_capability'' \<or> at_dispatch_mode a = ''operator_report''"
    "check_phase a = None"
    "at_dispatched_at a = Some t \<Longrightarrow> t \<noteq> 0 \<and> at_accepted a \<le> t"
  using assms by (auto simp: validate_attempt_def)

lemma clone_attempt_valid: "validate_attempt js a = None \<Longrightarrow> clone_attempt a = a"
proof -
  assume v: "validate_attempt js a = None"
  note d = validate_attemptD [OF v]
  have "clone_text (at_dispatch_mode a) = at_dispatch_mode a" using d(12) by (intro clone_word) auto
  then show ?thesis
    using d by (simp add: clone_attempt_def clone_stamp_valid contracts_plain clone_ref clone_binding_valid
        clone_evidence_list check_phase_word clone_text_plain digest_plain)
qed

lemma validate_observationD:
  assumes "validate_observation js a b = None"
  shows "validate_attempt js a = None" "check_stamp (ob_stamp b) ObservationContract = None"
    "sp_scope (ob_stamp b) = at_scope a" "ob_application b = at_application a" "ob_attempt b = at_ref a"
    "ob_input_digest b = at_input_digest a" "ob_criterion b = at_criterion a"
    "\<exists>t. at_dispatched_at a = Some t \<and> t \<le> ob_accepted b"
    "valid_ref (ob_observer b)" "ob_supersedes b = [] \<or> valid_ref (ob_supersedes b)"
    "ob_kind b \<in> set [''executor_receipt'', ''operator_report'', ''simulation'']"
    "ob_outcome b \<in> set [''unknown'', ''succeeded'', ''failed'', ''partial'']"
    "check_evidence (ob_evidence b) MaxEvidence True = None"
  using assms by (auto simp: validate_observation_def split: option.splits)

lemma clone_observation_valid: "validate_observation js a b = None \<Longrightarrow> clone_observation b = b"
proof -
  assume v: "validate_observation js a b = None"
  note d = validate_observationD [OF v] and da = validate_attemptD [OF validate_observationD(1) [OF v]]
  have "clone_text (ob_kind b) = ob_kind b" "clone_text (ob_outcome b) = ob_outcome b"
    using d(11,12) by (auto intro!: clone_word)
  moreover have "clone_text (ob_supersedes b) = ob_supersedes b" using d(10) clone_ref by (auto intro: clone_word)
  moreover have "valid_ref (at_ref a)" using da(1) by (auto simp: check_stamp_def split: if_splits)
  ultimately show ?thesis
    using d da by (simp add: clone_observation_def clone_stamp_valid contracts_plain clone_ref clone_binding_valid
        clone_evidence_list clone_text_plain digest_plain)
qed

lemma validate_forecastD:
  assumes "validate_forecast js a p = None"
  shows "validate_attempt js a = None" "check_stamp (fo_stamp p) PredictionContract = None"
    "fo_application p = at_application a" "fo_attempt p = at_ref a" "fo_criterion p = at_criterion a"
    "valid_binding (fo_predictor p)" "fo_target p = ''criterion_satisfied''"
    "fo_status p = ''estimated'' \<and> fo_probability p \<noteq> None \<or> fo_status p = ''insufficient_evidence'' \<and> fo_probability p = None"
    "finite_chance (fo_probability p)" "finite_chance (fo_baseline p)"
    "check_evidence (fo_evidence p) MaxEvidence False = None"
    "at_accepted a \<le> sp_accepted_at (fo_stamp p)" "sp_accepted_at (fo_stamp p) < fo_horizon p"
    "at_dispatched_at a = Some t \<Longrightarrow> sp_accepted_at (fo_stamp p) < t \<and> t < fo_horizon p"
  using assms by (auto simp: validate_forecast_def split: option.splits)

lemma clone_forecast_valid: "validate_forecast js a p = None \<Longrightarrow> clone_forecast p = p"
proof -
  assume v: "validate_forecast js a p = None"
  note d = validate_forecastD [OF v] and da = validate_attemptD [OF validate_forecastD(1) [OF v]]
  have "clone_text (fo_status p) = fo_status p" "clone_text (fo_target p) = fo_target p"
    using d(7,8) by (auto intro!: clone_word)
  moreover have "valid_ref (at_ref a)" using da(1) by (auto simp: check_stamp_def split: if_splits)
  ultimately show ?thesis
    using d da by (simp add: clone_forecast_def clone_stamp_valid contracts_plain clone_ref clone_binding_valid
        clone_evidence_list)
qed

lemma check_constraints_clone: "check_constraints seen cs = None \<Longrightarrow> map clone_text cs = cs"
  by (induction seen cs rule: check_constraints.induct) (auto simp: clone_ref split: if_splits)

lemma check_observations_each:
  "check_observations js a acc seen bs = Inr m \<Longrightarrow> b \<in> set bs \<Longrightarrow>
     validate_observation js a b = None \<and> ob_accepted b \<le> acc"
  by (induction js a acc seen bs rule: check_observations.induct) (auto split: option.splits if_splits)

lemma validate_episodeD:
  assumes "validate_episode js e = None"
  shows "bounded_value js (Episode_Value e) = None" "check_stamp (ep_stamp e) EpisodeContract = None"
    "validate_attempt js (ep_attempt e) = None" "ep_revision e \<noteq> 0" "ep_scope e = at_scope (ep_attempt e)"
    "at_accepted (ep_attempt e) \<le> ep_accepted e"
    "length (ep_observations e) \<le> MaxEvidence" "length (ep_constraints e) \<le> MaxChecks"
    "check_constraints [] (ep_constraints e) = None"
    "at_phase (ep_attempt e) = ''settled'' \<Longrightarrow> ep_observations e \<noteq> []"
    "b \<in> set (ep_observations e) \<Longrightarrow> validate_observation js (ep_attempt e) b = None \<and> ob_accepted b \<le> ep_accepted e"
    "ep_prediction e = Some p \<Longrightarrow>
       validate_forecast js (ep_attempt e) p = None \<and> sp_accepted_at (fo_stamp p) \<le> ep_accepted e"
proof -
  obtain m where m: "check_observations js (ep_attempt e) (ep_accepted e) Map.empty (ep_observations e) = Inr m"
    using assms by (auto simp: validate_episode_def split: option.splits sum.splits)
  show "b \<in> set (ep_observations e) \<Longrightarrow>
      validate_observation js (ep_attempt e) b = None \<and> ob_accepted b \<le> ep_accepted e"
    using check_observations_each [OF m] .
  show "bounded_value js (Episode_Value e) = None" "check_stamp (ep_stamp e) EpisodeContract = None"
    "validate_attempt js (ep_attempt e) = None" "ep_revision e \<noteq> 0" "ep_scope e = at_scope (ep_attempt e)"
    "at_accepted (ep_attempt e) \<le> ep_accepted e"
    "length (ep_observations e) \<le> MaxEvidence" "length (ep_constraints e) \<le> MaxChecks"
    "check_constraints [] (ep_constraints e) = None"
    "at_phase (ep_attempt e) = ''settled'' \<Longrightarrow> ep_observations e \<noteq> []"
    "ep_prediction e = Some p \<Longrightarrow>
       validate_forecast js (ep_attempt e) p = None \<and> sp_accepted_at (fo_stamp p) \<le> ep_accepted e"
    using assms m by (auto simp: validate_episode_def split: option.splits)
qed

lemma clone_episode_valid: "validate_episode js e = None \<Longrightarrow> clone_episode e = e"
proof -
  assume v: "validate_episode js e = None"
  note d = validate_episodeD [OF v]
  have "map clone_observation (ep_observations e) = ep_observations e"
    by (rule map_idI) (use d(11) clone_observation_valid in blast)
  moreover have "map_option clone_forecast (ep_prediction e) = ep_prediction e"
    using d(12) clone_forecast_valid by (cases "ep_prediction e") auto
  ultimately show ?thesis
    using d(2,3,9) by (simp add: clone_episode_def clone_stamp_valid contracts_plain clone_attempt_valid
        check_constraints_clone)
qed

end
