(* ===== verification/App_Store.thy ===== *)
theory App_Store
  imports App_Journal
begin

section \<open>The journal's tables\<close>

text \<open>
  \<open>dokja_orch/internal/infrastructure/application_journal/postgres.go\<close>.  The three tables are lists of
  rows with their keys; a statement reads and writes them as its SQL says, constraints included.  What
  the database may do is a record: the fault of each statement, if it has one, the context's error
  before the commit, and whether a failed commit took effect.  \<open>parse\<close> is the strict JSON decoder.  A
  transaction that does not commit leaves the tables as they were.
\<close>

definition ErrStorage :: gerror where
  "ErrStorage = Sentinel ''application journal storage failed''"

definition ErrSchema :: gerror where
  "ErrSchema = Sentinel ''application journal schema is unsupported or uninitialized''"

definition ErrForgotten :: gerror where
  "ErrForgotten = Sentinel ''application journal record was forgotten''"

definition ErrCommitUnknown :: gerror where
  "ErrCommitUnknown = Sentinel ''application journal commit outcome is unknown; replay the original operation''"

definition schema_version :: int where
  "schema_version = 1"

record episode_row =
  er_attempt :: string
  er_revision :: int
  er_forgotten :: bool

record operation_row =
  oo_episode :: string
  oo_digest :: "string option"
  oo_revision :: "int option"
  oo_forgotten :: bool

record tables =
  tb_version :: "int option"
  tb_episodes :: "((string \<times> string) \<times> episode_row) list"
  tb_revisions :: "((string \<times> string \<times> int) \<times> string) list"
  tb_operations :: "((string \<times> string) \<times> operation_row) list"

datatype sql_fault = Cancelled gerror | Unique_Violation | Other_Fault

datatype sql_step =
    Begin_Tx | Take_Lock | Select_Episode | Select_Snapshot | Select_Owner | Select_Operation | Select_Result
  | Insert_Episode | Update_Episode | Insert_Revision | Insert_Operation
  | Forget_Operations | Delete_Revisions | Forget_Episode
  | Create_Schema | Select_Version | Create_Tables | Select_Unsettled

datatype commit_outcome = Commits | Fails_Undone | Fails_Done

record database =
  db_fault :: "sql_step \<Rightarrow> sql_fault option"
  db_cancelled :: "gerror option"
  db_commit :: commit_outcome

definition safe_error :: "sql_fault \<Rightarrow> gerror" where
  "safe_error fault = (case fault of Cancelled err \<Rightarrow> err | Unique_Violation \<Rightarrow> ErrJournalConflict | Other_Fault \<Rightarrow> ErrStorage)"

text \<open>A statement that runs unless the database has a fault for it.\<close>

definition statement :: "database \<Rightarrow> sql_step \<Rightarrow> (unit \<Rightarrow> 'a res) \<Rightarrow> 'a res" where
  "statement db step run = (case db_fault db step of Some fault \<Rightarrow> Inl (safe_error fault) | None \<Rightarrow> run ())"

text \<open>\<open>int64\<close> of a \<open>uint64\<close>, and back.\<close>

definition int64_of :: "64 word \<Rightarrow> int" where
  "int64_of w = sint w"

definition begin_tx :: "database \<Rightarrow> string \<Rightarrow> tables \<Rightarrow> unit res" where
  "begin_tx db scope t =
     (if \<not> valid_ref scope then Inl ErrStorage
      else statement db Begin_Tx (\<lambda>_.
        if tb_version t \<noteq> Some schema_version then Inl ErrSchema
        else statement db Take_Lock (\<lambda>_. Inr ())))"

definition decode_snapshot :: "json \<Rightarrow> (string \<Rightarrow> episode option) \<Rightarrow> string \<Rightarrow> episode res" where
  "decode_snapshot js parse raw =
     (if raw = [] \<or> length raw > MaxRecordBytes then Inl ErrStorage
      else case parse raw of
        None \<Rightarrow> Inl ErrStorage
      | Some e \<Rightarrow> if validate_episode js e \<noteq> None then Inl ErrStorage else Inr e)"

definition read_snapshot ::
    "json \<Rightarrow> (string \<Rightarrow> episode option) \<Rightarrow> database \<Rightarrow> sql_step \<Rightarrow> tables \<Rightarrow> string \<Rightarrow> string \<Rightarrow> int \<Rightarrow> episode res" where
  "read_snapshot js parse db step t scope ep revision =
     statement db step (\<lambda>_.
       case map_of (tb_revisions t) (scope, ep, revision) of
         None \<Rightarrow> Inl ErrStorage
       | Some raw \<Rightarrow>
           (case decode_snapshot js parse raw of
              Inl err \<Rightarrow> Inl err
            | Inr e \<Rightarrow>
                if ep_scope e \<noteq> scope \<or> ep_ref e \<noteq> ep \<or> ep_revision e \<noteq> word_of_int revision
                then Inl ErrStorage else Inr e))"

subsection \<open>Reading the state of a transaction\<close>

definition load_current ::
    "json \<Rightarrow> (string \<Rightarrow> episode option) \<Rightarrow> database \<Rightarrow> journal_key \<Rightarrow> tables \<Rightarrow> episode option res" where
  "load_current js parse db k t =
     statement db Select_Episode (\<lambda>_.
       case map_of (tb_episodes t) (jk_scope k, jk_episode k) of
         None \<Rightarrow> Inr None
       | Some row \<Rightarrow>
           if er_forgotten row then Inl ErrForgotten
           else case read_snapshot js parse db Select_Snapshot t (jk_scope k) (jk_episode k) (er_revision row) of
               Inl err \<Rightarrow> Inl err
             | Inr e \<Rightarrow> if at_ref (ep_attempt e) \<noteq> er_attempt row then Inl ErrStorage else Inr (Some e))"

definition attempt_owner :: "tables \<Rightarrow> string \<Rightarrow> string \<Rightarrow> string" where
  "attempt_owner t scope a =
     (case find (\<lambda>((s, r), row). s = scope \<and> er_attempt row = a) (tb_episodes t) of
        None \<Rightarrow> [] | Some ((s, r), row) \<Rightarrow> r)"

definition load_operation ::
    "json \<Rightarrow> (string \<Rightarrow> episode option) \<Rightarrow> database \<Rightarrow> journal_key \<Rightarrow> tables \<Rightarrow> journal_operation option res" where
  "load_operation js parse db k t =
     statement db Select_Operation (\<lambda>_.
       case map_of (tb_operations t) (jk_scope k, jk_operation k) of
         None \<Rightarrow> Inr None
       | Some row \<Rightarrow>
           if oo_forgotten row then Inl ErrForgotten
           else case (oo_digest row, oo_revision row) of
               (Some d, Some r) \<Rightarrow>
                 (case read_snapshot js parse db Select_Result t (jk_scope k) (oo_episode row) r of
                    Inl err \<Rightarrow> Inl err
                  | Inr e \<Rightarrow> Inr (Some \<lparr>jo_digest = d, jo_result = e\<rparr>))
             | _ \<Rightarrow> Inl ErrStorage)"

definition load_state ::
    "json \<Rightarrow> (string \<Rightarrow> episode option) \<Rightarrow> database \<Rightarrow> journal_key \<Rightarrow> tables \<Rightarrow> journal_state res" where
  "load_state js parse db k t =
     (case load_current js parse db k t of
        Inl err \<Rightarrow> Inl err
      | Inr current \<Rightarrow>
      case statement db Select_Owner (\<lambda>_. Inr (attempt_owner t (jk_scope k) (jk_attempt k))) of
        Inl err \<Rightarrow> Inl err
      | Inr owner \<Rightarrow>
      case load_operation js parse db k t of
        Inl err \<Rightarrow> Inl err
      | Inr op \<Rightarrow> Inr \<lparr>js_current = current, js_operation = op, js_owner = owner\<rparr>)"

subsection \<open>What may be written\<close>

definition same_episode :: "json \<Rightarrow> episode \<Rightarrow> episode \<Rightarrow> bool" where
  "same_episode js a b =
     (case (js (Episode_Value a), js (Episode_Value b)) of (Some l, Some r) \<Rightarrow> l = r | _ \<Rightarrow> False)"

definition hex_any :: "char \<Rightarrow> bool" where
  "hex_any c \<longleftrightarrow> c \<in> set ''0123456789abcdefABCDEF''"

definition validate_write :: "json \<Rightarrow> journal_key \<Rightarrow> journal_state \<Rightarrow> journal_write \<Rightarrow> gerror option" where
  "validate_write js k s w =
     (case js_operation s of
        Some old \<Rightarrow>
          if jw_next w \<noteq> None \<or> jw_operation w \<noteq> None \<or> \<not> jr_replayed (jw_result w) \<or> jr_changed (jw_result w) \<or>
             \<not> same_episode js (jr_episode (jw_result w)) (jo_result old)
          then Some ErrStorage else None
      | None \<Rightarrow>
          case jw_operation w of
            None \<Rightarrow> Some ErrStorage
          | Some op \<Rightarrow>
              if jr_replayed (jw_result w) \<or> jr_changed (jw_result w) \<noteq> (jw_next w \<noteq> None) then Some ErrStorage
              else if (case jw_next w of
                         None \<Rightarrow> False
                       | Some e \<Rightarrow> ep_revision e \<noteq> (case js_current s of None \<Rightarrow> 1 | Some c \<Rightarrow> ep_revision c + 1))
              then Some ErrStorage
              else case (if jw_next w \<noteq> None then jw_next w else js_current s) of
                  None \<Rightarrow> Some ErrStorage
                | Some e \<Rightarrow>
                    if validate_episode js e \<noteq> None \<or> 2 ^ 63 - 1 < uint (ep_revision e) \<or> \<not> keyed k e \<or>
                       \<not> same_episode js (jo_result op) e \<or> \<not> same_episode js (jr_episode (jw_result w)) e \<or>
                       length (case_option [] id (js (Episode_Value e))) > MaxRecordBytes \<or>
                       \<not> prefix ''sha256:'' (jo_digest op) \<or> length (jo_digest op) \<noteq> 71 \<or>
                       \<not> list_all hex_any (drop 7 (jo_digest op))
                    then Some ErrStorage else None)"

subsection \<open>Writing\<close>

definition insert_episode :: "database \<Rightarrow> journal_key \<Rightarrow> int \<Rightarrow> tables \<Rightarrow> tables res" where
  "insert_episode db k revision t =
     statement db Insert_Episode (\<lambda>_.
       if map_of (tb_episodes t) (jk_scope k, jk_episode k) \<noteq> None \<or> attempt_owner t (jk_scope k) (jk_attempt k) \<noteq> []
       then Inl (safe_error Unique_Violation)
       else if revision \<le> 0 then Inl ErrStorage
       else Inr (t\<lparr>tb_episodes := ((jk_scope k, jk_episode k),
              \<lparr>er_attempt = jk_attempt k, er_revision = revision, er_forgotten = False\<rparr>) # tb_episodes t\<rparr>))"

text \<open>The conditional update; the number of rows it affects is 0 or 1, as the key is unique.\<close>

definition update_episode :: "database \<Rightarrow> journal_key \<Rightarrow> int \<Rightarrow> int \<Rightarrow> tables \<Rightarrow> tables res" where
  "update_episode db k old revision t =
     statement db Update_Episode (\<lambda>_.
       case map_of (tb_episodes t) (jk_scope k, jk_episode k) of
         None \<Rightarrow> Inl ErrJournalConflict
       | Some row \<Rightarrow>
           if er_revision row \<noteq> old \<or> er_forgotten row then Inl ErrJournalConflict
           else if revision \<le> 0 then Inl ErrStorage
           else Inr (t\<lparr>tb_episodes := AList.update (jk_scope k, jk_episode k) (row\<lparr>er_revision := revision\<rparr>) (tb_episodes t)\<rparr>))"

definition insert_revision :: "database \<Rightarrow> journal_key \<Rightarrow> int \<Rightarrow> string \<Rightarrow> tables \<Rightarrow> tables res" where
  "insert_revision db k revision raw t =
     statement db Insert_Revision (\<lambda>_.
       if map_of (tb_revisions t) (jk_scope k, jk_episode k, revision) \<noteq> None then Inl (safe_error Unique_Violation)
       else if revision \<le> 0 \<or> length raw > MaxRecordBytes \<or> map_of (tb_episodes t) (jk_scope k, jk_episode k) = None
       then Inl ErrStorage
       else Inr (t\<lparr>tb_revisions := ((jk_scope k, jk_episode k, revision), raw) # tb_revisions t\<rparr>))"

definition insert_operation :: "database \<Rightarrow> journal_key \<Rightarrow> journal_operation \<Rightarrow> tables \<Rightarrow> tables res" where
  "insert_operation db k op t =
     (let revision = int64_of (ep_revision (jo_result op))
      in statement db Insert_Operation (\<lambda>_.
        if map_of (tb_operations t) (jk_scope k, jk_operation k) \<noteq> None then Inl (safe_error Unique_Violation)
        else if map_of (tb_episodes t) (jk_scope k, jk_episode k) = None \<or>
                map_of (tb_revisions t) (jk_scope k, jk_episode k, revision) = None
        then Inl ErrStorage
        else Inr (t\<lparr>tb_operations := ((jk_scope k, jk_operation k),
               \<lparr>oo_episode = jk_episode k, oo_digest = Some (jo_digest op), oo_revision = Some revision,
                oo_forgotten = False\<rparr>) # tb_operations t\<rparr>)))"

definition write_snapshot :: "json \<Rightarrow> database \<Rightarrow> journal_key \<Rightarrow> journal_state \<Rightarrow> journal_write \<Rightarrow> tables \<Rightarrow> tables res" where
  "write_snapshot js db k s w t =
     (case jw_next w of
        None \<Rightarrow> Inr t
      | Some e \<Rightarrow>
          case (case js_current s of
                  None \<Rightarrow> insert_episode db k (int64_of (ep_revision e)) t
                | Some c \<Rightarrow> update_episode db k (int64_of (ep_revision c)) (int64_of (ep_revision e)) t) of
            Inl err \<Rightarrow> Inl err
          | Inr t' \<Rightarrow>
              insert_revision db k (int64_of (ep_revision e)) (case_option [] id (js (Episode_Value e))) t')"

definition write_operation :: "database \<Rightarrow> journal_key \<Rightarrow> journal_write \<Rightarrow> tables \<Rightarrow> tables res" where
  "write_operation db k w t =
     (case jw_operation w of None \<Rightarrow> Inr t | Some op \<Rightarrow> insert_operation db k op t)"

definition commit :: "database \<Rightarrow> tables \<Rightarrow> tables \<Rightarrow> 'a \<Rightarrow> 'a res \<times> tables" where
  "commit db t t' result =
     (case db_cancelled db of
        Some err \<Rightarrow> (Inl err, t)
      | None \<Rightarrow>
          case db_commit db of
            Commits \<Rightarrow> (Inr result, t')
          | Fails_Undone \<Rightarrow> (Inl ErrCommitUnknown, t)
          | Fails_Done \<Rightarrow> (Inl ErrCommitUnknown, t'))"

definition copy_state :: "journal_state \<Rightarrow> journal_state" where
  "copy_state s =
     \<lparr>js_current = map_option clone_episode (js_current s),
      js_operation = map_option (\<lambda>op. \<lparr>jo_digest = clone_text (jo_digest op), jo_result = clone_episode (jo_result op)\<rparr>)
                       (js_operation s),
      js_owner = clone_text (js_owner s)\<rparr>"

definition copy_result :: "journal_result \<Rightarrow> journal_result" where
  "copy_result r = r\<lparr>jr_episode := clone_episode (jr_episode r)\<rparr>"

definition transact :: "json \<Rightarrow> (string \<Rightarrow> episode option) \<Rightarrow> database \<Rightarrow> tables journal_store" where
  "transact js parse db k f t =
     (if \<not> list_all valid_ref [jk_episode k, jk_attempt k, jk_operation k] then (Inl ErrStorage, t)
      else case begin_tx db (jk_scope k) t of
        Inl err \<Rightarrow> (Inl err, t)
      | Inr _ \<Rightarrow>
      case load_state js parse db k t of
        Inl err \<Rightarrow> (Inl err, t)
      | Inr state \<Rightarrow>
      case f state of
        Inl err \<Rightarrow> (Inl err, t)
      | Inr w \<Rightarrow>
      case validate_write js k (copy_state state) w of
        Some err \<Rightarrow> (Inl err, t)
      | None \<Rightarrow>
      case write_snapshot js db k (copy_state state) w t of
        Inl err \<Rightarrow> (Inl err, t)
      | Inr t1 \<Rightarrow>
      case write_operation db k w t1 of
        Inl err \<Rightarrow> (Inl err, t)
      | Inr t2 \<Rightarrow> commit db t t2 (copy_result (jw_result w)))"

subsection \<open>Reading, forgetting and listing\<close>

definition read_episode ::
    "json \<Rightarrow> (string \<Rightarrow> episode option) \<Rightarrow> database \<Rightarrow> string \<Rightarrow> string \<Rightarrow> tables \<Rightarrow> episode option res" where
  "read_episode js parse db scope ep t =
     (if \<not> valid_ref ep then Inl ErrStorage
      else case begin_tx db scope t of
        Inl err \<Rightarrow> Inl err
      | Inr _ \<Rightarrow>
          statement db Select_Episode (\<lambda>_.
            case map_of (tb_episodes t) (scope, ep) of
              None \<Rightarrow> Inr None
            | Some row \<Rightarrow>
                if er_forgotten row then Inl ErrForgotten
                else case read_snapshot js parse db Select_Snapshot t scope ep (er_revision row) of
                    Inl err \<Rightarrow> Inl err
                  | Inr e \<Rightarrow> Inr (Some e)))"

definition forget_operation_row :: "operation_row \<Rightarrow> operation_row" where
  "forget_operation_row row = row\<lparr>oo_digest := None, oo_revision := None, oo_forgotten := True\<rparr>"

definition forget_tables :: "string \<Rightarrow> string \<Rightarrow> tables \<Rightarrow> tables" where
  "forget_tables scope ep t =
     t\<lparr>tb_operations := map (\<lambda>((s, k), row).
          ((s, k), if s = scope \<and> oo_episode row = ep then forget_operation_row row else row)) (tb_operations t),
       tb_revisions := filter (\<lambda>((s, e, r), raw). \<not> (s = scope \<and> e = ep)) (tb_revisions t),
       tb_episodes := map (\<lambda>((s, e), row).
          ((s, e), if s = scope \<and> e = ep then row\<lparr>er_forgotten := True\<rparr> else row)) (tb_episodes t)\<rparr>"

definition forget_episode :: "database \<Rightarrow> string \<Rightarrow> string \<Rightarrow> tables \<Rightarrow> gerror option \<times> tables" where
  "forget_episode db scope ep t =
     (if \<not> valid_ref ep then (Some ErrStorage, t)
      else case begin_tx db scope t of
        Inl err \<Rightarrow> (Some err, t)
      | Inr _ \<Rightarrow>
          case statement db Forget_Operations (\<lambda>_. statement db Delete_Revisions (\<lambda>_.
                 statement db Forget_Episode (\<lambda>_. Inr ()))) of
            Inl err \<Rightarrow> (Some err, t)
          | Inr _ \<Rightarrow>
              (case commit db t (forget_tables scope ep t) () of
                 (Inl err, t') \<Rightarrow> (Some err, t')
               | (Inr _, t') \<Rightarrow> (None, t')))"

text \<open>
  \<open>Open\<close> checks the installed version.  \<open>Initialize\<close> creates the tables when no version is installed;
  creating tables that exist without a version is a fault of that statement.
\<close>

definition open_store :: "database \<Rightarrow> tables \<Rightarrow> gerror option" where
  "open_store db t =
     (if db_fault db Select_Version \<noteq> None \<or> tb_version t \<noteq> Some schema_version then Some ErrSchema else None)"

definition new_tables :: tables where
  "new_tables = \<lparr>tb_version = Some schema_version, tb_episodes = [], tb_revisions = [], tb_operations = []\<rparr>"

definition initialize_store :: "database \<Rightarrow> tables \<Rightarrow> gerror option \<times> tables" where
  "initialize_store db t =
     (case statement db Begin_Tx (\<lambda>_. statement db Take_Lock (\<lambda>_. statement db Create_Schema (\<lambda>_.
             statement db Select_Version (\<lambda>_.
               case tb_version t of
                 Some v \<Rightarrow> if v \<noteq> schema_version then Inl ErrSchema else Inr t
               | None \<Rightarrow> statement db Create_Tables (\<lambda>_. Inr new_tables))))) of
        Inl err \<Rightarrow> (Some err, t)
      | Inr t' \<Rightarrow>
          (case db_commit db of
             Commits \<Rightarrow> (None, t')
           | Fails_Undone \<Rightarrow> (Some ErrCommitUnknown, t)
           | Fails_Done \<Rightarrow> (Some ErrCommitUnknown, t')))"

text \<open>
  \<open>Unsettled\<close> reads the current revisions of the episodes that are not forgotten, a page at a time, in
  the order of the database; \<open>collate\<close> is that order.
\<close>

definition unsettledPage :: nat where
  "unsettledPage = 200"

definition current_rows ::
    "((string \<times> string) list \<Rightarrow> (string \<times> string) list) \<Rightarrow> tables \<Rightarrow> (string \<times> string \<times> int \<times> string) list" where
  "current_rows collate t = List.map_filter
     (\<lambda>(s, r). case map_of (tb_episodes t) (s, r) of
        None \<Rightarrow> None
      | Some row \<Rightarrow>
          if er_forgotten row then None
          else map_option (\<lambda>raw. (s, r, er_revision row, raw)) (map_of (tb_revisions t) (s, r, er_revision row)))
     (collate (map fst (tb_episodes t)))"

definition scan_row ::
    "json \<Rightarrow> (string \<Rightarrow> episode option) \<Rightarrow> int \<Rightarrow> int \<Rightarrow> episode list \<times> int \<Rightarrow> string \<times> string \<times> int \<times> string \<Rightarrow>
     episode list \<times> int" where
  "scan_row js parse before_time limit acc row =
     (case (acc, row) of ((out, unreadable), (s, r, n, raw)) \<Rightarrow>
        case decode_snapshot js parse raw of
          Inl err \<Rightarrow> (out, unreadable + 1)
        | Inr e \<Rightarrow>
            if ep_scope e \<noteq> s \<or> ep_ref e \<noteq> r \<or> ep_revision e \<noteq> word_of_int n then (out, unreadable + 1)
            else if unsettled before_time e \<and> int (length out) < limit then (out @ [e], unreadable)
            else (out, unreadable))"

function read_pages ::
    "json \<Rightarrow> (string \<Rightarrow> episode option) \<Rightarrow> database \<Rightarrow> int \<Rightarrow> int \<Rightarrow> (string \<times> string \<times> int \<times> string) list \<Rightarrow>
     episode list \<Rightarrow> int \<Rightarrow> episode list \<times> int \<times> gerror option" where
  "read_pages js parse db before_time limit rows out unreadable =
     (if \<not> int (length out) < limit then (out, unreadable, None)
      else case db_fault db Select_Unsettled of
        Some fault \<Rightarrow> ([], unreadable, Some (safe_error fault))
      | None \<Rightarrow>
          (case foldl (scan_row js parse before_time limit) (out, unreadable) (take unsettledPage rows) of
             (out', unreadable') \<Rightarrow>
               if length (take unsettledPage rows) < unsettledPage then (out', unreadable', None)
               else read_pages js parse db before_time limit (drop unsettledPage rows) out' unreadable'))"
  by pat_completeness auto
termination
  by (relation "measure (\<lambda>(js, parse, db, before_time, limit, rows, out, unreadable). length rows)")
    (auto simp: unsettledPage_def)

declare read_pages.simps [simp del]

definition read_unsettled ::
    "json \<Rightarrow> (string \<Rightarrow> episode option) \<Rightarrow> database \<Rightarrow> ((string \<times> string) list \<Rightarrow> (string \<times> string) list) \<Rightarrow>
     tables unsettled_reader" where
  "read_unsettled js parse db collate before_time limit t =
     read_pages js parse db before_time limit (current_rows collate t) [] 0"

end
