(* ===== verification/App_History.thy ===== *)
theory App_History
  imports App_Store
begin

section \<open>What the journal keeps\<close>

text \<open>
  The journal over its tables.  A run is any sequence of commands and deletions, each with any clock,
  any admission policy and any behaviour of the database.  The histories it stores are legal: each
  revision follows the one before by a permitted step.  \<open>faithful\<close> is what is documented of the JSON
  package: decoding what was encoded gives the copied value, and an encoding is not empty.
\<close>

definition faithful :: "json \<Rightarrow> (string \<Rightarrow> episode option) \<Rightarrow> bool" where
  "faithful js parse \<longleftrightarrow>
     (\<forall>e raw. js (Episode_Value e) = Some raw \<longrightarrow> raw \<noteq> [] \<and> parse raw = Some (clone_episode e))"

subsection \<open>Legal steps\<close>

text \<open>
  What stays of an attempt: everything but its phase and the time of its dispatch.
\<close>

definition same_attempt :: "attempt \<Rightarrow> attempt \<Rightarrow> bool" where
  "same_attempt a b \<longleftrightarrow> b = a\<lparr>at_phase := at_phase b, at_dispatched_at := at_dispatched_at b\<rparr>"

text \<open>
  The phases: a prepared attempt may be dispatched, now; one that is not settled may be interrupted; an
  observation of a dispatched attempt is added at the end and, unless its outcome is unknown, settles
  the attempt, even an interrupted one.
\<close>

definition legal_step :: "episode \<Rightarrow> episode \<Rightarrow> bool" where
  "legal_step c e \<longleftrightarrow>
     uint (ep_revision e) = uint (ep_revision c) + 1 \<and>
     ep_scope e = ep_scope c \<and> ep_ref e = ep_ref c \<and> ep_accepted c \<le> ep_accepted e \<and>
     ep_constraints e = ep_constraints c \<and> ep_prediction e = ep_prediction c \<and>
     same_attempt (ep_attempt c) (ep_attempt e) \<and>
     (at_phase (ep_attempt c) = ''prepared'' \<and> at_phase (ep_attempt e) = ''dispatched'' \<and>
        at_dispatched_at (ep_attempt e) = Some (ep_accepted e) \<and> ep_observations e = ep_observations c \<or>
      at_phase (ep_attempt c) \<in> {''prepared'', ''dispatched''} \<and> at_phase (ep_attempt e) = ''interrupted'' \<and>
        at_dispatched_at (ep_attempt e) = at_dispatched_at (ep_attempt c) \<and> ep_observations e = ep_observations c \<or>
      at_dispatched_at (ep_attempt c) \<noteq> None \<and> at_dispatched_at (ep_attempt e) = at_dispatched_at (ep_attempt c) \<and>
        (\<exists>b. ep_observations e = ep_observations c @ [b] \<and> ob_accepted b = ep_accepted e \<and>
           ob_ref b \<notin> ob_ref ` set (ep_observations c) \<and>
           at_phase (ep_attempt e) = (if ob_outcome b = ''unknown'' then at_phase (ep_attempt c) else ''settled'')))"

text \<open>A first revision: a preparation, stamped now, with no observation.\<close>

definition first_step :: "episode \<Rightarrow> bool" where
  "first_step e \<longleftrightarrow>
     ep_revision e = 1 \<and> at_phase (ep_attempt e) = ''prepared'' \<and> at_dispatched_at (ep_attempt e) = None \<and>
     ep_observations e = [] \<and> at_accepted (ep_attempt e) = ep_accepted e"

text \<open>What a mutation may do to the episode it is given.\<close>

definition lawful :: "json \<Rightarrow> mutation \<Rightarrow> bool" where
  "lawful js mutate \<longleftrightarrow>
     (\<forall>current now e changed. mutate current now = Inr (e, changed) \<longrightarrow>
        (case current of
           None \<Rightarrow> changed \<and> first_step e
         | Some c \<Rightarrow> validate_episode js c = None \<longrightarrow> ep_revision c \<noteq> - 1 \<longrightarrow> ep_accepted c \<le> now \<longrightarrow>
             (if changed then legal_step c e else e = c)))"

lemma lawfulD_first: "lawful js mutate \<Longrightarrow> mutate None now = Inr (e, changed) \<Longrightarrow> changed \<and> first_step e"
  by (fastforce simp: lawful_def)

lemma lawfulD_step:
  "lawful js mutate \<Longrightarrow> mutate (Some c) now = Inr (e, changed) \<Longrightarrow> validate_episode js c = None \<Longrightarrow>
   ep_revision c \<noteq> - 1 \<Longrightarrow> ep_accepted c \<le> now \<Longrightarrow>
     (if changed then legal_step c e else e = c)"
  by (fastforce simp: lawful_def)

lemma next_revision: "w \<noteq> - 1 \<Longrightarrow> uint (w + 1) = uint (w :: 64 word) + 1"
proof -
  assume "w \<noteq> - 1"
  then have "1 + w \<noteq> 0" by (metis add_eq_0_iff)
  then have "unat (1 + w) = Suc (unat w)" by (rule unatSuc)
  then have "int (unat (w + 1)) = int (unat w) + 1" by (simp add: add.commute)
  then show ?thesis by (simp only: uint_nat)
qed

lemma begin_lawful:
  assumes "at_phase (br_attempt r) = ''prepared''" and "at_dispatched_at (br_attempt r) = None"
  shows "lawful js (begin_mutation r)"
  using assms clone_word [of "''prepared''"]
  by (auto simp: lawful_def begin_mutation_def first_step_def clone_attempt_def Let_def split: option.splits if_splits)

lemma dispatch_lawful: "lawful js dispatch_mutation"
  by (auto simp: lawful_def dispatch_mutation_def legal_step_def same_attempt_def advanced_def next_revision
      split: option.splits if_splits)

lemma phase_cases:
  "validate_attempt js a = None \<Longrightarrow> at_phase a \<in> {''prepared'', ''dispatched'', ''settled'', ''interrupted''}"
  using validate_attemptD(13) [of js a] by (auto simp: check_phase_def split: if_splits)

lemma interrupt_lawful: "lawful js interrupt_mutation"
  unfolding lawful_def
proof (intro allI impI)
  fix current now e changed
  assume m: "interrupt_mutation current now = Inr (e, changed)"
  show "case current of
           None \<Rightarrow> changed \<and> first_step e
         | Some c \<Rightarrow> validate_episode js c = None \<longrightarrow> ep_revision c \<noteq> - 1 \<longrightarrow> ep_accepted c \<le> now \<longrightarrow>
             (if changed then legal_step c e else e = c)"
  proof (cases current)
    case None
    then show ?thesis using m by (simp add: interrupt_mutation_def)
  next
    case (Some c)
    have "at_phase (ep_attempt c) \<in> {''prepared'', ''dispatched'', ''settled'', ''interrupted''}"
      if "validate_episode js c = None"
      using phase_cases validate_episodeD(3) that by blast
    then show ?thesis
      using m Some
      by (auto simp: interrupt_mutation_def legal_step_def same_attempt_def advanced_def next_revision
          split: if_splits)
  qed
qed

lemma observe_mutation_cases:
  assumes "observe_mutation env incoming current now = Inr (e, changed)"
  obtains (repeated) c where "current = Some c" "e = c" "\<not> changed"
  | (new) c b where "current = Some c" "changed" "validate_observation (jn_json env) (ep_attempt c) b = None"
      "ob_accepted b = now" "ob_ref b \<notin> ob_ref ` set (ep_observations c)"
      "e = (if ob_outcome b \<noteq> ''unknown''
            then (advanced c now)\<lparr>ep_observations := ep_observations c @ [b],
                                  ep_attempt := (ep_attempt c)\<lparr>at_phase := ''settled''\<rparr>\<rparr>
            else (advanced c now)\<lparr>ep_observations := ep_observations c @ [b]\<rparr>)"
proof -
  obtain c where c: "current = Some c" using assms by (cases current) (auto simp: observe_mutation_def)
  define b where "b = (clone_observation incoming)\<lparr>ob_stamp := (ob_stamp (clone_observation incoming))\<lparr>sp_accepted_at := now\<rparr>\<rparr>"
  have v: "validate_observation (jn_json env) (ep_attempt c) b = None"
    using assms by (simp add: observe_mutation_def c Let_def b_def [symmetric] split: option.splits)
  have acc: "ob_accepted b = now" by (simp add: b_def)
  show thesis
  proof (cases "find (\<lambda>prior. ob_ref prior = ob_ref b) (ep_observations c)")
    case None
    then have "ob_ref b \<notin> ob_ref ` set (ep_observations c)" by (auto simp: find_None_iff)
    then show thesis
      using assms None new [OF c _ v acc]
      by (simp add: observe_mutation_def c Let_def b_def [symmetric] v split: if_splits)
  next
    case (Some prior)
    then show thesis
      using assms repeated [OF c]
      by (simp add: observe_mutation_def c Let_def b_def [symmetric] v split: if_splits)
  qed
qed

lemma observe_lawful: "lawful js (observe_mutation env incoming)"
  unfolding lawful_def
proof (intro allI impI)
  fix current now e changed
  assume "observe_mutation env incoming current now = Inr (e, changed)"
  then show "case current of
           None \<Rightarrow> changed \<and> first_step e
         | Some c \<Rightarrow> validate_episode js c = None \<longrightarrow> ep_revision c \<noteq> - 1 \<longrightarrow> ep_accepted c \<le> now \<longrightarrow>
             (if changed then legal_step c e else e = c)"
  proof (cases rule: observe_mutation_cases)
    case (new c b)
    then show ?thesis
      using validate_observationD(8) [OF new(3)]
      by (auto simp: legal_step_def same_attempt_def advanced_def next_revision)
  qed auto
qed

subsection \<open>One transaction\<close>

lemma statementD: "statement db step run = Inr x \<Longrightarrow> run () = Inr x"
  by (auto simp: statement_def split: option.splits)

lemma callback_cases:
  assumes "journal_callback env k dig expected admission mutate state = Inr w"
  obtains (replay) op where "js_operation state = Some op" "jo_digest op = dig" "keyed k (jo_result op)"
      "validate_episode (jn_json env) (jo_result op) = None" "jw_next w = None" "jw_operation w = None"
      "jw_result w = \<lparr>jr_episode = clone_episode (jo_result op), jr_changed = False, jr_replayed = True\<rparr>"
  | (new) current now e changed where "js_operation state = None"
      "current_episode env k expected state = Inr current"
      "current \<noteq> None \<longrightarrow> js_owner state = jk_episode k" "js_owner state = [] \<or> js_owner state = jk_episode k"
      "\<And>c. current = Some c \<Longrightarrow> ep_accepted c \<le> now" "mutate current now = Inr (e, changed)"
      "keyed k e" "validate_episode (jn_json env) e = None"
      "w = \<lparr>jw_next = (if changed then Some e else None),
            jw_operation = Some \<lparr>jo_digest = dig, jo_result = e\<rparr>,
            jw_result = \<lparr>jr_episode = e, jr_changed = changed, jr_replayed = False\<rparr>\<rparr>"
proof (cases "js_operation state")
  case (Some op)
  then show thesis
    using assms replay [OF Some]
    by (auto simp: journal_callback_def replay_operation_def Let_def split: option.splits if_splits)
next
  case None
  from assms None obtain current now result where *:
    "current_episode env k expected state = Inr current"
    "\<not> ((current \<noteq> None \<and> js_owner state \<noteq> jk_episode k) \<or> (js_owner state \<noteq> [] \<and> js_owner state \<noteq> jk_episode k))"
    "\<not> (case current of None \<Rightarrow> False | Some c \<Rightarrow> now < ep_accepted c)"
    "mutate current now = Inr result" "committed_write env k dig result = Inr w"
    by (auto simp: journal_callback_def Let_def split: option.splits sum.splits if_splits)
  obtain e changed where r: "result = (e, changed)" by force
  have k: "keyed k e" "validate_episode (jn_json env) e = None"
    using *(5) by (auto simp: committed_write_def r split: option.splits if_splits)
  then have "w = \<lparr>jw_next = (if changed then Some e else None),
            jw_operation = Some \<lparr>jo_digest = dig, jo_result = e\<rparr>,
            jw_result = \<lparr>jr_episode = e, jr_changed = changed, jr_replayed = False\<rparr>\<rparr>"
    using *(5) clone_episode_valid [OF k(2)]
    by (auto simp: committed_write_def r split: if_splits)
  then show thesis
    using * k by (intro new [OF None *(1)]) (auto simp: r)
qed

lemma current_episode_cases:
  assumes "current_episode env k expected state = Inr current"
  obtains (fresh) "js_current state = None" "current = None"
  | (stored) c where "js_current state = Some c" "current = Some (clone_episode c)"
      "validate_episode (jn_json env) (clone_episode c) = None" "keyed k (clone_episode c)"
      "ep_revision (clone_episode c) \<noteq> - 1"
  using assms
  by (auto simp: current_episode_def Let_def split: option.splits if_splits)

lemma transact_cases:
  assumes "transact js parse db k f t = (res, t')"
  obtains (failed) err where "res = Inl err" "t' = t"
  | (ran) state w t1 t2 where "load_state js parse db k t = Inr state" "f state = Inr w"
      "validate_write js k (copy_state state) w = None" "write_snapshot js db k (copy_state state) w t = Inr t1"
      "write_operation db k w t1 = Inr t2"
      "res = Inr (copy_result (jw_result w)) \<and> t' = t2 \<or> res = Inl ErrCommitUnknown \<and> (t' = t \<or> t' = t2) \<or>
       (\<exists>err. res = Inl err \<and> t' = t)"
  using assms
  by (auto simp: transact_def commit_def split: if_splits sum.splits option.splits commit_outcome.splits)

lemma apply_cases:
  assumes "journal_apply env (Some store) k action request expected admission mutate s = (res, s')"
  obtains (refused) err where "res = Inl err" "s' = s"
  | (ran) raw where "jn_json env (Command_Value action request) = Some raw"
      "list_all valid_ref [jk_scope k, jk_episode k, jk_attempt k, jk_operation k]"
      "store k (journal_callback env k (request_digest raw) expected admission mutate) s = (res, s')"
  using assms
  by (auto simp: journal_apply_def split: option.splits if_splits)

end
