(* ===== verification/App_Tables.thy ===== *)
theory App_Tables
  imports App_History
begin

section \<open>The tables stay in order\<close>

text \<open>
  The invariant of the journal's tables and its preservation by every transaction and deletion.
\<close>

definition snapshot_in ::
    "json \<Rightarrow> (string \<Rightarrow> episode option) \<Rightarrow> ((string \<times> string \<times> int) \<times> string) list \<Rightarrow> string \<Rightarrow> string \<Rightarrow> int \<Rightarrow>
     episode option" where
  "snapshot_in js parse revs s r n =
     (case map_of revs (s, r, n) of
        None \<Rightarrow> None
      | Some raw \<Rightarrow> (case decode_snapshot js parse raw of Inl err \<Rightarrow> None | Inr e \<Rightarrow> Some e))"

text \<open>The history of an episode that is not forgotten: every revision from the first to the current one.\<close>

definition history_ok ::
    "json \<Rightarrow> (string \<Rightarrow> episode option) \<Rightarrow> ((string \<times> string \<times> int) \<times> string) list \<Rightarrow> string \<Rightarrow> string \<Rightarrow>
     episode_row \<Rightarrow> bool" where
  "history_ok js parse revs s r row \<longleftrightarrow>
     0 < er_revision row \<and>
     (\<forall>n \<in> {1..er_revision row}. \<exists>e. snapshot_in js parse revs s r n = Some e \<and> ep_scope e = s \<and> ep_ref e = r \<and>
        uint (ep_revision e) = n \<and> at_ref (ep_attempt e) = er_attempt row) \<and>
     first_step (the (snapshot_in js parse revs s r 1)) \<and>
     (\<forall>n \<in> {1..<er_revision row}.
        legal_step (the (snapshot_in js parse revs s r n)) (the (snapshot_in js parse revs s r (n + 1))))"

definition tables_ok :: "json \<Rightarrow> (string \<Rightarrow> episode option) \<Rightarrow> tables \<Rightarrow> bool" where
  "tables_ok js parse t \<longleftrightarrow>
     distinct (map fst (tb_episodes t)) \<and>
     (\<forall>s r row. map_of (tb_episodes t) (s, r) = Some row \<longrightarrow> r \<noteq> []) \<and>
     (\<forall>s r row. map_of (tb_episodes t) (s, r) = Some row \<longrightarrow> \<not> er_forgotten row \<longrightarrow>
        history_ok js parse (tb_revisions t) s r row) \<and>
     (\<forall>s r n. map_of (tb_revisions t) (s, r, n) \<noteq> None \<longrightarrow>
        (\<exists>row. map_of (tb_episodes t) (s, r) = Some row \<and> \<not> er_forgotten row \<and> 1 \<le> n \<and> n \<le> er_revision row)) \<and>
     (\<forall>s r r' row row'. map_of (tb_episodes t) (s, r) = Some row \<longrightarrow> map_of (tb_episodes t) (s, r') = Some row' \<longrightarrow>
        er_attempt row = er_attempt row' \<longrightarrow> r = r') \<and>
     (\<forall>s k row. map_of (tb_operations t) (s, k) = Some row \<longrightarrow>
        (\<exists>erow. map_of (tb_episodes t) (s, oo_episode row) = Some erow \<and> oo_forgotten row = er_forgotten erow) \<and>
        (if oo_forgotten row then oo_digest row = None \<and> oo_revision row = None
         else \<exists>d n. oo_digest row = Some d \<and> oo_revision row = Some n \<and>
                    map_of (tb_revisions t) (s, oo_episode row, n) \<noteq> None))"

lemma tables_okI:
  assumes "distinct (map fst (tb_episodes t))"
    and "\<And>s r row. map_of (tb_episodes t) (s, r) = Some row \<Longrightarrow> r \<noteq> []"
    and "\<And>s r row. map_of (tb_episodes t) (s, r) = Some row \<Longrightarrow> \<not> er_forgotten row \<Longrightarrow>
        history_ok js parse (tb_revisions t) s r row"
    and "\<And>s r n. map_of (tb_revisions t) (s, r, n) \<noteq> None \<Longrightarrow>
        \<exists>row. map_of (tb_episodes t) (s, r) = Some row \<and> \<not> er_forgotten row \<and> 1 \<le> n \<and> n \<le> er_revision row"
    and "\<And>s r r' row row'. map_of (tb_episodes t) (s, r) = Some row \<Longrightarrow> map_of (tb_episodes t) (s, r') = Some row' \<Longrightarrow>
        er_attempt row = er_attempt row' \<Longrightarrow> r = r'"
    and "\<And>s k row. map_of (tb_operations t) (s, k) = Some row \<Longrightarrow>
        (\<exists>erow. map_of (tb_episodes t) (s, oo_episode row) = Some erow \<and> oo_forgotten row = er_forgotten erow) \<and>
        (if oo_forgotten row then oo_digest row = None \<and> oo_revision row = None
         else \<exists>d n. oo_digest row = Some d \<and> oo_revision row = Some n \<and>
                    map_of (tb_revisions t) (s, oo_episode row, n) \<noteq> None)"
  shows "tables_ok js parse t"
  unfolding tables_ok_def using assms by (intro conjI) blast+

lemma tables_okD:
  assumes "tables_ok js parse t"
  shows "distinct (map fst (tb_episodes t))"
    and "map_of (tb_episodes t) (s, r) = Some row \<Longrightarrow> r \<noteq> []"
    and "map_of (tb_episodes t) (s, r) = Some row \<Longrightarrow> \<not> er_forgotten row \<Longrightarrow>
        history_ok js parse (tb_revisions t) s r row"
    and "map_of (tb_revisions t) (s, r, n) \<noteq> None \<Longrightarrow>
        \<exists>row. map_of (tb_episodes t) (s, r) = Some row \<and> \<not> er_forgotten row \<and> 1 \<le> n \<and> n \<le> er_revision row"
    and "map_of (tb_episodes t) (s, r) = Some row \<Longrightarrow> map_of (tb_episodes t) (s, r') = Some row' \<Longrightarrow>
        er_attempt row = er_attempt row' \<Longrightarrow> r = r'"
    and "map_of (tb_operations t) (s, k) = Some orow \<Longrightarrow>
        (\<exists>erow. map_of (tb_episodes t) (s, oo_episode orow) = Some erow \<and> oo_forgotten orow = er_forgotten erow) \<and>
        (if oo_forgotten orow then oo_digest orow = None \<and> oo_revision orow = None
         else \<exists>d n. oo_digest orow = Some d \<and> oo_revision orow = Some n \<and>
                    map_of (tb_revisions t) (s, oo_episode orow, n) \<noteq> None)"
  using assms unfolding tables_ok_def by blast+

subsection \<open>Snapshots\<close>

lemma encoded:
  assumes "validate_episode js e = None"
  obtains raw where "js (Episode_Value e) = Some raw" "length raw \<le> MaxRecordBytes"
  using validate_episodeD(1) [OF assms] by (auto simp: bounded_value_def split: option.splits if_splits)

lemma snapshot_added:
  assumes "faithful js parse" and "validate_episode js e = None"
  shows "snapshot_in js parse (((s, r, n), case_option [] id (js (Episode_Value e))) # revs) s' r' n' =
     (if (s', r', n') = (s, r, n) then Some e else snapshot_in js parse revs s' r' n')"
proof -
  obtain raw where raw: "js (Episode_Value e) = Some raw" "length raw \<le> MaxRecordBytes"
    using encoded [OF assms(2)] .
  then have "decode_snapshot js parse raw = Inr e"
    using assms clone_episode_valid [OF assms(2)] by (auto simp: decode_snapshot_def faithful_def)
  then show ?thesis using raw by (auto simp: snapshot_in_def)
qed

lemma snapshot_valid: "snapshot_in js parse revs s r n = Some e \<Longrightarrow> validate_episode js e = None"
  by (auto simp: snapshot_in_def decode_snapshot_def split: option.splits sum.splits if_splits)

lemma history_kept:
  assumes "history_ok js parse revs s r row"
    and "\<And>n. 1 \<le> n \<Longrightarrow> n \<le> er_revision row \<Longrightarrow> snapshot_in js parse revs' s r n = snapshot_in js parse revs s r n"
  shows "history_ok js parse revs' s r row"
  using assms by (simp add: history_ok_def)

lemma history_revision:
  assumes "history_ok js parse revs s r row" and "snapshot_in js parse revs s r (er_revision row) = Some c"
  shows "uint (ep_revision c) = er_revision row"
proof -
  have "er_revision row \<in> {1..er_revision row}" using assms(1) by (simp add: history_ok_def)
  then obtain e where "snapshot_in js parse revs s r (er_revision row) = Some e" "uint (ep_revision e) = er_revision row"
    using assms(1) unfolding history_ok_def by blast
  then show ?thesis using assms(2) by simp
qed

text \<open>A history grows by one legal step.\<close>

lemma history_grows:
  assumes "history_ok js parse revs s r row" and "snapshot_in js parse revs s r (er_revision row) = Some c"
    and "legal_step c e"
    and "\<And>n. snapshot_in js parse revs' s r n =
           (if n = er_revision row + 1 then Some e else snapshot_in js parse revs s r n)"
  shows "history_ok js parse revs' s r (row\<lparr>er_revision := er_revision row + 1\<rparr>)"
proof -
  let ?n = "er_revision row"
  have n: "0 < ?n" and all: "\<forall>n \<in> {1..?n}. \<exists>e. snapshot_in js parse revs s r n = Some e \<and> ep_scope e = s \<and> ep_ref e = r \<and>
        uint (ep_revision e) = n \<and> at_ref (ep_attempt e) = er_attempt row"
    and first: "first_step (the (snapshot_in js parse revs s r 1))"
    and steps: "\<forall>n \<in> {1..<?n}. legal_step (the (snapshot_in js parse revs s r n)) (the (snapshot_in js parse revs s r (n + 1)))"
    using assms(1) by (simp_all add: history_ok_def)
  have "?n \<in> {1..?n}" using n by simp
  with all obtain e0 where "snapshot_in js parse revs s r ?n = Some e0" "ep_scope e0 = s" "ep_ref e0 = r"
    "uint (ep_revision e0) = ?n" "at_ref (ep_attempt e0) = er_attempt row" by blast
  then have c: "ep_scope c = s" "ep_ref c = r" "uint (ep_revision c) = ?n" "at_ref (ep_attempt c) = er_attempt row"
    using assms(2) by simp_all
  have "at_stamp (ep_attempt e) = at_stamp (ep_attempt c)"
  proof -
    have "ep_attempt e = (ep_attempt c)\<lparr>at_phase := at_phase (ep_attempt e), at_dispatched_at := at_dispatched_at (ep_attempt e)\<rparr>"
      using assms(3) by (simp add: legal_step_def same_attempt_def)
    then show ?thesis by (metis attempt.select_convs(1) attempt.surjective attempt.update_convs(14) attempt.update_convs(15))
  qed
  then have e: "ep_scope e = s" "ep_ref e = r" "uint (ep_revision e) = ?n + 1" "at_ref (ep_attempt e) = er_attempt row"
    using assms(3) c by (auto simp: legal_step_def)
  have "\<exists>e'. snapshot_in js parse revs' s r n = Some e' \<and> ep_scope e' = s \<and> ep_ref e' = r \<and>
        uint (ep_revision e') = n \<and> at_ref (ep_attempt e') = er_attempt row" if "n \<in> {1..?n + 1}" for n
    using that all e by (cases "n = ?n + 1") (auto simp: assms(4))
  moreover have "first_step (the (snapshot_in js parse revs' s r 1))" using first n by (simp add: assms(4))
  moreover have "legal_step (the (snapshot_in js parse revs' s r n)) (the (snapshot_in js parse revs' s r (n + 1)))"
    if "n \<in> {1..<?n + 1}" for n
    using that steps assms(2,3) by (cases "n = ?n") (auto simp: assms(4))
  ultimately show ?thesis using n by (simp add: history_ok_def)
qed

subsection \<open>The tables grow\<close>

lemma owner_free:
  assumes "tables_ok js parse t" and "attempt_owner t s a = []" and "map_of (tb_episodes t) (s, r) = Some row"
  shows "er_attempt row \<noteq> a"
proof
  assume a: "er_attempt row = a"
  have "((s, r), row) \<in> set (tb_episodes t)" using assms(3) by (rule map_of_SomeD)
  then have "find (\<lambda>((s', r), row). s' = s \<and> er_attempt row = a) (tb_episodes t) \<noteq> None"
    using a by (auto simp: find_None_iff)
  then obtain s' r' row' where f: "find (\<lambda>((s', r), row). s' = s \<and> er_attempt row = a) (tb_episodes t) = Some ((s', r'), row')"
    by fastforce
  then have "((s', r'), row') \<in> set (tb_episodes t)" by (force simp: find_Some_iff in_set_conv_nth)
  then have "map_of (tb_episodes t) (s', r') = Some row'" using tables_okD(1) [OF assms(1)] by simp
  then have "r' \<noteq> []" by (rule tables_okD(2) [OF assms(1)])
  then show False using assms(2) f by (simp add: attempt_owner_def)
qed

text \<open>A new episode with its first revision.\<close>

lemma first_write_ok:
  assumes ok: "tables_ok js parse t" and f: "faithful js parse" and v: "validate_episode js e = None"
    and new: "map_of (tb_episodes t) (s, r) = None" "r \<noteq> []" "attempt_owner t s a = []"
    and e: "first_step e" "ep_scope e = s" "ep_ref e = r" "at_ref (ep_attempt e) = a"
  shows "tables_ok js parse (t\<lparr>tb_episodes := ((s, r), \<lparr>er_attempt = a, er_revision = 1, er_forgotten = False\<rparr>) # tb_episodes t,
           tb_revisions := ((s, r, 1), case_option [] id (js (Episode_Value e))) # tb_revisions t\<rparr>)"
    (is "tables_ok js parse ?t")
proof (rule tables_okI)
  note snap = snapshot_added [OF f v, of s r 1 "tb_revisions t"]
  have none: "map_of (tb_revisions t) (s, r, n) = None" for n
    using tables_okD(4) [OF ok, of s r n] new(1) by (cases "map_of (tb_revisions t) (s, r, n)") auto
  show "distinct (map fst (tb_episodes ?t))"
    using tables_okD(1) [OF ok] new(1) by (auto simp: map_of_eq_None_iff)
  show "r' \<noteq> []" if "map_of (tb_episodes ?t) (s', r') = Some row" for s' r' row
    using that new(2) tables_okD(2) [OF ok] by (auto split: if_splits)
  show "history_ok js parse (tb_revisions ?t) s' r' row"
    if "map_of (tb_episodes ?t) (s', r') = Some row" "\<not> er_forgotten row" for s' r' row
  proof (cases "(s', r') = (s, r)")
    case True
    then show ?thesis using that e by (auto simp: history_ok_def snap first_step_def)
  next
    case False
    then have "history_ok js parse (tb_revisions t) s' r' row" using that tables_okD(3) [OF ok] by auto
    then show ?thesis by (rule history_kept) (use False in \<open>auto simp: snap\<close>)
  qed
  show "\<exists>row. map_of (tb_episodes ?t) (s', r') = Some row \<and> \<not> er_forgotten row \<and> 1 \<le> n \<and> n \<le> er_revision row"
    if "map_of (tb_revisions ?t) (s', r', n) \<noteq> None" for s' r' n
    using that tables_okD(4) [OF ok, of s' r' n] none [of n] by (auto split: if_splits)
  show "r' = r''" if "map_of (tb_episodes ?t) (s', r') = Some row" "map_of (tb_episodes ?t) (s', r'') = Some row'"
      "er_attempt row = er_attempt row'" for s' r' r'' row row'
    using that tables_okD(5) [OF ok] by (auto split: if_splits dest: owner_free [OF ok new(3)])
  show "(\<exists>erow. map_of (tb_episodes ?t) (s', oo_episode row) = Some erow \<and> oo_forgotten row = er_forgotten erow) \<and>
        (if oo_forgotten row then oo_digest row = None \<and> oo_revision row = None
         else \<exists>d n. oo_digest row = Some d \<and> oo_revision row = Some n \<and>
                    map_of (tb_revisions ?t) (s', oo_episode row, n) \<noteq> None)"
    if "map_of (tb_operations ?t) (s', k) = Some row" for s' k row
    using that tables_okD(6) [OF ok, of s' k row] new(1) by (auto split: if_splits)
qed

text \<open>A further revision of an episode.\<close>

lemma next_write_ok:
  assumes ok: "tables_ok js parse t" and f: "faithful js parse" and v: "validate_episode js e = None"
    and row: "map_of (tb_episodes t) (s, r) = Some row" "\<not> er_forgotten row"
    and c: "snapshot_in js parse (tb_revisions t) s r (er_revision row) = Some c" "legal_step c e"
  shows "tables_ok js parse (t\<lparr>tb_episodes := AList.update (s, r) (row\<lparr>er_revision := er_revision row + 1\<rparr>) (tb_episodes t),
           tb_revisions := ((s, r, er_revision row + 1), case_option [] id (js (Episode_Value e))) # tb_revisions t\<rparr>)"
    (is "tables_ok js parse ?t")
proof (rule tables_okI)
  note snap = snapshot_added [OF f v, of s r "er_revision row + 1" "tb_revisions t"]
  have E: "map_of (tb_episodes ?t) = (map_of (tb_episodes t))((s, r) \<mapsto> row\<lparr>er_revision := er_revision row + 1\<rparr>)"
    by (simp add: update_conv')
  have pos: "0 < er_revision row" using tables_okD(3) [OF ok row] by (simp add: history_ok_def)
  show "distinct (map fst (tb_episodes ?t))" using tables_okD(1) [OF ok] by (simp add: distinct_update)
  show "r' \<noteq> []" if "map_of (tb_episodes ?t) (s', r') = Some row'" for s' r' row'
    using that tables_okD(2) [OF ok] row(1) unfolding E by (auto split: if_splits)
  show "history_ok js parse (tb_revisions ?t) s' r' row'"
    if "map_of (tb_episodes ?t) (s', r') = Some row'" "\<not> er_forgotten row'" for s' r' row'
  proof (cases "(s', r') = (s, r)")
    case True
    have "history_ok js parse (tb_revisions ?t) s r (row\<lparr>er_revision := er_revision row + 1\<rparr>)"
      by (rule history_grows [OF tables_okD(3) [OF ok row] c]) (simp add: snap)
    then show ?thesis using that True unfolding E by simp
  next
    case False
    then have "history_ok js parse (tb_revisions t) s' r' row'" using that tables_okD(3) [OF ok] unfolding E by auto
    then show ?thesis by (rule history_kept) (use False in \<open>auto simp: snap\<close>)
  qed
  show "\<exists>row. map_of (tb_episodes ?t) (s', r') = Some row \<and> \<not> er_forgotten row \<and> 1 \<le> n \<and> n \<le> er_revision row"
    if "map_of (tb_revisions ?t) (s', r', n) \<noteq> None" for s' r' n
    using that tables_okD(4) [OF ok, of s' r' n] row pos unfolding E by (fastforce split: if_splits)
  show "r' = r''" if "map_of (tb_episodes ?t) (s', r') = Some row1" "map_of (tb_episodes ?t) (s', r'') = Some row2"
      "er_attempt row1 = er_attempt row2" for s' r' r'' row1 row2
    using that tables_okD(5) [OF ok] row(1) unfolding E by (fastforce split: if_splits)
  show "(\<exists>erow. map_of (tb_episodes ?t) (s', oo_episode row') = Some erow \<and> oo_forgotten row' = er_forgotten erow) \<and>
        (if oo_forgotten row' then oo_digest row' = None \<and> oo_revision row' = None
         else \<exists>d n. oo_digest row' = Some d \<and> oo_revision row' = Some n \<and>
                    map_of (tb_revisions ?t) (s', oo_episode row', n) \<noteq> None)"
    if "map_of (tb_operations ?t) (s', k) = Some row'" for s' k row'
    using that tables_okD(6) [OF ok, of s' k row'] row unfolding E by (auto split: if_splits)
qed

text \<open>A recorded operation names a stored revision.\<close>

lemma operation_write_ok:
  assumes ok: "tables_ok js parse t" and "map_of (tb_revisions t) (s, r, n) \<noteq> None"
    and "map_of (tb_operations t) (s, k) = None"
  shows "tables_ok js parse (t\<lparr>tb_operations := ((s, k), \<lparr>oo_episode = r, oo_digest = Some d, oo_revision = Some n,
           oo_forgotten = False\<rparr>) # tb_operations t\<rparr>)"
    (is "tables_ok js parse ?t")
proof (rule tables_okI)
  show "(\<exists>erow. map_of (tb_episodes ?t) (s', oo_episode row') = Some erow \<and> oo_forgotten row' = er_forgotten erow) \<and>
        (if oo_forgotten row' then oo_digest row' = None \<and> oo_revision row' = None
         else \<exists>d n. oo_digest row' = Some d \<and> oo_revision row' = Some n \<and>
                    map_of (tb_revisions ?t) (s', oo_episode row', n) \<noteq> None)"
    if "map_of (tb_operations ?t) (s', k') = Some row'" for s' k' row'
    using that tables_okD(6) [OF ok, of s' k' row'] tables_okD(4) [OF ok assms(2)] assms(2)
    by (auto split: if_splits)
qed (use tables_okD(1-5) [OF ok] in simp_all)

subsection \<open>Forgetting\<close>

lemma map_of_operations:
  "map_of (tb_operations (forget_tables scope ep t)) (s, k) =
     map_option (\<lambda>row. if s = scope \<and> oo_episode row = ep then forget_operation_row row else row)
       (map_of (tb_operations t) (s, k))"
proof -
  have "map_of (map (\<lambda>((s, k), row). ((s, k), if s = scope \<and> oo_episode row = ep then forget_operation_row row else row)) xs) (s, k) =
     map_option (\<lambda>row. if s = scope \<and> oo_episode row = ep then forget_operation_row row else row) (map_of xs (s, k))"
    for xs :: "((string \<times> string) \<times> operation_row) list"
    by (induction xs) auto
  then show ?thesis by (simp add: forget_tables_def)
qed

lemma map_of_revisions:
  "map_of (tb_revisions (forget_tables scope ep t)) (s, r, n) =
     (if s = scope \<and> r = ep then None else map_of (tb_revisions t) (s, r, n))"
proof -
  have "map_of (filter (\<lambda>((s, e, r), raw). \<not> (s = scope \<and> e = ep)) xs) (s, r, n) =
     (if s = scope \<and> r = ep then None else map_of xs (s, r, n))" for xs :: "((string \<times> string \<times> int) \<times> string) list"
    by (induction xs) auto
  then show ?thesis by (simp add: forget_tables_def)
qed

lemma map_of_episodes:
  "map_of (tb_episodes (forget_tables scope ep t)) (s, r) =
     map_option (\<lambda>row. if s = scope \<and> r = ep then row\<lparr>er_forgotten := True\<rparr> else row) (map_of (tb_episodes t) (s, r))"
proof -
  have "map_of (map (\<lambda>((s, e), row). ((s, e), if s = scope \<and> e = ep then row\<lparr>er_forgotten := True\<rparr> else row)) xs) (s, r) =
     map_option (\<lambda>row. if s = scope \<and> r = ep then row\<lparr>er_forgotten := True\<rparr> else row) (map_of xs (s, r))"
    for xs :: "((string \<times> string) \<times> episode_row) list"
    by (induction xs) auto
  then show ?thesis by (simp add: forget_tables_def)
qed

lemma forgotten_row:
  assumes "map_of (tb_episodes (forget_tables scope ep t)) (s, r) = Some row'"
  obtains row where "map_of (tb_episodes t) (s, r) = Some row" "er_attempt row' = er_attempt row"
    "er_revision row' = er_revision row" "er_forgotten row' \<longleftrightarrow> er_forgotten row \<or> s = scope \<and> r = ep"
    "s = scope \<and> r = ep \<or> row' = row"
proof -
  obtain row where row: "map_of (tb_episodes t) (s, r) = Some row"
    and row': "row' = (if s = scope \<and> r = ep then row\<lparr>er_forgotten := True\<rparr> else row)"
    using assms unfolding map_of_episodes by auto
  show thesis
  proof (cases "s = scope \<and> r = ep")
    case True
    then have "row' = row\<lparr>er_forgotten := True\<rparr>" using row' by simp
    then show thesis using row True that by simp
  next
    case False
    with row' have "row' = row" by (simp only: if_False)
    then show thesis using row False that by blast
  qed
qed

lemma forget_ok:
  assumes ok: "tables_ok js parse t"
  shows "tables_ok js parse (forget_tables scope ep t)"
    (is "tables_ok js parse ?t")
proof (rule tables_okI)
  have "map fst (tb_episodes ?t) = map fst (tb_episodes t)" by (auto simp: forget_tables_def)
  then show "distinct (map fst (tb_episodes ?t))" using tables_okD(1) [OF ok] by simp
  show "r' \<noteq> []" if "map_of (tb_episodes ?t) (s', r') = Some row'" for s' r' row'
    using that by (rule forgotten_row) (use tables_okD(2) [OF ok] in blast)
  show "history_ok js parse (tb_revisions ?t) s' r' row'"
    if row': "map_of (tb_episodes ?t) (s', r') = Some row'" and kept: "\<not> er_forgotten row'" for s' r' row'
  proof -
    from row' obtain row where row: "map_of (tb_episodes t) (s', r') = Some row"
      "er_forgotten row' \<longleftrightarrow> er_forgotten row \<or> s' = scope \<and> r' = ep" "s' = scope \<and> r' = ep \<or> row' = row"
      by (rule forgotten_row)
    from row(2) kept have other: "\<not> (s' = scope \<and> r' = ep)" by blast
    from row(1,3) other have old: "map_of (tb_episodes t) (s', r') = Some row'" by blast
    have "map_of (tb_revisions ?t) (s', r', n) = map_of (tb_revisions t) (s', r', n)" for n
      by (simp only: map_of_revisions other if_False)
    then have "snapshot_in js parse (tb_revisions ?t) s' r' n = snapshot_in js parse (tb_revisions t) s' r' n" for n
      by (simp only: snapshot_in_def)
    then show ?thesis by (intro history_kept [OF tables_okD(3) [OF ok old kept]])
  qed
  show "\<exists>row. map_of (tb_episodes ?t) (s', r') = Some row \<and> \<not> er_forgotten row \<and> 1 \<le> n \<and> n \<le> er_revision row"
    if "map_of (tb_revisions ?t) (s', r', n) \<noteq> None" for s' r' n
  proof -
    have other: "\<not> (s' = scope \<and> r' = ep)" and "map_of (tb_revisions t) (s', r', n) \<noteq> None"
      using that unfolding map_of_revisions by (simp_all split: if_splits)
    then obtain row where "map_of (tb_episodes t) (s', r') = Some row" "\<not> er_forgotten row" "1 \<le> n" "n \<le> er_revision row"
      using tables_okD(4) [OF ok] by blast
    then show ?thesis using other by (simp add: map_of_episodes)
  qed
  show "r' = r''" if "map_of (tb_episodes ?t) (s', r') = Some row1" "map_of (tb_episodes ?t) (s', r'') = Some row2"
      "er_attempt row1 = er_attempt row2" for s' r' r'' row1 row2
    using that(1,2) by (elim forgotten_row) (metis that(3) tables_okD(5) [OF ok])
  show "(\<exists>erow. map_of (tb_episodes ?t) (s', oo_episode row') = Some erow \<and> oo_forgotten row' = er_forgotten erow) \<and>
        (if oo_forgotten row' then oo_digest row' = None \<and> oo_revision row' = None
         else \<exists>d n. oo_digest row' = Some d \<and> oo_revision row' = Some n \<and>
                    map_of (tb_revisions ?t) (s', oo_episode row', n) \<noteq> None)"
    if l: "map_of (tb_operations ?t) (s', k) = Some row'" for s' k row'
  proof -
    obtain old where old: "map_of (tb_operations t) (s', k) = Some old"
      and row': "row' = (if s' = scope \<and> oo_episode old = ep then forget_operation_row old else old)"
      using l unfolding map_of_operations by auto
    note ops = tables_okD(6) [OF ok old]
    show ?thesis
    proof (cases "s' = scope \<and> oo_episode old = ep")
      case True
      then have "row' = forget_operation_row old" using row' by simp
      then show ?thesis using ops True by (auto simp: forget_operation_row_def map_of_episodes)
    next
      case False
      with row' have r: "row' = old" by (simp only: if_False)
      have e: "map_of (tb_episodes ?t) (s', oo_episode old) = map_of (tb_episodes t) (s', oo_episode old)"
        by (simp only: map_of_episodes False if_False option.map_ident)
      have v: "map_of (tb_revisions ?t) (s', oo_episode old, n) = map_of (tb_revisions t) (s', oo_episode old, n)" for n
        by (simp only: map_of_revisions False if_False)
      show ?thesis unfolding r e v by (rule ops)
    qed
  qed
qed

subsection \<open>A transaction keeps the tables in order\<close>

lemma small_sint: "uint (w :: 64 word) \<le> 2 ^ 63 - 1 \<Longrightarrow> int64_of w = uint w"
proof -
  assume "uint w \<le> 2 ^ 63 - 1"
  then have "uint w < 2 ^ 63" by simp
  moreover have "- (2 ^ 63) \<le> uint w" by (rule order_trans [OF _ uint_ge_0]) simp
  ultimately have "signed_take_bit 63 (uint w) = uint w" by (simp add: signed_take_bit_int_eq_self_iff)
  then show ?thesis by (simp add: int64_of_def sint_uint)
qed

lemma read_snapshotD:
  assumes "read_snapshot js parse db step t s r n = Inr e"
  shows "snapshot_in js parse (tb_revisions t) s r n = Some e \<and> ep_scope e = s \<and> ep_ref e = r \<and>
         ep_revision e = word_of_int n"
  using assms by (auto simp: read_snapshot_def statement_def snapshot_in_def split: option.splits sum.splits if_splits)

lemma load_currentD:
  assumes "load_current js parse db k t = Inr current"
  shows "case current of
           None \<Rightarrow> map_of (tb_episodes t) (jk_scope k, jk_episode k) = None
         | Some c \<Rightarrow> \<exists>row. map_of (tb_episodes t) (jk_scope k, jk_episode k) = Some row \<and> \<not> er_forgotten row \<and>
             snapshot_in js parse (tb_revisions t) (jk_scope k) (jk_episode k) (er_revision row) = Some c \<and>
             at_ref (ep_attempt c) = er_attempt row"
  using assms
  by (auto simp: load_current_def statement_def dest!: read_snapshotD split: option.splits sum.splits if_splits)

lemma load_stateD:
  assumes "load_state js parse db k t = Inr state"
  shows "load_current js parse db k t = Inr (js_current state)"
    and "js_owner state = attempt_owner t (jk_scope k) (jk_attempt k)"
    and "load_operation js parse db k t = Inr (js_operation state)"
  using assms by (auto simp: load_state_def statement_def split: option.splits sum.splits if_splits)

lemma load_operationD:
  assumes "load_operation js parse db k t = Inr op"
  shows "op = None \<longleftrightarrow> map_of (tb_operations t) (jk_scope k, jk_operation k) = None"
  using assms by (auto simp: load_operation_def statement_def split: option.splits sum.splits if_splits)

lemma insert_revisionD:
  "insert_revision db k n raw t = Inr t' \<Longrightarrow> t' = t\<lparr>tb_revisions := ((jk_scope k, jk_episode k, n), raw) # tb_revisions t\<rparr>"
  by (auto simp: insert_revision_def statement_def split: option.splits if_splits)

lemma insert_episodeD:
  "insert_episode db k n t = Inr t' \<Longrightarrow>
     map_of (tb_episodes t) (jk_scope k, jk_episode k) = None \<and> attempt_owner t (jk_scope k) (jk_attempt k) = [] \<and>
     t' = t\<lparr>tb_episodes := ((jk_scope k, jk_episode k),
              \<lparr>er_attempt = jk_attempt k, er_revision = n, er_forgotten = False\<rparr>) # tb_episodes t\<rparr>"
  by (auto simp: insert_episode_def statement_def split: option.splits if_splits)

lemma update_episodeD:
  "update_episode db k old n t = Inr t' \<Longrightarrow>
     \<exists>row. map_of (tb_episodes t) (jk_scope k, jk_episode k) = Some row \<and> \<not> er_forgotten row \<and> er_revision row = old \<and>
     t' = t\<lparr>tb_episodes := AList.update (jk_scope k, jk_episode k) (row\<lparr>er_revision := n\<rparr>) (tb_episodes t)\<rparr>"
  by (auto simp: update_episode_def statement_def split: option.splits if_splits)

lemma insert_operationD:
  "insert_operation db k op t = Inr t' \<Longrightarrow>
     map_of (tb_operations t) (jk_scope k, jk_operation k) = None \<and>
     map_of (tb_revisions t) (jk_scope k, jk_episode k, int64_of (ep_revision (jo_result op))) \<noteq> None \<and>
     t' = t\<lparr>tb_operations := ((jk_scope k, jk_operation k),
               \<lparr>oo_episode = jk_episode k, oo_digest = Some (jo_digest op),
                oo_revision = Some (int64_of (ep_revision (jo_result op))), oo_forgotten = False\<rparr>) # tb_operations t\<rparr>"
  by (auto simp: insert_operation_def Let_def statement_def split: option.splits if_splits)

text \<open>What a transaction writes, seen from the tables: nothing, or one new operation over a history that may have
  grown by one legal step.\<close>

lemma callback_write_ok:
  assumes ok: "tables_ok (jn_json env) parse t" and f: "faithful (jn_json env) parse"
    and l: "lawful (jn_json env) mutate" and refs: "list_all valid_ref [jk_episode k, jk_attempt k, jk_operation k]"
    and load: "load_state (jn_json env) parse db k t = Inr state"
    and run: "journal_callback env k dig expected admission mutate state = Inr w"
    and check: "validate_write (jn_json env) k (copy_state state) w = None"
    and snap: "write_snapshot (jn_json env) db k (copy_state state) w t = Inr t1"
    and op: "write_operation db k w t1 = Inr t2"
  shows "tables_ok (jn_json env) parse t2"
  using run
proof (cases rule: callback_cases)
  case (replay oper)
  then show ?thesis using ok snap op by (simp add: write_snapshot_def write_operation_def)
next
  case (new current now e changed)
  let ?js = "jn_json env" and ?s = "jk_scope k" and ?r = "jk_episode k"
  have r: "?r \<noteq> []" using refs by (auto simp: valid_ref_def)
  note k = new(7) [unfolded keyed_def]
  have "tables_ok ?js parse t1"
    using new(2)
  proof (cases rule: current_episode_cases)
    case fresh
    then have ch: changed and e: "first_step e" using lawfulD_first [OF l] new(6) by auto
    then have "int64_of (ep_revision e) = 1" by (simp add: first_step_def int64_of_def)
    with snap ch fresh new(9) obtain t' where "insert_episode db k 1 t = Inr t'"
      "insert_revision db k 1 (case_option [] id (?js (Episode_Value e))) t' = Inr t1"
      by (auto simp: write_snapshot_def copy_state_def split: sum.splits)
    then have t1: "map_of (tb_episodes t) (?s, ?r) = None" "attempt_owner t ?s (jk_attempt k) = []"
      "t1 = t\<lparr>tb_episodes := ((?s, ?r), \<lparr>er_attempt = jk_attempt k, er_revision = 1, er_forgotten = False\<rparr>) # tb_episodes t,
           tb_revisions := ((?s, ?r, 1), case_option [] id (?js (Episode_Value e))) # tb_revisions t\<rparr>"
      by (auto dest!: insert_episodeD insert_revisionD)
    show ?thesis unfolding t1(3)
      by (rule first_write_ok [OF ok f new(8) t1(1) r t1(2) e]) (use k in simp_all)
  next
    case (stored c0)
    obtain row where row: "map_of (tb_episodes t) (?s, ?r) = Some row" "\<not> er_forgotten row"
      and c0: "snapshot_in ?js parse (tb_revisions t) ?s ?r (er_revision row) = Some c0"
      using load_currentD [OF load_stateD(1) [OF load]] stored(1) by auto
    have c: "clone_episode c0 = c0" using clone_episode_valid [OF snapshot_valid [OF c0]] .
    show ?thesis
    proof (cases changed)
      case False
      then show ?thesis using ok snap new(9) by (simp add: write_snapshot_def)
    next
      case True
      have step: "legal_step c0 e"
        using lawfulD_step [OF l new(6) [unfolded stored(2)]] stored(3,5) new(5) [OF stored(2)] True by (simp add: c)
      have n: "uint (ep_revision c0) = er_revision row"
        using history_revision [OF tables_okD(3) [OF ok row] c0] .
      have up: "uint (ep_revision e) = uint (ep_revision c0) + 1" using step by (simp add: legal_step_def)
      have "uint (ep_revision e) \<le> 2 ^ 63 - 1"
        using check new(1) True new(9) stored(1)
        by (auto simp: validate_write_def copy_state_def split: if_splits)
      then have small: "int64_of (ep_revision e) = er_revision row + 1" "int64_of (ep_revision c0) = er_revision row"
        using up n small_sint [of "ep_revision e"] small_sint [of "ep_revision c0"] by simp_all
      from snap True new(9) stored(1) small c obtain t' where "update_episode db k (er_revision row) (er_revision row + 1) t = Inr t'"
        "insert_revision db k (er_revision row + 1) (case_option [] id (?js (Episode_Value e))) t' = Inr t1"
        by (auto simp: write_snapshot_def copy_state_def split: sum.splits)
      then have t1: "t1 = t\<lparr>tb_episodes := AList.update (?s, ?r) (row\<lparr>er_revision := er_revision row + 1\<rparr>) (tb_episodes t),
           tb_revisions := ((?s, ?r, er_revision row + 1), case_option [] id (?js (Episode_Value e))) # tb_revisions t\<rparr>"
        using row by (auto dest!: update_episodeD insert_revisionD)
      show ?thesis unfolding t1 by (rule next_write_ok [OF ok f new(8) row c0 step])
    qed
  qed
  moreover have "insert_operation db k \<lparr>jo_digest = dig, jo_result = e\<rparr> t1 = Inr t2"
    using op new(9) by (simp add: write_operation_def)
  ultimately show ?thesis by (auto dest!: insert_operationD intro: operation_write_ok)
qed

lemma transact_ok:
  assumes "tables_ok (jn_json env) parse t" and "faithful (jn_json env) parse" and "lawful (jn_json env) mutate"
    and "transact (jn_json env) parse db k (journal_callback env k dig expected admission mutate) t = (res, t')"
  shows "tables_ok (jn_json env) parse t'"
proof (cases "list_all valid_ref [jk_episode k, jk_attempt k, jk_operation k]")
  case False
  then show ?thesis using assms(1,4) unfolding transact_def by simp
next
  case True
  show ?thesis
    using assms(4)
  proof (cases rule: transact_cases)
    case failed
    then show ?thesis using assms(1) by simp
  next
    case (ran state w t1 t2)
    then show ?thesis using callback_write_ok [OF assms(1-3) True ran(1-5)] assms(1) by auto
  qed
qed

end
