(* ===== verification/App_Run.thy ===== *)
theory App_Run
  imports App_Tables
begin

section \<open>Runs of the journal\<close>

text \<open>
  The commands over a store, what the journal asks of its store as a locale, the store of the tables
  as its interpretation, and runs: any sequence of commands and deletions, each with its own clock,
  policy and database behaviour.
\<close>

datatype journal_command =
    Begin begin_record
  | Dispatch change_record
  | Interrupt change_record
  | Observe observe_record

fun command_key :: "journal_command \<Rightarrow> journal_key" where
  "command_key (Begin r) = br_key r"
| "command_key (Dispatch r) = cr_key r"
| "command_key (Interrupt r) = cr_key r"
| "command_key (Observe r) = cr_key (or_change r)"

fun run_command ::
    "journal_env \<Rightarrow> 's journal_store option \<Rightarrow> journal_command \<Rightarrow> 's \<Rightarrow> journal_result res \<times> 's" where
  "run_command env store (Begin r) s = begin_attempt env store r s"
| "run_command env store (Dispatch r) s = mark_dispatched env store r s"
| "run_command env store (Interrupt r) s = mark_interrupted env store r s"
| "run_command env store (Observe r) s = observe_attempt env store r s"

text \<open>A command is refused before the store is reached, or runs a lawful mutation in it.\<close>

definition runs_lawfully ::
    "journal_env \<Rightarrow> 's journal_store \<Rightarrow> journal_key \<Rightarrow> 's \<Rightarrow> journal_result res \<Rightarrow> 's \<Rightarrow> bool" where
  "runs_lawfully env store k s res s' \<longleftrightarrow>
     (\<exists>err. res = Inl err \<and> s' = s) \<or>
     list_all valid_ref [jk_scope k, jk_episode k, jk_attempt k, jk_operation k] \<and>
     (\<exists>dig expected admission mutate. lawful (jn_json env) mutate \<and>
        store k (journal_callback env k dig expected admission mutate) s = (res, s'))"

lemma apply_lawfully:
  assumes "journal_apply env (Some store) k action request expected admission mutate s = (res, s')"
    and "lawful (jn_json env) mutate"
  shows "runs_lawfully env store k s res s'"
  using assms(1)
proof (cases rule: apply_cases)
  case refused
  then show ?thesis by (simp add: runs_lawfully_def)
next
  case ran
  then show ?thesis unfolding runs_lawfully_def using assms(2) by blast
qed

lemma begin_lawfully:
  assumes "begin_attempt env (Some store) r s = (res, s')"
  shows "runs_lawfully env store (br_key r) s res s'"
proof (cases "at_accepted (br_attempt r) \<noteq> 0 \<or> at_phase (br_attempt r) \<noteq> ''prepared'' \<or> at_dispatched_at (br_attempt r) \<noteq> None")
  case True
  then show ?thesis using assms by (auto simp: begin_attempt_def runs_lawfully_def)
next
  case False
  then have l: "lawful (jn_json env) (begin_mutation r)" by (intro begin_lawful) simp_all
  show ?thesis
  proof (cases "case br_prediction r of None \<Rightarrow> False | Some p \<Rightarrow> sp_accepted_at (fo_stamp p) \<noteq> 0")
    case True
    then show ?thesis using assms False by (auto simp: begin_attempt_def runs_lawfully_def)
  next
    case no: False
    have "journal_apply env (Some store) (br_key r) ''begin'' (Begin_Value r) 0 None (begin_mutation r) s = (res, s')"
      using assms by (simp only: begin_attempt_def False no if_False)
    then show ?thesis using l by (rule apply_lawfully)
  qed
qed

lemma observe_lawfully:
  assumes "observe_attempt env (Some store) r s = (res, s')"
  shows "runs_lawfully env store (cr_key (or_change r)) s res s'"
proof -
  let ?b = "or_observation r" and ?c = "or_change r"
  from assms consider "\<exists>err. res = Inl err \<and> s' = s"
    | "journal_apply env (Some store) (cr_key ?c) ''observe'' (Observe_Value r) (cr_expected ?c)
         (Some (observe_admission env ?b)) (observe_mutation env ?b) s = (res, s')"
    by (auto simp: observe_attempt_def Let_def split: if_splits)
  then show ?thesis
  proof cases
    case 1
    then show ?thesis by (simp add: runs_lawfully_def)
  next
    case 2
    then show ?thesis using observe_lawful by (rule apply_lawfully)
  qed
qed

lemma command_lawfully:
  "run_command env (Some store) c s = (res, s') \<Longrightarrow> runs_lawfully env store (command_key c) s res s'"
  by (cases c) (auto simp: mark_dispatched_def mark_interrupted_def
      intro: begin_lawfully observe_lawfully apply_lawfully dispatch_lawful interrupt_lawful)

lemma run_command_cases:
  assumes "run_command env (Some store) c s = (res, s')"
  obtains (refused) err where "res = Inl err" "s' = s"
  | (ran) dig expected admission mutate where "lawful (jn_json env) mutate"
      "store (command_key c) (journal_callback env (command_key c) dig expected admission mutate) s = (res, s')"
  using command_lawfully [OF assms] unfolding runs_lawfully_def by blast

subsection \<open>What the journal asks of its store\<close>

text \<open>
  A store runs the callback on the state of the key and keeps what it writes.  \<open>recorded\<close> is whether
  the store holds the operation of a key.  A change records the operation; a recorded operation is
  kept, and is shown to the callback, and a callback that then writes nothing changes nothing.
\<close>

definition only_replays :: "(journal_state \<Rightarrow> journal_write res) \<Rightarrow> bool" where
  "only_replays f \<longleftrightarrow>
     (\<forall>st w. js_operation st \<noteq> None \<longrightarrow> f st = Inr w \<longrightarrow>
        jw_next w = None \<and> jw_operation w = None \<and> jr_replayed (jw_result w) \<and> \<not> jr_changed (jw_result w))"

lemma callback_replays: "only_replays (journal_callback env k dig expected admission mutate)"
  unfolding only_replays_def
proof (intro allI impI)
  fix st w
  assume "js_operation st \<noteq> None" and "journal_callback env k dig expected admission mutate st = Inr w"
  then show "jw_next w = None \<and> jw_operation w = None \<and> jr_replayed (jw_result w) \<and> \<not> jr_changed (jw_result w)"
    by (elim callback_cases) simp_all
qed

locale journal_port =
  fixes store :: "'s journal_store" and recorded :: "'s \<Rightarrow> journal_key \<Rightarrow> bool"
  assumes change_is_recorded: "store k f s = (res, s') \<Longrightarrow> s' \<noteq> s \<Longrightarrow> recorded s' k"
    and record_is_kept: "store k f s = (res, s') \<Longrightarrow> recorded s k' \<Longrightarrow> recorded s' k'"
    and record_is_shown: "store k f s = (res, s') \<Longrightarrow> recorded s k \<Longrightarrow> only_replays f \<Longrightarrow>
      s' = s \<and> (case res of Inl err \<Rightarrow> True | Inr r \<Rightarrow> jr_replayed r \<and> \<not> jr_changed r)"

context journal_port begin

lemma command_recorded:
  "run_command env (Some store) c s = (res, s') \<Longrightarrow> s' \<noteq> s \<Longrightarrow> recorded s' (command_key c)"
  by (elim run_command_cases) (use change_is_recorded in auto)

lemma command_keeps:
  "run_command env (Some store) c s = (res, s') \<Longrightarrow> recorded s k \<Longrightarrow> recorded s' k"
  by (elim run_command_cases) (use record_is_kept in auto)

lemma command_once:
  "run_command env (Some store) c s = (res, s') \<Longrightarrow> recorded s (command_key c) \<Longrightarrow>
     s' = s \<and> (case res of Inl err \<Rightarrow> True | Inr r \<Rightarrow> jr_replayed r \<and> \<not> jr_changed r)"
  by (elim run_command_cases) (use record_is_shown callback_replays in auto)

text \<open>Recovery sends interrupts, so it keeps what is recorded as well.\<close>

lemma recovery_keeps:
  "recover_each env (Some store) before_time es report s = (out, s') \<Longrightarrow> recorded s k \<Longrightarrow> recorded s' k"
proof (induction es arbitrary: report s)
  case (Cons e es)
  obtain res s1 where m: "mark_interrupted env (Some store) (interrupt_record e) s = (res, s1)" by force
  then have "recorded s1 k" using command_keeps [of env "Interrupt (interrupt_record e)" s res s1 k] Cons.prems(2) by simp
  then show ?case using Cons m by (auto split: if_splits sum.splits)
qed simp

end

subsection \<open>The tables are such a store\<close>

definition recorded :: "tables \<Rightarrow> journal_key \<Rightarrow> bool" where
  "recorded t k \<longleftrightarrow> map_of (tb_operations t) (jk_scope k, jk_operation k) \<noteq> None"

lemma write_snapshot_operations: "write_snapshot js db k s w t = Inr t' \<Longrightarrow> tb_operations t' = tb_operations t"
  by (auto simp: write_snapshot_def dest!: insert_episodeD update_episodeD insert_revisionD
      split: option.splits sum.splits)

lemma validate_write_cases:
  assumes "validate_write js k s w = None"
  shows "if js_operation s = None then jw_operation w \<noteq> None else jw_next w = None \<and> jw_operation w = None"
  using assms by (auto simp: validate_write_def split: option.splits if_splits)

lemma written_operations:
  assumes "validate_write js k s w = None" "write_snapshot js db k s w t = Inr t1" "write_operation db k w t1 = Inr t2"
  shows "t2 = t \<or> map_of (tb_operations t) (jk_scope k, jk_operation k) = None \<and>
     (\<exists>row. tb_operations t2 = ((jk_scope k, jk_operation k), row) # tb_operations t)"
proof (cases "jw_operation w")
  case None
  then have "jw_next w = None" using validate_write_cases [OF assms(1)] by (auto split: if_splits)
  then show ?thesis using assms None by (simp add: write_snapshot_def write_operation_def)
next
  case (Some op)
  then show ?thesis
    using assms(3) write_snapshot_operations [OF assms(2)] by (auto simp: write_operation_def dest!: insert_operationD)
qed

interpretation pg: journal_port "transact js parse db" recorded for js parse db
proof unfold_locales
  fix k f t res t'
  assume run: "transact js parse db k f t = (res, t')"
  have *: "t' = t \<or> map_of (tb_operations t) (jk_scope k, jk_operation k) = None \<and>
     (\<exists>row. tb_operations t' = ((jk_scope k, jk_operation k), row) # tb_operations t)"
    using run by (cases rule: transact_cases) (use written_operations in blast)+
  show "t' \<noteq> t \<Longrightarrow> recorded t' k" using * by (auto simp: recorded_def)
  show "recorded t k' \<Longrightarrow> recorded t' k'" for k' using * by (auto simp: recorded_def)
  show "t' = t \<and> (case res of Inl err \<Rightarrow> True | Inr r \<Rightarrow> jr_replayed r \<and> \<not> jr_changed r)"
    if rec: "recorded t k" and f: "only_replays f"
    using run
  proof (cases rule: transact_cases)
    case failed
    then show ?thesis by simp
  next
    case (ran state w t1 t2)
    have "js_operation state \<noteq> None"
      using rec load_operationD [OF load_stateD(3) [OF ran(1)]] by (simp add: recorded_def)
    then have w: "jw_next w = None" "jw_operation w = None" "jr_replayed (jw_result w)" "\<not> jr_changed (jw_result w)"
      using f ran(2) by (auto simp: only_replays_def)
    then have "t2 = t" using ran(4,5) by (simp add: write_snapshot_def write_operation_def)
    then show ?thesis using ran(6) w by (auto simp: copy_result_def)
  qed
qed

subsection \<open>Runs\<close>

text \<open>The steps of a run over the tables.\<close>

inductive journal_step :: "json \<Rightarrow> (string \<Rightarrow> episode option) \<Rightarrow> tables \<Rightarrow> tables \<Rightarrow> bool"
  for js :: json and parse :: "string \<Rightarrow> episode option" where
  command: "jn_json env = js \<Longrightarrow> run_command env (Some (transact js parse db)) c t = (res, t') \<Longrightarrow> journal_step js parse t t'"
| recovery: "jn_json env = js \<Longrightarrow>
    recover_unsettled env (Some (transact js parse db)) reader before_time limit t = (out, t') \<Longrightarrow> journal_step js parse t t'"
| forgetting: "forget_episode db scope ep t = (err, t') \<Longrightarrow> journal_step js parse t t'"

inductive journal_run :: "json \<Rightarrow> (string \<Rightarrow> episode option) \<Rightarrow> tables \<Rightarrow> tables \<Rightarrow> bool"
  for js :: json and parse :: "string \<Rightarrow> episode option" where
  start: "journal_run js parse t t"
| further: "journal_run js parse t t' \<Longrightarrow> journal_step js parse t' t'' \<Longrightarrow> journal_run js parse t t''"

text \<open>A property of tables that commands and deletions keep holds after a run.\<close>

lemma step_invariant:
  assumes "journal_step js parse t t'" and "P t"
    and command: "\<And>env db c t res t'. P t \<Longrightarrow> jn_json env = js \<Longrightarrow>
       run_command env (Some (transact js parse db)) c t = (res, t') \<Longrightarrow> P t'"
    and forget: "\<And>scope ep t. P t \<Longrightarrow> P (forget_tables scope ep t)"
  shows "P t'"
  using assms(1)
proof cases
  case (command env db c res)
  then show ?thesis using assms(2,3) by blast
next
  case (recovery env db reader before_time limit out)
  have each: "P t2" if "recover_each env (Some (transact js parse db)) before_time es report t1 = (out', t2)" "P t1"
    for es report t1 t2 out'
    using that
  proof (induction es arbitrary: report t1)
    case (Cons e es)
    obtain res t3 where m: "mark_interrupted env (Some (transact js parse db)) (interrupt_record e) t1 = (res, t3)" by force
    then have "P t3"
      using assms(3) [of t1 env db "Interrupt (interrupt_record e)" res t3] Cons.prems(2) recovery(1) by simp
    then show ?case using Cons m by (auto split: if_splits sum.splits)
  qed simp
  then show ?thesis
    using recovery(2) assms(2) by (auto simp: recover_unsettled_def Let_def split: option.splits if_splits prod.splits)
next
  case (forgetting db scope ep err)
  then have "t' = t \<or> t' = forget_tables scope ep t"
    by (auto simp: forget_episode_def commit_def split: if_splits sum.splits option.splits commit_outcome.splits prod.splits)
  then show ?thesis using assms(2) forget by blast
qed

lemma run_invariant:
  assumes "journal_run js parse t t'" and "P t"
    and "\<And>env db c t res t'. P t \<Longrightarrow> jn_json env = js \<Longrightarrow>
       run_command env (Some (transact js parse db)) c t = (res, t') \<Longrightarrow> P t'"
    and "\<And>scope ep t. P t \<Longrightarrow> P (forget_tables scope ep t)"
  shows "P t'"
  using assms(1,2)
proof (induction rule: journal_run.induct)
  case (further t t' t'')
  then show ?case using step_invariant [of js parse t' t'' P] assms(3,4) by blast
qed simp

lemma new_tables_ok: "tables_ok js parse new_tables"
  by (auto simp: tables_ok_def new_tables_def)

lemma command_ok:
  assumes "tables_ok (jn_json env) parse t" and "faithful (jn_json env) parse"
    and "run_command env (Some (transact (jn_json env) parse db)) c t = (res, t')"
  shows "tables_ok (jn_json env) parse t'"
  using assms(3)
proof (cases rule: run_command_cases)
  case (ran dig expected admission mutate)
  then show ?thesis using transact_ok [OF assms(1,2)] by blast
qed (use assms(1) in simp)

lemma run_ok:
  assumes "journal_run js parse t t'" and "tables_ok js parse t" and "faithful js parse"
  shows "tables_ok js parse t'"
  using assms(1,2) by (rule run_invariant) (use command_ok assms(3) forget_ok in blast)+

lemma run_recorded:
  assumes "journal_run js parse t t'" and "recorded t k"
  shows "recorded t' k"
  using assms by (rule run_invariant [where P = "\<lambda>t. recorded t k"])
    (use pg.command_keeps in blast, auto simp: recorded_def map_of_operations)

end
