(* ===== verification/App_Guarantees.thy ===== *)
theory App_Guarantees
  imports App_Run
begin

section \<open>What the journal guarantees\<close>

text \<open>
  The properties of the journal over its tables: legal histories, operations that take effect once and
  are answered alike, deletion that cannot be undone; and what an eligible decision rests on.
\<close>

subsection \<open>Rows that stay\<close>

lemma transact_keeps_rows:
  assumes "transact js parse db k f t = (res, t')"
  shows "map_of (tb_operations t) x = Some row \<Longrightarrow> map_of (tb_operations t') x = Some row"
    and "map_of (tb_revisions t) y = Some raw \<Longrightarrow> map_of (tb_revisions t') y = Some raw"
proof -
  have ins: "map_of (tb_revisions t2) y = Some raw"
    if "insert_revision db k n c t1 = Inr t2" "map_of (tb_revisions t1) y = Some raw" for n c t1 t2
    using that by (auto simp: insert_revision_def statement_def split: option.splits if_splits)
  have snap: "map_of (tb_revisions t1) y = Some raw"
    if "write_snapshot js db k st w t = Inr t1" "map_of (tb_revisions t) y = Some raw" for st w t1
    using that by (auto simp: write_snapshot_def dest!: insert_episodeD update_episodeD elim!: ins
        split: option.splits sum.splits)
  have ops: "map_of (tb_revisions t2) y = map_of (tb_revisions t1) y" if "write_operation db k w t1 = Inr t2" for w t1 t2
    using that by (auto simp: write_operation_def dest!: insert_operationD split: option.splits)
  show "map_of (tb_revisions t) y = Some raw \<Longrightarrow> map_of (tb_revisions t') y = Some raw"
    using assms by (cases rule: transact_cases) (use snap ops in auto)
  show "map_of (tb_operations t) x = Some row \<Longrightarrow> map_of (tb_operations t') x = Some row"
    using assms
  proof (cases rule: transact_cases)
    case (ran state w t1 t2)
    assume "map_of (tb_operations t) x = Some row"
    then have "map_of (tb_operations t2) x = Some row" using written_operations [OF ran(3-5)] by auto
    then show ?thesis using ran(6) \<open>map_of (tb_operations t) x = Some row\<close> by auto
  qed simp
qed

lemma command_keeps_rows:
  assumes "run_command env (Some (transact js parse db)) c t = (res, t')"
  shows "map_of (tb_operations t) x = Some row \<Longrightarrow> map_of (tb_operations t') x = Some row"
    and "map_of (tb_revisions t) y = Some raw \<Longrightarrow> map_of (tb_revisions t') y = Some raw"
  using assms by (auto elim!: run_command_cases dest: transact_keeps_rows)

subsection \<open>The answer to an operation\<close>

text \<open>The stored result of an operation that is not forgotten.\<close>

definition stored_answer :: "json \<Rightarrow> (string \<Rightarrow> episode option) \<Rightarrow> tables \<Rightarrow> string \<Rightarrow> string \<Rightarrow> episode option" where
  "stored_answer js parse t s k =
     (case map_of (tb_operations t) (s, k) of
        None \<Rightarrow> None
      | Some row \<Rightarrow>
          (case oo_revision row of
             None \<Rightarrow> None
           | Some n \<Rightarrow> if oo_forgotten row then None else snapshot_in js parse (tb_revisions t) s (oo_episode row) n))"

text \<open>Either the answer is \<open>e\<close>, or the operation is fenced.\<close>

definition answers :: "json \<Rightarrow> (string \<Rightarrow> episode option) \<Rightarrow> string \<Rightarrow> string \<Rightarrow> episode \<Rightarrow> tables \<Rightarrow> bool" where
  "answers js parse s k e t \<longleftrightarrow>
     (\<exists>row. map_of (tb_operations t) (s, k) = Some row \<and>
        (oo_forgotten row \<or> stored_answer js parse t s k = Some e))"

lemma snapshot_kept:
  "snapshot_in js parse revs s r n = Some e \<Longrightarrow>
   (\<And>raw. map_of revs (s, r, n) = Some raw \<Longrightarrow> map_of revs' (s, r, n) = Some raw) \<Longrightarrow>
   snapshot_in js parse revs' s r n = Some e"
  by (auto simp: snapshot_in_def split: option.splits)

lemma run_answers:
  assumes "journal_run js parse t t'" and "answers js parse s k e t"
  shows "answers js parse s k e t'"
  using assms
proof (rule run_invariant [where P = "answers js parse s k e"])
  fix env db c t res t'
  assume a: "answers js parse s k e t" and run: "run_command env (Some (transact js parse db)) c t = (res, t')"
  note kept = command_keeps_rows [OF run]
  from a obtain row where row: "map_of (tb_operations t) (s, k) = Some row"
    and c: "oo_forgotten row \<or> stored_answer js parse t s k = Some e" by (auto simp: answers_def)
  from c show "answers js parse s k e t'"
    unfolding answers_def stored_answer_def
    using row kept by (auto split: option.splits if_splits elim!: snapshot_kept)
next
  fix scope ep t
  assume a: "answers js parse s k e t"
  then obtain row where row: "map_of (tb_operations t) (s, k) = Some row"
    and c: "oo_forgotten row \<or> stored_answer js parse t s k = Some e" by (auto simp: answers_def)
  show "answers js parse s k e (forget_tables scope ep t)"
  proof (cases "oo_forgotten row \<or> s = scope \<and> oo_episode row = ep")
    case True
    then show ?thesis using row by (auto simp: answers_def map_of_operations forget_operation_row_def)
  next
    case False
    then have other: "\<not> (s = scope \<and> oo_episode row = ep)" by blast
    have row': "map_of (tb_operations (forget_tables scope ep t)) (s, k) = Some row"
      unfolding map_of_operations row using other by (simp only: option.map if_False)
    have sn: "snapshot_in js parse (tb_revisions (forget_tables scope ep t)) s (oo_episode row) n =
        snapshot_in js parse (tb_revisions t) s (oo_episode row) n" for n
      by (simp only: snapshot_in_def map_of_revisions other if_False)
    have "stored_answer js parse (forget_tables scope ep t) s k = stored_answer js parse t s k"
      unfolding stored_answer_def row row' option.case sn by (rule refl)
    then show ?thesis using c row' False by (auto simp: answers_def)
  qed
qed

lemma transact_answer:
  assumes ok: "tables_ok (jn_json env) parse t" and f: "faithful (jn_json env) parse" and l: "lawful (jn_json env) mutate"
    and run: "transact (jn_json env) parse db k (journal_callback env k dig expected admission mutate) t = (Inr r, t')"
    and fresh: "\<not> recorded t k"
  shows "answers (jn_json env) parse (jk_scope k) (jk_operation k) (jr_episode r) t'"
  using run
proof (cases rule: transact_cases)
  case failed
  then show ?thesis by simp
next
  case (ran state w t1 t2)
  let ?js = "jn_json env"
  have t': "t' = t2" and r: "r = copy_result (jw_result w)" using ran(6) by auto
  have "js_operation state = None"
    using fresh load_operationD [OF load_stateD(3) [OF ran(1)]] by (simp add: recorded_def)
  with ran(2) show ?thesis
  proof (cases rule: callback_cases)
    case (new current now e changed)
    have e: "jr_episode r = e" using clone_episode_valid [OF new(8)] by (simp add: r new(9) copy_result_def)
    have "insert_operation db k \<lparr>jo_digest = dig, jo_result = e\<rparr> t1 = Inr t2"
      using ran(5) new(9) by (simp add: write_operation_def)
    then have t2: "t2 = t1\<lparr>tb_operations := ((jk_scope k, jk_operation k),
               \<lparr>oo_episode = jk_episode k, oo_digest = Some dig, oo_revision = Some (int64_of (ep_revision e)),
                oo_forgotten = False\<rparr>) # tb_operations t1\<rparr>"
      by (auto dest!: insert_operationD)
    have "snapshot_in ?js parse (tb_revisions t1) (jk_scope k) (jk_episode k) (int64_of (ep_revision e)) = Some e"
    proof (cases changed)
      case True
      obtain t0 where "insert_revision db k (int64_of (ep_revision e)) (case_option [] id (?js (Episode_Value e))) t0 = Inr t1"
        using ran(4) True new(9) by (auto simp: write_snapshot_def split: sum.splits)
      then show ?thesis by (auto dest!: insert_revisionD simp: snapshot_added [OF f new(8)])
    next
      case False
      then have t1: "t1 = t" using ran(4) new(9) by (simp add: write_snapshot_def)
      obtain c where cur: "current = Some c"
        using lawfulD_first [OF l, of now e changed] new(6) False by (cases current) auto
      from new(2) obtain c0 where c0: "js_current state = Some c0" "c = clone_episode c0"
          "validate_episode ?js (clone_episode c0) = None" "ep_revision (clone_episode c0) \<noteq> - 1"
        by (cases rule: current_episode_cases) (use cur in auto)
      obtain row where row: "map_of (tb_episodes t) (jk_scope k, jk_episode k) = Some row" "\<not> er_forgotten row"
        and s0: "snapshot_in ?js parse (tb_revisions t) (jk_scope k) (jk_episode k) (er_revision row) = Some c0"
        using load_currentD [OF load_stateD(1) [OF ran(1)]] c0(1) by auto
      have cl: "clone_episode c0 = c0" using clone_episode_valid [OF snapshot_valid [OF s0]] .
      have "e = c0" using lawfulD_step [OF l new(6) [unfolded cur]] c0 new(5) [OF cur] False by (simp add: cl)
      moreover have "uint (ep_revision c0) = er_revision row"
        using history_revision [OF tables_okD(3) [OF ok row] s0] .
      moreover have "uint (ep_revision c0) \<le> 2 ^ 63 - 1"
        using ran(3) new(1) False new(9) c0(1) cl
        by (auto simp: validate_write_def copy_state_def split: if_splits)
      ultimately show ?thesis using s0 small_sint [of "ep_revision c0"] by (simp add: t1)
    qed
    then show ?thesis by (simp add: answers_def stored_answer_def t' t2 e)
  qed simp
qed

lemma transact_replay:
  assumes run: "transact js parse db k (journal_callback env k dig expected admission mutate) t = (Inr r, t')"
    and a: "answers js parse (jk_scope k) (jk_operation k) e t"
  shows "jr_episode r = e"
  using run
proof (cases rule: transact_cases)
  case failed
  then show ?thesis by simp
next
  case (ran state w t1 t2)
  from a obtain row where row: "map_of (tb_operations t) (jk_scope k, jk_operation k) = Some row"
    and c: "oo_forgotten row \<or> stored_answer js parse t (jk_scope k) (jk_operation k) = Some e"
    by (auto simp: answers_def)
  have v: "snapshot_in js parse (tb_revisions t) (jk_scope k) (oo_episode row) n = Some e \<Longrightarrow> clone_episode e = e" for n
    using clone_episode_valid snapshot_valid by blast
  have "\<exists>op. js_operation state = Some op \<and> jo_result op = e \<and> clone_episode e = e"
    using load_stateD(3) [OF ran(1)] row c
    by (cases "js_operation state") (auto simp: load_operation_def statement_def stored_answer_def v dest!: read_snapshotD
        split: option.splits sum.splits if_splits)
  then obtain op where op: "js_operation state = Some op" "jo_result op = e" "clone_episode e = e" by blast
  from ran(2) show ?thesis
  proof (cases rule: callback_cases)
    case (replay op')
    then show ?thesis using op ran(6) by (auto simp: copy_result_def)
  qed (use op in simp)
qed

subsection \<open>Forgotten episodes\<close>

text \<open>An episode that was forgotten, with the fences of its attempt and its operations.\<close>

definition fenced :: "string \<Rightarrow> string \<Rightarrow> string \<Rightarrow> tables \<Rightarrow> bool" where
  "fenced s r a t \<longleftrightarrow>
     (\<exists>row. map_of (tb_episodes t) (s, r) = Some row \<and> er_forgotten row \<and> er_attempt row = a)"

lemma fenced_no_revision: "tables_ok js parse t \<Longrightarrow> fenced s r a t \<Longrightarrow> map_of (tb_revisions t) (s, r, n) = None"
  using tables_okD(4) [of js parse t s r n] by (cases "map_of (tb_revisions t) (s, r, n)") (auto simp: fenced_def)

lemma transact_keeps_fence:
  assumes "transact js parse db k f t = (res, t')" and "fenced s r a t"
  shows "fenced s r a t'"
proof -
  have "fenced s r a t1" if "write_snapshot js db k st w t = Inr t1" for st w t1
    using that assms(2)
    by (auto simp: write_snapshot_def fenced_def update_conv' dest!: insert_episodeD update_episodeD insert_revisionD
        split: option.splits sum.splits)
  moreover have "tb_episodes t2 = tb_episodes t1" if "write_operation db k w t1 = Inr t2" for w t1 t2
    using that by (auto simp: write_operation_def dest!: insert_operationD split: option.splits)
  ultimately have w: "fenced s r a t2"
    if "write_snapshot js db k st w t = Inr t1" "write_operation db k w t1 = Inr t2" for st w t1 t2
    using that unfolding fenced_def by metis
  from assms(1) show ?thesis
    by (cases rule: transact_cases) (use w assms(2) in auto)
qed

lemma run_keeps_fence:
  assumes "journal_run js parse t t'" and "fenced s r a t"
  shows "fenced s r a t'"
  using assms
proof (rule run_invariant [where P = "fenced s r a"])
  fix env db c t res t'
  assume "fenced s r a t" and "run_command env (Some (transact js parse db)) c t = (res, t')"
  then show "fenced s r a t'" by (auto elim!: run_command_cases dest: transact_keeps_fence)
next
  fix scope ep t
  assume "fenced s r a t"
  then show "fenced s r a (forget_tables scope ep t)" by (cases "s = scope \<and> r = ep") (auto simp: fenced_def map_of_episodes)
qed

text \<open>A transaction on the episode, on its attempt under another episode, or on a fenced operation is refused.\<close>

lemma load_refused:
  "fenced (jk_scope k) (jk_episode k) a t \<Longrightarrow> \<exists>err. load_state js parse db k t = Inl err"
  by (auto simp: load_state_def load_current_def fenced_def statement_def split: option.splits)

lemma fenced_transact:
  assumes "fenced (jk_scope k) (jk_episode k) a t" and "transact js parse db k f t = (res, t')"
  shows "\<exists>err. res = Inl err \<and> t' = t"
  using assms(2)
proof (cases rule: transact_cases)
  case (ran state w t1 t2)
  then show ?thesis using load_refused [OF assms(1), of js parse db] by auto
qed simp

lemma owner_found:
  assumes "tables_ok js parse t" and "map_of (tb_episodes t) (s, r) = Some row"
  shows "attempt_owner t s (er_attempt row) = r"
proof -
  have "((s, r), row) \<in> set (tb_episodes t)" using assms(2) by (rule map_of_SomeD)
  then have "find (\<lambda>((s', r), row'). s' = s \<and> er_attempt row' = er_attempt row) (tb_episodes t) \<noteq> None"
    by (auto simp: find_None_iff)
  then obtain s' r' row' where f: "find (\<lambda>((s', r), row'). s' = s \<and> er_attempt row' = er_attempt row) (tb_episodes t) = Some ((s', r'), row')"
    by fastforce
  then have "((s', r'), row') \<in> set (tb_episodes t)" "s' = s" "er_attempt row' = er_attempt row"
    by (force simp: find_Some_iff in_set_conv_nth)+
  then have "map_of (tb_episodes t) (s, r') = Some row'" "er_attempt row' = er_attempt row"
    using tables_okD(1) [OF assms(1)] by simp_all
  then have "r' = r" using tables_okD(5) [OF assms(1) _ assms(2)] by blast
  then show ?thesis using f by (simp add: attempt_owner_def)
qed

lemma callback_owner:
  assumes "journal_callback env k dig expected admission mutate state = Inr w" and "js_operation state = None"
  shows "js_owner state = [] \<or> js_owner state = jk_episode k"
  using assms(1) by (cases rule: callback_cases) (use assms(2) in auto)

lemma owned_transact:
  assumes ok: "tables_ok js parse t" and f: "fenced (jk_scope k) r (jk_attempt k) t" and other: "\<not> recorded t k"
    and run: "transact js parse db k (journal_callback env k dig expected admission mutate) t = (res, t')"
  shows "\<exists>err. res = Inl err \<and> t' = t"
proof (cases "jk_episode k = r")
  case True
  then show ?thesis using fenced_transact [OF _ run] f by simp
next
  case False
  obtain row where row: "map_of (tb_episodes t) (jk_scope k, r) = Some row" "er_attempt row = jk_attempt k"
    using f by (auto simp: fenced_def)
  have own: "attempt_owner t (jk_scope k) (jk_attempt k) = r" using owner_found [OF ok row(1)] row(2) by simp
  from run show ?thesis
  proof (cases rule: transact_cases)
    case (ran state w t1 t2)
    have "js_operation state = None"
      using other load_operationD [OF load_stateD(3) [OF ran(1)]] by (simp add: recorded_def)
    then have "js_owner state = [] \<or> js_owner state = jk_episode k" using callback_owner [OF ran(2)] by blast
    then show ?thesis
      using load_stateD(2) [OF ran(1)] own False tables_okD(2) [OF ok row(1)] by simp
  qed simp
qed

subsection \<open>Commands\<close>

lemma command_answer:
  assumes "tables_ok js parse t" and "faithful js parse" and "jn_json env = js"
    and "run_command env (Some (transact js parse db)) c t = (Inr r, t')" and "\<not> recorded t (command_key c)"
  shows "answers js parse (jk_scope (command_key c)) (jk_operation (command_key c)) (jr_episode r) t'"
  using assms(4)
proof (cases rule: run_command_cases)
  case (ran dig expected admission mutate)
  then show ?thesis using transact_answer assms(1,2,5) unfolding assms(3) [symmetric] by blast
qed simp

lemma command_replay:
  assumes "run_command env (Some (transact js parse db)) c t = (Inr r, t')"
    and "answers js parse (jk_scope (command_key c)) (jk_operation (command_key c)) e t"
  shows "jr_episode r = e"
  using assms(1)
proof (cases rule: run_command_cases)
  case (ran dig expected admission mutate)
  then show ?thesis using transact_replay assms(2) by blast
qed simp

text \<open>A command on a forgotten episode, or on its attempt, is refused.\<close>

lemma command_fenced:
  assumes "tables_ok js parse t" and "run_command env (Some (transact js parse db)) c t = (res, t')"
    and "fenced (jk_scope (command_key c)) r a t"
    and "jk_episode (command_key c) = r \<or> jk_attempt (command_key c) = a \<and> \<not> recorded t (command_key c)"
  shows "\<exists>err. res = Inl err \<and> t' = t"
  using assms(2)
proof (cases rule: run_command_cases)
  case (ran dig expected admission mutate)
  from assms(4) show ?thesis
  proof
    assume "jk_episode (command_key c) = r"
    then show ?thesis using fenced_transact [OF _ ran(2)] assms(3) by blast
  next
    assume "jk_attempt (command_key c) = a \<and> \<not> recorded t (command_key c)"
    then show ?thesis using owned_transact [OF assms(1) _ _ ran(2)] assms(3) by blast
  qed
qed simp

lemma forget_fences:
  assumes "forget_episode db s r t = (None, t1)" and "map_of (tb_episodes t) (s, r) = Some row"
  shows "fenced s r (er_attempt row) t1"
proof -
  have "t1 = forget_tables s r t"
    using assms(1) by (auto simp: forget_episode_def commit_def split: if_splits sum.splits option.splits commit_outcome.splits prod.splits)
  then show ?thesis using assms(2) by (simp add: fenced_def map_of_episodes)
qed

lemma read_fenced:
  assumes "fenced s r a t"
  shows "\<exists>err. read_episode js parse db s r t = Inl err"
  using assms by (auto simp: read_episode_def fenced_def statement_def split: sum.splits option.splits)

end
