(* ===== verification/App_Claims.thy ===== *)
theory App_Claims
  imports App_Guarantees
begin

section \<open>The application journal: properties\<close>

text \<open>
  The properties of the journal and of the reading of its episodes, with their witnesses on one
  concrete episode.
\<close>

subsection \<open>The outcome that counts\<close>

lemma first_reason_None [simp]: "first_reason cs = None \<longleftrightarrow> (\<forall>(bad, r) \<in> set cs. \<not> bad)"
  by (induction cs rule: first_reason.induct) auto

lemma observations_reason_None:
  "observations_reason q scope bs = None \<Longrightarrow> b \<in> set bs \<Longrightarrow>
     can_read q scope (ob_ref b) \<and> evidence_current q scope (ob_evidence b) \<and> admits q b"
  by (induction q scope bs rule: observations_reason.induct) (auto split: option.splits if_splits)

text \<open>An observation that may count toward an outcome for a purpose other than a diagnosis.\<close>

definition counts_for :: "query \<Rightarrow> observation \<Rightarrow> bool" where
  "counts_for q b \<longleftrightarrow>
     ob_kind b \<noteq> ''simulation'' \<and> (ob_kind b = ''operator_report'' \<longrightarrow> qy_reports q \<and> qy_purpose q \<noteq> ''prediction'')"

lemma observed_outcome_sound:
  assumes "observed_outcome q e superseded seen n outcome bs = (out, None)" and "qy_purpose q \<noteq> ''diagnostic''"
  shows "(n = 0 \<or> out = outcome \<or> out = ''conflicted'') \<and>
     (out = outcome \<or> (\<exists>b \<in> set bs. ob_ref b \<notin> set superseded \<union> set seen)) \<and>
     (\<forall>b \<in> set bs. ob_ref b \<notin> set superseded \<union> set seen \<longrightarrow>
        (\<exists>b' \<in> set bs. ob_ref b' = ob_ref b \<and> counts_for q b' \<and>
           (qy_purpose q = ''prediction'' \<longrightarrow> \<not> outside_target e b') \<and> (out = ''conflicted'' \<or> ob_outcome b' = out)))"
  using assms
proof (induction q e superseded seen n outcome bs rule: observed_outcome.induct)
  case (2 q e superseded seen n outcome b bs)
  let ?skip = "ob_ref b \<in> set superseded \<or> ob_ref b \<in> set seen"
  let ?next = "if n = 0 then ob_outcome b else if outcome \<noteq> ob_outcome b then ''conflicted'' else outcome"
  show ?case
  proof (cases ?skip)
    case True
    then have "observed_outcome q e superseded seen n outcome bs = (out, None)" using 2(4) by simp
    from 2(1) [OF _ this] show ?thesis using True 2(5) by auto
  next
    case False
    have kind: "ob_kind b \<noteq> ''simulation''" using 2(4,5) False by (auto split: if_splits)
    have rep: "\<not> (ob_kind b = ''operator_report'' \<and> (\<not> qy_reports q \<or> qy_purpose q = ''prediction''))"
      using 2(4) False kind by (auto split: if_splits)
    have out: "\<not> (qy_purpose q = ''prediction'' \<and> outside_target e b)"
      using 2(4) False kind rep by (auto split: if_splits)
    have run: "observed_outcome q e superseded (ob_ref b # seen) (Suc n) ?next bs = (out, None)"
      using 2(4) False kind rep out by (simp split: if_splits)
    have ih: "(out = ?next \<or> out = ''conflicted'') \<and>
      (\<forall>b' \<in> set bs. ob_ref b' \<notin> set superseded \<union> set (ob_ref b # seen) \<longrightarrow>
        (\<exists>b'' \<in> set bs. ob_ref b'' = ob_ref b' \<and> counts_for q b'' \<and>
           (qy_purpose q = ''prediction'' \<longrightarrow> \<not> outside_target e b'') \<and> (out = ''conflicted'' \<or> ob_outcome b'' = out)))"
      using 2(3) [OF _ kind rep out run 2(5)] False by simp
    have b: "counts_for q b" "qy_purpose q = ''prediction'' \<longrightarrow> \<not> outside_target e b" "out = ''conflicted'' \<or> ob_outcome b = out"
      using kind rep out ih by (auto simp: counts_for_def split: if_splits)
    have "\<exists>b'' \<in> set (b # bs). ob_ref b'' = ob_ref b' \<and> counts_for q b'' \<and>
           (qy_purpose q = ''prediction'' \<longrightarrow> \<not> outside_target e b'') \<and> (out = ''conflicted'' \<or> ob_outcome b'' = out)"
      if "b' \<in> set (b # bs)" "ob_ref b' \<notin> set superseded \<union> set seen" for b'
      using that ih b by (cases "ob_ref b' = ob_ref b") auto
    moreover have "n = 0 \<or> out = outcome \<or> out = ''conflicted''" using ih by (auto split: if_splits)
    moreover have "\<exists>b' \<in> set (b # bs). ob_ref b' \<notin> set superseded \<union> set seen" using False by auto
    ultimately show ?thesis by blast
  qed
qed simp

subsection \<open>One episode\<close>

lemma plain_ref: "list_all plain s \<Longrightarrow> s \<noteq> [] \<Longrightarrow> length s \<le> 256 \<Longrightarrow> valid_ref s"
  by (simp add: valid_ref_def plain_trim plain_utf8 plain_clean)

lemma request_digest_shape:
  "prefix ''sha256:'' (request_digest s)" "length (request_digest s) = 71" "list_all hex_any (drop 7 (request_digest s))"
proof -
  have len: "length (hex_encode bs) = 2 * length bs" for bs by (induction bs) (simp_all add: hex_encode_def)
  show "prefix ''sha256:'' (request_digest s)" by (simp add: request_digest_def)
  show "length (request_digest s) = 71" by (simp add: request_digest_def len sha256_length)
  have "hex_any c" if "hex_char c" for c using that by (auto simp: hex_char_def hex_any_def)
  moreover have "\<forall>c \<in> set (hex_encode (sha256 s)). hex_char c" using hex_encode_chars sha256_byte by blast
  ultimately show "list_all hex_any (drop 7 (request_digest s))" by (simp add: request_digest_def list_all_iff)
qed

definition ex_digest :: string where
  "ex_digest = ''sha256:'' @ replicate 64 (CHR ''a'')"

definition ex_key :: journal_key where
  "ex_key = \<lparr>jk_scope = ''s'', jk_episode = ''e'', jk_attempt = ''a'', jk_operation = ''o''\<rparr>"

definition ex_attempt :: "int \<Rightarrow> attempt" where
  "ex_attempt now =
     \<lparr>at_stamp = \<lparr>sp_contract = AttemptContract, sp_ref = ''a'', sp_scope = ''s'', sp_accepted_at = now\<rparr>,
      at_application = ''p'', at_workspace_task = ''t'', at_workspace_attempt = ''w'', at_proposal = ''q'',
      at_state_revision = 1, at_method = \<lparr>bd_ref = ''m'', bd_version = ''1''\<rparr>,
      at_criterion = \<lparr>bd_ref = ''c'', bd_version = ''1''\<rparr>, at_input_digest = ex_digest,
      at_sources = [\<lparr>ev_ref = ''v'', ev_hash = ex_digest\<rparr>], at_prerequisites = [], at_authorization = ''z'',
      at_dispatch_mode = ''operator_report'', at_phase = ''prepared'', at_dispatched_at = None\<rparr>"

definition ex_episode :: episode where
  "ex_episode =
     \<lparr>ep_stamp = \<lparr>sp_contract = EpisodeContract, sp_ref = ''e'', sp_scope = ''s'', sp_accepted_at = 5\<rparr>,
      ep_revision = 1, ep_attempt = ex_attempt 5, ep_observations = [], ep_constraints = [], ep_prediction = None\<rparr>"

definition ex_begin :: begin_record where
  "ex_begin = \<lparr>br_key = ex_key, br_attempt = ex_attempt 0, br_constraints = [], br_prediction = None\<rparr>"

definition ex_json :: json where
  "ex_json v =
     (case v of
        Episode_Value e \<Rightarrow> if e = ex_episode then Some ''x'' else None
      | Attempt_Value a \<Rightarrow> Some ''a''
      | Begin_Value b \<Rightarrow> Some ''b''
      | Command_Value c w \<Rightarrow> Some ''c''
      | _ \<Rightarrow> None)"

definition ex_parse :: "string \<Rightarrow> episode option" where
  "ex_parse raw = (if raw = ''x'' then Some ex_episode else None)"

definition ex_env :: journal_env where
  "ex_env =
     \<lparr>jn_json = ex_json, jn_cancelled = None, jn_cancelled_inside = None, jn_clock = Some 5,
      jn_access = Some (\<lambda>s e. None), jn_verify_attempt = Some (\<lambda>a. True), jn_verify_observation = None\<rparr>"

definition ex_db :: database where
  "ex_db = \<lparr>db_fault = (\<lambda>s. None), db_cancelled = None, db_commit = Commits\<rparr>"

definition ex_tables :: tables where
  "ex_tables =
     \<lparr>tb_version = Some schema_version,
      tb_episodes = [((''s'', ''e''), \<lparr>er_attempt = ''a'', er_revision = 1, er_forgotten = False\<rparr>)],
      tb_revisions = [((''s'', ''e'', 1), ''x'')],
      tb_operations = [((''s'', ''o''), \<lparr>oo_episode = ''e'', oo_digest = Some (request_digest ''c''),
                          oo_revision = Some 1, oo_forgotten = False\<rparr>)]\<rparr>"

definition ex_result :: "bool \<Rightarrow> bool \<Rightarrow> journal_result" where
  "ex_result changed replayed = \<lparr>jr_episode = ex_episode, jr_changed = changed, jr_replayed = replayed\<rparr>"

lemma ex_key_simps [simp]:
  "jk_scope ex_key = ''s''" "jk_episode ex_key = ''e''" "jk_attempt ex_key = ''a''" "jk_operation ex_key = ''o''"
  by (simp_all add: ex_key_def)

lemma ex_refs:
  "valid_ref ''s''" "valid_ref ''e''" "valid_ref ''a''" "valid_ref ''o''" "valid_ref ''p''" "valid_ref ''t''"
  "valid_ref ''w''" "valid_ref ''q''" "valid_ref ''m''" "valid_ref ''c''" "valid_ref ''1''" "valid_ref ''v''" "valid_ref ''z''"
  by (rule plain_ref, simp add: plain_def, simp, simp)+

lemma ex_digest_ok: "digest_pattern ex_digest"
  by (simp add: digest_pattern_def ex_digest_def matches_class_def hex_char_def list_all_iff)

lemma ex_json_simps [simp]:
  "ex_json (Episode_Value ex_episode) = Some ''x''" "ex_json (Attempt_Value a) = Some ''a''"
  "ex_json (Begin_Value b) = Some ''b''" "ex_json (Command_Value c w) = Some ''c''"
  by (simp_all add: ex_json_def)

lemma ex_bounded [simp]:
  "bounded_value ex_json (Episode_Value ex_episode) = None" "bounded_value ex_json (Attempt_Value a) = None"
  "bounded_value ex_json (Begin_Value b) = None"
  by (simp_all add: bounded_value_def MaxRecordBytes_def)

lemma ex_attempt_valid: "now \<noteq> 0 \<Longrightarrow> validate_attempt ex_json (ex_attempt now) = None"
  by (simp add: validate_attempt_def)
    (simp add: ex_attempt_def check_stamp_def ex_refs valid_binding_def ex_digest_ok check_evidence_def MaxSources_def
      MaxChecks_def check_phase_def refuse_def)

lemma ex_episode_valid: "validate_episode ex_json ex_episode = None"
proof -
  have "check_stamp (ep_stamp ex_episode) EpisodeContract = None" "validate_attempt ex_json (ep_attempt ex_episode) = None"
    by (simp_all add: ex_episode_def check_stamp_def ex_refs ex_attempt_valid)
  then show ?thesis
    by (simp add: validate_episode_def)
      (simp add: ex_episode_def ex_attempt_def refuse_def check_corrections_def)
qed

lemma ex_faithful: "faithful ex_json ex_parse"
  using clone_episode_valid [OF ex_episode_valid] by (auto simp: faithful_def ex_json_def ex_parse_def split: if_splits)

lemma ex_read: "decode_snapshot ex_json ex_parse ''x'' = Inr ex_episode"
  by (simp add: decode_snapshot_def ex_parse_def MaxRecordBytes_def ex_episode_valid)

abbreviation "ex_store \<equiv> transact ex_json ex_parse ex_db"

lemma ex_command: "run_command ex_env (Some ex_store) (Begin ex_begin) t =
   ex_store ex_key (journal_callback ex_env ex_key (request_digest ''c'') 0 None (begin_mutation ex_begin)) t"
  by (simp add: begin_attempt_def journal_apply_def ex_begin_def ex_env_def ex_attempt_def ex_key_def ex_refs)

lemma stamped_copy:
  "(clone_attempt a)\<lparr>at_stamp := (at_stamp (clone_attempt a))\<lparr>sp_accepted_at := now\<rparr>\<rparr> =
   clone_attempt (a\<lparr>at_stamp := (at_stamp a)\<lparr>sp_accepted_at := now\<rparr>\<rparr>)"
  by (simp add: clone_attempt_def clone_stamp_def)

lemma ex_mutation: "begin_mutation ex_begin None 5 = Inr (ex_episode, True)"
proof -
  have c: "clone_attempt (ex_attempt 5) = ex_attempt 5" by (rule clone_attempt_valid [OF ex_attempt_valid]) simp
  have s: "(ex_attempt 0)\<lparr>at_stamp := (at_stamp (ex_attempt 0))\<lparr>sp_accepted_at := 5\<rparr>\<rparr> = ex_attempt 5"
    by (simp add: ex_attempt_def)
  have "(clone_attempt (ex_attempt 0))\<lparr>at_stamp := (at_stamp (clone_attempt (ex_attempt 0)))\<lparr>sp_accepted_at := 5\<rparr>\<rparr> = ex_attempt 5"
    unfolding stamped_copy s by (rule c)
  moreover have "at_ref (clone_attempt (ex_attempt 0)) = ''a''" "at_scope (clone_attempt (ex_attempt 0)) = ''s''"
    by (simp_all add: clone_attempt_def clone_stamp_def ex_attempt_def clone_ref ex_refs)
  ultimately show ?thesis by (simp add: begin_mutation_def ex_begin_def Let_def ex_episode_def)
qed

lemma ex_keyed: "keyed ex_key ex_episode"
  by (simp add: keyed_def ex_key_def ex_episode_def ex_attempt_def)

lemma ex_copy: "clone_episode ex_episode = ex_episode" "clone_text [] = []"
  using clone_episode_valid [OF ex_episode_valid] by (simp_all add: clone_word)

lemma ex_begin_tx: "tb_version t = Some schema_version \<Longrightarrow> begin_tx ex_db ''s'' t = Inr ()"
  by (simp add: begin_tx_def ex_db_def statement_def ex_refs)

lemma ex_version [simp]: "tb_version new_tables = Some schema_version" "tb_version ex_tables = Some schema_version"
  by (simp_all add: new_tables_def ex_tables_def)

lemma ex_commit: "commit ex_db t t' r = (Inr r, t')"
  by (simp add: commit_def ex_db_def)

lemma ex_statement: "statement ex_db step f = f ()"
  by (simp add: statement_def ex_db_def)

lemma ex_copied: "copy_result (ex_result changed replayed) = ex_result changed replayed"
  by (simp add: copy_result_def ex_result_def ex_copy)

lemma ex_first: "run_command ex_env (Some ex_store) (Begin ex_begin) new_tables = (Inr (ex_result True False), ex_tables)"
proof -
  let ?f = "journal_callback ex_env ex_key (request_digest ''c'') 0 None (begin_mutation ex_begin)"
  let ?w = "\<lparr>jw_next = Some ex_episode, jw_operation = Some \<lparr>jo_digest = request_digest ''c'', jo_result = ex_episode\<rparr>,
      jw_result = ex_result True False\<rparr>"
  let ?s = "\<lparr>js_current = None, js_operation = None, js_owner = []\<rparr>"
  have l: "load_state ex_json ex_parse ex_db ex_key new_tables = Inr ?s"
    by (simp add: load_state_def load_current_def load_operation_def attempt_owner_def statement_def ex_db_def new_tables_def)
  have f: "?f ?s = Inr ?w"
    by (simp add: journal_callback_def current_episode_def committed_write_def ex_env_def ex_mutation ex_keyed ex_copy
        ex_episode_valid verified_def ex_result_def)
  have rev: "ep_revision ex_episode = 1" by (simp add: ex_episode_def)
  have v: "validate_write ex_json ex_key (copy_state ?s) ?w = None"
    using request_digest_shape [of "''c''"]
    by (simp add: validate_write_def copy_state_def ex_result_def rev ex_episode_valid ex_keyed same_episode_def MaxRecordBytes_def)
  have w: "write_snapshot ex_json ex_db ex_key (copy_state ?s) ?w new_tables =
      Inr (ex_tables\<lparr>tb_operations := []\<rparr>)"
    by (simp add: write_snapshot_def copy_state_def insert_episode_def insert_revision_def statement_def ex_db_def
        new_tables_def ex_tables_def attempt_owner_def rev int64_of_def ex_key_def MaxRecordBytes_def)
  have o: "write_operation ex_db ex_key ?w (ex_tables\<lparr>tb_operations := []\<rparr>) = Inr ex_tables"
    by (simp add: write_operation_def insert_operation_def statement_def ex_db_def ex_tables_def rev int64_of_def ex_key_def)
  show ?thesis
    unfolding ex_command transact_def
    by (simp add: l f v w o ex_refs ex_begin_tx ex_commit ex_copied)
qed

lemma ex_second: "run_command ex_env (Some ex_store) (Begin ex_begin) ex_tables = (Inr (ex_result False True), ex_tables)"
proof -
  let ?f = "journal_callback ex_env ex_key (request_digest ''c'') 0 None (begin_mutation ex_begin)"
  let ?op = "\<lparr>jo_digest = request_digest ''c'', jo_result = ex_episode\<rparr>"
  let ?w = "\<lparr>jw_next = None, jw_operation = None, jw_result = ex_result False True\<rparr>"
  let ?s = "\<lparr>js_current = Some ex_episode, js_operation = Some ?op, js_owner = ''e''\<rparr>"
  have e: "ep_scope ex_episode = ''s''" "ep_ref ex_episode = ''e''" "ep_revision ex_episode = 1"
      "at_ref (ep_attempt ex_episode) = ''a''"
    by (simp_all add: ex_episode_def ex_attempt_def)
  have l: "load_state ex_json ex_parse ex_db ex_key ex_tables = Inr ?s"
    by (simp add: load_state_def load_current_def load_operation_def attempt_owner_def statement_def ex_db_def ex_tables_def
        read_snapshot_def ex_read e)
  have f: "?f ?s = Inr ?w"
    by (simp add: journal_callback_def replay_operation_def ex_env_def ex_keyed ex_copy ex_episode_valid verified_def ex_result_def)
  have v: "validate_write ex_json ex_key (copy_state ?s) ?w = None"
    by (simp add: validate_write_def copy_state_def ex_result_def same_episode_def ex_copy)
  show ?thesis
    unfolding ex_command transact_def
    by (simp add: l f v ex_refs ex_begin_tx ex_commit ex_copied write_snapshot_def write_operation_def)
qed

lemma ex_run: "journal_run ex_json ex_parse new_tables ex_tables"
  by (rule journal_run.further [OF journal_run.start journal_step.command [OF _ ex_first]]) (simp add: ex_env_def)

subsection \<open>Properties\<close>

text \<open>
  C5.  In every run from new tables, whatever the commands, the recoveries, the deletions, the clocks,
  the policies and the faults of the database (commits of unknown outcome included), the tables stay in
  order: each episode that is not forgotten has every revision from 1 to its current one, each a valid
  snapshot of that episode and attempt, the first a bare preparation and each later one a permitted
  step after the one before; an attempt belongs to one episode; an operation names a stored revision.
\<close>

theorem journal_histories_are_legal:
  assumes "faithful js parse" and "journal_run js parse new_tables t"
  shows "tables_ok js parse t"
  using run_ok [OF assms(2) new_tables_ok assms(1)] .

lemma journal_histories_are_legal_witness: "tables_ok ex_json ex_parse ex_tables"
  by (rule journal_histories_are_legal [OF ex_faithful ex_run])

text \<open>
  C4.  A command that changed the tables never takes effect again.  After any further run, any command
  with the same operation key in the same scope leaves the tables as they are, and if it is answered at
  all then as a replay, with the episode of the first answer when there was one.  This holds also when
  the first command's commit had an unknown outcome.
\<close>

theorem operation_takes_effect_once:
  assumes "faithful js parse" and "journal_run js parse new_tables t" and "jn_json env = js"
    and "run_command env (Some (transact js parse db)) c t = (res, t1)" and "t1 \<noteq> t"
    and "journal_run js parse t1 t2"
    and "run_command env' (Some (transact js parse db')) c' t2 = (res', t3)"
    and "jk_scope (command_key c') = jk_scope (command_key c)"
    and "jk_operation (command_key c') = jk_operation (command_key c)"
  shows "t3 = t2 \<and> (case res' of
           Inl err \<Rightarrow> True
         | Inr r' \<Rightarrow> jr_replayed r' \<and> \<not> jr_changed r' \<and>
             (case res of Inl err \<Rightarrow> True | Inr r \<Rightarrow> jr_episode r' = jr_episode r))"
proof -
  have rec: "recorded t1 (command_key c)" using pg.command_recorded [OF assms(4,5)] .
  have fresh: "\<not> recorded t (command_key c)" using pg.command_once [OF assms(4)] assms(5) by blast
  have "recorded t2 (command_key c')"
    using run_recorded [OF assms(6) rec] assms(8,9) by (simp add: recorded_def)
  note once = pg.command_once [OF assms(7) this]
  have same: "jr_episode r' = jr_episode r" if res: "res = Inr r" and res': "res' = Inr r'" for r r'
  proof -
    have "answers js parse (jk_scope (command_key c)) (jk_operation (command_key c)) (jr_episode r) t1"
      using command_answer [OF run_ok [OF assms(2) new_tables_ok assms(1)] assms(1,3) assms(4) [unfolded res] fresh] .
    from run_answers [OF assms(6) this]
    show ?thesis using command_replay [OF assms(7) [unfolded res']] assms(8,9) by simp
  qed
  show ?thesis
  proof (cases res')
    case (Inr r')
    then show ?thesis using once same [OF _ Inr] by (cases res) simp_all
  qed (use once in simp)
qed

lemma operation_takes_effect_once_witness:
  "ex_tables \<noteq> new_tables \<and> ex_tables = ex_tables \<and> jr_replayed (ex_result False True)"
proof -
  have d: "ex_tables \<noteq> new_tables" by (simp add: ex_tables_def new_tables_def)
  have "jn_json ex_env = ex_json" by (simp add: ex_env_def)
  from operation_takes_effect_once [OF ex_faithful journal_run.start this ex_first d journal_run.start ex_second]
  show ?thesis using d by simp
qed

text \<open>
  C6.  Deletion is final.  Once \<open>Forget\<close> of a known episode has committed, then after any further run
  no revision of it is stored, reading it is refused, and every command on the episode, or on its
  attempt under another episode with an operation key not used before, is refused and changes nothing.
\<close>

theorem forgetting_is_final:
  assumes "faithful js parse" and "journal_run js parse new_tables t"
    and "map_of (tb_episodes t) (s, r) = Some row" and "forget_episode db s r t = (None, t1)"
    and "journal_run js parse t1 t2"
  shows "(\<forall>n. map_of (tb_revisions t2) (s, r, n) = None) \<and>
     (\<forall>db'. \<exists>err. read_episode js parse db' s r t2 = Inl err) \<and>
     (\<forall>env db' c res t3.
        run_command env (Some (transact js parse db')) c t2 = (res, t3) \<longrightarrow> jk_scope (command_key c) = s \<longrightarrow>
        jk_episode (command_key c) = r \<or>
          jk_attempt (command_key c) = er_attempt row \<and> \<not> recorded t2 (command_key c) \<longrightarrow>
        (\<exists>err. res = Inl err \<and> t3 = t2))"
proof -
  have f: "fenced s r (er_attempt row) t2"
    using run_keeps_fence [OF assms(5)] forget_fences [OF assms(4,3)] .
  have "tables_ok js parse t1"
    using run_ok [OF journal_run.further [OF assms(2) journal_step.forgetting [OF assms(4)]] new_tables_ok assms(1)] .
  then have ok: "tables_ok js parse t2" using run_ok [OF assms(5)] assms(1) by blast
  show ?thesis
    using fenced_no_revision [OF ok f] read_fenced [OF f] command_fenced [OF ok] f by blast
qed

lemma forgetting_is_final_witness:
  "map_of (tb_revisions (forget_tables ''s'' ''e'' ex_tables)) (''s'', ''e'', 1) = None \<and>
   map_of (tb_revisions ex_tables) (''s'', ''e'', 1) = Some ''x''"
proof -
  let ?row = "\<lparr>er_attempt = ''a'', er_revision = 1, er_forgotten = False\<rparr>"
  have row: "map_of (tb_episodes ex_tables) (''s'', ''e'') = Some ?row" by (simp add: ex_tables_def)
  have f: "forget_episode ex_db ''s'' ''e'' ex_tables = (None, forget_tables ''s'' ''e'' ex_tables)"
    by (simp add: forget_episode_def ex_refs ex_begin_tx ex_commit ex_statement)
  show ?thesis
    using forgetting_is_final [OF ex_faithful ex_run row f journal_run.start] by (simp add: ex_tables_def)
qed

text \<open>What an eligible decision rests on: the checks it passed, and the observations behind its outcome.\<close>

definition earned :: "json \<Rightarrow> episode \<Rightarrow> query \<Rightarrow> string \<Rightarrow> bool" where
  "earned js e q outcome \<longleftrightarrow>
     validate_episode js e = None \<and> qy_scope q = ep_scope e \<and> can_read q (ep_scope e) (ep_ref e) \<and>
     can_read q (ep_scope e) (at_ref (ep_attempt e)) \<and> ep_accepted e \<le> qy_as_of q \<and>
     qy_method q = at_method (ep_attempt e) \<and> qy_criterion q = at_criterion (ep_attempt e) \<and>
     verifies q (ep_attempt e) \<and> qy_applicable q \<and> at_dispatched_at (ep_attempt e) \<noteq> None \<and>
     (\<forall>ev \<in> set (at_sources (ep_attempt e) @ at_prerequisites (ep_attempt e)).
        can_read q (ep_scope e) (ev_ref ev) \<and> version_of q (ev_ref ev) = ev_hash ev) \<and>
     (\<forall>c \<in> set (ep_constraints e). qy_satisfied q c = Some True) \<and>
     (\<forall>b \<in> set (ep_observations e). can_read q (ep_scope e) (ob_ref b) \<and> admits q b \<and>
        (\<forall>ev \<in> set (ob_evidence b). can_read q (ep_scope e) (ev_ref ev) \<and> version_of q (ev_ref ev) = ev_hash ev)) \<and>
     eligible_outcome (qy_purpose q) outcome"

definition supported :: "episode \<Rightarrow> query \<Rightarrow> string \<Rightarrow> bool" where
  "supported e q outcome \<longleftrightarrow>
     (let standing = {b \<in> set (ep_observations e). ob_ref b \<notin> set (superseded_refs (ep_observations e))}
      in standing \<noteq> {} \<and>
         (\<forall>b \<in> standing. \<exists>b' \<in> standing. ob_ref b' = ob_ref b \<and> counts_for q b' \<and> ob_outcome b' = outcome \<and>
            (qy_purpose q = ''prediction'' \<longrightarrow> \<not> outside_target e b')))"

lemma eligible_cases:
  assumes "evaluate js e q = (d, None)" and "dc_eligible d"
  shows "validate_episode js e = None" "episode_reason e q = None" "observations_reason q (ep_scope e) (ep_observations e) = None"
    "observed_outcome q e (superseded_refs (ep_observations e)) [] 0 ''unknown'' (ep_observations e) = (dc_outcome d, None)"
    "forecast_reason e q = None" "eligible_outcome (qy_purpose q) (dc_outcome d)"
  using assms by (auto simp: evaluate_def denied_def split: option.splits prod.splits if_splits)

lemma eligible_earned:
  assumes "evaluate js e q = (d, None)" and "dc_eligible d"
  shows "earned js e q (dc_outcome d)"
  using eligible_cases(1,2,6) [OF assms] observations_reason_None [OF eligible_cases(3) [OF assms]]
  by (auto simp: earned_def episode_reason_def evidence_current_def list_all_iff simp del: first_reason.simps)

lemma eligible_supported:
  assumes "evaluate js e q = (d, None)" and "dc_eligible d" and p: "qy_purpose q \<noteq> ''diagnostic''"
  shows "supported e q (dc_outcome d)"
proof -
  note o = observed_outcome_sound [OF eligible_cases(4) [OF assms(1,2)] p]
  have "dc_outcome d \<noteq> ''unknown''" "dc_outcome d \<noteq> ''conflicted''"
    using eligible_cases(6) [OF assms(1,2)] p by (auto simp: eligible_outcome_def split: if_splits)
  then show ?thesis using o unfolding supported_def Let_def by (auto; metis)
qed

lemma refused_decision: "evaluate js e q = (d, Some err) \<Longrightarrow> \<not> dc_eligible d"
  by (auto simp: evaluate_def denied_def split: option.splits prod.splits if_splits)

lemma ineligible_has_reason: "evaluate js e q = (d, None) \<Longrightarrow> \<not> dc_eligible d \<Longrightarrow> dc_reasons d \<noteq> []"
  by (auto simp: evaluate_def denied_def split: option.splits prod.splits if_splits)

text \<open>
  C7.  A decision is eligible only when it is earned.  The episode is then valid, in the scope asked
  about, available by then, of the method and criterion asked for, of a verified attempt, applicable,
  dispatched, with every source and prerequisite readable and unchanged and every constraint satisfied;
  every one of its observations is readable, with unchanged evidence, and admitted; the outcome suits
  the purpose; and, except for a diagnosis, some observation is not superseded and each such reference
  has an observation with that outcome: never a simulation, an operator's report only where it is
  permitted, and for a prediction one that happened within its horizon.  A decision that is not
  eligible has a reason, unless the episode is refused with an error.
\<close>

theorem eligible_decision_is_earned:
  "case evaluate js e q of
     (d, None) \<Rightarrow>
       if dc_eligible d
       then earned js e q (dc_outcome d) \<and> (if qy_purpose q = ''diagnostic'' then True else supported e q (dc_outcome d))
       else dc_reasons d \<noteq> []
   | (d, Some err) \<Rightarrow> \<not> dc_eligible d"
  using eligible_earned eligible_supported refused_decision ineligible_has_reason
  by (auto split: prod.splits option.splits)

lemma squared_gap_unit:
  assumes "is_probability x" and "w = Fin 0 \<or> w = Fin 1"
  shows "is_probability (squared_gap x w)"
proof -
  obtain a where x: "x = Fin a" "0 \<le> a" "a \<le> 1" using assms(1) by (cases x) (auto simp: is_probability_def)
  obtain b where w: "w = Fin b" "b = 0 \<or> b = 1" using assms(2) by auto
  have "\<bar>a - b\<bar> \<le> 1" using x w by auto
  then obtain v where v: "rnd (a - b) = Fin v" "\<bar>v\<bar> \<le> 1" using rnd_unit_abs by blast
  have "0 \<le> v * v \<and> v * v \<le> 1" using v(2) by (metis abs_ge_zero abs_mult_self_eq mult_le_one zero_le_square)
  then obtain u where "rnd (v * v) = Fin u" "0 \<le> u" "u \<le> 1" using rnd_unit by blast
  then show ?thesis by (simp add: squared_gap_def fl_sub_def x(1) w(1) v(1) is_probability_def)
qed

text \<open>
  A score is given exactly for an eligible prediction with no error: an episode whose prediction
  was estimated, and whose admitted observations within its horizon agree that it succeeded or failed.
  Each score is the square of a distance of probabilities, so between zero and one, for the probability
  and for the baseline when there is one.
\<close>

theorem score_is_bounded:
  "case score_prediction js e q of
     (Some sc, d, err) \<Rightarrow> err = None \<and> dc_eligible d \<and> earned js e (q\<lparr>qy_purpose := ''prediction''\<rparr>) (dc_outcome d) \<and>
       is_probability (fs_brier sc) \<and> list_all is_probability (case_option [] (\<lambda>b. [b]) (fs_baseline_brier sc)) \<and>
       (fs_baseline_brier sc = None) = (map_option fo_baseline (ep_prediction e) = Some None)
   | (None, d, err) \<Rightarrow> \<not> dc_eligible d"
proof -
  let ?q = "q\<lparr>qy_purpose := ''prediction''\<rparr>"
  obtain d err where ev: "evaluate js e ?q = (d, err)" by force
  show ?thesis
  proof (cases "err = None \<and> dc_eligible d")
    case False
    moreover have "err \<noteq> None \<Longrightarrow> \<not> dc_eligible d" using ev refused_decision by (cases err) auto
    ultimately show ?thesis using ev by (auto simp: score_prediction_def)
  next
    case True
    then have ev: "evaluate js e ?q = (d, None)" and el: "dc_eligible d" using ev by simp_all
    note c = eligible_cases [OF ev el]
    from c(2) obtain p where p: "ep_prediction e = Some p" "fo_status p = ''estimated''"
      by (auto simp: episode_reason_def simp del: first_reason.simps split: option.splits)
    have vp: "validate_forecast js (ep_attempt e) p = None" using validate_episodeD(12) [OF c(1) p(1)] by blast
    obtain x where x: "fo_probability p = Some x" using validate_forecastD(8) [OF vp] p(2) by auto
    have px: "is_probability x" using validate_forecastD(9) [OF vp] by (simp add: finite_chance_def x)
    have pb: "is_probability b" if "fo_baseline p = Some b" for b
      using validate_forecastD(10) [OF vp] that by (simp add: finite_chance_def)
    let ?o = "if dc_outcome d = ''succeeded'' then Fin 1 else Fin 0"
    have "score_prediction js e q = (Some \<lparr>fs_brier = squared_gap x ?o,
        fs_baseline_brier = map_option (\<lambda>b. squared_gap b ?o) (fo_baseline p)\<rparr>, d, None)"
      by (simp add: score_prediction_def ev el Let_def p(1) x)
    moreover have "earned js e ?q (dc_outcome d)" using eligible_earned [OF ev el] .
    ultimately show ?thesis
      using el p(1) squared_gap_unit [OF px, of ?o] squared_gap_unit [OF pb, of _ ?o]
      by (auto split: option.splits)
  qed
qed

end
