(* ===== verification/Runtime_Settings.thy ===== *)
theory Runtime_Settings
  imports Runtime_Lifecycle Inbound_Policy Go_Duration
begin

section \<open>The settings of the local stack\<close>

text \<open>
  \<open>dokja_domain/dokja_runtime/settings.go\<close>: the catalog with its parsers, the view, the change that
  is checked before it is written, the recreation of the modules that read a changed setting, and the
  import of the legacy environment.  The store is a parameter that changes the world \<open>'w\<close>; where the
  code ranges over a map of strings, the order of the list is the order of the range.
\<close>

subsection \<open>Parsers\<close>

type_synonym parser = "string \<Rightarrow> string res"

definition alnum :: "char \<Rightarrow> bool" where
  "alnum c \<longleftrightarrow> digit c \<or> 65 \<le> byte c \<and> byte c \<le> 90 \<or> 97 \<le> byte c \<and> byte c \<le> 122"

definition lower_alnum :: "char \<Rightarrow> bool" where
  "lower_alnum c \<longleftrightarrow> digit c \<or> 97 \<le> byte c \<and> byte c \<le> 122"

text \<open>A match of \<open>^[first][rest]{0,n}$\<close>.\<close>

definition matches_name :: "(char \<Rightarrow> bool) \<Rightarrow> (char \<Rightarrow> bool) \<Rightarrow> nat \<Rightarrow> string \<Rightarrow> bool" where
  "matches_name first rest n s = (case s of [] \<Rightarrow> False | c # cs \<Rightarrow> first c \<and> matches_class rest 0 n cs)"

definition channel_id :: "string \<Rightarrow> bool" where
  "channel_id = matches_class digit 1 20"

definition model_name :: "string \<Rightarrow> bool" where
  "model_name = matches_name alnum (\<lambda>c. alnum c \<or> c \<in> set ''._:/-'') 127"

definition phone_marks :: string where
  "phone_marks = [CHR 0x09, CHR 0x0A, CHR 0x0C, CHR 0x0D] @ '' ().+-''"

definition phone_pattern :: "string \<Rightarrow> bool" where
  "phone_pattern = matches_class digit 7 15"

definition alias_name :: "string \<Rightarrow> bool" where
  "alias_name = matches_name lower_alnum (\<lambda>c. lower_alnum c \<or> c \<in> set ''_-'') 31"

definition limit_number :: "string \<Rightarrow> bool" where
  "limit_number = matches_name (\<lambda>c. digit c \<and> c \<noteq> CHR ''0'') digit 11"

definition feed_plugin :: "string \<Rightarrow> bool" where
  "feed_plugin = matches_class (\<lambda>c. lower_alnum c \<or> c \<in> set ''_-'') 1 40"

definition checked :: "(string \<Rightarrow> bool) \<Rightarrow> string \<Rightarrow> parser" where
  "checked ok msg v = (if ok v then Inr v else Inl (Errorf msg))"

definition channel :: parser where
  "channel = checked channel_id ''not a channel id''"

definition feed_source :: parser where
  "feed_source = checked feed_plugin ''not a source id''"

definition phone_number :: parser where
  "phone_number v =
     (let digits = filter (\<lambda>c. c \<notin> set phone_marks) v
      in if \<not> phone_pattern digits then Inl (Errorf ''not a phone number'') else Inr digits)"

definition whatsapp_group_id :: parser where
  "whatsapp_group_id = checked whatsapp_group ''not a group id (<digits>@g.us)''"

definition conversation_refused :: gerror where
  "conversation_refused = Errorf ''not alias=<phone number or group id>''"

definition conversation_entry :: parser where
  "conversation_entry v =
     (case cut_at CHR ''='' v of (l, r, found) \<Rightarrow>
        let alias = trim_space l; target = trim_space r
        in if \<not> found \<or> \<not> alias_name alias then Inl conversation_refused
           else if whatsapp_group target then Inr (alias @ ''='' @ target)
           else case phone_number target of
               Inl e \<Rightarrow> Inl conversation_refused
             | Inr number \<Rightarrow> Inr (alias @ ''='' @ number))"

fun list_entries :: "parser \<Rightarrow> nat \<Rightarrow> string list \<Rightarrow> string list \<Rightarrow> string list res" where
  "list_entries entry i out [] = Inr out"
| "list_entries entry i out (raw # rest) =
     (let raw = trim_space raw
      in if raw = [] then list_entries entry (Suc i) out rest
         else case entry raw of
             Inl e \<Rightarrow> Inl (Errorf (''entry '' @ show_nat (Suc i) @ '' is '' @ err_text e))
           | Inr item \<Rightarrow> list_entries entry (Suc i) (if contains_str out item then out else out @ [item]) rest)"

definition list_of :: "parser \<Rightarrow> parser" where
  "list_of entry v =
     (case list_entries entry 0 [] (split_on CHR '','' v) of
        Inl e \<Rightarrow> Inl e
      | Inr out \<Rightarrow> Inr (join_with '','' out))"

fun repeats :: "string list \<Rightarrow> string list \<Rightarrow> string list \<Rightarrow> bool" where
  "repeats aliases targets [] = False"
| "repeats aliases targets (entry # rest) =
     (case cut_at CHR ''='' entry of (alias, target, found) \<Rightarrow>
        contains_str aliases alias \<or> contains_str targets target \<or>
        repeats (alias # aliases) (target # targets) rest)"

definition conversations :: parser where
  "conversations v =
     (case list_of conversation_entry v of
        Inl e \<Rightarrow> Inl e
      | Inr entries \<Rightarrow>
          if entries = [] then Inr entries
          else if repeats [] [] (split_on CHR '','' entries)
          then Inl (Errorf ''an alias or a conversation is repeated'')
          else Inr entries)"

definition model_setting :: parser where
  "model_setting v =
     (let v = trim_space v
      in if v \<noteq> [] \<and> \<not> model_name v then Inl (Errorf ''not a model name'') else Inr v)"

definition pdf_limit :: parser where
  "pdf_limit v =
     (let v = trim_space v
      in if v = [] then Inr []
         else case atoi v of
             None \<Rightarrow> Inl (Errorf ''PDF limit must be between 1 and 100 MiB'')
           | Some n \<Rightarrow>
               if n < 1 \<or> n > 100 then Inl (Errorf ''PDF limit must be between 1 and 100 MiB'')
               else Inr (show_nat (nat n)))"

definition whole_number :: parser where
  "whole_number v =
     (let v = trim_space v
      in if v = [] then Inr []
         else if \<not> limit_number v then Inl (Errorf (go_quote v @ '' is not a whole number''))
         else Inr v)"

definition one_of :: "string list \<Rightarrow> parser" where
  "one_of options v =
     (let v = trim_space v
      in if contains_str options v then Inr v
         else Inl (Errorf (''must be one of '' @ join_with '', '' options)))"

subsection \<open>The catalog\<close>

record rt_setting =
  st_id :: string
  st_group :: string
  st_env :: string
  st_kind :: string
  st_options :: "string list"
  st_affects :: "string list"
  st_note :: string
  st_default :: string
  st_read_only :: bool
  st_parse :: parser

definition entry_of :: "string \<Rightarrow> string \<Rightarrow> string \<Rightarrow> string \<Rightarrow> string list \<Rightarrow> parser \<Rightarrow> rt_setting" where
  "entry_of i g e k affects p =
     \<lparr>st_id = i, st_group = g, st_env = e, st_kind = k, st_options = [], st_affects = affects, st_note = [],
      st_default = [], st_read_only = False, st_parse = p\<rparr>"

definition settings_catalog :: "rt_setting list" where
  "settings_catalog =
     [(entry_of ''library.chat_pdf_max_mib'' ''library'' ''DOKJA_PDF_MAX_MIB'' ''text'' [''orchestrator'', ''feeds''] pdf_limit)
        \<lparr>st_default := ''25''\<rparr>,
      (entry_of ''discord.meme_channels'' ''discord'' ''DISCORD_SCHEDULED_MEME_CHANNEL_ID'' ''list''
        [''orchestrator'', ''communications''] (list_of channel))\<lparr>st_note := ''sessions''\<rparr>,
      (entry_of ''discord.safe_only_channels'' ''discord'' ''DISCORD_SAFE_ONLY_CHANNEL_IDS'' ''list'' [''orchestrator'']
        (list_of channel))\<lparr>st_note := ''sessions''\<rparr>,
      entry_of ''discord.answer_channels'' ''discord'' ''DISCORD_ALLOWED_CHANNELS'' ''list'' [''orchestrator'', ''discord'']
        (list_of channel),
      (entry_of ''discord.direct_messages'' ''discord'' ''DISCORD_DM_POLICY'' ''enum'' [''orchestrator'', ''discord'']
        (one_of [''open'', ''closed'']))\<lparr>st_default := ''open'', st_options := [''open'', ''closed'']\<rparr>,
      entry_of ''whatsapp.people'' ''whatsapp'' ''DOKJA_WHATSAPP_ALLOW_FROM'' ''list'' [''orchestrator'', ''whatsapp'']
        (list_of phone_number),
      entry_of ''whatsapp.groups'' ''whatsapp'' ''DOKJA_WHATSAPP_ALLOWED_GROUPS'' ''list'' [''orchestrator'', ''whatsapp'']
        (list_of whatsapp_group_id),
      entry_of ''whatsapp.conversations'' ''whatsapp'' ''DOKJA_WHATSAPP_CONVERSATIONS'' ''list'' [''whatsapp''] conversations,
      (entry_of ''whatsapp.own_chat'' ''whatsapp'' ''DOKJA_WHATSAPP_SELF_CHAT'' ''flag'' [''orchestrator'', ''whatsapp'']
        (one_of [''true'', ''false'']))\<lparr>st_default := ''true'', st_options := [''true'', ''false'']\<rparr>,
      entry_of ''library.max_file_mb'' ''library'' ''KNOWLEDGE_MAX_FILE_MB'' ''text'' [''knowledge''] whole_number,
      entry_of ''library.max_text_chars'' ''library'' ''KNOWLEDGE_MAX_TEXT_CHARS'' ''text'' [''knowledge''] whole_number,
      entry_of ''library.intake_sources'' ''library'' ''DOKJA_KNOWLEDGE_INTAKE_SOURCES'' ''list'' [''orchestrator'']
        (list_of feed_source),
      (entry_of ''models.embedding'' ''models'' ''DOKJA_EMBED_MODEL'' ''text'' [''embedding_init'', ''memory'', ''knowledge'']
        model_setting)\<lparr>st_read_only := True, st_default := ''bge-m3'', st_note := ''reindex''\<rparr>,
      (entry_of ''models.book_classifier'' ''models'' ''DOKJA_BOOK_CLASSIFIER_MODEL'' ''text'' [''feeds''] model_setting)
        \<lparr>st_default := ''typeform/distilbert-base-uncased-mnli''\<rparr>,
      (entry_of ''models.book_overview'' ''models'' ''DOKJA_BOOK_OVERVIEW_MODEL'' ''text'' [''feeds''] model_setting)
        \<lparr>st_default := ''sshleifer/distilbart-cnn-12-6''\<rparr>,
      (entry_of ''models.speech_to_text'' ''models'' ''DOKJA_VOICE_STT_MODEL'' ''text'' [''voice''] model_setting)
        \<lparr>st_default := ''openai/whisper-tiny''\<rparr>,
      entry_of ''models.ocr'' ''models'' ''DOKJA_OCR_REC_MODEL'' ''text'' [''feeds''] model_setting]"

definition WebhooksEnv :: string where
  "WebhooksEnv = ''DOKJA_DISCORD_WEBHOOKS''"

definition settings_env :: "string list" where
  "settings_env = WebhooksEnv # map st_env settings_catalog"

definition lookup_setting :: "string \<Rightarrow> rt_setting option" where
  "lookup_setting i = find (\<lambda>s. st_id s = i) settings_catalog"

subsection \<open>The view and the change\<close>

type_synonym variables = "string \<rightharpoonup> string"

record 'w settings_store =
  sg_read :: "'w \<Rightarrow> (variables \<times> string list option) res \<times> 'w"
  sg_write :: "variables \<Rightarrow> 'w \<Rightarrow> gerror option \<times> 'w"

record 'w settings_ports =
  sp_runtime :: "'w rt_ports"
  sp_store :: "'w settings_store option"

record settings_state =
  ss_domain :: rt_domain
  ss_error :: string

record setting_row =
  sr_setting :: rt_setting
  sr_value :: string

record settings_view =
  sv_settings :: "setting_row list"
  sv_webhook_channels :: "string list"
  sv_busy :: bool
  sv_error :: string

definition unavailable :: gerror where
  "unavailable = Errorf ''settings are not available for this stack''"

definition view_settings :: "'w settings_ports \<Rightarrow> settings_state \<Rightarrow> 'w \<Rightarrow> settings_view \<times> 'w" where
  "view_settings ports st w =
     (let view = \<lparr>sv_settings = [], sv_webhook_channels = [], sv_busy = rd_busy (ss_domain st), sv_error = ss_error st\<rparr>
      in case sp_store ports of
           None \<Rightarrow> (view\<lparr>sv_error := err_text unavailable\<rparr>, w)
         | Some store \<Rightarrow>
             (case sg_read store w of
                (Inl e, w') \<Rightarrow> (view\<lparr>sv_error := err_text e\<rparr>, w')
              | (Inr (vars, webhooks), w') \<Rightarrow>
                  (view\<lparr>sv_settings := map (\<lambda>s. \<lparr>sr_setting = s, sr_value = setting vars (st_env s)\<rparr>) settings_catalog,
                        sv_webhook_channels := case_option [] id webhooks\<rparr>, w')))"

text \<open>The check of every change: the variables to write and the modules they affect.\<close>

fun check_changes ::
    "(string \<times> string) list \<Rightarrow> variables \<Rightarrow> string list \<Rightarrow> (variables \<times> string list) res" where
  "check_changes [] vars affected = Inr (vars, affected)"
| "check_changes ((i, raw) # changes) vars affected =
     (case lookup_setting i of
        None \<Rightarrow> Inl (Errorf (''unknown setting '' @ go_quote i))
      | Some s \<Rightarrow>
          if st_read_only s then Inl (Errorf (i @ '' is fixed for this version''))
          else case st_parse s raw of
              Inl e \<Rightarrow> Inl (Errorf (i @ '': '' @ err_text e))
            | Inr v \<Rightarrow> check_changes changes (vars(st_env s \<mapsto> v)) (st_affects s @ affected))"

definition merged_variable :: "variables \<Rightarrow> variables \<Rightarrow> string \<Rightarrow> string" where
  "merged_variable vars current env = (case vars env of Some v \<Rightarrow> v | None \<Rightarrow> setting current env)"

definition answers_nobody :: "(string \<Rightarrow> string) \<Rightarrow> bool" where
  "answers_nobody vars \<longleftrightarrow>
     vars ''DOKJA_WHATSAPP_SELF_CHAT'' = ''false'' \<and> vars ''DOKJA_WHATSAPP_ALLOW_FROM'' = [] \<and>
     vars ''DOKJA_WHATSAPP_ALLOWED_GROUPS'' = []"

definition set_busy :: "bool \<Rightarrow> settings_state \<Rightarrow> settings_state" where
  "set_busy busy st = st\<lparr>ss_domain := (ss_domain st)\<lparr>rd_busy := busy\<rparr>\<rparr>"

text \<open>
  What \<open>SetSettings\<close> answers; the variables and modules \<open>applySettings\<close> is then started with in the
  background, when it is; the state and the world.
\<close>

definition set_settings ::
    "'w settings_ports \<Rightarrow> (string \<times> string) list \<Rightarrow> settings_state \<Rightarrow> 'w \<Rightarrow>
     settings_view res \<times> (variables \<times> string list) option \<times> settings_state \<times> 'w" where
  "set_settings ports changes st w =
     (case sp_store ports of
        None \<Rightarrow> (Inl unavailable, None, st, w)
      | Some store \<Rightarrow>
          if changes = [] then (Inl (Errorf ''no setting to change''), None, st, w)
          else if rd_busy (ss_domain st) then (Inl (Errorf ''another module operation is in progress''), None, st, w)
          else
            (let busy = set_busy True st
             in case sg_read store w of
                  (Inl e, w1) \<Rightarrow> (Inl e, None, set_busy False busy, w1)
                | (Inr (current, webhooks), w1) \<Rightarrow>
                    (case check_changes changes Map.empty [] of
                       Inl e \<Rightarrow> (Inl e, None, set_busy False busy, w1)
                     | Inr (vars, affected) \<Rightarrow>
                         if answers_nobody (merged_variable vars current)
                         then (Inl (Errorf ''whatsapp would answer nobody: keep its own chat, or list people or groups''),
                               None, set_busy False busy, w1)
                         else (case view_settings ports (busy\<lparr>ss_error := []\<rparr>) w1 of
                                 (view, w2) \<Rightarrow> (Inr view, Some (vars, affected), busy\<lparr>ss_error := []\<rparr>, w2)))))"

subsection \<open>Recreating the readers\<close>

fun mark_readers ::
    "'w rt_ports \<Rightarrow> string list \<Rightarrow> rt_module list \<Rightarrow> rt_domain \<Rightarrow> 'w \<Rightarrow> gerror option \<times> rt_domain \<times> 'w" where
  "mark_readers ports affected [] d w = (None, d, w)"
| "mark_readers ports affected (m # ms) d w =
     (if contains_str affected (rm_name m)
      then case mark_stale ports (rm_service m) True d w of
          (Some e, d', w') \<Rightarrow> (Some e, d', w')
        | (None, d', w') \<Rightarrow> mark_readers ports affected ms d' w'
      else mark_readers ports affected ms d w)"

definition set_state :: "rt_module \<Rightarrow> string \<Rightarrow> string \<Rightarrow> rt_domain \<Rightarrow> rt_domain" where
  "set_state m state message d = d\<lparr>rd_states := (rd_states d)(rm_name m \<mapsto> state_row m state message)\<rparr>"

definition recreate_one ::
    "'w rt_ports \<Rightarrow> rt_module \<Rightarrow> rt_domain \<Rightarrow> 'w \<Rightarrow> gerror option \<times> rt_domain \<times> 'w" where
  "recreate_one ports m d w =
     (let d1 = set_state m ''starting'' [] d
      in case rp_recreate ports m w of
           (Some e, w1) \<Rightarrow> (Some e, set_state m ''failed'' (err_text e) d1, w1)
         | (None, w1) \<Rightarrow>
             (case rp_ready ports m w1 of
                (Some e, w2) \<Rightarrow> (Some e, set_state m ''failed'' (err_text e) d1, w2)
              | (None, w2) \<Rightarrow> mark_stale ports (rm_service m) False (set_state m ''ready'' [] d1) w2))"

definition reads_running :: "(string \<Rightarrow> container) \<Rightarrow> rt_module \<Rightarrow> bool" where
  "reads_running containers m \<longleftrightarrow>
     ct_running (containers (rm_service m)) \<or>
     (rm_name m = ''embedding_init'' \<and>
      (ct_running (containers ''dokja-memory'') \<or> ct_running (containers ''dokja-knowledge'')))"

fun recreate_readers ::
    "'w rt_ports \<Rightarrow> string list \<Rightarrow> (string \<Rightarrow> container) \<Rightarrow> rt_module list \<Rightarrow> rt_domain \<Rightarrow> 'w \<Rightarrow>
     gerror option \<times> rt_domain \<times> 'w" where
  "recreate_readers ports affected containers [] d w = (None, d, w)"
| "recreate_readers ports affected containers (m # ms) d w =
     (if \<not> contains_str affected (rm_name m) \<or> \<not> reads_running containers m
      then recreate_readers ports affected containers ms d w
      else case recreate_one ports m d w of
          (Some e, d', w') \<Rightarrow> (Some e, d', w')
        | (None, d', w') \<Rightarrow> recreate_readers ports affected containers ms d' w')"

definition recreate ::
    "'w rt_ports \<Rightarrow> string list \<Rightarrow> rt_domain \<Rightarrow> 'w \<Rightarrow> gerror option \<times> rt_domain \<times> 'w" where
  "recreate ports affected d w =
     (case mark_readers ports affected inventory d w of
        (Some e, d1, w1) \<Rightarrow> (Some e, d1, w1)
      | (None, d1, w1) \<Rightarrow>
          (case rp_status ports w1 of
             (Inl e, w2) \<Rightarrow> (Some e, d1, w2)
           | (Inr containers, w2) \<Rightarrow> recreate_readers ports affected containers inventory d1 w2))"

definition apply_settings ::
    "'w settings_ports \<Rightarrow> 'w settings_store \<Rightarrow> variables \<Rightarrow> string list \<Rightarrow> settings_state \<Rightarrow> 'w \<Rightarrow> settings_state \<times> 'w" where
  "apply_settings ports store vars affected st w =
     (case sg_write store vars w of
        (Some e, w1) \<Rightarrow> (set_busy False (st\<lparr>ss_error := err_text e\<rparr>), w1)
      | (None, w1) \<Rightarrow>
          (case recreate (sp_runtime ports) affected (ss_domain st) w1 of
             (err, d, w2) \<Rightarrow>
               (set_busy False (st\<lparr>ss_domain := d, ss_error := (case err of None \<Rightarrow> ss_error st | Some e \<Rightarrow> err_text e)\<rparr>), w2)))"

subsection \<open>Importing\<close>

definition import_setting :: "rt_setting \<Rightarrow> variables \<Rightarrow> string res" where
  "import_setting s env =
     (let raw = setting env (st_env s)
      in if raw = [] then Inr []
         else case st_parse s raw of
             Inl e \<Rightarrow> Inl (Errorf (''invalid legacy setting '' @ st_id s))
           | Inr v \<Rightarrow>
               if st_read_only s \<and> v \<noteq> st_default s
               then Inl (Errorf (''legacy '' @ st_id s @ '' differs from the approved fixed profile''))
               else Inr v)"

fun import_each :: "rt_setting list \<Rightarrow> variables \<Rightarrow> variables \<Rightarrow> variables res" where
  "import_each [] env vars = Inr vars"
| "import_each (s # ss) env vars =
     (case import_setting s env of
        Inl e \<Rightarrow> Inl e
      | Inr v \<Rightarrow> import_each ss env (vars(st_id s \<mapsto> v)))"

definition import_settings :: "variables \<Rightarrow> variables res" where
  "import_settings env = import_each settings_catalog env Map.empty"

fun add_settings :: "rt_setting list \<Rightarrow> variables \<Rightarrow> variables \<Rightarrow> variables \<Rightarrow> bool \<Rightarrow> (variables \<times> bool) res" where
  "add_settings [] stored env merged added = Inr (merged, added)"
| "add_settings (s # ss) stored env merged added =
     (if stored (st_id s) \<noteq> None then add_settings ss stored env merged added
      else case import_setting s env of
          Inl e \<Rightarrow> Inl e
        | Inr v \<Rightarrow> add_settings ss stored env (merged(st_id s \<mapsto> v)) True)"

definition new_settings :: "variables \<Rightarrow> variables \<Rightarrow> (variables \<times> bool) res" where
  "new_settings stored env = add_settings settings_catalog stored env stored False"

definition stored_variable :: "variables \<Rightarrow> rt_setting \<Rightarrow> string res" where
  "stored_variable vars s =
     (let raw = setting vars (st_id s)
      in case (if raw = [] then Inr raw else st_parse s raw) of
           Inl e \<Rightarrow> Inl (Errorf (''invalid stored setting '' @ st_id s))
         | Inr v \<Rightarrow>
             if st_read_only s \<and> v \<noteq> [] \<and> v \<noteq> st_default s
             then Inl (Errorf (''stored '' @ st_id s @ '' differs from the approved fixed profile''))
             else Inr v)"

fun variables_each :: "rt_setting list \<Rightarrow> variables \<Rightarrow> variables \<Rightarrow> variables res" where
  "variables_each [] vars env = Inr env"
| "variables_each (s # ss) vars env =
     (case stored_variable vars s of
        Inl e \<Rightarrow> Inl e
      | Inr v \<Rightarrow> variables_each ss vars (env(st_env s \<mapsto> v)))"

definition settings_variables :: "string list \<Rightarrow> variables \<Rightarrow> variables res" where
  "settings_variables keys vars =
     (if \<not> list_all (\<lambda>i. lookup_setting i \<noteq> None) keys then Inl (Errorf ''unknown stored setting'')
      else variables_each settings_catalog vars Map.empty)"

subsection \<open>What a parser accepts it accepts again\<close>

text \<open>An entry of a list: plain text without a comma, not empty, and its own parse.\<close>

definition entry_char :: "char \<Rightarrow> bool" where
  "entry_char c \<longleftrightarrow> plain c \<and> c \<noteq> CHR '',''"

definition entry_kept :: "parser \<Rightarrow> bool" where
  "entry_kept p \<longleftrightarrow>
     (\<forall>raw item. p raw = Inr item \<longrightarrow> item \<noteq> [] \<and> list_all entry_char item \<and> p item = Inr item)"

definition kept :: "parser \<Rightarrow> bool" where
  "kept p \<longleftrightarrow> (\<forall>raw v. p raw = Inr v \<longrightarrow> v \<noteq> [] \<longrightarrow> p v = Inr v)"

lemma entry_keptD:
  "entry_kept p \<Longrightarrow> p raw = Inr item \<Longrightarrow> item \<noteq> [] \<and> list_all entry_char item \<and> p item = Inr item"
  by (simp add: entry_kept_def)

lemma entry_plain: "list_all entry_char s \<Longrightarrow> list_all plain s"
  by (simp add: list_all_iff entry_char_def)

lemma entry_trim: "entry_kept p \<Longrightarrow> p raw = Inr item \<Longrightarrow> trim_space item = item"
  using entry_keptD entry_plain by (intro plain_trim) blast

text \<open>A checked text of entry characters.\<close>

lemma checked_kept:
  assumes "\<And>s. ok s \<Longrightarrow> s \<noteq> [] \<and> list_all entry_char s"
  shows "entry_kept (checked ok msg)"
  using assms by (auto simp: entry_kept_def checked_def split: if_splits)

lemma class_entry:
  "matches_class cls lo hi s \<Longrightarrow> (\<And>c. cls c \<Longrightarrow> entry_char c) \<Longrightarrow> 0 < lo \<Longrightarrow> s \<noteq> [] \<and> list_all entry_char s"
  by (auto simp: matches_class_def list_all_iff)

lemma digit_entry: "digit c \<Longrightarrow> entry_char c"
  by (auto simp: digit_def entry_char_def plain_def)

lemma lower_alnum_entry: "lower_alnum c \<Longrightarrow> entry_char c \<and> c \<noteq> CHR ''=''"
  by (auto simp: lower_alnum_def digit_def plain_def entry_char_def)

lemma mark_entry: "c \<in> set ''_-'' \<Longrightarrow> entry_char c \<and> c \<noteq> CHR ''=''"
  by (auto simp: plain_def entry_char_def)

lemma channel_kept: "entry_kept channel"
  unfolding channel_def channel_id_def by (rule checked_kept) (elim class_entry digit_entry, simp)

lemma feed_source_kept: "entry_kept feed_source"
  unfolding feed_source_def feed_plugin_def
  by (rule checked_kept) (elim class_entry, use lower_alnum_entry mark_entry in blast, simp)

lemma phone_number_kept: "entry_kept phone_number"
  unfolding entry_kept_def
proof (intro allI impI)
  fix raw item
  assume "phone_number raw = Inr item"
  then have p: "phone_pattern item" by (auto simp: phone_number_def Let_def split: if_splits)
  then have d: "\<forall>c \<in> set item. digit c" by (simp add: phone_pattern_def matches_class_def list_all_iff)
  have "digit c \<Longrightarrow> c \<notin> set phone_marks" for c by (auto simp: digit_def phone_marks_def)
  then have f: "filter (\<lambda>c. c \<notin> set phone_marks) item = item" using d by (intro filter_True) blast
  have "item \<noteq> [] \<and> list_all entry_char item"
    using p unfolding phone_pattern_def by (rule class_entry) (simp_all add: digit_entry)
  then show "item \<noteq> [] \<and> list_all entry_char item \<and> phone_number item = Inr item"
    by (simp add: phone_number_def f p)
qed

lemma split_on_set: "c \<in> set s \<Longrightarrow> c = sep \<or> (\<exists>p \<in> set (split_on sep s). c \<in> set p)"
proof (induction s)
  case (Cons d s)
  obtain p ps where "split_on sep s = p # ps" using split_on_nonempty by (metis neq_Nil_conv)
  then show ?case using Cons by auto
qed simp

lemma whatsapp_group_text:
  assumes "whatsapp_group s"
  shows "s \<noteq> [] \<and> list_all entry_char s"
proof -
  obtain t where s: "s = t @ ''@g.us''" using assms by (auto simp: whatsapp_group_def suffix_def)
  have "suffix ''@g.us'' (t @ ''@g.us'')" by (auto simp: suffix_def)
  then have "trim_suffix s ''@g.us'' = t" by (simp add: trim_suffix_def s)
  then have parts: "\<forall>part \<in> set (split_on CHR ''-'' t). list_all digit part"
    using assms by (auto simp: whatsapp_group_def list_all_iff)
  have "entry_char c" if "c \<in> set t" for c
    using split_on_set [OF that, of "CHR ''-''"] parts digit_entry mark_entry by (auto simp: list_all_iff)
  then show ?thesis unfolding s by (auto simp: list_all_iff entry_char_def plain_def)
qed

lemma group_kept: "entry_kept whatsapp_group_id"
  unfolding whatsapp_group_id_def by (rule checked_kept) (rule whatsapp_group_text)

lemma alias_name_text: "alias_name s \<Longrightarrow> s \<noteq> [] \<and> list_all entry_char s \<and> CHR ''='' \<notin> set s"
proof -
  assume a: "alias_name s"
  then have "s \<noteq> []" "\<forall>c \<in> set s. lower_alnum c \<or> c \<in> set ''_-''"
    unfolding alias_name_def matches_name_def matches_class_def list_all_iff by (auto split: list.splits)
  then show ?thesis using lower_alnum_entry mark_entry unfolding list_all_iff by blast
qed

lemma stored_conversation_parts:
  assumes "conversation_entry raw = Inr item"
  obtains nm target where "alias_name nm" "item = nm @ ''='' @ target" "list_all entry_char target"
    "whatsapp_group target \<or> \<not> whatsapp_group target \<and> phone_number target = Inr target"
proof -
  obtain l r found where c: "cut_at CHR ''='' raw = (l, r, found)" by (metis surj_pair)
  define nm target where "nm = trim_space l" and "target = trim_space r"
  have a: "alias_name nm"
    using assms by (simp add: conversation_entry_def c Let_def nm_def split: if_splits)
  show thesis
  proof (cases "whatsapp_group target")
    case True
    then show thesis
      using assms a whatsapp_group_text [OF True]
      by (intro that [of nm target]) (simp_all add: conversation_entry_def c Let_def nm_def target_def split: if_splits)
  next
    case False
    then obtain number where n: "phone_number target = Inr number" "item = nm @ ''='' @ number"
      using assms by (auto simp: conversation_entry_def c Let_def nm_def target_def split: if_splits sum.splits)
    note k = entry_keptD [OF phone_number_kept n(1)]
    show thesis
    proof (cases "whatsapp_group number")
      case True
      then show thesis using that [OF a n(2)] k by blast
    next
      case False
      then show thesis using that [OF a n(2)] k by blast
    qed
  qed
qed

lemma conversation_kept: "entry_kept conversation_entry"
  unfolding entry_kept_def
proof (intro allI impI)
  fix raw item
  assume "conversation_entry raw = Inr item"
  then obtain nm target where nm: "alias_name nm" and item: "item = nm @ ''='' @ target" and te: "list_all entry_char target"
    and t: "whatsapp_group target \<or> \<not> whatsapp_group target \<and> phone_number target = Inr target"
    by (rule stored_conversation_parts)
  note al = alias_name_text [OF nm]
  have "cut_at CHR ''='' item = (nm, target, True)"
    using cut_at_append [of "CHR ''=''" nm target] al by (simp add: item)
  moreover have "trim_space nm = nm" "trim_space target = target"
    using al te entry_plain by (auto intro: plain_trim)
  ultimately have "conversation_entry item = Inr item"
    using nm t by (auto simp: conversation_entry_def Let_def item)
  moreover have "entry_char CHR ''=''" by (simp add: entry_char_def plain_def)
  ultimately show "item \<noteq> [] \<and> list_all entry_char item \<and> conversation_entry item = Inr item"
    using al te by (simp add: item)
qed

lemma list_entries_one:
  "trim_space raw \<noteq> [] \<Longrightarrow> entry (trim_space raw) = Inr x \<Longrightarrow>
   list_entries entry i out (raw # rest) = list_entries entry (Suc i) (if contains_str out x then out else out @ [x]) rest"
  by (simp add: Let_def)

lemma list_entries_keep:
  "list_entries entry i out raws = Inr items \<Longrightarrow> distinct out \<Longrightarrow> \<forall>x \<in> set out. \<exists>raw. entry raw = Inr x \<Longrightarrow>
   distinct items \<and> (\<forall>x \<in> set items. \<exists>raw. entry raw = Inr x)"
proof (induction raws arbitrary: i out)
  case (Cons raw rest)
  show ?case
  proof (cases "trim_space raw = []")
    case True
    then show ?thesis using Cons by simp
  next
    case False
    show ?thesis
    proof (cases "entry (trim_space raw)")
      case (Inl e)
      then show ?thesis using Cons.prems(1) False by simp
    next
      case (Inr x)
      let ?out = "if contains_str out x then out else out @ [x]"
      have "list_entries entry (Suc i) ?out rest = Inr items"
        using Cons.prems(1) unfolding list_entries_one [where entry = entry and raw = raw, OF False Inr] .
      moreover have "\<forall>y \<in> set ?out. \<exists>raw. entry raw = Inr y" "distinct ?out"
        using Cons.prems(2,3) Inr by (cases "contains_str out x"; auto)+
      ultimately show ?thesis using Cons.IH by blast
    qed
  qed
qed simp

lemma list_entries_again:
  assumes "entry_kept entry"
  shows "distinct (out @ items) \<Longrightarrow> \<forall>x \<in> set items. \<exists>raw. entry raw = Inr x \<Longrightarrow>
    list_entries entry i out items = Inr (out @ items)"
proof (induction items arbitrary: i out)
  case (Cons x xs)
  then obtain raw where "entry raw = Inr x" by auto
  then have x: "trim_space x = x" "x \<noteq> []" "entry x = Inr x"
    using entry_trim [OF assms] entry_keptD [OF assms] by auto
  have "x \<notin> set out" "distinct ((out @ [x]) @ xs)" using Cons.prems(1) by auto
  then show ?case using Cons.IH [of "out @ [x]" "Suc i"] Cons.prems(2) x by (simp add: Let_def)
qed simp

lemma list_of_kept:
  assumes "entry_kept entry"
  shows "kept (list_of entry)"
  unfolding kept_def
proof (intro allI impI)
  fix raw v
  assume "list_of entry raw = Inr v" and "v \<noteq> []"
  then obtain items where i: "list_entries entry 0 [] (split_on CHR '','' raw) = Inr items" "v = join_with '','' items"
    by (auto simp: list_of_def split: sum.splits)
  have k: "distinct items" "\<forall>x \<in> set items. \<exists>raw. entry raw = Inr x"
    using list_entries_keep [OF i(1)] by auto
  have "items \<noteq> []" using i(2) \<open>v \<noteq> []\<close> by auto
  moreover have "CHR '','' \<notin> set x" if "x \<in> set items" for x
    using k(2) that entry_keptD [OF assms] by (fastforce simp: list_all_iff entry_char_def)
  then have "list_all (\<lambda>p. CHR '','' \<notin> set p) items" by (simp add: list_all_iff)
  ultimately have "split_on CHR '','' v = items" unfolding i(2) by (rule split_on_joined)
  then show "list_of entry v = Inr v"
    using list_entries_again [OF assms, of "[]" items] k i(2) by (simp add: list_of_def)
qed

lemma conversations_kept: "kept conversations"
  unfolding kept_def
proof (intro allI impI)
  fix raw v
  assume c: "conversations raw = Inr v" and "v \<noteq> []"
  then have l: "list_of conversation_entry raw = Inr v" and r: "\<not> repeats [] [] (split_on CHR '','' v)"
    by (auto simp: conversations_def split: sum.splits if_splits)
  have "list_of conversation_entry v = Inr v"
    using list_of_kept [OF conversation_kept] l \<open>v \<noteq> []\<close> by (simp add: kept_def)
  then show "conversations v = Inr v" using r by (simp add: conversations_def)
qed

lemma model_kept: "kept model_setting"
  by (auto simp: kept_def model_setting_def Let_def split: if_splits)

lemma whole_number_kept: "kept whole_number"
  by (auto simp: kept_def whole_number_def Let_def split: if_splits)

lemma one_of_kept: "kept (one_of options)"
  by (auto simp: kept_def one_of_def Let_def split: if_splits)

lemma digit_is_dec: "digit = is_dec"
  by (simp add: fun_eq_iff digit_def is_dec_def)

lemma digits_value_read: "digits_value s = int (read_nat s)" if "list_all digit s"
  using that
proof (induction s rule: rev_induct)
  case (snoc c s)
  then show ?case by (simp add: digits_value_def read_nat_def digit_val_def digit_def of_nat_diff)
qed (simp add: digits_value_def read_nat_def)

lemma atoi_show: "n < 2 ^ 63 \<Longrightarrow> atoi (show_nat n) = Some (int n)"
proof -
  assume n: "n < 2 ^ 63"
  have d: "list_all digit (show_nat n)" using dec_show by (simp add: digit_is_dec)
  obtain c cs where s: "show_nat n = c # cs" using show_nonempty [of n] by (metis neq_Nil_conv)
  have "c \<noteq> CHR ''-''" "c \<noteq> CHR ''+''" using d by (auto simp: s digit_def)
  moreover have "digits_value (show_nat n) = int n" using digits_value_read [OF d] by simp
  moreover have "int n < 2 ^ 63" using n by (metis of_nat_less_iff of_nat_numeral of_nat_power)
  ultimately show ?thesis using d unfolding s by (simp add: atoi_def)
qed

lemma pdf_limit_kept: "kept pdf_limit"
  unfolding kept_def
proof (intro allI impI)
  fix raw v
  assume "pdf_limit raw = Inr v" and "v \<noteq> []"
  then obtain n where n: "\<not> n < 1" "\<not> 100 < n" "v = show_nat (nat n)"
    by (auto simp: pdf_limit_def Let_def split: if_splits option.splits)
  have "list_all plain (show_nat (nat n))"
    using dec_show [of "nat n"] digit_plain by (auto simp: list_all_iff digit_is_dec)
  then have t: "trim_space v = v" unfolding n(3) by (rule plain_trim)
  have "nat n \<le> 100" using n(2) by linarith
  then have "nat n < 2 ^ 63" by (rule order_le_less_trans) simp
  then have "atoi v = Some (int (nat n))" unfolding n(3) by (rule atoi_show)
  then have "atoi v = Some n" using n(1) by simp
  then show "pdf_limit v = Inr v"
    using n t \<open>v \<noteq> []\<close> by (simp add: pdf_limit_def)
qed

lemma catalog_kept: "s \<in> set settings_catalog \<Longrightarrow> kept (st_parse s)"
  by (auto simp: settings_catalog_def entry_of_def list_of_kept channel_kept phone_number_kept group_kept feed_source_kept
      conversations_kept model_kept whole_number_kept one_of_kept pdf_limit_kept)

lemma catalog_keys:
  "distinct (map st_id settings_catalog)" "distinct (map st_env settings_catalog)"
  by (simp_all add: settings_catalog_def entry_of_def)

lemma catalog_default: "s \<in> set settings_catalog \<Longrightarrow> st_read_only s \<Longrightarrow> st_default s \<noteq> []"
  by (auto simp: settings_catalog_def entry_of_def)

lemma lookup_settingD: "lookup_setting i = Some s \<Longrightarrow> s \<in> set settings_catalog \<and> st_id s = i"
  by (auto simp: lookup_setting_def find_Some_iff in_set_conv_nth)

lemma find_by_key: "distinct (map f xs) \<Longrightarrow> x \<in> set xs \<Longrightarrow> find (\<lambda>y. f y = f x) xs = Some x"
  by (induction xs) auto

lemma lookup_catalog: "s \<in> set settings_catalog \<Longrightarrow> lookup_setting (st_id s) = Some s"
  unfolding lookup_setting_def by (rule find_by_key [OF catalog_keys(1)])

subsection \<open>What is stored\<close>

lemma stored_kept:
  assumes "import_setting s env = Inr v" and "s \<in> set settings_catalog" and "setting vars (st_id s) = v"
  shows "stored_variable vars s = Inr v"
proof (cases "v = []")
  case True
  then show ?thesis using assms(3) by (simp add: stored_variable_def)
next
  case False
  then have "st_parse s (setting env (st_env s)) = Inr v" "st_read_only s \<longrightarrow> v = st_default s"
    using assms(1) by (auto simp: import_setting_def Let_def split: if_splits sum.splits)
  then have "st_parse s v = Inr v" using catalog_kept [OF assms(2)] False unfolding kept_def by blast
  then show ?thesis
    using assms(3) False \<open>st_read_only s \<longrightarrow> v = st_default s\<close> by (simp add: stored_variable_def)
qed

lemma import_each_rows:
  "import_each ss env vars = Inr out \<Longrightarrow> distinct (map st_id ss) \<Longrightarrow>
   (\<forall>s \<in> set ss. import_setting s env = Inr (setting out (st_id s)) \<and> out (st_id s) \<noteq> None) \<and>
   (\<forall>i. i \<notin> st_id ` set ss \<longrightarrow> out i = vars i)"
proof (induction ss arbitrary: vars)
  case (Cons s ss)
  then obtain v where v: "import_setting s env = Inr v" "import_each ss env (vars(st_id s \<mapsto> v)) = Inr out"
    by (auto split: sum.splits)
  have "st_id s \<notin> st_id ` set ss" using Cons.prems(2) by auto
  then show ?case using Cons.IH [OF v(2)] Cons.prems(2) v(1) by (auto simp: setting_def)
qed simp

lemma variables_each_rows:
  "\<forall>s \<in> set ss. stored_variable vars s = Inr (f s) \<Longrightarrow> distinct (map st_env ss) \<Longrightarrow>
   \<exists>out. variables_each ss vars env = Inr out \<and> (\<forall>s \<in> set ss. out (st_env s) = Some (f s)) \<and>
     (\<forall>e. e \<notin> st_env ` set ss \<longrightarrow> out e = env e)"
proof (induction ss arbitrary: env)
  case (Cons s ss)
  have v: "stored_variable vars s = Inr (f s)" and new: "st_env s \<notin> st_env ` set ss" using Cons.prems by auto
  obtain out where out: "variables_each ss vars (env(st_env s \<mapsto> f s)) = Inr out"
    "\<forall>s \<in> set ss. out (st_env s) = Some (f s)" "\<forall>e. e \<notin> st_env ` set ss \<longrightarrow> out e = (env(st_env s \<mapsto> f s)) e"
    using Cons.IH [of "env(st_env s \<mapsto> f s)"] Cons.prems by (auto simp del: fun_upd_apply)
  then have "out (st_env s) = Some (f s)" using new by simp
  then show ?case using out v by (intro exI [of _ out]) auto
qed simp

lemma add_settings_rows:
  "add_settings ss stored env merged added = Inr (out, added') \<Longrightarrow> distinct (map st_id ss) \<Longrightarrow>
   (\<forall>s \<in> set ss. stored (st_id s) = None \<longrightarrow> import_setting s env = Inr (setting out (st_id s)) \<and> out (st_id s) \<noteq> None) \<and>
   (\<forall>i. i \<notin> st_id ` set ss \<or> stored i \<noteq> None \<longrightarrow> out i = merged i) \<and>
   added' = (added \<or> (\<exists>s \<in> set ss. stored (st_id s) = None))"
proof (induction ss arbitrary: merged added)
  case (Cons s ss)
  show ?case
  proof (cases "stored (st_id s)")
    case (Some x)
    then have "add_settings ss stored env merged added = Inr (out, added')" using Cons.prems(1) by simp
    then show ?thesis using Cons.IH [of merged added] Cons.prems(2) Some by auto
  next
    case None
    then obtain v where v: "import_setting s env = Inr v"
      "add_settings ss stored env (merged(st_id s \<mapsto> v)) True = Inr (out, added')"
      using Cons.prems(1) by (auto split: sum.splits)
    have new: "st_id s \<notin> st_id ` set ss" using Cons.prems(2) by auto
    have ih: "(\<forall>s \<in> set ss. stored (st_id s) = None \<longrightarrow> import_setting s env = Inr (setting out (st_id s)) \<and> out (st_id s) \<noteq> None) \<and>
       (\<forall>i. i \<notin> st_id ` set ss \<or> stored i \<noteq> None \<longrightarrow> out i = (merged(st_id s \<mapsto> v)) i) \<and> added'"
      using Cons.IH [OF v(2)] Cons.prems(2) by simp
    then have o: "out (st_id s) = Some v" using new by simp
    have "out i = merged i" if "i \<notin> st_id ` set (s # ss) \<or> stored i \<noteq> None" for i
      using ih that None by (cases "i = st_id s") auto
    then show ?thesis using ih None v(1) o by (auto simp: setting_def)
  qed
qed auto

text \<open>
  What was imported from the legacy environment is stored as the stack takes it: the stored values
  of the whole catalog pass the second check, each under its variable and unchanged, so a setting that
  was accepted once is never refused or altered when the stack is composed.
\<close>

theorem imported_settings_are_kept:
  "case import_settings env of
     Inl e \<Rightarrow> (\<exists>s \<in> set settings_catalog. \<exists>e'. import_setting s env = Inl e' \<and> e = e')
   | Inr vars \<Rightarrow> \<exists>out. settings_variables (map st_id settings_catalog) vars = Inr out \<and>
       (\<forall>s \<in> set settings_catalog. out (st_env s) = vars (st_id s) \<and> import_setting s env = Inr (setting vars (st_id s)))"
proof (cases "import_settings env")
  case (Inl e)
  have "import_each ss env vars = Inl e \<Longrightarrow> \<exists>s \<in> set ss. import_setting s env = Inl e" for ss vars
    by (induction ss arbitrary: vars) (auto split: sum.splits)
  then show ?thesis using Inl unfolding import_settings_def by fastforce
next
  case (Inr vars)
  note rows = import_each_rows [OF Inr [unfolded import_settings_def] catalog_keys(1)]
  have "\<forall>s \<in> set settings_catalog. stored_variable vars s = Inr (setting vars (st_id s))"
    using rows stored_kept by blast
  from variables_each_rows [OF this catalog_keys(2), of Map.empty]
  obtain out where out: "variables_each settings_catalog vars Map.empty = Inr out"
    "\<forall>s \<in> set settings_catalog. out (st_env s) = Some (setting vars (st_id s))" by blast
  have "list_all (\<lambda>i. lookup_setting i \<noteq> None) (map st_id settings_catalog)"
    using lookup_catalog by (auto simp: list_all_iff)
  then have "settings_variables (map st_id settings_catalog) vars = Inr out" by (simp add: settings_variables_def out(1))
  moreover have "out (st_env s) = vars (st_id s)" if "s \<in> set settings_catalog" for s
    using out(2) rows that by (auto simp: setting_def)
  ultimately show ?thesis using Inr rows by auto
qed

text \<open>
  The environment decides a setting once.  Adding the settings a stored configuration lacks keeps
  every stored value, gives each missing setting of the catalog the checked value of its variable, says
  whether anything was added, and done again, with any environment, it adds nothing.
\<close>

theorem stored_settings_win:
  "case new_settings stored env of
     Inl e \<Rightarrow> True
   | Inr (merged, added) \<Rightarrow>
       (\<forall>i v. stored i = Some v \<longrightarrow> merged i = Some v) \<and>
       (\<forall>s \<in> set settings_catalog. stored (st_id s) = None \<longrightarrow>
          merged (st_id s) \<noteq> None \<and> import_setting s env = Inr (setting merged (st_id s))) \<and>
       added = (\<exists>s \<in> set settings_catalog. stored (st_id s) = None) \<and>
       new_settings merged env' = Inr (merged, False)"
proof (cases "new_settings stored env")
  case (Inr r)
  obtain merged added where r: "r = (merged, added)" by force
  note rows = add_settings_rows [OF Inr [unfolded new_settings_def r] catalog_keys(1)]
  have k: "merged i = Some v" if "stored i = Some v" for i v
  proof -
    have "merged i = stored i" using rows that by blast
    then show ?thesis using that by simp
  qed
  have full: "merged (st_id s) \<noteq> None" if "s \<in> set settings_catalog" for s
    using rows k that by (cases "stored (st_id s)") auto
  have skip: "add_settings ss merged env' m a = Inr (m, a)" if "\<forall>s \<in> set ss. merged (st_id s) \<noteq> None" for ss m a
    using that by (induction ss) auto
  then have "new_settings merged env' = Inr (merged, False)" using full by (simp add: new_settings_def)
  moreover have "added = (\<exists>s \<in> set settings_catalog. stored (st_id s) = None)" using rows by simp
  ultimately show ?thesis using rows k unfolding Inr r by simp
qed simp

subsection \<open>A change is checked before it is written\<close>

text \<open>
  What a change asks for: known settings that may change, each with a value that parses; the variables written are
  exactly the parsed values, each under the variable of its setting, and the modules affected exactly the readers of the
  changed settings.  The source's map of changes has each setting once, the list of the model may repeat one, and then
  each variable written is one of its values.
\<close>

definition changes_checked :: "(string \<times> string) list \<Rightarrow> variables \<Rightarrow> string list \<Rightarrow> bool" where
  "changes_checked changes vars affected \<longleftrightarrow>
     (\<forall>(i, raw) \<in> set changes. \<exists>s \<in> set settings_catalog. st_id s = i \<and> \<not> st_read_only s \<and>
        (\<exists>v. st_parse s raw = Inr v \<and> (distinct (map fst changes) \<longrightarrow> vars (st_env s) = Some v))) \<and>
     (\<forall>env v. vars env = Some v \<longrightarrow>
        (\<exists>(i, raw) \<in> set changes. \<exists>s \<in> set settings_catalog. st_id s = i \<and> st_env s = env \<and> st_parse s raw = Inr v)) \<and>
     set affected = (\<Union>s \<in> {s \<in> set settings_catalog. st_id s \<in> fst ` set changes}. set (st_affects s))"

text \<open>The configuration WhatsApp would be started with answers its own chat, or some person, or some group.\<close>

definition answers_somebody :: "variables \<Rightarrow> variables \<Rightarrow> bool" where
  "answers_somebody vars current \<longleftrightarrow>
     (let read = (\<lambda>env. case vars env of Some v \<Rightarrow> v | None \<Rightarrow> (case current env of Some v \<Rightarrow> v | None \<Rightarrow> []))
      in read ''DOKJA_WHATSAPP_SELF_CHAT'' \<noteq> ''false'' \<or> read ''DOKJA_WHATSAPP_ALLOW_FROM'' \<noteq> [] \<or>
         read ''DOKJA_WHATSAPP_ALLOWED_GROUPS'' \<noteq> [])"

lemma answers_somebody_iff: "answers_somebody vars current \<longleftrightarrow> \<not> answers_nobody (merged_variable vars current)"
proof -
  have read: "merged_variable vars current env =
      (case vars env of Some v \<Rightarrow> v | None \<Rightarrow> (case current env of Some v \<Rightarrow> v | None \<Rightarrow> []))" for env
    by (cases "vars env") (simp_all add: merged_variable_def setting_def)
  show ?thesis unfolding answers_somebody_def answers_nobody_def read Let_def by blast
qed

lemma by_id: "s \<in> set settings_catalog \<Longrightarrow> t \<in> set settings_catalog \<Longrightarrow> st_id s = st_id t \<longleftrightarrow> s = t"
  using catalog_keys(1) by (auto simp: distinct_map dest: inj_onD)

lemma by_env: "s \<in> set settings_catalog \<Longrightarrow> t \<in> set settings_catalog \<Longrightarrow> st_env s = st_env t \<longleftrightarrow> s = t"
  using catalog_keys(2) by (auto simp: distinct_map dest: inj_onD)

lemma check_changes_step:
  assumes "check_changes ((i, raw) # changes) vars affected = Inr r"
  obtains s v where "s \<in> set settings_catalog" "st_id s = i" "\<not> st_read_only s" "st_parse s raw = Inr v"
    "check_changes changes (vars(st_env s \<mapsto> v)) (st_affects s @ affected) = Inr r"
  using assms lookup_settingD by (auto split: option.splits if_splits sum.splits)

lemma check_changes_unnamed:
  "check_changes changes vars affected = Inr (vars', affected') \<Longrightarrow> t \<in> set settings_catalog \<Longrightarrow>
   st_id t \<notin> fst ` set changes \<Longrightarrow> vars' (st_env t) = vars (st_env t)"
proof (induction changes arbitrary: vars affected)
  case (Cons c changes)
  obtain i raw where c: "c = (i, raw)" by force
  from Cons.prems(1)[unfolded c] obtain s v where s: "s \<in> set settings_catalog" "st_id s = i"
    "check_changes changes (vars(st_env s \<mapsto> v)) (st_affects s @ affected) = Inr (vars', affected')"
    by (rule check_changes_step)
  have "vars' (st_env t) = (vars(st_env s \<mapsto> v)) (st_env t)" using Cons.IH [OF s(3)] Cons.prems(2,3) by simp
  moreover have "st_env t \<noteq> st_env s" using by_env Cons.prems(2,3) s(1,2) c by auto
  ultimately show ?case by simp
qed simp

lemma check_changes_named:
  "check_changes changes vars affected = Inr (vars', affected') \<Longrightarrow> (i, raw) \<in> set changes \<Longrightarrow>
   \<exists>s \<in> set settings_catalog. st_id s = i \<and> \<not> st_read_only s \<and>
     (\<exists>v. st_parse s raw = Inr v \<and> (distinct (map fst changes) \<longrightarrow> vars' (st_env s) = Some v))"
proof (induction changes arbitrary: vars affected)
  case (Cons c changes)
  obtain j r where c: "c = (j, r)" by force
  from Cons.prems(1)[unfolded c] obtain s v where s: "s \<in> set settings_catalog" "st_id s = j" "\<not> st_read_only s"
    "st_parse s r = Inr v" "check_changes changes (vars(st_env s \<mapsto> v)) (st_affects s @ affected) = Inr (vars', affected')"
    by (rule check_changes_step)
  show ?case
  proof (cases "(i, raw) = c")
    case True
    have "vars' (st_env s) = Some v" if "distinct (map fst (c # changes))"
      using check_changes_unnamed [OF s(5,1)] that c s(2) by simp
    then show ?thesis using s c True by auto
  next
    case False
    then have "(i, raw) \<in> set changes" using Cons.prems(2) by auto
    from Cons.IH [OF s(5) this] show ?thesis by auto
  qed
qed simp

lemma check_changes_written:
  "check_changes changes vars affected = Inr (vars', affected') \<Longrightarrow> vars' env = Some v \<Longrightarrow>
   vars env = Some v \<or>
   (\<exists>(i, raw) \<in> set changes. \<exists>s \<in> set settings_catalog. st_id s = i \<and> st_env s = env \<and> st_parse s raw = Inr v)"
proof (induction changes arbitrary: vars affected)
  case (Cons c changes)
  obtain i raw where c: "c = (i, raw)" by force
  from Cons.prems(1)[unfolded c] obtain s x where s: "s \<in> set settings_catalog" "st_id s = i" "st_parse s raw = Inr x"
    "check_changes changes (vars(st_env s \<mapsto> x)) (st_affects s @ affected) = Inr (vars', affected')"
    by (rule check_changes_step)
  from Cons.IH [OF s(4) Cons.prems(2)] show ?case using s(1-3) c by (auto split: if_splits)
qed simp

lemma check_changes_affected:
  "check_changes changes vars affected = Inr (vars', affected') \<Longrightarrow>
   set affected' = set affected \<union> (\<Union>s \<in> {s \<in> set settings_catalog. st_id s \<in> fst ` set changes}. set (st_affects s))"
proof (induction changes arbitrary: vars affected)
  case (Cons c changes)
  obtain i raw where c: "c = (i, raw)" by force
  from Cons.prems(1)[unfolded c] obtain s x where s: "s \<in> set settings_catalog" "st_id s = i"
    "check_changes changes (vars(st_env s \<mapsto> x)) (st_affects s @ affected) = Inr (vars', affected')"
    by (rule check_changes_step)
  have "{t \<in> set settings_catalog. st_id t \<in> fst ` set (c # changes)} =
      insert s {t \<in> set settings_catalog. st_id t \<in> fst ` set changes}"
    using s(1,2) by_id [OF _ s(1)] c by auto
  then show ?case using Cons.IH [OF s(3)] by auto
qed simp

lemma check_changes_checked:
  assumes "check_changes changes Map.empty [] = Inr (vars, affected)"
  shows "changes_checked changes vars affected"
  unfolding changes_checked_def
proof (intro conjI)
  show "\<forall>(i, raw) \<in> set changes. \<exists>s \<in> set settings_catalog. st_id s = i \<and> \<not> st_read_only s \<and>
      (\<exists>v. st_parse s raw = Inr v \<and> (distinct (map fst changes) \<longrightarrow> vars (st_env s) = Some v))"
    using check_changes_named [OF assms] by blast
  show "\<forall>env v. vars env = Some v \<longrightarrow>
      (\<exists>(i, raw) \<in> set changes. \<exists>s \<in> set settings_catalog. st_id s = i \<and> st_env s = env \<and> st_parse s raw = Inr v)"
    using check_changes_written [OF assms] by simp
  show "set affected = (\<Union>s \<in> {s \<in> set settings_catalog. st_id s \<in> fst ` set changes}. set (st_affects s))"
    using check_changes_affected [OF assms] by simp
qed

lemma set_busy_back: "\<not> rd_busy (ss_domain st) \<Longrightarrow> set_busy False (set_busy True st) = st"
  by (cases st) (simp add: set_busy_def)

text \<open>
  C10.  A change of settings is all or nothing.  When it is refused nothing is started and the state is
  as it was.  When it is accepted the controller was not busy and now is; every change names a setting
  of the catalog that may change, with a value its parser accepts; what will be written is exactly the
  parsed values, each under the variable of its setting and nothing else (a map of changes has each
  setting once); the modules handed on to be recreated are exactly those the catalog names as readers of a
  changed setting; and in the variables as they would stand, the new ones over the stored ones, WhatsApp
  answers its own chat or a person or a group.
\<close>

theorem settings_change_is_checked:
  "case set_settings ports changes st w of
     (Inl e, started, st', w') \<Rightarrow> started = None \<and> st' = st
   | (Inr view, started, st', w') \<Rightarrow>
       \<not> rd_busy (ss_domain st) \<and> st' = (set_busy True st)\<lparr>ss_error := []\<rparr> \<and>
       (\<exists>store vars affected current webhooks w1. started = Some (vars, affected) \<and> changes_checked changes vars affected \<and>
          sp_store ports = Some store \<and> sg_read store w = (Inr (current, webhooks), w1) \<and>
          answers_somebody vars current)"
  by (auto simp: set_settings_def Let_def set_busy_back check_changes_checked answers_somebody_iff
      split: option.splits sum.splits prod.splits if_splits)

text \<open>
  Applying settings excludes everything else.  From the moment a change is accepted until it was
  applied, every module operation and every other change of settings is refused and changes nothing;
  applying it always ends the exclusion, whatever fails.
\<close>

theorem settings_change_excludes:
  "case set_settings ports changes st w of
     (Inl e, started, st', w') \<Rightarrow> True
   | (Inr view, started, st', w') \<Rightarrow>
       (\<forall>name enabled. \<exists>e. rt_set name enabled (ss_domain st') = (Inl e, False, ss_domain st')) \<and>
       (\<forall>changes' w2. \<exists>e. set_settings ports changes' st' w2 = (Inl e, None, st', w2)) \<and>
       (\<forall>store vars affected w2. \<not> rd_busy (ss_domain (fst (apply_settings ports store vars affected st' w2))))"
proof -
  have "\<exists>e. rt_set name enabled (ss_domain st') = (Inl e, False, ss_domain st')" if "rd_busy (ss_domain st')"
    for name enabled and st' :: settings_state
    using that by (simp add: rt_set_def set_module_def split: option.splits)
  moreover have "\<exists>e. set_settings ports changes' st' w2 = (Inl e, None, st', w2)" if "rd_busy (ss_domain st')"
    for changes' st' w2
    using that by (simp add: set_settings_def split: option.splits)
  moreover have "\<not> rd_busy (ss_domain (fst (apply_settings ports store vars affected st' w2)))" for store vars affected st' w2
    by (simp add: apply_settings_def set_busy_def split: option.splits prod.splits)
  moreover have "rd_busy (ss_domain st')" if "set_settings ports changes st w = (Inr view, started, st', w')" for view started st' w'
    using that by (auto simp: set_settings_def Let_def set_busy_def split: option.splits sum.splits prod.splits if_splits)
  ultimately show ?thesis by (auto split: prod.splits sum.splits)
qed

subsection \<open>Readers are marked before any is recreated\<close>

definition readers_accounted :: "string list \<Rightarrow> rt_domain \<Rightarrow> rt_call list \<Rightarrow> bool" where
  "readers_accounted affected d calls \<longleftrightarrow>
     (\<forall>x \<in> set inventory. rm_name x \<in> set affected \<longrightarrow>
        rm_service x \<in> rd_stale d \<or> (Launched x None \<in> set calls \<and> Asked_Ready x None \<in> set calls))"

definition launched_in :: "rt_call list \<Rightarrow> rt_module set" where
  "launched_in calls = {m. \<exists>r. Launched m r \<in> set calls}"

lemma launched_in_simps [simp]:
  "launched_in [] = {}" "launched_in (xs @ ys) = launched_in xs \<union> launched_in ys"
  "launched_in (Launched m r # xs) = insert m (launched_in xs)"
  "launched_in (Saved j e # xs) = launched_in xs" "launched_in (Asked_Ready m e # xs) = launched_in xs"
  "launched_in (Status_Asked q # xs) = launched_in xs"
  by (auto simp: launched_in_def)

lemma mark_stale_saves:
  assumes "mark_stale (recorded_ports a) s stale d l = (e, d', l')"
  shows "(\<exists>more. l' = l @ more \<and> launched_in more = {}) \<and>
    rd_stale d' = (if stale then insert s (rd_stale d) else rd_stale d - {s})"
  using assms
  by (auto simp: mark_stale_def save_journal_def recorded_ports_def Let_def split: option.splits if_splits)

lemma mark_readers_saves:
  "mark_readers (recorded_ports a) affected ms d l = (e, d', l') \<Longrightarrow>
   (\<exists>more. l' = l @ more \<and> launched_in more = {}) \<and>
   (if e = None then rd_stale d' = rd_stale d \<union> rm_service ` {m \<in> set ms. rm_name m \<in> set affected} else True)"
proof (induction ms arbitrary: d l)
  case (Cons m ms)
  show ?case
  proof (cases "rm_name m \<in> set affected")
    case False
    then show ?thesis using Cons.IH [of d l] Cons.prems by auto
  next
    case True
    obtain e1 d1 l1 where m: "mark_stale (recorded_ports a) (rm_service m) True d l = (e1, d1, l1)" by (metis surj_pair)
    note s = mark_stale_saves [OF m]
    show ?thesis
    proof (cases e1)
      case None
      then have "mark_readers (recorded_ports a) affected ms d1 l1 = (e, d', l')" using Cons.prems True m by simp
      then show ?thesis using Cons.IH [of d1 l1] s True by auto
    next
      case (Some x)
      then show ?thesis using Cons.prems True m s by auto
    qed
  qed
qed simp

lemma set_state_stale [simp]: "rd_stale (set_state m state msg d) = rd_stale d"
  by (simp add: set_state_def)

lemma recreate_one_log:
  assumes "recreate_one (recorded_ports a) m d l = (e, d', l')"
  shows "\<exists>more. l' = l @ more \<and> launched_in more = {m} \<and>
    (rd_stale d' = rd_stale d \<or>
     rd_stale d' = rd_stale d - {rm_service m} \<and> Launched m None \<in> set more \<and> Asked_Ready m None \<in> set more)"
proof -
  let ?l1 = "l @ [Launched m (ra_launch a l m)]"
  let ?l2 = "?l1 @ [Asked_Ready m (ra_ready a ?l1 m)]"
  consider (launch) x where "ra_launch a l m = Some x" | (ready) x where "ra_launch a l m = None" "ra_ready a ?l1 m = Some x"
    | (both) "ra_launch a l m = None" "ra_ready a ?l1 m = None" by fastforce
  then show ?thesis
  proof cases
    case launch
    then show ?thesis using assms by (auto simp: recreate_one_def Let_def)
  next
    case ready
    then show ?thesis using assms by (auto simp: recreate_one_def Let_def)
  next
    case both
    then have "mark_stale (recorded_ports a) (rm_service m) False (set_state m ''ready'' [] (set_state m ''starting'' [] d)) ?l2 =
        (e, d', l')"
      using assms by (simp add: recreate_one_def Let_def)
    then show ?thesis using mark_stale_saves both by fastforce
  qed
qed

lemma accounted_step:
  assumes "readers_accounted affected d calls" and "m \<in> set inventory"
    and "rd_stale d' = rd_stale d \<or>
      rd_stale d' = rd_stale d - {rm_service m} \<and> Launched m None \<in> set step \<and> Asked_Ready m None \<in> set step"
  shows "readers_accounted affected d' (calls @ step)"
  unfolding readers_accounted_def
proof (intro ballI impI)
  fix x
  assume x: "x \<in> set inventory" "rm_name x \<in> set affected"
  then have "rm_service x \<in> rd_stale d \<or> (Launched x None \<in> set calls \<and> Asked_Ready x None \<in> set calls)"
    using assms(1) by (simp add: readers_accounted_def)
  moreover have "x = m" if "rm_service x = rm_service m" using same_service [OF x(1) assms(2) that] .
  ultimately show "rm_service x \<in> rd_stale d' \<or>
      (Launched x None \<in> set (calls @ step) \<and> Asked_Ready x None \<in> set (calls @ step))"
    using assms(3) by auto
qed

lemma recreate_readers_log:
  "recreate_readers (recorded_ports a) affected containers ms d (l @ calls) = (e, d', l') \<Longrightarrow>
   set ms \<subseteq> set inventory \<Longrightarrow> readers_accounted affected d calls \<Longrightarrow>
   \<exists>calls'. l' = l @ calls' \<and> readers_accounted affected d' calls' \<and>
     launched_in calls' \<subseteq> launched_in calls \<union> {m \<in> set ms. rm_name m \<in> set affected}"
proof (induction ms arbitrary: d calls)
  case (Cons m ms)
  show ?case
  proof (cases "rm_name m \<in> set affected \<and> reads_running containers m")
    case False
    then have "recreate_readers (recorded_ports a) affected containers ms d (l @ calls) = (e, d', l')"
      using Cons.prems(1) by auto
    from Cons.IH [OF this] show ?thesis using Cons.prems(2,3) by fastforce
  next
    case True
    obtain e1 d1 l1 where r: "recreate_one (recorded_ports a) m d (l @ calls) = (e1, d1, l1)" by (metis surj_pair)
    obtain step where s: "l1 = (l @ calls) @ step" "launched_in step = {m}"
      "rd_stale d1 = rd_stale d \<or>
       rd_stale d1 = rd_stale d - {rm_service m} \<and> Launched m None \<in> set step \<and> Asked_Ready m None \<in> set step"
      using recreate_one_log [OF r] by blast
    have acc: "readers_accounted affected d1 (calls @ step)"
      using accounted_step [OF Cons.prems(3) _ s(3)] Cons.prems(2) by simp
    show ?thesis
    proof (cases e1)
      case None
      then have "recreate_readers (recorded_ports a) affected containers ms d1 (l @ calls @ step) = (e, d', l')"
        using Cons.prems(1) True r s(1) by simp
      from Cons.IH [OF this _ acc] show ?thesis using Cons.prems(2) s(2) True by fastforce
    next
      case (Some x)
      then have "d' = d1" "l' = l @ calls @ step" using Cons.prems(1) True r s(1) by auto
      then show ?thesis using acc s(2) True by (intro exI [of _ "calls @ step"]) auto
    qed
  qed
qed auto

text \<open>
  No reader of a changed setting is left behind.  Whatever the saves, the backend and the readiness
  checks answer, the recreation launches only readers of the changed settings, and once it launched
  one, or ends without an error, each reader is still marked to be recreated on its next start, or was
  recreated and answered that it was ready.
\<close>

theorem changed_readers_are_accounted:
  "case recreate (recorded_ports a) affected d l of
     (e, d', l') \<Rightarrow>
       \<exists>calls. l' = l @ calls \<and> launched_in calls \<subseteq> {m \<in> set inventory. rm_name m \<in> set affected} \<and>
         (if e \<noteq> None \<and> launched_in calls = {} then True else readers_accounted affected d' calls)"
proof -
  obtain e1 d1 l1 where m: "mark_readers (recorded_ports a) affected inventory d l = (e1, d1, l1)" by (metis surj_pair)
  obtain more1 where l1: "l1 = l @ more1" "launched_in more1 = {}"
    and st: "if e1 = None then rd_stale d1 = rd_stale d \<union> rm_service ` {m \<in> set inventory. rm_name m \<in> set affected} else True"
    using mark_readers_saves [OF m] by blast
  show ?thesis
  proof (cases e1)
    case (Some x)
    then show ?thesis using m l1 by (simp add: recreate_def)
  next
    case None
    let ?more2 = "more1 @ [Status_Asked (ra_status a l1)]"
    have acc: "readers_accounted affected d1 ?more2" using st None by (auto simp: readers_accounted_def)
    show ?thesis
    proof (cases "ra_status a l1")
      case (Inl x)
      then show ?thesis using m l1 None acc by (simp add: recreate_def)
    next
      case (Inr containers)
      obtain e2 d2 l2 where r: "recreate_readers (recorded_ports a) affected containers inventory d1 (l @ ?more2) = (e2, d2, l2)"
        by (metis surj_pair)
      from recreate_readers_log [OF r _ acc] show ?thesis
        using m l1 None Inr r by (auto simp: recreate_def)
    qed
  qed
qed

end
