(* ===== verification/Runtime_Chat.thy ===== *)
theory Runtime_Chat
  imports Runtime_Settings "HOL-Library.Word" "HOL-Library.List_Lexorder" "HOL-Library.Char_ord"
begin

section \<open>Providers and the chat binding\<close>

text \<open>
  \<open>dokja_domain/dokja_runtime/provider_settings.go\<close>, \<open>chat.go\<close> and \<open>measured_chat.go\<close>: which providers
  and models the operator declared, the one chat uses, and one exchange with it, with or without a
  budget of tokens.  The stores, the inference and the two contexts are parameters over the world \<open>'w\<close>;
  \<open>sort.Strings\<close> is \<open>sort\<close> with the lexicographic order of the bytes.
\<close>

subsection \<open>Declared providers\<close>

definition MaxProviderModels :: nat where
  "MaxProviderModels = 16"

definition MaxProviderRevision :: "64 word" where
  "MaxProviderRevision = 9007199254740991"

definition ErrProviderConflict :: gerror where
  "ErrProviderConflict = Sentinel ''provider configuration changed; reload before saving''"

definition provider_specs :: "(string \<times> string) list" where
  "provider_specs = [(''codex'', ''Codex''), (''claude_code'', ''Claude Code''), (''ollama'', ''Ollama'')]"

record registration =
  rg_id :: string
  rg_enabled :: bool
  rg_models :: "string list"

record preferences =
  pf_revision :: "64 word"
  pf_providers :: "registration list"

definition default_provider_values :: "(string \<times> string) list" where
  "default_provider_values =
     concat (map (\<lambda>(i, n). [(i @ ''.enabled'', ''true''), (i @ ''.models'', [])]) provider_specs)"

text \<open>The loop over the declared names: trimmed, checked, without repeats.\<close>

fun declared_names :: "string list \<Rightarrow> string list \<Rightarrow> string list res" where
  "declared_names names [] = Inr names"
| "declared_names names (raw # rest) =
     (let name = trim_space raw
      in if \<not> model_name name then Inl (Errorf ''invalid declared model name'')
         else declared_names (if contains_str names name then names else names @ [name]) rest)"

definition normalize_registration :: "registration \<Rightarrow> registration res" where
  "normalize_registration p =
     (if \<not> contains_str (map fst provider_specs) (rg_id p) then Inl (Errorf ''unsupported provider'')
      else if length (rg_models p) > MaxProviderModels
      then Inl (Errorf (''at most '' @ show_nat MaxProviderModels @ '' declared models''))
      else case declared_names [] (rg_models p) of
          Inl e \<Rightarrow> Inl e
        | Inr names \<Rightarrow> Inr (p\<lparr>rg_models := sort names\<rparr>))"

definition invalid_preferences :: gerror where
  "invalid_preferences = Errorf ''invalid provider configuration''"

definition decode_registration :: "(string \<times> string) list \<Rightarrow> string \<Rightarrow> registration res" where
  "decode_registration vars i =
     (case (map_of vars (i @ ''.enabled''), map_of vars (i @ ''.models'')) of
        (Some enabled, Some models) \<Rightarrow>
          if enabled \<noteq> ''true'' \<and> enabled \<noteq> ''false'' then Inl invalid_preferences
          else (case normalize_registration
                  \<lparr>rg_id = i, rg_enabled = (enabled = ''true''),
                   rg_models = (if models = [] then [] else split_on CHR '','' models)\<rparr> of
                  Inl e \<Rightarrow> Inl invalid_preferences
                | Inr row \<Rightarrow> Inr row)
      | _ \<Rightarrow> Inl invalid_preferences)"

fun decode_each :: "(string \<times> string) list \<Rightarrow> string list \<Rightarrow> registration list res" where
  "decode_each vars [] = Inr []"
| "decode_each vars (i # is) =
     (case decode_registration vars i of
        Inl e \<Rightarrow> Inl e
      | Inr row \<Rightarrow> (case decode_each vars is of Inl e \<Rightarrow> Inl e | Inr rows \<Rightarrow> Inr (row # rows)))"

text \<open>The map of values is a list of its entries, each key once.\<close>

definition decode_preferences :: "64 word \<Rightarrow> (string \<times> string) list \<Rightarrow> preferences res" where
  "decode_preferences revision vars =
     (if revision = 0 \<or> revision > MaxProviderRevision \<or> length vars \<noteq> length provider_specs * 2
      then Inl invalid_preferences
      else case decode_each vars (map fst provider_specs) of
          Inl e \<Rightarrow> Inl e
        | Inr rows \<Rightarrow> Inr \<lparr>pf_revision = revision, pf_providers = rows\<rparr>)"

definition bool_text :: "bool \<Rightarrow> string" where
  "bool_text b = (if b then ''true'' else ''false'')"

definition registration_values :: "registration \<Rightarrow> (string \<times> string) list res" where
  "registration_values p =
     (case normalize_registration p of
        Inl e \<Rightarrow> Inl e
      | Inr p' \<Rightarrow> Inr [(rg_id p' @ ''.enabled'', bool_text (rg_enabled p')),
                       (rg_id p' @ ''.models'', join_with '','' (rg_models p'))])"

record 'w provider_store =
  ps_read :: "'w \<Rightarrow> preferences res \<times> 'w"
  ps_write :: "64 word \<Rightarrow> registration \<Rightarrow> 'w \<Rightarrow> (64 word) res \<times> 'w"

record provider_saved =
  sa_revision :: "64 word"
  sa_provider :: string

definition configure_provider ::
    "'w provider_store option \<Rightarrow> 64 word \<Rightarrow> registration \<Rightarrow> 'w \<Rightarrow> provider_saved res \<times> 'w" where
  "configure_provider store revision p w =
     (case store of
        None \<Rightarrow> (Inl (Errorf ''provider configuration is unavailable''), w)
      | Some st \<Rightarrow>
          if revision = 0 \<or> revision \<ge> MaxProviderRevision
          then (Inl (Errorf ''invalid provider configuration revision''), w)
          else (case normalize_registration p of
              Inl e \<Rightarrow> (Inl e, w)
            | Inr p' \<Rightarrow>
                (case ps_read st w of
                   (Inl e, w1) \<Rightarrow> (Inl e, w1)
                 | (Inr current, w1) \<Rightarrow>
                     if pf_revision current \<noteq> revision then (Inl ErrProviderConflict, w1)
                     else (case ps_write st revision p' w1 of
                             (Inl e, w2) \<Rightarrow> (Inl e, w2)
                           | (Inr next, w2) \<Rightarrow> (Inr \<lparr>sa_revision = next, sa_provider = rg_id p'\<rparr>, w2)))))"

subsection \<open>The chat binding\<close>

record chat_binding =
  cb_revision :: "64 word"
  cb_provider :: string
  cb_model :: string

record chat_message =
  cm_role :: string
  cm_content :: string

record chat_reply =
  re_reply :: string
  re_provider :: string
  re_model :: string

text \<open>Usage and budget: a count a provider does not report is nil.\<close>

record token_usage =
  tu_input :: "int option"
  tu_output :: "int option"
  tu_cache_read :: "int option"
  tu_cache_write :: "int option"

record token_budget =
  bu_input :: int
  bu_output :: int

record 'w chat_ports =
  cp_read :: "('w \<Rightarrow> chat_binding res \<times> 'w) option"
  cp_write :: "chat_binding \<Rightarrow> 'w \<Rightarrow> chat_binding res \<times> 'w"
  cp_providers :: "'w provider_store option"
  cp_generate :: "(chat_binding \<Rightarrow> chat_message list \<Rightarrow> 'w \<Rightarrow> string res \<times> 'w) option"
  cp_stream :: "(chat_binding \<Rightarrow> chat_message list \<Rightarrow> 'w \<Rightarrow> string res \<times> 'w) option"
  cp_supports_usage :: "(string \<Rightarrow> bool) option"
  cp_measured :: "chat_binding \<Rightarrow> chat_message list \<Rightarrow> 'w \<Rightarrow> (string \<times> token_usage \<times> gerror option) \<times> 'w"
  cp_ended :: "'w \<Rightarrow> gerror option"
  cp_call_ended :: "'w \<Rightarrow> gerror option"

definition read_binding :: "'w chat_ports \<Rightarrow> 'w \<Rightarrow> chat_binding res \<times> 'w" where
  "read_binding ports w =
     (case cp_read ports of
        None \<Rightarrow> (Inl (Errorf ''chat settings are unavailable''), w)
      | Some f \<Rightarrow> f w)"

definition chat_refusal :: "chat_binding \<Rightarrow> preferences \<Rightarrow> gerror option" where
  "chat_refusal b p =
     (case find (\<lambda>v. rg_id v = cb_provider b) (pf_providers p) of
        None \<Rightarrow> Some (Errorf ''unsupported chat provider'')
      | Some v \<Rightarrow>
          if \<not> rg_enabled v then Some (Errorf ''selected chat provider is disabled'')
          else if contains_str (rg_models v) (cb_model b) then None
          else Some (Errorf ''declare the selected chat model in its provider registration''))"

definition validate_chat :: "'w chat_ports \<Rightarrow> chat_binding \<Rightarrow> 'w \<Rightarrow> gerror option \<times> 'w" where
  "validate_chat ports b w =
     (if cb_provider b = [] \<or> \<not> model_name (cb_model b)
      then (Some (Errorf ''select a chat provider and model in Inference providers''), w)
      else case cp_providers ports of
        None \<Rightarrow> (Some (Errorf ''provider configuration is unavailable''), w)
      | Some st \<Rightarrow>
          (case ps_read st w of
             (Inl e, w') \<Rightarrow> (Some e, w')
           | (Inr p, w') \<Rightarrow> (chat_refusal b p, w')))"

definition configure_chat :: "'w chat_ports \<Rightarrow> chat_binding \<Rightarrow> 'w \<Rightarrow> chat_binding res \<times> 'w" where
  "configure_chat ports b w =
     (if cp_read ports = None then (Inl (Errorf ''chat settings are unavailable''), w)
      else if cb_revision b < 1 \<or> cb_revision b \<ge> MaxProviderRevision
      then (Inl (Errorf ''invalid chat configuration revision''), w)
      else case validate_chat ports b w of
          (Some e, w') \<Rightarrow> (Inl e, w')
        | (None, w') \<Rightarrow> cp_write ports b w')"

text \<open>The selected binding, once it passes.\<close>

definition bound_chat :: "'w chat_ports \<Rightarrow> 'w \<Rightarrow> chat_binding res \<times> 'w" where
  "bound_chat ports w =
     (case read_binding ports w of
        (Inl e, w1) \<Rightarrow> (Inl e, w1)
      | (Inr b, w1) \<Rightarrow>
          (case validate_chat ports b w1 of
             (Some e, w2) \<Rightarrow> (Inl e, w2)
           | (None, w2) \<Rightarrow> (Inr b, w2)))"

definition chat_ready :: "'w chat_ports \<Rightarrow> 'w \<Rightarrow> gerror option \<times> 'w" where
  "chat_ready ports w = (case bound_chat ports w of (Inl e, w') \<Rightarrow> (Some e, w') | (Inr b, w') \<Rightarrow> (None, w'))"

subsection \<open>One exchange\<close>

definition role_ok :: "string \<Rightarrow> bool" where
  "role_ok r \<longleftrightarrow> r = ''user'' \<or> r = ''assistant'' \<or> r = ''system''"

definition message_ok :: "chat_message \<Rightarrow> bool" where
  "message_ok m \<longleftrightarrow> role_ok (cm_role m) \<and> trim_space (cm_content m) \<noteq> []"

definition validate_chat_messages :: "chat_message list \<Rightarrow> gerror option" where
  "validate_chat_messages ms =
     (if ms = [] \<or> length ms > 128 then Some (Errorf ''invalid chat history'')
      else if \<not> list_all message_ok ms then Some (Errorf ''invalid chat message'')
      else if sum_list (map (\<lambda>m. length (cm_content m)) ms) > 65536
      then Some (Errorf ''chat history exceeds supported size'')
      else None)"

definition reply_ok :: "string \<Rightarrow> bool" where
  "reply_ok r \<longleftrightarrow> \<not> (trim_space r = [] \<or> length r > 65536)"

text \<open>The inference streams when it can and a preview is wanted.\<close>

definition generate_with ::
    "'w chat_ports \<Rightarrow> bool \<Rightarrow> (chat_binding \<Rightarrow> chat_message list \<Rightarrow> 'w \<Rightarrow> string res \<times> 'w) \<Rightarrow>
     chat_binding \<Rightarrow> chat_message list \<Rightarrow> 'w \<Rightarrow> string res \<times> 'w" where
  "generate_with ports preview plain_generate =
     (case cp_stream ports of
        Some f \<Rightarrow> if preview then f else plain_generate
      | None \<Rightarrow> plain_generate)"

definition chat_stream :: "'w chat_ports \<Rightarrow> bool \<Rightarrow> chat_message list \<Rightarrow> 'w \<Rightarrow> chat_reply res \<times> 'w" where
  "chat_stream ports preview ms w =
     (case cp_ended ports w of
        Some e \<Rightarrow> (Inl e, w)
      | None \<Rightarrow>
      case bound_chat ports w of
        (Inl e, w1) \<Rightarrow> (Inl e, w1)
      | (Inr b, w1) \<Rightarrow>
      case cp_generate ports of
        None \<Rightarrow> (Inl (Errorf ''chat inference is unavailable''), w1)
      | Some plain_generate \<Rightarrow>
      case validate_chat_messages ms of
        Some e \<Rightarrow> (Inl e, w1)
      | None \<Rightarrow>
          (case generate_with ports preview plain_generate b ms w1 of
             (answer, w2) \<Rightarrow>
               (case cp_call_ended ports w2 of
                  Some e \<Rightarrow> (Inl e, w2)
                | None \<Rightarrow>
                    (case answer of
                       Inl e \<Rightarrow> (Inl e, w2)
                     | Inr reply \<Rightarrow>
                         if \<not> reply_ok reply then (Inl (Errorf ''invalid chat provider response''), w2)
                         else (Inr \<lparr>re_reply = reply, re_provider = cb_provider b, re_model = cb_model b\<rparr>, w2)))))"

definition chat :: "'w chat_ports \<Rightarrow> chat_message list \<Rightarrow> 'w \<Rightarrow> chat_reply res \<times> 'w" where
  "chat ports = chat_stream ports False"

subsection \<open>A measured exchange\<close>

record measured_reply =
  mr_status :: string
  mr_reply :: string
  mr_provider :: string
  mr_model :: string
  mr_revision :: "64 word"
  mr_budget_mode :: string
  mr_budget :: token_budget
  mr_usage :: token_usage
  mr_calls :: int

definition no_usage :: token_usage where
  "no_usage = \<lparr>tu_input = None, tu_output = None, tu_cache_read = None, tu_cache_write = None\<rparr>"

text \<open>The counts are not negative when they are subtracted, so the subtraction does not wrap.\<close>

definition cache_ok :: "int \<Rightarrow> int option \<Rightarrow> bool" where
  "cache_ok input cache = (case cache of None \<Rightarrow> True | Some c \<Rightarrow> 0 \<le> c \<and> c \<le> input)"

definition usage_complete :: "token_usage \<Rightarrow> bool" where
  "usage_complete u =
     (case (tu_input u, tu_output u) of
        (Some i, Some out) \<Rightarrow>
          0 \<le> i \<and> 0 \<le> out \<and> cache_ok i (tu_cache_read u) \<and> cache_ok i (tu_cache_write u) \<and>
          (case (tu_cache_read u, tu_cache_write u) of
             (Some r, Some cw) \<Rightarrow> r \<le> i - cw
           | _ \<Rightarrow> True)
      | _ \<Rightarrow> False)"

definition within_budget :: "token_budget \<Rightarrow> token_usage \<Rightarrow> bool" where
  "within_budget bu u =
     (case (tu_input u, tu_output u) of
        (Some i, Some out) \<Rightarrow> i \<le> bu_input bu \<and> out \<le> bu_output bu
      | _ \<Rightarrow> False)"

definition budget_ok :: "token_budget \<Rightarrow> bool" where
  "budget_ok bu \<longleftrightarrow> 1 \<le> bu_input bu \<and> bu_input bu \<le> 1000000 \<and> 1 \<le> bu_output bu \<and> bu_output bu \<le> 65536"

definition judge_measured :: "measured_reply \<Rightarrow> string \<times> token_usage \<times> gerror option \<Rightarrow> measured_reply" where
  "judge_measured result answer =
     (case answer of (reply, usage, err) \<Rightarrow>
        let r = result\<lparr>mr_usage := usage\<rparr>
        in if err \<noteq> None then r\<lparr>mr_status := ''provider_error''\<rparr>
           else if \<not> usage_complete usage then r\<lparr>mr_status := ''usage_unavailable''\<rparr>
           else if \<not> within_budget (mr_budget r) usage then r\<lparr>mr_status := ''over_budget''\<rparr>
           else if \<not> reply_ok reply then r\<lparr>mr_status := ''invalid_reply''\<rparr>
           else r\<lparr>mr_status := ''ok'', mr_reply := reply\<rparr>)"

definition chat_measured ::
    "'w chat_ports \<Rightarrow> chat_message list \<Rightarrow> token_budget \<Rightarrow> 'w \<Rightarrow> (measured_reply \<times> gerror option) \<times> 'w" where
  "chat_measured ports ms bu w =
     (let result = \<lparr>mr_status = [], mr_reply = [], mr_provider = [], mr_model = [], mr_revision = 0,
                    mr_budget_mode = ''post_generation'', mr_budget = bu, mr_usage = no_usage, mr_calls = 0\<rparr>
      in case cp_ended ports w of
           Some e \<Rightarrow> ((result, Some e), w)
         | None \<Rightarrow>
         if \<not> budget_ok bu then ((result, Some (Errorf ''invalid token acceptance budget'')), w)
         else case bound_chat ports w of
           (Inl e, w1) \<Rightarrow> ((result, Some e), w1)
         | (Inr b, w1) \<Rightarrow>
             if \<not> (case cp_supports_usage ports of None \<Rightarrow> False | Some f \<Rightarrow> f (cb_provider b))
             then ((result, Some (Errorf ''selected provider does not support measured inference'')), w1)
             else case validate_chat_messages ms of
                 Some e \<Rightarrow> ((result, Some e), w1)
               | None \<Rightarrow>
                   (let called = result\<lparr>mr_provider := cb_provider b, mr_model := cb_model b,
                                        mr_revision := cb_revision b, mr_calls := 1\<rparr>
                    in case cp_measured ports b ms w1 of
                         (answer, w2) \<Rightarrow>
                           (case cp_call_ended ports w2 of
                              Some e \<Rightarrow> ((called, Some e), w2)
                            | None \<Rightarrow> ((judge_measured called answer, None), w2))))"

subsection \<open>Declared names survive\<close>

lemma model_name_text: "model_name s \<Longrightarrow> s \<noteq> [] \<and> list_all plain s \<and> CHR '','' \<notin> set s"
proof -
  assume m: "model_name s"
  have c: "plain c \<and> c \<noteq> CHR '',''" if "alnum c \<or> c \<in> set ''._:/-''" for c
    using that by (auto simp: alnum_def digit_def plain_def)
  from m have "s \<noteq> []" "\<forall>c \<in> set s. alnum c \<or> c \<in> set ''._:/-''"
    unfolding model_name_def matches_name_def matches_class_def list_all_iff by (auto split: list.splits)
  then show ?thesis using c unfolding list_all_iff by blast
qed

lemma model_name_trim: "model_name s \<Longrightarrow> trim_space s = s"
  using model_name_text plain_trim by blast

lemma declared_names_sound:
  "declared_names names raws = Inr out \<Longrightarrow> distinct names \<Longrightarrow> \<forall>n \<in> set names. model_name n \<Longrightarrow>
   distinct out \<and> (\<forall>n \<in> set out. model_name n) \<and> length out \<le> length names + length raws"
proof (induction names raws rule: declared_names.induct)
  case (2 names raw rest)
  let ?n = "trim_space raw"
  let ?names = "if contains_str names ?n then names else names @ [?n]"
  have m: "model_name ?n" and run: "declared_names ?names rest = Inr out"
    using 2(2) by (auto simp: Let_def split: if_splits)
  have "distinct ?names" "\<forall>n \<in> set ?names. model_name n" using 2(3,4) m by auto
  from 2(1) [OF refl _ run this] m show ?case by (cases "contains_str names ?n") auto
qed simp

lemma declared_names_again:
  "distinct (names @ raws) \<Longrightarrow> \<forall>n \<in> set raws. model_name n \<Longrightarrow> declared_names names raws = Inr (names @ raws)"
proof (induction raws arbitrary: names)
  case (Cons r rs)
  have "r \<notin> set names" "distinct ((names @ [r]) @ rs)" using Cons.prems(1) by auto
  then show ?case using Cons.IH [of "names @ [r]"] Cons.prems(2) model_name_trim [of r] by (simp add: Let_def)
qed simp

lemma normalized_again:
  assumes "normalize_registration p = Inr p'"
  shows "normalize_registration p' = Inr p' \<and> rg_id p' = rg_id p \<and> rg_enabled p' = rg_enabled p \<and>
    distinct (rg_models p') \<and> sorted (rg_models p') \<and> length (rg_models p') \<le> MaxProviderModels \<and>
    (\<forall>n \<in> set (rg_models p'). model_name n)"
proof -
  obtain names where n: "declared_names [] (rg_models p) = Inr names" "p' = p\<lparr>rg_models := sort names\<rparr>"
    and c: "contains_str (map fst provider_specs) (rg_id p)" "length (rg_models p) \<le> MaxProviderModels"
    using assms by (auto simp: normalize_registration_def split: if_splits sum.splits)
  note d = declared_names_sound [OF n(1)]
  have "declared_names [] (sort names) = Inr (sort names)" using declared_names_again [of "[]" "sort names"] d by simp
  moreover have "length (sort names) \<le> MaxProviderModels" using d c(2) by simp
  ultimately show ?thesis using c d by (simp add: n(2) normalize_registration_def sorted_sort_id)
qed

text \<open>
  C40.  What the operator declared is read back as it was saved.  Saving a registration fails exactly when
  it is refused, and otherwise gives two values that decode to the normalized registration: names
  trimmed, well formed, without repeats, in order, at most sixteen; saving that again changes nothing.
\<close>

theorem registration_round_trip:
  "case registration_values p of
     Inl e \<Rightarrow> normalize_registration p = Inl e
   | Inr vars \<Rightarrow> \<exists>p'. normalize_registration p = Inr p' \<and> decode_registration vars (rg_id p) = Inr p' \<and>
       registration_values p' = Inr vars \<and> rg_id p' = rg_id p \<and> rg_enabled p' = rg_enabled p \<and>
       distinct (rg_models p') \<and> sorted (rg_models p') \<and> length (rg_models p') \<le> 16 \<and>
       list_all model_name (rg_models p')"
proof (cases "normalize_registration p")
  case (Inr p')
  note n = normalized_again [OF Inr]
  let ?ms = "rg_models p'"
  have names: "list_all (\<lambda>m. CHR '','' \<notin> set m) ?ms" "\<forall>m \<in> set ?ms. m \<noteq> []"
    using n model_name_text by (auto simp: list_all_iff)
  have split: "(if join_with '','' ?ms = [] then [] else split_on CHR '','' (join_with '','' ?ms)) = ?ms"
  proof (cases ?ms)
    case (Cons m ms)
    then have "join_with '','' ?ms \<noteq> []" using names(2) by (cases ms) auto
    then show ?thesis using split_on_joined [of ?ms] names(1) Cons by simp
  qed simp
  have same: "\<lparr>rg_id = rg_id p, rg_enabled = rg_enabled p', rg_models = ?ms\<rparr> = p'" using n by simp
  have b: "(bool_text x = ''true'') = x" "(bool_text x = ''false'') = (\<not> x)" for x
    by (simp_all add: bool_text_def)
  have v: "registration_values p = Inr [(rg_id p @ ''.enabled'', bool_text (rg_enabled p')), (rg_id p @ ''.models'', join_with '','' ?ms)]"
    using Inr n by (simp add: registration_values_def)
  moreover have "registration_values p' = registration_values p" using n Inr by (simp add: registration_values_def)
  moreover have "decode_registration [(rg_id p @ ''.enabled'', bool_text (rg_enabled p')), (rg_id p @ ''.models'', join_with '','' ?ms)]
      (rg_id p) = Inr p'"
    unfolding decode_registration_def using conjunct1 [OF n] by (simp add: b split same)
  ultimately show ?thesis using Inr n by (simp add: list_all_iff MaxProviderModels_def)
qed (simp add: registration_values_def)

subsection \<open>Chat answers only through what was declared\<close>

lemma bound_chatD:
  assumes "bound_chat ports w = (Inr b, w')"
  shows "\<exists>w1 st p. read_binding ports w = (Inr b, w1) \<and> cp_providers ports = Some st \<and> ps_read st w1 = (Inr p, w') \<and>
    model_name (cb_model b) \<and>
    (\<exists>v \<in> set (pf_providers p). rg_id v = cb_provider b \<and> rg_enabled v \<and> cb_model b \<in> set (rg_models v))"
  using assms
  by (fastforce simp: bound_chat_def validate_chat_def chat_refusal_def find_Some_iff in_set_conv_nth
      split: sum.splits prod.splits option.splits if_splits)

text \<open>
  C13.  Chat answers only through a binding the operator may use.  A reply comes from one call, with the
  binding as it was read, of a provider that is declared and enabled with exactly that model, on a
  history of 1 to 128 messages with known roles and some text, of 64 KiB at most; the reply is not blank, of 64 KiB at
  most, and names that provider and model.
\<close>

theorem chat_answers_as_declared:
  "case chat_stream ports preview ms w of
     (Inl e, w') \<Rightarrow> True
   | (Inr r, w') \<Rightarrow>
       \<exists>b w1 w2 st p v f. read_binding ports w = (Inr b, w1) \<and> cp_providers ports = Some st \<and>
         ps_read st w1 = (Inr p, w2) \<and> v \<in> set (pf_providers p) \<and> rg_id v = cb_provider b \<and> rg_enabled v \<and>
         cb_model b \<in> set (rg_models v) \<and> (cp_generate ports = Some f \<or> cp_stream ports = Some f) \<and>
         f b ms w2 = (Inr (re_reply r), w') \<and> re_provider r = cb_provider b \<and> re_model r = cb_model b \<and>
         ms \<noteq> [] \<and> length ms \<le> 128 \<and> list_all message_ok ms \<and>
         sum_list (map (\<lambda>m. length (cm_content m)) ms) \<le> 65536 \<and>
         trim_space (re_reply r) \<noteq> [] \<and> length (re_reply r) \<le> 65536"
proof (cases "chat_stream ports preview ms w")
  case (Pair res w')
  show ?thesis
  proof (cases res)
    case (Inr r)
    then obtain b w2 g where b: "bound_chat ports w = (Inr b, w2)" and v: "validate_chat_messages ms = None"
      and g: "cp_generate ports = Some g" "generate_with ports preview g b ms w2 = (Inr (re_reply r), w')"
      and r: "reply_ok (re_reply r)" "re_provider r = cb_provider b" "re_model r = cb_model b"
      using Pair by (auto simp: chat_stream_def split: option.splits sum.splits prod.splits if_splits)
    have "\<exists>f. (cp_generate ports = Some f \<or> cp_stream ports = Some f) \<and> f b ms w2 = (Inr (re_reply r), w')"
      using g by (auto simp: generate_with_def split: option.splits if_splits)
    with v r show ?thesis
      using bound_chatD [OF b] Pair Inr
      by (fastforce simp: validate_chat_messages_def reply_ok_def split: if_splits)
  qed (use Pair in simp)
qed

lemma judge_measured_kept:
  "mr_calls (judge_measured r a) = mr_calls r" "mr_budget (judge_measured r a) = mr_budget r"
  by (cases a; simp add: judge_measured_def Let_def)+

lemma judge_measured_paid:
  assumes "mr_status (judge_measured r a) = ''ok''"
  shows "usage_complete (mr_usage (judge_measured r a)) \<and> within_budget (mr_budget r) (mr_usage (judge_measured r a)) \<and>
    trim_space (mr_reply (judge_measured r a)) \<noteq> [] \<and> length (mr_reply (judge_measured r a)) \<le> 65536 \<and>
    mr_reply (judge_measured r a) \<noteq> []"
  using assms by (cases a) (auto simp: judge_measured_def Let_def reply_ok_def split: if_splits)

lemma judge_measured_withheld:
  assumes "mr_reply r = []"
  shows "(mr_reply (judge_measured r a) = []) = (mr_status (judge_measured r a) \<noteq> ''ok'')"
  using assms by (cases a) (auto simp: judge_measured_def Let_def reply_ok_def)

text \<open>
  A measured reply is withheld unless it was paid for.  A text is given exactly when the status is
  ok, with no error; then the usage is complete and within an acceptance budget that is itself within
  its limits, and the text is not blank and of 64 KiB at most.  The provider is called once at most, and
  not at all when an error says why before the call.
\<close>

theorem measured_reply_is_withheld:
  "case chat_measured ports ms bu w of
     ((r, err), w') \<Rightarrow>
       (mr_reply r \<noteq> []) = (mr_status r = ''ok'') \<and> mr_calls r \<in> {0, 1} \<and> mr_budget r = bu \<and>
       (if mr_status r = ''ok''
        then err = None \<and> budget_ok bu \<and> usage_complete (mr_usage r) \<and> within_budget bu (mr_usage r) \<and>
          trim_space (mr_reply r) \<noteq> [] \<and> length (mr_reply r) \<le> 65536 \<and> mr_calls r = 1
        else True) \<and>
       (if mr_calls r = 0 then err \<noteq> None \<and> mr_usage r = no_usage else budget_ok bu \<and> validate_chat_messages ms = None)"
  by (auto simp: chat_measured_def Let_def judge_measured_kept judge_measured_withheld
      split: option.splits sum.splits prod.splits if_splits
      dest!: judge_measured_paid)

end
