(* ===== verification/Runtime_Models.thy ===== *)
theory Runtime_Models
  imports Runtime_Chat
begin

section \<open>Local models\<close>

text \<open>
  \<open>dokja_domain/dokja_runtime/models.go\<close>: the download of one model at a time, its cancellation, the
  removal of a model and the start of the engine.  What the engine answers, the status of the
  containers and the chat binding are parameters.  A download's work runs in the background; its
  report, its end and the requests are the steps of a run, in any order.  The function that cancels
  a download's context is named by the generation of that download.
\<close>

subsection \<open>State\<close>

record model_pull =
  mp_model :: string
  mp_state :: string
  mp_phase :: string
  mp_percent :: "int option"
  mp_error :: string

record models_status =
  mt_embedding :: string
  mt_pull :: "model_pull option"
  mt_engine :: string
  mt_engine_error :: string

record model_state =
  ml_pull :: "model_pull option"
  ml_cancel :: "64 word option"
  ml_running :: bool
  ml_generation :: "64 word"

definition with_models :: model_state where
  "with_models = \<lparr>ml_pull = None, ml_cancel = None, ml_running = False, ml_generation = 0\<rparr>"

definition pull_phases :: "string list" where
  "pull_phases = [''starting'', ''downloading'', ''verifying'', ''writing'']"

text \<open>How the engine ended a download: \<open>errors.Is\<close> of its error, and the \<open>PullFailure\<close> in it.\<close>

record pull_error =
  pe_not_found :: bool
  pe_failure :: "string option"

record 'w model_ports =
  mo_embedding :: string
  mo_remove :: "string \<Rightarrow> 'w \<Rightarrow> gerror option \<times> 'w"
  mo_chat :: "('w \<Rightarrow> chat_binding res \<times> 'w) option"
  mo_status :: "'w \<Rightarrow> (string \<Rightarrow> container) res \<times> 'w"

definition models_unavailable :: gerror where
  "models_unavailable = Errorf ''local models are unavailable''"

definition ErrModelNotFound :: gerror where
  "ErrModelNotFound = Sentinel ''model not found''"

definition engine_service :: string where
  "engine_service = ''dokja-ollama''"

definition models_status_locked :: "string \<Rightarrow> rt_domain \<Rightarrow> model_state \<Rightarrow> models_status" where
  "models_status_locked embedding d m =
     (let engine = row_of d ''embeddings'';
          told = contains_str [''starting'', ''ready'', ''failed''] (rr_state engine)
      in \<lparr>mt_embedding = embedding, mt_pull = ml_pull m,
          mt_engine = (if told then rr_state engine else []),
          mt_engine_error = (if told then rr_error engine else [])\<rparr>)"

definition models_status :: "string \<Rightarrow> rt_domain \<Rightarrow> model_state option \<Rightarrow> models_status res" where
  "models_status embedding d m =
     (case m of None \<Rightarrow> Inl models_unavailable | Some m \<Rightarrow> Inr (models_status_locked embedding d m))"

subsection \<open>One download\<close>

definition engine_running :: "'w model_ports \<Rightarrow> 'w \<Rightarrow> gerror option \<times> 'w" where
  "engine_running ports w =
     (case mo_status ports w of
        (Inl e, w') \<Rightarrow> (Some (Errorf ''cannot read the modules' state''), w')
      | (Inr containers, w') \<Rightarrow>
          if \<not> ct_running (containers engine_service)
          then (Some (Errorf ''the local model engine is stopped''), w') else (None, w'))"

definition is_pulling :: "model_state \<Rightarrow> bool" where
  "is_pulling m = (case ml_pull m of None \<Rightarrow> False | Some p \<Rightarrow> mp_state p = ''pulling'')"

definition pull_named :: "model_state \<Rightarrow> string \<Rightarrow> bool" where
  "pull_named m model = (case ml_pull m of None \<Rightarrow> False | Some p \<Rightarrow> mp_model p = model)"

text \<open>The critical section of \<open>PullModel\<close>; with the generation whose work it starts, if it starts one.\<close>

definition accept_pull :: "string \<Rightarrow> model_state \<Rightarrow> gerror option \<times> 64 word option \<times> model_state" where
  "accept_pull model m =
     (if is_pulling m
      then if pull_named m model then (None, None, m)
           else (Some (Errorf ''another model is downloading''), None, m)
      else if ml_running m
      then (Some (Errorf ''the last download is still stopping; try again in a moment''), None, m)
      else (let g = ml_generation m + 1
            in (None, Some g,
                \<lparr>ml_pull = Some \<lparr>mp_model = model, mp_state = ''pulling'', mp_phase = ''starting'',
                                mp_percent = None, mp_error = []\<rparr>,
                 ml_cancel = Some g, ml_running = True, ml_generation = g\<rparr>)))"

definition pull_model ::
    "'w model_ports \<Rightarrow> rt_domain \<Rightarrow> string \<Rightarrow> model_state option \<Rightarrow> 'w \<Rightarrow>
     (models_status res \<times> 64 word option \<times> model_state option) \<times> 'w" where
  "pull_model ports d model m w =
     (case m of
        None \<Rightarrow> ((Inl models_unavailable, None, None), w)
      | Some m \<Rightarrow>
          if \<not> model_name model then ((Inl (Errorf ''invalid model name''), None, Some m), w)
          else (case engine_running ports w of
              (Some e, w') \<Rightarrow> ((Inl e, None, Some m), w')
            | (None, w') \<Rightarrow>
                (case accept_pull model m of
                   (Some e, g, m') \<Rightarrow> ((Inl e, g, Some m'), w')
                 | (None, g, m') \<Rightarrow> ((Inr (models_status_locked (mo_embedding ports) d m'), g, Some m'), w'))))"

text \<open>What the work of generation \<open>g\<close> does when the engine reports progress, and when it ends.\<close>

definition report_progress :: "64 word \<Rightarrow> string \<Rightarrow> int \<Rightarrow> model_state \<Rightarrow> model_state" where
  "report_progress g phase percent m =
     (case ml_pull m of
        None \<Rightarrow> m
      | Some p \<Rightarrow>
          if ml_generation m \<noteq> g \<or> mp_state p \<noteq> ''pulling'' \<or> \<not> contains_str pull_phases phase then m
          else m\<lparr>ml_pull := Some (p\<lparr>mp_phase := phase,
                   mp_percent := (if 0 \<le> percent \<and> percent \<le> 100 then Some percent else mp_percent p)\<rparr>)\<rparr>)"

definition pull_failure_detail :: "pull_error \<Rightarrow> string" where
  "pull_failure_detail e = (case pe_failure e of None \<Rightarrow> [] | Some detail \<Rightarrow> detail)"

definition ended_pull :: "pull_error option \<Rightarrow> bool \<Rightarrow> model_pull \<Rightarrow> model_pull" where
  "ended_pull err timed_out p =
     (let p = p\<lparr>mp_phase := []\<rparr>;
          failed = (\<lambda>text. p\<lparr>mp_state := ''failed'', mp_error := text\<rparr>)
      in if mp_state p = ''cancelled'' then p
         else case err of
             None \<Rightarrow> p\<lparr>mp_state := ''done'', mp_percent := None\<rparr>
           | Some e \<Rightarrow>
               if pe_not_found e then failed ''the registry has no model by this name''
               else if timed_out then failed ''the download took too long and was stopped''
               else if pull_failure_detail e \<noteq> [] then failed (''the engine reported: '' @ pull_failure_detail e)
               else failed ''the download failed; check the network and the free disk space'')"

definition finish_pull :: "64 word \<Rightarrow> pull_error option \<Rightarrow> bool \<Rightarrow> model_state \<Rightarrow> model_state" where
  "finish_pull g err timed_out m =
     (case ml_pull m of
        None \<Rightarrow> m
      | Some p \<Rightarrow>
          if ml_generation m \<noteq> g then m
          else m\<lparr>ml_running := False, ml_cancel := None, ml_pull := Some (ended_pull err timed_out p)\<rparr>)"

text \<open>\<open>CancelPull\<close>; with the generation whose context it cancels, if any.\<close>

definition cancel_locked :: "model_state \<Rightarrow> 64 word option \<times> model_state" where
  "cancel_locked m =
     (case ml_pull m of
        None \<Rightarrow> (None, m)
      | Some p \<Rightarrow>
          if mp_state p = ''pulling''
          then (ml_cancel m, m\<lparr>ml_pull := Some (p\<lparr>mp_state := ''cancelled'', mp_phase := [], mp_percent := None\<rparr>)\<rparr>)
          else (None, m))"

definition cancel_pull ::
    "string \<Rightarrow> rt_domain \<Rightarrow> model_state option \<Rightarrow> models_status res \<times> 64 word option \<times> model_state option" where
  "cancel_pull embedding d m =
     (case m of
        None \<Rightarrow> (Inl models_unavailable, None, None)
      | Some m \<Rightarrow>
          (case cancel_locked m of
             (g, m') \<Rightarrow> (Inr (models_status_locked embedding d m'), g, Some m')))"

subsection \<open>Removal and the engine\<close>

text \<open>A name without a tag means its \<open>latest\<close> tag; the tag follows the last slash.\<close>

definition with_tag :: "string \<Rightarrow> string" where
  "with_tag name =
     (if CHR '':'' \<in> set (rev (takeWhile (\<lambda>c. c \<noteq> CHR ''/'') (rev name))) then name else name @ '':latest'')"

definition same_model :: "string \<Rightarrow> string \<Rightarrow> bool" where
  "same_model a b \<longleftrightarrow> with_tag a = with_tag b"

text \<open>The module that embeds with the model and runs, of those the code names.\<close>

definition embeds_running :: "(string \<Rightarrow> container) \<Rightarrow> string \<Rightarrow> bool" where
  "embeds_running containers name =
     (case rt_lookup name of None \<Rightarrow> False | Some m \<Rightarrow> ct_running (containers (rm_service m)))"

definition chat_uses :: "chat_binding res \<Rightarrow> string \<Rightarrow> bool" where
  "chat_uses answer model =
     (case answer of
        Inl e \<Rightarrow> False
      | Inr b \<Rightarrow> cb_provider b = ''ollama'' \<and> same_model (cb_model b) model)"

definition remove_model ::
    "'w model_ports \<Rightarrow> rt_domain \<Rightarrow> string \<Rightarrow> model_state option \<Rightarrow> 'w \<Rightarrow> models_status res \<times> 'w" where
  "remove_model ports d model m w =
     (case m of
        None \<Rightarrow> (Inl models_unavailable, w)
      | Some m \<Rightarrow>
          if \<not> model_name model then (Inl (Errorf ''invalid model name''), w)
          else if is_pulling m \<and> pull_named m model
          then (Inl (Errorf ''this model is downloading; cancel the download first''), w)
          else (case (case mo_chat ports of
                        None \<Rightarrow> (False, w)
                      | Some read \<Rightarrow> (case read w of (answer, w1) \<Rightarrow> (chat_uses answer model, w1))) of
              (True, w1) \<Rightarrow> (Inl (Errorf ''chat uses this model; choose another chat model first''), w1)
            | (False, w1) \<Rightarrow>
                (case mo_status ports w1 of
                   (Inl e, w2) \<Rightarrow> (Inl (Errorf ''cannot read the modules' state''), w2)
                 | (Inr containers, w2) \<Rightarrow>
                     if \<not> ct_running (containers engine_service)
                     then (Inl (Errorf ''the local model engine is stopped''), w2)
                     else if same_model model (mo_embedding ports) \<and>
                         list_ex (embeds_running containers) [''memory'', ''knowledge'']
                     then (Inl (Errorf ''memory and knowledge embed with this model; stop them first''), w2)
                     else (case mo_remove ports model w2 of
                         (Some e, w3) \<Rightarrow>
                           (Inl (Errorf (if errors_is e ErrModelNotFound then ''the engine has no model by this name''
                                         else ''the engine could not remove the model'')), w3)
                       | (None, w3) \<Rightarrow> (Inr (models_status_locked (mo_embedding ports) d m), w3)))))"

definition start_engine ::
    "string \<Rightarrow> rt_domain \<Rightarrow> model_state option \<Rightarrow> models_status res \<times> bool \<times> rt_domain" where
  "start_engine embedding d m =
     (case m of
        None \<Rightarrow> (Inl models_unavailable, False, d)
      | Some m \<Rightarrow>
          (case set_module (case rt_lookup ''embeddings'' of None \<Rightarrow> md [] [] [] 0 False | Some e \<Rightarrow> e) True d of
             (Inl e, started, d') \<Rightarrow> (Inl e, started, d')
           | (Inr snapshot, started, d') \<Rightarrow> (Inr (models_status_locked embedding d' m), started, d')))"

subsection \<open>Runs\<close>

text \<open>
  The state with the works that have not ended: each with its generation and whether its context was
  cancelled.  A request starts a work when it is accepted; a work reports and ends while it is there.
\<close>

record pull_world =
  pw_state :: model_state
  pw_works :: "(64 word \<times> bool) list"

datatype pull_event =
    Ask_Pull string
  | Report "64 word" string int
  | End_Work "64 word" "pull_error option" bool
  | Ask_Cancel

fun pull_step :: "pull_event \<Rightarrow> pull_world \<Rightarrow> pull_world" where
  "pull_step (Ask_Pull model) s =
     (case accept_pull model (pw_state s) of
        (e, None, m) \<Rightarrow> s\<lparr>pw_state := m\<rparr>
      | (e, Some g, m) \<Rightarrow> \<lparr>pw_state = m, pw_works = (g, False) # pw_works s\<rparr>)"
| "pull_step (Report g phase percent) s =
     (if g \<in> fst ` set (pw_works s) then s\<lparr>pw_state := report_progress g phase percent (pw_state s)\<rparr> else s)"
| "pull_step (End_Work g err timed_out) s =
     (if g \<in> fst ` set (pw_works s)
      then \<lparr>pw_state = finish_pull g err timed_out (pw_state s), pw_works = filter (\<lambda>(h, c). h \<noteq> g) (pw_works s)\<rparr>
      else s)"
| "pull_step Ask_Cancel s =
     (case cancel_locked (pw_state s) of
        (g, m) \<Rightarrow> \<lparr>pw_state = m, pw_works = map (\<lambda>(h, c). (h, c \<or> g = Some h)) (pw_works s)\<rparr>)"

definition run_pulls :: "pull_event list \<Rightarrow> pull_world" where
  "run_pulls es = fold pull_step es \<lparr>pw_state = with_models, pw_works = []\<rparr>"


subsection \<open>One download at a time\<close>

text \<open>
  What holds of a run: a work is there exactly while \<open>running\<close>, one, of the current generation, and
  \<open>cancel\<close> is its context; its context is cancelled exactly when the download shows as cancelled.
\<close>

definition pull_shown_ok :: "model_pull \<Rightarrow> bool" where
  "pull_shown_ok p \<longleftrightarrow>
     contains_str [''pulling'', ''done'', ''failed'', ''cancelled''] (mp_state p) \<and>
     (if mp_state p = ''pulling'' then contains_str pull_phases (mp_phase p) else mp_phase p = []) \<and>
     (mp_error p \<noteq> []) = (mp_state p = ''failed'') \<and>
     (case mp_percent p of None \<Rightarrow> True
      | Some n \<Rightarrow> 0 \<le> n \<and> n \<le> 100 \<and> (mp_state p = ''pulling'' \<or> mp_state p = ''failed''))"

definition pull_ok :: "pull_world \<Rightarrow> bool" where
  "pull_ok s \<longleftrightarrow>
     (let m = pw_state s
      in ml_cancel m = (if ml_running m then Some (ml_generation m) else None) \<and>
         (case ml_pull m of
            None \<Rightarrow> \<not> ml_running m \<and> pw_works s = []
          | Some p \<Rightarrow> pull_shown_ok p \<and>
              (if ml_running m then mp_state p = ''pulling'' \<or> mp_state p = ''cancelled''
               else mp_state p \<noteq> ''pulling'') \<and>
              pw_works s = (if ml_running m then [(ml_generation m, mp_state p = ''cancelled'')] else [])))"

lemma shown_fresh:
  "pull_shown_ok \<lparr>mp_model = model, mp_state = ''pulling'', mp_phase = ''starting'', mp_percent = None, mp_error = []\<rparr>"
  by (simp add: pull_shown_ok_def pull_phases_def)

lemma shown_report:
  assumes "pull_shown_ok p" "mp_state p = ''pulling''" "contains_str pull_phases phase"
  shows "pull_shown_ok (p\<lparr>mp_phase := phase,
    mp_percent := (if 0 \<le> percent \<and> percent \<le> 100 then Some percent else mp_percent p)\<rparr>)"
  using assms by (cases "mp_percent p") (simp_all add: pull_shown_ok_def)

lemma shown_cancel:
  assumes "pull_shown_ok p" "mp_state p = ''pulling''"
  shows "pull_shown_ok (p\<lparr>mp_state := ''cancelled'', mp_phase := [], mp_percent := None\<rparr>)"
  using assms by (simp add: pull_shown_ok_def)

lemma shown_end:
  assumes "pull_shown_ok p" "mp_state p = ''pulling'' \<or> mp_state p = ''cancelled''"
  shows "pull_shown_ok (ended_pull err late p)" "mp_state (ended_pull err late p) \<noteq> ''pulling''"
  using assms(2)
  by (rule disjE; use assms(1) in \<open>simp add: ended_pull_def pull_shown_ok_def Let_def split: option.splits\<close>)+

lemma pull_ok_start: "pull_ok \<lparr>pw_state = with_models, pw_works = []\<rparr>"
  by (simp add: pull_ok_def with_models_def)

lemma pull_ok_ask:
  assumes "pull_ok s"
  shows "pull_ok (pull_step (Ask_Pull model) s)"
proof (cases "is_pulling (pw_state s) \<or> ml_running (pw_state s)")
  case False
  then have "pw_works s = []" using assms by (simp add: pull_ok_def Let_def split: option.splits)
  with False show ?thesis by (simp add: accept_pull_def Let_def pull_ok_def shown_fresh)
qed (use assms in \<open>auto simp: accept_pull_def\<close>)

lemma pull_ok_report: "pull_ok s \<Longrightarrow> pull_ok (pull_step (Report g phase percent) s)"
  by (cases "ml_pull (pw_state s)")
    (auto simp: report_progress_def pull_ok_def Let_def shown_report simp del: contains_str_iff split: if_splits)

lemma pull_ok_end: "pull_ok s \<Longrightarrow> pull_ok (pull_step (End_Work g err late) s)"
  by (cases "ml_pull (pw_state s)")
    (simp_all add: finish_pull_def pull_ok_def Let_def shown_end split: if_splits)

lemma pull_ok_cancel: "pull_ok s \<Longrightarrow> pull_ok (pull_step Ask_Cancel s)"
  by (cases "ml_pull (pw_state s)")
    (auto simp: cancel_locked_def pull_ok_def Let_def shown_cancel split: if_splits)

lemma pull_ok_step: "pull_ok s \<Longrightarrow> pull_ok (pull_step e s)"
  by (cases e) (simp_all only: pull_ok_ask pull_ok_report pull_ok_end pull_ok_cancel)

lemma pull_ok_fold: "pull_ok s \<Longrightarrow> pull_ok (fold pull_step es s)"
  by (induction es arbitrary: s) (simp_all add: pull_ok_step)

lemma pull_ok_run: "pull_ok (run_pulls es)"
  by (simp add: run_pulls_def pull_ok_fold pull_ok_start)

text \<open>
  C11.  Downloads never overlap.  Whatever the order of requests, reports, ends and cancellations, there is a
  work exactly while the state says so, one, of the current generation; the context it can be cancelled
  by is its own; what a screen shows is a state, a phase, a percent and an error that go together.
\<close>

theorem downloads_never_overlap: "pull_ok (run_pulls es)"
  by (rule pull_ok_run)

definition cancelled_pull :: "model_pull \<Rightarrow> model_pull" where
  "cancelled_pull p = p\<lparr>mp_state := ''cancelled'', mp_phase := [], mp_percent := None\<rparr>"

definition asks :: "pull_event \<Rightarrow> bool" where
  "asks e = (case e of Ask_Pull model \<Rightarrow> True | _ \<Rightarrow> False)"

definition ends :: "pull_event \<Rightarrow> bool" where
  "ends e = (case e of End_Work g err late \<Rightarrow> True | _ \<Rightarrow> False)"

definition shows_cancelled :: "model_pull \<Rightarrow> pull_world \<Rightarrow> bool" where
  "shows_cancelled p s \<longleftrightarrow> ml_pull (pw_state s) = Some (cancelled_pull p)"

lemma cancelled_kept:
  assumes "shows_cancelled p s" "\<not> asks e \<or> ml_running (pw_state s) \<and> \<not> ends e"
  shows "shows_cancelled p (pull_step e s) \<and> (ends e \<or> ml_running (pw_state (pull_step e s)) = ml_running (pw_state s))"
  using assms
  by (cases e)
    (simp_all add: shows_cancelled_def cancelled_pull_def asks_def ends_def accept_pull_def is_pulling_def
      report_progress_def finish_pull_def ended_pull_def cancel_locked_def Let_def)


lemma run_pulls_append: "run_pulls (es @ fs) = fold pull_step fs (run_pulls es)"
  by (simp add: run_pulls_def)

lemma cancelled_without_asks:
  "shows_cancelled p s \<Longrightarrow> shows_cancelled p (fold pull_step (filter (\<lambda>e. \<not> asks e) es) s)"
  by (induction es arbitrary: s) (simp_all add: cancelled_kept)

lemma cancelled_while_ending:
  "shows_cancelled p s \<Longrightarrow> ml_running (pw_state s) \<Longrightarrow>
    shows_cancelled p (fold pull_step (filter (\<lambda>e. \<not> ends e) es) s)"
proof (induction es arbitrary: s)
  case (Cons e es)
  then show ?case using cancelled_kept [of p s e] by auto
qed simp

lemma cancel_shows:
  assumes "ml_pull (pw_state s) = Some p" "mp_state p = ''pulling''"
  shows "shows_cancelled p (pull_step Ask_Cancel s)" "ml_running (pw_state (pull_step Ask_Cancel s)) = ml_running (pw_state s)"
  using assms by (simp_all add: shows_cancelled_def cancelled_pull_def cancel_locked_def)

lemma pulling_runs: "is_pulling (pw_state (run_pulls es)) \<Longrightarrow> ml_running (pw_state (run_pulls es))"
  using pull_ok_run [of es] by (auto simp: pull_ok_def is_pulling_def Let_def split: option.splits if_splits)

text \<open>
  A cancelled download stays cancelled.  Until its work has ended no request starts another and nothing
  the work reports shows; and once it has ended, however it ended, the screen still says cancelled until
  the next request.
\<close>

theorem cancelled_stays_cancelled:
  "case ml_pull (pw_state (run_pulls es)) of
     None \<Rightarrow> True
   | Some p \<Rightarrow>
       if mp_state p = ''pulling''
       then shows_cancelled p (run_pulls (es @ Ask_Cancel # filter (\<lambda>e. \<not> ends e) fs)) \<and>
            shows_cancelled p (run_pulls (es @ Ask_Cancel # filter (\<lambda>e. \<not> ends e) fs @ filter (\<lambda>e. \<not> asks e) gs))
       else True"
proof (cases "ml_pull (pw_state (run_pulls es))")
  case (Some p)
  then show ?thesis
    using pulling_runs [of es] cancel_shows [of "run_pulls es" p]
    by (simp add: run_pulls_append cancelled_without_asks cancelled_while_ending is_pulling_def)
qed simp

subsection \<open>Removal\<close>

text \<open>The ports whose world is the list of the models removed.\<close>

definition removal_ports ::
    "string \<Rightarrow> chat_binding res option \<Rightarrow> (string \<Rightarrow> container) res \<Rightarrow> gerror option \<Rightarrow> string list model_ports" where
  "removal_ports embedding binding containers err =
     \<lparr>mo_embedding = embedding,
      mo_remove = (\<lambda>model calls. (err, calls @ [model])),
      mo_chat = map_option (\<lambda>b calls. (b, calls)) binding,
      mo_status = (\<lambda>calls. (containers, calls))\<rparr>"

text \<open>
  A model in use is never removed.  The engine is asked to remove a model once at most, and then it is the
  named one, with a valid name, not downloading, not the model chat is bound to, with the engine
  running, and, when memory and knowledge embed with it under whatever tag, neither of them running.
\<close>

theorem used_model_is_kept:
  "case remove_model (removal_ports embedding binding containers err) d model m [] of
     (answer, calls) \<Rightarrow>
       calls = [] \<or>
       calls = [model] \<and> model_name model \<and>
       (case m of None \<Rightarrow> False | Some m \<Rightarrow> \<not> (is_pulling m \<and> pull_named m model)) \<and>
       (case binding of None \<Rightarrow> True | Some b \<Rightarrow> \<not> chat_uses b model) \<and>
       (case containers of
          Inl e \<Rightarrow> False
        | Inr c \<Rightarrow> ct_running (c ''dokja-ollama'') \<and>
            \<not> (same_model model embedding \<and> (embeds_running c ''memory'' \<or> embeds_running c ''knowledge''))) \<and>
       (err = None) = (\<exists>st. answer = Inr st)"
  by (cases m; cases binding; cases containers; cases err)
    (simp_all add: remove_model_def removal_ports_def engine_service_def split: bool.split)

end
