(* ===== verification/Runtime_Providers.thy ===== *)
theory Runtime_Providers
  imports Runtime_Models
begin

section \<open>The inventory of providers\<close>

text \<open>
  \<open>dokja_domain/dokja_runtime/providers.go\<close>: what a screen shows of the providers, from what the
  operator declared and what the inspector observed.  The store of the declarations, the inspector and
  the time are parameters.
\<close>

record observation =
  ob_id :: string
  ob_state :: string
  ob_reason :: string
  ob_models :: "string list"
  ob_sizes :: "string \<rightharpoonup> string"
  ob_truncated :: bool

record provider_row =
  pr_enabled :: bool
  pr_declared :: "string list"
  pr_id :: string
  pr_name :: string
  pr_state :: string
  pr_reason :: string
  pr_models :: "string list"
  pr_discovery :: string
  pr_inference :: string
  pr_truncated :: bool
  pr_sizes :: "string \<rightharpoonup> string"
  pr_embedding :: string

record 't providers_view =
  pv_revision :: "64 word"
  pv_error :: string
  pv_providers :: "provider_row list"
  pv_checked_at :: 't

record 'w inventory_ports =
  ip_settings :: "('w \<Rightarrow> preferences res \<times> 'w) option"
  ip_inspect :: "((string \<rightharpoonup> bool) \<Rightarrow> 'w \<Rightarrow> observation list \<times> 'w) option"
  ip_embedding :: "string option"

text \<open>The pattern of a size: \<open>^[0-9]{1,6}(\.[0-9]{1,2})? (B|KB|MB|GB|TB)$\<close>.\<close>

definition is_digit :: "char \<Rightarrow> bool" where
  "is_digit c \<longleftrightarrow> c \<in> set ''0123456789''"

definition unit_suffix :: "string \<Rightarrow> bool" where
  "unit_suffix text = contains_str ['' B'', '' KB'', '' MB'', '' GB'', '' TB''] text"

definition model_size :: "string \<Rightarrow> bool" where
  "model_size text =
     (let whole = takeWhile is_digit text; rest = dropWhile is_digit text
      in whole \<noteq> [] \<and> length whole \<le> 6 \<and>
         (case rest of
            [] \<Rightarrow> False
          | c # cs \<Rightarrow>
              if c = CHR ''.''
              then (let part = takeWhile is_digit cs
                    in part \<noteq> [] \<and> length part \<le> 2 \<and> unit_suffix (dropWhile is_digit cs))
              else unit_suffix rest))"

definition allowed_reasons :: "string list" where
  "allowed_reasons =
     [''executable_missing'', ''service_stopped'', ''engine_unavailable'', ''inspection_failed'',
      ''invalid_response'', ''timeout'']"

definition MaxListedModels :: nat where
  "MaxListedModels = 64"

text \<open>One name of the listing that was not seen before, with the engine's figure of its size.\<close>

definition list_model :: "(string \<rightharpoonup> string) \<Rightarrow> string \<Rightarrow> provider_row \<Rightarrow> provider_row" where
  "list_model sizes name row =
     (if length (pr_models row) < MaxListedModels
      then (let row = row\<lparr>pr_models := pr_models row @ [name]\<rparr>;
                text = (case sizes name of None \<Rightarrow> [] | Some t \<Rightarrow> t)
            in if model_size text then row\<lparr>pr_sizes := (pr_sizes row)(name \<mapsto> text)\<rparr> else row)
      else row\<lparr>pr_truncated := True\<rparr>)"

text \<open>The loop over the models the engine lists; it breaks at a name that is none.\<close>

fun list_models :: "(string \<rightharpoonup> string) \<Rightarrow> string list \<Rightarrow> string list \<Rightarrow> provider_row \<Rightarrow> provider_row" where
  "list_models sizes seen [] row = row"
| "list_models sizes seen (name # names) row =
     (if \<not> model_name name
      then row\<lparr>pr_state := ''unavailable'', pr_reason := ''invalid_response'', pr_discovery := ''unavailable'',
               pr_models := []\<rparr>
      else if contains_str seen name then list_models sizes seen names row
      else list_models sizes (name # seen) names (list_model sizes name row))"

definition observed_row :: "observation \<Rightarrow> provider_row \<Rightarrow> provider_row" where
  "observed_row obs row =
     (let row = (if contains_str allowed_reasons (ob_reason obs) then row\<lparr>pr_reason := ob_reason obs\<rparr> else row)
      in if pr_id row \<noteq> ''ollama'' \<and> ob_state obs = ''installed''
         then row\<lparr>pr_state := ''installed'', pr_reason := [], pr_discovery := ''unsupported''\<rparr>
         else if pr_id row = ''ollama'' \<and> ob_state obs = ''reachable''
         then (let row = list_models (ob_sizes obs) [] (ob_models obs)
                     (row\<lparr>pr_state := ''reachable'', pr_reason := [], pr_discovery := ''listed''\<rparr>)
               in row\<lparr>pr_truncated := (pr_truncated row \<or> ob_truncated obs), pr_models := sort (pr_models row)\<rparr>)
         else row)"

text \<open>The embedding model under the name the engine lists it by.\<close>

definition embedding_named :: "string \<Rightarrow> string list \<Rightarrow> string" where
  "embedding_named embedding names = List.fold (\<lambda>name e. if same_model name e then name else e) names embedding"

definition registered :: "registration list \<Rightarrow> string \<Rightarrow> registration option" where
  "registered ps i = find (\<lambda>p. rg_id p = i) (rev ps)"

definition provider_row_of ::
    "string option \<Rightarrow> registration list \<Rightarrow> observation list \<Rightarrow> string \<times> string \<Rightarrow> provider_row" where
  "provider_row_of embedding ps observations spec =
     (let (i, name) = spec;
          enabled = (case registered ps i of None \<Rightarrow> False | Some p \<Rightarrow> rg_enabled p);
          row = \<lparr>pr_enabled = enabled,
                 pr_declared = (case registered ps i of None \<Rightarrow> [] | Some p \<Rightarrow> rg_models p),
                 pr_id = i, pr_name = name, pr_state = ''unavailable'',
                 pr_reason = (if enabled then ''inspection_unavailable'' else ''disabled''),
                 pr_models = [], pr_discovery = ''unavailable'', pr_inference = ''not_tested'',
                 pr_truncated = False, pr_sizes = Map.empty, pr_embedding = []\<rparr>;
          row = (if enabled
                 then (case find (\<lambda>obs. ob_id obs = i) (rev observations) of
                         None \<Rightarrow> row | Some obs \<Rightarrow> observed_row obs row)
                 else row)
      in case embedding of
           None \<Rightarrow> row
         | Some e \<Rightarrow>
             if i = ''ollama'' then row\<lparr>pr_embedding := embedding_named e (pr_models row)\<rparr> else row)"

text \<open>The declarations as the view reads them: the stored ones, or the defaults with no revision.\<close>

definition view_preferences :: "'w inventory_ports \<Rightarrow> 'w \<Rightarrow> (64 word \<times> registration list) res \<times> 'w" where
  "view_preferences ports w =
     (case ip_settings ports of
        None \<Rightarrow>
          (Inr (0, case decode_preferences 1 default_provider_values of Inl e \<Rightarrow> [] | Inr p \<Rightarrow> pf_providers p), w)
      | Some read \<Rightarrow>
          (case read w of
             (Inl e, w') \<Rightarrow> (Inl e, w')
           | (Inr p, w') \<Rightarrow> (Inr (pf_revision p, pf_providers p), w')))"

definition providers :: "'w inventory_ports \<Rightarrow> 't \<Rightarrow> 'w \<Rightarrow> 't providers_view \<times> 'w" where
  "providers ports now w =
     (case view_preferences ports w of
        (Inl e, w1) \<Rightarrow>
          (\<lparr>pv_revision = 0, pv_error = ''cannot read provider configuration'', pv_providers = [],
            pv_checked_at = now\<rparr>, w1)
      | (Inr (revision, ps), w1) \<Rightarrow>
          (case (case ip_inspect ports of
                   None \<Rightarrow> ([], w1)
                 | Some inspect \<Rightarrow> inspect (\<lambda>i. map_option rg_enabled (registered ps i)) w1) of
             (observations, w2) \<Rightarrow>
               (\<lparr>pv_revision = revision, pv_error = [],
                 pv_providers = map (provider_row_of (ip_embedding ports) ps observations) provider_specs,
                 pv_checked_at = now\<rparr>, w2)))"

subsection \<open>What a row may show\<close>

definition row_states :: "string list" where
  "row_states = [''unavailable'', ''installed'', ''reachable'']"

lemma list_model_kept [simp]:
  "pr_id (list_model sizes name row) = pr_id row" "pr_enabled (list_model sizes name row) = pr_enabled row"
  "pr_inference (list_model sizes name row) = pr_inference row" "pr_state (list_model sizes name row) = pr_state row"
  "pr_reason (list_model sizes name row) = pr_reason row"
  by (simp_all add: list_model_def Let_def)

lemma list_models_kept [simp]:
  "pr_id (list_models sizes seen names row) = pr_id row"
  "pr_enabled (list_models sizes seen names row) = pr_enabled row"
  "pr_inference (list_models sizes seen names row) = pr_inference row"
  by (induction sizes seen names row rule: list_models.induct) simp_all

lemma list_models_state:
  assumes "pr_state row = ''reachable''" "pr_reason row = []"
  shows "pr_state (list_models sizes seen names row) = ''reachable'' \<and> pr_reason (list_models sizes seen names row) = [] \<or>
    pr_state (list_models sizes seen names row) = ''unavailable'' \<and>
    pr_reason (list_models sizes seen names row) = ''invalid_response'' \<and> pr_models (list_models sizes seen names row) = []"
  using assms by (induction sizes seen names row rule: list_models.induct) simp_all

definition names_ok :: "provider_row \<Rightarrow> bool" where
  "names_ok row \<longleftrightarrow> list_all model_name (pr_models row) \<and> distinct (pr_models row) \<and> length (pr_models row) \<le> MaxListedModels"

lemma names_ok_add:
  assumes "names_ok row" "set (pr_models row) \<subseteq> set seen" "model_name name" "name \<notin> set seen"
  shows "names_ok (list_model sizes name row) \<and> set (pr_models (list_model sizes name row)) \<subseteq> set (name # seen)"
  using assms by (auto simp: names_ok_def list_model_def Let_def)

lemma list_models_names:
  assumes "names_ok row" "set (pr_models row) \<subseteq> set seen"
  shows "names_ok (list_models sizes seen names row)"
  using assms
proof (induction sizes seen names row rule: list_models.induct)
  case (2 sizes seen name names row)
  show ?case
  proof (cases "model_name name \<and> name \<notin> set seen")
    case True
    with 2 names_ok_add [of row seen name sizes] show ?thesis by simp
  qed (use 2 in \<open>auto simp: names_ok_def\<close>)
qed simp

definition row_names :: "provider_row \<Rightarrow> bool" where
  "row_names row \<longleftrightarrow> names_ok row \<and> sorted (pr_models row)"

definition row_state :: "provider_row \<Rightarrow> bool" where
  "row_state row \<longleftrightarrow>
     contains_str row_states (pr_state row) \<and>
     (pr_state row = ''unavailable'') = (pr_reason row \<noteq> []) \<and>
     contains_str (allowed_reasons @ [[], ''inspection_unavailable'', ''disabled'']) (pr_reason row) \<and>
     (if pr_state row = ''reachable'' then pr_id row = ''ollama'' else pr_models row = []) \<and>
     (if pr_enabled row then pr_reason row \<noteq> ''disabled'' else pr_reason row = ''disabled'') \<and>
     pr_inference row = ''not_tested''"

lemma observed_names:
  assumes "pr_models row = []"
  shows "row_names (observed_row obs row)"
proof -
  have "names_ok (list_models (ob_sizes obs) [] (ob_models obs) r)" if "pr_models r = []" for r
    by (rule list_models_names) (use that in \<open>simp_all add: names_ok_def\<close>)
  moreover have "list_all model_name (sort names) = list_all model_name names" for names
    by (simp add: list_all_iff)
  ultimately show ?thesis using assms by (simp add: row_names_def observed_row_def Let_def names_ok_def)
qed

lemma observed_state:
  assumes "pr_state row = ''unavailable''" "pr_reason row = ''inspection_unavailable''" "pr_models row = []"
    "pr_enabled row" "pr_inference row = ''not_tested''"
  shows "row_state (observed_row obs row)" "pr_id (observed_row obs row) = pr_id row"
proof -
  let ?row = "if contains_str allowed_reasons (ob_reason obs) then row\<lparr>pr_reason := ob_reason obs\<rparr> else row"
  have r: "pr_reason ?row \<noteq> [] \<and> pr_reason ?row \<noteq> ''disabled'' \<and>
      pr_reason ?row \<in> insert ''inspection_unavailable'' (set allowed_reasons)"
    using assms(2) by (auto simp: allowed_reasons_def)
  have l: "row_state (row'\<lparr>pr_truncated := t, pr_models := sort (pr_models row')\<rparr>)"
    if id: "pr_id row = ''ollama''"
      and row': "row' = list_models sizes [] names (row\<lparr>pr_state := ''reachable'', pr_reason := [], pr_discovery := ''listed''\<rparr>)"
    for row' sizes names t
  proof -
    have "pr_id row' = ''ollama''" "pr_enabled row'" "pr_inference row' = ''not_tested''"
      unfolding row' using id assms by simp_all
    moreover have "pr_state row' = ''reachable'' \<and> pr_reason row' = [] \<or>
        pr_state row' = ''unavailable'' \<and> pr_reason row' = ''invalid_response'' \<and> pr_models row' = []"
      unfolding row' by (rule list_models_state) simp_all
    ultimately show ?thesis by (elim disjE) (simp_all add: row_state_def row_states_def allowed_reasons_def)
  qed
  show "row_state (observed_row obs row)"
  proof (cases "pr_id row = ''ollama'' \<and> ob_state obs = ''reachable''")
    case True
    then show ?thesis using l by (simp add: observed_row_def Let_def)
  next
    case False
    then show ?thesis using assms r by (auto simp: observed_row_def Let_def row_state_def row_states_def)
  qed
  show "pr_id (observed_row obs row) = pr_id row"
    by (simp add: observed_row_def Let_def)
qed

lemma row_of_shown:
  "row_state (provider_row_of embedding ps observations (i, n)) \<and> row_names (provider_row_of embedding ps observations (i, n)) \<and>
   pr_id (provider_row_of embedding ps observations (i, n)) = i"
proof -
  let ?row = "\<lambda>e ms t. \<lparr>pr_enabled = e, pr_declared = ms,
                 pr_id = i, pr_name = n, pr_state = ''unavailable'',
                 pr_reason = (if e then ''inspection_unavailable'' else ''disabled''),
                 pr_models = [], pr_discovery = ''unavailable'', pr_inference = ''not_tested'',
                 pr_truncated = False, pr_sizes = Map.empty, pr_embedding = t\<rparr>"
  have start: "row_state (?row e ms t) \<and> row_names (?row e ms t)" for e ms t
    by (simp add: row_state_def row_states_def row_names_def names_ok_def)
  have named: "row_state (row\<lparr>pr_embedding := t\<rparr>) = row_state row" "row_names (row\<lparr>pr_embedding := t\<rparr>) = row_names row" for row t
    by (simp_all add: row_state_def row_names_def names_ok_def)
  have seen: "row_state (observed_row obs (?row True ms [])) \<and> row_names (observed_row obs (?row True ms [])) \<and>
      pr_id (observed_row obs (?row True ms [])) = i" for obs ms
    using observed_state [of "?row True ms []" obs] observed_names [of "?row True ms []" obs] by simp
  show ?thesis
    using start [of True] start [of False] seen
    by (cases "i = ''ollama''") (simp_all add: provider_row_of_def Let_def named split: option.split)
qed

text \<open>
  The inventory shows no more than it may.  Every provider the program knows has one row, in order; a
  disabled one shows nothing of what was observed, only the local engine lists models, at most 64,
  each with a valid name, once and in order, and a reason from the fixed ones is given exactly when
  the provider is unavailable.
\<close>

theorem inventory_shows_what_it_may:
  "case providers ports now w of
     (v, w') \<Rightarrow>
       if pv_error v = []
       then map pr_id (pv_providers v) = map fst provider_specs \<and>
            list_all (\<lambda>row. row_state row \<and> row_names row) (pv_providers v)
       else pv_providers v = []"
  using row_of_shown
  by (auto simp: providers_def list_all_iff provider_specs_def split: sum.splits option.splits prod.splits)

text \<open>
  The sizes of a listing that breaks at an invalid name stay on the row, with no model to belong to.
\<close>

lemma sizes_outlive_the_listing:
  "let row = provider_row_of None [\<lparr>rg_id = ''ollama'', rg_enabled = True, rg_models = []\<rparr>]
       [\<lparr>ob_id = ''ollama'', ob_state = ''reachable'', ob_reason = [], ob_models = [''qwen'', '' ''],
         ob_sizes = [''qwen'' \<mapsto> ''4.7 GB''], ob_truncated = False\<rparr>] (''ollama'', ''Ollama'')
   in pr_models row = [] \<and> pr_state row = ''unavailable'' \<and> pr_sizes row ''qwen'' = Some ''4.7 GB''"
  by code_simp

end
