(* ===== verification/Scheduler.thy ===== *)
theory Scheduler
  imports Go_Duration Go_Strings Call_Log
begin

section \<open>The scheduler\<close>

text \<open>
  \<open>dokja_services/dokja_scheduler/scheduler/jobs.go\<close> and \<open>service.go\<close>: the jobs, the plan of when each
  runs next, the intervals the operator overrides, and the loop that runs what is due.  A time is the number of
  nanoseconds after Go's zero time, so \<open>IsZero\<close> is \<open>0\<close>.  The clock, the state file, the decoding of
  its JSON, the identity of an event and the socket are parameters over the world \<open>'w\<close>; which of the
  loop's channels is ready is the list of its wakes.
\<close>

subsection \<open>Events\<close>

record sch_event =
  se_id :: string
  se_timestamp :: int
  se_source :: string
  se_type :: string
  se_user_id :: string
  se_user_name :: string
  se_channel :: string
  se_payload :: "(string \<times> gval) list"
  se_context :: "(string \<times> gval) list"

definition new_event :: "string \<times> int \<Rightarrow> string \<Rightarrow> (string \<times> gval) list \<Rightarrow> (string \<times> gval) list \<Rightarrow> sch_event" where
  "new_event stamp event_type payload ctx =
     \<lparr>se_id = fst stamp, se_timestamp = snd stamp, se_source = ''scheduler'', se_type = event_type,
      se_user_id = ''dokja-scheduler'', se_user_name = ''dokja-scheduler'', se_channel = ''scheduler'',
      se_payload = payload, se_context = ctx\<rparr>"

subsection \<open>Configuration\<close>

definition Minute :: int where
  "Minute = 60000000000"

definition min_override_interval :: int where
  "min_override_interval = Minute"

definition max_override_interval :: int where
  "max_override_interval = 30 * 24 * 60 * Minute"

definition announce_every :: int where
  "announce_every = 12"

definition announce_event_type :: string where
  "announce_event_type = ''scheduler.jobs.announce''"

record sch_config =
  sc_event_endpoint :: string
  sc_topic :: string
  sc_refresh_interval :: int
  sc_dispatch_interval :: int
  sc_intake_interval :: int
  sc_bootstrap_grace :: int
  sc_refresh_max_items :: int
  sc_dispatch_limit :: int
  sc_state_file :: string
  sc_state_poll :: int

definition duration_from_env :: "(string \<Rightarrow> string) \<Rightarrow> string \<Rightarrow> int \<Rightarrow> int res" where
  "duration_from_env env key fallback =
     (let raw = trim_space (env key)
      in if raw = [] then Inr fallback
         else case parse_duration raw of
             None \<Rightarrow> Inl (Wrapf (key @ '': parse duration: '') (Errorf ''time: invalid duration''))
           | Some d \<Rightarrow> Inr d)"

definition int_from_env :: "(string \<Rightarrow> string) \<Rightarrow> string \<Rightarrow> int \<Rightarrow> int res" where
  "int_from_env env key fallback =
     (let raw = trim_space (env key)
      in if raw = [] then Inr fallback
         else case atoi raw of
             None \<Rightarrow> Inl (Wrapf (key @ '': parse int: '') (Errorf ''strconv.Atoi: invalid syntax or out of range''))
           | Some n \<Rightarrow> Inr n)"

fun first_non_empty :: "string list \<Rightarrow> string" where
  "first_non_empty [] = []"
| "first_non_empty (v # vs) = (if trim_space v \<noteq> [] then v else first_non_empty vs)"

definition scheduler_from_env :: "(string \<Rightarrow> string) \<Rightarrow> sch_config res" where
  "scheduler_from_env env =
     (case duration_from_env env ''DOKJA_SCHEDULER_MEME_REFRESH_INTERVAL'' (45 * Minute) of
        Inl e \<Rightarrow> Inl e
      | Inr refresh \<Rightarrow>
     (case duration_from_env env ''DOKJA_SCHEDULER_MEME_DISPATCH_INTERVAL'' (6 * 60 * Minute) of
        Inl e \<Rightarrow> Inl e
      | Inr dispatch \<Rightarrow>
     (case duration_from_env env ''DOKJA_SCHEDULER_MEME_BOOTSTRAP_GRACE_PERIOD'' 15000000000 of
        Inl e \<Rightarrow> Inl e
      | Inr grace \<Rightarrow>
     (case int_from_env env ''DOKJA_SCHEDULER_MEME_REFRESH_MAX_ITEMS'' 20 of
        Inl e \<Rightarrow> Inl e
      | Inr items \<Rightarrow>
     (case int_from_env env ''DOKJA_SCHEDULER_MEME_DISPATCH_LIMIT'' 1 of
        Inl e \<Rightarrow> Inl e
      | Inr limit \<Rightarrow>
     (case duration_from_env env ''DOKJA_SCHEDULER_KNOWLEDGE_INTAKE_INTERVAL'' (60 * Minute) of
        Inl e \<Rightarrow> Inl e
      | Inr intake \<Rightarrow>
          Inr \<lparr>sc_event_endpoint = first_non_empty [env ''DOKJA_SCHEDULER_EVENT_ENDPOINT'', ''tcp://127.0.0.1:5555''],
               sc_topic = first_non_empty [env ''DOKJA_SCHEDULER_TOPIC'', ''events''],
               sc_refresh_interval = refresh, sc_dispatch_interval = dispatch, sc_intake_interval = intake,
               sc_bootstrap_grace = grace, sc_refresh_max_items = items, sc_dispatch_limit = limit,
               sc_state_file = trim_space (env ''DOKJA_STATE_FILE''), sc_state_poll = 5000000000\<rparr>))))))"

subsection \<open>Jobs\<close>

text \<open>A job is its name, its interval and the event its run emits: type, payload and schedule.\<close>

record sch_job =
  sj_name :: string
  sj_interval :: int
  sj_type :: string
  sj_payload :: "(string \<times> gval) list"

definition sched_jobs :: "sch_config \<Rightarrow> sch_job list" where
  "sched_jobs c =
     [\<lparr>sj_name = ''meme.refresh'', sj_interval = sc_refresh_interval c, sj_type = ''meme.pool.refresh'',
       sj_payload = [(''max_items_per_scraper'', VInt (sc_refresh_max_items c))]\<rparr>,
      \<lparr>sj_name = ''meme.dispatch'', sj_interval = sc_dispatch_interval c, sj_type = ''meme.dispatch.scheduled'',
       sj_payload = [(''limit'', VInt (sc_dispatch_limit c))]\<rparr>,
      \<lparr>sj_name = ''knowledge.intake'', sj_interval = sc_intake_interval c, sj_type = ''knowledge.intake.run'',
       sj_payload = []\<rparr>]"

definition job_context :: "sch_job \<Rightarrow> (string \<times> gval) list" where
  "job_context j = [(''interface'', VStr ''scheduler''), (''schedule'', VStr (sj_name j))]"

subsection \<open>The plan\<close>

record sch_plan =
  sp_jobs :: "sch_job list"
  sp_overrides :: "string \<rightharpoonup> int"
  sp_last :: "string \<rightharpoonup> int"
  sp_next :: "string \<rightharpoonup> int"

text \<open>A map of times gives the zero time for a key it does not have.\<close>

definition time_of :: "(string \<rightharpoonup> int) \<Rightarrow> string \<Rightarrow> int" where
  "time_of m name = (case m name of None \<Rightarrow> 0 | Some t \<Rightarrow> t)"

definition new_plan :: "sch_job list \<Rightarrow> int \<Rightarrow> sch_plan" where
  "new_plan jobs now =
     \<lparr>sp_jobs = jobs, sp_overrides = Map.empty, sp_last = Map.empty,
      sp_next = fold (\<lambda>j m. m(sj_name j \<mapsto> now + sj_interval j)) jobs Map.empty\<rparr>"

definition plan_interval :: "sch_plan \<Rightarrow> sch_job \<Rightarrow> int" where
  "plan_interval p j = (case sp_overrides p (sj_name j) of Some i \<Rightarrow> i | None \<Rightarrow> sj_interval j)"

definition plan_ran :: "sch_job \<Rightarrow> int \<Rightarrow> sch_plan \<Rightarrow> sch_plan" where
  "plan_ran j now p =
     p\<lparr>sp_last := (sp_last p)(sj_name j \<mapsto> now), sp_next := (sp_next p)(sj_name j \<mapsto> now + plan_interval p j)\<rparr>"

text \<open>One job of \<open>applyOverrides\<close>, and the loop over all.\<close>

definition adopt_override :: "(string \<rightharpoonup> int) \<Rightarrow> int \<Rightarrow> sch_job \<Rightarrow> sch_plan \<times> bool \<Rightarrow> sch_plan \<times> bool" where
  "adopt_override overrides now j pc =
     (let (p, changed) = pc;
          before = plan_interval p j;
          p = p\<lparr>sp_overrides := (sp_overrides p)(sj_name j := overrides (sj_name j))\<rparr>
      in if plan_interval p j \<noteq> before
         then (p\<lparr>sp_next := (sp_next p)(sj_name j \<mapsto> now + plan_interval p j)\<rparr>, True)
         else (p, changed))"

definition apply_overrides :: "(string \<rightharpoonup> int) \<Rightarrow> int \<Rightarrow> sch_plan \<Rightarrow> sch_plan \<times> bool" where
  "apply_overrides overrides now p = fold (adopt_override overrides now) (sp_jobs p) (p, False)"

definition plan_earliest :: "sch_plan \<Rightarrow> int" where
  "plan_earliest p =
     fold (\<lambda>j first. let at_j = time_of (sp_next p) (sj_name j) in if first = 0 \<or> at_j < first then at_j else first)
       (sp_jobs p) 0"

definition plan_due :: "sch_plan \<Rightarrow> int \<Rightarrow> sch_job list" where
  "plan_due p now = filter (\<lambda>j. \<not> now < time_of (sp_next p) (sj_name j)) (sp_jobs p)"

definition announce_entry :: "(int \<Rightarrow> string) \<Rightarrow> sch_plan \<Rightarrow> sch_job \<Rightarrow> gval" where
  "announce_entry rfc3339 p j =
     VMap ([(''name'', VStr (sj_name j)), (''interval'', VStr (duration_string (plan_interval p j))),
            (''next_fire'', VStr (rfc3339 (time_of (sp_next p) (sj_name j))))] @
           (let t = time_of (sp_last p) (sj_name j)
            in if t \<noteq> 0 then [(''last_fire'', VStr (rfc3339 t))] else []))"

definition announce_payload :: "(int \<Rightarrow> string) \<Rightarrow> sch_plan \<Rightarrow> (string \<times> gval) list" where
  "announce_payload rfc3339 p = [(''jobs'', VList (map (announce_entry rfc3339 p) (sp_jobs p)))]"

subsection \<open>The operator's intervals\<close>

text \<open>What reading the state file gives, and its \<open>jobs\<close> as the JSON decoder finds them: name and interval.\<close>

datatype raw_file = File_Missing | File_Unreadable | File_Bytes string

definition usable_interval :: "string \<Rightarrow> int option" where
  "usable_interval text =
     (if text = [] then None
      else case parse_duration text of
          None \<Rightarrow> None
        | Some i \<Rightarrow> if i < min_override_interval \<or> i > max_override_interval then None else Some i)"

definition overrides_of :: "(string \<times> string) list \<Rightarrow> string \<rightharpoonup> int" where
  "overrides_of entries =
     fold (\<lambda>(name, text) m. case usable_interval text of None \<Rightarrow> m | Some i \<Rightarrow> m(name \<mapsto> i)) entries Map.empty"

record 'w sch_ports =
  sx_now :: "'w \<Rightarrow> int \<times> 'w"
  sx_stamp :: "'w \<Rightarrow> (string \<times> int) \<times> 'w"
  sx_emit :: "sch_event \<Rightarrow> 'w \<Rightarrow> gerror option \<times> 'w"
  sx_read :: "string \<Rightarrow> 'w \<Rightarrow> raw_file \<times> 'w"
  sx_decode :: "string \<Rightarrow> (string \<times> string) list option"
  sx_grace :: "int \<Rightarrow> 'w \<Rightarrow> gerror option \<times> 'w"
  sx_rfc3339 :: "int \<Rightarrow> string"

text \<open>The overrides, and whether they are to be adopted.\<close>

definition load_overrides :: "'w sch_ports \<Rightarrow> sch_config \<Rightarrow> 'w \<Rightarrow> ((string \<rightharpoonup> int) \<times> bool) \<times> 'w" where
  "load_overrides ports c w =
     (if sc_state_file c = [] then ((Map.empty, True), w)
      else case sx_read ports (sc_state_file c) w of
          (File_Missing, w') \<Rightarrow> ((Map.empty, True), w')
        | (File_Unreadable, w') \<Rightarrow> ((Map.empty, False), w')
        | (File_Bytes raw, w') \<Rightarrow>
            (case sx_decode ports raw of
               None \<Rightarrow> ((Map.empty, False), w')
             | Some entries \<Rightarrow> ((overrides_of entries, True), w')))"

subsection \<open>Running\<close>

definition emit_new ::
    "'w sch_ports \<Rightarrow> string \<Rightarrow> (string \<times> gval) list \<Rightarrow> (string \<times> gval) list \<Rightarrow> 'w \<Rightarrow> gerror option \<times> 'w" where
  "emit_new ports event_type payload ctx w =
     (case sx_stamp ports w of (stamp, w') \<Rightarrow> sx_emit ports (new_event stamp event_type payload ctx) w')"

definition announce :: "'w sch_ports \<Rightarrow> sch_plan \<Rightarrow> 'w \<Rightarrow> 'w" where
  "announce ports p w =
     snd (emit_new ports announce_event_type (announce_payload (sx_rfc3339 ports) p)
            [(''interface'', VStr ''scheduler'')] w)"

text \<open>A failure is logged; the countdown restarts all the same.\<close>

definition run_job :: "'w sch_ports \<Rightarrow> sch_job \<Rightarrow> sch_plan \<times> 'w \<Rightarrow> sch_plan \<times> 'w" where
  "run_job ports j pw =
     (case emit_new ports (sj_type j) (sj_payload j) (job_context j) (snd pw) of
        (err, w1) \<Rightarrow> (case sx_now ports w1 of (now, w2) \<Rightarrow> (plan_ran j now (fst pw), w2)))"

definition adopt :: "'w sch_ports \<Rightarrow> sch_config \<Rightarrow> sch_plan \<Rightarrow> 'w \<Rightarrow> (sch_plan \<times> bool) \<times> 'w" where
  "adopt ports c p w =
     (case load_overrides ports c w of
        ((overrides, usable), w1) \<Rightarrow>
          if usable then (case sx_now ports w1 of (now, w2) \<Rightarrow> (apply_overrides overrides now p, w2))
          else ((p, False), w1))"

text \<open>What \<open>Run\<close> does before its loop: the plan, or the error of the wait.\<close>

definition bootstrap :: "'w sch_ports \<Rightarrow> sch_config \<Rightarrow> 'w \<Rightarrow> sch_plan res \<times> 'w" where
  "bootstrap ports c w =
     (let jobs = sched_jobs c;
          (now, w1) = sx_now ports w;
          ((p, changed), w2) = adopt ports c (new_plan jobs now) w1;
          w3 = announce ports p w2;
          (p, w4) = run_job ports (hd jobs) (p, w3);
          (err, w5) = (if sc_bootstrap_grace c \<le> 0 then (None, w4) else sx_grace ports (sc_bootstrap_grace c) w4)
      in case err of
           Some e \<Rightarrow> (Inl e, w5)
         | None \<Rightarrow> (let (p, w6) = fold (run_job ports) (tl jobs) (p, w5) in (Inr p, announce ports p w6)))"

text \<open>The loop: what woke it, and the plan, the count of polls and the world after it.\<close>

datatype sch_wake = Wake_Poll | Wake_Timer

definition on_wake :: "'w sch_ports \<Rightarrow> sch_config \<Rightarrow> sch_wake \<Rightarrow> (sch_plan \<times> int) \<times> 'w \<Rightarrow> (sch_plan \<times> int) \<times> 'w" where
  "on_wake ports c wake st =
     (let ((p, polls), w) = st
      in case wake of
           Wake_Poll \<Rightarrow>
             (let polls = polls + 1;
                  ((p, changed), w) = adopt ports c p w;
                  w = (if changed \<or> polls mod announce_every = 0 then announce ports p w else w)
              in ((p, polls), w))
         | Wake_Timer \<Rightarrow>
             (let (now, w) = sx_now ports w;
                  (p, w) = fold (run_job ports) (plan_due p now) (p, w)
              in ((p, polls), announce ports p w)))"

text \<open>
  How long the loop waits for its timer, which the clock is read for before each wake.  The run ends when the
  context does, after the wakes it had.
\<close>

definition timer_wait :: "sch_plan \<Rightarrow> int \<Rightarrow> int" where
  "timer_wait p now = max 0 (plan_earliest p - now)"

fun sched_loop ::
    "'w sch_ports \<Rightarrow> sch_config \<Rightarrow> sch_wake list \<Rightarrow> (sch_plan \<times> int) \<times> 'w \<Rightarrow> int list \<times> (sch_plan \<times> int) \<times> 'w" where
  "sched_loop ports c wakes (pp, w) =
     (let (now, w) = sx_now ports w; wait = timer_wait (fst pp) now
      in case wakes of
           [] \<Rightarrow> ([wait], pp, w)
         | wake # rest \<Rightarrow> (let (waits, st) = sched_loop ports c rest (on_wake ports c wake (pp, w)) in (wait # waits, st)))"

definition sched_run ::
    "'w sch_ports \<Rightarrow> sch_config \<Rightarrow> sch_wake list \<Rightarrow> 'w \<Rightarrow> (int list \<times> sch_plan \<times> int) res \<times> 'w" where
  "sched_run ports c wakes w =
     (case bootstrap ports c w of
        (Inl e, w') \<Rightarrow> (Inl e, w')
      | (Inr p, w') \<Rightarrow> (case sched_loop ports c wakes ((p, 0), w') of (waits, st, w'') \<Rightarrow> (Inr (waits, st), w'')))"


subsection \<open>What the operator's file may do\<close>

definition usable_overrides :: "(string \<rightharpoonup> int) \<Rightarrow> bool" where
  "usable_overrides m \<longleftrightarrow> (\<forall>i \<in> ran m. Minute \<le> i \<and> i \<le> 43200 * Minute)"

lemma usable_overridesI: "(\<And>name i. m name = Some i \<Longrightarrow> Minute \<le> i \<and> i \<le> 43200 * Minute) \<Longrightarrow> usable_overrides m"
  by (auto simp: usable_overrides_def ran_def)

lemma usable_overridesD: "usable_overrides m \<Longrightarrow> m name = Some i \<Longrightarrow> Minute \<le> i \<and> i \<le> 43200 * Minute"
  by (auto simp: usable_overrides_def ran_def)

lemma usable_overrides_upd:
  "usable_overrides m \<Longrightarrow> Minute \<le> i \<and> i \<le> 43200 * Minute \<Longrightarrow> usable_overrides (m(name \<mapsto> i))"
  by (rule usable_overridesI) (auto simp: usable_overridesD split: if_splits)

lemma usable_interval_bounds: "usable_interval text = Some i \<Longrightarrow> Minute \<le> i \<and> i \<le> 43200 * Minute"
  by (simp add: usable_interval_def min_override_interval_def max_override_interval_def split: if_splits option.splits)

lemma overrides_of_usable: "usable_overrides (overrides_of entries)"
proof -
  have "usable_overrides m \<Longrightarrow>
      usable_overrides (fold (\<lambda>(name, text) m. case usable_interval text of None \<Rightarrow> m | Some i \<Rightarrow> m(name \<mapsto> i)) entries m)" for m
    by (induction entries arbitrary: m)
      (auto simp: usable_overrides_upd usable_interval_bounds split: option.split)
  from this [of Map.empty] show ?thesis unfolding overrides_of_def by (simp add: usable_overrides_def [of Map.empty])
qed

lemma load_overrides_usable: "usable_overrides (fst (fst (load_overrides ports c w)))"
  by (simp add: load_overrides_def overrides_of_usable usable_overrides_def split: prod.splits raw_file.splits option.splits)
    (simp_all add: overrides_of_usable [unfolded usable_overrides_def])

subsection \<open>The countdowns, by the history of the plan\<close>

text \<open>
  A reference for the plan: what happened to it, the latest first, says which interval a job has and when its
  countdown last started.  The step of the plan is \<open>plan_step\<close>.
\<close>

datatype plan_event = Adopted "string \<rightharpoonup> int" int | Ran string int

definition wanted_interval :: "(string \<rightharpoonup> int) \<Rightarrow> sch_job \<Rightarrow> int" where
  "wanted_interval m j = (case m (sj_name j) of Some i \<Rightarrow> i | None \<Rightarrow> sj_interval j)"

definition plan_step :: "plan_event \<Rightarrow> sch_plan \<Rightarrow> sch_plan" where
  "plan_step e p =
     (case e of
        Adopted overrides now \<Rightarrow> fst (apply_overrides overrides now p)
      | Ran name now \<Rightarrow>
          (case find (\<lambda>j. sj_name j = name) (sp_jobs p) of None \<Rightarrow> p | Some j \<Rightarrow> plan_ran j now p))"

fun interval_by :: "plan_event list \<Rightarrow> sch_job \<Rightarrow> int" where
  "interval_by [] j = sj_interval j"
| "interval_by (Adopted overrides now # es) j = wanted_interval overrides j"
| "interval_by (Ran name now # es) j = interval_by es j"

fun countdown_by :: "int \<Rightarrow> plan_event list \<Rightarrow> sch_job \<Rightarrow> int" where
  "countdown_by start [] j = start"
| "countdown_by start (Adopted overrides now # es) j =
     (if interval_by (Adopted overrides now # es) j \<noteq> interval_by es j then now else countdown_by start es j)"
| "countdown_by start (Ran name now # es) j = (if name = sj_name j then now else countdown_by start es j)"

definition plan_by :: "sch_job list \<Rightarrow> int \<Rightarrow> plan_event list \<Rightarrow> sch_plan" where
  "plan_by jobs start es = foldr plan_step es (new_plan jobs start)"

lemma adopt_override_other:
  assumes "sj_name k \<noteq> sj_name j"
  shows "plan_interval (fst (adopt_override m now k pc)) j = plan_interval (fst pc) j \<and>
    sp_next (fst (adopt_override m now k pc)) (sj_name j) = sp_next (fst pc) (sj_name j) \<and>
    sp_overrides (fst (adopt_override m now k pc)) (sj_name j) = sp_overrides (fst pc) (sj_name j)"
  using assms by (cases pc) (simp add: adopt_override_def Let_def plan_interval_def)

lemma adopt_override_jobs [simp]: "sp_jobs (fst (adopt_override m now k pc)) = sp_jobs (fst pc)"
  by (cases pc) (simp add: adopt_override_def Let_def)

lemma adopt_others:
  assumes "sj_name j \<notin> sj_name ` set ks"
  shows "plan_interval (fst (fold (adopt_override m now) ks pc)) j = plan_interval (fst pc) j \<and>
    sp_next (fst (fold (adopt_override m now) ks pc)) (sj_name j) = sp_next (fst pc) (sj_name j) \<and>
    sp_overrides (fst (fold (adopt_override m now) ks pc)) (sj_name j) = sp_overrides (fst pc) (sj_name j)"
  using assms
proof (induction ks arbitrary: pc)
  case (Cons k ks)
  then show ?case using adopt_override_other [of k j m now pc] by auto
qed simp

lemma adopt_jobs [simp]: "sp_jobs (fst (fold (adopt_override m now) ks pc)) = sp_jobs (fst pc)"
  by (induction ks arbitrary: pc) simp_all

lemma adopt_member:
  assumes "distinct (map sj_name ks)" "j \<in> set ks"
  shows "plan_interval (fst (fold (adopt_override m now) ks pc)) j = wanted_interval m j \<and>
    sp_next (fst (fold (adopt_override m now) ks pc)) (sj_name j) =
      (if wanted_interval m j \<noteq> plan_interval (fst pc) j then Some (now + wanted_interval m j)
       else sp_next (fst pc) (sj_name j)) \<and>
    sp_overrides (fst (fold (adopt_override m now) ks pc)) (sj_name j) = m (sj_name j)"
  using assms
proof (induction ks arbitrary: pc)
  case (Cons k ks)
  show ?case
  proof (cases "k = j")
    case True
    with Cons.prems have "sj_name j \<notin> sj_name ` set ks" by auto
    moreover have "plan_interval (fst (adopt_override m now j pc)) j = wanted_interval m j \<and>
        sp_next (fst (adopt_override m now j pc)) (sj_name j) =
          (if wanted_interval m j \<noteq> plan_interval (fst pc) j then Some (now + wanted_interval m j)
           else sp_next (fst pc) (sj_name j)) \<and>
        sp_overrides (fst (adopt_override m now j pc)) (sj_name j) = m (sj_name j)"
      by (cases pc) (simp add: adopt_override_def Let_def plan_interval_def wanted_interval_def)
    ultimately show ?thesis using True adopt_others [of j ks m now "adopt_override m now k pc"] by simp
  next
    case False
    with Cons.prems have "j \<in> set ks" "sj_name k \<noteq> sj_name j" by auto
    then show ?thesis using Cons.IH [of "adopt_override m now k pc"] Cons.prems adopt_override_other [of k j m now pc] by simp
  qed
qed simp

lemma apply_overrides_job:
  assumes "distinct (map sj_name (sp_jobs p))" "j \<in> set (sp_jobs p)"
  shows "plan_interval (fst (apply_overrides m now p)) j = wanted_interval m j"
    "sp_next (fst (apply_overrides m now p)) (sj_name j) =
      (if wanted_interval m j \<noteq> plan_interval p j then Some (now + wanted_interval m j) else sp_next p (sj_name j))"
    "sp_overrides (fst (apply_overrides m now p)) (sj_name j) = m (sj_name j)"
  using adopt_member [OF assms, of m now "(p, False)"] by (simp_all add: apply_overrides_def)

lemma apply_overrides_jobs [simp]: "sp_jobs (fst (apply_overrides m now p)) = sp_jobs p"
  by (simp add: apply_overrides_def)

lemma plan_ran_simps [simp]:
  "sp_jobs (plan_ran j now p) = sp_jobs p" "plan_interval (plan_ran j now p) k = plan_interval p k"
  "sp_overrides (plan_ran j now p) = sp_overrides p"
  by (simp_all add: plan_ran_def plan_interval_def)

lemma new_plan_next:
  assumes "distinct (map sj_name jobs)" "j \<in> set jobs"
  shows "sp_next (new_plan jobs start) (sj_name j) = Some (start + sj_interval j)"
proof -
  have other: "sj_name k \<notin> sj_name ` set ks \<Longrightarrow>
      fold (\<lambda>j m. m(sj_name j \<mapsto> start + sj_interval j)) ks m (sj_name k) = m (sj_name k)" for ks k and m :: "string \<rightharpoonup> int"
    by (induction ks arbitrary: m) auto
  have "fold (\<lambda>j m. m(sj_name j \<mapsto> start + sj_interval j)) jobs m (sj_name j) = Some (start + sj_interval j)" for m
    using assms by (induction jobs arbitrary: m) (auto simp: other)
  then show ?thesis by (simp add: new_plan_def)
qed

lemma plan_step_jobs: "sp_jobs (plan_step e p) = sp_jobs p"
  by (simp add: plan_step_def split: plan_event.split option.split)

lemma jobs_distinct: "distinct (map sj_name (sched_jobs c))" "distinct (map sj_type (sched_jobs c))"
  by (simp_all add: sched_jobs_def)

lemma plan_by_jobs: "sp_jobs (plan_by jobs start es) = jobs"
  by (induction es) (simp_all add: plan_by_def plan_step_jobs, simp add: new_plan_def)

lemma plan_by_step: "plan_by jobs start (e # es) = plan_step e (plan_by jobs start es)"
  by (simp add: plan_by_def)

lemma find_by_name: "distinct (map sj_name jobs) \<Longrightarrow> j \<in> set jobs \<Longrightarrow> find (\<lambda>k. sj_name k = sj_name j) jobs = Some j"
proof (induction jobs)
  case (Cons k ks)
  show ?case
  proof (cases "k = j")
    case False
    then have "j \<in> set ks" using Cons.prems(2) by simp
    moreover from this have "sj_name k \<noteq> sj_name j" using Cons.prems(1) by (metis distinct.simps(2) image_eqI list.set_map list.simps(9))
    ultimately show ?thesis using Cons.IH Cons.prems(1) by simp
  qed simp
qed simp

lemma plan_step_ran:
  assumes "distinct (map sj_name (sp_jobs p))" "j \<in> set (sp_jobs p)"
  shows "plan_interval (plan_step (Ran name now) p) j = plan_interval p j \<and>
    sp_next (plan_step (Ran name now) p) (sj_name j) =
      (if name = sj_name j then Some (now + plan_interval p j) else sp_next p (sj_name j))"
proof (cases "name = sj_name j")
  case True
  then show ?thesis
    using find_by_name [OF assms] by (simp add: plan_step_def) (simp add: plan_ran_def)
next
  case False
  show ?thesis
  proof (cases "find (\<lambda>k. sj_name k = name) (sp_jobs p)")
    case (Some k)
    then have "sj_name k = name" by (simp add: find_Some_iff) blast
    then show ?thesis using False Some by (simp add: plan_step_def plan_ran_def plan_interval_def)
  qed (use False in \<open>simp add: plan_step_def\<close>)
qed

lemma plan_by_job:
  assumes d: "distinct (map sj_name jobs)" and j: "j \<in> set jobs"
  shows "plan_interval (plan_by jobs start es) j = interval_by es j \<and>
    sp_next (plan_by jobs start es) (sj_name j) = Some (countdown_by start es j + interval_by es j)"
proof (induction es)
  case Nil
  show ?case using new_plan_next [OF d j] by (simp add: plan_by_def plan_interval_def new_plan_def)
next
  case (Cons e es)
  have p: "distinct (map sj_name (sp_jobs (plan_by jobs start es)))" "j \<in> set (sp_jobs (plan_by jobs start es))"
    using d j by (simp_all add: plan_by_jobs)
  show ?case
  proof (cases e)
    case (Adopted m now)
    have "plan_by jobs start (e # es) = fst (apply_overrides m now (plan_by jobs start es))"
      by (simp add: plan_by_step plan_step_def Adopted)
    then show ?thesis using apply_overrides_job [OF p, of m now] Cons by (simp add: Adopted)
  next
    case (Ran name now)
    then show ?thesis using plan_step_ran [OF p, of name now] Cons by (simp add: plan_by_step)
  qed
qed

text \<open>
  The plan keeps every countdown.  Whatever overrides are adopted and whatever runs, a job of the
  scheduler has the interval of the overrides adopted last, or its own when they leave it out; and it is due
  exactly when that interval has passed since its countdown last started: at its last run or, when that was
  later, when its interval last changed.
\<close>

theorem plan_keeps_countdowns:
  "list_all (\<lambda>j. plan_interval (plan_by (sched_jobs c) start es) j = interval_by es j \<and>
      (j \<in> set (plan_due (plan_by (sched_jobs c) start es) now)) = (countdown_by start es j + interval_by es j \<le> now))
     (sched_jobs c)"
  using plan_by_job [OF jobs_distinct(1), of _ c start es]
  by (simp add: list_all_iff plan_due_def plan_by_jobs time_of_def not_less)

subsection \<open>Runs of a job are spaced\<close>

text \<open>
  The ports whose world counts the readings of the clock and keeps what was emitted, each event with the number of
  readings before it: an event with \<open>n\<close> was emitted between readings \<open>n - 1\<close> and \<open>n\<close>.  The other answers are any
  functions of that world.
\<close>

record sch_world =
  cw_reads :: nat
  cw_log :: "(sch_event \<times> nat) list"

record sch_answers =
  ca_file :: "sch_world \<Rightarrow> raw_file"
  ca_decode :: "string \<Rightarrow> (string \<times> string) list option"
  ca_emit :: "sch_event \<Rightarrow> sch_world \<Rightarrow> gerror option"
  ca_grace :: "sch_world \<Rightarrow> gerror option"
  ca_stamp :: "sch_world \<Rightarrow> string \<times> int"
  ca_rfc3339 :: "int \<Rightarrow> string"

definition clocked_ports :: "(nat \<Rightarrow> int) \<Rightarrow> sch_answers \<Rightarrow> sch_world sch_ports" where
  "clocked_ports clock a =
     \<lparr>sx_now = (\<lambda>w. (clock (cw_reads w), w\<lparr>cw_reads := Suc (cw_reads w)\<rparr>)),
      sx_stamp = (\<lambda>w. (ca_stamp a w, w)),
      sx_emit = (\<lambda>e w. (ca_emit a e w, w\<lparr>cw_log := cw_log w @ [(e, cw_reads w)]\<rparr>)),
      sx_read = (\<lambda>path w. (ca_file a w, w)),
      sx_decode = ca_decode a,
      sx_grace = (\<lambda>d w. (ca_grace a w, w)),
      sx_rfc3339 = ca_rfc3339 a\<rparr>"

definition started :: sch_world where
  "started = \<lparr>cw_reads = 0, cw_log = []\<rparr>"

definition job_gap :: "sch_job \<Rightarrow> int" where
  "job_gap j = min (sj_interval j) Minute"

definition runs_of :: "sch_job \<Rightarrow> (sch_event \<times> nat) list \<Rightarrow> nat list" where
  "runs_of j entries = map snd (filter (\<lambda>(e, n). se_type e = sj_type j) entries)"

definition runs_spaced :: "(nat \<Rightarrow> int) \<Rightarrow> sch_config \<Rightarrow> (sch_event \<times> nat) list \<Rightarrow> bool" where
  "runs_spaced clock c entries \<longleftrightarrow>
     list_all (\<lambda>j. sorted_wrt (\<lambda>m n. clock m + job_gap j \<le> clock (n - 1)) (runs_of j entries)) (sched_jobs c)"

definition may_run :: "(nat \<Rightarrow> int) \<Rightarrow> sch_job \<Rightarrow> sch_world \<Rightarrow> bool" where
  "may_run clock j w \<longleftrightarrow> (\<forall>n \<in> set (runs_of j (cw_log w)). clock n + job_gap j \<le> clock (cw_reads w - 1))"

definition sched_inv :: "(nat \<Rightarrow> int) \<Rightarrow> sch_config \<Rightarrow> sch_plan \<Rightarrow> sch_world \<Rightarrow> bool" where
  "sched_inv clock c p w \<longleftrightarrow>
     sp_jobs p = sched_jobs c \<and> usable_overrides (sp_overrides p) \<and> runs_spaced clock c (cw_log w) \<and>
     (\<forall>j \<in> set (sched_jobs c). \<forall>n \<in> set (runs_of j (cw_log w)).
        n < cw_reads w \<and> clock n + job_gap j \<le> time_of (sp_next p) (sj_name j))"

lemma announce_is_no_job: "j \<in> set (sched_jobs c) \<Longrightarrow> sj_type j \<noteq> announce_event_type"
  by (auto simp: sched_jobs_def announce_event_type_def)

lemma job_by_name: "j \<in> set (sched_jobs c) \<Longrightarrow> k \<in> set (sched_jobs c) \<Longrightarrow> sj_name j = sj_name k \<longleftrightarrow> j = k"
  using jobs_distinct(1) [of c] by (auto simp: distinct_map inj_on_def)

lemma job_by_type: "j \<in> set (sched_jobs c) \<Longrightarrow> k \<in> set (sched_jobs c) \<Longrightarrow> sj_type j = sj_type k \<longleftrightarrow> j = k"
  using jobs_distinct(2) [of c] by (auto simp: distinct_map inj_on_def)

lemma emit_clocked:
  "emit_new (clocked_ports clock a) t payload ctx w =
     (ca_emit a (new_event (ca_stamp a w) t payload ctx) w,
      w\<lparr>cw_log := cw_log w @ [(new_event (ca_stamp a w) t payload ctx, cw_reads w)]\<rparr>)"
  by (simp add: emit_new_def clocked_ports_def)

lemma now_clocked [simp]: "sx_now (clocked_ports clock a) w = (clock (cw_reads w), w\<lparr>cw_reads := Suc (cw_reads w)\<rparr>)"
  by (simp add: clocked_ports_def)

lemma runs_of_snoc [simp]:
  "runs_of j (es @ [(new_event s t payload ctx, n)]) = runs_of j es @ (if t = sj_type j then [n] else [])"
  by (simp add: runs_of_def new_event_def)

lemma announce_clocked:
  "cw_reads (announce (clocked_ports clock a) p w) = cw_reads w"
  "j \<in> set (sched_jobs c) \<Longrightarrow> runs_of j (cw_log (announce (clocked_ports clock a) p w)) = runs_of j (cw_log w)"
  using announce_is_no_job [of j c] by (auto simp: announce_def emit_clocked)

lemma sched_inv_announce: "sched_inv clock c p (announce (clocked_ports clock a) q w) = sched_inv clock c p w"
  by (simp add: sched_inv_def runs_spaced_def list_all_iff announce_clocked cong: conj_cong ball_cong)

lemma sched_inv_reads: "sched_inv clock c p w \<Longrightarrow> sched_inv clock c p (w\<lparr>cw_reads := Suc (cw_reads w)\<rparr>)"
  by (fastforce simp: sched_inv_def)

lemma plan_interval_gap: "usable_overrides (sp_overrides p) \<Longrightarrow> job_gap j \<le> plan_interval p j"
  by (auto simp: plan_interval_def job_gap_def dest: usable_overridesD split: option.split)

lemma usable_apply:
  assumes "usable_overrides m" "usable_overrides (sp_overrides p)" "sp_jobs p = sched_jobs c"
  shows "usable_overrides (sp_overrides (fst (apply_overrides m now p)))"
proof (rule usable_overridesI)
  fix name i
  assume i: "sp_overrides (fst (apply_overrides m now p)) name = Some i"
  show "Minute \<le> i \<and> i \<le> 43200 * Minute"
  proof (cases "\<exists>j \<in> set (sp_jobs p). sj_name j = name")
    case True
    then obtain j where j: "j \<in> set (sp_jobs p)" "sj_name j = name" by blast
    with apply_overrides_job(3) [of p j m now] jobs_distinct(1) [of c] i assms(3) have "m name = Some i" by simp
    then show ?thesis by (rule usable_overridesD [OF assms(1)])
  next
    case False
    have "sp_overrides (fst (fold (adopt_override m now) ks pc)) name = sp_overrides (fst pc) name"
      if "name \<notin> sj_name ` set ks" for ks pc
      using that adopt_others [of "undefined\<lparr>sj_name := name\<rparr>" ks m now pc] by simp
    then have "sp_overrides p name = Some i" using False i by (simp add: apply_overrides_def image_iff) fastforce
    then show ?thesis by (rule usable_overridesD [OF assms(2)])
  qed
qed

lemma sched_inv_apply:
  assumes clock: "mono clock" and inv: "sched_inv clock c p w" and m: "usable_overrides m"
    and now: "now = clock (cw_reads w)"
  shows "sched_inv clock c (fst (apply_overrides m now p)) (w\<lparr>cw_reads := Suc (cw_reads w)\<rparr>)"
proof -
  have jobs: "sp_jobs p = sched_jobs c" and u: "usable_overrides (sp_overrides p)"
    using inv by (simp_all add: sched_inv_def)
  have "clock n + job_gap j \<le> time_of (sp_next (fst (apply_overrides m now p))) (sj_name j)"
    if j: "j \<in> set (sched_jobs c)" and n: "n \<in> set (runs_of j (cw_log w))" for j n
  proof -
    have old: "n < cw_reads w" "clock n + job_gap j \<le> time_of (sp_next p) (sj_name j)"
      using inv j n by (auto simp: sched_inv_def)
    have "clock n \<le> now" using old(1) clock now by (simp add: mono_def)
    moreover have "job_gap j \<le> wanted_interval m j"
      using m by (auto simp: wanted_interval_def job_gap_def dest: usable_overridesD split: option.split)
    ultimately show ?thesis
      using apply_overrides_job(2) [of p j m now] jobs_distinct(1) [of c] jobs j old(2) by (simp add: time_of_def)
  qed
  then show ?thesis
    using inv usable_apply [OF m u jobs] by (fastforce simp: sched_inv_def)
qed

lemma sched_inv_adopt:
  assumes "mono clock" "sched_inv clock c p w" "adopt (clocked_ports clock a) c p w = ((p', changed), w')"
  shows "sched_inv clock c p' w' \<and> cw_log w' = cw_log w \<and> cw_reads w \<le> cw_reads w'"
proof -
  obtain m usable w1 where l: "load_overrides (clocked_ports clock a) c w = ((m, usable), w1)"
    by (metis surj_pair)
  have "w1 = w" using l by (auto simp: load_overrides_def clocked_ports_def split: raw_file.splits option.splits if_splits)
  moreover have "usable_overrides m" using load_overrides_usable [of "clocked_ports clock a" c w] l by simp
  ultimately show ?thesis
    using assms l sched_inv_apply [OF assms(1,2), of m "clock (cw_reads w)"]
    by (auto simp: adopt_def clocked_ports_def split: if_splits)
qed

text \<open>One run that may happen, and the runs of what is due.\<close>

lemma sched_inv_run:
  assumes clock: "mono clock" and inv: "sched_inv clock c p w" and j: "j \<in> set (sched_jobs c)"
    and may: "may_run clock j w" and run: "run_job (clocked_ports clock a) j (p, w) = (p', w')"
  shows "sched_inv clock c p' w' \<and> cw_reads w' = Suc (cw_reads w) \<and>
    (\<forall>k \<in> set (sched_jobs c). k \<noteq> j \<longrightarrow> may_run clock k w \<longrightarrow> may_run clock k w')"
proof -
  have p': "p' = plan_ran j (clock (cw_reads w)) p" and reads: "cw_reads w' = Suc (cw_reads w)"
    and runs: "\<And>k. runs_of k (cw_log w') = runs_of k (cw_log w) @ (if sj_type j = sj_type k then [cw_reads w] else [])"
    using run by (auto simp: run_job_def emit_clocked now_clocked)
  have gap: "job_gap j \<le> plan_interval p j" using inv by (simp add: sched_inv_def plan_interval_gap)
  have next_j: "time_of (sp_next p') (sj_name j) = clock (cw_reads w) + plan_interval p j"
    and next_k: "\<And>k. sj_name k \<noteq> sj_name j \<Longrightarrow> time_of (sp_next p') (sj_name k) = time_of (sp_next p) (sj_name k)"
    by (simp_all add: p' plan_ran_def time_of_def)
  have "runs_spaced clock c (cw_log w')"
    using inv may j by (auto simp: sched_inv_def runs_spaced_def list_all_iff runs sorted_wrt_append may_run_def job_by_type)
  moreover have "n < cw_reads w' \<and> clock n + job_gap k \<le> time_of (sp_next p') (sj_name k)"
    if k: "k \<in> set (sched_jobs c)" and n: "n \<in> set (runs_of k (cw_log w'))" for k n
  proof (cases "k = j")
    case True
    then have "n \<le> cw_reads w" using n inv j by (fastforce simp: runs sched_inv_def)
    then show ?thesis using True next_j gap clock reads by (auto simp: mono_def intro: add_mono)
  next
    case False
    then have "n \<in> set (runs_of k (cw_log w))" "sj_name k \<noteq> sj_name j" using n k j by (auto simp: runs job_by_type job_by_name)
    then show ?thesis using inv k next_k [of k] by (fastforce simp: sched_inv_def reads)
  qed
  moreover have "may_run clock k w'" if "k \<in> set (sched_jobs c)" "k \<noteq> j" "may_run clock k w" for k
  proof -
    have "clock (cw_reads w - 1) \<le> clock (cw_reads w' - 1)" using clock by (simp add: mono_def reads)
    moreover have "runs_of k (cw_log w') = runs_of k (cw_log w)" using that j by (simp add: runs job_by_type)
    ultimately show ?thesis using that(3) by (fastforce simp: may_run_def)
  qed
  ultimately show ?thesis using inv reads by (simp add: sched_inv_def p')
qed

lemma sched_inv_run_all:
  assumes "mono clock" "sched_inv clock c p w" "distinct js" "set js \<subseteq> set (sched_jobs c)"
    "\<forall>j \<in> set js. may_run clock j w" "fold (run_job (clocked_ports clock a)) js (p, w) = (p', w')"
  shows "sched_inv clock c p' w'"
  using assms
proof (induction js arbitrary: p w)
  case (Cons j js)
  obtain p1 w1 where r: "run_job (clocked_ports clock a) j (p, w) = (p1, w1)" by fastforce
  have s: "sched_inv clock c p1 w1 \<and> cw_reads w1 = Suc (cw_reads w) \<and>
      (\<forall>k \<in> set (sched_jobs c). k \<noteq> j \<longrightarrow> may_run clock k w \<longrightarrow> may_run clock k w1)"
    by (rule sched_inv_run [OF Cons.prems(1,2) _ _ r]) (use Cons.prems in auto)
  show ?case
    by (rule Cons.IH [of p1 w1]) (use Cons.prems s r in auto)
qed simp


lemma due_may_run:
  assumes "sched_inv clock c p w"
  shows "\<forall>j \<in> set (plan_due p (clock (cw_reads w))). may_run clock j (w\<lparr>cw_reads := Suc (cw_reads w)\<rparr>)"
  using assms by (fastforce simp: plan_due_def sched_inv_def may_run_def)

lemma plan_due_jobs:
  assumes "sp_jobs p = sched_jobs c"
  shows "distinct (plan_due p now)" "set (plan_due p now) \<subseteq> set (sched_jobs c)"
  using assms jobs_distinct(1) [of c] by (auto simp: plan_due_def distinct_map)

lemma sched_inv_wake:
  assumes clock: "mono clock" and inv: "sched_inv clock c (fst pp) w"
  shows "case on_wake (clocked_ports clock a) c wake (pp, w) of (pp', w') \<Rightarrow> sched_inv clock c (fst pp') w'"
proof (cases wake)
  case Wake_Poll
  obtain p changed w1 where ad: "adopt (clocked_ports clock a) c (fst pp) w = ((p, changed), w1)" by (metis surj_pair)
  have "sched_inv clock c p w1" using sched_inv_adopt [OF clock inv ad] by blast
  then show ?thesis using Wake_Poll ad by (cases pp) (simp add: on_wake_def Let_def sched_inv_announce)
next
  case Wake_Timer
  let ?w = "w\<lparr>cw_reads := Suc (cw_reads w)\<rparr>" and ?due = "plan_due (fst pp) (clock (cw_reads w))"
  obtain p1 w1 where r: "fold (run_job (clocked_ports clock a)) ?due (fst pp, ?w) = (p1, w1)" by fastforce
  have "sched_inv clock c p1 w1"
    by (rule sched_inv_run_all [OF clock sched_inv_reads [OF inv] _ _ _ r])
      (use inv due_may_run [OF inv] plan_due_jobs [of "fst pp" c] in \<open>simp_all add: sched_inv_def\<close>)
  then show ?thesis using Wake_Timer r by (cases pp) (simp add: on_wake_def Let_def sched_inv_announce)
qed

lemma sched_inv_loop:
  assumes "mono clock" "sched_inv clock c (fst pp) w"
  shows "case sched_loop (clocked_ports clock a) c wakes (pp, w) of (waits, pp', w') \<Rightarrow> sched_inv clock c (fst pp') w'"
  using assms(2)
proof (induction wakes arbitrary: pp w)
  case (Cons wake rest)
  let ?w = "w\<lparr>cw_reads := Suc (cw_reads w)\<rparr>"
  obtain pp1 w1 where o: "on_wake (clocked_ports clock a) c wake (pp, ?w) = (pp1, w1)" by fastforce
  have "sched_inv clock c (fst pp1) w1"
    using sched_inv_wake [OF assms(1) sched_inv_reads [OF Cons.prems], of a wake] o by simp
  then show ?case using Cons.IH [of pp1 w1] o by (auto simp: Let_def split: prod.splits)
qed (auto simp: Let_def sched_inv_reads)

lemma sched_inv_start:
  "sched_inv clock c (new_plan (sched_jobs c) now) \<lparr>cw_reads = n, cw_log = []\<rparr>"
  by (simp add: sched_inv_def new_plan_def usable_overrides_def runs_spaced_def runs_of_def list_all_iff)

text \<open>The bootstrap runs every job that has not run yet.\<close>

lemma bootstrap_inv:
  assumes clock: "mono clock" and b: "bootstrap (clocked_ports clock a) c started = (res, w')"
  shows "runs_spaced clock c (cw_log w') \<and> (case res of Inl e \<Rightarrow> True | Inr p \<Rightarrow> sched_inv clock c p w')"
proof -
  let ?ports = "clocked_ports clock a" and ?j = "hd (sched_jobs c)"
  obtain p1 ch w1 where ad: "adopt ?ports c (new_plan (sched_jobs c) (clock 0)) \<lparr>cw_reads = 1, cw_log = []\<rparr> = ((p1, ch), w1)"
    by (metis surj_pair)
  have i1: "sched_inv clock c p1 w1" and l1: "cw_log w1 = []"
    using sched_inv_adopt [OF clock sched_inv_start ad] by simp_all
  let ?w2 = "announce ?ports p1 w1"
  have i2: "sched_inv clock c p1 ?w2" using i1 by (simp add: sched_inv_announce)
  have m2: "may_run clock j ?w2" if "j \<in> set (sched_jobs c)" for j
    using that l1 by (simp add: may_run_def announce_clocked(2) [OF that]) (simp add: runs_of_def)
  obtain p3 w3 where r: "run_job ?ports ?j (p1, ?w2) = (p3, w3)" by fastforce
  have h: "?j \<in> set (sched_jobs c)" "sched_jobs c = ?j # tl (sched_jobs c)" by (simp_all add: sched_jobs_def)
  have i3: "sched_inv clock c p3 w3" and m3: "\<forall>k \<in> set (sched_jobs c). k \<noteq> ?j \<longrightarrow> may_run clock k w3"
    using sched_inv_run [OF clock i2 h(1) m2 [OF h(1)] r] m2 by auto
  obtain p4 w4 where f: "fold (run_job ?ports) (tl (sched_jobs c)) (p3, w3) = (p4, w4)" by fastforce
  have d: "distinct (?j # tl (sched_jobs c))" using jobs_distinct(1) [of c] h(2) by (metis distinct_map)
  have i4: "sched_inv clock c p4 w4"
  proof (rule sched_inv_run_all [OF clock i3 _ _ _ f])
    show "distinct (tl (sched_jobs c))" using d by simp
    show "set (tl (sched_jobs c)) \<subseteq> set (sched_jobs c)" by (metis h(2) set_subset_Cons)
    show "\<forall>j \<in> set (tl (sched_jobs c)). may_run clock j w3" using m3 d by (metis distinct.simps(2) h(2) list.set_intros(2))
  qed
  have "sx_grace ?ports g w3 = (ca_grace a w3, w3)" for g by (simp add: clocked_ports_def)
  moreover have "runs_spaced clock c (cw_log w3)" "sched_inv clock c p4 (announce ?ports p4 w4)"
    using i3 i4 by (simp_all add: sched_inv_announce) (simp add: sched_inv_def)
  moreover from this(2) have "runs_spaced clock c (cw_log (announce ?ports p4 w4))" by (simp add: sched_inv_def)
  ultimately show ?thesis
    using b ad r f by (auto simp: bootstrap_def Let_def started_def split: option.splits if_splits)
qed

text \<open>
  C12.  Runs of a job are spaced.  While the clock does not go back, whatever the state file says, whatever
  fails to be sent and whatever wakes the loop in whatever order, between two runs of a job lies at least its
  own interval or a minute, the bootstrap included.
\<close>

theorem runs_are_spaced:
  assumes "mono clock"
  shows "runs_spaced clock c (cw_log (snd (sched_run (clocked_ports clock a) c wakes started)))"
proof (cases "bootstrap (clocked_ports clock a) c started")
  case (Pair res w)
  note b = bootstrap_inv [OF assms Pair]
  show ?thesis
  proof (cases res)
    case (Inr p)
    then show ?thesis
      using Pair b sched_inv_loop [OF assms, of c "(p, 0)" w a wakes]
      by (auto simp: sched_run_def sched_inv_def split: prod.splits)
  qed (use Pair b in \<open>simp add: sched_run_def\<close>)
qed


text \<open>An hourly clock: the defaults, a state file that is not there, the bootstrap and three wakes.\<close>

definition ex_sched_clock :: "nat \<Rightarrow> int" where
  "ex_sched_clock n = int n * 3600000000000"

definition ex_sched_config :: sch_config where
  "ex_sched_config =
     \<lparr>sc_event_endpoint = ''tcp://127.0.0.1:5555'', sc_topic = ''events'', sc_refresh_interval = 45 * Minute,
      sc_dispatch_interval = 6 * 60 * Minute, sc_intake_interval = 60 * Minute, sc_bootstrap_grace = 15000000000,
      sc_refresh_max_items = 20, sc_dispatch_limit = 1, sc_state_file = ''state.json'', sc_state_poll = 5000000000\<rparr>"

definition ex_sched_answers :: sch_answers where
  "ex_sched_answers =
     \<lparr>ca_file = (\<lambda>w. File_Missing), ca_decode = (\<lambda>raw. None), ca_emit = (\<lambda>e w. None), ca_grace = (\<lambda>w. None),
      ca_stamp = (\<lambda>w. (''id'', 1)), ca_rfc3339 = (\<lambda>t. [])\<rparr>"

lemma runs_are_spaced_witness:
  "mono ex_sched_clock \<and>
   runs_spaced ex_sched_clock ex_sched_config
     (cw_log (snd (sched_run (clocked_ports ex_sched_clock ex_sched_answers) ex_sched_config
        [Wake_Poll, Wake_Timer, Wake_Timer] started)))"
proof -
  have m: "mono ex_sched_clock" by (simp add: mono_def ex_sched_clock_def)
  with runs_are_spaced [OF m] show ?thesis by blast
qed

end
