(* ===== verification/Knowledge_Classes.thy ===== *)
theory Knowledge_Classes
  imports Go_Strings Go_Duration "HOL-Library.AList"
begin

section \<open>How a document is classified\<close>

text \<open>
  \<open>classification.go\<close> and \<open>metadata.go\<close> of \<open>dokja_domain/dokja_knowledge\<close>: the two axes of a document, who
  decides each, the metadata a request may carry and the questions that are left for the user.  What
  \<open>encoding/json\<close> makes of a value, and the length of an encoding, are parameters; strings that went
  through it are UTF-8, which it keeps.
\<close>

text \<open>The value \<open>nil\<close> of a \<open>map[string]any\<close>.\<close>

definition nil_val :: gval where
  "nil_val = VOther 3"

subsection \<open>The axes\<close>

definition FormBook :: string where "FormBook = ''book''"
definition FormArticle :: string where "FormArticle = ''article''"
definition OriginUser :: string where "OriginUser = ''user''"
definition OriginClassifier :: string where "OriginClassifier = ''classifier''"
definition OriginSource :: string where "OriginSource = ''source_default''"
definition OriginUserRequired :: string where "OriginUserRequired = ''user_required''"

definition valid_form :: "string \<Rightarrow> bool" where
  "valid_form v = contains_str [FormBook, FormArticle, ''note'', ''conversation'', ''meme''] v"

definition valid_content_kind :: "string \<Rightarrow> bool" where
  "valid_content_kind v = contains_str [''news'', ''reference'', ''research'', ''narrative''] v"

record class_values =
  cv_form :: string
  cv_kind :: string

definition no_values :: class_values where
  "no_values = \<lparr>cv_form = [], cv_kind = []\<rparr>"

record classifier_proposal =
  cp_values :: class_values
  cp_id :: string
  cp_version :: string
  cp_uncertain_form :: bool
  cp_uncertain_kind :: bool
  cp_unavailable :: bool

record class_input =
  ci_explicit :: class_values
  ci_classifier :: "classifier_proposal option"
  ci_source :: class_values
  ci_awaiting_form :: bool
  ci_awaiting_kind :: bool

record class_choice =
  cc_origin :: string
  cc_classifier :: string
  cc_version :: string
  cc_reason :: string

record classification =
  cl_form :: string
  cl_kind :: string
  cl_form_choice :: class_choice
  cl_kind_choice :: class_choice

text \<open>\<open>strings.ToLower\<close> of the trimmed label; what is not ASCII is no label in either case.\<close>

definition normalize_label :: "string \<Rightarrow> string" where
  "normalize_label v = to_lower_ascii (trim_space v)"

definition unresolved_axis :: "string \<Rightarrow> string \<times> class_choice" where
  "unresolved_axis reason =
     ([], \<lparr>cc_origin = OriginUserRequired, cc_classifier = [], cc_version = [], cc_reason = reason\<rparr>)"

definition resolve_axis ::
    "string \<Rightarrow> string \<Rightarrow> string \<Rightarrow> classifier_proposal option \<Rightarrow> (string \<Rightarrow> bool) \<Rightarrow> string \<Rightarrow> bool \<Rightarrow>
     (string \<times> class_choice) res" where
  "resolve_axis explicit source proposed classifier valid axis awaiting =
     (let explicit = normalize_label explicit; source = normalize_label source; proposed = normalize_label proposed;
          chosen = (\<lambda>origin i v. \<lparr>cc_origin = origin, cc_classifier = i, cc_version = v, cc_reason = []\<rparr>)
      in if explicit \<noteq> [] then
           (if \<not> valid explicit then Inl (Errorf (''unsupported explicit '' @ axis))
            else Inr (explicit, chosen OriginUser [] []))
         else if awaiting then Inr (unresolved_axis ''user_clarification_required'')
         else if proposed \<noteq> [] then
           (if \<not> valid proposed then Inr (unresolved_axis ''classifier_value_invalid'')
            else case classifier of
                None \<Rightarrow> Inr (unresolved_axis ''classifier_identity_missing'')
              | Some c \<Rightarrow>
                  if trim_space (cp_id c) = [] \<or> trim_space (cp_version c) = []
                  then Inr (unresolved_axis ''classifier_identity_missing'')
                  else Inr (proposed, chosen OriginClassifier (trim_space (cp_id c)) (trim_space (cp_version c))))
         else if source \<noteq> [] then
           (if \<not> valid source then Inl (Errorf (''unsupported source-default '' @ axis))
            else Inr (source, chosen OriginSource [] []))
         else Inr (unresolved_axis ''classification_missing''))"

definition proposal_axis :: "classifier_proposal option \<Rightarrow> bool \<Rightarrow> string" where
  "proposal_axis p form =
     (case p of None \<Rightarrow> [] | Some p \<Rightarrow> if form then cv_form (cp_values p) else cv_kind (cp_values p))"

definition resolve_classification :: "class_input \<Rightarrow> classification res" where
  "resolve_classification i =
     (let c = ci_classifier i;
          unsure = (\<lambda>f. case c of None \<Rightarrow> False | Some p \<Rightarrow> f p \<or> cp_unavailable p)
      in case resolve_axis (cv_form (ci_explicit i)) (cv_form (ci_source i)) (proposal_axis c True) c valid_form ''form''
                (ci_awaiting_form i \<or> unsure cp_uncertain_form) of
           Inl e \<Rightarrow> Inl e
         | Inr (form, form_choice) \<Rightarrow>
             (case resolve_axis (cv_kind (ci_explicit i)) (cv_kind (ci_source i)) (proposal_axis c False) c
                     valid_content_kind ''content kind'' (ci_awaiting_kind i \<or> unsure cp_uncertain_kind) of
                Inl e \<Rightarrow> Inl e
              | Inr (kind, kind_choice) \<Rightarrow>
                  Inr \<lparr>cl_form = form, cl_kind = kind, cl_form_choice = form_choice, cl_kind_choice = kind_choice\<rparr>))"

subsection \<open>Metadata\<close>

record kn_entity =
  en_name :: string
  en_type :: string

text \<open>A list of a request is \<open>None\<close> when it is nil.\<close>

record metadata_input =
  mi_form :: string
  mi_kind :: string
  mi_topics :: "string list option"
  mi_entities :: "kn_entity list option"
  mi_date :: string

record reading_provenance =
  rv_format :: string
  rv_reader :: string
  rv_version :: string

record defining_metadata =
  dm_class :: classification
  dm_topics :: "string list"
  dm_entities :: "kn_entity list"
  dm_date :: string
  dm_reading :: "reading_provenance option"

text \<open>
  What the encoder and the decoders make of a request's metadata: the length of its JSON, whether that is \<open>null\<close>, the
  keys of the object with whether each is null, and the fields the strict decoder reads.
\<close>

record metadata_json =
  mj_size :: int
  mj_null :: bool
  mj_keys :: "(string \<times> bool) list option"
  mj_input :: "metadata_input option"

text \<open>The same of the answers of a user: the length, the keys and the two strings.\<close>

record answers_json =
  aj_size :: int
  aj_fields :: "string list option"
  aj_values :: "class_values option"

record json_ports =
  jp_metadata :: "gval \<Rightarrow> metadata_json option"
  jp_answers :: "gval \<Rightarrow> answers_json option"
  jp_defining_size :: "defining_metadata \<Rightarrow> int option"

text \<open>\<open>time.Parse("2006-01-02", s)\<close> succeeds.\<close>

definition leap_year :: "int \<Rightarrow> bool" where
  "leap_year y \<longleftrightarrow> y mod 4 = 0 \<and> (y mod 100 \<noteq> 0 \<or> y mod 400 = 0)"

definition days_in :: "int \<Rightarrow> int \<Rightarrow> int" where
  "days_in m y = (if m = 2 then (if leap_year y then 29 else 28) else if m \<in> {4, 6, 9, 11} then 30 else 31)"

definition valid_date :: "string \<Rightarrow> bool" where
  "valid_date s \<longleftrightarrow>
     length s = 10 \<and> s ! 4 = CHR ''-'' \<and> s ! 7 = CHR ''-'' \<and>
     list_all digit (take 4 s) \<and> list_all digit (take 2 (drop 5 s)) \<and> list_all digit (drop 8 s) \<and>
     (let y = digits_value (take 4 s); m = digits_value (take 2 (drop 5 s)); d = digits_value (drop 8 s)
      in 1 \<le> m \<and> m \<le> 12 \<and> 1 \<le> d \<and> d \<le> days_in m y)"

definition max_metadata :: int where
  "max_metadata = 65536"

definition decode_metadata :: "json_ports \<Rightarrow> gval \<Rightarrow> metadata_input res" where
  "decode_metadata js raw =
     (case jp_metadata js raw of
        None \<Rightarrow> Inl (Errorf ''metadata must be an object of at most 65536 bytes'')
      | Some j \<Rightarrow>
          if mj_size j > max_metadata \<or> mj_null j
          then Inl (Errorf ''metadata must be an object of at most 65536 bytes'')
          else case mj_keys j of
              None \<Rightarrow> Inl (Errorf ''metadata must be an object'')
            | Some keys \<Rightarrow>
                if list_ex (\<lambda>(key, null). null \<and> key \<noteq> ''form'' \<and> key \<noteq> ''content_kind'') keys
                then Inl (Errorf ''metadata fields cannot be null'')
                else case mj_input j of
                    None \<Rightarrow> Inl (Errorf ''metadata has unsupported fields or field types'')
                  | Some i \<Rightarrow>
                      if list_ex (\<lambda>t. trim_space t = []) (case_option [] id (mi_topics i))
                      then Inl (Errorf ''metadata topics must be nonempty'')
                      else if list_ex (\<lambda>e. trim_space (en_name e) = []) (case_option [] id (mi_entities i))
                      then Inl (Errorf ''metadata entities require a name'')
                      else if mi_date i \<noteq> [] \<and> \<not> valid_date (mi_date i)
                      then Inl (Errorf ''metadata date_anchor must be a valid YYYY-MM-DD date'')
                      else Inr i)"

text \<open>An axis without a value is null; the fields marked \<open>omitempty\<close> are left out when empty.\<close>

definition axis_value :: "string \<Rightarrow> gval" where
  "axis_value v = (if v = [] then nil_val else VStr v)"

definition choice_map :: "class_choice \<Rightarrow> (string \<times> gval) list" where
  "choice_map c =
     [(''origin'', VStr (cc_origin c))] @
     (if cc_classifier c \<noteq> [] then [(''classifier_id'', VStr (cc_classifier c)), (''classifier_version'', VStr (cc_version c))] else []) @
     (if cc_reason c \<noteq> [] then [(''fallback_reason'', VStr (cc_reason c))] else [])"

definition json_choice :: "class_choice \<Rightarrow> (string \<times> gval) list" where
  "json_choice c =
     [(''origin'', VStr (cc_origin c))] @
     (if cc_classifier c \<noteq> [] then [(''classifier_id'', VStr (cc_classifier c))] else []) @
     (if cc_version c \<noteq> [] then [(''classifier_version'', VStr (cc_version c))] else []) @
     (if cc_reason c \<noteq> [] then [(''fallback_reason'', VStr (cc_reason c))] else [])"

definition entity_map :: "kn_entity \<Rightarrow> gval" where
  "entity_map e =
     VMap ([(''name'', VStr (en_name e))] @ (if en_type e \<noteq> [] then [(''type'', VStr (en_type e))] else []))"

definition metadata_map :: "defining_metadata \<Rightarrow> (string \<times> gval) list" where
  "metadata_map m =
     [(''form'', axis_value (cl_form (dm_class m))), (''content_kind'', axis_value (cl_kind (dm_class m))),
      (''form_choice'', VMap (json_choice (cl_form_choice (dm_class m)))),
      (''kind_choice'', VMap (json_choice (cl_kind_choice (dm_class m))))] @
     (if dm_topics m \<noteq> [] then [(''topics'', VList (map VStr (dm_topics m)))] else []) @
     (if dm_entities m \<noteq> [] then [(''entities'', VList (map entity_map (dm_entities m)))] else []) @
     (if dm_date m \<noteq> [] then [(''date_anchor'', VStr (dm_date m))] else []) @
     (case dm_reading m of
        None \<Rightarrow> []
      | Some r \<Rightarrow> [(''reading'', VMap [(''format'', VStr (rv_format r)), (''reader'', VStr (rv_reader r)),
                                      (''reader_version'', VStr (rv_version r))])])"

definition empty_input :: metadata_input where
  "empty_input = \<lparr>mi_form = [], mi_kind = [], mi_topics = None, mi_entities = None, mi_date = []\<rparr>"

definition resolved_metadata ::
    "json_ports \<Rightarrow> gval option \<Rightarrow> class_values \<Rightarrow> reading_provenance option \<Rightarrow> (string \<times> gval) list res" where
  "resolved_metadata js raw defaults reading =
     (case (case raw of None \<Rightarrow> Inr empty_input | Some v \<Rightarrow> decode_metadata js v) of
        Inl e \<Rightarrow> Inl e
      | Inr i \<Rightarrow>
          (case resolve_classification
                  \<lparr>ci_explicit = \<lparr>cv_form = mi_form i, cv_kind = mi_kind i\<rparr>, ci_classifier = None,
                   ci_source = defaults, ci_awaiting_form = False, ci_awaiting_kind = False\<rparr> of
             Inl e \<Rightarrow> Inl e
           | Inr c \<Rightarrow>
               (let m = \<lparr>dm_class = c, dm_topics = case_option [] id (mi_topics i),
                         dm_entities = case_option [] id (mi_entities i), dm_date = mi_date i, dm_reading = reading\<rparr>
                in case jp_defining_size js m of
                     None \<Rightarrow> Inl (Errorf ''resolved metadata exceeds 65536 bytes'')
                   | Some n \<Rightarrow>
                       if n > max_metadata then Inl (Errorf ''resolved metadata exceeds 65536 bytes'')
                       else Inr (metadata_map m))))"

definition reading_defaults :: "string \<Rightarrow> class_values" where
  "reading_defaults format =
     (let f = to_lower_ascii (trim_prefix ''.'' format)
      in if contains_str [''epub'', ''mobi''] f then no_values\<lparr>cv_form := FormBook\<rparr>
         else if contains_str [''html'', ''htm'', ''rss'', ''atom''] f then no_values\<lparr>cv_form := FormArticle\<rparr>
         else no_values)"

subsection \<open>Questions for the user\<close>

definition question_for :: "string \<Rightarrow> string \<Rightarrow> string list \<Rightarrow> gval" where
  "question_for field question options =
     VMap [(''field'', VStr field), (''question'', VStr question), (''allowed_values'', VStrs options)]"

definition class_axes :: "(string \<times> (string \<Rightarrow> bool) \<times> string \<times> string list) list" where
  "class_axes =
     [(''form'', valid_form, ''What is the form of this document?'',
       [''book'', ''article'', ''note'', ''conversation'', ''meme'']),
      (''content_kind'', valid_content_kind, ''What type of content does this document contain?'',
       [''news'', ''reference'', ''research'', ''narrative''])]"

definition classification_questions :: "(string \<times> gval) list \<Rightarrow> gval" where
  "classification_questions metadata =
     (let open_axes = filter (\<lambda>(field, valid, q). \<not> valid (str_of (map_of metadata field))) class_axes
      in VMap [(''status'', VStr (if open_axes = [] then ''classified'' else ''pending'')),
               (''needs_user_input'', VBool (open_axes \<noteq> [])),
               (''missing_axes'', VStrs (map fst open_axes)),
               (''questions'', VList (map (\<lambda>(field, valid, question, options). question_for field question options) open_axes))])"

text \<open>
  \<open>annotateClassification\<close> of a result and of the documents and hits in it.  The result of a service came
  through JSON, so a list is a \<open>[]any\<close>.
\<close>

definition with_questions :: "(string \<times> gval) list \<Rightarrow> (string \<times> gval) list" where
  "with_questions kvs =
     (case map_of kvs ''metadata'' of
        Some (VMap metadata) \<Rightarrow> AList.update ''classification'' (classification_questions metadata) kvs
      | _ \<Rightarrow> kvs)"

fun annotate_val :: "gval \<Rightarrow> gval" and annotate_list :: "gval list \<Rightarrow> gval list"
  and annotate_entries :: "(string \<times> gval) list \<Rightarrow> (string \<times> gval) list" where
  "annotate_val (VMap kvs) = VMap (with_questions (annotate_entries kvs))"
| "annotate_val v = v"
| "annotate_list [] = []"
| "annotate_list (v # vs) = annotate_val v # annotate_list vs"
| "annotate_entries [] = []"
| "annotate_entries ((k, v) # kvs) =
     (k, if k = ''documents'' \<or> k = ''hits''
         then (case v of VList vs \<Rightarrow> VList (annotate_list vs) | _ \<Rightarrow> v) else v) # annotate_entries kvs"

definition annotate_field :: "string \<Rightarrow> gmap \<Rightarrow> gmap" where
  "annotate_field key result =
     (case result key of Some (VList vs) \<Rightarrow> result(key \<mapsto> VList (annotate_list vs)) | _ \<Rightarrow> result)"

definition annotate_classification :: "gmap \<Rightarrow> gmap" where
  "annotate_classification result =
     (let result = (case result ''metadata'' of
                      Some (VMap metadata) \<Rightarrow> result(''classification'' \<mapsto> classification_questions metadata)
                    | _ \<Rightarrow> result)
      in annotate_field ''hits'' (annotate_field ''documents'' result))"


subsection \<open>Nothing is invented\<close>

definition unresolved_reasons :: "string list" where
  "unresolved_reasons =
     [''user_clarification_required'', ''classifier_value_invalid'', ''classifier_identity_missing'', ''classification_missing'']"

text \<open>What may stand behind one resolved axis.\<close>

definition axis_justified ::
    "(string \<Rightarrow> bool) \<Rightarrow> string \<Rightarrow> string \<Rightarrow> string \<Rightarrow> classifier_proposal option \<Rightarrow> bool \<Rightarrow> string \<Rightarrow> class_choice \<Rightarrow> bool" where
  "axis_justified valid explicit source proposed classifier awaiting v c \<longleftrightarrow>
     (if v = [] then cc_origin c = OriginUserRequired \<and> normalize_label explicit = [] \<and> contains_str unresolved_reasons (cc_reason c)
      else valid v \<and> cc_reason c = [] \<and>
        (cc_origin c = OriginUser \<and> v = normalize_label explicit \<or>
         normalize_label explicit = [] \<and> \<not> awaiting \<and>
         (cc_origin c = OriginClassifier \<and> v = normalize_label proposed \<and> cc_classifier c \<noteq> [] \<and> cc_version c \<noteq> [] \<and>
            classifier \<noteq> None \<or>
          cc_origin c = OriginSource \<and> v = normalize_label source \<and> normalize_label proposed = [])))"

lemma axis_resolved:
  assumes "resolve_axis explicit source proposed classifier valid axis awaiting = Inr (v, c)"
  shows "axis_justified valid explicit source proposed classifier awaiting v c"
  using assms
  by (auto simp: resolve_axis_def unresolved_axis_def axis_justified_def unresolved_reasons_def Let_def
      split: if_splits option.splits)

definition unsure :: "(classifier_proposal \<Rightarrow> bool) \<Rightarrow> classifier_proposal option \<Rightarrow> bool" where
  "unsure f c = (case c of None \<Rightarrow> False | Some p \<Rightarrow> f p \<or> cp_unavailable p)"

text \<open>
  A classification is never invented.  On either axis the value is one Knowledge has, and it is the
  user's own or, when the user said nothing and no question is open, the identified classifier's or, when that
  proposed nothing, the source's default; otherwise the axis has no value and asks the user, with a reason
  from a fixed list.  Each axis stands on its own.
\<close>

theorem classification_is_justified:
  "case resolve_classification i of
     Inl e \<Rightarrow> True
   | Inr c \<Rightarrow>
       axis_justified valid_form (cv_form (ci_explicit i)) (cv_form (ci_source i)) (proposal_axis (ci_classifier i) True)
         (ci_classifier i) (ci_awaiting_form i \<or> unsure cp_uncertain_form (ci_classifier i)) (cl_form c) (cl_form_choice c) \<and>
       axis_justified valid_content_kind (cv_kind (ci_explicit i)) (cv_kind (ci_source i)) (proposal_axis (ci_classifier i) False)
         (ci_classifier i) (ci_awaiting_kind i \<or> unsure cp_uncertain_kind (ci_classifier i)) (cl_kind c) (cl_kind_choice c)"
  by (auto simp: resolve_classification_def Let_def unsure_def [symmetric]
      split: sum.splits dest!: axis_resolved)

end
