(* ===== verification/Knowledge_Domain.thy ===== *)
theory Knowledge_Domain
  imports Knowledge_Classes Go_SHA256 Go_Float Call_Log
begin

section \<open>The knowledge domain\<close>

text \<open>
  \<open>domain.go\<close>, \<open>classification_answers.go\<close>, \<open>reading_classification.go\<close> and \<open>reclassification.go\<close>
  of \<open>dokja_domain/dokja_knowledge\<close>: which requests reach the service, how answers and a
  classifier's proposals become patches of stored metadata.  The service is a
  parameter over the world \<open>'w\<close>; a payload is the list of its entries, each key once.
\<close>

type_synonym payload = "(string \<times> gval) list"
type_synonym 'w knowledge_service = "string \<Rightarrow> gmap \<Rightarrow> 'w \<Rightarrow> gmap res \<times> 'w"

definition text_in :: "payload \<Rightarrow> string \<Rightarrow> string" where
  "text_in p key = str_of (map_of p key)"

fun map_in :: "gval option \<Rightarrow> payload" where
  "map_in (Some (VMap kvs)) = kvs"
| "map_in _ = []"

definition value_or_nil :: "gval option \<Rightarrow> gval" where
  "value_or_nil v = (case v of None \<Rightarrow> nil_val | Some x \<Rightarrow> x)"

text \<open>A service call whose result is annotated when it succeeds.\<close>

definition ask_service :: "'w knowledge_service \<Rightarrow> string \<Rightarrow> gmap \<Rightarrow> 'w \<Rightarrow> gmap res \<times> 'w" where
  "ask_service service event_type request w =
     (case service event_type request w of
        (Inl e, w') \<Rightarrow> (Inl e, w')
      | (Inr result, w') \<Rightarrow> (Inr (annotate_classification result), w'))"

subsection \<open>Answers of the user\<close>

definition hex_text :: "string \<Rightarrow> bool" where
  "hex_text s \<longleftrightarrow> list_all (\<lambda>c. c \<in> set ''0123456789abcdefABCDEF'') s"

text \<open>\<open>hex.DecodeString\<close> gives 32 bytes.\<close>

definition revision_token :: "string \<Rightarrow> bool" where
  "revision_token s \<longleftrightarrow> length s = 64 \<and> hex_text s"

definition answered_axes :: "string list \<Rightarrow> classification \<Rightarrow> payload" where
  "answered_axes keys c =
     (if contains_str keys ''form''
      then [(''form'', VStr (cl_form c)), (''form_choice'', VMap [(''origin'', VStr OriginUser)])] else []) @
     (if contains_str keys ''content_kind''
      then [(''content_kind'', VStr (cl_kind c)), (''kind_choice'', VMap [(''origin'', VStr OriginUser)])] else [])"

definition user_answer_patch :: "json_ports \<Rightarrow> gval \<Rightarrow> payload res" where
  "user_answer_patch js raw =
     (case jp_answers js raw of
        None \<Rightarrow> Inl (Errorf ''answers must be an object containing form or content_kind'')
      | Some j \<Rightarrow>
          if aj_size j > 4096 then Inl (Errorf ''answers must be an object containing form or content_kind'')
          else (case aj_fields j of
              None \<Rightarrow> Inl (Errorf ''answers must contain form or content_kind'')
            | Some keys \<Rightarrow>
                if keys = [] then Inl (Errorf ''answers must contain form or content_kind'')
                else (case aj_values j of
                    None \<Rightarrow> Inl (Errorf ''answers only accept form and content_kind strings'')
                  | Some v \<Rightarrow>
                      if contains_str keys ''form'' \<and> normalize_label (cv_form v) = []
                      then Inl (Errorf ''form answer must be nonempty'')
                      else if contains_str keys ''content_kind'' \<and> normalize_label (cv_kind v) = []
                      then Inl (Errorf ''content_kind answer must be nonempty'')
                      else (case resolve_classification
                              \<lparr>ci_explicit = v, ci_classifier = None, ci_source = no_values,
                               ci_awaiting_form = False, ci_awaiting_kind = False\<rparr> of
                          Inl e \<Rightarrow> Inl e
                        | Inr c \<Rightarrow>
                            Inr (answered_axes keys c)))))"

definition classify ::
    "json_ports \<Rightarrow> 'w knowledge_service \<Rightarrow> payload \<Rightarrow> 'w \<Rightarrow> gmap res \<times> 'w" where
  "classify js service p w =
     (let source_id = trim_space (text_in p ''source_id'')
      in if source_id = [] then (Inl (Errorf ''source_id is required''), w)
         else if list_ex (\<lambda>(key, v). \<not> contains_str [''source_id'', ''answers'', ''revision''] key) p
         then (Inl (Errorf ''unsupported classification request field''), w)
         else (case map_of p ''answers'' of
             None \<Rightarrow>
               if map_of p ''revision'' \<noteq> None then (Inl (Errorf ''revision requires answers''), w)
               else ask_service service ''knowledge.metadata.get'' [''source_id'' \<mapsto> VStr source_id] w
           | Some raw \<Rightarrow>
               (case user_answer_patch js raw of
                  Inl e \<Rightarrow> (Inl e, w)
                | Inr patch \<Rightarrow>
                    if \<not> revision_token (text_in p ''revision'')
                    then (Inl (Errorf ''revision from the classification questions is required''), w)
                    else ask_service service ''knowledge.metadata.patch''
                           [''source_id'' \<mapsto> VStr source_id, ''revision'' \<mapsto> VStr (text_in p ''revision''), ''patch'' \<mapsto> VMap patch] w)))"

subsection \<open>Requests\<close>

definition ActionIngestKnowledge :: string where "ActionIngestKnowledge = ''ingest-knowledge''"
definition ActionSearchKnowledge :: string where "ActionSearchKnowledge = ''search-knowledge''"
definition ActionListKnowledge :: string where "ActionListKnowledge = ''list-knowledge''"
definition ActionDeleteKnowledge :: string where "ActionDeleteKnowledge = ''delete-knowledge''"
definition ActionInspectKnowledge :: string where "ActionInspectKnowledge = ''inspect-knowledge''"
definition ActionReindexKnowledge :: string where "ActionReindexKnowledge = ''reindex-knowledge''"
definition ActionClassifyKnowledge :: string where "ActionClassifyKnowledge = ''classify-knowledge''"

definition required_fields :: "string \<Rightarrow> string list" where
  "required_fields action =
     (if action = ActionSearchKnowledge then [''query''] else if action = ActionDeleteKnowledge then [''source_id''] else [])"

definition ingest_inputs :: "string list" where
  "ingest_inputs = [''body'', ''content_b64'', ''source'']"

definition given :: "payload \<Rightarrow> string \<Rightarrow> bool" where
  "given p field \<longleftrightarrow> trim_space (text_in p field) \<noteq> []"

definition validate_ingest :: "payload \<Rightarrow> gerror option" where
  "validate_ingest p =
     (if length (filter (given p) ingest_inputs) \<noteq> 1
      then Some (Errorf (''send exactly one of '' @ join_with '', '' ingest_inputs))
      else if given p ''body'' \<and> \<not> given p ''title'' then Some (Errorf ''title is required with body'')
      else if given p ''content_b64'' \<and> \<not> given p ''filename'' then Some (Errorf ''filename is required with content_b64'')
      else None)"

definition event_types :: "string \<rightharpoonup> string" where
  "event_types =
     [ActionIngestKnowledge \<mapsto> ''knowledge.ingest'', ActionSearchKnowledge \<mapsto> ''knowledge.search'',
      ActionListKnowledge \<mapsto> ''knowledge.list'', ActionDeleteKnowledge \<mapsto> ''knowledge.delete'',
      ActionInspectKnowledge \<mapsto> ''knowledge.status'', ActionReindexKnowledge \<mapsto> ''knowledge.reindex'']"

text \<open>The actions that need a host, with what each answers.\<close>

definition hosted_actions :: "(string \<times> string) list" where
  "hosted_actions =
     [(''propose-adaptive-knowledge-application'', ''knowledge.application.propose.adaptive needs the application host''),
      (''review-knowledge-application'', ''knowledge.application.review needs the application host''),
      (''propose-measured-knowledge-application'', ''knowledge.application.propose.measured needs the application host''),
      (''propose-knowledge-application'', ''knowledge.application.propose needs the application host''),
      (''assess-knowledge-application'', ''knowledge.application.assess needs the application host''),
      (''prepare-knowledge-application'', ''knowledge.application.prepare needs the application host'')]"

definition reading_actions :: "(string \<times> string) list" where
  "reading_actions =
     [(''reclassify-knowledge'', ''knowledge.reclassify needs the reading host''),
      (''read-knowledge'', ''knowledge.read needs the reading host, which is not configured''),
      (''intake-knowledge'', ''knowledge.intake.run needs the reading host, which is not configured'')]"

text \<open>The payload an ingest may send, its metadata resolved.\<close>

definition ingest_payload :: "json_ports \<Rightarrow> payload \<Rightarrow> gmap res" where
  "ingest_payload js p =
     (if map_of p ''metadata_if_unchanged'' \<noteq> None
      then Inl (Errorf ''metadata_if_unchanged is reserved for reading storage'')
      else case validate_ingest p of
          Some e \<Rightarrow> Inl e
        | None \<Rightarrow>
            (case map_of p ''metadata'' of
               None \<Rightarrow> Inr (map_of p)
             | Some raw \<Rightarrow>
                 (case decode_metadata js raw of
                    Inl e \<Rightarrow> Inl e
                  | Inr i \<Rightarrow>
                      (case resolved_metadata js (Some raw) no_values None of
                         Inl e \<Rightarrow> Inl e
                       | Inr m \<Rightarrow> Inr ((map_of p)(''metadata'' \<mapsto> VMap m))))))"

fun missing_field :: "payload \<Rightarrow> string list \<Rightarrow> gerror option" where
  "missing_field p [] = None"
| "missing_field p (f # fs) =
     (if \<not> given p f then Some (Errorf (f @ '' is required'')) else missing_field p fs)"

definition knowledge_handle ::
    "json_ports \<Rightarrow> 'w knowledge_service option \<Rightarrow> string \<Rightarrow> string \<Rightarrow> payload \<Rightarrow> 'w \<Rightarrow> gmap res \<times> 'w" where
  "knowledge_handle js service action event_type p w =
     (case service of
        None \<Rightarrow> (Inl (Errorf ''knowledge service is not configured''), w)
      | Some sv \<Rightarrow>
          (case map_of hosted_actions action of
             Some text \<Rightarrow> (Inl (Errorf text), w)
           | None \<Rightarrow>
               if action = ActionClassifyKnowledge then classify js sv p w
               else (case map_of reading_actions action of
                   Some text \<Rightarrow> (Inl (Errorf text), w)
                 | None \<Rightarrow>
                     (case event_types action of
                        None \<Rightarrow>
                          (Inl (Errorf (''unsupported knowledge action '' @ go_quote action @ '' for event type '' @ go_quote event_type)), w)
                      | Some event \<Rightarrow>
                          (case (if action = ActionIngestKnowledge then ingest_payload js p else Inr (map_of p)) of
                             Inl e \<Rightarrow> (Inl e, w)
                           | Inr request \<Rightarrow>
                               (case missing_field p (required_fields action) of
                                  Some e \<Rightarrow> (Inl e, w)
                                | None \<Rightarrow> ask_service sv event request w))))))"


subsection \<open>What a classifier proposes\<close>

record reading_proposal =
  rp_values :: class_values
  rp_uncertain_form :: bool
  rp_uncertain_kind :: bool
  rp_topics :: "string list"
  rp_entities :: "kn_entity list"
  rp_date :: string

text \<open>An axis nobody decided and nobody was asked about.\<close>

definition awaiting_classifier :: "payload \<Rightarrow> string \<Rightarrow> bool" where
  "awaiting_classifier metadata field \<longleftrightarrow>
     (let choice = map_in (map_of metadata field)
      in text_in choice ''origin'' = OriginUserRequired \<and> text_in choice ''fallback_reason'' = ''classification_missing'')"

definition candidate :: "gmap \<Rightarrow> bool" where
  "candidate result \<longleftrightarrow>
     bool_of (result ''changed'') \<and>
     (case result ''metadata'' of
        Some (VMap metadata) \<Rightarrow> awaiting_classifier metadata ''form_choice'' \<or> awaiting_classifier metadata ''kind_choice''
      | _ \<Rightarrow> False)"

definition classification_candidates :: "gmap list \<Rightarrow> int list" where
  "classification_candidates stored =
     map (\<lambda>(i, r). int i) (filter (\<lambda>(i, r). candidate r) (enumerate 0 stored))"

definition entity_entry :: "kn_entity \<Rightarrow> gval option" where
  "entity_entry e =
     (if trim_space (en_name e) = [] then None
      else Some (entity_map \<lparr>en_name = trim_space (en_name e), en_type = trim_space (en_type e)\<rparr>))"

definition no_class :: classification where
  "no_class = (let c = \<lparr>cc_origin = [], cc_classifier = [], cc_version = [], cc_reason = []\<rparr>
               in \<lparr>cl_form = [], cl_kind = [], cl_form_choice = c, cl_kind_choice = c\<rparr>)"

definition classifier_patch :: "payload \<Rightarrow> reading_proposal \<Rightarrow> string \<Rightarrow> string \<Rightarrow> payload" where
  "classifier_patch metadata p i version =
     (let c = (case resolve_classification
                 \<lparr>ci_explicit = no_values,
                  ci_classifier = Some \<lparr>cp_values = rp_values p, cp_id = i, cp_version = version,
                                        cp_uncertain_form = rp_uncertain_form p, cp_uncertain_kind = rp_uncertain_kind p,
                                        cp_unavailable = False\<rparr>,
                  ci_source = no_values, ci_awaiting_form = False, ci_awaiting_kind = False\<rparr> of
                 Inl e \<Rightarrow> no_class | Inr c \<Rightarrow> c);
          topics = filter (\<lambda>t. t \<noteq> []) (map trim_space (rp_topics p));
          entities = List.map_filter entity_entry (rp_entities p)
      in [(''classifier'', VMap [(''id'', VStr i), (''version'', VStr version)])] @
         (if awaiting_classifier metadata ''form_choice''
          then [(''form'', axis_value (cl_form c)), (''form_choice'', VMap (choice_map (cl_form_choice c)))] else []) @
         (if awaiting_classifier metadata ''kind_choice''
          then [(''content_kind'', axis_value (cl_kind c)), (''kind_choice'', VMap (choice_map (cl_kind_choice c)))] else []) @
         (if map_of metadata ''topics'' = None \<and> topics \<noteq> [] then [(''topics'', VStrs topics)] else []) @
         (if map_of metadata ''entities'' = None \<and> entities \<noteq> [] then [(''entities'', VList entities)] else []) @
         (if map_of metadata ''date_anchor'' = None \<and> rp_date p \<noteq> [] \<and> valid_date (rp_date p)
          then [(''date_anchor'', VStr (rp_date p))] else []))"

definition patch_request :: "gval \<Rightarrow> gval \<Rightarrow> payload \<Rightarrow> gmap" where
  "patch_request source_id revision patch =
     [''source_id'' \<mapsto> source_id, ''revision'' \<mapsto> revision, ''patch'' \<mapsto> VMap patch]"

text \<open>One candidate: the stored results after it, its error and the world.\<close>

definition classify_one ::
    "'w knowledge_service \<Rightarrow> string \<Rightarrow> string \<Rightarrow> nat \<Rightarrow> reading_proposal \<Rightarrow> gmap list \<Rightarrow> 'w \<Rightarrow>
     gerror option \<times> gmap list \<times> 'w" where
  "classify_one service i version n p stored w =
     (let source_id = VStr (str_of ((stored ! n) ''source_id''))
      in case service ''knowledge.metadata.get'' [''source_id'' \<mapsto> source_id] w of
           (Inl e, w1) \<Rightarrow> (Some e, stored, w1)
         | (Inr snapshot, w1) \<Rightarrow>
             (case service ''knowledge.metadata.patch''
                     (patch_request source_id (value_or_nil (snapshot ''revision''))
                        (classifier_patch (map_in (snapshot ''metadata'')) p i version)) w1 of
                (Inl e, w2) \<Rightarrow> (Some e, stored, w2)
              | (Inr result, w2) \<Rightarrow>
                  (None, stored[n := annotate_classification
                      ((stored ! n)(''metadata'' \<mapsto> value_or_nil (result ''metadata''), ''classified'' \<mapsto> VBool True))], w2)))"

text \<open>The loop; the errors it joins, or the one it stops with.\<close>

definition show_int :: "int \<Rightarrow> string" where
  "show_int n = (if n < 0 then CHR ''-'' # show_nat (nat (- n)) else show_nat (nat n))"

fun classify_each ::
    "'w knowledge_service \<Rightarrow> string \<Rightarrow> string \<Rightarrow> (int \<times> reading_proposal) list \<Rightarrow> gmap list \<Rightarrow> 'w \<Rightarrow>
     (gerror + gerror list) \<times> gmap list \<times> 'w" where
  "classify_each service i version [] stored w = (Inr [], stored, w)"
| "classify_each service i version ((n, p) # rest) stored w =
     (if n < 0 \<or> n \<ge> int (length stored)
      then (Inl (Errorf (''candidate '' @ show_int n @ '' is not a stored document'')), stored, w)
      else (case classify_one service i version (nat n) p stored w of
          (err, stored1, w1) \<Rightarrow>
            (case classify_each service i version rest stored1 w1 of
               (Inl e, stored2, w2) \<Rightarrow> (Inl e, stored2, w2)
             | (Inr errs, stored2, w2) \<Rightarrow> (Inr (case_option [] (\<lambda>e. [e]) err @ errs), stored2, w2))))"

definition apply_classification ::
    "'w knowledge_service option \<Rightarrow> gmap list \<Rightarrow> int list \<Rightarrow> reading_proposal list \<Rightarrow> string \<Rightarrow> string \<Rightarrow> 'w \<Rightarrow>
     (gerror + gerror list) \<times> gmap list \<times> 'w" where
  "apply_classification service stored candidates proposals i version w =
     (case service of
        None \<Rightarrow> (Inl (Errorf ''knowledge service is not configured''), stored, w)
      | Some sv \<Rightarrow>
          if length candidates \<noteq> length proposals
          then (Inl (Errorf (show_nat (length proposals) @ '' proposals for '' @ show_nat (length candidates) @ '' documents'')), stored, w)
          else if trim_space i = [] \<or> trim_space version = []
          then (Inl (Errorf ''classifier identity and version are required''), stored, w)
          else classify_each sv (trim_space i) (trim_space version) (zip candidates proposals) stored w)"

subsection \<open>Reclassification\<close>

text \<open>What was decided automatically is open again; what the user or the source decided stays.\<close>

definition automatic :: "payload \<Rightarrow> string \<times> string \<Rightarrow> bool" where
  "automatic metadata axis =
     (let choice = map_in (map_of metadata (fst axis))
      in text_in choice ''origin'' = OriginClassifier \<or> awaiting_classifier metadata (fst axis) \<or>
         choice = [] \<and> value_or_nil (map_of metadata (snd axis)) = nil_val)"

definition automatic_axes :: "(string \<times> string) list" where
  "automatic_axes = [(''form_choice'', ''form''), (''kind_choice'', ''content_kind'')]"

definition reclassification_metadata :: "payload \<Rightarrow> payload \<times> bool" where
  "reclassification_metadata metadata =
     (fold (\<lambda>axis m. if automatic metadata axis
                     then AList.update (fst axis)
                       (VMap [(''origin'', VStr OriginUserRequired), (''fallback_reason'', VStr ''classification_missing'')]) m
                     else m) automatic_axes metadata,
      list_ex (automatic metadata) automatic_axes)"

definition prepare_reclassification ::
    "'w knowledge_service \<Rightarrow> payload \<Rightarrow> 'w \<Rightarrow> gmap res \<times> 'w" where
  "prepare_reclassification service p w =
     (if \<not> given p ''source_id'' \<or> length p \<noteq> 1 then (Inl (Errorf ''reclassification requires only source_id''), w)
      else case service ''knowledge.classification.sample'' [''source_id'' \<mapsto> VStr (trim_space (text_in p ''source_id''))] w of
          (Inl e, w') \<Rightarrow> (Inl e, w')
        | (Inr snapshot, w') \<Rightarrow>
            if trim_space (str_of (snapshot ''text'')) = [] \<or> rune_count (str_of (snapshot ''text'')) > 16000 \<or>
               str_of (snapshot ''revision'') = []
            then (Inl (Errorf ''invalid classification snapshot''), w')
            else (Inr snapshot, w'))"

definition reclassifiable :: "gmap \<Rightarrow> bool" where
  "reclassifiable snapshot = snd (reclassification_metadata (map_in (snapshot ''metadata'')))"

definition keep_reclassification ::
    "'w knowledge_service \<Rightarrow> gmap \<Rightarrow> reading_proposal \<Rightarrow> string \<Rightarrow> string \<Rightarrow> 'w \<Rightarrow> gmap res \<times> 'w" where
  "keep_reclassification service snapshot p i version w =
     (if trim_space i = [] \<or> trim_space version = []
      then (Inl (Errorf ''classifier identity and version are required''), w)
      else case reclassification_metadata (map_in (snapshot ''metadata'')) of
          (metadata, eligible) \<Rightarrow>
            if \<not> eligible then (Inl (Errorf ''no automatic classification to revise''), w)
            else ask_service service ''knowledge.metadata.patch''
                   (patch_request (value_or_nil (snapshot ''source_id'')) (value_or_nil (snapshot ''revision''))
                      (classifier_patch metadata p i version)) w)"


subsection \<open>What the service is asked\<close>

text \<open>A service that records what it is asked; its answers depend on all of it so far.\<close>

datatype kn_call = Kn_Call string gmap "gmap res"

definition recorded_knowledge ::
    "(kn_call list \<Rightarrow> string \<Rightarrow> gmap \<Rightarrow> gmap res) \<Rightarrow> kn_call list knowledge_service" where
  "recorded_knowledge f event p calls = (f calls event p, calls @ [Kn_Call event p (f calls event p)])"

fun label_or_nil :: "(string \<Rightarrow> bool) \<Rightarrow> gval \<Rightarrow> bool" where
  "label_or_nil valid (VStr s) = valid s"
| "label_or_nil valid v = (v = nil_val)"

definition axis_patched :: "(string \<Rightarrow> bool) \<Rightarrow> bool \<Rightarrow> payload \<Rightarrow> string \<Rightarrow> string \<Rightarrow> bool" where
  "axis_patched valid undecided patch value_key choice_key \<longleftrightarrow>
     (case (map_of patch value_key, map_of patch choice_key) of
        (None, None) \<Rightarrow> True
      | (Some v, Some c) \<Rightarrow> undecided \<and> label_or_nil valid v \<and>
          text_in (map_in (Some c)) ''origin'' \<in> {OriginClassifier, OriginUserRequired}
      | _ \<Rightarrow> False)"

text \<open>
  What is stored of an axis nobody decided: that the user is to be asked for it, because there was no classification.
  Any other origin, or a question put to the user for another reason, is a decision.
\<close>

definition undecided :: "payload \<Rightarrow> string \<Rightarrow> bool" where
  "undecided metadata field \<longleftrightarrow>
     (case map_of metadata field of
        Some (VMap choice) \<Rightarrow> map_of choice ''origin'' = Some (VStr ''user_required'') \<and>
          map_of choice ''fallback_reason'' = Some (VStr ''classification_missing'')
      | _ \<Rightarrow> False)"

lemma str_given: "s \<noteq> [] \<Longrightarrow> str_of x = s \<longleftrightarrow> x = Some (VStr s)"
  by (cases x rule: str_of.cases) auto

lemma awaiting_undecided: "awaiting_classifier metadata field = undecided metadata field"
  by (cases "map_of metadata field" rule: map_in.cases)
    (simp_all add: awaiting_classifier_def undecided_def Let_def text_in_def OriginUserRequired_def str_given)

text \<open>A patch that touches only what nobody decided.\<close>

definition keeps_decided :: "payload \<Rightarrow> payload \<Rightarrow> bool" where
  "keeps_decided metadata patch \<longleftrightarrow>
     axis_patched valid_form (undecided metadata ''form_choice'') patch ''form'' ''form_choice'' \<and>
     axis_patched valid_content_kind (undecided metadata ''kind_choice'') patch ''content_kind'' ''kind_choice'' \<and>
     list_all (\<lambda>key. map_of metadata key = None \<or> map_of patch key = None) [''topics'', ''entities'', ''date_anchor''] \<and>
     set (map fst patch) \<subseteq> {''classifier'', ''form'', ''form_choice'', ''content_kind'', ''kind_choice'', ''topics'',
       ''entities'', ''date_anchor''}"

text \<open>A call that reads metadata, or patches it as it was just read.\<close>

fun patch_permitted :: "kn_call list \<Rightarrow> kn_call \<Rightarrow> bool" where
  "patch_permitted before_calls (Kn_Call event p answer) \<longleftrightarrow>
     event = ''knowledge.metadata.get'' \<or>
     event = ''knowledge.metadata.patch'' \<and>
     (\<exists>earlier source_id snapshot patch.
        before_calls = earlier @ [Kn_Call ''knowledge.metadata.get'' [''source_id'' \<mapsto> source_id] (Inr snapshot)] \<and>
        p = patch_request source_id (value_or_nil (snapshot ''revision'')) patch \<and>
        keeps_decided (map_in (snapshot ''metadata'')) patch)"

lemma normalize_empty [simp]: "normalize_label [] = []"
  by (simp add: normalize_label_def to_lower_ascii_def string_of_runes_def)

lemma axis_proposed:
  assumes "axis_justified valid [] [] p c a v ch"
  shows "label_or_nil valid (axis_value v) \<and> cc_origin ch \<in> {OriginClassifier, OriginUserRequired}"
  using assms by (auto simp: axis_justified_def axis_value_def nil_val_def split: if_splits)

lemma proposed_classification:
  assumes "resolve_classification
     \<lparr>ci_explicit = no_values, ci_classifier = Some p, ci_source = no_values, ci_awaiting_form = False, ci_awaiting_kind = False\<rparr> = Inr c"
  shows "label_or_nil valid_form (axis_value (cl_form c)) \<and> cc_origin (cl_form_choice c) \<in> {OriginClassifier, OriginUserRequired}"
    "label_or_nil valid_content_kind (axis_value (cl_kind c)) \<and> cc_origin (cl_kind_choice c) \<in> {OriginClassifier, OriginUserRequired}"
  using assms
  by (auto simp: resolve_classification_def no_values_def Let_def split: sum.splits dest!: axis_resolved axis_proposed)

lemma proposed_resolves:
  "\<exists>c. resolve_classification
     \<lparr>ci_explicit = no_values, ci_classifier = Some p, ci_source = no_values, ci_awaiting_form = False, ci_awaiting_kind = False\<rparr> = Inr c"
  by (auto simp: resolve_classification_def resolve_axis_def no_values_def Let_def unresolved_axis_def split: sum.splits)

lemma choice_origin: "text_in (choice_map c) ''origin'' = cc_origin c"
  by (simp add: text_in_def choice_map_def)

lemma classifier_patch_keeps: "keeps_decided metadata (classifier_patch metadata p i version)"
proof -
  obtain c where c: "resolve_classification
     \<lparr>ci_explicit = no_values,
      ci_classifier = Some \<lparr>cp_values = rp_values p, cp_id = i, cp_version = version, cp_uncertain_form = rp_uncertain_form p,
        cp_uncertain_kind = rp_uncertain_kind p, cp_unavailable = False\<rparr>,
      ci_source = no_values, ci_awaiting_form = False, ci_awaiting_kind = False\<rparr> = Inr c"
    using proposed_resolves by blast
  note ok = proposed_classification [OF c]
  let ?A = "if awaiting_classifier metadata ''form_choice''
          then [(''form'', axis_value (cl_form c)), (''form_choice'', VMap (choice_map (cl_form_choice c)))] else []"
  let ?B = "if awaiting_classifier metadata ''kind_choice''
          then [(''content_kind'', axis_value (cl_kind c)), (''kind_choice'', VMap (choice_map (cl_kind_choice c)))] else []"
  obtain C where C: "classifier_patch metadata p i version =
      [(''classifier'', VMap [(''id'', VStr i), (''version'', VStr version)])] @ ?A @ ?B @ C"
    and keys: "set (map fst C) \<subseteq> {''topics'', ''entities'', ''date_anchor''}"
    and new: "\<And>key. map_of metadata key \<noteq> None \<Longrightarrow> key \<in> {''topics'', ''entities'', ''date_anchor''} \<Longrightarrow> key \<notin> set (map fst C)"
  proof
    let ?C = "(if map_of metadata ''topics'' = None \<and> filter (\<lambda>t. t \<noteq> []) (map trim_space (rp_topics p)) \<noteq> []
         then [(''topics'', VStrs (filter (\<lambda>t. t \<noteq> []) (map trim_space (rp_topics p))))] else []) @
         (if map_of metadata ''entities'' = None \<and> List.map_filter entity_entry (rp_entities p) \<noteq> []
         then [(''entities'', VList (List.map_filter entity_entry (rp_entities p)))] else []) @
         (if map_of metadata ''date_anchor'' = None \<and> rp_date p \<noteq> [] \<and> valid_date (rp_date p)
          then [(''date_anchor'', VStr (rp_date p))] else [])"
    show "classifier_patch metadata p i version =
      [(''classifier'', VMap [(''id'', VStr i), (''version'', VStr version)])] @ ?A @ ?B @ ?C"
      by (simp only: classifier_patch_def Let_def c sum.case)
    show "set (map fst ?C) \<subseteq> {''topics'', ''entities'', ''date_anchor''}" by auto
    show "key \<notin> set (map fst ?C)" if "map_of metadata key \<noteq> None" "key \<in> {''topics'', ''entities'', ''date_anchor''}" for key
      using that by auto
  qed
  have none: "map_of C key = None" if "key \<notin> {''topics'', ''entities'', ''date_anchor''}" for key
    using keys that by (auto simp: map_of_eq_None_iff)
  have at_key: "map_of (classifier_patch metadata p i version) key = map_of (?A @ ?B @ C) key" if "key \<noteq> ''classifier''" for key
    using that by (simp add: C)
  have form: "map_of (classifier_patch metadata p i version) ''form'' =
        (if awaiting_classifier metadata ''form_choice'' then Some (axis_value (cl_form c)) else None)"
      "map_of (classifier_patch metadata p i version) ''form_choice'' =
        (if awaiting_classifier metadata ''form_choice'' then Some (VMap (choice_map (cl_form_choice c))) else None)"
    by (simp_all add: at_key none)
  have kind: "map_of (classifier_patch metadata p i version) ''content_kind'' =
        (if awaiting_classifier metadata ''kind_choice'' then Some (axis_value (cl_kind c)) else None)"
      "map_of (classifier_patch metadata p i version) ''kind_choice'' =
        (if awaiting_classifier metadata ''kind_choice'' then Some (VMap (choice_map (cl_kind_choice c))) else None)"
    by (simp_all add: at_key none)
  have rest: "map_of metadata key = None \<or> map_of (classifier_patch metadata p i version) key = None"
    if "key \<in> {''topics'', ''entities'', ''date_anchor''}" for key
  proof (cases "map_of metadata key")
    case (Some v)
    then have "map_of C key = None" using new [of key] that by (simp add: map_of_eq_None_iff)
    moreover have "key \<noteq> ''classifier''" using that by auto
    moreover have "map_of (?A @ ?B @ C) key = map_of C key" using that by auto
    ultimately show ?thesis by (simp add: at_key)
  qed simp
  have "set (map fst (classifier_patch metadata p i version)) \<subseteq> {''classifier'', ''form'', ''form_choice'', ''content_kind'',
      ''kind_choice'', ''topics'', ''entities'', ''date_anchor''}"
  proof -
    have "set (map fst ?A) \<subseteq> {''form'', ''form_choice''}" "set (map fst ?B) \<subseteq> {''content_kind'', ''kind_choice''}" by auto
    then show ?thesis unfolding C using keys by (simp only: map_append set_append) auto
  qed
  then show ?thesis
    using rest ok
    by (simp add: keeps_decided_def axis_patched_def form kind choice_origin flip: awaiting_undecided)
qed


lemma classify_one_log:
  assumes "classify_one (recorded_knowledge f) i version n p stored calls = (err, stored', calls')"
  shows "calls_added patch_permitted calls calls' \<and> length stored' = length stored"
proof -
  let ?id = "VStr (str_of ((stored ! n) ''source_id''))"
  let ?get = "Kn_Call ''knowledge.metadata.get'' [''source_id'' \<mapsto> ?id]
      (f calls ''knowledge.metadata.get'' [''source_id'' \<mapsto> ?id])"
  have get: "calls_added patch_permitted calls (calls @ [?get])" by (rule calls_added_one) simp
  show ?thesis
  proof (cases "f calls ''knowledge.metadata.get'' [''source_id'' \<mapsto> ?id]")
    case (Inl e)
    then show ?thesis using assms get by (auto simp: classify_one_def recorded_knowledge_def Let_def)
  next
    case (Inr snapshot)
    let ?p = "patch_request ?id (value_or_nil (snapshot ''revision'')) (classifier_patch (map_in (snapshot ''metadata'')) p i version)"
    let ?patch = "Kn_Call ''knowledge.metadata.patch'' ?p (f (calls @ [?get]) ''knowledge.metadata.patch'' ?p)"
    have "calls_added patch_permitted (calls @ [?get]) ((calls @ [?get]) @ [?patch])"
      by (rule calls_added_one) (use Inr classifier_patch_keeps in \<open>auto intro!: exI\<close>)
    then have "calls_added patch_permitted calls (calls @ [?get, ?patch])"
      using calls_added_trans [OF get] by simp
    then show ?thesis using assms Inr
      by (auto simp: classify_one_def recorded_knowledge_def Let_def split: sum.splits)
  qed
qed

lemma classify_each_log:
  "classify_each (recorded_knowledge f) i version nps stored calls = (r, stored', calls') \<Longrightarrow>
   calls_added patch_permitted calls calls' \<and> length stored' = length stored"
proof (induction nps arbitrary: stored calls r stored' calls')
  case (Cons np nps)
  obtain n p where np: "np = (n, p)" by fastforce
  show ?case
  proof (cases "n < 0 \<or> n \<ge> int (length stored)")
    case False
    obtain err stored1 calls1 where one: "classify_one (recorded_knowledge f) i version (nat n) p stored calls = (err, stored1, calls1)"
      by (metis surj_pair)
    obtain r2 stored2 calls2 where rest: "classify_each (recorded_knowledge f) i version nps stored1 calls1 = (r2, stored2, calls2)"
      by (metis surj_pair)
    show ?thesis
      using Cons.prems np False one rest classify_one_log [OF one] Cons.IH [OF rest]
      by (auto split: sum.splits intro: calls_added_trans)
  qed (use Cons.prems np in auto)
qed auto

text \<open>
  C17.  A classifier never overwrites a decision.  Applying its proposals only reads metadata and patches it, each
  patch right after the read of the same document and bound to the revision that read gave; the
  patch gives a value, one Knowledge has or none, only to an axis whose stored choice says that the user is to be
  asked because there was no classification, so that no one had decided it; it names the
  classifier or the user as its origin, and fills topics, entities and the date only when there were none.
\<close>

theorem proposals_never_overwrite:
  "each_call patch_permitted []
     (snd (snd (apply_classification (Some (recorded_knowledge f)) stored candidates proposals i version [])))"
proof -
  obtain r stored' calls where "classify_each (recorded_knowledge f) (trim_space i) (trim_space version)
      (zip candidates proposals) stored [] = (r, stored', calls)"
    by (metis surj_pair)
  then show ?thesis
    using classify_each_log by (auto simp: apply_classification_def intro: calls_added_each)
qed

definition spared :: "payload \<Rightarrow> string \<Rightarrow> bool" where
  "spared metadata field \<longleftrightarrow>
     (let choice = map_in (map_of metadata field)
      in text_in choice ''origin'' = OriginUser \<or> text_in choice ''origin'' = OriginSource \<or>
         text_in choice ''origin'' = OriginUserRequired \<and> text_in choice ''fallback_reason'' \<noteq> ''classification_missing'')"


lemma spared_not_automatic:
  assumes "spared metadata (fst axis)"
  shows "\<not> automatic metadata axis \<and> \<not> awaiting_classifier metadata (fst axis)"
  using assms
  by (auto simp: spared_def automatic_def awaiting_classifier_def Let_def OriginUser_def OriginSource_def
      OriginUserRequired_def OriginClassifier_def text_in_def)

lemma reclassified_elsewhere:
  assumes "spared metadata (fst axis)" "axis \<in> set automatic_axes"
  shows "\<not> awaiting_classifier (fst (reclassification_metadata metadata)) (fst axis)"
proof -
  have "map_of (fst (reclassification_metadata metadata)) (fst axis) = map_of metadata (fst axis)"
    using assms(2) spared_not_automatic [OF assms(1)]
    by (auto simp: reclassification_metadata_def automatic_axes_def update_conv)
  then show ?thesis using spared_not_automatic [OF assms(1)] by (simp add: awaiting_classifier_def)
qed

text \<open>
  Reclassifying spares what the user decided.  One patch is sent at most, bound to the revision of the
  snapshot the classifier saw; it leaves alone every axis the user or the source decided and every open question
  to the user.
\<close>

theorem reclassification_spares_the_user:
  "case keep_reclassification (recorded_knowledge f) snapshot p i version [] of
     (answer, calls) \<Rightarrow>
       calls = [] \<or>
       (\<exists>patch. map (\<lambda>c. case c of Kn_Call event request a \<Rightarrow> (event, request)) calls =
            [(''knowledge.metadata.patch'',
              patch_request (value_or_nil (snapshot ''source_id'')) (value_or_nil (snapshot ''revision'')) patch)] \<and>
          list_all (\<lambda>axis. \<not> (spared (map_in (snapshot ''metadata'')) (fst axis) \<and>
              (map_of patch (fst axis) \<noteq> None \<or> map_of patch (snd axis) \<noteq> None))) automatic_axes)"
proof -
  let ?m = "map_in (snapshot ''metadata'')"
  let ?patch = "classifier_patch (fst (reclassification_metadata ?m)) p i version"
  have "keeps_decided (fst (reclassification_metadata ?m)) ?patch" by (rule classifier_patch_keeps)
  then have "list_all (\<lambda>axis. \<not> (spared ?m (fst axis) \<and> (map_of ?patch (fst axis) \<noteq> None \<or> map_of ?patch (snd axis) \<noteq> None)))
      automatic_axes"
    using reclassified_elsewhere [of ?m "(''form_choice'', ''form'')"]
      reclassified_elsewhere [of ?m "(''kind_choice'', ''content_kind'')"]
    by (auto simp: keeps_decided_def axis_patched_def automatic_axes_def simp flip: awaiting_undecided split: option.splits)
  moreover have "calls = [] \<or> map (\<lambda>c. case c of Kn_Call event request a \<Rightarrow> (event, request)) calls =
      [(''knowledge.metadata.patch'', patch_request (value_or_nil (snapshot ''source_id'')) (value_or_nil (snapshot ''revision'')) ?patch)]"
    if "keep_reclassification (recorded_knowledge f) snapshot p i version [] = (answer, calls)" for answer calls
    using that
    by (auto simp: keep_reclassification_def ask_service_def recorded_knowledge_def split: prod.splits sum.splits if_splits)
  ultimately show ?thesis by (fastforce split: prod.split)
qed


subsection \<open>Only well-formed requests\<close>

text \<open>What a request of each event must satisfy before the service sees it.\<close>

definition given_in :: "gmap \<Rightarrow> string \<Rightarrow> bool" where
  "given_in p field \<longleftrightarrow> trim_space (str_of (p field)) \<noteq> []"

definition resolved_value :: "gval option \<Rightarrow> bool" where
  "resolved_value v \<longleftrightarrow>
     (case v of
        None \<Rightarrow> True
      | Some m \<Rightarrow> map_of (map_in (Some m)) ''form_choice'' \<noteq> None \<and> map_of (map_in (Some m)) ''kind_choice'' \<noteq> None \<and>
          map_of (map_in (Some m)) ''reading'' = None)"

definition ingest_ok :: "gmap \<Rightarrow> bool" where
  "ingest_ok p \<longleftrightarrow>
     length (filter (given_in p) [''body'', ''content_b64'', ''source'']) = 1 \<and>
     (if given_in p ''body'' then given_in p ''title'' else True) \<and>
     (if given_in p ''content_b64'' then given_in p ''filename'' else True) \<and>
     p ''metadata_if_unchanged'' = None \<and> resolved_value (p ''metadata'')"

definition str_such_that :: "(string \<Rightarrow> bool) \<Rightarrow> gval \<Rightarrow> bool" where
  "str_such_that P v = (case v of VStr s \<Rightarrow> P s | _ \<Rightarrow> False)"

definition answers_patch_ok :: "gmap \<Rightarrow> bool" where
  "answers_patch_ok p \<longleftrightarrow>
     given_in p ''source_id'' \<and> revision_token (str_of (p ''revision'')) \<and>
     list_all (\<lambda>(key, v). key = ''form'' \<and> str_such_that valid_form v \<or> key = ''content_kind'' \<and> str_such_that valid_content_kind v \<or>
         contains_str [''form_choice'', ''kind_choice''] key \<and> v = VMap [(''origin'', VStr OriginUser)])
       (map_in (p ''patch''))"


definition knowledge_request_ok :: "string \<Rightarrow> gmap \<Rightarrow> bool" where
  "knowledge_request_ok event p \<longleftrightarrow>
     (if event = ''knowledge.ingest'' then ingest_ok p
      else if event = ''knowledge.search'' then given_in p ''query''
      else if event = ''knowledge.delete'' \<or> event = ''knowledge.metadata.get'' then given_in p ''source_id''
      else if event = ''knowledge.metadata.patch'' then answers_patch_ok p
      else contains_str [''knowledge.list'', ''knowledge.status'', ''knowledge.reindex''] event)"

lemma given_in_map [simp]: "given_in (map_of p) field = given p field"
  by (simp add: given_in_def given_def text_in_def)

lemma metadata_resolved: "resolved_metadata js raw defaults None = Inr m \<Longrightarrow> resolved_value (Some (VMap m))"
  by (auto simp: resolved_metadata_def resolved_value_def metadata_map_def Let_def split: sum.splits option.splits if_splits)

lemma ingest_request:
  assumes "ingest_payload js p = Inr request"
  shows "ingest_ok request"
proof -
  have v: "validate_ingest p = None" and free: "map_of p ''metadata_if_unchanged'' = None"
    using assms by (auto simp: ingest_payload_def split: if_splits option.splits)
  have r: "request = map_of p \<and> map_of p ''metadata'' = None \<or>
      (\<exists>m. request = (map_of p)(''metadata'' \<mapsto> VMap m) \<and> resolved_value (Some (VMap m)))"
    using assms by (auto simp: ingest_payload_def split: if_splits option.splits sum.splits dest: metadata_resolved)
  have same: "given_in request field = given p field" if "field \<noteq> ''metadata''" for field
    using r that by (auto simp: given_in_def given_def text_in_def)
  have "request ''metadata_if_unchanged'' = None" "resolved_value (request ''metadata'')"
    using r free by (auto simp: resolved_value_def)
  moreover have "filter (given_in request) [''body'', ''content_b64'', ''source''] = filter (given p) ingest_inputs"
    by (simp add: ingest_inputs_def same)
  ultimately show ?thesis
    using v by (simp add: ingest_ok_def validate_ingest_def same split: if_splits)
qed

lemma answers_patch:
  assumes "user_answer_patch js raw = Inr patch"
  shows "list_all (\<lambda>(key, v). key = ''form'' \<and> str_such_that valid_form v \<or> key = ''content_kind'' \<and> str_such_that valid_content_kind v \<or>
         contains_str [''form_choice'', ''kind_choice''] key \<and> v = VMap [(''origin'', VStr OriginUser)]) patch"
proof -
  obtain keys v c where c: "resolve_classification \<lparr>ci_explicit = v, ci_classifier = None, ci_source = no_values,
      ci_awaiting_form = False, ci_awaiting_kind = False\<rparr> = Inr c"
    and k: "contains_str keys ''form'' \<Longrightarrow> normalize_label (cv_form v) \<noteq> []"
      "contains_str keys ''content_kind'' \<Longrightarrow> normalize_label (cv_kind v) \<noteq> []"
    and p: "patch = answered_axes keys c"
    using assms unfolding user_answer_patch_def
    by (force split: option.splits if_splits sum.splits simp del: contains_str_iff)
  have "normalize_label (cv_form v) \<noteq> [] \<Longrightarrow> valid_form (cl_form c)" "normalize_label (cv_kind v) \<noteq> [] \<Longrightarrow> valid_content_kind (cl_kind c)"
    using c by (auto simp: resolve_classification_def Let_def split: sum.splits dest!: axis_resolved)
      (auto simp: axis_justified_def split: if_splits)
  with k show ?thesis unfolding p by (simp add: answered_axes_def str_such_that_def del: contains_str_iff)
qed

fun well_asked :: "kn_call \<Rightarrow> bool" where
  "well_asked (Kn_Call event p answer) = knowledge_request_ok event p"

lemma asked_well:
  assumes "knowledge_request_ok event request"
  shows "list_all well_asked (snd (ask_service (recorded_knowledge f) event request []))"
  using assms by (simp add: ask_service_def recorded_knowledge_def split: sum.split prod.split)

lemma metadata_request_ok: "trim_space s \<noteq> [] \<Longrightarrow> knowledge_request_ok ''knowledge.metadata.get'' [''source_id'' \<mapsto> VStr (trim_space s)]"
  by (simp add: knowledge_request_ok_def given_in_def)

lemma patch_request_ok:
  assumes "trim_space s \<noteq> []" "revision_token r" "user_answer_patch js raw = Inr patch"
  shows "knowledge_request_ok ''knowledge.metadata.patch''
    [''source_id'' \<mapsto> VStr (trim_space s), ''revision'' \<mapsto> VStr r, ''patch'' \<mapsto> VMap patch]"
  using assms(1,2) answers_patch [OF assms(3)] by (simp add: knowledge_request_ok_def answers_patch_ok_def given_in_def)

lemma classify_asks: "list_all well_asked (snd (classify js (recorded_knowledge f) p []))"
proof (cases "map_of p ''answers''")
  case None
  then show ?thesis
    using asked_well [OF metadata_request_ok, of "text_in p ''source_id''"] by (simp add: classify_def Let_def)
next
  case (Some raw)
  show ?thesis
  proof (cases "user_answer_patch js raw")
    case (Inl e)
    with Some show ?thesis by (simp add: classify_def Let_def)
  next
    case (Inr patch)
    with Some show ?thesis
      using asked_well [OF patch_request_ok [OF _ _ Inr], of "text_in p ''source_id''" "text_in p ''revision''"]
      by (simp add: classify_def Let_def)
  qed
qed

lemma event_cases:
  assumes "event_types action = Some event"
  obtains "action = ActionIngestKnowledge" "event = ''knowledge.ingest''"
    | "action = ActionSearchKnowledge" "event = ''knowledge.search''"
    | "action = ActionDeleteKnowledge" "event = ''knowledge.delete''"
    | "action \<noteq> ActionIngestKnowledge" "contains_str [''knowledge.list'', ''knowledge.status'', ''knowledge.reindex''] event"
  using assms that
  by (cases "action = ActionIngestKnowledge"; cases "action = ActionSearchKnowledge"; cases "action = ActionDeleteKnowledge")
    (auto simp: event_types_def ActionIngestKnowledge_def ActionSearchKnowledge_def ActionDeleteKnowledge_def
        ActionListKnowledge_def ActionInspectKnowledge_def ActionReindexKnowledge_def
      split: if_splits)

lemma sent_request_ok:
  assumes "event_types action = Some event" "(if action = ActionIngestKnowledge then ingest_payload js p else Inr (map_of p)) = Inr request"
    "missing_field p (required_fields action) = None"
  shows "knowledge_request_ok event request"
  using assms(1)
proof (cases rule: event_cases)
  case 1
  then show ?thesis using assms(2) ingest_request [of js p request] by (simp add: knowledge_request_ok_def)
next
  case 2
  then show ?thesis using assms(2,3)
    by (simp add: knowledge_request_ok_def required_fields_def ActionSearchKnowledge_def ActionIngestKnowledge_def split: if_splits)
      (auto simp: given_in_map)
next
  case 3
  then show ?thesis using assms(2,3)
    by (simp add: knowledge_request_ok_def required_fields_def ActionDeleteKnowledge_def ActionSearchKnowledge_def ActionIngestKnowledge_def
        split: if_splits) (auto simp: given_in_map)
next
  case 4
  then show ?thesis by (auto simp: knowledge_request_ok_def)
qed

text \<open>
  C18.  Only well-formed requests reach the knowledge service through the domain's own handler.  Whatever action, event
  and payload \<open>Handle\<close> is given and whatever the service answers, each request it sends is
  well-formed: an ingest gives exactly one of its inputs, a body has a
  title and a file a name, its metadata was resolved here and claims no reading; a search has a query, a
  deletion a source; answers of the user carry a whole revision and only labels Knowledge has.  The other entry points of the domain
  (\<open>ApplyClassification\<close>, \<open>StoreReading\<close>) build their requests themselves; what the first may patch is stated above.
\<close>

theorem knowledge_gets_valid_requests:
  "list_all well_asked (snd (knowledge_handle js (Some (recorded_knowledge f)) action event_type p []))"
proof (cases "map_of hosted_actions action")
  case None
  show ?thesis
  proof (cases "action = ActionClassifyKnowledge")
    case True
    with None show ?thesis by (simp add: knowledge_handle_def classify_asks)
  next
    case False
    with None show ?thesis
      by (simp add: knowledge_handle_def asked_well [OF sent_request_ok] split: option.split sum.split del: map_of_eq_Some_iff)
  qed
qed (simp add: knowledge_handle_def)

end
