(* ===== verification/Go_Scan.thy ===== *)
theory Go_Scan
  imports Prelude
begin

section \<open>Validating a list in one pass\<close>

text \<open>
  The loop the validators share: each element is checked against the keys already seen, the first error ends the
  pass, and the element's key joins those seen.  The locale \<open>each_once\<close> is the contract of a check that
  refuses exactly the elements that are not good or whose key was seen; then the pass accepts exactly the lists
  of good elements with different keys.
\<close>

fun scan :: "(string list \<Rightarrow> 'a \<Rightarrow> gerror option) \<Rightarrow> ('a \<Rightarrow> string) \<Rightarrow> string list \<Rightarrow> 'a list \<Rightarrow> gerror option" where
  "scan check key seen [] = None"
| "scan check key seen (x # xs) =
     (case check seen x of Some e \<Rightarrow> Some e | None \<Rightarrow> scan check key (key x # seen) xs)"

locale each_once =
  fixes check :: "string list \<Rightarrow> 'a \<Rightarrow> gerror option"
    and key :: "'a \<Rightarrow> string"
    and good :: "'a \<Rightarrow> bool"
  assumes accepts: "check seen x = None \<longleftrightarrow> good x \<and> key x \<notin> set seen"
begin

lemma scan_seen:
  "scan check key seen xs = None \<longleftrightarrow> list_all good xs \<and> distinct (map key xs) \<and> set seen \<inter> set (map key xs) = {}"
proof (induction xs arbitrary: seen)
  case (Cons x xs)
  then show ?case using accepts [of seen x] by (cases "check seen x") auto
qed simp

lemma scan_accepts: "scan check key [] xs = None \<longleftrightarrow> list_all good xs \<and> distinct (map key xs)"
  by (simp add: scan_seen)

lemma scan_refuses: "x \<in> set xs \<Longrightarrow> \<not> good x \<Longrightarrow> scan check key [] xs \<noteq> None"
  by (auto simp: scan_accepts list_all_iff)

end

end
