(* ===== verification/Knowledge_Application.thy ===== *)
theory Knowledge_Application
  imports Knowledge_Domain Go_Scan
begin

section \<open>Applying knowledge\<close>

text \<open>
  \<open>application.go\<close>, \<open>supervision.go\<close> and \<open>applicability.go\<close> of \<open>dokja_domain/dokja_knowledge\<close>: which
  requests to apply stored texts are accepted, how a selected text is read and pinned to its fingerprint, and how
  a candidate argument is assessed against the quoted spans.  Parameters (\<open>app_json\<close>): the length of a
  payload's encoding, what \<open>encoding/json\<close> decodes from it, and the map a value becomes when it is encoded
  and decoded again.
\<close>

definition ApplicationContract :: string where "ApplicationContract = ''knowledge.application.context.v1''"
definition AssessmentContract :: string where "AssessmentContract = ''knowledge.application.assessment.v1''"
definition MaxApplicationSources :: nat where "MaxApplicationSources = 8"
definition MaxApplicationSourceBytes :: nat where "MaxApplicationSourceBytes = 16384"
definition MaxApplicationTextBytes :: nat where "MaxApplicationTextBytes = 65536"
definition MaxAssessmentRequestBytes :: nat where "MaxAssessmentRequestBytes = 32768"

definition letter :: "char \<Rightarrow> bool" where
  "letter c \<longleftrightarrow> 65 \<le> byte c \<and> byte c \<le> 90 \<or> 97 \<le> byte c \<and> byte c \<le> 122"

definition source_id_ok :: "string \<Rightarrow> bool" where
  "source_id_ok = matches_class (\<lambda>c. letter c \<or> digit c \<or> c \<in> set ''._:/#@-'') 1 240"

definition version_ok :: "string \<Rightarrow> bool" where
  "version_ok s \<longleftrightarrow> take 7 s = ''sha256:'' \<and> matches_class hex_char 64 64 (drop 7 s)"

definition proposal_id_ok :: "string \<Rightarrow> bool" where
  "proposal_id_ok s \<longleftrightarrow>
     (case s of [] \<Rightarrow> False
      | c # rest \<Rightarrow> letter c \<and> matches_class (\<lambda>c. letter c \<or> digit c \<or> c \<in> set ''._-'') 0 63 rest)"

record application_selection =
  as_source :: string
  as_version :: string

record application_request =
  ar_contract :: string
  ar_goal :: string
  ar_constraints :: "string list"
  ar_sources :: "application_selection list"

record source_citation =
  sc_source :: string
  sc_version :: string
  sc_start :: int
  sc_end :: int
  sc_quote :: string
  sc_relation :: string

record candidate_claim =
  cc_id :: string
  cc_statement :: string
  cc_citations :: "source_citation list"

record candidate_method =
  cm_id :: string
  cm_description :: string
  cm_prerequisites :: "string list"
  cm_citations :: "source_citation list"

record application_proposal =
  ap_claims :: "candidate_claim list"
  ap_method :: candidate_method

record assessment_request =
  aq_contract :: string
  aq_application :: application_request
  aq_proposal :: application_proposal

record app_document =
  ad_source :: string
  ad_ref :: string
  ad_title :: string
  ad_text :: string

record app_json =
  pj_bytes :: "gmap \<Rightarrow> nat option"
  pj_request :: "gmap \<Rightarrow> application_request res"
  pj_payload :: "application_request \<Rightarrow> gmap option"
  pj_assessment :: "gmap \<Rightarrow> assessment_request option"
  pj_assessment_bytes :: "assessment_request \<Rightarrow> nat option"
  pj_documents :: "gmap \<Rightarrow> app_document list option"
  pj_normal :: "gmap \<Rightarrow> gmap option"

definition within_bytes :: "nat option \<Rightarrow> nat \<Rightarrow> bool" where
  "within_bytes sz limit = (case sz of None \<Rightarrow> False | Some n \<Rightarrow> n \<le> limit)"

subsection \<open>Requests\<close>

fun check_constraints :: "string list \<Rightarrow> gerror option" where
  "check_constraints [] = None"
| "check_constraints (c # cs) =
     (if trim_space c = [] \<or> length c > 500 then Some (Errorf ''constraints must contain 1..500 bytes'')
      else check_constraints cs)"

definition validate_task :: "string \<Rightarrow> string list \<Rightarrow> gerror option" where
  "validate_task goal constraints =
     (if trim_space goal = [] \<or> length goal > 2000 then Some (Errorf ''goal must contain 1..2000 bytes'')
      else if length constraints > 16 then Some (Errorf ''at most 16 constraints'')
      else check_constraints constraints)"

definition check_selection :: "string list \<Rightarrow> application_selection \<Rightarrow> gerror option" where
  "check_selection seen s =
     (if \<not> source_id_ok (as_source s) \<or> contains_str seen (as_source s)
      then Some (Errorf ''sources need distinct valid source_id values'')
      else if as_version s \<noteq> [] \<and> \<not> version_ok (as_version s) then Some (Errorf ''invalid text_version'')
      else None)"

definition parse_application :: "app_json \<Rightarrow> gmap \<Rightarrow> application_request res" where
  "parse_application pj p =
     (if \<not> within_bytes (pj_bytes pj p) 8192
      then Inl (Errorf ''application request exceeds the 8192-byte JSON budget or is invalid'')
      else case pj_request pj p of
          Inl e \<Rightarrow> Inl (Wrapf ''invalid application request: '' e)
        | Inr r \<Rightarrow>
            if ar_contract r \<noteq> ApplicationContract then Inl (Errorf ''unsupported application contract'')
            else case validate_task (ar_goal r) (ar_constraints r) of
                Some e \<Rightarrow> Inl e
              | None \<Rightarrow>
                  if ar_sources r = [] \<or> length (ar_sources r) > MaxApplicationSources
                  then Inl (Errorf ''select 1..8 sources'')
                  else case scan check_selection as_source [] (ar_sources r) of
                      Some e \<Rightarrow> Inl e
                    | None \<Rightarrow> Inr r)"

subsection \<open>Reading a source\<close>

record source_observation =
  so_selection :: application_selection
  so_status :: string
  so_reason :: string
  so_version :: string

record source_read =
  sr_source :: "payload option"
  sr_observation :: source_observation
  sr_error :: "gerror option"

definition fingerprint :: "string \<Rightarrow> string" where
  "fingerprint s = ''sha256:'' @ hex_encode (sha256 s)"

definition failed_read :: "application_selection \<Rightarrow> string \<Rightarrow> string \<Rightarrow> string \<Rightarrow> string \<Rightarrow> source_read" where
  "failed_read selected version status reason message =
     \<lparr>sr_source = None,
      sr_observation = \<lparr>so_selection = selected, so_status = status, so_reason = reason, so_version = version\<rparr>,
      sr_error = Some (Errorf message)\<rparr>"

definition document_source :: "app_document \<Rightarrow> payload" where
  "document_source d =
     [(''source_id'', VStr (ad_source d)), (''source_ref'', VStr (ad_ref d)), (''title'', VStr (ad_title d)),
      (''text'', VStr (ad_text d)), (''text_version'', VStr (fingerprint (ad_text d))),
      (''trust'', VStr ''unassessed_source_content'')]"

definition check_document :: "application_selection \<Rightarrow> app_document \<Rightarrow> source_read" where
  "check_document selected d =
     (if ad_source d \<noteq> as_source selected
      then failed_read selected [] ''validation_failed'' ''identity_mismatch'' ''application source identity mismatch''
      else if trim_space (ad_text d) = [] \<or> length (ad_text d) > MaxApplicationSourceBytes
      then failed_read selected [] ''validation_failed'' ''text_budget''
             ''application source text is empty or exceeds the 16384-byte budget''
      else if length (ad_ref d) > 2048 \<or> length (ad_title d) > 1000
      then failed_read selected [] ''validation_failed'' ''provenance_budget'' ''application source provenance exceeds budget''
      else if as_version selected \<noteq> [] \<and> as_version selected \<noteq> fingerprint (ad_text d)
      then failed_read selected (fingerprint (ad_text d)) ''validation_failed'' ''version_changed''
             ''application source text version changed''
      else \<lparr>sr_source = Some (document_source d),
            sr_observation = \<lparr>so_selection = selected, so_status = ''validated'', so_reason = ''source_validated'',
              so_version = fingerprint (ad_text d)\<rparr>,
            sr_error = None\<rparr>)"

definition observe_source ::
    "json_ports \<Rightarrow> app_json \<Rightarrow> 'w knowledge_service option \<Rightarrow> application_selection \<Rightarrow> 'w \<Rightarrow> source_read \<times> 'w" where
  "observe_source js pj service selected w =
     (case knowledge_handle js service ActionListKnowledge []
             [(''source_id'', VStr (as_source selected)), (''include_text'', VBool True), (''limit'', VInt 1)] w of
        (Inl e, w1) \<Rightarrow> (failed_read selected [] ''unconfirmed'' ''read_unconfirmed'' ''application source read failed'', w1)
      | (Inr answer, w1) \<Rightarrow>
          (if pj_bytes pj answer = None
           then failed_read selected [] ''validation_failed'' ''invalid_response'' ''invalid application source response''
           else case pj_documents pj answer of
               Some [d] \<Rightarrow> check_document selected d
             | _ \<Rightarrow> failed_read selected [] ''validation_failed'' ''unavailable_or_ambiguous''
                      ''application source unavailable or ambiguous'', w1))"

definition load_source ::
    "json_ports \<Rightarrow> app_json \<Rightarrow> 'w knowledge_service option \<Rightarrow> application_selection \<Rightarrow> 'w \<Rightarrow> payload res \<times> 'w" where
  "load_source js pj service selected w =
     (case observe_source js pj service selected w of
        (read, w1) \<Rightarrow> (case sr_error read of Some e \<Rightarrow> (Inl e, w1) | None \<Rightarrow> (Inr (case sr_source read of None \<Rightarrow> [] | Some m \<Rightarrow> m), w1)))"

fun sources_match :: "application_selection list \<Rightarrow> payload list \<Rightarrow> bool" where
  "sources_match (s # ss) (m # ms) \<longleftrightarrow> map_of m ''source_id'' = Some (VStr (as_source s)) \<and> sources_match ss ms"
| "sources_match _ _ \<longleftrightarrow> True"

definition assemble_context :: "application_request \<Rightarrow> payload list \<Rightarrow> payload res" where
  "assemble_context r sources =
     (if length sources \<noteq> length (ar_sources r) then Inl (Errorf ''incomplete application sources'')
      else if \<not> sources_match (ar_sources r) sources then Inl (Errorf ''application source order or identity mismatch'')
      else if sum_list (map (\<lambda>s. length (text_in s ''text'')) sources) > MaxApplicationTextBytes
      then Inl (Errorf ''application text exceeds the 65536-byte aggregate budget'')
      else Inr [(''contract'', VStr ApplicationContract), (''goal'', VStr (ar_goal r)),
        (''constraints'', VStrs (ar_constraints r)), (''sources'', VList (map VMap sources)),
        (''applicability'', VStr ''unassessed''), (''experience_status'', VStr ''not_consulted'')])"

subsection \<open>Supervised reads\<close>

record source_control =
  ct_operation :: string
  ct_revision :: int
  ct_action :: string
  ct_reason :: string
  ct_application :: "application_request option"

definition validate_supervised :: "app_json \<Rightarrow> application_request \<Rightarrow> application_request res" where
  "validate_supervised pj r =
     (case pj_payload pj r of
        None \<Rightarrow> Inl (Errorf ''invalid supervised application'')
      | Some p \<Rightarrow>
          (case parse_application pj p of
             Inl e \<Rightarrow> Inl e
           | Inr parsed \<Rightarrow>
               if list_ex (\<lambda>s. as_version s = []) (ar_sources parsed)
               then Inl (Errorf ''supervised reads require every source pin'') else Inr parsed))"

definition validate_control :: "app_json \<Rightarrow> source_control \<Rightarrow> gerror option" where
  "validate_control pj c =
     (if length (ct_reason c) > 1000 then Some (Errorf ''control reason exceeds budget'')
      else if ct_action c = ''redirect''
      then (case ct_application c of
              None \<Rightarrow> Some (Errorf ''redirect requires reasons and an explicit replacement application'')
            | Some a \<Rightarrow>
                if trim_space (ct_reason c) = []
                then Some (Errorf ''redirect requires reasons and an explicit replacement application'')
                else (case validate_supervised pj a of Inl e \<Rightarrow> Some e | Inr _ \<Rightarrow> None))
      else if contains_str [''pause'', ''resume'', ''cancel''] (ct_action c)
      then (if ct_application c \<noteq> None then Some (Errorf ''only redirect may replace the application'') else None)
      else Some (Errorf ''unsupported source control''))"

subsection \<open>The argument\<close>

text \<open>
  The citations of a claim, checked one by one; what counts them runs on over the claims and the method.
  \<open>seen\<close> holds the citations of this object.
\<close>

definition citation_error :: "(string \<Rightarrow> string) \<Rightarrow> bool \<Rightarrow> source_citation list \<Rightarrow> source_citation \<Rightarrow> gerror option" where
  "citation_error versions method seen c =
     (if versions (sc_source c) = [] \<or> sc_version c \<noteq> versions (sc_source c)
      then Some (Errorf ''citation source or version is not selected'')
      else if sc_start c < 0 \<or> sc_end c \<le> sc_start c \<or> sc_end c > int MaxApplicationSourceBytes \<or> sc_quote c = []
        \<or> length (sc_quote c) > 1000 \<or> \<not> utf8_valid (sc_quote c) \<or> sc_end c - sc_start c \<noteq> int (length (sc_quote c))
      then Some (Errorf ''invalid citation span'')
      else if sc_relation c \<noteq> ''supports'' \<and> sc_relation c \<noteq> ''contradicts''
      then Some (Errorf ''invalid proposed citation relation'')
      else if method \<and> sc_relation c \<noteq> ''supports'' then Some (Errorf ''method citations must propose support'')
      else if c \<in> set seen then Some (Errorf ''duplicate citation'')
      else None)"

fun cite_each ::
    "(string \<Rightarrow> string) \<Rightarrow> bool \<Rightarrow> source_citation list \<Rightarrow> nat \<Rightarrow> source_citation list \<Rightarrow> nat res" where
  "cite_each versions method seen n [] = Inr n"
| "cite_each versions method seen n (c # cs) =
     (if n + 1 > 32 then Inl (Errorf ''at most 32 citations per assessment'')
      else case citation_error versions method seen c of
          Some e \<Rightarrow> Inl e
        | None \<Rightarrow> cite_each versions method (c # seen) (n + 1) cs)"

definition validate_citations :: "(string \<Rightarrow> string) \<Rightarrow> bool \<Rightarrow> nat \<Rightarrow> source_citation list \<Rightarrow> nat res" where
  "validate_citations versions method n cs =
     (if length cs > 8 then Inl (Errorf ''at most 8 citations per claim or method'')
      else cite_each versions method [] n cs)"

fun validate_claims :: "(string \<Rightarrow> string) \<Rightarrow> string list \<Rightarrow> nat \<Rightarrow> candidate_claim list \<Rightarrow> (string list \<times> nat) res" where
  "validate_claims versions ids n [] = Inr (ids, n)"
| "validate_claims versions ids n (c # cs) =
     (if \<not> proposal_id_ok (cc_id c) \<or> contains_str ids (cc_id c) \<or> trim_space (cc_statement c) = []
         \<or> length (cc_statement c) > 1200
      then Inl (Errorf ''invalid candidate claim'')
      else case validate_citations versions False n (cc_citations c) of
          Inl e \<Rightarrow> Inl e
        | Inr m \<Rightarrow> validate_claims versions (cc_id c # ids) m cs)"

definition check_prerequisite :: "string list \<Rightarrow> string list \<Rightarrow> string \<Rightarrow> gerror option" where
  "check_prerequisite ids seen i =
     (if \<not> contains_str ids i \<or> contains_str seen i then Some (Errorf ''invalid or duplicate prerequisite reference'') else None)"

definition pinned_versions :: "application_selection list \<Rightarrow> string \<Rightarrow> string" where
  "pinned_versions ss i = (case map_of (rev (map (\<lambda>s. (as_source s, as_version s)) ss)) i of None \<Rightarrow> [] | Some v \<Rightarrow> v)"

definition validate_method :: "(string \<Rightarrow> string) \<Rightarrow> string list \<Rightarrow> nat \<Rightarrow> candidate_method \<Rightarrow> gerror option" where
  "validate_method versions ids n m =
     (if \<not> proposal_id_ok (cm_id m) \<or> contains_str ids (cm_id m) \<or> trim_space (cm_description m) = []
         \<or> length (cm_description m) > 2000 \<or> cm_prerequisites m = [] \<or> length (cm_prerequisites m) > 16
      then Some (Errorf ''invalid candidate method'')
      else case scan (check_prerequisite ids) id [] (cm_prerequisites m) of
          Some e \<Rightarrow> Some e
        | None \<Rightarrow> (case validate_citations versions True n (cm_citations m) of Inl e \<Rightarrow> Some e | Inr _ \<Rightarrow> None))"

definition validate_assessment :: "app_json \<Rightarrow> assessment_request \<Rightarrow> gerror option" where
  "validate_assessment pj q =
     (let ss = ar_sources (aq_application q); claims = ap_claims (aq_proposal q)
      in if aq_contract q \<noteq> AssessmentContract then Some (Errorf ''unsupported assessment contract'')
         else case pj_payload pj (aq_application q) of
             None \<Rightarrow> Some (Errorf ''invalid application request'')
           | Some p \<Rightarrow>
               (case parse_application pj p of
                  Inl e \<Rightarrow> Some e
                | Inr _ \<Rightarrow>
                    if list_ex (\<lambda>s. as_version s = []) ss
                    then Some (Errorf ''assessment requires pinned source text versions'')
                    else if claims = [] \<or> length claims > 16 then Some (Errorf ''assessment needs 1..16 candidate claims'')
                    else case validate_claims (pinned_versions ss) [] 0 claims of
                        Inl e \<Rightarrow> Some e
                      | Inr (ids, n) \<Rightarrow> validate_method (pinned_versions ss) ids n (ap_method (aq_proposal q))))"

definition parse_assessment :: "app_json \<Rightarrow> gmap \<Rightarrow> assessment_request res" where
  "parse_assessment pj p =
     (if \<not> within_bytes (pj_bytes pj p) MaxAssessmentRequestBytes
      then Inl (Errorf ''invalid or oversized assessment request'')
      else case pj_assessment pj p of
          None \<Rightarrow> Inl (Errorf ''invalid assessment request'')
        | Some q \<Rightarrow> (case validate_assessment pj q of Some e \<Rightarrow> Inl e | None \<Rightarrow> Inr q))"

subsection \<open>The assessment\<close>

definition provenance_of :: "application_selection \<Rightarrow> payload \<Rightarrow> payload" where
  "provenance_of s m =
     [(''source_id'', VStr (as_source s)), (''text_version'', VStr (as_version s)),
      (''source_ref'', value_or_nil (map_of m ''source_ref'')), (''title'', value_or_nil (map_of m ''title''))]"

text \<open>The prepared sources, each against its selection; what is read is the texts by source and the provenance.\<close>

fun read_prepared ::
    "nat \<Rightarrow> application_selection list \<Rightarrow> gval list \<Rightarrow> ((string \<times> string) list \<times> gval list) res" where
  "read_prepared so_far (s # ss) (VMap m # obs) =
     (let t = text_in m ''text''
      in if (case map_of m ''text'' of Some (VStr _) \<Rightarrow> False | _ \<Rightarrow> True) \<or> t = [] \<or> length t > MaxApplicationSourceBytes
           \<or> map_of m ''source_id'' \<noteq> Some (VStr (as_source s)) \<or> map_of m ''text_version'' \<noteq> Some (VStr (as_version s))
         then Inl (Errorf ''prepared source identity or version mismatch'')
         else if fingerprint t \<noteq> as_version s then Inl (Errorf ''prepared source fingerprint mismatch'')
         else if so_far + length t > MaxApplicationTextBytes then Inl (Errorf ''prepared source text exceeds aggregate budget'')
         else case read_prepared (so_far + length t) ss obs of
             Inl e \<Rightarrow> Inl e
           | Inr (texts, prov) \<Rightarrow> Inr ((as_source s, t) # texts, VMap (provenance_of s m) # prov))"
| "read_prepared so_far [] _ = Inr ([], [])"
| "read_prepared so_far (s # ss) [] = Inr ([], [])"
| "read_prepared so_far (s # ss) (v # obs) = Inl (Errorf ''invalid prepared source'')"

definition text_for :: "(string \<times> string) list \<Rightarrow> string \<Rightarrow> string" where
  "text_for texts i = (case map_of (rev texts) i of None \<Rightarrow> [] | Some t \<Rightarrow> t)"

definition text_span :: "string \<Rightarrow> int \<Rightarrow> int \<Rightarrow> string" where
  "text_span t a b = take (nat (b - a)) (drop (nat a) t)"

fun verify_citations :: "(string \<Rightarrow> string) \<Rightarrow> source_citation list \<Rightarrow> gerror option" where
  "verify_citations texts [] = None"
| "verify_citations texts (c # cs) =
     (if sc_end c > int (length (texts (sc_source c))) \<or> text_span (texts (sc_source c)) (sc_start c) (sc_end c) \<noteq> sc_quote c
      then Some (Errorf ''citation does not match the selected source text'')
      else verify_citations texts cs)"

definition citation_state :: "source_citation list \<Rightarrow> string" where
  "citation_state cs =
     (let support = list_ex (\<lambda>c. sc_relation c = ''supports'') cs; contradict = list_ex (\<lambda>c. sc_relation c \<noteq> ''supports'') cs
      in if support \<and> contradict then ''conflicted'' else if support then ''supported''
         else if contradict then ''contradicted'' else ''unknown'')"

definition citation_val :: "source_citation \<Rightarrow> gval" where
  "citation_val c =
     VMap [(''source_id'', VStr (sc_source c)), (''text_version'', VStr (sc_version c)), (''start'', VInt (sc_start c)),
       (''end'', VInt (sc_end c)), (''quote'', VStr (sc_quote c)), (''relation'', VStr (sc_relation c))]"

definition claim_val :: "candidate_claim \<Rightarrow> gval" where
  "claim_val c =
     VMap [(''id'', VStr (cc_id c)), (''statement'', VStr (cc_statement c)), (''citations'', VList (map citation_val (cc_citations c))),
       (''citation_state'', VStr (citation_state (cc_citations c)))]"

definition method_val :: "candidate_method \<Rightarrow> gval" where
  "method_val m =
     VMap [(''id'', VStr (cm_id m)), (''description'', VStr (cm_description m)), (''prerequisites'', VStrs (cm_prerequisites m)),
       (''citations'', VList (map citation_val (cm_citations m)))]"

fun verify_claims :: "(string \<Rightarrow> string) \<Rightarrow> candidate_claim list \<Rightarrow> gerror option" where
  "verify_claims texts [] = None"
| "verify_claims texts (c # cs) =
     (case verify_citations texts (cc_citations c) of Some e \<Rightarrow> Some e | None \<Rightarrow> verify_claims texts cs)"

definition claim_states :: "candidate_claim list \<Rightarrow> string \<Rightarrow> string" where
  "claim_states cs i =
     (case map_of (rev (map (\<lambda>c. (cc_id c, citation_state (cc_citations c))) cs)) i of None \<Rightarrow> [] | Some t \<Rightarrow> t)"

definition in_state :: "application_proposal \<Rightarrow> string \<Rightarrow> string list" where
  "in_state p state = filter (\<lambda>i. claim_states (ap_claims p) i = state) (cm_prerequisites (ap_method p))"

definition applicability :: "application_proposal \<Rightarrow> string" where
  "applicability p =
     (if in_state p ''contradicted'' \<noteq> [] then ''blocked''
      else if in_state p ''conflicted'' \<noteq> [] then ''conflicted''
      else if in_state p ''unknown'' \<noteq> [] \<or> cm_citations (ap_method p) = [] then ''needs_evidence''
      else ''conditional'')"

definition assessment_result :: "assessment_request \<Rightarrow> gval list \<Rightarrow> payload" where
  "assessment_result q prov =
     (let p = aq_proposal q
      in [(''contract'', VStr AssessmentContract), (''goal'', VStr (ar_goal (aq_application q))),
          (''constraints'', VStrs (ar_constraints (aq_application q))), (''sources'', VList prov),
          (''claims'', VList (map claim_val (ap_claims p))), (''method'', method_val (ap_method p)),
          (''applicability'', VStr (applicability p)), (''missing_prerequisites'', VStrs (in_state p ''unknown'')),
          (''conflicted_prerequisites'', VStrs (in_state p ''conflicted'')),
          (''blocked_prerequisites'', VStrs (in_state p ''contradicted'')),
          (''method_cited'', VBool (cm_citations (ap_method p) \<noteq> [])), (''semantic_status'', VStr ''unverified''),
          (''requires_semantic_review'', VBool True), (''can_execute'', VBool False),
          (''experience_status'', VStr ''not_consulted'')])"

definition assessed :: "app_json \<Rightarrow> assessment_request \<Rightarrow> payload \<Rightarrow> payload res" where
  "assessed pj q context =
     (if \<not> within_bytes (pj_assessment_bytes pj q) MaxAssessmentRequestBytes
      then Inl (Errorf ''invalid or oversized assessment request'')
      else case validate_assessment pj q of
          Some e \<Rightarrow> Inl e
        | None \<Rightarrow>
            (case map_of context ''sources'' of
               Some (VList obs) \<Rightarrow>
                 if map_of context ''contract'' \<noteq> Some (VStr ApplicationContract)
                    \<or> length obs \<noteq> length (ar_sources (aq_application q))
                 then Inl (Errorf ''invalid prepared application context'')
                 else (case read_prepared 0 (ar_sources (aq_application q)) obs of
                     Inl e \<Rightarrow> Inl e
                   | Inr (texts, prov) \<Rightarrow>
                       (case verify_claims (text_for texts) (ap_claims (aq_proposal q)) of
                          Some e \<Rightarrow> Inl e
                        | None \<Rightarrow>
                            (case verify_citations (text_for texts) (cm_citations (ap_method (aq_proposal q))) of
                               Some e \<Rightarrow> Inl e
                             | None \<Rightarrow> Inr (assessment_result q prov))))
             | _ \<Rightarrow> Inl (Errorf ''invalid prepared application context'')))"

definition assess_application :: "app_json \<Rightarrow> assessment_request \<Rightarrow> payload \<Rightarrow> gmap res" where
  "assess_application pj q context =
     (case assessed pj q context of
        Inl e \<Rightarrow> Inl e
      | Inr raw \<Rightarrow>
          (case pj_normal pj (map_of raw) of None \<Rightarrow> Inl (Errorf ''invalid assessment result'') | Some r \<Rightarrow> Inr r))"

subsection \<open>What an accepted request satisfies\<close>

definition good_selection :: "application_selection \<Rightarrow> bool" where
  "good_selection s \<longleftrightarrow> source_id_ok (as_source s) \<and> (as_version s = [] \<or> version_ok (as_version s))"

interpretation selection_once: each_once check_selection as_source good_selection
  by unfold_locales (auto simp: check_selection_def good_selection_def)

interpretation prerequisite_once: each_once "check_prerequisite ids" id "contains_str ids" for ids
  by unfold_locales (auto simp: check_prerequisite_def)

lemma parsed_sources:
  assumes "parse_application pj p = Inr r"
  shows "ar_sources r \<noteq> []" "length (ar_sources r) \<le> 8" "list_all good_selection (ar_sources r)"
    "distinct (map as_source (ar_sources r))"
  using assms
  by (auto simp: parse_application_def selection_once.scan_accepts MaxApplicationSources_def split: if_splits sum.splits option.splits)

definition pinned_read :: "application_selection \<Rightarrow> source_read \<Rightarrow> bool" where
  "pinned_read s r \<longleftrightarrow>
     (case sr_source r of
        None \<Rightarrow> sr_error r \<noteq> None \<and> contains_str [''unconfirmed'', ''validation_failed''] (so_status (sr_observation r))
      | Some m \<Rightarrow>
          sr_error r = None \<and> so_status (sr_observation r) = ''validated'' \<and> text_in m ''source_id'' = as_source s
          \<and> text_in m ''text_version'' = fingerprint (text_in m ''text'')
          \<and> so_version (sr_observation r) = fingerprint (text_in m ''text'')
          \<and> (as_version s = [] \<or> as_version s = fingerprint (text_in m ''text''))
          \<and> trim_space (text_in m ''text'') \<noteq> [] \<and> length (text_in m ''text'') \<le> MaxApplicationSourceBytes)"

lemma failed_pinned:
  "contains_str [''unconfirmed'', ''validation_failed''] status \<Longrightarrow> pinned_read s (failed_read s v status reason msg)"
  by (simp add: pinned_read_def failed_read_def)

lemma validated_pinned:
  assumes "ad_source d = as_source s" "trim_space (ad_text d) \<noteq> []" "length (ad_text d) \<le> MaxApplicationSourceBytes"
    "as_version s = [] \<or> as_version s = fingerprint (ad_text d)"
  shows "pinned_read s \<lparr>sr_source = Some (document_source d),
            sr_observation = \<lparr>so_selection = s, so_status = ''validated'', so_reason = ''source_validated'',
              so_version = fingerprint (ad_text d)\<rparr>, sr_error = None\<rparr>"
  using assms by (simp add: pinned_read_def document_source_def text_in_def)

lemma document_pinned: "pinned_read s (check_document s d)"
  unfolding check_document_def by (auto intro!: failed_pinned validated_pinned simp: not_less)

text \<open>
  A source that is read carries the fingerprint of the very text it returns: it is the one asked for, within its
  budget, and when the request pinned a version, that version.  Any other read returns no source and an error.
\<close>

theorem source_reads_are_pinned: "pinned_read s (fst (observe_source js pj service s w))"
proof -
  have f: "pinned_read s (failed_read s [] ''unconfirmed'' reason msg)" "pinned_read s (failed_read s [] ''validation_failed'' reason msg)"
    for reason msg by (simp_all add: failed_pinned)
  show ?thesis
    unfolding observe_source_def by (simp add: f document_pinned split: prod.split sum.split option.split list.split)
qed

subsection \<open>What an assessment rests on\<close>

definition prepared :: "payload \<Rightarrow> (string \<times> string) list" where
  "prepared context =
     (case map_of context ''sources'' of
        Some (VList obs) \<Rightarrow> map (\<lambda>v. (text_in (map_in (Some v)) ''source_id'', text_in (map_in (Some v)) ''text'')) obs
      | _ \<Rightarrow> [])"

definition citations_of :: "application_proposal \<Rightarrow> source_citation list" where
  "citations_of p = concat (map cc_citations (ap_claims p)) @ cm_citations (ap_method p)"

definition quotes_the_pinned :: "(string \<Rightarrow> string) \<Rightarrow> source_citation \<Rightarrow> bool" where
  "quotes_the_pinned texts c \<longleftrightarrow>
     fingerprint (texts (sc_source c)) = sc_version c \<and> 0 \<le> sc_start c \<and> sc_end c \<le> int (length (texts (sc_source c)))
     \<and> text_span (texts (sc_source c)) (sc_start c) (sc_end c) = sc_quote c \<and> sc_quote c \<noteq> []"

definition argued :: "application_proposal \<Rightarrow> string \<Rightarrow> string \<Rightarrow> bool" where
  "argued p relation i \<longleftrightarrow>
     (\<exists>c \<in> set (ap_claims p). cc_id c = i \<and> (\<exists>k \<in> set (cc_citations c). sc_relation k = relation))"

definition verdict :: "application_proposal \<Rightarrow> string" where
  "verdict p =
     (let needed = set (cm_prerequisites (ap_method p)); for_it = argued p ''supports''; against = argued p ''contradicts''
      in if \<exists>i \<in> needed. against i \<and> \<not> for_it i then ''blocked''
         else if \<exists>i \<in> needed. against i then ''conflicted''
         else if (\<exists>i \<in> needed. \<not> for_it i) \<or> cm_citations (ap_method p) = [] then ''needs_evidence''
         else ''conditional'')"

definition good_citation :: "(string \<Rightarrow> string) \<Rightarrow> source_citation \<Rightarrow> bool" where
  "good_citation versions c \<longleftrightarrow>
     versions (sc_source c) = sc_version c \<and> sc_version c \<noteq> [] \<and> 0 \<le> sc_start c \<and> sc_end c = sc_start c + int (length (sc_quote c))
     \<and> sc_quote c \<noteq> [] \<and> sc_relation c \<in> {''supports'', ''contradicts''}"

lemma cited_good: "cite_each versions m seen n cs = Inr k \<Longrightarrow> list_all (good_citation versions) cs"
  by (induction versions m seen n cs rule: cite_each.induct)
    (auto simp: citation_error_def good_citation_def split: if_splits option.splits)

lemma citations_good: "validate_citations versions m n cs = Inr k \<Longrightarrow> list_all (good_citation versions) cs"
  by (auto simp: validate_citations_def split: if_splits dest: cited_good)

lemma claims_good:
  "validate_claims versions ids n cs = Inr (ids', k) \<Longrightarrow>
     list_all (\<lambda>c. list_all (good_citation versions) (cc_citations c)) cs \<and> distinct (map cc_id cs)
     \<and> set ids \<inter> set (map cc_id cs) = {} \<and> set ids' = set ids \<union> set (map cc_id cs)"
proof (induction versions ids n cs rule: validate_claims.induct)
  case (2 versions ids n c cs)
  then show ?case
    by (auto split: if_splits sum.splits dest: citations_good)
qed simp

lemma method_good:
  assumes "validate_method versions ids n m = None"
  shows "list_all (good_citation versions) (cm_citations m) \<and> set (cm_prerequisites m) \<subseteq> set ids"
  using assms
  by (auto simp: validate_method_def prerequisite_once.scan_accepts list_all_iff split: if_splits option.splits sum.splits
      dest: citations_good)

lemma prepared_texts:
  "read_prepared n ss obs = Inr (texts, prov) \<Longrightarrow> length obs = length ss \<Longrightarrow>
     texts = map (\<lambda>v. (text_in (map_in (Some v)) ''source_id'', text_in (map_in (Some v)) ''text'')) obs
     \<and> map (\<lambda>(i, t). (i, fingerprint t)) texts = map (\<lambda>s. (as_source s, as_version s)) ss"
proof (induction n ss obs arbitrary: texts prov rule: read_prepared.induct)
  case (1 so_far s ss m obs)
  then show ?case by (auto simp: Let_def text_in_def split: if_splits sum.splits option.splits gval.splits)
qed auto

lemma pinned_text:
  assumes "map (\<lambda>(i, t). (i, fingerprint t)) texts = map (\<lambda>s. (as_source s, as_version s)) ss"
    and "pinned_versions ss i \<noteq> []"
  shows "fingerprint (text_for texts i) = pinned_versions ss i"
proof -
  have "map_of (rev (map (\<lambda>s. (as_source s, as_version s)) ss)) i = map_option fingerprint (map_of (rev texts) i)"
    unfolding assms(1) [symmetric] by (simp add: rev_map map_of_map)
  with assms(2) show ?thesis
    by (auto simp: pinned_versions_def text_for_def split: option.splits)
qed

lemma verified_all: "verify_citations texts cs = None \<longleftrightarrow>
    list_all (\<lambda>c. sc_end c \<le> int (length (texts (sc_source c))) \<and> text_span (texts (sc_source c)) (sc_start c) (sc_end c) = sc_quote c) cs"
  by (induction cs) (auto simp: not_less)

lemma verify_append: "verify_citations texts (cs @ ds) = None \<longleftrightarrow> verify_citations texts cs = None \<and> verify_citations texts ds = None"
  by (induction cs) auto

lemma verified_claims: "verify_claims texts cs = None \<longleftrightarrow> verify_citations texts (concat (map cc_citations cs)) = None"
proof (induction cs)
  case (Cons c cs)
  then show ?case by (cases "verify_citations texts (cc_citations c)") (simp_all add: verify_append)
qed simp

lemma state_of_claim:
  assumes "distinct (map cc_id cs)" "c \<in> set cs"
  shows "claim_states cs (cc_id c) = citation_state (cc_citations c)"
proof -
  have "map_of (rev (map (\<lambda>c. (cc_id c, citation_state (cc_citations c))) cs)) (cc_id c) = Some (citation_state (cc_citations c))"
    using assms by (intro map_of_is_SomeI) (auto simp: rev_map [symmetric] comp_def distinct_rev)
  then show ?thesis by (simp add: claim_states_def)
qed

lemma argued_claim:
  assumes "distinct (map cc_id (ap_claims p))" "c \<in> set (ap_claims p)"
  shows "argued p relation (cc_id c) \<longleftrightarrow> (\<exists>k \<in> set (cc_citations c). sc_relation k = relation)"
  using assms unfolding argued_def by (metis inj_on_eq_iff distinct_map)

lemma state_argued:
  assumes d: "distinct (map cc_id (ap_claims p))" and i: "i \<in> set (map cc_id (ap_claims p))"
    and r: "list_all (\<lambda>c. list_all (good_citation versions) (cc_citations c)) (ap_claims p)"
  shows "claim_states (ap_claims p) i =
    (if argued p ''supports'' i then if argued p ''contradicts'' i then ''conflicted'' else ''supported''
     else if argued p ''contradicts'' i then ''contradicted'' else ''unknown'')"
proof -
  obtain c where c: "c \<in> set (ap_claims p)" "i = cc_id c" using i by auto
  have "\<forall>k \<in> set (cc_citations c). (sc_relation k \<noteq> ''supports'') = (sc_relation k = ''contradicts'')"
    using r c(1) by (auto simp: list_all_iff good_citation_def)
  then have "list_ex (\<lambda>k. sc_relation k \<noteq> ''supports'') (cc_citations c) \<longleftrightarrow> argued p ''contradicts'' i"
    by (auto simp: c(2) argued_claim [OF d c(1)] list_ex_iff)
  moreover have "list_ex (\<lambda>k. sc_relation k = ''supports'') (cc_citations c) \<longleftrightarrow> argued p ''supports'' i"
    by (simp add: c(2) argued_claim [OF d c(1)] list_ex_iff)
  ultimately show ?thesis
    by (simp add: c(2) state_of_claim [OF d c(1)] citation_state_def Let_def)
qed

lemma applicability_verdict:
  assumes "distinct (map cc_id (ap_claims p))" "set (cm_prerequisites (ap_method p)) \<subseteq> set (map cc_id (ap_claims p))"
    and "list_all (\<lambda>c. list_all (good_citation versions) (cc_citations c)) (ap_claims p)"
  shows "applicability p = verdict p"
proof -
  note st = state_argued [OF assms(1) _ assms(3)]
  have "in_state p s \<noteq> [] \<longleftrightarrow> (\<exists>i \<in> set (cm_prerequisites (ap_method p)). claim_states (ap_claims p) i = s)" for s
    by (auto simp: in_state_def filter_empty_conv)
  moreover have "claim_states (ap_claims p) i = ''contradicted'' \<longleftrightarrow> argued p ''contradicts'' i \<and> \<not> argued p ''supports'' i"
    "claim_states (ap_claims p) i = ''conflicted'' \<longleftrightarrow> argued p ''contradicts'' i \<and> argued p ''supports'' i"
    "claim_states (ap_claims p) i = ''unknown'' \<longleftrightarrow> \<not> argued p ''contradicts'' i \<and> \<not> argued p ''supports'' i"
    if "i \<in> set (cm_prerequisites (ap_method p))" for i
    using assms(2) that by (auto simp: st subset_iff)
  ultimately show ?thesis
    unfolding applicability_def verdict_def Let_def by (simp cong: bex_cong)
qed

text \<open>
  C14.  An assessment holds only what its sources say.  Whenever one is returned, every citation of the argument
  reproduces, byte for byte, a span of a prepared text whose fingerprint is the version the citation names; the
  applicability it states is the one the cited relations give (blocked by a prerequisite only contradicted,
  conflicted by one both supported and contradicted, in need of evidence by one without citations or an uncited
  method, conditional otherwise); and it never allows the method to run.
\<close>

theorem assessment_follows_the_quotes:
  "case assess_application pj q context of
     Inl _ \<Rightarrow> True
   | Inr r \<Rightarrow>
       list_all (quotes_the_pinned (text_for (prepared context))) (citations_of (aq_proposal q))
       \<and> (\<exists>raw. pj_normal pj (map_of raw) = Some r \<and> map_of raw ''can_execute'' = Some (VBool False)
            \<and> map_of raw ''applicability'' = Some (VStr (verdict (aq_proposal q))))"
proof (cases "assessed pj q context")
  case (Inr raw)
  let ?p = "aq_proposal q" and ?ss = "ar_sources (aq_application q)"
  obtain obs texts prov where v: "validate_assessment pj q = None" and o: "map_of context ''sources'' = Some (VList obs)"
    "length obs = length ?ss" "read_prepared 0 ?ss obs = Inr (texts, prov)"
    and c: "verify_claims (text_for texts) (ap_claims ?p) = None"
    "verify_citations (text_for texts) (cm_citations (ap_method ?p)) = None" and raw: "raw = assessment_result q prov"
    using Inr by (auto simp: assessed_def split: if_splits option.splits gval.splits sum.splits prod.splits)
  obtain ids n where g: "validate_claims (pinned_versions ?ss) [] 0 (ap_claims ?p) = Inr (ids, n)"
    "validate_method (pinned_versions ?ss) ids n (ap_method ?p) = None"
    using v by (auto simp: validate_assessment_def Let_def split: if_splits option.splits sum.splits)
  note good = claims_good [OF g(1)] method_good [OF g(2)]
  have texts: "texts = prepared context" "map (\<lambda>(i, t). (i, fingerprint t)) texts = map (\<lambda>s. (as_source s, as_version s)) ?ss"
    using prepared_texts [OF o(3,2)] by (auto simp only: prepared_def o(1) option.case gval.case)
  have "list_all (good_citation (pinned_versions ?ss)) (citations_of ?p)"
    using good by (auto simp: citations_of_def list_all_iff)
  moreover have "verify_citations (text_for texts) (citations_of ?p) = None"
    using c by (simp add: citations_of_def verify_append verified_claims)
  ultimately have "list_all (quotes_the_pinned (text_for texts)) (citations_of ?p)"
    using pinned_text [OF texts(2)]
    by (auto simp: verified_all list_all_iff quotes_the_pinned_def good_citation_def)
  moreover have "applicability ?p = verdict ?p"
    using good by (intro applicability_verdict) auto
  moreover have "map_of raw ''can_execute'' = Some (VBool False)" "map_of raw ''applicability'' = Some (VStr (applicability ?p))"
    by (simp_all add: raw assessment_result_def Let_def)
  ultimately show ?thesis
    by (auto simp: assess_application_def Inr texts(1) split: option.split)
qed (simp add: assess_application_def)

end
