(* ===== verification/Go_SHA1.thy ===== *)
theory Go_SHA1
  imports Go_SHA256
begin

section \<open>SHA-1\<close>

text \<open>\<open>sha1.Sum\<close> on byte strings, as FIPS 180-4 defines the hash: 80 rounds over five 32-bit words per block.\<close>

unbundle bit_operations_syntax

definition rotl32 :: "nat \<Rightarrow> word32 \<Rightarrow> word32" where
  "rotl32 n x = push_bit n x OR drop_bit (32 - n) x"

definition initial_sha1 :: "word32 list" where
  "initial_sha1 = [0x67452301, 0xefcdab89, 0x98badcfe, 0x10325476, 0xc3d2e1f0]"

text \<open>The schedule, newest word first while it grows.\<close>

primrec extend_sha1 :: "nat \<Rightarrow> word32 list \<Rightarrow> word32 list" where
  "extend_sha1 0 ws = ws"
| "extend_sha1 (Suc n) ws = extend_sha1 n (rotl32 1 (ws ! 2 XOR ws ! 7 XOR ws ! 13 XOR ws ! 15) # ws)"

definition sha1_constant :: "nat \<Rightarrow> word32" where
  "sha1_constant t = (if t < 20 then 0x5a827999 else if t < 40 then 0x6ed9eba1 else if t < 60 then 0x8f1bbcdc else 0xca62c1d6)"

definition sha1_mix :: "nat \<Rightarrow> word32 \<Rightarrow> word32 \<Rightarrow> word32 \<Rightarrow> word32" where
  "sha1_mix t b c d =
     (if t < 20 then (b AND c) OR (NOT b AND d)
      else if t < 40 \<or> t \<ge> 60 then b XOR c XOR d
      else (b AND c) OR (b AND d) OR (c AND d))"

fun sha1_round :: "word32 list \<Rightarrow> nat \<times> word32 \<Rightarrow> word32 list" where
  "sha1_round [a, b, c, d, e] (t, w) = [rotl32 5 a + sha1_mix t b c d + e + sha1_constant t + w, a, rotl32 30 b, c, d]"
| "sha1_round hs tw = hs"

definition sha1_block :: "word32 list \<Rightarrow> word32 list \<Rightarrow> word32 list" where
  "sha1_block hs block = map2 (+) hs (foldl sha1_round hs (enumerate 0 (rev (extend_sha1 64 (rev block)))))"

function sha1_blocks :: "word32 list \<Rightarrow> word32 list \<Rightarrow> word32 list" where
  "sha1_blocks hs ws = (if ws = [] then hs else sha1_blocks (sha1_block hs (take 16 ws)) (drop 16 ws))"
  by pat_completeness auto
termination
  by (relation "measure (length \<circ> snd)") auto

declare sha1_blocks.simps [simp del]

definition sha1 :: "string \<Rightarrow> int list" where
  "sha1 s = concat (map bytes_of (sha1_blocks initial_sha1 (words_of (padded s))))"

end
