(* ===== verification/Knowledge_Reading.thy ===== *)
theory Knowledge_Reading
  imports Knowledge_Domain Go_SHA1 Music_Sources "HOL-Library.List_Lexorder" "HOL-Library.Char_ord" "HOL-Library.Multiset"
begin

section \<open>Readings and the intake\<close>

text \<open>
  \<open>reading.go\<close>, \<open>intake.go\<close> and \<open>hashtag.go\<close> of \<open>dokja_domain/dokja_knowledge\<close>: storing a file that was
  read, choosing what the owner's sources published, and the labelled examples.  Parameters: \<open>fmt.Sprint\<close> of a
  tag, \<open>time.Parse\<close> of an RFC 3339 instant, the JSON encoding of a list of texts, Unicode's letters and digits,
  and the error the context ended with.
\<close>

subsection \<open>Reading a file\<close>

definition maxUserTags :: nat where "maxUserTags = 18"

record read_document =
  rd_title :: string
  rd_text :: string
  rd_ref :: string
  rd_key :: string
  rd_units :: "gval list"

record reading =
  rg_filename :: string
  rg_content :: string
  rg_format :: string
  rg_reader :: string
  rg_version :: string
  rg_documents :: "read_document list"
  rg_payload :: payload

definition reading_tags :: "(gval \<Rightarrow> string) \<Rightarrow> gval option \<Rightarrow> string \<Rightarrow> string \<Rightarrow> string list" where
  "reading_tags sprint raw format reader =
     (let tags = (case raw of
                    Some (VStr s) \<Rightarrow> split_on (CHR '','') s
                  | Some (VList vs) \<Rightarrow> map sprint vs
                  | Some (VStrs ts) \<Rightarrow> ts
                  | _ \<Rightarrow> []);
          kept = filter (\<lambda>t. t \<noteq> []) (map trim_space tags);
          f = trim_prefix ''.'' format
      in kept @ (if f \<noteq> [] then [''format:'' @ f] else []) @ (if reader \<noteq> [] then [''reader:'' @ reader] else []))"

definition validate_read :: "json_ports \<Rightarrow> (gval \<Rightarrow> string) \<Rightarrow> payload \<Rightarrow> gerror option" where
  "validate_read js sprint p =
     (if \<not> given p ''filename'' then Some (Errorf ''filename is required'')
      else if \<not> given p ''content_b64'' then Some (Errorf ''content_b64 is required'')
      else if given p ''body'' then Some (Errorf ''knowledge.read takes a file; send body with knowledge.ingest'')
      else if given p ''source'' then Some (Errorf ''knowledge.read takes a file; send source with knowledge.ingest'')
      else if length (reading_tags sprint (map_of p ''tags'') [] []) > maxUserTags
      then Some (Errorf ''at most 18 tags; two are kept for the reading's provenance'')
      else case map_of p ''metadata'' of
          None \<Rightarrow> None
        | Some raw \<Rightarrow>
            (case decode_metadata js raw of
               Inl e \<Rightarrow> Some e
             | Inr _ \<Rightarrow> (case resolved_metadata js (Some raw) no_values None of Inl e \<Rightarrow> Some e | Inr _ \<Rightarrow> None)))"

text \<open>\<open>path.Base\<close>.\<close>

definition path_base :: "string \<Rightarrow> string" where
  "path_base s =
     (if s = [] then ''.''
      else let t = rev (dropWhile (\<lambda>c. c = CHR ''/'') (rev s))
           in if t = [] then ''/'' else rev (takeWhile (\<lambda>c. c \<noteq> CHR ''/'') (rev t)))"

text \<open>Each run of bytes outside \<open>[A-Za-z0-9._-]\<close> becomes one dash.\<close>

definition id_char :: "char \<Rightarrow> bool" where
  "id_char c \<longleftrightarrow> 65 \<le> byte c \<and> byte c \<le> 90 \<or> 97 \<le> byte c \<and> byte c \<le> 122 \<or> digit c \<or> c \<in> set ''._-''"

fun dash_runs :: "bool \<Rightarrow> string \<Rightarrow> string" where
  "dash_runs dashed [] = []"
| "dash_runs dashed (c # cs) =
     (if id_char c then c # dash_runs False cs else if dashed then dash_runs True cs else CHR ''-'' # dash_runs True cs)"

definition trim_dashes :: "string \<Rightarrow> string" where
  "trim_dashes s = rev (dropWhile (\<lambda>c. c = CHR ''-'') (rev (dropWhile (\<lambda>c. c = CHR ''-'') s)))"

definition safe_id :: "string \<Rightarrow> string" where
  "safe_id name = (let i = take 120 (trim_dashes (dash_runs False name)) in if i = [] then ''item'' else i)"

definition document_title :: "payload \<Rightarrow> reading \<Rightarrow> read_document \<Rightarrow> string" where
  "document_title request r d =
     (if given request ''title'' \<and> length (rg_documents r) = 1 then trim_space (text_in request ''title'')
      else if trim_space (rd_title d) \<noteq> [] then rd_title d
      else path_base (rg_filename r))"

text \<open>What unchanged text is patched with: the assertions this request made.\<close>

definition unchanged_patch :: "payload \<Rightarrow> metadata_input option \<Rightarrow> payload" where
  "unchanged_patch metadata input =
     (let at_key = (\<lambda>k. (k, value_or_nil (map_of metadata k)))
      in at_key ''reading'' #
        (case input of
           None \<Rightarrow> []
         | Some i \<Rightarrow>
             (if mi_form i \<noteq> [] then [at_key ''form'', at_key ''form_choice''] else []) @
             (if mi_kind i \<noteq> [] then [at_key ''content_kind'', at_key ''kind_choice''] else []) @
             (case mi_topics i of None \<Rightarrow> [] | Some ts \<Rightarrow> [(''topics'', VStrs ts)]) @
             (case mi_entities i of None \<Rightarrow> [] | Some es \<Rightarrow> [(''entities'', VList (map entity_map es))]) @
             (if mi_date i \<noteq> [] then [(''date_anchor'', VStr (mi_date i))] else [])))"

definition document_source_id :: "string \<Rightarrow> reading \<Rightarrow> read_document \<Rightarrow> string" where
  "document_source_id base r d =
     (if length (rg_documents r) > 1
      then base @ ''#'' @ take 10 (hex_encode (sha1 (if rd_key d = [] then rd_title d else rd_key d)))
      else base)"

definition document_payload ::
    "payload \<Rightarrow> reading \<Rightarrow> string list \<Rightarrow> payload \<Rightarrow> payload \<Rightarrow> string \<Rightarrow> read_document \<Rightarrow> payload" where
  "document_payload request r tags metadata patch base d =
     [(''title'', VStr (document_title request r d)), (''body'', VStr (rd_text d)), (''tags'', VStrs tags),
      (''metadata'', VMap metadata), (''metadata_if_unchanged'', VMap patch)] @
     (if rd_units d \<noteq> [] \<and> rg_content r \<noteq> [] \<and> contains_str [''.pdf'', ''.epub''] (rg_format r)
      then [(''original'', VMap [(''filename'', VStr (rg_filename r)), (''content_b64'', VStr (rg_content r)),
                                 (''units'', VList (rd_units d))])]
      else []) @
     [(''source_id'', VStr (document_source_id base r d))] @
     (if given request ''kind'' then [(''kind'', VStr (text_in request ''kind''))] else []) @
     (if given request ''source_ref'' then [(''source_ref'', VStr (text_in request ''source_ref''))]
      else if rd_ref d \<noteq> [] then [(''source_ref'', VStr (rd_ref d))] else [])"

fun ingest_each :: "'w knowledge_service \<Rightarrow> payload list \<Rightarrow> 'w \<Rightarrow> gmap list \<times> gerror option \<times> 'w" where
  "ingest_each service [] w = ([], None, w)"
| "ingest_each service (p # ps) w =
     (case service ''knowledge.ingest'' (map_of p) w of
        (Inl e, w1) \<Rightarrow> ([], Some e, w1)
      | (Inr result, w1) \<Rightarrow>
          (case ingest_each service ps w1 of (stored, e, w2) \<Rightarrow> (annotate_classification result # stored, e, w2)))"

definition reading_base :: "payload \<Rightarrow> reading \<Rightarrow> string" where
  "reading_base request r =
     (let given_id = trim_space (text_in request ''source_id'')
      in if given_id = [] then ''file:'' @ safe_id (path_base (rg_filename r)) else given_id)"

definition store_reading ::
    "json_ports \<Rightarrow> (gval \<Rightarrow> string) \<Rightarrow> 'w knowledge_service option \<Rightarrow> reading \<Rightarrow> 'w \<Rightarrow> gmap list \<times> gerror option \<times> 'w" where
  "store_reading js sprint service r w =
     (case service of
        None \<Rightarrow> ([], Some (Errorf ''knowledge service is not configured''), w)
      | Some sv \<Rightarrow>
          if rg_documents r = [] then ([], Some (Errorf ''the reading has no documents''), w)
          else let request = rg_payload r
          in case (case map_of request ''metadata'' of
                     None \<Rightarrow> Inr None
                   | Some raw \<Rightarrow> (case decode_metadata js raw of Inl e \<Rightarrow> Inl e | Inr i \<Rightarrow> Inr (Some i))) of
               Inl e \<Rightarrow> ([], Some e, w)
             | Inr input \<Rightarrow>
                 (case resolved_metadata js (map_of request ''metadata'') (reading_defaults (rg_format r))
                         (Some \<lparr>rv_format = trim_prefix ''.'' (rg_format r), rv_reader = rg_reader r, rv_version = rg_version r\<rparr>) of
                    Inl e \<Rightarrow> ([], Some e, w)
                  | Inr metadata \<Rightarrow>
                      ingest_each sv
                        (map (document_payload request r (reading_tags sprint (map_of request ''tags'') (rg_format r) (rg_reader r))
                                metadata (unchanged_patch metadata input) (reading_base request r)) (rg_documents r)) w))"

subsection \<open>The intake\<close>

definition MaxIntakeAge :: int where "MaxIntakeAge = 72 * 3600 * 10 ^ 9"
definition MaxIntakeDocuments :: nat where "MaxIntakeDocuments = 20"

record intake_selection =
  is_documents :: "payload list"
  is_without_body :: nat
  is_out_of_window :: nat
  is_over_limit :: nat

definition parse_intake_sources :: "string \<Rightarrow> string list" where
  "parse_intake_sources raw = rev (remdups (rev (filter (\<lambda>t. t \<noteq> []) (map trim_space (split_on (CHR '','') raw)))))"

definition reading_id :: "string \<Rightarrow> string" where
  "reading_id i =
     (let t = trim_space i; rs = runes t
      in if length rs > 120 then string_of_runes (take 119 rs) @ string_of_runes [0x2026] else t)"

definition reading_source_id :: "(string list \<Rightarrow> string option) \<Rightarrow> string \<Rightarrow> string \<Rightarrow> string option" where
  "reading_source_id encode plugin i =
     (case encode [trim_space plugin, reading_id i] of
        None \<Rightarrow> None | Some text \<Rightarrow> Some (''reading:'' @ hex_encode (sha256 text)))"

record intake_candidate =
  ic_published :: int
  ic_id :: string
  ic_payload :: payload

datatype intake_item = Not_Chosen | Without_Body | Out_Of_Window | Candidate intake_candidate

definition intake_text :: "payload \<Rightarrow> string \<Rightarrow> string" where
  "intake_text item field = trim_space (text_in item field)"

definition intake_payload :: "payload \<Rightarrow> string \<Rightarrow> payload" where
  "intake_payload item source_id =
     [(''title'', VStr (intake_text item ''title'')), (''body'', VStr (intake_text item ''body'')),
      (''kind'', VStr ''article''), (''source_id'', VStr source_id)] @
     (if intake_text item ''url'' \<noteq> [] then [(''source_ref'', VStr (intake_text item ''url''))] else [])"

definition judge_item ::
    "(string list \<Rightarrow> string option) \<Rightarrow> (string \<Rightarrow> int option) \<Rightarrow> string list \<Rightarrow> int \<Rightarrow> gval \<Rightarrow> intake_item" where
  "judge_item encode parse_time sources now v =
     (case v of
        VMap item \<Rightarrow>
          let plugin = intake_text item ''plugin''; i = intake_text item ''id''
          in if \<not> contains_str sources plugin then Not_Chosen
             else if i = [] \<or> intake_text item ''title'' = [] \<or> intake_text item ''body'' = [] then Without_Body
             else (case parse_time (intake_text item ''published'') of
                 None \<Rightarrow> Out_Of_Window
               | Some published \<Rightarrow>
                   if now - published > MaxIntakeAge then Out_Of_Window
                   else (case reading_source_id encode plugin i of
                       None \<Rightarrow> Without_Body
                     | Some source_id \<Rightarrow>
                         Candidate \<lparr>ic_published = published, ic_id = source_id, ic_payload = intake_payload item source_id\<rparr>))
      | _ \<Rightarrow> Not_Chosen)"

fun candidates :: "intake_item list \<Rightarrow> intake_candidate list" where
  "candidates [] = []"
| "candidates (Candidate c # xs) = c # candidates xs"
| "candidates (x # xs) = candidates xs"

text \<open>Newest first; two published at the same instant by their identity.\<close>

definition newest_first :: "intake_candidate list \<Rightarrow> intake_candidate list" where
  "newest_first cs = sort_key (\<lambda>c. - ic_published c) (sort_key ic_id cs)"

definition select_intake ::
    "(string list \<Rightarrow> string option) \<Rightarrow> (string \<Rightarrow> int option) \<Rightarrow> gval option \<Rightarrow> string list \<Rightarrow> int \<Rightarrow> intake_selection" where
  "select_intake encode parse_time items sources now =
     (let judged = map (judge_item encode parse_time sources now) (case items of Some (VList vs) \<Rightarrow> vs | _ \<Rightarrow> []);
          ordered = newest_first (candidates judged)
      in \<lparr>is_documents = map ic_payload (take MaxIntakeDocuments ordered),
          is_without_body = length (filter (\<lambda>x. x = Without_Body) judged),
          is_out_of_window = length (filter (\<lambda>x. x = Out_Of_Window) judged),
          is_over_limit = length ordered - MaxIntakeDocuments\<rparr>)"

record intake_outcome =
  io_stored :: nat
  io_changed :: nat
  io_failed :: nat

definition no_outcome :: intake_outcome where
  "no_outcome = \<lparr>io_stored = 0, io_changed = 0, io_failed = 0\<rparr>"

fun first_error :: "gerror option \<Rightarrow> gerror \<Rightarrow> gerror option" where
  "first_error None e = Some e"
| "first_error (Some e') e = Some e'"

fun store_each ::
    "json_ports \<Rightarrow> 'w knowledge_service option \<Rightarrow> ('w \<Rightarrow> gerror option) \<Rightarrow> nat \<Rightarrow> payload list \<Rightarrow> intake_outcome \<Rightarrow>
     gerror option \<Rightarrow> 'w \<Rightarrow> intake_outcome \<times> gerror option \<times> 'w" where
  "store_each js service ended n [] out first w = (out, first, w)"
| "store_each js service ended n (p # ps) out first w =
     (case ended w of
        Some e \<Rightarrow> (out\<lparr>io_failed := io_failed out + (n - io_stored out - io_failed out)\<rparr>, first_error first e, w)
      | None \<Rightarrow>
          (case knowledge_handle js service ActionIngestKnowledge ''knowledge.ingest'' p w of
             (Inl e, w1) \<Rightarrow>
               store_each js service ended n ps (out\<lparr>io_failed := io_failed out + 1\<rparr>) (first_error first (Wrapf ''intake: '' e)) w1
           | (Inr result, w1) \<Rightarrow>
               store_each js service ended n ps
                 (out\<lparr>io_stored := io_stored out + 1,
                      io_changed := io_changed out + (if bool_of (result ''changed'') then 1 else 0)\<rparr>) first w1))"

definition store_intake ::
    "json_ports \<Rightarrow> 'w knowledge_service option \<Rightarrow> ('w \<Rightarrow> gerror option) \<Rightarrow> payload list \<Rightarrow> 'w \<Rightarrow>
     intake_outcome \<times> gerror option \<times> 'w" where
  "store_intake js service ended documents w = store_each js service ended (length documents) documents no_outcome None w"

subsection \<open>Labelled examples\<close>

definition HashtagKnowledgeKind :: string where "HashtagKnowledgeKind = ''meme_hashtag''"

record hashtag_example =
  he_url :: string
  he_hashtag :: string

definition label_rune :: "unicode_tables \<Rightarrow> nat \<Rightarrow> bool" where
  "label_rune uc r \<longleftrightarrow> r = 95 \<or> uc_letter uc r \<or> uc_digit uc r"

definition prepare_example :: "unicode_tables \<Rightarrow> string \<Rightarrow> string \<Rightarrow> hashtag_example res" where
  "prepare_example uc url tag =
     (let u = trim_space url; t = trim_space tag; label = (if prefix ''#'' t then t else ''#'' @ t)
      in if u = [] then Inl (Errorf ''meme hashtag tag requires a url'')
         else if t = [] \<or> t = ''#'' then Inl (Errorf ''hashtag is required'')
         else if \<not> list_all (label_rune uc) (runes (trim_prefix ''#'' label))
         then Inl (Errorf (''invalid hashtag '' @ go_quote label @ '': only letters, digits and _ are allowed after the #''))
         else Inr \<lparr>he_url = u, he_hashtag = label\<rparr>)"

definition hashtag_knowledge_id :: "string \<Rightarrow> string" where
  "hashtag_knowledge_id url = ''meme-hashtag:'' @ hash32 (trim_space url)"

fun hashtag_number :: "gval option \<Rightarrow> rat" where
  "hashtag_number (Some (VFloat m e)) = rat_of_parts m e"
| "hashtag_number (Some (VInt n)) = of_int n"
| "hashtag_number _ = 0"

definition example_payload :: "hashtag_example \<Rightarrow> string \<Rightarrow> payload" where
  "example_payload e body =
     [(''source_id'', VStr (hashtag_knowledge_id (he_url e))), (''source_ref'', VStr (he_url e)),
      (''kind'', VStr HashtagKnowledgeKind), (''title'', VStr (he_hashtag e)), (''body'', VStr body),
      (''tags'', VStrs [''meme-hashtag''])]"

definition kept_fields :: "gmap \<Rightarrow> string list \<Rightarrow> payload" where
  "kept_fields answer keys = concat (map (\<lambda>k. case answer k of None \<Rightarrow> [] | Some v \<Rightarrow> [(k, v)]) keys)"

definition store_example ::
    "json_ports \<Rightarrow> 'w knowledge_service option \<Rightarrow> hashtag_example \<Rightarrow> string \<Rightarrow> 'w \<Rightarrow> payload res \<times> 'w" where
  "store_example js service e body w =
     (if he_url e = [] then (Inl (Errorf ''meme hashtag tag requires a url''), w)
      else case knowledge_handle js service ActionIngestKnowledge ''knowledge.ingest'' (example_payload e body) w of
          (Inl err, w1) \<Rightarrow> (Inl err, w1)
        | (Inr answer, w1) \<Rightarrow>
            (Inr ([(''source_url'', VStr (he_url e)), (''hashtag'', VStr (he_hashtag e)), (''text'', VStr body),
                (''embedded'', VBool (hashtag_number (answer ''embedded'') > 0
                    \<or> (\<not> bool_of (answer ''changed'') \<and> hashtag_number (answer ''pending_embeddings'') = 0)))] @
               kept_fields answer [''degraded'', ''reason'']), w1))"

definition search_examples ::
    "json_ports \<Rightarrow> 'w knowledge_service option \<Rightarrow> string \<Rightarrow> gval \<Rightarrow> 'w \<Rightarrow> payload res \<times> 'w" where
  "search_examples js service query min_score w =
     (case knowledge_handle js service ActionSearchKnowledge ''knowledge.search''
             [(''query'', VStr query), (''k'', VInt 1), (''kind'', VStr HashtagKnowledgeKind), (''min_score'', min_score)] w of
        (Inl err, w1) \<Rightarrow> (Inl err, w1)
      | (Inr answer, w1) \<Rightarrow>
          (let head = [(''query_text'', VStr query), (''degraded'', value_or_nil (answer ''degraded'')),
                       (''threshold'', value_or_nil (answer ''threshold''))];
               reason = kept_fields answer [''reason'']
           in case (case answer ''hits'' of Some (VList hits) \<Rightarrow> hits | _ \<Rightarrow> []) of
               [] \<Rightarrow>
                 (Inr (head @ [(''hashtag'', nil_val), (''relevant'', VBool False)] @
                    (if reason = [] then [(''reason'', VStr ''no tagged meme examples in knowledge'')] else reason)), w1)
             | hit # _ \<Rightarrow>
                 (let h = map_of (map_in (Some hit)); at_key = (\<lambda>k. value_or_nil (h k))
                  in (Inr (head @ [(''hashtag'', at_key ''title''), (''score'', at_key ''score''), (''relevant'', at_key ''relevant''),
                        (''matched_text'', at_key ''text''), (''matched_source_url'', at_key ''source_ref'')] @ reason), w1))))"

definition example_row :: "payload \<Rightarrow> gval" where
  "example_row d =
     (let at_key = (\<lambda>k. value_or_nil (map_of d k))
      in VMap [(''source_url'', at_key ''source_ref''), (''text'', at_key ''text''), (''hashtag'', at_key ''title''),
           (''embedded'', VBool (hashtag_number (map_of d ''embedded'') > 0)), (''updated_at'', at_key ''updated_at'')])"

fun example_rows :: "gval list \<Rightarrow> gval list" where
  "example_rows [] = []"
| "example_rows (VMap d # vs) = example_row d # example_rows vs"
| "example_rows (v # vs) = example_rows vs"

definition list_examples ::
    "json_ports \<Rightarrow> 'w knowledge_service option \<Rightarrow> int \<Rightarrow> int \<Rightarrow> 'w \<Rightarrow> payload res \<times> 'w" where
  "list_examples js service limit offset w =
     (case knowledge_handle js service ActionListKnowledge ''knowledge.list''
             [(''kind'', VStr HashtagKnowledgeKind), (''include_text'', VBool True), (''limit'', VInt limit), (''offset'', VInt offset)] w of
        (Inl err, w1) \<Rightarrow> (Inl err, w1)
      | (Inr answer, w1) \<Rightarrow>
          (Inr [(''total'', value_or_nil (answer ''total'')), (''offset'', value_or_nil (answer ''offset'')),
             (''examples'', VList (example_rows (case answer ''documents'' of Some (VList vs) \<Rightarrow> vs | _ \<Rightarrow> [])))], w1))"

definition delete_example ::
    "json_ports \<Rightarrow> 'w knowledge_service option \<Rightarrow> string \<Rightarrow> 'w \<Rightarrow> payload res \<times> 'w" where
  "delete_example js service url w =
     (let u = trim_space url
      in if u = [] then (Inl (Errorf ''meme hashtag untag requires a url''), w)
         else case knowledge_handle js service ActionDeleteKnowledge ''knowledge.delete''
                     [(''source_id'', VStr (hashtag_knowledge_id u))] w of
             (Inl err, w1) \<Rightarrow> (Inl err, w1)
           | (Inr answer, w1) \<Rightarrow> (Inr [(''source_url'', VStr u), (''deleted'', value_or_nil (answer ''deleted''))], w1))"

subsection \<open>What the intake keeps\<close>

definition from_chosen :: "string list \<Rightarrow> gval \<Rightarrow> bool" where
  "from_chosen sources v \<longleftrightarrow> (case v of VMap item \<Rightarrow> contains_str sources (intake_text item ''plugin'') | _ \<Rightarrow> False)"

lemma judged_chosen: "judge_item encode parse_time sources now v \<noteq> Not_Chosen \<longleftrightarrow> from_chosen sources v"
  by (cases v) (auto simp: judge_item_def from_chosen_def Let_def split: option.splits)

lemma counted: "length (candidates xs) + length (filter (\<lambda>x. x = Without_Body) xs) + length (filter (\<lambda>x. x = Out_Of_Window) xs)
    = length (filter (\<lambda>x. x \<noteq> Not_Chosen) xs)"
  by (induction xs rule: candidates.induct) auto

lemma set_candidates: "c \<in> set (candidates xs) \<longleftrightarrow> Candidate c \<in> set xs"
  by (induction xs rule: candidates.induct) auto

lemma newest_length [simp]: "length (newest_first cs) = length cs"
  by (simp add: newest_first_def)

lemma newest_mset: "mset (newest_first cs) = mset cs"
  by (simp add: newest_first_def)

lemma newest_sorted: "sorted (map (\<lambda>c. - ic_published c) (newest_first cs))"
  by (simp add: newest_first_def)

text \<open>What may be kept of an item, in the words of the feed: its full text, of a chosen source, dated at most 72 hours back.\<close>

definition worth_keeping ::
    "(string list \<Rightarrow> string option) \<Rightarrow> (string \<Rightarrow> int option) \<Rightarrow> string list \<Rightarrow> int \<Rightarrow> intake_candidate \<Rightarrow> gval \<Rightarrow> bool" where
  "worth_keeping encode parse_time sources now c v \<longleftrightarrow>
     (\<exists>item. v = VMap item \<and> intake_text item ''plugin'' \<in> set sources
        \<and> intake_text item ''id'' \<noteq> [] \<and> intake_text item ''title'' \<noteq> [] \<and> intake_text item ''body'' \<noteq> []
        \<and> parse_time (intake_text item ''published'') = Some (ic_published c) \<and> now - 72 * 3600 * 10 ^ 9 \<le> ic_published c
        \<and> reading_source_id encode (intake_text item ''plugin'') (intake_text item ''id'') = Some (ic_id c)
        \<and> ic_payload c = intake_payload item (ic_id c))"

lemma candidate_worth: "judge_item encode parse_time sources now v = Candidate c \<longleftrightarrow> worth_keeping encode parse_time sources now c v"
proof (cases v)
  case (VMap item)
  then show ?thesis
    by (cases c) (auto simp: judge_item_def worth_keeping_def Let_def MaxIntakeAge_def split: option.split)
qed (auto simp: judge_item_def worth_keeping_def)

text \<open>
  C22.  A run of the intake takes the newest of what may be kept.  Every item of a chosen source is taken, counted as
  without its text, as out of the window, or as over the limit, and none of these twice.  What may be kept is exactly the
  items of chosen sources that have an identity, a title, a body and a date not more than 72 hours before the run (a
  date after it is taken too, and ranks first).  At most 20 of them become documents, and none that is left over the limit
  is dated after one taken.
\<close>

theorem intake_takes_the_newest:
  "case select_intake encode parse_time (Some (VList vs)) sources now of s \<Rightarrow>
     length (is_documents s) \<le> 20
     \<and> length (is_documents s) + is_without_body s + is_out_of_window s + is_over_limit s = length (filter (from_chosen sources) vs)
     \<and> (\<exists>kept left. is_documents s = map ic_payload kept \<and> length left = is_over_limit s
          \<and> mset (kept @ left) = mset (candidates (map (judge_item encode parse_time sources now) vs))
          \<and> set (kept @ left) = {c. list_ex (worth_keeping encode parse_time sources now c) vs}
          \<and> list_all (\<lambda>c. list_all (\<lambda>d. ic_published d \<le> ic_published c) left) kept)"
proof -
  let ?judged = "map (judge_item encode parse_time sources now) vs"
  let ?cs = "newest_first (candidates ?judged)"
  let ?kept = "take MaxIntakeDocuments ?cs" and ?left = "drop MaxIntakeDocuments ?cs"
  let ?s = "select_intake encode parse_time (Some (VList vs)) sources now"
  have worth: "set (?kept @ ?left) = {c. list_ex (worth_keeping encode parse_time sources now c) vs}"
  proof -
    have "set (?kept @ ?left) = set (candidates ?judged)"
      using newest_mset [of "candidates ?judged"] by (metis append_take_drop_id set_mset_mset)
    moreover have "c \<in> set (candidates ?judged) \<longleftrightarrow> list_ex (worth_keeping encode parse_time sources now c) vs" for c
      unfolding set_candidates list_ex_iff set_map image_iff candidate_worth [symmetric] by metis
    ultimately show ?thesis by blast
  qed
  have newer: "ic_published d \<le> ic_published c" if "c \<in> set ?kept" "d \<in> set ?left" for c d
  proof -
    have "sorted (map (\<lambda>c. - ic_published c) ?kept @ map (\<lambda>c. - ic_published c) ?left)"
      using newest_sorted [of "candidates ?judged"] by (simp only: map_append [symmetric] append_take_drop_id)
    then have "- ic_published c \<le> - ic_published d" using that unfolding sorted_append by auto
    then show ?thesis by simp
  qed
  have "filter (from_chosen sources) vs = filter (\<lambda>v. judge_item encode parse_time sources now v \<noteq> Not_Chosen) vs"
    by (simp add: judged_chosen)
  then have chosen: "length (filter (from_chosen sources) vs) = length (filter (\<lambda>x. x \<noteq> Not_Chosen) ?judged)"
    by (simp add: filter_map comp_def)
  have s: "is_documents ?s = map ic_payload ?kept" "length ?left = is_over_limit ?s"
    "is_without_body ?s = length (filter (\<lambda>x. x = Without_Body) ?judged)"
    "is_out_of_window ?s = length (filter (\<lambda>x. x = Out_Of_Window) ?judged)"
    by (simp_all add: select_intake_def Let_def)
  have kept: "length ?kept \<le> 20" "length ?kept + length ?left = length (candidates ?judged)"
    by (simp_all add: MaxIntakeDocuments_def)
  have all: "mset (?kept @ ?left) = mset (candidates ?judged)" by (simp only: append_take_drop_id newest_mset)
  have best: "list_all (\<lambda>c. list_all (\<lambda>d. ic_published d \<le> ic_published c) ?left) ?kept"
    using newer by (simp add: list_all_iff)
  have "length (is_documents ?s) \<le> 20" using kept(1) by (simp add: s(1))
  moreover have "length (is_documents ?s) + is_without_body ?s + is_out_of_window ?s + is_over_limit ?s
      = length (filter (from_chosen sources) vs)"
    unfolding chosen s(3,4) s(2) [symmetric] s(1) length_map using kept(2) counted [of ?judged] by linarith
  ultimately show ?thesis using s(1,2) all best worth by blast
qed

lemma each_counted:
  assumes "store_each js service ended n ps out first w = (out', first', w')"
    and "io_stored out + io_failed out + length ps = n" "io_changed out \<le> io_stored out" "(first = None) = (io_failed out = 0)"
  shows "io_stored out' + io_failed out' = n \<and> io_changed out' \<le> io_stored out' \<and> (first' = None) = (io_failed out' = 0)"
  using assms
proof (induction ps arbitrary: out first w)
  case (Cons p ps)
  note prems = Cons.prems
  show ?case
  proof (cases "ended w")
    case None
    obtain answer w1 where h: "knowledge_handle js service ActionIngestKnowledge ''knowledge.ingest'' p w = (answer, w1)"
      by fastforce
    show ?thesis
    proof (cases answer)
      case (Inl e)
      have "first_error first (Wrapf ''intake: '' e) \<noteq> None" by (cases first) auto
      with prems None h Inl show ?thesis
        by (intro Cons.IH [of "out\<lparr>io_failed := io_failed out + 1\<rparr>" "first_error first (Wrapf ''intake: '' e)" w1]) auto
    next
      case (Inr result)
      with prems None h show ?thesis
        by (intro Cons.IH [of "out\<lparr>io_stored := io_stored out + 1,
                      io_changed := io_changed out + (if bool_of (result ''changed'') then 1 else 0)\<rparr>" first w1]) auto
    qed
  next
    case (Some e)
    moreover have "first_error first e \<noteq> None" by (cases first) auto
    ultimately show ?thesis using prems by auto
  qed
qed simp

text \<open>
  A run accounts for every document it was given: each is stored or failed, also those the run never reached
  because its context ended; an error is returned exactly when one failed, and only stored documents count as changed.
\<close>

theorem intake_counts_every_document:
  "case store_intake js service ended documents w of
     (out, first, w') \<Rightarrow>
       io_stored out + io_failed out = length documents \<and> io_changed out \<le> io_stored out \<and> (first = None) = (io_failed out = 0)"
  by (auto simp: store_intake_def no_outcome_def dest!: each_counted split: prod.split)

subsection \<open>What a reading is stored as\<close>

lemma dashes: "list_all id_char (dash_runs d s)"
  by (induction d s rule: dash_runs.induct) (auto simp: id_char_def)

text \<open>
  The name a file gets in a source identity is between 1 and 120 bytes of letters, digits, dots, dashes and
  underscores, whatever the file is called.
\<close>

theorem safe_ids_are_safe: "list_all id_char (safe_id name) \<and> 1 \<le> length (safe_id name) \<and> length (safe_id name) \<le> 120"
proof -
  have "set (trim_dashes s) \<subseteq> set s" for s
    by (auto simp: trim_dashes_def dest!: set_dropWhileD)
  then have "list_all id_char (take 120 (trim_dashes (dash_runs False name)))"
    using dashes [of False name] by (auto simp: list_all_iff dest!: in_set_takeD)
  moreover have "list_all id_char ''item''" by (simp add: id_char_def)
  ultimately show ?thesis by (simp add: safe_id_def Let_def Suc_le_eq)
qed

end
