(* ===== verification/Inference_Contract.thy ===== *)
theory Inference_Contract
  imports Go_Scan Go_Strings Go_Float "HOL-Library.List_Lexorder" "HOL-Library.Char_ord"
begin

section \<open>The inference contract\<close>

text \<open>
  \<open>dokja_inference/contract.go\<close>: what a request for an inference may hold, which proposals of a provider are
  accepted against it, and the schema sent along.  Parameters (\<open>inference_json\<close>): the length of a request's
  encoding, and what \<open>encoding/json\<close> reads from a reply, as a map of raw values, as a proposal, and
  whether more follows.  The facts of an evidence are the entries of its map, in any order.
\<close>

definition Version :: string where "Version = ''inference.v1''"
definition MaxRequestBytes :: nat where "MaxRequestBytes = 32768"
definition MaxReplyBytes :: nat where "MaxReplyBytes = 16384"

record evidence =
  ie_id :: string
  ie_version :: string
  ie_source :: string
  ie_facts :: "(string \<times> bool) list"
  ie_requires :: "string list"
  ie_question :: string

record experience =
  ix_id :: string
  ix_action :: string
  ix_outcome :: string
  ix_simulation :: bool
  ix_diagnostic :: string

record catalog_action =
  ia_id :: string
  ia_description :: string

record inference_request =
  ir_contract :: string
  ir_task :: string
  ir_revision :: int
  ir_scope :: string
  ir_goal :: string
  ir_evidence :: "evidence list"
  ir_experiences :: "experience list"
  ir_actions :: "catalog_action list"
  ir_remaining :: int
  ir_required :: "string list"

record proposal =
  ip_contract :: string
  ip_revision :: int
  ip_status :: string
  ip_action :: string
  ip_missing :: string
  ip_target :: string
  ip_probability :: f64
  ip_evidence :: "string list"
  ip_experiences :: "string list"
  ip_summary :: string

record inference_json =
  ij_size :: "inference_request \<Rightarrow> nat option"
  ij_fields :: "string \<Rightarrow> (string \<rightharpoonup> string) option"
  ij_proposal :: "string \<Rightarrow> proposal option"
  ij_trailing :: "string \<Rightarrow> bool"

subsection \<open>Requests\<close>

definition ValidDiagnostic :: "string \<Rightarrow> string \<Rightarrow> bool" where
  "ValidDiagnostic outcome diagnostic =
     (if diagnostic = [] then True
      else if diagnostic = ''sum_verified'' then outcome = ''success''
      else if diagnostic = ''parse_error_full_width_digits'' \<or> diagnostic = ''parse_error'' \<or> diagnostic = ''sum_mismatch''
      then outcome = ''failed''
      else False)"

definition check_fact :: "string list \<Rightarrow> string \<Rightarrow> gerror option" where
  "check_fact seen fct =
     (if fct = [] \<or> contains_str seen fct then Some (Errorf ''invalid action precondition'') else None)"

definition check_evidence :: "string list \<Rightarrow> evidence \<Rightarrow> gerror option" where
  "check_evidence seen e =
     (if ie_id e = [] \<or> ie_version e = [] \<or> ie_source e = [] \<or> contains_str seen (ie_id e)
      then Some (Errorf ''invalid evidence reference'') else None)"

definition check_experience :: "string list \<Rightarrow> experience \<Rightarrow> gerror option" where
  "check_experience seen e =
     (if ix_id e = [] \<or> contains_str seen (ix_id e) \<or> \<not> ix_simulation e
         \<or> (ix_outcome e \<noteq> ''success'' \<and> ix_outcome e \<noteq> ''failed'')
      then Some (Errorf ''invalid simulation experience'')
      else if \<not> ValidDiagnostic (ix_outcome e) (ix_diagnostic e) then Some (Errorf ''invalid observed diagnostic'')
      else None)"

definition check_action :: "string list \<Rightarrow> catalog_action \<Rightarrow> gerror option" where
  "check_action seen a =
     (if ia_id a = [] \<or> ia_description a = [] \<or> contains_str seen (ia_id a)
      then Some (Errorf ''invalid action catalog'') else None)"

definition or_else :: "gerror option \<Rightarrow> gerror option \<Rightarrow> gerror option" where
  "or_else a b = (case a of None \<Rightarrow> b | Some e \<Rightarrow> Some e)"

lemma or_else_None [simp]: "or_else a b = None \<longleftrightarrow> a = None \<and> b = None"
  by (cases a) (simp_all add: or_else_def)

definition request_bounds :: "inference_json \<Rightarrow> inference_request \<Rightarrow> bool" where
  "request_bounds js r \<longleftrightarrow>
     (case ij_size js r of None \<Rightarrow> False | Some n \<Rightarrow> n \<le> MaxRequestBytes)
     \<and> ir_contract r = Version \<and> ir_task r \<noteq> [] \<and> ir_scope r \<noteq> [] \<and> ir_revision r \<ge> 1 \<and> ir_goal r \<noteq> []
     \<and> ir_remaining r \<ge> 1 \<and> ir_remaining r \<le> 32 \<and> length (ir_evidence r) \<le> 32 \<and> length (ir_experiences r) \<le> 16
     \<and> ir_actions r \<noteq> [] \<and> length (ir_actions r) \<le> 8"

definition ValidateRequest :: "inference_json \<Rightarrow> inference_request \<Rightarrow> gerror option" where
  "ValidateRequest js r =
     (if \<not> request_bounds js r then Some (Errorf ''invalid inference request'')
      else if length (ir_required r) > 32 then Some (Errorf ''too many action preconditions'')
      else or_else (scan check_fact id [] (ir_required r))
          (or_else (scan check_evidence ie_id [] (ir_evidence r))
          (or_else (scan check_experience ix_id [] (ir_experiences r))
                   (scan check_action ia_id [] (ir_actions r)))))"

subsection \<open>What may still be read\<close>

definition evidence_ids :: "inference_request \<Rightarrow> string list" where
  "evidence_ids r = map ie_id (ir_evidence r)"

text \<open>The references an evidence names: \<open>append(append([]string{}, e.Requires...), e.Question)\<close>.\<close>

definition named_by :: "evidence \<Rightarrow> string list" where
  "named_by e = ie_requires e @ [ie_question e]"

definition Retrievable :: "inference_request \<Rightarrow> string list" where
  "Retrievable r =
     sort (remdups (filter (\<lambda>i. i \<noteq> [] \<and> \<not> contains_str (evidence_ids r) i) (concat (map named_by (ir_evidence r)))))"

fun conflict_from :: "(string \<rightharpoonup> bool) \<Rightarrow> (string \<times> bool) list \<Rightarrow> bool" where
  "conflict_from seen [] = False"
| "conflict_from seen ((fct, v) # rest) =
     (if (case seen fct of Some earlier \<Rightarrow> earlier \<noteq> v | None \<Rightarrow> False) then True
      else conflict_from (seen(fct \<mapsto> v)) rest)"

definition conflicting :: "inference_request \<Rightarrow> bool" where
  "conflicting r = conflict_from Map.empty (concat (map ie_facts (ir_evidence r)))"

subsection \<open>Proposals\<close>

definition check_citation :: "string list \<Rightarrow> string \<Rightarrow> string list \<Rightarrow> string \<Rightarrow> gerror option" where
  "check_citation known text seen i =
     (if \<not> contains_str known i \<or> contains_str seen i then Some (Errorf text) else None)"

definition missing_ids :: "inference_request \<Rightarrow> string list" where
  "missing_ids r = concat (map (\<lambda>e. ie_requires e @ (if ie_question e \<noteq> [] then [ie_question e] else [])) (ir_evidence r))"

definition check_status :: "inference_request \<Rightarrow> proposal \<Rightarrow> gerror option" where
  "check_status r p =
     (if ip_status p = ''need_evidence''
      then (if ip_action p \<noteq> [] \<or> ip_target p \<noteq> [] \<or> \<not> contains_str (missing_ids r) (ip_missing p)
               \<or> contains_str (evidence_ids r) (ip_missing p) \<or> ip_evidence p = []
            then Some (Errorf ''unjustified evidence request'') else None)
      else if ip_status p = ''propose''
      then (if \<not> list_ex (\<lambda>a. ia_id a = ip_action p) (ir_actions r) \<or> ip_missing p \<noteq> []
               \<or> ip_target p \<noteq> ''simulated_sum_success'' \<or> ip_evidence p = []
            then Some (Errorf ''invalid action proposal'') else None)
      else if ip_status p = ''abstain'' \<or> ip_status p = ''clarify''
      then (if ip_action p \<noteq> [] \<or> ip_missing p \<noteq> [] \<or> ip_target p \<noteq> []
            then Some (Errorf ''terminal inference cannot request effects'')
            else if ip_status p = ''clarify'' \<and> length (Retrievable r) > 0 \<and> \<not> conflicting r
            then Some (Errorf ''clarification while evidence can still be retrieved'') else None)
      else Some (Errorf ''unsupported inference status''))"

definition is_finite :: "f64 \<Rightarrow> bool" where
  "is_finite x \<longleftrightarrow> x \<noteq> NaN \<and> x \<noteq> PosInf \<and> x \<noteq> NegInf"

definition proposal_bounds :: "proposal \<Rightarrow> bool" where
  "proposal_bounds p \<longleftrightarrow>
     is_finite (ip_probability p) \<and> \<not> fl_less (ip_probability p) (Fin 0) \<and> \<not> fl_less (Fin 1) (ip_probability p)
     \<and> ip_summary p \<noteq> [] \<and> length (ip_summary p) \<le> 1200 \<and> length (ip_evidence p) \<le> 32 \<and> length (ip_experiences p) \<le> 16"

definition validate_proposal :: "inference_json \<Rightarrow> inference_request \<Rightarrow> proposal \<Rightarrow> gerror option" where
  "validate_proposal js r p =
     (case ValidateRequest js r of
        Some e \<Rightarrow> Some e
      | None \<Rightarrow>
          if ip_contract p \<noteq> Version \<or> ip_revision p \<noteq> ir_revision r then Some (Errorf ''stale or incompatible inference'')
          else if \<not> proposal_bounds p then Some (Errorf ''invalid inference bounds'')
          else or_else (scan (check_citation (evidence_ids r) ''unknown or repeated evidence citation'') id [] (ip_evidence p))
              (or_else (scan (check_citation (map ix_id (ir_experiences r)) ''unknown or repeated experience citation'') id []
                          (ip_experiences p))
                 (check_status r p)))"

definition reply_fields :: "string list" where
  "reply_fields = [''contract'', ''revision'', ''status'', ''action'', ''missing'', ''target'', ''probability'', ''evidence_ids'',
     ''experience_ids'', ''summary'']"

definition decode_reply :: "inference_json \<Rightarrow> inference_request \<Rightarrow> string \<Rightarrow> proposal res" where
  "decode_reply js r body =
     (case ValidateRequest js r of
        Some e \<Rightarrow> Inl e
      | None \<Rightarrow>
          if length body > MaxReplyBytes then Inl (Errorf ''inference reply too large'')
          else case ij_fields js body of
              None \<Rightarrow> Inl (Errorf ''invalid inference JSON'')
            | Some given \<Rightarrow>
                if list_ex (\<lambda>k. case given k of None \<Rightarrow> True | Some raw \<Rightarrow> trim_space raw = ''null'') reply_fields
                then Inl (Errorf ''missing inference field'')
                else case ij_proposal js body of
                    None \<Rightarrow> Inl (Errorf ''invalid inference JSON'')
                  | Some p \<Rightarrow>
                      if ij_trailing js body then Inl (Errorf ''trailing inference data'')
                      else case validate_proposal js r p of Some e \<Rightarrow> Inl e | None \<Rightarrow> Inr p)"

subsection \<open>The schema\<close>

definition of_type :: "string \<Rightarrow> gval" where
  "of_type t = VMap [(''type'', VStr t)]"

definition text_in_list :: "string list \<Rightarrow> gval" where
  "text_in_list xs = VMap [(''type'', VStr ''string''), (''enum'', VStrs xs)]"

definition schema_props :: "(string \<times> gval) list" where
  "schema_props =
     [(''action'', of_type ''string''), (''missing'', of_type ''string''), (''target'', of_type ''string''),
      (''summary'', of_type ''string''), (''contract'', text_in_list [Version]),
      (''status'', text_in_list [''need_evidence'', ''propose'', ''abstain'', ''clarify'']),
      (''revision'', of_type ''integer''), (''probability'', of_type ''number''),
      (''evidence_ids'', VMap [(''type'', VStr ''array''), (''items'', of_type ''string'')]),
      (''experience_ids'', VMap [(''type'', VStr ''array''), (''items'', of_type ''string'')])]"

definition as_object :: "(string \<rightharpoonup> gval) \<Rightarrow> gval" where
  "as_object props =
     VMap [(''type'', VStr ''object''), (''additionalProperties'', VBool False),
       (''properties'', VMap (map (\<lambda>k. (k, case props k of None \<Rightarrow> VOther 3 | Some v \<Rightarrow> v)) reply_fields)),
       (''required'', VStrs reply_fields)]"

definition ids_schema :: "string list \<Rightarrow> bool \<Rightarrow> gval" where
  "ids_schema ids one =
     VMap ([(''type'', VStr ''array''),
        (''items'', if ids = [] then of_type ''string'' else text_in_list ids),
        (''maxItems'', VInt (int (length ids)))] @
       (if one \<and> ids \<noteq> [] then [(''minItems'', VInt 1)] else []))"

definition Schema :: gval where
  "Schema = as_object (map_of schema_props)"

definition props_for :: "inference_request \<Rightarrow> (string \<rightharpoonup> gval)" where
  "props_for r =
     (map_of schema_props)
       (''revision'' \<mapsto> VMap [(''type'', VStr ''integer''), (''enum'', VList [VInt (ir_revision r)])],
        ''missing'' \<mapsto> text_in_list ([] # Retrievable r),
        ''action'' \<mapsto> text_in_list ([] # map ia_id (ir_actions r)),
        ''target'' \<mapsto> text_in_list [[], ''simulated_sum_success''],
        ''evidence_ids'' \<mapsto> ids_schema (evidence_ids r) True,
        ''experience_ids'' \<mapsto> ids_schema (map ix_id (ir_experiences r)) False)"

definition SchemaFor :: "inference_request \<Rightarrow> gval" where
  "SchemaFor r = as_object (props_for r)"

subsection \<open>Requests and proposals, as the contract has them\<close>

definition valid_request :: "inference_json \<Rightarrow> inference_request \<Rightarrow> bool" where
  "valid_request js r \<longleftrightarrow>
     request_bounds js r \<and> length (ir_required r) \<le> 32
     \<and> distinct (ir_required r) \<and> [] \<notin> set (ir_required r)
     \<and> distinct (evidence_ids r) \<and> (\<forall>e \<in> set (ir_evidence r). ie_id e \<noteq> [] \<and> ie_version e \<noteq> [] \<and> ie_source e \<noteq> [])
     \<and> distinct (map ix_id (ir_experiences r))
     \<and> (\<forall>e \<in> set (ir_experiences r). ix_id e \<noteq> [] \<and> ix_simulation e \<and> ix_outcome e \<in> {''success'', ''failed''}
          \<and> (ix_diagnostic e = [] \<or> (ix_diagnostic e = ''sum_verified'') = (ix_outcome e = ''success'')
               \<and> ix_diagnostic e \<in> {''sum_verified'', ''parse_error_full_width_digits'', ''parse_error'', ''sum_mismatch''}))
     \<and> distinct (map ia_id (ir_actions r)) \<and> (\<forall>a \<in> set (ir_actions r). ia_id a \<noteq> [] \<and> ia_description a \<noteq> [])"

definition asserts_both :: "inference_request \<Rightarrow> string \<Rightarrow> bool" where
  "asserts_both r fct \<longleftrightarrow>
     (\<exists>e \<in> set (ir_evidence r). (fct, True) \<in> set (ie_facts e)) \<and> (\<exists>e \<in> set (ir_evidence r). (fct, False) \<in> set (ie_facts e))"

definition still_open :: "inference_request \<Rightarrow> string set" where
  "still_open r = (\<Union>e \<in> set (ir_evidence r). insert (ie_question e) (set (ie_requires e))) - set (evidence_ids r) - {[]}"

definition empty_required :: "inference_request \<Rightarrow> bool" where
  "empty_required r \<longleftrightarrow> (\<exists>e \<in> set (ir_evidence r). [] \<in> set (ie_requires e))"

text \<open>What every proposal owes: this revision, the bounds, and citations of supplied evidence and episodes, each once.\<close>

definition cites_supplied :: "inference_request \<Rightarrow> proposal \<Rightarrow> bool" where
  "cites_supplied r p \<longleftrightarrow>
     ip_contract p = Version \<and> ip_revision p = ir_revision r \<and> proposal_bounds p
     \<and> distinct (ip_evidence p) \<and> set (ip_evidence p) \<subseteq> set (evidence_ids r)
     \<and> distinct (ip_experiences p) \<and> set (ip_experiences p) \<subseteq> ix_id ` set (ir_experiences r)"

definition grounded :: "inference_request \<Rightarrow> proposal \<Rightarrow> bool" where
  "grounded r p \<longleftrightarrow> cites_supplied r p
     \<and> (ip_status p = ''need_evidence'' \<and> ip_action p = [] \<and> ip_target p = [] \<and> ip_evidence p \<noteq> []
          \<and> ip_missing p \<in> still_open r
        \<or> ip_status p = ''propose'' \<and> ip_action p \<in> ia_id ` set (ir_actions r) \<and> ip_missing p = []
          \<and> ip_target p = ''simulated_sum_success'' \<and> ip_evidence p \<noteq> []
        \<or> ip_status p = ''abstain'' \<and> ip_action p = [] \<and> ip_missing p = [] \<and> ip_target p = []
        \<or> ip_status p = ''clarify'' \<and> ip_action p = [] \<and> ip_missing p = [] \<and> ip_target p = []
          \<and> (still_open r = {} \<or> (\<exists>fct. asserts_both r fct)))"

text \<open>
  The one proposal the code accepts that is not grounded: a request for evidence that names none, when some evidence
  lists the empty text among what it requires.
\<close>

definition asks_for_nameless :: "inference_request \<Rightarrow> proposal \<Rightarrow> bool" where
  "asks_for_nameless r p \<longleftrightarrow> cites_supplied r p
     \<and> ip_status p = ''need_evidence'' \<and> ip_action p = [] \<and> ip_target p = [] \<and> ip_evidence p \<noteq> []
     \<and> ip_missing p = [] \<and> empty_required r"

subsection \<open>The loops\<close>

definition good_fact :: "string \<Rightarrow> bool" where "good_fact f \<longleftrightarrow> f \<noteq> []"

definition good_evidence :: "evidence \<Rightarrow> bool" where
  "good_evidence e \<longleftrightarrow> ie_id e \<noteq> [] \<and> ie_version e \<noteq> [] \<and> ie_source e \<noteq> []"

definition good_experience :: "experience \<Rightarrow> bool" where
  "good_experience e \<longleftrightarrow> ix_id e \<noteq> [] \<and> ix_simulation e \<and> ix_outcome e \<in> {''success'', ''failed''}
     \<and> ValidDiagnostic (ix_outcome e) (ix_diagnostic e)"

definition good_action :: "catalog_action \<Rightarrow> bool" where
  "good_action a \<longleftrightarrow> ia_id a \<noteq> [] \<and> ia_description a \<noteq> []"

interpretation required_once: each_once check_fact id good_fact
  by unfold_locales (auto simp: check_fact_def good_fact_def)

interpretation evidence_once: each_once check_evidence ie_id good_evidence
  by unfold_locales (auto simp: check_evidence_def good_evidence_def)

interpretation experience_once: each_once check_experience ix_id good_experience
  by unfold_locales (auto simp: check_experience_def good_experience_def)

interpretation action_once: each_once check_action ia_id good_action
  by unfold_locales (auto simp: check_action_def good_action_def)

interpretation cited_once: each_once "check_citation known msg" id "contains_str known" for known msg
  by unfold_locales (auto simp: check_citation_def)

lemma diagnostic_fits:
  assumes "outcome \<in> {''success'', ''failed''}"
  shows "ValidDiagnostic outcome d \<longleftrightarrow> d = [] \<or> (d = ''sum_verified'') = (outcome = ''success'')
    \<and> d \<in> {''sum_verified'', ''parse_error_full_width_digits'', ''parse_error'', ''sum_mismatch''}"
  using assms by (auto simp: ValidDiagnostic_def)

lemma good_evidences: "list_all good_evidence xs \<longleftrightarrow> (\<forall>e \<in> set xs. ie_id e \<noteq> [] \<and> ie_version e \<noteq> [] \<and> ie_source e \<noteq> [])"
  by (simp add: list_all_iff good_evidence_def)

lemma good_actions: "list_all good_action xs \<longleftrightarrow> (\<forall>a \<in> set xs. ia_id a \<noteq> [] \<and> ia_description a \<noteq> [])"
  by (simp add: list_all_iff good_action_def)

lemma good_facts: "list_all good_fact xs \<longleftrightarrow> [] \<notin> set xs"
  by (auto simp: list_all_iff good_fact_def)

definition diagnosed :: "experience \<Rightarrow> bool" where
  "diagnosed e \<longleftrightarrow> ix_diagnostic e = [] \<or> (ix_diagnostic e = ''sum_verified'') = (ix_outcome e = ''success'')
     \<and> ix_diagnostic e \<in> {''sum_verified'', ''parse_error_full_width_digits'', ''parse_error'', ''sum_mismatch''}"

lemma good_experiences: "list_all good_experience xs \<longleftrightarrow>
    (\<forall>e \<in> set xs. ix_id e \<noteq> [] \<and> ix_simulation e \<and> ix_outcome e \<in> {''success'', ''failed''} \<and> diagnosed e)"
  unfolding list_all_iff good_experience_def diagnosed_def using diagnostic_fits by blast

lemma request_valid: "ValidateRequest js r = None \<longleftrightarrow> valid_request js r"
  unfolding ValidateRequest_def valid_request_def evidence_ids_def diagnosed_def [symmetric] good_evidences [symmetric]
    good_actions [symmetric] good_facts [symmetric] good_experiences [symmetric]
  by (auto simp: required_once.scan_accepts evidence_once.scan_accepts experience_once.scan_accepts action_once.scan_accepts)

lemma conflict_found:
  "conflict_from seen xs \<longleftrightarrow> (\<exists>f v. (f, v) \<in> set xs \<and> (seen f = Some (\<not> v) \<or> (f, \<not> v) \<in> set xs))"
proof (induction xs arbitrary: seen)
  case (Cons x xs)
  obtain f v where x: "x = (f, v)" by (cases x)
  show ?case
  proof (cases "seen f = Some (\<not> v)")
    case True
    then show ?thesis by (auto simp: x)
  next
    case False
    then have "conflict_from seen (x # xs) = conflict_from (seen(f \<mapsto> v)) xs"
      by (auto simp: x split: option.split)
    also have "\<dots> \<longleftrightarrow> (\<exists>g u. (g, u) \<in> set xs \<and> ((seen(f \<mapsto> v)) g = Some (\<not> u) \<or> (g, \<not> u) \<in> set xs))"
      by (rule Cons.IH)
    also have "\<dots> \<longleftrightarrow> (\<exists>g u. (g, u) \<in> set (x # xs) \<and> (seen g = Some (\<not> u) \<or> (g, \<not> u) \<in> set (x # xs)))"
      (is "(\<exists>g u. ?l g u) \<longleftrightarrow> (\<exists>g u. ?r g u)")
    proof
      assume "\<exists>g u. ?l g u"
      then obtain g u where l: "?l g u" by blast
      then have "?r g u" if "g \<noteq> f" using that by auto
      moreover have "?r g u" if "g = f" "(g, \<not> u) \<in> set xs" using l that by simp
      moreover have "?r g u" if "g = f" "v = (\<not> u)" using l that by (simp add: x)
      moreover have "v = (\<not> u)" if "g = f" "(g, \<not> u) \<notin> set xs" using l that by simp
      ultimately show "\<exists>g u. ?r g u" by blast
    next
      assume "\<exists>g u. ?r g u"
      then obtain g u where r: "?r g u" by blast
      have "?l g u" if "g \<noteq> f" using r that by (simp add: x)
      moreover have "?l f u" if "g = f" "u = (\<not> v)" using r that False by (simp add: x)
      moreover have "?l f (\<not> v)" if "g = f" "u = v" using r that False by (simp add: x)
      ultimately show "\<exists>g u. ?l g u" by blast
    qed
    finally show ?thesis .
  qed
qed simp

lemma conflicting_facts: "conflicting r \<longleftrightarrow> (\<exists>fct. asserts_both r fct)"
proof -
  let ?facts = "set (concat (map ie_facts (ir_evidence r)))"
  have "conflicting r \<longleftrightarrow> (\<exists>f v. (f, v) \<in> ?facts \<and> (f, \<not> v) \<in> ?facts)"
    by (simp add: conflicting_def conflict_found)
  also have "\<dots> \<longleftrightarrow> (\<exists>f. (f, True) \<in> ?facts \<and> (f, False) \<in> ?facts)"
    by (metis (full_types))
  also have "\<dots> \<longleftrightarrow> (\<exists>f. asserts_both r f)"
    unfolding asserts_both_def by simp
  finally show ?thesis .
qed

text \<open>
  What may still be retrieved is exactly what the supplied evidence requires or asks about and does not
  contain: each reference once, none of them empty, in lexicographic order.
\<close>

theorem retrievable_is_what_is_open:
  "set (Retrievable r) = still_open r \<and> distinct (Retrievable r) \<and> sorted (Retrievable r)"
  by (auto simp: Retrievable_def still_open_def named_by_def)

lemma missing_id: "i \<in> set (missing_ids r) \<longleftrightarrow>
    (\<exists>e \<in> set (ir_evidence r). i \<in> set (ie_requires e) \<or> i = ie_question e \<and> i \<noteq> [])"
  unfolding missing_ids_def by auto

lemma missing_or_empty:
  assumes "[] \<notin> set (evidence_ids r)"
  shows "i \<in> set (missing_ids r) \<and> i \<notin> set (evidence_ids r) \<longleftrightarrow> i \<in> still_open r \<or> i = [] \<and> empty_required r"
proof (cases "i = []")
  case True
  then show ?thesis using assms by (simp add: missing_id still_open_def empty_required_def)
next
  case False
  then show ?thesis unfolding missing_id still_open_def by blast
qed

lemma retrievable_none: "Retrievable r = [] \<longleftrightarrow> still_open r = {}"
proof -
  have "set (Retrievable r) = still_open r" by (auto simp: Retrievable_def still_open_def named_by_def)
  then show ?thesis by (metis set_empty)
qed

lemma status_accepts:
  assumes "[] \<notin> set (evidence_ids r)"
  shows "check_status r p = None \<longleftrightarrow>
       (ip_status p = ''need_evidence'' \<and> ip_action p = [] \<and> ip_target p = [] \<and> ip_evidence p \<noteq> []
          \<and> (ip_missing p \<in> still_open r \<or> ip_missing p = [] \<and> empty_required r)
        \<or> ip_status p = ''propose'' \<and> ip_action p \<in> ia_id ` set (ir_actions r) \<and> ip_missing p = []
          \<and> ip_target p = ''simulated_sum_success'' \<and> ip_evidence p \<noteq> []
        \<or> ip_status p = ''abstain'' \<and> ip_action p = [] \<and> ip_missing p = [] \<and> ip_target p = []
        \<or> ip_status p = ''clarify'' \<and> ip_action p = [] \<and> ip_missing p = [] \<and> ip_target p = []
          \<and> (still_open r = {} \<or> (\<exists>fct. asserts_both r fct)))"
proof -
  have m: "ip_missing p \<in> set (missing_ids r) \<and> ip_missing p \<notin> set (evidence_ids r) \<longleftrightarrow>
      ip_missing p \<in> still_open r \<or> ip_missing p = [] \<and> empty_required r"
    using assms by (rule missing_or_empty)
  have a: "list_ex (\<lambda>a. ia_id a = ip_action p) (ir_actions r) \<longleftrightarrow> ip_action p \<in> ia_id ` set (ir_actions r)"
    by (auto simp: list_ex_iff image_iff) (metis)+
  consider "ip_status p = ''need_evidence''" | "ip_status p = ''propose''" | "ip_status p = ''abstain''"
    | "ip_status p = ''clarify''" | "ip_status p \<notin> {''need_evidence'', ''propose'', ''abstain'', ''clarify''}"
    by blast
  then show ?thesis
  proof cases
    case 1
    then show ?thesis using m by (auto simp: check_status_def)
  next
    case 2
    then show ?thesis by (auto simp: check_status_def a)
  next
    case 3
    then show ?thesis by (simp add: check_status_def)
  next
    case 4
    then show ?thesis by (auto simp: check_status_def retrievable_none conflicting_facts)
  qed (simp add: check_status_def)
qed

lemma accepted_grounded:
  "validate_proposal js r p = None \<longleftrightarrow> valid_request js r \<and> (grounded r p \<or> asks_for_nameless r p)"
proof (cases "valid_request js r")
  case True
  then have "[] \<notin> set (evidence_ids r)" by (auto simp: valid_request_def evidence_ids_def)
  moreover have "list_all (contains_str known) xs \<longleftrightarrow> set xs \<subseteq> set known" for known xs
    by (auto simp: list_all_iff)
  ultimately have "validate_proposal js r p = None \<longleftrightarrow> cites_supplied r p \<and> check_status r p = None"
    using True
    by (simp only: validate_proposal_def request_valid [THEN iffD2, OF True] cites_supplied_def or_else_None cited_once.scan_accepts
        option.case list.map_id0 id_apply set_map split: if_split) blast
  then show ?thesis
    using True status_accepts [of r p] \<open>[] \<notin> set (evidence_ids r)\<close>
    unfolding grounded_def asks_for_nameless_def by blast
next
  case False
  then show ?thesis by (auto simp: validate_proposal_def request_valid split: option.split)
qed

text \<open>
  C16.  A proposal is accepted exactly when the request is valid and the proposal is grounded in it: it answers this
  revision, cites only supplied evidence and episodes, each once, and then either asks for a reference the
  evidence leaves open, or picks an action of the catalogue with evidence for it, or ends without any effect;
  a question to the person is accepted only when nothing is left to read or two records contradict each other.
  There is one exception, a defect of the code: when some evidence lists the empty text among what it requires, a request
  for evidence that names none is accepted as well.
\<close>

theorem accepted_is_grounded:
  "(validate_proposal js r p = None) = (valid_request js r \<and> (grounded r p \<or> asks_for_nameless r p))"
  by (rule accepted_grounded)

text \<open>Nothing else gets through: without such evidence what is accepted is grounded.\<close>

lemma nameless_needs_empty: "asks_for_nameless r p \<Longrightarrow> \<exists>e \<in> set (ir_evidence r). [] \<in> set (ie_requires e)"
  by (simp add: asks_for_nameless_def empty_required_def)

subsection \<open>What the schema admits\<close>

definition enum_admits :: "(string \<times> gval) list \<Rightarrow> gval \<Rightarrow> bool" where
  "enum_admits s v =
     (case map_of s ''enum'' of
        Some (VStrs xs) \<Rightarrow> list_ex (\<lambda>x. v = VStr x) xs
      | Some (VList vs) \<Rightarrow> list_ex (\<lambda>x. v = x) vs
      | _ \<Rightarrow> True)"

definition limit_admits :: "gval option \<Rightarrow> (int \<Rightarrow> bool) \<Rightarrow> bool" where
  "limit_admits limit ok = (case limit of Some (VInt n) \<Rightarrow> ok n | _ \<Rightarrow> True)"

definition scalar_admits :: "gval \<Rightarrow> gval \<Rightarrow> bool" where
  "scalar_admits s v =
     (case s of
        VMap kvs \<Rightarrow>
          str_of (map_of kvs ''type'') =
            (case v of VStr _ \<Rightarrow> ''string'' | VInt _ \<Rightarrow> ''integer'' | VFloat _ _ \<Rightarrow> ''number'' | _ \<Rightarrow> ''unknown'')
          \<and> enum_admits kvs v
      | _ \<Rightarrow> False)"

definition admits :: "gval \<Rightarrow> gval \<Rightarrow> bool" where
  "admits s v =
     (case (s, v) of
        (VMap kvs, VStrs xs) \<Rightarrow>
          str_of (map_of kvs ''type'') = ''array''
          \<and> (case map_of kvs ''items'' of None \<Rightarrow> True | Some item \<Rightarrow> list_all (\<lambda>x. scalar_admits item (VStr x)) xs)
          \<and> limit_admits (map_of kvs ''maxItems'') (\<lambda>n. int (length xs) \<le> n)
          \<and> limit_admits (map_of kvs ''minItems'') (\<lambda>n. n \<le> int (length xs))
      | _ \<Rightarrow> scalar_admits s v)"

definition proposal_fields :: "proposal \<Rightarrow> (string \<times> gval) list" where
  "proposal_fields p =
     [(''contract'', VStr (ip_contract p)), (''revision'', VInt (ip_revision p)), (''status'', VStr (ip_status p)),
      (''action'', VStr (ip_action p)), (''missing'', VStr (ip_missing p)), (''target'', VStr (ip_target p)),
      (''probability'', val_of_float (ip_probability p)), (''evidence_ids'', VStrs (ip_evidence p)),
      (''experience_ids'', VStrs (ip_experiences p)), (''summary'', VStr (ip_summary p))]"

definition schema_admits :: "inference_request \<Rightarrow> proposal \<Rightarrow> bool" where
  "schema_admits r p =
     (case SchemaFor r of
        VMap kvs \<Rightarrow>
          (case map_of kvs ''properties'' of
             Some (VMap props) \<Rightarrow>
               list_all (\<lambda>(k, v). case map_of props k of None \<Rightarrow> False | Some s \<Rightarrow> admits s v) (proposal_fields p)
           | _ \<Rightarrow> False)
      | _ \<Rightarrow> False)"

lemma schema_admits_props:
  "schema_admits r p \<longleftrightarrow> list_all (\<lambda>(k, v). case props_for r k of None \<Rightarrow> False | Some s \<Rightarrow> admits s v) (proposal_fields p)"
  by (simp add: schema_admits_def SchemaFor_def as_object_def reply_fields_def proposal_fields_def props_for_def schema_props_def)

lemma admits_enum: "admits (text_in_list xs) (VStr x) \<longleftrightarrow> x \<in> set xs"
  by (auto simp: admits_def scalar_admits_def text_in_list_def enum_admits_def list_ex_iff)

lemma admits_ids: "admits (ids_schema ids one) (VStrs xs) \<longleftrightarrow>
    (ids \<noteq> [] \<longrightarrow> set xs \<subseteq> set ids) \<and> length xs \<le> length ids \<and> (one \<and> ids \<noteq> [] \<longrightarrow> xs \<noteq> [])"
proof -
  have item: "scalar_admits (text_in_list ids) (VStr x) \<longleftrightarrow> x \<in> set ids" for x
    by (auto simp: scalar_admits_def text_in_list_def enum_admits_def list_ex_iff)
  have free: "scalar_admits (of_type ''string'') (VStr x)" for x
    by (simp add: scalar_admits_def of_type_def enum_admits_def)
  have "1 \<le> int (length xs) \<longleftrightarrow> xs \<noteq> []" by (cases xs) auto
  then show ?thesis
    by (auto simp: admits_def ids_schema_def limit_admits_def item free list_all_iff)
qed

lemma missing_admitted: "i \<in> insert [] (set (Retrievable r)) \<longleftrightarrow> i = [] \<or> i \<in> still_open r"
proof -
  have "set (Retrievable r) = still_open r" by (auto simp: Retrievable_def still_open_def named_by_def)
  then show ?thesis by simp
qed

lemma schema_fields:
  "schema_admits r p \<longleftrightarrow>
     ip_contract p = Version \<and> ip_revision p = ir_revision r
     \<and> ip_status p \<in> set [''need_evidence'', ''propose'', ''abstain'', ''clarify'']
     \<and> (ip_action p = [] \<or> ip_action p \<in> ia_id ` set (ir_actions r)) \<and> (ip_missing p = [] \<or> ip_missing p \<in> still_open r)
     \<and> ip_target p \<in> set [[], ''simulated_sum_success''] \<and> admits (of_type ''number'') (val_of_float (ip_probability p))
     \<and> admits (ids_schema (evidence_ids r) True) (VStrs (ip_evidence p))
     \<and> admits (ids_schema (map ix_id (ir_experiences r)) False) (VStrs (ip_experiences p))"
proof -
  have n: "admits (VMap [(''type'', VStr ''integer''), (''enum'', VList [VInt n])]) (VInt m) \<longleftrightarrow> m = n" for n m
    by (simp add: admits_def scalar_admits_def enum_admits_def)
  have t: "admits (of_type ''string'') (VStr x)" for x
    by (simp add: admits_def scalar_admits_def of_type_def enum_admits_def)
  show ?thesis
    unfolding schema_admits_props
    by (simp add: proposal_fields_def props_for_def schema_props_def n t admits_enum missing_admitted [simplified]
        del: list.set) (simp add: missing_admitted [simplified] image_iff conj_ac)
qed

lemma finite_is_number: "is_finite x \<Longrightarrow> admits (of_type ''number'') (val_of_float x)"
  by (cases x) (simp_all add: is_finite_def admits_def scalar_admits_def of_type_def enum_admits_def split: prod.split)

lemma within_ids: "distinct xs \<Longrightarrow> set xs \<subseteq> set ids \<Longrightarrow> length xs \<le> length ids"
  by (metis card_length card_mono distinct_card le_trans List.finite_set)

text \<open>
  The schema sent with a request never rules out what the contract accepts, with one exception: it wants some
  evidence cited whenever some was supplied, while the contract lets an answer end without citing any.
\<close>

theorem schema_admits_accepted:
  "if validate_proposal js r p = None then schema_admits r p = (if ip_evidence p = [] then ir_evidence r = [] else True)
   else True"
proof (cases "validate_proposal js r p = None")
  case True
  then have g: "grounded r p \<or> asks_for_nameless r p" by (simp add: accepted_grounded)
  then have c: "cites_supplied r p" by (auto simp: grounded_def asks_for_nameless_def)
  then have "length (ip_evidence p) \<le> length (evidence_ids r)"
    "length (ip_experiences p) \<le> length (ir_experiences r)"
    using within_ids [of "ip_experiences p" "map ix_id (ir_experiences r)"]
    using c by (auto simp: cites_supplied_def intro!: within_ids [of "ip_evidence p"])
  moreover have "admits (of_type ''number'') (val_of_float (ip_probability p))"
    using c by (auto simp: cites_supplied_def proposal_bounds_def intro: finite_is_number)
  moreover have "evidence_ids r = [] \<longleftrightarrow> ir_evidence r = []" by (simp add: evidence_ids_def)
  ultimately show ?thesis
    using c g unfolding schema_fields admits_ids grounded_def asks_for_nameless_def cites_supplied_def by auto
qed auto

end
