(* ===== verification/Digest.thy ===== *)
theory Digest
  imports Music_Sources Go_Float Go_URL "HOL-Library.Multiset"
begin

section \<open>The digest\<close>

text \<open>
  \<open>compose.go\<close> and \<open>domain.go\<close> of \<open>dokja_domain/dokja_digest\<close>: which items the reading screen shows and in
  what order, the pages of a digest, and the readings it refers to.  The service is a parameter over the world
  \<open>'w\<close>.  Parameters (\<open>digest_ports\<close>): Unicode's tables, \<open>time.Parse\<close> of an instant and of a date and
  \<open>Format\<close>, and of \<open>net/url\<close> the escaped path and the query of an address and the encoding of a query.
  An instant is an \<open>int\<close> of nanoseconds with 0 for Go's zero time; a \<open>json.Number\<close> is not a value of the model.
\<close>

type_synonym entries = "(string \<times> gval) list"
type_synonym query_map = "(string \<times> string list) list"

record digest_ports =
  dp_unicode :: unicode_tables
  dp_instant :: "string \<Rightarrow> int option"
  dp_date :: "string \<Rightarrow> int option"
  dp_format :: "int \<Rightarrow> string"
  dp_path :: "string \<Rightarrow> string"
  dp_query :: "string \<Rightarrow> query_map"
  dp_encode :: "query_map \<Rightarrow> string"

definition lower_text :: "digest_ports \<Rightarrow> string \<Rightarrow> string" where
  "lower_text ports s = string_of_runes (map (uc_lower (dp_unicode ports)) (runes s))"

record item =
  it_id :: string
  it_plugin :: string
  it_title :: string
  it_summary :: string
  it_body :: string
  it_media :: string
  it_url :: string
  it_source :: string
  it_published :: int
  it_prompts :: "string list"

subsection \<open>The items of a reply\<close>

definition item_text :: "entries \<Rightarrow> string \<Rightarrow> string" where
  "item_text m name = trim_space (str_of (map_of m name))"

fun nonempty_texts :: "gval list \<Rightarrow> string list" where
  "nonempty_texts [] = []"
| "nonempty_texts (VStr s # vs) = (if trim_space s \<noteq> [] then trim_space s # nonempty_texts vs else nonempty_texts vs)"
| "nonempty_texts (v # vs) = nonempty_texts vs"

definition item_texts :: "entries \<Rightarrow> string \<Rightarrow> string list" where
  "item_texts m name = nonempty_texts (case map_of m name of Some (VList vs) \<Rightarrow> vs | _ \<Rightarrow> [])"

definition item_of :: "digest_ports \<Rightarrow> entries \<Rightarrow> item" where
  "item_of ports m =
     \<lparr>it_id = item_text m ''id'', it_plugin = item_text m ''plugin'', it_title = item_text m ''title'',
      it_summary = item_text m ''summary'', it_body = item_text m ''body'', it_media = item_text m ''media_url'',
      it_url = item_text m ''url'', it_source = item_text m ''source'',
      it_published = (case dp_instant ports (item_text m ''published'') of None \<Rightarrow> 0 | Some t \<Rightarrow> t),
      it_prompts = item_texts m ''prompts''\<rparr>"

fun read_items :: "digest_ports \<Rightarrow> gval list \<Rightarrow> item list" where
  "read_items ports [] = []"
| "read_items ports (VMap m # vs) =
     (if item_text m ''title'' = [] then read_items ports vs else item_of ports m # read_items ports vs)"
| "read_items ports (v # vs) = read_items ports vs"

definition nil_value :: gval where "nil_value = VOther 3"

definition items_from :: "digest_ports \<Rightarrow> gmap \<Rightarrow> item list res" where
  "items_from ports reply =
     (case reply ''items'' of
        None \<Rightarrow> Inl (Errorf ''feeds service returned no item list'')
      | Some v \<Rightarrow>
          if v = nil_value then Inr []
          else case v of
              VList vs \<Rightarrow> Inr (read_items ports vs)
            | _ \<Rightarrow> Inl (Errorf ''feeds service returned no item list''))"

subsection \<open>What a request asks for\<close>

record policy =
  po_limit :: int
  po_offset :: int
  po_per_source :: int
  po_max_age :: int
  po_source :: string
  po_query :: string
  po_from :: int
  po_until :: int

definition hour :: int where "hour = 3600 * 10 ^ 9"

definition whole_number :: "entries \<Rightarrow> string \<Rightarrow> int \<Rightarrow> int \<Rightarrow> int \<Rightarrow> int res" where
  "whole_number p name fallback low high =
     (let clamp = (\<lambda>v. if v < low then low else if v > high then high else v)
      in case map_of p name of
           None \<Rightarrow> Inr fallback
         | Some v \<Rightarrow>
             if v = nil_value then Inr fallback
             else case v of
                 VInt n \<Rightarrow> Inr (clamp n)
               | VFloat m e \<Rightarrow>
                   (let x = rat_of_parts m e
                    in if x \<noteq> of_int \<lfloor>x\<rfloor> then Inl (Errorf (name @ '' must be a whole number'')) else Inr (clamp \<lfloor>x\<rfloor>))
               | _ \<Rightarrow> Inl (Errorf (name @ '' must be a whole number'')))"

definition short_text :: "entries \<Rightarrow> string \<Rightarrow> string res" where
  "short_text p name =
     (case map_of p name of
        None \<Rightarrow> Inr []
      | Some (VStr s) \<Rightarrow>
          if rune_count s > 200 then Inl (Errorf (name @ '' must be text of at most 200 characters'')) else Inr (trim_space s)
      | _ \<Rightarrow> Inl (Errorf (name @ '' must be text of at most 200 characters'')))"

definition date_of :: "digest_ports \<Rightarrow> entries \<Rightarrow> string \<Rightarrow> int res" where
  "date_of ports p name =
     (case map_of p name of
        None \<Rightarrow> Inr 0
      | Some (VStr s) \<Rightarrow>
          if s = [] then Inr 0
          else (case dp_date ports s of
              None \<Rightarrow> Inl (Errorf (name @ '' must be a date in YYYY-MM-DD format''))
            | Some t \<Rightarrow> Inr t)
      | _ \<Rightarrow> Inl (Errorf (name @ '' must be a date'')))"

definition policy_from :: "digest_ports \<Rightarrow> entries \<Rightarrow> policy res" where
  "policy_from ports p =
     (case whole_number p ''limit'' 12 1 50 of Inl e \<Rightarrow> Inl e | Inr limit \<Rightarrow>
     (case whole_number p ''offset'' 0 0 1000 of Inl e \<Rightarrow> Inl e | Inr offset \<Rightarrow>
     (case whole_number p ''per_source'' 3 1 10 of Inl e \<Rightarrow> Inl e | Inr per_source \<Rightarrow>
     (case whole_number p ''max_age_hours'' 168 1 8760 of Inl e \<Rightarrow> Inl e | Inr hours \<Rightarrow>
     (case short_text p ''source'' of Inl e \<Rightarrow> Inl e | Inr source \<Rightarrow>
     (case short_text p ''query'' of Inl e \<Rightarrow> Inl e | Inr query \<Rightarrow>
     (case date_of ports p ''from'' of Inl e \<Rightarrow> Inl e | Inr first \<Rightarrow>
     (case date_of ports p ''to'' of Inl e \<Rightarrow> Inl e | Inr until \<Rightarrow>
        if first \<noteq> 0 \<and> until \<noteq> 0 \<and> first > until then Inl (Errorf ''from must not be later than to'')
        else Inr \<lparr>po_limit = limit, po_offset = offset, po_per_source = per_source, po_max_age = hours * hour,
               po_source = source, po_query = lower_text ports query, po_from = first,
               po_until = (if until \<noteq> 0 then until + 24 * hour else 0)\<rparr>))))))))"

subsection \<open>The order\<close>

definition contains_text :: "string \<Rightarrow> string \<Rightarrow> bool" where
  "contains_text s w \<longleftrightarrow> index_of w s \<noteq> None"

datatype verdict_of_item = Skipped | Too_Old | Fresh

definition judge :: "digest_ports \<Rightarrow> policy \<Rightarrow> int \<Rightarrow> item \<Rightarrow> verdict_of_item" where
  "judge ports p now i =
     (if po_source p \<noteq> [] \<and> it_plugin i \<noteq> po_source p \<and> it_source i \<noteq> po_source p then Skipped
      else if po_query p \<noteq> [] \<and> \<not> contains_text (lower_text ports
               (it_title i @ [CHR 10] @ it_summary i @ [CHR 10] @ it_body i @ [CHR 10] @ it_source i)) (po_query p) then Skipped
      else if po_from p \<noteq> 0 \<or> po_until p \<noteq> 0
      then (if it_published i = 0 \<or> (po_from p \<noteq> 0 \<and> it_published i < po_from p) \<or> (po_until p \<noteq> 0 \<and> \<not> it_published i < po_until p)
            then Skipped else Fresh)
      else if it_published i \<noteq> 0 \<and> it_published i < now - po_max_age p then Too_Old
      else Fresh)"

definition newer :: "item \<Rightarrow> item \<Rightarrow> bool" where
  "newer a b \<longleftrightarrow> (if it_published a = 0 then False else if it_published b = 0 then True else it_published a > it_published b)"

text \<open>The stable sort by \<open>newer\<close>: the dated items newest first, then the undated ones as they came.\<close>

definition in_order :: "item list \<Rightarrow> item list" where
  "in_order xs = sort_key (\<lambda>i. - it_published i) (filter (\<lambda>i. it_published i \<noteq> 0) xs) @ filter (\<lambda>i. it_published i = 0) xs"

definition source_key :: "digest_ports \<Rightarrow> item \<Rightarrow> string" where
  "source_key ports i = (let source = lower_text ports (it_source i) in if source \<noteq> [] then source else it_plugin i)"

definition is_tracking :: "digest_ports \<Rightarrow> string \<Rightarrow> bool" where
  "is_tracking ports name =
     (let n = lower_text ports name in prefix ''utm_'' n \<or> n = ''fbclid'' \<or> n = ''gclid'')"

definition address_key :: "digest_ports \<Rightarrow> string \<Rightarrow> string" where
  "address_key ports raw =
     (case url_parse raw of
        None \<Rightarrow> []
      | Some u \<Rightarrow>
          if url_host u = [] then []
          else let encoded = dp_encode ports (filter (\<lambda>(name, _). \<not> is_tracking ports name) (dp_query ports raw))
          in trim_prefix ''www.'' (lower_text ports (url_host u)) @ rev (dropWhile (\<lambda>c. c = CHR ''/'') (rev (dp_path ports raw))) @
             (if encoded \<noteq> [] then ''?'' @ encoded else []))"

text \<open>Letters and digits, one space between words; \<open>started\<close> once something was written.\<close>

fun title_runes :: "unicode_tables \<Rightarrow> bool \<Rightarrow> bool \<Rightarrow> nat list \<Rightarrow> nat list" where
  "title_runes uc pending started [] = []"
| "title_runes uc pending started (r # rs) =
     (if \<not> uc_letter uc r \<and> \<not> uc_digit uc r then title_runes uc True started rs
      else (if pending \<and> started then [32] else []) @ r # title_runes uc False True rs)"

definition title_key :: "digest_ports \<Rightarrow> string \<Rightarrow> string" where
  "title_key ports title =
     (let key = title_runes (dp_unicode ports) False False (runes (lower_text ports title))
      in if length key < 16 then [] else string_of_runes key)"

record digest =
  dg_items :: "item list"
  dg_offset :: int
  dg_limit :: int
  dg_duplicates :: nat
  dg_older :: nat

fun drop_seen :: "digest_ports \<Rightarrow> string list \<Rightarrow> string list \<Rightarrow> item list \<Rightarrow> item list" where
  "drop_seen ports addresses titles [] = []"
| "drop_seen ports addresses titles (i # xs) =
     (let a = address_key ports (it_url i); t = title_key ports (it_title i)
      in if (a \<noteq> [] \<and> contains_str addresses a) \<or> (t \<noteq> [] \<and> contains_str titles t) then drop_seen ports addresses titles xs
         else i # drop_seen ports (if a \<noteq> [] then a # addresses else addresses) (if t \<noteq> [] then t # titles else titles) xs)"

text \<open>The items of the first part and the rest; \<open>taken\<close> counts what each source has.\<close>

fun share :: "digest_ports \<Rightarrow> int \<Rightarrow> (string \<Rightarrow> int) \<Rightarrow> item list \<Rightarrow> item list \<times> item list" where
  "share ports per_source taken [] = ([], [])"
| "share ports per_source taken (i # xs) =
     (let s = source_key ports i; n = taken s + 1
      in case share ports per_source (taken(s := n)) xs of
           (first, rest) \<Rightarrow> if n \<le> per_source then (i # first, rest) else (first, i # rest))"

definition fresh_items :: "digest_ports \<Rightarrow> policy \<Rightarrow> int \<Rightarrow> item list \<Rightarrow> item list" where
  "fresh_items ports p now items = in_order (filter (\<lambda>i. judge ports p now i = Fresh) items)"

definition compose :: "digest_ports \<Rightarrow> item list \<Rightarrow> policy \<Rightarrow> int \<Rightarrow> digest" where
  "compose ports items p now =
     (let fresh = fresh_items ports p now items;
          unique = drop_seen ports [] [] fresh
      in case share ports (po_per_source p) (\<lambda>_. 0) unique of
           (first, rest) \<Rightarrow>
             \<lparr>dg_items = first @ rest, dg_offset = po_offset p, dg_limit = po_limit p,
              dg_duplicates = length fresh - length unique,
              dg_older = length (filter (\<lambda>i. judge ports p now i = Too_Old) items)\<rparr>)"

subsection \<open>Pages\<close>

definition shown :: "item list \<Rightarrow> int \<Rightarrow> int \<Rightarrow> item list" where
  "shown items offset limit =
     (let total = int (length items); start = min offset total; stop = min (start + limit) total
      in take (nat (stop - start)) (drop (nat start) items))"

definition instant_text :: "digest_ports \<Rightarrow> int \<Rightarrow> string" where
  "instant_text ports t = (if t \<noteq> 0 then dp_format ports t else [])"

definition item_row :: "digest_ports \<Rightarrow> item \<Rightarrow> gval" where
  "item_row ports i =
     VMap ([(''id'', VStr (it_id i)), (''plugin'', VStr (it_plugin i)), (''title'', VStr (it_title i)),
       (''summary'', VStr (it_summary i)), (''url'', VStr (it_url i)), (''published'', VStr (instant_text ports (it_published i))),
       (''source'', VStr (it_source i)), (''prompts'', VStrs (it_prompts i))] @
       (if it_media i \<noteq> [] then [(''media_url'', VStr (it_media i))] else []) @
       (if it_body i \<noteq> [] then [(''body'', VStr (it_body i))] else []))"

definition digest_reply :: "digest_ports \<Rightarrow> digest \<Rightarrow> string \<Rightarrow> gmap" where
  "digest_reply ports d updated =
     (let total = int (length (dg_items d)); start = min (dg_offset d) total; stop = min (start + dg_limit d) total
      in [''items'' \<mapsto> VList (map (item_row ports) (shown (dg_items d) (dg_offset d) (dg_limit d))),
          ''total'' \<mapsto> VInt total, ''offset'' \<mapsto> VInt start, ''more'' \<mapsto> VInt (total - stop),
          ''sources'' \<mapsto> VInt (int (length (remdups (map (source_key ports) (dg_items d))))),
          ''duplicates'' \<mapsto> VInt (int (dg_duplicates d)), ''older'' \<mapsto> VInt (int (dg_older d)), ''updated'' \<mapsto> VStr updated])"

subsection \<open>Requests\<close>

type_synonym 'w feeds_service = "string \<Rightarrow> gmap \<Rightarrow> 'w \<Rightarrow> gmap res \<times> 'w"

definition read_digest ::
    "digest_ports \<Rightarrow> 'w feeds_service \<Rightarrow> ('w \<Rightarrow> int) \<Rightarrow> entries \<Rightarrow> 'w \<Rightarrow> gmap res \<times> 'w" where
  "read_digest ports service now p w =
     (case policy_from ports p of
        Inl e \<Rightarrow> (Inl e, w)
      | Inr chosen \<Rightarrow>
          (case service ''feeds.items'' Map.empty w of
             (Inl e, w1) \<Rightarrow> (Inl e, w1)
           | (Inr reply, w1) \<Rightarrow>
               (case items_from ports reply of
                  Inl e \<Rightarrow> (Inl e, w1)
                | Inr items \<Rightarrow>
                    (Inr (digest_reply ports (compose ports items chosen (now w1)) (str_of (reply ''updated''))), w1))))"

record reference =
  re_id :: string
  re_title :: string
  re_summary :: string
  re_source :: string
  re_published :: string

definition bound_runes :: "nat \<Rightarrow> string \<Rightarrow> string" where
  "bound_runes n s = (if rune_count s > n then cut_runes n s else s)"

text \<open>The longest source name the question contains; the first one among names of a length.\<close>

fun longest_name :: "string \<Rightarrow> string \<Rightarrow> string list \<Rightarrow> string" where
  "longest_name query selected [] = selected"
| "longest_name query selected (n # ns) =
     longest_name query (if length n \<ge> 5 \<and> contains_text query n \<and> length n > length selected then n else selected) ns"

definition source_names :: "digest_ports \<Rightarrow> item list \<Rightarrow> string list" where
  "source_names ports items =
     concat (map (\<lambda>i. [lower_text ports (trim_space (it_plugin i)), lower_text ports (trim_space (it_source i))]) items)"

definition reference_of :: "digest_ports \<Rightarrow> item \<Rightarrow> reference" where
  "reference_of ports i =
     \<lparr>re_id = it_id i, re_title = bound_runes 300 (it_title i), re_summary = bound_runes 1000 (it_summary i),
      re_source = bound_runes 100 (if it_source i = [] then it_plugin i else it_source i),
      re_published = instant_text ports (it_published i)\<rparr>"

definition named_items :: "digest_ports \<Rightarrow> string \<Rightarrow> item list \<Rightarrow> item list" where
  "named_items ports question items =
     (let selected = longest_name (lower_text ports question) [] (source_names ports items)
      in if selected = [] then items
         else filter (\<lambda>i. lower_text ports (it_plugin i) = selected \<or> lower_text ports (it_source i) = selected) items)"

definition everything :: "item list \<Rightarrow> policy" where
  "everything items =
     \<lparr>po_limit = int (length items), po_offset = 0, po_per_source = int (length items), po_max_age = 100 * 365 * 24 * hour,
      po_source = [], po_query = [], po_from = 0, po_until = 0\<rparr>"

definition recent_references ::
    "digest_ports \<Rightarrow> 'w feeds_service option \<Rightarrow> ('w \<Rightarrow> int) \<Rightarrow> string \<Rightarrow> int \<Rightarrow> 'w \<Rightarrow> reference list res \<times> 'w" where
  "recent_references ports service now question limit w =
     (case service of
        None \<Rightarrow> (Inl (Errorf ''reading sources are not configured''), w)
      | Some sv \<Rightarrow>
          if limit < 1 \<or> limit > 20 then (Inl (Errorf ''recent reading limit must be between 1 and 20''), w)
          else case sv ''feeds.items'' Map.empty w of
              (Inl e, w1) \<Rightarrow> (Inl e, w1)
            | (Inr reply, w1) \<Rightarrow>
                (case items_from ports reply of
                   Inl e \<Rightarrow> (Inl e, w1)
                 | Inr items \<Rightarrow>
                     (let named = named_items ports question items
                      in (Inr (map (reference_of ports)
                           (take (nat limit) (dg_items (compose ports named (everything named) (now w1))))), w1))))"

definition find_reference ::
    "digest_ports \<Rightarrow> 'w feeds_service option \<Rightarrow> string \<Rightarrow> 'w \<Rightarrow> reference res \<times> 'w" where
  "find_reference ports service i w =
     (if trim_space i = [] \<or> length i > 512 then (Inl (Errorf ''reading id is required and must be at most 512 bytes''), w)
      else case service of
          None \<Rightarrow> (Inl (Errorf ''reading sources are not configured''), w)
        | Some sv \<Rightarrow>
            (case sv ''feeds.items'' Map.empty w of
               (Inl e, w1) \<Rightarrow> (Inl e, w1)
             | (Inr reply, w1) \<Rightarrow>
                 (case items_from ports reply of
                    Inl e \<Rightarrow> (Inl e, w1)
                  | Inr items \<Rightarrow>
                      (case find (\<lambda>x. it_id x = i) items of
                         None \<Rightarrow> (Inl (Errorf ''selected reading is no longer available; refresh the reading list''), w1)
                       | Some x \<Rightarrow>
                           (Inr \<lparr>re_id = i, re_title = bound_runes 300 (it_title x), re_summary = bound_runes 6000 (it_summary x),
                              re_source = bound_runes 100 (it_source x), re_published = []\<rparr>, w1)))))"

subsection \<open>What a digest holds\<close>

definition same_entry :: "digest_ports \<Rightarrow> item \<Rightarrow> item \<Rightarrow> bool" where
  "same_entry ports a b \<longleftrightarrow>
     (address_key ports (it_url a) \<noteq> [] \<and> address_key ports (it_url a) = address_key ports (it_url b))
     \<or> (title_key ports (it_title a) \<noteq> [] \<and> title_key ports (it_title a) = title_key ports (it_title b))"

definition newest_first_items :: "item list \<Rightarrow> bool" where
  "newest_first_items xs \<longleftrightarrow> sorted_wrt (\<lambda>a b. \<not> newer b a) xs"

lemma in_order_sorted: "newest_first_items (in_order xs)"
proof -
  have "sorted_wrt (\<lambda>a b. - it_published a \<le> - it_published b) (sort_key (\<lambda>i. - it_published i) ys)" for ys
    using sorted_sort_key [of "\<lambda>i. - it_published i" ys] by (simp add: sorted_map)
  then have "sorted_wrt (\<lambda>a b. \<not> newer b a) (sort_key (\<lambda>i. - it_published i) (filter (\<lambda>i. it_published i \<noteq> 0) xs))"
    by (rule sorted_wrt_mono_rel [rotated]) (auto simp: newer_def)
  moreover have "sorted_wrt (\<lambda>a b. \<not> newer b a) (filter (\<lambda>i. it_published i = 0) xs)"
    by (rule sorted_wrt_mono_rel [where P = "\<lambda>_ _. True"]) (auto simp: newer_def sorted_wrt_true)
  ultimately show ?thesis
    by (auto simp: newest_first_items_def in_order_def sorted_wrt_append newer_def)
qed

lemma in_order_mset: "mset (in_order xs) = mset xs"
  by (simp add: in_order_def)

lemma unseen_member: "i \<in> set (drop_seen ports as ts xs) \<Longrightarrow> i \<in> set xs"
  by (induction xs arbitrary: as ts) (auto simp: Let_def split: if_splits)

lemma unseen_set: "set (drop_seen ports as ts xs) \<subseteq> set xs"
  by (auto dest: unseen_member)

lemma unseen_length: "length (drop_seen ports as ts xs) \<le> length xs"
  by (induction xs arbitrary: as ts) (auto simp: Let_def intro: le_SucI)

lemma unseen_sorted: "sorted_wrt R xs \<Longrightarrow> sorted_wrt R (drop_seen ports as ts xs)"
  by (induction xs arbitrary: as ts) (auto simp: Let_def dest: unseen_member)

lemma unseen_keys:
  "i \<in> set (drop_seen ports as ts xs) \<Longrightarrow>
     (address_key ports (it_url i) = [] \<or> address_key ports (it_url i) \<notin> set as)
     \<and> (title_key ports (it_title i) = [] \<or> title_key ports (it_title i) \<notin> set ts)"
  by (induction ports as ts xs rule: drop_seen.induct) (auto simp: Let_def split: if_splits)

lemma unseen_apart: "sorted_wrt (\<lambda>a b. \<not> same_entry ports a b) (drop_seen ports as ts xs)"
proof (induction ports as ts xs rule: drop_seen.induct)
  case (2 ports as ts i xs)
  then show ?case
    by (auto simp: Let_def same_entry_def dest!: unseen_keys split: if_splits)
qed simp

lemma seen_or_kept:
  "i \<in> set xs \<Longrightarrow> sorted_wrt R xs \<Longrightarrow> (\<And>x. R x x) \<Longrightarrow>
     (address_key ports (it_url i) \<noteq> [] \<and> address_key ports (it_url i) \<in> set as)
     \<or> (title_key ports (it_title i) \<noteq> [] \<and> title_key ports (it_title i) \<in> set ts)
     \<or> i \<in> set (drop_seen ports as ts xs)
     \<or> (\<exists>k \<in> set (drop_seen ports as ts xs). same_entry ports k i \<and> R k i)"
proof (induction ports as ts xs rule: drop_seen.induct)
  case (2 ports as ts x xs)
  show ?case
  proof (cases "i = x")
    case True
    then show ?thesis by (auto simp: Let_def)
  next
    case False
    then have i: "i \<in> set xs" and r: "R x i" and s: "sorted_wrt R xs" using 2(3,4) by auto
    show ?thesis
      using 2(1,2) [OF refl refl _ i s 2(5)] r by (auto simp: Let_def same_entry_def split: if_splits)
  qed
qed simp

lemma share_first:
  "share ports k taken xs = (first, rest) \<Longrightarrow> list_all (\<lambda>s. 0 \<le> taken s) (map (source_key ports) xs) \<Longrightarrow>
     mset (first @ rest) = mset xs \<and> (\<forall>R. sorted_wrt R xs \<longrightarrow> sorted_wrt R first \<and> sorted_wrt R rest)"
proof (induction ports k taken xs arbitrary: first rest rule: share.induct)
  case (2 ports k taken i xs)
  obtain f r where sh: "share ports k (taken(source_key ports i := taken (source_key ports i) + 1)) xs = (f, r)" by fastforce
  have "list_all (\<lambda>s. 0 \<le> (taken(source_key ports i := taken (source_key ports i) + 1)) s) (map (source_key ports) xs)"
    using 2(3) by (auto simp: list_all_iff)
  from 2(1) [OF refl refl sh this] have ih: "mset (f @ r) = mset xs" "\<forall>R. sorted_wrt R xs \<longrightarrow> sorted_wrt R f \<and> sorted_wrt R r" by auto
  have [dest]: "x \<in> set f \<Longrightarrow> x \<in> set xs" "x \<in> set r \<Longrightarrow> x \<in> set xs" for x
    using ih(1) by (metis Un_iff set_append set_mset_mset)+
  then show ?case
    using 2(2) ih by (auto simp: sh Let_def split: if_splits)
qed simp

definition of_source :: "digest_ports \<Rightarrow> string \<Rightarrow> item list \<Rightarrow> int" where
  "of_source ports s xs = int (length (filter (\<lambda>i. source_key ports i = s) xs))"

lemma share_counts:
  "share ports k taken xs = (first, rest) \<Longrightarrow>
     of_source ports s first = max 0 (min (of_source ports s xs) (k - taken s))"
proof (induction ports k taken xs arbitrary: first rest rule: share.induct)
  case (2 ports k taken i xs)
  obtain f r where sh: "share ports k (taken(source_key ports i := taken (source_key ports i) + 1)) xs = (f, r)" by fastforce
  from 2(1) [OF refl refl sh] 2(2) show ?case
    by (auto simp: sh Let_def of_source_def split: if_splits)
qed (simp add: of_source_def)

lemma of_source_none: "of_source ports s xs = 0 \<Longrightarrow> i \<in> set xs \<Longrightarrow> source_key ports i \<noteq> s"
  by (auto simp: of_source_def filter_empty_conv)

lemma share_members:
  "share ports k taken xs = (first, rest) \<Longrightarrow> set first \<union> set rest = set xs"
proof (induction ports k taken xs arbitrary: first rest rule: share.induct)
  case (2 ports k taken i xs)
  obtain f r where sh: "share ports k (taken(source_key ports i := taken (source_key ports i) + 1)) xs = (f, r)" by fastforce
  have "set f \<union> set r = set xs" by (rule 2(1) [OF refl refl sh])
  moreover have "first = i # f \<and> rest = r \<or> first = f \<and> rest = i # r" using 2(2) by (auto simp: sh Let_def split: if_splits)
  ultimately show ?case by fastforce
qed simp

text \<open>What a source has in the first part comes before what it has in the rest.\<close>

lemma share_in_turn:
  "share ports k taken xs = (first, rest) \<Longrightarrow> sorted_wrt R xs \<Longrightarrow> i \<in> set first \<Longrightarrow> r \<in> set rest \<Longrightarrow>
     source_key ports i = source_key ports r \<Longrightarrow> R i r"
proof (induction ports k taken xs arbitrary: first rest rule: share.induct)
  case (2 ports k taken x xs)
  let ?s = "source_key ports x"
  obtain f q where sh: "share ports k (taken(?s := taken ?s + 1)) xs = (f, q)" by fastforce
  have sorted: "sorted_wrt R xs" and head: "\<And>y. y \<in> set xs \<Longrightarrow> R x y" using 2(3) by auto
  have ih: "i \<in> set f \<Longrightarrow> r \<in> set q \<Longrightarrow> R i r" by (rule 2(1) [OF refl refl sh sorted _ _ 2(6)])
  have members: "set f \<union> set q = set xs" using sh by (rule share_members)
  show ?case
  proof (cases "taken ?s + 1 \<le> k")
    case True
    then have p: "first = x # f" "rest = q" using 2(2) by (simp_all add: sh Let_def)
    have r: "r \<in> set q" using 2(5) unfolding p .
    show ?thesis
    proof (cases "i = x")
      case True
      then show ?thesis using head members r by blast
    next
      case False
      then show ?thesis using ih r 2(4) unfolding p by simp
    qed
  next
    case False
    then have p: "first = f" "rest = x # q" using 2(2) by (simp_all add: sh Let_def)
    have "of_source ports ?s f = 0" using share_counts [OF sh, of ?s] False by (auto simp: of_source_def)
    then have "source_key ports i \<noteq> ?s" using 2(4) of_source_none unfolding p by blast
    then have "r \<noteq> x" using 2(6) by auto
    then show ?thesis using ih 2(4,5) unfolding p by simp
  qed
qed simp

text \<open>
  C19.  A digest is one order without repetitions.  It is made of the fresh items: two items it holds never
  share an address or a title long enough to tell; an item that was left out shares one with an item that stayed and
  is not newer than it; and the duplicates are counted.  It has two parts, each newest first: the first gives every source
  its share, no source more than it may take and none less while it has items left, and no item left for the rest is
  newer than one its source has in the first part.
\<close>

theorem digest_is_one_order:
  "case compose ports items p now of d \<Rightarrow>
     (\<exists>first rest. dg_items d = first @ rest \<and> newest_first_items first \<and> newest_first_items rest
        \<and> list_all (\<lambda>i. i \<in> set items \<and> judge ports p now i = Fresh) (dg_items d)
        \<and> (\<exists>unique. mset unique = mset (dg_items d) \<and> sorted_wrt (\<lambda>a b. \<not> same_entry ports a b) unique)
        \<and> list_all (\<lambda>i. i \<in> set (dg_items d) \<or> list_ex (\<lambda>k. same_entry ports k i \<and> \<not> newer i k) (dg_items d)) (fresh_items ports p now items)
        \<and> length (dg_items d) + dg_duplicates d = length (filter (\<lambda>i. judge ports p now i = Fresh) items)
        \<and> (\<forall>s. of_source ports s first = max 0 (min (of_source ports s (dg_items d)) (po_per_source p)))
        \<and> list_all (\<lambda>i. list_all (\<lambda>r. \<not> (source_key ports i = source_key ports r \<and> newer r i)) rest) first)"
proof -
  let ?fresh = "fresh_items ports p now items"
  let ?unique = "drop_seen ports [] [] ?fresh"
  obtain first rest where sh: "share ports (po_per_source p) (\<lambda>_. 0) ?unique = (first, rest)" by fastforce
  have fresh: "mset ?fresh = mset (filter (\<lambda>i. judge ports p now i = Fresh) items)" "newest_first_items ?fresh"
    by (simp_all add: fresh_items_def in_order_mset in_order_sorted)
  have parts: "mset (first @ rest) = mset ?unique" "newest_first_items first" "newest_first_items rest"
    using share_first [OF sh] fresh(2) unseen_sorted unfolding newest_first_items_def by (simp_all add: list_all_iff)
  have sets: "set (first @ rest) = set ?unique" "length (first @ rest) = length ?unique"
    using parts(1) by (metis set_mset_mset, metis size_mset)
  have "set ?fresh = set (filter (\<lambda>i. judge ports p now i = Fresh) items)" "length ?fresh = length (filter (\<lambda>i. judge ports p now i = Fresh) items)"
    using fresh(1) by (metis set_mset_mset, metis size_mset)
  note fresh_sets = this
  have shown: "list_all (\<lambda>i. i \<in> set items \<and> judge ports p now i = Fresh) (first @ rest)"
    using sets(1) unseen_set [of ports "[]" "[]" ?fresh] fresh_sets(1) by (auto simp: list_all_iff)
  have kept: "list_all (\<lambda>i. i \<in> set (first @ rest) \<or> list_ex (\<lambda>k. same_entry ports k i \<and> \<not> newer i k) (first @ rest)) ?fresh"
  proof -
    have "\<not> newer x x" for x by (simp add: newer_def)
    then show ?thesis
      using seen_or_kept [of _ ?fresh "\<lambda>a b. \<not> newer b a" ports "[]" "[]"] fresh(2) sets(1)
      by (auto simp: list_all_iff list_ex_iff newest_first_items_def simp del: set_append)
  qed
  have of_unique: "of_source ports s ?unique = of_source ports s (first @ rest)" for s
    unfolding of_source_def using parts(1) by (metis mset_filter size_mset)
  have d: "compose ports items p now = \<lparr>dg_items = first @ rest, dg_offset = po_offset p, dg_limit = po_limit p,
      dg_duplicates = length ?fresh - length ?unique, dg_older = length (filter (\<lambda>i. judge ports p now i = Too_Old) items)\<rparr>"
    by (simp add: compose_def Let_def sh)
  have "length (first @ rest) + (length ?fresh - length ?unique) = length (filter (\<lambda>i. judge ports p now i = Fresh) items)"
    using sets(2) fresh_sets(2) unseen_length [of ports "[]" "[]" ?fresh] by linarith
  moreover have "of_source ports s first = max 0 (min (of_source ports s (first @ rest)) (po_per_source p))" for s
    using share_counts [OF sh, of s] of_unique by simp
  moreover have "list_all (\<lambda>i. list_all (\<lambda>r. \<not> (source_key ports i = source_key ports r \<and> newer r i)) rest) first"
    using share_in_turn [OF sh unseen_sorted [OF fresh(2) [unfolded newest_first_items_def]]] by (auto simp: list_all_iff)
  ultimately show ?thesis
    unfolding d using parts shown kept unseen_apart [of ports "[]" "[]" ?fresh]
    by (simp only: digest.simps) (intro exI [of _ first] exI [of _ rest] conjI exI [of _ ?unique] allI; (assumption | simp))
qed

lemma page_is_slice: "shown items (int (k * n)) (int n) = take n (drop (k * n) items)"
proof -
  let ?a = "k * n" and ?l = "length items"
  have "shown items (int ?a) (int n) = take (min (min ?a ?l + n) ?l - min ?a ?l) (drop (min ?a ?l) items)"
    unfolding shown_def Let_def by (simp only: of_nat_add [symmetric] of_nat_min [symmetric] nat_int nat_diff_distrib' of_nat_0_le_iff)
  also have "\<dots> = take n (drop ?a items)"
    by (cases "?a \<le> ?l"; cases "?a + n \<le> ?l") (simp_all add: min_def)
  finally show ?thesis .
qed

lemma slices_make_it: "concat (map (\<lambda>k. take n (drop (k * n) items)) [0..<m]) = take (m * n) items"
proof (induction m)
  case (Suc m)
  then show ?case using take_add [of "m * n" n items] by (simp add: add.commute)
qed simp

definition page_of :: "digest \<Rightarrow> nat \<Rightarrow> nat \<Rightarrow> digest" where
  "page_of d n k = d\<lparr>dg_offset := int (k * n), dg_limit := int n\<rparr>"

fun rows_in :: "gval option \<Rightarrow> gval list" where
  "rows_in (Some (VList rows)) = rows"
| "rows_in _ = []"

lemma page_rows:
  "digest_reply ports (page_of d n k) updated ''items'' =
     Some (VList (map (item_row ports) (take n (drop (k * n) (dg_items d)))))"
  by (simp add: digest_reply_def page_of_def Let_def page_is_slice [simplified])

lemma page_more:
  "digest_reply ports (page_of d n k) updated ''more'' = Some (VInt (int (length (drop (Suc k * n) (dg_items d)))))"
proof -
  have "int l - min (min (int a) (int l) + int n) (int l) = int (l - (n + a))" for a l by linarith
  from this [of "length (dg_items d)" "k * n"] show ?thesis by (simp add: digest_reply_def page_of_def Let_def)
qed

text \<open>
  C21.  Paging through a digest neither repeats nor skips an item.  The replies for the pages of one size, one after the other,
  carry the rows of the digest's items from its beginning, in its order; each says of how many items the digest is made
  and how many follow the page.
\<close>

theorem pages_make_the_digest:
  "concat (map (\<lambda>k. rows_in (digest_reply ports (page_of d n k) updated ''items'')) [0..<m])
     = map (item_row ports) (take (m * n) (dg_items d))
   \<and> digest_reply ports (page_of d n m) updated ''total'' = Some (VInt (int (length (dg_items d))))
   \<and> digest_reply ports (page_of d n m) updated ''more'' = Some (VInt (int (length (drop (Suc m * n) (dg_items d)))))"
proof -
  have "concat (map (\<lambda>k. rows_in (digest_reply ports (page_of d n k) updated ''items'')) [0..<m])
      = map (item_row ports) (concat (map (\<lambda>k. take n (drop (k * n) (dg_items d))) [0..<m]))"
    by (simp add: page_rows map_concat comp_def)
  moreover have "digest_reply ports (page_of d n m) updated ''total'' = Some (VInt (int (length (dg_items d))))"
    by (simp add: digest_reply_def page_of_def Let_def)
  ultimately show ?thesis by (simp only: slices_make_it page_more simp_thms)
qed

end
