(* ===== verification/Digest_Links.thy ===== *)
theory Digest_Links
  imports Digest Go_SHA256 Go_Duration Voice "HOL-Library.List_Lexorder" "HOL-Library.Char_ord"
begin

section \<open>Links\<close>

text \<open>
  \<open>link.go\<close>, \<open>link_delivery.go\<close>, \<open>web.go\<close> and \<open>Handle\<close> of \<open>dokja_domain/dokja_digest\<close>: asking the post
  readers for a link, keeping of a post what the screen may show, and the bounded media of a delivery.  The service
  and the error the context ended with are parameters; a size that crossed JSON is a \<open>float64\<close> or an \<open>int64\<close>.
\<close>

definition SocialCapability :: string where "SocialCapability = ''social.resolve.v1''"
definition maxLinkChars :: nat where "maxLinkChars = 2048"
definition maxReaders :: nat where "maxReaders = 8"
definition maxMedia :: nat where "maxMedia = 20"
definition maxAuthorRunes :: nat where "maxAuthorRunes = 200"
definition maxCaptionRunes :: nat where "maxCaptionRunes = 8000"

definition is_web_address :: "string \<Rightarrow> bool" where
  "is_web_address raw =
     (case url_parse raw of None \<Rightarrow> False | Some u \<Rightarrow> web_scheme u \<and> url_host u \<noteq> [] \<and> \<not> url_user u)"

definition link_from :: "entries \<Rightarrow> string res" where
  "link_from p =
     (let raw = trim_space (str_of (map_of p ''url''))
      in if raw = [] \<or> length raw > maxLinkChars then Inl (Errorf ''url must be a link of 1 to 2048 characters'')
         else if \<not> is_web_address raw then Inl (Errorf ''url must be an http(s) link without credentials'')
         else Inr raw)"

definition refusal :: "string \<Rightarrow> string" where
  "refusal reason = (if contains_str [''login_required'', ''unavailable'', ''unsupported''] reason then reason else ''failed'')"

subsection \<open>What is kept of a post\<close>

fun entries_of :: "gval option \<Rightarrow> entries" where
  "entries_of (Some (VMap kvs)) = kvs"
| "entries_of _ = []"

fun elements_of :: "gval option \<Rightarrow> gval list" where
  "elements_of (Some (VList vs)) = vs"
| "elements_of _ = []"

text \<open>\<open>strings.ToValidUTF8(s, "")\<close>.\<close>

definition valid_text :: "string \<Rightarrow> string" where
  "valid_text s = string_of_runes (map fst (filter (\<lambda>(r, n). \<not> (r = rune_error \<and> n = 1)) (decode_all s)))"

definition bounded :: "gval option \<Rightarrow> nat \<Rightarrow> string" where
  "bounded v limit = (let t = valid_text (trim_space (str_of v)) in if rune_count t \<le> limit then t else cut_runes limit t)"

definition short_address :: "string \<Rightarrow> bool" where
  "short_address a \<longleftrightarrow> is_web_address a \<and> length a \<le> maxLinkChars"

definition media_entry :: "gval \<Rightarrow> entries option" where
  "media_entry v =
     (let m = entries_of (Some v); kind = str_of (map_of m ''kind''); address = str_of (map_of m ''url'');
          thumbnail = str_of (map_of m ''thumbnail'')
      in if \<not> contains_str [''image'', ''video''] kind \<or> \<not> short_address address then None
         else Some ([(''kind'', VStr kind), (''url'', VStr address)] @
                (if short_address thumbnail then [(''thumbnail'', VStr thumbnail)] else [])))"

fun media_from :: "nat \<Rightarrow> gval list \<Rightarrow> entries list" where
  "media_from n [] = []"
| "media_from n (v # vs) =
     (if n = 0 then []
      else case media_entry v of None \<Rightarrow> media_from n vs | Some e \<Rightarrow> e # media_from (n - 1) vs)"

definition document_id :: "digest_ports \<Rightarrow> string \<Rightarrow> string" where
  "document_id ports address = ''post-'' @ take 16 (hex_encode (sha256 (address_key ports address)))"

definition post_from :: "digest_ports \<Rightarrow> gval option \<Rightarrow> entries option" where
  "post_from ports v =
     (let m = entries_of v; address = str_of (map_of m ''url'')
      in if \<not> short_address address then None
         else Some [(''url'', VStr address), (''document_id'', VStr (document_id ports address)),
           (''author'', VStr (bounded (map_of m ''author'') maxAuthorRunes)),
           (''caption'', VStr (bounded (map_of m ''caption'') maxCaptionRunes)),
           (''published'', VStr (if str_of (map_of m ''published'') = [] then []
              else case dp_instant ports (str_of (map_of m ''published'')) of None \<Rightarrow> [] | Some t \<Rightarrow> dp_format ports t)),
           (''media'', VList (map VMap (media_from maxMedia (elements_of (map_of m ''media'')))))])"

subsection \<open>Reading a link\<close>

datatype link_result = Refused_Link string | Shown_Post entries

definition provides_posts :: "gval \<Rightarrow> bool" where
  "provides_posts row =
     (let m = entries_of (Some row)
      in bool_of (map_of m ''enabled'') \<and> str_of (map_of m ''id'') \<noteq> []
         \<and> list_ex (\<lambda>c. c = VStr SocialCapability) (elements_of (map_of m ''provides'')))"

definition readers ::
    "'w feeds_service \<Rightarrow> 'w \<Rightarrow> string list res \<times> 'w" where
  "readers service w =
     (case service ''feeds.status'' Map.empty w of
        (Inl e, w1) \<Rightarrow> (Inl e, w1)
      | (Inr status, w1) \<Rightarrow>
          (Inr (take maxReaders (sort (map (\<lambda>row. str_of (map_of (entries_of (Some row)) ''id''))
             (filter provides_posts (elements_of (status ''providers'')))))), w1))"

definition ask_reader :: "string \<Rightarrow> string \<Rightarrow> gval \<Rightarrow> gmap" where
  "ask_reader action reader url =
     [''capability'' \<mapsto> VStr SocialCapability, ''action'' \<mapsto> VStr action, ''plugin'' \<mapsto> VStr reader,
      ''input'' \<mapsto> VMap [(''url'', url)]]"

fun try_readers ::
    "digest_ports \<Rightarrow> 'w feeds_service \<Rightarrow> ('w \<Rightarrow> gerror option) \<Rightarrow> string \<Rightarrow> nat \<Rightarrow> string list \<Rightarrow> 'w \<Rightarrow> link_result res \<times> 'w" where
  "try_readers ports service ended link failures [] w =
     (Inr (Refused_Link (if failures > 0 then ''failed'' else ''unsupported'')), w)"
| "try_readers ports service ended link failures (reader # rest) w =
     (case service ''feeds.invoke'' (ask_reader ''read'' reader (VStr link)) w of
        (Inl e, w1) \<Rightarrow>
          (case ended w1 of
             Some stopped \<Rightarrow> (Inl stopped, w1)
           | None \<Rightarrow> try_readers ports service ended link (Suc failures) rest w1)
      | (Inr reply, w1) \<Rightarrow>
          if \<not> bool_of (reply ''handled'') then try_readers ports service ended link failures rest w1
          else if str_of (reply ''refused'') \<noteq> [] then (Inr (Refused_Link (refusal (str_of (reply ''refused'')))), w1)
          else case post_from ports (reply ''post'') of
              None \<Rightarrow> try_readers ports service ended link (Suc failures) rest w1
            | Some post \<Rightarrow> (Inr (Shown_Post (post @ [(''reader'', VStr reader)])), w1))"

definition read_link ::
    "digest_ports \<Rightarrow> 'w feeds_service \<Rightarrow> ('w \<Rightarrow> gerror option) \<Rightarrow> entries \<Rightarrow> 'w \<Rightarrow> link_result res \<times> 'w" where
  "read_link ports service ended p w =
     (case link_from p of
        Inl e \<Rightarrow> (Inl e, w)
      | Inr link \<Rightarrow>
          (case readers service w of
             (Inl e, w1) \<Rightarrow> (Inl e, w1)
           | (Inr rs, w1) \<Rightarrow>
               if rs = [] then (Inr (Refused_Link ''no_reader''), w1) else try_readers ports service ended link 0 rs w1))"

subsection \<open>The media of a delivery\<close>

definition MaxDeliveryMediaBytes :: int where "MaxDeliveryMediaBytes = 100000000"
definition MaxDeliveryTotalBytes :: int where "MaxDeliveryTotalBytes = MaxDeliveryMediaBytes"
definition MaxInlineMediaBytes :: int where "MaxInlineMediaBytes = 16777216"
definition MaxDeliveryMedia :: nat where "MaxDeliveryMedia = 10"

record delivery_media =
  de_filename :: string
  de_type :: string
  de_data :: string
  de_token :: string
  de_size :: int

definition delivery_extension :: "string \<Rightarrow> string" where
  "delivery_extension mime =
     (if mime = ''image/jpeg'' then ''jpg'' else if mime = ''image/png'' then ''png''
      else if mime = ''image/webp'' then ''webp'' else if mime = ''video/mp4'' then ''mp4'' else [])"

definition fits_kind :: "string \<Rightarrow> entries \<Rightarrow> bool" where
  "fits_kind mime row \<longleftrightarrow>
     delivery_extension mime \<noteq> [] \<and> (map_of row ''kind'' = Some (VStr ''video'')) = (mime = ''video/mp4'')"

fun whole_bytes :: "gval option \<Rightarrow> int" where
  "whole_bytes (Some (VFloat m e)) =
     (let x = rat_of_parts m e in if x = of_int \<lfloor>x\<rfloor> \<and> - (2 ^ 63) \<le> \<lfloor>x\<rfloor> \<and> \<lfloor>x\<rfloor> < 2 ^ 63 then \<lfloor>x\<rfloor> else 0)"
| "whole_bytes (Some (VInt n)) = n"
| "whole_bytes _ = 0"

text \<open>\<open>base64.StdEncoding.Strict()\<close> also wants the bits that padding leaves over to be zero.\<close>

definition leftover_zero :: "string \<Rightarrow> bool" where
  "leftover_zero s =
     (let t = filter (\<lambda>c. c \<noteq> CHR 0x0A \<and> c \<noteq> CHR 0x0D) s; n = length t
      in if suffix ''=='' t then (case b64_value (t ! (n - 3)) of Some v \<Rightarrow> v mod 16 = 0 | None \<Rightarrow> True)
         else if suffix ''='' t then (case b64_value (t ! (n - 2)) of Some v \<Rightarrow> v mod 4 = 0 | None \<Rightarrow> True)
         else True)"

definition b64_strict :: "string \<Rightarrow> string option" where
  "b64_strict s = (if leftover_zero s then b64_decode s else None)"

definition token_file :: "gmap \<Rightarrow> string \<Rightarrow> entries \<Rightarrow> string + delivery_media \<times> int" where
  "token_file reply token row =
     (let mime = str_of (reply ''content_type''); sz = whole_bytes (reply ''size'')
      in if \<not> fits_kind mime row \<or> sz \<le> 0 then Inl ''failed''
         else if sz > MaxDeliveryMediaBytes then Inl ''media_too_large''
         else Inr (\<lparr>de_filename = [], de_type = mime, de_data = [], de_token = token, de_size = sz\<rparr>, sz))"

definition inline_file :: "gmap \<Rightarrow> entries \<Rightarrow> string + delivery_media \<times> int" where
  "inline_file reply row =
     (let encoded = str_of (reply ''data_b64''); mime = str_of (reply ''content_type'')
      in if str_of (reply ''refused'') = ''media_too_large'' then Inl ''media_too_large''
         else if \<not> fits_kind mime row then Inl ''failed''
         else if int (length encoded) > (MaxInlineMediaBytes + 2) div 3 * 4 then Inl ''media_too_large''
         else case b64_strict encoded of
             None \<Rightarrow> Inl ''failed''
           | Some data \<Rightarrow>
               if data = [] then Inl ''failed''
               else if int (length data) > MaxInlineMediaBytes then Inl ''media_too_large''
               else Inr (\<lparr>de_filename = [], de_type = mime, de_data = encoded, de_token = [], de_size = 0\<rparr>, int (length data)))"

definition row_url :: "entries \<Rightarrow> gval" where
  "row_url row = (case map_of row ''url'' of None \<Rightarrow> nil_value | Some v \<Rightarrow> v)"

definition inline_delivery ::
    "'w feeds_service \<Rightarrow> string \<Rightarrow> entries \<Rightarrow> 'w \<Rightarrow> (string + delivery_media \<times> int) \<times> 'w" where
  "inline_delivery service reader row w =
     (case service ''feeds.invoke'' (ask_reader ''media'' reader (row_url row)) w of
        (Inl e, w1) \<Rightarrow> (Inl ''unavailable'', w1)
      | (Inr reply, w1) \<Rightarrow> (inline_file reply row, w1))"

definition delivery_file ::
    "'w feeds_service \<Rightarrow> string \<Rightarrow> entries \<Rightarrow> 'w \<Rightarrow> (string + delivery_media \<times> int) \<times> 'w" where
  "delivery_file service reader row w =
     (case service ''feeds.invoke'' (ask_reader ''media_file'' reader (row_url row)) w of
        (Inl e, w1) \<Rightarrow> inline_delivery service reader row w1
      | (Inr reply, w1) \<Rightarrow>
          if str_of (reply ''refused'') = ''media_too_large'' then (Inl ''media_too_large'', w1)
          else if str_of (reply ''media_token'') \<noteq> [] then (token_file reply (str_of (reply ''media_token'')) row, w1)
          else inline_delivery service reader row w1)"

text \<open>The files in turn; \<open>n\<close> numbers them, \<open>so_far\<close> and \<open>inlined\<close> are the bytes so far.\<close>

fun deliver_each ::
    "'w feeds_service \<Rightarrow> string \<Rightarrow> nat \<Rightarrow> int \<Rightarrow> int \<Rightarrow> entries list \<Rightarrow> 'w \<Rightarrow> (string + delivery_media list) \<times> 'w" where
  "deliver_each service reader n so_far inlined [] w = (Inr [], w)"
| "deliver_each service reader n so_far inlined (row # rows) w =
     (case delivery_file service reader row w of
        (Inl reason, w1) \<Rightarrow> (Inl reason, w1)
      | (Inr (item, sz), w1) \<Rightarrow>
          let inlined' = (if de_token item = [] then inlined + sz else inlined)
          in if so_far + sz > MaxDeliveryTotalBytes \<or> inlined' > MaxInlineMediaBytes then (Inl ''media_too_large'', w1)
             else case deliver_each service reader (Suc n) (so_far + sz) inlined' rows w1 of
                 (Inl reason, w2) \<Rightarrow> (Inl reason, w2)
               | (Inr media, w2) \<Rightarrow>
                   (Inr (item\<lparr>de_filename := ''post-'' @ show_nat n @ ''.'' @ delivery_extension (de_type item)\<rparr> # media), w2))"

datatype delivery_result = Refused_Delivery string | Delivered entries "delivery_media list"

definition read_link_delivery ::
    "digest_ports \<Rightarrow> 'w feeds_service \<Rightarrow> ('w \<Rightarrow> gerror option) \<Rightarrow> entries \<Rightarrow> 'w \<Rightarrow> delivery_result res \<times> 'w" where
  "read_link_delivery ports service ended p w =
     (case read_link ports service ended p w of
        (Inl e, w1) \<Rightarrow> (Inl e, w1)
      | (Inr (Refused_Link reason), w1) \<Rightarrow> (Inr (Refused_Delivery reason), w1)
      | (Inr (Shown_Post post), w1) \<Rightarrow>
          let rows = map (\<lambda>v. entries_of (Some v)) (elements_of (map_of post ''media''))
          in if rows = [] then (Inr (Refused_Delivery ''unavailable''), w1)
             else if length rows > MaxDeliveryMedia then (Inr (Refused_Delivery ''media_too_large''), w1)
             else case deliver_each service (str_of (map_of post ''reader'')) 1 0 0 rows w1 of
                 (Inl reason, w2) \<Rightarrow> (Inr (Refused_Delivery reason), w2)
               | (Inr media, w2) \<Rightarrow> (Inr (Delivered post media), w2))"

record media_chunk =
  mk_data :: string
  mk_type :: string
  mk_size :: int

definition read_chunk :: "'w feeds_service \<Rightarrow> string \<Rightarrow> int \<Rightarrow> 'w \<Rightarrow> media_chunk res \<times> 'w" where
  "read_chunk service token offset w =
     (case service ''feeds.media.read'' [''token'' \<mapsto> VStr token, ''offset'' \<mapsto> VInt offset] w of
        (Inl e, w1) \<Rightarrow> (Inl e, w1)
      | (Inr reply, w1) \<Rightarrow>
          (case b64_strict (str_of (reply ''data_b64'')) of
             None \<Rightarrow> (Inl (Errorf ''media piece is not valid base64''), w1)
           | Some data \<Rightarrow>
               let mime = str_of (reply ''content_type''); sz = whole_bytes (reply ''size'')
               in if data = [] \<or> delivery_extension mime = [] \<or> sz \<le> 0 \<or> sz > MaxDeliveryMediaBytes
                  then (Inl (Errorf ''media piece is invalid''), w1)
                  else (Inr \<lparr>mk_data = data, mk_type = mime, mk_size = sz\<rparr>, w1)))"

subsection \<open>Pages and requests\<close>

definition read_web_link :: "'w feeds_service option \<Rightarrow> string \<Rightarrow> 'w \<Rightarrow> gmap res \<times> 'w" where
  "read_web_link service address w =
     (if (case url_parse address of
            None \<Rightarrow> True
          | Some u \<Rightarrow> length address > 2048 \<or> hostname u = [] \<or> url_user u \<or> \<not> web_scheme u)
      then (Inl (Errorf ''invalid web address''), w)
      else case service of
          None \<Rightarrow> (Inl (Errorf ''web reader unavailable''), w)
        | Some sv \<Rightarrow> sv ''feeds.web.read'' [''url'' \<mapsto> VStr address] w)"

definition web_failure_reason :: "gerror option \<Rightarrow> string" where
  "web_failure_reason e =
     (case e of
        None \<Rightarrow> ''unavailable''
      | Some e \<Rightarrow>
          if prefix ''web_blocked:'' (err_text e) then ''blocked''
          else if prefix ''web_timeout:'' (err_text e) then ''timeout''
          else if prefix ''web_pdf_unreadable:'' (err_text e) then ''pdf_unreadable'' else ''unavailable'')"

datatype digest_answer = Reply gmap | Link_Reply link_result | Delivery_Reply delivery_result

definition answered :: "('a \<Rightarrow> digest_answer) \<Rightarrow> 'a res \<times> 'w \<Rightarrow> digest_answer res \<times> 'w" where
  "answered f r = (case r of (Inl e, w) \<Rightarrow> (Inl e, w) | (Inr x, w) \<Rightarrow> (Inr (f x), w))"

definition digest_handle ::
    "digest_ports \<Rightarrow> 'w feeds_service option \<Rightarrow> ('w \<Rightarrow> int) \<Rightarrow> ('w \<Rightarrow> gerror option) \<Rightarrow> string \<Rightarrow> string \<Rightarrow> entries \<Rightarrow> 'w \<Rightarrow>
     digest_answer res \<times> 'w" where
  "digest_handle ports service now ended action event_type p w =
     (case service of
        None \<Rightarrow> (Inl (Errorf ''digest service is not configured''), w)
      | Some sv \<Rightarrow>
          if action = ''inspect-digest'' then answered Reply (sv ''feeds.status'' Map.empty w)
          else if action = ''read-digest'' then answered Reply (read_digest ports sv now p w)
          else if action = ''read-web-link'' then answered Reply (read_web_link service (str_of (map_of p ''url'')) w)
          else if action = ''read-link-delivery'' then answered Delivery_Reply (read_link_delivery ports sv ended p w)
          else if action = ''read-link'' then answered Link_Reply (read_link ports sv ended p w)
          else (Inl (Errorf (''unsupported digest action '' @ go_quote action @ '' for event type '' @ go_quote event_type)), w))"

subsection \<open>What is shown and delivered\<close>

definition media_row_ok :: "entries \<Rightarrow> bool" where
  "media_row_ok m \<longleftrightarrow>
     contains_str [''image'', ''video''] (str_of (map_of m ''kind'')) \<and> short_address (str_of (map_of m ''url''))
     \<and> (case map_of m ''thumbnail'' of None \<Rightarrow> True | Some v \<Rightarrow> short_address (str_of (Some v)))"

definition post_ok :: "entries \<Rightarrow> bool" where
  "post_ok m \<longleftrightarrow>
     short_address (str_of (map_of m ''url'')) \<and> rune_count (str_of (map_of m ''author'')) \<le> maxAuthorRunes
     \<and> rune_count (str_of (map_of m ''caption'')) \<le> maxCaptionRunes
     \<and> length (elements_of (map_of m ''media'')) \<le> maxMedia
     \<and> list_all (\<lambda>v. media_row_ok (entries_of (Some v))) (elements_of (map_of m ''media''))"

lemma bounded_runes: "rune_count (bounded v limit) \<le> limit"
  by (simp add: bounded_def Let_def rune_count_cut)

lemma media_entry_ok: "media_entry v = Some m \<Longrightarrow> media_row_ok m"
  by (auto simp: media_entry_def media_row_ok_def Let_def split: if_splits)

lemma media_ok: "length (media_from n vs) \<le> n \<and> list_all media_row_ok (media_from n vs)"
proof (induction n vs rule: media_from.induct)
  case (2 n v vs)
  then show ?case by (cases "media_entry v") (auto dest: media_entry_ok)
qed simp

lemma post_kept: "post_from ports v = Some post \<Longrightarrow> post_ok (post @ [(''reader'', x)])"
  using media_ok [of maxMedia]
  by (auto simp: post_from_def post_ok_def Let_def bounded_runes list_all_iff split: if_splits)

definition link_shown_ok :: "link_result res \<Rightarrow> bool" where
  "link_shown_ok r \<longleftrightarrow> (case r of Inr (Shown_Post post) \<Rightarrow> post_ok post | _ \<Rightarrow> True)"

lemma tried_ok: "link_shown_ok (fst (try_readers ports service ended link n rs w))"
proof (induction ports service ended link n rs w rule: try_readers.induct)
  case (2 ports service ended link n reader rest w)
  obtain answer w1 where a: "service ''feeds.invoke'' (ask_reader ''read'' reader (VStr link)) w = (answer, w1)" by fastforce
  show ?case
  proof (cases answer)
    case (Inl e)
    with 2(1) [OF a [symmetric] Inl] a show ?thesis by (simp add: link_shown_ok_def split: option.split)
  next
    case (Inr reply)
    show ?thesis
    proof (cases "post_from ports (reply ''post'')")
      case None
      with 2(2,3) [OF a [symmetric] Inr] a Inr show ?thesis by (simp add: link_shown_ok_def)
    next
      case (Some post)
      with 2(2) [OF a [symmetric] Inr] a Inr post_kept [OF Some] show ?thesis
        by (simp add: link_shown_ok_def)
    qed
  qed
qed (simp add: link_shown_ok_def)

lemma no_link_shown: "link_shown_ok (Inl e)" "link_shown_ok (Inr (Refused_Link reason))"
  by (simp_all add: link_shown_ok_def)

lemma link_ok: "link_shown_ok (fst (read_link ports service ended p w))"
  by (simp add: read_link_def tried_ok no_link_shown split: sum.split prod.split)

definition media_size :: "delivery_media \<Rightarrow> int" where
  "media_size m =
     (if de_token m = [] then (case b64_strict (de_data m) of None \<Rightarrow> 0 | Some data \<Rightarrow> int (length data)) else de_size m)"

definition inline_size :: "delivery_media \<Rightarrow> int" where
  "inline_size m = (if de_token m = [] then media_size m else 0)"

definition media_fit :: "delivery_media \<Rightarrow> bool" where
  "media_fit m \<longleftrightarrow> delivery_extension (de_type m) \<noteq> [] \<and> 0 < media_size m \<and> (de_token m = [] \<or> de_data m = [])"

lemma inline_fit: "inline_file reply row = Inr (m, sz) \<Longrightarrow> media_fit m \<and> sz = media_size m"
  by (auto simp: inline_file_def media_fit_def media_size_def fits_kind_def Let_def split: if_splits option.splits)

lemma token_fit: "token_file reply token row = Inr (m, sz) \<Longrightarrow> token \<noteq> [] \<Longrightarrow> media_fit m \<and> sz = media_size m"
  by (auto simp: token_file_def media_fit_def media_size_def fits_kind_def Let_def split: if_splits)

lemma file_fit: "delivery_file service reader row w = (Inr (m, sz), w1) \<Longrightarrow> media_fit m \<and> sz = media_size m"
  by (auto simp: delivery_file_def inline_delivery_def split: sum.splits prod.splits if_splits dest: inline_fit token_fit)

lemma delivered_fit:
  "deliver_each service reader n so_far inlined rows w = (Inr media, w1) \<Longrightarrow> so_far \<le> MaxDeliveryTotalBytes \<Longrightarrow>
     inlined \<le> MaxInlineMediaBytes \<Longrightarrow>
     length media = length rows \<and> list_all media_fit media \<and> so_far + sum_list (map media_size media) \<le> MaxDeliveryTotalBytes
     \<and> inlined + sum_list (map inline_size media) \<le> MaxInlineMediaBytes"
proof (induction service reader n so_far inlined rows w arbitrary: media w1 rule: deliver_each.induct)
  case (2 service reader n so_far inlined row rows w)
  obtain m sz w2 where f: "delivery_file service reader row w = (Inr (m, sz), w2)"
    using 2(2) by (auto split: sum.splits prod.splits)
  note fit = file_fit [OF f]
  let ?inl = "if de_token m = [] then inlined + sz else inlined"
  have small: "so_far + sz \<le> MaxDeliveryTotalBytes" "?inl \<le> MaxInlineMediaBytes"
    using 2(2) f by (auto simp: Let_def split: if_splits sum.splits prod.splits)
  obtain rest w3 where r: "deliver_each service reader (Suc n) (so_far + sz) ?inl rows w2 = (Inr rest, w3)"
    using 2(2) f small by (auto simp: Let_def split: sum.splits prod.splits)
  have "media = m\<lparr>de_filename := ''post-'' @ show_nat n @ ''.'' @ delivery_extension (de_type m)\<rparr> # rest"
    using 2(2) f small r by (auto simp: Let_def)
  moreover have "media_size (m\<lparr>de_filename := x\<rparr>) = media_size m" "inline_size (m\<lparr>de_filename := x\<rparr>) = inline_size m"
    "media_fit (m\<lparr>de_filename := x\<rparr>) = media_fit m" for x
    by (simp_all add: media_size_def inline_size_def media_fit_def)
  moreover note 2(1) [OF f [symmetric] refl refl refl _ r small]
  moreover have "?inl = inlined + inline_size m" using fit by (simp add: inline_size_def)
  ultimately show ?case using fit small by auto
qed simp

text \<open>
  C20.  A delivery is bounded whatever a reader answers: its post shows only http(s) addresses and bounded texts, it has
  one file for each of the 1 to 10 media of the post, each of an allowed type and not empty, together at most 100 MB
  and at most 16 MB of them inside the reply.
\<close>

theorem deliveries_are_bounded:
  "case fst (read_link_delivery ports service ended p w) of
     Inr (Delivered post media) \<Rightarrow>
       post_ok post \<and> list_all media_fit media \<and> length media = length (elements_of (map_of post ''media''))
       \<and> 1 \<le> length media \<and> length media \<le> MaxDeliveryMedia
       \<and> sum_list (map media_size media) \<le> MaxDeliveryTotalBytes \<and> sum_list (map inline_size media) \<le> MaxInlineMediaBytes
   | _ \<Rightarrow> True"
proof -
  obtain answer w1 where l: "read_link ports service ended p w = (answer, w1)" by fastforce
  show ?thesis
  proof (cases "\<exists>post. answer = Inr (Shown_Post post)")
    case True
    then obtain post where a: "answer = Inr (Shown_Post post)" by blast
    have "post_ok post" using link_ok [of ports service ended p w] l a by (simp add: link_shown_ok_def)
    moreover have "MaxDeliveryTotalBytes \<ge> 0" "MaxInlineMediaBytes \<ge> 0"
      by (simp_all add: MaxDeliveryTotalBytes_def MaxDeliveryMediaBytes_def MaxInlineMediaBytes_def)
    ultimately show ?thesis
      by (auto simp: read_link_delivery_def l a Let_def Suc_le_eq split: prod.split sum.split dest!: delivered_fit)
  next
    case False
    then show ?thesis by (auto simp: read_link_delivery_def l split: sum.split link_result.split)
  qed
qed

end
