(* ===== verification/Go_JSON.thy ===== *)
theory Go_JSON
  imports Go_Utf8 Go_SHA256
begin

section \<open>Strings of JSON\<close>

text \<open>
  What \<open>encoding/json\<close> writes for a string, with the escapes of HTML that \<open>json.Marshal\<close> makes, and that such
  a text can be read back: one rune at a time, whatever follows.
\<close>

definition hex4 :: "nat \<Rightarrow> string" where
  "hex4 r = map (\<lambda>i. hex_digit (int (r div 16 ^ i mod 16))) [3, 2, 1, 0]"

definition json_rune :: "nat \<Rightarrow> string" where
  "json_rune r =
     (if r = 0x22 \<or> r = 0x5C then [CHR 0x5C, char_of r]
      else if r = 0x08 then [CHR 0x5C, CHR ''b'']
      else if r = 0x0C then [CHR 0x5C, CHR ''f'']
      else if r = 0x0A then [CHR 0x5C, CHR ''n'']
      else if r = 0x0D then [CHR 0x5C, CHR ''r'']
      else if r = 0x09 then [CHR 0x5C, CHR ''t'']
      else if r < 0x20 \<or> r = 0x3C \<or> r = 0x3E \<or> r = 0x26 \<or> r = 0x2028 \<or> r = 0x2029
      then [CHR 0x5C, CHR ''u''] @ hex4 r
      else encode_rune r)"

definition json_text :: "string \<Rightarrow> string" where
  "json_text s =
     concat (map (\<lambda>(r, n). if r = rune_error \<and> n = 1 then [CHR 0x5C] @ ''ufffd'' else json_rune r) (decode_all s))"

definition json_string :: "string \<Rightarrow> string" where
  "json_string s = [CHR 0x22] @ json_text s @ [CHR 0x22]"

subsection \<open>Reading it back\<close>

definition hex_value :: "char \<Rightarrow> nat" where
  "hex_value c = (if byte c < 58 then byte c - 48 else byte c - 87)"

definition hex4_value :: "string \<Rightarrow> nat" where
  "hex4_value s = foldl (\<lambda>n c. n * 16 + hex_value c) 0 s"

definition unescape :: "char \<Rightarrow> nat" where
  "unescape d =
     (if d = CHR ''b'' then 0x08 else if d = CHR ''f'' then 0x0C else if d = CHR ''n'' then 0x0A
      else if d = CHR ''r'' then 0x0D else if d = CHR ''t'' then 0x09 else byte d)"

definition read_rune :: "string \<Rightarrow> nat \<times> string" where
  "read_rune s =
     (if s \<noteq> [] \<and> hd s = CHR 0x5C
      then (case tl s of
              [] \<Rightarrow> (0, [])
            | d # rest \<Rightarrow> if d = CHR ''u'' then (hex4_value (take 4 rest), drop 4 rest) else (unescape d, rest))
      else (fst (decode_rune s), drop (snd (decode_rune s)) s))"

lemma below_16: "n < 16 \<Longrightarrow> n \<in> {0,1,2,3,4,5,6,7,8,9,10,11,12,13,14,15::nat}"
  by (simp only: insert_iff empty_iff) arith

lemma hex_value_digit: "n < 16 \<Longrightarrow> hex_value (hex_digit (int n)) = n"
proof -
  assume "n < 16"
  from below_16 [OF this] show ?thesis
    by (elim insertE emptyE) (simp_all add: hex_value_def hex_digit_def char_of_def bit_0 bit_Suc)
qed

lemma digit_join: "a mod m = r \<Longrightarrow> a div m = q \<Longrightarrow> q * m + r = (a::nat)"
  by auto

lemma hex4_read: "r < 0x10000 \<Longrightarrow> hex4_value (hex4 r) = r"
proof -
  assume r: "r < 0x10000"
  have one: "r div 4096 mod 16 = r div 4096" using r by auto
  have two: "r div 4096 * 16 + r div 256 mod 16 = r div 256" by (rule digit_join) (simp_all add: div_mult2_eq [symmetric])
  have three: "r div 256 * 16 + r div 16 mod 16 = r div 16" by (rule digit_join) (simp_all add: div_mult2_eq [symmetric])
  have four: "r div 16 * 16 + r mod 16 = r" by (rule digit_join) simp_all
  have v: "hex_value (hex_digit (int (k mod 16))) = k mod 16" for k by (rule hex_value_digit) simp
  have "hex4_value (hex4 r) = ((r div 4096 mod 16 * 16 + r div 256 mod 16) * 16 + r div 16 mod 16) * 16 + r mod 16"
    unfolding hex4_value_def hex4_def by (simp only: list.map foldl_Cons foldl_Nil v) simp
  then show ?thesis by (simp only: one two three four)
qed

lemma length_hex4 [simp]: "length (hex4 r) = 4"
  by (simp add: hex4_def)

lemma encode_rune_head: "r \<noteq> n \<Longrightarrow> n < 0x80 \<Longrightarrow> hd (encode_rune r) \<noteq> char_of n"
proof
  assume r: "r \<noteq> n" "n < 0x80" and "hd (encode_rune r) = char_of n"
  then have "byte (hd (encode_rune r)) = n" by (simp add: byte_char_of)
  moreover have "byte (hd (encode_rune r)) = r \<or> byte (hd (encode_rune r)) \<ge> 0x80"
    by (auto simp: encode_rune_def byte_char_of)
  ultimately show False using r by auto
qed

lemma read_json_rune:
  assumes "scalar r"
  shows "read_rune (json_rune r @ s) = (r, s)"
proof -
  have hex: "read_rune ([CHR 0x5C, CHR ''u''] @ hex4 r @ s) = (r, s)" if "r < 0x10000"
    using hex4_read [OF that] by (simp add: read_rune_def)
  have plain: "read_rune (encode_rune r @ s) = (r, s)" if "r \<noteq> 0x5C"
  proof -
    have "hd (encode_rune r @ s) \<noteq> CHR 0x5C"
      using encode_rune_head [OF that] by (simp add: char_of_def bit_0 bit_Suc)
    then show ?thesis using decode_encode [OF assms, of s] by (simp add: read_rune_def)
  qed
  show ?thesis
  proof (cases "r \<in> {0x22, 0x5C, 0x08, 0x0C, 0x0A, 0x0D, 0x09}")
    case True
    then show ?thesis
      by (elim insertE emptyE) (simp_all add: json_rune_def read_rune_def unescape_def char_of_def bit_0 bit_Suc)
  next
    case False
    define escaped where "escaped \<longleftrightarrow> r < 0x20 \<or> r = 0x3C \<or> r = 0x3E \<or> r = 0x26 \<or> r = 0x2028 \<or> r = 0x2029"
    have "json_rune r = (if escaped then [CHR 0x5C, CHR ''u''] @ hex4 r else encode_rune r)"
      using False unfolding json_rune_def escaped_def by (simp only: insert_iff empty_iff) simp
    moreover have "escaped \<Longrightarrow> r < 0x10000" unfolding escaped_def by linarith
    moreover have "r \<noteq> 0x5C" using False by simp
    ultimately show ?thesis using hex plain by (cases escaped) simp_all
  qed
qed

lemma json_rune_head: "hd (json_rune r @ s) \<noteq> CHR 0x22 \<and> json_rune r \<noteq> []"
proof (cases "r = 0x22")
  case True
  then show ?thesis by (simp add: json_rune_def)
next
  case False
  have "hd (encode_rune r) \<noteq> CHR 0x22"
    using encode_rune_head [OF False] by (simp add: char_of_def bit_0 bit_Suc)
  then show ?thesis by (auto simp: json_rune_def)
qed

text \<open>A text of valid runes followed by a quote can only be read in one way.\<close>

definition json_runes :: "nat list \<Rightarrow> string" where
  "json_runes rs = concat (map json_rune rs)"

lemma json_text_valid: "utf8_valid s \<Longrightarrow> json_text s = json_runes (runes s)"
  unfolding json_text_def json_runes_def runes_def utf8_valid_def map_map
  by (rule arg_cong [where f = concat]) (auto simp: list_all_iff)

lemma json_runes_Cons: "json_runes (r # rs) = json_rune r @ json_runes rs"
  by (simp add: json_runes_def)

lemma json_rune_no_quote: "json_rune r @ s \<noteq> CHR 0x22 # t"
proof
  assume "json_rune r @ s = CHR 0x22 # t"
  then have "hd (json_rune r @ s) = CHR 0x22" by simp
  then show False using json_rune_head by blast
qed

lemma json_runes_unique:
  "json_runes rs @ CHR 0x22 # s = json_runes rs' @ CHR 0x22 # s' \<Longrightarrow>
     list_all scalar rs \<Longrightarrow> list_all scalar rs' \<Longrightarrow> rs = rs' \<and> s = s'"
proof (induction rs arbitrary: rs')
  case Nil
  have "rs' = []"
  proof (cases rs')
    case (Cons r rest)
    have "json_rune r @ (json_runes rest @ CHR 0x22 # s') = CHR 0x22 # s"
      using Nil(1) by (simp add: Cons json_runes_Cons json_runes_def [of "[]"])
    then show ?thesis using json_rune_no_quote by blast
  qed
  then show ?case using Nil(1) by (simp add: json_runes_def)
next
  case (Cons r rs)
  show ?case
  proof (cases rs')
    case Nil
    have "json_rune r @ (json_runes rs @ CHR 0x22 # s) = CHR 0x22 # s'"
      using Cons.prems(1) by (simp add: Nil json_runes_Cons json_runes_def [of "[]"])
    then show ?thesis using json_rune_no_quote by blast
  next
    case (Cons r' rest)
    have eq: "json_rune r @ (json_runes rs @ CHR 0x22 # s) = json_rune r' @ (json_runes rest @ CHR 0x22 # s')"
      using Cons.prems(1) by (simp add: Cons json_runes_Cons)
    have "scalar r" "scalar r'" using Cons.prems(2,3) by (simp_all add: Cons)
    then have "(r, json_runes rs @ CHR 0x22 # s) = (r', json_runes rest @ CHR 0x22 # s')"
      using read_json_rune [of r "json_runes rs @ CHR 0x22 # s"] read_json_rune [of r' "json_runes rest @ CHR 0x22 # s'"] eq
      by metis
    then show ?thesis using Cons.IH [of rest] Cons.prems(2,3) by (simp add: Cons)
  qed
qed

theorem json_string_unique:
  assumes "json_string a @ s = json_string b @ s'" and "utf8_valid a" and "utf8_valid b"
  shows "a = b \<and> s = s'"
proof -
  have "json_runes (runes a) @ CHR 0x22 # s = json_runes (runes b) @ CHR 0x22 # s'"
    using assms(1) by (simp add: json_string_def json_text_valid assms(2,3))
  moreover have "list_all scalar (runes a)" "list_all scalar (runes b)" by (auto simp: list_all_iff runes_scalar)
  ultimately have "runes a = runes b" "s = s'" using json_runes_unique by blast+
  then show ?thesis using valid_round_trip assms(2,3) by metis
qed

text \<open>It is one line, whatever the text.\<close>

lemma encode_rune_bytes: "c \<in> set (encode_rune r) \<Longrightarrow> byte c = r \<or> 0x80 \<le> byte c"
  by (auto simp: encode_rune_def byte_char_of split: if_splits)

lemma hex_digit_line: "hex_digit (int (n mod 16)) \<noteq> CHR 0x0A"
proof
  assume "hex_digit (int (n mod 16)) = CHR 0x0A"
  moreover have "n mod 16 \<in> {0,1,2,3,4,5,6,7,8,9,10,11,12,13,14,15}" by (rule below_16) simp
  ultimately show False by (elim insertE emptyE) (simp_all add: hex_digit_def char_of_def bit_0 bit_Suc)
qed

lemma hex4_line: "CHR 0x0A \<notin> set (hex4 r)"
proof
  assume "CHR 0x0A \<in> set (hex4 r)"
  then obtain i where "CHR 0x0A = hex_digit (int (r div 16 ^ i mod 16))" unfolding hex4_def set_map by blast
  then show False using hex_digit_line by metis
qed

lemma encode_rune_line: "r \<noteq> 0x0A \<Longrightarrow> CHR 0x0A \<notin> set (encode_rune r)"
  using encode_rune_bytes [of "CHR 0x0A" r] by auto

lemma json_rune_line: "CHR 0x0A \<notin> set (json_rune r)"
proof (cases "r = 0x22 \<or> r = 0x5C")
  case True
  then show ?thesis by (elim disjE) (simp_all add: json_rune_def char_of_def bit_0 bit_Suc)
next
  case False
  then show ?thesis unfolding json_rune_def using encode_rune_line [of r] hex4_line [of r] by (simp split: if_split)
qed

lemma json_string_line: "CHR 0x0A \<notin> set (json_string s)"
  using json_rune_line by (auto simp: json_string_def json_text_def)

end
