(* ===== verification/Voice_Policy.thy ===== *)
theory Voice_Policy
  imports Chat_Context Go_URL "HOL-Library.AList"
begin

section \<open>Who is answered in a voice room\<close>

text \<open>
  \<open>voice_policy.go\<close> of \<open>dokja_domain/dokja_chat\<close>: when the assistant takes the floor in a room where several
  people talk, how long an exchange stays open, and what a spoken reply and the history of a room may hold.  A map is a
  list of its entries, in the order in which a range visits them; the clock is an argument and the Unicode tables are a
  parameter.  Every method holds the mutex, so an operation is a function of the rooms.
\<close>

record voice_tables =
  vt_lower :: "nat \<Rightarrow> nat"
  vt_letter :: "nat \<Rightarrow> bool"
  vt_number :: "nat \<Rightarrow> bool"

definition second :: int where "second = 10 ^ 9"
definition VoiceFollowupWindow :: int where "VoiceFollowupWindow = 30 * second"
definition VoiceHandoffWindow :: int where "VoiceHandoffWindow = 12 * second"
definition VoiceDefaultMaxSentences :: nat where "VoiceDefaultMaxSentences = 3"
definition VoiceDefaultMaxWords :: nat where "VoiceDefaultMaxWords = 90"

record voice_decision =
  vd_reason :: string
  vd_respond :: bool
  vd_requester :: string
  vd_detailed :: bool

record voice_room =
  vr_listener :: string
  vr_starter :: string
  vr_engaged :: "(string \<times> int) list"
  vr_handoff :: int
  vr_seen :: int

type_synonym voice_rooms = "(string \<times> voice_room) list"

subsection \<open>What was said\<close>

definition voice_accents :: "(string \<times> string) list" where
  "voice_accents = concat (map (\<lambda>(rs, letter). map (\<lambda>r. (encode_rune r, letter)) rs)
     [([0xE1, 0xE0, 0xE2, 0xE3, 0xE4], ''a''), ([0xE9, 0xEA, 0xE8], ''e''), ([0xED, 0xEC], ''i''),
      ([0xF3, 0xF4, 0xF5, 0xF6], ''o''), ([0xFA, 0xFC], ''u''), ([0xE7], ''c'')])"

definition folded_voice :: "voice_tables \<Rightarrow> string \<Rightarrow> string" where
  "folded_voice vt s = replace_all voice_accents (string_of_runes (map (vt_lower vt) (runes s)))"

definition word_rune :: "voice_tables \<Rightarrow> nat \<Rightarrow> bool" where
  "word_rune vt r \<longleftrightarrow> vt_letter vt r \<or> vt_number vt r"

definition normalized_voice :: "voice_tables \<Rightarrow> string \<Rightarrow> string" where
  "normalized_voice vt s =
     join_with '' '' (map string_of_runes (fields_func (\<lambda>r. \<not> word_rune vt r) [] (runes (folded_voice vt s))))"

text \<open>
  The expression \<open>(^|[^\pL\pN])(ningo|dokja)([^\pL\pN]|$)\<close>: the runes a match at this position takes; \<open>start\<close> is
  the beginning of the text.
\<close>

definition name_then :: "voice_tables \<Rightarrow> nat list \<Rightarrow> nat option" where
  "name_then vt rs =
     (if prefix (runes ''ningo'') rs \<or> prefix (runes ''dokja'') rs
      then (case drop 5 rs of [] \<Rightarrow> Some 5 | r # _ \<Rightarrow> if word_rune vt r then None else Some 6)
      else None)"

definition match_here :: "voice_tables \<Rightarrow> bool \<Rightarrow> nat list \<Rightarrow> nat option" where
  "match_here vt start rs =
     (if start \<and> name_then vt rs \<noteq> None then name_then vt rs
      else case rs of [] \<Rightarrow> None | r # rest \<Rightarrow> if word_rune vt r then None else map_option Suc (name_then vt rest))"

fun has_name :: "voice_tables \<Rightarrow> bool \<Rightarrow> nat list \<Rightarrow> bool" where
  "has_name vt start [] = (match_here vt start [] \<noteq> None)"
| "has_name vt start (r # rs) = (match_here vt start (r # rs) \<noteq> None \<or> has_name vt False rs)"

lemma match_here_pos: "match_here vt start rs = Some n \<Longrightarrow> 0 < n \<and> rs \<noteq> []"
  by (auto simp: match_here_def name_then_def runes_def decode_all.simps decode_rune.simps split: if_splits list.splits)

function replace_names :: "voice_tables \<Rightarrow> bool \<Rightarrow> nat list \<Rightarrow> nat list" where
  "replace_names vt start rs =
     (case match_here vt start rs of
        Some n \<Rightarrow> 32 # replace_names vt False (drop n rs)
      | None \<Rightarrow> (case rs of [] \<Rightarrow> [] | r # rest \<Rightarrow> r # replace_names vt False rest))"
  by pat_completeness auto
termination
  by (relation "measure (\<lambda>(vt, start, rs). length rs)") (auto dest: match_here_pos)

declare replace_names.simps [simp del]

definition voice_addressed :: "voice_tables \<Rightarrow> string \<Rightarrow> bool" where
  "voice_addressed vt s = has_name vt True (runes (folded_voice vt s))"

definition backchannels :: "string list" where
  "backchannels =
     [[], ''ok'', ''okay'', ''aham'', ''uhum'', ''hum'', ''hmm'', ''sim'', ''certo'', ''beleza'', ''entendi'', ''ta'',
      ''t'' @ encode_rune 0xE1 @ '' bom'', ''ta bom'', ''legal'', ''valeu'', ''obrigado'', ''obrigada'', ''thanks'', ''thank you'',
      ''yes'', ''yeah'', ''right'', ''sure'', ''got it'', ''kkk'', ''kkkk'', ''haha'']"

definition voice_backchannel :: "voice_tables \<Rightarrow> string \<Rightarrow> bool" where
  "voice_backchannel vt s =
     (if normalized_voice vt s = ''ningo'' \<or> normalized_voice vt s = ''dokja'' then False
      else contains_str backchannels (normalized_voice vt (string_of_runes (replace_names vt True (runes (folded_voice vt s))))))"

definition followup_prefixes :: "string list" where
  "followup_prefixes =
     [''e '', ''mas '', ''entao '', ''por que '', ''porque '', ''como '', ''qual '', ''quais '', ''isso '', ''essa '', ''esse '', ''o que '',
      ''but '', ''and '', ''why '', ''how '', ''what '', ''that '']"

definition voice_followup :: "voice_tables \<Rightarrow> string \<Rightarrow> bool" where
  "voice_followup vt s \<longleftrightarrow>
     CHR 0x3F \<in> set s \<or> list_ex (\<lambda>p. prefix p (normalized_voice vt s)) followup_prefixes"

definition detail_phrases :: "string list" where
  "detail_phrases =
     [''explica melhor'', ''explique melhor'', ''mais detalhes'', ''em detalhes'', ''passo a passo'', ''explicacao completa'', ''explain more'',
      ''in detail'', ''step by step'', ''go deeper'']"

definition voice_detailed :: "voice_tables \<Rightarrow> string \<Rightarrow> bool" where
  "voice_detailed vt s \<longleftrightarrow> list_ex (\<lambda>p. index_of p (normalized_voice vt s) \<noteq> None) detail_phrases"

subsection \<open>Rooms\<close>

definition empty_room :: voice_room where
  "empty_room = \<lparr>vr_listener = [], vr_starter = [], vr_engaged = [], vr_handoff = 0, vr_seen = 0\<rparr>"

fun oldest_room :: "string \<Rightarrow> int \<Rightarrow> voice_rooms \<Rightarrow> string" where
  "oldest_room oldest age [] = oldest"
| "oldest_room oldest age ((k, r) # rooms) =
     (if oldest = [] \<or> vr_seen r < age then oldest_room k (vr_seen r) rooms else oldest_room oldest age rooms)"

definition room_locked :: "string \<Rightarrow> voice_rooms \<Rightarrow> voice_room \<times> voice_rooms" where
  "room_locked scope rooms =
     (case map_of rooms scope of
        Some r \<Rightarrow> (r, rooms)
      | None \<Rightarrow>
          (empty_room, AList.update scope empty_room
             (if length rooms \<ge> 256 then AList.delete (oldest_room [] 0 rooms) rooms else rooms)))"

definition engaged_until :: "voice_room \<Rightarrow> string \<Rightarrow> int" where
  "engaged_until room user = (case map_of (vr_engaged room) user of None \<Rightarrow> 0 | Some t \<Rightarrow> t)"

definition open_listener :: "string \<Rightarrow> string \<Rightarrow> string \<Rightarrow> int \<Rightarrow> voice_rooms \<Rightarrow> bool \<times> voice_rooms" where
  "open_listener scope listener starter now rooms =
     (if listener = [] \<or> starter = [] then (False, rooms)
      else case room_locked scope rooms of
          (room, rooms1) \<Rightarrow>
            if vr_listener room = listener then (False, rooms1)
            else (True, AList.update scope
                   (room\<lparr>vr_listener := listener, vr_starter := starter, vr_seen := now,
                      vr_engaged := [(starter, now + VoiceFollowupWindow)], vr_handoff := now + VoiceHandoffWindow\<rparr>) rooms1))"

definition taken_part :: "voice_tables \<Rightarrow> voice_room \<Rightarrow> int \<Rightarrow> string \<Rightarrow> string \<Rightarrow> bool" where
  "taken_part vt room now user said \<longleftrightarrow>
     (vr_listener room \<noteq> [] \<and> vr_starter room = user) \<or> voice_addressed vt said \<or> now < engaged_until room user
     \<or> (now < vr_handoff room \<and> voice_followup vt said)"

definition answer_turn :: "voice_tables \<Rightarrow> int \<Rightarrow> voice_turn \<Rightarrow> voice_room \<times> voice_decision \<Rightarrow> voice_room \<times> voice_decision" where
  "answer_turn vt now t s =
     (case s of (room, d) \<Rightarrow>
        let said = trim_space (vo_text t); user = vo_user t
        in if voice_backchannel vt said then (room, if vd_respond d then d else d\<lparr>vd_reason := ''backchannel''\<rparr>)
           else if \<not> taken_part vt room now user said then (room, d)
           else (room\<lparr>vr_engaged := (if length (vr_engaged room) < 64 \<or> engaged_until room user \<noteq> 0
                        then AList.update user (now + VoiceFollowupWindow) (vr_engaged room) else vr_engaged room),
                      vr_handoff := now + VoiceHandoffWindow\<rparr>,
                 \<lparr>vd_reason = (if voice_addressed vt said then ''addressed'' else ''followup''), vd_respond = True,
                  vd_requester = user, vd_detailed = voice_detailed vt said\<rparr>))"

definition no_answer :: voice_decision where
  "no_answer = \<lparr>vd_reason = ''passive'', vd_respond = False, vd_requester = [], vd_detailed = False\<rparr>"

definition refreshed :: "voice_room \<Rightarrow> int \<Rightarrow> voice_room" where
  "refreshed room now = room\<lparr>vr_seen := now, vr_engaged := filter (\<lambda>(user, until). now < until) (vr_engaged room)\<rparr>"

definition decide_voice :: "voice_tables \<Rightarrow> string \<Rightarrow> voice_turn list \<Rightarrow> int \<Rightarrow> voice_rooms \<Rightarrow> voice_decision \<times> voice_rooms" where
  "decide_voice vt scope turns now rooms =
     (case room_locked scope rooms of
        (room, rooms1) \<Rightarrow>
          (case fold (answer_turn vt now) turns (refreshed room now, no_answer) of
             (room', d) \<Rightarrow> (d, AList.update scope room' rooms1)))"

definition complete_reply :: "string \<Rightarrow> voice_decision \<Rightarrow> string \<Rightarrow> int \<Rightarrow> voice_rooms \<Rightarrow> voice_rooms" where
  "complete_reply scope d reply now rooms =
     (if vd_requester d = [] \<or> trim_space reply = [] then rooms
      else case map_of rooms scope of
          None \<Rightarrow> rooms
        | Some room \<Rightarrow>
            (let duration = min (int (length (go_fields reply)) * (400 * 10 ^ 6)) (120 * second)
             in AList.update scope
                  (room\<lparr>vr_engaged := AList.update (vd_requester d) (now + (duration + VoiceFollowupWindow)) (vr_engaged room),
                     vr_handoff := now + (duration + VoiceHandoffWindow)\<rparr>) rooms))"

subsection \<open>Spoken replies and history\<close>

definition sentence_end :: "nat \<Rightarrow> nat list \<Rightarrow> bool" where
  "sentence_end r rest \<longleftrightarrow> r \<in> {0x2E, 0x21, 0x3F} \<and> (case rest of [] \<Rightarrow> True | q # _ \<Rightarrow> q \<in> set space_codes)"

text \<open>The runes up to the \<open>n\<close>th end of a sentence, when there are so many.\<close>

fun first_sentences :: "nat \<Rightarrow> nat list \<Rightarrow> nat list option" where
  "first_sentences n [] = None"
| "first_sentences n (r # rs) =
     (if sentence_end r rs \<and> n \<le> 1 then Some [r]
      else map_option ((#) r) (first_sentences (if sentence_end r rs then n - 1 else n) rs))"

definition concise_spoken_reply :: "string \<Rightarrow> bool \<Rightarrow> string" where
  "concise_spoken_reply reply detailed =
     (let spoken = spoken_reply reply
      in if detailed \<or> spoken = [] then spoken
         else let short = (case first_sentences VoiceDefaultMaxSentences (runes (trim_space spoken)) of
                             None \<Rightarrow> spoken | Some rs \<Rightarrow> string_of_runes rs);
                  words = go_fields short
              in if length words > VoiceDefaultMaxWords then join_with '' '' (take VoiceDefaultMaxWords words) @ ''.'' else short)"

text \<open>The loop from the newest message back, on the messages in that order.\<close>

fun within_history :: "nat \<Rightarrow> nat \<Rightarrow> context_message list \<Rightarrow> context_message list" where
  "within_history n used [] = []"
| "within_history n used (m # ms) =
     (if n \<ge> 127 \<or> used + length (cm_content m) > 128 * 1024 then []
      else m # within_history (Suc n) (used + length (cm_content m)) ms)"

definition bounded_voice_history :: "context_message list \<Rightarrow> context_message list" where
  "bounded_voice_history ms = rev (within_history 0 0 (rev ms))"

subsection \<open>Taking the floor\<close>

text \<open>A turn that entitles its speaker to an answer, in the room as it was found.\<close>

definition entitled :: "voice_tables \<Rightarrow> voice_room \<Rightarrow> int \<Rightarrow> voice_turn \<Rightarrow> bool" where
  "entitled vt room now t \<longleftrightarrow>
     \<not> voice_backchannel vt (trim_space (vo_text t)) \<and> taken_part vt room now (vo_user t) (trim_space (vo_text t))"

definition found_room :: "string \<Rightarrow> voice_rooms \<Rightarrow> voice_room" where
  "found_room scope rooms = (case map_of rooms scope of None \<Rightarrow> empty_room | Some r \<Rightarrow> r)"

lemma answer_turn_entitled:
  "entitled vt room now t \<Longrightarrow> vd_respond (snd (answer_turn vt now t (room, d))) \<and> vd_requester (snd (answer_turn vt now t (room, d))) = vo_user t"
  by (simp add: answer_turn_def entitled_def Let_def)

lemma answer_turn_other:
  "\<not> entitled vt room now t \<Longrightarrow> fst (answer_turn vt now t (room, d)) = room
     \<and> vd_respond (snd (answer_turn vt now t (room, d))) = vd_respond d \<and> vd_requester (snd (answer_turn vt now t (room, d))) = vd_requester d"
  by (auto simp: answer_turn_def entitled_def Let_def)

lemma answers_keep:
  "vd_respond d \<Longrightarrow> vd_requester d \<in> U \<Longrightarrow> vo_user ` set ts \<subseteq> U \<Longrightarrow>
     vd_respond (snd (fold (answer_turn vt now) ts (room, d))) \<and> vd_requester (snd (fold (answer_turn vt now) ts (room, d))) \<in> U"
proof (induction ts arbitrary: room d)
  case (Cons t ts)
  obtain room' d' where s: "answer_turn vt now t (room, d) = (room', d')" by fastforce
  have "vd_respond d' \<and> vd_requester d' \<in> U"
    using answer_turn_entitled [of vt room now t d] answer_turn_other [of vt room now t d] Cons.prems
    by (cases "entitled vt room now t") (auto simp: s)
  then show ?case using Cons.IH [of d' room'] Cons.prems(3) by (simp add: s)
qed simp

lemma answers_entitled:
  "\<not> vd_respond d \<Longrightarrow> vd_requester d = [] \<Longrightarrow>
     (if list_ex (entitled vt room now) ts
      then vd_respond (snd (fold (answer_turn vt now) ts (room, d))) \<and> vd_requester (snd (fold (answer_turn vt now) ts (room, d))) \<in> vo_user ` set ts
      else \<not> vd_respond (snd (fold (answer_turn vt now) ts (room, d))) \<and> vd_requester (snd (fold (answer_turn vt now) ts (room, d))) = []
           \<and> fst (fold (answer_turn vt now) ts (room, d)) = room)"
proof (induction ts arbitrary: d)
  case (Cons t ts)
  obtain room' d' where s: "answer_turn vt now t (room, d) = (room', d')" by fastforce
  show ?case
  proof (cases "entitled vt room now t")
    case True
    then have "vd_respond d'" "vd_requester d' = vo_user t" using answer_turn_entitled [OF True, of d] by (simp_all add: s)
    then show ?thesis
      using answers_keep [of d' "vo_user ` set (t # ts)" ts vt now room'] True by (auto simp: s)
  next
    case False
    then have o: "room' = room" "vd_respond d' = vd_respond d" "vd_requester d' = vd_requester d"
      using answer_turn_other [OF False, of d] by (simp_all add: s)
    then show ?thesis using Cons.IH [of d'] Cons.prems False by (auto simp: s split: if_splits)
  qed
qed simp

lemma room_locked_found: "fst (room_locked scope rooms) = found_room scope rooms"
  by (simp add: room_locked_def found_room_def split: option.split)

lemma map_of_fresh: "map_of (filter (\<lambda>(user, until). now < until) xs) user = Some t \<Longrightarrow> now < (t::int)"
  by (induction xs) (auto split: if_splits)

lemma map_of_unfresh:
  "distinct (map fst xs) \<Longrightarrow> map_of (filter (\<lambda>(user, until). now < until) xs) user =
     (case map_of xs user of None \<Rightarrow> None | Some t \<Rightarrow> if now < (t::int) then Some t else None)"
proof (induction xs)
  case (Cons x xs)
  have "map_of (filter (\<lambda>(user, until). now < until) xs) k = None" if "k \<notin> fst ` set xs" for k
    using that by (auto simp: map_of_eq_None_iff)
  with Cons show ?case
    by (cases x) (auto split: option.splits if_splits simp: map_of_eq_None_iff)
qed simp

lemma refreshed_entitled:
  "distinct (map fst (vr_engaged room)) \<Longrightarrow> 0 \<le> now \<Longrightarrow> entitled vt (refreshed room now) now t = entitled vt room now t"
  by (auto simp: entitled_def taken_part_def refreshed_def engaged_until_def map_of_unfresh split: option.splits if_splits)

subsection \<open>Runs of a room\<close>

text \<open>
  Any sequence of operations: turns to decide on, listeners that are opened, and replies that end, each to a decision
  that was made before.
\<close>

datatype voice_op = Decide_Op string "voice_turn list" | Open_Op string string string | Reply_Op nat string

fun voice_step ::
    "voice_tables \<Rightarrow> int \<times> voice_op \<Rightarrow> voice_rooms \<times> (string \<times> voice_decision) list \<Rightarrow> voice_rooms \<times> (string \<times> voice_decision) list" where
  "voice_step vt (now, Decide_Op scope turns) (rooms, past) =
     (case decide_voice vt scope turns now rooms of (d, rooms') \<Rightarrow> (rooms', past @ [(scope, d)]))"
| "voice_step vt (now, Open_Op scope listener starter) (rooms, past) = (snd (open_listener scope listener starter now rooms), past)"
| "voice_step vt (now, Reply_Op n reply) (rooms, past) =
     (if n < length past then complete_reply (fst (past ! n)) (snd (past ! n)) reply now rooms else rooms, past)"

definition run_voice :: "voice_tables \<Rightarrow> (int \<times> voice_op) list \<Rightarrow> voice_rooms \<times> (string \<times> voice_decision) list" where
  "run_voice vt ops = fold (voice_step vt) ops ([], [])"

definition room_ok :: "voice_room \<Rightarrow> bool" where
  "room_ok r \<longleftrightarrow> distinct (map fst (vr_engaged r))"

definition rooms_ok :: "voice_rooms \<Rightarrow> bool" where
  "rooms_ok rooms \<longleftrightarrow> distinct (map fst rooms) \<and> length rooms \<le> 256 \<and> snd ` set rooms \<subseteq> Collect room_ok"

lemma update_entries: "snd ` set (AList.update k v xs) \<subseteq> insert v (snd ` set xs)"
  by (induction xs) auto

lemma update_same_length: "map_of xs k \<noteq> None \<Longrightarrow> length (AList.update k v xs) = length xs"
  by (induction xs) auto

lemma update_longer: "length (AList.update k v xs) \<le> Suc (length xs)"
  by (induction xs) auto

lemma delete_length: "k \<in> fst ` set xs \<Longrightarrow> length (AList.delete k xs) < length xs"
  by (induction xs) (auto simp: AList.delete_eq intro: le_imp_less_Suc)

lemma oldest_is_room: "rooms \<noteq> [] \<Longrightarrow> oldest_room [] age rooms \<in> fst ` set rooms"
proof -
  have "oldest_room k age rooms \<in> insert k (fst ` set rooms)" for k age and rooms :: voice_rooms
    by (induction k age rooms rule: oldest_room.induct) (auto split: if_splits)
  note one_of = this
  assume "rooms \<noteq> []"
  then obtain k r rest where "rooms = (k, r) # rest" by (cases rooms) auto
  then show ?thesis using one_of [of k "vr_seen r" rest] by simp
qed

lemma room_ok_update [intro]: "distinct (map fst xs) \<Longrightarrow> distinct (map fst (AList.update k v xs))"
  by (rule distinct_update)

lemma empty_room_ok [simp]: "room_ok empty_room"
  by (simp add: room_ok_def empty_room_def)

lemma rooms_ok_replace:
  "rooms_ok rooms \<Longrightarrow> room_ok r \<Longrightarrow> map_of rooms scope \<noteq> None \<Longrightarrow> rooms_ok (AList.update scope r rooms)"
  using update_entries [of scope r rooms] unfolding rooms_ok_def
  by (intro conjI) (simp_all add: update_same_length distinct_update subset_iff, blast)

lemma rooms_ok_found: "rooms_ok rooms \<Longrightarrow> map_of rooms scope = Some r \<Longrightarrow> room_ok r"
  by (force simp: rooms_ok_def dest!: map_of_SomeD)

lemma found_room_ok: "rooms_ok rooms \<Longrightarrow> room_ok (found_room scope rooms)"
  by (auto simp: found_room_def rooms_ok_found split: option.split)

lemma evicted_ok:
  assumes "rooms_ok rooms" and "256 \<le> length rooms"
  shows "distinct (map fst (AList.delete (oldest_room [] 0 rooms) rooms)) \<and> length (AList.delete (oldest_room [] 0 rooms) rooms) < 256
    \<and> snd ` set (AList.delete (oldest_room [] 0 rooms) rooms) \<subseteq> Collect room_ok"
proof -
  have "oldest_room [] 0 rooms \<in> fst ` set rooms" using assms(2) by (intro oldest_is_room) auto
  then have "length (AList.delete (oldest_room [] 0 rooms) rooms) < length rooms" by (rule delete_length)
  then have "length (AList.delete (oldest_room [] 0 rooms) rooms) < 256" using assms(1) unfolding rooms_ok_def by linarith
  moreover have "distinct (map fst (AList.delete (oldest_room [] 0 rooms) rooms))"
    using assms(1) unfolding rooms_ok_def by (intro distinct_delete) blast
  moreover have "set (AList.delete (oldest_room [] 0 rooms) rooms) \<subseteq> set rooms" by (auto simp: AList.delete_eq)
  ultimately show ?thesis using assms(1) unfolding rooms_ok_def by blast
qed

lemma new_room_ok:
  assumes "distinct (map fst rooms)" and "length rooms < 256" and "snd ` set rooms \<subseteq> Collect room_ok"
  shows "rooms_ok (AList.update scope empty_room rooms)"
proof -
  have "snd ` set (AList.update scope empty_room rooms) \<subseteq> Collect room_ok"
    by (rule subset_trans [OF update_entries]) (simp add: assms(3))
  moreover have "length (AList.update scope empty_room rooms) \<le> 256"
    using update_longer [of scope empty_room rooms] assms(2) by linarith
  ultimately show ?thesis unfolding rooms_ok_def by (intro conjI distinct_update [OF assms(1)])
qed

lemma room_locked_ok:
  assumes "rooms_ok rooms" and "room_locked scope rooms = (r, rooms')"
  shows "rooms_ok rooms' \<and> room_ok r \<and> map_of rooms' scope = Some r"
proof (cases "map_of rooms scope")
  case (Some x)
  then show ?thesis using assms rooms_ok_found by (auto simp: room_locked_def)
next
  case None
  have "rooms_ok (AList.update scope empty_room (if 256 \<le> length rooms then AList.delete (oldest_room [] 0 rooms) rooms else rooms))"
  proof (cases "256 \<le> length rooms")
    case True
    then show ?thesis using evicted_ok [OF assms(1) True] new_room_ok by simp
  next
    case False
    then have "rooms_ok (AList.update scope empty_room rooms)"
      using assms(1) unfolding rooms_ok_def [of rooms] by (intro new_room_ok) simp_all
    then show ?thesis using False by simp
  qed
  moreover have "map_of (AList.update scope empty_room xs) scope = Some empty_room" for xs by (simp add: update_conv')
  ultimately show ?thesis using None assms(2) by (auto simp: room_locked_def)
qed

lemma answers_room_ok: "room_ok room \<Longrightarrow> room_ok (fst (fold (answer_turn vt now) ts (room, d)))"
proof (induction ts arbitrary: room d)
  case (Cons t ts)
  obtain room' d' where s: "answer_turn vt now t (room, d) = (room', d')" by fastforce
  have "room_ok room'"
    using Cons.prems s by (auto simp: answer_turn_def Let_def room_ok_def intro!: distinct_update split: if_splits)
  then show ?case using Cons.IH [of room' d'] by (simp add: s)
qed simp

lemma refreshed_ok: "room_ok room \<Longrightarrow> room_ok (refreshed room now)"
  by (auto simp: room_ok_def refreshed_def intro: distinct_map_filter)

lemma voice_step_ok: "rooms_ok rooms \<Longrightarrow> rooms_ok (fst (voice_step vt op (rooms, past)))"
proof (cases op)
  case (Pair now o')
  assume ok: "rooms_ok rooms"
  show ?thesis
  proof (cases o')
    case (Decide_Op scope turns)
    obtain room rooms1 where r: "room_locked scope rooms = (room, rooms1)" by fastforce
    obtain room' d where f: "fold (answer_turn vt now) turns (refreshed room now, no_answer) = (room', d)" by fastforce
    have "room_ok room" using room_locked_ok [OF ok r] by simp
    then have "room_ok room'" using answers_room_ok [OF refreshed_ok, of room vt now turns now no_answer] f by simp
    then show ?thesis
      using rooms_ok_replace room_locked_ok [OF ok r] by (simp add: Pair Decide_Op decide_voice_def r f)
  next
    case (Open_Op scope listener starter)
    obtain room rooms1 where r: "room_locked scope rooms = (room, rooms1)" by fastforce
    have "room_ok (room\<lparr>vr_listener := listener, vr_starter := starter, vr_seen := now,
        vr_engaged := [(starter, now + VoiceFollowupWindow)], vr_handoff := now + VoiceHandoffWindow\<rparr>)"
      by (simp add: room_ok_def)
    then show ?thesis
      using ok rooms_ok_replace room_locked_ok [OF ok r] by (simp add: Pair Open_Op open_listener_def r)
  next
    case (Reply_Op n reply)
    then show ?thesis
      using ok rooms_ok_found [OF ok]
      by (auto simp: Pair complete_reply_def Let_def room_ok_def intro!: rooms_ok_replace distinct_update split: option.split)
  qed
qed

lemma run_voice_ok: "rooms_ok (fst (run_voice vt ops))"
proof -
  have "rooms_ok (fst s) \<Longrightarrow> rooms_ok (fst (fold (voice_step vt) ops s))" for s
  proof (induction ops arbitrary: s)
    case (Cons op ops)
    then show ?case using voice_step_ok [of "fst s" vt op "snd s"] by simp
  qed simp
  then show ?thesis by (simp add: run_voice_def rooms_ok_def)
qed

text \<open>
  The assistant answers exactly those who are entitled to it.  In the rooms any run of operations leaves, it responds
  to a batch of turns when one of them, not a mere acknowledgement, addresses it by name, is the person's who opened
  the listener, falls within the person's exchange, or continues the conversation within the handoff; the answer is
  then for one of the speakers, and for nobody otherwise.
\<close>

theorem voice_answers_the_entitled:
  "case run_voice vt ops of (rooms, past) \<Rightarrow>
     (case decide_voice vt scope turns (int now) rooms of (d, rooms') \<Rightarrow>
        vd_respond d = list_ex (entitled vt (found_room scope rooms) (int now)) turns
        \<and> (if vd_respond d then list_ex (\<lambda>t. vo_user t = vd_requester d) turns else vd_requester d = [])
        \<and> length rooms' \<le> 256)"
proof -
  obtain rooms past where run: "run_voice vt ops = (rooms, past)" by fastforce
  obtain room rooms1 where r: "room_locked scope rooms = (room, rooms1)" by fastforce
  obtain room' d where f: "fold (answer_turn vt (int now)) turns (refreshed room (int now), no_answer) = (room', d)" by fastforce
  have ok: "rooms_ok rooms" using run_voice_ok [of vt ops] run by simp
  have room: "room = found_room scope rooms" "room_ok room" using room_locked_found [of scope rooms] r room_locked_ok [OF ok r] by simp_all
  have dec: "decide_voice vt scope turns (int now) rooms = (d, AList.update scope room' rooms1)"
    by (simp add: decide_voice_def r f)
  have "entitled vt (refreshed room (int now)) (int now) = entitled vt (found_room scope rooms) (int now)"
    using refreshed_entitled [of room "int now" vt] room by (auto simp: room_ok_def)
  moreover have "rooms_ok (AList.update scope room' rooms1)"
    using voice_step_ok [OF ok, of vt "(int now, Decide_Op scope turns)" past] by (simp add: dec)
  ultimately show ?thesis
    using answers_entitled [of no_answer vt "refreshed room (int now)" "int now" turns] f
    by (auto simp: run dec no_answer_def rooms_ok_def list_ex_iff split: if_splits)
qed

subsection \<open>Silence\<close>

definition uninvited :: "voice_tables \<Rightarrow> string \<Rightarrow> int \<times> voice_op \<Rightarrow> bool" where
  "uninvited vt s op =
     (case op of (now, o') \<Rightarrow> 0 \<le> now \<and>
       (case o' of
          Decide_Op scope turns \<Rightarrow> scope \<noteq> s \<or> list_all (\<lambda>t. voice_backchannel vt (trim_space (vo_text t)) \<or> \<not> voice_addressed vt (trim_space (vo_text t))) turns
        | Open_Op scope listener starter \<Rightarrow> scope \<noteq> s
        | Reply_Op n reply \<Rightarrow> True))"

definition quiet_room :: "voice_room \<Rightarrow> bool" where
  "quiet_room r \<longleftrightarrow> vr_listener r = [] \<and> vr_engaged r = [] \<and> vr_handoff r = 0"

definition quiet :: "string \<Rightarrow> voice_rooms \<times> (string \<times> voice_decision) list \<Rightarrow> bool" where
  "quiet s st \<longleftrightarrow>
     (case st of (rooms, past) \<Rightarrow> quiet_room (found_room s rooms)
        \<and> list_all (\<lambda>(scope, d). scope = s \<longrightarrow> \<not> vd_respond d \<and> vd_requester d = []) past)"

lemma found_other: "k \<noteq> s \<Longrightarrow> found_room s (AList.update k r rooms) = found_room s rooms"
  by (simp add: found_room_def update_conv')

lemma found_same: "found_room s (AList.update s r rooms) = r"
  by (simp add: found_room_def update_conv')

lemma found_deleted: "quiet_room (found_room s rooms) \<Longrightarrow> quiet_room (found_room s (AList.delete k rooms))"
  by (simp add: found_room_def delete_conv' quiet_room_def empty_room_def)

lemma quiet_locked:
  "quiet_room (found_room s rooms) \<Longrightarrow> quiet_room (found_room s (snd (room_locked scope rooms)))"
proof (cases "map_of rooms scope")
  case None
  assume q: "quiet_room (found_room s rooms)"
  have e: "quiet_room empty_room" by (simp add: quiet_room_def empty_room_def)
  show ?thesis
    using q e found_deleted [OF q] None by (cases "scope = s") (auto simp: room_locked_def found_other found_same)
qed (simp add: room_locked_def)

lemma quiet_turn:
  "quiet_room r \<Longrightarrow> 0 \<le> now \<Longrightarrow> entitled vt r now t \<Longrightarrow>
     \<not> voice_backchannel vt (trim_space (vo_text t)) \<and> voice_addressed vt (trim_space (vo_text t))"
  by (auto simp: quiet_room_def entitled_def taken_part_def engaged_until_def)

lemma quiet_step:
  assumes "uninvited vt s op" and "quiet s st"
  shows "quiet s (voice_step vt op st)"
proof -
  obtain now o' rooms past where [simp]: "op = (now, o')" "st = (rooms, past)" by (cases op, cases st) blast
  have now: "0 \<le> now" and q: "quiet_room (found_room s rooms)"
    and p: "list_all (\<lambda>(scope, d). scope = s \<longrightarrow> \<not> vd_respond d \<and> vd_requester d = []) past"
    using assms by (simp_all add: uninvited_def quiet_def)
  show ?thesis
  proof (cases o')
    case (Decide_Op scope turns)
    obtain room rooms1 where r: "room_locked scope rooms = (room, rooms1)" by fastforce
    obtain room' d where f: "fold (answer_turn vt now) turns (refreshed room now, no_answer) = (room', d)" by fastforce
    show ?thesis
    proof (cases "scope = s")
      case False
      then show ?thesis
        using p quiet_locked [OF q, of scope] by (simp add: Decide_Op decide_voice_def r f quiet_def found_other)
    next
      case True
      have quiet: "quiet_room (refreshed room now)"
        using q room_locked_found [of scope rooms] r True by (simp add: quiet_room_def refreshed_def)
      have "\<not> list_ex (entitled vt (refreshed room now) now) turns"
        using assms(1) quiet_turn [OF quiet now] by (fastforce simp: uninvited_def Decide_Op True list_ex_iff list_all_iff)
      then have "\<not> vd_respond d" "vd_requester d = []" "room' = refreshed room now"
        using answers_entitled [of no_answer vt "refreshed room now" now turns] f by (simp_all add: no_answer_def)
      then show ?thesis
        using p quiet by (simp add: Decide_Op decide_voice_def r [unfolded True] f quiet_def True found_same)
    qed
  next
    case (Open_Op scope listener starter)
    obtain room rooms1 where r: "room_locked scope rooms = (room, rooms1)" by fastforce
    show ?thesis
      using assms(1) p q quiet_locked [OF q, of scope]
      by (auto simp: Open_Op uninvited_def open_listener_def r quiet_def found_other)
  next
    case (Reply_Op n reply)
    have "quiet_room (found_room s (complete_reply (fst (past ! n)) (snd (past ! n)) reply now rooms))" if "n < length past"
    proof (cases "fst (past ! n) = s")
      case True
      have "vd_requester (snd (past ! n)) = []" using p that True by (auto simp: list_all_length case_prod_beta)
      then show ?thesis using q by (simp add: complete_reply_def)
    next
      case False
      then show ?thesis using q by (auto simp: complete_reply_def Let_def found_other split: option.split)
    qed
    then show ?thesis using p q by (simp add: Reply_Op quiet_def)
  qed
qed

text \<open>
  The assistant never speaks uninvited: in a room where nobody has called it by name and no listener was opened, no
  decision of the whole run is to respond, whatever is said, asked or decided there and in the other rooms.
\<close>

theorem never_uninvited:
  "if list_all (uninvited vt s) ops
   then list_all (\<lambda>(scope, d). if scope = s then \<not> vd_respond d else True) (snd (run_voice vt ops)) else True"
proof -
  have "list_all (uninvited vt s) ops \<Longrightarrow> quiet s st \<Longrightarrow> quiet s (fold (voice_step vt) ops st)" for st
    by (induction ops arbitrary: st) (simp_all add: quiet_step)
  moreover have "quiet s ([], [])" by (simp add: quiet_def found_room_def quiet_room_def empty_room_def)
  ultimately have "list_all (uninvited vt s) ops \<Longrightarrow> quiet s (run_voice vt ops)" by (simp add: run_voice_def)
  then show ?thesis by (auto simp: quiet_def list_all_iff split: prod.splits)
qed

subsection \<open>The history that is kept\<close>

definition history_fits :: "context_message list \<Rightarrow> bool" where
  "history_fits ms \<longleftrightarrow> length ms \<le> 127 \<and> context_bytes ms \<le> 128 * 1024"

lemma within_history_longest:
  "\<exists>k. within_history n used ms = take k ms \<and> k \<le> length ms \<and> (if n \<le> 127 \<and> used \<le> 128 * 1024 then n + k \<le> 127 \<and> used + context_bytes (take k ms) \<le> 128 * 1024 else True)
     \<and> (\<forall>j \<le> length ms. n + j \<le> 127 \<and> used + context_bytes (take j ms) \<le> 128 * 1024 \<longrightarrow> j \<le> k)"
proof (induction n used ms rule: within_history.induct)
  case (1 n used)
  then show ?case by (simp add: context_bytes_def)
next
  case (2 n used m ms)
  let ?over = "n \<ge> 127 \<or> used + length (cm_content m) > 128 * 1024"
  show ?case
  proof (cases ?over)
    case True
    have "j = 0" if "j \<le> length (m # ms)" "n + j \<le> 127 \<and> used + context_bytes (take j (m # ms)) \<le> 128 * 1024" for j
      using that True by (cases j) (auto simp: context_bytes_def)
    then show ?thesis using True by (intro exI [of _ 0]) (auto simp: context_bytes_def)
  next
    case False
    then obtain k where k: "within_history (Suc n) (used + length (cm_content m)) ms = take k ms" "k \<le> length ms"
      "Suc n + k \<le> 127 \<and> used + length (cm_content m) + context_bytes (take k ms) \<le> 128 * 1024"
      "\<And>j. j \<le> length ms \<Longrightarrow> Suc n + j \<le> 127 \<and> used + length (cm_content m) + context_bytes (take j ms) \<le> 128 * 1024 \<Longrightarrow> j \<le> k"
      using 2 [OF False] by (auto split: if_splits)
    have "j \<le> Suc k" if "j \<le> length (m # ms)" "n + j \<le> 127 \<and> used + context_bytes (take j (m # ms)) \<le> 128 * 1024" for j
      using that k(4) [of "j - 1"] by (cases j) (auto simp: context_bytes_def)
    then show ?thesis
      using False k(1,2,3) by (intro exI [of _ "Suc k"]) (auto simp: context_bytes_def)
  qed
qed

text \<open>
  The history kept of a room is the longest run of its newest messages with at most 127 messages and 128 KiB of text.
\<close>

theorem voice_history_is_longest:
  "\<exists>k. bounded_voice_history ms = drop k ms \<and> history_fits (drop k ms) \<and> list_all (\<lambda>j. \<not> history_fits (drop j ms)) [0..<k]"
proof -
  have bytes: "context_bytes (rev xs) = context_bytes xs" for xs by (simp add: context_bytes_def rev_map [symmetric] sum_list_rev)
  obtain k where k: "within_history 0 0 (rev ms) = take k (rev ms)" "k \<le> length ms" "k \<le> 127 \<and> context_bytes (take k (rev ms)) \<le> 128 * 1024"
    "\<And>j. j \<le> length ms \<Longrightarrow> j \<le> 127 \<and> context_bytes (take j (rev ms)) \<le> 128 * 1024 \<Longrightarrow> j \<le> k"
    using within_history_longest [of 0 0 "rev ms"] by auto
  have kept: "take j (rev ms) = rev (drop (length ms - j) ms)" if "j \<le> length ms" for j
    using that by (simp add: rev_drop)
  have "bounded_voice_history ms = drop (length ms - k) ms"
    using k(1) kept [OF k(2)] by (simp add: bounded_voice_history_def)
  moreover have "history_fits (drop (length ms - k) ms)"
    using k(2,3) bytes [of "drop (length ms - k) ms"] kept [OF k(2)] by (simp add: history_fits_def)
  moreover have "\<not> history_fits (drop j ms)" if "j < length ms - k" for j
  proof
    assume h: "history_fits (drop j ms)"
    have "take (length ms - j) (rev ms) = rev (drop j ms)" using kept [of "length ms - j"] that by simp
    then have "length ms - j \<le> k" using k(4) [of "length ms - j"] h bytes [of "drop j ms"] by (simp add: history_fits_def)
    then show False using that by linarith
  qed
  ultimately show ?thesis by (intro exI [of _ "length ms - k"]) (auto simp: list_all_iff)
qed

end
