(* ===== verification/Chat_Reading.thy ===== *)
theory Chat_Reading
  imports Chat_Context Go_URL Chat_Content "HOL-Library.Sublist" "HOL-Library.Multiset"
begin

section \<open>What of a page goes to the model, and how a formula is shown\<close>

text \<open>
  \<open>SelectWebPassages\<close> and \<open>PDFLimitBytes\<close> of \<open>web_reading.go\<close> and \<open>PlanMath\<close> of \<open>presentation.go\<close>, both of
  \<open>dokja_domain/dokja_chat\<close>.  The regular expressions are written out over runes and bytes; the Unicode tables are a
  parameter.
\<close>

definition pdf_limit_bytes :: "string \<Rightarrow> int" where
  "pdf_limit_bytes v =
     (case atoi (trim_space v) of
        None \<Rightarrow> max_web_document_bytes
      | Some n \<Rightarrow> if n < 1 \<or> n > 100 then max_web_document_bytes else n * 2 ^ 20)"

record web_passage =
  wp_text :: string
  wp_label :: string
  wp_url :: string

record web_document =
  wd_url :: string
  wd_title :: string
  wd_published :: string
  wd_retrieved :: string
  wd_partial :: bool
  wd_passages :: "web_passage list"

definition MaxWebPassages :: int where "MaxWebPassages = 8"

subsection \<open>The pages a question names\<close>

text \<open>
  The expression \<open>(?i)\b(?:pages?|p[a\'a]ginas?|p[a\'a]g\.?)\s+([1-9][0-9]{0,4})\b\<close>, with the accented letter for
  \<open>\'a\<close>: each letter as the set of the runes it folds to.
\<close>

definition letter :: "char \<Rightarrow> nat set" where
  "letter c = (if c = CHR ''s'' then {byte c, byte c - 32, 0x17F} else {byte c, byte c - 32})"

definition open_a :: "nat set" where "open_a = {0x61, 0x41, 0xE1, 0xC1}"

fun take_letters :: "nat set list \<Rightarrow> nat list \<Rightarrow> nat list option" where
  "take_letters [] rs = Some rs"
| "take_letters (l # ls) [] = None"
| "take_letters (l # ls) (r # rs) = (if r \<in> l then take_letters ls rs else None)"

definition maybe_letter :: "nat set \<Rightarrow> nat list \<Rightarrow> nat list" where
  "maybe_letter l rs = (case rs of [] \<Rightarrow> [] | r # rest \<Rightarrow> if r \<in> l then rest else rs)"

definition page_word :: "nat list \<Rightarrow> nat list option" where
  "page_word rs =
     (case take_letters (map letter ''page'') rs of
        Some rest \<Rightarrow> Some (maybe_letter (letter CHR ''s'') rest)
      | None \<Rightarrow>
          (case take_letters ([letter CHR ''p'', open_a] @ map letter ''gina'') rs of
             Some rest \<Rightarrow> Some (maybe_letter (letter CHR ''s'') rest)
           | None \<Rightarrow> map_option (maybe_letter {0x2E}) (take_letters [letter CHR ''p'', open_a, letter CHR ''g''] rs)))"

definition rune_space :: "nat \<Rightarrow> bool" where "rune_space r \<longleftrightarrow> r \<in> {0x09, 0x0A, 0x0C, 0x0D, 0x20}"
definition rune_digit :: "nat \<Rightarrow> bool" where "rune_digit r \<longleftrightarrow> 0x30 \<le> r \<and> r \<le> 0x39"
definition rune_word :: "nat \<Rightarrow> bool" where
  "rune_word r \<longleftrightarrow> rune_digit r \<or> (0x41 \<le> r \<and> r \<le> 0x5A) \<or> (0x61 \<le> r \<and> r \<le> 0x7A) \<or> r = 0x5F"

text \<open>The number of a match that begins here and how many runes it takes; \<open>before\<close> is whether a word rune comes before.\<close>

definition page_match :: "bool \<Rightarrow> nat list \<Rightarrow> (nat list \<times> nat) option" where
  "page_match before rs =
     (if before then None
      else case page_word rs of
          None \<Rightarrow> None
        | Some rest \<Rightarrow>
            (let digits_on = dropWhile rune_space rest; number = takeWhile rune_digit digits_on
             in if length digits_on = length rest \<or> number = [] \<or> hd number = 0x30 \<or> length number > 5
                   \<or> (case drop (length number) digits_on of [] \<Rightarrow> False | r # _ \<Rightarrow> rune_word r)
                then None
                else Some (number, length rs - length (drop (length number) digits_on))))"

text \<open>All matches from the left; \<open>skip\<close> runes still belong to the last one.\<close>

fun page_numbers :: "nat \<Rightarrow> bool \<Rightarrow> nat list \<Rightarrow> nat list list" where
  "page_numbers skip before [] = []"
| "page_numbers skip before (r # rs) =
     (if skip > 0 then page_numbers (skip - 1) (rune_word r) rs
      else case page_match before (r # rs) of
          None \<Rightarrow> page_numbers 0 (rune_word r) rs
        | Some (number, n) \<Rightarrow> number # page_numbers (n - 1) (rune_word r) rs)"

definition wanted_pages :: "string \<Rightarrow> string list" where
  "wanted_pages question = map (\<lambda>n. ''page '' @ string_of_runes n) (page_numbers 0 False (runes question))"

subsection \<open>Choosing the passages\<close>

definition lowered :: "unicode_tables \<Rightarrow> string \<Rightarrow> string" where
  "lowered uc s = string_of_runes (map (uc_lower uc) (runes s))"

definition question_words :: "unicode_tables \<Rightarrow> string \<Rightarrow> string list" where
  "question_words uc question =
     map string_of_runes (fields_func (\<lambda>r. \<not> uc_letter uc r \<and> \<not> uc_digit uc r) [] (runes (lowered uc question)))"

definition passage_score :: "unicode_tables \<Rightarrow> string \<Rightarrow> web_passage \<Rightarrow> nat" where
  "passage_score uc question p =
     (if contains_str (wanted_pages question) (lowered uc (wp_label p)) then 1000 else 0)
     + length (filter (\<lambda>w. rune_count w \<ge> 4 \<and> index_of w (lowered uc (wp_label p @ '' '' @ wp_text p)) \<noteq> None) (question_words uc question))"

text \<open>The first passage with the best score; \<open>found\<close> is the best so far, with its score.\<close>

fun best_passage :: "(nat \<times> nat) option \<Rightarrow> nat \<Rightarrow> nat list \<Rightarrow> nat" where
  "best_passage found i [] = (case found of None \<Rightarrow> 0 | Some (b, s) \<Rightarrow> b)"
| "best_passage found i (score # scores) =
     best_passage (case found of None \<Rightarrow> Some (i, score) | Some (b, s) \<Rightarrow> if score > s then Some (i, score) else found) (Suc i) scores"

definition doc_scores :: "unicode_tables \<Rightarrow> string \<Rightarrow> web_document \<Rightarrow> nat list" where
  "doc_scores uc question doc = map (passage_score uc question) (wd_passages doc)"

definition first_choices :: "unicode_tables \<Rightarrow> string \<Rightarrow> web_document list \<Rightarrow> (nat \<times> nat) list" where
  "first_choices uc question docs =
     map (\<lambda>(d, doc). (d, best_passage None 0 (doc_scores uc question doc)))
       (filter (\<lambda>(d, doc). wd_passages doc \<noteq> []) (zip [0..<length docs] docs))"

definition all_choices :: "unicode_tables \<Rightarrow> string \<Rightarrow> web_document list \<Rightarrow> ((nat \<times> nat) \<times> nat) list" where
  "all_choices uc question docs =
     concat (map (\<lambda>(d, doc). map (\<lambda>(i, score). ((d, i), score)) (zip [0..<length (wd_passages doc)] (doc_scores uc question doc)))
       (zip [0..<length docs] docs))"

text \<open>The extra passages, best score first; \<open>budget\<close> is how many may still be taken.\<close>

fun extra_choices :: "int \<Rightarrow> (nat \<times> nat) list \<Rightarrow> (nat \<times> nat) list \<Rightarrow> (nat \<times> nat) list" where
  "extra_choices budget chosen [] = chosen"
| "extra_choices budget chosen (c # cs) =
     (if budget \<le> 0 then chosen
      else if c \<in> set chosen then extra_choices budget chosen cs
      else extra_choices (budget - 1) (c # chosen) cs)"

definition choices :: "unicode_tables \<Rightarrow> string \<Rightarrow> web_document list \<Rightarrow> (nat \<times> nat) list" where
  "choices uc question docs =
     (let first = first_choices uc question docs
      in extra_choices (MaxWebPassages - int (length first)) first
           (map fst (sort_key (\<lambda>(c, score). - int score) (all_choices uc question docs))))"

definition kept_passages :: "(nat \<times> nat) list \<Rightarrow> nat \<Rightarrow> web_document \<Rightarrow> web_passage list" where
  "kept_passages chosen d doc =
     map snd (filter (\<lambda>(i, p). (d, i) \<in> set chosen) (zip [0..<length (wd_passages doc)] (wd_passages doc)))"

definition select_web_passages :: "unicode_tables \<Rightarrow> web_document list \<Rightarrow> string \<Rightarrow> web_document list" where
  "select_web_passages uc docs question =
     (let chosen = choices uc question docs
      in concat (map (\<lambda>(d, doc).
           (let kept = kept_passages chosen d doc
            in if kept = [] then []
               else [doc\<lparr>wd_passages := kept, wd_partial := wd_partial doc \<or> length kept < length (wd_passages doc)\<rparr>]))
           (zip [0..<length docs] docs)))"

subsection \<open>Formulas\<close>

definition MaxFormulas :: nat where "MaxFormulas = 3"
definition MaxFormulaBytes :: nat where "MaxFormulaBytes = 1024"

record formula =
  fo_latex :: string
  fo_text :: string

definition backticks :: string where "backticks = replicate 3 (CHR 0x60)"

definition line_end :: "string \<Rightarrow> string option" where
  "line_end s =
     (case s of
        [] \<Rightarrow> None
      | c # cs \<Rightarrow>
          if c = CHR 0x0A then Some cs
          else if c = CHR 0x0D \<and> cs \<noteq> [] \<and> hd cs = CHR 0x0A then Some (tl cs) else None)"

definition open_fence :: "string \<Rightarrow> string option" where
  "open_fence s = (if prefix (backticks @ ''math'') s then line_end (drop 7 s) else None)"

definition close_fence :: "string \<Rightarrow> string option" where
  "close_fence s =
     (if prefix backticks s
      then (let rest = dropWhile (\<lambda>c. c = CHR 0x20 \<or> c = CHR 0x09) (drop 3 s) in if rest = [] then Some [] else line_end rest)
      else None)"

text \<open>The shortest body before a closing fence at the start of a line, and what follows the fence.\<close>

fun math_body :: "bool \<Rightarrow> string \<Rightarrow> (string \<times> string) option" where
  "math_body bol [] = None"
| "math_body bol (c # cs) =
     (case (if bol then close_fence (c # cs) else None) of
        Some rest \<Rightarrow> Some ([], rest)
      | None \<Rightarrow> map_option (\<lambda>(body, rest). (c # body, rest)) (math_body (c = CHR 0x0A) cs))"

definition math_block :: "string \<Rightarrow> (string \<times> string) option" where
  "math_block s = (case open_fence s of None \<Rightarrow> None | Some rest \<Rightarrow> math_body True rest)"

definition count_of :: "string \<Rightarrow> string \<Rightarrow> nat" where
  "count_of w s = length (filter (\<lambda>i. prefix w (drop i s)) [0..<length s])"

definition command :: "string \<Rightarrow> string" where "command name = CHR 0x5C # name"

definition needs_image :: "string \<Rightarrow> bool" where
  "needs_image e \<longleftrightarrow>
     length e > 80 \<or> count_of (command ''frac'') e + count_of (command ''sqrt'') e > 1
     \<or> index_of (command ''int'') e \<noteq> None \<or> index_of (command ''sum'') e \<noteq> None"

text \<open>The lines of a block; \<open>None\<close> when one of them is of no known kind.\<close>

fun formula_lines :: "formula \<Rightarrow> bool \<Rightarrow> string list \<Rightarrow> (formula \<times> bool) option" where
  "formula_lines f force [] = Some (f, force)"
| "formula_lines f force (l # ls) =
     (let line = trim_space l
      in if prefix ''latex: '' line \<and> fo_latex f = []
         then formula_lines (f\<lparr>fo_latex := trim_space (drop 7 line)\<rparr>) force ls
         else if prefix ''text: '' line \<and> fo_text f = []
         then formula_lines (f\<lparr>fo_text := trim_space (drop 6 line)\<rparr>) force ls
         else if line = ''image: true'' then formula_lines f True ls
         else None)"

text \<open>What stands for a block, and the image it asks for when \<open>n\<close> were planned before.\<close>

definition plan_block :: "nat \<Rightarrow> string \<Rightarrow> string \<Rightarrow> string \<times> formula list" where
  "plan_block n block body =
     (case formula_lines \<lparr>fo_latex = [], fo_text = []\<rparr> False (split_on (CHR 0x0A) (trim_space body)) of
        None \<Rightarrow> (block, [])
      | Some (f, force) \<Rightarrow>
          if fo_latex f = [] \<or> fo_text f = [] \<or> length (fo_text f) > 2048 then (block, [])
          else (fo_text f @ [CHR 0x0A],
                if length (fo_latex f) \<le> MaxFormulaBytes \<and> (needs_image (fo_latex f) \<or> force) \<and> n < MaxFormulas then [f] else []))"

lemma line_end_shorter: "line_end s = Some r \<Longrightarrow> length r < length s"
  by (auto simp: line_end_def split: list.splits if_splits)

lemma close_fence_shorter: "close_fence s = Some r \<Longrightarrow> length r < length s"
proof -
  define d where "d = dropWhile (\<lambda>c. c = CHR 0x20 \<or> c = CHR 0x09) (drop 3 s)"
  assume c: "close_fence s = Some r"
  then have p: "prefix backticks s" by (simp only: close_fence_def split: if_splits) simp
  have "length backticks = 3" by (simp add: backticks_def)
  then have "length s \<ge> 3" using prefix_length_le [OF p] by simp
  moreover have "length d \<le> length s - 3" using length_dropWhile_le [of _ "drop 3 s"] by (simp add: d_def)
  moreover have "(if d = [] then Some [] else line_end d) = Some r"
    using c p unfolding close_fence_def d_def Let_def by simp
  then have "length r \<le> length d" using line_end_shorter [of d r] by (cases "d = []") auto
  ultimately show ?thesis by linarith
qed

lemma math_body_shorter: "math_body bol s = Some (body, rest) \<Longrightarrow> length rest < length s"
proof (induction s arbitrary: bol body)
  case (Cons c cs)
  show ?case
  proof (cases "if bol then close_fence (c # cs) else None")
    case None
    have "math_body bol (c # cs) = map_option (\<lambda>(body, rest). (c # body, rest)) (math_body (c = CHR 0x0A) cs)"
      by (simp only: math_body.simps None option.case)
    then obtain b where "math_body (c = CHR 0x0A) cs = Some (b, rest)"
      using Cons.prems by (cases "math_body (c = CHR 0x0A) cs") auto
    then have "length rest < length cs" by (rule Cons.IH)
    then show ?thesis by simp
  next
    case (Some r)
    have "math_body bol (c # cs) = Some ([], r)" by (simp only: math_body.simps Some option.case)
    then have "r = rest" using Cons.prems by simp
    moreover have "close_fence (c # cs) = Some r" using Some by (simp split: if_splits)
    ultimately show ?thesis using close_fence_shorter [of "c # cs" r] by simp
  qed
qed simp

lemma math_block_shorter: "math_block s = Some (body, rest) \<Longrightarrow> length rest < length s"
proof -
  assume m: "math_block s = Some (body, rest)"
  then obtain r where r: "open_fence s = Some r" "math_body True r = Some (body, rest)"
    by (auto simp: math_block_def split: option.splits)
  have "length r \<le> length s" using line_end_shorter [of "drop 7 s" r] r(1) by (auto simp: open_fence_def split: if_splits)
  then show ?thesis using math_body_shorter [OF r(2)] by simp
qed

text \<open>The text from a position on; \<open>bol\<close> is whether a line begins there and \<open>n\<close> counts the images so far.\<close>

function plan_math_from :: "bool \<Rightarrow> nat \<Rightarrow> string \<Rightarrow> string \<times> formula list" where
  "plan_math_from bol n s =
     (case (if bol then math_block s else None) of
        Some (body, rest) \<Rightarrow>
          (case plan_block n (take (length s - length rest) s) body of
             (shown_text, images) \<Rightarrow>
               (case plan_math_from True (n + length images) rest of (t, later) \<Rightarrow> (shown_text @ t, images @ later)))
      | None \<Rightarrow>
          (case s of
             [] \<Rightarrow> ([], [])
           | c # cs \<Rightarrow> (case plan_math_from (c = CHR 0x0A) n cs of (t, later) \<Rightarrow> (c # t, later))))"
  by pat_completeness auto
termination
  by (relation "measure (\<lambda>(bol, n, s). length s)") (auto dest: math_block_shorter split: if_splits)

declare plan_math_from.simps [simp del]

lemma plan_math_nil [simp]: "plan_math_from bol n [] = ([], [])"
  by (simp add: plan_math_from.simps [of bol n "[]"] math_block_def open_fence_def backticks_def)

lemma plan_math_char:
  "(if bol then math_block (c # cs) else None) = None \<Longrightarrow>
     plan_math_from bol n (c # cs) = (case plan_math_from (c = CHR 0x0A) n cs of (t, later) \<Rightarrow> (c # t, later))"
  by (subst plan_math_from.simps) (simp only: option.case list.case)

lemma plan_math_at_block:
  "(if bol then math_block s else None) = Some (body, rest) \<Longrightarrow> plan_block n (take (length s - length rest) s) body = (t1, f1) \<Longrightarrow>
     plan_math_from True (n + length f1) rest = (t2, f2) \<Longrightarrow> plan_math_from bol n s = (t1 @ t2, f1 @ f2)"
  by (subst plan_math_from.simps) (simp only: option.case prod.case)

definition plan_math :: "string \<Rightarrow> string \<times> formula list" where
  "plan_math reply = plan_math_from True 0 reply"

subsection \<open>What is shown of a formula\<close>

definition image_ok :: "string \<Rightarrow> formula \<Rightarrow> bool" where
  "image_ok shown_text f \<longleftrightarrow> fo_latex f \<noteq> [] \<and> length (fo_latex f) \<le> MaxFormulaBytes \<and> fo_text f \<noteq> [] \<and> sublist (fo_text f) shown_text"

lemma image_ok_in: "image_ok a f \<Longrightarrow> sublist a b \<Longrightarrow> image_ok b f"
  by (auto simp: image_ok_def intro: sublist_order.order_trans)

lemma plan_block_images:
  "plan_block n block body = (t, fs) \<Longrightarrow> list_all (image_ok t) fs \<and> (n \<le> MaxFormulas \<longrightarrow> n + length fs \<le> MaxFormulas)"
  by (auto simp: plan_block_def image_ok_def split: option.splits if_splits)

lemma plan_math_images:
  "plan_math_from bol n s = (t, fs) \<Longrightarrow> list_all (image_ok t) fs \<and> (n \<le> MaxFormulas \<longrightarrow> n + length fs \<le> MaxFormulas)"
proof (induction "length s" arbitrary: bol n s t fs rule: less_induct)
  case less
  show ?case
  proof (cases "if bol then math_block s else None")
    case None
    show ?thesis
    proof (cases s)
      case Nil
      then show ?thesis using less.prems by simp
    next
      case (Cons c cs)
      obtain t' fs' where t': "plan_math_from (c = CHR 0x0A) n cs = (t', fs')" by fastforce
      have t: "t = c # t'" "fs = fs'" using less.prems plan_math_char [OF None [unfolded Cons], of n] t' by (simp_all add: Cons)
      have "list_all (image_ok t') fs' \<and> (n \<le> MaxFormulas \<longrightarrow> n + length fs' \<le> MaxFormulas)"
        by (rule less.hyps [OF _ t']) (simp add: Cons)
      moreover have "sublist t' t" by (simp add: t sublist_Cons_right)
      ultimately show ?thesis using image_ok_in [of t' _ t] by (auto simp: t(2) list_all_iff)
    qed
  next
    case (Some block)
    obtain body rest where b: "block = (body, rest)" by fastforce
    obtain t1 f1 where p: "plan_block n (take (length s - length rest) s) body = (t1, f1)" by fastforce
    obtain t2 f2 where q: "plan_math_from True (n + length f1) rest = (t2, f2)" by fastforce
    have t: "t = t1 @ t2" "fs = f1 @ f2"
      using less.prems plan_math_at_block [OF Some [unfolded b] p q] by simp_all
    have shorter: "length rest < length s" using Some math_block_shorter by (simp add: b split: if_splits)
    have one: "list_all (image_ok t1) f1 \<and> (n \<le> MaxFormulas \<longrightarrow> n + length f1 \<le> MaxFormulas)" by (rule plan_block_images [OF p])
    have two: "list_all (image_ok t2) f2 \<and> (n + length f1 \<le> MaxFormulas \<longrightarrow> n + length f1 + length f2 \<le> MaxFormulas)"
      by (rule less.hyps [OF shorter q])
    have "sublist t1 t" "sublist t2 t" by (simp_all add: t(1) sublist_appendI)
    then have "list_all (image_ok t) f1" "list_all (image_ok t) f2"
      using one two image_ok_in [of t1 _ t] image_ok_in [of t2 _ t] by (auto simp: list_all_iff)
    then show ?thesis using one two by (auto simp: t(2))
  qed
qed

lemma plan_math_plain: "\<not> sublist backticks s \<Longrightarrow> plan_math_from bol n s = (s, [])"
proof (induction s arbitrary: bol)
  case (Cons c cs)
  have "\<not> prefix (backticks @ ''math'') (c # cs)"
    using Cons.prems by (metis append_prefixD prefix_imp_sublist)
  then have "(if bol then math_block (c # cs) else None) = None" by (simp add: math_block_def open_fence_def)
  moreover have "\<not> sublist backticks cs" using Cons.prems by (auto simp: sublist_Cons_right)
  ultimately show ?case using plan_math_char [of bol c cs n] Cons.IH by simp
qed simp

text \<open>
  A formula stays readable: a reply shows at most three images, each of at most 1024 bytes of LaTeX and with its
  text in the reply, and a reply without a fence is left as it is.
\<close>

theorem formulas_stay_readable:
  "case plan_math reply of (shown_text, images) \<Rightarrow>
     length images \<le> MaxFormulas \<and> list_all (image_ok shown_text) images
     \<and> (if sublist backticks reply then True else shown_text = reply \<and> images = [])"
proof -
  obtain t fs where p: "plan_math_from True 0 reply = (t, fs)" by fastforce
  show ?thesis
    using plan_math_images [OF p] plan_math_plain [of reply True 0] p by (auto simp: plan_math_def)
qed

subsection \<open>Which passages are chosen\<close>

lemma best_passage_some:
  "(best_passage (Some (b, s)) i scores = b \<and> (\<forall>x \<in> set scores. x \<le> s))
   \<or> (\<exists>j < length scores. best_passage (Some (b, s)) i scores = i + j \<and> s < scores ! j \<and> (\<forall>x \<in> set scores. x \<le> scores ! j))"
proof (induction scores arbitrary: b s i)
  case (Cons score scores)
  show ?case
  proof (cases "score > s")
    case True
    show ?thesis
    proof (cases "best_passage (Some (i, score)) (Suc i) scores = i \<and> (\<forall>x \<in> set scores. x \<le> score)")
      case here: True
      then show ?thesis using True by (intro disjI2 exI [of _ 0]) auto
    next
      case False
      then obtain j where "j < length scores" "best_passage (Some (i, score)) (Suc i) scores = Suc i + j" "score < scores ! j"
        "\<forall>x \<in> set scores. x \<le> scores ! j" using Cons [of i score "Suc i"] by blast
      then show ?thesis using True by (intro disjI2 exI [of _ "Suc j"]) auto
    qed
  next
    case small: False
    show ?thesis
    proof (cases "best_passage (Some (b, s)) (Suc i) scores = b \<and> (\<forall>x \<in> set scores. x \<le> s)")
      case True
      then show ?thesis using small by auto
    next
      case False
      then obtain j where "j < length scores" "best_passage (Some (b, s)) (Suc i) scores = Suc i + j" "s < scores ! j"
        "\<forall>x \<in> set scores. x \<le> scores ! j" using Cons [of b s "Suc i"] by blast
      then show ?thesis using small by (intro disjI2 exI [of _ "Suc j"]) auto
    qed
  qed
qed simp

lemma best_passage_best:
  assumes "scores \<noteq> []"
  shows "best_passage None 0 scores < length scores \<and> (\<forall>x \<in> set scores. x \<le> scores ! best_passage None 0 scores)"
proof -
  obtain score rest where s: "scores = score # rest" using assms by (cases scores) auto
  show ?thesis
    using best_passage_some [of 0 score "Suc 0" rest] by (auto simp: s)
qed

lemma extra_choices_props:
  "distinct chosen \<Longrightarrow> distinct cs \<Longrightarrow>
     distinct (extra_choices budget chosen cs) \<and> set chosen \<subseteq> set (extra_choices budget chosen cs)
     \<and> set (extra_choices budget chosen cs) \<subseteq> set chosen \<union> set cs
     \<and> length (extra_choices budget chosen cs) = length chosen + min (nat budget) (card (set cs - set chosen))"
proof (induction budget chosen cs rule: extra_choices.induct)
  case (2 budget chosen c cs)
  have fin: "finite (set cs - set chosen)" by simp
  consider "budget \<le> 0" | "0 < budget" "c \<in> set chosen" | "0 < budget" "c \<notin> set chosen" by linarith
  then show ?case
  proof cases
    case 1
    then show ?thesis using 2(3) by auto
  next
    case two: 2
    have "set (c # cs) - set chosen = set cs - set chosen" using two(2) by auto
    then show ?thesis using 2(1) 2(3,4) two by auto
  next
    case 3
    have "set cs - set (c # chosen) = set cs - set chosen" using 2(4) by auto
    moreover have "set (c # cs) - set chosen = insert c (set cs - set chosen)" using 3(2) by auto
    then have "card (set (c # cs) - set chosen) = Suc (card (set cs - set chosen))" using 2(4) by simp
    moreover have "nat budget = Suc (nat (budget - 1))" using 3(1) by simp
    ultimately show ?thesis using 2(2) 2(3,4) 3 by auto
  qed
qed auto

lemma in_numbered: "(d, doc) \<in> set (zip [0..<length docs] docs) \<longleftrightarrow> d < length docs \<and> doc = docs ! d"
  by (auto simp: in_set_zip intro: exI [of _ d])

lemma length_doc_scores [simp]: "length (doc_scores uc q doc) = length (wd_passages doc)"
  by (simp add: doc_scores_def)

definition pairs_of :: "web_document list \<Rightarrow> (nat \<times> nat) set" where
  "pairs_of docs = (SIGMA d : {..<length docs}. {..<length (wd_passages (docs ! d))})"

lemma finite_pairs [simp]: "finite (pairs_of docs)"
  by (simp add: pairs_of_def)

lemma card_pairs: "card (pairs_of docs) = sum_list (map (\<lambda>doc. length (wd_passages doc)) docs)"
  by (simp add: pairs_of_def sum_list_sum_nth atLeast0LessThan)

lemma first_choices_map: "map fst (first_choices uc q docs) = map fst (filter (\<lambda>(d, doc). wd_passages doc \<noteq> []) (zip [0..<length docs] docs))"
  by (simp add: first_choices_def comp_def case_prod_beta)

lemma first_choices_distinct: "distinct (first_choices uc q docs)"
proof -
  have "distinct (map fst (filter P (zip [0..<length docs] docs)))" for P by (intro distinct_map_filter) simp
  then have "distinct (map fst (first_choices uc q docs))" unfolding first_choices_map .
  then show ?thesis unfolding distinct_map by blast
qed

lemma first_choices_pairs: "set (first_choices uc q docs) \<subseteq> pairs_of docs"
proof
  fix x assume "x \<in> set (first_choices uc q docs)"
  then obtain d doc where d: "(d, doc) \<in> set (zip [0..<length docs] docs)" "wd_passages doc \<noteq> []"
    "x = (d, best_passage None 0 (doc_scores uc q doc))" by (auto simp: first_choices_def)
  have "doc_scores uc q doc \<noteq> []" using d(2) by (simp add: doc_scores_def)
  from best_passage_best [OF this] show "x \<in> pairs_of docs" using d in_numbered [of d doc docs] by (simp add: pairs_of_def)
qed

lemma length_first: "length (first_choices uc q docs) = length (filter (\<lambda>doc. wd_passages doc \<noteq> []) docs)"
proof -
  have "map snd (filter (\<lambda>(d, doc). wd_passages doc \<noteq> []) (zip ns docs)) = filter (\<lambda>doc. wd_passages doc \<noteq> []) docs"
    if "length ns = length docs" for ns :: "nat list"
    using that by (induction ns docs rule: list_induct2) auto
  from this [of "[0..<length docs]"] show ?thesis unfolding first_choices_def by (metis length_map length_upt minus_nat.diff_0)
qed

lemma numbered_fst:
  "length (scores :: nat list) = n \<Longrightarrow> map fst (map (\<lambda>(i, score). ((d, i), score)) (zip [0..<n] scores)) = map (Pair d) [0..<n]"
proof -
  have "map fst (map (\<lambda>(i, score). ((d, i), score)) xs) = map (Pair d) (map fst xs)" for xs :: "(nat \<times> nat) list"
    by (induction xs) auto
  note pull = this [of "zip [0..<n] scores"]
  assume "length scores = n"
  then have "map fst (zip [0..<n] scores) = [0..<n]" by simp
  then show ?thesis using pull by (simp only:)
qed

lemma all_choices_fst:
  "map fst (all_choices uc q docs) =
     concat (map (\<lambda>(d, doc). map (Pair d) [0..<length (wd_passages doc)]) (zip [0..<length docs] docs))"
proof -
  have "map fst (concat (map (\<lambda>(d, doc). map (\<lambda>(i, score). ((d, i), score)) (zip [0..<length (wd_passages doc)] (doc_scores uc q doc))) xs))
      = concat (map (\<lambda>(d, doc). map (Pair d) [0..<length (wd_passages doc)]) xs)" for xs
  proof (induction xs)
    case (Cons x xs)
    obtain d doc where x: "x = (d, doc)" by fastforce
    have "map fst (map (\<lambda>(i, score). ((d, i), score)) (zip [0..<length (wd_passages doc)] (doc_scores uc q doc))) = map (Pair d) [0..<length (wd_passages doc)]"
      by (rule numbered_fst) simp
    then show ?case using Cons by (simp only: x list.map concat.simps map_append prod.case)
  qed simp
  then show ?thesis unfolding all_choices_def .
qed

lemma all_choices_pairs: "set (map fst (all_choices uc q docs)) = pairs_of docs"
proof -
  have "set (concat (map (\<lambda>(d, doc). map (Pair d) [0..<length (wd_passages doc)]) (zip [0..<length docs] docs))) = pairs_of docs"
  proof (intro set_eqI iffI)
    fix x assume "x \<in> pairs_of docs"
    then obtain d i where x: "x = (d, i)" "d < length docs" "i < length (wd_passages (docs ! d))" by (auto simp: pairs_of_def)
    then have "(d, docs ! d) \<in> set (zip [0..<length docs] docs)" by (simp add: in_numbered)
    then show "x \<in> set (concat (map (\<lambda>(d, doc). map (Pair d) [0..<length (wd_passages doc)]) (zip [0..<length docs] docs)))"
      using x(3) unfolding x(1) set_concat set_map by (force simp: image_iff)
  qed (auto simp: pairs_of_def in_numbered)
  then show ?thesis by (simp only: all_choices_fst)
qed

lemma all_choices_distinct: "distinct (map fst (all_choices uc q docs))"
proof -
  have apart: "distinct (concat (map (\<lambda>(d, doc). map (Pair d) [0..<length (wd_passages doc)]) (zip ns ds)))"
    if "distinct (ns :: nat list)" for ns ds
    using that
  proof (induction ns arbitrary: ds)
    case (Cons n ns)
    then show ?case by (cases ds) (auto simp: distinct_map inj_on_def dest: set_zip_leftD)
  qed simp
  show ?thesis unfolding all_choices_fst by (rule apart) simp
qed

lemma ranked_choices:
  "distinct (map fst (sort_key f (all_choices uc q docs))) \<and> set (map fst (sort_key f (all_choices uc q docs))) = pairs_of docs"
proof -
  have "mset (map fst (sort_key f (all_choices uc q docs))) = mset (map fst (all_choices uc q docs))" by simp
  then show ?thesis using all_choices_distinct all_choices_pairs mset_eq_imp_distinct_iff mset_eq_setD by metis
qed

lemma choices_props:
  "distinct (choices uc q docs) \<and> set (first_choices uc q docs) \<subseteq> set (choices uc q docs) \<and> set (choices uc q docs) \<subseteq> pairs_of docs
   \<and> length (choices uc q docs) = min (card (pairs_of docs)) (max 8 (length (first_choices uc q docs)))"
proof -
  let ?first = "first_choices uc q docs" and ?cs = "map fst (sort_key (\<lambda>(c, score). - int score) (all_choices uc q docs))"
  note cs = ranked_choices [of "\<lambda>(c, score). - int score" uc q docs]
  note ex = extra_choices_props [OF first_choices_distinct [of uc q docs] conjunct1 [OF cs], of "MaxWebPassages - int (length ?first)"]
  have c: "choices uc q docs = extra_choices (MaxWebPassages - int (length ?first)) ?first ?cs" by (simp add: choices_def Let_def)
  have card: "card (set ?cs - set ?first) = card (pairs_of docs) - length ?first"
    using cs first_choices_pairs [of uc q docs] distinct_card [OF first_choices_distinct, of uc q docs]
    by (metis card_Diff_subset finite_set)
  have le: "length ?first \<le> card (pairs_of docs)"
    using card_mono [OF finite_pairs first_choices_pairs, of uc q docs] distinct_card [OF first_choices_distinct, of uc q docs] by simp
  have "length ?first + min (nat (8 - int (length ?first))) (card (pairs_of docs) - length ?first) = min (card (pairs_of docs)) (max 8 (length ?first))"
    using le by (auto simp: min_def max_def)
  then show ?thesis using ex cs first_choices_pairs [of uc q docs] unfolding c card by (auto simp: MaxWebPassages_def)
qed

lemma kept_length: "length (kept_passages chosen d doc) = card {i. i < length (wd_passages doc) \<and> (d, i) \<in> set chosen}"
proof -
  let ?z = "zip [0..<length (wd_passages doc)] (wd_passages doc)" and ?P = "\<lambda>(i, p). (d, i) \<in> set chosen"
  have "map fst (filter (\<lambda>(i, p). Q i) (zip ns xs)) = filter Q ns" if "length ns = length xs" for Q and ns :: "nat list" and xs :: "web_passage list"
    using that by (induction ns xs rule: list_induct2) auto
  then have "map fst (filter ?P ?z) = filter (\<lambda>i. (d, i) \<in> set chosen) [0..<length (wd_passages doc)]" by simp
  then have "length (kept_passages chosen d doc) = length (filter (\<lambda>i. (d, i) \<in> set chosen) [0..<length (wd_passages doc)])"
    unfolding kept_passages_def by (metis length_map)
  also have "\<dots> = card (set (filter (\<lambda>i. (d, i) \<in> set chosen) [0..<length (wd_passages doc)]))"
    by (rule distinct_card [symmetric]) simp
  also have "set (filter (\<lambda>i. (d, i) \<in> set chosen) [0..<length (wd_passages doc)]) = {i. i < length (wd_passages doc) \<and> (d, i) \<in> set chosen}"
    by auto
  finally show ?thesis .
qed

text \<open>What is kept of a document: the best passage and perhaps others, in the order of the page.\<close>

definition cut_of :: "unicode_tables \<Rightarrow> string \<Rightarrow> web_document \<Rightarrow> web_document \<Rightarrow> bool" where
  "cut_of uc question doc out \<longleftrightarrow>
     out = doc\<lparr>wd_passages := wd_passages out, wd_partial := wd_partial doc \<or> length (wd_passages out) < length (wd_passages doc)\<rparr>
     \<and> subseq (wd_passages out) (wd_passages doc)
     \<and> list_ex (\<lambda>p. list_all (\<lambda>q. passage_score uc question q \<le> passage_score uc question p) (wd_passages doc)) (wd_passages out)"

lemma kept_subseq: "subseq (kept_passages chosen d doc) (wd_passages doc)"
proof -
  have "subseq (map snd (filter P (zip [0..<length (wd_passages doc)] (wd_passages doc)))) (map snd (zip [0..<length (wd_passages doc)] (wd_passages doc)))" for P
    by (intro subseq_map) simp
  then show ?thesis by (simp add: kept_passages_def)
qed

lemma kept_best:
  assumes "(d, doc) \<in> set (zip [0..<length docs] docs)" and "wd_passages doc \<noteq> []"
  shows "list_ex (\<lambda>p. list_all (\<lambda>q. passage_score uc question q \<le> passage_score uc question p) (wd_passages doc))
           (kept_passages (choices uc question docs) d doc)"
proof -
  let ?b = "best_passage None 0 (doc_scores uc question doc)"
  have b: "?b < length (wd_passages doc)" "\<forall>x \<in> set (doc_scores uc question doc). x \<le> doc_scores uc question doc ! ?b"
    using best_passage_best [of "doc_scores uc question doc"] assms(2) by (auto simp: doc_scores_def)
  have "(d, ?b) \<in> set (first_choices uc question docs)"
    using assms unfolding first_choices_def set_map set_filter by force
  then have "(d, ?b) \<in> set (choices uc question docs)" using choices_props by blast
  moreover have "(?b, wd_passages doc ! ?b) \<in> set (zip [0..<length (wd_passages doc)] (wd_passages doc))"
    using b(1) by (auto simp: in_set_zip intro: exI [of _ ?b])
  ultimately have "wd_passages doc ! ?b \<in> set (kept_passages (choices uc question docs) d doc)"
    unfolding kept_passages_def set_map set_filter by force
  moreover have "list_all (\<lambda>q. passage_score uc question q \<le> passage_score uc question (wd_passages doc ! ?b)) (wd_passages doc)"
    using b by (auto simp: doc_scores_def list_all_iff)
  ultimately show ?thesis by (auto simp: list_ex_iff)
qed

lemma kept_none: "wd_passages doc = [] \<Longrightarrow> kept_passages chosen d doc = []"
  by (simp add: kept_passages_def)

definition cut_docs :: "(nat \<times> nat) list \<Rightarrow> (nat \<times> web_document) list \<Rightarrow> web_document list" where
  "cut_docs chosen ds = concat (map (\<lambda>(d, doc).
     (let kept = kept_passages chosen d doc
      in if kept = [] then []
         else [doc\<lparr>wd_passages := kept, wd_partial := wd_partial doc \<or> length kept < length (wd_passages doc)\<rparr>])) ds)"

lemma cut_docs_of:
  assumes "set ds \<subseteq> set (zip [0..<length docs] docs)"
  shows "list_all2 (cut_of uc question) (map snd (filter (\<lambda>(d, doc). wd_passages doc \<noteq> []) ds)) (cut_docs (choices uc question docs) ds)
    \<and> sum_list (map (\<lambda>doc. length (wd_passages doc)) (cut_docs (choices uc question docs) ds))
        = sum_list (map (\<lambda>(d, doc). length (kept_passages (choices uc question docs) d doc)) ds)"
  using assms
proof (induction ds)
  case (Cons x ds)
  obtain d doc where x: "x = (d, doc)" by fastforce
  let ?kept = "kept_passages (choices uc question docs) d doc"
  have ih: "list_all2 (cut_of uc question) (map snd (filter (\<lambda>(d, doc). wd_passages doc \<noteq> []) ds)) (cut_docs (choices uc question docs) ds)
    \<and> sum_list (map (\<lambda>doc. length (wd_passages doc)) (cut_docs (choices uc question docs) ds))
        = sum_list (map (\<lambda>(d, doc). length (kept_passages (choices uc question docs) d doc)) ds)"
    using Cons by simp
  have "(d, doc) \<in> set (zip [0..<length docs] docs)" using Cons.prems by (simp add: x)
  note best = kept_best [OF this, of uc question]
  show ?case
  proof (cases "wd_passages doc = []")
    case True
    then show ?thesis using ih by (simp add: x cut_docs_def kept_none)
  next
    case False
    note b = best [OF False]
    have "?kept \<noteq> []" using b by auto
    moreover have "cut_of uc question doc (doc\<lparr>wd_passages := ?kept, wd_partial := wd_partial doc \<or> length ?kept < length (wd_passages doc)\<rparr>)"
      using b kept_subseq by (simp add: cut_of_def)
    ultimately show ?thesis using ih False by (simp add: x cut_docs_def Let_def)
  qed
qed (simp add: cut_docs_def)

lemma kept_total:
  "sum_list (map (\<lambda>(d, doc). length (kept_passages (choices uc question docs) d doc)) (zip [0..<length docs] docs)) = length (choices uc question docs)"
proof -
  let ?c = "set (choices uc question docs)"
  let ?S = "\<lambda>d. {i. i < length (wd_passages (docs ! d)) \<and> (d, i) \<in> ?c}"
  have "map (\<lambda>(d, doc). length (kept_passages (choices uc question docs) d doc)) (zip [0..<length docs] docs) = map (\<lambda>d. card (?S d)) [0..<length docs]"
    by (rule nth_equalityI) (simp_all add: kept_length)
  then have "sum_list (map (\<lambda>(d, doc). length (kept_passages (choices uc question docs) d doc)) (zip [0..<length docs] docs)) = (\<Sum>d<length docs. card (?S d))"
    by (simp add: sum_list_sum_nth atLeast0LessThan)
  also have "\<dots> = card (SIGMA d : {..<length docs}. ?S d)" by simp
  also have "(SIGMA d : {..<length docs}. ?S d) = ?c"
    using choices_props [of uc question docs] by (auto simp: pairs_of_def)
  also have "card ?c = length (choices uc question docs)" using choices_props distinct_card by blast
  finally show ?thesis .
qed

text \<open>
  Every page that was read has its say.  Of each document with passages the best passage for the question is kept,
  with others of it, in the order of the page and marked as partial when some are missing; and as many passages are kept as
  there are, up to eight or one for each document, whichever is more.
\<close>

theorem every_page_has_its_say:
  "case select_web_passages uc docs question of out \<Rightarrow>
     list_all2 (cut_of uc question) (filter (\<lambda>doc. wd_passages doc \<noteq> []) docs) out
     \<and> sum_list (map (\<lambda>doc. length (wd_passages doc)) out) =
         min (sum_list (map (\<lambda>doc. length (wd_passages doc)) docs)) (max 8 (length (filter (\<lambda>doc. wd_passages doc \<noteq> []) docs)))"
proof -
  have out: "select_web_passages uc docs question = cut_docs (choices uc question docs) (zip [0..<length docs] docs)"
    by (simp add: select_web_passages_def cut_docs_def Let_def)
  have "map snd (filter (\<lambda>(d, doc). wd_passages doc \<noteq> []) (zip ns docs)) = filter (\<lambda>doc. wd_passages doc \<noteq> []) docs"
    if "length ns = length docs" for ns :: "nat list"
    using that by (induction ns docs rule: list_induct2) auto
  then have f: "map snd (filter (\<lambda>(d, doc). wd_passages doc \<noteq> []) (zip [0..<length docs] docs)) = filter (\<lambda>doc. wd_passages doc \<noteq> []) docs"
    by simp
  note cut = cut_docs_of [of "zip [0..<length docs] docs" docs uc question, OF subset_refl, unfolded f kept_total]
  have "length (choices uc question docs) =
      min (sum_list (map (\<lambda>doc. length (wd_passages doc)) docs)) (max 8 (length (filter (\<lambda>doc. wd_passages doc \<noteq> []) docs)))"
    using choices_props [of uc question docs] by (simp only: card_pairs length_first)
  then show ?thesis using cut unfolding out by simp
qed

end
