(* ===== verification/Media_Domains.thy ===== *)
theory Media_Domains
  imports Voice Go_Duration "HOL-Library.AList" "HOL-Library.Sublist" "HOL-Library.List_Lexorder" "HOL-Library.Char_ord"
begin

section \<open>Memes, moderation and books\<close>

text \<open>
  The packages \<open>dokja_domain/dokja_meme\<close>, \<open>dokja_moderation\<close> and \<open>dokja_book\<close>.  A reply of the plugins is a list
  of entries, the plugins are a port over the world \<open>'w\<close>, and a nil input is an empty one.  A map that is updated in
  place within a reply is the updated entry of the reply.
\<close>

type_synonym reply_entries = "(string \<times> gval) list"

record 'w reading_port =
  rp_dispatch :: "string \<Rightarrow> reply_entries \<Rightarrow> 'w \<Rightarrow> reply_entries res \<times> 'w"
  rp_invoke :: "string \<Rightarrow> string \<Rightarrow> reply_entries \<Rightarrow> 'w \<Rightarrow> reply_entries res \<times> 'w"

subsection \<open>Numbers of a payload\<close>

fun parse_int :: "gval option \<Rightarrow> int option" where
  "parse_int (Some (VInt n)) = Some n"
| "parse_int (Some (VFloat m e)) = Some (trunc_float m e)"
| "parse_int _ = None"

definition int_value :: "gval option \<Rightarrow> int \<Rightarrow> int" where
  "int_value v fallback = (case parse_int v of None \<Rightarrow> fallback | Some n \<Rightarrow> n)"

subsection \<open>The reading service\<close>

definition library :: "'w reading_port \<Rightarrow> string \<Rightarrow> reply_entries \<Rightarrow> 'w \<Rightarrow> reply_entries res \<times> 'w" where
  "library port action input w = rp_invoke port ''media.library.v1'' action input w"

fun observations :: "gval option \<Rightarrow> reply_entries list" where
  "observations (Some (VList vs)) = concat (map (\<lambda>v. case v of VMap m \<Rightarrow> [m] | _ \<Rightarrow> []) vs)"
| "observations _ = []"

definition is_media :: "reply_entries \<Rightarrow> bool" where
  "is_media row \<longleftrightarrow> str_of (map_of row ''kind'') = ''media'' \<or> str_of (map_of row ''media_url'') \<noteq> []"

definition plugin_of :: "reply_entries \<Rightarrow> string" where
  "plugin_of row = str_of (map_of row ''plugin'')"

text \<open>The observations for the pool; \<open>counts\<close> is how many of each plugin were taken.\<close>

fun take_media :: "int \<Rightarrow> (string \<Rightarrow> int) \<Rightarrow> reply_entries list \<Rightarrow> reply_entries list" where
  "take_media most counts [] = []"
| "take_media most counts (row # rows) =
     (if \<not> is_media row then take_media most counts rows
      else if counts (plugin_of row) \<ge> most then take_media most counts rows
      else row # take_media most (counts(plugin_of row := counts (plugin_of row) + 1)) rows)"

definition refresh_pool :: "'w reading_port \<Rightarrow> int \<Rightarrow> 'w \<Rightarrow> reply_entries res \<times> 'w" where
  "refresh_pool port most w =
     (if most < 1 \<or> most > 200 then (Inl (Errorf ''max_items_per_scraper must be between 1 and 200''), w)
      else case rp_dispatch port ''feeds.refresh'' [] w of
          (Inl e, w1) \<Rightarrow> (Inl e, w1)
        | (Inr refresh, w1) \<Rightarrow>
            (case rp_dispatch port ''feeds.items'' [] w1 of
               (Inl e, w2) \<Rightarrow> (Inl e, w2)
             | (Inr page, w2) \<Rightarrow>
                 (let items = take_media most (\<lambda>_. 0) (observations (map_of page ''items''))
                  in case library port ''ingest'' [(''items'', VList (map VMap items))] w2 of
                       (Inl e, w3) \<Rightarrow> (Inl e, w3)
                     | (Inr result, w3) \<Rightarrow>
                         (let failed = int_value (map_of refresh ''failed'') 0
                          in if failed > 0
                             then (Inl (Errorf (show_nat (nat failed) @ '' source plugins failed; successful observations were retained'')), w3)
                             else (Inr (AList.update ''collection'' (VMap refresh) (AList.update ''scrapers'' (VStrs (sort (remdups (map plugin_of items))))
                                    (AList.update ''max_items_per_scraper'' (VInt most) (AList.update ''status'' (VStr ''refreshed'') result)))), w3)))))"

definition list_memes :: "'w reading_port \<Rightarrow> string \<Rightarrow> int \<Rightarrow> int \<Rightarrow> 'w \<Rightarrow> reply_entries res \<times> 'w" where
  "list_memes port scope limit offset w =
     library port ''list'' [(''scope'', VStr scope), (''limit'', VInt limit), (''offset'', VInt offset)] w"

definition meme_status :: "'w reading_port \<Rightarrow> 'w \<Rightarrow> reply_entries res \<times> 'w" where
  "meme_status port w = library port ''status'' [] w"

definition screen_meme :: "'w reading_port \<Rightarrow> string \<Rightarrow> string \<Rightarrow> 'w \<Rightarrow> reply_entries res \<times> 'w" where
  "screen_meme port url caption w =
     rp_invoke port ''media.perceive.v1'' ''screen'' [(''url'', VStr url), (''caption'', VStr caption)] w"

definition unscreened :: reply_entries where
  "unscreened = [(''safe'', VBool False), (''reason'', VStr ''screen unavailable'')]"

text \<open>Each row of the list is labelled in place; what is not a row stays.\<close>

fun label_rows :: "'w reading_port \<Rightarrow> gval list \<Rightarrow> 'w \<Rightarrow> gval list \<times> 'w" where
  "label_rows port [] w = ([], w)"
| "label_rows port (v # vs) w =
     (case v of
        VMap row \<Rightarrow>
          (case screen_meme port (str_of (map_of row ''url'')) (str_of (map_of row ''title'')) w of
             (answer, w1) \<Rightarrow>
               (case label_rows port vs w1 of
                  (rest, w2) \<Rightarrow> (VMap (AList.update ''nsfw'' (VMap (case answer of Inl e \<Rightarrow> unscreened | Inr verdict \<Rightarrow> verdict)) row) # rest, w2)))
      | _ \<Rightarrow> (case label_rows port vs w of (rest, w1) \<Rightarrow> (v # rest, w1)))"

definition fetch_memes :: "'w reading_port \<Rightarrow> int option \<Rightarrow> 'w \<Rightarrow> reply_entries res \<times> 'w" where
  "fetch_memes port limit w =
     (case library port ''fetch'' (case limit of None \<Rightarrow> [] | Some n \<Rightarrow> [(''limit'', VInt n)]) w of
        (Inl e, w1) \<Rightarrow> (Inl e, w1)
      | (Inr result, w1) \<Rightarrow>
          (case map_of result ''memes'' of
             Some (VList vs) \<Rightarrow>
               (case label_rows port vs w1 of (rows, w2) \<Rightarrow> (Inr (AList.update ''memes'' (VList rows) result), w2))
           | _ \<Rightarrow> (Inr result, w1)))"

definition read_text :: "'w reading_port \<Rightarrow> string \<Rightarrow> 'w \<Rightarrow> reply_entries res \<times> 'w" where
  "read_text port url w = rp_invoke port ''media.perceive.v1'' ''read-text'' [(''url'', VStr url)] w"

definition mark_sent :: "'w reading_port \<Rightarrow> string \<Rightarrow> 'w \<Rightarrow> gerror option \<times> 'w" where
  "mark_sent port url w =
     (case library port ''mark-sent'' [(''url'', VStr url)] w of
        (Inl e, w1) \<Rightarrow> (Some e, w1)
      | (Inr result, w1) \<Rightarrow>
          (if bool_of (map_of result ''marked'') then None else Some (Errorf ''media was not marked as sent''), w1))"

text \<open>The bytes and their content type; the code also returns what was decoded before an error.\<close>

definition fetch_attachment :: "'w reading_port \<Rightarrow> string \<Rightarrow> 'w \<Rightarrow> (string \<times> string) res \<times> 'w" where
  "fetch_attachment port url w =
     (case library port ''contains'' [(''url'', VStr url)] w of
        (Inl e, w1) \<Rightarrow> (Inl e, w1)
      | (Inr result, w1) \<Rightarrow>
          if \<not> bool_of (map_of result ''exists'') then (Inl (Errorf ''url is not in the media library''), w1)
          else case rp_invoke port ''media.perceive.v1'' ''attachment'' [(''url'', VStr url)] w1 of
              (Inl e, w2) \<Rightarrow> (Inl e, w2)
            | (Inr answer, w2) \<Rightarrow>
                (let encoded = str_of (map_of answer ''data_b64'')
                 in if encoded = [] then (Inl (Errorf ''media plugin returned no attachment data''), w2)
                    else case b64_decode encoded of
                        None \<Rightarrow> (Inl (Errorf ''illegal base64 data''), w2)
                      | Some data \<Rightarrow> (Inr (data, str_of (map_of answer ''content_type'')), w2)))"

subsection \<open>The meme domain\<close>

record 'w meme_service =
  ms_fetch :: "int option \<Rightarrow> 'w \<Rightarrow> reply_entries res \<times> 'w"
  ms_refresh :: "int \<Rightarrow> 'w \<Rightarrow> reply_entries res \<times> 'w"
  ms_status :: "'w \<Rightarrow> reply_entries res \<times> 'w"
  ms_screen :: "string \<Rightarrow> string \<Rightarrow> 'w \<Rightarrow> reply_entries res \<times> 'w"
  ms_list :: "string \<Rightarrow> int \<Rightarrow> int \<Rightarrow> 'w \<Rightarrow> reply_entries res \<times> 'w"

definition reading_service :: "'w reading_port \<Rightarrow> 'w meme_service" where
  "reading_service port =
     \<lparr>ms_fetch = fetch_memes port, ms_refresh = refresh_pool port, ms_status = meme_status port, ms_screen = screen_meme port,
      ms_list = list_memes port\<rparr>"

definition meme_handle :: "'w meme_service option \<Rightarrow> string \<Rightarrow> string \<Rightarrow> gmap \<Rightarrow> 'w \<Rightarrow> reply_entries res \<times> 'w" where
  "meme_handle service action event_type p w =
     (case service of
        None \<Rightarrow> (Inl (Errorf ''meme service is not configured''), w)
      | Some sv \<Rightarrow>
          if action = ''fetch-memes'' then ms_fetch sv (parse_int (p ''limit'')) w
          else if action = ''refresh-meme-pool'' then ms_refresh sv (int_value (p ''max_items_per_scraper'') 20) w
          else if action = ''inspect-meme-service'' then ms_status sv w
          else if action = ''screen-meme''
          then (if trim_space (str_of (p ''url'')) = [] then (Inl (Errorf ''meme screen requires a url''), w)
                else ms_screen sv (trim_space (str_of (p ''url''))) (trim_space (str_of (p ''caption''))) w)
          else if action = ''list-memes''
          then ms_list sv (trim_space (str_of (p ''scope''))) (int_value (p ''limit'') 20) (int_value (p ''offset'') 0) w
          else (Inl (Errorf (''unsupported meme action '' @ go_quote action @ '' for event type '' @ go_quote event_type)), w))"

subsection \<open>Moderation\<close>

record media_decision =
  md_safe :: bool
  md_reason :: string

definition refused_media :: "string \<Rightarrow> media_decision" where
  "refused_media reason = \<lparr>md_safe = False, md_reason = reason\<rparr>"

definition screen_media ::
    "(string \<Rightarrow> string \<Rightarrow> 'w \<Rightarrow> reply_entries res \<times> 'w) option \<Rightarrow> bool \<Rightarrow> string \<Rightarrow> string \<Rightarrow> 'w \<Rightarrow> media_decision \<times> 'w" where
  "screen_media screener enabled url caption w =
     (case screener of
        None \<Rightarrow> (refused_media ''no screener configured'', w)
      | Some screen \<Rightarrow>
          if \<not> enabled then (refused_media ''meme service is disabled, so the image cannot be screened'', w)
          else case screen url caption w of
              (Inl e, w1) \<Rightarrow> (refused_media (''screen failed: '' @ err_text e), w1)
            | (Inr result, w1) \<Rightarrow>
                if bool_of (map_of result ''safe'') then (\<lparr>md_safe = True, md_reason = []\<rparr>, w1)
                else (let reason = str_of (map_of result ''reason'')
                      in (refused_media (if reason = [] then ''flagged by the nsfw screen'' else reason), w1)))"

definition assess_media_label :: "reply_entries \<Rightarrow> media_decision" where
  "assess_media_label label =
     (case map_of label ''safe'' of
        Some (VBool safe) \<Rightarrow> \<lparr>md_safe = safe, md_reason = str_of (map_of label ''reason'')\<rparr>
      | _ \<Rightarrow> refused_media ''no nsfw label'')"

record screen_input =
  si_event :: string
  si_source :: string
  si_type :: string
  si_content :: string
  si_payload :: gmap
  si_context :: gmap

fun first_content :: "gmap \<Rightarrow> string list \<Rightarrow> string" where
  "first_content p [] = []"
| "first_content p (k # ks) = (if trim_space (str_of (p k)) \<noteq> [] then trim_space (str_of (p k)) else first_content p ks)"

definition extract_content :: "gmap \<Rightarrow> string" where
  "extract_content p = first_content p [''content'', ''message'', ''text'', ''prompt'']"

definition screen_event ::
    "(screen_input \<Rightarrow> 'w \<Rightarrow> gmap res \<times> 'w) option \<Rightarrow> string \<Rightarrow> string \<Rightarrow> string \<Rightarrow> gmap \<Rightarrow> gmap \<Rightarrow> 'w \<Rightarrow> gmap res \<times> 'w" where
  "screen_event policy event source event_type p ctx w =
     (let content = extract_content p
      in case policy of
           Some screen \<Rightarrow>
             screen \<lparr>si_event = event, si_source = source, si_type = event_type, si_content = content, si_payload = p, si_context = ctx\<rparr> w
         | None \<Rightarrow>
             (let result = [''status'' \<mapsto> VStr ''ok'', ''decision'' \<mapsto> VStr ''allow'', ''blocked'' \<mapsto> VBool False,
                            ''source'' \<mapsto> VStr source, ''type'' \<mapsto> VStr event_type]
              in if content = [] then (Inr (result(''status'' \<mapsto> VStr ''skipped'', ''reason'' \<mapsto> VStr ''no textual content'')), w)
                 else (Inr (result(''message_chars'' \<mapsto> VInt (int (length content)))), w)))"

definition moderation_handle ::
    "(screen_input \<Rightarrow> 'w \<Rightarrow> gmap res \<times> 'w) option \<Rightarrow> string \<Rightarrow> string \<Rightarrow> string \<Rightarrow> string \<Rightarrow> gmap \<Rightarrow> gmap \<Rightarrow> 'w \<Rightarrow> gmap res \<times> 'w" where
  "moderation_handle policy action event source event_type p ctx w =
     (if action = ''screen-event'' then screen_event policy event source event_type p ctx w
      else (Inl (Errorf (''unsupported moderation action '' @ go_quote action @ '' for event type '' @ go_quote event_type)), w))"

subsection \<open>Books\<close>

definition merged_input :: "string \<Rightarrow> string \<Rightarrow> string \<Rightarrow> gmap \<Rightarrow> gmap \<Rightarrow> gmap" where
  "merged_input event event_type source p ctx =
     (ctx ++ p)(''event_id'' \<mapsto> VStr event, ''event_type'' \<mapsto> VStr event_type, ''event_source'' \<mapsto> VStr source)"

text \<open>The service of a book is a plugin: an action and its input.\<close>

definition book_handle ::
    "(string \<Rightarrow> string \<Rightarrow> gmap \<Rightarrow> 'w \<Rightarrow> gmap res \<times> 'w) option \<Rightarrow> string \<Rightarrow> string \<Rightarrow> string \<Rightarrow> string \<Rightarrow> gmap \<Rightarrow> gmap \<Rightarrow> 'w \<Rightarrow> gmap res \<times> 'w" where
  "book_handle invoke action event source event_type p ctx w =
     (case invoke of
        None \<Rightarrow> (Inl (Errorf ''book service is not configured''), w)
      | Some ask \<Rightarrow>
          if action = ''summarize-book'' then ask ''document.process.v1'' ''summarize'' (merged_input event event_type source p ctx) w
          else if action = ''classify-book-resource'' then ask ''document.process.v1'' ''classify'' (merged_input event event_type source p ctx) w
          else (Inl (Errorf (''unsupported book action '' @ go_quote action @ '' for event type '' @ go_quote event_type)), w))"

subsection \<open>The pool and its labels\<close>

definition of_plugin :: "string \<Rightarrow> reply_entries list \<Rightarrow> int" where
  "of_plugin s rows = int (length (filter (\<lambda>row. plugin_of row = s) rows))"

lemma of_plugin_simps [simp]:
  "of_plugin s [] = 0"
  "of_plugin s (row # rows) = of_plugin s rows + (if plugin_of row = s then 1 else 0)"
  by (simp_all add: of_plugin_def)

lemma of_plugin_nonneg: "0 \<le> of_plugin s rows"
  by (simp add: of_plugin_def)

lemma take_media_props:
  "subseq (take_media most counts rows) (filter is_media rows)
   \<and> of_plugin s (take_media most counts rows) = max 0 (min (of_plugin s (filter is_media rows)) (most - counts s))"
proof (induction most counts rows rule: take_media.induct)
  case (2 most counts row rows)
  note nonneg = of_plugin_nonneg [of s "filter is_media rows"]
  consider "\<not> is_media row" | "is_media row" "counts (plugin_of row) \<ge> most" | "is_media row" "\<not> counts (plugin_of row) \<ge> most" by blast
  then show ?case
  proof cases
    case 1
    then show ?thesis using 2(1) by simp
  next
    case two: 2
    then show ?thesis using 2(2) nonneg by (auto simp: max_def min_def)
  next
    case 3
    define taken where "taken = take_media most (counts(plugin_of row := counts (plugin_of row) + 1)) rows"
    have t: "take_media most counts (row # rows) = row # taken" using 3 by (simp add: taken_def)
    have "subseq taken (filter is_media rows)
        \<and> of_plugin s taken = max 0 (min (of_plugin s (filter is_media rows)) (most - (counts s + (if plugin_of row = s then 1 else 0))))"
      using 2(3) [OF _ 3(2)] 3(1) unfolding taken_def [symmetric] by (auto split: if_splits)
    then show ?thesis using 3 nonneg unfolding t by (auto simp: max_def min_def split: if_splits)
  qed
qed simp

text \<open>
  The pool takes only media, in the order they were observed, and of each source exactly as many as it has, up to the
  bound of a source.
\<close>

theorem pool_takes_each_share:
  "case take_media most (\<lambda>_. 0) rows of taken \<Rightarrow>
     subseq taken (filter is_media rows) \<and> list_all is_media taken
     \<and> of_plugin s taken = max 0 (min (of_plugin s (filter is_media rows)) most)"
proof -
  have "subseq (take_media most (\<lambda>_. 0) rows) (filter is_media rows)"
    "of_plugin s (take_media most (\<lambda>_. 0) rows) = max 0 (min (of_plugin s (filter is_media rows)) most)"
    using take_media_props [of most "\<lambda>_. 0" rows s] by simp_all
  moreover have "is_media x" if "x \<in> set (take_media most (\<lambda>_. 0) rows)" for x
    using list_emb_set [OF calculation(1) that] by auto
  then have "list_all is_media (take_media most (\<lambda>_. 0) rows)" by (simp add: list_all_iff)
  ultimately show ?thesis by simp
qed

definition label_of :: "gval \<Rightarrow> reply_entries" where
  "label_of v = (case v of VMap row \<Rightarrow> (case map_of row ''nsfw'' of Some (VMap label) \<Rightarrow> label | _ \<Rightarrow> []) | _ \<Rightarrow> [])"

definition screened_safe :: "'w reading_port \<Rightarrow> gval \<Rightarrow> bool" where
  "screened_safe port v \<longleftrightarrow>
     (case v of
        VMap row \<Rightarrow>
          (\<exists>w verdict. fst (screen_meme port (str_of (map_of row ''url'')) (str_of (map_of row ''title'')) w) = Inr verdict
             \<and> map_of verdict ''safe'' = Some (VBool True))
      | _ \<Rightarrow> False)"

lemma labelled_row_safe:
  assumes "screen_meme port (str_of (map_of row ''url'')) (str_of (map_of row ''title'')) w = (answer, w1)"
    and "md_safe (assess_media_label (label_of (VMap (AList.update ''nsfw'' (VMap (case answer of Inl e \<Rightarrow> unscreened | Inr verdict \<Rightarrow> verdict)) row))))"
  shows "screened_safe port (VMap (AList.update ''nsfw'' (VMap (case answer of Inl e \<Rightarrow> unscreened | Inr verdict \<Rightarrow> verdict)) row))"
proof (cases answer)
  case (Inl e)
  then show ?thesis
    using assms(2) by (simp add: label_of_def update_conv' assess_media_label_def unscreened_def)
next
  case (Inr verdict)
  have "map_of verdict ''safe'' = Some (VBool True)"
    using assms(2) unfolding Inr
    by (auto simp: label_of_def update_conv' assess_media_label_def refused_media_def split: option.splits gval.splits)
  then show ?thesis
    using assms(1) unfolding Inr screened_safe_def by (auto simp: update_conv') (metis fst_conv)
qed

lemma label_rows_safe: "list_all (\<lambda>v. md_safe (assess_media_label (label_of v)) \<longrightarrow> screened_safe port v) (fst (label_rows port vs w))"
proof (induction vs arbitrary: w)
  case (Cons v vs)
  show ?case
  proof (cases "\<exists>row. v = VMap row")
    case True
    then obtain row where v: "v = VMap row" by blast
    obtain answer w1 where a: "screen_meme port (str_of (map_of row ''url'')) (str_of (map_of row ''title'')) w = (answer, w1)" by fastforce
    then show ?thesis using Cons [of w1] labelled_row_safe [OF a] by (auto simp: v split: prod.splits)
  next
    case False
    then show ?thesis
      using Cons [of w] by (cases v) (auto simp: label_of_def assess_media_label_def refused_media_def split: prod.splits)
  qed
qed simp

text \<open>
  Media is safe only when it was screened: of the memes a fetch returns, the ones whose label moderation takes for
  safe are those for which the screen answered, for that address and title, that they are; a screen that fails, an
  answer of another shape and a row without a label are unsafe.
\<close>

theorem unscreened_media_is_unsafe:
  "case fst (fetch_memes port limit w) of
     Inr result \<Rightarrow>
       (case map_of result ''memes'' of
          Some (VList rows) \<Rightarrow> list_all (\<lambda>v. if md_safe (assess_media_label (label_of v)) then screened_safe port v else True) rows
        | _ \<Rightarrow> True)
   | Inl _ \<Rightarrow> True"
proof -
  obtain answer w1 where a: "library port ''fetch'' (case limit of None \<Rightarrow> [] | Some n \<Rightarrow> [(''limit'', VInt n)]) w = (answer, w1)" by fastforce
  show ?thesis
  proof (cases answer)
    case (Inl e)
    then show ?thesis using a by (simp add: fetch_memes_def)
  next
    case (Inr result)
    show ?thesis
    proof (cases "\<exists>vs. map_of result ''memes'' = Some (VList vs)")
      case True
      then obtain vs where vs: "map_of result ''memes'' = Some (VList vs)" by blast
      obtain rows w2 where r: "label_rows port vs w1 = (rows, w2)" by fastforce
      have "list_all (\<lambda>v. if md_safe (assess_media_label (label_of v)) then screened_safe port v else True) rows"
        using label_rows_safe [of port vs w1] by (simp add: r)
      then show ?thesis using a by (simp add: fetch_memes_def Inr vs r update_conv')
    next
      case False
      then have "fst (fetch_memes port limit w) = Inr result"
        using a by (auto simp: fetch_memes_def Inr split: option.split gval.split)
      then show ?thesis using False by (auto split: option.split gval.split)
    qed
  qed
qed

end
