(* ===== verification/Spec2Isabelle.thy ===== *)
theory Spec2Isabelle
  imports Service_Guarantees Ordered_Queue Running_Sends Task_Runner
    Music_Sources Inbound_Policy Delivery_Policy Channels Voice
    Runtime_Lifecycle Archive Facts Realtime App_Claims Runtime_Providers Scheduler
    Knowledge_Review Knowledge_Reading Inference_Contract Digest_Links
    Voice_Policy Chat_Reading Media_Domains
begin

text \<open>
  The verification development of NingoDokja, a personal assistant in Go whose parts talk to each
  other as services.  It models the part of the program that decides: the orchestrator's core
  (\<open>src/dokja_orch/internal/core\<close>) and the domain packages the core dispatches to
  (\<open>src/dokja_domain\<close>).

  \<^bold>\<open>How the program is put together.\<close>  An ingress hands the orchestrator an event.  The service
  normalizes it, checks the credentials of the sources that need one, lets the router choose the
  domains and the workflow, skips it when the operator has switched the service or the job off,
  plans one action per domain, builds the context the handlers may see and calls the handlers in
  order.  Around this pipeline stand a queue that lets the messages of one conversation run one
  after the other, the running sends that can be stopped, the runner of typed tasks and the
  operator's controls, kept in a file.  The domain packages hold the rules each handler applies: who
  may be answered, what may be delivered and where, which channels may be read, what plays, which
  modules run, what is remembered of a conversation.

  \<^bold>\<open>How the model corresponds to the code.\<close>  A Go string is a list of bytes, a struct a record, an
  enumeration or a sentinel error a datatype, a \<open>map[string]any\<close> a partial map to \<open>gval\<close>, an
  \<open>int\<close> or \<open>time.Duration\<close> an \<open>int\<close> with the wrap-around written out where a sum can reach it, a
  pair of a value and an error a sum.  What a method changes is a record it takes and returns
  updated.  Code outside the repository's Go packages (the services behind the ports, the file
  system, the clock, tokens, Unicode tables, what \<open>encoding/json\<close> makes of a value and the length of
  the encoding, the parsing of instants) is a parameter: a function that takes the state of the world and
  returns its answer and the world after the call, or a function of the value.

    \<^item> \<open>Prelude\<close>, \<open>Go_Text\<close>, \<open>Go_URL\<close>, \<open>Go_Duration\<close>, \<open>Go_Strings\<close>: bytes, values, errors, and what
      the program uses of Go's standard library, with the facts on trimming, splitting, decoding
      and printing that the components share.  The locale \<open>undoing\<close> is the contract of an operation
      that leaves the state as it was when it reports an error.
    \<^item> \<open>Events\<close> (\<open>core/event.go\<close>), \<open>Chat_Content\<close> (\<open>dokja_chat/incoming_content.go\<close>,
      \<open>web_reading.go\<close>): the event and its normal form, the documents and links of a message.
    \<^item> \<open>Router\<close>, \<open>Workflow\<close>, \<open>Access\<close>, \<open>Controls\<close>, \<open>Service\<close>: \<open>core/router.go\<close>,
      \<open>workflow_engine.go\<close>, the two access checks with \<open>sourceaccess/access.go\<close> and
      \<open>context_builder.go\<close>, \<open>controls.go\<close>, \<open>dispatcher.go\<close> with \<open>service.go\<close>.  The locales
      \<open>event_router\<close>, \<open>workflow_engine\<close>, \<open>planning\<close> and \<open>context_builder\<close> are what the pipeline
      relies on; \<open>Service_Guarantees\<close> joins them in \<open>pipeline\<close>, interprets it on the model's own
      definitions and derives what holds of every processed event.
    \<^item> \<open>Ordered_Queue\<close>, \<open>Running_Sends\<close>: \<open>core/ordered_queue.go\<close>, \<open>running_sends.go\<close>.  The
      steps of the queue are the critical sections of any number of goroutines, and the invariants
      hold of every reachable state.
    \<^item> \<open>Task_Runner\<close> (\<open>core/task.go\<close>, \<open>task_runner.go\<close>): one attempt of a typed workflow; the locale
      \<open>task_invariant\<close> carries what every step keeps to the whole run.
    \<^item> \<open>Music_Queue\<close>, \<open>Music_Sources\<close>, \<open>Inbound_Policy\<close>, \<open>Delivery_Policy\<close>, \<open>Channels\<close>, \<open>Voice\<close>:
      the files of \<open>dokja_domain/dokja_communications\<close>.  \<open>Call_Log\<close> holds the services that record
      their calls, with which a property says what was asked of a service.
    \<^item> \<open>Runtime_Plan\<close>, \<open>Runtime_Lifecycle\<close>: \<open>dokja_runtime/runtime.go\<close>, the plan of a module and the
      controller that starts and stops modules and journals which ones it owns.
    \<^item> \<open>Archive\<close>, \<open>Facts\<close>, \<open>Realtime\<close>: the files of \<open>dokja_domain/dokja_conversation\<close>.
    \<^item> \<open>Memory_Predict\<close>, \<open>Memory_Domain\<close>, \<open>Memory_Notes\<close>: the files of \<open>dokja_domain/dokja_memory\<close>, with the
      IEEE doubles of \<open>Go_Float\<close> and the hash of \<open>Go_SHA256\<close>; the table of simple case folding is a
      parameter.
    \<^item> \<open>App_Records\<close>, \<open>App_Eligibility\<close>, \<open>App_Journal\<close>, \<open>App_Store\<close>: \<open>dokja_memory/application\<close> and its
      tables in \<open>infrastructure/application_journal/postgres.go\<close>, with the policy, the clock, the encoding
      and the faults of each statement as parameters.  \<open>App_Run\<close> states what the journal asks of a store
      as the locale \<open>journal_port\<close> and interprets it on the tables; \<open>App_History\<close>, \<open>App_Tables\<close>,
      \<open>App_Guarantees\<close> and \<open>App_Claims\<close> derive what holds of every run.
    \<^item> \<open>Runtime_Settings\<close>, \<open>Runtime_Chat\<close>, \<open>Runtime_Models\<close>, \<open>Runtime_Providers\<close>: \<open>settings.go\<close>,
      \<open>provider_settings.go\<close> with \<open>chat.go\<close> and \<open>measured_chat.go\<close>, \<open>models.go\<close>, \<open>providers.go\<close> of
      \<open>dokja_runtime\<close>; a download is a sequence of steps that interleave with the requests.
    \<^item> \<open>Scheduler\<close>: \<open>jobs.go\<close> and \<open>service.go\<close> of \<open>dokja_services/dokja_scheduler\<close>, the plan and the loop that
      wakes, reads the overrides and runs what is due.
    \<^item> \<open>Knowledge_Classes\<close>, \<open>Knowledge_Domain\<close>: the classification, the metadata, the requests and the
      proposals of a classifier (\<open>classification.go\<close>, \<open>metadata.go\<close>, \<open>domain.go\<close>,
      \<open>classification_answers.go\<close>, \<open>reading_classification.go\<close>, \<open>reclassification.go\<close> of
      \<open>dokja_domain/dokja_knowledge\<close>).
    \<^item> \<open>Knowledge_Application\<close>, \<open>Knowledge_Proposal\<close>, \<open>Knowledge_Review\<close>: applying stored texts to a goal
      (\<open>application.go\<close>, \<open>supervision.go\<close>, \<open>applicability.go\<close>), what a model proposes and how its
      quotations are anchored (\<open>provider_proposal.go\<close>, \<open>adaptive.go\<close>), and the second opinion
      (\<open>semantic_review.go\<close>).  Their validators are passes over lists: the locale \<open>each_once\<close> of \<open>Go_Scan\<close> is
      the contract of a check of one element, interpreted on each of them.
    \<^item> \<open>Knowledge_Reading\<close>, with the hash of \<open>Go_SHA1\<close>: storing a file that was read, the intake of feeds and
      the labelled examples (\<open>reading.go\<close>, \<open>intake.go\<close>, \<open>hashtag.go\<close>).
    \<^item> \<open>Inference_Contract\<close>: \<open>dokja_inference/contract.go\<close>, the requests and proposals of an inference, against a
      declarative reading of the contract, and the schema that goes along.
    \<^item> \<open>Digest\<close>, \<open>Digest_Links\<close>: \<open>dokja_domain/dokja_digest\<close>, the order and the pages of the reading screen, the
      readings it refers to, and the links, posts and media that are read for a person.
    \<^item> \<open>Chat_Context\<close>, \<open>Voice_Policy\<close>, \<open>Chat_Reading\<close>: the rest of \<open>dokja_domain/dokja_chat\<close>, with the strings of
      JSON in \<open>Go_JSON\<close>: which turns are kept, summarized or left out, the sessions and the participants of a
      channel (\<open>context.go\<close>, \<open>sessions.go\<close>, \<open>voice.go\<close>, \<open>identity.go\<close>), who is answered in a voice room
      (\<open>voice_policy.go\<close>), the passages of pages and the formulas of a reply (\<open>web_reading.go\<close>, \<open>presentation.go\<close>).
    \<^item> \<open>Media_Domains\<close>: \<open>dokja_domain/dokja_meme\<close>, \<open>dokja_moderation\<close> and \<open>dokja_book\<close>, what is collected, screened
      and passed on.

  \<^bold>\<open>What the lemmas show.\<close>  Safety of the pipeline: a handler is only called for a routed domain, with
  an allowed context and after the credentials were checked; a service that is off does nothing.
  Order and liveness of the queue: a lane runs its entries in the order of their tickets, and a wait
  returns once what is ahead was released.  Refinement: the switches of the controls and the archive are transactions over their
  abstract state, the music queue is a first-in-first-out queue.  Equivalence with reference
  definitions: the best match, the longest run of turns, the proposals an inference may make.  Round trips:
  the journal of modules and the intervals of jobs survive a restart.  Bounds, errors and
  termination: the size of a task's result, the messages of a session, the plan of a module, the
  sources of a search.  The journal of applications: an operation takes effect once, its histories are
  legal and forgetting is final.  Trust in models: a proposal cites only what was supplied, quotations
  are verbatim, a classifier never overwrites a person, an assessment follows the quotes and a review is
  never kinder than its reviewer.  Conversations: a display name cannot forge a message, two channels share no
  session, the assistant speaks in a voice room to those entitled to it only, and media that was not screened is unsafe.

  \<^bold>\<open>Fuel.\<close>  One recursion takes fuel: the visit of \<open>Plan\<close>, which gets the number of modules plus two; a
  theorem of \<open>Runtime_Plan\<close> shows that any larger amount gives the same answer.  Every other loop is
  structural or has its measure.

  \<^bold>\<open>Not modelled.\<close>  The handlers of the orchestrator (glue between the core and the domains; a
  parameter of the dispatcher), its ingress, clients and infrastructure (network and files), the
  command line and terminal interfaces (rendering), the services behind the ports (stores over SQL,
  feed plugins, containers), the legacy bot and the experiments.  Of the
  modelled packages: logging, \<open>Tail\<close> of the runtime, \<open>capabilities.go\<close> and the constant prompts of the chat.
  A label of Knowledge is lowered in ASCII, where the code lowers two more letters to ASCII ones (the Kelvin sign and the
  dotted capital I); a save of the runtime's journal that fails leaves the file as it was.
  Copies that only protect against aliasing are the identity on values; map iteration whose order the
  code does not fix is taken in the order of a list.
\<close>

end
